(* ===== verification/Prelude.thy ===== *)
theory Prelude
  imports Main
begin

text \<open>
  What every component of the development shares: results that carry what the code throws, the
  searches and replacements that the in-memory store makes on lists of rows, sums over rows,
  JavaScript's safe integers and decimal text.

  A TypeScript function that may throw returns \<open>thrown + 'a\<close>: \<open>Inl\<close> is the thrown error, \<open>Inr\<close>
  the returned value, and \<open>rbind\<close> is the sequencing of two statements, the second of which
  runs only when the first did not throw.
\<close>

named_theorems result_simps \<open>unfolding a successful run into its steps\<close>
named_theorems row_simps \<open>searching, replacing and summing rows\<close>

section \<open>Results\<close>

text \<open>
  What an operation throws. A \<open>FundingError\<close> or \<open>AccountError\<close> is its HTTP status and its stable
  code (the sentence shown to a person is not modelled); a \<open>RangeError\<close> is thrown by the money and
  calendar contracts; \<open>StoreError\<close> is the store's own refusal of an inconsistent write or read.
\<close>

datatype thrown = FundingError int string | RangeError | PlainError | StoreError

type_synonym 'a res = "thrown + 'a"

definition rbind :: "'e + 'a \<Rightarrow> ('a \<Rightarrow> 'e + 'b) \<Rightarrow> 'e + 'b" where
  "rbind m f = (case m of Inl e \<Rightarrow> Inl e | Inr x \<Rightarrow> f x)"

definition rmap :: "('a \<Rightarrow> 'b) \<Rightarrow> 'e + 'a \<Rightarrow> 'e + 'b" where
  "rmap f m = (case m of Inl e \<Rightarrow> Inl e | Inr x \<Rightarrow> Inr (f x))"

lemma rbind_simps [simp]: "rbind (Inl e) f = Inl e" "rbind (Inr x) f = f x"
  by (simp_all add: rbind_def)

lemma rmap_simps [simp]: "rmap f (Inl e) = Inl e" "rmap f (Inr x) = Inr (f x)"
  by (simp_all add: rmap_def)

lemma rbind_Inr_iff [result_simps]: "rbind m f = Inr y \<longleftrightarrow> (\<exists>x. m = Inr x \<and> f x = Inr y)"
  by (cases m) simp_all

lemma rmap_Inr_iff [result_simps]: "rmap f m = Inr y \<longleftrightarrow> (\<exists>x. m = Inr x \<and> y = f x)"
  by (cases m) auto

lemma rbind_Inl_iff: "rbind m f = Inl e \<longleftrightarrow> m = Inl e \<or> (\<exists>x. m = Inr x \<and> f x = Inl e)"
  by (cases m) simp_all

lemma if_Inr_iff [result_simps]: "(if c then m else m') = Inr y \<longleftrightarrow> c \<and> m = Inr y \<or> \<not> c \<and> m' = Inr y"
  by simp

lemma case_option_Inr_iff [result_simps]:
  "(case x of None \<Rightarrow> m | Some y \<Rightarrow> f y) = Inr z \<longleftrightarrow> x = None \<and> m = Inr z \<or> (\<exists>y. x = Some y \<and> f y = Inr z)"
  by (cases x) simp_all

text \<open>\<open>for (const x of xs) ...\<close>: the body runs on each element in turn and the loop stops at the first throw.\<close>

fun rfold :: "('a \<Rightarrow> 's \<Rightarrow> 'e + 's) \<Rightarrow> 'a list \<Rightarrow> 's \<Rightarrow> 'e + 's" where
  "rfold f [] s = Inr s"
| "rfold f (x # xs) s = rbind (f x s) (rfold f xs)"

text \<open>\<open>xs.map(f)\<close> where \<open>f\<close> may throw.\<close>

fun rmapM :: "('a \<Rightarrow> 'e + 'b) \<Rightarrow> 'a list \<Rightarrow> 'e + 'b list" where
  "rmapM f [] = Inr []"
| "rmapM f (x # xs) = rbind (f x) (\<lambda>y. rbind (rmapM f xs) (\<lambda>ys. Inr (y # ys)))"

lemma rmapM_Inr_iff:
  "rmapM f xs = Inr ys \<longleftrightarrow> length xs = length ys \<and> (\<forall>i < length xs. f (xs ! i) = Inr (ys ! i))"
proof (induction xs arbitrary: ys)
  case Nil
  then show ?case by auto
next
  case (Cons x xs)
  show ?case
    by (cases ys) (auto simp: rbind_Inr_iff Cons.IH nth_Cons less_Suc_eq_0_disj split: nat.splits)
qed

lemma rfold_invariant:
  assumes "rfold f xs s = Inr s'" and "P s"
    and "\<And>x s s'. x \<in> set xs \<Longrightarrow> P s \<Longrightarrow> f x s = Inr s' \<Longrightarrow> P s'"
  shows "P s'"
  using assms
proof (induction xs arbitrary: s)
  case Nil
  then show ?case by simp
next
  case (Cons x xs)
  from Cons.prems(1) obtain t where t: "f x s = Inr t" "rfold f xs t = Inr s'"
    by (auto simp: rbind_Inr_iff)
  from Cons.prems(3) [OF _ Cons.prems(2) t(1)] have "P t" by simp
  with t(2) show ?case using Cons.IH Cons.prems(3) by (meson list.set_intros(2))
qed

section \<open>Rows\<close>

text \<open>
  The store keeps each table as an array in write order. \<open>find\<close> reads the first row that matches;
  \<open>upsert\<close> replaces the first row that matches and pushes the row when none does.
\<close>

fun upsert :: "('r \<Rightarrow> bool) \<Rightarrow> 'r \<Rightarrow> 'r list \<Rightarrow> 'r list" where
  "upsert same row [] = [row]"
| "upsert same row (x # xs) = (if same x then row # xs else x # upsert same row xs)"

lemma find_Some_in_set: "find P xs = Some x \<Longrightarrow> x \<in> set xs \<and> P x"
  by (auto simp: find_Some_iff)

lemma find_append [row_simps]:
  "find P (xs @ ys) = (case find P xs of None \<Rightarrow> find P ys | Some x \<Rightarrow> Some x)"
  by (induction xs) auto

lemma upsert_fresh [row_simps]: "find same xs = None \<Longrightarrow> upsert same row xs = xs @ [row]"
  by (induction xs) (auto split: if_splits)

lemma find_upsert_same: "same row \<Longrightarrow> find same (upsert same row xs) = Some row"
  by (induction xs) auto

lemma find_upsert_other:
  assumes "\<And>x. same x \<Longrightarrow> \<not> Q x" and "\<not> Q row"
  shows "find Q (upsert same row xs) = find Q xs"
  using assms by (induction xs) auto

lemma set_upsert_subset: "set (upsert same row xs) \<subseteq> insert row (set xs)"
  by (induction xs) auto

lemma set_upsertD: "x \<in> set (upsert same row xs) \<Longrightarrow> x = row \<or> x \<in> set xs"
  using set_upsert_subset by fastforce

lemma set_upsert_keeps: "x \<in> set xs \<Longrightarrow> \<not> same x \<Longrightarrow> x \<in> set (upsert same row xs)"
  by (induction xs) auto

lemma row_in_upsert [simp]: "row \<in> set (upsert same row xs)"
  by (induction xs) auto

lemma length_upsert_Some: "find same xs = Some old \<Longrightarrow> length (upsert same row xs) = length xs"
  by (induction xs) (auto split: if_splits)

lemma map_upsert_same_key:
  assumes "find same xs = Some old" and "k row = k old"
  shows "map k (upsert same row xs) = map k xs"
  using assms by (induction xs) (auto split: if_splits)

text \<open>A sum over the rows that satisfy a condition, and how one replacement moves it.\<close>

definition row_sum :: "('r \<Rightarrow> bool) \<Rightarrow> ('r \<Rightarrow> int) \<Rightarrow> 'r list \<Rightarrow> int" where
  "row_sum P f xs = sum_list (map f (filter P xs))"

lemma row_sum_Nil [simp]: "row_sum P f [] = 0"
  by (simp add: row_sum_def)

lemma row_sum_Cons [simp]: "row_sum P f (x # xs) = (if P x then f x else 0) + row_sum P f xs"
  by (simp add: row_sum_def)

lemma row_sum_append [simp]: "row_sum P f (xs @ ys) = row_sum P f xs + row_sum P f ys"
  by (simp add: row_sum_def)

lemma row_sum_upsert:
  "row_sum P f (upsert same row xs) =
     row_sum P f xs + (if P row then f row else 0)
       - (case find same xs of None \<Rightarrow> 0 | Some old \<Rightarrow> if P old then f old else 0)"
  by (induction xs) auto

lemma row_sum_nonneg: "(\<And>x. x \<in> set xs \<Longrightarrow> P x \<Longrightarrow> 0 \<le> f x) \<Longrightarrow> 0 \<le> row_sum P f xs"
  by (induction xs) (auto simp: add_nonneg_nonneg)

lemma row_sum_ge_member:
  "x \<in> set xs \<Longrightarrow> P x \<Longrightarrow> (\<And>x. x \<in> set xs \<Longrightarrow> P x \<Longrightarrow> 0 \<le> f x) \<Longrightarrow> f x \<le> row_sum P f xs"
proof (induction xs)
  case Nil
  then show ?case by simp
next
  case (Cons y ys)
  have rest: "0 \<le> row_sum P f ys"
    by (rule row_sum_nonneg) (use Cons.prems(3) in auto)
  show ?case
  proof (cases "x = y")
    case True
    with rest Cons.prems(2) show ?thesis by simp
  next
    case False
    with Cons.prems(1) have "x \<in> set ys" by simp
    then have "f x \<le> row_sum P f ys"
      using Cons.IH Cons.prems(2,3) by simp
    with Cons.prems(3) [of y] show ?thesis by auto
  qed
qed

lemma row_sum_mono:
  assumes "\<And>x. x \<in> set xs \<Longrightarrow> P x \<Longrightarrow> Q x" and "\<And>x. x \<in> set xs \<Longrightarrow> Q x \<Longrightarrow> 0 \<le> f x"
  shows "row_sum P f xs \<le> row_sum Q f xs"
  using assms by (induction xs) (auto simp: add_increasing add_mono)

lemma row_sum_cong: "(\<And>x. x \<in> set xs \<Longrightarrow> P x = Q x \<and> (P x \<longrightarrow> f x = g x)) \<Longrightarrow> row_sum P f xs = row_sum Q g xs"
  by (induction xs) auto

lemma sum_list_map_filter [row_simps]: "sum_list (map f (filter P xs)) = row_sum P f xs"
  by (simp add: row_sum_def)

lemma row_sum_filter [simp]: "row_sum P f (filter Q xs) = row_sum (\<lambda>x. P x \<and> Q x) f xs"
  by (induction xs) auto

section \<open>Numbers\<close>

text \<open>\<open>Number.isSafeInteger\<close> on a number that is an integer.\<close>

definition is_safe_integer :: "int \<Rightarrow> bool" where
  "is_safe_integer n \<longleftrightarrow> \<bar>n\<bar> \<le> 9007199254740991"

text \<open>\<open>Math.round (a / b)\<close> for integers: half goes up.\<close>

definition round_div :: "int \<Rightarrow> int \<Rightarrow> int" where
  "round_div a b = (2 * a + b) div (2 * b)"

section \<open>Text\<close>

text \<open>A \<open>string\<close> stands for the UTF-8 bytes of a JavaScript string.\<close>

definition digit_char :: "nat \<Rightarrow> char" where
  "digit_char d = char_of (48 + d)"

definition is_digit :: "char \<Rightarrow> bool" where
  "is_digit c \<longleftrightarrow> 48 \<le> (of_char c :: nat) \<and> (of_char c :: nat) \<le> 57"

definition is_upper :: "char \<Rightarrow> bool" where
  "is_upper c \<longleftrightarrow> 65 \<le> (of_char c :: nat) \<and> (of_char c :: nat) \<le> 90"

definition is_lower :: "char \<Rightarrow> bool" where
  "is_lower c \<longleftrightarrow> 97 \<le> (of_char c :: nat) \<and> (of_char c :: nat) \<le> 122"

fun show_nat :: "nat \<Rightarrow> string" where
  "show_nat n = (if n < 10 then [digit_char n] else show_nat (n div 10) @ [digit_char (n mod 10)])"

declare show_nat.simps [simp del]

definition show_int :: "int \<Rightarrow> string" where
  "show_int n = (if n < 0 then CHR ''-'' # show_nat (nat (- n)) else show_nat (nat n))"

text \<open>\<open>String(n).padStart(w, '0')\<close>.\<close>

definition pad_zero :: "nat \<Rightarrow> string \<Rightarrow> string" where
  "pad_zero w t = replicate (w - length t) (CHR ''0'') @ t"

text \<open>\<open>String.length\<close> of the string whose UTF-8 bytes these are: its UTF-16 units.\<close>

definition utf16_units :: "string \<Rightarrow> nat" where
  "utf16_units t = sum_list (map (\<lambda>c. let b = (of_char c :: nat) in
     if 128 \<le> b \<and> b < 192 then 0 else if 240 \<le> b then 2 else 1) t)"

text \<open>\<open>trim\<close> of the ASCII white space.\<close>

definition is_space :: "char \<Rightarrow> bool" where
  "is_space c \<longleftrightarrow> (of_char c :: nat) \<in> {9, 10, 11, 12, 13, 32}"

definition js_trim :: "string \<Rightarrow> string" where
  "js_trim t = rev (dropWhile is_space (rev (dropWhile is_space t)))"

text \<open>\<open>String.split\<close> on one character.\<close>

definition to_lower :: "string \<Rightarrow> string" where
  "to_lower t = map (\<lambda>c. if is_upper c then char_of ((of_char c :: nat) + 32) else c) t"

fun split_on :: "char \<Rightarrow> string \<Rightarrow> string list" where
  "split_on c [] = [[]]"
| "split_on c (x # xs) = (if x = c then [] # split_on c xs
     else case split_on c xs of [] \<Rightarrow> [[x]] | part # parts \<Rightarrow> (x # part) # parts)"

lemma find_by_key: "distinct (map k xs) \<Longrightarrow> x \<in> set xs \<Longrightarrow> find (\<lambda>y. k y = k x) xs = Some x"
  by (induction xs) auto

lemma of_char_digit_char: "d < 10 \<Longrightarrow> (of_char (digit_char d) :: nat) = 48 + d"
  by (simp add: digit_char_def)

lemma is_digit_digit_char [simp]: "d < 10 \<Longrightarrow> is_digit (digit_char d)"
  by (simp add: is_digit_def of_char_digit_char)

lemma digit_char_inject: "c < 10 \<Longrightarrow> d < 10 \<Longrightarrow> digit_char c = digit_char d \<longleftrightarrow> c = d"
  by (metis add_left_cancel of_char_digit_char)

lemma is_digit_zero [simp]: "is_digit (CHR ''0'')"
  by (simp add: is_digit_def)

lemma show_nat_digits: "c \<in> set (show_nat n) \<Longrightarrow> is_digit c"
  by (induction n rule: show_nat.induct) (subst (asm) (2) show_nat.simps, auto split: if_splits)

lemma length_show_nat: "n < 10 ^ k \<Longrightarrow> 0 < k \<Longrightarrow> length (show_nat n) \<le> k"
proof (induction n arbitrary: k rule: show_nat.induct)
  case (1 n)
  show ?case
  proof (cases "n < 10")
    case True
    with "1.prems" show ?thesis by (subst show_nat.simps) simp
  next
    case False
    with "1.prems" obtain j where k: "k = Suc j" "0 < j"
      by (cases k; cases "k - 1") auto
    from "1.prems"(1) k have "n div 10 < 10 ^ j"
      by (simp add: less_mult_imp_div_less mult.commute)
    from "1.IH" [OF False this k(2)] k False show ?thesis
      by (subst show_nat.simps) simp
  qed
qed

lemma length_show_nat_ge: "10 ^ k \<le> n \<Longrightarrow> k < length (show_nat n)"
proof (induction k arbitrary: n)
  case 0
  then show ?case by (subst show_nat.simps) simp
next
  case (Suc k)
  have "10 ^ k \<le> n div 10"
    using Suc.prems div_le_mono [of "10 ^ Suc k" n 10] by simp
  moreover have "\<not> n < 10" using order_trans [OF self_le_power [of 10 "Suc k"] Suc.prems] by simp
  ultimately show ?case using Suc.IH [of "n div 10"] by (subst show_nat.simps) simp
qed

lemma pad_zero_digits: "\<forall>c \<in> set t. is_digit c \<Longrightarrow> c \<in> set (pad_zero w t) \<Longrightarrow> is_digit c"
  by (auto simp: pad_zero_def)

lemma length_pad_zero: "length t \<le> w \<Longrightarrow> length (pad_zero w t) = w"
  by (simp add: pad_zero_def)

text \<open>The order of two texts, by their bytes; JavaScript's order on ASCII text.\<close>

fun text_less :: "string \<Rightarrow> string \<Rightarrow> bool" where
  "text_less [] t = (t \<noteq> [])"
| "text_less (c # s) [] = False"
| "text_less (c # s) (d # t) =
     ((of_char c :: nat) < of_char d \<or> c = d \<and> text_less s t)"

text \<open>A stable sort by a strict order, as \<open>Array.prototype.sort\<close> with a comparator.\<close>

fun insert_by :: "('a \<Rightarrow> 'a \<Rightarrow> bool) \<Rightarrow> 'a \<Rightarrow> 'a list \<Rightarrow> 'a list" where
  "insert_by before x [] = [x]"
| "insert_by before x (y # ys) = (if before y x then y # insert_by before x ys else x # y # ys)"

definition sort_by :: "('a \<Rightarrow> 'a \<Rightarrow> bool) \<Rightarrow> 'a list \<Rightarrow> 'a list" where
  "sort_by before xs = foldr (insert_by before) xs []"

lemma set_insert_by [simp]: "set (insert_by before x ys) = insert x (set ys)"
  by (induction ys) auto

lemma set_sort_by [simp]: "set (sort_by before xs) = set xs"
  by (induction xs) (simp_all add: sort_by_def)

lemma sort_by_Nil [simp]: "sort_by before [] = []"
  by (simp add: sort_by_def)

lemma sort_by_single [simp]: "sort_by before [x] = [x]"
  by (simp add: sort_by_def)

end
