(* ===== verification/Money.thy ===== *)
theory Money
  imports Prelude
begin

text \<open>
  The money of \<open>shared/managed-usage.ts\<close>: exact micro-USD amounts, what a charge is for and whether
  it debits the included allowance, who pays for a call, credits, the published monthly grants and
  the job tiers. An amount is an \<open>int\<close>; \<open>micro\<close> is the only way the code makes one from a number, so
  \<open>is_money\<close> is what every \<open>MicroUsd\<close> of the program satisfies.
\<close>

section \<open>Amounts\<close>

definition micro_per_usd :: int where
  "micro_per_usd = 1000000"

definition max_money :: int where
  "max_money = 1000000 * micro_per_usd"

definition is_money :: "int \<Rightarrow> bool" where
  "is_money n \<longleftrightarrow> 0 \<le> n \<and> n \<le> max_money"

definition micro :: "int \<Rightarrow> int res" where
  "micro count =
     (if \<not> is_safe_integer count then Inl RangeError
      else if count < 0 then Inl RangeError
      else if count > max_money then Inl RangeError
      else Inr count)"

definition sum_money :: "int list \<Rightarrow> int res" where
  "sum_money amounts = micro (foldl (+) 0 amounts)"

definition subtract_money :: "int \<Rightarrow> int \<Rightarrow> int res" where
  "subtract_money left right = (if right > left then Inl RangeError else micro (left - right))"

definition format_money :: "int \<Rightarrow> string" where
  "format_money amount =
     (let a = \<bar>amount\<bar>; whole = a div micro_per_usd; fraction = a mod micro_per_usd;
          body = (if fraction mod 10000 = 0
                  then show_int whole @ ''.'' @ pad_zero 2 (show_int (fraction div 10000))
                  else show_int whole @ ''.'' @ pad_zero 6 (show_int fraction))
      in (if amount < 0 then ''-'' else '''') @ ''$'' @ body)"

lemma max_money_eq: "max_money = 1000000000000"
  by (simp add: max_money_def micro_per_usd_def)

lemma micro_Inr_iff [result_simps]: "micro n = Inr m \<longleftrightarrow> m = n \<and> is_money n"
  by (auto simp: micro_def is_money_def is_safe_integer_def max_money_eq)

lemma micro_money [simp]: "is_money n \<Longrightarrow> micro n = Inr n"
  by (simp add: micro_Inr_iff)

lemma micro_out_of_range: "\<not> is_money n \<Longrightarrow> micro n = Inl RangeError"
  by (auto simp: micro_def is_money_def)

lemma foldl_plus_sum_list: "foldl (+) (a :: int) xs = a + sum_list xs"
  by (induction xs arbitrary: a) auto

lemma sum_money_eq: "sum_money xs = micro (sum_list xs)"
  by (simp add: sum_money_def foldl_plus_sum_list)

lemma sum_money_Inr_iff [result_simps]: "sum_money xs = Inr m \<longleftrightarrow> m = sum_list xs \<and> is_money (sum_list xs)"
  by (auto simp: sum_money_eq micro_Inr_iff)

lemma subtract_money_Inr_iff [result_simps]:
  "subtract_money a b = Inr m \<longleftrightarrow> m = a - b \<and> b \<le> a \<and> is_money (a - b)"
  by (auto simp: subtract_money_def micro_Inr_iff)

lemma is_money_bounds: "is_money n \<Longrightarrow> 0 \<le> n" "is_money n \<Longrightarrow> n \<le> max_money"
  by (simp_all add: is_money_def)

lemma is_money_zero [simp]: "is_money 0"
  by (simp add: is_money_def max_money_eq)

lemma is_money_between: "is_money b \<Longrightarrow> 0 \<le> a \<Longrightarrow> a \<le> b \<Longrightarrow> is_money a"
  by (simp add: is_money_def)

lemma subtract_money_total: "is_money a \<Longrightarrow> 0 \<le> b \<Longrightarrow> b \<le> a \<Longrightarrow> subtract_money a b = Inr (a - b)"
  by (simp add: subtract_money_def is_money_def)

section \<open>What a charge is for\<close>

datatype charge_kind = Setup | Generation | BilledReasoning | CacheWrite | CacheRead | Reviewer
  | Advisor | Correction | Embedding | ToolService | Support | Storage

datatype charge_eligibility = Included | ExcludedNotAdmitted | ExcludedBilledSeparately

record rate_card =
  rc_version :: string
  rc_effectiveFrom :: string
  rc_kinds :: "charge_kind list"
  rc_eligibility :: "charge_kind \<Rightarrow> charge_eligibility option"

definition all_kinds :: "charge_kind list" where
  "all_kinds = [Setup, Generation, BilledReasoning, CacheWrite, CacheRead, Reviewer,
     Advisor, Correction, Embedding, ToolService, Support, Storage]"

definition rate_card_v1 :: rate_card where
  "rate_card_v1 = \<lparr>rc_version = ''rate-card-2026-09-10.1'',
     rc_effectiveFrom = ''2026-09-10T00:00:00.000Z'', rc_kinds = all_kinds,
     rc_eligibility = (\<lambda>k. case k of
         Setup \<Rightarrow> Some Included | Generation \<Rightarrow> Some Included | BilledReasoning \<Rightarrow> Some Included
       | CacheWrite \<Rightarrow> Some Included | CacheRead \<Rightarrow> Some Included | Reviewer \<Rightarrow> Some Included
       | Advisor \<Rightarrow> Some Included | Correction \<Rightarrow> Some Included | Embedding \<Rightarrow> Some Included
       | ToolService \<Rightarrow> Some ExcludedNotAdmitted
       | Support \<Rightarrow> Some ExcludedBilledSeparately | Storage \<Rightarrow> Some ExcludedBilledSeparately)\<rparr>"

definition charge_kind_eligibility :: "rate_card \<Rightarrow> charge_kind \<Rightarrow> charge_eligibility res" where
  "charge_kind_eligibility rcard kind =
     (case rc_eligibility rcard kind of None \<Rightarrow> Inl PlainError | Some e \<Rightarrow> Inr e)"

definition is_admissible_charge_kind :: "rate_card \<Rightarrow> charge_kind \<Rightarrow> bool res" where
  "is_admissible_charge_kind rcard kind =
     rmap (\<lambda>e. e \<noteq> ExcludedNotAdmitted) (charge_kind_eligibility rcard kind)"

definition debits_allowance :: "rate_card \<Rightarrow> charge_kind \<Rightarrow> bool res" where
  "debits_allowance rcard kind = rmap (\<lambda>e. e = Included) (charge_kind_eligibility rcard kind)"

definition charge_kinds_by :: "rate_card \<Rightarrow> (charge_kind list \<times> charge_kind list) res" where
  "charge_kinds_by rcard =
     rfold (\<lambda>kind (included, excluded).
        rmap (\<lambda>e. if e = Included then (included @ [kind], excluded) else (included, excluded @ [kind]))
          (charge_kind_eligibility rcard kind))
       (rc_kinds rcard) ([], [])"

section \<open>Who pays\<close>

datatype payer = Managed | Byo | Local | Refused

datatype organization_route = RouteManaged | RouteByo | RoutePersonalSubscription

record payer_resolution =
  pr_payer :: payer
  pr_debitsAllowance :: bool

definition local_routes :: "string list" where
  "local_routes = [''sample'', ''localai'', ''ollama'', ''aioncore'']"

definition payer_for_route :: "string \<Rightarrow> organization_route \<Rightarrow> payer_resolution" where
  "payer_for_route route organizationRoute =
     (if route \<in> set local_routes then \<lparr>pr_payer = Local, pr_debitsAllowance = False\<rparr>
      else if organizationRoute = RoutePersonalSubscription
        then \<lparr>pr_payer = Refused, pr_debitsAllowance = False\<rparr>
      else if organizationRoute = RouteByo then \<lparr>pr_payer = Byo, pr_debitsAllowance = False\<rparr>
      else \<lparr>pr_payer = Managed, pr_debitsAllowance = True\<rparr>)"

section \<open>Credits\<close>

text \<open>
  \<open>creditAmount\<close> and \<open>formatCredits\<close> are modelled on whole numbers of credits and of ledger units,
  the only ones the ledger passes; on those the code's floating-point product and quotient round to
  the integers written here.
\<close>

definition credit_micro_usd :: int where
  "credit_micro_usd = 100000"

definition credit_amount :: "int \<Rightarrow> int res" where
  "credit_amount credits = micro (credits * credit_micro_usd)"

fun group_thousands :: "string \<Rightarrow> string" where
  "group_thousands (a # b # c # d # rest) = a # b # c # CHR '','' # group_thousands (d # rest)"
| "group_thousands t = t"

definition to_locale_string :: "int \<Rightarrow> string" where
  "to_locale_string n = rev (group_thousands (rev (show_int n)))"

definition format_credits :: "int \<Rightarrow> string" where
  "format_credits amount =
     (if amount = 0 then ''0''
      else let hundredths = round_div (amount * 100) credit_micro_usd in
        if hundredths = 0 then ''less than 0.01''
        else let whole = hundredths div 100; fraction = hundredths mod 100;
                 grouped = to_locale_string whole;
                 digits = pad_zero 2 (show_int fraction)
             in if fraction = 0 then grouped
                else grouped @ ''.'' @ (if last digits = CHR ''0'' then butlast digits else digits))"

section \<open>Monthly grants and job tiers\<close>

datatype credit_grant_status = Published | DirectedUnapproved | Proposed

record monthly_credit_grant =
  mg_planId :: string
  mg_monthlyCredits :: "int option"
  mg_status :: credit_grant_status

definition monthly_credit_grants :: "monthly_credit_grant list" where
  "monthly_credit_grants =
    [\<lparr>mg_planId = ''workflow-starter'', mg_monthlyCredits = Some 500, mg_status = Published\<rparr>,
     \<lparr>mg_planId = ''business'', mg_monthlyCredits = Some 1000, mg_status = Published\<rparr>,
     \<lparr>mg_planId = ''individual'', mg_monthlyCredits = Some 1000, mg_status = Published\<rparr>,
     \<lparr>mg_planId = ''managed-small'', mg_monthlyCredits = Some 3000, mg_status = Published\<rparr>,
     \<lparr>mg_planId = ''managed-standard'', mg_monthlyCredits = Some 5000, mg_status = Published\<rparr>,
     \<lparr>mg_planId = ''managed-plus'', mg_monthlyCredits = Some 8000, mg_status = Published\<rparr>,
     \<lparr>mg_planId = ''solo'', mg_monthlyCredits = None, mg_status = DirectedUnapproved\<rparr>,
     \<lparr>mg_planId = ''business-plus'', mg_monthlyCredits = None, mg_status = Proposed\<rparr>]"

definition published_monthly_grant :: "string \<Rightarrow> int option res" where
  "published_monthly_grant planId =
     (case find (\<lambda>row. mg_planId row = planId) monthly_credit_grants of
        None \<Rightarrow> Inr None
      | Some row \<Rightarrow>
          (if mg_status row \<noteq> Published then Inr None
           else case mg_monthlyCredits row of
             None \<Rightarrow> Inr None
           | Some credits \<Rightarrow> rmap Some (credit_amount credits)))"

datatype job_tier = Efficient | Focused | Thorough | Expert

fun job_check_in_credits :: "job_tier \<Rightarrow> int" where
  "job_check_in_credits Efficient = 100"
| "job_check_in_credits Focused = 250"
| "job_check_in_credits Thorough = 500"
| "job_check_in_credits Expert = 750"

definition default_check_in :: "job_tier \<Rightarrow> int res" where
  "default_check_in tier = credit_amount (job_check_in_credits tier)"

datatype usage_class = IncludedChat | MeteredWork | WorkerTurn | AutomationRun

lemma credit_amount_Inr_iff [result_simps]:
  "credit_amount c = Inr m \<longleftrightarrow> m = c * 100000 \<and> 0 \<le> c \<and> c \<le> 10000000"
  by (auto simp: credit_amount_def micro_Inr_iff credit_micro_usd_def is_money_def max_money_eq)

lemma default_check_in_Inr: "default_check_in tier = Inr (job_check_in_credits tier * 100000)"
  by (cases tier) (simp_all add: default_check_in_def credit_amount_Inr_iff)

lemma published_monthly_grant_total: "\<exists>g. published_monthly_grant planId = Inr g"
  by (simp add: published_monthly_grant_def monthly_credit_grants_def credit_amount_def
      credit_micro_usd_def is_money_def max_money_eq)

lemma published_monthly_grant_money:
  "published_monthly_grant planId = Inr (Some g) \<Longrightarrow> is_money g \<and> 0 < g"
  by (auto simp: published_monthly_grant_def monthly_credit_grants_def credit_amount_Inr_iff
      rmap_Inr_iff is_money_def max_money_eq split: if_splits)

lemma debits_allowance_v1:
  "debits_allowance rate_card_v1 kind = Inr (kind \<notin> {ToolService, Support, Storage})"
  by (cases kind) (simp_all add: debits_allowance_def charge_kind_eligibility_def rate_card_v1_def)

end
