(* ===== verification/Js_Value.thy ===== *)
theory Js_Value
  imports Prelude
begin

text \<open>
  A JavaScript value of type \<open>unknown\<close>, as far as the modelled code tells values apart. An integer
  that JavaScript prints without an exponent is \<open>JInt\<close>; every other finite number is \<open>JDec\<close>, carried
  by its decimal text; \<open>JNonFinite\<close> is NaN and the infinities; an object with the plain prototype is
  \<open>JObj\<close>, its own enumerable fields in insertion order with distinct keys; \<open>JOther\<close> is any other
  value (a function, a class instance, a symbol).
\<close>

datatype jval = JUndef | JNull | JBool bool | JInt int | JDec string | JNonFinite
  | JStr string | JArr "jval list" | JObj "(string \<times> jval) list" | JOther

fun jfield :: "(string \<times> jval) list \<Rightarrow> string \<Rightarrow> jval" where
  "jfield [] k = JUndef"
| "jfield ((k', v) # fs) k = (if k' = k then v else jfield fs k)"

text \<open>Reading a field of a value that may not be an object; a field that is not there is undefined.\<close>

fun jget :: "jval \<Rightarrow> string \<Rightarrow> jval" where
  "jget (JObj fs) k = jfield fs k"
| "jget _ k = JUndef"

definition is_nullish :: "jval \<Rightarrow> bool" where
  "is_nullish v \<longleftrightarrow> v = JUndef \<or> v = JNull"

fun is_plain_object :: "jval \<Rightarrow> bool" where
  "is_plain_object (JObj _) = True"
| "is_plain_object _ = False"

text \<open>The text \<open>JSON.stringify\<close> writes, as UTF-8 bytes.\<close>

definition hex_char :: "nat \<Rightarrow> char" where
  "hex_char d = (if d < 10 then char_of (48 + d) else char_of (87 + d))"

definition json_escape :: "char \<Rightarrow> string" where
  "json_escape c = (let b = (of_char c :: nat) in
     if b = 34 then [char_of (92 :: nat), char_of (34 :: nat)]
     else if b = 92 then [char_of (92 :: nat), char_of (92 :: nat)]
     else if b = 8 then char_of (92 :: nat) # ''b''
     else if b = 9 then char_of (92 :: nat) # ''t''
     else if b = 10 then char_of (92 :: nat) # ''n''
     else if b = 12 then char_of (92 :: nat) # ''f''
     else if b = 13 then char_of (92 :: nat) # ''r''
     else if b < 32 then char_of (92 :: nat) # ''u00'' @ [hex_char (b div 16), hex_char (b mod 16)]
     else [c])"

definition json_string :: "string \<Rightarrow> string" where
  "json_string t = char_of (34 :: nat) # concat (map json_escape t) @ [char_of (34 :: nat)]"

fun comma_sep :: "string list \<Rightarrow> string" where
  "comma_sep [] = ''''"
| "comma_sep [t] = t"
| "comma_sep (t # ts) = t @ '','' @ comma_sep ts"

text \<open>Fields whose value has no JSON text are left out of an object and are null in an array.\<close>

definition has_json_text :: "jval \<Rightarrow> bool" where
  "has_json_text v \<longleftrightarrow> v \<noteq> JUndef \<and> v \<noteq> JOther"

fun json_text :: "jval \<Rightarrow> string" where
  "json_text JNull = ''null''"
| "json_text JUndef = ''null''"
| "json_text JOther = ''null''"
| "json_text JNonFinite = ''null''"
| "json_text (JBool b) = (if b then ''true'' else ''false'')"
| "json_text (JInt n) = show_int n"
| "json_text (JDec t) = t"
| "json_text (JStr t) = json_string t"
| "json_text (JArr vs) = ''['' @ comma_sep (map json_text vs) @ '']''"
| "json_text (JObj fs) = ''{'' @ comma_sep
     (map (\<lambda>kv. json_string (fst kv) @ '':'' @ json_text (snd kv))
        (filter (\<lambda>kv. has_json_text (snd kv)) fs)) @ ''}''"

lemma jfield_map_of: "jfield fs k = (case map_of fs k of None \<Rightarrow> JUndef | Some v \<Rightarrow> v)"
  by (induction fs) auto

end
