(* ===== verification/Usage_Contract.thy ===== *)
theory Usage_Contract
  imports Js_Value
begin

text \<open>
  \<open>shared/usage-contract.ts\<close>: the one shape a provider's usage report takes, and \<open>normalizeUsage\<close>,
  which decides whether a report fits it. A report is known, unknown (something is missing, so the
  hold stays) or refused (something is wrong, and nothing is repaired).
\<close>

definition usage_contract_id :: string where
  "usage_contract_id = ''nectovia-usage/1''"

definition usage_count_fields :: "string list" where
  "usage_count_fields = [''inputTokens'', ''cacheReadTokens'', ''cacheWriteTokens'', ''outputTokens'', ''reasoningTokens'']"

definition max_tokens_per_field :: int where
  "max_tokens_per_field = 50000000"

definition max_raw_usage_bytes :: nat where
  "max_raw_usage_bytes = 16384"

record usage_counts =
  uc_inputTokens :: int
  uc_cacheReadTokens :: int
  uc_cacheWriteTokens :: int
  uc_outputTokens :: int
  uc_reasoningTokens :: int

text \<open>A normalized report also keeps the provider's raw object; its \<open>contract\<close> is always the constant.\<close>

record normalized_usage = usage_counts +
  nu_raw :: "jval option"

datatype usage_reason = NoUsageReported | NotCounts | UndefinedField string | OtherContract
  | MissingField string | NotWholeTokens string | NegativeTokens string | TooManyTokens string
  | CacheExceedsInput | ReasoningExceedsOutput | RawNotJson | RawTooLarge

datatype usage_evidence =
    KnownUsage normalized_usage
  | UnknownUsage usage_reason "jval option"
  | RefusedUsage usage_reason "jval option"

fun is_json :: "nat \<Rightarrow> jval \<Rightarrow> bool" where
  "is_json depth v = (if depth > 16 then False else
     (case v of
        JNull \<Rightarrow> True | JBool _ \<Rightarrow> True | JStr _ \<Rightarrow> True
      | JInt _ \<Rightarrow> True | JDec _ \<Rightarrow> True | JNonFinite \<Rightarrow> False
      | JArr items \<Rightarrow> list_all (is_json (depth + 1)) items
      | JObj fs \<Rightarrow> list_all (\<lambda>kv. is_json (depth + 1) (snd kv)) fs
      | JUndef \<Rightarrow> False | JOther \<Rightarrow> False))"

declare is_json.simps [simp del]

text \<open>Keeping the raw evidence; \<open>JSON.parse (JSON.stringify v)\<close> of a plain JSON value is that value.\<close>

definition raw_of :: "jval \<Rightarrow> usage_reason + jval option" where
  "raw_of value =
     (if is_nullish value then Inr None
      else if \<not> is_plain_object value \<or> \<not> is_json 0 value then Inl RawNotJson
      else if length (json_text value) > max_raw_usage_bytes then Inl RawTooLarge
      else Inr (Some value))"

text \<open>The loops over the five fields, each returning the first report it makes.\<close>

fun missing_field :: "jval \<Rightarrow> string list \<Rightarrow> string option" where
  "missing_field counts [] = None"
| "missing_field counts (field # fs) =
     (if is_nullish (jget counts field) then Some field else missing_field counts fs)"

definition count_problem :: "jval \<Rightarrow> string \<Rightarrow> usage_reason option" where
  "count_problem counts field =
     (case jget counts field of
        JInt count \<Rightarrow>
          (if \<not> is_safe_integer count then Some (NotWholeTokens field)
           else if count < 0 then Some (NegativeTokens field)
           else if count > max_tokens_per_field then Some (TooManyTokens field)
           else None)
      | _ \<Rightarrow> Some (NotWholeTokens field))"

fun first_count_problem :: "jval \<Rightarrow> string list \<Rightarrow> usage_reason option" where
  "first_count_problem counts [] = None"
| "first_count_problem counts (field # fs) =
     (case count_problem counts field of
        Some problem \<Rightarrow> Some problem
      | None \<Rightarrow> first_count_problem counts fs)"

fun undefined_field :: "(string \<times> jval) list \<Rightarrow> string option" where
  "undefined_field [] = None"
| "undefined_field ((key, _) # fs) =
     (if key \<noteq> ''contract'' \<and> key \<noteq> ''raw'' \<and> key \<notin> set usage_count_fields then Some key
      else undefined_field fs)"

fun own_fields :: "jval \<Rightarrow> (string \<times> jval) list" where
  "own_fields (JObj fs) = fs"
| "own_fields _ = []"

fun int_of :: "jval \<Rightarrow> int" where
  "int_of (JInt n) = n"
| "int_of _ = 0"

definition counts_of :: "jval \<Rightarrow> usage_counts" where
  "counts_of counts = \<lparr>uc_inputTokens = int_of (jget counts ''inputTokens''),
     uc_cacheReadTokens = int_of (jget counts ''cacheReadTokens''),
     uc_cacheWriteTokens = int_of (jget counts ''cacheWriteTokens''),
     uc_outputTokens = int_of (jget counts ''outputTokens''),
     uc_reasoningTokens = int_of (jget counts ''reasoningTokens'')\<rparr>"

definition normalize_usage :: "jval \<Rightarrow> jval \<Rightarrow> usage_evidence" where
  "normalize_usage counts raw =
     (let embedded = (if is_plain_object counts then jget counts ''raw'' else JUndef) in
      case raw_of (if raw \<noteq> JUndef then raw else embedded) of
        Inl reason \<Rightarrow> RefusedUsage reason None
      | Inr kept \<Rightarrow>
          (if is_nullish counts then UnknownUsage NoUsageReported kept
           else if \<not> is_plain_object counts then RefusedUsage NotCounts kept
           else case undefined_field (own_fields counts) of
             Some key \<Rightarrow> RefusedUsage (UndefinedField key) kept
           | None \<Rightarrow>
          (if jget counts ''contract'' \<noteq> JUndef \<and> jget counts ''contract'' \<noteq> JStr usage_contract_id
             then RefusedUsage OtherContract kept
           else case missing_field counts usage_count_fields of
             Some field \<Rightarrow> UnknownUsage (MissingField field) kept
           | None \<Rightarrow>
          (case first_count_problem counts usage_count_fields of
             Some problem \<Rightarrow> RefusedUsage problem kept
           | None \<Rightarrow>
          (let usage = counts_of counts in
           if uc_cacheReadTokens usage + uc_cacheWriteTokens usage > uc_inputTokens usage
             then RefusedUsage CacheExceedsInput kept
           else if uc_reasoningTokens usage > uc_outputTokens usage
             then RefusedUsage ReasoningExceedsOutput kept
           else KnownUsage (usage_counts.extend usage \<lparr>nu_raw = kept\<rparr>))))))"

definition fresh_input_tokens :: "'a usage_counts_scheme \<Rightarrow> int res" where
  "fresh_input_tokens usage =
     (let fresh = uc_inputTokens usage - uc_cacheReadTokens usage - uc_cacheWriteTokens usage
      in if \<not> is_safe_integer fresh \<or> fresh < 0 then Inl RangeError else Inr fresh)"

definition same_usage_counts :: "'a usage_counts_scheme \<Rightarrow> 'b usage_counts_scheme \<Rightarrow> bool" where
  "same_usage_counts a b \<longleftrightarrow> uc_inputTokens a = uc_inputTokens b
     \<and> uc_cacheReadTokens a = uc_cacheReadTokens b \<and> uc_cacheWriteTokens a = uc_cacheWriteTokens b
     \<and> uc_outputTokens a = uc_outputTokens b \<and> uc_reasoningTokens a = uc_reasoningTokens b"

text \<open>A stored record in this shape, as the value the store reads back.\<close>

definition usage_record :: "normalized_usage \<Rightarrow> jval" where
  "usage_record u = JObj [(''contract'', JStr usage_contract_id),
     (''inputTokens'', JInt (uc_inputTokens u)), (''cacheReadTokens'', JInt (uc_cacheReadTokens u)),
     (''cacheWriteTokens'', JInt (uc_cacheWriteTokens u)), (''outputTokens'', JInt (uc_outputTokens u)),
     (''reasoningTokens'', JInt (uc_reasoningTokens u)),
     (''raw'', case nu_raw u of None \<Rightarrow> JNull | Some v \<Rightarrow> v)]"

definition is_normalized_usage :: "jval \<Rightarrow> bool" where
  "is_normalized_usage value =
     (if \<not> is_plain_object value \<or> jget value ''contract'' \<noteq> JStr usage_contract_id then False
      else case normalize_usage (JObj (map (\<lambda>field. (field, jget value field)) usage_count_fields))
             (if is_nullish (jget value ''raw'') then JNull else jget value ''raw'') of
        KnownUsage _ \<Rightarrow> True | _ \<Rightarrow> False)"

section \<open>What a known report satisfies\<close>

definition usage_wf :: "'a usage_counts_scheme \<Rightarrow> bool" where
  "usage_wf u \<longleftrightarrow> 0 \<le> uc_inputTokens u \<and> uc_inputTokens u \<le> max_tokens_per_field
     \<and> 0 \<le> uc_cacheReadTokens u \<and> 0 \<le> uc_cacheWriteTokens u
     \<and> uc_cacheReadTokens u + uc_cacheWriteTokens u \<le> uc_inputTokens u
     \<and> 0 \<le> uc_reasoningTokens u \<and> uc_reasoningTokens u \<le> uc_outputTokens u
     \<and> uc_outputTokens u \<le> max_tokens_per_field"

definition raw_kept :: "jval option \<Rightarrow> bool" where
  "raw_kept r \<longleftrightarrow> (case r of None \<Rightarrow> True
     | Some v \<Rightarrow> is_plain_object v \<and> is_json 0 v \<and> length (json_text v) \<le> max_raw_usage_bytes)"

lemma first_count_problem_None:
  "first_count_problem counts fs = None \<longleftrightarrow> (\<forall>field \<in> set fs. count_problem counts field = None)"
  by (induction fs) (auto split: option.splits)

lemma missing_field_None:
  "missing_field counts fs = None \<longleftrightarrow> (\<forall>field \<in> set fs. \<not> is_nullish (jget counts field))"
  by (induction fs) auto

lemma count_problem_None_iff:
  "count_problem counts field = None \<longleftrightarrow>
     (\<exists>n. jget counts field = JInt n \<and> 0 \<le> n \<and> n \<le> max_tokens_per_field)"
  by (auto simp: count_problem_def is_safe_integer_def max_tokens_per_field_def split: jval.splits)

lemma raw_of_Inr: "raw_of v = Inr r \<Longrightarrow> raw_kept r"
  by (auto simp: raw_of_def raw_kept_def split: if_splits)

lemma normalize_usage_known_raw: "normalize_usage counts raw = KnownUsage u \<Longrightarrow> raw_kept (nu_raw u)"
  by (auto simp: normalize_usage_def Let_def usage_counts.defs dest: raw_of_Inr
      split: sum.splits option.splits if_splits)

lemma normalize_usage_known_counts:
  assumes "normalize_usage counts raw = KnownUsage u"
  shows "usage_wf u"
proof -
  from assms have none: "\<forall>field \<in> set usage_count_fields. count_problem counts field = None"
    and parts: "uc_cacheReadTokens (counts_of counts) + uc_cacheWriteTokens (counts_of counts) \<le> uc_inputTokens (counts_of counts)"
      "uc_reasoningTokens (counts_of counts) \<le> uc_outputTokens (counts_of counts)"
    and u: "usage_counts.truncate u = counts_of counts"
    by (auto simp: normalize_usage_def Let_def usage_counts.defs first_count_problem_None counts_of_def
        split: sum.splits option.splits if_splits)
  from none have ints: "\<forall>field \<in> set usage_count_fields. \<exists>n. jget counts field = JInt n \<and> 0 \<le> n \<and> n \<le> max_tokens_per_field"
    by (simp add: count_problem_None_iff)
  have fs: "uc_inputTokens u = uc_inputTokens (counts_of counts)"
    "uc_cacheReadTokens u = uc_cacheReadTokens (counts_of counts)"
    "uc_cacheWriteTokens u = uc_cacheWriteTokens (counts_of counts)"
    "uc_outputTokens u = uc_outputTokens (counts_of counts)"
    "uc_reasoningTokens u = uc_reasoningTokens (counts_of counts)"
    using u by (simp_all add: usage_counts.truncate_def flip: u)
  show ?thesis
    using ints parts unfolding usage_wf_def fs
    by (auto simp: counts_of_def usage_count_fields_def)
qed

lemma fresh_input_tokens_wf:
  "usage_wf u \<Longrightarrow> fresh_input_tokens u = Inr (uc_inputTokens u - uc_cacheReadTokens u - uc_cacheWriteTokens u)"
  by (auto simp: fresh_input_tokens_def usage_wf_def is_safe_integer_def max_tokens_per_field_def Let_def)

lemma raw_of_kept: "raw_kept (Some v) \<Longrightarrow> raw_of v = Inr (Some v)"
  by (cases v) (auto simp: raw_of_def raw_kept_def is_nullish_def)

lemma normalize_usage_record_wf:
  assumes "usage_wf u" and "raw_kept (nu_raw u)"
  shows "normalize_usage (usage_record u) JUndef = KnownUsage u"
proof -
  have raw: "raw_of (case nu_raw u of None \<Rightarrow> JNull | Some v \<Rightarrow> v) = Inr (nu_raw u)"
  proof (cases "nu_raw u")
    case None
    then show ?thesis by (simp add: raw_of_def is_nullish_def)
  next
    case (Some v)
    with assms(2) show ?thesis by (simp add: raw_of_kept)
  qed
  show ?thesis
    using assms(1) raw
    by (cases u) (auto simp: normalize_usage_def usage_record_def usage_count_fields_def Let_def
        is_nullish_def usage_wf_def count_problem_def counts_of_def usage_counts.defs
        is_safe_integer_def max_tokens_per_field_def usage_contract_id_def)
qed

end
