(* ===== verification/Pricing.thy ===== *)
theory Pricing
  imports Money Usage_Contract
begin

text \<open>
  What a call costs: the rate snapshots and \<open>usageCost\<close> of \<open>shared/managed-usage.ts\<close>, and the tier
  charges, the provider-cost ceiling and the holds of \<open>shared/credit-prices.ts\<close>. A TypeScript
  interface that extends another is a record extension, so \<open>usage_cost\<close> prices a provider's rate
  snapshot and a tier's charge by the same definition, as the code does.
\<close>

record band_prices =
  bp_inputMicroUsdPerMillion :: int
  bp_outputMicroUsdPerMillion :: int
  bp_cacheReadMicroUsdPerMillion :: int
  bp_cacheWriteMicroUsdPerMillion :: int
  bp_reasoningMicroUsdPerMillion :: "int option"
  bp_requestFeeMicroUsd :: "int option"

record long_band = band_prices +
  lb_aboveInputTokens :: int

record price_fields = band_prices +
  pf_longContext :: "long_band list option"

record rate_snapshot = price_fields +
  rs_version :: string
  rs_routing :: "jval option"

record charge_snapshot = price_fields +
  cs_version :: string
  cs_tier :: job_tier
  cs_tableVersion :: int
  cs_ceilingMicroUsdPerCredit :: int

record credit_price_table =
  pt_version :: int
  pt_ceilingMicroUsdPerCredit :: int
  pt_tiers :: "job_tier \<Rightarrow> price_fields option"

text \<open>BigInt division drops the fraction, whatever the sign.\<close>

definition big_div :: "int \<Rightarrow> int \<Rightarrow> int" where
  "big_div a b = (if 0 \<le> a then a div b else - ((- a) div b))"

definition nullish :: "'a option \<Rightarrow> 'a \<Rightarrow> 'a" where
  "nullish x d = (case x of None \<Rightarrow> d | Some y \<Rightarrow> y)"

definition long_context :: "'a price_fields_scheme \<Rightarrow> long_band list" where
  "long_context price = nullish (pf_longContext price) []"

text \<open>The band a request of this many input tokens is priced at.\<close>

definition band_at :: "'a price_fields_scheme \<Rightarrow> int \<Rightarrow> band_prices" where
  "band_at price inputTokens =
     (case find (\<lambda>b. inputTokens > lb_aboveInputTokens b)
             (sort_key (\<lambda>b. - lb_aboveInputTokens b) (long_context price)) of
        Some b \<Rightarrow> band_prices.truncate b
      | None \<Rightarrow> band_prices.truncate price)"

definition reasoning_price :: "'a band_prices_scheme \<Rightarrow> int" where
  "reasoning_price band = nullish (bp_reasoningMicroUsdPerMillion band) (bp_outputMicroUsdPerMillion band)"

definition request_fee :: "'a band_prices_scheme \<Rightarrow> int" where
  "request_fee band = nullish (bp_requestFeeMicroUsd band) 0"

definition usage_cost :: "'a price_fields_scheme \<Rightarrow> 'b usage_counts_scheme \<Rightarrow> int res" where
  "usage_cost rate usage =
     (let band = band_at rate (uc_inputTokens usage) in
      rbind (fresh_input_tokens usage) (\<lambda>fresh.
      (let scaled = fresh * bp_inputMicroUsdPerMillion band
             + uc_cacheReadTokens usage * bp_cacheReadMicroUsdPerMillion band
             + uc_cacheWriteTokens usage * bp_cacheWriteMicroUsdPerMillion band
             + (uc_outputTokens usage - uc_reasoningTokens usage) * bp_outputMicroUsdPerMillion band
             + uc_reasoningTokens usage * reasoning_price band;
           cost = big_div (scaled + 999999) 1000000 + request_fee band
       in if cost > max_money then Inl RangeError else micro cost)))"

section \<open>The price table\<close>

definition units_ok :: "int \<Rightarrow> bool" where
  "units_ok n \<longleftrightarrow> 0 \<le> n \<and> n \<le> 1000000000"

definition opt_units_ok :: "int option \<Rightarrow> bool" where
  "opt_units_ok x \<longleftrightarrow> (case x of None \<Rightarrow> True | Some n \<Rightarrow> units_ok n)"

definition band_fields_ok :: "'a band_prices_scheme \<Rightarrow> bool" where
  "band_fields_ok b \<longleftrightarrow> units_ok (bp_inputMicroUsdPerMillion b) \<and> units_ok (bp_outputMicroUsdPerMillion b)
     \<and> units_ok (bp_cacheReadMicroUsdPerMillion b) \<and> units_ok (bp_cacheWriteMicroUsdPerMillion b)
     \<and> opt_units_ok (bp_reasoningMicroUsdPerMillion b) \<and> opt_units_ok (bp_requestFeeMicroUsd b)"

definition band_schema_ok :: "long_band \<Rightarrow> bool" where
  "band_schema_ok b \<longleftrightarrow> 0 \<le> lb_aboveInputTokens b \<and> lb_aboveInputTokens b \<le> 9007199254740990
     \<and> band_fields_ok b"

definition tier_charge_ok :: "'a price_fields_scheme \<Rightarrow> bool" where
  "tier_charge_ok charge \<longleftrightarrow> band_fields_ok charge
     \<and> list_all band_schema_ok (long_context charge) \<and> length (long_context charge) \<le> 16
     \<and> bp_inputMicroUsdPerMillion charge \<noteq> 0 \<and> bp_outputMicroUsdPerMillion charge \<noteq> 0
     \<and> distinct (map lb_aboveInputTokens (long_context charge))
     \<and> list_all (\<lambda>b. bp_inputMicroUsdPerMillion b \<noteq> 0 \<and> bp_outputMicroUsdPerMillion b \<noteq> 0) (long_context charge)"

definition ceiling_schema_ok :: "int \<Rightarrow> bool" where
  "ceiling_schema_ok n \<longleftrightarrow> 1 \<le> n \<and> n \<le> credit_micro_usd"

fun tier_text :: "job_tier \<Rightarrow> string" where
  "tier_text Efficient = ''efficient''"
| "tier_text Focused = ''focused''"
| "tier_text Thorough = ''thorough''"
| "tier_text Expert = ''expert''"

definition charge_snapshot_of :: "credit_price_table option \<Rightarrow> job_tier \<Rightarrow> charge_snapshot option" where
  "charge_snapshot_of table tier =
     (case table of None \<Rightarrow> None | Some t \<Rightarrow>
      (case pt_tiers t tier of None \<Rightarrow> None | Some charge \<Rightarrow>
        Some \<lparr>bp_inputMicroUsdPerMillion = bp_inputMicroUsdPerMillion charge,
          bp_outputMicroUsdPerMillion = bp_outputMicroUsdPerMillion charge,
          bp_cacheReadMicroUsdPerMillion = bp_cacheReadMicroUsdPerMillion charge,
          bp_cacheWriteMicroUsdPerMillion = bp_cacheWriteMicroUsdPerMillion charge,
          bp_reasoningMicroUsdPerMillion = bp_reasoningMicroUsdPerMillion charge,
          bp_requestFeeMicroUsd = bp_requestFeeMicroUsd charge,
          pf_longContext = (if long_context charge = [] then None else Some (long_context charge)),
          cs_version = ''credit-prices:'' @ show_int (pt_version t) @ '':'' @ tier_text tier,
          cs_tier = tier, cs_tableVersion = pt_version t,
          cs_ceilingMicroUsdPerCredit = pt_ceilingMicroUsdPerCredit t\<rparr>))"

section \<open>The ceiling\<close>

datatype token_class = ClassInput | ClassOutput | ClassReasoning | ClassCacheRead | ClassCacheWrite | ClassRequestFee

definition token_classes :: "token_class list" where
  "token_classes = [ClassInput, ClassOutput, ClassReasoning, ClassCacheRead, ClassCacheWrite, ClassRequestFee]"

fun class_price :: "'a band_prices_scheme \<Rightarrow> token_class \<Rightarrow> int" where
  "class_price band ClassInput = bp_inputMicroUsdPerMillion band"
| "class_price band ClassOutput = bp_outputMicroUsdPerMillion band"
| "class_price band ClassReasoning = reasoning_price band"
| "class_price band ClassCacheRead = bp_cacheReadMicroUsdPerMillion band"
| "class_price band ClassCacheWrite = bp_cacheWriteMicroUsdPerMillion band"
| "class_price band ClassRequestFee = request_fee band"

record ceiling_failure =
  cf_tier :: job_tier
  cf_routeId :: string
  cf_tokenClass :: token_class
  cf_aboveInputTokens :: "int option"

definition region_start :: "int option \<Rightarrow> int" where
  "region_start region = (case region of None \<Rightarrow> 0 | Some t \<Rightarrow> t + 1)"

definition ceiling_regions :: "'a price_fields_scheme \<Rightarrow> 'b price_fields_scheme \<Rightarrow> int option list" where
  "ceiling_regions price charge =
     None # map Some (sort (remdups (map lb_aboveInputTokens (long_context price @ long_context charge))))"

definition ceiling_failures ::
  "job_tier \<Rightarrow> string \<Rightarrow> 'a price_fields_scheme \<Rightarrow> 'b price_fields_scheme \<Rightarrow> int \<Rightarrow> ceiling_failure list" where
  "ceiling_failures tier routeId price charge ceiling =
     concat (map (\<lambda>region.
       let at = region_start region; provider = band_at price at; charged = band_at charge at in
       map (\<lambda>tokenClass. \<lparr>cf_tier = tier, cf_routeId = routeId, cf_tokenClass = tokenClass, cf_aboveInputTokens = region\<rparr>)
         (filter (\<lambda>tokenClass. \<not> class_price provider tokenClass * credit_micro_usd
                                  \<le> ceiling * class_price charged tokenClass) token_classes))
       (ceiling_regions price charge))"

definition check_ceiling ::
  "job_tier \<Rightarrow> string \<Rightarrow> 'a price_fields_scheme \<Rightarrow> 'b price_fields_scheme \<Rightarrow> int \<Rightarrow> ceiling_failure option" where
  "check_ceiling tier routeId price charge ceiling =
     (case ceiling_failures tier routeId price charge ceiling of [] \<Rightarrow> None | f # _ \<Rightarrow> Some f)"

section \<open>Holds and display\<close>

definition band_hold :: "'a band_prices_scheme \<Rightarrow> int \<Rightarrow> int \<Rightarrow> int" where
  "band_hold band inputBound outputBound =
     (let inputRate = max (max (bp_inputMicroUsdPerMillion band) (bp_cacheWriteMicroUsdPerMillion band))
            (bp_cacheReadMicroUsdPerMillion band);
          outputRate = max (bp_outputMicroUsdPerMillion band) (reasoning_price band)
      in big_div (inputBound * inputRate + outputBound * outputRate + 999999) 1000000 + request_fee band)"

definition charge_hold :: "'a price_fields_scheme \<Rightarrow> int \<Rightarrow> int \<Rightarrow> int res" where
  "charge_hold charge inputBound outputBound =
     (let bands = band_prices.truncate charge
            # map band_prices.truncate (filter (\<lambda>b. inputBound > lb_aboveInputTokens b) (long_context charge));
          most = foldl (\<lambda>most band. let amount = band_hold band inputBound outputBound in
                   if amount > most then amount else most) 0 bands
      in if most > max_money then Inl RangeError else micro most)"

definition provider_cost_per_credit :: "int \<Rightarrow> int \<Rightarrow> int option res" where
  "provider_cost_per_credit providerCost chargedUnits =
     (if \<not> is_safe_integer providerCost \<or> providerCost < 0 \<or> \<not> is_safe_integer chargedUnits \<or> chargedUnits < 0
        then Inl RangeError
      else if chargedUnits = 0 then Inr None
      else Inr (Some (big_div (providerCost * credit_micro_usd + chargedUnits - 1) chargedUnits)))"

section \<open>Pricing lemmas\<close>

lemmas price_defs = reasoning_price_def request_fee_def nullish_def

lemma big_div_nonneg: "0 \<le> a \<Longrightarrow> big_div a b = a div b"
  by (simp add: big_div_def)

lemma ceil_million_mono: "0 \<le> a \<Longrightarrow> a \<le> b \<Longrightarrow> big_div (a + 999999) 1000000 \<le> big_div (b + 999999) 1000000"
  by (simp add: big_div_nonneg zdiv_mono1)

text \<open>The numerator of a cost, over any band.\<close>

definition scaled_cost :: "'a band_prices_scheme \<Rightarrow> 'b usage_counts_scheme \<Rightarrow> int" where
  "scaled_cost band u =
     (uc_inputTokens u - uc_cacheReadTokens u - uc_cacheWriteTokens u) * bp_inputMicroUsdPerMillion band
     + uc_cacheReadTokens u * bp_cacheReadMicroUsdPerMillion band
     + uc_cacheWriteTokens u * bp_cacheWriteMicroUsdPerMillion band
     + (uc_outputTokens u - uc_reasoningTokens u) * bp_outputMicroUsdPerMillion band
     + uc_reasoningTokens u * reasoning_price band"

definition band_cost :: "'a band_prices_scheme \<Rightarrow> 'b usage_counts_scheme \<Rightarrow> int" where
  "band_cost band u = big_div (scaled_cost band u + 999999) 1000000 + request_fee band"

definition band_nonneg :: "'a band_prices_scheme \<Rightarrow> bool" where
  "band_nonneg b \<longleftrightarrow> 0 \<le> bp_inputMicroUsdPerMillion b \<and> 0 \<le> bp_outputMicroUsdPerMillion b
     \<and> 0 \<le> bp_cacheReadMicroUsdPerMillion b \<and> 0 \<le> bp_cacheWriteMicroUsdPerMillion b
     \<and> 0 \<le> reasoning_price b \<and> 0 \<le> request_fee b"

definition prices_nonneg :: "'a price_fields_scheme \<Rightarrow> bool" where
  "prices_nonneg p \<longleftrightarrow> band_nonneg p \<and> list_all band_nonneg (long_context p)
     \<and> list_all (\<lambda>b. 0 \<le> lb_aboveInputTokens b) (long_context p)"

lemma usage_cost_wf:
  assumes "usage_wf u"
  shows "usage_cost rate u =
    (let cost = band_cost (band_at rate (uc_inputTokens u)) u
     in if cost > max_money then Inl RangeError else micro cost)"
  by (simp add: usage_cost_def fresh_input_tokens_wf [OF assms] band_cost_def scaled_cost_def Let_def)

lemma truncate_band_simps [simp]:
  "bp_inputMicroUsdPerMillion (band_prices.truncate b) = bp_inputMicroUsdPerMillion b"
  "bp_outputMicroUsdPerMillion (band_prices.truncate b) = bp_outputMicroUsdPerMillion b"
  "bp_cacheReadMicroUsdPerMillion (band_prices.truncate b) = bp_cacheReadMicroUsdPerMillion b"
  "bp_cacheWriteMicroUsdPerMillion (band_prices.truncate b) = bp_cacheWriteMicroUsdPerMillion b"
  "reasoning_price (band_prices.truncate b) = reasoning_price b"
  "request_fee (band_prices.truncate b) = request_fee b"
  by (simp_all add: band_prices.defs price_defs)

lemma band_nonneg_truncate [simp]: "band_nonneg (band_prices.truncate b) = band_nonneg b"
  by (simp add: band_nonneg_def)

lemma band_at_cases:
  "band_at price n = band_prices.truncate price
   \<or> (\<exists>b \<in> set (long_context price). n > lb_aboveInputTokens b \<and> band_at price n = band_prices.truncate b)"
  by (auto simp: band_at_def dest!: find_Some_in_set split: option.splits)

lemma band_at_nonneg: "prices_nonneg p \<Longrightarrow> band_nonneg (band_at p n)"
  using band_at_cases [of p n] by (auto simp: prices_nonneg_def list_all_iff)

lemma tier_charge_ok_nonneg: "tier_charge_ok c \<Longrightarrow> prices_nonneg c"
  by (auto simp: tier_charge_ok_def prices_nonneg_def band_schema_ok_def list_all_iff band_nonneg_def
      band_fields_ok_def units_ok_def opt_units_ok_def price_defs split: option.splits)

lemma scaled_cost_nonneg: "band_nonneg b \<Longrightarrow> usage_wf u \<Longrightarrow> 0 \<le> scaled_cost b u"
  by (auto simp: scaled_cost_def band_nonneg_def usage_wf_def)

lemma band_cost_nonneg: "band_nonneg b \<Longrightarrow> usage_wf u \<Longrightarrow> 0 \<le> band_cost b u"
  using scaled_cost_nonneg [of b u] by (auto simp: band_cost_def big_div_nonneg band_nonneg_def)

lemma scaled_cost_le_bounds:
  assumes "band_nonneg b" and "usage_wf u" and "uc_inputTokens u \<le> i" and "uc_outputTokens u \<le> out"
  shows "scaled_cost b u \<le>
     i * max (max (bp_inputMicroUsdPerMillion b) (bp_cacheWriteMicroUsdPerMillion b)) (bp_cacheReadMicroUsdPerMillion b)
     + out * max (bp_outputMicroUsdPerMillion b) (reasoning_price b)" (is "_ \<le> i * ?I + out * ?O")
proof -
  let ?f = "uc_inputTokens u - uc_cacheReadTokens u - uc_cacheWriteTokens u"
  have u: "0 \<le> ?f" "0 \<le> uc_cacheReadTokens u" "0 \<le> uc_cacheWriteTokens u"
    "0 \<le> uc_outputTokens u - uc_reasoningTokens u" "0 \<le> uc_reasoningTokens u"
    using assms(2) by (auto simp: usage_wf_def)
  have nn: "0 \<le> ?I" "0 \<le> ?O"
    using assms(1) by (auto simp: band_nonneg_def)
  have "?f * bp_inputMicroUsdPerMillion b \<le> ?f * ?I"
    "uc_cacheReadTokens u * bp_cacheReadMicroUsdPerMillion b \<le> uc_cacheReadTokens u * ?I"
    "uc_cacheWriteTokens u * bp_cacheWriteMicroUsdPerMillion b \<le> uc_cacheWriteTokens u * ?I"
    "(uc_outputTokens u - uc_reasoningTokens u) * bp_outputMicroUsdPerMillion b
       \<le> (uc_outputTokens u - uc_reasoningTokens u) * ?O"
    "uc_reasoningTokens u * reasoning_price b \<le> uc_reasoningTokens u * ?O"
    using u by (auto intro!: mult_left_mono)
  then have "scaled_cost b u \<le> uc_inputTokens u * ?I + uc_outputTokens u * ?O"
    by (simp add: scaled_cost_def algebra_simps)
  also have "\<dots> \<le> i * ?I + out * ?O"
    using assms(3,4) nn by (intro add_mono mult_right_mono)
  finally show ?thesis .
qed

lemma band_cost_le_hold:
  assumes "band_nonneg b" and "usage_wf u" and "uc_inputTokens u \<le> i" and "uc_outputTokens u \<le> out"
  shows "band_cost b u \<le> band_hold b i out"
  using ceil_million_mono [OF scaled_cost_nonneg [OF assms(1,2)] scaled_cost_le_bounds [OF assms]]
  by (simp add: band_cost_def band_hold_def Let_def)

lemma foldl_max_start: "a \<le> foldl (\<lambda>most x. if f x > most then f x else most) a xs"
  for a :: int
proof (induction xs arbitrary: a)
  case Nil
  then show ?case by simp
next
  case (Cons y ys)
  show ?case using Cons.IH [of "if f y > a then f y else a"] by (auto split: if_splits)
qed

lemma foldl_max_member:
  "x \<in> set xs \<Longrightarrow> f x \<le> foldl (\<lambda>most x. if f x > most then f x else most) a xs"
  for a :: int
proof (induction xs arbitrary: a)
  case Nil
  then show ?case by simp
next
  case (Cons y ys)
  show ?case
  proof (cases "x = y")
    case True
    have "f y \<le> (if f y > a then f y else a)" by simp
    also have "\<dots> \<le> foldl (\<lambda>most x. if f x > most then f x else most) (if f y > a then f y else a) ys"
      by (rule foldl_max_start)
    finally show ?thesis using True by simp
  next
    case False
    with Cons show ?thesis by simp
  qed
qed

lemma charge_hold_Inr_iff [result_simps]:
  "charge_hold charge i out = Inr h \<longleftrightarrow>
     is_money h \<and> h = foldl (\<lambda>most band. let amount = band_hold band i out in
                   if amount > most then amount else most) 0
           (band_prices.truncate charge
            # map band_prices.truncate (filter (\<lambda>b. i > lb_aboveInputTokens b) (long_context charge)))"
  by (auto simp: charge_hold_def Let_def micro_Inr_iff is_money_def)

text \<open>A hold covers every usage inside the bounds it was taken for.\<close>

lemma charge_hold_covers:
  assumes hold: "charge_hold charge i out = Inr h" and nn: "prices_nonneg charge"
    and u: "usage_wf u" "uc_inputTokens u \<le> i" "uc_outputTokens u \<le> out"
  shows "\<exists>c. usage_cost charge u = Inr c \<and> c \<le> h"
proof -
  let ?band = "band_at charge (uc_inputTokens u)"
  let ?bands = "band_prices.truncate charge
    # map band_prices.truncate (filter (\<lambda>b. i > lb_aboveInputTokens b) (long_context charge))"
  from band_at_cases [of charge "uc_inputTokens u"] u(2)
  have "?band \<in> set ?bands" by auto
  then have "band_hold ?band i out \<le> h"
    using hold foldl_max_member [of ?band ?bands "\<lambda>b. band_hold b i out" 0]
    by (simp add: charge_hold_Inr_iff Let_def)
  with band_cost_le_hold [OF band_at_nonneg [OF nn] u(1) u(2,3)]
  have le: "band_cost ?band u \<le> h" by (rule order_trans)
  moreover have "0 \<le> band_cost ?band u"
    by (rule band_cost_nonneg [OF band_at_nonneg [OF nn] u(1)])
  moreover from hold have "h \<le> max_money"
    by (simp add: charge_hold_Inr_iff is_money_def)
  ultimately have "usage_cost charge u = Inr (band_cost ?band u)"
    by (simp add: usage_cost_wf [OF u(1)] is_money_def Let_def)
  with le show ?thesis by blast
qed

text \<open>Every request falls in one of the regions the ceiling is checked in.\<close>

lemma region_covers:
  fixes n :: int
  assumes "0 \<le> n" and "finite T" and "\<forall>t \<in> T. 0 \<le> t"
  shows "\<exists>region \<in> insert None (Some ` T). \<forall>t \<in> T. (n > t) = (region_start region > t)"
proof (cases "{t \<in> T. t < n} = {}")
  case True
  with assms(3) have "\<forall>t \<in> T. (n > t) = (region_start None > t)"
    by (auto simp: region_start_def)
  then show ?thesis by blast
next
  case False
  let ?r = "Max {t \<in> T. t < n}"
  have fin: "finite {t \<in> T. t < n}" using assms(2) by simp
  have r: "?r \<in> T" "?r < n" using Max_in [OF fin False] by auto
  have "\<forall>t \<in> T. (n > t) = (region_start (Some ?r) > t)"
  proof
    fix t assume "t \<in> T"
    show "(n > t) = (region_start (Some ?r) > t)"
      using r Max_ge [OF fin, of t] \<open>t \<in> T\<close> by (auto simp: region_start_def)
  qed
  with r(1) show ?thesis by blast
qed

lemma band_at_cong:
  assumes "\<And>b. b \<in> set (long_context p) \<Longrightarrow> (n > lb_aboveInputTokens b) = (m > lb_aboveInputTokens b)"
  shows "band_at p n = band_at p m"
proof -
  have "find (\<lambda>b. n > lb_aboveInputTokens b) (sort_key (\<lambda>b. - lb_aboveInputTokens b) (long_context p))
      = find (\<lambda>b. m > lb_aboveInputTokens b) (sort_key (\<lambda>b. - lb_aboveInputTokens b) (long_context p))"
    by (rule find_cong) (use assms in auto)
  then show ?thesis by (simp only: band_at_def)
qed

lemma ceiling_failures_Nil:
  "ceiling_failures tier routeId price charge ceiling = [] \<longleftrightarrow>
     (\<forall>region \<in> set (ceiling_regions price charge). \<forall>k \<in> set token_classes.
        class_price (band_at price (region_start region)) k * credit_micro_usd
          \<le> ceiling * class_price (band_at charge (region_start region)) k)"
  by (auto simp: ceiling_failures_def Let_def filter_empty_conv)

lemma ceiling_every_band:
  assumes ok: "ceiling_failures tier routeId price charge ceiling = []"
    and nn: "prices_nonneg price" "prices_nonneg charge" and n: "0 \<le> n"
  shows "class_price (band_at price n) k * credit_micro_usd \<le> ceiling * class_price (band_at charge n) k"
proof -
  let ?T = "lb_aboveInputTokens ` set (long_context price @ long_context charge)"
  have "\<forall>t \<in> ?T. 0 \<le> t" using nn by (auto simp: prices_nonneg_def list_all_iff)
  then obtain region where region: "region \<in> insert None (Some ` ?T)"
    and same: "\<forall>t \<in> ?T. (n > t) = (region_start region > t)"
    using region_covers [OF n, of ?T] by auto
  have "band_at price n = band_at price (region_start region)"
    "band_at charge n = band_at charge (region_start region)"
    using same by (auto intro!: band_at_cong)
  moreover have "region \<in> set (ceiling_regions price charge)"
    using region by (auto simp: ceiling_regions_def)
  moreover have "k \<in> set token_classes" by (cases k) (simp_all add: token_classes_def)
  ultimately show ?thesis using ok by (simp add: ceiling_failures_Nil)
qed

lemma ceiling_class_le:
  assumes "p * credit_micro_usd \<le> ceiling * c" and "ceiling_schema_ok ceiling" and "0 \<le> c"
  shows "p \<le> c"
proof -
  from assms(2,3) have "ceiling * c \<le> credit_micro_usd * c"
    by (intro mult_right_mono) (auto simp: ceiling_schema_ok_def)
  with assms(1) have "credit_micro_usd * p \<le> credit_micro_usd * c"
    by (simp add: mult.commute)
  then show ?thesis by (simp add: credit_micro_usd_def)
qed

text \<open>A route that passes the ceiling never costs the provider more than the tier debits.\<close>

lemma ceiling_bounds_cost:
  assumes ok: "ceiling_failures tier routeId price charge ceiling = []"
    and schema: "ceiling_schema_ok ceiling"
    and nn: "prices_nonneg price" "prices_nonneg charge" and u: "usage_wf u"
  shows "band_cost (band_at price (uc_inputTokens u)) u \<le> band_cost (band_at charge (uc_inputTokens u)) u"
proof -
  let ?p = "band_at price (uc_inputTokens u)" and ?c = "band_at charge (uc_inputTokens u)"
  have n: "0 \<le> uc_inputTokens u" using u by (simp add: usage_wf_def)
  have c: "band_nonneg ?c" by (rule band_at_nonneg [OF nn(2)])
  have le: "class_price ?p k \<le> class_price ?c k" for k
  proof (rule ceiling_class_le [OF ceiling_every_band [OF ok nn n] schema])
    show "0 \<le> class_price ?c k" using c by (cases k) (auto simp: band_nonneg_def)
  qed
  have scaled: "scaled_cost ?p u \<le> scaled_cost ?c u"
    unfolding scaled_cost_def
    using le [of ClassInput] le [of ClassOutput] le [of ClassReasoning] le [of ClassCacheRead] le [of ClassCacheWrite] u
    by (intro add_mono mult_left_mono) (auto simp: usage_wf_def)
  have "big_div (scaled_cost ?p u + 999999) 1000000 \<le> big_div (scaled_cost ?c u + 999999) 1000000"
    by (rule ceil_million_mono [OF scaled_cost_nonneg [OF band_at_nonneg [OF nn(1)] u] scaled])
  with le [of ClassRequestFee] show ?thesis by (simp add: band_cost_def)
qed

end
