(* ===== verification/Reservation.thy ===== *)
theory Reservation
  imports Money
begin

text \<open>
  The reservation state machine of \<open>shared/managed-usage.ts\<close> and the interface every state of a
  ledger row shares: a row moves only forward, so it never returns to a state it left.
\<close>

datatype reservation_state = Pending | Settled | Released | Uncertain | WrittenOff

datatype reservation_event = Settle | Release | Lose | Reconcile | WriteOff

definition is_terminal_reservation :: "reservation_state \<Rightarrow> bool" where
  "is_terminal_reservation s \<longleftrightarrow> s \<in> {Settled, Released, WrittenOff}"

fun transitions :: "reservation_state \<Rightarrow> reservation_event \<Rightarrow> reservation_state option" where
  "transitions Pending Settle = Some Settled"
| "transitions Pending Release = Some Released"
| "transitions Pending Lose = Some Uncertain"
| "transitions Uncertain Reconcile = Some Settled"
| "transitions Uncertain WriteOff = Some WrittenOff"
| "transitions _ _ = None"

definition reservation_transition :: "reservation_state \<Rightarrow> reservation_event \<Rightarrow> reservation_state res" where
  "reservation_transition from event =
     (if is_terminal_reservation from then Inl PlainError
      else case transitions from event of
        Some next \<Rightarrow> Inr next
      | None \<Rightarrow> (if from = Uncertain then Inl PlainError else Inl PlainError))"

lemma reservation_transition_Inr_iff [result_simps]:
  "reservation_transition s e = Inr s' \<longleftrightarrow> transitions s e = Some s'"
  by (cases s; cases e) (auto simp: reservation_transition_def is_terminal_reservation_def)

text \<open>Whether some event moves a reservation from one state to the other.\<close>

definition reservation_moves :: "reservation_state \<Rightarrow> reservation_state \<Rightarrow> bool" where
  "reservation_moves s s' \<longleftrightarrow> (\<exists>e. transitions s e = Some s')"

lemma reservation_moves_iff:
  "reservation_moves s s' \<longleftrightarrow>
     s = Pending \<and> s' \<in> {Settled, Released, Uncertain} \<or> s = Uncertain \<and> s' \<in> {Settled, WrittenOff}"
proof -
  have "(\<exists>e. transitions s e = Some s') \<longleftrightarrow>
     transitions s Settle = Some s' \<or> transitions s Release = Some s' \<or> transitions s Lose = Some s'
     \<or> transitions s Reconcile = Some s' \<or> transitions s WriteOff = Some s'"
    by (metis reservation_event.exhaust)
  then show ?thesis
    unfolding reservation_moves_def by (cases s) auto
qed

section \<open>States that only move forward\<close>

locale forward_moves =
  fixes moves :: "'s \<Rightarrow> 's \<Rightarrow> bool" and remaining :: "'s \<Rightarrow> nat"
  assumes forward: "moves s s' \<Longrightarrow> remaining s' < remaining s"
begin

lemma final_stays: "remaining s = 0 \<Longrightarrow> \<not> moves s s'"
  using forward by fastforce

lemma reached_remaining: "moves\<^sup>*\<^sup>* s s' \<Longrightarrow> s = s' \<or> remaining s' < remaining s"
  by (induction rule: rtranclp_induct) (auto dest: forward)

lemma final_reached: "moves\<^sup>*\<^sup>* s s' \<Longrightarrow> remaining s = 0 \<Longrightarrow> s' = s"
  using reached_remaining by fastforce

lemma never_back: "moves\<^sup>*\<^sup>* s t \<Longrightarrow> moves\<^sup>*\<^sup>* t s \<Longrightarrow> t = s"
  using reached_remaining [of s t] reached_remaining [of t s] by auto

lemma moved_stays_moved: "moves s t \<Longrightarrow> moves\<^sup>*\<^sup>* t u \<Longrightarrow> u \<noteq> s"
  using forward [of s t] reached_remaining [of t u] by auto

end

fun reservation_remaining :: "reservation_state \<Rightarrow> nat" where
  "reservation_remaining Pending = 2"
| "reservation_remaining Uncertain = 1"
| "reservation_remaining _ = 0"

interpretation reservation: forward_moves reservation_moves reservation_remaining
  by unfold_locales (auto simp: reservation_moves_iff)

lemma terminal_remaining: "is_terminal_reservation s \<longleftrightarrow> reservation_remaining s = 0"
  by (cases s) (simp_all add: is_terminal_reservation_def)

end
