(* ===== verification/Calendar.thy ===== *)
theory Calendar
  imports Prelude
begin

text \<open>
  The part of JavaScript's \<open>Date\<close> that the ledger uses, in UTC, as the language defines it. An instant
  is its time value, a whole number of milliseconds since 1970. The rows' timestamps are texts the
  service writes with \<open>toISOString\<close> and reads with \<open>Date.parse\<close>; the model keeps the instant and
  writes the text out where the code builds an id from it.
\<close>

definition ms_per_day :: int where
  "ms_per_day = 86400000"

text \<open>The first day of a year, counted from 1970-01-01.\<close>

definition day_from_year :: "int \<Rightarrow> int" where
  "day_from_year y = 365 * (y - 1970) + (y - 1969) div 4 - (y - 1901) div 100 + (y - 1601) div 400"

definition year_from_day :: "int \<Rightarrow> int" where
  "year_from_day d = (let y = 1970 + (400 * d) div 146097 in
     if d < day_from_year y then y - 1 else if day_from_year (y + 1) \<le> d then y + 1 else y)"

definition leap_year :: "int \<Rightarrow> bool" where
  "leap_year y \<longleftrightarrow> y mod 4 = 0 \<and> (y mod 100 \<noteq> 0 \<or> y mod 400 = 0)"

text \<open>Days of a year before the month numbered from 0; month 12 is the end of the year.\<close>

definition month_start :: "bool \<Rightarrow> int \<Rightarrow> int" where
  "month_start leap m = [0, 31, 59, 90, 120, 151, 181, 212, 243, 273, 304, 334, 365] ! nat m
     + (if leap \<and> 2 \<le> m then 1 else 0)"

definition month_length :: "bool \<Rightarrow> int \<Rightarrow> int" where
  "month_length leap m = month_start leap (m + 1) - month_start leap m"

definition month_from_day :: "bool \<Rightarrow> int \<Rightarrow> int" where
  "month_from_day leap d = int (length (filter (\<lambda>m. month_start leap m \<le> d) [1, 2, 3, 4, 5, 6, 7, 8, 9, 10, 11]))"

definition utc_day :: "int \<Rightarrow> int" where "utc_day t = t div ms_per_day"
definition utc_full_year :: "int \<Rightarrow> int" where "utc_full_year t = year_from_day (utc_day t)"
definition utc_month :: "int \<Rightarrow> int" where
  "utc_month t = month_from_day (leap_year (utc_full_year t)) (utc_day t - day_from_year (utc_full_year t))"
definition utc_date :: "int \<Rightarrow> int" where
  "utc_date t = utc_day t - day_from_year (utc_full_year t)
     - month_start (leap_year (utc_full_year t)) (utc_month t) + 1"
definition utc_hours :: "int \<Rightarrow> int" where "utc_hours t = t div 3600000 mod 24"
definition utc_minutes :: "int \<Rightarrow> int" where "utc_minutes t = t div 60000 mod 60"
definition utc_seconds :: "int \<Rightarrow> int" where "utc_seconds t = t div 1000 mod 60"
definition utc_milliseconds :: "int \<Rightarrow> int" where "utc_milliseconds t = t mod 1000"

definition make_day :: "int \<Rightarrow> int \<Rightarrow> int \<Rightarrow> int" where
  "make_day year month date =
     (let y = year + month div 12; m = month mod 12
      in day_from_year y + month_start (leap_year y) m + date - 1)"

definition make_time :: "int \<Rightarrow> int \<Rightarrow> int \<Rightarrow> int \<Rightarrow> int" where
  "make_time h m s ms = h * 3600000 + m * 60000 + s * 1000 + ms"

text \<open>\<open>Date.UTC\<close>, which reads the years 0 to 99 as 1900 to 1999.\<close>

definition date_utc :: "int \<Rightarrow> int \<Rightarrow> int \<Rightarrow> int \<Rightarrow> int" where
  "date_utc year month date time =
     make_day (if 0 \<le> year \<and> year \<le> 99 then 1900 + year else year) month date * ms_per_day + time"

definition is_time_value :: "int \<Rightarrow> bool" where
  "is_time_value t \<longleftrightarrow> \<bar>t\<bar> \<le> 8640000000000000"

text \<open>\<open>toISOString\<close>.\<close>

definition iso_year :: "int \<Rightarrow> string" where
  "iso_year y = (if 0 \<le> y \<and> y \<le> 9999 then pad_zero 4 (show_int y)
     else (if y < 0 then ''-'' else ''+'') @ pad_zero 6 (show_int \<bar>y\<bar>))"

definition to_iso :: "int \<Rightarrow> string" where
  "to_iso t = iso_year (utc_full_year t) @ ''-'' @ pad_zero 2 (show_int (utc_month t + 1)) @ ''-''
     @ pad_zero 2 (show_int (utc_date t)) @ ''T'' @ pad_zero 2 (show_int (utc_hours t)) @ '':''
     @ pad_zero 2 (show_int (utc_minutes t)) @ '':'' @ pad_zero 2 (show_int (utc_seconds t)) @ ''.''
     @ pad_zero 3 (show_int (utc_milliseconds t)) @ ''Z''"

section \<open>Years\<close>

lemma div_bounds:
  fixes a n :: int
  assumes "0 < n"
  shows "n * (a div n) \<le> a" "a < n * (a div n) + n"
  using assms minus_mod_eq_mult_div [of a n] pos_mod_bound [of n a] pos_mod_sign [of n a] by linarith+

lemma day_from_year_bounds:
  "146097 * (y - 1970) - 506 \<le> 400 * day_from_year y"
  "400 * day_from_year y \<le> 146097 * (y - 1970) + 589"
proof -
  define a b c where "a = (y - 1969) div 4" and "b = (y - 1901) div 100" and "c = (y - 1601) div 400"
  have bounds: "4 * a \<le> y - 1969" "y - 1969 < 4 * a + 4" "100 * b \<le> y - 1901" "y - 1901 < 100 * b + 100"
    "400 * c \<le> y - 1601" "y - 1601 < 400 * c + 400"
    unfolding a_def b_def c_def by (rule div_bounds; simp)+
  have is_day: "day_from_year y = 365 * (y - 1970) + a - b + c"
    by (simp only: day_from_year_def a_def b_def c_def)
  show "146097 * (y - 1970) - 506 \<le> 400 * day_from_year y"
    using bounds unfolding is_day by simp
  show "400 * day_from_year y \<le> 146097 * (y - 1970) + 589"
    using bounds unfolding is_day by simp
qed

lemma div_next:
  fixes a n :: int
  assumes "0 < n"
  shows "(a + 1) div n = a div n + (if (a + 1) mod n = 0 then 1 else 0)"
proof -
  have eq: "a + 1 = n * (a div n) + (a mod n + 1)" by simp
  have range: "0 \<le> a mod n" "a mod n < n" using assms by simp_all
  show ?thesis
  proof (cases "a mod n + 1 = n")
    case True
    then have "a + 1 = n * (a div n + 1)" using eq by (simp add: algebra_simps)
    then show ?thesis using assms by simp
  next
    case False
    with range have small: "0 \<le> a mod n + 1" "a mod n + 1 < n" by simp_all
    then have "(a + 1) div n = a div n" by (intro int_div_pos_eq [OF eq])
    moreover have "(a + 1) mod n = a mod n + 1" by (intro int_mod_pos_eq [OF eq] small)
    ultimately show ?thesis using range by simp
  qed
qed

lemma year_mods:
  "(y - 1968) mod 4 = y mod 4" "(y - 1900) mod 100 = y mod 100" "(y - 1600) mod 400 = y mod 400"
  for y :: int
  using mod_mult_self1 [of y "- 492" 4] mod_mult_self1 [of y "- 19" 100] mod_mult_self1 [of y "- 4" 400]
  by simp_all

lemma year_length: "day_from_year (y + 1) - day_from_year y = (if leap_year y then 366 else 365)"
proof -
  have four: "(y - 1968) div 4 = (y - 1969) div 4 + (if y mod 4 = 0 then 1 else 0)"
    using div_next [of 4 "y - 1969"] by (simp add: year_mods)
  have hundred: "(y - 1900) div 100 = (y - 1901) div 100 + (if y mod 100 = 0 then 1 else 0)"
    using div_next [of 100 "y - 1901"] by (simp add: year_mods)
  have fourhundred: "(y - 1600) div 400 = (y - 1601) div 400 + (if y mod 400 = 0 then 1 else 0)"
    using div_next [of 400 "y - 1601"] by (simp add: year_mods)
  have hf: "y mod 100 = 0 \<Longrightarrow> y mod 4 = 0" "y mod 400 = 0 \<Longrightarrow> y mod 100 = 0"
    using dvd_trans [of 4 100 y] dvd_trans [of 100 400 y] by (auto simp: dvd_eq_mod_eq_0)
  define a b c where "a = (y - 1969) div 4" and "b = (y - 1901) div 100" and "c = (y - 1601) div 400"
  have "day_from_year y = 365 * (y - 1970) + a - b + c"
    by (simp only: day_from_year_def a_def b_def c_def)
  moreover have "y + 1 - 1969 = y - 1968" "y + 1 - 1901 = y - 1900" "y + 1 - 1601 = y - 1600" by simp_all
  then have "day_from_year (y + 1) = 365 * (y + 1 - 1970) + (a + (if y mod 4 = 0 then 1 else 0))
      - (b + (if y mod 100 = 0 then 1 else 0)) + (c + (if y mod 400 = 0 then 1 else 0))"
    by (simp only: day_from_year_def a_def b_def c_def flip: four hundred fourhundred)
  moreover have "365 * (y + 1 - 1970) = 365 * (y - 1970) + 365" by simp
  ultimately have eq: "day_from_year (y + 1) - day_from_year y = 365 + (if y mod 4 = 0 then 1 else 0)
      - (if y mod 100 = 0 then 1 else 0) + (if y mod 400 = 0 then 1 else 0)"
    by (simp only:)
  consider "y mod 4 \<noteq> 0" "y mod 100 \<noteq> 0" "y mod 400 \<noteq> 0" | "y mod 4 = 0" "y mod 100 \<noteq> 0" "y mod 400 \<noteq> 0"
    | "y mod 4 = 0" "y mod 100 = 0" "y mod 400 \<noteq> 0" | "y mod 4 = 0" "y mod 100 = 0" "y mod 400 = 0"
    using hf by metis
  then show ?thesis
    unfolding eq leap_year_def by cases simp_all
qed

lemma day_from_year_Suc: "day_from_year y + 365 \<le> day_from_year (y + 1)"
  using year_length [of y] by (auto split: if_splits)

lemma day_from_year_add: "day_from_year y + int n \<le> day_from_year (y + int n)"
proof (induction n)
  case 0
  then show ?case by simp
next
  case (Suc n)
  with day_from_year_Suc [of "y + int n"] show ?case by (simp add: algebra_simps)
qed

lemma day_from_year_mono: "y \<le> z \<Longrightarrow> day_from_year y \<le> day_from_year z"
  using day_from_year_add [of y "nat (z - y)"] by simp

lemma year_from_day_bounds:
  "day_from_year (year_from_day d) \<le> d" "d < day_from_year (year_from_day d + 1)"
proof -
  define y where "y = 1970 + (400 * d) div 146097"
  have q: "146097 * (y - 1970) \<le> 400 * d" "400 * d < 146097 * (y - 1970) + 146097"
    using div_bounds [of 146097 "400 * d"] unfolding y_def by simp_all
  have before: "day_from_year (y - 1) \<le> d"
    using day_from_year_bounds(2) [of "y - 1"] q by simp
  have after: "d < day_from_year (y + 2)"
    using day_from_year_bounds(1) [of "y + 2"] q by simp
  have is_year: "year_from_day d = (if d < day_from_year y then y - 1
      else if day_from_year (y + 1) \<le> d then y + 1 else y)"
    by (simp add: year_from_day_def y_def)
  show "day_from_year (year_from_day d) \<le> d"
    unfolding is_year using before by simp
  show "d < day_from_year (year_from_day d + 1)"
    unfolding is_year using after by (simp add: add.assoc)
qed

lemma year_from_day_unique:
  assumes "day_from_year y \<le> d" and "d < day_from_year (y + 1)"
  shows "year_from_day d = y"
proof (rule antisym)
  show "year_from_day d \<le> y"
  proof (rule ccontr)
    assume "\<not> year_from_day d \<le> y"
    then have "day_from_year (y + 1) \<le> day_from_year (year_from_day d)"
      by (intro day_from_year_mono) simp
    with year_from_day_bounds(1) [of d] assms(2) show False by simp
  qed
  show "y \<le> year_from_day d"
  proof (rule ccontr)
    assume "\<not> y \<le> year_from_day d"
    then have "day_from_year (year_from_day d + 1) \<le> day_from_year y"
      by (intro day_from_year_mono) simp
    with year_from_day_bounds(2) [of d] assms(1) show False by simp
  qed
qed

section \<open>Months\<close>

lemma month_cases:
  assumes "0 \<le> m" and "m < (12 :: int)"
  obtains "m = 0" | "m = 1" | "m = 2" | "m = 3" | "m = 4" | "m = 5" | "m = 6" | "m = 7"
    | "m = 8" | "m = 9" | "m = 10" | "m = 11"
proof -
  from assms have "m = 0 \<or> m = 1 \<or> m = 2 \<or> m = 3 \<or> m = 4 \<or> m = 5 \<or> m = 6 \<or> m = 7 \<or> m = 8 \<or> m = 9
    \<or> m = 10 \<or> m = 11" by presburger
  with that show ?thesis by blast
qed

lemma month_start_values [simp]:
  "month_start l 0 = 0" "month_start l 1 = 31" "month_start l 2 = (if l then 60 else 59)"
  "month_start l 3 = (if l then 91 else 90)" "month_start l 4 = (if l then 121 else 120)"
  "month_start l 5 = (if l then 152 else 151)" "month_start l 6 = (if l then 182 else 181)"
  "month_start l 7 = (if l then 213 else 212)" "month_start l 8 = (if l then 244 else 243)"
  "month_start l 9 = (if l then 274 else 273)" "month_start l 10 = (if l then 305 else 304)"
  "month_start l 11 = (if l then 335 else 334)" "month_start l 12 = (if l then 366 else 365)"
  by (simp_all add: month_start_def nat_eq_iff numeral_2_eq_2 eval_nat_numeral)

lemma month_length_bounds:
  assumes "0 \<le> m" and "m < 12"
  shows "28 \<le> month_length l m" "month_length l m \<le> 31"
  using assms by (auto elim!: month_cases simp: month_length_def)

lemma month_from_day_bounds:
  assumes "0 \<le> d" and "d < month_start l 12"
  shows "0 \<le> month_from_day l d" "month_from_day l d < 12"
    "month_start l (month_from_day l d) \<le> d" "d < month_start l (month_from_day l d + 1)"
proof -
  have "month_from_day l d =
    (if d < 31 then 0 else if d < month_start l 2 then 1 else if d < month_start l 3 then 2
     else if d < month_start l 4 then 3 else if d < month_start l 5 then 4 else if d < month_start l 6 then 5
     else if d < month_start l 7 then 6 else if d < month_start l 8 then 7 else if d < month_start l 9 then 8
     else if d < month_start l 10 then 9 else if d < month_start l 11 then 10 else 11)"
    by (simp add: month_from_day_def)
  then show "0 \<le> month_from_day l d" "month_from_day l d < 12"
    "month_start l (month_from_day l d) \<le> d" "d < month_start l (month_from_day l d + 1)"
    using assms by (auto split: if_splits)
qed

text \<open>Months counted from the month 0 of year 0, and the day each begins on.\<close>

definition month_number :: "int \<Rightarrow> int" where
  "month_number t = 12 * utc_full_year t + utc_month t"

definition month_day :: "int \<Rightarrow> int" where
  "month_day M = day_from_year (M div 12) + month_start (leap_year (M div 12)) (M mod 12)"

definition month_days :: "int \<Rightarrow> int" where
  "month_days M = month_length (leap_year (M div 12)) (M mod 12)"

lemma make_day_eq: "make_day y m d = month_day (12 * y + m) + d - 1"
  by (simp add: make_day_def month_day_def Let_def)

lemma month_days_bounds: "28 \<le> month_days M" "month_days M \<le> 31"
  unfolding month_days_def by (rule month_length_bounds; simp)+

lemma month_day_next: "month_day (M + 1) = month_day M + month_days M"
proof (cases "M mod 12 = 11")
  case True
  have next_year: "(M + 1) div 12 = M div 12 + 1" "(M + 1) mod 12 = 0"
    using div_next [of 12 M] True by (auto simp: mod_add_left_eq [of M 12 1, symmetric])
  show ?thesis
    using year_length [of "M div 12"] True
    by (simp add: month_day_def month_days_def month_length_def next_year)
next
  case False
  have "0 \<le> M mod 12" "M mod 12 < 12" by simp_all
  with False have small: "0 \<le> M mod 12 + 1" "M mod 12 + 1 < 12" by linarith+
  have eq: "M + 1 = 12 * (M div 12) + (M mod 12 + 1)" by simp
  have "(M + 1) div 12 = M div 12" by (rule int_div_pos_eq [OF eq small])
  moreover have "(M + 1) mod 12 = M mod 12 + 1" by (rule int_mod_pos_eq [OF eq small])
  ultimately show ?thesis by (simp add: month_day_def month_days_def month_length_def)
qed

lemma month_day_add: "month_day M + 28 * int n \<le> month_day (M + int n)"
proof (induction n)
  case 0
  then show ?case by simp
next
  case (Suc n)
  have "month_day (M + int n) + 28 \<le> month_day (M + int n + 1)"
    using month_day_next [of "M + int n"] month_days_bounds(1) [of "M + int n"] by simp
  with Suc show ?case by (simp add: add.assoc add.commute [of 1])
qed

lemma month_day_mono: "M \<le> N \<Longrightarrow> month_day M \<le> month_day N"
  using month_day_add [of M "nat (N - M)"] by simp

lemma utc_year_bounds:
  "day_from_year (utc_full_year t) \<le> utc_day t" "utc_day t < day_from_year (utc_full_year t + 1)"
  unfolding utc_full_year_def by (rule year_from_day_bounds)+

lemma utc_month_day_bounds:
  "0 \<le> utc_month t" "utc_month t < 12"
  "month_day (month_number t) \<le> utc_day t" "utc_day t < month_day (month_number t + 1)"
proof -
  let ?y = "utc_full_year t"
  have d: "0 \<le> utc_day t - day_from_year ?y" "utc_day t - day_from_year ?y < month_start (leap_year ?y) 12"
    using utc_year_bounds [of t] year_length [of ?y] by auto
  note month = month_from_day_bounds [OF d, folded utc_month_def]
  then show "0 \<le> utc_month t" "utc_month t < 12" by blast+
  with month have parts: "month_number t div 12 = ?y" "month_number t mod 12 = utc_month t"
    by (simp_all add: month_number_def)
  show "month_day (month_number t) \<le> utc_day t"
    using month(3) by (simp add: month_day_def parts)
  show "utc_day t < month_day (month_number t + 1)"
    using month(4) by (simp add: month_day_next) (simp add: month_day_def month_days_def month_length_def parts)
qed

lemma month_number_parts: "month_number t div 12 = utc_full_year t" "month_number t mod 12 = utc_month t"
  using utc_month_day_bounds(1,2) [of t] by (simp_all add: month_number_def)

lemma utc_date_eq: "utc_date t = utc_day t - month_day (month_number t) + 1"
  by (simp add: utc_date_def month_day_def month_number_parts)

lemma utc_date_bounds: "1 \<le> utc_date t" "utc_date t \<le> month_days (month_number t)"
  using utc_month_day_bounds(3,4) [of t] by (simp_all add: utc_date_eq month_day_next)

lemma month_number_unique:
  assumes "month_day M \<le> utc_day t" and "utc_day t < month_day (M + 1)"
  shows "month_number t = M"
proof (rule antisym; rule ccontr)
  assume "\<not> month_number t \<le> M"
  then have "month_day (M + 1) \<le> month_day (month_number t)" by (intro month_day_mono) simp
  with utc_month_day_bounds(3) [of t] assms(2) show False by simp
next
  assume "\<not> M \<le> month_number t"
  then have "month_day (month_number t + 1) \<le> month_day M" by (intro month_day_mono) simp
  with utc_month_day_bounds(4) [of t] assms(1) show False by simp
qed

lemma month_number_mono: "t \<le> u \<Longrightarrow> month_number t \<le> month_number u"
proof (rule ccontr)
  assume le: "t \<le> u" and "\<not> month_number t \<le> month_number u"
  then have "month_day (month_number u + 1) \<le> month_day (month_number t)" by (intro month_day_mono) simp
  moreover have "utc_day t \<le> utc_day u" using le by (simp add: utc_day_def ms_per_day_def zdiv_mono1)
  ultimately show False
    using utc_month_day_bounds(3) [of t] utc_month_day_bounds(4) [of u] by simp
qed

section \<open>Instants from their parts\<close>

lemma utc_day_of: "0 \<le> r \<Longrightarrow> r < ms_per_day \<Longrightarrow> utc_day (d * ms_per_day + r) = d"
  by (simp add: utc_day_def ms_per_day_def)

lemma instant_split: "t = utc_day t * ms_per_day + t mod ms_per_day"
  by (simp add: utc_day_def)

lemma time_of_day: "make_time (utc_hours t) (utc_minutes t) (utc_seconds t) (utc_milliseconds t) = t mod ms_per_day"
proof -
  have day: "t mod 86400000 = 1000 * (t div 1000 mod 86400) + t mod 1000"
    using zmod_zmult2_eq [of 86400 t 1000] by (simp only: mult_numeral_1 arith_simps zero_le_numeral)
  have seconds: "t div 1000 mod 86400 = 60 * (t div 1000 div 60 mod 1440) + t div 1000 mod 60"
    using zmod_zmult2_eq [of 1440 "t div 1000" 60] by (simp only: arith_simps zero_le_numeral)
  have minutes: "t div 60000 mod 1440 = 60 * (t div 60000 div 60 mod 24) + t div 60000 mod 60"
    using zmod_zmult2_eq [of 24 "t div 60000" 60] by (simp only: arith_simps zero_le_numeral)
  have "t div 1000 div 60 = t div 60000"
    using zdiv_zmult2_eq [of 60 t 1000] by (simp only: arith_simps zero_le_numeral)
  moreover have "t div 60000 div 60 = t div 3600000"
    using zdiv_zmult2_eq [of 60 t 60000] by (simp only: arith_simps zero_le_numeral)
  ultimately have "t mod 86400000 =
      1000 * (60 * (60 * (t div 3600000 mod 24) + t div 60000 mod 60) + t div 1000 mod 60) + t mod 1000"
    by (simp only: day seconds minutes)
  moreover have "1000 * (60 * (60 * h + m) + sec) + ms = make_time h m sec ms" for h m sec ms :: int
    by (simp add: make_time_def)
  ultimately show ?thesis
    by (simp only: utc_hours_def utc_minutes_def utc_seconds_def utc_milliseconds_def ms_per_day_def)
qed

lemma instant_of_parts:
  "make_day (utc_full_year t) (utc_month t) (utc_date t) * ms_per_day
     + make_time (utc_hours t) (utc_minutes t) (utc_seconds t) (utc_milliseconds t) = t"
  using instant_split [of t]
  by (simp add: make_day_eq utc_date_eq time_of_day month_number_def)

section \<open>Canonical text\<close>

text \<open>
  The text \<open>toISOString\<close> writes for a four-digit year, \<open>YYYY-MM-DDTHH:mm:ss.sssZ\<close>: the form the
  code's pattern accepts, and the instant \<open>Date.parse\<close> reads from it. On a text whose numbers are out
  of range the model reads another instant where JavaScript may read none; the code compares the
  text with the one written for the instant, so both are refused.
\<close>

definition read_nat :: "string \<Rightarrow> int" where
  "read_nat t = foldl (\<lambda>n c. 10 * n + (int (of_char c) - 48)) 0 t"

definition iso_form :: "string \<Rightarrow> bool" where
  "iso_form v \<longleftrightarrow> length v = 24
     \<and> list_all is_digit (take 4 v) \<and> v ! 4 = CHR ''-'' \<and> list_all is_digit (take 2 (drop 5 v)) \<and> v ! 7 = CHR ''-''
     \<and> list_all is_digit (take 2 (drop 8 v)) \<and> v ! 10 = CHR ''T''
     \<and> list_all is_digit (take 2 (drop 11 v)) \<and> v ! 13 = CHR '':''
     \<and> list_all is_digit (take 2 (drop 14 v)) \<and> v ! 16 = CHR '':''
     \<and> list_all is_digit (take 2 (drop 17 v)) \<and> v ! 19 = CHR ''.''
     \<and> list_all is_digit (take 3 (drop 20 v)) \<and> v ! 23 = CHR ''Z''"

definition parse_iso :: "string \<Rightarrow> int" where
  "parse_iso v =
     make_day (read_nat (take 4 v)) (read_nat (take 2 (drop 5 v)) - 1) (read_nat (take 2 (drop 8 v))) * ms_per_day
     + make_time (read_nat (take 2 (drop 11 v))) (read_nat (take 2 (drop 14 v))) (read_nat (take 2 (drop 17 v)))
         (read_nat (take 3 (drop 20 v)))"

lemma read_nat_snoc: "read_nat (t @ [c]) = 10 * read_nat t + (int (of_char c) - 48)"
  by (simp add: read_nat_def)

lemma read_show_nat: "read_nat (show_nat n) = int n"
proof (induction n rule: show_nat.induct)
  case (1 n)
  have digit: "int (of_char (digit_char d)) = 48 + int d" if "d < 10" for d
    using of_char_digit_char [OF that] by (metis of_nat_add of_nat_numeral of_nat_of_char)
  show ?case
  proof (cases "n < 10")
    case True
    then show ?thesis by (subst show_nat.simps) (simp add: read_nat_def digit)
  next
    case False
    have "read_nat (show_nat n) = 10 * int (n div 10) + int (n mod 10)"
      using False 1 by (subst show_nat.simps) (simp add: read_nat_snoc digit)
    also have "\<dots> = int (10 * (n div 10) + n mod 10)" by (simp only: of_nat_add of_nat_mult of_nat_numeral)
    finally show ?thesis by simp
  qed
qed

lemma read_nat_zeros: "read_nat (replicate k (CHR ''0'') @ t) = read_nat t"
  by (induction k) (simp_all add: read_nat_def)

lemma read_padded: "0 \<le> n \<Longrightarrow> read_nat (pad_zero w (show_int n)) = n"
  by (simp add: pad_zero_def read_nat_zeros show_int_def read_show_nat)

lemma padded_length: "0 \<le> n \<Longrightarrow> n < 10 ^ w \<Longrightarrow> 0 < w \<Longrightarrow> length (pad_zero w (show_int n)) = w"
  by (rule length_pad_zero) (auto simp: show_int_def nat_less_iff intro!: length_show_nat)

lemma padded_digits: "0 \<le> n \<Longrightarrow> list_all is_digit (pad_zero w (show_int n))"
  by (auto simp: list_all_iff pad_zero_def show_int_def dest: show_nat_digits)

lemma utc_field_bounds:
  "0 \<le> utc_hours t" "utc_hours t < 24" "0 \<le> utc_minutes t" "utc_minutes t < 60"
  "0 \<le> utc_seconds t" "utc_seconds t < 60" "0 \<le> utc_milliseconds t" "utc_milliseconds t < 1000"
  by (simp_all add: utc_hours_def utc_minutes_def utc_seconds_def utc_milliseconds_def)

text \<open>A text cut out of seven numbers of known widths.\<close>

lemma iso_parts:
  assumes "length y = 4" "length mo = 2" "length d = 2" "length h = 2" "length mi = 2" "length s = 2" "length ms = 3"
    and "v = y @ ''-'' @ mo @ ''-'' @ d @ ''T'' @ h @ '':'' @ mi @ '':'' @ s @ ''.'' @ ms @ ''Z''"
  shows "length v = 24" "take 4 v = y" "take 2 (drop 5 v) = mo" "take 2 (drop 8 v) = d" "take 2 (drop 11 v) = h"
    "take 2 (drop 14 v) = mi" "take 2 (drop 17 v) = s" "take 3 (drop 20 v) = ms"
    "v ! 4 = CHR ''-''" "v ! 7 = CHR ''-''" "v ! 10 = CHR ''T''" "v ! 13 = CHR '':''" "v ! 16 = CHR '':''"
    "v ! 19 = CHR ''.''" "v ! 23 = CHR ''Z''"
  using assms(1-7) unfolding assms(8) by (simp_all add: nth_append)

lemma to_iso_reads:
  assumes "0 \<le> utc_full_year t" and "utc_full_year t \<le> 9999"
  shows "iso_form (to_iso t)" "parse_iso (to_iso t) = t"
proof -
  have year: "length (iso_year (utc_full_year t)) = 4" "read_nat (iso_year (utc_full_year t)) = utc_full_year t"
    "list_all is_digit (iso_year (utc_full_year t))"
    using assms by (auto simp: iso_year_def padded_length read_padded padded_digits)
  have date: "utc_date t < 100" "0 \<le> utc_date t"
    using utc_date_bounds [of t] month_days_bounds [of "month_number t"] by simp_all
  have month: "0 \<le> utc_month t + 1" "utc_month t + 1 < 100"
    using utc_month_day_bounds(1,2) [of t] by simp_all
  have two: "length (pad_zero 2 (show_int n)) = 2" if "0 \<le> n" "n < 100" for n
    using that by (intro padded_length) simp_all
  note time = utc_field_bounds [of t]
  have len: "length (iso_year (utc_full_year t)) = 4" "length (pad_zero 2 (show_int (utc_month t + 1))) = 2"
    "length (pad_zero 2 (show_int (utc_date t))) = 2" "length (pad_zero 2 (show_int (utc_hours t))) = 2"
    "length (pad_zero 2 (show_int (utc_minutes t))) = 2" "length (pad_zero 2 (show_int (utc_seconds t))) = 2"
    "length (pad_zero 3 (show_int (utc_milliseconds t))) = 3"
    using year date month time by (auto intro!: two padded_length)
  note parts = iso_parts [OF len to_iso_def]
  show "iso_form (to_iso t)"
    unfolding iso_form_def parts using year date month time by (simp add: padded_digits)
  have "parse_iso (to_iso t) =
    make_day (utc_full_year t) (utc_month t) (utc_date t) * ms_per_day
     + make_time (utc_hours t) (utc_minutes t) (utc_seconds t) (utc_milliseconds t)"
    unfolding parse_iso_def parts using year date month time by (simp add: read_padded)
  then show "parse_iso (to_iso t) = t" by (simp only: instant_of_parts)
qed

end
