(* ===== verification/Individual_Period.thy ===== *)
theory Individual_Period
  imports Calendar Js_Value
begin

text \<open>
  The Individual billing periods of \<open>shared/individual-period.ts\<close>: calendar months measured from the
  subscription's original anchor, each boundary clamped to the end of a shorter month. The interface
  \<open>consecutive_terms\<close> says what a sequence of half-open terms promises when its boundaries increase;
  the boundaries of every anchor provide it.
\<close>

section \<open>The module\<close>

record billing_cycle =
  ic_policy :: string
  ic_anchorAt :: int
  ic_index :: int
  ic_startsAt :: int
  ic_endsAt :: int

definition individual_cycle_policy :: string where
  "individual_cycle_policy = ''subscription-month-v1''"

definition max_individual_cycle_index :: int where
  "max_individual_cycle_index = 12000"

definition min_year :: int where "min_year = 2000"
definition max_year :: int where "max_year = 9999"

definition canonical :: "string \<Rightarrow> int res" where
  "canonical v =
     (if \<not> iso_form v then Inl RangeError
      else let at = parse_iso v in
        if \<not> is_time_value at \<or> to_iso at \<noteq> v then Inl RangeError
        else if utc_full_year at < min_year \<or> utc_full_year at > max_year then Inl RangeError
        else Inr at)"

definition days_in :: "int \<Rightarrow> int \<Rightarrow> int" where
  "days_in year month = utc_date (date_utc year (month + 1) 0 0)"

definition boundary_instant :: "int \<Rightarrow> int \<Rightarrow> int" where
  "boundary_instant anchor offset =
     (let months = utc_month anchor + offset;
          year = utc_full_year anchor + months div 12;
          month = months mod 12;
          day = min (utc_date anchor) (days_in year month)
      in date_utc year month day
           (make_time (utc_hours anchor) (utc_minutes anchor) (utc_seconds anchor) (utc_milliseconds anchor)))"

text \<open>An instant outside the time values is JavaScript's invalid date, whose year compares false.\<close>

definition boundary :: "int \<Rightarrow> int \<Rightarrow> int res" where
  "boundary anchor offset =
     (let at = boundary_instant anchor offset in
      if is_time_value at \<and> utc_full_year at > max_year then Inl RangeError else Inr at)"

definition individual_cycle :: "int \<Rightarrow> int \<Rightarrow> billing_cycle res" where
  "individual_cycle anchorAt index =
     rbind (canonical (to_iso anchorAt)) (\<lambda>anchor.
     if \<not> is_safe_integer index \<or> index < 0 \<or> index > max_individual_cycle_index then Inl RangeError
     else rbind (boundary anchor index) (\<lambda>startsAt. rbind (boundary anchor (index + 1)) (\<lambda>endsAt.
       Inr \<lparr>ic_policy = individual_cycle_policy, ic_anchorAt = anchorAt, ic_index = index,
            ic_startsAt = startsAt, ic_endsAt = endsAt\<rparr>)))"

definition individual_cycle_id :: "int \<Rightarrow> string res" where
  "individual_cycle_id startsAt =
     rbind (canonical (to_iso startsAt)) (\<lambda>_. Inr (''individual:'' @ to_iso startsAt))"

definition is_individual_cycle_id :: "string \<Rightarrow> bool" where
  "is_individual_cycle_id periodId \<longleftrightarrow> take 11 periodId = ''individual:'' \<and> iso_form (drop 11 periodId)"

definition individual_cycle_at :: "int \<Rightarrow> int \<Rightarrow> billing_cycle option res" where
  "individual_cycle_at anchorAt at =
     rbind (canonical (to_iso anchorAt)) (\<lambda>anchor.
     if at < anchor then Inr None
     else if \<not> is_time_value at then Inl RangeError
     else
       (let index = (utc_full_year at - utc_full_year anchor) * 12 + utc_month at - utc_month anchor in
        rbind (if index > 0 then
                 rmap (\<lambda>b. if is_time_value b \<and> b > at then index - 1 else index) (boundary anchor index)
               else Inr index) (\<lambda>index.
        if index > max_individual_cycle_index then Inr None
        else rmap Some (individual_cycle anchorAt index))))"

text \<open>A value of unknown shape is accepted only when every field is what its anchor and index produce.\<close>

definition verified_individual_cycle :: "jval \<Rightarrow> billing_cycle option" where
  "verified_individual_cycle v =
     (case v of
        JObj fs \<Rightarrow>
          (case (jget v ''policy'', jget v ''anchorAt'', jget v ''index'') of
             (JStr policy, JStr anchorAt, JInt index) \<Rightarrow>
               (if policy \<noteq> individual_cycle_policy then None
                else case rbind (canonical anchorAt) (\<lambda>anchor. individual_cycle anchor index) of
                  Inl _ \<Rightarrow> None
                | Inr expected \<Rightarrow>
                    (if jget v ''startsAt'' = JStr (to_iso (ic_startsAt expected))
                        \<and> jget v ''endsAt'' = JStr (to_iso (ic_endsAt expected)) \<and> length fs = 5
                     then Some expected else None))
           | _ \<Rightarrow> None)
      | _ \<Rightarrow> None)"

definition same_individual_cycle :: "billing_cycle \<Rightarrow> billing_cycle \<Rightarrow> bool" where
  "same_individual_cycle a b \<longleftrightarrow> ic_policy a = ic_policy b \<and> ic_anchorAt a = ic_anchorAt b
     \<and> ic_index a = ic_index b \<and> ic_startsAt a = ic_startsAt b \<and> ic_endsAt a = ic_endsAt b"

text \<open>Intervals are pairs of a start and an exclusive end.\<close>

definition periods_overlap :: "int \<times> int \<Rightarrow> int \<times> int \<Rightarrow> bool" where
  "periods_overlap a b \<longleftrightarrow> fst a < snd b \<and> fst b < snd a"

definition cycle_contains :: "billing_cycle \<Rightarrow> int \<Rightarrow> bool" where
  "cycle_contains cycle at \<longleftrightarrow> ic_startsAt cycle \<le> at \<and> at < ic_endsAt cycle"

definition cycle_interval :: "billing_cycle \<Rightarrow> int \<times> int" where
  "cycle_interval cycle = (ic_startsAt cycle, ic_endsAt cycle)"

section \<open>Consecutive terms\<close>

locale consecutive_terms =
  fixes start :: "nat \<Rightarrow> int"
  assumes increasing: "start n < start (Suc n)"
begin

lemma start_strict: "m < n \<Longrightarrow> start m < start n"
  by (rule lift_Suc_mono_less [of start]) (rule increasing)

lemma start_mono: "m \<le> n \<Longrightarrow> start m \<le> start n"
  using start_strict [of m n] by (cases "m = n") auto

lemma start_grows: "start 0 + int n \<le> start n"
proof (induction n)
  case (Suc n)
  with increasing [of n] show ?case by simp
qed simp

lemma term_unique:
  assumes "start m \<le> t" "t < start (Suc m)" "start n \<le> t" "t < start (Suc n)"
  shows "m = n"
proof (rule antisym; rule ccontr)
  assume "\<not> m \<le> n"
  then have "start (Suc n) \<le> start m" by (intro start_mono) simp
  with assms show False by simp
next
  assume "\<not> n \<le> m"
  then have "start (Suc m) \<le> start n" by (intro start_mono) simp
  with assms show False by simp
qed

lemma term_exists:
  assumes "start 0 \<le> t"
  shows "\<exists>n. start n \<le> t \<and> t < start (Suc n)"
proof -
  let ?m = "LEAST n. t < start (Suc n)"
  have "t < start (Suc (nat (t - start 0)))" using start_grows [of "Suc (nat (t - start 0))"] assms by simp
  then have above: "t < start (Suc ?m)" by (rule LeastI)
  have "start ?m \<le> t"
  proof (cases ?m)
    case 0
    with assms show ?thesis by simp
  next
    case (Suc k)
    then have "\<not> t < start (Suc k)" using not_less_Least [of k "\<lambda>n. t < start (Suc n)"] by simp
    with Suc show ?thesis by simp
  qed
  with above show ?thesis by blast
qed

lemma terms_apart: "m \<noteq> n \<Longrightarrow> \<not> (start m < start (Suc n) \<and> start n < start (Suc m))"
  using start_mono [of "Suc m" n] start_mono [of "Suc n" m] by (cases m n rule: linorder_cases) auto

end

section \<open>The boundaries\<close>

lemma supported_instant:
  assumes "2000 \<le> utc_full_year t" and "utc_full_year t \<le> 20000"
  shows "0 \<le> t" "is_time_value t"
proof -
  have "day_from_year 2000 \<le> day_from_year (utc_full_year t)"
    "day_from_year (utc_full_year t + 1) \<le> day_from_year 20001"
    using assms by (auto intro: day_from_year_mono)
  then have "day_from_year 2000 \<le> utc_day t" "utc_day t < day_from_year 20001"
    using utc_year_bounds [of t] by simp_all
  then have "0 \<le> utc_day t" "utc_day t < 8000000" by (simp_all add: day_from_year_def)
  then show "0 \<le> t" "is_time_value t"
    using div_bounds [of ms_per_day t] by (simp_all add: is_time_value_def utc_day_def ms_per_day_def)
qed

lemma canonical_to_iso:
  "canonical (to_iso t) = (if min_year \<le> utc_full_year t \<and> utc_full_year t \<le> max_year then Inr t else Inl RangeError)"
proof (cases "0 \<le> utc_full_year t \<and> utc_full_year t \<le> 9999")
  case True
  with to_iso_reads [of t] supported_instant(2) [of t] show ?thesis
    by (auto simp: canonical_def Let_def min_year_def max_year_def)
next
  case False
  then obtain c rest where "to_iso t = c # rest" "\<not> is_digit c"
    by (cases "utc_full_year t < 0") (simp_all add: to_iso_def iso_year_def is_digit_def)
  then have "\<not> iso_form (to_iso t)"
    by (simp add: iso_form_def take_Cons')
  with False show ?thesis by (auto simp: canonical_def min_year_def max_year_def)
qed

lemma canonical_to_iso_Inr [result_simps]:
  "canonical (to_iso t) = Inr u \<longleftrightarrow> u = t \<and> min_year \<le> utc_full_year t \<and> utc_full_year t \<le> max_year"
  by (auto simp: canonical_to_iso)

lemma days_in_eq:
  assumes "100 \<le> year" and "0 \<le> month" and "month < 12"
  shows "days_in year month = month_days (12 * year + month)"
proof -
  let ?M = "12 * year + month" and ?t = "date_utc year (month + 1) 0 0"
  have t: "?t = (month_day (?M + 1) - 1) * ms_per_day + 0"
    using assms(1) by (simp add: date_utc_def make_day_eq add.assoc)
  have day: "utc_day ?t = month_day (?M + 1) - 1"
    unfolding t by (rule utc_day_of) (simp_all add: ms_per_day_def)
  have "month_number ?t = ?M"
    using month_days_bounds(1) [of ?M] by (intro month_number_unique) (simp_all add: day month_day_next)
  then show ?thesis
    unfolding days_in_def by (simp add: utc_date_eq day month_day_next)
qed

definition boundary_day :: "int \<Rightarrow> int \<Rightarrow> int" where
  "boundary_day anchor offset = (let M = month_number anchor + offset in
     month_day M + min (utc_date anchor) (month_days M) - 1)"

lemma boundary_instant_eq:
  assumes "100 \<le> utc_full_year anchor" and "0 \<le> offset"
  shows "boundary_instant anchor offset = boundary_day anchor offset * ms_per_day + anchor mod ms_per_day"
proof -
  let ?months = "utc_month anchor + offset"
  let ?year = "utc_full_year anchor + ?months div 12" and ?month = "?months mod 12"
  have M: "12 * ?year + ?month = month_number anchor + offset"
    by (simp add: month_number_def algebra_simps)
  have year: "100 \<le> ?year"
    using assms utc_month_day_bounds(1) [of anchor] by (simp add: pos_imp_zdiv_nonneg_iff)
  then have "days_in ?year ?month = month_days (month_number anchor + offset)"
    using days_in_eq [of ?year ?month] by (simp only: M)
  with year show ?thesis
    by (simp add: boundary_instant_def Let_def date_utc_def make_day_eq M time_of_day boundary_day_def month_number_def
        algebra_simps)
qed

lemma boundary_day_range:
  "month_day (month_number anchor + offset) \<le> boundary_day anchor offset"
  "boundary_day anchor offset < month_day (month_number anchor + offset + 1)"
  using utc_date_bounds [of anchor] month_days_bounds [of "month_number anchor + offset"]
  by (auto simp: boundary_day_def Let_def month_day_next)

lemma utc_day_boundary:
  assumes "100 \<le> utc_full_year anchor" and "0 \<le> offset"
  shows "utc_day (boundary_instant anchor offset) = boundary_day anchor offset"
  unfolding boundary_instant_eq [OF assms] by (rule utc_day_of) (simp_all add: ms_per_day_def)

lemma boundary_month:
  assumes "100 \<le> utc_full_year anchor" and "0 \<le> offset"
  shows "month_number (boundary_instant anchor offset) = month_number anchor + offset"
  using boundary_day_range by (intro month_number_unique) (simp_all add: utc_day_boundary [OF assms])

lemma boundary_zero:
  assumes "100 \<le> utc_full_year anchor"
  shows "boundary_instant anchor 0 = anchor"
proof -
  have "boundary_day anchor 0 = utc_day anchor"
    using utc_date_bounds(2) [of anchor] by (simp add: boundary_day_def Let_def utc_date_eq)
  with assms show ?thesis using instant_split [of anchor] by (simp add: boundary_instant_eq)
qed

lemma boundary_increases:
  assumes "100 \<le> utc_full_year anchor" and "0 \<le> offset"
  shows "boundary_instant anchor offset < boundary_instant anchor (offset + 1)"
proof -
  have "boundary_day anchor offset + 1 \<le> boundary_day anchor (offset + 1)"
    using boundary_day_range(2) [of anchor offset] boundary_day_range(1) [of anchor "offset + 1"]
    by (simp add: add.assoc)
  then have "(boundary_day anchor offset + 1) * ms_per_day \<le> boundary_day anchor (offset + 1) * ms_per_day"
    by (rule mult_right_mono) (simp add: ms_per_day_def)
  then show ?thesis
    using assms by (simp add: boundary_instant_eq distrib_right ms_per_day_def)
qed

text \<open>The boundaries of an anchor in a supported year; any other anchor has no cycle.\<close>

definition anchored_start :: "int \<Rightarrow> nat \<Rightarrow> int" where
  "anchored_start anchor n = (if min_year \<le> utc_full_year anchor then boundary_instant anchor (int n) else int n)"

interpretation months: consecutive_terms "anchored_start anchor" for anchor
proof
  fix n
  show "anchored_start anchor n < anchored_start anchor (Suc n)"
    using boundary_increases [of anchor "int n"] by (simp add: anchored_start_def min_year_def add.commute)
qed

section \<open>Cycles\<close>

lemma boundary_Inr_iff [result_simps]:
  "boundary anchor offset = Inr b \<longleftrightarrow> b = boundary_instant anchor offset
     \<and> \<not> (is_time_value (boundary_instant anchor offset) \<and> utc_full_year (boundary_instant anchor offset) > max_year)"
  by (auto simp: boundary_def Let_def)

lemma individual_cycle_Inr:
  assumes "individual_cycle anchor i = Inr c"
  shows "min_year \<le> utc_full_year anchor" "utc_full_year anchor \<le> max_year" "0 \<le> i" "i \<le> max_individual_cycle_index"
    "boundary anchor i = Inr (boundary_instant anchor i)" "boundary anchor (i + 1) = Inr (boundary_instant anchor (i + 1))"
    "c = \<lparr>ic_policy = individual_cycle_policy, ic_anchorAt = anchor, ic_index = i,
       ic_startsAt = boundary_instant anchor i, ic_endsAt = boundary_instant anchor (i + 1)\<rparr>"
  using assms by (auto simp: individual_cycle_def result_simps split: if_splits)

lemma individual_cycle_start:
  assumes "individual_cycle anchor i = Inr c"
  shows "ic_startsAt c = anchored_start anchor (nat i)" "ic_endsAt c = anchored_start anchor (Suc (nat i))"
  using individual_cycle_Inr [OF assms] by (simp_all add: anchored_start_def add.commute)

lemma individual_cycle_nonempty: "individual_cycle anchor i = Inr c \<Longrightarrow> ic_startsAt c < ic_endsAt c"
  using individual_cycle_start months.increasing by simp

lemma individual_cycles_apart:
  assumes c: "individual_cycle anchor i = Inr c" and d: "individual_cycle anchor j = Inr d" and "i \<noteq> j"
  shows "\<not> periods_overlap (cycle_interval c) (cycle_interval d)"
proof -
  have "nat i \<noteq> nat j" using individual_cycle_Inr(3) [OF c] individual_cycle_Inr(3) [OF d] \<open>i \<noteq> j\<close> by simp
  from months.terms_apart [OF this, of anchor] show ?thesis
    by (simp add: periods_overlap_def cycle_interval_def individual_cycle_start [OF c] individual_cycle_start [OF d])
qed

lemma individual_cycles_meet:
  assumes "individual_cycle anchor i = Inr c" and "individual_cycle anchor (i + 1) = Inr d"
  shows "ic_endsAt c = ic_startsAt d"
  using individual_cycle_Inr(7) [OF assms(1)] individual_cycle_Inr(7) [OF assms(2)] by simp

text \<open>The index \<open>individualCycleAt\<close> starts from, and where the instant stands against its boundary.\<close>

lemma month_index: "(utc_full_year at - utc_full_year anchor) * 12 + utc_month at - utc_month anchor
    = month_number at - month_number anchor"
  by (simp add: month_number_def)

lemma individual_cycle_at_eq:
  "individual_cycle_at anchor at =
     rbind (canonical (to_iso anchor)) (\<lambda>anchor'.
     if at < anchor' then Inr None
     else if \<not> is_time_value at then Inl RangeError
     else
        rbind (if month_number at - month_number anchor' > 0 then
                 rmap (\<lambda>b. if is_time_value b \<and> b > at then month_number at - month_number anchor' - 1
                    else month_number at - month_number anchor') (boundary anchor' (month_number at - month_number anchor'))
               else Inr (month_number at - month_number anchor')) (\<lambda>index.
        if index > max_individual_cycle_index then Inr None
        else rmap Some (individual_cycle anchor index)))"
  unfolding individual_cycle_at_def month_index Let_def by (rule refl)

lemma boundary_before:
  assumes "100 \<le> utc_full_year anchor" "0 \<le> offset" "month_number anchor + offset < month_number at"
  shows "boundary_instant anchor offset \<le> at"
  using month_number_mono [of at "boundary_instant anchor offset"] boundary_month [OF assms(1,2)] assms(3) by force

lemma boundary_after:
  assumes "100 \<le> utc_full_year anchor" "0 \<le> offset" "month_number at < month_number anchor + offset"
  shows "at < boundary_instant anchor offset"
  using month_number_mono [of "boundary_instant anchor offset" at] boundary_month [OF assms(1,2)] assms(3) by force

lemma boundary_time_value:
  assumes "2000 \<le> utc_full_year anchor" "utc_full_year anchor \<le> 9999" "0 \<le> offset" "offset \<le> 12001"
  shows "is_time_value (boundary_instant anchor offset)"
proof (rule supported_instant)
  have M: "month_number (boundary_instant anchor offset) = 12 * utc_full_year anchor + utc_month anchor + offset"
    using boundary_month [of anchor offset] assms by (simp add: month_number_def)
  then have year: "utc_full_year (boundary_instant anchor offset) = (12 * utc_full_year anchor + utc_month anchor + offset) div 12"
    using month_number_parts(1) by metis
  show "2000 \<le> utc_full_year (boundary_instant anchor offset)" "utc_full_year (boundary_instant anchor offset) \<le> 20000"
    unfolding year using assms utc_month_day_bounds(1,2) [of anchor] by linarith+
qed

lemma individual_cycle_at_Some:
  assumes "individual_cycle_at anchor at = Inr (Some c)"
  shows "cycle_contains c at" "individual_cycle anchor (ic_index c) = Inr c"
proof -
  let ?index = "month_number at - month_number anchor"
  from assms have anchor: "min_year \<le> utc_full_year anchor" "utc_full_year anchor \<le> max_year" "anchor \<le> at"
    by (auto simp: individual_cycle_at_def result_simps split: if_splits)
  have year: "100 \<le> utc_full_year anchor" using anchor(1) by (simp add: min_year_def)
  have nonneg: "0 \<le> ?index" using month_number_mono [OF anchor(3)] by simp
  from assms obtain i where cycle: "individual_cycle anchor i = Inr c" and i: "i \<le> max_individual_cycle_index"
    and index: "i = ?index \<and> \<not> (0 < ?index \<and> is_time_value (boundary_instant anchor ?index) \<and> at < boundary_instant anchor ?index)
      \<or> 0 < ?index \<and> i = ?index - 1 \<and> at < boundary_instant anchor ?index"
    by (auto simp: individual_cycle_at_eq result_simps split: if_splits)
  have tv: "is_time_value (boundary_instant anchor i)"
    using boundary_time_value [of anchor i] anchor individual_cycle_Inr(3,4) [OF cycle]
    by (simp add: min_year_def max_year_def max_individual_cycle_index_def)
  have "boundary_instant anchor i \<le> at \<and> at < boundary_instant anchor (i + 1)"
    using index
  proof (elim disjE conjE)
    assume a: "i = ?index" "\<not> (0 < ?index \<and> is_time_value (boundary_instant anchor ?index) \<and> at < boundary_instant anchor ?index)"
    have "boundary_instant anchor i \<le> at"
      using a tv nonneg boundary_zero [OF year] anchor(3) by (cases "i = 0") auto
    then show ?thesis using a nonneg by (auto intro: boundary_after [OF year])
  next
    assume a: "0 < ?index" "i = ?index - 1" "at < boundary_instant anchor ?index"
    then show ?thesis by (auto intro: boundary_before [OF year])
  qed
  then show "cycle_contains c at"
    by (simp add: cycle_contains_def individual_cycle_Inr(7) [OF cycle])
  show "individual_cycle anchor (ic_index c) = Inr c"
    using cycle individual_cycle_Inr(7) [OF cycle] by simp
qed

lemma individual_cycle_at_complete:
  assumes cycle: "individual_cycle anchor i = Inr c" and "cycle_contains c at"
  shows "individual_cycle_at anchor at = Inr (Some c)"
proof -
  let ?b = "boundary_instant anchor" and ?index = "month_number at - month_number anchor"
  note c = individual_cycle_Inr [OF cycle]
  have year: "100 \<le> utc_full_year anchor" and supported: "2000 \<le> utc_full_year anchor" "utc_full_year anchor \<le> 9999"
    using c(1,2) by (simp_all add: min_year_def max_year_def)
  have at: "?b i \<le> at" "at < ?b (i + 1)"
    using assms(2) by (simp_all add: cycle_contains_def c(7))
  have start: "anchor \<le> ?b i"
    using months.start_mono [of 0 "nat i" anchor] c(1,3) boundary_zero [OF year] by (simp add: anchored_start_def)
  have tv: "is_time_value (?b i)" "is_time_value (?b (i + 1))"
    using c(3,4) supported by (auto intro!: boundary_time_value simp: max_individual_cycle_index_def)
  have at_tv: "is_time_value at"
    using tv(2) at start supported_instant(1) [OF supported(1)] supported(2) by (simp add: is_time_value_def)
  have M: "month_number (?b i) = month_number anchor + i" "month_number (?b (i + 1)) = month_number anchor + (i + 1)"
    using c(3) by (simp_all add: boundary_month [OF year])
  have index: "?index = i \<or> ?index = i + 1"
    using month_number_mono [OF at(1)] month_number_mono [of at "?b (i + 1)"] at(2) M by linarith
  have "(if ?index > 0 then rmap (\<lambda>b. if is_time_value b \<and> b > at then ?index - 1 else ?index) (boundary anchor ?index)
     else Inr ?index) = (Inr i :: int res)"
    using index
  proof
    assume "?index = i"
    with c(3,5) at(1) show ?thesis by auto
  next
    assume "?index = i + 1"
    with c(3,6) at(2) tv(2) show ?thesis by auto
  qed
  then show ?thesis
    using start at c(1,2,4) cycle at_tv
    by (simp add: individual_cycle_at_eq canonical_to_iso)
qed

lemma individual_cycle_id_inject:
  assumes "individual_cycle_id s = Inr k" and "individual_cycle_id t = Inr k"
  shows "s = t"
proof -
  from assms have same: "to_iso s = to_iso t" and years: "min_year \<le> utc_full_year s" "utc_full_year s \<le> max_year"
    "min_year \<le> utc_full_year t" "utc_full_year t \<le> max_year"
    by (auto simp: individual_cycle_id_def result_simps)
  have "parse_iso (to_iso s) = s" "parse_iso (to_iso t) = t"
    by (rule to_iso_reads(2); use years in \<open>simp add: min_year_def max_year_def\<close>)+
  with same show ?thesis by metis
qed

lemma individual_cycle_id_form: "individual_cycle_id s = Inr k \<Longrightarrow> is_individual_cycle_id k"
  by (auto simp: individual_cycle_id_def result_simps is_individual_cycle_id_def min_year_def max_year_def
      intro!: to_iso_reads)

end
