(* ===== verification/Managed_Usage.thy ===== *)
theory Managed_Usage
  imports Money Usage_Contract Pricing Reservation Individual_Period
begin

text \<open>
  The rest of \<open>shared/managed-usage.ts\<close> that the ledger runs: the month an instant falls in, the
  validation of a provider's report, the reserve decision and the usage projection.
\<close>

section \<open>Months\<close>

text \<open>\<open>new Date(at)\<close> of a text that is not a time is the invalid instant, outside the time values.\<close>

definition period_id_for :: "int \<Rightarrow> string res" where
  "period_id_for at =
     (if \<not> is_time_value at then Inl RangeError
      else Inr (show_int (utc_full_year at) @ ''-'' @ pad_zero 2 (show_int (utc_month at + 1))))"

section \<open>Reports\<close>

datatype checked_usage = ValidUsage normalized_usage | InvalidUsage usage_reason bool

definition validate_provider_usage :: "jval \<Rightarrow> jval \<Rightarrow> checked_usage" where
  "validate_provider_usage v raw =
     (case normalize_usage v raw of
        KnownUsage usage \<Rightarrow> ValidUsage usage
      | UnknownUsage reason _ \<Rightarrow> InvalidUsage reason True
      | RefusedUsage reason _ \<Rightarrow> InvalidUsage reason False)"

lemma validate_provider_usage_wf:
  "validate_provider_usage v raw = ValidUsage usage \<Longrightarrow> usage_wf usage"
  by (auto simp: validate_provider_usage_def split: usage_evidence.splits dest: normalize_usage_known_counts)

section \<open>Refusals\<close>

datatype reserve_refusal = InvalidCeiling | InsufficientAllowance | CapRequestRequired

fun refusal_code :: "reserve_refusal \<Rightarrow> string" where
  "refusal_code InvalidCeiling = ''invalid_ceiling''"
| "refusal_code InsufficientAllowance = ''insufficient_allowance''"
| "refusal_code CapRequestRequired = ''cap_request_required''"

definition out_of_credits_gateway_codes :: "string list" where
  "out_of_credits_gateway_codes = [''insufficient_allowance'', ''no_period'']"

text \<open>
  An error's code and the state of the reservation in its evidence, either of which may be missing;
  \<open>isError\<close> is whether the thrown value is an \<open>Error\<close>.
\<close>

definition is_out_of_credits_refusal :: "bool \<Rightarrow> jval \<Rightarrow> jval \<Rightarrow> bool" where
  "is_out_of_credits_refusal isError code evidenceState \<longleftrightarrow>
     isError \<and> (case code of JStr c \<Rightarrow> c \<in> set (map (\<lambda>g. ''nectovia_'' @ g) out_of_credits_gateway_codes) | _ \<Rightarrow> False)
     \<and> evidenceState = JStr ''released''"

section \<open>The reserve decision\<close>

datatype reserve_decision = ReserveOk (monthly_part: int) (top_up_part: int) | ReserveRefused reserve_refusal

record job_room =
  jr_capMicroUsd :: int
  jr_usedMicroUsd :: int

definition decide_reserve :: "int \<Rightarrow> int \<Rightarrow> int \<Rightarrow> job_room option \<Rightarrow> reserve_decision res" where
  "decide_reserve ceiling monthlyAvailable topUpAvailable job =
     (if \<not> is_safe_integer ceiling \<or> ceiling \<le> 0 \<or> ceiling > max_money then Inr (ReserveRefused InvalidCeiling)
      else rbind (sum_money [monthlyAvailable, topUpAvailable]) (\<lambda>funds.
      if ceiling > funds then Inr (ReserveRefused InsufficientAllowance)
      else if (case job of None \<Rightarrow> False | Some j \<Rightarrow> jr_usedMicroUsd j + ceiling > jr_capMicroUsd j)
        then Inr (ReserveRefused CapRequestRequired)
      else
        (let monthly = min ceiling monthlyAvailable in
         rbind (micro monthly) (\<lambda>monthlyHold. rbind (micro (ceiling - monthly)) (\<lambda>topUpHold.
           Inr (ReserveOk monthlyHold topUpHold))))))"

text \<open>What an accepted ceiling takes: all of it, the month first, within both balances and the job's cap.\<close>

lemma decide_reserve_ok:
  assumes "decide_reserve ceiling monthly topUp job = Inr (ReserveOk m t)"
  shows "0 < ceiling" "ceiling \<le> max_money" "m + t = ceiling" "0 \<le> m" "0 \<le> t" "m \<le> monthly" "0 \<le> topUp \<Longrightarrow> t \<le> topUp"
    "0 < t \<Longrightarrow> m = monthly"
    "\<And>j. job = Some j \<Longrightarrow> jr_usedMicroUsd j + ceiling \<le> jr_capMicroUsd j"
  using assms by (auto simp: decide_reserve_def Let_def result_simps is_money_def min_def split: if_splits)

text \<open>When both balances are amounts, the decision never throws and is refused only for a reason.\<close>

lemma decide_reserve_total:
  assumes "0 \<le> monthly" "0 \<le> topUp" "monthly + topUp \<le> max_money"
  shows "decide_reserve ceiling monthly topUp job =
    Inr (if ceiling \<le> 0 \<or> ceiling > max_money then ReserveRefused InvalidCeiling
         else if ceiling > monthly + topUp then ReserveRefused InsufficientAllowance
         else if (\<exists>j. job = Some j \<and> jr_usedMicroUsd j + ceiling > jr_capMicroUsd j) then ReserveRefused CapRequestRequired
         else ReserveOk (min ceiling monthly) (ceiling - min ceiling monthly))"
proof -
  have funds: "sum_money [monthly, topUp] = Inr (monthly + topUp)"
    using assms by (simp add: sum_money_eq is_money_def)
  have parts: "micro (min ceiling monthly) = Inr (min ceiling monthly)" "micro (ceiling - min ceiling monthly) = Inr (ceiling - min ceiling monthly)"
    if "0 < ceiling" "ceiling \<le> max_money"
    using that assms by (simp_all add: is_money_def)
  have safe: "\<not> is_safe_integer ceiling \<Longrightarrow> ceiling \<le> 0 \<or> ceiling > max_money"
    by (auto simp: is_safe_integer_def max_money_eq)
  show ?thesis
    using funds parts safe by (cases job) (auto simp: decide_reserve_def Let_def)
qed

section \<open>The projection\<close>

record period_totals =
  pt_settledMonthlyMicroUsd :: int
  pt_pendingMonthlyMicroUsd :: int
  pt_uncertainMonthlyMicroUsd :: int
  pt_correctionGrantsMicroUsd :: int
  pt_correctionWithdrawalsMicroUsd :: int
  pt_settledTopUpMicroUsd :: int

record top_up_totals =
  tt_purchasedMicroUsd :: int
  tt_heldMicroUsd :: int
  tt_settledMicroUsd :: int

record usage_receipt =
  ur_receiptRef :: string
  ur_settledAt :: int
  ur_allowanceDebitMicroUsd :: int

record projected_period =
  pp_periodId :: string
  pp_planId :: string
  pp_grantedMicroUsd :: int
  pp_startsAt :: int
  pp_endsAt :: int
  pp_rateCardVersion :: string

datatype allocation = AllocationPending | AllocationRecorded

text \<open>
  The projection's constant fields are left out. The percentage is kept in hundredths, the whole
  number that the code divides by 100 to show.
\<close>

record usage_projection =
  up_organizationId :: string
  up_period :: projected_period
  up_settledMicroUsd :: int
  up_pendingMicroUsd :: int
  up_uncertainMicroUsd :: int
  up_correctionsMicroUsd :: int
  up_correctionWithdrawalsMicroUsd :: int
  up_availableMicroUsd :: int
  up_overspentMicroUsd :: int
  up_reconciling :: bool
  up_usedHundredths :: "int option"
  up_topUpAvailableMicroUsd :: int
  up_topUpHeldMicroUsd :: int
  up_topUpSettledThisPeriodMicroUsd :: int
  up_lastReceipt :: "usage_receipt option"
  up_observedAt :: int
  up_allocation :: "allocation option"

definition project_usage ::
  "string \<Rightarrow> projected_period \<Rightarrow> period_totals \<Rightarrow> top_up_totals \<Rightarrow> usage_receipt option \<Rightarrow> int \<Rightarrow> allocation option
     \<Rightarrow> usage_projection res" where
  "project_usage organizationId period totals topUp lastReceipt observedAt allocated =
     rbind (sum_money [pp_grantedMicroUsd period, pt_correctionGrantsMicroUsd totals]) (\<lambda>funded.
     rbind (sum_money [pt_correctionWithdrawalsMicroUsd totals, pt_settledMonthlyMicroUsd totals,
                       pt_pendingMonthlyMicroUsd totals, pt_uncertainMonthlyMicroUsd totals]) (\<lambda>committed.
     rbind (if committed > funded then micro 0 else subtract_money funded committed) (\<lambda>available.
     rbind (if committed > funded then subtract_money committed funded else micro 0) (\<lambda>overspent.
     rbind (sum_money [tt_heldMicroUsd topUp, tt_settledMicroUsd topUp]) (\<lambda>topUpUsed.
     rbind (subtract_money (tt_purchasedMicroUsd topUp) topUpUsed) (\<lambda>topUpFree.
     Inr \<lparr>up_organizationId = organizationId, up_period = period,
       up_settledMicroUsd = pt_settledMonthlyMicroUsd totals, up_pendingMicroUsd = pt_pendingMonthlyMicroUsd totals,
       up_uncertainMicroUsd = pt_uncertainMonthlyMicroUsd totals,
       up_correctionsMicroUsd = pt_correctionGrantsMicroUsd totals,
       up_correctionWithdrawalsMicroUsd = pt_correctionWithdrawalsMicroUsd totals,
       up_availableMicroUsd = available, up_overspentMicroUsd = overspent, up_reconciling = (overspent > 0),
       up_usedHundredths = (if pp_grantedMicroUsd period = 0 then None
         else Some (round_div (pt_settledMonthlyMicroUsd totals * 10000) (pp_grantedMicroUsd period))),
       up_topUpAvailableMicroUsd = topUpFree, up_topUpHeldMicroUsd = tt_heldMicroUsd topUp,
       up_topUpSettledThisPeriodMicroUsd = pt_settledTopUpMicroUsd totals,
       up_lastReceipt = lastReceipt, up_observedAt = observedAt, up_allocation = allocated\<rparr>))))))"

text \<open>
  A projection accounts for every unit: what is available less what is overspent is the funds less
  everything committed, and only one of the two is positive.
\<close>

lemma project_usage_balances:
  assumes "project_usage org period totals topUp receipt observedAt allocated = Inr p"
  shows "up_availableMicroUsd p - up_overspentMicroUsd p =
      pp_grantedMicroUsd period + up_correctionsMicroUsd p - up_correctionWithdrawalsMicroUsd p
        - up_settledMicroUsd p - up_pendingMicroUsd p - up_uncertainMicroUsd p"
    "0 \<le> up_availableMicroUsd p" "0 \<le> up_overspentMicroUsd p"
    "up_availableMicroUsd p = 0 \<or> up_overspentMicroUsd p = 0"
    "up_reconciling p \<longleftrightarrow> 0 < up_overspentMicroUsd p"
    "up_topUpAvailableMicroUsd p = tt_purchasedMicroUsd topUp - tt_heldMicroUsd topUp - tt_settledMicroUsd topUp"
    "0 \<le> up_topUpAvailableMicroUsd p"
  using assms by (auto simp: project_usage_def result_simps is_money_def split: if_splits)

end
