(* ===== verification/Allotments.thy ===== *)
theory Allotments
  imports Money
begin

text \<open>
  \<open>shared/credit-allotments.ts\<close>: the pure rules of a member's monthly limit. A limit of \<open>None\<close> is no
  limit. \<open>PLAN_MEMBER_LIMIT_CREDITS\<close> is the code's empty table.
\<close>

datatype member_role = Owner | Admin | Member

datatype limit_mode = LimitTo | Unlimited | Inherit

datatype subject_kind = RoleSubject | PersonSubject

datatype limit_source = FromPerson | FromRole | FromDefault

record limit_setting =
  ls_subjectKind :: subject_kind
  ls_subjectId :: string
  ls_mode :: limit_mode
  ls_limitMicroUsd :: "int option"

record effective_limit =
  el_limitMicroUsd :: "int option"
  el_source :: limit_source

record allowance =
  al_extraMicroUsd :: int
  al_allowPurchased :: bool

datatype member_use = MemberUseOk
  | MemberUseRefused (refused_over: int) (refused_needs_purchased: bool)

fun role_text :: "member_role \<Rightarrow> string" where
  "role_text Owner = ''owner''"
| "role_text Admin = ''admin''"
| "role_text Member = ''member''"

definition plan_member_limit_credits :: "string \<Rightarrow> int option" where
  "plan_member_limit_credits planId = None"

definition default_limit_for :: "member_role \<Rightarrow> string \<Rightarrow> int \<Rightarrow> int option res" where
  "default_limit_for role planId monthlyGrant =
     (if role \<noteq> Member then Inr None
      else case plan_member_limit_credits planId of
        None \<Rightarrow> Inr (Some monthlyGrant)
      | Some credits \<Rightarrow> rmap Some (credit_amount credits))"

definition settled_limit :: "limit_setting option \<Rightarrow> effective_limit option" where
  "settled_limit row =
     (case row of None \<Rightarrow> None
      | Some row \<Rightarrow> (if ls_mode row = Inherit then None
          else Some \<lparr>el_limitMicroUsd = (if ls_mode row = Unlimited then None else ls_limitMicroUsd row),
                 el_source = (if ls_subjectKind row = RoleSubject then FromRole else FromPerson)\<rparr>))"

definition effective_limit_for :: "member_role \<Rightarrow> string \<Rightarrow> limit_setting list \<Rightarrow> string \<Rightarrow> int \<Rightarrow> effective_limit res" where
  "effective_limit_for role personId settings planId monthlyGrant =
     (let person = find (\<lambda>row. ls_subjectKind row = PersonSubject \<and> ls_subjectId row = personId) settings;
          ofRole = find (\<lambda>row. ls_subjectKind row = RoleSubject \<and> ls_subjectId row = role_text role) settings
      in case settled_limit person of
           Some limit \<Rightarrow> Inr limit
         | None \<Rightarrow> (case settled_limit ofRole of
             Some limit \<Rightarrow> Inr limit
           | None \<Rightarrow> rmap (\<lambda>l. \<lparr>el_limitMicroUsd = l, el_source = FromDefault\<rparr>)
               (default_limit_for role planId monthlyGrant)))"

definition decide_member_use :: "int option \<Rightarrow> int \<Rightarrow> int \<Rightarrow> int \<Rightarrow> allowance \<Rightarrow> member_use res" where
  "decide_member_use limit used reserve purchased allowed =
     (case limit of None \<Rightarrow> Inr MemberUseOk
      | Some limit \<Rightarrow>
          (let after = used + reserve in
           if after \<le> limit then Inr MemberUseOk
           else rbind (micro (min max_money (after - limit))) (\<lambda>overBy.
             if after > limit + al_extraMicroUsd allowed then Inr (MemberUseRefused overBy False)
             else if purchased > 0 \<and> \<not> al_allowPurchased allowed then Inr (MemberUseRefused overBy True)
             else Inr MemberUseOk)))"

lemma default_limit_for_eq:
  "default_limit_for role planId grant = Inr (if role = Member then Some grant else None)"
  by (simp add: default_limit_for_def plan_member_limit_credits_def)

text \<open>Exactly the uses that are admitted.\<close>

lemma decide_member_use_ok_iff:
  "decide_member_use limit used reserve purchased allowed = Inr MemberUseOk \<longleftrightarrow>
     (case limit of None \<Rightarrow> True
      | Some l \<Rightarrow> used + reserve \<le> l
          \<or> used + reserve \<le> l + al_extraMicroUsd allowed \<and> (purchased \<le> 0 \<or> al_allowPurchased allowed))"
proof (cases limit)
  case (Some l)
  have "is_money (min max_money (used + reserve - l))" if "l < used + reserve"
    using that by (auto simp: is_money_def max_money_eq)
  with Some show ?thesis by (auto simp: decide_member_use_def Let_def result_simps)
qed (simp add: decide_member_use_def)

text \<open>A refusal says how far past the limit the step would go, and never refuses what an approval covers.\<close>

lemma decide_member_use_refused:
  assumes "decide_member_use (Some l) used reserve purchased allowed = Inr (MemberUseRefused overBy needs)"
  shows "l < used + reserve" "overBy = min max_money (used + reserve - l)" "0 < overBy"
    "needs \<longleftrightarrow> used + reserve \<le> l + al_extraMicroUsd allowed"
    "needs \<Longrightarrow> 0 < purchased \<and> \<not> al_allowPurchased allowed"
  using assms by (auto simp: decide_member_use_def Let_def result_simps max_money_eq split: if_splits)

lemma effective_limit_for_person:
  assumes "find (\<lambda>row. ls_subjectKind row = PersonSubject \<and> ls_subjectId row = personId) settings = Some row"
    and "ls_mode row \<noteq> Inherit"
  shows "effective_limit_for role personId settings planId grant =
    Inr \<lparr>el_limitMicroUsd = (if ls_mode row = Unlimited then None else ls_limitMicroUsd row), el_source = FromPerson\<rparr>"
  using assms find_Some_in_set [OF assms(1)] by (simp add: effective_limit_for_def settled_limit_def)

lemma effective_limit_total: "\<exists>l. effective_limit_for role personId settings planId grant = Inr l"
  by (auto simp: effective_limit_for_def Let_def default_limit_for_eq split: option.splits)

end
