(* ===== verification/Funding_Store.thy ===== *)
theory Funding_Store
  imports Managed_Usage Allotments
begin

text \<open>
  The funding rows of \<open>services/control-plane/src/funding.ts\<close> and \<open>member-limits.ts\<close>, and the in-memory
  store of \<open>faux/funding-state.ts\<close> that keeps them: one array per table, a search or a replacement per
  operation of the \<open>FundingTransaction\<close> interface. Locks are left out: a transaction runs alone.
  The interfaces \<open>keyed_table\<close>, \<open>append_table\<close> and \<open>upsert_table\<close> say what the service relies on; every
  table the store keeps provides one of them.
\<close>

section \<open>Rows\<close>

record credit_period =
  cp_tenantId :: string
  cp_organizationId :: string
  cp_periodId :: string
  cp_planId :: string
  cp_rateCardVersion :: string
  cp_grantedMicroUsd :: int
  cp_startsAt :: int
  cp_endsAt :: int
  cp_sourceGrantId :: string
  cp_allocatedAt :: int

datatype job_state = JobOpen | JobClosed

record funded_job =
  fj_tenantId :: string
  fj_organizationId :: string
  fj_rootJobId :: string
  fj_runRef :: string
  fj_capMicroUsd :: int
  fj_capGeneration :: int
  fj_state :: job_state
  fj_openedAt :: int
  fj_tier :: "job_tier option"

record job_ref =
  jf_tenantId :: string
  jf_runRef :: string
  jf_rootJobId :: string

datatype cap_request_state = CapPending | CapApproved | CapDeclined

record cap_request =
  cr_tenantId :: string
  cr_organizationId :: string
  cr_requestId :: string
  cr_rootJobId :: string
  cr_requestedCapMicroUsd :: int
  cr_requestedBy :: string
  cr_state :: cap_request_state
  cr_requestedAt :: int
  cr_decidedBy :: "string option"
  cr_decidedAt :: "int option"

text \<open>A top-up's provider is always Stripe.\<close>

record top_up =
  tu_tenantId :: string
  tu_organizationId :: string
  tu_topUpId :: string
  tu_amountMicroUsd :: int
  tu_sourceEventId :: string
  tu_recordedAt :: int

datatype hold_state = HoldHeld | HoldSettled | HoldReleased

datatype released_by = ByPerson | ByExpiry

record top_up_hold =
  th_tenantId :: string
  th_organizationId :: string
  th_holdId :: string
  th_personId :: string
  th_requestDigest :: string
  th_amountMicroUsd :: int
  th_debitMicroUsd :: int
  th_absorbedMicroUsd :: int
  th_state :: hold_state
  th_createdAt :: int
  th_resolvedAt :: "int option"
  th_leaseUntil :: int
  th_releasedBy :: "released_by option"

datatype environment = TestEnv | LiveEnv

datatype purchase_state = PurchasePending | PurchasePaid | PurchaseExpired | PurchaseFailed

text \<open>A purchase's currency is always US dollars.\<close>

record credit_purchase =
  pu_tenantId :: string
  pu_organizationId :: string
  pu_purchaseId :: string
  pu_personId :: string
  pu_credits :: int
  pu_amountCents :: int
  pu_rateCents :: int
  pu_rateCredits :: int
  pu_environment :: environment
  pu_checkoutSessionId :: "string option"
  pu_state :: purchase_state
  pu_createdAt :: int
  pu_resolvedAt :: "int option"
  pu_stripeEventId :: "string option"

datatype adjustment_direction = GrantCredits | WithdrawCredits

text \<open>An adjustment's reason is always a correction, and it names no source event.\<close>

record credit_adjustment =
  ad_tenantId :: string
  ad_organizationId :: string
  ad_id :: string
  ad_periodId :: string
  ad_direction :: adjustment_direction
  ad_amountMicroUsd :: int
  ad_at :: int
  ad_note :: string
  ad_attemptRef :: "string option"

text \<open>The attempt's one free-text column: which sentence the code writes there, with the values in it.\<close>

datatype hold_note = ExpiredUnsent | ProviderRefused int "string option" | CancelledAfterSend string
  | LostResponse string | HostRestarted | BadReport usage_reason | MoreThanReserved
  | WrittenOffOn "hold_note option" string

record funded_attempt =
  fa_tenantId :: string
  fa_organizationId :: string
  fa_id :: string
  fa_periodId :: string
  fa_rootJobId :: string
  fa_parentAttemptId :: "string option"
  fa_kind :: charge_kind
  fa_route :: string
  fa_maxMicroUsd :: int
  fa_rateCardVersion :: string
  fa_state :: reservation_state
  fa_createdAt :: int
  fa_resolvedAt :: "int option"
  fa_uncertainReason :: "hold_note option"
  fa_requestDigest :: string
  fa_rateSnapshot :: rate_snapshot
  fa_chargeSnapshot :: "charge_snapshot option"
  fa_usageClass :: usage_class
  fa_monthlyHoldMicroUsd :: int
  fa_topUpHoldMicroUsd :: int
  fa_dispatchedAt :: "int option"

datatype reconciled_from = FromResponse | FromProviderReport

text \<open>A settlement's eligibility is always included.\<close>

record attempt_settlement =
  se_tenantId :: string
  se_organizationId :: string
  se_reservationId :: string
  se_periodId :: string
  se_providerCostMicroUsd :: int
  se_allowanceDebitMicroUsd :: int
  se_rateCardVersion :: string
  se_settledAt :: int
  se_reconciledFrom :: reconciled_from
  se_receiptRef :: string
  se_monthlyDebitMicroUsd :: int
  se_topUpDebitMicroUsd :: int
  se_usage :: normalized_usage

record member_limit = limit_setting +
  ml_tenantId :: string
  ml_organizationId :: string
  ml_updatedBy :: string
  ml_updatedAt :: int

record allotment_settings =
  as_tenantId :: string
  as_organizationId :: string
  as_membersSeeOwnUsage :: bool
  as_adminsSeeMemberUsage :: bool
  as_updatedBy :: string
  as_updatedAt :: int

datatype limit_request_kind = AskJob | AskMonth

datatype limit_request_state = AskPending | AskApproved | AskDenied

text \<open>A request's scope is always a person.\<close>

record limit_request =
  lr_tenantId :: string
  lr_organizationId :: string
  lr_requestId :: string
  lr_personId :: string
  lr_requesterRole :: member_role
  lr_kind :: limit_request_kind
  lr_rootJobId :: "string option"
  lr_state :: limit_request_state
  lr_requestedAt :: int
  lr_decidedBy :: "string option"
  lr_decidedAt :: "int option"
  lr_extraMicroUsd :: "int option"
  lr_allowPurchased :: bool
  lr_periodId :: "string option"

record member_usage_row =
  mu_personId :: string
  mu_includedMicroUsd :: int
  mu_purchasedMicroUsd :: int
  mu_heldMicroUsd :: int

record attempt_person =
  ap_tenantId :: string
  ap_attemptId :: string
  ap_organizationId :: string
  ap_personId :: string

text \<open>The store. The payment ledger's rows that the same object carries are never read or written here.\<close>

record fstate =
  st_periods :: "credit_period list"
  st_jobs :: "funded_job list"
  st_jobRefs :: "job_ref list"
  st_attempts :: "funded_attempt list"
  st_settlements :: "attempt_settlement list"
  st_adjustments :: "credit_adjustment list"
  st_topUps :: "top_up list"
  st_topUpHolds :: "top_up_hold list"
  st_creditPurchases :: "credit_purchase list"
  st_capRequests :: "cap_request list"
  st_memberLimits :: "member_limit list"
  st_allotmentSettings :: "allotment_settings list"
  st_limitRequests :: "limit_request list"
  st_attemptPeople :: "attempt_person list"

definition empty_funding_state :: fstate where
  "empty_funding_state = \<lparr>st_periods = [], st_jobs = [], st_jobRefs = [], st_attempts = [], st_settlements = [],
     st_adjustments = [], st_topUps = [], st_topUpHolds = [], st_creditPurchases = [], st_capRequests = [],
     st_memberLimits = [], st_allotmentSettings = [], st_limitRequests = [], st_attemptPeople = []\<rparr>"

section \<open>Reads and writes\<close>

definition sum_amounts :: "int list \<Rightarrow> int res" where
  "sum_amounts values = (if values \<noteq> [] then sum_money values else micro 0)"

definition tx_period :: "string \<Rightarrow> string \<Rightarrow> string \<Rightarrow> fstate \<Rightarrow> credit_period option" where
  "tx_period tenantId organizationId periodId s =
     find (\<lambda>row. cp_tenantId row = tenantId \<and> cp_organizationId row = organizationId \<and> cp_periodId row = periodId) (st_periods s)"

definition tx_periods :: "string \<Rightarrow> string \<Rightarrow> fstate \<Rightarrow> credit_period list" where
  "tx_periods tenantId organizationId s =
     filter (\<lambda>row. cp_tenantId row = tenantId \<and> cp_organizationId row = organizationId) (st_periods s)"

definition save_period :: "credit_period \<Rightarrow> fstate \<Rightarrow> fstate res" where
  "save_period row s =
     (if list_ex (\<lambda>item. cp_tenantId item = cp_tenantId row \<and> cp_organizationId item = cp_organizationId row
           \<and> cp_periodId item = cp_periodId row) (st_periods s)
      then Inl StoreError else Inr (s\<lparr>st_periods := st_periods s @ [row]\<rparr>))"

definition tx_job :: "string \<Rightarrow> string \<Rightarrow> fstate \<Rightarrow> funded_job option" where
  "tx_job tenantId rootJobId s = find (\<lambda>row. fj_tenantId row = tenantId \<and> fj_rootJobId row = rootJobId) (st_jobs s)"

definition tx_jobRef :: "string \<Rightarrow> string \<Rightarrow> fstate \<Rightarrow> job_ref option" where
  "tx_jobRef tenantId runRef s = find (\<lambda>row. jf_tenantId row = tenantId \<and> jf_runRef row = runRef) (st_jobRefs s)"

definition save_job :: "funded_job \<Rightarrow> fstate \<Rightarrow> fstate" where
  "save_job row s = s\<lparr>st_jobs :=
     upsert (\<lambda>item. fj_tenantId item = fj_tenantId row \<and> fj_rootJobId item = fj_rootJobId row) row (st_jobs s)\<rparr>"

definition save_jobRef :: "job_ref \<Rightarrow> fstate \<Rightarrow> fstate" where
  "save_jobRef row s = s\<lparr>st_jobRefs := st_jobRefs s @ [row]\<rparr>"

definition tx_attempt :: "string \<Rightarrow> string \<Rightarrow> fstate \<Rightarrow> funded_attempt option" where
  "tx_attempt tenantId attemptId s = find (\<lambda>row. fa_tenantId row = tenantId \<and> fa_id row = attemptId) (st_attempts s)"

definition save_attempt :: "funded_attempt \<Rightarrow> fstate \<Rightarrow> fstate" where
  "save_attempt row s = s\<lparr>st_attempts :=
     upsert (\<lambda>item. fa_tenantId item = fa_tenantId row \<and> fa_id item = fa_id row) row (st_attempts s)\<rparr>"

definition pending_attempts :: "string \<Rightarrow> string \<Rightarrow> fstate \<Rightarrow> funded_attempt list" where
  "pending_attempts tenantId organizationId s =
     filter (\<lambda>row. fa_tenantId row = tenantId \<and> fa_organizationId row = organizationId \<and> fa_state row = Pending) (st_attempts s)"

definition tx_settlement :: "string \<Rightarrow> string \<Rightarrow> fstate \<Rightarrow> attempt_settlement option" where
  "tx_settlement tenantId attemptId s =
     find (\<lambda>row. se_tenantId row = tenantId \<and> se_reservationId row = attemptId) (st_settlements s)"

definition save_settlement :: "attempt_settlement \<Rightarrow> fstate \<Rightarrow> fstate" where
  "save_settlement row s = s\<lparr>st_settlements := st_settlements s @ [row]\<rparr>"

definition tx_adjustment :: "string \<Rightarrow> string \<Rightarrow> fstate \<Rightarrow> credit_adjustment option" where
  "tx_adjustment tenantId i s = find (\<lambda>row. ad_tenantId row = tenantId \<and> ad_id row = i) (st_adjustments s)"

definition save_adjustment :: "credit_adjustment \<Rightarrow> fstate \<Rightarrow> fstate" where
  "save_adjustment row s = s\<lparr>st_adjustments := st_adjustments s @ [row]\<rparr>"

definition tx_topUp :: "string \<Rightarrow> string \<Rightarrow> fstate \<Rightarrow> top_up option" where
  "tx_topUp tenantId i s = find (\<lambda>row. tu_tenantId row = tenantId \<and> tu_topUpId row = i) (st_topUps s)"

definition save_topUp :: "top_up \<Rightarrow> fstate \<Rightarrow> fstate" where
  "save_topUp row s = s\<lparr>st_topUps := st_topUps s @ [row]\<rparr>"

definition tx_topUpHold :: "string \<Rightarrow> string \<Rightarrow> fstate \<Rightarrow> top_up_hold option" where
  "tx_topUpHold tenantId holdId s = find (\<lambda>row. th_tenantId row = tenantId \<and> th_holdId row = holdId) (st_topUpHolds s)"

definition save_topUpHold :: "top_up_hold \<Rightarrow> fstate \<Rightarrow> fstate" where
  "save_topUpHold row s = s\<lparr>st_topUpHolds :=
     upsert (\<lambda>item. th_tenantId item = th_tenantId row \<and> th_holdId item = th_holdId row) row (st_topUpHolds s)\<rparr>"

definition tx_creditPurchase :: "string \<Rightarrow> string \<Rightarrow> fstate \<Rightarrow> credit_purchase option" where
  "tx_creditPurchase tenantId purchaseId s =
     find (\<lambda>row. pu_tenantId row = tenantId \<and> pu_purchaseId row = purchaseId) (st_creditPurchases s)"

definition creditPurchase_by_session :: "string \<Rightarrow> fstate \<Rightarrow> credit_purchase option" where
  "creditPurchase_by_session sessionId s =
     find (\<lambda>row. pu_checkoutSessionId row = Some sessionId) (st_creditPurchases s)"

definition save_creditPurchase :: "credit_purchase \<Rightarrow> fstate \<Rightarrow> fstate" where
  "save_creditPurchase row s = s\<lparr>st_creditPurchases :=
     upsert (\<lambda>item. pu_tenantId item = pu_tenantId row \<and> pu_purchaseId item = pu_purchaseId row) row (st_creditPurchases s)\<rparr>"

definition tx_capRequest :: "string \<Rightarrow> string \<Rightarrow> fstate \<Rightarrow> cap_request option" where
  "tx_capRequest tenantId i s = find (\<lambda>row. cr_tenantId row = tenantId \<and> cr_requestId row = i) (st_capRequests s)"

definition save_capRequest :: "cap_request \<Rightarrow> fstate \<Rightarrow> fstate" where
  "save_capRequest row s = s\<lparr>st_capRequests :=
     upsert (\<lambda>item. cr_tenantId item = cr_tenantId row \<and> cr_requestId item = cr_requestId row) row (st_capRequests s)\<rparr>"

definition member_limits :: "string \<Rightarrow> string \<Rightarrow> fstate \<Rightarrow> member_limit list" where
  "member_limits tenantId organizationId s =
     filter (\<lambda>row. ml_tenantId row = tenantId \<and> ml_organizationId row = organizationId) (st_memberLimits s)"

definition save_memberLimit :: "member_limit \<Rightarrow> fstate \<Rightarrow> fstate" where
  "save_memberLimit row s = s\<lparr>st_memberLimits :=
     upsert (\<lambda>item. ml_tenantId item = ml_tenantId row \<and> ml_organizationId item = ml_organizationId row
       \<and> ls_subjectKind item = ls_subjectKind row \<and> ls_subjectId item = ls_subjectId row) row (st_memberLimits s)\<rparr>"

definition tx_allotmentSettings :: "string \<Rightarrow> string \<Rightarrow> fstate \<Rightarrow> allotment_settings option" where
  "tx_allotmentSettings tenantId organizationId s =
     find (\<lambda>row. as_tenantId row = tenantId \<and> as_organizationId row = organizationId) (st_allotmentSettings s)"

definition save_allotmentSettings :: "allotment_settings \<Rightarrow> fstate \<Rightarrow> fstate" where
  "save_allotmentSettings row s = s\<lparr>st_allotmentSettings :=
     upsert (\<lambda>item. as_tenantId item = as_tenantId row \<and> as_organizationId item = as_organizationId row) row
       (st_allotmentSettings s)\<rparr>"

definition tx_limitRequest :: "string \<Rightarrow> string \<Rightarrow> fstate \<Rightarrow> limit_request option" where
  "tx_limitRequest tenantId requestId s =
     find (\<lambda>row. lr_tenantId row = tenantId \<and> lr_requestId row = requestId) (st_limitRequests s)"

definition save_limitRequest :: "limit_request \<Rightarrow> fstate \<Rightarrow> fstate" where
  "save_limitRequest row s = s\<lparr>st_limitRequests :=
     upsert (\<lambda>item. lr_tenantId item = lr_tenantId row \<and> lr_requestId item = lr_requestId row) row (st_limitRequests s)\<rparr>"

definition request_before :: "limit_request \<Rightarrow> limit_request \<Rightarrow> bool" where
  "request_before a b \<longleftrightarrow> lr_requestedAt a < lr_requestedAt b
     \<or> lr_requestedAt a = lr_requestedAt b \<and> text_less (lr_requestId a) (lr_requestId b)"

definition limit_requests :: "string \<Rightarrow> string \<Rightarrow> string option \<Rightarrow> limit_request_state option \<Rightarrow> fstate \<Rightarrow> limit_request list" where
  "limit_requests tenantId organizationId personId state s =
     sort_by request_before (filter (\<lambda>row. lr_tenantId row = tenantId \<and> lr_organizationId row = organizationId
       \<and> (personId = None \<or> personId = Some (lr_personId row)) \<and> (state = None \<or> state = Some (lr_state row)))
       (st_limitRequests s))"

definition approved_allowances :: "string \<Rightarrow> string \<Rightarrow> string \<Rightarrow> string \<Rightarrow> string \<Rightarrow> fstate \<Rightarrow> limit_request list" where
  "approved_allowances tenantId organizationId personId periodId rootJobId s =
     filter (\<lambda>row. lr_tenantId row = tenantId \<and> lr_organizationId row = organizationId
       \<and> lr_personId row = personId \<and> lr_state row = AskApproved
       \<and> (lr_kind row = AskMonth \<and> lr_periodId row = Some periodId
          \<or> lr_kind row = AskJob \<and> lr_rootJobId row = Some rootJobId)) (st_limitRequests s)"

definition save_attemptPerson :: "attempt_person \<Rightarrow> fstate \<Rightarrow> fstate" where
  "save_attemptPerson row s = s\<lparr>st_attemptPeople := st_attemptPeople s @ [row]\<rparr>"

section \<open>What a table promises\<close>

text \<open>
  A table of keyed rows: what a read returns has the key that was read, a write under one key leaves
  every other key alone, and a row written under a free key is read back.
\<close>

locale keyed_table =
  fixes read :: "'k \<Rightarrow> 's \<Rightarrow> 'r option" and save :: "'r \<Rightarrow> 's \<Rightarrow> 's" and key :: "'r \<Rightarrow> 'k"
  assumes read_key: "read k s = Some row \<Longrightarrow> key row = k"
    and read_other: "k \<noteq> key row \<Longrightarrow> read k (save row s) = read k s"
    and read_fresh: "read (key row) s = None \<Longrightarrow> read (key row) (save row s) = Some row"
begin

lemma read_changed: "read k (save row s) \<noteq> read k s \<Longrightarrow> k = key row"
  using read_other by metis

lemma reads_different_keys: "read k s = Some row \<Longrightarrow> read k' s = Some row' \<Longrightarrow> k \<noteq> k' \<Longrightarrow> row \<noteq> row'"
  using read_key by metis

lemma read_fold_other: "k \<notin> key ` set rows \<Longrightarrow> read k (fold save rows s) = read k s"
  by (induction rows arbitrary: s) (auto simp: read_other)

end

text \<open>A table whose rows are never replaced: what was once read stays.\<close>

locale append_table = keyed_table +
  assumes read_kept: "read k s = Some row \<Longrightarrow> read k (save row' s) = Some row"
begin

lemma read_fold_kept: "read k s = Some row \<Longrightarrow> read k (fold save rows s) = Some row"
  by (induction rows arbitrary: s) (auto simp: read_kept)

lemma read_after_save: "\<exists>row'. read (key row) (save row s) = Some row'"
  using read_fresh read_kept by (cases "read (key row) s") blast+

end

text \<open>A table whose rows are replaced by key: the last write is read.\<close>

locale upsert_table = keyed_table +
  assumes read_same: "read (key row) (save row s) = Some row"
begin

lemma read_save: "read k (save row s) = (if k = key row then Some row else read k s)"
  by (simp add: read_same read_other)

lemma read_save_twice: "key row = key row' \<Longrightarrow> read k (save row' (save row s)) = read k (save row' s)"
  by (simp add: read_save)

lemma read_save_swap: "key row \<noteq> key row' \<Longrightarrow> read k (save row' (save row s)) = read k (save row (save row' s))"
  by (auto simp: read_save)

end

text \<open>The store's tables. A period's write is refused rather than repeated, so its write is the plain push.\<close>

definition push_period :: "credit_period \<Rightarrow> fstate \<Rightarrow> fstate" where
  "push_period row s = s\<lparr>st_periods := st_periods s @ [row]\<rparr>"

definition period_key :: "credit_period \<Rightarrow> string \<times> string \<times> string" where
  "period_key row = (cp_tenantId row, cp_organizationId row, cp_periodId row)"

lemma save_period_Inr [result_simps]:
  "save_period row s = Inr s' \<longleftrightarrow>
     tx_period (cp_tenantId row) (cp_organizationId row) (cp_periodId row) s = None \<and> s' = push_period row s"
  by (auto simp: save_period_def push_period_def tx_period_def find_None_iff list_ex_iff)

lemma find_append_Some: "find P xs = Some x \<Longrightarrow> find P (xs @ ys) = Some x"
  by (simp add: find_append)

lemma find_append_None: "find P xs = None \<Longrightarrow> find P (xs @ ys) = find P ys"
  by (simp add: find_append)

lemma find_append_not: "\<not> P y \<Longrightarrow> find P (xs @ [y]) = find P xs"
  by (simp add: find_append split: option.split)

interpretation periods: append_table "\<lambda>(t, o', p). tx_period t o' p" push_period period_key
  by unfold_locales
    (auto simp: tx_period_def push_period_def period_key_def find_append split: option.splits if_splits dest: find_Some_in_set)

interpretation jobs: upsert_table "\<lambda>(t, i). tx_job t i" save_job "\<lambda>row. (fj_tenantId row, fj_rootJobId row)"
  by unfold_locales
    (auto simp: tx_job_def save_job_def intro!: find_upsert_same find_upsert_other dest: find_Some_in_set)

interpretation jobRefs: append_table "\<lambda>(t, i). tx_jobRef t i" save_jobRef "\<lambda>row. (jf_tenantId row, jf_runRef row)"
  by unfold_locales
    (auto simp: tx_jobRef_def save_jobRef_def find_append split: option.splits if_splits dest: find_Some_in_set)

interpretation attempts: upsert_table "\<lambda>(t, i). tx_attempt t i" save_attempt "\<lambda>row. (fa_tenantId row, fa_id row)"
  by unfold_locales
    (auto simp: tx_attempt_def save_attempt_def intro!: find_upsert_same find_upsert_other dest: find_Some_in_set)

interpretation settlements: append_table "\<lambda>(t, i). tx_settlement t i" save_settlement
    "\<lambda>row. (se_tenantId row, se_reservationId row)"
  by unfold_locales
    (auto simp: tx_settlement_def save_settlement_def find_append split: option.splits if_splits dest: find_Some_in_set)

interpretation adjustments: append_table "\<lambda>(t, i). tx_adjustment t i" save_adjustment "\<lambda>row. (ad_tenantId row, ad_id row)"
  by unfold_locales
    (auto simp: tx_adjustment_def save_adjustment_def find_append split: option.splits if_splits dest: find_Some_in_set)

interpretation topUps: append_table "\<lambda>(t, i). tx_topUp t i" save_topUp "\<lambda>row. (tu_tenantId row, tu_topUpId row)"
  by unfold_locales
    (auto simp: tx_topUp_def save_topUp_def find_append split: option.splits if_splits dest: find_Some_in_set)

interpretation topUpHolds: upsert_table "\<lambda>(t, i). tx_topUpHold t i" save_topUpHold "\<lambda>row. (th_tenantId row, th_holdId row)"
  by unfold_locales
    (auto simp: tx_topUpHold_def save_topUpHold_def intro!: find_upsert_same find_upsert_other dest: find_Some_in_set)

interpretation creditPurchases: upsert_table "\<lambda>(t, i). tx_creditPurchase t i" save_creditPurchase
    "\<lambda>row. (pu_tenantId row, pu_purchaseId row)"
  by unfold_locales
    (auto simp: tx_creditPurchase_def save_creditPurchase_def intro!: find_upsert_same find_upsert_other dest: find_Some_in_set)

interpretation capRequests: upsert_table "\<lambda>(t, i). tx_capRequest t i" save_capRequest "\<lambda>row. (cr_tenantId row, cr_requestId row)"
  by unfold_locales
    (auto simp: tx_capRequest_def save_capRequest_def intro!: find_upsert_same find_upsert_other dest: find_Some_in_set)

interpretation allotmentSettings: upsert_table "\<lambda>(t, i). tx_allotmentSettings t i" save_allotmentSettings
    "\<lambda>row. (as_tenantId row, as_organizationId row)"
  by unfold_locales
    (auto simp: tx_allotmentSettings_def save_allotmentSettings_def intro!: find_upsert_same find_upsert_other
      dest: find_Some_in_set)

interpretation limitRequests: upsert_table "\<lambda>(t, i). tx_limitRequest t i" save_limitRequest
    "\<lambda>row. (lr_tenantId row, lr_requestId row)"
  by unfold_locales
    (auto simp: tx_limitRequest_def save_limitRequest_def intro!: find_upsert_same find_upsert_other dest: find_Some_in_set)

section \<open>Reading after a write\<close>

named_theorems store_simps \<open>what a table reads after a write to it\<close>

lemma tx_period_push [store_simps]:
  "tx_period t o' p (push_period row s) =
     (case tx_period t o' p s of Some row' \<Rightarrow> Some row' | None \<Rightarrow> if period_key row = (t, o', p) then Some row else None)"
  by (auto simp: tx_period_def push_period_def period_key_def find_append split: option.split)

lemma tx_job_save [store_simps]:
  "tx_job t i (save_job row s) = (if (t, i) = (fj_tenantId row, fj_rootJobId row) then Some row else tx_job t i s)"
  using jobs.read_save [of "(t, i)"] by simp

lemma tx_attempt_save [store_simps]:
  "tx_attempt t i (save_attempt row s) = (if (t, i) = (fa_tenantId row, fa_id row) then Some row else tx_attempt t i s)"
  using attempts.read_save [of "(t, i)"] by simp

lemma tx_topUpHold_save [store_simps]:
  "tx_topUpHold t i (save_topUpHold row s) = (if (t, i) = (th_tenantId row, th_holdId row) then Some row else tx_topUpHold t i s)"
  using topUpHolds.read_save [of "(t, i)"] by simp

lemma tx_creditPurchase_save [store_simps]:
  "tx_creditPurchase t i (save_creditPurchase row s) =
     (if (t, i) = (pu_tenantId row, pu_purchaseId row) then Some row else tx_creditPurchase t i s)"
  using creditPurchases.read_save [of "(t, i)"] by simp

lemma tx_capRequest_save [store_simps]:
  "tx_capRequest t i (save_capRequest row s) = (if (t, i) = (cr_tenantId row, cr_requestId row) then Some row else tx_capRequest t i s)"
  using capRequests.read_save [of "(t, i)"] by simp

lemma tx_limitRequest_save [store_simps]:
  "tx_limitRequest t i (save_limitRequest row s) =
     (if (t, i) = (lr_tenantId row, lr_requestId row) then Some row else tx_limitRequest t i s)"
  using limitRequests.read_save [of "(t, i)"] by simp

lemma tx_settlement_save_fresh [store_simps]:
  "tx_settlement t i (save_settlement row s) =
     (case tx_settlement t i s of Some row' \<Rightarrow> Some row'
      | None \<Rightarrow> if (t, i) = (se_tenantId row, se_reservationId row) then Some row else None)"
  by (auto simp: tx_settlement_def save_settlement_def find_append split: option.split)

lemma tx_topUp_save [store_simps]:
  "tx_topUp t i (save_topUp row s) =
     (case tx_topUp t i s of Some row' \<Rightarrow> Some row'
      | None \<Rightarrow> if (t, i) = (tu_tenantId row, tu_topUpId row) then Some row else None)"
  by (auto simp: tx_topUp_def save_topUp_def find_append split: option.split)

lemma tx_adjustment_save [store_simps]:
  "tx_adjustment t i (save_adjustment row s) =
     (case tx_adjustment t i s of Some row' \<Rightarrow> Some row'
      | None \<Rightarrow> if (t, i) = (ad_tenantId row, ad_id row) then Some row else None)"
  by (auto simp: tx_adjustment_def save_adjustment_def find_append split: option.split)

lemma tx_jobRef_save [store_simps]:
  "tx_jobRef t i (save_jobRef row s) =
     (case tx_jobRef t i s of Some row' \<Rightarrow> Some row'
      | None \<Rightarrow> if (t, i) = (jf_tenantId row, jf_runRef row) then Some row else None)"
  by (auto simp: tx_jobRef_def save_jobRef_def find_append split: option.split)

end
