(* ===== verification/Funding_Totals.thy ===== *)
theory Funding_Totals
  imports Funding_Store
begin

text \<open>
  The reads of \<open>faux/funding-state.ts\<close> that add rows up (a month's totals, the bought balance, a job's
  use, a member's use, the company's spend), the two writes that find their own rows (the release of
  lapsed holds and the dispatch claim), and what one write does to each sum.
\<close>

section \<open>The operations\<close>

definition is_held :: "funded_attempt \<Rightarrow> bool" where
  "is_held row \<longleftrightarrow> fa_state row = Pending \<or> fa_state row = Uncertain"

definition tx_periodTotals :: "string \<Rightarrow> string \<Rightarrow> string \<Rightarrow> fstate \<Rightarrow> period_totals res" where
  "tx_periodTotals tenantId organizationId periodId s =
     (let attempts = filter (\<lambda>row. fa_tenantId row = tenantId \<and> fa_organizationId row = organizationId
            \<and> fa_periodId row = periodId) (st_attempts s);
          settlements = filter (\<lambda>row. se_tenantId row = tenantId \<and> se_organizationId row = organizationId
            \<and> se_periodId row = periodId) (st_settlements s);
          adjustments = filter (\<lambda>row. ad_tenantId row = tenantId \<and> ad_organizationId row = organizationId
            \<and> ad_periodId row = periodId) (st_adjustments s)
      in rbind (sum_amounts (map se_monthlyDebitMicroUsd settlements)) (\<lambda>settledMonthly.
         rbind (sum_amounts (map fa_monthlyHoldMicroUsd (filter (\<lambda>row. fa_state row = Pending) attempts))) (\<lambda>pendingMonthly.
         rbind (sum_amounts (map fa_monthlyHoldMicroUsd (filter (\<lambda>row. fa_state row = Uncertain) attempts))) (\<lambda>uncertainMonthly.
         rbind (sum_amounts (map ad_amountMicroUsd (filter (\<lambda>row. ad_direction row = GrantCredits) adjustments))) (\<lambda>grants.
         rbind (sum_amounts (map ad_amountMicroUsd (filter (\<lambda>row. ad_direction row = WithdrawCredits) adjustments))) (\<lambda>withdrawals.
         rbind (sum_amounts (map se_topUpDebitMicroUsd settlements)) (\<lambda>settledTopUp.
         Inr \<lparr>pt_settledMonthlyMicroUsd = settledMonthly, pt_pendingMonthlyMicroUsd = pendingMonthly,
           pt_uncertainMonthlyMicroUsd = uncertainMonthly, pt_correctionGrantsMicroUsd = grants,
           pt_correctionWithdrawalsMicroUsd = withdrawals, pt_settledTopUpMicroUsd = settledTopUp\<rparr>)))))))"

definition expire_hold :: "string \<Rightarrow> string \<Rightarrow> int \<Rightarrow> top_up_hold \<Rightarrow> top_up_hold" where
  "expire_hold tenantId organizationId at row =
     (if th_tenantId row = tenantId \<and> th_organizationId row = organizationId \<and> th_state row = HoldHeld \<and> th_leaseUntil row \<le> at
      then row\<lparr>th_state := HoldReleased, th_releasedBy := Some ByExpiry, th_resolvedAt := Some at\<rparr> else row)"

definition expire_topUpHolds :: "string \<Rightarrow> string \<Rightarrow> int \<Rightarrow> fstate \<Rightarrow> fstate" where
  "expire_topUpHolds tenantId organizationId at s =
     s\<lparr>st_topUpHolds := map (expire_hold tenantId organizationId at) (st_topUpHolds s)\<rparr>"

definition tx_topUpTotals :: "string \<Rightarrow> string \<Rightarrow> int \<Rightarrow> fstate \<Rightarrow> top_up_totals res" where
  "tx_topUpTotals tenantId organizationId at s =
     (let topUps = filter (\<lambda>row. tu_tenantId row = tenantId \<and> tu_organizationId row = organizationId) (st_topUps s);
          attempts = filter (\<lambda>row. fa_tenantId row = tenantId \<and> fa_organizationId row = organizationId) (st_attempts s);
          holds = filter (\<lambda>row. th_tenantId row = tenantId \<and> th_organizationId row = organizationId) (st_topUpHolds s);
          settlements = filter (\<lambda>row. se_tenantId row = tenantId \<and> se_organizationId row = organizationId) (st_settlements s)
      in rbind (sum_amounts (map tu_amountMicroUsd topUps)) (\<lambda>purchased.
         rbind (sum_amounts (map fa_topUpHoldMicroUsd (filter is_held attempts)
             @ map th_amountMicroUsd (filter (\<lambda>row. th_state row = HoldHeld \<and> th_leaseUntil row > at) holds))) (\<lambda>held.
         rbind (sum_amounts (map se_topUpDebitMicroUsd settlements
             @ map th_debitMicroUsd (filter (\<lambda>row. th_state row = HoldSettled) holds))) (\<lambda>settled.
         Inr \<lparr>tt_purchasedMicroUsd = purchased, tt_heldMicroUsd = held, tt_settledMicroUsd = settled\<rparr>))))"

definition tx_jobUsed :: "string \<Rightarrow> string \<Rightarrow> fstate \<Rightarrow> int res" where
  "tx_jobUsed tenantId rootJobId s =
     (let attempts = filter (\<lambda>row. fa_tenantId row = tenantId \<and> fa_rootJobId row = rootJobId) (st_attempts s);
          held = map fa_maxMicroUsd (filter is_held attempts)
      in rbind (rmapM (\<lambda>row. case tx_settlement tenantId (fa_id row) s of
             None \<Rightarrow> Inl PlainError | Some charge \<Rightarrow> Inr (se_allowanceDebitMicroUsd charge))
           (filter (\<lambda>row. fa_state row = Settled) attempts)) (\<lambda>settled. sum_amounts (held @ settled)))"

text \<open>The dispatch claim moves the first pending, undispatched attempt of that id, and says whether there was one.\<close>

definition claimable :: "string \<Rightarrow> string \<Rightarrow> funded_attempt \<Rightarrow> bool" where
  "claimable tenantId attemptId row \<longleftrightarrow>
     fa_tenantId row = tenantId \<and> fa_id row = attemptId \<and> fa_state row = Pending \<and> fa_dispatchedAt row = None"

definition claim_dispatch :: "string \<Rightarrow> string \<Rightarrow> int \<Rightarrow> fstate \<Rightarrow> bool \<times> fstate" where
  "claim_dispatch tenantId attemptId at s =
     (case find (claimable tenantId attemptId) (st_attempts s) of
        None \<Rightarrow> (False, s)
      | Some row \<Rightarrow> (True, s\<lparr>st_attempts := upsert (claimable tenantId attemptId) (row\<lparr>fa_dispatchedAt := Some at\<rparr>) (st_attempts s)\<rparr>))"

definition company_spend :: "fstate \<Rightarrow> int res" where
  "company_spend s =
     (let held = filter (\<lambda>row. fa_state row = Pending \<or> fa_state row = Uncertain \<or> fa_state row = WrittenOff) (st_attempts s)
      in sum_amounts (map se_providerCostMicroUsd (st_settlements s) @ map fa_maxMicroUsd held))"

definition last_receipt :: "string \<Rightarrow> string \<Rightarrow> string \<Rightarrow> fstate \<Rightarrow> usage_receipt option" where
  "last_receipt tenantId organizationId periodId s =
     (let rows = sort_by (\<lambda>a b. se_settledAt a < se_settledAt b)
            (filter (\<lambda>row. se_tenantId row = tenantId \<and> se_organizationId row = organizationId
              \<and> se_periodId row = periodId) (st_settlements s))
      in if rows = [] then None
         else Some \<lparr>ur_receiptRef = se_receiptRef (last rows), ur_settledAt = se_settledAt (last rows),
                ur_allowanceDebitMicroUsd = se_allowanceDebitMicroUsd (last rows)\<rparr>)"

text \<open>
  A member's use: who an attempt was for, the entries each row adds in the order of the loops, and the
  totals those entries add up to, in the order of the people's ids.
\<close>

record use_entry =
  ue_person :: "string option"
  ue_included :: int
  ue_purchased :: int
  ue_held :: int

definition person_of :: "string \<Rightarrow> fstate \<Rightarrow> string \<Rightarrow> string option" where
  "person_of tenantId s attemptId =
     map_option ap_personId (find (\<lambda>row. ap_tenantId row = tenantId \<and> ap_attemptId row = attemptId) (st_attemptPeople s))"

definition attempt_entries :: "string \<Rightarrow> string \<Rightarrow> credit_period \<Rightarrow> fstate \<Rightarrow> use_entry list" where
  "attempt_entries tenantId organizationId period s =
     map (\<lambda>row. \<lparr>ue_person = person_of tenantId s (fa_id row), ue_included = fa_monthlyHoldMicroUsd row,
            ue_purchased = fa_topUpHoldMicroUsd row, ue_held = fa_maxMicroUsd row\<rparr>)
       (filter (\<lambda>row. fa_tenantId row = tenantId \<and> fa_organizationId row = organizationId
          \<and> fa_periodId row = cp_periodId period \<and> is_held row) (st_attempts s))"

definition settlement_entries :: "string \<Rightarrow> string \<Rightarrow> credit_period \<Rightarrow> fstate \<Rightarrow> use_entry list" where
  "settlement_entries tenantId organizationId period s =
     map (\<lambda>row. \<lparr>ue_person = person_of tenantId s (se_reservationId row), ue_included = se_monthlyDebitMicroUsd row,
            ue_purchased = se_topUpDebitMicroUsd row, ue_held = 0\<rparr>)
       (filter (\<lambda>row. se_tenantId row = tenantId \<and> se_organizationId row = organizationId
          \<and> se_periodId row = cp_periodId period) (st_settlements s))"

definition hold_entry :: "credit_period \<Rightarrow> int \<Rightarrow> top_up_hold \<Rightarrow> use_entry list" where
  "hold_entry period at row =
     (if th_state row = HoldHeld then
        (if th_leaseUntil row > at
         then [\<lparr>ue_person = Some (th_personId row), ue_included = 0, ue_purchased = th_amountMicroUsd row, ue_held = th_amountMicroUsd row\<rparr>]
         else [])
      else if th_state row = HoldSettled \<and> (case th_resolvedAt row of None \<Rightarrow> False
             | Some t \<Rightarrow> cp_startsAt period \<le> t \<and> t < cp_endsAt period)
        then [\<lparr>ue_person = Some (th_personId row), ue_included = 0, ue_purchased = th_debitMicroUsd row, ue_held = 0\<rparr>]
      else [])"

definition hold_entries :: "string \<Rightarrow> string \<Rightarrow> credit_period \<Rightarrow> int \<Rightarrow> fstate \<Rightarrow> use_entry list" where
  "hold_entries tenantId organizationId period at s =
     concat (map (hold_entry period at)
       (filter (\<lambda>row. th_tenantId row = tenantId \<and> th_organizationId row = organizationId) (st_topUpHolds s)))"

text \<open>\<open>Map.get\<close> and \<open>Map.set\<close> on the totals, kept in insertion order.\<close>

definition add_use :: "string option \<Rightarrow> use_entry \<Rightarrow> (string \<times> int \<times> int \<times> int) list \<Rightarrow> (string \<times> int \<times> int \<times> int) list" where
  "add_use personId entry totals =
     (case ue_person entry of None \<Rightarrow> totals
      | Some person \<Rightarrow>
          (if personId \<noteq> None \<and> personId \<noteq> Some person then totals
           else let (i, p, h) = (case find (\<lambda>row. fst row = person) totals of Some row \<Rightarrow> snd row | None \<Rightarrow> (0, 0, 0))
             in upsert (\<lambda>row. fst row = person)
                  (person, i + ue_included entry, p + ue_purchased entry, h + ue_held entry) totals))"

definition tx_memberUsage :: "string \<Rightarrow> string \<Rightarrow> credit_period \<Rightarrow> string option \<Rightarrow> int \<Rightarrow> fstate \<Rightarrow> member_usage_row list res" where
  "tx_memberUsage tenantId organizationId period personId at s =
     (let totals = fold (add_use personId)
            (attempt_entries tenantId organizationId period s @ settlement_entries tenantId organizationId period s
              @ hold_entries tenantId organizationId period at s) []
      in rmapM (\<lambda>(person, i, p, h). rbind (micro i) (\<lambda>included. rbind (micro p) (\<lambda>purchased. rbind (micro h) (\<lambda>held.
           Inr \<lparr>mu_personId = person, mu_includedMicroUsd = included, mu_purchasedMicroUsd = purchased, mu_heldMicroUsd = held\<rparr>))))
         (sort_by (\<lambda>a b. text_less (fst a) (fst b)) totals))"

end
