(* ===== verification/Funding_Checks.thy ===== *)
theory Funding_Checks
  imports Funding_Totals
begin

text \<open>
  The checks and figures at the top of \<open>services/control-plane/src/funding.ts\<close>: what an id, an amount, a
  rate and a tier charge must be, a month's bounds, and what is available to hold.
\<close>

section \<open>Ids and amounts\<close>

definition is_alnum :: "char \<Rightarrow> bool" where
  "is_alnum c \<longleftrightarrow> is_digit c \<or> is_upper c \<or> is_lower c"

definition id_pattern :: "string \<Rightarrow> bool" where
  "id_pattern t = (case t of [] \<Rightarrow> False
     | c # rest \<Rightarrow> is_alnum c \<and> length rest \<le> 127 \<and> list_all (\<lambda>c. is_alnum c \<or> c \<in> set ''._:-'') rest)"

definition releasable_refusals :: "int list" where
  "releasable_refusals = [400, 401, 403, 404, 413, 422, 429]"

definition require_id :: "jval \<Rightarrow> string res" where
  "require_id v = (case v of
     JStr t \<Rightarrow> if id_pattern t then Inr t else Inl (FundingError 422 ''invalid_request'')
   | _ \<Rightarrow> Inl (FundingError 422 ''invalid_request''))"

definition require_money :: "jval \<Rightarrow> bool \<Rightarrow> int res" where
  "require_money v positive = (case v of
     JInt n \<Rightarrow> if \<not> is_safe_integer n \<or> n < 0 \<or> positive \<and> n = 0 then Inl (FundingError 422 ''invalid_amount'') else micro n
   | _ \<Rightarrow> Inl (FundingError 422 ''invalid_amount''))"

lemma require_id_Inr [result_simps]: "require_id (JStr t) = Inr u \<longleftrightarrow> u = t \<and> id_pattern t"
  by (auto simp: require_id_def)

lemma require_money_Inr [result_simps]:
  "require_money (JInt n) positive = Inr m \<longleftrightarrow> m = n \<and> is_money n \<and> (positive \<longrightarrow> n \<noteq> 0)"
  by (auto simp: require_money_def micro_Inr_iff is_money_def is_safe_integer_def max_money_eq)

section \<open>Rates and tier charges\<close>

definition rate_units_ok :: "int \<Rightarrow> bool" where
  "rate_units_ok n \<longleftrightarrow> is_safe_integer n \<and> 0 \<le> n \<and> n \<le> 1000000000"

definition opt_rate_units_ok :: "int option \<Rightarrow> bool" where
  "opt_rate_units_ok x \<longleftrightarrow> (case x of None \<Rightarrow> True | Some n \<Rightarrow> rate_units_ok n)"

definition rate_band_ok :: "'a band_prices_scheme \<Rightarrow> bool" where
  "rate_band_ok b \<longleftrightarrow> rate_units_ok (bp_inputMicroUsdPerMillion b) \<and> rate_units_ok (bp_outputMicroUsdPerMillion b)
     \<and> rate_units_ok (bp_cacheReadMicroUsdPerMillion b) \<and> rate_units_ok (bp_cacheWriteMicroUsdPerMillion b)
     \<and> opt_rate_units_ok (bp_reasoningMicroUsdPerMillion b) \<and> opt_rate_units_ok (bp_requestFeeMicroUsd b)"

definition rate_version_ok :: "string \<Rightarrow> bool" where
  "rate_version_ok version \<longleftrightarrow> version \<noteq> '''' \<and> utf16_units version \<le> 120"

definition rate_prices_ok :: "string \<Rightarrow> 'a price_fields_scheme \<Rightarrow> bool" where
  "rate_prices_ok version rate \<longleftrightarrow> rate_version_ok version \<and> rate_band_ok rate
     \<and> length (long_context rate) \<le> 16
     \<and> list_all (\<lambda>b. is_safe_integer (lb_aboveInputTokens b) \<and> 0 \<le> lb_aboveInputTokens b \<and> rate_band_ok b) (long_context rate)"

definition is_object_value :: "jval \<Rightarrow> bool" where
  "is_object_value v \<longleftrightarrow> (case v of JArr _ \<Rightarrow> True | JObj _ \<Rightarrow> True | JOther \<Rightarrow> True | _ \<Rightarrow> False)"

definition routing_ok :: "jval option \<Rightarrow> bool" where
  "routing_ok routing \<longleftrightarrow> (case routing of None \<Rightarrow> True
     | Some r \<Rightarrow> utf16_units (json_text r) \<le> 4096 \<and> list_all (\<lambda>kv. \<not> is_object_value (snd kv)) (own_fields r))"

text \<open>
  The returned snapshot has exactly the fields of the record, so it is the one given. Every failure
  is the same refusal.
\<close>

definition require_rate :: "rate_snapshot \<Rightarrow> rate_snapshot res" where
  "require_rate rate =
     (if rate_prices_ok (rs_version rate) rate \<and> routing_ok (rs_routing rate) then Inr rate
      else Inl (FundingError 422 ''invalid_rate''))"

definition require_charge :: "charge_snapshot \<Rightarrow> charge_snapshot res" where
  "require_charge charge =
     (if \<not> is_safe_integer (cs_tableVersion charge) \<or> cs_tableVersion charge < 1
         \<or> \<not> ceiling_schema_ok (cs_ceilingMicroUsdPerCredit charge)
        then Inl (FundingError 422 ''invalid_charge'')
      else if rate_prices_ok (cs_version charge) charge then Inr charge
      else Inl (FundingError 422 ''invalid_charge''))"

lemma rate_prices_nonneg: "rate_prices_ok version rate \<Longrightarrow> prices_nonneg rate"
  by (auto simp: rate_prices_ok_def prices_nonneg_def list_all_iff band_nonneg_def rate_band_ok_def
      rate_units_ok_def opt_rate_units_ok_def price_defs split: option.splits)

lemma require_rate_Inr [result_simps]:
  "require_rate rate = Inr r \<longleftrightarrow> r = rate \<and> rate_prices_ok (rs_version rate) rate \<and> routing_ok (rs_routing rate)"
  by (auto simp: require_rate_def)

lemma require_charge_Inr:
  "require_charge charge = Inr c \<Longrightarrow> c = charge \<and> rate_prices_ok (cs_version charge) charge"
  by (auto simp: require_charge_def split: if_splits)

section \<open>Months\<close>

definition period_pattern :: "string \<Rightarrow> bool" where
  "period_pattern t \<longleftrightarrow> length t = 7 \<and> list_all is_digit (take 4 t) \<and> t ! 4 = CHR ''-''
     \<and> list_all is_digit (drop 5 t) \<and> 1 \<le> read_nat (drop 5 t) \<and> read_nat (drop 5 t) \<le> 12"

definition month_bounds :: "string \<Rightarrow> (int \<times> int) res" where
  "month_bounds periodId =
     (if \<not> period_pattern periodId then Inl (FundingError 422 ''invalid_period'')
      else let year = read_nat (take 4 periodId); month = read_nat (drop 5 periodId)
        in Inr (date_utc year (month - 1) 1 0, date_utc year month 1 0))"

text \<open>The month an instant falls in is the month whose bounds contain it.\<close>

lemma period_id_for_bounds:
  assumes "1000 \<le> utc_full_year t" and "utc_full_year t \<le> 9999" and "is_time_value t"
  shows "\<exists>p. period_id_for t = Inr p \<and> month_bounds p =
      Inr (month_day (month_number t) * ms_per_day, month_day (month_number t + 1) * ms_per_day)"
proof -
  let ?y = "utc_full_year t" and ?m = "utc_month t + 1"
  let ?p = "show_int ?y @ ''-'' @ pad_zero 2 (show_int ?m)"
  have m: "0 \<le> ?m" "?m < 100" "1 \<le> ?m" "?m \<le> 12" using utc_month_day_bounds(1,2) [of t] by simp_all
  have year: "list_all is_digit (show_int ?y)" "read_nat (show_int ?y) = ?y"
    using padded_digits [of ?y 0] read_padded [of ?y 0] assms(1) by (simp_all add: pad_zero_def)
  have len: "length (show_int ?y) = 4"
    using assms length_show_nat [of "nat ?y" 4] length_show_nat_ge [of 3 "nat ?y"]
    by (simp add: show_int_def nat_less_iff le_nat_iff)
  moreover have "length (pad_zero 2 (show_int ?m)) = 2" using m by (intro padded_length) simp_all
  ultimately have parts: "take 4 ?p = show_int ?y" "drop 5 ?p = pad_zero 2 (show_int ?m)" "?p ! 4 = CHR ''-''" "length ?p = 7"
    by (simp_all add: nth_append)
  have "period_pattern ?p"
    unfolding period_pattern_def parts using year m by (simp add: padded_digits read_padded)
  moreover have "date_utc ?y (?m - 1) 1 0 = month_day (month_number t) * ms_per_day"
    "date_utc ?y ?m 1 0 = month_day (month_number t + 1) * ms_per_day"
    using assms(1) by (simp_all add: date_utc_def make_day_eq month_number_def add.assoc)
  ultimately have "month_bounds ?p =
      Inr (month_day (month_number t) * ms_per_day, month_day (month_number t + 1) * ms_per_day)"
    unfolding month_bounds_def parts Let_def using year m by (simp add: read_padded)
  then show ?thesis using assms(3) by (simp add: period_id_for_def)
qed

lemma month_contains: "month_day (month_number t) * ms_per_day \<le> t" "t < month_day (month_number t + 1) * ms_per_day"
proof -
  have day: "utc_day t * ms_per_day \<le> t" "t < (utc_day t + 1) * ms_per_day"
    using div_bounds [of ms_per_day t] by (simp_all add: utc_day_def ms_per_day_def)
  have "month_day (month_number t) * ms_per_day \<le> utc_day t * ms_per_day"
    using utc_month_day_bounds(3) by (rule mult_right_mono) (simp add: ms_per_day_def)
  with day(1) show "month_day (month_number t) * ms_per_day \<le> t" by simp
  have "(utc_day t + 1) * ms_per_day \<le> month_day (month_number t + 1) * ms_per_day"
    using utc_month_day_bounds(4) [of t] by (intro mult_right_mono) (simp_all add: ms_per_day_def)
  with day(2) show "t < month_day (month_number t + 1) * ms_per_day" by simp
qed

section \<open>What is available\<close>

definition monthly_available :: "credit_period \<Rightarrow> period_totals \<Rightarrow> int res" where
  "monthly_available period totals =
     rbind (sum_money [cp_grantedMicroUsd period, pt_correctionGrantsMicroUsd totals]) (\<lambda>funded.
     rbind (sum_money [pt_correctionWithdrawalsMicroUsd totals, pt_settledMonthlyMicroUsd totals,
                       pt_pendingMonthlyMicroUsd totals, pt_uncertainMonthlyMicroUsd totals]) (\<lambda>committed.
     if committed > funded then micro 0 else subtract_money funded committed))"

definition top_up_available :: "top_up_totals \<Rightarrow> int res" where
  "top_up_available totals =
     rbind (sum_money [tt_heldMicroUsd totals, tt_settledMicroUsd totals]) (\<lambda>committed.
     if committed \<ge> tt_purchasedMicroUsd totals then micro 0 else subtract_money (tt_purchasedMicroUsd totals) committed)"

record purchased_balance =
  pb_purchasedMicroUsd :: int
  pb_heldMicroUsd :: int
  pb_settledMicroUsd :: int
  pb_availableMicroUsd :: int

definition balance_of :: "top_up_totals \<Rightarrow> purchased_balance res" where
  "balance_of totals =
     rbind (sum_money [tt_heldMicroUsd totals, tt_settledMicroUsd totals]) (\<lambda>committed.
     rbind (subtract_money (tt_purchasedMicroUsd totals) committed) (\<lambda>available.
       Inr \<lparr>pb_purchasedMicroUsd = tt_purchasedMicroUsd totals, pb_heldMicroUsd = tt_heldMicroUsd totals,
            pb_settledMicroUsd = tt_settledMicroUsd totals, pb_availableMicroUsd = available\<rparr>))"

definition purchased_hold_lease_minutes :: int where
  "purchased_hold_lease_minutes = 15"

definition lease_from :: "int \<Rightarrow> int" where
  "lease_from at = at + purchased_hold_lease_minutes * 60000"

definition bought_credits_plan :: string where "bought_credits_plan = ''bought-credits''"
definition bought_credits_period :: string where "bought_credits_period = ''bought-credits''"

text \<open>The instant of \<open>9999-12-31T00:00:00.000Z\<close>.\<close>

definition bought_credits_ends_at :: int where
  "bought_credits_ends_at = date_utc 9999 11 31 0"

definition is_individual_scope_id :: "string \<Rightarrow> bool" where
  "is_individual_scope_id i \<longleftrightarrow> take 11 i = ''individual_''"

lemma monthly_available_Inr:
  "monthly_available period totals = Inr a \<Longrightarrow>
    a = max 0 (cp_grantedMicroUsd period + pt_correctionGrantsMicroUsd totals - pt_correctionWithdrawalsMicroUsd totals
      - pt_settledMonthlyMicroUsd totals - pt_pendingMonthlyMicroUsd totals - pt_uncertainMonthlyMicroUsd totals)"
  by (auto simp: monthly_available_def result_simps split: if_splits)

lemma top_up_available_Inr:
  "top_up_available totals = Inr a \<Longrightarrow>
    a = max 0 (tt_purchasedMicroUsd totals - tt_heldMicroUsd totals - tt_settledMicroUsd totals)"
  by (auto simp: top_up_available_def result_simps split: if_splits)

lemma balance_of_Inr:
  "balance_of totals = Inr b \<Longrightarrow>
    pb_availableMicroUsd b = tt_purchasedMicroUsd totals - tt_heldMicroUsd totals - tt_settledMicroUsd totals
    \<and> tt_heldMicroUsd totals + tt_settledMicroUsd totals \<le> tt_purchasedMicroUsd totals
    \<and> pb_purchasedMicroUsd b = tt_purchasedMicroUsd totals \<and> pb_heldMicroUsd b = tt_heldMicroUsd totals
    \<and> pb_settledMicroUsd b = tt_settledMicroUsd totals"
  by (auto simp: balance_of_def result_simps)

end
