(* ===== verification/Funding_Periods.thy ===== *)
theory Funding_Periods
  imports Funding_Checks
begin

text \<open>
  The allocations of \<open>FundingService\<close>: a month's published grant, an agreement's month and an
  Individual term. Every operation takes the service's clock, its input and the store, and returns
  what it throws, or its answer with the store it leaves.
\<close>

type_synonym 'a outcome = "('a \<times> fstate) res"

text \<open>
  \<open>FauxCloudStore.run\<close>: an operation works on a draft that replaces the store only when it returns.
\<close>

definition transaction :: "(fstate \<Rightarrow> 'a outcome) \<Rightarrow> fstate \<Rightarrow> 'a res \<times> fstate" where
  "transaction action s = (case action s of Inl e \<Rightarrow> (Inl e, s) | Inr (x, draft) \<Rightarrow> (Inr x, draft))"

lemma transaction_throws: "transaction action s = (Inl e, s') \<Longrightarrow> s' = s"
  by (auto simp: transaction_def split: sum.splits)

lemma transaction_returns: "transaction action s = (Inr x, s') \<longleftrightarrow> action s = Inr (x, s')"
  by (auto simp: transaction_def split: sum.splits)

text \<open>The row a grant is recorded in.\<close>

definition granted_row :: "int \<Rightarrow> string \<Rightarrow> string \<Rightarrow> string \<Rightarrow> string \<Rightarrow> int \<Rightarrow> int \<times> int \<Rightarrow> string \<Rightarrow> credit_period" where
  "granted_row at tenantId organizationId periodId planId granted bounds sourceGrantId =
     \<lparr>cp_tenantId = tenantId, cp_organizationId = organizationId, cp_periodId = periodId, cp_planId = planId,
      cp_rateCardVersion = rc_version rate_card_v1, cp_grantedMicroUsd = granted, cp_startsAt = fst bounds,
      cp_endsAt = snd bounds, cp_sourceGrantId = sourceGrantId, cp_allocatedAt = at\<rparr>"

definition record_period :: "credit_period \<Rightarrow> fstate \<Rightarrow> credit_period outcome" where
  "record_period row s = rmap (\<lambda>s'. (row, s')) (save_period row s)"

definition allocate_period ::
  "int \<Rightarrow> string \<Rightarrow> string \<Rightarrow> string \<Rightarrow> string \<Rightarrow> string \<Rightarrow> fstate \<Rightarrow> credit_period outcome" where
  "allocate_period now tenantId organizationId periodId planId sourceGrantId s =
     rbind (require_id (JStr tenantId)) (\<lambda>_. rbind (require_id (JStr organizationId)) (\<lambda>_.
     rbind (require_id (JStr sourceGrantId)) (\<lambda>_. rbind (month_bounds periodId) (\<lambda>bounds.
     rbind (published_monthly_grant planId) (\<lambda>grant.
     case grant of None \<Rightarrow> Inl (FundingError 409 ''grant_not_approved'')
     | Some granted \<Rightarrow>
       (case tx_period tenantId organizationId periodId s of
          Some existing \<Rightarrow>
            (if cp_planId existing \<noteq> planId \<or> cp_sourceGrantId existing \<noteq> sourceGrantId
               then Inl (FundingError 409 ''period_conflict'')
             else Inr (existing, s))
        | None \<Rightarrow> record_period (granted_row now tenantId organizationId periodId planId granted bounds sourceGrantId) s))))))"

definition allocate_agreement_period ::
  "int \<Rightarrow> string \<Rightarrow> string \<Rightarrow> string \<Rightarrow> string \<Rightarrow> int \<Rightarrow> fstate \<Rightarrow> credit_period outcome" where
  "allocate_agreement_period now tenantId organizationId periodId sourceGrantId amount s =
     rbind (require_id (JStr tenantId)) (\<lambda>_. rbind (require_id (JStr organizationId)) (\<lambda>_.
     rbind (require_id (JStr sourceGrantId)) (\<lambda>_. rbind (require_money (JInt amount) True) (\<lambda>granted.
     rbind (month_bounds periodId) (\<lambda>bounds.
       (case tx_period tenantId organizationId periodId s of
          Some existing \<Rightarrow>
            (if cp_sourceGrantId existing \<noteq> sourceGrantId \<or> cp_grantedMicroUsd existing \<noteq> granted
                \<or> cp_planId existing \<noteq> ''individual-agreement''
               then Inl (FundingError 409 ''period_conflict'')
             else Inr (existing, s))
        | None \<Rightarrow> record_period
            (granted_row now tenantId organizationId periodId ''individual-agreement'' granted bounds sourceGrantId) s))))))"

definition period_interval :: "credit_period \<Rightarrow> int \<times> int" where
  "period_interval row = (cp_startsAt row, cp_endsAt row)"

definition period_contains :: "credit_period \<Rightarrow> int \<Rightarrow> bool" where
  "period_contains row at \<longleftrightarrow> cp_startsAt row \<le> at \<and> at < cp_endsAt row"

definition allocate_individual_period ::
  "int \<Rightarrow> string \<Rightarrow> string \<Rightarrow> string \<Rightarrow> jval \<Rightarrow> fstate \<Rightarrow> credit_period outcome" where
  "allocate_individual_period now tenantId organizationId sourceGrantId cycleInput s =
     rbind (require_id (JStr tenantId)) (\<lambda>_. rbind (require_id (JStr organizationId)) (\<lambda>_.
     rbind (require_id (JStr sourceGrantId)) (\<lambda>_.
     case verified_individual_cycle cycleInput of None \<Rightarrow> Inl (FundingError 422 ''invalid_period'')
     | Some cycle \<Rightarrow>
     rbind (published_monthly_grant ''individual'') (\<lambda>grant.
     case grant of None \<Rightarrow> Inl (FundingError 409 ''grant_not_approved'')
     | Some granted \<Rightarrow>
     rbind (individual_cycle_id (ic_startsAt cycle)) (\<lambda>periodId.
       (case tx_period tenantId organizationId periodId s of
          Some existing \<Rightarrow>
            (if cp_planId existing \<noteq> ''individual'' \<or> cp_grantedMicroUsd existing \<noteq> granted
                \<or> cp_startsAt existing \<noteq> ic_startsAt cycle \<or> cp_endsAt existing \<noteq> ic_endsAt cycle
               then Inl (FundingError 409 ''period_conflict'')
             else Inr (existing, s))
        | None \<Rightarrow>
            (if \<not> cycle_contains cycle now then Inl (FundingError 409 ''period_not_current'')
             else if filter (\<lambda>row. is_individual_cycle_id (cp_periodId row)
                 \<and> periods_overlap (period_interval row) (cycle_interval cycle)) (tx_periods tenantId organizationId s) \<noteq> []
               then Inl (FundingError 409 ''period_overlap'')
             else record_period
               (granted_row now tenantId organizationId periodId ''individual'' granted (cycle_interval cycle) sourceGrantId) s)))))))"

section \<open>What an allocation leaves\<close>

lemma record_period_Inr [result_simps]:
  "record_period row s = Inr (x, s') \<longleftrightarrow> x = row
     \<and> tx_period (cp_tenantId row) (cp_organizationId row) (cp_periodId row) s = None \<and> s' = push_period row s"
  by (auto simp: record_period_def result_simps)

text \<open>Every allocation returns the recorded row, and leaves the store alone or records that row under a free key.\<close>

definition records_period :: "credit_period \<Rightarrow> fstate \<Rightarrow> fstate \<Rightarrow> bool" where
  "records_period row s s' \<longleftrightarrow>
     s' = s \<and> tx_period (cp_tenantId row) (cp_organizationId row) (cp_periodId row) s = Some row
     \<or> s' = push_period row s \<and> tx_period (cp_tenantId row) (cp_organizationId row) (cp_periodId row) s = None
         \<and> is_money (cp_grantedMicroUsd row)"

lemma tx_period_key: "tx_period t o' p s = Some row \<Longrightarrow> cp_tenantId row = t \<and> cp_organizationId row = o' \<and> cp_periodId row = p"
  by (auto simp: tx_period_def dest: find_Some_in_set)

lemma granted_row_simps [simp]:
  "cp_tenantId (granted_row at t o' p plan g b src) = t" "cp_organizationId (granted_row at t o' p plan g b src) = o'"
  "cp_periodId (granted_row at t o' p plan g b src) = p" "cp_planId (granted_row at t o' p plan g b src) = plan"
  "cp_grantedMicroUsd (granted_row at t o' p plan g b src) = g" "cp_startsAt (granted_row at t o' p plan g b src) = fst b"
  "cp_endsAt (granted_row at t o' p plan g b src) = snd b" "cp_sourceGrantId (granted_row at t o' p plan g b src) = src"
  "cp_allocatedAt (granted_row at t o' p plan g b src) = at"
  by (simp_all add: granted_row_def)

lemma allocate_period_Inr:
  assumes "allocate_period now t o' p plan src s = Inr (row, s')"
  shows "records_period row s s'" "cp_tenantId row = t" "cp_organizationId row = o'" "cp_periodId row = p"
    "cp_planId row = plan" "cp_sourceGrantId row = src"
  using assms
  by (auto simp: allocate_period_def result_simps records_period_def dest: tx_period_key published_monthly_grant_money)

lemma allocate_agreement_period_Inr:
  assumes "allocate_agreement_period now t o' p src amount s = Inr (row, s')"
  shows "records_period row s s'" "cp_tenantId row = t" "cp_organizationId row = o'" "cp_periodId row = p"
    "cp_planId row = ''individual-agreement''" "cp_sourceGrantId row = src" "cp_grantedMicroUsd row = amount"
  using assms
  by (auto simp: allocate_agreement_period_def result_simps records_period_def dest: tx_period_key)

lemma allocate_individual_period_Inr:
  assumes "allocate_individual_period now t o' src v s = Inr (row, s')"
  shows "records_period row s s'" "cp_tenantId row = t" "cp_organizationId row = o'" "cp_planId row = ''individual''"
    "s' \<noteq> s \<Longrightarrow> period_contains row now"
    "s' \<noteq> s \<Longrightarrow> \<forall>other \<in> set (tx_periods t o' s). is_individual_cycle_id (cp_periodId other)
       \<longrightarrow> \<not> periods_overlap (period_interval other) (period_interval row)"
  using assms
  by (auto simp: allocate_individual_period_def result_simps records_period_def period_contains_def cycle_contains_def
      cycle_interval_def period_interval_def filter_empty_conv dest: tx_period_key published_monthly_grant_money)

text \<open>Asking again for what was recorded returns it and changes nothing.\<close>

lemma push_period_read:
  "tx_period (cp_tenantId row) (cp_organizationId row) (cp_periodId row) s = None \<Longrightarrow>
   tx_period (cp_tenantId row) (cp_organizationId row) (cp_periodId row) (push_period row s) = Some row"
  by (simp add: tx_period_push period_key_def)

lemma records_period_read:
  "records_period row s s' \<Longrightarrow> tx_period (cp_tenantId row) (cp_organizationId row) (cp_periodId row) s' = Some row"
  by (auto simp: records_period_def push_period_read)

lemma allocate_period_again:
  assumes "allocate_period now t o' p plan src s = Inr (row, s')"
  shows "allocate_period later t o' p plan src s' = Inr (row, s')"
proof -
  note row = allocate_period_Inr [OF assms]
  have "tx_period t o' p s' = Some row"
    using records_period_read [OF row(1)] row(2-4) by simp
  with assms row(5,6) show ?thesis
    by (auto simp: allocate_period_def result_simps)
qed

end
