(* ===== verification/Funding_Purchases.thy ===== *)
theory Funding_Purchases
  imports Funding_Periods
begin

text \<open>
  Top-ups and credit purchases of \<open>FundingService\<close>: a purchase is a pending row until a verified event
  pays it, and the event that pays it records the top-up in the same transaction.
\<close>

section \<open>Top-ups\<close>

definition record_topUp_within ::
  "int \<Rightarrow> string \<Rightarrow> string \<Rightarrow> string \<Rightarrow> int \<Rightarrow> string \<Rightarrow> fstate \<Rightarrow> top_up outcome" where
  "record_topUp_within now tenantId organizationId topUpId amount sourceEventId s =
     (case tx_topUp tenantId topUpId s of
        Some existing \<Rightarrow>
          (if tu_organizationId existing \<noteq> organizationId \<or> tu_amountMicroUsd existing \<noteq> amount
              \<or> tu_sourceEventId existing \<noteq> sourceEventId
             then Inl (FundingError 409 ''topup_conflict'')
           else Inr (existing, s))
      | None \<Rightarrow>
          (let row = \<lparr>tu_tenantId = tenantId, tu_organizationId = organizationId, tu_topUpId = topUpId,
                 tu_amountMicroUsd = amount, tu_sourceEventId = sourceEventId, tu_recordedAt = now\<rparr>
           in Inr (row, save_topUp row s)))"

definition record_topUp :: "int \<Rightarrow> string \<Rightarrow> string \<Rightarrow> string \<Rightarrow> int \<Rightarrow> string \<Rightarrow> string \<Rightarrow> fstate \<Rightarrow> top_up outcome" where
  "record_topUp now tenantId organizationId topUpId amount provider sourceEventId s =
     rbind (require_id (JStr tenantId)) (\<lambda>_. rbind (require_id (JStr organizationId)) (\<lambda>_.
     rbind (require_id (JStr topUpId)) (\<lambda>_. rbind (require_id (JStr sourceEventId)) (\<lambda>_.
     rbind (require_money (JInt amount) True) (\<lambda>amount.
     if provider \<noteq> ''stripe'' then Inl (FundingError 422 ''invalid_request'')
     else record_topUp_within now tenantId organizationId topUpId amount sourceEventId s)))))"

section \<open>Making a purchase\<close>

record purchase_terms =
  pi_tenantId :: string
  pi_organizationId :: string
  pi_purchaseId :: string
  pi_personId :: string
  pi_credits :: int
  pi_amountCents :: int
  pi_rateCents :: int
  pi_rateCredits :: int
  pi_environment :: environment

definition start_creditPurchase :: "int \<Rightarrow> purchase_terms \<Rightarrow> fstate \<Rightarrow> credit_purchase outcome" where
  "start_creditPurchase now input s =
     rbind (require_id (JStr (pi_tenantId input))) (\<lambda>tenantId. rbind (require_id (JStr (pi_organizationId input))) (\<lambda>organizationId.
     rbind (require_id (JStr (pi_purchaseId input))) (\<lambda>purchaseId. rbind (require_id (JStr (pi_personId input))) (\<lambda>personId.
     let credits = pi_credits input; amountCents = pi_amountCents input; rateCents = pi_rateCents input;
         rateCredits = pi_rateCredits input; environment = pi_environment input in
     if \<not> is_safe_integer rateCents \<or> rateCents < 1 \<or> rateCents > 99999999
        \<or> \<not> is_safe_integer rateCredits \<or> rateCredits < 1 \<or> rateCredits > 1000000
       then Inl (FundingError 422 ''invalid_amount'')
     else if \<not> is_safe_integer credits \<or> credits < rateCredits \<or> credits > 1000000 \<or> credits mod rateCredits \<noteq> 0
       then Inl (FundingError 422 ''invalid_request'')
     else if \<not> is_safe_integer amountCents \<or> amountCents < 1 \<or> amountCents > 99999999
        \<or> amountCents \<noteq> (credits div rateCredits) * rateCents
       then Inl (FundingError 422 ''invalid_amount'')
     else (case tx_creditPurchase tenantId purchaseId s of
        Some existing \<Rightarrow>
          (if pu_organizationId existing \<noteq> organizationId \<or> pu_personId existing \<noteq> personId
              \<or> pu_credits existing \<noteq> credits \<or> pu_amountCents existing \<noteq> amountCents
              \<or> pu_rateCents existing \<noteq> rateCents \<or> pu_rateCredits existing \<noteq> rateCredits
              \<or> pu_environment existing \<noteq> environment
             then Inl (FundingError 409 ''purchase_conflict'')
           else Inr (existing, s))
      | None \<Rightarrow>
          (let row = \<lparr>pu_tenantId = tenantId, pu_organizationId = organizationId, pu_purchaseId = purchaseId,
                 pu_personId = personId, pu_credits = credits, pu_amountCents = amountCents, pu_rateCents = rateCents,
                 pu_rateCredits = rateCredits, pu_environment = environment, pu_checkoutSessionId = None,
                 pu_state = PurchasePending, pu_createdAt = now, pu_resolvedAt = None, pu_stripeEventId = None\<rparr>
           in Inr (row, save_creditPurchase row s)))))))"

text \<open>\<open>/^cs_[A-Za-z0-9_]{1,250}$/\<close>\<close>

definition session_pattern :: "string \<Rightarrow> bool" where
  "session_pattern t \<longleftrightarrow> take 3 t = ''cs_'' \<and> 1 \<le> length (drop 3 t) \<and> length (drop 3 t) \<le> 250
     \<and> list_all (\<lambda>c. is_alnum c \<or> c = CHR ''_'') (drop 3 t)"

text \<open>The purchase a business may read: another business's purchase and an unknown one read the same.\<close>

definition own_purchase :: "string \<Rightarrow> string \<Rightarrow> string \<Rightarrow> fstate \<Rightarrow> credit_purchase res" where
  "own_purchase tenantId organizationId purchaseId s =
     (case tx_creditPurchase tenantId purchaseId s of
        None \<Rightarrow> Inl (FundingError 404 ''unknown_purchase'')
      | Some row \<Rightarrow> (if pu_organizationId row \<noteq> organizationId then Inl (FundingError 404 ''unknown_purchase'') else Inr row))"

definition attach_checkoutSession :: "string \<Rightarrow> string \<Rightarrow> string \<Rightarrow> string \<Rightarrow> fstate \<Rightarrow> credit_purchase outcome" where
  "attach_checkoutSession tenantId organizationId purchaseId sessionId s =
     rbind (require_id (JStr tenantId)) (\<lambda>_. rbind (require_id (JStr organizationId)) (\<lambda>_.
     rbind (require_id (JStr purchaseId)) (\<lambda>_.
     if \<not> session_pattern sessionId then Inl (FundingError 422 ''invalid_request'')
     else rbind (own_purchase tenantId organizationId purchaseId s) (\<lambda>row.
       if pu_checkoutSessionId row = Some sessionId then Inr (row, s)
       else if pu_state row \<noteq> PurchasePending \<or> pu_checkoutSessionId row \<noteq> None
         then Inl (FundingError 409 ''purchase_closed'')
       else (let next = row\<lparr>pu_checkoutSessionId := Some sessionId\<rparr> in Inr (next, save_creditPurchase next s))))))"

definition fail_creditPurchase :: "int \<Rightarrow> string \<Rightarrow> string \<Rightarrow> string \<Rightarrow> fstate \<Rightarrow> credit_purchase outcome" where
  "fail_creditPurchase now tenantId organizationId purchaseId s =
     rbind (require_id (JStr tenantId)) (\<lambda>_. rbind (require_id (JStr organizationId)) (\<lambda>_.
     rbind (require_id (JStr purchaseId)) (\<lambda>_.
     rbind (own_purchase tenantId organizationId purchaseId s) (\<lambda>row.
       if pu_state row \<noteq> PurchasePending \<or> pu_checkoutSessionId row \<noteq> None then Inr (row, s)
       else (let next = row\<lparr>pu_state := PurchaseFailed, pu_resolvedAt := Some now\<rparr> in Inr (next, save_creditPurchase next s))))))"

definition read_creditPurchase :: "string \<Rightarrow> string \<Rightarrow> string \<Rightarrow> fstate \<Rightarrow> credit_purchase outcome" where
  "read_creditPurchase tenantId organizationId purchaseId s =
     rbind (require_id (JStr tenantId)) (\<lambda>_. rbind (require_id (JStr organizationId)) (\<lambda>_.
     rbind (require_id (JStr purchaseId)) (\<lambda>_.
     rmap (\<lambda>row. (row, s)) (own_purchase tenantId organizationId purchaseId s))))"

section \<open>Resolving a purchase\<close>

datatype event_kind = EventPaid | EventExpired | EventFailed

text \<open>What a verified event says.\<close>

record purchase_event =
  pe_kind :: event_kind
  pe_sessionId :: string
  pe_purchaseId :: "string option"
  pe_tenantId :: "string option"
  pe_organizationId :: "string option"
  pe_amountTotal :: "int option"
  pe_currency :: "string option"
  pe_eventId :: string
  pe_environment :: environment

definition names_another_purchase :: "credit_purchase \<Rightarrow> purchase_event \<Rightarrow> bool" where
  "names_another_purchase stored event \<longleftrightarrow> Some (pu_purchaseId stored) \<noteq> pe_purchaseId event
     \<or> Some (pu_organizationId stored) \<noteq> pe_organizationId event \<or> Some (pu_tenantId stored) \<noteq> pe_tenantId event"

definition pays_another_amount :: "credit_purchase \<Rightarrow> purchase_event \<Rightarrow> bool" where
  "pays_another_amount stored event \<longleftrightarrow> pe_amountTotal event \<noteq> Some (pu_amountCents stored)
     \<or> (case pe_currency event of None \<Rightarrow> True | Some c \<Rightarrow> to_lower c \<noteq> ''usd'')"

fun purchase_state_text :: "purchase_state \<Rightarrow> string" where
  "purchase_state_text PurchasePending = ''pending''"
| "purchase_state_text PurchasePaid = ''paid''"
| "purchase_state_text PurchaseExpired = ''expired''"
| "purchase_state_text PurchaseFailed = ''failed''"

datatype purchase_preview = Payable string string string | PreviewIgnored string "string option"

definition preview_creditPurchase :: "purchase_event \<Rightarrow> fstate \<Rightarrow> purchase_preview outcome" where
  "preview_creditPurchase input s =
     Inr (case creditPurchase_by_session (pe_sessionId input) s of
         None \<Rightarrow> PreviewIgnored ''unknown_session'' None
       | Some found \<Rightarrow>
           (if pu_environment found \<noteq> pe_environment input
              then PreviewIgnored ''environment_mismatch'' (Some (pu_purchaseId found))
            else if names_another_purchase found input
              then PreviewIgnored ''metadata_mismatch'' (Some (pu_purchaseId found))
            else if pu_state found \<noteq> PurchasePending
              then PreviewIgnored (''already_'' @ purchase_state_text (pu_state found)) (Some (pu_purchaseId found))
            else if pays_another_amount found input
              then PreviewIgnored ''amount_mismatch'' (Some (pu_purchaseId found))
            else Payable (pu_tenantId found) (pu_organizationId found) (pu_purchaseId found)), s)"

datatype purchase_resolution = Resolved purchase_state string | ResolveIgnored string "string option"

fun resolved_state :: "event_kind \<Rightarrow> purchase_state" where
  "resolved_state EventPaid = PurchasePaid"
| "resolved_state EventExpired = PurchaseExpired"
| "resolved_state EventFailed = PurchaseFailed"

definition resolve_creditPurchase :: "int \<Rightarrow> purchase_event \<Rightarrow> fstate \<Rightarrow> purchase_resolution outcome" where
  "resolve_creditPurchase now input s =
     rbind (require_id (JStr (pe_eventId input))) (\<lambda>eventId.
     case creditPurchase_by_session (pe_sessionId input) s of
       None \<Rightarrow> Inr (ResolveIgnored ''unknown_session'' None, s)
     | Some found \<Rightarrow>
     if pu_environment found \<noteq> pe_environment input
       then Inr (ResolveIgnored ''environment_mismatch'' (Some (pu_purchaseId found)), s)
     else if names_another_purchase found input
       then Inr (ResolveIgnored ''metadata_mismatch'' (Some (pu_purchaseId found)), s)
     else (case tx_creditPurchase (pu_tenantId found) (pu_purchaseId found) s of
       None \<Rightarrow> Inr (ResolveIgnored ''unknown_session'' (Some (pu_purchaseId found)), s)
     | Some purchase \<Rightarrow>
     if pu_checkoutSessionId purchase \<noteq> Some (pe_sessionId input)
       then Inr (ResolveIgnored ''unknown_session'' (Some (pu_purchaseId found)), s)
     else if pu_state purchase \<noteq> PurchasePending
       then Inr (ResolveIgnored (''already_'' @ purchase_state_text (pu_state purchase)) (Some (pu_purchaseId purchase)), s)
     else if pe_kind input \<noteq> EventPaid
       then Inr (Resolved (resolved_state (pe_kind input)) (pu_purchaseId purchase),
              save_creditPurchase (purchase\<lparr>pu_state := resolved_state (pe_kind input), pu_resolvedAt := Some now,
                pu_stripeEventId := Some eventId\<rparr>) s)
     else if pays_another_amount purchase input
       then Inr (ResolveIgnored ''amount_mismatch'' (Some (pu_purchaseId purchase)), s)
     else rbind (credit_amount (pu_credits purchase)) (\<lambda>amount.
       rbind (record_topUp_within now (pu_tenantId purchase) (pu_organizationId purchase) (pu_purchaseId purchase) amount eventId s) (\<lambda>(_, s).
       Inr (Resolved PurchasePaid (pu_purchaseId purchase),
         save_creditPurchase (purchase\<lparr>pu_state := PurchasePaid, pu_resolvedAt := Some now,
           pu_stripeEventId := Some eventId\<rparr>) s)))))"

section \<open>What the operations do\<close>

lemma record_topUp_within_Inr:
  assumes "record_topUp_within now t o' i amount ev s = Inr (row, s')"
  shows "tu_tenantId row = t" "tu_organizationId row = o'" "tu_topUpId row = i" "tu_amountMicroUsd row = amount"
    "tu_sourceEventId row = ev"
    "s' = s \<and> tx_topUp t i s = Some row \<or> tx_topUp t i s = None \<and> s' = save_topUp row s"
  using assms by (auto simp: record_topUp_within_def result_simps Let_def tx_topUp_def dest: find_Some_in_set)

lemma record_topUp_Inr:
  assumes "record_topUp now t o' i amount provider ev s = Inr (row, s')"
  shows "tu_tenantId row = t" "tu_organizationId row = o'" "tu_topUpId row = i" "tu_amountMicroUsd row = amount"
    "is_money amount" "0 < amount" "id_pattern t" "id_pattern o'" "id_pattern i"
    "s' = s \<and> tx_topUp t i s = Some row \<or> tx_topUp t i s = None \<and> s' = save_topUp row s"
proof -
  from assms have within: "record_topUp_within now t o' i amount ev s = Inr (row, s')"
    and money: "is_money amount" "amount \<noteq> 0" and ids: "id_pattern t" "id_pattern o'" "id_pattern i"
    by (auto simp: record_topUp_def result_simps)
  from money show "is_money amount" "0 < amount" by (auto simp: is_money_def)
  show "tu_tenantId row = t" "tu_organizationId row = o'" "tu_topUpId row = i" "tu_amountMicroUsd row = amount"
    "s' = s \<and> tx_topUp t i s = Some row \<or> tx_topUp t i s = None \<and> s' = save_topUp row s"
    using record_topUp_within_Inr [OF within] by simp_all
qed (use assms in \<open>auto simp: record_topUp_def result_simps\<close>)

text \<open>A retry of a recorded top-up answers the same and records nothing more.\<close>

lemma record_topUp_again:
  assumes "record_topUp now t o' i amount provider ev s = Inr (row, s')"
  shows "record_topUp later t o' i amount provider ev s' = Inr (row, s')"
  using assms by (auto simp: record_topUp_def result_simps record_topUp_within_def Let_def tx_topUp_save)

definition purchase_ok :: "credit_purchase \<Rightarrow> bool" where
  "purchase_ok row \<longleftrightarrow> 1 \<le> pu_rateCredits row \<and> 1 \<le> pu_rateCents row \<and> pu_rateCredits row dvd pu_credits row
     \<and> 1 \<le> pu_credits row \<and> pu_credits row \<le> 1000000
     \<and> pu_amountCents row * pu_rateCredits row = pu_credits row * pu_rateCents row"

lemma tx_creditPurchase_key: "tx_creditPurchase t i s = Some row \<Longrightarrow> pu_tenantId row = t \<and> pu_purchaseId row = i"
  by (auto simp: tx_creditPurchase_def dest: find_Some_in_set)

lemma start_creditPurchase_Inr:
  assumes "start_creditPurchase now input s = Inr (row, s')"
  shows "pu_tenantId row = pi_tenantId input" "pu_purchaseId row = pi_purchaseId input"
    "pu_organizationId row = pi_organizationId input" "pu_credits row = pi_credits input"
    "pu_amountCents row = pi_amountCents input" "purchase_ok row"
    "s' = s \<and> tx_creditPurchase (pi_tenantId input) (pi_purchaseId input) s = Some row
     \<or> tx_creditPurchase (pi_tenantId input) (pi_purchaseId input) s = None \<and> s' = save_creditPurchase row s
       \<and> pu_state row = PurchasePending \<and> pu_checkoutSessionId row = None"
  using assms
  by (auto simp: start_creditPurchase_def result_simps Let_def purchase_ok_def not_less algebra_simps
      dvd_eq_mod_eq_0 [symmetric] dest: tx_creditPurchase_key)

lemma own_purchase_Inr [result_simps]:
  "own_purchase t o' i s = Inr row \<longleftrightarrow> tx_creditPurchase t i s = Some row \<and> pu_organizationId row = o'"
  by (auto simp: own_purchase_def result_simps)

text \<open>The purchase the event resolves, when it resolves one.\<close>

lemma resolve_creditPurchase_Resolved:
  assumes "resolve_creditPurchase now input s = Inr (Resolved st i, s')"
  shows "\<exists>purchase. tx_creditPurchase (pu_tenantId purchase) i s = Some purchase
    \<and> pu_checkoutSessionId purchase = Some (pe_sessionId input) \<and> pu_state purchase = PurchasePending
    \<and> pe_purchaseId input = Some i \<and> pe_tenantId input = Some (pu_tenantId purchase)
    \<and> st = resolved_state (pe_kind input)
    \<and> (let done = purchase\<lparr>pu_state := st, pu_resolvedAt := Some now, pu_stripeEventId := Some (pe_eventId input)\<rparr> in
       if pe_kind input = EventPaid
       then \<not> pays_another_amount purchase input
         \<and> (\<exists>topUp s1. record_topUp_within now (pu_tenantId purchase) (pu_organizationId purchase) i
                (pu_credits purchase * 100000) (pe_eventId input) s = Inr (topUp, s1)
              \<and> is_money (pu_credits purchase * 100000) \<and> s' = save_creditPurchase done s1)
       else s' = save_creditPurchase done s)"
proof -
  from assms obtain found purchase where found: "\<not> names_another_purchase found input"
    and purchase: "tx_creditPurchase (pu_tenantId found) (pu_purchaseId found) s = Some purchase"
    and open': "pu_checkoutSessionId purchase = Some (pe_sessionId input)" "pu_state purchase = PurchasePending"
    and result: "if pe_kind input = EventPaid then \<not> pays_another_amount purchase input
        \<and> (\<exists>topUp s1. record_topUp_within now (pu_tenantId purchase) (pu_organizationId purchase) (pu_purchaseId purchase)
              (pu_credits purchase * 100000) (pe_eventId input) s = Inr (topUp, s1) \<and> is_money (pu_credits purchase * 100000)
            \<and> st = PurchasePaid \<and> s' = save_creditPurchase (purchase\<lparr>pu_state := PurchasePaid, pu_resolvedAt := Some now,
               pu_stripeEventId := Some (pe_eventId input)\<rparr>) s1)
      else st = resolved_state (pe_kind input)
        \<and> s' = save_creditPurchase (purchase\<lparr>pu_state := st, pu_resolvedAt := Some now,
               pu_stripeEventId := Some (pe_eventId input)\<rparr>) s" and i: "i = pu_purchaseId purchase"
    by (auto simp: resolve_creditPurchase_def result_simps Let_def is_money_def max_money_eq split: prod.splits)
  note key = tx_creditPurchase_key [OF purchase]
  show ?thesis
    using found purchase open' result key
    by (intro exI [of _ purchase]) (auto simp: i names_another_purchase_def Let_def)
qed

lemma resolve_creditPurchase_ignored:
  "resolve_creditPurchase now input s = Inr (ResolveIgnored reason i, s') \<Longrightarrow> s' = s"
  by (auto simp: resolve_creditPurchase_def result_simps Let_def split: prod.splits)

end
