(* ===== verification/Funding_Holds.thy ===== *)
theory Funding_Holds
  imports Funding_Purchases
begin

text \<open>
  Purchased-usage holds of \<open>FundingService\<close>: leases on the credits a business bought outright, the sweep
  that lets go of lapsed ones, and the reads of the bought balance.
\<close>

section \<open>Reads\<close>

definition bought_available :: "int \<Rightarrow> string \<Rightarrow> string \<Rightarrow> fstate \<Rightarrow> int outcome" where
  "bought_available now tenantId organizationId s =
     rbind (require_id (JStr tenantId)) (\<lambda>_. rbind (require_id (JStr organizationId)) (\<lambda>_.
     rbind (tx_topUpTotals tenantId organizationId now s) (\<lambda>totals.
     rmap (\<lambda>available. (available, s)) (top_up_available totals))))"

datatype bought_state = BoughtAvailable | BoughtSpent | BoughtNone

definition read_boughtState :: "int \<Rightarrow> string \<Rightarrow> string \<Rightarrow> fstate \<Rightarrow> bought_state outcome" where
  "read_boughtState now tenantId organizationId s =
     rbind (require_id (JStr tenantId)) (\<lambda>_. rbind (require_id (JStr organizationId)) (\<lambda>_.
     rbind (tx_topUpTotals tenantId organizationId now s) (\<lambda>totals.
     rbind (top_up_available totals) (\<lambda>available.
     Inr (if available > 0 then BoughtAvailable
          else if tt_purchasedMicroUsd totals > 0 then BoughtSpent else BoughtNone, s)))))"

definition read_balance :: "int \<Rightarrow> string \<Rightarrow> string \<Rightarrow> fstate \<Rightarrow> purchased_balance res" where
  "read_balance at tenantId organizationId s = rbind (tx_topUpTotals tenantId organizationId at s) balance_of"

definition read_purchasedBalance :: "int \<Rightarrow> string \<Rightarrow> string \<Rightarrow> fstate \<Rightarrow> purchased_balance outcome" where
  "read_purchasedBalance now tenantId organizationId s =
     rbind (require_id (JStr tenantId)) (\<lambda>_. rbind (require_id (JStr organizationId)) (\<lambda>_.
     let s = expire_topUpHolds tenantId organizationId now s in
     rmap (\<lambda>balance. (balance, s)) (read_balance now tenantId organizationId s)))"

section \<open>Holding and letting go\<close>

type_synonym hold_answer = "top_up_hold \<times> purchased_balance"

definition locked_hold :: "int \<Rightarrow> string \<Rightarrow> string \<Rightarrow> string \<Rightarrow> string \<Rightarrow> fstate \<Rightarrow> top_up_hold outcome" where
  "locked_hold at tenantId organizationId holdId personId s =
     (let s = expire_topUpHolds tenantId organizationId at s in
      case tx_topUpHold tenantId holdId s of
        None \<Rightarrow> Inl (FundingError 404 ''unknown_hold'')
      | Some hold \<Rightarrow> (if th_organizationId hold \<noteq> organizationId \<or> th_personId hold \<noteq> personId
          then Inl (FundingError 404 ''unknown_hold'') else Inr (hold, s)))"

text \<open>The answer every hold operation ends with: the hold and the balance read after it.\<close>

definition answer_hold :: "int \<Rightarrow> top_up_hold \<Rightarrow> fstate \<Rightarrow> hold_answer outcome" where
  "answer_hold at hold s =
     rmap (\<lambda>balance. ((hold, balance), s)) (read_balance at (th_tenantId hold) (th_organizationId hold) s)"

definition hold_purchased ::
  "int \<Rightarrow> string \<Rightarrow> string \<Rightarrow> string \<Rightarrow> string \<Rightarrow> int \<Rightarrow> string \<Rightarrow> fstate \<Rightarrow> hold_answer outcome" where
  "hold_purchased at tenantId organizationId holdId personId amount digest s =
     rbind (require_id (JStr tenantId)) (\<lambda>_. rbind (require_id (JStr organizationId)) (\<lambda>_.
     rbind (require_id (JStr holdId)) (\<lambda>_. rbind (require_id (JStr personId)) (\<lambda>_.
     rbind (require_money (JInt amount) True) (\<lambda>amount.
     if digest = '''' \<or> utf16_units digest > 200 then Inl (FundingError 422 ''invalid_request'')
     else if amount > max_money then Inl (FundingError 422 ''invalid_amount'')
     else (let s = expire_topUpHolds tenantId organizationId at s in
       rbind (tx_topUpTotals tenantId organizationId at s) (\<lambda>totals.
       case tx_topUpHold tenantId holdId s of
         Some existing \<Rightarrow>
           (if th_organizationId existing \<noteq> organizationId \<or> th_personId existing \<noteq> personId
               \<or> th_amountMicroUsd existing \<noteq> amount \<or> th_requestDigest existing \<noteq> digest
              then Inl (FundingError 409 ''hold_conflict'')
            else if th_state existing \<noteq> HoldHeld then Inl (FundingError 409 ''hold_closed'')
            else rmap (\<lambda>balance. ((existing, balance), s)) (balance_of totals))
       | None \<Rightarrow>
           rbind (top_up_available totals) (\<lambda>available.
           if available = 0 then Inl (FundingError 402 ''no_purchased_usage'')
           else if amount > available then Inl (FundingError 402 ''insufficient_purchased_usage'')
           else (let hold = \<lparr>th_tenantId = tenantId, th_organizationId = organizationId, th_holdId = holdId,
                   th_personId = personId, th_requestDigest = digest, th_amountMicroUsd = amount, th_debitMicroUsd = 0,
                   th_absorbedMicroUsd = 0, th_state = HoldHeld, th_createdAt = at, th_resolvedAt = None,
                   th_leaseUntil = lease_from at, th_releasedBy = None\<rparr> in
             rbind (sum_money [tt_heldMicroUsd totals, amount]) (\<lambda>held.
             rmap (\<lambda>balance. ((hold, balance), save_topUpHold hold s))
               (balance_of (totals\<lparr>tt_heldMicroUsd := held\<rparr>))))))))))))"

text \<open>Whether a settle comes after the hold let go on its own.\<close>

definition late_settle :: "int \<Rightarrow> top_up_hold \<Rightarrow> bool" where
  "late_settle at hold \<longleftrightarrow> th_state hold = HoldReleased \<or> th_leaseUntil hold \<le> at"

text \<open>The transaction's body, once the caller's hold is found.\<close>

definition settle_found :: "int \<Rightarrow> string \<Rightarrow> string \<Rightarrow> int \<Rightarrow> top_up_hold \<Rightarrow> fstate \<Rightarrow> hold_answer outcome" where
  "settle_found at tenantId organizationId debit hold s =
     (if th_state hold = HoldSettled then
       rbind (sum_money [th_debitMicroUsd hold, th_absorbedMicroUsd hold]) (\<lambda>asked.
       if asked \<noteq> debit then Inl (FundingError 409 ''settlement_conflict'') else answer_hold at hold s)
     else if th_state hold = HoldReleased \<and> th_releasedBy hold \<noteq> Some ByExpiry
       then Inl (FundingError 409 ''invalid_transition'')
     else if debit > th_amountMicroUsd hold then Inl (FundingError 409 ''settlement_exceeds_hold'')
     else
       rbind (if late_settle at hold then
                rbind (tx_topUpTotals tenantId organizationId at s) (\<lambda>totals.
                rbind (top_up_available totals) (\<lambda>available.
                micro (min (min debit (th_amountMicroUsd hold)) available)))
              else Inr debit) (\<lambda>recorded.
       rbind (subtract_money debit recorded) (\<lambda>absorbed.
       let settled = hold\<lparr>th_state := HoldSettled, th_debitMicroUsd := recorded, th_absorbedMicroUsd := absorbed,
             th_resolvedAt := Some at, th_releasedBy := None\<rparr>
       in answer_hold at settled (save_topUpHold settled s))))"

definition settle_purchased ::
  "int \<Rightarrow> string \<Rightarrow> string \<Rightarrow> string \<Rightarrow> string \<Rightarrow> int \<Rightarrow> fstate \<Rightarrow> hold_answer outcome" where
  "settle_purchased at tenantId organizationId holdId personId debit s =
     rbind (require_id (JStr tenantId)) (\<lambda>_. rbind (require_id (JStr organizationId)) (\<lambda>_.
     rbind (require_id (JStr holdId)) (\<lambda>_. rbind (require_id (JStr personId)) (\<lambda>_.
     rbind (require_money (JInt debit) False) (\<lambda>debit.
     rbind (locked_hold at tenantId organizationId holdId personId s) (\<lambda>(hold, s).
       settle_found at tenantId organizationId debit hold s))))))"

definition release_purchased ::
  "int \<Rightarrow> string \<Rightarrow> string \<Rightarrow> string \<Rightarrow> string \<Rightarrow> fstate \<Rightarrow> hold_answer outcome" where
  "release_purchased at tenantId organizationId holdId personId s =
     rbind (require_id (JStr tenantId)) (\<lambda>_. rbind (require_id (JStr organizationId)) (\<lambda>_.
     rbind (require_id (JStr holdId)) (\<lambda>_. rbind (require_id (JStr personId)) (\<lambda>_.
     rbind (locked_hold at tenantId organizationId holdId personId s) (\<lambda>(hold, s).
     if th_state hold = HoldSettled then Inl (FundingError 409 ''invalid_transition'')
     else if th_state hold = HoldHeld then
       (let released = hold\<lparr>th_state := HoldReleased, th_resolvedAt := Some at, th_releasedBy := Some ByPerson\<rparr>
        in answer_hold at released (save_topUpHold released s))
     else answer_hold at hold s)))))"

definition renew_purchased ::
  "int \<Rightarrow> string \<Rightarrow> string \<Rightarrow> string \<Rightarrow> string \<Rightarrow> fstate \<Rightarrow> hold_answer outcome" where
  "renew_purchased at tenantId organizationId holdId personId s =
     rbind (require_id (JStr tenantId)) (\<lambda>_. rbind (require_id (JStr organizationId)) (\<lambda>_.
     rbind (require_id (JStr holdId)) (\<lambda>_. rbind (require_id (JStr personId)) (\<lambda>_.
     rbind (locked_hold at tenantId organizationId holdId personId s) (\<lambda>(hold, s).
     if th_state hold = HoldSettled then Inl (FundingError 409 ''hold_not_held'')
     else if th_state hold = HoldReleased then Inl (FundingError 409 ''hold_not_held'')
     else if th_leaseUntil hold \<le> at then Inl (FundingError 409 ''hold_not_held'')
     else (let renewed = hold\<lparr>th_leaseUntil := lease_from at\<rparr>
           in answer_hold at renewed (save_topUpHold renewed s)))))))"

section \<open>What the operations do\<close>

lemma tx_topUpHold_key: "tx_topUpHold t i s = Some hold \<Longrightarrow> th_tenantId hold = t \<and> th_holdId hold = i"
  by (auto simp: tx_topUpHold_def dest: find_Some_in_set)

lemma locked_hold_Inr [result_simps]:
  "locked_hold at t o' i person s = Inr (hold, s1) \<longleftrightarrow>
     s1 = expire_topUpHolds t o' at s \<and> tx_topUpHold t i s1 = Some hold
     \<and> th_organizationId hold = o' \<and> th_personId hold = person"
  by (auto simp: locked_hold_def Let_def result_simps)

lemma answer_hold_Inr [result_simps]:
  "answer_hold at hold s = Inr ((h, balance), s') \<longleftrightarrow>
     h = hold \<and> s' = s \<and> read_balance at (th_tenantId hold) (th_organizationId hold) s = Inr balance"
  by (auto simp: answer_hold_def result_simps)

lemma hold_purchased_Inr:
  assumes "hold_purchased at t o' i person amount digest s = Inr ((hold, balance), s')"
  shows "th_tenantId hold = t" "th_organizationId hold = o'" "th_holdId hold = i" "th_personId hold = person"
    "th_amountMicroUsd hold = amount" "th_state hold = HoldHeld" "0 < amount" "is_money amount"
    "s' = expire_topUpHolds t o' at s \<and> tx_topUpHold t i s' = Some hold
     \<or> tx_topUpHold t i (expire_topUpHolds t o' at s) = None \<and> s' = save_topUpHold hold (expire_topUpHolds t o' at s)
       \<and> th_leaseUntil hold = lease_from at \<and> th_debitMicroUsd hold = 0 \<and> th_absorbedMicroUsd hold = 0
       \<and> (\<exists>totals. tx_topUpTotals t o' at (expire_topUpHolds t o' at s) = Inr totals
            \<and> amount \<le> tt_purchasedMicroUsd totals - tt_heldMicroUsd totals - tt_settledMicroUsd totals)"
  using assms
  by (auto simp: hold_purchased_def result_simps Let_def is_money_def dest!: top_up_available_Inr
      dest: tx_topUpHold_key)

text \<open>A settle finds the hold settled already, or settles it for the debit asked less what is absorbed.\<close>

definition settles_hold :: "int \<Rightarrow> int \<Rightarrow> int \<Rightarrow> top_up_hold \<Rightarrow> top_up_hold \<Rightarrow> bool" where
  "settles_hold at debit recorded held hold \<longleftrightarrow>
     th_state held \<noteq> HoldSettled \<and> (th_state held = HoldReleased \<longrightarrow> th_releasedBy held = Some ByExpiry)
     \<and> debit \<le> th_amountMicroUsd held \<and> 0 \<le> recorded \<and> recorded \<le> debit
     \<and> hold = held\<lparr>th_state := HoldSettled, th_debitMicroUsd := recorded, th_absorbedMicroUsd := debit - recorded,
         th_resolvedAt := Some at, th_releasedBy := None\<rparr>"

lemma settle_found_Inr:
  assumes "settle_found at t o' debit held s = Inr ((hold, balance), s')" and "is_money debit"
    and key: "th_tenantId held = t" "th_organizationId held = o'"
  obtains (replay) "s' = s" "hold = held" "th_state held = HoldSettled"
      "th_debitMicroUsd hold + th_absorbedMicroUsd hold = debit" "read_balance at t o' s' = Inr balance"
    | (live) "settles_hold at debit debit held hold" "\<not> late_settle at held" "s' = save_topUpHold hold s"
      "read_balance at t o' s' = Inr balance"
    | (late) totals recorded where "settles_hold at debit recorded held hold" "late_settle at held"
      "tx_topUpTotals t o' at s = Inr totals"
      "recorded = min debit (max 0 (tt_purchasedMicroUsd totals - tt_heldMicroUsd totals - tt_settledMicroUsd totals))"
      "s' = save_topUpHold hold s" "read_balance at t o' s' = Inr balance"
proof (cases "th_state held = HoldSettled")
  case True
  with assms(1) key show thesis
    by (intro replay) (auto simp: settle_found_def result_simps)
next
  case False
  with assms(1) have held: "th_state held = HoldReleased \<longrightarrow> th_releasedBy held = Some ByExpiry" "debit \<le> th_amountMicroUsd held"
    by (auto simp: settle_found_def split: if_splits)
  let ?settled = "\<lambda>recorded absorbed. held\<lparr>th_state := HoldSettled, th_debitMicroUsd := recorded, th_absorbedMicroUsd := absorbed,
           th_resolvedAt := Some at, th_releasedBy := None\<rparr>"
  from assms(1) False held obtain recorded where
    recorded: "(if late_settle at held then rbind (tx_topUpTotals t o' at s) (\<lambda>totals. rbind (top_up_available totals) (\<lambda>available.
        micro (min (min debit (th_amountMicroUsd held)) available))) else Inr debit) = Inr recorded"
    and rest: "rbind (subtract_money debit recorded) (\<lambda>absorbed. answer_hold at (?settled recorded absorbed)
        (save_topUpHold (?settled recorded absorbed) s)) = Inr ((hold, balance), s')"
    unfolding settle_found_def by (auto simp: rbind_Inr_iff Let_def)
  have hold: "hold = ?settled recorded (debit - recorded)" "s' = save_topUpHold hold s" "recorded \<le> debit"
    "read_balance at (th_tenantId hold) (th_organizationId hold) s' = Inr balance"
    using rest by (auto simp: rbind_Inr_iff answer_hold_Inr subtract_money_Inr_iff)
  have read: "read_balance at t o' s' = Inr balance" using hold key by simp
  show thesis
  proof (cases "late_settle at held")
    case True
    with recorded held(2) obtain totals available where totals: "tx_topUpTotals t o' at s = Inr totals"
      "top_up_available totals = Inr available" "is_money (min debit available)" "recorded = min debit available"
      by (auto simp: rbind_Inr_iff micro_Inr_iff)
    have "settles_hold at debit recorded held hold"
      using held False hold(1,3) totals(3,4) by (simp add: settles_hold_def is_money_def)
    with True totals(1,4) hold(2) read top_up_available_Inr [OF totals(2)] show thesis by (intro late) simp_all
  next
    case late: False
    with recorded have "recorded = debit" by simp
    with held False hold(1,3) assms(2) have "settles_hold at debit debit held hold" by (simp add: settles_hold_def is_money_def)
    with late hold(2) read show thesis by (intro live)
  qed
qed

lemma settle_purchased_Inr:
  assumes "settle_purchased at t o' i person debit s = Inr ((hold, balance), s')"
  obtains held where "tx_topUpHold t i (expire_topUpHolds t o' at s) = Some held" "th_organizationId held = o'"
    "th_personId held = person" "is_money debit"
    "settle_found at t o' debit held (expire_topUpHolds t o' at s) = Inr ((hold, balance), s')"
  using assms by (auto simp: settle_purchased_def rbind_Inr_iff locked_hold_Inr require_id_Inr require_money_Inr)

lemma release_purchased_Inr:
  assumes "release_purchased at t o' i person s = Inr ((hold, balance), s')"
  obtains held where "tx_topUpHold t i (expire_topUpHolds t o' at s) = Some held" "th_organizationId held = o'"
    "th_personId held = person" "read_balance at t o' s' = Inr balance"
    "th_state held = HoldReleased \<and> hold = held \<and> s' = expire_topUpHolds t o' at s
     \<or> th_state held = HoldHeld \<and> hold = held\<lparr>th_state := HoldReleased, th_resolvedAt := Some at, th_releasedBy := Some ByPerson\<rparr>
       \<and> s' = save_topUpHold hold (expire_topUpHolds t o' at s)"
proof -
  from assms obtain held where held: "tx_topUpHold t i (expire_topUpHolds t o' at s) = Some held" "th_organizationId held = o'"
    "th_personId held = person" and body: "th_state held \<noteq> HoldSettled"
    "(if th_state held = HoldHeld then
       (let released = held\<lparr>th_state := HoldReleased, th_resolvedAt := Some at, th_releasedBy := Some ByPerson\<rparr>
        in answer_hold at released (save_topUpHold released (expire_topUpHolds t o' at s)))
     else answer_hold at held (expire_topUpHolds t o' at s)) = Inr ((hold, balance), s')"
    by (auto simp: release_purchased_def rbind_Inr_iff locked_hold_Inr require_id_Inr split: if_splits)
  then show thesis
    using that [OF held] tx_topUpHold_key [OF held(1)] hold_state.exhaust [of "th_state held"]
    by (auto simp: Let_def answer_hold_Inr split: if_splits)
qed

lemma renew_purchased_Inr:
  assumes "renew_purchased at t o' i person s = Inr ((hold, balance), s')"
  obtains held where "tx_topUpHold t i (expire_topUpHolds t o' at s) = Some held" "th_organizationId held = o'"
    "th_personId held = person" "read_balance at t o' s' = Inr balance" "th_state held = HoldHeld"
    "at < th_leaseUntil held" "hold = held\<lparr>th_leaseUntil := lease_from at\<rparr>"
    "s' = save_topUpHold hold (expire_topUpHolds t o' at s)"
proof -
  from assms obtain held where held: "tx_topUpHold t i (expire_topUpHolds t o' at s) = Some held" "th_organizationId held = o'"
    "th_personId held = person" and state: "th_state held \<noteq> HoldSettled" "th_state held \<noteq> HoldReleased"
    and lease: "at < th_leaseUntil held"
    and body: "answer_hold at (held\<lparr>th_leaseUntil := lease_from at\<rparr>)
       (save_topUpHold (held\<lparr>th_leaseUntil := lease_from at\<rparr>) (expire_topUpHolds t o' at s)) = Inr ((hold, balance), s')"
    by (auto simp: renew_purchased_def rbind_Inr_iff locked_hold_Inr require_id_Inr Let_def not_le split: if_splits)
  have "th_state held = HoldHeld" using state by (cases "th_state held") simp_all
  with held lease body show thesis
    using that [OF held] tx_topUpHold_key [OF held(1)] by (auto simp: answer_hold_Inr)
qed

end
