(* ===== verification/Funding_Jobs.thy ===== *)
theory Funding_Jobs
  imports Funding_Holds
begin

text \<open>
  Root jobs of \<open>FundingService\<close>: opening a job under its tier's check-in amount, attaching a child run,
  keeping a job going by one more amount, and asking for and deciding a higher cap.
\<close>

section \<open>Opening and keeping going\<close>

record open_job_input =
  oj_tenantId :: string
  oj_organizationId :: string
  oj_rootJobId :: string
  oj_runRef :: string
  oj_parentRunRef :: "string option"
  oj_tier :: "job_tier option"
  oj_capMicroUsd :: "int option"
  oj_checkInMicroUsd :: "int option"

type_synonym open_job_answer = "funded_job \<times> bool"

definition attach_child :: "open_job_input \<Rightarrow> string \<Rightarrow> fstate \<Rightarrow> open_job_answer outcome" where
  "attach_child input parentRunRef s =
     (let tenantId = oj_tenantId input; existingRef = tx_jobRef tenantId (oj_runRef input) s in
      rbind (require_id (JStr parentRunRef)) (\<lambda>_.
      case (case tx_jobRef tenantId parentRunRef s of None \<Rightarrow> None
            | Some parentRef \<Rightarrow> tx_job tenantId (jf_rootJobId parentRef) s) of
        None \<Rightarrow> Inl (FundingError 404 ''unknown_parent'')
      | Some root \<Rightarrow>
          if fj_organizationId root \<noteq> oj_organizationId input then Inl (FundingError 404 ''unknown_parent'')
          else if oj_capMicroUsd input \<noteq> None \<or> oj_tier input \<noteq> None
            then Inl (FundingError 409 ''child_cannot_set_cap'')
          else (case existingRef of
              Some ref \<Rightarrow> (if jf_rootJobId ref \<noteq> fj_rootJobId root then Inl (FundingError 409 ''job_conflict'')
                else Inr ((root, True), s))
            | None \<Rightarrow> Inr ((root, True),
                save_jobRef \<lparr>jf_tenantId = tenantId, jf_runRef = oj_runRef input, jf_rootJobId = fj_rootJobId root\<rparr> s))))"

definition open_root :: "int \<Rightarrow> open_job_input \<Rightarrow> fstate \<Rightarrow> open_job_answer outcome" where
  "open_root now input s =
     (let tenantId = oj_tenantId input; organizationId = oj_organizationId input; rootJobId = oj_rootJobId input;
          runRef = oj_runRef input; existingRef = tx_jobRef tenantId runRef s in
      case oj_tier input of None \<Rightarrow> Inl (FundingError 422 ''invalid_tier'')
      | Some tier \<Rightarrow>
      rbind (case oj_checkInMicroUsd input of None \<Rightarrow> default_check_in tier | Some n \<Rightarrow> require_money (JInt n) True) (\<lambda>tierCap.
      rbind (case oj_capMicroUsd input of None \<Rightarrow> Inr tierCap | Some n \<Rightarrow> require_money (JInt n) True) (\<lambda>cap.
      case tx_job tenantId rootJobId s of
        Some existing \<Rightarrow>
          (if fj_organizationId existing \<noteq> organizationId \<or> fj_runRef existing \<noteq> runRef
             then Inl (FundingError 409 ''job_conflict'') else Inr ((existing, False), s))
      | None \<Rightarrow>
          if existingRef \<noteq> None then Inl (FundingError 409 ''job_conflict'')
          else if cap > tierCap then Inl (FundingError 409 ''cap_request_required'')
          else (let row = \<lparr>fj_tenantId = tenantId, fj_organizationId = organizationId, fj_rootJobId = rootJobId,
                  fj_runRef = runRef, fj_capMicroUsd = cap, fj_capGeneration = 0, fj_state = JobOpen, fj_openedAt = now,
                  fj_tier = Some tier\<rparr>
             in Inr ((row, False), save_jobRef \<lparr>jf_tenantId = tenantId, jf_runRef = runRef, jf_rootJobId = rootJobId\<rparr>
                  (save_job row s))))))"

definition open_job :: "int \<Rightarrow> open_job_input \<Rightarrow> fstate \<Rightarrow> open_job_answer outcome" where
  "open_job now input s =
     rbind (require_id (JStr (oj_tenantId input))) (\<lambda>_. rbind (require_id (JStr (oj_organizationId input))) (\<lambda>_.
     rbind (require_id (JStr (oj_runRef input))) (\<lambda>_. rbind (require_id (JStr (oj_rootJobId input))) (\<lambda>_.
     case oj_parentRunRef input of
       Some parentRunRef \<Rightarrow> attach_child input parentRunRef s
     | None \<Rightarrow> open_root now input s))))"

text \<open>The job a business may act on.\<close>

definition own_job :: "string \<Rightarrow> string \<Rightarrow> string \<Rightarrow> fstate \<Rightarrow> funded_job res" where
  "own_job tenantId organizationId rootJobId s =
     (case tx_job tenantId rootJobId s of None \<Rightarrow> Inl (FundingError 404 ''unknown_job'')
      | Some job \<Rightarrow> if fj_organizationId job \<noteq> organizationId then Inl (FundingError 404 ''unknown_job'') else Inr job)"

record keep_going_answer =
  kg_job :: funded_job
  kg_addedMicroUsd :: int
  kg_raised :: bool

definition keep_going ::
  "string \<Rightarrow> string \<Rightarrow> string \<Rightarrow> int \<Rightarrow> (job_tier \<Rightarrow> int) \<Rightarrow> fstate \<Rightarrow> keep_going_answer outcome" where
  "keep_going tenantId organizationId rootJobId atCapMicroUsd amounts s =
     rbind (require_id (JStr tenantId)) (\<lambda>_. rbind (require_id (JStr organizationId)) (\<lambda>_.
     rbind (require_id (JStr rootJobId)) (\<lambda>_. rbind (require_money (JInt atCapMicroUsd) True) (\<lambda>atCap.
     rbind (own_job tenantId organizationId rootJobId s) (\<lambda>job.
     if fj_state job \<noteq> JobOpen then Inl (FundingError 409 ''job_closed'')
     else case fj_tier job of None \<Rightarrow> Inl (FundingError 409 ''job_tier_unknown'')
     | Some tier \<Rightarrow>
     rbind (require_money (JInt (amounts tier)) True) (\<lambda>added.
     rbind (sum_money [atCap, added]) (\<lambda>next.
     if fj_capMicroUsd job = next \<and> fj_capGeneration job > 0
       then Inr (\<lparr>kg_job = job, kg_addedMicroUsd = added, kg_raised = False\<rparr>, s)
     else if fj_capMicroUsd job \<noteq> atCap then Inl (FundingError 409 ''check_in_stale'')
     else (let raised = job\<lparr>fj_capMicroUsd := next, fj_capGeneration := fj_capGeneration job + 1\<rparr>
        in Inr (\<lparr>kg_job = raised, kg_addedMicroUsd = added, kg_raised = True\<rparr>, save_job raised s)))))))))"

section \<open>A higher cap\<close>

definition request_capIncrease ::
  "int \<Rightarrow> string \<Rightarrow> string \<Rightarrow> string \<Rightarrow> string \<Rightarrow> int \<Rightarrow> string \<Rightarrow> fstate \<Rightarrow> cap_request outcome" where
  "request_capIncrease now tenantId organizationId rootJobId requestId requestedCap requestedBy s =
     rbind (require_id (JStr tenantId)) (\<lambda>_. rbind (require_id (JStr organizationId)) (\<lambda>_.
     rbind (require_id (JStr requestId)) (\<lambda>_. rbind (require_id (JStr requestedBy)) (\<lambda>_.
     rbind (require_money (JInt requestedCap) True) (\<lambda>requested.
     case tx_capRequest tenantId requestId s of
       Some existing \<Rightarrow>
         (if cr_rootJobId existing \<noteq> rootJobId \<or> cr_requestedCapMicroUsd existing \<noteq> requested
             \<or> cr_organizationId existing \<noteq> organizationId
            then Inl (FundingError 409 ''cap_request_conflict'') else Inr (existing, s))
     | None \<Rightarrow>
         rbind (own_job tenantId organizationId rootJobId s) (\<lambda>job.
         if requested \<le> fj_capMicroUsd job then Inl (FundingError 422 ''invalid_amount'')
         else (let row = \<lparr>cr_tenantId = tenantId, cr_organizationId = organizationId, cr_requestId = requestId,
                 cr_rootJobId = fj_rootJobId job, cr_requestedCapMicroUsd = requested, cr_requestedBy = requestedBy,
                 cr_state = CapPending, cr_requestedAt = now, cr_decidedBy = None, cr_decidedAt = None\<rparr>
           in Inr (row, save_capRequest row s))))))))"

text \<open>The parts of a freshly read membership that the decision reads.\<close>

record membership_snapshot =
  ms_validUntil :: int
  ms_organizationTenantId :: string
  ms_organizationId :: string
  ms_membershipOrganizationId :: string
  ms_membershipActive :: bool
  ms_membershipRole :: member_role
  ms_personId :: string

definition can_administer_members :: "membership_snapshot \<Rightarrow> bool" where
  "can_administer_members m \<longleftrightarrow> ms_membershipActive m \<and> ms_membershipRole m = Owner"

definition decide_capIncrease :: "int \<Rightarrow> membership_snapshot \<Rightarrow> string \<Rightarrow> bool \<Rightarrow> fstate \<Rightarrow> cap_request outcome" where
  "decide_capIncrease now membership requestId approve s =
     (if ms_validUntil membership \<le> now then Inl (FundingError 401 ''stale_membership'')
      else if \<not> can_administer_members membership \<or> ms_membershipOrganizationId membership \<noteq> ms_organizationId membership
        then Inl (FundingError 403 ''not_authorized'')
      else
        (let tenantId = ms_organizationTenantId membership; organizationId = ms_organizationId membership in
         rbind (require_id (JStr requestId)) (\<lambda>_.
         case tx_capRequest tenantId requestId s of
           None \<Rightarrow> Inl (FundingError 404 ''unknown_cap_request'')
         | Some request \<Rightarrow>
         if cr_organizationId request \<noteq> organizationId then Inl (FundingError 404 ''unknown_cap_request'')
         else if cr_state request \<noteq> CapPending then Inr (request, s)
         else (let decided = request\<lparr>cr_state := (if approve then CapApproved else CapDeclined),
                 cr_decidedBy := Some (ms_personId membership), cr_decidedAt := Some now\<rparr> in
           if approve then
             (case tx_job tenantId (cr_rootJobId request) s of
                None \<Rightarrow> Inl (FundingError 404 ''unknown_job'')
              | Some job \<Rightarrow> Inr (decided, save_capRequest decided
                  (save_job (job\<lparr>fj_capMicroUsd := cr_requestedCapMicroUsd request,
                     fj_capGeneration := fj_capGeneration job + 1\<rparr>) s)))
           else Inr (decided, save_capRequest decided s)))))"

section \<open>What the operations do\<close>

lemma tx_job_key: "tx_job t i s = Some job \<Longrightarrow> fj_tenantId job = t \<and> fj_rootJobId job = i"
  by (auto simp: tx_job_def dest: find_Some_in_set)

lemma tx_capRequest_key: "tx_capRequest t i s = Some row \<Longrightarrow> cr_tenantId row = t \<and> cr_requestId row = i"
  by (auto simp: tx_capRequest_def dest: find_Some_in_set)

lemma own_job_Inr [result_simps]:
  "own_job t o' i s = Inr job \<longleftrightarrow> tx_job t i s = Some job \<and> fj_organizationId job = o'"
  by (auto simp: own_job_def result_simps)

lemma case_option_Some_iff [result_simps]:
  "(case x of None \<Rightarrow> None | Some y \<Rightarrow> f y) = Some z \<longleftrightarrow> (\<exists>y. x = Some y \<and> f y = Some z)"
  by (cases x) simp_all

lemma job_check_in_credits_bounds [simp]:
  "0 < job_check_in_credits tier" "0 \<le> job_check_in_credits tier" "job_check_in_credits tier * 100000 \<le> max_money"
  by (cases tier; simp add: max_money_eq)+

lemma attach_child_Inr:
  assumes "attach_child input parent s = Inr ((root, inherited), s')"
  shows "inherited" "fj_organizationId root = oj_organizationId input" "oj_capMicroUsd input = None"
    "\<exists>ref. tx_jobRef (oj_tenantId input) parent s = Some ref \<and> tx_job (oj_tenantId input) (jf_rootJobId ref) s = Some root"
    "s' = s \<or> (\<exists>ref. s' = save_jobRef ref s)"
  using assms by (auto simp: attach_child_def Let_def result_simps)

lemma open_root_Inr:
  assumes "open_root now input s = Inr ((job, inherited), s')"
  shows "\<not> inherited" "fj_organizationId job = oj_organizationId input" "fj_rootJobId job = oj_rootJobId input"
    "fj_tenantId job = oj_tenantId input"
    "s' = s \<and> tx_job (oj_tenantId input) (oj_rootJobId input) s = Some job
     \<or> tx_job (oj_tenantId input) (oj_rootJobId input) s = None
       \<and> (\<exists>tier tierCap ref. oj_tier input = Some tier
           \<and> (case oj_checkInMicroUsd input of None \<Rightarrow> tierCap = job_check_in_credits tier * 100000 | Some n \<Rightarrow> tierCap = n)
           \<and> 0 < fj_capMicroUsd job \<and> fj_capMicroUsd job \<le> tierCap \<and> is_money (fj_capMicroUsd job)
           \<and> fj_capGeneration job = 0 \<and> fj_state job = JobOpen \<and> fj_tier job = Some tier
           \<and> s' = save_jobRef ref (save_job job s))"
  using assms
  by (auto simp: open_root_def Let_def result_simps default_check_in_Inr is_money_def dest: tx_job_key)

lemma keep_going_Inr:
  assumes "keep_going t o' i atCap amounts s = Inr (answer, s')"
  shows "\<exists>job tier. tx_job t i s = Some job \<and> fj_organizationId job = o' \<and> fj_state job = JobOpen \<and> fj_tier job = Some tier
    \<and> kg_addedMicroUsd answer = amounts tier \<and> 0 < amounts tier \<and> is_money (atCap + amounts tier)
    \<and> fj_capMicroUsd (kg_job answer) = atCap + amounts tier
    \<and> (if kg_raised answer then fj_capMicroUsd job = atCap
         \<and> kg_job answer = job\<lparr>fj_capMicroUsd := atCap + amounts tier, fj_capGeneration := fj_capGeneration job + 1\<rparr>
         \<and> s' = save_job (kg_job answer) s
       else kg_job answer = job \<and> s' = s \<and> 0 < fj_capGeneration job)"
  using assms by (auto simp: keep_going_def result_simps Let_def is_money_def)

text \<open>A second press at the same cap adds nothing.\<close>

lemma keep_going_again:
  assumes "keep_going t o' i atCap amounts s = Inr (answer, s')" and "kg_raised answer"
    and "\<And>job. tx_job t i s = Some job \<Longrightarrow> 0 \<le> fj_capGeneration job"
  shows "keep_going t o' i atCap amounts s' = Inr (answer\<lparr>kg_raised := False\<rparr>, s')"
proof -
  from keep_going_Inr [OF assms(1)] assms(2) obtain job tier where
    job: "tx_job t i s = Some job" "fj_organizationId job = o'" "fj_state job = JobOpen" "fj_tier job = Some tier"
    and answer: "kg_job answer = job\<lparr>fj_capMicroUsd := atCap + amounts tier, fj_capGeneration := fj_capGeneration job + 1\<rparr>"
      "kg_addedMicroUsd answer = amounts tier" "kg_raised answer"
    and s': "s' = save_job (kg_job answer) s"
    by auto
  have "tx_job t i s' = Some (kg_job answer)"
    using tx_job_key [OF job(1)] by (simp add: s' answer tx_job_save)
  moreover have "answer\<lparr>kg_raised := False\<rparr> = \<lparr>kg_job = kg_job answer, kg_addedMicroUsd = amounts tier, kg_raised = False\<rparr>"
    using answer(2) by simp
  ultimately show ?thesis
    using assms(1) job answer assms(3) [OF job(1)]
    by (auto simp: keep_going_def result_simps)
qed

lemma request_capIncrease_Inr:
  assumes "request_capIncrease now t o' job requestId cap by' s = Inr (row, s')"
  shows "s' = s \<and> tx_capRequest t requestId s = Some row
    \<or> tx_capRequest t requestId s = None \<and> s' = save_capRequest row s \<and> cr_state row = CapPending"
  using assms by (auto simp: request_capIncrease_def result_simps Let_def)

lemma decide_capIncrease_Inr:
  assumes "decide_capIncrease now m requestId approve s = Inr (row, s')"
  defines "t \<equiv> ms_organizationTenantId m"
  obtains (replay) "tx_capRequest t requestId s = Some row" "cr_state row \<noteq> CapPending" "s' = s"
      "cr_organizationId row = ms_organizationId m"
    | (decline) request where "tx_capRequest t requestId s = Some request" "cr_state request = CapPending" "\<not> approve"
      "cr_organizationId request = ms_organizationId m"
      "row = request\<lparr>cr_state := CapDeclined, cr_decidedBy := Some (ms_personId m), cr_decidedAt := Some now\<rparr>"
      "s' = save_capRequest row s"
    | (approve) request job where "tx_capRequest t requestId s = Some request" "cr_state request = CapPending" "approve"
      "cr_organizationId request = ms_organizationId m"
      "row = request\<lparr>cr_state := CapApproved, cr_decidedBy := Some (ms_personId m), cr_decidedAt := Some now\<rparr>"
      "tx_job t (cr_rootJobId request) s = Some job"
      "s' = save_capRequest row (save_job (job\<lparr>fj_capMicroUsd := cr_requestedCapMicroUsd request,
         fj_capGeneration := fj_capGeneration job + 1\<rparr>) s)"
proof -
  from assms obtain request where request: "tx_capRequest t requestId s = Some request"
    "cr_organizationId request = ms_organizationId m"
    by (auto simp: decide_capIncrease_def result_simps Let_def)
  note body = assms(1) [unfolded decide_capIncrease_def Let_def, folded t_def]
  show thesis
  proof (cases "cr_state request = CapPending")
    case False
    then show thesis using body request by (intro replay) (auto simp: rbind_Inr_iff split: if_splits)
  next
    case pending: True
    show thesis
    proof (cases approve)
      case True
      with body request pending obtain job where "tx_job t (cr_rootJobId request) s = Some job"
        by (auto simp: rbind_Inr_iff case_option_Inr_iff split: if_splits)
      with True pending body request show thesis
        by (intro approve) (auto simp: rbind_Inr_iff split: if_splits)
    next
      case False
      with pending body request show thesis
        by (intro decline) (auto simp: rbind_Inr_iff split: if_splits)
    qed
  qed
qed

text \<open>Only a current, active owner of the organization decides.\<close>

lemma decide_capIncrease_authorized:
  assumes "decide_capIncrease now m requestId approve s = Inr (row, s')"
  shows "now < ms_validUntil m" "ms_membershipActive m" "ms_membershipRole m = Owner"
    "ms_membershipOrganizationId m = ms_organizationId m"
  using assms by (auto simp: decide_capIncrease_def can_administer_members_def split: if_splits)

end
