(* ===== verification/Funding_Reserve.thy ===== *)
theory Funding_Reserve
  imports Funding_Jobs
begin

text \<open>
  \<open>FundingService.reserve\<close>: one hold against the root job, the month and the bought credits, with the
  member's monthly limit and the company ceiling checked in the same transaction.
\<close>

record reserve_input =
  ri_tenantId :: string
  ri_organizationId :: string
  ri_attemptId :: string
  ri_rootJobId :: string
  ri_parentAttemptId :: "string option"
  ri_kind :: charge_kind
  ri_route :: string
  ri_requestDigest :: string
  ri_rateSnapshot :: rate_snapshot
  ri_maxMicroUsd :: int
  ri_usageClass :: usage_class
  ri_companyCeilingMicroUsd :: "int option"
  ri_chargeSnapshot :: "charge_snapshot option"
  ri_member :: "(string \<times> member_role) option"
  ri_individualCycle :: "jval option"
  ri_boughtOnly :: bool

section \<open>The period a reservation binds to\<close>

definition bought_credits_row :: "int \<Rightarrow> string \<Rightarrow> string \<Rightarrow> fstate \<Rightarrow> credit_period outcome" where
  "bought_credits_row at tenantId organizationId s =
     (case tx_period tenantId organizationId bought_credits_period s of
        Some existing \<Rightarrow> Inr (existing, s)
      | None \<Rightarrow> record_period \<lparr>cp_tenantId = tenantId, cp_organizationId = organizationId,
          cp_periodId = bought_credits_period, cp_planId = bought_credits_plan,
          cp_rateCardVersion = rc_version rate_card_v1, cp_grantedMicroUsd = 0, cp_startsAt = at,
          cp_endsAt = bought_credits_ends_at, cp_sourceGrantId = '''', cp_allocatedAt = at\<rparr> s)"

definition reserve_period ::
  "int \<Rightarrow> string \<Rightarrow> string \<Rightarrow> billing_cycle option \<Rightarrow> bool \<Rightarrow> fstate \<Rightarrow> credit_period outcome" where
  "reserve_period at tenantId organizationId cycle boughtOnly s =
     (if (case cycle of None \<Rightarrow> False | Some c \<Rightarrow> \<not> cycle_contains c at) then Inl (FundingError 409 ''period_ended'')
      else rbind (case cycle of Some c \<Rightarrow> individual_cycle_id (ic_startsAt c) | None \<Rightarrow> period_id_for at) (\<lambda>periodId.
      rbind (case tx_period tenantId organizationId periodId s of
           Some period \<Rightarrow> Inr (period, s)
         | None \<Rightarrow> (if boughtOnly then bought_credits_row at tenantId organizationId s
             else Inl (FundingError 409 ''no_period''))) (\<lambda>(period, s).
      if (case cycle of None \<Rightarrow> False | Some c \<Rightarrow> cp_planId period \<noteq> ''individual''
            \<or> cp_startsAt period \<noteq> ic_startsAt c \<or> cp_endsAt period \<noteq> ic_endsAt c)
        then Inl (FundingError 409 ''period_conflict'')
      else if cycle = None \<and> (cp_planId period = ''individual'' \<or> cp_planId period = ''individual-agreement'')
          \<and> list_ex (\<lambda>row. is_individual_cycle_id (cp_periodId row) \<and> period_contains row at)
              (tx_periods tenantId organizationId s)
        then Inl (FundingError 409 ''period_superseded'')
      else Inr (period, s))))"

section \<open>A member's monthly limit\<close>

definition setting_of :: "member_limit \<Rightarrow> limit_setting" where
  "setting_of row = limit_setting.truncate row"

definition enforce_memberLimit ::
  "int \<Rightarrow> string \<Rightarrow> string \<Rightarrow> string \<Rightarrow> credit_period \<Rightarrow> string \<times> member_role \<Rightarrow> int \<Rightarrow> int \<Rightarrow> fstate \<Rightarrow> unit res" where
  "enforce_memberLimit at tenantId organizationId rootJobId period member ceiling purchased s =
     (let (personId, role) = member in
      rbind (effective_limit_for role personId (map setting_of (member_limits tenantId organizationId s))
               (cp_planId period) (cp_grantedMicroUsd period)) (\<lambda>limit.
      if el_limitMicroUsd limit = None then Inr ()
      else
        rbind (tx_memberUsage tenantId organizationId period (Some personId) at s) (\<lambda>rows.
        (let usage = (case rows of [] \<Rightarrow> None | row # _ \<Rightarrow> Some row);
             approved = approved_allowances tenantId organizationId personId (cp_periodId period) rootJobId s in
         rbind (sum_money (map (\<lambda>row. nullish (lr_extraMicroUsd row) 0) approved)) (\<lambda>extra.
         rbind (micro (case usage of None \<Rightarrow> 0 | Some u \<Rightarrow> mu_includedMicroUsd u + mu_purchasedMicroUsd u)) (\<lambda>used.
         rbind (decide_member_use (el_limitMicroUsd limit) used ceiling purchased
                  \<lparr>al_extraMicroUsd = extra, al_allowPurchased = list_ex lr_allowPurchased approved\<rparr>) (\<lambda>decided.
         if decided \<noteq> MemberUseOk then Inl (FundingError 402 ''member_limit_reached'') else Inr ())))))))"

section \<open>Reserving\<close>

text \<open>Whether a recorded attempt is the one this input asks for again.\<close>

definition same_attempt :: "reserve_input \<Rightarrow> funded_attempt \<Rightarrow> bool" where
  "same_attempt input existing \<longleftrightarrow>
     fa_organizationId existing = ri_organizationId input \<and> fa_rootJobId existing = ri_rootJobId input
     \<and> fa_parentAttemptId existing = ri_parentAttemptId input \<and> fa_kind existing = ri_kind input
     \<and> fa_route existing = ri_route input \<and> fa_requestDigest existing = ri_requestDigest input
     \<and> fa_maxMicroUsd existing = ri_maxMicroUsd input \<and> fa_rateSnapshot existing = ri_rateSnapshot input
     \<and> fa_chargeSnapshot existing = ri_chargeSnapshot input \<and> fa_usageClass existing = ri_usageClass input"

definition new_attempt :: "int \<Rightarrow> reserve_input \<Rightarrow> credit_period \<Rightarrow> int \<Rightarrow> int \<Rightarrow> funded_attempt" where
  "new_attempt at input period monthly topUp =
     \<lparr>fa_tenantId = ri_tenantId input, fa_organizationId = ri_organizationId input, fa_id = ri_attemptId input,
      fa_periodId = cp_periodId period, fa_rootJobId = ri_rootJobId input, fa_parentAttemptId = ri_parentAttemptId input,
      fa_kind = ri_kind input, fa_route = ri_route input, fa_maxMicroUsd = ri_maxMicroUsd input,
      fa_rateCardVersion = cp_rateCardVersion period, fa_state = Pending, fa_createdAt = at, fa_resolvedAt = None,
      fa_uncertainReason = None, fa_requestDigest = ri_requestDigest input, fa_rateSnapshot = ri_rateSnapshot input,
      fa_chargeSnapshot = ri_chargeSnapshot input, fa_usageClass = ri_usageClass input,
      fa_monthlyHoldMicroUsd = monthly, fa_topUpHoldMicroUsd = topUp, fa_dispatchedAt = None\<rparr>"

definition refuse_reserve :: "reserve_refusal \<Rightarrow> thrown" where
  "refuse_reserve code = FundingError (if code = InvalidCeiling then 422 else 402) (refusal_code code)"

definition check_companyCeiling :: "int option \<Rightarrow> int \<Rightarrow> fstate \<Rightarrow> unit res" where
  "check_companyCeiling companyCeiling ceiling s =
     (case companyCeiling of None \<Rightarrow> Inr ()
      | Some limit \<Rightarrow>
          rbind (company_spend s) (\<lambda>spend. rbind (sum_money [spend, ceiling]) (\<lambda>total.
          if total > limit then Inl (FundingError 503 ''company_ceiling'') else Inr ())))"

text \<open>The transaction's body for an attempt id that is not recorded yet.\<close>

definition reserve_new ::
  "int \<Rightarrow> reserve_input \<Rightarrow> int option \<Rightarrow> billing_cycle option \<Rightarrow> bool \<Rightarrow> (string \<times> member_role) option
     \<Rightarrow> fstate \<Rightarrow> funded_attempt outcome" where
  "reserve_new at input companyCeiling cycle boughtOnly limitedMember s =
     (let tenantId = ri_tenantId input; organizationId = ri_organizationId input; rootJobId = ri_rootJobId input;
          ceiling = ri_maxMicroUsd input in
      rbind (own_job tenantId organizationId rootJobId s) (\<lambda>job.
      if fj_state job \<noteq> JobOpen then Inl (FundingError 409 ''job_closed'')
      else if (case ri_parentAttemptId input of None \<Rightarrow> False
          | Some p \<Rightarrow> (case tx_attempt tenantId p s of None \<Rightarrow> True | Some parent \<Rightarrow> fa_rootJobId parent \<noteq> rootJobId))
        then Inl (FundingError 409 ''parent_attempt_mismatch'')
      else
        rbind (reserve_period at tenantId organizationId cycle boughtOnly s) (\<lambda>(period, s).
        rbind (tx_periodTotals tenantId organizationId (cp_periodId period) s) (\<lambda>month.
        rbind (monthly_available period month) (\<lambda>monthlyAvailable.
        rbind (tx_topUpTotals tenantId organizationId at s) (\<lambda>bought.
        rbind (top_up_available bought) (\<lambda>topUpAvailable.
        rbind (tx_jobUsed tenantId rootJobId s) (\<lambda>used.
        rbind (decide_reserve ceiling monthlyAvailable topUpAvailable
                 (Some \<lparr>jr_capMicroUsd = fj_capMicroUsd job, jr_usedMicroUsd = used\<rparr>)) (\<lambda>decision.
        case decision of
          ReserveRefused code \<Rightarrow> Inl (refuse_reserve code)
        | ReserveOk monthly topUp \<Rightarrow>
            rbind (case limitedMember of None \<Rightarrow> Inr ()
                   | Some member \<Rightarrow> enforce_memberLimit at tenantId organizationId rootJobId period member ceiling topUp s) (\<lambda>_.
            rbind (check_companyCeiling companyCeiling ceiling s) (\<lambda>_.
            (let attempt = new_attempt at input period monthly topUp in
             Inr (attempt, (case limitedMember of None \<Rightarrow> save_attempt attempt s
               | Some (personId, _) \<Rightarrow> save_attemptPerson \<lparr>ap_tenantId = tenantId, ap_attemptId = ri_attemptId input,
                   ap_organizationId = organizationId, ap_personId = personId\<rparr> (save_attempt attempt s)))))))))))))))"

definition reserve :: "int \<Rightarrow> reserve_input \<Rightarrow> fstate \<Rightarrow> funded_attempt outcome" where
  "reserve at input s =
     rbind (require_id (JStr (ri_tenantId input))) (\<lambda>_. rbind (require_id (JStr (ri_organizationId input))) (\<lambda>_.
     rbind (require_id (JStr (ri_attemptId input))) (\<lambda>_. rbind (require_id (JStr (ri_rootJobId input))) (\<lambda>_.
     rbind (require_id (JStr (ri_route input))) (\<lambda>_. rbind (require_id (JStr (ri_requestDigest input))) (\<lambda>_.
     rbind (case ri_parentAttemptId input of None \<Rightarrow> Inr '''' | Some p \<Rightarrow> require_id (JStr p)) (\<lambda>_.
     rbind (require_rate (ri_rateSnapshot input)) (\<lambda>_.
     rbind (case ri_chargeSnapshot input of None \<Rightarrow> Inr None | Some charge \<Rightarrow> rmap Some (require_charge charge)) (\<lambda>_.
     rbind (debits_allowance rate_card_v1 (ri_kind input)) (\<lambda>debits.
     if ri_kind input \<notin> set (rc_kinds rate_card_v1) \<or> \<not> debits then Inl (FundingError 409 ''charge_not_admissible'')
     else
     rbind (case ri_companyCeilingMicroUsd input of None \<Rightarrow> Inr None
            | Some n \<Rightarrow> rmap Some (require_money (JInt n) False)) (\<lambda>companyCeiling.
     rbind (case ri_member input of None \<Rightarrow> Inr '''' | Some (personId, _) \<Rightarrow> require_id (JStr personId)) (\<lambda>_.
     (let cycle = (case ri_individualCycle input of None \<Rightarrow> None | Some v \<Rightarrow> verified_individual_cycle v) in
      if ri_individualCycle input \<noteq> None \<and> cycle = None then Inl (FundingError 422 ''invalid_period'')
      else
        (let boughtOnly = (ri_boughtOnly input \<and> cycle = None \<and> is_individual_scope_id (ri_organizationId input));
             limitedMember = (if cycle \<noteq> None \<or> boughtOnly then None else ri_member input) in
         case tx_attempt (ri_tenantId input) (ri_attemptId input) s of
           Some existing \<Rightarrow>
             (if \<not> same_attempt input existing then Inl (FundingError 409 ''attempt_conflict'') else Inr (existing, s))
         | None \<Rightarrow> reserve_new at input companyCeiling cycle boughtOnly limitedMember s))))))))))))))"

section \<open>What a reservation does\<close>

lemma new_attempt_simps [simp]:
  "fa_tenantId (new_attempt at input period m u) = ri_tenantId input"
  "fa_organizationId (new_attempt at input period m u) = ri_organizationId input"
  "fa_id (new_attempt at input period m u) = ri_attemptId input"
  "fa_periodId (new_attempt at input period m u) = cp_periodId period"
  "fa_rootJobId (new_attempt at input period m u) = ri_rootJobId input"
  "fa_parentAttemptId (new_attempt at input period m u) = ri_parentAttemptId input"
  "fa_kind (new_attempt at input period m u) = ri_kind input"
  "fa_route (new_attempt at input period m u) = ri_route input"
  "fa_maxMicroUsd (new_attempt at input period m u) = ri_maxMicroUsd input"
  "fa_state (new_attempt at input period m u) = Pending"
  "fa_requestDigest (new_attempt at input period m u) = ri_requestDigest input"
  "fa_rateSnapshot (new_attempt at input period m u) = ri_rateSnapshot input"
  "fa_chargeSnapshot (new_attempt at input period m u) = ri_chargeSnapshot input"
  "fa_usageClass (new_attempt at input period m u) = ri_usageClass input"
  "fa_monthlyHoldMicroUsd (new_attempt at input period m u) = m"
  "fa_topUpHoldMicroUsd (new_attempt at input period m u) = u"
  "fa_dispatchedAt (new_attempt at input period m u) = None"
  by (simp_all add: new_attempt_def)

lemma records_found: "tx_period t o' p s = Some row \<Longrightarrow> records_period row s s"
  by (auto simp: records_period_def dest: tx_period_key)

lemma bought_credits_row_Inr:
  assumes "bought_credits_row at t o' s = Inr (period, s1)"
  shows "records_period period s s1 \<and> cp_tenantId period = t \<and> cp_organizationId period = o'
    \<and> cp_periodId period = bought_credits_period"
proof (cases "tx_period t o' bought_credits_period s")
  case None
  with assms show ?thesis by (auto simp: bought_credits_row_def result_simps records_period_def)
next
  case (Some row)
  with assms tx_period_key [OF Some] records_found [OF Some] show ?thesis
    by (auto simp: bought_credits_row_def)
qed

lemma reserve_period_Inr:
  assumes "reserve_period at t o' cycle boughtOnly s = Inr (period, s1)"
  shows "records_period period s s1" "cp_tenantId period = t" "cp_organizationId period = o'"
    "\<not> boughtOnly \<Longrightarrow> s1 = s" "s1 \<noteq> s \<Longrightarrow> cp_grantedMicroUsd period = 0"
    "\<And>c. cycle = Some c \<Longrightarrow> ic_startsAt c \<le> at \<and> at < ic_endsAt c
       \<and> cp_planId period = ''individual'' \<and> cp_startsAt period = ic_startsAt c \<and> cp_endsAt period = ic_endsAt c"
proof -
  from assms obtain periodId where
    found: "tx_period t o' periodId s = Some period \<and> s1 = s \<or> boughtOnly \<and> bought_credits_row at t o' s = Inr (period, s1)"
    and cycle: "\<And>c. cycle = Some c \<Longrightarrow> cycle_contains c at \<and> cp_planId period = ''individual''
       \<and> cp_startsAt period = ic_startsAt c \<and> cp_endsAt period = ic_endsAt c"
    by (auto simp: reserve_period_def rbind_Inr_iff case_option_Inr_iff split: if_splits option.splits)
  show "records_period period s s1" "cp_tenantId period = t" "cp_organizationId period = o'"
    using found by (auto dest: bought_credits_row_Inr tx_period_key records_found)
  show "s1 = s" if "\<not> boughtOnly" using found that by blast
  show "cp_grantedMicroUsd period = 0" if "s1 \<noteq> s"
    using found that by (auto simp: bought_credits_row_def result_simps)
  show "ic_startsAt c \<le> at \<and> at < ic_endsAt c
       \<and> cp_planId period = ''individual'' \<and> cp_startsAt period = ic_startsAt c \<and> cp_endsAt period = ic_endsAt c"
    if "cycle = Some c" for c
    using cycle [OF that] by (simp add: cycle_contains_def)
qed

text \<open>A new hold and everything that was checked for it, on the store \<open>s1\<close> that has its period.\<close>

lemma reserve_new_Inr:
  assumes "reserve_new at input companyCeiling cycle boughtOnly member s = Inr (attempt, s')"
  obtains job period s1 month bought used monthlyAvailable topUpAvailable monthly topUp where
    "tx_job (ri_tenantId input) (ri_rootJobId input) s = Some job" "fj_organizationId job = ri_organizationId input"
    "fj_state job = JobOpen"
    "reserve_period at (ri_tenantId input) (ri_organizationId input) cycle boughtOnly s = Inr (period, s1)"
    "tx_periodTotals (ri_tenantId input) (ri_organizationId input) (cp_periodId period) s1 = Inr month"
    "monthly_available period month = Inr monthlyAvailable"
    "tx_topUpTotals (ri_tenantId input) (ri_organizationId input) at s1 = Inr bought"
    "top_up_available bought = Inr topUpAvailable"
    "tx_jobUsed (ri_tenantId input) (ri_rootJobId input) s1 = Inr used"
    "decide_reserve (ri_maxMicroUsd input) monthlyAvailable topUpAvailable
       (Some \<lparr>jr_capMicroUsd = fj_capMicroUsd job, jr_usedMicroUsd = used\<rparr>) = Inr (ReserveOk monthly topUp)"
    "\<And>m. member = Some m \<Longrightarrow> enforce_memberLimit at (ri_tenantId input) (ri_organizationId input) (ri_rootJobId input)
       period m (ri_maxMicroUsd input) topUp s1 = Inr ()"
    "check_companyCeiling companyCeiling (ri_maxMicroUsd input) s1 = Inr ()"
    "attempt = new_attempt at input period monthly topUp"
    "s' = (case member of None \<Rightarrow> save_attempt attempt s1
       | Some (personId, _) \<Rightarrow> save_attemptPerson \<lparr>ap_tenantId = ri_tenantId input, ap_attemptId = ri_attemptId input,
           ap_organizationId = ri_organizationId input, ap_personId = personId\<rparr> (save_attempt attempt s1))"
proof -
  note body = assms [unfolded reserve_new_def Let_def]
  from body obtain job period s1 month bought used monthlyAvailable topUpAvailable decision where
    job: "tx_job (ri_tenantId input) (ri_rootJobId input) s = Some job" "fj_organizationId job = ri_organizationId input"
      "fj_state job = JobOpen"
    and period: "reserve_period at (ri_tenantId input) (ri_organizationId input) cycle boughtOnly s = Inr (period, s1)"
    and totals: "tx_periodTotals (ri_tenantId input) (ri_organizationId input) (cp_periodId period) s1 = Inr month"
      "monthly_available period month = Inr monthlyAvailable"
      "tx_topUpTotals (ri_tenantId input) (ri_organizationId input) at s1 = Inr bought"
      "top_up_available bought = Inr topUpAvailable"
      "tx_jobUsed (ri_tenantId input) (ri_rootJobId input) s1 = Inr used"
    and decision: "decide_reserve (ri_maxMicroUsd input) monthlyAvailable topUpAvailable
       (Some \<lparr>jr_capMicroUsd = fj_capMicroUsd job, jr_usedMicroUsd = used\<rparr>) = Inr decision"
    by (auto simp: rbind_Inr_iff own_job_Inr split: if_splits)
  from body obtain monthly topUp where ok: "decision = ReserveOk monthly topUp"
    by (cases decision) (auto simp: job period totals decision rbind_Inr_iff own_job_Inr split: if_splits)
  show thesis
    using body by (intro that [OF job period totals decision [unfolded ok]])
      (auto simp: job period totals decision ok rbind_Inr_iff own_job_Inr split: if_splits)
qed

lemma reserve_Inr:
  assumes "reserve at input s = Inr (attempt, s')"
  obtains (replay) "tx_attempt (ri_tenantId input) (ri_attemptId input) s = Some attempt" "same_attempt input attempt" "s' = s"
    | (fresh) companyCeiling cycle boughtOnly member where
      "tx_attempt (ri_tenantId input) (ri_attemptId input) s = None"
      "reserve_new at input companyCeiling cycle boughtOnly member s = Inr (attempt, s')"
      "rate_prices_ok (rs_version (ri_rateSnapshot input)) (ri_rateSnapshot input)"
      "\<And>charge. ri_chargeSnapshot input = Some charge \<Longrightarrow> rate_prices_ok (cs_version charge) charge"
      "companyCeiling = ri_companyCeilingMicroUsd input"
      "member = (if cycle \<noteq> None \<or> boughtOnly then None else ri_member input)"
      "boughtOnly \<longleftrightarrow> ri_boughtOnly input \<and> cycle = None \<and> is_individual_scope_id (ri_organizationId input)"
      "cycle = (case ri_individualCycle input of None \<Rightarrow> None | Some v \<Rightarrow> verified_individual_cycle v)"
      "ri_kind input \<notin> {ToolService, Support, Storage}"
proof -
  let ?cycle = "case ri_individualCycle input of None \<Rightarrow> None | Some v \<Rightarrow> verified_individual_cycle v"
  let ?boughtOnly = "ri_boughtOnly input \<and> ?cycle = None \<and> is_individual_scope_id (ri_organizationId input)"
  let ?member = "if ?cycle \<noteq> None \<or> ?boughtOnly then None else ri_member input"
  from assms have rate: "rate_prices_ok (rs_version (ri_rateSnapshot input)) (ri_rateSnapshot input)"
    and charge: "\<And>charge. ri_chargeSnapshot input = Some charge \<Longrightarrow> rate_prices_ok (cs_version charge) charge"
    and kind: "ri_kind input \<notin> {ToolService, Support, Storage}"
    and body: "(case tx_attempt (ri_tenantId input) (ri_attemptId input) s of
           Some existing \<Rightarrow>
             (if \<not> same_attempt input existing then Inl (FundingError 409 ''attempt_conflict'') else Inr (existing, s))
         | None \<Rightarrow> reserve_new at input (ri_companyCeilingMicroUsd input) ?cycle ?boughtOnly ?member s) = Inr (attempt, s')"
    unfolding reserve_def Let_def
    by (auto simp: rbind_Inr_iff rmap_Inr_iff require_rate_Inr require_money_Inr debits_allowance_v1
        dest!: require_charge_Inr split: if_splits option.splits)
  show thesis
  proof (cases "tx_attempt (ri_tenantId input) (ri_attemptId input) s")
    case None
    with body show thesis using rate charge kind by (intro fresh) simp_all
  next
    case (Some existing)
    with body show thesis by (intro replay) (auto split: if_splits)
  qed
qed

end
