(* ===== verification/Funding_Attempts.thy ===== *)
theory Funding_Attempts
  imports Funding_Reserve
begin

text \<open>
  The life of an attempt in \<open>FundingService\<close> after it is reserved: dispatch, release, cancel, loss,
  settlement from the provider's report, write-off and recovery after a restart.
\<close>

section \<open>Moving an attempt\<close>

definition move_attempt :: "funded_attempt \<Rightarrow> reservation_event \<Rightarrow> funded_attempt res" where
  "move_attempt attempt event =
     (case reservation_transition (fa_state attempt) event of
        Inr next \<Rightarrow> Inr (attempt\<lparr>fa_state := next\<rparr>)
      | Inl _ \<Rightarrow> Inl (FundingError 409 (if fa_state attempt = Uncertain then ''uncertain_hold'' else ''invalid_transition'')))"

definition locked_attempt :: "string \<Rightarrow> string \<Rightarrow> string \<Rightarrow> fstate \<Rightarrow> funded_attempt res" where
  "locked_attempt tenantId organizationId attemptId s =
     rbind (require_id (JStr tenantId)) (\<lambda>_. rbind (require_id (JStr organizationId)) (\<lambda>_.
     rbind (require_id (JStr attemptId)) (\<lambda>_.
     case tx_attempt tenantId attemptId s of None \<Rightarrow> Inl (FundingError 404 ''unknown_attempt'')
     | Some attempt \<Rightarrow> if fa_organizationId attempt \<noteq> organizationId then Inl (FundingError 404 ''unknown_attempt'')
         else Inr attempt)))"

definition save_and_answer :: "funded_attempt \<Rightarrow> fstate \<Rightarrow> funded_attempt outcome" where
  "save_and_answer attempt s = Inr (attempt, save_attempt attempt s)"

section \<open>Dispatch\<close>

datatype dispatch_outcome = ExpiredHold | Dispatched funded_attempt

definition claim_or_expire :: "int \<Rightarrow> string \<Rightarrow> string \<Rightarrow> string \<Rightarrow> fstate \<Rightarrow> dispatch_outcome outcome" where
  "claim_or_expire at tenantId organizationId attemptId s =
     rbind (locked_attempt tenantId organizationId attemptId s) (\<lambda>attempt.
     if fa_state attempt \<noteq> Pending then Inl (FundingError 409 ''invalid_transition'')
     else if fa_dispatchedAt attempt = None
         \<and> (case tx_period (fa_tenantId attempt) (fa_organizationId attempt) (fa_periodId attempt) s of
              None \<Rightarrow> False | Some period \<Rightarrow> cp_planId period = ''individual'' \<and> cp_endsAt period \<le> at)
       then rbind (move_attempt attempt Release) (\<lambda>released.
         Inr (ExpiredHold, save_attempt (released\<lparr>fa_resolvedAt := Some at, fa_uncertainReason := Some ExpiredUnsent\<rparr>) s))
     else (case claim_dispatch (fa_tenantId attempt) (fa_id attempt) at s of
         (claimed, s) \<Rightarrow>
           if \<not> claimed then Inl (FundingError 409 ''attempt_in_flight'')
           else Inr (Dispatched (attempt\<lparr>fa_dispatchedAt := Some at\<rparr>), s)))"

text \<open>The refusal for an ended period is thrown after the transaction that released the hold has committed.\<close>

definition mark_dispatched :: "int \<Rightarrow> string \<Rightarrow> string \<Rightarrow> string \<Rightarrow> fstate \<Rightarrow> funded_attempt res \<times> fstate" where
  "mark_dispatched at tenantId organizationId attemptId s =
     (case transaction (claim_or_expire at tenantId organizationId attemptId) s of
        (Inl e, s) \<Rightarrow> (Inl e, s)
      | (Inr ExpiredHold, s) \<Rightarrow> (Inl (FundingError 409 ''period_ended''), s)
      | (Inr (Dispatched attempt), s) \<Rightarrow> (Inr attempt, s))"

section \<open>Letting go\<close>

definition release_refused ::
  "int \<Rightarrow> string \<Rightarrow> string \<Rightarrow> string \<Rightarrow> int \<Rightarrow> string option \<Rightarrow> fstate \<Rightarrow> funded_attempt outcome" where
  "release_refused at tenantId organizationId attemptId status requestId s =
     (if status \<notin> set releasable_refusals then Inl (FundingError 422 ''release_not_allowed'')
      else rbind (case requestId of None \<Rightarrow> Inr '''' | Some r \<Rightarrow> require_id (JStr r)) (\<lambda>_.
      rbind (locked_attempt tenantId organizationId attemptId s) (\<lambda>attempt.
      if fa_state attempt = Released then Inr (attempt, s)
      else if fa_state attempt \<noteq> Pending then Inl (FundingError 409 ''invalid_transition'')
      else if fa_dispatchedAt attempt = None then Inl (FundingError 409 ''not_dispatched'')
      else rbind (move_attempt attempt Release) (\<lambda>released.
        save_and_answer (released\<lparr>fa_resolvedAt := Some at,
          fa_uncertainReason := Some (ProviderRefused status requestId)\<rparr>) s))))"

definition release_attempt :: "int \<Rightarrow> string \<Rightarrow> string \<Rightarrow> string \<Rightarrow> fstate \<Rightarrow> funded_attempt outcome" where
  "release_attempt at tenantId organizationId attemptId s =
     rbind (locked_attempt tenantId organizationId attemptId s) (\<lambda>attempt.
     if fa_state attempt = Pending \<and> fa_dispatchedAt attempt \<noteq> None then Inl (FundingError 409 ''dispatched_hold'')
     else rbind (move_attempt attempt Release) (\<lambda>released.
       save_and_answer (released\<lparr>fa_resolvedAt := Some at\<rparr>) s))"

text \<open>\<open>String(reason ?? '').trim().slice(0, 300) || fallback\<close>, on ASCII text.\<close>

definition reason_text :: "string option \<Rightarrow> string \<Rightarrow> string" where
  "reason_text reason fallback =
     (let t = take 300 (js_trim (nullish reason '''')) in if t = '''' then fallback else t)"

definition cancel_attempt :: "int \<Rightarrow> string \<Rightarrow> string \<Rightarrow> string \<Rightarrow> string option \<Rightarrow> fstate \<Rightarrow> funded_attempt outcome" where
  "cancel_attempt at tenantId organizationId attemptId reason s =
     rbind (locked_attempt tenantId organizationId attemptId s) (\<lambda>attempt.
     if fa_state attempt \<noteq> Pending then Inr (attempt, s)
     else if fa_dispatchedAt attempt = None then
       rbind (move_attempt attempt Release) (\<lambda>released. save_and_answer (released\<lparr>fa_resolvedAt := Some at\<rparr>) s)
     else rbind (move_attempt attempt Lose) (\<lambda>parked.
       save_and_answer (parked\<lparr>fa_uncertainReason := Some (CancelledAfterSend (reason_text reason ''cancelled''))\<rparr>) s))"

definition mark_uncertain :: "string \<Rightarrow> string \<Rightarrow> string \<Rightarrow> string option \<Rightarrow> fstate \<Rightarrow> funded_attempt outcome" where
  "mark_uncertain tenantId organizationId attemptId reason s =
     rbind (locked_attempt tenantId organizationId attemptId s) (\<lambda>attempt.
     if fa_state attempt = Uncertain then Inr (attempt, s)
     else if fa_state attempt = Pending \<and> fa_dispatchedAt attempt = None then Inl (FundingError 409 ''not_dispatched'')
     else rbind (move_attempt attempt Lose) (\<lambda>parked.
       save_and_answer (parked\<lparr>fa_uncertainReason := Some (LostResponse (reason_text reason ''The response was lost.''))\<rparr>) s))"

section \<open>Settlement\<close>

datatype settle_result = SettledAs attempt_settlement | HeldAs funded_attempt hold_note

text \<open>Keeping the hold as uncertain, with the reason.\<close>

definition keep_hold :: "funded_attempt \<Rightarrow> hold_note \<Rightarrow> fstate \<Rightarrow> settle_result outcome" where
  "keep_hold attempt reason s =
     rbind (if fa_state attempt = Uncertain then Inr attempt else move_attempt attempt Lose) (\<lambda>parked.
     let parked = parked\<lparr>fa_uncertainReason := Some reason\<rparr>
     in Inr (HeldAs parked reason, save_attempt parked s))"

text \<open>What the report costs the provider and what it debits.\<close>

definition attempt_costs :: "funded_attempt \<Rightarrow> normalized_usage \<Rightarrow> (int \<times> int) res" where
  "attempt_costs attempt usage =
     rbind (usage_cost (fa_rateSnapshot attempt) usage) (\<lambda>providerCost.
     rbind (case fa_chargeSnapshot attempt of None \<Rightarrow> Inr providerCost | Some charge \<Rightarrow> usage_cost charge usage) (\<lambda>cost.
     Inr (providerCost, cost)))"

definition settlement_of :: "int \<Rightarrow> funded_attempt \<Rightarrow> string \<Rightarrow> reconciled_from \<Rightarrow> int \<Rightarrow> int \<Rightarrow> normalized_usage \<Rightarrow> attempt_settlement res" where
  "settlement_of at attempt receiptRef reconciledFrom providerCost cost usage =
     (let monthly = min cost (fa_monthlyHoldMicroUsd attempt) in
      rbind (micro monthly) (\<lambda>monthlyDebit. rbind (micro (cost - monthly)) (\<lambda>topUpDebit.
      Inr \<lparr>se_tenantId = fa_tenantId attempt, se_organizationId = fa_organizationId attempt, se_reservationId = fa_id attempt,
        se_periodId = fa_periodId attempt, se_providerCostMicroUsd = providerCost, se_allowanceDebitMicroUsd = cost,
        se_rateCardVersion = fa_rateCardVersion attempt, se_settledAt = at, se_reconciledFrom = reconciledFrom,
        se_receiptRef = receiptRef, se_monthlyDebitMicroUsd = monthlyDebit, se_topUpDebitMicroUsd = topUpDebit,
        se_usage = usage\<rparr>)))"

definition settle_attempt ::
  "int \<Rightarrow> string \<Rightarrow> string \<Rightarrow> string \<Rightarrow> string \<Rightarrow> jval \<Rightarrow> jval \<Rightarrow> reconciled_from \<Rightarrow> fstate \<Rightarrow> settle_result outcome" where
  "settle_attempt at tenantId organizationId attemptId receiptRef usage raw reconciledFrom s =
     rbind (require_id (JStr receiptRef)) (\<lambda>_.
     rbind (locked_attempt tenantId organizationId attemptId s) (\<lambda>attempt.
     let checked = validate_provider_usage usage raw in
     case tx_settlement tenantId (fa_id attempt) s of
       Some recorded \<Rightarrow>
         (if se_receiptRef recorded \<noteq> receiptRef
             \<or> (case checked of InvalidUsage _ _ \<Rightarrow> True | ValidUsage u \<Rightarrow> \<not> same_usage_counts (se_usage recorded) u)
            then Inl (FundingError 409 ''settlement_conflict'') else Inr (SettledAs recorded, s))
     | None \<Rightarrow>
       if fa_state attempt = Pending \<and> fa_dispatchedAt attempt = None then Inl (FundingError 409 ''not_dispatched'')
       else if fa_state attempt \<noteq> Pending \<and> fa_state attempt \<noteq> Uncertain then Inl (FundingError 409 ''invalid_transition'')
       else (case checked of
           InvalidUsage reason _ \<Rightarrow> keep_hold attempt (BadReport reason) s
         | ValidUsage u \<Rightarrow>
           rbind (attempt_costs attempt u) (\<lambda>(providerCost, cost).
           if cost > fa_maxMicroUsd attempt then keep_hold attempt MoreThanReserved s
           else
             rbind (move_attempt attempt (if fa_state attempt = Uncertain then Reconcile else Settle)) (\<lambda>settled.
             rbind (settlement_of at attempt receiptRef reconciledFrom providerCost cost u) (\<lambda>settlement.
             Inr (SettledAs settlement,
               save_settlement settlement (save_attempt (settled\<lparr>fa_resolvedAt := Some at\<rparr>) s))))))))"

definition write_off :: "int \<Rightarrow> string \<Rightarrow> string \<Rightarrow> string \<Rightarrow> string \<Rightarrow> fstate \<Rightarrow> funded_attempt outcome" where
  "write_off at tenantId organizationId attemptId evidenceRef s =
     rbind (require_id (JStr evidenceRef)) (\<lambda>_.
     rbind (locked_attempt tenantId organizationId attemptId s) (\<lambda>attempt.
     rbind (move_attempt attempt WriteOff) (\<lambda>written.
       save_and_answer (written\<lparr>fa_resolvedAt := Some at,
         fa_uncertainReason := Some (WrittenOffOn (fa_uncertainReason attempt) evidenceRef)\<rparr>) s)))"

section \<open>Recovery\<close>

definition recover_one :: "int \<Rightarrow> funded_attempt \<Rightarrow> (string list \<times> string list) \<times> fstate \<Rightarrow> ((string list \<times> string list) \<times> fstate) res" where
  "recover_one at attempt acc =
     (case acc of ((released, uncertain), s) \<Rightarrow>
        if fa_dispatchedAt attempt = None then
          rbind (move_attempt attempt Release) (\<lambda>row.
            Inr ((released @ [fa_id attempt], uncertain), save_attempt (row\<lparr>fa_resolvedAt := Some at\<rparr>) s))
        else
          rbind (move_attempt attempt Lose) (\<lambda>row.
            Inr ((released, uncertain @ [fa_id attempt]),
              save_attempt (row\<lparr>fa_uncertainReason := Some HostRestarted\<rparr>) s)))"

definition recover_after_restart :: "int \<Rightarrow> string \<Rightarrow> string \<Rightarrow> fstate \<Rightarrow> (string list \<times> string list) outcome" where
  "recover_after_restart at tenantId organizationId s =
     rbind (require_id (JStr tenantId)) (\<lambda>_. rbind (require_id (JStr organizationId)) (\<lambda>_.
     rfold (recover_one at) (pending_attempts tenantId organizationId s) (([], []), s)))"

end
