(* ===== verification/Funding_Sums.thy ===== *)
theory Funding_Sums
  imports Funding_Attempts
begin

text \<open>
  The two balances as sums over rows: what was bought and what is committed against it at an instant,
  and what funds a month and what is committed against it. Each total that the store reads is one of
  these sums, and each write moves them by the row it writes.
\<close>

section \<open>The balances\<close>

definition bought :: "string \<Rightarrow> string \<Rightarrow> fstate \<Rightarrow> int" where
  "bought t o' s = row_sum (\<lambda>r. tu_tenantId r = t \<and> tu_organizationId r = o') tu_amountMicroUsd (st_topUps s)"

definition funded_held :: "string \<Rightarrow> string \<Rightarrow> fstate \<Rightarrow> int" where
  "funded_held t o' s = row_sum (\<lambda>r. fa_tenantId r = t \<and> fa_organizationId r = o' \<and> is_held r) fa_topUpHoldMicroUsd (st_attempts s)"

definition lease_live :: "int \<Rightarrow> top_up_hold \<Rightarrow> bool" where
  "lease_live at r \<longleftrightarrow> th_state r = HoldHeld \<and> th_leaseUntil r > at"

definition lease_held :: "string \<Rightarrow> string \<Rightarrow> int \<Rightarrow> fstate \<Rightarrow> int" where
  "lease_held t o' at s = row_sum (\<lambda>r. th_tenantId r = t \<and> th_organizationId r = o' \<and> lease_live at r) th_amountMicroUsd (st_topUpHolds s)"

definition funded_spent :: "string \<Rightarrow> string \<Rightarrow> fstate \<Rightarrow> int" where
  "funded_spent t o' s = row_sum (\<lambda>r. se_tenantId r = t \<and> se_organizationId r = o') se_topUpDebitMicroUsd (st_settlements s)"

definition lease_spent :: "string \<Rightarrow> string \<Rightarrow> fstate \<Rightarrow> int" where
  "lease_spent t o' s = row_sum (\<lambda>r. th_tenantId r = t \<and> th_organizationId r = o' \<and> th_state r = HoldSettled) th_debitMicroUsd (st_topUpHolds s)"

definition bought_committed :: "string \<Rightarrow> string \<Rightarrow> int \<Rightarrow> fstate \<Rightarrow> int" where
  "bought_committed t o' at s = funded_held t o' s + lease_held t o' at s + funded_spent t o' s + lease_spent t o' s"

definition month_held :: "string \<Rightarrow> string \<Rightarrow> string \<Rightarrow> fstate \<Rightarrow> int" where
  "month_held t o' p s = row_sum (\<lambda>r. fa_tenantId r = t \<and> fa_organizationId r = o' \<and> fa_periodId r = p \<and> is_held r)
     fa_monthlyHoldMicroUsd (st_attempts s)"

definition month_spent :: "string \<Rightarrow> string \<Rightarrow> string \<Rightarrow> fstate \<Rightarrow> int" where
  "month_spent t o' p s = row_sum (\<lambda>r. se_tenantId r = t \<and> se_organizationId r = o' \<and> se_periodId r = p)
     se_monthlyDebitMicroUsd (st_settlements s)"

definition month_adjusted :: "adjustment_direction \<Rightarrow> string \<Rightarrow> string \<Rightarrow> string \<Rightarrow> fstate \<Rightarrow> int" where
  "month_adjusted d t o' p s = row_sum (\<lambda>r. ad_tenantId r = t \<and> ad_organizationId r = o' \<and> ad_periodId r = p \<and> ad_direction r = d)
     ad_amountMicroUsd (st_adjustments s)"

definition month_granted :: "string \<Rightarrow> string \<Rightarrow> string \<Rightarrow> fstate \<Rightarrow> int" where
  "month_granted t o' p s = (case tx_period t o' p s of None \<Rightarrow> 0 | Some period \<Rightarrow> cp_grantedMicroUsd period)"

definition month_funded :: "string \<Rightarrow> string \<Rightarrow> string \<Rightarrow> fstate \<Rightarrow> int" where
  "month_funded t o' p s = month_granted t o' p s + month_adjusted GrantCredits t o' p s"

definition month_committed :: "string \<Rightarrow> string \<Rightarrow> string \<Rightarrow> fstate \<Rightarrow> int" where
  "month_committed t o' p s = month_adjusted WithdrawCredits t o' p s + month_spent t o' p s + month_held t o' p s"

lemmas balance_defs = bought_def funded_held_def lease_held_def funded_spent_def lease_spent_def
  month_held_def month_spent_def month_adjusted_def month_granted_def

section \<open>The totals the store reads\<close>

lemma sum_amounts_Inr [result_simps]: "sum_amounts xs = Inr m \<longleftrightarrow> m = sum_list xs \<and> is_money (sum_list xs)"
  by (auto simp: sum_amounts_def result_simps)

lemma topUpTotals_Inr:
  assumes "tx_topUpTotals t o' at s = Inr totals"
  shows "tt_purchasedMicroUsd totals = bought t o' s"
    "tt_heldMicroUsd totals = funded_held t o' s + lease_held t o' at s"
    "tt_settledMicroUsd totals = funded_spent t o' s + lease_spent t o' s"
  using assms
  by (auto simp: tx_topUpTotals_def result_simps Let_def balance_defs row_simps lease_live_def intro!: row_sum_cong)

lemma periodTotals_Inr:
  assumes "tx_periodTotals t o' p s = Inr totals"
  shows "pt_settledMonthlyMicroUsd totals = month_spent t o' p s"
    "pt_pendingMonthlyMicroUsd totals + pt_uncertainMonthlyMicroUsd totals = month_held t o' p s"
    "pt_correctionGrantsMicroUsd totals = month_adjusted GrantCredits t o' p s"
    "pt_correctionWithdrawalsMicroUsd totals = month_adjusted WithdrawCredits t o' p s"
proof -
  have split: "row_sum (\<lambda>r. P r \<and> fa_state r = Pending) f xs + row_sum (\<lambda>r. P r \<and> fa_state r = Uncertain) f xs
      = row_sum (\<lambda>r. P r \<and> is_held r) f xs" for P f xs
    by (induction xs) (auto simp: is_held_def)
  show "pt_settledMonthlyMicroUsd totals = month_spent t o' p s"
    "pt_correctionGrantsMicroUsd totals = month_adjusted GrantCredits t o' p s"
    "pt_correctionWithdrawalsMicroUsd totals = month_adjusted WithdrawCredits t o' p s"
    using assms by (auto simp: tx_periodTotals_def result_simps Let_def balance_defs row_simps intro!: row_sum_cong)
  show "pt_pendingMonthlyMicroUsd totals + pt_uncertainMonthlyMicroUsd totals = month_held t o' p s"
    using assms split [of "\<lambda>r. fa_tenantId r = t \<and> fa_organizationId r = o' \<and> fa_periodId r = p" fa_monthlyHoldMicroUsd "st_attempts s"]
    by (auto simp: tx_periodTotals_def result_simps Let_def balance_defs row_simps)
qed

text \<open>What the service calls available is the balance less what is committed, never below zero.\<close>

lemma top_up_available_balance:
  assumes "tx_topUpTotals t o' at s = Inr totals" and "top_up_available totals = Inr a"
  shows "a = max 0 (bought t o' s - bought_committed t o' at s)"
  using topUpTotals_Inr [OF assms(1)] top_up_available_Inr [OF assms(2)]
  by (simp add: bought_committed_def)

lemma monthly_available_balance:
  assumes "tx_periodTotals t o' p s = Inr totals" and "monthly_available period totals = Inr a"
    and "tx_period t o' p s = Some period"
  shows "a = max 0 (month_funded t o' p s - month_committed t o' p s)"
  using periodTotals_Inr [OF assms(1)] monthly_available_Inr [OF assms(2)] assms(3)
  by (simp add: month_funded_def month_committed_def month_granted_def algebra_simps)

lemma read_balance_within:
  assumes "read_balance at t o' s = Inr balance"
  shows "bought_committed t o' at s \<le> bought t o' s"
    "pb_availableMicroUsd balance = bought t o' s - bought_committed t o' at s"
    "pb_purchasedMicroUsd balance = bought t o' s"
    "pb_heldMicroUsd balance = funded_held t o' s + lease_held t o' at s"
    "pb_settledMicroUsd balance = funded_spent t o' s + lease_spent t o' s"
proof -
  from assms obtain totals where totals: "tx_topUpTotals t o' at s = Inr totals" "balance_of totals = Inr balance"
    by (auto simp: read_balance_def result_simps)
  note sums = topUpTotals_Inr [OF totals(1)] and answer = balance_of_Inr [OF totals(2)]
  show "bought_committed t o' at s \<le> bought t o' s"
    "pb_availableMicroUsd balance = bought t o' s - bought_committed t o' at s"
    "pb_purchasedMicroUsd balance = bought t o' s"
    "pb_heldMicroUsd balance = funded_held t o' s + lease_held t o' at s"
    "pb_settledMicroUsd balance = funded_spent t o' s + lease_spent t o' s"
    using sums answer by (simp_all add: bought_committed_def)
qed

section \<open>What a write does to the balances\<close>

named_theorems sum_simps \<open>the balances after a write\<close>

definition old_amount :: "('r \<Rightarrow> bool) \<Rightarrow> ('r \<Rightarrow> int) \<Rightarrow> 'r option \<Rightarrow> int" where
  "old_amount P f old = (case old of None \<Rightarrow> 0 | Some r \<Rightarrow> if P r then f r else 0)"

lemma old_amount_simps [simp]: "old_amount P f None = 0" "old_amount P f (Some r) = (if P r then f r else 0)"
  by (simp_all add: old_amount_def)

lemma row_sum_upsert_old:
  "row_sum P f (upsert same row xs) = row_sum P f xs + (if P row then f row else 0) - old_amount P f (find same xs)"
  by (simp add: row_sum_upsert old_amount_def)

lemma attempts_sum_save [sum_simps]:
  "row_sum P f (st_attempts (save_attempt row s)) =
     row_sum P f (st_attempts s) + (if P row then f row else 0) - old_amount P f (tx_attempt (fa_tenantId row) (fa_id row) s)"
  by (simp add: save_attempt_def tx_attempt_def row_sum_upsert_old)

lemma holds_sum_save [sum_simps]:
  "row_sum P f (st_topUpHolds (save_topUpHold row s)) =
     row_sum P f (st_topUpHolds s) + (if P row then f row else 0) - old_amount P f (tx_topUpHold (th_tenantId row) (th_holdId row) s)"
  by (simp add: save_topUpHold_def tx_topUpHold_def row_sum_upsert_old)

lemma appended_sums [sum_simps]:
  "row_sum P1 f1 (st_settlements (save_settlement se s)) = row_sum P1 f1 (st_settlements s) + (if P1 se then f1 se else 0)"
  "row_sum P2 f2 (st_topUps (save_topUp tu s)) = row_sum P2 f2 (st_topUps s) + (if P2 tu then f2 tu else 0)"
  "row_sum P3 f3 (st_adjustments (save_adjustment ad s)) = row_sum P3 f3 (st_adjustments s) + (if P3 ad then f3 ad else 0)"
  by (simp_all add: save_settlement_def save_topUp_def save_adjustment_def)

text \<open>The tables each write leaves alone.\<close>

named_theorems frame_simps \<open>the tables a write does not touch\<close>

lemma save_attempt_frame [frame_simps]:
  "st_periods (save_attempt r s) = st_periods s" "st_jobs (save_attempt r s) = st_jobs s"
  "st_settlements (save_attempt r s) = st_settlements s" "st_adjustments (save_attempt r s) = st_adjustments s"
  "st_topUps (save_attempt r s) = st_topUps s" "st_topUpHolds (save_attempt r s) = st_topUpHolds s"
  "st_creditPurchases (save_attempt r s) = st_creditPurchases s"
  by (simp_all add: save_attempt_def)

lemma save_topUpHold_frame [frame_simps]:
  "st_periods (save_topUpHold r s) = st_periods s" "st_jobs (save_topUpHold r s) = st_jobs s"
  "st_attempts (save_topUpHold r s) = st_attempts s"
  "st_settlements (save_topUpHold r s) = st_settlements s" "st_adjustments (save_topUpHold r s) = st_adjustments s"
  "st_topUps (save_topUpHold r s) = st_topUps s" "st_creditPurchases (save_topUpHold r s) = st_creditPurchases s"
  by (simp_all add: save_topUpHold_def)

lemma save_settlement_frame [frame_simps]:
  "st_periods (save_settlement r s) = st_periods s" "st_jobs (save_settlement r s) = st_jobs s"
  "st_attempts (save_settlement r s) = st_attempts s" "st_adjustments (save_settlement r s) = st_adjustments s"
  "st_topUps (save_settlement r s) = st_topUps s" "st_topUpHolds (save_settlement r s) = st_topUpHolds s"
  "st_creditPurchases (save_settlement r s) = st_creditPurchases s"
  by (simp_all add: save_settlement_def)

lemma save_topUp_frame [frame_simps]:
  "st_periods (save_topUp r s) = st_periods s" "st_jobs (save_topUp r s) = st_jobs s"
  "st_attempts (save_topUp r s) = st_attempts s" "st_settlements (save_topUp r s) = st_settlements s"
  "st_adjustments (save_topUp r s) = st_adjustments s" "st_topUpHolds (save_topUp r s) = st_topUpHolds s"
  "st_creditPurchases (save_topUp r s) = st_creditPurchases s"
  by (simp_all add: save_topUp_def)

lemma save_adjustment_frame [frame_simps]:
  "st_periods (save_adjustment r s) = st_periods s" "st_jobs (save_adjustment r s) = st_jobs s"
  "st_attempts (save_adjustment r s) = st_attempts s" "st_settlements (save_adjustment r s) = st_settlements s"
  "st_topUps (save_adjustment r s) = st_topUps s" "st_topUpHolds (save_adjustment r s) = st_topUpHolds s"
  "st_creditPurchases (save_adjustment r s) = st_creditPurchases s"
  by (simp_all add: save_adjustment_def)

lemma push_period_frame [frame_simps]:
  "st_jobs (push_period r s) = st_jobs s" "st_attempts (push_period r s) = st_attempts s"
  "st_settlements (push_period r s) = st_settlements s" "st_adjustments (push_period r s) = st_adjustments s"
  "st_topUps (push_period r s) = st_topUps s" "st_topUpHolds (push_period r s) = st_topUpHolds s"
  "st_creditPurchases (push_period r s) = st_creditPurchases s"
  by (simp_all add: push_period_def)

lemma save_job_frame [frame_simps]:
  "st_periods (save_job r s) = st_periods s" "st_attempts (save_job r s) = st_attempts s"
  "st_settlements (save_job r s) = st_settlements s" "st_adjustments (save_job r s) = st_adjustments s"
  "st_topUps (save_job r s) = st_topUps s" "st_topUpHolds (save_job r s) = st_topUpHolds s"
  "st_creditPurchases (save_job r s) = st_creditPurchases s"
  by (simp_all add: save_job_def)

lemma save_creditPurchase_frame [frame_simps]:
  "st_periods (save_creditPurchase r s) = st_periods s" "st_jobs (save_creditPurchase r s) = st_jobs s"
  "st_attempts (save_creditPurchase r s) = st_attempts s" "st_settlements (save_creditPurchase r s) = st_settlements s"
  "st_adjustments (save_creditPurchase r s) = st_adjustments s" "st_topUps (save_creditPurchase r s) = st_topUps s"
  "st_topUpHolds (save_creditPurchase r s) = st_topUpHolds s"
  by (simp_all add: save_creditPurchase_def)

lemma expire_frame [frame_simps]:
  "st_periods (expire_topUpHolds t o' at s) = st_periods s" "st_jobs (expire_topUpHolds t o' at s) = st_jobs s"
  "st_attempts (expire_topUpHolds t o' at s) = st_attempts s" "st_settlements (expire_topUpHolds t o' at s) = st_settlements s"
  "st_adjustments (expire_topUpHolds t o' at s) = st_adjustments s" "st_topUps (expire_topUpHolds t o' at s) = st_topUps s"
  "st_creditPurchases (expire_topUpHolds t o' at s) = st_creditPurchases s"
  by (simp_all add: expire_topUpHolds_def)

lemma row_sum_map_le:
  assumes "\<And>x. x \<in> set xs \<Longrightarrow> (if P (g x) then f (g x) else 0) \<le> (if P x then f x else 0)"
  shows "row_sum P f (map g xs) \<le> row_sum P f xs"
  using assms
proof (induction xs)
  case (Cons x xs)
  have "(if P (g x) then f (g x) else 0) \<le> (if P x then f x else 0)" by (rule Cons.prems) simp
  moreover have "row_sum P f (map g xs) \<le> row_sum P f xs" by (rule Cons.IH) (simp add: Cons.prems)
  ultimately show ?case by simp
qed simp

text \<open>The sweep lets go only of holds that no longer count at its time or later.\<close>

lemma lease_held_expire:
  assumes "at \<le> u"
  shows "lease_held t o' u (expire_topUpHolds t' o'' at s) = lease_held t o' u s"
proof -
  have "row_sum (\<lambda>r. th_tenantId r = t \<and> th_organizationId r = o' \<and> lease_live u r) th_amountMicroUsd (map (expire_hold t' o'' at) xs)
      = row_sum (\<lambda>r. th_tenantId r = t \<and> th_organizationId r = o' \<and> lease_live u r) th_amountMicroUsd xs" for xs
    using assms by (induction xs) (auto simp: expire_hold_def lease_live_def)
  then show ?thesis by (simp add: lease_held_def expire_topUpHolds_def)
qed

lemma lease_held_expire_le:
  assumes "\<And>r. r \<in> set (st_topUpHolds s) \<Longrightarrow> 0 \<le> th_amountMicroUsd r"
  shows "lease_held t o' u (expire_topUpHolds t' o'' at s) \<le> lease_held t o' u s"
  unfolding lease_held_def expire_topUpHolds_def
  using assms by (auto intro!: row_sum_map_le simp: expire_hold_def lease_live_def)

lemma lease_spent_expire: "lease_spent t o' (expire_topUpHolds t' o'' at s) = lease_spent t o' s"
proof -
  have "row_sum (\<lambda>r. th_tenantId r = t \<and> th_organizationId r = o' \<and> th_state r = HoldSettled) th_debitMicroUsd (map (expire_hold t' o'' at) xs)
      = row_sum (\<lambda>r. th_tenantId r = t \<and> th_organizationId r = o' \<and> th_state r = HoldSettled) th_debitMicroUsd xs" for xs
    by (induction xs) (auto simp: expire_hold_def)
  then show ?thesis by (simp add: lease_spent_def expire_topUpHolds_def)
qed

text \<open>Time alone only frees bought credits.\<close>

lemma lease_held_later:
  assumes "at \<le> u" and "\<And>r. r \<in> set (st_topUpHolds s) \<Longrightarrow> 0 \<le> th_amountMicroUsd r"
  shows "lease_held t o' u s \<le> lease_held t o' at s"
  unfolding lease_held_def using assms by (intro row_sum_mono) (auto simp: lease_live_def)

text \<open>The dispatch claim moves no money.\<close>

lemma claim_sums:
  assumes "\<And>r. P (r\<lparr>fa_dispatchedAt := Some at\<rparr>) = P r" and "\<And>r. f (r\<lparr>fa_dispatchedAt := Some at\<rparr>) = f r"
  shows "row_sum P f (st_attempts (snd (claim_dispatch t i at s))) = row_sum P f (st_attempts s)"
  using assms by (auto simp: claim_dispatch_def row_sum_upsert split: option.split)

end
