(* ===== verification/Funding_Reports.thy ===== *)
theory Funding_Reports
  imports Funding_Attempts
begin

text \<open>
  Corrections and the usage projections of \<open>FundingService\<close>.
\<close>

section \<open>Corrections\<close>

record correction_input =
  ci_tenantId :: string
  ci_organizationId :: string
  ci_adjustmentId :: string
  ci_periodId :: string
  ci_direction :: adjustment_direction
  ci_amountMicroUsd :: int
  ci_attemptRef :: "string option"
  ci_note :: string

definition record_correction :: "int \<Rightarrow> correction_input \<Rightarrow> fstate \<Rightarrow> credit_adjustment outcome" where
  "record_correction now input s =
     rbind (require_id (JStr (ci_tenantId input))) (\<lambda>tenantId. rbind (require_id (JStr (ci_organizationId input))) (\<lambda>organizationId.
     rbind (require_id (JStr (ci_adjustmentId input))) (\<lambda>adjustmentId.
     rbind (require_money (JInt (ci_amountMicroUsd input)) True) (\<lambda>amount.
     rbind (case ci_attemptRef input of None \<Rightarrow> Inr '''' | Some r \<Rightarrow> require_id (JStr r)) (\<lambda>_.
     (let note = js_trim (ci_note input) in
      if note = '''' \<or> utf16_units note > 500 then Inl (FundingError 422 ''invalid_request'')
      else case tx_adjustment tenantId adjustmentId s of
        Some existing \<Rightarrow>
          (if ad_organizationId existing \<noteq> organizationId \<or> ad_periodId existing \<noteq> ci_periodId input
              \<or> ad_direction existing \<noteq> ci_direction input \<or> ad_amountMicroUsd existing \<noteq> amount
              \<or> ad_attemptRef existing \<noteq> ci_attemptRef input \<or> ad_note existing \<noteq> note
             then Inl (FundingError 409 ''adjustment_conflict'') else Inr (existing, s))
      | None \<Rightarrow>
          (case tx_period tenantId organizationId (ci_periodId input) s of
             None \<Rightarrow> Inl (FundingError 404 ''unknown_period'')
           | Some period \<Rightarrow>
             rbind (if ci_direction input = WithdrawCredits then
                 rbind (tx_periodTotals tenantId organizationId (ci_periodId input) s) (\<lambda>totals.
                 rmap (\<lambda>available. amount > available) (monthly_available period totals))
               else Inr False) (\<lambda>beyond.
             if beyond then Inl (FundingError 402 ''insufficient_allowance'')
             else (let row = \<lparr>ad_tenantId = tenantId, ad_organizationId = organizationId, ad_id = adjustmentId,
                     ad_periodId = ci_periodId input, ad_direction = ci_direction input, ad_amountMicroUsd = amount,
                     ad_at = now, ad_note = note, ad_attemptRef = ci_attemptRef input\<rparr>
               in Inr (row, save_adjustment row s))))))))))"

section \<open>Projections\<close>

datatype usage_state = UsageUnavailable | UsageReady usage_projection

definition projected :: "credit_period \<Rightarrow> projected_period" where
  "projected period = \<lparr>pp_periodId = cp_periodId period, pp_planId = cp_planId period,
     pp_grantedMicroUsd = cp_grantedMicroUsd period, pp_startsAt = cp_startsAt period, pp_endsAt = cp_endsAt period,
     pp_rateCardVersion = cp_rateCardVersion period\<rparr>"

definition project_period ::
  "int \<Rightarrow> string \<Rightarrow> string \<Rightarrow> string \<Rightarrow> projected_period \<Rightarrow> allocation option \<Rightarrow> fstate \<Rightarrow> usage_state outcome" where
  "project_period observedAt tenantId organizationId periodId period allocated s =
     rbind (tx_periodTotals tenantId organizationId periodId s) (\<lambda>totals.
     rbind (tx_topUpTotals tenantId organizationId observedAt s) (\<lambda>topUp.
     rbind (project_usage organizationId period totals topUp (last_receipt tenantId organizationId periodId s)
              observedAt allocated) (\<lambda>p.
     Inr (UsageReady p, s))))"

definition projection :: "int \<Rightarrow> string \<Rightarrow> string \<Rightarrow> fstate \<Rightarrow> usage_state outcome" where
  "projection observedAt tenantId organizationId s =
     rbind (require_id (JStr tenantId)) (\<lambda>_. rbind (require_id (JStr organizationId)) (\<lambda>_.
     rbind (period_id_for observedAt) (\<lambda>periodId.
     case tx_period tenantId organizationId periodId s of
       None \<Rightarrow> Inr (UsageUnavailable, s)
     | Some period \<Rightarrow> project_period observedAt tenantId organizationId periodId (projected period) None s)))"

definition individual_projection :: "int \<Rightarrow> string \<Rightarrow> string \<Rightarrow> jval \<Rightarrow> fstate \<Rightarrow> usage_state outcome" where
  "individual_projection observedAt tenantId organizationId verified s =
     rbind (require_id (JStr tenantId)) (\<lambda>_. rbind (require_id (JStr organizationId)) (\<lambda>_.
     rbind (published_monthly_grant ''individual'') (\<lambda>grant.
     case (verified_individual_cycle verified, grant) of
       (Some cycle, Some granted) \<Rightarrow>
         (if \<not> cycle_contains cycle observedAt then Inr (UsageUnavailable, s)
          else rbind (individual_cycle_id (ic_startsAt cycle)) (\<lambda>periodId.
            case tx_period tenantId organizationId periodId s of
              Some period \<Rightarrow>
                (if cp_planId period \<noteq> ''individual'' \<or> cp_startsAt period \<noteq> ic_startsAt cycle
                    \<or> cp_endsAt period \<noteq> ic_endsAt cycle
                   then Inr (UsageUnavailable, s)
                 else project_period observedAt tenantId organizationId periodId (projected period) (Some AllocationRecorded) s)
            | None \<Rightarrow> project_period observedAt tenantId organizationId periodId
                \<lparr>pp_periodId = periodId, pp_planId = ''individual'', pp_grantedMicroUsd = granted,
                 pp_startsAt = ic_startsAt cycle, pp_endsAt = ic_endsAt cycle, pp_rateCardVersion = rc_version rate_card_v1\<rparr>
                (Some AllocationPending) s))
     | _ \<Rightarrow> Inr (UsageUnavailable, s))))"

section \<open>What the operations do\<close>

lemma record_correction_Inr:
  assumes "record_correction now input s = Inr (row, s')"
  obtains (replay) "tx_adjustment (ci_tenantId input) (ci_adjustmentId input) s = Some row" "s' = s"
    | (fresh) period where "tx_adjustment (ci_tenantId input) (ci_adjustmentId input) s = None"
      "s' = save_adjustment row s" "ad_tenantId row = ci_tenantId input" "ad_organizationId row = ci_organizationId input"
      "ad_id row = ci_adjustmentId input" "ad_periodId row = ci_periodId input" "ad_direction row = ci_direction input"
      "ad_amountMicroUsd row = ci_amountMicroUsd input" "is_money (ad_amountMicroUsd row)"
      "tx_period (ci_tenantId input) (ci_organizationId input) (ci_periodId input) s = Some period"
      "ci_direction input = WithdrawCredits \<Longrightarrow> \<exists>totals available.
         tx_periodTotals (ci_tenantId input) (ci_organizationId input) (ci_periodId input) s = Inr totals
         \<and> monthly_available period totals = Inr available \<and> ad_amountMicroUsd row \<le> available"
proof (cases "tx_adjustment (ci_tenantId input) (ci_adjustmentId input) s")
  case (Some existing)
  with assms show thesis
    by (intro replay) (auto simp: record_correction_def Let_def rbind_Inr_iff require_id_Inr require_money_Inr split: if_splits)
next
  case None
  with assms obtain period where money: "is_money (ci_amountMicroUsd input)"
    and period: "tx_period (ci_tenantId input) (ci_organizationId input) (ci_periodId input) s = Some period"
    and limit: "ci_direction input = WithdrawCredits \<Longrightarrow> \<exists>totals available.
         tx_periodTotals (ci_tenantId input) (ci_organizationId input) (ci_periodId input) s = Inr totals
         \<and> monthly_available period totals = Inr available \<and> ci_amountMicroUsd input \<le> available"
    and row: "row = \<lparr>ad_tenantId = ci_tenantId input, ad_organizationId = ci_organizationId input,
         ad_id = ci_adjustmentId input, ad_periodId = ci_periodId input, ad_direction = ci_direction input,
         ad_amountMicroUsd = ci_amountMicroUsd input, ad_at = now, ad_note = js_trim (ci_note input),
         ad_attemptRef = ci_attemptRef input\<rparr>" "s' = save_adjustment row s"
    by (cases "ci_direction input")
      (auto simp: record_correction_def Let_def rbind_Inr_iff rmap_Inr_iff require_id_Inr require_money_Inr
        case_option_Inr_iff not_less split: if_splits)
  then show thesis using None by (intro fresh [OF None, of period]) simp_all
qed

text \<open>The projections write nothing.\<close>

lemma project_period_state: "project_period at t o' p period allocated s = Inr (u, s') \<Longrightarrow> s' = s"
  by (auto simp: project_period_def result_simps)

lemma projection_state: "projection at t o' s = Inr (u, s') \<Longrightarrow> s' = s"
  by (auto simp: projection_def result_simps dest: project_period_state)

lemma individual_projection_state: "individual_projection at t o' v s = Inr (u, s') \<Longrightarrow> s' = s"
  by (auto simp: individual_projection_def result_simps dest: project_period_state split: prod.splits option.splits if_splits)

end
