(* ===== verification/Member_Limits.thy ===== *)
theory Member_Limits
  imports Funding_Sums Funding_Reports
begin

text \<open>
  \<open>services/control-plane/src/member-limits.ts\<close>, class \<open>MemberLimits\<close>: the limits an owner or admin sets, a
  member's ask for more and its answer, and the usage reads.
\<close>

section \<open>Who may\<close>

record actor =
  ac_personId :: string
  ac_role :: member_role

definition manages :: "member_role \<Rightarrow> bool" where
  "manages role \<longleftrightarrow> role = Owner \<or> role = Admin"

definition not_authorized :: thrown where "not_authorized = FundingError 403 ''not_authorized''"
definition owner_only :: thrown where "owner_only = FundingError 403 ''owner_required''"

definition assert_may_limit :: "actor \<Rightarrow> member_role \<Rightarrow> unit res" where
  "assert_may_limit actor targetRole =
     (if \<not> manages (ac_role actor) then Inl not_authorized
      else if ac_role actor = Admin \<and> targetRole \<noteq> Member then Inl owner_only else Inr ())"

text \<open>This module's own reading of the bought balance throws when it is overdrawn.\<close>

definition free_topUp :: "top_up_totals \<Rightarrow> int res" where
  "free_topUp totals =
     rbind (sum_money [tt_heldMicroUsd totals, tt_settledMicroUsd totals]) (\<lambda>used.
     subtract_money (tt_purchasedMicroUsd totals) used)"

definition current_period :: "int \<Rightarrow> string \<Rightarrow> string \<Rightarrow> fstate \<Rightarrow> (string \<times> credit_period option) res" where
  "current_period at tenantId organizationId s =
     rmap (\<lambda>periodId. (periodId, tx_period tenantId organizationId periodId s)) (period_id_for at)"

definition members_see_own :: "allotment_settings option \<Rightarrow> bool" where
  "members_see_own settings = (case settings of None \<Rightarrow> True | Some row \<Rightarrow> as_membersSeeOwnUsage row)"

definition admins_see_usage :: "allotment_settings option \<Rightarrow> bool" where
  "admins_see_usage settings = (case settings of None \<Rightarrow> True | Some row \<Rightarrow> as_adminsSeeMemberUsage row)"

section \<open>Limits and settings\<close>

record role_limit_view =
  rv_role :: member_role
  rv_mode :: limit_mode
  rv_limitMicroUsd :: "int option"
  rv_effectiveMicroUsd :: "int option"
  rv_ownSource :: bool

record limits_view =
  lv_periodId :: string
  lv_planId :: "string option"
  lv_defaultMemberLimitMicroUsd :: "int option"
  lv_roles :: "role_limit_view list"
  lv_people :: "(string \<times> limit_mode \<times> int option) list"
  lv_membersSeeOwnUsage :: bool
  lv_adminsSeeMemberUsage :: bool

definition role_view :: "credit_period option \<Rightarrow> member_limit list \<Rightarrow> member_role \<Rightarrow> role_limit_view res" where
  "role_view period rows role =
     (let row = find (\<lambda>item. ls_subjectKind item = RoleSubject \<and> ls_subjectId item = role_text role) rows in
      rbind (case period of None \<Rightarrow> Inr \<lparr>el_limitMicroUsd = None, el_source = FromDefault\<rparr>
             | Some p \<Rightarrow> effective_limit_for role ''-''
                 (filter (\<lambda>item. ls_subjectKind item = RoleSubject) (map setting_of rows)) (cp_planId p) (cp_grantedMicroUsd p))
        (\<lambda>effective. Inr \<lparr>rv_role = role, rv_mode = (case row of None \<Rightarrow> Inherit | Some r \<Rightarrow> ls_mode r),
           rv_limitMicroUsd = (case row of None \<Rightarrow> None | Some r \<Rightarrow> ls_limitMicroUsd r),
           rv_effectiveMicroUsd = el_limitMicroUsd effective, rv_ownSource = (el_source effective \<noteq> FromDefault)\<rparr>))"

definition read_limits :: "int \<Rightarrow> string \<Rightarrow> string \<Rightarrow> actor \<Rightarrow> fstate \<Rightarrow> limits_view outcome" where
  "read_limits at tenantId organizationId actor s =
     rbind (require_id (JStr tenantId)) (\<lambda>_. rbind (require_id (JStr organizationId)) (\<lambda>_.
     if \<not> manages (ac_role actor) then Inl not_authorized
     else rbind (current_period at tenantId organizationId s) (\<lambda>(periodId, period).
       (let rows = member_limits tenantId organizationId s; settings = tx_allotmentSettings tenantId organizationId s in
        rbind (case period of None \<Rightarrow> Inr None | Some p \<Rightarrow> default_limit_for Member (cp_planId p) (cp_grantedMicroUsd p)) (\<lambda>memberDefault.
        rbind (rmapM (role_view period rows) [Member, Admin]) (\<lambda>roles.
        Inr (\<lparr>lv_periodId = periodId, lv_planId = map_option cp_planId period, lv_defaultMemberLimitMicroUsd = memberDefault,
              lv_roles = roles,
              lv_people = map (\<lambda>row. (ls_subjectId row, ls_mode row, ls_limitMicroUsd row))
                (filter (\<lambda>row. ls_subjectKind row = PersonSubject \<and> ls_mode row \<noteq> Inherit) rows),
              lv_membersSeeOwnUsage = members_see_own settings,
              lv_adminsSeeMemberUsage = admins_see_usage settings\<rparr>, s)))))))"

datatype limit_subject = RoleLimit member_role | PersonLimit string

fun subject_of :: "limit_subject \<Rightarrow> subject_kind \<times> string" where
  "subject_of (RoleLimit role) = (RoleSubject, role_text role)"
| "subject_of (PersonLimit personId) = (PersonSubject, personId)"

definition check_subject :: "actor \<Rightarrow> limit_subject \<Rightarrow> member_role option \<Rightarrow> unit res" where
  "check_subject actor subject targetRole =
     (case subject of
        RoleLimit role \<Rightarrow>
          (if role = Owner then Inl (FundingError 422 ''invalid_request'') else assert_may_limit actor role)
      | PersonLimit personId \<Rightarrow>
          rbind (require_id (JStr personId)) (\<lambda>_.
          case targetRole of None \<Rightarrow> Inl (FundingError 404 ''unknown_member'')
          | Some role \<Rightarrow> assert_may_limit actor role))"

definition set_limit ::
  "int \<Rightarrow> string \<Rightarrow> string \<Rightarrow> actor \<Rightarrow> limit_subject \<Rightarrow> member_role option \<Rightarrow> limit_mode \<Rightarrow> int option
     \<Rightarrow> fstate \<Rightarrow> member_limit outcome" where
  "set_limit at tenantId organizationId actor subject targetRole mode limitMicroUsd s =
     rbind (require_id (JStr tenantId)) (\<lambda>_. rbind (require_id (JStr organizationId)) (\<lambda>_.
     rbind (require_id (JStr (ac_personId actor))) (\<lambda>_.
     rbind (check_subject actor subject targetRole) (\<lambda>_.
     rbind (if mode = LimitTo then
         (case limitMicroUsd of None \<Rightarrow> Inl (FundingError 422 ''invalid_amount'')
          | Some n \<Rightarrow> rmap Some (require_money (JInt n) False))
       else if limitMicroUsd \<noteq> None then Inl (FundingError 422 ''invalid_amount'') else Inr None) (\<lambda>limit.
     (let (kind, subjectId) = subject_of subject in
      case find (\<lambda>row. ls_subjectKind row = kind \<and> ls_subjectId row = subjectId) (member_limits tenantId organizationId s) of
        Some existing \<Rightarrow>
          (if ls_mode existing = mode \<and> ls_limitMicroUsd existing = limit then Inr (existing, s)
           else (let row = \<lparr>ls_subjectKind = kind, ls_subjectId = subjectId, ls_mode = mode, ls_limitMicroUsd = limit,
                   ml_tenantId = tenantId, ml_organizationId = organizationId, ml_updatedBy = ac_personId actor,
                   ml_updatedAt = at\<rparr> in Inr (row, save_memberLimit row s)))
      | None \<Rightarrow>
          (let row = \<lparr>ls_subjectKind = kind, ls_subjectId = subjectId, ls_mode = mode, ls_limitMicroUsd = limit,
             ml_tenantId = tenantId, ml_organizationId = organizationId, ml_updatedBy = ac_personId actor,
             ml_updatedAt = at\<rparr> in Inr (row, save_memberLimit row s))))))))"

definition set_settings ::
  "int \<Rightarrow> string \<Rightarrow> string \<Rightarrow> actor \<Rightarrow> bool option \<Rightarrow> bool option \<Rightarrow> fstate \<Rightarrow> allotment_settings outcome" where
  "set_settings at tenantId organizationId actor membersSeeOwnUsage adminsSeeMemberUsage s =
     rbind (require_id (JStr tenantId)) (\<lambda>_. rbind (require_id (JStr organizationId)) (\<lambda>_.
     if ac_role actor \<noteq> Owner then Inl owner_only
     else
       (let existing = tx_allotmentSettings tenantId organizationId s;
            row = \<lparr>as_tenantId = tenantId, as_organizationId = organizationId,
              as_membersSeeOwnUsage = nullish membersSeeOwnUsage (members_see_own existing),
              as_adminsSeeMemberUsage = nullish adminsSeeMemberUsage (admins_see_usage existing),
              as_updatedBy = ac_personId actor, as_updatedAt = at\<rparr>
        in case existing of
             Some old \<Rightarrow>
               (if as_membersSeeOwnUsage old = as_membersSeeOwnUsage row \<and> as_adminsSeeMemberUsage old = as_adminsSeeMemberUsage row
                  then Inr (old, s) else Inr (row, save_allotmentSettings row s))
           | None \<Rightarrow> Inr (row, save_allotmentSettings row s))))"

section \<open>Usage reads\<close>

record member_usage_view =
  mv_usedMicroUsd :: int
  mv_includedMicroUsd :: int
  mv_purchasedMicroUsd :: int
  mv_heldMicroUsd :: int

definition usage_view :: "member_usage_row \<Rightarrow> member_usage_view" where
  "usage_view row = \<lparr>mv_usedMicroUsd = mu_includedMicroUsd row + mu_purchasedMicroUsd row,
     mv_includedMicroUsd = mu_includedMicroUsd row, mv_purchasedMicroUsd = mu_purchasedMicroUsd row,
     mv_heldMicroUsd = mu_heldMicroUsd row\<rparr>"

definition zero_usage :: "string \<Rightarrow> member_usage_row" where
  "zero_usage personId = \<lparr>mu_personId = personId, mu_includedMicroUsd = 0, mu_purchasedMicroUsd = 0, mu_heldMicroUsd = 0\<rparr>"

definition extra_sum :: "limit_request list \<Rightarrow> int" where
  "extra_sum rows = foldl (\<lambda>total row. total + nullish (lr_extraMicroUsd row) 0) 0 rows"

definition last_n :: "nat \<Rightarrow> 'a list \<Rightarrow> 'a list" where
  "last_n n xs = drop (length xs - n) xs"

record my_usage =
  my_periodId :: string
  my_resetsAt :: int
  my_usage :: member_usage_view
  my_limitMicroUsd :: "int option"
  my_raisedByMicroUsd :: int
  my_requests :: "limit_request list"

datatype my_credit_usage = MineHidden | MineUnavailable | MineReady my_usage

definition read_mine :: "int \<Rightarrow> string \<Rightarrow> string \<Rightarrow> actor \<Rightarrow> fstate \<Rightarrow> my_credit_usage outcome" where
  "read_mine at tenantId organizationId actor s =
     rbind (require_id (JStr tenantId)) (\<lambda>_. rbind (require_id (JStr organizationId)) (\<lambda>_.
     rbind (require_id (JStr (ac_personId actor))) (\<lambda>personId.
     if ac_role actor = Member \<and> \<not> members_see_own (tx_allotmentSettings tenantId organizationId s)
       then Inr (MineHidden, s)
     else rbind (current_period at tenantId organizationId s) (\<lambda>(periodId, period).
       case period of None \<Rightarrow> Inr (MineUnavailable, s)
       | Some period \<Rightarrow>
         rbind (tx_memberUsage tenantId organizationId period (Some personId) at s) (\<lambda>rows.
         (let usage = (case rows of [] \<Rightarrow> zero_usage personId | row # _ \<Rightarrow> row);
              requests = limit_requests tenantId organizationId (Some personId) None s;
              raisedBy = extra_sum (filter (\<lambda>row. lr_state row = AskApproved \<and> lr_kind row = AskMonth
                \<and> lr_periodId row = Some periodId) requests) in
          rbind (effective_limit_for (ac_role actor) personId (map setting_of (member_limits tenantId organizationId s))
                   (cp_planId period) (cp_grantedMicroUsd period)) (\<lambda>eff.
          Inr (MineReady \<lparr>my_periodId = periodId, my_resetsAt = cp_endsAt period, my_usage = usage_view usage,
            my_limitMicroUsd = el_limitMicroUsd eff, my_raisedByMicroUsd = raisedBy,
            my_requests = last_n 20 requests\<rparr>, s))))))))"

record member_report_row =
  mr_personId :: string
  mr_role :: "member_role option"
  mr_usage :: member_usage_view
  mr_limitMicroUsd :: "int option"
  mr_limitSource :: limit_source
  mr_raisedByMicroUsd :: int

datatype usage_report = ReportUnavailable | ReportReady string int int "member_report_row list"

text \<open>The elements of a \<open>Set\<close>, in insertion order.\<close>

definition insertion_set :: "'a list \<Rightarrow> 'a list" where
  "insertion_set xs = foldl (\<lambda>acc x. if x \<in> set acc then acc else acc @ [x]) [] xs"

definition report_row ::
  "credit_period \<Rightarrow> string \<Rightarrow> (string \<times> member_role) list \<Rightarrow> member_usage_row list \<Rightarrow> limit_setting list
     \<Rightarrow> limit_request list \<Rightarrow> string \<Rightarrow> member_report_row res" where
  "report_row period periodId people used rows requests personId =
     (let role = map_option snd (find (\<lambda>p. fst p = personId) people);
          usage = (case find (\<lambda>row. mu_personId row = personId) used of None \<Rightarrow> zero_usage personId | Some row \<Rightarrow> row) in
      rbind (case role of None \<Rightarrow> Inr \<lparr>el_limitMicroUsd = None, el_source = FromDefault\<rparr>
             | Some r \<Rightarrow> effective_limit_for r personId rows (cp_planId period) (cp_grantedMicroUsd period)) (\<lambda>eff.
      Inr \<lparr>mr_personId = personId, mr_role = role, mr_usage = usage_view usage, mr_limitMicroUsd = el_limitMicroUsd eff,
        mr_limitSource = el_source eff,
        mr_raisedByMicroUsd = extra_sum (filter (\<lambda>row. lr_personId row = personId \<and> lr_kind row = AskMonth
          \<and> lr_periodId row = Some periodId) requests)\<rparr>))"

definition read_report :: "int \<Rightarrow> string \<Rightarrow> string \<Rightarrow> actor \<Rightarrow> (string \<times> member_role) list \<Rightarrow> fstate \<Rightarrow> usage_report outcome" where
  "read_report at tenantId organizationId actor people s =
     rbind (require_id (JStr tenantId)) (\<lambda>_. rbind (require_id (JStr organizationId)) (\<lambda>_.
     if \<not> manages (ac_role actor) then Inl not_authorized
     else if ac_role actor = Admin \<and> \<not> admins_see_usage (tx_allotmentSettings tenantId organizationId s) then Inl not_authorized
     else rbind (current_period at tenantId organizationId s) (\<lambda>(periodId, period).
       case period of None \<Rightarrow> Inr (ReportUnavailable, s)
       | Some period \<Rightarrow>
         rbind (tx_memberUsage tenantId organizationId period None at s) (\<lambda>used.
         rbind (rmapM (report_row period periodId people used (map setting_of (member_limits tenantId organizationId s))
                  (limit_requests tenantId organizationId None (Some AskApproved) s))
              (insertion_set (map fst people @ map mu_personId used))) (\<lambda>members.
         Inr (ReportReady periodId (cp_startsAt period) (cp_endsAt period) members, s))))))"

section \<open>Asking for more and deciding\<close>

definition ask_raise ::
  "int \<Rightarrow> string \<Rightarrow> string \<Rightarrow> string \<Rightarrow> actor \<Rightarrow> limit_request_kind \<Rightarrow> string option \<Rightarrow> fstate \<Rightarrow> limit_request outcome" where
  "ask_raise at tenantId organizationId requestId actor kind jobId s =
     rbind (require_id (JStr tenantId)) (\<lambda>_. rbind (require_id (JStr organizationId)) (\<lambda>_.
     rbind (require_id (JStr requestId)) (\<lambda>_. rbind (require_id (JStr (ac_personId actor))) (\<lambda>personId.
     rbind (if kind = AskJob then (case jobId of None \<Rightarrow> Inl (FundingError 422 ''invalid_request'')
              | Some j \<Rightarrow> rmap Some (require_id (JStr j))) else Inr None) (\<lambda>rootJobId.
     if kind = AskMonth \<and> jobId \<noteq> None then Inl (FundingError 422 ''invalid_request'')
     else case tx_limitRequest tenantId requestId s of
       Some existing \<Rightarrow>
         (if lr_organizationId existing \<noteq> organizationId \<or> lr_personId existing \<noteq> personId \<or> lr_kind existing \<noteq> kind
             \<or> lr_rootJobId existing \<noteq> rootJobId
            then Inl (FundingError 409 ''limit_request_conflict'') else Inr (existing, s))
     | None \<Rightarrow>
         rbind (case rootJobId of None \<Rightarrow> Inr () | Some j \<Rightarrow> rmap (\<lambda>_. ()) (own_job tenantId organizationId j s)) (\<lambda>_.
         case find (\<lambda>row. lr_kind row = kind \<and> lr_rootJobId row = rootJobId
                \<and> (lr_state row = AskPending \<or> lr_kind row = AskJob \<and> lr_state row = AskApproved))
              (limit_requests tenantId organizationId (Some personId) None s) of
           Some same \<Rightarrow> Inr (same, s)
         | None \<Rightarrow>
           (let row = \<lparr>lr_tenantId = tenantId, lr_organizationId = organizationId, lr_requestId = requestId,
              lr_personId = personId, lr_requesterRole = ac_role actor, lr_kind = kind, lr_rootJobId = rootJobId,
              lr_state = AskPending, lr_requestedAt = at, lr_decidedBy = None, lr_decidedAt = None,
              lr_extraMicroUsd = None, lr_allowPurchased = False, lr_periodId = None\<rparr>
            in Inr (row, save_limitRequest row s))))))))"

definition read_requests ::
  "string \<Rightarrow> string \<Rightarrow> actor \<Rightarrow> limit_request_state option \<Rightarrow> fstate \<Rightarrow> limit_request list outcome" where
  "read_requests tenantId organizationId actor state s =
     rbind (require_id (JStr tenantId)) (\<lambda>_. rbind (require_id (JStr organizationId)) (\<lambda>_.
     rbind (if manages (ac_role actor) then Inr None else rmap Some (require_id (JStr (ac_personId actor)))) (\<lambda>person.
     Inr (limit_requests tenantId organizationId person state s, s))))"

text \<open>What an approval adds, and the period it covers.\<close>

definition raise_terms :: "int \<Rightarrow> string \<Rightarrow> string \<Rightarrow> limit_request \<Rightarrow> int option \<Rightarrow> fstate \<Rightarrow> (int \<times> string option) res" where
  "raise_terms at tenantId organizationId request extraMicroUsd s =
     (if lr_kind request = AskJob then
        rmap (\<lambda>job. (fj_capMicroUsd job, None)) (own_job tenantId organizationId (nullish (lr_rootJobId request) '''') s)
      else (case extraMicroUsd of None \<Rightarrow> Inl (FundingError 422 ''invalid_amount'')
        | Some n \<Rightarrow> rbind (require_money (JInt n) True) (\<lambda>extra.
            if extra > max_money then Inl (FundingError 422 ''invalid_amount'')
            else rmap (\<lambda>periodId. (extra, Some periodId)) (period_id_for at))))"

definition decide_raise ::
  "int \<Rightarrow> string \<Rightarrow> string \<Rightarrow> string \<Rightarrow> actor \<Rightarrow> bool \<Rightarrow> int option \<Rightarrow> bool option \<Rightarrow> fstate \<Rightarrow> limit_request outcome" where
  "decide_raise at tenantId organizationId requestId actor approve extraMicroUsd allow s =
     rbind (require_id (JStr tenantId)) (\<lambda>_. rbind (require_id (JStr organizationId)) (\<lambda>_.
     rbind (require_id (JStr requestId)) (\<lambda>_. rbind (require_id (JStr (ac_personId actor))) (\<lambda>_.
     if \<not> manages (ac_role actor) then Inl not_authorized
     else case tx_limitRequest tenantId requestId s of
       None \<Rightarrow> Inl (FundingError 404 ''unknown_limit_request'')
     | Some request \<Rightarrow>
     if lr_organizationId request \<noteq> organizationId then Inl (FundingError 404 ''unknown_limit_request'')
     else if ac_role actor = Admin \<and> (lr_requesterRole request \<noteq> Member \<or> lr_personId request = ac_personId actor)
       then Inl owner_only
     else if lr_state request \<noteq> AskPending then Inr (request, s)
     else if \<not> approve then
       (let denied = request\<lparr>lr_state := AskDenied, lr_decidedBy := Some (ac_personId actor), lr_decidedAt := Some at\<rparr>
        in Inr (denied, save_limitRequest denied s))
     else
       rbind (raise_terms at tenantId organizationId request extraMicroUsd s) (\<lambda>(extra, periodId).
       (let allowPurchased = (allow = Some True) in
        rbind (if allowPurchased then
                 rbind (tx_topUpTotals tenantId organizationId at s) (\<lambda>totals. rmap (\<lambda>free. free = 0) (free_topUp totals))
               else Inr False) (\<lambda>noneFree.
        if noneFree then Inl (FundingError 402 ''no_purchased_usage'')
        else
          (let approved = request\<lparr>lr_state := AskApproved, lr_decidedBy := Some (ac_personId actor), lr_decidedAt := Some at,
                 lr_extraMicroUsd := Some extra, lr_allowPurchased := allowPurchased, lr_periodId := periodId\<rparr>
           in Inr (approved, save_limitRequest approved s)))))))))"

section \<open>What the operations do\<close>

text \<open>The tables of the ledger, which this module never writes.\<close>

definition same_ledger :: "fstate \<Rightarrow> fstate \<Rightarrow> bool" where
  "same_ledger s s' \<longleftrightarrow> st_periods s' = st_periods s \<and> st_jobs s' = st_jobs s \<and> st_attempts s' = st_attempts s
     \<and> st_settlements s' = st_settlements s \<and> st_adjustments s' = st_adjustments s \<and> st_topUps s' = st_topUps s
     \<and> st_topUpHolds s' = st_topUpHolds s \<and> st_creditPurchases s' = st_creditPurchases s"

lemma same_ledger_refl [simp]: "same_ledger s s"
  by (simp add: same_ledger_def)

lemma limits_writes_frame [simp]:
  "same_ledger s (save_memberLimit l s)" "same_ledger s (save_allotmentSettings a s)" "same_ledger s (save_limitRequest r s)"
  "same_ledger s (save_jobRef j s)" "same_ledger s (save_capRequest c s)" "same_ledger s (save_attemptPerson p s)"
  by (simp_all add: same_ledger_def save_memberLimit_def save_allotmentSettings_def save_limitRequest_def
      save_jobRef_def save_capRequest_def save_attemptPerson_def)

lemma set_limit_frame: "set_limit at t o' actor subject target mode limit s = Inr (row, s') \<Longrightarrow> same_ledger s s'"
  by (auto simp: set_limit_def result_simps Let_def case_prod_unfold)

lemma set_settings_frame: "set_settings at t o' actor m a s = Inr (row, s') \<Longrightarrow> same_ledger s s'"
  by (auto simp: set_settings_def result_simps Let_def case_prod_unfold)

lemma ask_raise_frame: "ask_raise at t o' i actor kind job s = Inr (row, s') \<Longrightarrow> same_ledger s s'"
  by (auto simp: ask_raise_def result_simps Let_def case_prod_unfold)

lemma decide_raise_frame: "decide_raise at t o' i actor ok extra allow s = Inr (row, s') \<Longrightarrow> same_ledger s s'"
  by (auto simp: decide_raise_def result_simps Let_def case_prod_unfold)

text \<open>Who decides: an owner, or an admin for a member other than themselves.\<close>

lemma decide_raise_authorized:
  assumes "decide_raise at t o' i actor ok extra allow s = Inr (row, s')"
  shows "ac_role actor = Owner \<or> ac_role actor = Admin"
    "\<exists>request. tx_limitRequest t i s = Some request \<and> lr_organizationId request = o'
      \<and> (ac_role actor = Admin \<longrightarrow> lr_requesterRole request = Member \<and> lr_personId request \<noteq> ac_personId actor)
      \<and> (lr_state request \<noteq> AskPending \<longrightarrow> row = request \<and> s' = s)"
  using assms
  by (auto simp: decide_raise_def result_simps manages_def Let_def case_prod_unfold)

lemma set_limit_authorized:
  assumes "set_limit at t o' actor subject target mode limit s = Inr (row, s')"
  shows "ac_role actor = Owner \<or> ac_role actor = Admin"
    "ac_role actor = Admin \<Longrightarrow> subject = RoleLimit Member \<or> (\<exists>p. subject = PersonLimit p \<and> target = Some Member)"
  using assms
  by (auto simp: set_limit_def rbind_Inr_iff check_subject_def assert_may_limit_def manages_def
      split: option.splits if_splits limit_subject.splits)

end
