(* ===== verification/Funding_Ledger.thy ===== *)
theory Funding_Ledger
  imports Member_Limits
begin

text \<open>
  What the service promises, said without its checks and codes: the ledger moves. A move records a
  period, a job, a top-up, a purchase, an adjustment or a hold within what is free, or carries a hold or
  an attempt one step forward. The ledger's invariants are proved once on the moves.
\<close>

section \<open>Steps of a row\<close>

definition same_terms :: "funded_attempt \<Rightarrow> funded_attempt \<Rightarrow> bool" where
  "same_terms old row \<longleftrightarrow> row = old\<lparr>fa_state := fa_state row, fa_resolvedAt := fa_resolvedAt row,
     fa_uncertainReason := fa_uncertainReason row, fa_dispatchedAt := fa_dispatchedAt row\<rparr>"

definition provider_refused :: "funded_attempt \<Rightarrow> bool" where
  "provider_refused row \<longleftrightarrow> (case fa_uncertainReason row of
     Some (ProviderRefused status _) \<Rightarrow> status \<in> set releasable_refusals | _ \<Rightarrow> False)"

definition was_sent :: "funded_attempt \<Rightarrow> bool" where
  "was_sent row \<longleftrightarrow> fa_dispatchedAt row \<noteq> None"

definition attempt_step :: "int \<Rightarrow> funded_attempt \<Rightarrow> funded_attempt \<Rightarrow> bool" where
  "attempt_step at old row \<longleftrightarrow> same_terms old row \<and>
     (fa_state old = Pending \<and> \<not> was_sent old \<and> fa_state row = Pending \<and> fa_dispatchedAt row = Some at
      \<or> fa_dispatchedAt row = fa_dispatchedAt old \<and>
        (fa_state old = Pending \<and> fa_state row = Released \<and> (was_sent old \<longrightarrow> provider_refused row)
         \<or> fa_state old = Pending \<and> was_sent old \<and> fa_state row = Uncertain
         \<or> fa_state old = Uncertain \<and> (fa_state row = Uncertain \<or> fa_state row = WrittenOff)))"

definition settlement_matches :: "funded_attempt \<Rightarrow> attempt_settlement \<Rightarrow> bool" where
  "settlement_matches a se \<longleftrightarrow> se_tenantId se = fa_tenantId a \<and> se_organizationId se = fa_organizationId a
     \<and> se_reservationId se = fa_id a \<and> se_periodId se = fa_periodId a
     \<and> 0 \<le> se_monthlyDebitMicroUsd se \<and> se_monthlyDebitMicroUsd se \<le> fa_monthlyHoldMicroUsd a
     \<and> 0 \<le> se_topUpDebitMicroUsd se \<and> se_topUpDebitMicroUsd se \<le> fa_topUpHoldMicroUsd a
     \<and> se_monthlyDebitMicroUsd se + se_topUpDebitMicroUsd se = se_allowanceDebitMicroUsd se"

definition settle_step :: "funded_attempt \<Rightarrow> funded_attempt \<Rightarrow> attempt_settlement \<Rightarrow> bool" where
  "settle_step old row se \<longleftrightarrow> same_terms old row \<and> fa_dispatchedAt row = fa_dispatchedAt old
     \<and> (fa_state old = Pending \<and> was_sent old \<or> fa_state old = Uncertain) \<and> fa_state row = Settled
     \<and> settlement_matches old se"

definition hold_step :: "int \<Rightarrow> top_up_hold \<Rightarrow> top_up_hold \<Rightarrow> bool" where
  "hold_step at old row \<longleftrightarrow>
     th_state old = HoldHeld \<and> at < th_leaseUntil old \<and> row = old\<lparr>th_leaseUntil := lease_from at\<rparr>
     \<or> th_state old = HoldHeld
       \<and> row = old\<lparr>th_state := HoldReleased, th_resolvedAt := Some at, th_releasedBy := Some ByPerson\<rparr>
     \<or> settles_hold at (th_debitMicroUsd row + th_absorbedMicroUsd row) (th_debitMicroUsd row) old row"

definition job_step :: "funded_job option \<Rightarrow> funded_job \<Rightarrow> bool" where
  "job_step old row \<longleftrightarrow> (case old of None \<Rightarrow> fj_capGeneration row = 0
     | Some old \<Rightarrow> row = old\<lparr>fj_capMicroUsd := fj_capMicroUsd row, fj_capGeneration := fj_capGeneration old + 1\<rparr>)"

definition paid_by_topUp :: "fstate \<Rightarrow> credit_purchase \<Rightarrow> bool" where
  "paid_by_topUp s row \<longleftrightarrow> (case tx_topUp (pu_tenantId row) (pu_purchaseId row) s of None \<Rightarrow> False
     | Some tu \<Rightarrow> tu_organizationId tu = pu_organizationId row \<and> tu_amountMicroUsd tu = pu_credits row * 100000
         \<and> pu_stripeEventId row = Some (tu_sourceEventId tu))"

definition purchase_step :: "fstate \<Rightarrow> credit_purchase option \<Rightarrow> credit_purchase \<Rightarrow> bool" where
  "purchase_step s old row \<longleftrightarrow> (case old of
       None \<Rightarrow> pu_state row = PurchasePending \<and> pu_checkoutSessionId row = None \<and> purchase_ok row
     | Some old \<Rightarrow> pu_state old = PurchasePending
         \<and> row = old\<lparr>pu_checkoutSessionId := pu_checkoutSessionId row, pu_state := pu_state row,
             pu_resolvedAt := pu_resolvedAt row, pu_stripeEventId := pu_stripeEventId row\<rparr>
         \<and> (pu_checkoutSessionId old = None \<or> pu_checkoutSessionId row = pu_checkoutSessionId old)
         \<and> (pu_state row = PurchasePaid \<longrightarrow> paid_by_topUp s row))"

section \<open>The moves\<close>

definition month_free :: "string \<Rightarrow> string \<Rightarrow> string \<Rightarrow> fstate \<Rightarrow> int" where
  "month_free t o' p s = max 0 (month_funded t o' p s - month_committed t o' p s)"

definition bought_free :: "string \<Rightarrow> string \<Rightarrow> int \<Rightarrow> fstate \<Rightarrow> int" where
  "bought_free t o' at s = max 0 (bought t o' s - bought_committed t o' at s)"

definition attempt_terms_ok :: "funded_attempt \<Rightarrow> bool" where
  "attempt_terms_ok a \<longleftrightarrow> 0 \<le> fa_monthlyHoldMicroUsd a \<and> 0 \<le> fa_topUpHoldMicroUsd a
     \<and> fa_monthlyHoldMicroUsd a + fa_topUpHoldMicroUsd a = fa_maxMicroUsd a \<and> is_money (fa_maxMicroUsd a)
     \<and> prices_nonneg (fa_rateSnapshot a)
     \<and> (case fa_chargeSnapshot a of None \<Rightarrow> True | Some charge \<Rightarrow> prices_nonneg charge)"

inductive ledger_move :: "int \<Rightarrow> fstate \<Rightarrow> fstate \<Rightarrow> bool" for at where
  other_rows: "same_ledger s s' \<Longrightarrow> ledger_move at s s'"
| new_period: "tx_period (cp_tenantId row) (cp_organizationId row) (cp_periodId row) s = None \<Longrightarrow>
    is_money (cp_grantedMicroUsd row) \<Longrightarrow> ledger_move at s (push_period row s)"
| job_row: "job_step (tx_job (fj_tenantId row) (fj_rootJobId row) s) row \<Longrightarrow> ledger_move at s (save_job row s)"
| new_topUp: "tx_topUp (tu_tenantId row) (tu_topUpId row) s = None \<Longrightarrow> is_money (tu_amountMicroUsd row) \<Longrightarrow>
    ledger_move at s (save_topUp row s)"
| purchase_row: "purchase_step s (tx_creditPurchase (pu_tenantId row) (pu_purchaseId row) s) row \<Longrightarrow>
    ledger_move at s (save_creditPurchase row s)"
| sweep: "ledger_move at s (expire_topUpHolds t o' at s)"
| new_hold: "tx_topUpHold (th_tenantId row) (th_holdId row) s = None \<Longrightarrow> th_state row = HoldHeld \<Longrightarrow>
    is_money (th_amountMicroUsd row) \<Longrightarrow> th_debitMicroUsd row = 0 \<Longrightarrow> th_absorbedMicroUsd row = 0 \<Longrightarrow> th_releasedBy row = None \<Longrightarrow>
    th_amountMicroUsd row \<le> bought_free (th_tenantId row) (th_organizationId row) at s \<Longrightarrow>
    ledger_move at s (save_topUpHold row s)"
| hold_row: "tx_topUpHold (th_tenantId row) (th_holdId row) s = Some old \<Longrightarrow> hold_step at old row \<Longrightarrow>
    bought_committed (th_tenantId row) (th_organizationId row) at (save_topUpHold row s)
      \<le> bought (th_tenantId row) (th_organizationId row) s \<Longrightarrow>
    ledger_move at s (save_topUpHold row s)"
| new_attempt: "tx_attempt (fa_tenantId row) (fa_id row) s = None \<Longrightarrow> fa_state row = Pending \<Longrightarrow> \<not> was_sent row \<Longrightarrow>
    attempt_terms_ok row \<Longrightarrow>
    fa_monthlyHoldMicroUsd row \<le> month_free (fa_tenantId row) (fa_organizationId row) (fa_periodId row) s \<Longrightarrow>
    fa_topUpHoldMicroUsd row \<le> bought_free (fa_tenantId row) (fa_organizationId row) at s \<Longrightarrow>
    tx_period (fa_tenantId row) (fa_organizationId row) (fa_periodId row) s \<noteq> None \<Longrightarrow>
    ledger_move at s (save_attempt row s)"
| attempt_row: "tx_attempt (fa_tenantId row) (fa_id row) s = Some old \<Longrightarrow> attempt_step at old row \<Longrightarrow>
    ledger_move at s (save_attempt row s)"
| settle_row: "tx_attempt (fa_tenantId row) (fa_id row) s = Some old \<Longrightarrow> settle_step old row se \<Longrightarrow>
    tx_settlement (fa_tenantId row) (fa_id row) s = None \<Longrightarrow>
    ledger_move at s (save_settlement se (save_attempt row s))"
| new_adjustment: "tx_adjustment (ad_tenantId row) (ad_id row) s = None \<Longrightarrow> is_money (ad_amountMicroUsd row) \<Longrightarrow>
    (ad_direction row = WithdrawCredits \<Longrightarrow>
      ad_amountMicroUsd row \<le> month_free (ad_tenantId row) (ad_organizationId row) (ad_periodId row) s) \<Longrightarrow>
    tx_period (ad_tenantId row) (ad_organizationId row) (ad_periodId row) s \<noteq> None \<Longrightarrow>
    ledger_move at s (save_adjustment row s)"

section \<open>Unique keys\<close>

definition keys_ok :: "fstate \<Rightarrow> bool" where
  "keys_ok s \<longleftrightarrow> distinct (map period_key (st_periods s))
     \<and> distinct (map (\<lambda>r. (fa_tenantId r, fa_id r)) (st_attempts s))
     \<and> distinct (map (\<lambda>r. (se_tenantId r, se_reservationId r)) (st_settlements s))
     \<and> distinct (map (\<lambda>r. (tu_tenantId r, tu_topUpId r)) (st_topUps s))
     \<and> distinct (map (\<lambda>r. (th_tenantId r, th_holdId r)) (st_topUpHolds s))
     \<and> distinct (map (\<lambda>r. (ad_tenantId r, ad_id r)) (st_adjustments s))
     \<and> distinct (map (\<lambda>r. (pu_tenantId r, pu_purchaseId r)) (st_creditPurchases s))"

lemma distinct_upsert:
  assumes "distinct (map k xs)" and "\<And>x. same x \<longleftrightarrow> k x = k row"
  shows "distinct (map k (upsert same row xs))"
  using assms(1)
proof (induction xs)
  case (Cons x xs)
  have "k ` set (upsert same row xs) \<subseteq> insert (k row) (k ` set xs)"
    using set_upsert_subset [of same row xs] by auto
  with Cons assms(2) [of x] show ?case by auto
qed simp

lemma distinct_append_fresh: "distinct (map k xs) \<Longrightarrow> k row \<notin> k ` set xs \<Longrightarrow> distinct (map k (xs @ [row]))"
  by simp

lemma distinct_key_filter:
  assumes "distinct (map k xs)" and "\<And>x. P x \<longleftrightarrow> k x = key"
  shows "length (filter P xs) \<le> 1"
  using assms(1)
proof (induction xs)
  case (Cons x xs)
  have "filter P xs = []" if "P x"
    using Cons.prems that assms(2) by (auto simp: filter_empty_conv image_iff)
  with Cons show ?case by auto
qed simp

lemma find_key:
  assumes "distinct (map k xs)" and "x \<in> set xs" and "\<And>y. P y \<longleftrightarrow> k y = k x"
  shows "find P xs = Some x"
  using assms by (induction xs) auto

lemma attempt_in_set: "keys_ok s \<Longrightarrow> a \<in> set (st_attempts s) \<Longrightarrow> tx_attempt (fa_tenantId a) (fa_id a) s = Some a"
  unfolding tx_attempt_def keys_ok_def by (rule find_key [of "\<lambda>r. (fa_tenantId r, fa_id r)"]) auto

lemma settlement_in_set:
  "keys_ok s \<Longrightarrow> se \<in> set (st_settlements s) \<Longrightarrow> tx_settlement (se_tenantId se) (se_reservationId se) s = Some se"
  unfolding tx_settlement_def keys_ok_def by (rule find_key [of "\<lambda>r. (se_tenantId r, se_reservationId r)"]) auto

lemma tx_attempt_key: "tx_attempt t i s = Some a \<Longrightarrow> fa_tenantId a = t \<and> fa_id a = i \<and> a \<in> set (st_attempts s)"
  by (auto simp: tx_attempt_def dest: find_Some_in_set)

lemma tx_settlement_key:
  "tx_settlement t i s = Some se \<Longrightarrow> se_tenantId se = t \<and> se_reservationId se = i \<and> se \<in> set (st_settlements s)"
  by (auto simp: tx_settlement_def dest: find_Some_in_set)

lemma tx_topUpHold_in: "tx_topUpHold t i s = Some h \<Longrightarrow> h \<in> set (st_topUpHolds s)"
  by (auto simp: tx_topUpHold_def dest: find_Some_in_set)

lemma map_expire_keys: "map (\<lambda>r. (th_tenantId r, th_holdId r)) (map (expire_hold t o' at) xs)
    = map (\<lambda>r. (th_tenantId r, th_holdId r)) xs"
  by (induction xs) (auto simp: expire_hold_def)

lemma keys_ok_move: "ledger_move at s s' \<Longrightarrow> keys_ok s \<Longrightarrow> keys_ok s'"
proof (induction rule: ledger_move.induct)
  case (other_rows s s')
  then show ?case by (simp add: keys_ok_def same_ledger_def)
next
  case (new_period row s)
  then have "period_key row \<notin> period_key ` set (st_periods s)"
    by (auto simp: tx_period_def find_None_iff period_key_def)
  with new_period show ?case by (simp add: keys_ok_def push_period_def)
next
  case (job_row row s)
  then show ?case by (simp add: keys_ok_def frame_simps)
next
  case (new_topUp row s)
  then have "(tu_tenantId row, tu_topUpId row) \<notin> (\<lambda>r. (tu_tenantId r, tu_topUpId r)) ` set (st_topUps s)"
    by (auto simp: tx_topUp_def find_None_iff)
  with new_topUp show ?case by (simp add: keys_ok_def save_topUp_def)
next
  case (purchase_row s row)
  then show ?case
    by (auto simp: keys_ok_def frame_simps) (auto simp: save_creditPurchase_def intro!: distinct_upsert)
next
  case (sweep s t o')
  then show ?case by (simp add: keys_ok_def frame_simps) (simp add: expire_topUpHolds_def map_expire_keys del: map_map)
next
  case (new_hold row s)
  then show ?case by (auto simp: keys_ok_def frame_simps) (auto simp: save_topUpHold_def intro!: distinct_upsert)
next
  case (hold_row row s old)
  then show ?case by (auto simp: keys_ok_def frame_simps) (auto simp: save_topUpHold_def intro!: distinct_upsert)
next
  case (new_attempt row s)
  then show ?case by (auto simp: keys_ok_def frame_simps) (auto simp: save_attempt_def intro!: distinct_upsert)
next
  case (attempt_row row s old)
  then show ?case by (auto simp: keys_ok_def frame_simps) (auto simp: save_attempt_def intro!: distinct_upsert)
next
  case (settle_row row s old se)
  then have "(se_tenantId se, se_reservationId se) \<notin> (\<lambda>r. (se_tenantId r, se_reservationId r)) ` set (st_settlements s)"
    by (auto simp: tx_settlement_def find_None_iff settle_step_def settlement_matches_def dest!: tx_attempt_key)
  with settle_row have "distinct (map (\<lambda>r. (se_tenantId r, se_reservationId r)) (st_settlements (save_settlement se (save_attempt row s))))"
    by (simp add: keys_ok_def save_settlement_def frame_simps)
  with settle_row show ?case
    by (auto simp: keys_ok_def frame_simps) (auto simp: save_attempt_def intro!: distinct_upsert)
next
  case (new_adjustment row s)
  then have "(ad_tenantId row, ad_id row) \<notin> (\<lambda>r. (ad_tenantId r, ad_id r)) ` set (st_adjustments s)"
    by (auto simp: tx_adjustment_def find_None_iff)
  with new_adjustment show ?case by (simp add: keys_ok_def save_adjustment_def)
qed

text \<open>A read of a table that the write does not touch.\<close>

named_theorems read_frames \<open>reads of the tables a write does not touch\<close>

lemma tx_period_frames [read_frames]:
  "tx_period t o' i (save_attempt r s) = tx_period t o' i s"
  "tx_period t o' i (save_settlement e s) = tx_period t o' i s"
  "tx_period t o' i (save_topUp u s) = tx_period t o' i s"
  "tx_period t o' i (save_topUpHold h s) = tx_period t o' i s"
  "tx_period t o' i (save_adjustment d s) = tx_period t o' i s"
  "tx_period t o' i (save_job j s) = tx_period t o' i s"
  "tx_period t o' i (save_creditPurchase q s) = tx_period t o' i s"
  "tx_period t o' i (expire_topUpHolds t1 o1 at1 s) = tx_period t o' i s"
  by (simp_all add: tx_period_def frame_simps)

lemma tx_attempt_frames [read_frames]:
  "tx_attempt t i (save_settlement e s) = tx_attempt t i s"
  "tx_attempt t i (save_topUp u s) = tx_attempt t i s"
  "tx_attempt t i (save_topUpHold h s) = tx_attempt t i s"
  "tx_attempt t i (save_adjustment d s) = tx_attempt t i s"
  "tx_attempt t i (save_job j s) = tx_attempt t i s"
  "tx_attempt t i (save_creditPurchase q s) = tx_attempt t i s"
  "tx_attempt t i (expire_topUpHolds t1 o1 at1 s) = tx_attempt t i s"
  "tx_attempt t i (push_period p s) = tx_attempt t i s"
  by (simp_all add: tx_attempt_def frame_simps)

lemma tx_settlement_frames [read_frames]:
  "tx_settlement t i (save_attempt r s) = tx_settlement t i s"
  "tx_settlement t i (save_topUp u s) = tx_settlement t i s"
  "tx_settlement t i (save_topUpHold h s) = tx_settlement t i s"
  "tx_settlement t i (save_adjustment d s) = tx_settlement t i s"
  "tx_settlement t i (save_job j s) = tx_settlement t i s"
  "tx_settlement t i (save_creditPurchase q s) = tx_settlement t i s"
  "tx_settlement t i (expire_topUpHolds t1 o1 at1 s) = tx_settlement t i s"
  "tx_settlement t i (push_period p s) = tx_settlement t i s"
  by (simp_all add: tx_settlement_def frame_simps)

lemma tx_topUp_frames [read_frames]:
  "tx_topUp t i (save_attempt r s) = tx_topUp t i s" "tx_topUp t i (save_settlement e s) = tx_topUp t i s"
  "tx_topUp t i (save_topUpHold h s) = tx_topUp t i s"
  "tx_topUp t i (save_adjustment d s) = tx_topUp t i s" "tx_topUp t i (save_job j s) = tx_topUp t i s"
  "tx_topUp t i (save_creditPurchase q s) = tx_topUp t i s"
  "tx_topUp t i (expire_topUpHolds t1 o1 at1 s) = tx_topUp t i s"
  "tx_topUp t i (push_period p s) = tx_topUp t i s"
  by (simp_all add: tx_topUp_def frame_simps)

lemma tx_creditPurchase_frames [read_frames]:
  "tx_creditPurchase t i (save_attempt r s) = tx_creditPurchase t i s"
  "tx_creditPurchase t i (save_settlement e s) = tx_creditPurchase t i s"
  "tx_creditPurchase t i (save_topUp u s) = tx_creditPurchase t i s"
  "tx_creditPurchase t i (save_topUpHold h s) = tx_creditPurchase t i s"
  "tx_creditPurchase t i (save_adjustment d s) = tx_creditPurchase t i s"
  "tx_creditPurchase t i (save_job j s) = tx_creditPurchase t i s"
  "tx_creditPurchase t i (expire_topUpHolds t1 o1 at1 s) = tx_creditPurchase t i s"
  "tx_creditPurchase t i (push_period p s) = tx_creditPurchase t i s"
  by (simp_all add: tx_creditPurchase_def frame_simps)

lemma tx_topUpHold_frames [read_frames]:
  "tx_topUpHold t i (save_attempt r s) = tx_topUpHold t i s"
  "tx_topUpHold t i (save_settlement e s) = tx_topUpHold t i s"
  "tx_topUpHold t i (save_topUp u s) = tx_topUpHold t i s"
  "tx_topUpHold t i (save_adjustment d s) = tx_topUpHold t i s"
  "tx_topUpHold t i (save_job j s) = tx_topUpHold t i s"
  "tx_topUpHold t i (save_creditPurchase q s) = tx_topUpHold t i s"
  "tx_topUpHold t i (push_period p s) = tx_topUpHold t i s"
  by (simp_all add: tx_topUpHold_def frame_simps)

section \<open>Rows in order\<close>

definition attempt_ok :: "funded_attempt \<Rightarrow> bool" where
  "attempt_ok a \<longleftrightarrow> attempt_terms_ok a
     \<and> (fa_state a = Uncertain \<or> fa_state a = Settled \<or> fa_state a = WrittenOff \<longrightarrow> was_sent a)
     \<and> (fa_state a = Released \<and> was_sent a \<longrightarrow> provider_refused a)"

definition attempts_ok :: "fstate \<Rightarrow> bool" where
  "attempts_ok s \<longleftrightarrow> (\<forall>a \<in> set (st_attempts s). attempt_ok a
     \<and> tx_period (fa_tenantId a) (fa_organizationId a) (fa_periodId a) s \<noteq> None
     \<and> (fa_state a = Settled \<longrightarrow> tx_settlement (fa_tenantId a) (fa_id a) s \<noteq> None))"

definition settlements_ok :: "fstate \<Rightarrow> bool" where
  "settlements_ok s \<longleftrightarrow> (\<forall>se \<in> set (st_settlements s).
     case tx_attempt (se_tenantId se) (se_reservationId se) s of None \<Rightarrow> False
     | Some a \<Rightarrow> fa_state a = Settled \<and> settlement_matches a se)"

definition hold_ok :: "top_up_hold \<Rightarrow> bool" where
  "hold_ok h \<longleftrightarrow> is_money (th_amountMicroUsd h) \<and> 0 \<le> th_debitMicroUsd h \<and> 0 \<le> th_absorbedMicroUsd h
     \<and> th_debitMicroUsd h + th_absorbedMicroUsd h \<le> th_amountMicroUsd h
     \<and> (th_state h \<noteq> HoldSettled \<longrightarrow> th_debitMicroUsd h = 0 \<and> th_absorbedMicroUsd h = 0)
     \<and> (th_releasedBy h \<noteq> None \<longleftrightarrow> th_state h = HoldReleased)"

definition holds_ok :: "fstate \<Rightarrow> bool" where
  "holds_ok s \<longleftrightarrow> (\<forall>h \<in> set (st_topUpHolds s). hold_ok h)"

definition grants_ok :: "fstate \<Rightarrow> bool" where
  "grants_ok s \<longleftrightarrow> (\<forall>r \<in> set (st_periods s). is_money (cp_grantedMicroUsd r))
     \<and> (\<forall>r \<in> set (st_topUps s). is_money (tu_amountMicroUsd r))
     \<and> (\<forall>r \<in> set (st_adjustments s). is_money (ad_amountMicroUsd r))"

definition purchases_ok :: "fstate \<Rightarrow> bool" where
  "purchases_ok s \<longleftrightarrow> (\<forall>r \<in> set (st_creditPurchases s).
     purchase_ok r \<and> (pu_state r = PurchasePaid \<longrightarrow> paid_by_topUp s r))"

definition rows_ok :: "fstate \<Rightarrow> bool" where
  "rows_ok s \<longleftrightarrow> keys_ok s \<and> attempts_ok s \<and> settlements_ok s \<and> holds_ok s \<and> grants_ok s \<and> purchases_ok s"

lemma rows_ok_parts:
  assumes "rows_ok s"
  shows "keys_ok s" "attempts_ok s" "settlements_ok s" "holds_ok s" "grants_ok s" "purchases_ok s"
  using assms by (simp_all add: rows_ok_def)

lemma attempts_okD:
  assumes "attempts_ok s" and "tx_attempt t i s = Some a"
  shows "attempt_ok a" "attempt_terms_ok a" "tx_period (fa_tenantId a) (fa_organizationId a) (fa_periodId a) s \<noteq> None"
    "fa_state a = Settled \<Longrightarrow> tx_settlement t i s \<noteq> None"
  using assms tx_attempt_key [OF assms(2)] by (auto simp: attempts_ok_def attempt_ok_def)

lemma set_save_attempt: "a \<in> set (st_attempts (save_attempt row s)) \<Longrightarrow> a = row \<or> a \<in> set (st_attempts s)"
  by (auto simp: save_attempt_def dest: set_upsertD)

lemma set_save_topUpHold: "h \<in> set (st_topUpHolds (save_topUpHold row s)) \<Longrightarrow> h = row \<or> h \<in> set (st_topUpHolds s)"
  by (auto simp: save_topUpHold_def dest: set_upsertD)

lemma set_save_creditPurchase:
  "h \<in> set (st_creditPurchases (save_creditPurchase row s)) \<Longrightarrow> h = row \<or> h \<in> set (st_creditPurchases s)"
  by (auto simp: save_creditPurchase_def dest: set_upsertD)

text \<open>A step keeps the terms of the row.\<close>

lemma same_terms_eqs:
  assumes "same_terms old row"
  shows "fa_tenantId row = fa_tenantId old" "fa_organizationId row = fa_organizationId old" "fa_id row = fa_id old"
    "fa_periodId row = fa_periodId old" "fa_rootJobId row = fa_rootJobId old" "fa_maxMicroUsd row = fa_maxMicroUsd old"
    "fa_monthlyHoldMicroUsd row = fa_monthlyHoldMicroUsd old" "fa_topUpHoldMicroUsd row = fa_topUpHoldMicroUsd old"
    "fa_rateSnapshot row = fa_rateSnapshot old" "fa_chargeSnapshot row = fa_chargeSnapshot old"
    "fa_requestDigest row = fa_requestDigest old" "fa_createdAt row = fa_createdAt old"
    "fa_parentAttemptId row = fa_parentAttemptId old" "fa_kind row = fa_kind old"
    "fa_usageClass row = fa_usageClass old" "fa_route row = fa_route old"
proof -
  have eq: "row = old\<lparr>fa_state := fa_state row, fa_resolvedAt := fa_resolvedAt row,
     fa_uncertainReason := fa_uncertainReason row, fa_dispatchedAt := fa_dispatchedAt row\<rparr>"
    using assms by (simp only: same_terms_def)
  show "fa_tenantId row = fa_tenantId old" "fa_organizationId row = fa_organizationId old" "fa_id row = fa_id old"
    "fa_periodId row = fa_periodId old" "fa_rootJobId row = fa_rootJobId old" "fa_maxMicroUsd row = fa_maxMicroUsd old"
    "fa_monthlyHoldMicroUsd row = fa_monthlyHoldMicroUsd old" "fa_topUpHoldMicroUsd row = fa_topUpHoldMicroUsd old"
    "fa_rateSnapshot row = fa_rateSnapshot old" "fa_chargeSnapshot row = fa_chargeSnapshot old"
    "fa_requestDigest row = fa_requestDigest old" "fa_createdAt row = fa_createdAt old"
    "fa_parentAttemptId row = fa_parentAttemptId old" "fa_kind row = fa_kind old"
    "fa_usageClass row = fa_usageClass old" "fa_route row = fa_route old"
    by (subst eq; simp)+
qed

lemma same_terms_ok: "same_terms old row \<Longrightarrow> attempt_terms_ok row = attempt_terms_ok old"
  by (simp add: attempt_terms_ok_def same_terms_eqs)

lemma same_terms_matches: "same_terms old row \<Longrightarrow> settlement_matches row se = settlement_matches old se"
  by (simp add: settlement_matches_def same_terms_eqs)

lemma attempt_step_ok: "attempt_step at old row \<Longrightarrow> attempt_ok old \<Longrightarrow> attempt_ok row"
  by (auto simp: attempt_step_def attempt_ok_def same_terms_ok was_sent_def)

lemma attempt_step_open:
  assumes "attempt_step at old row"
  shows "fa_state old = Pending \<or> fa_state old = Uncertain" "fa_state row \<noteq> Settled" "same_terms old row"
    "is_held row \<Longrightarrow> is_held old"
  using assms by (auto simp: attempt_step_def is_held_def)

lemma settle_step_open:
  assumes "settle_step old row se"
  shows "is_held old" "\<not> is_held row" "same_terms old row" "settlement_matches old se" "attempt_ok old \<Longrightarrow> attempt_ok row"
  using assms
  by (auto simp: settle_step_def is_held_def attempt_ok_def same_terms_ok was_sent_def)

lemma hold_step_terms:
  assumes "hold_step at old row"
  shows "th_tenantId row = th_tenantId old" "th_organizationId row = th_organizationId old"
    "th_amountMicroUsd row = th_amountMicroUsd old" "th_state old \<noteq> HoldSettled"
proof -
  have settled: "th_tenantId row = th_tenantId old \<and> th_organizationId row = th_organizationId old
      \<and> th_amountMicroUsd row = th_amountMicroUsd old \<and> th_state old \<noteq> HoldSettled"
    if "settles_hold at d r old row" for d r
    using that by (auto simp: settles_hold_def)
  then show "th_tenantId row = th_tenantId old" "th_organizationId row = th_organizationId old"
    "th_amountMicroUsd row = th_amountMicroUsd old" "th_state old \<noteq> HoldSettled"
    using assms by (auto simp: hold_step_def)
qed

lemma hold_step_ok: "hold_step at old row \<Longrightarrow> hold_ok old \<Longrightarrow> hold_ok row"
proof -
  assume step: "hold_step at old row" and ok: "hold_ok old"
  have "hold_ok row" if "settles_hold at d r old row" for d r
    using that ok by (auto simp: settles_hold_def hold_ok_def)
  with step ok show ?thesis by (auto simp: hold_step_def hold_ok_def)
qed

lemma attempts_ok_move:
  "ledger_move at s s' \<Longrightarrow> rows_ok s \<Longrightarrow> attempts_ok s'"
proof (induction rule: ledger_move.induct)
  case (other_rows s s')
  then have "attempts_ok s" by (simp add: rows_ok_def)
  with other_rows show ?case by (simp add: attempts_ok_def same_ledger_def tx_period_def tx_settlement_def)
next
  case (new_period row s)
  then have "attempts_ok s" by (simp add: rows_ok_def)
  then show ?case
    by (fastforce simp: attempts_ok_def read_frames frame_simps tx_period_push split: option.split)
next
  case (new_attempt row s)
  then have "attempts_ok s" by (simp add: rows_ok_def)
  with new_attempt show ?case
    by (fastforce simp: attempts_ok_def attempt_ok_def read_frames dest: set_save_attempt)
next
  case (attempt_row row s old)
  then have ok: "attempts_ok s" by (simp add: rows_ok_def)
  note old = attempts_okD [OF ok attempt_row(1)] and step = attempt_step_open [OF attempt_row(2)]
  have "attempt_ok row" using attempt_step_ok [OF attempt_row(2) old(1)] .
  moreover have "tx_period (fa_tenantId row) (fa_organizationId row) (fa_periodId row) s \<noteq> None"
    using old(3) by (simp add: same_terms_eqs [OF step(3)])
  ultimately show ?case
    using ok step(2) by (fastforce simp: attempts_ok_def read_frames dest: set_save_attempt)
next
  case (settle_row row s old se)
  then have ok: "attempts_ok s" by (simp add: rows_ok_def)
  note old = attempts_okD [OF ok settle_row(1)] and step = settle_step_open [OF settle_row(2)]
  have "attempt_ok row" using step(5) old(1) .
  moreover have "tx_period (fa_tenantId row) (fa_organizationId row) (fa_periodId row) s \<noteq> None"
    using old(3) by (simp add: same_terms_eqs [OF step(3)])
  moreover have "tx_settlement (fa_tenantId row) (fa_id row) (save_settlement se (save_attempt row s)) = Some se"
    using settle_row(3) step(4) same_terms_eqs [OF step(3)]
    by (simp add: tx_settlement_save_fresh read_frames settlement_matches_def)
  ultimately show ?case
    using ok
    by (fastforce simp: attempts_ok_def read_frames frame_simps tx_settlement_save_fresh dest: set_save_attempt
        split: option.split)
qed (auto simp: rows_ok_def attempts_ok_def read_frames frame_simps)

lemma settlements_ok_move:
  "ledger_move at s s' \<Longrightarrow> rows_ok s \<Longrightarrow> settlements_ok s'"
proof (induction rule: ledger_move.induct)
  case (other_rows s s')
  then have "settlements_ok s" by (simp add: rows_ok_def)
  with other_rows show ?case by (simp add: settlements_ok_def same_ledger_def tx_attempt_def)
next
  case (new_attempt row s)
  then have "settlements_ok s" by (simp add: rows_ok_def)
  with new_attempt show ?case
    by (fastforce simp: settlements_ok_def tx_attempt_save frame_simps split: option.splits)
next
  case (attempt_row row s old)
  then have ok: "settlements_ok s" by (simp add: rows_ok_def)
  have "fa_state old \<noteq> Settled" using attempt_step_open(1) [OF attempt_row(2)] by auto
  with ok attempt_row show ?case
    by (fastforce simp: settlements_ok_def tx_attempt_save frame_simps split: option.splits)
next
  case (settle_row row s old se)
  then have ok: "settlements_ok s" by (simp add: rows_ok_def)
  note step = settle_step_open [OF settle_row(2)]
  have "fa_state old \<noteq> Settled" using step(1) by (auto simp: is_held_def)
  moreover have "fa_state row = Settled" using settle_row(2) by (simp add: settle_step_def)
  moreover have "settlement_matches row se" using step(4) by (simp add: same_terms_matches [OF step(3)])
  moreover have "se_tenantId se = fa_tenantId row" "se_reservationId se = fa_id row"
    using step(4) same_terms_eqs [OF step(3)] by (simp_all add: settlement_matches_def)
  ultimately have new: "case tx_attempt (se_tenantId se) (se_reservationId se) (save_settlement se (save_attempt row s)) of
      None \<Rightarrow> False | Some a \<Rightarrow> fa_state a = Settled \<and> settlement_matches a se"
    by (simp add: read_frames tx_attempt_save)
  show ?case
    unfolding settlements_ok_def
  proof
    fix x assume "x \<in> set (st_settlements (save_settlement se (save_attempt row s)))"
    then consider "x = se" | "x \<in> set (st_settlements s)" by (auto simp: save_settlement_def frame_simps)
    then show "case tx_attempt (se_tenantId x) (se_reservationId x) (save_settlement se (save_attempt row s)) of
      None \<Rightarrow> False | Some a \<Rightarrow> fa_state a = Settled \<and> settlement_matches a x"
    proof cases
      case 2
      with ok obtain a where a: "tx_attempt (se_tenantId x) (se_reservationId x) s = Some a" "fa_state a = Settled"
        "settlement_matches a x"
        by (auto simp: settlements_ok_def split: option.splits)
      then have "(se_tenantId x, se_reservationId x) \<noteq> (fa_tenantId row, fa_id row)"
        using settle_row(1) \<open>fa_state old \<noteq> Settled\<close> by auto
      with a show ?thesis by (auto simp: read_frames tx_attempt_save)
    next
      case 1
      show ?thesis unfolding 1 by (rule new)
    qed
  qed
qed (auto simp: rows_ok_def settlements_ok_def read_frames frame_simps)

lemma holds_ok_move: "ledger_move at s s' \<Longrightarrow> rows_ok s \<Longrightarrow> holds_ok s'"
proof (induction rule: ledger_move.induct)
  case (sweep s t o')
  then show ?case
    by (auto simp: rows_ok_def holds_ok_def expire_topUpHolds_def expire_hold_def hold_ok_def)
next
  case (new_hold row s)
  then show ?case
    by (auto simp: rows_ok_def holds_ok_def hold_ok_def is_money_def dest!: set_save_topUpHold)
next
  case (hold_row row s old)
  then show ?case
    by (auto simp: rows_ok_def holds_ok_def dest!: set_save_topUpHold intro: hold_step_ok tx_topUpHold_in)
qed (auto simp: rows_ok_def holds_ok_def same_ledger_def frame_simps)

lemma grants_ok_move: "ledger_move at s s' \<Longrightarrow> rows_ok s \<Longrightarrow> grants_ok s'"
proof (induction rule: ledger_move.induct)
  case (new_period row s)
  then show ?case by (auto simp: rows_ok_def grants_ok_def push_period_def)
next
  case (new_topUp row s)
  then show ?case by (auto simp: rows_ok_def grants_ok_def save_topUp_def)
next
  case (new_adjustment row s)
  then show ?case by (auto simp: rows_ok_def grants_ok_def save_adjustment_def)
qed (auto simp: rows_ok_def grants_ok_def same_ledger_def frame_simps)

lemma paid_by_topUp_frames:
  "tx_topUp (pu_tenantId r) (pu_purchaseId r) s' = tx_topUp (pu_tenantId r) (pu_purchaseId r) s \<Longrightarrow>
   paid_by_topUp s' r = paid_by_topUp s r"
  by (simp add: paid_by_topUp_def)

lemma tx_creditPurchase_in: "tx_creditPurchase t i s = Some r \<Longrightarrow> r \<in> set (st_creditPurchases s)"
  by (auto simp: tx_creditPurchase_def dest: find_Some_in_set)

lemma purchase_step_ok:
  assumes "purchase_step s (tx_creditPurchase (pu_tenantId row) (pu_purchaseId row) s) row" and "purchases_ok s"
  shows "purchase_ok row" "pu_state row = PurchasePaid \<longrightarrow> paid_by_topUp s row"
proof -
  have "purchase_ok row \<and> (pu_state row = PurchasePaid \<longrightarrow> paid_by_topUp s row)"
  proof (cases "tx_creditPurchase (pu_tenantId row) (pu_purchaseId row) s")
    case None
    with assms(1) show ?thesis by (simp add: purchase_step_def)
  next
    case (Some old)
    with assms have old: "purchase_ok old" by (auto simp: purchases_ok_def dest: tx_creditPurchase_in)
    from assms(1) Some have eq: "row = old\<lparr>pu_checkoutSessionId := pu_checkoutSessionId row, pu_state := pu_state row,
        pu_resolvedAt := pu_resolvedAt row, pu_stripeEventId := pu_stripeEventId row\<rparr>"
      and paid: "pu_state row = PurchasePaid \<longrightarrow> paid_by_topUp s row"
      unfolding purchase_step_def Some option.case by blast+
    have "purchase_ok row = purchase_ok old" by (subst eq) (simp add: purchase_ok_def)
    with old paid show ?thesis by simp
  qed
  then show "purchase_ok row" "pu_state row = PurchasePaid \<longrightarrow> paid_by_topUp s row" by simp_all
qed

lemma purchases_ok_move: "ledger_move at s s' \<Longrightarrow> rows_ok s \<Longrightarrow> purchases_ok s'"
proof (induction rule: ledger_move.induct)
  case (other_rows s s')
  then show ?case by (auto simp: rows_ok_def purchases_ok_def same_ledger_def paid_by_topUp_def tx_topUp_def)
next
  case (new_topUp row s)
  then show ?case
    by (fastforce simp: rows_ok_def purchases_ok_def frame_simps paid_by_topUp_def tx_topUp_save split: option.splits)
next
  case (purchase_row s row)
  then have "purchases_ok s" by (simp add: rows_ok_def)
  with purchase_step_ok [OF purchase_row(1) this] show ?case
    by (auto simp: purchases_ok_def paid_by_topUp_def read_frames dest!: set_save_creditPurchase)
qed (auto simp: rows_ok_def purchases_ok_def paid_by_topUp_def read_frames frame_simps)

lemma rows_ok_move: "ledger_move at s s' \<Longrightarrow> rows_ok s \<Longrightarrow> rows_ok s'"
  using keys_ok_move attempts_ok_move settlements_ok_move holds_ok_move grants_ok_move purchases_ok_move
  by (simp add: rows_ok_def)

section \<open>No balance is overdrawn\<close>

definition months_ok :: "fstate \<Rightarrow> bool" where
  "months_ok s \<longleftrightarrow> (\<forall>t o' p. month_committed t o' p s \<le> month_funded t o' p s)"

definition bought_ok :: "int \<Rightarrow> fstate \<Rightarrow> bool" where
  "bought_ok clock s \<longleftrightarrow> (\<forall>t o' at. clock \<le> at \<longrightarrow> bought_committed t o' at s \<le> bought t o' s)"

lemma same_ledger_balances:
  assumes "same_ledger s s'"
  shows "month_committed t o' p s' = month_committed t o' p s" "month_funded t o' p s' = month_funded t o' p s"
    "bought_committed t o' u s' = bought_committed t o' u s" "bought t o' s' = bought t o' s"
  using assms
  by (simp_all add: same_ledger_def month_committed_def month_funded_def bought_committed_def balance_defs tx_period_def)

lemma months_ok_move:
  "ledger_move at s s' \<Longrightarrow> rows_ok s \<Longrightarrow> months_ok s \<Longrightarrow> months_ok s'"
proof (induction rule: ledger_move.induct)
  case (other_rows s s')
  then show ?case by (simp add: months_ok_def same_ledger_balances)
next
  case (new_period row s)
  have "month_granted t o' p s \<le> month_granted t o' p (push_period row s)" for t o' p
    using new_period by (auto simp: month_granted_def tx_period_push is_money_def split: option.split)
  then have "month_funded t o' p s \<le> month_funded t o' p (push_period row s)"
    and "month_committed t o' p (push_period row s) = month_committed t o' p s" for t o' p
    by (simp_all add: month_funded_def month_committed_def month_adjusted_def month_spent_def month_held_def frame_simps)
  with new_period show ?case unfolding months_ok_def by (metis order_trans)
next
  case (new_attempt row s)
  have funded: "month_funded t o' p (save_attempt row s) = month_funded t o' p s" for t o' p
    by (simp add: month_funded_def month_granted_def month_adjusted_def read_frames frame_simps)
  have "month_committed t o' p (save_attempt row s) = month_committed t o' p s
      + (if t = fa_tenantId row \<and> o' = fa_organizationId row \<and> p = fa_periodId row \<and> is_held row
         then fa_monthlyHoldMicroUsd row else 0)" for t o' p
    using new_attempt(1)
    by (auto simp: month_committed_def month_adjusted_def month_spent_def month_held_def frame_simps sum_simps)
  moreover have "0 \<le> fa_monthlyHoldMicroUsd row" using new_attempt(4) by (simp add: attempt_terms_ok_def)
  ultimately show ?case
    using new_attempt(5) new_attempt(9) unfolding months_ok_def funded
    by (auto simp: month_free_def max_def split: if_splits)
next
  case (attempt_row row s old)
  then have old: "0 \<le> fa_monthlyHoldMicroUsd old"
    using attempts_okD(2) [of s] by (auto simp: rows_ok_def attempt_terms_ok_def)
  note step = attempt_step_open [OF attempt_row(2)]
  have "month_committed t o' p (save_attempt row s) \<le> month_committed t o' p s" for t o' p
    using attempt_row(1) old step(4)
    by (auto simp: month_committed_def month_adjusted_def month_spent_def month_held_def frame_simps sum_simps
        same_terms_eqs [OF step(3)])
  moreover have "month_funded t o' p (save_attempt row s) = month_funded t o' p s" for t o' p
    by (simp add: month_funded_def month_granted_def month_adjusted_def read_frames frame_simps)
  ultimately show ?case using attempt_row(4) unfolding months_ok_def by (metis order_trans)
next
  case (settle_row row s old se)
  note step = settle_step_open [OF settle_row(2)]
  have se: "se_tenantId se = fa_tenantId old" "se_organizationId se = fa_organizationId old" "se_periodId se = fa_periodId old"
    "se_monthlyDebitMicroUsd se \<le> fa_monthlyHoldMicroUsd old"
    using step(4) by (simp_all add: settlement_matches_def)
  have "month_committed t o' p (save_settlement se (save_attempt row s)) \<le> month_committed t o' p s" for t o' p
    using settle_row(1) step(1,2) se
    by (auto simp: month_committed_def month_adjusted_def month_spent_def month_held_def frame_simps sum_simps
        same_terms_eqs [OF step(3)])
  moreover have "month_funded t o' p (save_settlement se (save_attempt row s)) = month_funded t o' p s" for t o' p
    by (simp add: month_funded_def month_granted_def month_adjusted_def read_frames frame_simps)
  ultimately show ?case using settle_row(5) unfolding months_ok_def by (metis order_trans)
next
  case (new_adjustment row s)
  have "month_committed t o' p (save_adjustment row s) = month_committed t o' p s
      + (if t = ad_tenantId row \<and> o' = ad_organizationId row \<and> p = ad_periodId row \<and> ad_direction row = WithdrawCredits
         then ad_amountMicroUsd row else 0)" for t o' p
    by (auto simp: month_committed_def month_adjusted_def month_spent_def month_held_def frame_simps sum_simps)
  moreover have "month_funded t o' p (save_adjustment row s) = month_funded t o' p s
      + (if t = ad_tenantId row \<and> o' = ad_organizationId row \<and> p = ad_periodId row \<and> ad_direction row = GrantCredits
         then ad_amountMicroUsd row else 0)" for t o' p
    by (auto simp: month_funded_def month_granted_def month_adjusted_def frame_simps sum_simps read_frames)
  moreover have "0 \<le> ad_amountMicroUsd row" using new_adjustment(2) by (simp add: is_money_def)
  moreover have "month_committed t o' p s \<le> month_funded t o' p s" for t o' p
    using new_adjustment(6) by (simp add: months_ok_def)
  ultimately show ?case
    using new_adjustment(3) unfolding months_ok_def
    by (cases "ad_direction row") (auto simp: month_free_def max_def add_increasing2 split: if_splits)
qed (simp_all add: months_ok_def month_committed_def month_funded_def month_granted_def month_adjusted_def
    month_spent_def month_held_def read_frames frame_simps)

lemma holds_nonneg: "rows_ok s \<Longrightarrow> h \<in> set (st_topUpHolds s) \<Longrightarrow> 0 \<le> th_amountMicroUsd h"
  by (auto simp: rows_ok_def holds_ok_def hold_ok_def is_money_def)

lemma bought_committed_later:
  assumes "rows_ok s" and "at \<le> u"
  shows "bought_committed t o' u s \<le> bought_committed t o' at s"
proof -
  have "lease_held t o' u s \<le> lease_held t o' at s"
    by (rule lease_held_later [OF assms(2)]) (rule holds_nonneg [OF assms(1)])
  then show ?thesis by (simp add: bought_committed_def)
qed

lemma bought_okI:
  assumes "bought_ok clock s"
    and "\<And>t o' u. clock \<le> u \<Longrightarrow> at \<le> u \<Longrightarrow> bought_committed t o' u s \<le> bought t o' s \<Longrightarrow> bought_committed t o' u s' \<le> bought t o' s'"
  shows "bought_ok (max clock at) s'"
  using assms by (simp add: bought_ok_def)

lemma bought_ok_move:
  "ledger_move at s s' \<Longrightarrow> rows_ok s \<Longrightarrow> bought_ok clock s \<Longrightarrow> bought_ok (max clock at) s'"
proof (induction rule: ledger_move.induct)
  case (other_rows s s')
  then show ?case by (simp add: bought_ok_def same_ledger_balances)
next
  case (new_topUp row s)
  have "bought t o' s \<le> bought t o' (save_topUp row s)" for t o'
    using new_topUp(2) by (simp add: bought_def sum_simps is_money_def)
  moreover have "bought_committed t o' u (save_topUp row s) = bought_committed t o' u s" for t o' u
    by (simp add: bought_committed_def funded_held_def lease_held_def funded_spent_def lease_spent_def frame_simps)
  ultimately show ?case using bought_okI [OF new_topUp(4)] by (metis order_trans)
next
  case (sweep s t o')
  have "bought_committed t' o'' u (expire_topUpHolds t o' at s) \<le> bought_committed t' o'' u s" for t' o'' u
    using lease_held_expire_le [of s t' o'' u t o' at] holds_nonneg [OF sweep(1)]
    by (simp add: bought_committed_def lease_spent_expire) (simp add: funded_held_def funded_spent_def frame_simps)
  moreover have "bought t' o'' (expire_topUpHolds t o' at s) = bought t' o'' s" for t' o''
    by (simp add: bought_def frame_simps)
  ultimately show ?case using bought_okI [OF sweep(2)] by (metis order_trans)
next
  case (new_hold row s)
  show ?case
  proof (rule bought_okI [OF new_hold(9)])
    fix t o' u assume u: "clock \<le> u" "at \<le> u" "bought_committed t o' u s \<le> bought t o' s"
    have "bought_committed t o' u (save_topUpHold row s) \<le> bought_committed t o' u s
        + (if t = th_tenantId row \<and> o' = th_organizationId row then th_amountMicroUsd row else 0)"
      using new_hold(1,2,3)
      by (auto simp: bought_committed_def funded_held_def lease_held_def funded_spent_def lease_spent_def frame_simps
          sum_simps is_money_def)
    moreover have "bought t o' (save_topUpHold row s) = bought t o' s" by (simp add: bought_def frame_simps)
    ultimately show "bought_committed t o' u (save_topUpHold row s) \<le> bought t o' (save_topUpHold row s)"
      using u new_hold(7) bought_committed_later [OF new_hold(8) u(2), of t o']
      by (auto simp: bought_free_def max_def split: if_splits)
  qed
next
  case (hold_row row s old)
  note terms = hold_step_terms [OF hold_row(2)]
  have rows: "rows_ok (save_topUpHold row s)"
    using rows_ok_move [OF ledger_move.hold_row [OF hold_row(1-3)] hold_row(4)] .
  show ?case
  proof (rule bought_okI [OF hold_row(5)])
    fix t o' u assume u: "clock \<le> u" "at \<le> u" "bought_committed t o' u s \<le> bought t o' s"
    have same: "bought t o' (save_topUpHold row s) = bought t o' s" by (simp add: bought_def frame_simps)
    show "bought_committed t o' u (save_topUpHold row s) \<le> bought t o' (save_topUpHold row s)"
    proof (cases "t = th_tenantId row \<and> o' = th_organizationId row")
      case True
      then show ?thesis
        using hold_row(3) bought_committed_later [OF rows u(2), of t o'] same by simp
    next
      case False
      then have "bought_committed t o' u (save_topUpHold row s) = bought_committed t o' u s"
        using hold_row(1) terms
        by (auto simp: bought_committed_def funded_held_def lease_held_def funded_spent_def lease_spent_def frame_simps sum_simps)
      with u(3) same show ?thesis by simp
    qed
  qed
next
  case (new_attempt row s)
  show ?case
  proof (rule bought_okI [OF new_attempt(9)])
    fix t o' u assume u: "clock \<le> u" "at \<le> u" "bought_committed t o' u s \<le> bought t o' s"
    have "bought_committed t o' u (save_attempt row s) = bought_committed t o' u s
        + (if t = fa_tenantId row \<and> o' = fa_organizationId row \<and> is_held row then fa_topUpHoldMicroUsd row else 0)"
      using new_attempt(1)
      by (auto simp: bought_committed_def funded_held_def lease_held_def funded_spent_def lease_spent_def frame_simps sum_simps)
    moreover have "bought t o' (save_attempt row s) = bought t o' s" by (simp add: bought_def frame_simps)
    ultimately show "bought_committed t o' u (save_attempt row s) \<le> bought t o' (save_attempt row s)"
      using u new_attempt(6) bought_committed_later [OF new_attempt(8) u(2), of t o']
      by (auto simp: bought_free_def max_def split: if_splits)
  qed
next
  case (attempt_row row s old)
  then have old: "0 \<le> fa_topUpHoldMicroUsd old"
    using attempts_okD(2) [of s] by (auto simp: rows_ok_def attempt_terms_ok_def)
  note step = attempt_step_open [OF attempt_row(2)]
  have "bought_committed t o' u (save_attempt row s) \<le> bought_committed t o' u s" for t o' u
    using attempt_row(1) old step(4)
    by (auto simp: bought_committed_def funded_held_def lease_held_def funded_spent_def lease_spent_def frame_simps sum_simps
        same_terms_eqs [OF step(3)])
  moreover have "bought t o' (save_attempt row s) = bought t o' s" for t o' by (simp add: bought_def frame_simps)
  ultimately show ?case using bought_okI [OF attempt_row(4)] by (metis order_trans)
next
  case (settle_row row s old se)
  note step = settle_step_open [OF settle_row(2)]
  have se: "se_tenantId se = fa_tenantId old" "se_organizationId se = fa_organizationId old"
    "se_topUpDebitMicroUsd se \<le> fa_topUpHoldMicroUsd old"
    using step(4) by (simp_all add: settlement_matches_def)
  have "bought_committed t o' u (save_settlement se (save_attempt row s)) \<le> bought_committed t o' u s" for t o' u
    using settle_row(1) step(1,2) se
    by (auto simp: bought_committed_def funded_held_def lease_held_def funded_spent_def lease_spent_def frame_simps sum_simps
        same_terms_eqs [OF step(3)])
  moreover have "bought t o' (save_settlement se (save_attempt row s)) = bought t o' s" for t o'
    by (simp add: bought_def frame_simps)
  ultimately show ?case using bought_okI [OF settle_row(5)] by (metis order_trans)
qed (simp_all add: bought_ok_def bought_committed_def bought_def funded_held_def lease_held_def
    funded_spent_def lease_spent_def frame_simps)

end
