(* ===== verification/Funding_Refines.thy ===== *)
theory Funding_Refines
  imports Funding_Ledger
begin

text \<open>
  Each operation of the service is a run of ledger moves: what it checked makes every write it does
  one of the moves that the abstract ledger allows.
\<close>

abbreviation ledger_moves :: "int \<Rightarrow> fstate \<Rightarrow> fstate \<Rightarrow> bool" where
  "ledger_moves at \<equiv> (ledger_move at)\<^sup>*\<^sup>*"

lemma one_move: "ledger_move at s s' \<Longrightarrow> ledger_moves at s s'"
  by (rule r_into_rtranclp)

lemma other_moves: "same_ledger s s' \<Longrightarrow> ledger_moves at s s'"
  by (rule one_move [OF other_rows])

lemma then_move: "ledger_moves at s t \<Longrightarrow> ledger_move at t u \<Longrightarrow> ledger_moves at s u"
  by (rule rtranclp.rtrancl_into_rtrancl)

lemma rows_ok_moves: "ledger_moves at s s' \<Longrightarrow> rows_ok s \<Longrightarrow> rows_ok s'"
  by (induction rule: rtranclp_induct) (auto intro: rows_ok_move)

section \<open>Attempts\<close>

lemma locked_attempt_Inr [result_simps]:
  "locked_attempt t o' i s = Inr a \<longleftrightarrow> id_pattern t \<and> id_pattern o' \<and> id_pattern i
     \<and> tx_attempt t i s = Some a \<and> fa_organizationId a = o'"
  by (auto simp: locked_attempt_def result_simps)

lemma move_attempt_Inr [result_simps]:
  "move_attempt a event = Inr row \<longleftrightarrow> (\<exists>st. transitions (fa_state a) event = Some st \<and> row = a\<lparr>fa_state := st\<rparr>)"
  by (auto simp: move_attempt_def reservation_transition_Inr_iff [symmetric] split: sum.splits)

lemma save_and_answer_Inr [result_simps]: "save_and_answer row s = Inr (x, s') \<longleftrightarrow> x = row \<and> s' = save_attempt row s"
  by (auto simp: save_and_answer_def)

lemma transitions_Some [simp]:
  "transitions st Release = Some st' \<longleftrightarrow> st = Pending \<and> st' = Released"
  "transitions st Lose = Some st' \<longleftrightarrow> st = Pending \<and> st' = Uncertain"
  "transitions st WriteOff = Some st' \<longleftrightarrow> st = Uncertain \<and> st' = WrittenOff"
  "transitions st Settle = Some st' \<longleftrightarrow> st = Pending \<and> st' = Settled"
  "transitions st Reconcile = Some st' \<longleftrightarrow> st = Uncertain \<and> st' = Settled"
  by (cases st; auto)+

text \<open>One write of a row that an attempt step gives.\<close>

definition moves_attempt :: "int \<Rightarrow> string \<Rightarrow> string \<Rightarrow> string \<Rightarrow> funded_attempt \<Rightarrow> fstate \<Rightarrow> fstate \<Rightarrow> bool" where
  "moves_attempt at t o' i row s s' \<longleftrightarrow> (\<exists>old. tx_attempt t i s = Some old \<and> fa_organizationId old = o' \<and>
     (row = old \<and> s' = s \<or> attempt_step at old row \<and> s' = save_attempt row s))"

lemma attempt_key_kept: "tx_attempt t i s = Some old \<Longrightarrow> same_terms old row \<Longrightarrow> fa_tenantId row = t \<and> fa_id row = i"
  using tx_attempt_key by (fastforce simp: same_terms_eqs)

lemma moves_attempt_refines: "moves_attempt at t o' i row s s' \<Longrightarrow> ledger_moves at s s'"
proof -
  assume "moves_attempt at t o' i row s s'"
  then obtain old where old: "tx_attempt t i s = Some old"
    and "s' = s \<or> attempt_step at old row \<and> s' = save_attempt row s"
    by (auto simp: moves_attempt_def)
  then show ?thesis
  proof (elim disjE conjE)
    assume step: "attempt_step at old row" and s': "s' = save_attempt row s"
    then have "tx_attempt (fa_tenantId row) (fa_id row) s = Some old"
      using old attempt_key_kept [OF old] attempt_step_open(3) [OF step] by simp
    then show ?thesis unfolding s' by (rule one_move [OF attempt_row [OF _ step]])
  qed simp
qed

lemmas step_defs = moves_attempt_def attempt_step_def same_terms_def was_sent_def provider_refused_def

lemma release_refused_moves:
  "release_refused at t o' i status requestId s = Inr (row, s') \<Longrightarrow> moves_attempt at t o' i row s s' \<and> fa_state row = Released"
  by (auto simp: release_refused_def rbind_Inr_iff locked_attempt_Inr move_attempt_Inr save_and_answer_Inr step_defs
      split: if_splits)

lemma release_attempt_moves:
  "release_attempt at t o' i s = Inr (row, s') \<Longrightarrow> moves_attempt at t o' i row s s' \<and> fa_state row = Released \<and> \<not> was_sent row"
  by (auto simp: release_attempt_def rbind_Inr_iff locked_attempt_Inr move_attempt_Inr save_and_answer_Inr step_defs
      split: if_splits)

lemma parked_step:
  assumes "tx_attempt t i s = Some a" and "fa_organizationId a = o'" and "fa_state a = Pending" and "was_sent a"
  shows "moves_attempt at t o' i (a\<lparr>fa_state := Uncertain, fa_uncertainReason := note\<rparr>) s
    (save_attempt (a\<lparr>fa_state := Uncertain, fa_uncertainReason := note\<rparr>) s)"
  using assms by (auto simp: moves_attempt_def attempt_step_def same_terms_def)

lemma cancel_attempt_moves:
  assumes "cancel_attempt at t o' i reason s = Inr (row, s')"
  shows "moves_attempt at t o' i row s s' \<and> fa_state row \<noteq> Pending"
proof -
  define mark where "mark = Some (CancelledAfterSend (reason_text reason ''cancelled''))"
  from assms obtain a where a: "tx_attempt t i s = Some a" "fa_organizationId a = o'"
    and found: "locked_attempt t o' i s = Inr a"
    by (auto simp: cancel_attempt_def rbind_Inr_iff locked_attempt_Inr)
  consider "fa_state a \<noteq> Pending" | "fa_state a = Pending" "\<not> was_sent a" | "fa_state a = Pending" "was_sent a" by blast
  then show ?thesis
  proof cases
    case 1
    with assms found a show ?thesis by (simp add: cancel_attempt_def moves_attempt_def)
  next
    case 2
    with assms found have "row = a\<lparr>fa_state := Released, fa_resolvedAt := Some at\<rparr> \<and> s' = save_attempt row s"
      by (auto simp: cancel_attempt_def was_sent_def rbind_Inr_iff move_attempt_Inr save_and_answer_Inr)
    with 2 a show ?thesis by (auto simp: step_defs)
  next
    case 3
    with assms found have "row = a\<lparr>fa_state := Uncertain, fa_uncertainReason := mark\<rparr> \<and> s' = save_attempt row s"
      by (auto simp: cancel_attempt_def was_sent_def rbind_Inr_iff move_attempt_Inr save_and_answer_Inr mark_def)
    with parked_step [OF a 3] show ?thesis by simp
  qed
qed

lemma mark_uncertain_moves:
  assumes "mark_uncertain t o' i reason s = Inr (row, s')"
  shows "moves_attempt at t o' i row s s' \<and> fa_state row = Uncertain"
proof -
  let ?note = "Some (LostResponse (reason_text reason ''The response was lost.''))"
  from assms obtain a where a: "tx_attempt t i s = Some a" "fa_organizationId a = o'"
    and row: "fa_state a = Uncertain \<and> row = a \<and> s' = s
      \<or> fa_state a = Pending \<and> was_sent a \<and> row = a\<lparr>fa_state := Uncertain, fa_uncertainReason := ?note\<rparr>
        \<and> s' = save_attempt row s"
    by (auto simp: mark_uncertain_def rbind_Inr_iff locked_attempt_Inr move_attempt_Inr save_and_answer_Inr was_sent_def
        split: if_splits)
  from row consider "fa_state a = Uncertain" "row = a" "s' = s"
    | "fa_state a = Pending" "was_sent a" "row = a\<lparr>fa_state := Uncertain, fa_uncertainReason := ?note\<rparr>" "s' = save_attempt row s"
    by blast
  then show ?thesis
  proof cases
    case 1
    with a show ?thesis by (simp add: moves_attempt_def)
  next
    case 2
    with parked_step [OF a 2(1,2)] show ?thesis by simp
  qed
qed

lemma write_off_moves:
  "write_off at t o' i evidence s = Inr (row, s') \<Longrightarrow> moves_attempt at t o' i row s s' \<and> fa_state row = WrittenOff"
  by (auto simp: write_off_def rbind_Inr_iff locked_attempt_Inr move_attempt_Inr save_and_answer_Inr step_defs require_id_Inr)

section \<open>Dispatch\<close>

lemma upsert_finer:
  assumes "distinct (map k xs)" and "\<And>x. Q x \<longleftrightarrow> k x = key" and "\<And>x. P x \<Longrightarrow> Q x" and "find P xs = Some row"
  shows "find Q xs = Some row \<and> upsert P new xs = upsert Q new xs"
  using assms(1,4)
proof (induction xs)
  case (Cons x xs)
  show ?case
  proof (cases "P x")
    case True
    with Cons.prems assms(3) show ?thesis by simp
  next
    case False
    with Cons.prems have row: "find P xs = Some row" by simp
    then have "Q row" "row \<in> set xs" using assms(3) find_Some_in_set by fastforce+
    with Cons.prems(1) assms(2) have "\<not> Q x" by force
    with Cons False row show ?thesis by simp
  qed
qed simp

lemma claim_dispatch_save:
  assumes "keys_ok s" and "claim_dispatch t i at s = (True, s')"
  shows "\<exists>row. tx_attempt t i s = Some row \<and> fa_state row = Pending \<and> \<not> was_sent row
    \<and> s' = save_attempt (row\<lparr>fa_dispatchedAt := Some at\<rparr>) s"
proof -
  from assms(2) obtain row where found: "find (claimable t i) (st_attempts s) = Some row"
    and s': "s' = s\<lparr>st_attempts := upsert (claimable t i) (row\<lparr>fa_dispatchedAt := Some at\<rparr>) (st_attempts s)\<rparr>"
    by (auto simp: claim_dispatch_def split: option.splits)
  have row: "claimable t i row" using found by (auto dest: find_Some_in_set)
  have "find (\<lambda>r. fa_tenantId r = t \<and> fa_id r = i) (st_attempts s) = Some row
      \<and> upsert (claimable t i) (row\<lparr>fa_dispatchedAt := Some at\<rparr>) (st_attempts s)
        = upsert (\<lambda>r. fa_tenantId r = t \<and> fa_id r = i) (row\<lparr>fa_dispatchedAt := Some at\<rparr>) (st_attempts s)"
    by (rule upsert_finer [OF _ _ _ found, of "\<lambda>r. (fa_tenantId r, fa_id r)" _ "(t, i)"])
      (use assms(1) in \<open>auto simp: keys_ok_def claimable_def\<close>)
  then show ?thesis
    using row s' by (auto simp: tx_attempt_def save_attempt_def claimable_def was_sent_def)
qed

lemma claim_or_expire_Inr:
  assumes "claim_or_expire at t o' i s = Inr (outcome, s')" and "keys_ok s"
  obtains (expired) row where "outcome = ExpiredHold" "moves_attempt at t o' i row s s'" "fa_state row = Released" "\<not> was_sent row"
    | (sent) old where "outcome = Dispatched (old\<lparr>fa_dispatchedAt := Some at\<rparr>)" "tx_attempt t i s = Some old"
      "fa_organizationId old = o'" "fa_state old = Pending" "\<not> was_sent old"
      "s' = save_attempt (old\<lparr>fa_dispatchedAt := Some at\<rparr>) s"
proof -
  from assms(1) obtain a where a: "tx_attempt t i s = Some a" "fa_organizationId a = o'" "fa_state a = Pending"
    by (auto simp: claim_or_expire_def rbind_Inr_iff locked_attempt_Inr split: if_splits)
  note key = tx_attempt_key [OF a(1)]
  let ?expire = "fa_dispatchedAt a = None
         \<and> (case tx_period (fa_tenantId a) (fa_organizationId a) (fa_periodId a) s of
              None \<Rightarrow> False | Some period \<Rightarrow> cp_planId period = ''individual'' \<and> cp_endsAt period \<le> at)"
  show thesis
  proof (cases ?expire)
    case True
    with assms(1) a have "outcome = ExpiredHold \<and> s' = save_attempt (a\<lparr>fa_state := Released, fa_resolvedAt := Some at,
        fa_uncertainReason := Some ExpiredUnsent\<rparr>) s"
      by (auto simp: claim_or_expire_def rbind_Inr_iff locked_attempt_Inr move_attempt_Inr)
    with a True show thesis
      by (intro expired [of "a\<lparr>fa_state := Released, fa_resolvedAt := Some at, fa_uncertainReason := Some ExpiredUnsent\<rparr>"])
        (auto simp: step_defs)
  next
    case False
    with assms(1) a obtain s1 where claim: "claim_dispatch t i at s = (True, s1)" and out: "s' = s1"
        "outcome = Dispatched (a\<lparr>fa_dispatchedAt := Some at\<rparr>)"
      using key by (auto simp: claim_or_expire_def rbind_Inr_iff locked_attempt_Inr split: prod.splits if_splits)
    from claim_dispatch_save [OF assms(2) claim] a(1) show thesis
      using a out by (intro sent [of a]) auto
  qed
qed

text \<open>A dispatch that answers claimed a pending, unsent hold; a refusal leaves the store or lets an ended period's hold go.\<close>

lemma mark_dispatched_cases:
  assumes "mark_dispatched at t o' i s = (answer, s')" and "keys_ok s"
  obtains (sent) old where "answer = Inr (old\<lparr>fa_dispatchedAt := Some at\<rparr>)" "tx_attempt t i s = Some old"
      "fa_organizationId old = o'" "fa_state old = Pending" "\<not> was_sent old"
      "s' = save_attempt (old\<lparr>fa_dispatchedAt := Some at\<rparr>) s"
    | (expired) row where "answer = Inl (FundingError 409 ''period_ended'')" "moves_attempt at t o' i row s s'"
      "fa_state row = Released" "\<not> was_sent row"
    | (refused) e where "answer = Inl e" "s' = s"
proof (cases "claim_or_expire at t o' i s")
  case (Inl e)
  with assms(1) show thesis by (intro refused) (auto simp: mark_dispatched_def transaction_def)
next
  case (Inr result)
  then obtain outcome s1 where run: "claim_or_expire at t o' i s = Inr (outcome, s1)" by (cases result) simp
  from run assms(2) show thesis
  proof (cases rule: claim_or_expire_Inr)
    case (expired row)
    with assms(1) run show thesis by (intro that(2)) (auto simp: mark_dispatched_def transaction_def)
  next
    case (sent old)
    with assms(1) run show thesis by (intro that(1)) (auto simp: mark_dispatched_def transaction_def)
  qed
qed

lemma sent_step: "fa_state old = Pending \<Longrightarrow> \<not> was_sent old \<Longrightarrow> attempt_step at old (old\<lparr>fa_dispatchedAt := Some at\<rparr>)"
  by (simp add: attempt_step_def same_terms_def)

lemma mark_dispatched_refines:
  assumes "mark_dispatched at t o' i s = (answer, s')" and "rows_ok s"
  shows "ledger_moves at s s'"
  using assms(1) rows_ok_parts(1) [OF assms(2)]
proof (cases rule: mark_dispatched_cases)
  case (sent old)
  then have "moves_attempt at t o' i (old\<lparr>fa_dispatchedAt := Some at\<rparr>) s s'"
    by (auto simp: moves_attempt_def sent_step)
  then show ?thesis by (rule moves_attempt_refines)
next
  case (expired row)
  then show ?thesis by (intro moves_attempt_refines)
next
  case (refused e)
  then show ?thesis by simp
qed

section \<open>Settlement\<close>

lemma settlement_of_Inr:
  "settlement_of at a receipt from providerCost cost u = Inr se \<longleftrightarrow>
     is_money (min cost (fa_monthlyHoldMicroUsd a)) \<and> is_money (cost - min cost (fa_monthlyHoldMicroUsd a))
     \<and> se = \<lparr>se_tenantId = fa_tenantId a, se_organizationId = fa_organizationId a, se_reservationId = fa_id a,
        se_periodId = fa_periodId a, se_providerCostMicroUsd = providerCost, se_allowanceDebitMicroUsd = cost,
        se_rateCardVersion = fa_rateCardVersion a, se_settledAt = at, se_reconciledFrom = from,
        se_receiptRef = receipt, se_monthlyDebitMicroUsd = min cost (fa_monthlyHoldMicroUsd a),
        se_topUpDebitMicroUsd = cost - min cost (fa_monthlyHoldMicroUsd a), se_usage = u\<rparr>"
  by (auto simp: settlement_of_def Let_def rbind_Inr_iff micro_Inr_iff)

lemma keep_hold_moves:
  assumes "keep_hold a reason s = Inr (result, s')" and "tx_attempt t i s = Some a" and "fa_organizationId a = o'"
    and "fa_state a = Pending \<and> was_sent a \<or> fa_state a = Uncertain"
  shows "\<exists>row. result = HeldAs row reason \<and> fa_state row = Uncertain \<and> moves_attempt at t o' i row s s'
    \<and> fa_uncertainReason row = Some reason"
proof -
  let ?row = "(if fa_state a = Uncertain then a else a\<lparr>fa_state := Uncertain\<rparr>)\<lparr>fa_uncertainReason := Some reason\<rparr>"
  have "result = HeldAs ?row reason \<and> s' = save_attempt ?row s"
    using assms(1,4) by (auto simp: keep_hold_def rbind_Inr_iff move_attempt_Inr Let_def)
  moreover have "attempt_step at a ?row" using assms(4) by (auto simp: attempt_step_def same_terms_def)
  ultimately show ?thesis using assms(2,3) by (intro exI [of _ ?row]) (simp add: moves_attempt_def)
qed

lemma settle_attempt_Inr:
  assumes "settle_attempt at t o' i receipt usage raw from s = Inr (result, s')"
  obtains (replay) recorded u where "tx_settlement t i s = Some recorded" "se_receiptRef recorded = receipt"
      "validate_provider_usage usage raw = ValidUsage u" "same_usage_counts (se_usage recorded) u"
      "result = SettledAs recorded" "s' = s"
    | (held) row reason where "tx_settlement t i s = None" "result = HeldAs row reason" "fa_state row = Uncertain"
      "moves_attempt at t o' i row s s'"
    | (fresh) old u providerCost cost se where "tx_settlement t i s = None" "tx_attempt t i s = Some old"
      "fa_organizationId old = o'" "fa_state old = Pending \<and> was_sent old \<or> fa_state old = Uncertain"
      "validate_provider_usage usage raw = ValidUsage u" "attempt_costs old u = Inr (providerCost, cost)"
      "cost \<le> fa_maxMicroUsd old" "settlement_of at old receipt from providerCost cost u = Inr se"
      "result = SettledAs se"
      "s' = save_settlement se (save_attempt (old\<lparr>fa_state := Settled, fa_resolvedAt := Some at\<rparr>) s)"
proof -
  from assms obtain a where a: "tx_attempt t i s = Some a" "fa_organizationId a = o'"
    and found: "locked_attempt t o' i s = Inr a" and receipt: "require_id (JStr receipt) = Inr receipt"
    by (auto simp: settle_attempt_def rbind_Inr_iff locked_attempt_Inr require_id_Inr)
  have key: "fa_tenantId a = t" "fa_id a = i" using tx_attempt_key [OF a(1)] by simp_all
  note body = assms [unfolded settle_attempt_def Let_def, simplified found receipt rbind_simps key]
  show thesis
  proof (cases "tx_settlement t i s")
    case (Some recorded)
    with body obtain u where "validate_provider_usage usage raw = ValidUsage u"
      by (auto split: if_splits checked_usage.splits)
    with Some body show thesis by (intro replay [of recorded u]) (auto split: if_splits)
  next
    case None
    with body have open': "fa_state a = Pending \<and> was_sent a \<or> fa_state a = Uncertain"
      by (auto simp: was_sent_def split: if_splits)
    show thesis
    proof (cases "validate_provider_usage usage raw")
      case (InvalidUsage reason r)
      with body None open' have "keep_hold a (BadReport reason) s = Inr (result, s')"
        by (auto simp: was_sent_def split: if_splits)
      from keep_hold_moves [where at = at, OF this a open'] None show thesis by (auto intro: held)
    next
      case (ValidUsage u)
      with body None open' obtain providerCost cost where costs: "attempt_costs a u = Inr (providerCost, cost)"
        by (auto simp: was_sent_def rbind_Inr_iff split: if_splits)
      show thesis
      proof (cases "fa_maxMicroUsd a < cost")
        case True
        with body None open' ValidUsage costs have "keep_hold a MoreThanReserved s = Inr (result, s')"
          by (auto simp: was_sent_def)
        from keep_hold_moves [where at = at, OF this a open'] None show thesis by (auto intro: held)
      next
        case False
        from body None open' ValidUsage costs False obtain se where
          "settlement_of at a receipt from providerCost cost u = Inr se" "result = SettledAs se"
          "s' = save_settlement se (save_attempt (a\<lparr>fa_state := Settled, fa_resolvedAt := Some at\<rparr>) s)"
          by (auto simp: was_sent_def rbind_Inr_iff move_attempt_Inr)
        with None a open' ValidUsage costs False show thesis by (intro fresh) simp_all
      qed
    qed
  qed
qed

lemma settle_step_of:
  assumes "settlement_of at old receipt from providerCost cost u = Inr se" and "cost \<le> fa_maxMicroUsd old"
    and "attempt_terms_ok old" and "fa_state old = Pending \<and> was_sent old \<or> fa_state old = Uncertain"
  shows "settle_step old (old\<lparr>fa_state := Settled, fa_resolvedAt := Some at\<rparr>) se"
  using assms
  by (auto simp: settle_step_def same_terms_def settlement_matches_def settlement_of_Inr is_money_def attempt_terms_ok_def min_def
      split: if_splits)

lemma settle_attempt_refines:
  assumes "settle_attempt at t o' i receipt usage raw from s = Inr (result, s')" and "rows_ok s"
  shows "ledger_moves at s s'"
  using assms(1)
proof (cases rule: settle_attempt_Inr)
  case (held row reason)
  then show ?thesis by (intro moves_attempt_refines)
next
  case (fresh old u providerCost cost se)
  note key = tx_attempt_key [OF fresh(2)] and terms = attempts_okD(2) [OF rows_ok_parts(2) [OF assms(2)] fresh(2)]
  have step: "settle_step old (old\<lparr>fa_state := Settled, fa_resolvedAt := Some at\<rparr>) se"
    using fresh terms by (intro settle_step_of)
  show ?thesis
    unfolding fresh(10) using fresh(1,2) key by (intro one_move [OF settle_row [OF _ step]]) simp_all
qed simp

section \<open>Recovery\<close>

lemma recover_one_Inr:
  assumes "recover_one at a (ids, s) = Inr (ids', s')" and "tx_attempt t i s = Some a" and "fa_state a = Pending"
  shows "\<exists>row. attempt_step at a row \<and> s' = save_attempt row s
    \<and> ids' = (if was_sent a then (fst ids, snd ids @ [fa_id a]) else (fst ids @ [fa_id a], snd ids))
    \<and> fa_state row = (if was_sent a then Uncertain else Released)"
proof (cases "was_sent a")
  case True
  let ?row = "a\<lparr>fa_state := Uncertain, fa_uncertainReason := Some HostRestarted\<rparr>"
  from assms True have "ids' = (fst ids, snd ids @ [fa_id a]) \<and> s' = save_attempt ?row s"
    by (auto simp: recover_one_def rbind_Inr_iff move_attempt_Inr was_sent_def split: prod.splits)
  moreover have "attempt_step at a ?row" using assms True by (simp add: attempt_step_def same_terms_def)
  ultimately show ?thesis using True by (intro exI [of _ ?row]) simp
next
  case False
  let ?row = "a\<lparr>fa_state := Released, fa_resolvedAt := Some at\<rparr>"
  from assms False have "ids' = (fst ids @ [fa_id a], snd ids) \<and> s' = save_attempt ?row s"
    by (auto simp: recover_one_def rbind_Inr_iff move_attempt_Inr was_sent_def split: prod.splits)
  moreover have "attempt_step at a ?row" using assms False by (simp add: attempt_step_def same_terms_def)
  ultimately show ?thesis using False by (intro exI [of _ ?row]) simp
qed

lemma recover_fold_refines:
  assumes "rfold (recover_one at) rows (ids, s) = Inr (ids', s')" and "distinct (map (\<lambda>r. (fa_tenantId r, fa_id r)) rows)"
    and "\<And>a. a \<in> set rows \<Longrightarrow> tx_attempt (fa_tenantId a) (fa_id a) s = Some a \<and> fa_state a = Pending"
  shows "ledger_moves at s s'"
  using assms
proof (induction rows arbitrary: ids s)
  case (Cons a rows)
  from Cons.prems(1) obtain ids1 s1 where one: "recover_one at a (ids, s) = Inr (ids1, s1)"
    and rest: "rfold (recover_one at) rows (ids1, s1) = Inr (ids', s')"
    by (auto simp: rbind_Inr_iff)
  have a: "tx_attempt (fa_tenantId a) (fa_id a) s = Some a" "fa_state a = Pending" using Cons.prems(3) [of a] by simp_all
  from recover_one_Inr [OF one a] obtain row where row: "attempt_step at a row" "s1 = save_attempt row s" by blast
  have key: "fa_tenantId row = fa_tenantId a" "fa_id row = fa_id a"
    using same_terms_eqs [OF attempt_step_open(3) [OF row(1)]] by simp_all
  have "ledger_move at s s1" unfolding row(2) using a key by (intro attempt_row [OF _ row(1)]) simp
  moreover have "ledger_moves at s1 s'"
  proof (rule Cons.IH [OF rest])
    show "distinct (map (\<lambda>r. (fa_tenantId r, fa_id r)) rows)" using Cons.prems(2) by simp
    fix b assume b: "b \<in> set rows"
    then have "(fa_tenantId b, fa_id b) \<in> (\<lambda>r. (fa_tenantId r, fa_id r)) ` set rows" by (rule imageI)
    moreover have "(fa_tenantId a, fa_id a) \<notin> (\<lambda>r. (fa_tenantId r, fa_id r)) ` set rows" using Cons.prems(2) by simp
    ultimately have "(fa_tenantId b, fa_id b) \<noteq> (fa_tenantId a, fa_id a)" by metis
    then show "tx_attempt (fa_tenantId b) (fa_id b) s1 = Some b \<and> fa_state b = Pending"
      using Cons.prems(3) [of b] b key by (auto simp: row(2) tx_attempt_save)
  qed
  ultimately show ?case by (rule converse_rtranclp_into_rtranclp)
qed simp

lemma distinct_map_filter_rows: "distinct (map k xs) \<Longrightarrow> distinct (map k (filter P xs))"
  by (induction xs) auto

lemma pending_attempts_found:
  assumes "keys_ok s" and "a \<in> set (pending_attempts t o' s)"
  shows "tx_attempt (fa_tenantId a) (fa_id a) s = Some a \<and> fa_state a = Pending"
  using assms attempt_in_set by (auto simp: pending_attempts_def)

lemma recover_after_restart_refines:
  assumes "recover_after_restart at t o' s = Inr (ids, s')" and "rows_ok s"
  shows "ledger_moves at s s'"
proof -
  have keys: "keys_ok s" using rows_ok_parts(1) [OF assms(2)] .
  from assms(1) have "rfold (recover_one at) (pending_attempts t o' s) (([], []), s) = Inr (ids, s')"
    by (auto simp: recover_after_restart_def rbind_Inr_iff require_id_Inr)
  then show ?thesis
  proof (rule recover_fold_refines)
    show "distinct (map (\<lambda>r. (fa_tenantId r, fa_id r)) (pending_attempts t o' s))"
      using keys unfolding pending_attempts_def keys_ok_def by (intro distinct_map_filter_rows) simp
  qed (rule pending_attempts_found [OF keys])
qed

end
