(* ===== verification/Funding_Calls.thy ===== *)
theory Funding_Calls
  imports Funding_Refines
begin

text \<open>
  The rest of the service's operations as runs of ledger moves, the calls a client makes of the
  service, and the states those calls reach, with the invariants that hold in all of them.
\<close>

section \<open>Periods, jobs and corrections\<close>

lemma stay_or_move: "s' = s \<or> ledger_move at s s' \<Longrightarrow> ledger_moves at s s'"
  by (auto intro: one_move)

lemma records_period_refines: "records_period row s s' \<Longrightarrow> ledger_moves at s s'"
  by (auto simp: records_period_def intro: one_move new_period)

lemmas allocations_refine =
  allocate_period_Inr(1) [THEN records_period_refines]
  allocate_agreement_period_Inr(1) [THEN records_period_refines]
  allocate_individual_period_Inr(1) [THEN records_period_refines]

lemma open_job_refines:
  assumes "open_job now input s = Inr ((job, inherited), s')"
  shows "ledger_moves at s s'"
proof -
  consider (child) parent where "attach_child input parent s = Inr ((job, inherited), s')"
    | (root) "open_root now input s = Inr ((job, inherited), s')"
    using assms by (auto simp: open_job_def rbind_Inr_iff case_option_Inr_iff)
  then show ?thesis
  proof cases
    case child
    from attach_child_Inr(5) [OF this] show ?thesis by (auto intro: other_moves)
  next
    case root
    note opened = open_root_Inr [OF root]
    from opened(5) consider "s' = s" | ref where "tx_job (oj_tenantId input) (oj_rootJobId input) s = None"
      "fj_capGeneration job = 0" "s' = save_jobRef ref (save_job job s)"
      by blast
    then show ?thesis
    proof cases
      case 2
      then have "ledger_move at s (save_job job s)"
        using opened(3,4) by (intro job_row) (simp add: job_step_def)
      then show ?thesis unfolding 2(3) by (rule then_move [OF one_move]) (rule other_rows, simp)
    qed simp
  qed
qed

lemma job_raise_move:
  assumes "tx_job t i s = Some job"
  shows "ledger_move at s (save_job (job\<lparr>fj_capMicroUsd := cap, fj_capGeneration := fj_capGeneration job + 1\<rparr>) s)"
  using tx_job_key [OF assms] assms by (intro job_row) (simp add: job_step_def)

lemma keep_going_refines:
  assumes "keep_going t o' i atCap amounts s = Inr (answer, s')"
  shows "ledger_moves at s s'"
proof -
  from keep_going_Inr [OF assms] obtain job tier where job: "tx_job t i s = Some job"
    and "if kg_raised answer then
         kg_job answer = job\<lparr>fj_capMicroUsd := atCap + amounts tier, fj_capGeneration := fj_capGeneration job + 1\<rparr>
         \<and> s' = save_job (kg_job answer) s else s' = s"
    by (auto split: if_splits)
  then show ?thesis by (auto intro!: one_move job_raise_move [OF job] split: if_splits)
qed

lemma request_capIncrease_refines:
  "request_capIncrease now t o' job requestId cap by' s = Inr (row, s') \<Longrightarrow> ledger_moves at s s'"
  by (drule request_capIncrease_Inr) (auto intro: other_moves)

lemma decide_capIncrease_refines:
  assumes "decide_capIncrease now m requestId ok s = Inr (row, s')"
  shows "ledger_moves at s s'"
  using assms
proof (cases rule: decide_capIncrease_Inr)
  case (decline request)
  show ?thesis unfolding decline(6) by (rule other_moves) simp
next
  case (approve request job)
  show ?thesis unfolding approve(7)
    by (rule then_move [OF one_move [OF job_raise_move [OF approve(6), of at "cr_requestedCapMicroUsd request"]]])
      (rule other_rows, simp)
qed simp

lemma record_correction_refines:
  assumes "record_correction now input s = Inr (row, s')"
  shows "ledger_moves at s s'"
  using assms
proof (cases rule: record_correction_Inr)
  case (fresh period)
  have "ad_amountMicroUsd row \<le> month_free (ad_tenantId row) (ad_organizationId row) (ad_periodId row) s"
    if withdraw: "ad_direction row = WithdrawCredits"
  proof -
    from fresh(11) withdraw fresh(7) obtain totals available where
      "tx_periodTotals (ci_tenantId input) (ci_organizationId input) (ci_periodId input) s = Inr totals"
      "monthly_available period totals = Inr available" "ad_amountMicroUsd row \<le> available"
      by auto
    with monthly_available_balance [OF _ _ fresh(10)] show ?thesis by (simp add: fresh(3,4,6) month_free_def)
  qed
  then show ?thesis
    unfolding fresh(2) using fresh by (intro one_move new_adjustment) simp_all
qed simp

section \<open>Top-ups and purchases\<close>

lemma record_topUp_within_refines:
  assumes "record_topUp_within now t o' i amount ev s = Inr (row, s')" and "is_money amount"
  shows "ledger_moves at s s'"
  using record_topUp_within_Inr [OF assms(1)] assms(2) by (intro stay_or_move) (auto intro: new_topUp)

lemma record_topUp_refines:
  "record_topUp now t o' i amount provider ev s = Inr (row, s') \<Longrightarrow> ledger_moves at s s'"
  using record_topUp_Inr [of now t o' i amount provider ev s row s'] by (intro stay_or_move) (auto intro: new_topUp)

lemma start_creditPurchase_refines:
  assumes "start_creditPurchase now input s = Inr (row, s')"
  shows "ledger_moves at s s'"
  using start_creditPurchase_Inr [OF assms]
  by (intro stay_or_move) (auto intro!: purchase_row simp: purchase_step_def)

text \<open>A step of an open purchase that does not pay it.\<close>

lemma open_purchase_move:
  assumes "tx_creditPurchase t i s = Some old" and "pu_state old = PurchasePending"
    and "row = old\<lparr>pu_checkoutSessionId := pu_checkoutSessionId row, pu_state := pu_state row,
           pu_resolvedAt := pu_resolvedAt row, pu_stripeEventId := pu_stripeEventId row\<rparr>"
    and "pu_state row \<noteq> PurchasePaid"
    and "pu_checkoutSessionId old = None \<or> pu_checkoutSessionId row = pu_checkoutSessionId old"
  shows "ledger_move at s (save_creditPurchase row s)"
proof -
  have "pu_tenantId row = t" "pu_purchaseId row = i"
    using tx_creditPurchase_key [OF assms(1)] by (subst assms(3); simp)+
  with assms show ?thesis by (intro purchase_row) (simp add: purchase_step_def)
qed

lemma attach_checkoutSession_refines:
  assumes "attach_checkoutSession t o' i session s = Inr (row, s')"
  shows "ledger_moves at s s'"
proof -
  from assms obtain old where old: "tx_creditPurchase t i s = Some old" and "s' = s
      \<or> pu_state old = PurchasePending \<and> pu_checkoutSessionId old = None
        \<and> s' = save_creditPurchase (old\<lparr>pu_checkoutSessionId := Some session\<rparr>) s"
    by (auto simp: attach_checkoutSession_def result_simps Let_def)
  then show ?thesis by (intro stay_or_move) (auto intro: open_purchase_move [OF old])
qed

lemma fail_creditPurchase_refines:
  assumes "fail_creditPurchase now t o' i s = Inr (row, s')"
  shows "ledger_moves at s s'"
proof -
  from assms obtain old where old: "tx_creditPurchase t i s = Some old" and "s' = s
      \<or> pu_state old = PurchasePending \<and> pu_checkoutSessionId old = None
        \<and> s' = save_creditPurchase (old\<lparr>pu_state := PurchaseFailed, pu_resolvedAt := Some now\<rparr>) s"
    by (auto simp: fail_creditPurchase_def result_simps Let_def)
  then show ?thesis by (intro stay_or_move) (auto intro: open_purchase_move [OF old])
qed

text \<open>The paid event records the top-up first, then the paid purchase over it.\<close>

lemma paid_purchase_move:
  assumes "tx_creditPurchase t i s = Some old" and "pu_state old = PurchasePending"
    and "record_topUp_within now t (pu_organizationId old) i (pu_credits old * 100000) event s = Inr (topUp, s1)"
  shows "ledger_move at s1 (save_creditPurchase (old\<lparr>pu_state := PurchasePaid, pu_resolvedAt := Some now,
    pu_stripeEventId := Some event\<rparr>) s1)"
proof -
  note key = tx_creditPurchase_key [OF assms(1)] and topUp = record_topUp_within_Inr [OF assms(3)]
  have "tx_topUp t i s1 = Some topUp" using topUp by (auto simp: tx_topUp_save)
  moreover have "tx_creditPurchase t i s1 = Some old" using topUp(6) assms(1) by (auto simp: read_frames)
  ultimately show ?thesis
    using key topUp assms(2) by (intro purchase_row) (simp add: purchase_step_def paid_by_topUp_def)
qed

lemma resolve_creditPurchase_refines:
  assumes "resolve_creditPurchase now input s = Inr (answer, s')"
  shows "ledger_moves at s s'"
proof (cases answer)
  case (ResolveIgnored reason i)
  with assms resolve_creditPurchase_ignored [of now input s reason i s'] show ?thesis by simp
next
  case (Resolved st i)
  from resolve_creditPurchase_Resolved [OF assms [unfolded Resolved]] obtain old where
    old: "tx_creditPurchase (pu_tenantId old) i s = Some old" "pu_state old = PurchasePending"
    "st = resolved_state (pe_kind input)"
    and result: "if pe_kind input = EventPaid
       then \<exists>topUp s1. record_topUp_within now (pu_tenantId old) (pu_organizationId old) i
                (pu_credits old * 100000) (pe_eventId input) s = Inr (topUp, s1)
              \<and> is_money (pu_credits old * 100000) \<and> s' = save_creditPurchase (old\<lparr>pu_state := st,
                 pu_resolvedAt := Some now, pu_stripeEventId := Some (pe_eventId input)\<rparr>) s1
       else s' = save_creditPurchase (old\<lparr>pu_state := st, pu_resolvedAt := Some now,
                 pu_stripeEventId := Some (pe_eventId input)\<rparr>) s"
    by (auto simp: Let_def split: if_splits)
  show ?thesis
  proof (cases "pe_kind input = EventPaid")
    case True
    with result obtain topUp s1 where topUp: "record_topUp_within now (pu_tenantId old) (pu_organizationId old) i
        (pu_credits old * 100000) (pe_eventId input) s = Inr (topUp, s1)" "is_money (pu_credits old * 100000)"
      and s': "s' = save_creditPurchase (old\<lparr>pu_state := PurchasePaid,
        pu_resolvedAt := Some now, pu_stripeEventId := Some (pe_eventId input)\<rparr>) s1"
      using old(3) by auto
    show ?thesis
      unfolding s' by (rule then_move [OF record_topUp_within_refines [OF topUp] paid_purchase_move [OF old(1,2) topUp(1)]])
  next
    case False
    then have "st \<noteq> PurchasePaid" using old(3) by (cases "pe_kind input") simp_all
    with False result show ?thesis by (intro stay_or_move) (auto intro: open_purchase_move [OF old(1,2)])
  qed
qed

section \<open>Holds on bought credits\<close>

text \<open>Every hold operation sweeps the business's lapsed holds first and answers with the balance it leaves.\<close>

lemma sweep_moves: "ledger_moves at s (expire_topUpHolds t o' at s)"
  by (rule one_move [OF sweep])

lemma held_row_move:
  assumes "tx_topUpHold t i s = Some old" and "hold_step at old row"
    and "th_tenantId row = t" "th_organizationId row = o'" "th_holdId row = i"
    and "read_balance at t o' (save_topUpHold row s) = Inr balance"
  shows "ledger_move at s (save_topUpHold row s)"
proof -
  have "bought_committed t o' at (save_topUpHold row s) \<le> bought t o' s"
    using read_balance_within(1) [OF assms(6)] by (simp add: bought_def frame_simps)
  with assms show ?thesis by (intro hold_row) simp_all
qed

lemma hold_purchased_refines:
  assumes "hold_purchased at t o' i person amount digest s = Inr ((hold, balance), s')"
  shows "ledger_moves at s s'"
proof -
  let ?s = "expire_topUpHolds t o' at s"
  note answer = hold_purchased_Inr [OF assms]
  from answer(9) consider "s' = ?s" | totals where "tx_topUpHold t i ?s = None" "s' = save_topUpHold hold ?s"
    "th_debitMicroUsd hold = 0" "th_absorbedMicroUsd hold = 0" "tx_topUpTotals t o' at ?s = Inr totals"
    "amount \<le> tt_purchasedMicroUsd totals - tt_heldMicroUsd totals - tt_settledMicroUsd totals"
    by blast
  then show ?thesis
  proof cases
    case 1
    then show ?thesis using sweep_moves by simp
  next
    case 2
    have "amount \<le> bought_free t o' at ?s"
      using 2(6) topUpTotals_Inr [OF 2(5)] by (simp add: bought_free_def bought_committed_def)
    moreover have "th_releasedBy hold = None"
      using assms 2 answer(6) by (auto simp: hold_purchased_def result_simps Let_def)
    ultimately show ?thesis
      unfolding 2(2) using answer 2 by (intro then_move [OF sweep_moves [of at s t o']] new_hold) simp_all
  qed
qed

lemma settles_hold_step: "settles_hold at debit recorded held hold \<Longrightarrow> hold_step at held hold"
  by (auto simp: hold_step_def settles_hold_def)

lemma settle_purchased_refines:
  assumes "settle_purchased at t o' i person debit s = Inr ((hold, balance), s')"
  shows "ledger_moves at s s'"
proof -
  let ?s = "expire_topUpHolds t o' at s"
  from settle_purchased_Inr [OF assms] obtain held where held: "tx_topUpHold t i ?s = Some held" "th_organizationId held = o'"
    "is_money debit" and found: "settle_found at t o' debit held ?s = Inr ((hold, balance), s')"
    by metis
  note key = tx_topUpHold_key [OF held(1)]
  have saved: "ledger_moves at s (save_topUpHold hold ?s)"
    if "settles_hold at debit recorded held hold" and "read_balance at t o' (save_topUpHold hold ?s) = Inr balance" for recorded
    using that held key by (intro then_move [OF sweep_moves [of at s t o']] held_row_move [OF held(1) settles_hold_step [OF that(1)] _ _ _ that(2)])
      (simp_all add: settles_hold_def)
  from found held(3) conjunct1 [OF key] held(2) show ?thesis
  proof (cases rule: settle_found_Inr [of at t o' debit held ?s hold balance s'])
    case replay
    then show ?thesis using sweep_moves by simp
  next
    case live
    then show ?thesis using saved by simp
  next
    case (late totals recorded)
    then show ?thesis using saved by simp
  qed
qed

lemma release_purchased_refines:
  assumes "release_purchased at t o' i person s = Inr ((hold, balance), s')"
  shows "ledger_moves at s s'"
proof -
  let ?s = "expire_topUpHolds t o' at s"
  from release_purchased_Inr [OF assms] obtain held where held: "tx_topUpHold t i ?s = Some held" "th_organizationId held = o'"
    "read_balance at t o' s' = Inr balance"
    and result: "s' = ?s \<or> th_state held = HoldHeld
       \<and> hold = held\<lparr>th_state := HoldReleased, th_resolvedAt := Some at, th_releasedBy := Some ByPerson\<rparr>
       \<and> s' = save_topUpHold hold ?s"
    by metis
  note key = tx_topUpHold_key [OF held(1)]
  from result show ?thesis
  proof (elim disjE conjE)
    assume row: "th_state held = HoldHeld"
      "hold = held\<lparr>th_state := HoldReleased, th_resolvedAt := Some at, th_releasedBy := Some ByPerson\<rparr>"
      "s' = save_topUpHold hold ?s"
    have "hold_step at held hold" using row by (simp add: hold_step_def)
    then show ?thesis
      unfolding row(3) using held key row by (intro then_move [OF sweep_moves [of at s t o']] held_row_move [OF held(1)]) simp_all
  qed (simp add: sweep_moves)
qed

lemma renew_purchased_refines:
  assumes "renew_purchased at t o' i person s = Inr ((hold, balance), s')"
  shows "ledger_moves at s s'"
proof -
  let ?s = "expire_topUpHolds t o' at s"
  from renew_purchased_Inr [OF assms] obtain held where held: "tx_topUpHold t i ?s = Some held" "th_organizationId held = o'"
    "read_balance at t o' s' = Inr balance" and row: "th_state held = HoldHeld" "at < th_leaseUntil held"
    "hold = held\<lparr>th_leaseUntil := lease_from at\<rparr>" "s' = save_topUpHold hold ?s"
    by metis
  have "hold_step at held hold" using row by (simp add: hold_step_def)
  then show ?thesis
    unfolding row(4) using held tx_topUpHold_key [OF held(1)] row
    by (intro then_move [OF sweep_moves [of at s t o']] held_row_move [OF held(1)]) simp_all
qed

lemma read_purchasedBalance_refines:
  "read_purchasedBalance at t o' s = Inr (balance, s') \<Longrightarrow> ledger_moves at s s'"
  by (auto simp: read_purchasedBalance_def result_simps Let_def sweep_moves)

section \<open>Reservation\<close>

lemma reserve_terms:
  assumes "decide_reserve (ri_maxMicroUsd input) monthlyAvailable topUpAvailable job = Inr (ReserveOk monthly topUp)"
    and "rate_prices_ok (rs_version (ri_rateSnapshot input)) (ri_rateSnapshot input)"
    and "\<And>charge. ri_chargeSnapshot input = Some charge \<Longrightarrow> rate_prices_ok (cs_version charge) charge"
  shows "attempt_terms_ok (new_attempt at input period monthly topUp)"
  using decide_reserve_ok(1-5) [OF assms(1)] rate_prices_nonneg [OF assms(2)] rate_prices_nonneg [OF assms(3)]
  by (auto simp: attempt_terms_ok_def is_money_def split: option.split)

lemma reserve_new_refines:
  assumes "reserve_new at input companyCeiling cycle boughtOnly member s = Inr (attempt, s')"
    and "tx_attempt (ri_tenantId input) (ri_attemptId input) s = None"
    and "rate_prices_ok (rs_version (ri_rateSnapshot input)) (ri_rateSnapshot input)"
    and "\<And>charge. ri_chargeSnapshot input = Some charge \<Longrightarrow> rate_prices_ok (cs_version charge) charge"
  shows "ledger_moves at s s'"
  using assms(1)
proof (cases rule: reserve_new_Inr)
  case (1 job period s1 month bought used monthlyAvailable topUpAvailable monthly topUp)
  note period = reserve_period_Inr [OF 1(4)]
  have first: "ledger_moves at s s1" using records_period_refines [OF period(1)] .
  have found: "tx_period (ri_tenantId input) (ri_organizationId input) (cp_periodId period) s1 = Some period"
    using records_period_read [OF period(1)] period(2,3) by simp
  have fresh: "tx_attempt (ri_tenantId input) (ri_attemptId input) s1 = None"
    using period(1) assms(2) by (auto simp: records_period_def read_frames)
  have month: "monthlyAvailable = month_free (ri_tenantId input) (ri_organizationId input) (cp_periodId period) s1"
    using monthly_available_balance [OF 1(5,6) found] by (simp add: month_free_def)
  have free: "topUpAvailable = bought_free (ri_tenantId input) (ri_organizationId input) at s1"
    using top_up_available_balance [OF 1(7,8)] by (simp add: bought_free_def)
  have "0 \<le> topUpAvailable" by (simp add: free bought_free_def)
  with decide_reserve_ok [OF 1(10)] have within: "monthly \<le> monthlyAvailable" "topUp \<le> topUpAvailable" by simp_all
  have "ledger_move at s1 (save_attempt attempt s1)"
    unfolding 1(13) using found fresh within month free reserve_terms [OF 1(10) assms(3,4)]
    by (intro ledger_move.new_attempt) (simp_all add: was_sent_def)
  then have second: "ledger_moves at s (save_attempt attempt s1)" by (rule then_move [OF first])
  have "same_ledger (save_attempt attempt s1) s'" unfolding 1(14) by (cases member) (simp_all add: case_prod_unfold)
  then show ?thesis by (rule then_move [OF second other_rows])
qed

lemma reserve_refines:
  assumes "reserve at input s = Inr (attempt, s')"
  shows "ledger_moves at s s'"
  using assms
proof (cases rule: reserve_Inr)
  case (fresh companyCeiling cycle boughtOnly member)
  show ?thesis by (rule reserve_new_refines [OF fresh(2,1,3,4)])
qed simp

end
