(* ===== verification/Funding_History.thy ===== *)
theory Funding_History
  imports Funding_Calls "HOL-Library.Sublist"
begin

text \<open>
  What every later state keeps of an earlier one: settlements, top-ups, adjustments and periods are only
  appended, and each attempt, hold and purchase keeps its terms and moves only forward.
\<close>

section \<open>Orders that every step follows\<close>

locale followed_order =
  fixes step :: "'t \<Rightarrow> 's \<Rightarrow> 's \<Rightarrow> bool" and later :: "'s \<Rightarrow> 's \<Rightarrow> bool"
  assumes stays: "later s s" and chains: "later s t \<Longrightarrow> later t u \<Longrightarrow> later s u"
    and follows: "step at s s' \<Longrightarrow> later s s'"
begin

lemma follows_run: "(step at)\<^sup>*\<^sup>* s s' \<Longrightarrow> later s s'"
  by (induction rule: rtranclp_induct) (auto intro: stays chains follows)

end

section \<open>Rows that move forward\<close>

definition attempt_follows :: "funded_attempt \<Rightarrow> funded_attempt \<Rightarrow> bool" where
  "attempt_follows a a' \<longleftrightarrow> same_terms a a' \<and> reservation_moves\<^sup>*\<^sup>* (fa_state a) (fa_state a')
     \<and> (was_sent a \<longrightarrow> fa_dispatchedAt a' = fa_dispatchedAt a)
     \<and> (is_terminal_reservation (fa_state a) \<longrightarrow> a' = a)"

definition hold_moves :: "hold_state \<Rightarrow> hold_state \<Rightarrow> bool" where
  "hold_moves st st' \<longleftrightarrow> st = HoldHeld \<and> st' \<noteq> HoldHeld \<or> st = HoldReleased \<and> st' = HoldSettled"

definition hold_follows :: "top_up_hold \<Rightarrow> top_up_hold \<Rightarrow> bool" where
  "hold_follows h h' \<longleftrightarrow> th_organizationId h' = th_organizationId h \<and> th_personId h' = th_personId h
     \<and> th_amountMicroUsd h' = th_amountMicroUsd h \<and> hold_moves\<^sup>*\<^sup>* (th_state h) (th_state h')
     \<and> (th_state h = HoldSettled \<longrightarrow> h' = h)"

definition purchase_moves :: "purchase_state \<Rightarrow> purchase_state \<Rightarrow> bool" where
  "purchase_moves st st' \<longleftrightarrow> st = PurchasePending \<and> st' \<noteq> PurchasePending"

definition purchase_follows :: "credit_purchase \<Rightarrow> credit_purchase \<Rightarrow> bool" where
  "purchase_follows p p' \<longleftrightarrow> purchase_moves\<^sup>*\<^sup>* (pu_state p) (pu_state p') \<and> pu_organizationId p' = pu_organizationId p
     \<and> pu_credits p' = pu_credits p \<and> pu_amountCents p' = pu_amountCents p
     \<and> (pu_state p \<noteq> PurchasePending \<longrightarrow> p' = p)"

fun hold_remaining :: "hold_state \<Rightarrow> nat" where
  "hold_remaining HoldHeld = 2"
| "hold_remaining HoldReleased = 1"
| "hold_remaining HoldSettled = 0"

fun purchase_remaining :: "purchase_state \<Rightarrow> nat" where
  "purchase_remaining PurchasePending = 1"
| "purchase_remaining _ = 0"

interpretation holds: forward_moves hold_moves hold_remaining
proof
  show "hold_remaining s' < hold_remaining s" if "hold_moves s s'" for s s'
    using that by (cases s; cases s') (auto simp: hold_moves_def)
qed

interpretation purchases: forward_moves purchase_moves purchase_remaining
proof
  show "purchase_remaining s' < purchase_remaining s" if "purchase_moves s s'" for s s'
    using that by (cases s; cases s') (auto simp: purchase_moves_def)
qed

lemma same_terms_trans: "same_terms a b \<Longrightarrow> same_terms b c \<Longrightarrow> same_terms a c"
  by (cases a; cases b; cases c) (simp add: same_terms_def)

lemma attempt_follows_refl: "attempt_follows a a"
  by (simp add: attempt_follows_def same_terms_def)

lemma attempt_follows_trans: "attempt_follows a b \<Longrightarrow> attempt_follows b c \<Longrightarrow> attempt_follows a c"
  by (auto simp: attempt_follows_def was_sent_def intro: same_terms_trans rtranclp_trans)

lemma attempt_step_follows: "attempt_step at a a' \<Longrightarrow> attempt_follows a a'"
  by (auto simp: attempt_step_def attempt_follows_def reservation_moves_iff is_terminal_reservation_def intro: r_into_rtranclp)

lemma settle_step_follows: "settle_step a a' se \<Longrightarrow> attempt_follows a a'"
  by (auto simp: settle_step_def attempt_follows_def reservation_moves_iff is_terminal_reservation_def intro!: r_into_rtranclp)

lemma hold_follows_refl: "hold_follows h h"
  by (simp add: hold_follows_def)

lemma hold_settled_stays: "hold_moves\<^sup>*\<^sup>* HoldSettled st \<Longrightarrow> st = HoldSettled"
  by (rule holds.final_reached) simp_all

lemma hold_follows_trans: "hold_follows h i \<Longrightarrow> hold_follows i j \<Longrightarrow> hold_follows h j"
  by (auto simp: hold_follows_def intro: rtranclp_trans)

lemma hold_step_follows: "hold_step at h h' \<Longrightarrow> hold_follows h h'"
proof -
  assume step: "hold_step at h h'"
  have settles: "hold_follows h h'" if "settles_hold at d r h h'" for d r
    using that by (cases "th_state h") (auto simp: settles_hold_def hold_follows_def hold_moves_def intro!: r_into_rtranclp)
  from step consider "th_state h = HoldHeld" "h' = h\<lparr>th_leaseUntil := lease_from at\<rparr>"
    | "th_state h = HoldHeld" "h' = h\<lparr>th_state := HoldReleased, th_resolvedAt := Some at, th_releasedBy := Some ByPerson\<rparr>"
    | "hold_follows h h'"
    using settles by (auto simp: hold_step_def)
  then show ?thesis
    by cases (auto simp: hold_follows_def hold_moves_def intro!: r_into_rtranclp)
qed

lemma expire_hold_follows: "hold_follows h (expire_hold t o' at h)"
  by (auto simp: expire_hold_def hold_follows_def hold_moves_def intro!: r_into_rtranclp)

lemma purchase_follows_refl: "purchase_follows p p"
  by (simp add: purchase_follows_def)

lemma purchase_follows_trans: "purchase_follows p q \<Longrightarrow> purchase_follows q r \<Longrightarrow> purchase_follows p r"
  by (auto simp: purchase_follows_def intro: rtranclp_trans)

lemma purchase_step_follows:
  assumes "purchase_step s (Some old) row"
  shows "purchase_follows old row"
proof -
  have pending: "pu_state old = PurchasePending"
    and eq: "row = old\<lparr>pu_checkoutSessionId := pu_checkoutSessionId row, pu_state := pu_state row,
             pu_resolvedAt := pu_resolvedAt row, pu_stripeEventId := pu_stripeEventId row\<rparr>"
    using assms by (auto simp: purchase_step_def)
  have "pu_organizationId row = pu_organizationId old \<and> pu_credits row = pu_credits old \<and> pu_amountCents row = pu_amountCents old"
    by (subst (1 2 3) eq) simp
  with pending show ?thesis
    by (cases "pu_state row") (auto simp: purchase_follows_def purchase_moves_def intro!: r_into_rtranclp)
qed

section \<open>The ledger's history\<close>

definition option_follows :: "('r \<Rightarrow> 'r \<Rightarrow> bool) \<Rightarrow> 'r option \<Rightarrow> 'r option \<Rightarrow> bool" where
  "option_follows R old row \<longleftrightarrow> (case old of None \<Rightarrow> True
     | Some a \<Rightarrow> (case row of None \<Rightarrow> False | Some b \<Rightarrow> R a b))"

lemma option_follows_refl: "(\<And>a. R a a) \<Longrightarrow> option_follows R x x"
  by (simp add: option_follows_def split: option.split)

lemma option_follows_trans:
  "(\<And>a b c. R a b \<Longrightarrow> R b c \<Longrightarrow> R a c) \<Longrightarrow> option_follows R x y \<Longrightarrow> option_follows R y z \<Longrightarrow> option_follows R x z"
  by (auto simp: option_follows_def split: option.splits)

lemma option_followsD: "option_follows R (Some a) y \<Longrightarrow> \<exists>b. y = Some b \<and> R a b"
  by (auto simp: option_follows_def split: option.splits)

definition history :: "fstate \<Rightarrow> fstate \<Rightarrow> bool" where
  "history s s' \<longleftrightarrow> prefix (st_settlements s) (st_settlements s') \<and> prefix (st_topUps s) (st_topUps s')
     \<and> prefix (st_adjustments s) (st_adjustments s') \<and> prefix (st_periods s) (st_periods s')
     \<and> (\<forall>t i. option_follows attempt_follows (tx_attempt t i s) (tx_attempt t i s'))
     \<and> (\<forall>t i. option_follows hold_follows (tx_topUpHold t i s) (tx_topUpHold t i s'))
     \<and> (\<forall>t i. option_follows purchase_follows (tx_creditPurchase t i s) (tx_creditPurchase t i s'))"

lemma history_refl: "history s s"
  by (simp add: history_def option_follows_refl attempt_follows_refl hold_follows_refl purchase_follows_refl)

lemma history_trans: "history s t \<Longrightarrow> history t u \<Longrightarrow> history s u"
  unfolding history_def
  by (meson prefix_order.trans option_follows_trans attempt_follows_trans hold_follows_trans purchase_follows_trans)

lemma tx_topUpHold_expire:
  "tx_topUpHold t i (expire_topUpHolds t' o' at s) = map_option (expire_hold t' o' at) (tx_topUpHold t i s)"
proof -
  have "find (\<lambda>row. th_tenantId row = t \<and> th_holdId row = i) (map (expire_hold t' o' at) xs)
      = map_option (expire_hold t' o' at) (find (\<lambda>row. th_tenantId row = t \<and> th_holdId row = i) xs)" for xs
    by (induction xs) (auto simp: expire_hold_def)
  then show ?thesis by (simp add: tx_topUpHold_def expire_topUpHolds_def)
qed

lemma history_move: "ledger_move at s s' \<Longrightarrow> history s s'"
proof (induction rule: ledger_move.induct)
  case (other_rows s s')
  then have "tx_attempt t i s' = tx_attempt t i s" "tx_topUpHold t i s' = tx_topUpHold t i s"
    "tx_creditPurchase t i s' = tx_creditPurchase t i s" for t i
    by (simp_all add: same_ledger_def tx_attempt_def tx_topUpHold_def tx_creditPurchase_def)
  with other_rows history_refl [of s] show ?case by (simp add: history_def same_ledger_def)
next
  case (new_period row s)
  then show ?case using history_refl [of s] by (simp add: history_def read_frames frame_simps) (simp add: push_period_def)
next
  case (job_row row s)
  then show ?case using history_refl [of s] by (simp add: history_def read_frames frame_simps)
next
  case (new_topUp row s)
  then show ?case using history_refl [of s] by (simp add: history_def read_frames frame_simps) (simp add: save_topUp_def)
next
  case (purchase_row s row)
  have "option_follows purchase_follows (tx_creditPurchase t i s) (tx_creditPurchase t i (save_creditPurchase row s))" for t i
    using purchase_step_follows [of s _ row] purchase_row
    by (auto simp: tx_creditPurchase_save option_follows_def purchase_follows_refl split: option.split)
  then show ?case using history_refl [of s] by (simp add: history_def read_frames frame_simps)
next
  case (sweep s t o')
  have "option_follows hold_follows (tx_topUpHold u i s) (tx_topUpHold u i (expire_topUpHolds t o' at s))" for u i
    by (simp add: tx_topUpHold_expire option_follows_def expire_hold_follows split: option.split)
  then show ?case using history_refl [of s] by (simp add: history_def read_frames frame_simps)
next
  case (new_hold row s)
  then have "option_follows hold_follows (tx_topUpHold t i s) (tx_topUpHold t i (save_topUpHold row s))" for t i
    by (auto simp: tx_topUpHold_save option_follows_def hold_follows_refl split: option.split)
  then show ?case using history_refl [of s] by (simp add: history_def read_frames frame_simps)
next
  case (hold_row row s old)
  then have "option_follows hold_follows (tx_topUpHold t i s) (tx_topUpHold t i (save_topUpHold row s))" for t i
    using hold_step_follows [OF hold_row(2)]
    by (auto simp: tx_topUpHold_save option_follows_def hold_follows_refl split: option.split)
  then show ?case using history_refl [of s] by (simp add: history_def read_frames frame_simps)
next
  case (new_attempt row s)
  then have "option_follows attempt_follows (tx_attempt t i s) (tx_attempt t i (save_attempt row s))" for t i
    by (auto simp: tx_attempt_save option_follows_def attempt_follows_refl split: option.split)
  then show ?case using history_refl [of s] by (simp add: history_def read_frames frame_simps)
next
  case (attempt_row row s old)
  then have "option_follows attempt_follows (tx_attempt t i s) (tx_attempt t i (save_attempt row s))" for t i
    using attempt_step_follows [OF attempt_row(2)]
    by (auto simp: tx_attempt_save option_follows_def attempt_follows_refl split: option.split)
  then show ?case using history_refl [of s] by (simp add: history_def read_frames frame_simps)
next
  case (settle_row row s old se)
  then have "option_follows attempt_follows (tx_attempt t i s) (tx_attempt t i (save_attempt row s))" for t i
    using settle_step_follows [OF settle_row(2)]
    by (auto simp: tx_attempt_save option_follows_def attempt_follows_refl split: option.split)
  then show ?case using history_refl [of s]
    by (simp add: history_def read_frames frame_simps) (simp add: save_settlement_def save_attempt_def)
next
  case (new_adjustment row s)
  then show ?case using history_refl [of s] by (simp add: history_def read_frames frame_simps) (simp add: save_adjustment_def)
qed

interpretation ledger_history: followed_order ledger_move history
  by unfold_locales (auto intro: history_refl history_trans history_move)

end
