(* ===== verification/Funding_Service.thy ===== *)
theory Funding_Service
  imports Funding_History
begin

text \<open>
  The service as a state machine: the calls a client makes of \<open>FundingService\<close> and \<open>MemberLimits\<close>, each served
  in one store transaction at the service's clock, the states those calls reach, and what holds in all of them.
\<close>

section \<open>Invariants of a clocked machine\<close>

text \<open>
  An invariant may hold from an instant on: a later clock keeps it, and a step at a time needs no more
  than that the clock has reached that time.
\<close>

locale clocked_invariant =
  fixes step :: "int \<Rightarrow> 's \<Rightarrow> 's \<Rightarrow> bool" and inv :: "int \<Rightarrow> 's \<Rightarrow> bool"
  assumes later_keeps: "inv clock s \<Longrightarrow> clock \<le> clock' \<Longrightarrow> inv clock' s"
    and step_keeps: "step at s s' \<Longrightarrow> inv clock s \<Longrightarrow> inv (max clock at) s'"
begin

lemma run_keeps: "(step at)\<^sup>*\<^sup>* s s' \<Longrightarrow> inv clock s \<Longrightarrow> inv (max clock at) s'"
proof (induction rule: rtranclp_induct)
  case base
  then show ?case by (rule later_keeps) simp
next
  case (step t u)
  then show ?case using step_keeps [of at t u "max clock at"] by simp
qed

end

locale timeless_invariant =
  fixes step :: "int \<Rightarrow> 's \<Rightarrow> 's \<Rightarrow> bool" and inv :: "'s \<Rightarrow> bool"
  assumes keeps: "step at s s' \<Longrightarrow> inv s \<Longrightarrow> inv s'"
begin

lemma always: "(step at)\<^sup>*\<^sup>* s s' \<Longrightarrow> inv s \<Longrightarrow> inv s'"
  by (induction rule: rtranclp_induct) (auto intro: keeps)

end

sublocale timeless_invariant \<subseteq> clocked: clocked_invariant step "\<lambda>_. inv"
  by unfold_locales (auto intro: keeps)

definition money_ok :: "fstate \<Rightarrow> bool" where
  "money_ok s \<longleftrightarrow> rows_ok s \<and> months_ok s"

definition ledger_ok :: "int \<Rightarrow> fstate \<Rightarrow> bool" where
  "ledger_ok clock s \<longleftrightarrow> money_ok s \<and> bought_ok clock s"

interpretation money: timeless_invariant ledger_move money_ok
  by unfold_locales (auto simp: money_ok_def intro: rows_ok_move months_ok_move)

lemma bought_ok_later: "bought_ok clock s \<Longrightarrow> clock \<le> clock' \<Longrightarrow> bought_ok clock' s"
  by (auto simp: bought_ok_def)

interpretation ledger: clocked_invariant ledger_move ledger_ok
proof
  show "ledger_ok clock' s" if "ledger_ok clock s" "clock \<le> clock'" for clock clock' s
    using that by (auto simp: ledger_ok_def intro: bought_ok_later)
  show "ledger_ok (max clock at) s'" if "ledger_move at s s'" "ledger_ok clock s" for at s s' clock
    using that money.keeps bought_ok_move by (auto simp: ledger_ok_def money_ok_def)
qed

section \<open>Calls\<close>

datatype call =
    AllocatePeriod string string string string string
  | AllocateAgreement string string string string int
  | AllocateIndividual string string string jval
  | RecordTopUp string string string int string string
  | StartPurchase purchase_terms
  | AttachSession string string string string
  | FailPurchase string string string
  | ResolvePurchase purchase_event
  | ReadPurchased string string
  | HoldPurchased string string string string int string
  | SettlePurchased string string string string int
  | ReleasePurchased string string string string
  | RenewPurchased string string string string
  | OpenJob open_job_input
  | KeepGoing string string string int "job_tier \<Rightarrow> int"
  | RequestCap string string string string int string
  | DecideCap membership_snapshot string bool
  | Reserve reserve_input
  | MarkDispatched string string string
  | ReleaseRefused string string string int "string option"
  | ReleaseAttempt string string string
  | CancelAttempt string string string "string option"
  | MarkUncertain string string string "string option"
  | SettleAttempt string string string string jval jval reconciled_from
  | WriteOffAttempt string string string string
  | RecoverAfterRestart string string
  | RecordCorrection correction_input
  | SetLimit string string actor limit_subject "member_role option" limit_mode "int option"
  | SetSettings string string actor "bool option" "bool option"
  | AskRaise string string string actor limit_request_kind "string option"
  | DecideRaise string string string actor bool "int option" "bool option"

text \<open>The store a call leaves: the one its transaction committed, or the one it found.\<close>

definition left_by :: "(fstate \<Rightarrow> 'a outcome) \<Rightarrow> fstate \<Rightarrow> fstate" where
  "left_by action s = snd (transaction action s)"

fun serve :: "int \<Rightarrow> call \<Rightarrow> fstate \<Rightarrow> fstate" where
  "serve at (AllocatePeriod t o' p plan src) = left_by (allocate_period at t o' p plan src)"
| "serve at (AllocateAgreement t o' p src amount) = left_by (allocate_agreement_period at t o' p src amount)"
| "serve at (AllocateIndividual t o' src cycle) = left_by (allocate_individual_period at t o' src cycle)"
| "serve at (RecordTopUp t o' i amount provider ev) = left_by (record_topUp at t o' i amount provider ev)"
| "serve at (StartPurchase input) = left_by (start_creditPurchase at input)"
| "serve at (AttachSession t o' i session) = left_by (attach_checkoutSession t o' i session)"
| "serve at (FailPurchase t o' i) = left_by (fail_creditPurchase at t o' i)"
| "serve at (ResolvePurchase event) = left_by (resolve_creditPurchase at event)"
| "serve at (ReadPurchased t o') = left_by (read_purchasedBalance at t o')"
| "serve at (HoldPurchased t o' i person amount digest) = left_by (hold_purchased at t o' i person amount digest)"
| "serve at (SettlePurchased t o' i person debit) = left_by (settle_purchased at t o' i person debit)"
| "serve at (ReleasePurchased t o' i person) = left_by (release_purchased at t o' i person)"
| "serve at (RenewPurchased t o' i person) = left_by (renew_purchased at t o' i person)"
| "serve at (OpenJob input) = left_by (open_job at input)"
| "serve at (KeepGoing t o' i atCap amounts) = left_by (keep_going t o' i atCap amounts)"
| "serve at (RequestCap t o' job i cap person) = left_by (request_capIncrease at t o' job i cap person)"
| "serve at (DecideCap membership i ok) = left_by (decide_capIncrease at membership i ok)"
| "serve at (Reserve input) = left_by (reserve at input)"
| "serve at (MarkDispatched t o' i) = (\<lambda>s. snd (mark_dispatched at t o' i s))"
| "serve at (ReleaseRefused t o' i status request) = left_by (release_refused at t o' i status request)"
| "serve at (ReleaseAttempt t o' i) = left_by (release_attempt at t o' i)"
| "serve at (CancelAttempt t o' i reason) = left_by (cancel_attempt at t o' i reason)"
| "serve at (MarkUncertain t o' i reason) = left_by (mark_uncertain t o' i reason)"
| "serve at (SettleAttempt t o' i receipt usage raw from) = left_by (settle_attempt at t o' i receipt usage raw from)"
| "serve at (WriteOffAttempt t o' i evidence) = left_by (write_off at t o' i evidence)"
| "serve at (RecoverAfterRestart t o') = left_by (recover_after_restart at t o')"
| "serve at (RecordCorrection input) = left_by (record_correction at input)"
| "serve at (SetLimit t o' actor subject role mode limit) = left_by (set_limit at t o' actor subject role mode limit)"
| "serve at (SetSettings t o' actor own admins) = left_by (set_settings at t o' actor own admins)"
| "serve at (AskRaise t o' i actor kind job) = left_by (ask_raise at t o' i actor kind job)"
| "serve at (DecideRaise t o' i actor ok extra allow) = left_by (decide_raise at t o' i actor ok extra allow)"

text \<open>The states that calls reach from an empty store, with a clock no earlier than any of them.\<close>

inductive reachable :: "int \<Rightarrow> fstate \<Rightarrow> bool" where
  start: "reachable clock empty_funding_state"
| served: "reachable clock s \<Longrightarrow> reachable (max clock at) (serve at call s)"

definition serve_all :: "(int \<times> call) list \<Rightarrow> fstate \<Rightarrow> fstate" where
  "serve_all calls s = foldl (\<lambda>s (at, call). serve at call s) s calls"

section \<open>Every call is a run of ledger moves\<close>

lemma left_by_refines:
  "(\<And>x s'. action s = Inr (x, s') \<Longrightarrow> ledger_moves at s s') \<Longrightarrow> ledger_moves at s (left_by action s)"
  by (cases "action s") (auto simp: left_by_def transaction_def split: prod.splits)

lemmas calls_refine = allocations_refine open_job_refines keep_going_refines request_capIncrease_refines
  decide_capIncrease_refines record_correction_refines record_topUp_refines start_creditPurchase_refines
  attach_checkoutSession_refines fail_creditPurchase_refines resolve_creditPurchase_refines
  hold_purchased_refines settle_purchased_refines release_purchased_refines renew_purchased_refines
  read_purchasedBalance_refines reserve_refines recover_after_restart_refines settle_attempt_refines
  set_limit_frame [THEN other_moves] set_settings_frame [THEN other_moves] ask_raise_frame [THEN other_moves]
  decide_raise_frame [THEN other_moves]

lemmas attempts_refine =
  release_refused_moves [THEN conjunct1, THEN moves_attempt_refines]
  release_attempt_moves [THEN conjunct1, THEN moves_attempt_refines]
  cancel_attempt_moves [THEN conjunct1, THEN moves_attempt_refines]
  mark_uncertain_moves [THEN conjunct1, THEN moves_attempt_refines]
  write_off_moves [THEN conjunct1, THEN moves_attempt_refines]

lemma mark_dispatched_state: "rows_ok s \<Longrightarrow> ledger_moves at s (snd (mark_dispatched at t o' i s))"
  by (rule mark_dispatched_refines [of at t o' i s "fst (mark_dispatched at t o' i s)"]) simp_all

lemma serve_refines: "rows_ok s \<Longrightarrow> ledger_moves at s (serve at call s)"
  by (cases call)
    (auto simp only: serve.simps intro!: left_by_refines mark_dispatched_state intro: calls_refine attempts_refine)

lemma empty_ok: "ledger_ok clock empty_funding_state"
  by (simp add: ledger_ok_def money_ok_def rows_ok_def keys_ok_def attempts_ok_def settlements_ok_def holds_ok_def
      grants_ok_def purchases_ok_def months_ok_def bought_ok_def bought_committed_def bought_def month_committed_def
      month_funded_def balance_defs empty_funding_state_def tx_period_def)

lemma reachable_ok: "reachable clock s \<Longrightarrow> ledger_ok clock s"
proof (induction rule: reachable.induct)
  case (start clock)
  show ?case by (rule empty_ok)
next
  case (served clock s at call)
  then show ?case
    by (intro ledger.run_keeps [OF serve_refines]) (simp_all add: ledger_ok_def money_ok_def)
qed

lemma reachable_rows: "reachable clock s \<Longrightarrow> rows_ok s"
  using reachable_ok by (auto simp: ledger_ok_def money_ok_def)

lemma reachable_later: "reachable clock s \<Longrightarrow> clock \<le> clock' \<Longrightarrow> ledger_ok clock' s"
  by (rule ledger.later_keeps [OF reachable_ok])

section \<open>Sequences of calls\<close>

lemma serve_all_Cons [simp]: "serve_all ((at, call) # calls) s = serve_all calls (serve at call s)"
  by (simp add: serve_all_def)

lemma serve_all_Nil [simp]: "serve_all [] s = s"
  by (simp add: serve_all_def)

lemma serve_all_history: "rows_ok s \<Longrightarrow> history s (serve_all calls s) \<and> rows_ok (serve_all calls s)"
proof (induction calls arbitrary: s)
  case Nil
  then show ?case by (simp add: history_refl)
next
  case (Cons timed calls)
  obtain at call where timed: "timed = (at, call)" by (cases timed)
  have moves: "ledger_moves at s (serve at call s)" using Cons.prems by (rule serve_refines)
  have "rows_ok (serve at call s)" by (rule rows_ok_moves [OF moves Cons.prems])
  with Cons.IH [of "serve at call s"] ledger_history.follows_run [OF moves] show ?case
    by (auto simp: timed intro: history_trans)
qed

text \<open>Timed calls reach a state at the latest of their times.\<close>

lemma serve_all_reachable: "reachable clock s \<Longrightarrow> reachable (fold max (map fst calls) clock) (serve_all calls s)"
proof (induction calls arbitrary: clock s)
  case (Cons timed calls)
  obtain at call where timed: "timed = (at, call)" by (cases timed)
  have "reachable (max clock at) (serve at call s)" by (rule reachable.served [OF Cons.prems])
  from Cons.IH [OF this] show ?case by (simp add: timed max.commute)
qed simp

end
