(* ===== verification/Funding_Guarantees.thy ===== *)
theory Funding_Guarantees
  imports Funding_Service
begin

text \<open>
  What single operations promise beyond the ledger's invariants: a retry answers the same and does
  nothing, a reservation keeps the job's cap and the company's ceiling, an attempt is sent at most once,
  and a restart leaves nothing pending.
\<close>

section \<open>Retries\<close>

lemma save_attempt_read: "tx_attempt (fa_tenantId row) (fa_id row) (save_attempt row s) = Some row"
  by (simp add: tx_attempt_save)

lemma same_ledger_attempt: "same_ledger s s' \<Longrightarrow> tx_attempt t i s' = tx_attempt t i s"
  by (simp add: same_ledger_def tx_attempt_def)

lemma reserve_checked:
  assumes "reserve at input s = Inr x"
  shows "\<exists>companyCeiling cycle boughtOnly member. reserve later input s2 =
    (case tx_attempt (ri_tenantId input) (ri_attemptId input) s2 of
       Some existing \<Rightarrow> (if \<not> same_attempt input existing then Inl (FundingError 409 ''attempt_conflict'') else Inr (existing, s2))
     | None \<Rightarrow> reserve_new later input companyCeiling cycle boughtOnly member s2)"
proof -
  let ?cycle = "case ri_individualCycle input of None \<Rightarrow> None | Some v \<Rightarrow> verified_individual_cycle v"
  let ?boughtOnly = "ri_boughtOnly input \<and> ?cycle = None \<and> is_individual_scope_id (ri_organizationId input)"
  let ?member = "if ?cycle \<noteq> None \<or> ?boughtOnly then None else ri_member input"
  from assms obtain parent charge debits companyCeiling person where
    ids: "require_id (JStr (ri_tenantId input)) = Inr (ri_tenantId input)"
      "require_id (JStr (ri_organizationId input)) = Inr (ri_organizationId input)"
      "require_id (JStr (ri_attemptId input)) = Inr (ri_attemptId input)"
      "require_id (JStr (ri_rootJobId input)) = Inr (ri_rootJobId input)"
      "require_id (JStr (ri_route input)) = Inr (ri_route input)"
      "require_id (JStr (ri_requestDigest input)) = Inr (ri_requestDigest input)"
    and parent: "(case ri_parentAttemptId input of None \<Rightarrow> Inr '''' | Some p \<Rightarrow> require_id (JStr p)) = Inr parent"
    and rate: "require_rate (ri_rateSnapshot input) = Inr (ri_rateSnapshot input)"
    and charge: "(case ri_chargeSnapshot input of None \<Rightarrow> Inr None | Some charge \<Rightarrow> rmap Some (require_charge charge)) = Inr charge"
    and debits: "debits_allowance rate_card_v1 (ri_kind input) = Inr debits"
      "\<not> (ri_kind input \<notin> set (rc_kinds rate_card_v1) \<or> \<not> debits)"
    and company: "(case ri_companyCeilingMicroUsd input of None \<Rightarrow> Inr None
            | Some n \<Rightarrow> rmap Some (require_money (JInt n) False)) = Inr companyCeiling"
    and person: "(case ri_member input of None \<Rightarrow> Inr '''' | Some (personId, _) \<Rightarrow> require_id (JStr personId)) = Inr person"
    and cycle: "\<not> (ri_individualCycle input \<noteq> None \<and> ?cycle = None)"
    unfolding reserve_def Let_def rbind_Inr_iff if_Inr_iff require_id_Inr require_rate_Inr by blast
  show ?thesis
    unfolding reserve_def Let_def ids parent rate charge debits(1) company person rbind_simps if_not_P [OF debits(2)]
      if_not_P [OF cycle]
    by (intro exI [of _ companyCeiling] exI [of _ ?cycle] exI [of _ ?boughtOnly] exI [of _ ?member] refl)
qed

lemma reserve_new_found:
  assumes "reserve_new at input companyCeiling cycle boughtOnly member s = Inr (a, s')"
  shows "tx_attempt (ri_tenantId input) (ri_attemptId input) s' = Some a \<and> same_attempt input a"
  using assms
proof (cases rule: reserve_new_Inr)
  case (1 job period s1 month bought used monthlyAvailable topUpAvailable monthly topUp)
  have "same_ledger (save_attempt a s1) s'" unfolding 1(14) by (cases member) (simp_all add: case_prod_unfold)
  then have "tx_attempt (fa_tenantId a) (fa_id a) s' = Some a" by (simp add: same_ledger_attempt save_attempt_read)
  then show ?thesis by (simp add: 1(13) same_attempt_def)
qed

lemma reserve_found:
  assumes "reserve at input s = Inr (a, s')"
  shows "tx_attempt (ri_tenantId input) (ri_attemptId input) s' = Some a \<and> same_attempt input a"
  using assms
proof (cases rule: reserve_Inr)
  case (fresh companyCeiling cycle boughtOnly member)
  then show ?thesis by (intro reserve_new_found)
qed simp

lemma reserve_retry:
  assumes "reserve at input s = Inr (a, s')"
  shows "reserve later input s' = Inr (a, s')"
  using reserve_checked [OF assms, of later s'] reserve_found [OF assms] by auto

lemma settle_attempt_retry:
  assumes "settle_attempt at t o' i receipt usage raw from s = Inr (SettledAs se, s')"
  shows "settle_attempt later t o' i receipt usage raw from' s' = Inr (SettledAs se, s')"
proof -
  from assms have ids: "id_pattern t" "id_pattern o'" "id_pattern i" and receipt: "require_id (JStr receipt) = Inr receipt"
    by (auto simp: settle_attempt_def rbind_Inr_iff locked_attempt_Inr require_id_Inr)
  from assms have "\<exists>a u. tx_attempt t i s' = Some a \<and> fa_organizationId a = o' \<and> tx_settlement t i s' = Some se
      \<and> se_receiptRef se = receipt \<and> validate_provider_usage usage raw = ValidUsage u \<and> same_usage_counts (se_usage se) u"
  proof (cases rule: settle_attempt_Inr)
    case (replay recorded u)
    from assms obtain a where "tx_attempt t i s = Some a" "fa_organizationId a = o'"
      by (auto simp: settle_attempt_def rbind_Inr_iff locked_attempt_Inr)
    with replay show ?thesis by auto
  next
    case (fresh old u providerCost cost se')
    let ?row = "old\<lparr>fa_state := Settled, fa_resolvedAt := Some at\<rparr>"
    note key = tx_attempt_key [OF fresh(2)]
    have se: "se_tenantId se = t" "se_reservationId se = i" "se_receiptRef se = receipt" "se_usage se = u"
      using fresh(8,9) key by (simp_all add: settlement_of_Inr)
    have "tx_attempt t i s' = Some ?row" using key by (simp add: fresh(10) read_frames tx_attempt_save)
    moreover have "tx_settlement t i s' = Some se"
      using fresh(1,9,10) se by (simp add: tx_settlement_save_fresh read_frames)
    ultimately show ?thesis using fresh(3,5) se by (auto simp: same_usage_counts_def)
  qed simp
  then obtain a u where a: "tx_attempt t i s' = Some a" "fa_organizationId a = o'" and recorded: "tx_settlement t i s' = Some se"
    "se_receiptRef se = receipt" "validate_provider_usage usage raw = ValidUsage u" "same_usage_counts (se_usage se) u" by blast
  have "locked_attempt t o' i s' = Inr a" using a ids by (simp add: locked_attempt_Inr)
  with receipt recorded tx_attempt_key [OF a(1)] show ?thesis by (simp add: settle_attempt_def Let_def)
qed

text \<open>Holding the same id again while the hold lives sweeps the store and holds nothing more.\<close>

lemma hold_purchased_retry:
  assumes "hold_purchased at t o' i person amount digest s = Inr ((hold, balance), s')"
    and "later < th_leaseUntil hold"
    and "hold_purchased later t o' i person' amount' digest' s' = Inr ((again, balance'), s'')"
  shows "again = hold \<and> person' = person \<and> amount' = amount \<and> s'' = expire_topUpHolds t o' later s'"
proof -
  note first = hold_purchased_Inr [OF assms(1)] and second = hold_purchased_Inr [OF assms(3)]
  have "tx_topUpHold t i s' = Some hold" using first by (auto simp: tx_topUpHold_save)
  then have found: "tx_topUpHold t i (expire_topUpHolds t o' later s') = Some hold"
    using assms(2) by (simp add: tx_topUpHold_expire expire_hold_def)
  then have "s'' = expire_topUpHolds t o' later s' \<and> tx_topUpHold t i s'' = Some again" using second(9) by auto
  with found first(4,5) second(4,5) show ?thesis by auto
qed

section \<open>Caps and ceilings\<close>

lemma rmapM_cong: "(\<And>x. x \<in> set xs \<Longrightarrow> f x = g x) \<Longrightarrow> rmapM f xs = rmapM g xs"
  by (induction xs) simp_all

lemma fresh_attempts: "tx_attempt (fa_tenantId row) (fa_id row) s = None \<Longrightarrow>
    st_attempts (save_attempt row s) = st_attempts s @ [row]"
  by (simp add: save_attempt_def tx_attempt_def upsert_fresh)

lemma jobUsed_new_attempt:
  assumes "tx_attempt (fa_tenantId row) (fa_id row) s = None" and "fa_state row = Pending"
    and "tx_jobUsed (fa_tenantId row) (fa_rootJobId row) s = Inr used"
    and "tx_jobUsed (fa_tenantId row) (fa_rootJobId row) (save_attempt row s) = Inr used'"
  shows "used' = used + fa_maxMicroUsd row"
  using assms(2-4) unfolding tx_jobUsed_def Let_def fresh_attempts [OF assms(1)]
  by (auto simp: rbind_Inr_iff sum_amounts_Inr is_held_def read_frames)

lemma companySpend_new_attempt:
  assumes "tx_attempt (fa_tenantId row) (fa_id row) s = None" and "fa_state row = Pending"
    and "company_spend s = Inr spend" and "company_spend (save_attempt row s) = Inr spend'"
  shows "spend' = spend + fa_maxMicroUsd row"
  using assms(2-4) unfolding company_spend_def Let_def fresh_attempts [OF assms(1)]
  by (auto simp: sum_amounts_Inr frame_simps)

lemma reserve_keeps_limits:
  assumes "reserve at input s = Inr (a, s')" and "tx_attempt (ri_tenantId input) (ri_attemptId input) s = None"
  obtains job period s1 where
    "tx_job (ri_tenantId input) (ri_rootJobId input) s = Some job" "fj_state job = JobOpen"
    "records_period period s s1" "cp_tenantId period = ri_tenantId input" "cp_organizationId period = ri_organizationId input"
    "fa_periodId a = cp_periodId period" "fa_state a = Pending" "fa_dispatchedAt a = None"
    "fa_maxMicroUsd a = ri_maxMicroUsd input" "0 < fa_maxMicroUsd a"
    "fa_monthlyHoldMicroUsd a + fa_topUpHoldMicroUsd a = fa_maxMicroUsd a"
    "0 \<le> fa_monthlyHoldMicroUsd a" "0 \<le> fa_topUpHoldMicroUsd a"
    "fa_monthlyHoldMicroUsd a \<le> month_free (ri_tenantId input) (ri_organizationId input) (cp_periodId period) s1"
    "fa_topUpHoldMicroUsd a \<le> bought_free (ri_tenantId input) (ri_organizationId input) at s1"
    "0 < fa_topUpHoldMicroUsd a \<Longrightarrow>
       fa_monthlyHoldMicroUsd a = month_free (ri_tenantId input) (ri_organizationId input) (cp_periodId period) s1"
    "\<And>used. tx_jobUsed (ri_tenantId input) (ri_rootJobId input) s' = Inr used \<Longrightarrow> used \<le> fj_capMicroUsd job"
    "\<And>ceiling spend. ri_companyCeilingMicroUsd input = Some ceiling \<Longrightarrow> company_spend s' = Inr spend \<Longrightarrow> spend \<le> ceiling"
  using assms(1)
proof (cases rule: reserve_Inr)
  case replay
  with assms(2) show thesis by simp
next
  case (fresh companyCeiling cycle boughtOnly member)
  from fresh(2) show thesis
  proof (cases rule: reserve_new_Inr)
    case (1 job period s1 month boughtTotals used monthlyAvailable topUpAvailable monthly topUp)
    note period = reserve_period_Inr [OF 1(4)] and ok = decide_reserve_ok [OF 1(10)]
    have found: "tx_period (ri_tenantId input) (ri_organizationId input) (cp_periodId period) s1 = Some period"
      using records_period_read [OF period(1)] period(2,3) by simp
    have month: "monthlyAvailable = month_free (ri_tenantId input) (ri_organizationId input) (cp_periodId period) s1"
      using monthly_available_balance [OF 1(5,6) found] by (simp add: month_free_def)
    have free: "topUpAvailable = bought_free (ri_tenantId input) (ri_organizationId input) at s1"
      using top_up_available_balance [OF 1(7,8)] by (simp add: bought_free_def)
    have "0 \<le> topUpAvailable" by (simp add: free bought_free_def)
    have new: "tx_attempt (fa_tenantId a) (fa_id a) s1 = None"
      using period(1) assms(2) by (auto simp: 1(13) records_period_def read_frames)
    have same: "same_ledger (save_attempt a s1) s'" unfolding 1(14) by (cases member) (simp_all add: case_prod_unfold)
    have job: "used' \<le> fj_capMicroUsd job" if "tx_jobUsed (ri_tenantId input) (ri_rootJobId input) s' = Inr used'" for used'
    proof -
      have "tx_jobUsed (ri_tenantId input) (ri_rootJobId input) (save_attempt a s1) = Inr used'"
        using that same by (simp add: tx_jobUsed_def same_ledger_def tx_settlement_def)
      then have "used' = used + ri_maxMicroUsd input"
        using jobUsed_new_attempt [OF new] 1(9) by (simp add: 1(13))
      with ok(9) show ?thesis by simp
    qed
    have company: "spend' \<le> ceiling"
      if "ri_companyCeilingMicroUsd input = Some ceiling" "company_spend s' = Inr spend'" for ceiling spend'
    proof -
      from 1(12) that fresh(5) obtain spend where spend: "company_spend s1 = Inr spend" "spend + ri_maxMicroUsd input \<le> ceiling"
        by (auto simp: check_companyCeiling_def rbind_Inr_iff sum_money_Inr_iff split: if_splits)
      have "company_spend (save_attempt a s1) = Inr spend'"
        using that(2) same by (simp add: company_spend_def same_ledger_def)
      then have "spend' = spend + ri_maxMicroUsd input"
        using companySpend_new_attempt [OF new] spend(1) by (simp add: 1(13))
      with spend(2) show ?thesis by simp
    qed
    show thesis
      using 1(1,3) period(1-3) ok month free \<open>0 \<le> topUpAvailable\<close> job company
      by (intro that [of job period s1]) (simp_all add: 1(13))
  qed
qed

section \<open>Dispatch and resolution\<close>

lemma history_attempt:
  "history s s' \<Longrightarrow> tx_attempt t i s = Some a \<Longrightarrow> \<exists>a'. tx_attempt t i s' = Some a' \<and> attempt_follows a a'"
  by (metis history_def option_followsD)

lemma sent_twice_refused:
  assumes "tx_attempt t i s = Some a" and "was_sent a" and "keys_ok s"
  shows "\<exists>e. mark_dispatched at t o' i s = (Inl e, s)"
proof (cases "mark_dispatched at t o' i s")
  case (Pair answer s')
  from Pair assms(3) show ?thesis
  proof (cases rule: mark_dispatched_cases)
    case (sent old)
    with assms show ?thesis by simp
  next
    case (expired row)
    then obtain old where "tx_attempt t i s = Some old" "row = old \<or> attempt_step at old row" by (auto simp: moves_attempt_def)
    with assms(1,2) expired(4) show ?thesis by (auto simp: attempt_step_def was_sent_def)
  next
    case (refused e)
    with Pair show ?thesis by simp
  qed
qed

lemma resolved_stays:
  assumes "tx_attempt t i s = Some a" and "is_terminal_reservation (fa_state a)" and "history s s'"
  shows "tx_attempt t i s' = Some a"
  using history_attempt [OF assms(3,1)] assms(2) by (auto simp: attempt_follows_def)

lemma settlement_stays: "history s s' \<Longrightarrow> tx_settlement t i s = Some se \<Longrightarrow> tx_settlement t i s' = Some se"
  by (auto simp: history_def tx_settlement_def prefix_def find_append)

section \<open>Recovery\<close>

lemma recover_fold:
  assumes "rfold (recover_one at) rows (ids, s) = Inr (ids', s')" and "distinct (map (\<lambda>r. (fa_tenantId r, fa_id r)) rows)"
    and "\<And>a. a \<in> set rows \<Longrightarrow> tx_attempt (fa_tenantId a) (fa_id a) s = Some a \<and> fa_state a = Pending"
  shows "(\<forall>a \<in> set rows. \<exists>row. tx_attempt (fa_tenantId a) (fa_id a) s' = Some row
       \<and> fa_state row = (if was_sent a then Uncertain else Released))
    \<and> (\<forall>t i. (t, i) \<notin> (\<lambda>r. (fa_tenantId r, fa_id r)) ` set rows \<longrightarrow> tx_attempt t i s' = tx_attempt t i s)
    \<and> fst ids' = fst ids @ map fa_id (filter (\<lambda>a. \<not> was_sent a) rows)
    \<and> snd ids' = snd ids @ map fa_id (filter was_sent rows)"
  using assms
proof (induction rows arbitrary: ids s)
  case (Cons a rows)
  let ?k = "\<lambda>r. (fa_tenantId r, fa_id r)"
  from Cons.prems(1) obtain ids1 s1 where one: "recover_one at a (ids, s) = Inr (ids1, s1)"
    and rest: "rfold (recover_one at) rows (ids1, s1) = Inr (ids', s')"
    by (auto simp: rbind_Inr_iff)
  have a: "tx_attempt (fa_tenantId a) (fa_id a) s = Some a" "fa_state a = Pending" using Cons.prems(3) [of a] by simp_all
  from recover_one_Inr [OF one a] obtain row where row: "attempt_step at a row" "s1 = save_attempt row s"
    "ids1 = (if was_sent a then (fst ids, snd ids @ [fa_id a]) else (fst ids @ [fa_id a], snd ids))"
    "fa_state row = (if was_sent a then Uncertain else Released)" by blast
  have key: "fa_tenantId row = fa_tenantId a" "fa_id row = fa_id a"
    using same_terms_eqs [OF attempt_step_open(3) [OF row(1)]] by simp_all
  have fresh: "?k a \<notin> ?k ` set rows" using Cons.prems(2) by simp
  have others: "tx_attempt t i s1 = tx_attempt t i s" if "(t, i) \<noteq> ?k a" for t i
    using that key by (auto simp: row(2) tx_attempt_save)
  have ih: "(\<forall>a \<in> set rows. \<exists>row. tx_attempt (fa_tenantId a) (fa_id a) s' = Some row
       \<and> fa_state row = (if was_sent a then Uncertain else Released))
    \<and> (\<forall>t i. (t, i) \<notin> ?k ` set rows \<longrightarrow> tx_attempt t i s' = tx_attempt t i s1)
    \<and> fst ids' = fst ids1 @ map fa_id (filter (\<lambda>a. \<not> was_sent a) rows)
    \<and> snd ids' = snd ids1 @ map fa_id (filter was_sent rows)"
  proof (rule Cons.IH [OF rest])
    show "distinct (map ?k rows)" using Cons.prems(2) by simp
    fix b assume b: "b \<in> set rows"
    then have "?k b \<in> ?k ` set rows" by (rule imageI)
    with fresh have "?k b \<noteq> ?k a" by metis
    from others [OF this] Cons.prems(3) [of b] b show "tx_attempt (fa_tenantId b) (fa_id b) s1 = Some b \<and> fa_state b = Pending"
      by simp
  qed
  have "tx_attempt (fa_tenantId a) (fa_id a) s' = Some row" using ih fresh key by (simp add: row(2) tx_attempt_save)
  with ih row(3,4) others show ?case by auto
qed simp

lemma recover_one_total:
  assumes "fa_state a = Pending"
  shows "\<exists>acc'. recover_one at a acc = Inr acc'"
  using assms by (cases acc) (auto simp: recover_one_def rbind_def move_attempt_def reservation_transition_def
      is_terminal_reservation_def)

lemma recover_fold_total:
  "\<forall>a \<in> set rows. fa_state a = Pending \<Longrightarrow> \<exists>acc'. rfold (recover_one at) rows acc = Inr acc'"
proof (induction rows arbitrary: acc)
  case (Cons a rows)
  then show ?case using recover_one_total [of a at acc] by (auto simp: rbind_def)
qed simp

lemma recover_after_restart_total:
  assumes "id_pattern t" and "id_pattern o'"
  shows "\<exists>released uncertain s'. recover_after_restart at t o' s = Inr ((released, uncertain), s')"
proof -
  have "\<forall>a \<in> set (pending_attempts t o' s). fa_state a = Pending" by (simp add: pending_attempts_def)
  from recover_fold_total [OF this, of at "(([], []), s)"] assms show ?thesis
    by (auto simp: recover_after_restart_def require_id_def rbind_def)
qed

lemma recover_after_restart_leaves:
  assumes "recover_after_restart at t o' s = Inr ((released, uncertain), s')" and "rows_ok s"
  shows "pending_attempts t o' s' = []"
    "released = map fa_id (filter (\<lambda>a. \<not> was_sent a) (pending_attempts t o' s))"
    "uncertain = map fa_id (filter was_sent (pending_attempts t o' s))"
    "\<And>a. a \<in> set (pending_attempts t o' s) \<Longrightarrow> \<exists>row. tx_attempt t (fa_id a) s' = Some row
       \<and> fa_state row = (if was_sent a then Uncertain else Released)"
proof -
  let ?k = "\<lambda>r. (fa_tenantId r, fa_id r)" and ?rows = "pending_attempts t o' s"
  have keys: "keys_ok s" "keys_ok s'"
    using rows_ok_parts(1) [OF assms(2)] rows_ok_parts(1) [OF rows_ok_moves [OF recover_after_restart_refines [OF assms] assms(2)]] .
  have distinct: "distinct (map ?k ?rows)"
    using keys(1) unfolding pending_attempts_def keys_ok_def by (intro distinct_map_filter_rows) simp
  from assms(1) have "rfold (recover_one at) ?rows (([], []), s) = Inr ((released, uncertain), s')"
    by (auto simp: recover_after_restart_def rbind_Inr_iff require_id_Inr)
  then have fold: "(\<forall>a \<in> set ?rows. \<exists>row. tx_attempt (fa_tenantId a) (fa_id a) s' = Some row
       \<and> fa_state row = (if was_sent a then Uncertain else Released))
    \<and> (\<forall>t i. (t, i) \<notin> ?k ` set ?rows \<longrightarrow> tx_attempt t i s' = tx_attempt t i s)
    \<and> released = map fa_id (filter (\<lambda>a. \<not> was_sent a) ?rows) \<and> uncertain = map fa_id (filter was_sent ?rows)"
    using recover_fold [of at ?rows "([], [])" s "(released, uncertain)" s'] distinct pending_attempts_found [OF keys(1)] by simp
  then show "released = map fa_id (filter (\<lambda>a. \<not> was_sent a) ?rows)" "uncertain = map fa_id (filter was_sent ?rows)" by simp_all
  show "\<exists>row. tx_attempt t (fa_id a) s' = Some row \<and> fa_state row = (if was_sent a then Uncertain else Released)"
    if "a \<in> set ?rows" for a
    using fold that by (auto simp: pending_attempts_def)
  have "b \<notin> set (pending_attempts t o' s')" for b
  proof
    assume b: "b \<in> set (pending_attempts t o' s')"
    note found = pending_attempts_found [OF keys(2) b]
    have mine: "fa_tenantId b = t" "fa_organizationId b = o'" using b by (simp_all add: pending_attempts_def)
    show False
    proof (cases "?k b \<in> ?k ` set ?rows")
      case True
      with fold found show False by (fastforce split: if_splits)
    next
      case False
      with fold found have "tx_attempt (fa_tenantId b) (fa_id b) s = Some b" by simp
      then have "b \<in> set ?rows" using found mine by (auto simp: pending_attempts_def dest: tx_attempt_key)
      with False show False by blast
    qed
  qed
  then show "pending_attempts t o' s' = []" by (cases "pending_attempts t o' s'") auto
qed

section \<open>Jobs\<close>

definition jobs_ok :: "fstate \<Rightarrow> bool" where
  "jobs_ok s \<longleftrightarrow> (\<forall>job \<in> set (st_jobs s). 0 \<le> fj_capGeneration job)"

lemma jobs_ok_move: "ledger_move at s s' \<Longrightarrow> jobs_ok s \<Longrightarrow> jobs_ok s'"
proof (induction rule: ledger_move.induct)
  case (job_row row s)
  have "0 \<le> fj_capGeneration row"
  proof (cases "tx_job (fj_tenantId row) (fj_rootJobId row) s")
    case (Some old)
    then have "0 \<le> fj_capGeneration old" using job_row(2) by (auto simp: jobs_ok_def tx_job_def dest: find_Some_in_set)
    moreover have "row = old\<lparr>fj_capMicroUsd := fj_capMicroUsd row, fj_capGeneration := fj_capGeneration old + 1\<rparr>"
      using job_row(1) Some by (simp add: job_step_def)
    then have "fj_capGeneration row = fj_capGeneration old + 1" by (metis funded_job.select_convs(6) funded_job.surjective funded_job.update_convs(6))
    ultimately show ?thesis by simp
  qed (use job_row in \<open>simp add: job_step_def\<close>)
  with job_row(2) show ?case by (auto simp: jobs_ok_def save_job_def dest: set_upsertD)
qed (simp_all add: jobs_ok_def frame_simps same_ledger_def)

interpretation job_rows: timeless_invariant ledger_move jobs_ok
  by unfold_locales (rule jobs_ok_move)

lemma reachable_jobs: "reachable clock s \<Longrightarrow> jobs_ok s"
proof (induction rule: reachable.induct)
  case (served clock s at call)
  then show ?case using job_rows.always [OF serve_refines] reachable_rows by blast
qed (simp add: jobs_ok_def empty_funding_state_def)

section \<open>A member's limit\<close>

text \<open>What a reservation in a member's name was held to, on the store it read.\<close>

lemma enforce_memberLimit_Inr:
  assumes "enforce_memberLimit at t o' job period (person, role) ceiling purchased s = Inr ()"
  obtains (unlimited) limit where
      "effective_limit_for role person (map setting_of (member_limits t o' s)) (cp_planId period) (cp_grantedMicroUsd period) = Inr limit"
      "el_limitMicroUsd limit = None"
    | (limited) limit l rows used extra allowed where
      "effective_limit_for role person (map setting_of (member_limits t o' s)) (cp_planId period) (cp_grantedMicroUsd period) = Inr limit"
      "el_limitMicroUsd limit = Some l" "tx_memberUsage t o' period (Some person) at s = Inr rows"
      "used = (case rows of [] \<Rightarrow> 0 | row # _ \<Rightarrow> mu_includedMicroUsd row + mu_purchasedMicroUsd row)"
      "allowed \<longleftrightarrow> list_ex lr_allowPurchased (approved_allowances t o' person (cp_periodId period) job s)"
      "extra = sum_list (map (\<lambda>row. nullish (lr_extraMicroUsd row) 0)
         (approved_allowances t o' person (cp_periodId period) job s))"
      "used + ceiling \<le> l \<or> used + ceiling \<le> l + extra \<and> (purchased \<le> 0 \<or> allowed)"
proof -
  from assms obtain limit where limit:
    "effective_limit_for role person (map setting_of (member_limits t o' s)) (cp_planId period) (cp_grantedMicroUsd period) = Inr limit"
    by (auto simp: enforce_memberLimit_def rbind_Inr_iff)
  show thesis
  proof (cases "el_limitMicroUsd limit")
    case None
    with limit show thesis by (rule unlimited)
  next
    case (Some l)
    let ?approved = "approved_allowances t o' person (cp_periodId period) job s"
    from assms limit Some obtain rows extra where rows: "tx_memberUsage t o' period (Some person) at s = Inr rows"
      and extra: "extra = sum_list (map (\<lambda>row. nullish (lr_extraMicroUsd row) 0) ?approved)"
      and ok: "decide_member_use (Some l)
          (case (case rows of [] \<Rightarrow> None | row # _ \<Rightarrow> Some row) of None \<Rightarrow> 0 | Some u \<Rightarrow> mu_includedMicroUsd u + mu_purchasedMicroUsd u)
          ceiling purchased \<lparr>al_extraMicroUsd = extra, al_allowPurchased = list_ex lr_allowPurchased ?approved\<rparr> = Inr MemberUseOk"
      by (auto simp: enforce_memberLimit_def Let_def rbind_Inr_iff sum_money_Inr_iff micro_Inr_iff split: if_splits)
    have "(case (case rows of [] \<Rightarrow> None | row # _ \<Rightarrow> Some row) of None \<Rightarrow> 0 | Some u \<Rightarrow> mu_includedMicroUsd u + mu_purchasedMicroUsd u)
        = (case rows of [] \<Rightarrow> 0 | row # _ \<Rightarrow> mu_includedMicroUsd row + mu_purchasedMicroUsd row)"
      by (cases rows) simp_all
    with ok limit Some rows extra show thesis
      by (intro limited [OF _ _ _ refl refl, of limit l rows extra]) (simp_all add: decide_member_use_ok_iff)
  qed
qed

section \<open>The company's ceiling at settlement\<close>

lemma company_spend_Inr:
  "company_spend s = Inr spend \<longleftrightarrow> is_money spend \<and>
     spend = sum_list (map se_providerCostMicroUsd (st_settlements s))
       + row_sum (\<lambda>a. is_held a \<or> fa_state a = WrittenOff) fa_maxMicroUsd (st_attempts s)"
proof -
  have "sum_list (map fa_maxMicroUsd (filter (\<lambda>row. fa_state row = Pending \<or> fa_state row = Uncertain \<or> fa_state row = WrittenOff) xs))
      = row_sum (\<lambda>a. is_held a \<or> fa_state a = WrittenOff) fa_maxMicroUsd xs" for xs
    by (induction xs) (auto simp: is_held_def)
  then show ?thesis by (auto simp: company_spend_def Let_def sum_amounts_Inr)
qed

lemma settle_company_spend:
  assumes "tx_attempt t i s = Some old" and "is_held old" and "fa_tenantId old = t" "fa_id old = i"
    and "company_spend s = Inr before"
    and "company_spend (save_settlement se (save_attempt (old\<lparr>fa_state := Settled, fa_resolvedAt := r\<rparr>) s)) = Inr after'"
  shows "after' = before + se_providerCostMicroUsd se - fa_maxMicroUsd old"
  using assms
  by (auto simp: company_spend_Inr sum_simps frame_simps is_held_def) (auto simp: save_settlement_def frame_simps)

end
