(* ===== verification/Samples.thy ===== *)
theory Samples
  imports Funding_Guarantees
begin

text \<open>
  One business's month, as concrete calls and the states they reach: what the examples beside the
  properties evaluate. The month is March 2026, and every call is made at its fifth day.
\<close>

definition march :: int where "march = 1772668800000"

definition sample_rate :: rate_snapshot where
  "sample_rate = \<lparr>bp_inputMicroUsdPerMillion = 2000000, bp_outputMicroUsdPerMillion = 8000000,
     bp_cacheReadMicroUsdPerMillion = 200000, bp_cacheWriteMicroUsdPerMillion = 2500000,
     bp_reasoningMicroUsdPerMillion = None, bp_requestFeeMicroUsd = None, pf_longContext = None,
     rs_version = ''r1'', rs_routing = None\<rparr>"

definition sample_charge :: charge_snapshot where
  "sample_charge = \<lparr>bp_inputMicroUsdPerMillion = 3000000, bp_outputMicroUsdPerMillion = 12000000,
     bp_cacheReadMicroUsdPerMillion = 300000, bp_cacheWriteMicroUsdPerMillion = 3750000,
     bp_reasoningMicroUsdPerMillion = None, bp_requestFeeMicroUsd = None, pf_longContext = None,
     cs_version = ''c1'', cs_tier = Expert, cs_tableVersion = 1, cs_ceilingMicroUsdPerCredit = 70000\<rparr>"

definition sample_input :: "string \<Rightarrow> int \<Rightarrow> reserve_input" where
  "sample_input attemptId ceiling = \<lparr>ri_tenantId = ''t1'', ri_organizationId = ''org1'', ri_attemptId = attemptId,
     ri_rootJobId = ''job1'', ri_parentAttemptId = None, ri_kind = Generation, ri_route = ''managed'',
     ri_requestDigest = ''d1'', ri_rateSnapshot = sample_rate, ri_maxMicroUsd = ceiling, ri_usageClass = MeteredWork,
     ri_companyCeilingMicroUsd = Some 900000000, ri_chargeSnapshot = Some sample_charge, ri_member = None,
     ri_individualCycle = None, ri_boughtOnly = False\<rparr>"

definition sample_counts :: jval where
  "sample_counts = JObj [(''inputTokens'', JInt 1000000), (''outputTokens'', JInt 200000), (''reasoningTokens'', JInt 0),
     (''cacheReadTokens'', JInt 0), (''cacheWriteTokens'', JInt 0)]"

definition sample_job :: open_job_input where
  "sample_job = \<lparr>oj_tenantId = ''t1'', oj_organizationId = ''org1'', oj_rootJobId = ''job1'', oj_runRef = ''run1'',
     oj_parentRunRef = None, oj_tier = Some Expert, oj_capMicroUsd = None, oj_checkInMicroUsd = None\<rparr>"

text \<open>A month's grant and a top-up of credits.\<close>

definition sample_period :: credit_period where
  "sample_period = \<lparr>cp_tenantId = ''t1'', cp_organizationId = ''org1'', cp_periodId = ''2026-03'', cp_planId = ''workflow-starter'',
     cp_rateCardVersion = rc_version rate_card_v1, cp_grantedMicroUsd = 50000000, cp_startsAt = 1772323200000,
     cp_endsAt = 1775001600000, cp_sourceGrantId = ''grant1'', cp_allocatedAt = march\<rparr>"

definition sample_bought :: fstate where
  "sample_bought = empty_funding_state\<lparr>st_periods := [sample_period],
     st_topUps := [\<lparr>tu_tenantId = ''t1'', tu_organizationId = ''org1'', tu_topUpId = ''top1'', tu_amountMicroUsd = 25000000,
       tu_sourceEventId = ''evt1'', tu_recordedAt = march\<rparr>]\<rparr>"

text \<open>A job on the Expert tier.\<close>

definition sample_before :: fstate where
  "sample_before = sample_bought\<lparr>
     st_jobs := [\<lparr>fj_tenantId = ''t1'', fj_organizationId = ''org1'', fj_rootJobId = ''job1'', fj_runRef = ''run1'',
       fj_capMicroUsd = 75000000, fj_capGeneration = 0, fj_state = JobOpen, fj_openedAt = march, fj_tier = Some Expert\<rparr>],
     st_jobRefs := [\<lparr>jf_tenantId = ''t1'', jf_runRef = ''run1'', jf_rootJobId = ''job1''\<rparr>]\<rparr>"

text \<open>A hold across both balances: the month's 500 credits, and a hundred bought ones.\<close>

definition sample_hold_row :: funded_attempt where
  "sample_hold_row = \<lparr>fa_tenantId = ''t1'', fa_organizationId = ''org1'', fa_id = ''a1'', fa_periodId = ''2026-03'',
     fa_rootJobId = ''job1'', fa_parentAttemptId = None, fa_kind = Generation, fa_route = ''managed'', fa_maxMicroUsd = 60000000,
     fa_rateCardVersion = rc_version rate_card_v1, fa_state = Pending, fa_createdAt = march, fa_resolvedAt = None,
     fa_uncertainReason = None, fa_requestDigest = ''d1'', fa_rateSnapshot = sample_rate,
     fa_chargeSnapshot = Some sample_charge, fa_usageClass = MeteredWork, fa_monthlyHoldMicroUsd = 50000000,
     fa_topUpHoldMicroUsd = 10000000, fa_dispatchedAt = None\<rparr>"

definition sample_unsent :: fstate where
  "sample_unsent = sample_before\<lparr>st_attempts := [sample_hold_row]\<rparr>"

text \<open>Its dispatch, and a lease on bought credits.\<close>

definition sample_lease :: top_up_hold where
  "sample_lease = \<lparr>th_tenantId = ''t1'', th_organizationId = ''org1'', th_holdId = ''h1'', th_personId = ''p1'',
     th_requestDigest = ''d2'', th_amountMicroUsd = 2000000, th_debitMicroUsd = 0, th_absorbedMicroUsd = 0,
     th_state = HoldHeld, th_createdAt = march, th_resolvedAt = None, th_leaseUntil = march + 900000, th_releasedBy = None\<rparr>"

definition sample_state :: fstate where
  "sample_state = sample_before\<lparr>st_attempts := [sample_hold_row\<lparr>fa_dispatchedAt := Some march\<rparr>],
     st_topUpHolds := [sample_lease]\<rparr>"

text \<open>Both settled.\<close>

definition sample_closed :: fstate where
  "sample_closed = sample_before\<lparr>
     st_attempts := [sample_hold_row\<lparr>fa_dispatchedAt := Some march, fa_state := Settled, fa_resolvedAt := Some march\<rparr>],
     st_settlements := [\<lparr>se_tenantId = ''t1'', se_organizationId = ''org1'', se_reservationId = ''a1'', se_periodId = ''2026-03'',
       se_providerCostMicroUsd = 3600000, se_allowanceDebitMicroUsd = 5400000, se_rateCardVersion = rc_version rate_card_v1,
       se_settledAt = march, se_reconciledFrom = FromResponse, se_receiptRef = ''receipt1'', se_monthlyDebitMicroUsd = 5400000,
       se_topUpDebitMicroUsd = 0, se_usage = \<lparr>uc_inputTokens = 1000000, uc_cacheReadTokens = 0, uc_cacheWriteTokens = 0,
         uc_outputTokens = 200000, uc_reasoningTokens = 0, nu_raw = None\<rparr>\<rparr>],
     st_topUpHolds := [sample_lease\<lparr>th_debitMicroUsd := 1500000, th_state := HoldSettled, th_resolvedAt := Some march\<rparr>]\<rparr>"

text \<open>A purchase of credits through its checkout session, and the event that pays it.\<close>

definition sample_terms :: purchase_terms where
  "sample_terms = \<lparr>pi_tenantId = ''t1'', pi_organizationId = ''org1'', pi_purchaseId = ''buy1'', pi_personId = ''p0'',
     pi_credits = 200, pi_amountCents = 4000, pi_rateCents = 2000, pi_rateCredits = 100, pi_environment = TestEnv\<rparr>"

definition sample_event :: purchase_event where
  "sample_event = \<lparr>pe_kind = EventPaid, pe_sessionId = ''cs_1'', pe_purchaseId = Some ''buy1'', pe_tenantId = Some ''t1'',
     pe_organizationId = Some ''org1'', pe_amountTotal = Some 4000, pe_currency = Some ''usd'', pe_eventId = ''evt9'',
     pe_environment = TestEnv\<rparr>"

definition sample_purchase :: credit_purchase where
  "sample_purchase = \<lparr>pu_tenantId = ''t1'', pu_organizationId = ''org1'', pu_purchaseId = ''buy1'', pu_personId = ''p0'',
     pu_credits = 200, pu_amountCents = 4000, pu_rateCents = 2000, pu_rateCredits = 100, pu_environment = TestEnv,
     pu_checkoutSessionId = Some ''cs_1'', pu_state = PurchasePending, pu_createdAt = march, pu_resolvedAt = None,
     pu_stripeEventId = None\<rparr>"

definition sample_buying :: fstate where
  "sample_buying = empty_funding_state\<lparr>st_creditPurchases := [sample_purchase]\<rparr>"

definition sample_paid :: fstate where
  "sample_paid = empty_funding_state\<lparr>
     st_topUps := [\<lparr>tu_tenantId = ''t1'', tu_organizationId = ''org1'', tu_topUpId = ''buy1'', tu_amountMicroUsd = 20000000,
       tu_sourceEventId = ''evt9'', tu_recordedAt = march\<rparr>],
     st_creditPurchases := [sample_purchase\<lparr>pu_state := PurchasePaid, pu_resolvedAt := Some march,
       pu_stripeEventId := Some ''evt9''\<rparr>]\<rparr>"

section \<open>The calls that reach them\<close>

definition sample_path :: "((int \<times> call) list \<times> fstate) list" where
  "sample_path =
    [([(march, AllocatePeriod ''t1'' ''org1'' ''2026-03'' ''workflow-starter'' ''grant1''),
       (march, RecordTopUp ''t1'' ''org1'' ''top1'' 25000000 ''stripe'' ''evt1'')], sample_bought),
     ([(march, OpenJob sample_job)], sample_before),
     ([(march, Reserve (sample_input ''a1'' 60000000))], sample_unsent),
     ([(march, MarkDispatched ''t1'' ''org1'' ''a1''),
       (march, HoldPurchased ''t1'' ''org1'' ''h1'' ''p1'' 2000000 ''d2'')], sample_state),
     ([(march, SettleAttempt ''t1'' ''org1'' ''a1'' ''receipt1'' sample_counts JUndef FromResponse),
       (march, SettlePurchased ''t1'' ''org1'' ''h1'' ''p1'' 1500000)], sample_closed)]"

definition buying_path :: "((int \<times> call) list \<times> fstate) list" where
  "buying_path =
    [([(march, StartPurchase sample_terms), (march, AttachSession ''t1'' ''org1'' ''buy1'' ''cs_1'')], sample_buying),
     ([(march, ResolvePurchase sample_event)], sample_paid)]"

text \<open>A path leads from state to state by its calls, all made on March 5.\<close>

fun leads :: "fstate \<Rightarrow> ((int \<times> call) list \<times> fstate) list \<Rightarrow> bool" where
  "leads s [] \<longleftrightarrow> True"
| "leads s ((calls, s') # path) \<longleftrightarrow> list_all (\<lambda>call. fst call = march) calls \<and> serve_all calls s = s' \<and> leads s' path"

lemma march_clock: "list_all (\<lambda>call. fst call = march) calls \<Longrightarrow> fold max (map fst calls) march = march"
  by (induction calls) auto

lemma leads_reachable: "leads s path \<Longrightarrow> reachable march s \<Longrightarrow> list_all (reachable march) (map snd path)"
proof (induction s path rule: leads.induct)
  case (2 s calls s' path)
  then have "reachable march s'"
    using serve_all_reachable [of march s calls] march_clock [of calls] by simp
  with 2 show ?case by simp
qed simp

lemma sample_paths: "leads empty_funding_state sample_path \<and> leads empty_funding_state buying_path"
  by code_simp

lemma sample_reachable:
  "reachable march sample_before" "reachable march sample_unsent" "reachable march sample_state"
  "reachable march sample_closed" "reachable march sample_buying" "reachable march sample_paid"
  using sample_paths [THEN conjunct1, THEN leads_reachable, OF reachable.start]
    sample_paths [THEN conjunct2, THEN leads_reachable, OF reachable.start]
  by (simp_all add: sample_path_def buying_path_def)

section \<open>A limit, and requests for more\<close>

definition sample_owner :: actor where "sample_owner = \<lparr>ac_personId = ''p0'', ac_role = Owner\<rparr>"

definition sample_limited :: fstate where
  "sample_limited = sample_before\<lparr>st_memberLimits := [\<lparr>ls_subjectKind = PersonSubject, ls_subjectId = ''p1'', ls_mode = LimitTo,
     ls_limitMicroUsd = Some 3000000, ml_tenantId = ''t1'', ml_organizationId = ''org1'', ml_updatedBy = ''p0'',
     ml_updatedAt = march\<rparr>]\<rparr>"

definition sample_membership :: membership_snapshot where
  "sample_membership = \<lparr>ms_validUntil = march + 60000, ms_organizationTenantId = ''t1'', ms_organizationId = ''org1'',
     ms_membershipOrganizationId = ''org1'', ms_membershipActive = True, ms_membershipRole = Owner, ms_personId = ''p0''\<rparr>"

definition sample_asked :: fstate where
  "sample_asked = sample_before\<lparr>
     st_capRequests := [\<lparr>cr_tenantId = ''t1'', cr_organizationId = ''org1'', cr_requestId = ''ask1'', cr_rootJobId = ''job1'',
       cr_requestedCapMicroUsd = 80000000, cr_requestedBy = ''p1'', cr_state = CapPending, cr_requestedAt = march,
       cr_decidedBy = None, cr_decidedAt = None\<rparr>],
     st_limitRequests := [\<lparr>lr_tenantId = ''t1'', lr_organizationId = ''org1'', lr_requestId = ''raise1'', lr_personId = ''p1'',
       lr_requesterRole = Member, lr_kind = AskMonth, lr_rootJobId = None, lr_state = AskPending, lr_requestedAt = march,
       lr_decidedBy = None, lr_decidedAt = None, lr_extraMicroUsd = None, lr_allowPurchased = False, lr_periodId = None\<rparr>]\<rparr>"

text \<open>The requests are the ones the calls make.\<close>

lemma sample_asked_served:
  "serve_all [(march, RequestCap ''t1'' ''org1'' ''job1'' ''ask1'' 80000000 ''p1''),
     (march, AskRaise ''t1'' ''org1'' ''raise1'' \<lparr>ac_personId = ''p1'', ac_role = Member\<rparr> AskMonth None)] sample_before = sample_asked
   \<and> serve march (SetLimit ''t1'' ''org1'' sample_owner (PersonLimit ''p1'') (Some Member) LimitTo (Some 3000000)) sample_before
     = sample_limited"
  by code_simp

definition sample_withdrawal :: correction_input where
  "sample_withdrawal = \<lparr>ci_tenantId = ''t1'', ci_organizationId = ''org1'', ci_adjustmentId = ''adj1'', ci_periodId = ''2026-03'',
     ci_direction = WithdrawCredits, ci_amountMicroUsd = 20000000, ci_attemptRef = None, ci_note = ''granted twice''\<rparr>"

end
