(* ===== verification/Sample_Answers.thy ===== *)
theory Sample_Answers
  imports Samples
begin

text \<open>
  What single calls answer in the states of the sample month: the facts the examples beside the
  properties start from. Each group is evaluated in one pass.
\<close>

text \<open>Whether a call returns, with an answer and a store as described.\<close>

definition returns :: "'a outcome \<Rightarrow> ('a \<Rightarrow> fstate \<Rightarrow> bool) \<Rightarrow> bool" where
  "returns m P \<longleftrightarrow> (case m of Inl e \<Rightarrow> False | Inr (x, s') \<Rightarrow> P x s')"

lemma returnsD: "returns m P \<Longrightarrow> \<exists>x s'. m = Inr (x, s') \<and> P x s'"
  by (auto simp: returns_def split: sum.splits prod.splits)

definition sample_settle :: "settle_result outcome" where
  "sample_settle = settle_attempt march ''t1'' ''org1'' ''a1'' ''receipt1'' sample_counts JUndef FromResponse sample_state"

text \<open>The hold took the month's 500 credits and a hundred bought ones; its settlement; the state once both are settled.\<close>

lemma sample_held:
  "(bought ''t1'' ''org1'' sample_state = 25000000 \<and> bought_committed ''t1'' ''org1'' march sample_state = 12000000
   \<and> month_funded ''t1'' ''org1'' ''2026-03'' sample_state = 50000000
   \<and> month_committed ''t1'' ''org1'' ''2026-03'' sample_state = 50000000)
   \<and> (map_option (\<lambda>a. (fa_state a, was_sent a, fa_monthlyHoldMicroUsd a, fa_topUpHoldMicroUsd a, fa_organizationId a, fa_maxMicroUsd a))
     (tx_attempt ''t1'' ''a1'' sample_state) = Some (Pending, True, 50000000, 10000000, ''org1'', 60000000)
   \<and> st_settlements sample_state = [])
   \<and> (map_option (\<lambda>a. (fa_chargeSnapshot a, fa_rateSnapshot a, fa_route a)) (tx_attempt ''t1'' ''a1'' sample_state)
     = Some (Some sample_charge, sample_rate, ''managed''))
   \<and> (returns sample_settle (\<lambda>result s'. (case result of HeldAs _ _ \<Rightarrow> False
       | SettledAs se \<Rightarrow> se_allowanceDebitMicroUsd se = 5400000 \<and> se_providerCostMicroUsd se = 3600000
           \<and> se_monthlyDebitMicroUsd se = 5400000 \<and> se_topUpDebitMicroUsd se = 0)
     \<and> company_spend s' = Inr 3600000)
   \<and> company_spend sample_state = Inr 60000000)
   \<and> (map_option fa_state (tx_attempt ''t1'' ''a1'' sample_closed) = Some Settled
   \<and> map_option (\<lambda>h. (th_state h, th_debitMicroUsd h, th_amountMicroUsd h)) (tx_topUpHold ''t1'' ''h1'' sample_closed)
      = Some (HoldSettled, 1500000, 2000000)
   \<and> length (st_settlements sample_closed) = 1)"
  by code_simp

lemmas sample_balances = sample_held [THEN conjunct1]
lemmas sample_attempt = sample_held [THEN conjunct2, THEN conjunct1]
lemmas sample_terms_held = sample_held [THEN conjunct2, THEN conjunct2, THEN conjunct1]
lemmas sample_settled = sample_held [THEN conjunct2, THEN conjunct2, THEN conjunct2, THEN conjunct1]
lemmas sample_closed_rows = sample_held [THEN conjunct2, THEN conjunct2, THEN conjunct2, THEN conjunct2]

text \<open>Reserving, dispatching, recovering, and the same hold for a member whose limit it just meets.\<close>

definition member_input :: "string \<Rightarrow> int \<Rightarrow> reserve_input" where
  "member_input attemptId ceiling = (sample_input attemptId ceiling)\<lparr>ri_member := Some (''p1'', Member)\<rparr>"

lemma sample_reserving:
  "(returns (reserve march (sample_input ''a1'' 60000000) sample_before)
     (\<lambda>a s'. fa_monthlyHoldMicroUsd a = 50000000 \<and> fa_topUpHoldMicroUsd a = 10000000 \<and> company_spend s' = Inr 60000000
       \<and> tx_jobUsed ''t1'' ''job1'' s' = Inr 60000000)
   \<and> tx_attempt ''t1'' ''a1'' sample_before = None)
   \<and> (case mark_dispatched march ''t1'' ''org1'' ''a1'' sample_unsent of
     (Inl e, s') \<Rightarrow> False
   | (Inr a, s') \<Rightarrow> fa_dispatchedAt a = Some march)
   \<and> (case mark_dispatched march ''t1'' ''org1'' ''a1'' sample_state of (Inl e, s') \<Rightarrow> e \<noteq> FundingError 409 ''period_ended'' | _ \<Rightarrow> False)
   \<and> ((returns (recover_after_restart march ''t1'' ''org1'' sample_state) (\<lambda>answer s'. answer = ([], [''a1''])))
   \<and> (returns (recover_after_restart march ''t1'' ''org1'' sample_unsent) (\<lambda>answer s'. answer = ([''a1''], []))))
   \<and> (returns (reserve march (member_input ''a1'' 3000000) sample_limited) (\<lambda>a s'. fa_periodId a = cp_periodId sample_period)
   \<and> tx_attempt ''t1'' ''a1'' sample_limited = None
   \<and> tx_period ''t1'' ''org1'' (cp_periodId sample_period) sample_limited = Some sample_period
   \<and> effective_limit_for Member ''p1'' (map setting_of (member_limits ''t1'' ''org1'' sample_limited))
       (cp_planId sample_period) (cp_grantedMicroUsd sample_period) = Inr \<lparr>el_limitMicroUsd = Some 3000000, el_source = FromPerson\<rparr>)"
  by code_simp

lemmas sample_reserve = sample_reserving [THEN conjunct1]
lemmas sample_dispatch = sample_reserving [THEN conjunct2, THEN conjunct1]
lemmas sample_dispatch_again = sample_reserving [THEN conjunct2, THEN conjunct2, THEN conjunct1]
lemmas sample_recovery = sample_reserving [THEN conjunct2, THEN conjunct2, THEN conjunct2, THEN conjunct1]
lemmas sample_limit = sample_reserving [THEN conjunct2, THEN conjunct2, THEN conjunct2, THEN conjunct2]

text \<open>Funding, bought credits and purchases.\<close>

lemma sample_buying:
  "(returns (record_topUp march ''t1'' ''org1'' ''top1'' 25000000 ''stripe'' ''evt1'' empty_funding_state)
     (\<lambda>topUp s1. returns (allocate_period march ''t1'' ''org1'' ''2026-03'' ''workflow-starter'' ''grant1'' s1) (\<lambda>_ _. True)))
   \<and> (returns (hold_purchased march ''t1'' ''org1'' ''h1'' ''p1'' 2000000 ''d2'' sample_bought)
     (\<lambda>answer s'. march + 1000 < th_leaseUntil (fst answer)
       \<and> returns (hold_purchased (march + 1000) ''t1'' ''org1'' ''h1'' ''p1'' 2000000 ''d2'' s') (\<lambda>_ _. True)))
   \<and> (returns (settle_purchased (march + 3600000) ''t1'' ''org1'' ''h1'' ''p1'' 1500000 sample_state)
     (\<lambda>answer s'. th_debitMicroUsd (fst answer) = 1500000)
   \<and> map_option th_state (tx_topUpHold ''t1'' ''h1'' sample_state) = Some HoldHeld)
   \<and> (returns (resolve_creditPurchase march sample_event sample_buying) (\<lambda>answer s'. answer = Resolved PurchasePaid ''buy1''))
   \<and> (map_option (\<lambda>row. (pu_state row, pu_credits row)) (tx_creditPurchase ''t1'' ''buy1'' sample_paid) = Some (PurchasePaid, 200))"
  by code_simp

lemmas sample_funding = sample_buying [THEN conjunct1]
lemmas sample_hold = sample_buying [THEN conjunct2, THEN conjunct1]
lemmas sample_late_settle = sample_buying [THEN conjunct2, THEN conjunct2, THEN conjunct1]
lemmas sample_resolved = sample_buying [THEN conjunct2, THEN conjunct2, THEN conjunct2, THEN conjunct1]
lemmas sample_paid_rows = sample_buying [THEN conjunct2, THEN conjunct2, THEN conjunct2, THEN conjunct2]

text \<open>Jobs, requests and corrections. In the last, an owner approves a stale request after Keep going raised the cap past it, and the cap goes down.\<close>

lemma sample_deciding:
  "(returns (keep_going ''t1'' ''org1'' ''job1'' 75000000 (\<lambda>_. 75000000) sample_before)
     (\<lambda>answer s'. kg_raised answer \<and> fj_capMicroUsd (kg_job answer) = 150000000))
   \<and> ((returns (decide_capIncrease march sample_membership ''ask1'' True sample_asked) (\<lambda>row s'. cr_state row = CapApproved))
   \<and> (returns (decide_raise march ''t1'' ''org1'' ''raise1'' sample_owner False None None sample_asked) (\<lambda>row s'. lr_state row = AskDenied)))
   \<and> (returns (record_correction march sample_withdrawal sample_before) (\<lambda>row s'. ad_amountMicroUsd row = 20000000)
   \<and> tx_adjustment ''t1'' ''adj1'' sample_before = None)
   \<and> (returns (keep_going ''t1'' ''org1'' ''job1'' 75000000 (\<lambda>_. 75000000) sample_asked) (\<lambda>answer s1.
     fj_capMicroUsd (kg_job answer) = 150000000
     \<and> returns (decide_capIncrease march sample_membership ''ask1'' True s1) (\<lambda>row s2.
         map_option fj_capMicroUsd (tx_job ''t1'' ''job1'' s2) = Some 80000000)))"
  by code_simp

lemmas sample_keep_going = sample_deciding [THEN conjunct1]
lemmas sample_decisions = sample_deciding [THEN conjunct2, THEN conjunct1]
lemmas sample_correction = sample_deciding [THEN conjunct2, THEN conjunct2, THEN conjunct1]
lemmas sample_stale_approval = sample_deciding [THEN conjunct2, THEN conjunct2, THEN conjunct2]

lemma sample_charge_within_ceiling:
  "ceiling_failures Expert ''managed'' sample_rate sample_charge 70000 = [] \<and> ceiling_schema_ok 70000"
  by code_simp

lemma sample_settledE:
  obtains se s' where
    "settle_attempt march ''t1'' ''org1'' ''a1'' ''receipt1'' sample_counts JUndef FromResponse sample_state = Inr (SettledAs se, s')"
    "se_allowanceDebitMicroUsd se = 5400000" "company_spend s' = Inr 3600000" "company_spend sample_state = Inr 60000000"
proof -
  from returnsD [OF conjunct1 [OF sample_settled]] obtain result s' where
    run: "sample_settle = Inr (result, s')" and answer: "case result of HeldAs _ _ \<Rightarrow> False
       | SettledAs se \<Rightarrow> se_allowanceDebitMicroUsd se = 5400000 \<and> se_providerCostMicroUsd se = 3600000
           \<and> se_monthlyDebitMicroUsd se = 5400000 \<and> se_topUpDebitMicroUsd se = 0"
    and spend: "company_spend s' = Inr 3600000"
    by blast
  from answer obtain se where "result = SettledAs se" "se_allowanceDebitMicroUsd se = 5400000" by (cases result) simp_all
  with run spend sample_settled show thesis by (intro that) (simp_all add: sample_settle_def)
qed

section \<open>Where the code and its comments part\<close>

text \<open>A request for a higher cap, approved after Keep going raised the cap past it, lowers the cap
  (\<open>decideCapIncrease\<close> compares the figure with the cap only when the request is made).\<close>

lemma stale_approval_lowers_cap:
  "\<exists>answer s1 row s2. keep_going ''t1'' ''org1'' ''job1'' 75000000 (\<lambda>_. 75000000) sample_asked = Inr (answer, s1)
    \<and> decide_capIncrease march sample_membership ''ask1'' True s1 = Inr (row, s2)
    \<and> fj_capMicroUsd (kg_job answer) = 150000000
    \<and> map_option fj_capMicroUsd (tx_job ''t1'' ''job1'' s2) = Some 80000000"
  using returnsD [OF sample_stale_approval] by (blast dest: returnsD)

text \<open>A reservation at a provider rate above its charge: the settlement debits 54 credits, within the hold of 600, and
  adds to what the company may owe.\<close>

definition costly_rate :: rate_snapshot where
  "costly_rate = sample_rate\<lparr>bp_inputMicroUsdPerMillion := 200000000\<rparr>"

definition costly_state :: fstate where
  "costly_state = sample_before\<lparr>st_attempts := [sample_hold_row\<lparr>fa_dispatchedAt := Some march, fa_rateSnapshot := costly_rate\<rparr>]\<rparr>"

lemma settlement_raises_company_spend:
  "serve_all [(march, Reserve ((sample_input ''a1'' 60000000)\<lparr>ri_rateSnapshot := costly_rate\<rparr>)),
     (march, MarkDispatched ''t1'' ''org1'' ''a1'')] sample_before = costly_state
   \<and> company_spend costly_state = Inr 60000000
   \<and> returns (settle_attempt march ''t1'' ''org1'' ''a1'' ''receipt1'' sample_counts JUndef FromResponse costly_state)
       (\<lambda>_ s'. company_spend s' = Inr 201600000)"
  by code_simp

end
