(* ===== verification/Contract_Properties.thy ===== *)
theory Contract_Properties
  imports Member_Limits
begin

text \<open>
  The properties of the shared contracts, which keep no state: prices and their ceilings, reported usage, the
  Individual terms and calendar months, a member's limit and the usage projection.
\<close>

section \<open>Prices\<close>

lemma ceil_million:
  fixes q a :: int
  assumes "q = (a + 999999) div 1000000"
  shows "a \<le> 1000000 * q \<and> 1000000 * q < a + 1000000"
proof -
  have "a + 999999 = 1000000 * q + (a + 999999) mod 1000000" unfolding assms by simp
  moreover have "0 \<le> (a + 999999) mod 1000000" "(a + 999999) mod 1000000 < 1000000" by simp_all
  ultimately show ?thesis by linarith
qed

text \<open>A hold computed from a tier's charge and two token bounds covers the charge of every valid report within those
  bounds, whichever long-context band the report falls in.\<close>

theorem charge_hold_covers_report:
  assumes "charge_hold charge inputBound outputBound = Inr h" and "tier_charge_ok charge"
    and "usage_wf u" and "uc_inputTokens u \<le> inputBound" and "uc_outputTokens u \<le> outputBound"
  shows "\<exists>c. usage_cost charge u = Inr c \<and> c \<le> h"
  using charge_hold_covers [OF assms(1) tier_charge_ok_nonneg [OF assms(2)] assms(3-5)] .

text \<open>When a route's price passes the ceiling check against a tier's charge, no valid report costs the provider more
  than the tier charges for it.\<close>

theorem ceiling_bounds_provider_cost:
  assumes "check_ceiling tier routeId price charge ceiling = None" and "ceiling_schema_ok ceiling"
    and "prices_nonneg price" and "prices_nonneg charge" and "usage_wf u"
    and "usage_cost price u = Inr p" and "usage_cost charge u = Inr c"
  shows "p \<le> c"
proof -
  have "ceiling_failures tier routeId price charge ceiling = []"
    using assms(1) by (simp add: check_ceiling_def split: list.splits)
  from ceiling_bounds_cost [OF this assms(2-5)] assms(6,7) show ?thesis
    by (simp add: usage_cost_wf [OF assms(5)] Let_def micro_Inr_iff split: if_splits)
qed

text \<open>The cost of a valid report is the sum over its token classes at the band's prices, rounded up to a whole
  micro-dollar once, plus the request fee.\<close>

theorem usage_cost_rounds_up_once:
  assumes "usage_cost rate u = Inr c" and "usage_wf u" and "prices_nonneg rate"
  defines "band \<equiv> band_at rate (uc_inputTokens u)"
  shows "scaled_cost band u \<le> 1000000 * (c - request_fee band)
    \<and> 1000000 * (c - request_fee band) < scaled_cost band u + 1000000 \<and> is_money c"
proof -
  have nonneg: "0 \<le> scaled_cost band u"
    using band_at_nonneg [OF assms(3)] assms(2) unfolding band_def by (rule scaled_cost_nonneg)
  have c: "c = band_cost band u" "is_money c"
    using assms(1) by (auto simp: usage_cost_wf [OF assms(2)] Let_def band_def micro_Inr_iff split: if_splits)
  have "c - request_fee band = (scaled_cost band u + 999999) div 1000000"
    using nonneg by (simp add: c(1) band_cost_def big_div_nonneg)
  from ceil_million [OF this] c(2) show ?thesis by (simp only: simp_thms)
qed

section \<open>Reported usage\<close>

text \<open>Counts are accepted only when every one is a whole number from 0 to the limit and the parts fit the wholes, and
  what is accepted is accepted again, unchanged, from its own record.\<close>

theorem accepted_usage_is_valid_and_stable:
  assumes "normalize_usage counts raw = KnownUsage u"
  shows "usage_wf u \<and> uc_cacheReadTokens u + uc_cacheWriteTokens u \<le> uc_inputTokens u
    \<and> uc_reasoningTokens u \<le> uc_outputTokens u \<and> normalize_usage (usage_record u) JUndef = KnownUsage u"
  using normalize_usage_known_counts [OF assms]
    normalize_usage_record_wf [OF normalize_usage_known_counts [OF assms] normalize_usage_known_raw [OF assms]]
  by (simp add: usage_wf_def)

section \<open>Periods\<close>

text \<open>The Individual terms of one anchor tile the time from it: different terms never overlap, each term has an instant,
  and the next begins where it ends.\<close>

theorem individual_terms_tile:
  assumes "individual_cycle anchor i = Inr c" and "individual_cycle anchor j = Inr d"
  shows "(i \<noteq> j \<longrightarrow> \<not> periods_overlap (cycle_interval c) (cycle_interval d))
    \<and> (j = i + 1 \<longrightarrow> ic_endsAt c = ic_startsAt d) \<and> ic_startsAt c < ic_endsAt c"
  using individual_cycles_apart [OF assms] individual_cycles_meet [OF assms(1)] assms(2) individual_cycle_nonempty [OF assms(1)]
  by auto

text \<open>The term found for an instant is the one of the anchor's terms that contains it, and it is found whenever one
  does.\<close>

theorem individual_term_found:
  "individual_cycle_at anchor at = Inr (Some c) \<longleftrightarrow> individual_cycle anchor (ic_index c) = Inr c \<and> cycle_contains c at"
  using individual_cycle_at_Some individual_cycle_at_complete by blast

text \<open>A calendar month's id reads back as the bounds that contain the instant it was made from.\<close>

theorem month_id_reads_back:
  assumes "1000 \<le> utc_full_year t" and "utc_full_year t \<le> 9999" and "is_time_value t"
  shows "\<exists>p startsAt endsAt. period_id_for t = Inr p \<and> month_bounds p = Inr (startsAt, endsAt) \<and> startsAt \<le> t \<and> t < endsAt"
  using period_id_for_bounds [OF assms] month_contains [of t] by blast

section \<open>A member's limit\<close>

text \<open>A member's step is admitted exactly when it fits the limit, or fits with what was approved and, if it draws on
  bought credits, that was approved too.\<close>

theorem member_use_admitted_iff:
  "decide_member_use limit used step purchased allowed = Inr MemberUseOk \<longleftrightarrow>
     (case limit of None \<Rightarrow> True
      | Some l \<Rightarrow> used + step \<le> l
          \<or> used + step \<le> l + al_extraMicroUsd allowed \<and> (purchased \<le> 0 \<or> al_allowPurchased allowed))"
  by (rule decide_member_use_ok_iff)

section \<open>The projection\<close>

text \<open>A usage projection accounts for every unit: what is available less what is overspent is the grant and grants less
  withdrawals, settled, pending and uncertain, one of the two is zero, and bought credits are never shown below zero.\<close>

theorem projection_accounts_for_all:
  assumes "project_usage org period totals topUp receipt observedAt allocated = Inr p"
  shows "up_availableMicroUsd p - up_overspentMicroUsd p =
      pp_grantedMicroUsd period + up_correctionsMicroUsd p - up_correctionWithdrawalsMicroUsd p
        - up_settledMicroUsd p - up_pendingMicroUsd p - up_uncertainMicroUsd p
    \<and> (up_availableMicroUsd p = 0 \<or> up_overspentMicroUsd p = 0) \<and> 0 \<le> up_availableMicroUsd p \<and> 0 \<le> up_overspentMicroUsd p
    \<and> (up_reconciling p \<longleftrightarrow> 0 < up_overspentMicroUsd p) \<and> 0 \<le> up_topUpAvailableMicroUsd p"
  using project_usage_balances [OF assms] by blast

section \<open>Examples\<close>

definition example_charge :: price_fields where
  "example_charge = \<lparr>bp_inputMicroUsdPerMillion = 3000000, bp_outputMicroUsdPerMillion = 12000000,
     bp_cacheReadMicroUsdPerMillion = 300000, bp_cacheWriteMicroUsdPerMillion = 3750000,
     bp_reasoningMicroUsdPerMillion = None, bp_requestFeeMicroUsd = Some 5,
     pf_longContext = Some [\<lparr>bp_inputMicroUsdPerMillion = 6000000, bp_outputMicroUsdPerMillion = 18000000,
        bp_cacheReadMicroUsdPerMillion = 600000, bp_cacheWriteMicroUsdPerMillion = 7500000,
        bp_reasoningMicroUsdPerMillion = None, bp_requestFeeMicroUsd = None, lb_aboveInputTokens = 200000\<rparr>]\<rparr>"

definition example_price :: price_fields where
  "example_price = \<lparr>bp_inputMicroUsdPerMillion = 1000000, bp_outputMicroUsdPerMillion = 4000000,
     bp_cacheReadMicroUsdPerMillion = 100000, bp_cacheWriteMicroUsdPerMillion = 1250000,
     bp_reasoningMicroUsdPerMillion = None, bp_requestFeeMicroUsd = None, pf_longContext = None\<rparr>"

definition example_usage :: usage_counts where
  "example_usage = \<lparr>uc_inputTokens = 250000, uc_cacheReadTokens = 1000, uc_cacheWriteTokens = 0, uc_outputTokens = 1001,
     uc_reasoningTokens = 1\<rparr>"

lemma charge_hold_covers_report_example:
  "\<exists>c. usage_cost example_charge example_usage = Inr c \<and> c \<le> 2286000"
proof (rule charge_hold_covers_report [where inputBound = 300000 and outputBound = 2000 and h = 2286000])
  show "charge_hold example_charge 300000 2000 = Inr 2286000" by code_simp
  show "tier_charge_ok example_charge" by code_simp
  show "usage_wf example_usage" by code_simp
  show "uc_inputTokens example_usage \<le> 300000" by code_simp
  show "uc_outputTokens example_usage \<le> 2000" by code_simp
qed

lemma ceiling_bounds_provider_cost_example:
  "\<exists>p c. usage_cost example_price example_usage = Inr p \<and> usage_cost example_charge example_usage = Inr c \<and> p \<le> c"
proof (intro exI conjI)
  show p: "usage_cost example_price example_usage = Inr 253104" by code_simp
  show c: "usage_cost example_charge example_usage = Inr 1512618" by code_simp
  show "253104 \<le> (1512618 :: int)"
  proof (rule ceiling_bounds_provider_cost [OF _ _ _ _ _ p c])
    show "check_ceiling Expert ''managed'' example_price example_charge 40000 = None" by code_simp
    show "ceiling_schema_ok 40000" by code_simp
    show "prices_nonneg example_price" by code_simp
    show "prices_nonneg example_charge" by code_simp
    show "usage_wf example_usage" by code_simp
  qed
qed

lemma usage_cost_rounds_up_once_example:
  "1000000 * (1512618 - request_fee (band_at example_charge 250000)) < scaled_cost (band_at example_charge 250000) example_usage + 1000000"
proof -
  have "usage_cost example_charge example_usage = Inr 1512618" "usage_wf example_usage" "prices_nonneg example_charge" by code_simp+
  from usage_cost_rounds_up_once [OF this] show ?thesis by (simp add: example_usage_def)
qed

lemma known_usageE:
  assumes "case e of KnownUsage u \<Rightarrow> P u | _ \<Rightarrow> False"
  obtains u where "e = KnownUsage u" "P u"
  using assms by (cases e) simp_all

definition example_counts :: jval where
  "example_counts = JObj [(''inputTokens'', JInt 100), (''cacheReadTokens'', JInt 30), (''cacheWriteTokens'', JInt 20),
     (''outputTokens'', JInt 50), (''reasoningTokens'', JInt 10)]"

lemma accepted_usage_is_valid_and_stable_example:
  "\<exists>u. normalize_usage example_counts JUndef = KnownUsage u \<and> uc_inputTokens u = 100
     \<and> normalize_usage (usage_record u) JUndef = KnownUsage u"
proof -
  have "case normalize_usage example_counts JUndef of KnownUsage u \<Rightarrow> uc_inputTokens u = 100 | _ \<Rightarrow> False" by code_simp
  then obtain u where "normalize_usage example_counts JUndef = KnownUsage u" "uc_inputTokens u = 100"
    by (rule known_usageE)
  with accepted_usage_is_valid_and_stable [of example_counts JUndef u] show ?thesis by blast
qed

text \<open>The terms of a subscription that began on January 31, 2026.\<close>

definition january_31 :: int where "january_31 = 1769817600000"

lemma january_31_terms:
  "individual_cycle january_31 0 = Inr \<lparr>ic_policy = individual_cycle_policy, ic_anchorAt = january_31, ic_index = 0,
     ic_startsAt = january_31, ic_endsAt = 1772236800000\<rparr>"
  "individual_cycle january_31 1 = Inr \<lparr>ic_policy = individual_cycle_policy, ic_anchorAt = january_31, ic_index = 1,
     ic_startsAt = 1772236800000, ic_endsAt = 1774915200000\<rparr>"
proof -
  have "canonical (to_iso january_31) = Inr january_31"
    unfolding canonical_to_iso by code_simp
  moreover have "boundary january_31 0 = Inr january_31" "boundary january_31 1 = Inr 1772236800000"
    "boundary january_31 (1 + 1) = Inr 1774915200000" "is_safe_integer 0" "is_safe_integer 1"
    by code_simp+
  ultimately show
    "individual_cycle january_31 0 = Inr \<lparr>ic_policy = individual_cycle_policy, ic_anchorAt = january_31, ic_index = 0,
       ic_startsAt = january_31, ic_endsAt = 1772236800000\<rparr>"
    "individual_cycle january_31 1 = Inr \<lparr>ic_policy = individual_cycle_policy, ic_anchorAt = january_31, ic_index = 1,
       ic_startsAt = 1772236800000, ic_endsAt = 1774915200000\<rparr>"
    by (simp_all add: individual_cycle_def max_individual_cycle_index_def)
qed

lemma individual_terms_tile_example:
  "\<exists>c d. individual_cycle january_31 0 = Inr c \<and> individual_cycle january_31 1 = Inr d \<and> ic_endsAt c = 1772236800000
     \<and> ic_endsAt d = 1774915200000 \<and> ic_endsAt c = ic_startsAt d"
  using individual_terms_tile [OF january_31_terms] january_31_terms by auto

lemma month_id_reads_back_example:
  "\<exists>startsAt endsAt. month_bounds ''2026-01'' = Inr (startsAt, endsAt) \<and> startsAt \<le> january_31 \<and> january_31 < endsAt"
proof -
  have "1000 \<le> utc_full_year january_31" "utc_full_year january_31 \<le> 9999" "is_time_value january_31"
    "period_id_for january_31 = Inr ''2026-01''" by code_simp+
  with month_id_reads_back [of january_31] show ?thesis by auto
qed

lemma projection_accounts_for_all_example:
  "\<exists>p. project_usage ''org1'' \<lparr>pp_periodId = ''2026-03'', pp_planId = ''business'', pp_grantedMicroUsd = 100, pp_startsAt = 0,
       pp_endsAt = 1, pp_rateCardVersion = ''v1''\<rparr>
     \<lparr>pt_settledMonthlyMicroUsd = 70, pt_pendingMonthlyMicroUsd = 40, pt_uncertainMonthlyMicroUsd = 0,
       pt_correctionGrantsMicroUsd = 5, pt_correctionWithdrawalsMicroUsd = 0, pt_settledTopUpMicroUsd = 0\<rparr>
     \<lparr>tt_purchasedMicroUsd = 10, tt_heldMicroUsd = 3, tt_settledMicroUsd = 2\<rparr> None 0 None = Inr p
    \<and> up_overspentMicroUsd p = 5 \<and> up_availableMicroUsd p = 0 \<and> up_reconciling p" (is "\<exists>p. ?run = Inr p \<and> _")
proof -
  have "case ?run of Inl e \<Rightarrow> False | Inr p \<Rightarrow> up_overspentMicroUsd p = 5" by code_simp
  then obtain p where "?run = Inr p" "up_overspentMicroUsd p = 5" by (auto split: sum.splits)
  with projection_accounts_for_all [of "''org1''" _ _ _ None 0 None p] show ?thesis by fastforce
qed

end
