(* ===== verification/Credit_Rates.thy ===== *)
theory Credit_Rates
  imports Funding_Purchases
begin

text \<open>
  What a step of credits costs (\<open>services/control-plane/src/credit-purchases.ts\<close>): the Worker's settings, read
  from its environment, the price of whole steps and the steps an asked amount is. Refusals are the
  \<open>AccountError\<close>s of the service, by status and code.
\<close>

section \<open>Settings\<close>

datatype account_error = AccountError int "string option"

record credit_rate =
  rt_cents :: int
  rt_credits :: int

definition stripe_max_charge_cents :: int where "stripe_max_charge_cents = 99999999"
definition credit_purchase_max_credits :: int where "credit_purchase_max_credits = 100000"
definition rate_cents_min :: int where "rate_cents_min = 50"
definition rate_cents_max :: int where "rate_cents_max = 1000000"
definition rate_credits_min :: int where "rate_credits_min = 1"
definition rate_credits_max :: int where "rate_credits_max = 10000"

text \<open>\<open>/^[\x21-\x7e]{8,200}$/\<close> on the trimmed text.\<close>

definition secret_text :: "jval \<Rightarrow> string option" where
  "secret_text v = (case v of
     JStr t \<Rightarrow> (let trimmed = js_trim t in
       if 8 \<le> length trimmed \<and> length trimmed \<le> 200 \<and> list_all (\<lambda>c. (of_char c :: nat) \<in> {33..126}) trimmed
       then Some trimmed else None)
   | _ \<Rightarrow> None)"

text \<open>\<open>/^[1-9][0-9]{0,9}$/\<close>\<close>

definition count_text :: "string \<Rightarrow> bool" where
  "count_text t \<longleftrightarrow> (case t of [] \<Rightarrow> False
     | c # rest \<Rightarrow> is_digit c \<and> c \<noteq> CHR ''0'' \<and> length rest \<le> 9 \<and> list_all is_digit rest)"

text \<open>A rate, or the rule a set but unusable one broke.\<close>

definition parse_creditRate :: "jval \<Rightarrow> credit_rate option \<times> string option" where
  "parse_creditRate raw =
     (if is_nullish raw \<or> (case raw of JStr t \<Rightarrow> js_trim t = '''' | _ \<Rightarrow> False) then (None, Some ''not-set'')
      else case raw of
        JStr t \<Rightarrow>
          (let trimmed = js_trim t; first = takeWhile (\<lambda>c. c \<noteq> CHR '':'') trimmed;
               second = drop (length first + 1) trimmed in
           if \<not> (length first < length trimmed \<and> count_text first \<and> count_text second)
             then (None, Some ''not-cents-colon-credits'')
           else
             (let cents = read_nat first; credits = read_nat second in
              if \<not> is_safe_integer cents \<or> \<not> is_safe_integer credits \<or> cents < rate_cents_min \<or> cents > rate_cents_max
                  \<or> credits < rate_credits_min \<or> credits > rate_credits_max
                then (None, Some ''out-of-range'')
              else (Some \<lparr>rt_cents = cents, rt_credits = credits\<rparr>, None)))
      | _ \<Rightarrow> (None, Some ''not-cents-colon-credits''))"

definition stripe_mode_of :: "jval \<Rightarrow> environment" where
  "stripe_mode_of env =
     (if jget env ''STRIPE_LIVE'' = JStr ''1'' \<or> jget env ''STRIPE_LIVE'' = JInt 1 then LiveEnv else TestEnv)"

record billing_settings =
  bs_mode :: environment
  bs_creditRatePlan :: "credit_rate option"
  bs_creditRateFree :: "credit_rate option"
  bs_planProblem :: "string option"
  bs_freeProblem :: "string option"
  bs_stripeSecretKey :: "string option"
  bs_keyProblem :: "string option"
  bs_stripeWebhookSecret :: "string option"
  bs_stripeWebhookSecretPrevious :: "string option"

text \<open>\<open>/^(sk|rk)_live_/\<close> or \<open>/^(sk|rk)_test_/\<close>, by the mode.\<close>

definition key_belongs :: "environment \<Rightarrow> string \<Rightarrow> bool" where
  "key_belongs mode key \<longleftrightarrow> take 8 key \<in> (if mode = LiveEnv then {''sk_live_'', ''rk_live_''} else {''sk_test_'', ''rk_test_''})"

definition read_billingSettings :: "jval \<Rightarrow> billing_settings" where
  "read_billingSettings env =
     (let mode = stripe_mode_of env;
          (plan, planProblem) = parse_creditRate (jget env ''CREDIT_RATE_PLAN'');
          (free, freeProblem) = parse_creditRate (jget env ''CREDIT_RATE_FREE'');
          key = secret_text (jget env ''STRIPE_SECRET_KEY'');
          keyProblem = (case key of None \<Rightarrow> Some ''not-set''
            | Some k \<Rightarrow> if key_belongs mode k then None
                else Some (if mode = LiveEnv then ''not-a-live-key'' else ''live-key-needs-stripe-live''))
      in \<lparr>bs_mode = mode, bs_creditRatePlan = plan, bs_creditRateFree = free, bs_planProblem = planProblem,
          bs_freeProblem = freeProblem, bs_stripeSecretKey = (if keyProblem = None then key else None),
          bs_keyProblem = keyProblem, bs_stripeWebhookSecret = secret_text (jget env ''STRIPE_WEBHOOK_SECRET''),
          bs_stripeWebhookSecretPrevious = secret_text (jget env ''STRIPE_WEBHOOK_SECRET_PREVIOUS'')\<rparr>)"

section \<open>Prices\<close>

text \<open>Whole steps at a rate: the credits, and the price in cents.\<close>

definition credit_stepsCost :: "int \<Rightarrow> credit_rate \<Rightarrow> account_error + int \<times> int" where
  "credit_stepsCost steps rate =
     (let credits = steps * rt_credits rate; amountCents = steps * rt_cents rate in
      if \<not> is_safe_integer credits \<or> \<not> is_safe_integer amountCents \<or> amountCents < 1 \<or> amountCents > stripe_max_charge_cents
        then Inl (AccountError 422 None)
      else Inr (credits, amountCents))"

definition max_creditsAt :: "credit_rate \<Rightarrow> int" where
  "max_creditsAt rate = credit_purchase_max_credits div rt_credits rate * rt_credits rate"

definition steps_asked :: "jval \<Rightarrow> credit_rate \<Rightarrow> account_error + int" where
  "steps_asked asked rate =
     (if is_nullish asked then Inr 1
      else
        (let credits = (case asked of JInt n \<Rightarrow> Some n | JStr t \<Rightarrow> if count_text t then Some (read_nat t) else None | _ \<Rightarrow> None) in
         case credits of None \<Rightarrow> Inl (AccountError 422 None)
         | Some n \<Rightarrow>
           if \<not> is_safe_integer n \<or> n < rt_credits rate \<or> n > credit_purchase_max_credits \<or> n mod rt_credits rate \<noteq> 0
             then Inl (AccountError 422 None)
           else Inr (n div rt_credits rate)))"

definition is_askableCredits :: "jval \<Rightarrow> bool" where
  "is_askableCredits v \<longleftrightarrow> (case v of JInt n \<Rightarrow> is_safe_integer n \<and> 1 \<le> n \<and> n \<le> credit_purchase_max_credits | _ \<Rightarrow> False)"

section \<open>What they do\<close>

text \<open>The rates the settings accept.\<close>

definition rate_ok :: "credit_rate \<Rightarrow> bool" where
  "rate_ok rate \<longleftrightarrow> rate_cents_min \<le> rt_cents rate \<and> rt_cents rate \<le> rate_cents_max
     \<and> rate_credits_min \<le> rt_credits rate \<and> rt_credits rate \<le> rate_credits_max"

definition rate_text :: "credit_rate \<Rightarrow> string" where
  "rate_text rate = show_int (rt_cents rate) @ '':'' @ show_int (rt_credits rate)"

lemma rate_okD:
  assumes "rate_ok rate"
  shows "50 \<le> rt_cents rate" "rt_cents rate \<le> 1000000" "1 \<le> rt_credits rate" "rt_credits rate \<le> 10000"
  using assms by (simp_all add: rate_ok_def rate_cents_min_def rate_cents_max_def rate_credits_min_def rate_credits_max_def)

lemma parse_creditRate_ok: "parse_creditRate raw = (Some rate, problem) \<Longrightarrow> rate_ok rate \<and> problem = None"
  by (auto simp: parse_creditRate_def rate_ok_def Let_def split: if_splits jval.splits)

lemma read_settings_rates:
  "bs_creditRatePlan (read_billingSettings env) = Some rate \<Longrightarrow> rate_ok rate"
  "bs_creditRateFree (read_billingSettings env) = Some rate \<Longrightarrow> rate_ok rate"
  by (auto simp: read_billingSettings_def Let_def split: prod.splits dest: parse_creditRate_ok)

lemma show_nat_first: "0 < n \<Longrightarrow> hd (show_nat n) \<noteq> CHR ''0''"
proof (induction n rule: show_nat.induct)
  case (1 n)
  show ?case
  proof (cases "n < 10")
    case True
    have zero: "CHR ''0'' = digit_char 0" by code_simp
    from True 1(2) show ?thesis unfolding zero by (subst show_nat.simps) (simp add: digit_char_inject)
  next
    case False
    with 1 have "hd (show_nat (n div 10)) \<noteq> CHR ''0''" by simp
    moreover have "show_nat (n div 10) \<noteq> []" by (subst show_nat.simps) simp
    ultimately show ?thesis using False by (subst show_nat.simps) simp
  qed
qed

lemma count_text_show:
  assumes "0 < n" and "n < 10000000000"
  shows "count_text (show_int n)"
proof -
  have "length (show_nat (nat n)) \<le> 10" using assms by (intro length_show_nat) auto
  moreover have "list_all is_digit (show_nat (nat n))" by (auto simp: list_all_iff dest: show_nat_digits)
  moreover have "hd (show_nat (nat n)) \<noteq> CHR ''0''" using assms by (intro show_nat_first) simp
  moreover have "show_nat (nat n) \<noteq> []" by (subst show_nat.simps) simp
  ultimately show ?thesis using assms by (cases "show_nat (nat n)") (auto simp: count_text_def show_int_def)
qed

lemma read_show_int: "0 \<le> n \<Longrightarrow> read_nat (show_int n) = n"
  by (simp add: show_int_def read_show_nat)

lemma show_int_digits: "0 \<le> n \<Longrightarrow> c \<in> set (show_int n) \<Longrightarrow> is_digit c"
  by (auto simp: show_int_def dest: show_nat_digits)

lemma digits_not_special: "is_digit c \<Longrightarrow> \<not> is_space c \<and> c \<noteq> CHR '':''"
  by (auto simp: is_digit_def is_space_def)

lemma js_trim_solid:
  assumes "t \<noteq> []" and "\<not> is_space (hd t)" and "\<not> is_space (last t)"
  shows "js_trim t = t"
proof -
  have "dropWhile is_space t = t" using assms by (cases t) auto
  moreover have "dropWhile is_space (rev t) = rev t" using assms by (cases t rule: rev_cases) auto
  ultimately show ?thesis by (simp add: js_trim_def)
qed

lemma parse_rate_text:
  assumes "rate_ok rate"
  shows "parse_creditRate (JStr (rate_text rate)) = (Some rate, None)"
proof -
  let ?a = "show_int (rt_cents rate)" and ?b = "show_int (rt_credits rate)"
  note bounds = rate_okD [OF assms]
  have digits: "\<forall>c \<in> set ?a. is_digit c" "\<forall>c \<in> set ?b. is_digit c" using bounds show_int_digits [of "rt_cents rate"] show_int_digits [of "rt_credits rate"] by simp_all
  have filled: "?a \<noteq> []" "?b \<noteq> []" by (simp_all add: show_int_def, (subst show_nat.simps, simp)+)
  have "hd (rate_text rate) = hd ?a" "last (rate_text rate) = last ?b" using filled by (simp_all add: rate_text_def)
  then have trim: "js_trim (rate_text rate) = rate_text rate"
    using digits filled digits_not_special by (intro js_trim_solid) (simp_all add: rate_text_def)
  have first: "takeWhile (\<lambda>c. c \<noteq> CHR '':'') (rate_text rate) = ?a"
    using digits digits_not_special by (simp add: rate_text_def takeWhile_append2)
  have "drop (length ?a + 1) (rate_text rate) = ?b" by (simp add: rate_text_def)
  moreover have "count_text ?a" "count_text ?b" "read_nat ?a = rt_cents rate" "read_nat ?b = rt_credits rate"
    using bounds by (auto intro!: count_text_show read_show_int)
  moreover have "is_safe_integer (rt_cents rate)" "is_safe_integer (rt_credits rate)"
    using bounds by (auto simp: is_safe_integer_def)
  moreover have "length ?a < length (rate_text rate)" "rate_text rate \<noteq> ''''" by (simp_all add: rate_text_def)
  ultimately show ?thesis
    using assms by (simp add: parse_creditRate_def trim first Let_def is_nullish_def rate_ok_def not_less)
qed

text \<open>What an asked amount costs: exactly the amount, in whole steps.\<close>

lemma steps_asked_Inr:
  assumes "steps_asked asked rate = Inr steps" and "rate_ok rate"
  shows "1 \<le> steps \<and> steps * rt_credits rate \<le> credit_purchase_max_credits"
proof (cases "is_nullish asked")
  case True
  with assms(1) rate_okD [OF assms(2)] show ?thesis by (simp add: steps_asked_def credit_purchase_max_credits_def)
next
  case False
  with assms(1) obtain n where n: "rt_credits rate \<le> n" "n \<le> credit_purchase_max_credits" "n mod rt_credits rate = 0"
    "steps = n div rt_credits rate"
    by (auto simp: steps_asked_def Let_def not_less split: option.splits if_splits)
  from n(3,4) have "n = steps * rt_credits rate" by (metis add_0 div_mult_mod_eq add.right_neutral)
  with n(1,2) rate_okD(3) [OF assms(2)] show ?thesis by (smt (verit) mult_le_0_iff)
qed

lemma credit_stepsCost_Inr:
  "credit_stepsCost steps rate = Inr (credits, amountCents) \<longleftrightarrow>
     credits = steps * rt_credits rate \<and> amountCents = steps * rt_cents rate
     \<and> is_safe_integer credits \<and> is_safe_integer amountCents \<and> 1 \<le> amountCents \<and> amountCents \<le> stripe_max_charge_cents"
  by (auto simp: credit_stepsCost_def Let_def)

end
