(* ===== verification/Payment_Ledger.thy ===== *)
theory Payment_Ledger
  imports Credit_Rates Funding_History
begin

text \<open>
  The payment ledger of \<open>faux/payment-ledger.ts\<close>: the one Stripe customer a business has in each
  environment, and the inbox of verified events. Each method runs alone (a queue per business or event) and
  checks everything before it writes, so a refusal leaves the state as it was. An event's payload, which
  nothing reads back, is left out of its row; its hash is kept.
\<close>

section \<open>State\<close>

record billing_customer =
  bc_customerId :: string
  bc_tenantId :: string
  bc_organizationId :: string
  bc_environment :: environment

datatype inbox_state = EventPending | EventProcessed | EventQuarantined | EventIgnored

record verified_event =
  ve_environment :: environment
  ve_eventId :: string
  ve_customerId :: "string option"
  ve_organizationId :: "string option"
  ve_tenantId :: "string option"
  ve_payloadHash :: string
  ve_eventType :: string
  ve_state :: inbox_state
  ve_receivedAt :: int
  ve_processedAt :: "int option"

record ledger_state =
  lg_billingCustomers :: "billing_customer list"
  lg_verifiedEvents :: "verified_event list"

definition empty_ledger_state :: ledger_state where
  "empty_ledger_state = \<lparr>lg_billingCustomers = [], lg_verifiedEvents = []\<rparr>"

record billing_ref =
  br_tenantId :: string
  br_organizationId :: string
  br_environment :: environment

record verified_payment =
  vp_environment :: environment
  vp_eventId :: string
  vp_customerId :: string
  vp_organizationId :: string
  vp_tenantId :: string
  vp_payloadHash :: string
  vp_eventType :: string

record ignored_event =
  ie_environment :: environment
  ie_eventId :: string
  ie_customerId :: "string option"
  ie_payloadHash :: string
  ie_eventType :: string

section \<open>Operations\<close>

text \<open>\<open>/^cus_[A-Za-z0-9_]{1,128}$/\<close>\<close>

definition customer_pattern :: "string \<Rightarrow> bool" where
  "customer_pattern t \<longleftrightarrow> take 4 t = ''cus_'' \<and> 1 \<le> length (drop 4 t) \<and> length (drop 4 t) \<le> 128
     \<and> list_all (\<lambda>c. is_alnum c \<or> c = CHR ''_'') (drop 4 t)"

definition is_business :: "string \<Rightarrow> string \<Rightarrow> environment \<Rightarrow> billing_customer \<Rightarrow> bool" where
  "is_business tenantId organizationId environment row \<longleftrightarrow>
     bc_tenantId row = tenantId \<and> bc_organizationId row = organizationId \<and> bc_environment row = environment"

definition stored_customer :: "billing_ref \<Rightarrow> ledger_state \<Rightarrow> string option" where
  "stored_customer r l = map_option bc_customerId
     (find (is_business (br_tenantId r) (br_organizationId r) (br_environment r)) (lg_billingCustomers l))"

text \<open>What \<open>make\<close> throws passes through; \<open>CustomerNotMade\<close> is the one its caller knows.\<close>

datatype customer_error = CustomerNotMade | CustomerRefused account_error

definition ensure_customer ::
  "billing_ref \<Rightarrow> customer_error + string \<Rightarrow> ledger_state \<Rightarrow> customer_error + string \<times> ledger_state" where
  "ensure_customer r mk l =
     (case stored_customer r l of
        Some stored \<Rightarrow> Inr (stored, l)
      | None \<Rightarrow>
          rbind mk (\<lambda>customerId.
          if \<not> customer_pattern customerId then Inl (CustomerRefused (AccountError 502 None))
          else if list_ex (\<lambda>row. bc_customerId row = customerId) (lg_billingCustomers l)
            then Inl (CustomerRefused (AccountError 409 (Some ''customer_mismatch'')))
          else Inr (customerId, l\<lparr>lg_billingCustomers := lg_billingCustomers l @ [\<lparr>bc_customerId = customerId,
                  bc_tenantId = br_tenantId r, bc_organizationId = br_organizationId r, bc_environment = br_environment r\<rparr>]\<rparr>)))"

definition find_event :: "string \<Rightarrow> ledger_state \<Rightarrow> verified_event option" where
  "find_event eventId l = find (\<lambda>row. ve_eventId row = eventId) (lg_verifiedEvents l)"

definition payment_customer :: "verified_payment \<Rightarrow> billing_customer" where
  "payment_customer input = \<lparr>bc_customerId = vp_customerId input, bc_tenantId = vp_tenantId input,
     bc_organizationId = vp_organizationId input, bc_environment = vp_environment input\<rparr>"

definition record_verifiedPayment ::
  "int \<Rightarrow> verified_payment \<Rightarrow> ledger_state \<Rightarrow> account_error + bool \<times> ledger_state" where
  "record_verifiedPayment at input l =
     (let mapped = filter (\<lambda>row. bc_customerId row = vp_customerId input
            \<or> is_business (vp_tenantId input) (vp_organizationId input) (vp_environment input) row) (lg_billingCustomers l) in
      if length mapped > 1 \<or> length mapped = 1 \<and> hd mapped \<noteq> payment_customer input
        then Inl (AccountError 409 (Some ''customer_mismatch''))
      else case find_event (vp_eventId input) l of
        Some old \<Rightarrow>
          (if ve_customerId old \<noteq> Some (vp_customerId input) \<or> ve_organizationId old \<noteq> Some (vp_organizationId input)
              \<or> ve_tenantId old \<noteq> Some (vp_tenantId input) \<or> ve_payloadHash old \<noteq> vp_payloadHash input
              \<or> ve_environment old \<noteq> vp_environment input
             then Inl (AccountError 409 (Some ''event_conflict'')) else Inr (False, l))
      | None \<Rightarrow>
          Inr (True, l\<lparr>
            lg_billingCustomers := (if mapped = [] then lg_billingCustomers l @ [payment_customer input] else lg_billingCustomers l),
            lg_verifiedEvents := lg_verifiedEvents l @ [\<lparr>ve_environment = vp_environment input, ve_eventId = vp_eventId input,
              ve_customerId = Some (vp_customerId input), ve_organizationId = Some (vp_organizationId input),
              ve_tenantId = Some (vp_tenantId input), ve_payloadHash = vp_payloadHash input, ve_eventType = vp_eventType input,
              ve_state = EventPending, ve_receivedAt = at, ve_processedAt = None\<rparr>]\<rparr>))"

definition event_owner :: "ignored_event \<Rightarrow> ledger_state \<Rightarrow> billing_customer option" where
  "event_owner input l = (case ie_customerId input of None \<Rightarrow> None
     | Some customerId \<Rightarrow> find (\<lambda>row. bc_customerId row = customerId \<and> bc_environment row = ie_environment input)
         (lg_billingCustomers l))"

definition record_ignoredEvent ::
  "int \<Rightarrow> ignored_event \<Rightarrow> ledger_state \<Rightarrow> account_error + bool \<times> ledger_state" where
  "record_ignoredEvent at input l =
     (case find_event (ie_eventId input) l of
        Some old \<Rightarrow>
          (if ve_payloadHash old \<noteq> ie_payloadHash input \<or> ve_environment old \<noteq> ie_environment input
             then Inl (AccountError 409 (Some ''event_conflict'')) else Inr (False, l))
      | None \<Rightarrow>
          (let owner = event_owner input l in
           Inr (True, l\<lparr>lg_verifiedEvents := lg_verifiedEvents l @ [\<lparr>ve_environment = ie_environment input,
             ve_eventId = ie_eventId input, ve_customerId = map_option bc_customerId owner,
             ve_organizationId = map_option bc_organizationId owner, ve_tenantId = map_option bc_tenantId owner,
             ve_payloadHash = ie_payloadHash input, ve_eventType = ie_eventType input, ve_state = EventIgnored,
             ve_receivedAt = at, ve_processedAt = None\<rparr>]\<rparr>)))"

definition mark_event :: "int \<Rightarrow> environment \<Rightarrow> string \<Rightarrow> inbox_state \<Rightarrow> ledger_state \<Rightarrow> bool \<times> ledger_state" where
  "mark_event at environment eventId state l =
     (let mine = (\<lambda>row. ve_eventId row = eventId \<and> ve_environment row = environment) in
      case find mine (lg_verifiedEvents l) of
        None \<Rightarrow> (False, l)
      | Some row \<Rightarrow>
          (if ve_state row \<noteq> EventPending then (False, l)
           else (True, l\<lparr>lg_verifiedEvents := upsert mine (row\<lparr>ve_state := state,
             ve_processedAt := (if state = EventProcessed then Some at else None)\<rparr>) (lg_verifiedEvents l)\<rparr>)))"

section \<open>The ledger's rules\<close>

text \<open>A row of the inbox that names a business names it by that business's own stored customer.\<close>

definition event_attributed :: "billing_customer list \<Rightarrow> verified_event \<Rightarrow> bool" where
  "event_attributed customers e \<longleftrightarrow>
     (case ve_customerId e of
        None \<Rightarrow> ve_organizationId e = None \<and> ve_tenantId e = None \<and> ve_state e = EventIgnored
      | Some c \<Rightarrow> \<exists>row \<in> set customers. bc_customerId row = c \<and> ve_organizationId e = Some (bc_organizationId row)
          \<and> ve_tenantId e = Some (bc_tenantId row) \<and> bc_environment row = ve_environment e)
     \<and> (ve_processedAt e \<noteq> None \<longleftrightarrow> ve_state e = EventProcessed)"

definition business_of :: "billing_customer \<Rightarrow> string \<times> string \<times> environment" where
  "business_of row = (bc_tenantId row, bc_organizationId row, bc_environment row)"

definition ledger_rules :: "ledger_state \<Rightarrow> bool" where
  "ledger_rules l \<longleftrightarrow> distinct (map bc_customerId (lg_billingCustomers l))
     \<and> distinct (map business_of (lg_billingCustomers l))
     \<and> distinct (map ve_eventId (lg_verifiedEvents l))
     \<and> (\<forall>e \<in> set (lg_verifiedEvents l). event_attributed (lg_billingCustomers l) e)"

lemma ledger_rules_empty: "ledger_rules empty_ledger_state"
  by (simp add: ledger_rules_def empty_ledger_state_def)

lemma payment_customer_simps [simp]:
  "bc_customerId (payment_customer input) = vp_customerId input"
  "business_of (payment_customer input) = (vp_tenantId input, vp_organizationId input, vp_environment input)"
  by (simp_all add: payment_customer_def business_of_def)

lemma is_business_iff: "is_business t o' env row \<longleftrightarrow> business_of row = (t, o', env)"
  by (simp add: is_business_def business_of_def)

lemma event_attributed_more:
  "event_attributed customers e \<Longrightarrow> event_attributed (customers @ others) e"
  by (auto simp: event_attributed_def split: option.splits)

lemma fresh_event: "find_event i l = None \<Longrightarrow> i \<notin> ve_eventId ` set (lg_verifiedEvents l)"
  by (auto simp: find_event_def find_None_iff)

lemma ensure_customer_Inr:
  assumes "ensure_customer r mk l = Inr (c, l')"
  obtains (stored) "l' = l" "stored_customer r l = Some c"
  | (made) "stored_customer r l = None" "mk = Inr c" "customer_pattern c" "c \<notin> bc_customerId ` set (lg_billingCustomers l)"
      "l' = l\<lparr>lg_billingCustomers := lg_billingCustomers l @ [\<lparr>bc_customerId = c,
          bc_tenantId = br_tenantId r, bc_organizationId = br_organizationId r, bc_environment = br_environment r\<rparr>]\<rparr>"
  using assms by (auto simp: ensure_customer_def rbind_Inr_iff list_ex_iff image_iff split: option.splits if_splits)

lemma ensure_customer_rules:
  assumes "ensure_customer r mk l = Inr (c, l')" and "ledger_rules l"
  shows "ledger_rules l'"
  using assms(1)
proof (cases rule: ensure_customer_Inr)
  case made
  have "(br_tenantId r, br_organizationId r, br_environment r) \<notin> business_of ` set (lg_billingCustomers l)"
    using made(1) by (auto simp: stored_customer_def find_None_iff is_business_iff)
  with made assms(2) show ?thesis
    by (auto simp: ledger_rules_def business_of_def intro: event_attributed_more)
qed (use assms(2) in simp)

lemma record_verifiedPayment_Inr:
  assumes "record_verifiedPayment at input l = Inr (new, l')"
  obtains (again) old where "new = False" "l' = l" "find_event (vp_eventId input) l = Some old"
      "ve_organizationId old = Some (vp_organizationId input)" "ve_tenantId old = Some (vp_tenantId input)"
      "ve_payloadHash old = vp_payloadHash input" "ve_environment old = vp_environment input"
  | (known) e where "new" "find_event (vp_eventId input) l = None" "payment_customer input \<in> set (lg_billingCustomers l)"
      "l' = l\<lparr>lg_verifiedEvents := lg_verifiedEvents l @ [e]\<rparr>"
      "e = \<lparr>ve_environment = vp_environment input, ve_eventId = vp_eventId input,
              ve_customerId = Some (vp_customerId input), ve_organizationId = Some (vp_organizationId input),
              ve_tenantId = Some (vp_tenantId input), ve_payloadHash = vp_payloadHash input, ve_eventType = vp_eventType input,
              ve_state = EventPending, ve_receivedAt = at, ve_processedAt = None\<rparr>"
  | (first) e where "new" "find_event (vp_eventId input) l = None"
      "vp_customerId input \<notin> bc_customerId ` set (lg_billingCustomers l)"
      "(vp_tenantId input, vp_organizationId input, vp_environment input) \<notin> business_of ` set (lg_billingCustomers l)"
      "l' = l\<lparr>lg_billingCustomers := lg_billingCustomers l @ [payment_customer input],
              lg_verifiedEvents := lg_verifiedEvents l @ [e]\<rparr>"
      "e = \<lparr>ve_environment = vp_environment input, ve_eventId = vp_eventId input,
              ve_customerId = Some (vp_customerId input), ve_organizationId = Some (vp_organizationId input),
              ve_tenantId = Some (vp_tenantId input), ve_payloadHash = vp_payloadHash input, ve_eventType = vp_eventType input,
              ve_state = EventPending, ve_receivedAt = at, ve_processedAt = None\<rparr>"
proof -
  let ?mapped = "filter (\<lambda>row. bc_customerId row = vp_customerId input
      \<or> is_business (vp_tenantId input) (vp_organizationId input) (vp_environment input) row) (lg_billingCustomers l)"
  show thesis
  proof (cases "find_event (vp_eventId input) l")
    case (Some old)
    with assms show thesis by (intro again [of old]) (auto simp: record_verifiedPayment_def Let_def split: if_splits)
  next
    case None
    show thesis
    proof (cases "?mapped = []")
      case True
      with assms None show thesis
        by (intro first [OF _ _ _ _ _ refl])
          (auto simp: record_verifiedPayment_def Let_def filter_empty_conv is_business_iff image_iff split: if_splits)
    next
      case False
      with assms None have "payment_customer input = hd ?mapped" "l' = l\<lparr>lg_verifiedEvents := lg_verifiedEvents l @
          [\<lparr>ve_environment = vp_environment input, ve_eventId = vp_eventId input,
              ve_customerId = Some (vp_customerId input), ve_organizationId = Some (vp_organizationId input),
              ve_tenantId = Some (vp_tenantId input), ve_payloadHash = vp_payloadHash input, ve_eventType = vp_eventType input,
              ve_state = EventPending, ve_receivedAt = at, ve_processedAt = None\<rparr>]\<rparr>" "new"
        by (auto simp: record_verifiedPayment_def Let_def not_less le_Suc_eq split: if_splits)
      moreover from False have "hd ?mapped \<in> set ?mapped" by (rule hd_in_set)
      ultimately show thesis using None by (intro known [OF _ _ _ _ refl]) auto
    qed
  qed
qed

lemma record_verifiedPayment_rules:
  assumes "record_verifiedPayment at input l = Inr (new, l')" and "ledger_rules l"
  shows "ledger_rules l'"
  using assms(1)
proof (cases rule: record_verifiedPayment_Inr)
  case (known e)
  with fresh_event [OF known(2)] assms(2) show ?thesis
    by (auto simp: ledger_rules_def event_attributed_def payment_customer_def intro!: bexI [OF _ known(3)])
next
  case (first e)
  let ?customers = "lg_billingCustomers l @ [payment_customer input]"
  have "event_attributed ?customers e" by (simp add: first(6) event_attributed_def payment_customer_def)
  moreover have "event_attributed ?customers e'" if "e' \<in> set (lg_verifiedEvents l)" for e'
    using that assms(2) by (simp add: ledger_rules_def event_attributed_more)
  moreover have "ve_eventId e = vp_eventId input" by (simp add: first(6))
  ultimately show ?thesis using first(3-5) fresh_event [OF first(2)] assms(2) by (auto simp: ledger_rules_def)
qed (use assms(2) in simp)

lemma record_ignoredEvent_Inr:
  assumes "record_ignoredEvent at input l = Inr (new, l')"
  obtains (again) "new = False" "l' = l" "find_event (ie_eventId input) l \<noteq> None"
  | (fresh) e where "new" "find_event (ie_eventId input) l = None" "l' = l\<lparr>lg_verifiedEvents := lg_verifiedEvents l @ [e]\<rparr>"
      "ve_eventId e = ie_eventId input" "event_attributed (lg_billingCustomers l) e" "ve_state e = EventIgnored"
proof (cases "find_event (ie_eventId input) l")
  case None
  let ?e = "\<lparr>ve_environment = ie_environment input, ve_eventId = ie_eventId input,
     ve_customerId = map_option bc_customerId (event_owner input l),
     ve_organizationId = map_option bc_organizationId (event_owner input l),
     ve_tenantId = map_option bc_tenantId (event_owner input l),
     ve_payloadHash = ie_payloadHash input, ve_eventType = ie_eventType input, ve_state = EventIgnored,
     ve_receivedAt = at, ve_processedAt = None\<rparr>"
  have "event_attributed (lg_billingCustomers l) ?e"
    by (auto simp: event_attributed_def event_owner_def split: option.splits dest: find_Some_in_set)
  with None assms show thesis by (intro fresh [of ?e]) (auto simp: record_ignoredEvent_def Let_def)
qed (use assms again in \<open>auto simp: record_ignoredEvent_def Let_def split: if_splits\<close>)

lemma record_ignoredEvent_rules:
  assumes "record_ignoredEvent at input l = Inr (new, l')" and "ledger_rules l"
  shows "ledger_rules l'"
  using assms(1)
proof (cases rule: record_ignoredEvent_Inr)
  case (fresh e)
  with fresh_event [OF fresh(2)] assms(2) show ?thesis by (auto simp: ledger_rules_def)
qed (use assms(2) in simp)

lemma mark_event_cases:
  obtains (left) "mark_event at env i state l = (False, l)"
  | (moved) row where "find (\<lambda>row. ve_eventId row = i \<and> ve_environment row = env) (lg_verifiedEvents l) = Some row"
      "ve_state row = EventPending"
      "mark_event at env i state l = (True, l\<lparr>lg_verifiedEvents := upsert (\<lambda>row. ve_eventId row = i \<and> ve_environment row = env)
         (row\<lparr>ve_state := state, ve_processedAt := (if state = EventProcessed then Some at else None)\<rparr>) (lg_verifiedEvents l)\<rparr>)"
proof (cases "find (\<lambda>row. ve_eventId row = i \<and> ve_environment row = env) (lg_verifiedEvents l)")
  case (Some row)
  with left moved [of row] show thesis by (cases "ve_state row = EventPending") (simp_all add: mark_event_def)
qed (use left in \<open>simp add: mark_event_def\<close>)

lemma mark_event_rules:
  assumes "ledger_rules l" and "state \<noteq> EventIgnored" and "state \<noteq> EventPending"
  shows "ledger_rules (snd (mark_event at env i state l))"
proof (cases rule: mark_event_cases [of at env i state l])
  case (moved row)
  let ?row = "row\<lparr>ve_state := state, ve_processedAt := (if state = EventProcessed then Some at else None)\<rparr>"
  from moved(1) have row: "row \<in> set (lg_verifiedEvents l)" "ve_eventId row = i" by (auto dest: find_Some_in_set)
  have keys: "map ve_eventId (upsert (\<lambda>row. ve_eventId row = i \<and> ve_environment row = env) ?row (lg_verifiedEvents l))
      = map ve_eventId (lg_verifiedEvents l)"
    by (rule map_upsert_same_key [OF moved(1)]) simp
  have "event_attributed (lg_billingCustomers l) row" using assms(1) row(1) by (simp add: ledger_rules_def)
  then have "event_attributed (lg_billingCustomers l) ?row"
    using moved(2) assms(2,3) by (auto simp: event_attributed_def split: option.splits)
  with assms(1) moved(3) keys show ?thesis by (auto simp: ledger_rules_def dest: set_upsertD)
qed (use assms in simp)

section \<open>The inbox only moves forward\<close>

definition inbox_moves :: "inbox_state \<Rightarrow> inbox_state \<Rightarrow> bool" where
  "inbox_moves st st' \<longleftrightarrow> st = EventPending \<and> (st' = EventProcessed \<or> st' = EventQuarantined)"

fun inbox_remaining :: "inbox_state \<Rightarrow> nat" where
  "inbox_remaining EventPending = 1"
| "inbox_remaining _ = 0"

interpretation inbox: forward_moves inbox_moves inbox_remaining
  by unfold_locales (auto simp: inbox_moves_def)

definition event_follows :: "verified_event \<Rightarrow> verified_event \<Rightarrow> bool" where
  "event_follows e e' \<longleftrightarrow> e' = e \<or> ve_state e = EventPending \<and> inbox_moves (ve_state e) (ve_state e')
     \<and> e' = e\<lparr>ve_state := ve_state e', ve_processedAt := ve_processedAt e'\<rparr>"

definition ledger_follows :: "ledger_state \<Rightarrow> ledger_state \<Rightarrow> bool" where
  "ledger_follows l l' \<longleftrightarrow> prefix (lg_billingCustomers l) (lg_billingCustomers l')
     \<and> (\<forall>i. option_follows event_follows (find_event i l) (find_event i l'))"

lemma event_follows_trans: "event_follows e f \<Longrightarrow> event_follows f g \<Longrightarrow> event_follows e g"
  by (auto simp: event_follows_def inbox_moves_def)

lemma ledger_follows_refl: "ledger_follows l l"
  by (simp add: ledger_follows_def option_follows_refl event_follows_def)

lemma ledger_follows_trans: "ledger_follows l m \<Longrightarrow> ledger_follows m n \<Longrightarrow> ledger_follows l n"
  unfolding ledger_follows_def by (meson prefix_order.trans option_follows_trans event_follows_trans)

lemma option_follows_append:
  "(\<And>e. R e e) \<Longrightarrow> option_follows R (find P xs) (find P (xs @ ys))"
  by (auto simp: option_follows_def find_append split: option.splits)

lemma ensure_customer_follows: "ensure_customer r mk l = Inr (c, l') \<Longrightarrow> ledger_follows l l'"
  by (erule ensure_customer_Inr)
    (auto simp: ledger_follows_def find_event_def event_follows_def intro!: option_follows_refl)

lemma record_verifiedPayment_follows: "record_verifiedPayment at input l = Inr (new, l') \<Longrightarrow> ledger_follows l l'"
  by (erule record_verifiedPayment_Inr)
    (auto simp: ledger_follows_def find_event_def event_follows_def intro!: option_follows_refl option_follows_append)

lemma record_ignoredEvent_follows: "record_ignoredEvent at input l = Inr (new, l') \<Longrightarrow> ledger_follows l l'"
  by (erule record_ignoredEvent_Inr)
    (auto simp: ledger_follows_def find_event_def event_follows_def intro!: option_follows_refl option_follows_append)

lemma mark_event_follows:
  assumes "state = EventProcessed \<or> state = EventQuarantined" and "ledger_rules l"
  shows "ledger_follows l (snd (mark_event at env i state l))"
proof (cases rule: mark_event_cases [of at env i state l])
  case (moved row)
  let ?mine = "\<lambda>row. ve_eventId row = i \<and> ve_environment row = env"
  let ?row = "row\<lparr>ve_state := state, ve_processedAt := (if state = EventProcessed then Some at else None)\<rparr>"
  from moved(1) have row: "row \<in> set (lg_verifiedEvents l)" "ve_eventId row = i" by (auto dest: find_Some_in_set)
  have follows: "event_follows row ?row" using assms(1) moved(2) by (auto simp: event_follows_def inbox_moves_def)
  have distinct: "distinct (map ve_eventId (lg_verifiedEvents l))" using assms(2) by (simp add: ledger_rules_def)
  have "option_follows event_follows (find (\<lambda>e. ve_eventId e = j) (lg_verifiedEvents l))
      (find (\<lambda>e. ve_eventId e = j) (upsert ?mine ?row (lg_verifiedEvents l)))" for j
  proof (cases "j = i")
    case True
    have "map ve_eventId (upsert ?mine ?row (lg_verifiedEvents l)) = map ve_eventId (lg_verifiedEvents l)"
      by (rule map_upsert_same_key [OF moved(1)]) simp
    with distinct have "find (\<lambda>e. ve_eventId e = ve_eventId ?row) (upsert ?mine ?row (lg_verifiedEvents l)) = Some ?row"
      by (intro find_by_key) simp_all
    with find_by_key [OF distinct row(1)] row(2) True follows show ?thesis by (simp add: option_follows_def)
  next
    case False
    with row(2) have "find (\<lambda>e. ve_eventId e = j) (upsert ?mine ?row (lg_verifiedEvents l))
        = find (\<lambda>e. ve_eventId e = j) (lg_verifiedEvents l)"
      by (intro find_upsert_other) auto
    then show ?thesis by (simp add: option_follows_refl event_follows_def)
  qed
  with moved(3) show ?thesis by (simp add: ledger_follows_def find_event_def)
qed (simp add: ledger_follows_refl)

end
