(* ===== verification/Stripe_Signature.thy ===== *)
theory Stripe_Signature
  imports Credit_Rates
begin

unbundle bit_operations_syntax

text \<open>
  The check of a Stripe-Signature header (\<open>verifyStripeSignature\<close> in \<open>credit-purchases.ts\<close>). WebCrypto's
  HMAC-SHA-256 is the parameter \<open>hmac\<close>: the code's bytes under a key's bytes.
\<close>

section \<open>Bytes\<close>

definition hex_digit :: "char \<Rightarrow> bool" where
  "hex_digit c \<longleftrightarrow> is_digit c \<or> (of_char c :: nat) \<in> {97..102}"

definition hex_value :: "char \<Rightarrow> nat" where
  "hex_value c = (if is_digit c then of_char c - 48 else of_char c - 87)"

text \<open>\<open>hexBytes\<close>, on text of the digits 0 to 9 and a to f.\<close>

fun hex_bytes :: "string \<Rightarrow> string" where
  "hex_bytes (a # b # rest) = char_of (16 * hex_value a + hex_value b) # hex_bytes rest"
| "hex_bytes _ = []"

text \<open>\<open>sameBytes\<close>: no early exit, the differences of all bytes gathered by \<open>or\<close>.\<close>

definition same_bytes :: "string \<Rightarrow> string \<Rightarrow> bool" where
  "same_bytes left right \<longleftrightarrow> length left = length right
     \<and> foldl (\<lambda>difference (a, b). difference OR ((of_char a :: nat) XOR of_char b)) 0 (zip left right) = 0"

section \<open>The header\<close>

text \<open>The loop over the header's parts: its one timestamp and its v1 signatures, or nothing when it has two timestamps.\<close>

primrec signature_parts :: "string list \<Rightarrow> string option \<Rightarrow> string list \<Rightarrow> (string option \<times> string list) option" where
  "signature_parts [] timestamp candidates = Some (timestamp, candidates)"
| "signature_parts (part # parts) timestamp candidates =
     (let name = takeWhile (\<lambda>c. c \<noteq> CHR ''='') part in
      if name = '''' \<or> name = part then signature_parts parts timestamp candidates
      else
        (let key = js_trim name; value = js_trim (drop (length name + 1) part) in
         if key = ''t'' then (if timestamp \<noteq> None then None else signature_parts parts (Some value) candidates)
         else if key = ''v1'' then signature_parts parts timestamp (candidates @ [value])
         else signature_parts parts timestamp candidates))"

text \<open>\<open>/^[0-9]{1,12}$/\<close> and \<open>/^[0-9a-f]{64}$/\<close>\<close>

definition timestamp_text :: "string \<Rightarrow> bool" where
  "timestamp_text t \<longleftrightarrow> 1 \<le> length t \<and> length t \<le> 12 \<and> list_all is_digit t"

definition signature_text :: "string \<Rightarrow> bool" where
  "signature_text t \<longleftrightarrow> length t = 64 \<and> list_all hex_digit t"

definition stripe_signature_tolerance_seconds :: int where "stripe_signature_tolerance_seconds = 300"

definition verify_stripeSignature ::
  "(string \<Rightarrow> string \<Rightarrow> string) \<Rightarrow> string \<Rightarrow> string option \<Rightarrow> string \<Rightarrow> int \<Rightarrow> bool" where
  "verify_stripeSignature hmac rawBody header secret now \<longleftrightarrow>
     (case header of None \<Rightarrow> False | Some h \<Rightarrow>
      if h = '''' \<or> secret = '''' then False
      else case signature_parts (split_on (CHR '','') h) None [] of None \<Rightarrow> False
      | Some (timestamp, candidates) \<Rightarrow>
        (case timestamp of None \<Rightarrow> False | Some t \<Rightarrow>
         if \<not> timestamp_text t then False
         else
           (let signatures = filter signature_text candidates in
            if signatures = [] then False
            else
              (let expected = hmac secret (t @ ''.'' @ rawBody);
                   matched = list_ex (\<lambda>signature. same_bytes expected (hex_bytes signature)) signatures in
               matched \<and> \<bar>now div 1000 - read_nat t\<bar> \<le> stripe_signature_tolerance_seconds))))"

section \<open>What it accepts\<close>

lemma xor_eq_0: "(a :: nat) XOR b = 0 \<longleftrightarrow> a = b"
proof
  assume "a XOR b = 0"
  then have "(a XOR b) XOR b = 0 XOR b" by simp
  then show "a = b" by (simp add: xor.assoc)
qed simp

lemma gathered_differences:
  "foldl (\<lambda>d (a, b). d OR ((of_char a :: nat) XOR of_char b)) d pairs = 0 \<longleftrightarrow> d = 0 \<and> (\<forall>(a, b) \<in> set pairs. a = b)"
  by (induction pairs arbitrary: d) (auto simp: or_eq_0_iff xor_eq_0)

text \<open>The comparison without an early exit is equality.\<close>

lemma same_bytes_iff: "same_bytes left right \<longleftrightarrow> left = right"
proof (cases "length left = length right")
  case True
  then have "same_bytes left right \<longleftrightarrow> (\<forall>(a, b) \<in> set (zip left right). a = b)"
    by (simp add: same_bytes_def gathered_differences)
  also from True have "\<dots> \<longleftrightarrow> left = right" by (induction left right rule: list_induct2) auto
  finally show ?thesis .
qed (auto simp: same_bytes_def)

lemma verify_stripeSignature_iff:
  "verify_stripeSignature hmac raw header secret now \<longleftrightarrow>
     (\<exists>h t candidates s. header = Some h \<and> h \<noteq> '''' \<and> secret \<noteq> ''''
        \<and> signature_parts (split_on (CHR '','') h) None [] = Some (Some t, candidates) \<and> timestamp_text t
        \<and> s \<in> set candidates \<and> signature_text s \<and> hmac secret (t @ ''.'' @ raw) = hex_bytes s
        \<and> \<bar>now div 1000 - read_nat t\<bar> \<le> 300)"
  (is "?verified \<longleftrightarrow> ?found")
proof
  assume verified: ?verified
  then obtain h t candidates where h: "header = Some h" "h \<noteq> ''''" "secret \<noteq> ''''" "timestamp_text t"
    and parts: "signature_parts (split_on (CHR '','') h) None [] = Some (Some t, candidates)"
    by (cases header; cases "signature_parts (split_on (CHR '','') (the header)) None []")
      (auto simp: verify_stripeSignature_def split: if_splits option.splits)
  from verified h parts obtain s where "s \<in> set candidates" "signature_text s" "hmac secret (t @ ''.'' @ raw) = hex_bytes s"
      "\<bar>now div 1000 - read_nat t\<bar> \<le> 300"
    by (simp add: verify_stripeSignature_def Let_def same_bytes_iff list_ex_iff stripe_signature_tolerance_seconds_def
        split: if_splits) blast
  with h parts show ?found by blast
next
  assume ?found
  then obtain h t candidates s where h: "header = Some h" "h \<noteq> ''''" "secret \<noteq> ''''" "timestamp_text t"
    and parts: "signature_parts (split_on (CHR '','') h) None [] = Some (Some t, candidates)"
    and s: "s \<in> set candidates" "signature_text s" "hmac secret (t @ ''.'' @ raw) = hex_bytes s"
      "\<bar>now div 1000 - read_nat t\<bar> \<le> 300" by blast
  from s(1,2) have some: "filter signature_text candidates \<noteq> []" by (simp add: filter_empty_conv) blast
  from s have match: "list_ex (\<lambda>signature. same_bytes (hmac secret (t @ ''.'' @ raw)) (hex_bytes signature)) (filter signature_text candidates)"
    by (simp add: list_ex_iff same_bytes_iff) blast
  from h parts some match s(4) show ?verified
    by (simp add: verify_stripeSignature_def Let_def stripe_signature_tolerance_seconds_def)
qed

text \<open>Two signatures that match say the same bytes: hexadecimal text has one meaning, and one text.\<close>

lemma hex_digit_char:
  assumes "hex_digit c"
  shows "hex_value c < 16" and "of_char c = (if hex_value c < 10 then 48 + hex_value c else 87 + hex_value c)"
  using assms by (auto simp: hex_digit_def hex_value_def is_digit_def)

lemma hex_value_inject: "hex_digit c \<Longrightarrow> hex_digit d \<Longrightarrow> hex_value c = hex_value d \<Longrightarrow> c = d"
  by (metis hex_digit_char(2) char_of_char)

lemma hex_bytes_inject:
  assumes "length s = length t" and "even (length s)" and "list_all hex_digit s" and "list_all hex_digit t"
    and "hex_bytes s = hex_bytes t"
  shows "s = t"
  using assms
proof (induction s arbitrary: t rule: hex_bytes.induct)
  case (1 a b rest)
  then obtain c d others where t: "t = c # d # others" by (cases t; cases "tl t") auto
  let ?x = "16 * hex_value a + hex_value b" and ?y = "16 * hex_value c + hex_value d"
  have hex: "hex_digit a" "hex_digit b" "hex_digit c" "hex_digit d" using "1.prems"(3,4) by (simp_all add: t)
  note digits = hex [THEN hex_digit_char(1)]
  have "(char_of ?x :: char) = char_of ?y" using "1.prems"(5) by (simp add: t)
  then have "?x mod 256 = ?y mod 256" by (metis of_char_of)
  with digits have "?x = ?y" by simp
  with digits have a: "hex_value a = hex_value c" by linarith
  with \<open>?x = ?y\<close> have "hex_value b = hex_value d" by linarith
  with a "1.prems" "1.IH" [of others] hex show ?case by (auto simp: t intro: hex_value_inject)
qed (auto simp: length_Suc_conv)

lemma signature_is_unique:
  "signature_text s \<Longrightarrow> signature_text t \<Longrightarrow> hex_bytes s = hex_bytes t \<Longrightarrow> s = t"
  by (rule hex_bytes_inject) (simp_all add: signature_text_def)

end
