(* ===== verification/Credit_Grants.thy ===== *)
theory Credit_Grants
  imports Credit_Rates
begin

text \<open>
  What a payer holds: the grants of \<open>commercial.ts\<close> as far as access is read from them, the plan that picks a payer's
  rate (\<open>GrantPlanLookup\<close>), and a person's own Individual account with the way it is made the first time. A time is its
  epoch millisecond.
\<close>

section \<open>Grants\<close>

datatype access_state = AccessNone | AccessActive | AccessExpired | AccessRevoked

record feature_grant =
  fg_organizationId :: string
  fg_personId :: string
  fg_tenantId :: string
  fg_planId :: "string option"
  fg_features :: "string list"
  fg_validFrom :: int
  fg_validUntil :: int
  fg_revoked :: bool
  fg_issuedAt :: int
  fg_revokedAt :: "int option"

definition grant_state :: "feature_grant \<Rightarrow> int \<Rightarrow> access_state" where
  "grant_state grant at =
     (if fg_revoked grant then AccessRevoked
      else if fg_validUntil grant \<le> at then AccessExpired
      else if fg_validFrom grant > at then AccessNone
      else AccessActive)"

definition agent_feature :: string where "agent_feature = ''nectovia-agent''"
definition expert_feature :: string where "expert_feature = ''expert''"
definition individual_plan_id :: string where "individual_plan_id = ''individual''"
definition managed_plan_ids :: "string list" where "managed_plan_ids = [''managed-small'', ''managed-standard'', ''managed-plus'']"

definition is_managedPlan :: "string option \<Rightarrow> bool" where
  "is_managedPlan i \<longleftrightarrow> (case i of None \<Rightarrow> False | Some plan \<Rightarrow> plan \<in> set managed_plan_ids)"

definition managed_grantFeatures :: "feature_grant \<Rightarrow> string list" where
  "managed_grantFeatures grant =
     (let features = filter (\<lambda>feature. feature \<noteq> expert_feature) (fg_features grant);
          managed = is_managedPlan (fg_planId grant) \<and> agent_feature \<in> set features \<and> ''managed-inference'' \<in> set features;
          completeLegacy = list_all (\<lambda>feature. feature \<in> set features) [''maintained-profiles'', ''owner-rules'', ''phone-relay'']
      in if managed \<and> (expert_feature \<in> set (fg_features grant) \<or> completeLegacy) then features @ [expert_feature] else features)"

section \<open>The plan a payer holds\<close>

definition has_activePlan :: "feature_grant list \<Rightarrow> string \<Rightarrow> string \<Rightarrow> int \<Rightarrow> bool" where
  "has_activePlan rows tenantId organizationId at \<longleftrightarrow>
     list_ex (\<lambda>grant. fg_tenantId grant = tenantId \<and> grant_state grant at = AccessActive
         \<and> (''managed-inference'' \<in> set (fg_features grant) \<or> agent_feature \<in> set (fg_features grant)))
       (filter (\<lambda>row. fg_organizationId row = organizationId) rows)"

definition has_activePersonPlan :: "feature_grant list \<Rightarrow> string \<Rightarrow> int \<Rightarrow> bool" where
  "has_activePersonPlan rows personId at \<longleftrightarrow>
     list_ex (\<lambda>grant. fg_personId grant = personId \<and> fg_tenantId grant = personId
         \<and> fg_planId grant = Some individual_plan_id \<and> grant_state grant at = AccessActive)
       (filter (\<lambda>row. fg_personId row = personId) rows)"

section \<open>Individual accounts\<close>

record person =
  pn_id :: string
  pn_name :: string

record individual_account =
  ia_id :: string
  ia_tenantId :: string
  ia_personId :: string
  ia_name :: string
  ia_active :: bool
  ia_createdAt :: int

definition individual_for :: "string \<Rightarrow> individual_account list \<Rightarrow> individual_account option" where
  "individual_for personId rows = find (\<lambda>row. ia_personId row = personId) rows"

definition save_individual :: "individual_account \<Rightarrow> individual_account list \<Rightarrow> individual_account list res" where
  "save_individual row rows =
     (if list_ex (\<lambda>r. ia_id r = ia_id row \<or> ia_personId r = ia_personId row) rows then Inl PlainError else Inr (rows @ [row]))"

definition ensure_individualAccount ::
  "int \<Rightarrow> string \<Rightarrow> person \<Rightarrow> individual_account list \<Rightarrow> thrown + individual_account \<times> individual_account list" where
  "ensure_individualAccount now uuid p rows =
     (case individual_for (pn_id p) rows of
        Some current \<Rightarrow> Inr (current, rows)
      | None \<Rightarrow>
          (let row = \<lparr>ia_id = ''individual_'' @ uuid, ia_tenantId = pn_id p, ia_personId = pn_id p, ia_name = pn_name p,
                 ia_active = True, ia_createdAt = now\<rparr>
           in rmap (\<lambda>rows. (row, rows)) (save_individual row rows)))"

section \<open>A person has one account, their own\<close>

definition individuals_ok :: "individual_account list \<Rightarrow> bool" where
  "individuals_ok rows \<longleftrightarrow> distinct (map ia_id rows) \<and> distinct (map ia_personId rows) \<and> (\<forall>row \<in> set rows. ia_tenantId row = ia_personId row)"

lemma save_individual_Inr [result_simps]:
  "save_individual row rows = Inr rows' \<longleftrightarrow>
     rows' = rows @ [row] \<and> ia_id row \<notin> ia_id ` set rows \<and> ia_personId row \<notin> ia_personId ` set rows"
  by (auto simp: save_individual_def list_ex_iff image_iff) metis+

lemma ensure_individualAccount_Inr:
  assumes "ensure_individualAccount now uuid p rows = Inr (row, rows')" and "individuals_ok rows"
  shows "individuals_ok rows'" and "ia_personId row = pn_id p" and "ia_tenantId row = pn_id p"
    and "individual_for (pn_id p) rows' = Some row"
proof -
  show "individuals_ok rows'" "ia_personId row = pn_id p" "ia_tenantId row = pn_id p"
    using assms
    by (auto simp: ensure_individualAccount_def result_simps individuals_ok_def Let_def individual_for_def split: option.splits
        dest: find_Some_in_set)
  show "individual_for (pn_id p) rows' = Some row"
    using assms(1)
    by (auto simp: ensure_individualAccount_def result_simps Let_def individual_for_def find_append split: option.splits)
qed

text \<open>A second asking answers with the account made by the first.\<close>

lemma ensure_individualAccount_again:
  "ensure_individualAccount now uuid p rows = Inr (row, rows') \<Longrightarrow> individuals_ok rows
     \<Longrightarrow> ensure_individualAccount later uuid' p rows' = Inr (row, rows')"
  by (drule (1) ensure_individualAccount_Inr(4)) (simp add: ensure_individualAccount_def)

text \<open>A grant reads active exactly while it is not revoked and its time runs.\<close>

lemma grant_state_active [simp]:
  "grant_state grant at = AccessActive \<longleftrightarrow> \<not> fg_revoked grant \<and> fg_validFrom grant \<le> at \<and> at < fg_validUntil grant"
  by (auto simp: grant_state_def)

end
