(* ===== verification/Stripe_Webhook.thy ===== *)
theory Stripe_Webhook
  imports Funding_Service Payment_Ledger Stripe_Signature Credit_Grants
begin

text \<open>
  The receiver of Stripe's events: \<open>StripeWebhookService\<close> of \<open>credit-purchases.ts\<close> and the router of
  \<open>stripe-events.ts\<close>. The state is the funding tables, the payment ledger and people's
  own accounts. What the platform computes is a
  parameter: \<open>hmac\<close>, \<open>sha256\<close> (the digest in hexadecimal) and \<open>parse\<close> (UTF-8 and JSON, nothing when the bytes are
  not one JSON text). The steps of one delivery run with nothing between them, and read the clock once.
\<close>

section \<open>State and events\<close>

record billing_state =
  bl_funding :: fstate
  bl_ledger :: ledger_state
  bl_accounts :: "individual_account list"

definition empty_billing_state :: billing_state where
  "empty_billing_state = \<lparr>bl_funding = empty_funding_state, bl_ledger = empty_ledger_state, bl_accounts = []\<rparr>"

record stripe_event =
  ev_id :: string
  ev_type :: string
  ev_livemode :: bool
  ev_object :: jval

text \<open>\<open>/^evt_[A-Za-z0-9_]{1,128}$/\<close>\<close>

definition event_pattern :: "string \<Rightarrow> bool" where
  "event_pattern t \<longleftrightarrow> take 4 t = ''evt_'' \<and> 1 \<le> length (drop 4 t) \<and> length (drop 4 t) \<le> 128
     \<and> list_all (\<lambda>c. is_alnum c \<or> c = CHR ''_'') (drop 4 t)"

definition event_of :: "jval \<Rightarrow> stripe_event option" where
  "event_of v = (case (jget v ''id'', jget v ''type'', jget v ''livemode'') of
     (JStr i, JStr type, JBool livemode) \<Rightarrow>
       (if event_pattern i \<and> 1 \<le> utf16_units type \<and> utf16_units type \<le> 200 \<and> is_plain_object (jget v ''data'')
        then Some \<lparr>ev_id = i, ev_type = type, ev_livemode = livemode, ev_object = jget (jget v ''data'') ''object''\<rparr>
        else None)
   | _ \<Rightarrow> None)"

text \<open>A field that may be left out or null, and is text otherwise.\<close>

definition nullish_text :: "jval \<Rightarrow> string option option" where
  "nullish_text v = (case v of JStr t \<Rightarrow> Some (Some t) | JNull \<Rightarrow> Some None | JUndef \<Rightarrow> Some None | _ \<Rightarrow> None)"

text \<open>An amount with a fraction equals no purchase's amount, as no amount does: both are \<open>None\<close>.\<close>

definition nullish_amount :: "jval \<Rightarrow> int option option" where
  "nullish_amount v = (case v of JInt n \<Rightarrow> Some (Some n) | JDec _ \<Rightarrow> Some None | JNull \<Rightarrow> Some None | JUndef \<Rightarrow> Some None
     | _ \<Rightarrow> None)"

definition text_record :: "jval \<Rightarrow> bool" where
  "text_record v \<longleftrightarrow> (case v of JObj kvs \<Rightarrow> list_all (\<lambda>kv. case snd kv of JStr _ \<Rightarrow> True | _ \<Rightarrow> False) kvs
     | JNull \<Rightarrow> True | JUndef \<Rightarrow> True | _ \<Rightarrow> False)"

definition text_field :: "jval \<Rightarrow> string \<Rightarrow> string option" where
  "text_field v k = (case jget v k of JStr t \<Rightarrow> Some t | _ \<Rightarrow> None)"

definition customer_of :: "jval \<Rightarrow> string option" where
  "customer_of v = (case v of JStr t \<Rightarrow> if customer_pattern t then Some t else None | _ \<Rightarrow> None)"

record session_object =
  cs_id :: string
  cs_paymentStatus :: "string option"
  cs_amountTotal :: "int option"
  cs_currency :: "string option"
  cs_metadata :: jval
  cs_customer :: jval

definition session_of :: "jval \<Rightarrow> session_object option" where
  "session_of v = (case (jget v ''id'', nullish_text (jget v ''payment_status''), nullish_amount (jget v ''amount_total''),
       nullish_text (jget v ''currency''), nullish_text (jget v ''client_reference_id'')) of
     (JStr i, Some status, Some amount, Some currency, Some _) \<Rightarrow>
       (if session_pattern i \<and> text_record (jget v ''metadata'')
        then Some \<lparr>cs_id = i, cs_paymentStatus = status, cs_amountTotal = amount, cs_currency = currency,
               cs_metadata = jget v ''metadata'', cs_customer = jget v ''customer''\<rparr>
        else None)
   | _ \<Rightarrow> None)"

definition kinds :: "(string \<times> event_kind) list" where
  "kinds = [(''checkout.session.completed'', EventPaid), (''checkout.session.async_payment_succeeded'', EventPaid),
     (''checkout.session.async_payment_failed'', EventFailed), (''checkout.session.expired'', EventExpired)]"

definition mismatches :: "string list" where
  "mismatches = [''amount_mismatch'', ''metadata_mismatch'', ''environment_mismatch'']"

section \<open>Handlers\<close>

datatype billing_failure = FromFunding thrown | FromAccount account_error

text \<open>What the receiver asks the funding service of a session.\<close>

definition purchase_ask :: "stripe_event \<Rightarrow> session_object \<Rightarrow> event_kind \<Rightarrow> environment \<Rightarrow> purchase_event" where
  "purchase_ask event object kind environment = \<lparr>pe_kind = kind, pe_sessionId = cs_id object,
     pe_purchaseId = text_field (cs_metadata object) ''purchase_id'',
     pe_tenantId = text_field (cs_metadata object) ''tenant_id'',
     pe_organizationId = text_field (cs_metadata object) ''organization_id'',
     pe_amountTotal = cs_amountTotal object, pe_currency = cs_currency object,
     pe_eventId = ev_id event, pe_environment = environment\<rparr>"

definition store_payment ::
  "(string \<Rightarrow> string) \<Rightarrow> int \<Rightarrow> stripe_event \<Rightarrow> session_object \<Rightarrow> string \<Rightarrow> environment \<Rightarrow> billing_state
     \<Rightarrow> billing_failure + bool \<times> billing_state" where
  "store_payment sha256 now event object raw environment b =
     (case preview_creditPurchase (purchase_ask event object EventPaid environment) (bl_funding b) of
        Inl e \<Rightarrow> Inl (FromFunding e)
      | Inr (PreviewIgnored _ _, _) \<Rightarrow> Inr (False, b)
      | Inr (Payable tenantId organizationId _, _) \<Rightarrow>
          (case customer_of (cs_customer object) of
             None \<Rightarrow> Inr (False, b)
           | Some customerId \<Rightarrow>
               (case record_verifiedPayment now \<lparr>vp_environment = environment, vp_eventId = ev_id event,
                    vp_customerId = customerId, vp_organizationId = organizationId, vp_tenantId = tenantId,
                    vp_payloadHash = sha256 raw, vp_eventType = ev_type event\<rparr> (bl_ledger b) of
                  Inl e \<Rightarrow> Inl (FromAccount e)
                | Inr (_, l) \<Rightarrow> Inr (True, b\<lparr>bl_ledger := l\<rparr>))))"

definition mark :: "int \<Rightarrow> string \<Rightarrow> environment \<Rightarrow> inbox_state \<Rightarrow> billing_state \<Rightarrow> billing_state" where
  "mark now eventId environment state b = b\<lparr>bl_ledger := snd (mark_event now environment eventId state (bl_ledger b))\<rparr>"

text \<open>The \<open>catch\<close> of \<open>checkout\<close>: what is thrown on, if anything, and the state.\<close>

fun caught :: "int \<Rightarrow> string \<Rightarrow> environment \<Rightarrow> bool \<Rightarrow> billing_failure \<Rightarrow> billing_state \<Rightarrow> billing_failure option \<times> billing_state" where
  "caught now eventId environment stored (FromFunding (FundingError status code)) b =
     (None, if stored then mark now eventId environment EventQuarantined b else b)"
| "caught now eventId environment stored (FromAccount (AccountError status code)) b =
     (if status = 409 then (None, b) else (Some (FromAccount (AccountError status code)), b))"
| "caught now eventId environment stored error b = (Some error, b)"

definition refused_for_good :: "purchase_resolution \<Rightarrow> bool" where
  "refused_for_good result = (case result of Resolved _ _ \<Rightarrow> False
     | ResolveIgnored reason _ \<Rightarrow> reason \<in> set mismatches \<or> reason = ''unknown_session'')"

text \<open>The rest of the \<open>try\<close> block: the purchase is resolved, then a stored event leaves pending.\<close>

definition apply_event ::
  "int \<Rightarrow> stripe_event \<Rightarrow> session_object \<Rightarrow> event_kind \<Rightarrow> environment \<Rightarrow> bool \<Rightarrow> billing_state
     \<Rightarrow> billing_failure option \<times> billing_state" where
  "apply_event now event object kind environment stored b =
     (case transaction (resolve_creditPurchase now (purchase_ask event object kind environment)) (bl_funding b) of
        (Inl e, f) \<Rightarrow> caught now (ev_id event) environment stored (FromFunding e) (b\<lparr>bl_funding := f\<rparr>)
      | (Inr result, f) \<Rightarrow>
          (None, if stored then mark now (ev_id event) environment
                   (if refused_for_good result then EventQuarantined else EventProcessed) (b\<lparr>bl_funding := f\<rparr>)
                 else b\<lparr>bl_funding := f\<rparr>))"

definition checkout ::
  "(string \<Rightarrow> string) \<Rightarrow> int \<Rightarrow> stripe_event \<Rightarrow> string \<Rightarrow> environment \<Rightarrow> billing_state \<Rightarrow> billing_failure option \<times> billing_state" where
  "checkout sha256 now event raw environment b =
     (case map_of kinds (ev_type event) of None \<Rightarrow> (None, b)
      | Some kind \<Rightarrow>
     (case session_of (ev_object event) of None \<Rightarrow> (None, b)
      | Some object \<Rightarrow>
     if kind = EventPaid \<and> cs_paymentStatus object \<noteq> Some ''paid'' then (None, b)
     else if kind = EventPaid then
       (case store_payment sha256 now event object raw environment b of
          Inl e \<Rightarrow> caught now (ev_id event) environment False e b
        | Inr (stored, b) \<Rightarrow> if \<not> stored then (None, b) else apply_event now event object kind environment True b)
     else apply_event now event object kind environment False b))"

text \<open>\<open>objectRefSchema\<close>: the customer an event of any type names. An id that is not text refuses the whole reference.\<close>

definition object_customer :: "jval \<Rightarrow> string option" where
  "object_customer v =
     (if is_plain_object v \<and> (case nullish_text (jget v ''id'') of None \<Rightarrow> False
         | Some i \<Rightarrow> (case i of None \<Rightarrow> True | Some t \<Rightarrow> utf16_units t \<le> 255))
      then customer_of (jget v ''customer'') else None)"

definition ignore ::
  "(string \<Rightarrow> string) \<Rightarrow> int \<Rightarrow> stripe_event \<Rightarrow> string \<Rightarrow> environment \<Rightarrow> billing_state \<Rightarrow> billing_failure option \<times> billing_state" where
  "ignore sha256 now event raw environment b =
     (case record_ignoredEvent now \<lparr>ie_environment = environment, ie_eventId = ev_id event,
          ie_customerId = object_customer (ev_object event), ie_payloadHash = sha256 raw, ie_eventType = ev_type event\<rparr>
          (bl_ledger b) of
        Inl (AccountError status code) \<Rightarrow>
          (if status = 409 then (None, b) else (Some (FromAccount (AccountError status code)), b))
      | Inr (_, l) \<Rightarrow> (None, b\<lparr>bl_ledger := l\<rparr>))"

section \<open>The router and the receiver\<close>

definition handles :: "(string \<times> 'h) list \<Rightarrow> string \<Rightarrow> bool" where
  "handles handlers type \<longleftrightarrow> map_of handlers type \<noteq> None"

definition dispatch :: "(string \<times> 'h) list \<Rightarrow> 'h \<Rightarrow> string \<Rightarrow> 'h" where
  "dispatch handlers unknown type = (case map_of handlers type of Some handler \<Rightarrow> handler | None \<Rightarrow> unknown)"

record webhook_request =
  rq_body :: "string option"
  rq_signature :: "string option"

definition webhook_body_limit :: nat where "webhook_body_limit = 262144"

definition signed_body :: "(string \<Rightarrow> string \<Rightarrow> string) \<Rightarrow> billing_settings \<Rightarrow> int \<Rightarrow> string \<Rightarrow> string option \<Rightarrow> string \<Rightarrow> bool" where
  "signed_body hmac settings now raw header secret \<longleftrightarrow>
     verify_stripeSignature hmac raw header secret now
     \<or> (case bs_stripeWebhookSecretPrevious settings of None \<Rightarrow> False
        | Some previous \<Rightarrow> verify_stripeSignature hmac raw header previous now)"

definition handle_webhook ::
  "(string \<Rightarrow> string \<Rightarrow> string) \<Rightarrow> (string \<Rightarrow> string) \<Rightarrow> (string \<Rightarrow> jval option) \<Rightarrow> billing_settings \<Rightarrow> int \<Rightarrow> webhook_request
     \<Rightarrow> billing_state \<Rightarrow> int \<times> billing_state" where
  "handle_webhook hmac sha256 parse settings now request b =
     (case bs_stripeWebhookSecret settings of None \<Rightarrow> (503, b)
      | Some secret \<Rightarrow>
     (case rq_body request of None \<Rightarrow> (400, b)
      | Some raw \<Rightarrow>
     if length raw > webhook_body_limit then (413, b)
     else if \<not> signed_body hmac settings now raw (rq_signature request) secret then (400, b)
     else (case Option.bind (parse raw) event_of of None \<Rightarrow> (400, b)
      | Some event \<Rightarrow>
     if ev_livemode event \<noteq> (bs_mode settings = LiveEnv) then (400, b)
     else (case dispatch (map (\<lambda>(type, _). (type, checkout sha256)) kinds) (ignore sha256) (ev_type event)
             now event raw (bs_mode settings) b of
          (None, b') \<Rightarrow> (200, b')
        | (Some _, b') \<Rightarrow> (503, b')))))"

end
