(* ===== verification/Credit_Buying.thy ===== *)
theory Credit_Buying
  imports Stripe_Webhook
begin

text \<open>
  Buying credits: \<open>CreditPurchaseService\<close> of \<open>credit-purchases.ts\<close>, with the link rule of
  \<open>shared/credit-purchases.ts\<close>. What is outside the program is a parameter: Stripe is a function from a request to the JSON
  of an answer with an OK status, or nothing; so are the URL parser and the digest of the platform. The answers of the
  account service (a membership, a sign-in) are arguments; a service built without people's billing scopes is one whose
  sign-in refuses with 503.
\<close>

section \<open>Stripe\<close>

record stripe_request =
  sr_url :: string
  sr_headers :: "(string \<times> string) list"
  sr_form :: "(string \<times> string) list"

record parsed_url =
  ur_username :: string
  ur_password :: string
  ur_protocol :: string
  ur_hostname :: string
  ur_port :: string
  ur_origin :: string
  ur_pathname :: string

record buying_services =
  sv_settings :: billing_settings
  sv_stripe :: "stripe_request \<Rightarrow> jval option"
  sv_sha256 :: "string \<Rightarrow> string"
  sv_url :: "string \<Rightarrow> parsed_url option"
  sv_localCheckout :: bool

definition stripe_api_version :: string where "stripe_api_version = ''2026-08-26.dahlia''"
definition checkout_lifetime_seconds :: int where "checkout_lifetime_seconds = 35 * 60"

definition stripe_requestHeaders :: "string \<Rightarrow> string \<Rightarrow> (string \<times> string) list" where
  "stripe_requestHeaders secretKey idempotencyKey =
     [(''Authorization'', ''Bearer '' @ secretKey), (''Content-Type'', ''application/x-www-form-urlencoded''),
      (''Idempotency-Key'', idempotencyKey), (''Stripe-Version'', stripe_api_version), (''Accept'', ''application/json'')]"

text \<open>\<open>/^\/faux\/checkout\/cs_faux_[a-z0-9]{24}$/\<close>\<close>

definition faux_checkout_path :: "string \<Rightarrow> bool" where
  "faux_checkout_path t \<longleftrightarrow> (let start = ''/faux/checkout/cs_faux_''; rest = drop (length start) t in
     take (length start) t = start \<and> length rest = 24 \<and> list_all (\<lambda>c. is_digit c \<or> (of_char c :: nat) \<in> {97..122}) rest)"

definition is_allowedCheckoutUrl :: "(string \<Rightarrow> parsed_url option) \<Rightarrow> string \<Rightarrow> string option \<Rightarrow> bool" where
  "is_allowedCheckoutUrl parse t localCheckoutOrigin \<longleftrightarrow>
     (if utf16_units t > 4096 then False
      else case parse t of None \<Rightarrow> False
      | Some url \<Rightarrow>
        if ur_username url \<noteq> '''' \<or> ur_password url \<noteq> '''' then False
        else if ur_protocol url = ''https:'' \<and> ur_hostname url = ''checkout.stripe.com'' \<and> ur_port url = '''' then True
        else (case localCheckoutOrigin of None \<Rightarrow> False
              | Some origin \<Rightarrow> ur_origin url = origin \<and> faux_checkout_path (ur_pathname url)))"

record purchase_ref =
  pf_tenantId :: string
  pf_organizationId :: string
  pf_purchaseId :: string

definition customer_request :: "buying_services \<Rightarrow> string \<Rightarrow> purchase_ref \<Rightarrow> stripe_request" where
  "customer_request sv secretKey ref = \<lparr>sr_url = ''https://api.stripe.com/v1/customers'',
     sr_headers = stripe_requestHeaders secretKey (''nectovia-customer-'' @ sv_sha256 sv (json_text (JArr [JStr ''stripe-customer'',
       JStr (pf_tenantId ref), JStr (pf_organizationId ref)]))),
     sr_form = [(''metadata[organization_id]'', pf_organizationId ref), (''metadata[tenant_id]'', pf_tenantId ref)]\<rparr>"

definition create_customer :: "buying_services \<Rightarrow> string \<Rightarrow> purchase_ref \<Rightarrow> customer_error + string" where
  "create_customer sv secretKey ref =
     (case sv_stripe sv (customer_request sv secretKey ref) of
        None \<Rightarrow> Inl CustomerNotMade
      | Some answer \<Rightarrow> (case customer_of (jget answer ''id'') of None \<Rightarrow> Inl CustomerNotMade | Some i \<Rightarrow> Inr i))"

definition checkout_request :: "int \<Rightarrow> string \<Rightarrow> purchase_ref \<Rightarrow> int \<Rightarrow> int \<Rightarrow> string \<Rightarrow> string \<Rightarrow> stripe_request" where
  "checkout_request now secretKey ref credits amountCents returnBase customerId =
     (let back = returnBase @ ''/billing/return?purchase='' @ pf_purchaseId ref in
      \<lparr>sr_url = ''https://api.stripe.com/v1/checkout/sessions'',
       sr_headers = stripe_requestHeaders secretKey (pf_purchaseId ref),
       sr_form =
         [(''mode'', ''payment''),
          (''line_items[0][quantity]'', ''1''),
          (''line_items[0][price_data][currency]'', ''usd''),
          (''line_items[0][price_data][unit_amount]'', show_int amountCents),
          (''line_items[0][price_data][product_data][name]'', to_locale_string credits @ '' Nectovia credits''),
          (''client_reference_id'', pf_purchaseId ref),
          (''metadata[purchase_id]'', pf_purchaseId ref),
          (''metadata[organization_id]'', pf_organizationId ref),
          (''metadata[tenant_id]'', pf_tenantId ref),
          (''customer'', customerId),
          (''expires_at'', show_int (now div 1000 + checkout_lifetime_seconds)),
          (''success_url'', back),
          (''cancel_url'', back @ ''&canceled=1'')]\<rparr>)"

text \<open>The session Stripe made and where it is paid.\<close>

definition checkout_session ::
  "buying_services \<Rightarrow> int \<Rightarrow> string \<Rightarrow> purchase_ref \<Rightarrow> int \<Rightarrow> int \<Rightarrow> string \<Rightarrow> string \<Rightarrow> (string \<times> string) option" where
  "checkout_session sv now secretKey ref credits amountCents returnBase customerId =
     (case sv_stripe sv (checkout_request now secretKey ref credits amountCents returnBase customerId) of
        None \<Rightarrow> None
      | Some answer \<Rightarrow> (case (jget answer ''id'', jget answer ''url'') of
          (JStr i, JStr url) \<Rightarrow>
            (if session_pattern i \<and> is_allowedCheckoutUrl (sv_url sv) url (if sv_localCheckout sv then Some returnBase else None)
             then Some (i, url) else None)
        | _ \<Rightarrow> None))"

section \<open>The payer\<close>

datatype credit_payer = BusinessPayer string string | PersonPayer string string string

fun py_tenantId :: "credit_payer \<Rightarrow> string" where
  "py_tenantId (BusinessPayer tenantId _) = tenantId"
| "py_tenantId (PersonPayer tenantId _ _) = tenantId"

fun py_organizationId :: "credit_payer \<Rightarrow> string" where
  "py_organizationId (BusinessPayer _ organizationId) = organizationId"
| "py_organizationId (PersonPayer _ organizationId _) = organizationId"

record buyer =
  by_payer :: credit_payer
  by_personId :: string

definition can_seePurchasedUsage :: "membership_snapshot \<Rightarrow> bool" where
  "can_seePurchasedUsage m \<longleftrightarrow> ms_membershipActive m \<and> (ms_membershipRole m = Owner \<or> ms_membershipRole m = Admin)"

definition business_buyer :: "account_error + membership_snapshot \<Rightarrow> account_error + buyer" where
  "business_buyer membership = rbind membership (\<lambda>snapshot.
     if \<not> can_seePurchasedUsage snapshot then Inl (AccountError 403 (Some ''not_owner_or_admin''))
     else Inr \<lparr>by_payer = BusinessPayer (ms_organizationTenantId snapshot) (ms_organizationId snapshot),
            by_personId = ms_personId snapshot\<rparr>)"

definition personal_buyer ::
  "int \<Rightarrow> string \<Rightarrow> account_error + person \<Rightarrow> billing_state \<Rightarrow> (billing_failure + buyer) \<times> billing_state" where
  "personal_buyer now uuid signIn b =
     (case signIn of Inl e \<Rightarrow> (Inl (FromAccount e), b)
      | Inr p \<Rightarrow>
     (case ensure_individualAccount now uuid p (bl_accounts b) of Inl e \<Rightarrow> (Inl (FromFunding e), b)
      | Inr (scope, rows) \<Rightarrow>
     (if ia_personId scope \<noteq> pn_id p \<or> ia_tenantId scope \<noteq> pn_id p
        then Inl (FromAccount (AccountError 503 None))
      else Inr \<lparr>by_payer = PersonPayer (pn_id p) (ia_id scope) (pn_id p), by_personId = pn_id p\<rparr>,
      b\<lparr>bl_accounts := rows\<rparr>)))"

section \<open>Quotes\<close>

definition payer_on_plan :: "feature_grant list \<Rightarrow> credit_payer \<Rightarrow> int \<Rightarrow> bool" where
  "payer_on_plan grants p now = (case p of
     PersonPayer _ _ personId \<Rightarrow> has_activePersonPlan grants personId now
   | BusinessPayer tenantId organizationId \<Rightarrow> has_activePlan grants tenantId organizationId now)"

definition rate_for :: "billing_settings \<Rightarrow> feature_grant list \<Rightarrow> credit_payer \<Rightarrow> int \<Rightarrow> account_error + credit_rate \<times> bool" where
  "rate_for settings grants p now =
     (let plan = payer_on_plan grants p now in
      case (if plan then bs_creditRatePlan settings else bs_creditRateFree settings) of
        None \<Rightarrow> Inl (AccountError 503 None)
      | Some rate \<Rightarrow> Inr (rate, plan))"

record credit_quote =
  cq_credits :: int
  cq_amountCents :: int
  cq_steps :: int
  cq_stepCredits :: int
  cq_stepCents :: int
  cq_onPlan :: bool
  cq_planStep :: "credit_rate option"

definition quote_for :: "billing_settings \<Rightarrow> feature_grant list \<Rightarrow> credit_payer \<Rightarrow> jval \<Rightarrow> int \<Rightarrow> account_error + credit_quote" where
  "quote_for settings grants p asked now =
     rbind (rate_for settings grants p now) (\<lambda>(rate, onPlan).
     rbind (steps_asked asked rate) (\<lambda>steps.
     rbind (credit_stepsCost steps rate) (\<lambda>(credits, amountCents).
     Inr \<lparr>cq_credits = credits, cq_amountCents = amountCents, cq_steps = steps, cq_stepCredits = rt_credits rate,
          cq_stepCents = rt_cents rate, cq_onPlan = onPlan,
          cq_planStep = (if \<not> onPlan then bs_creditRatePlan settings else None)\<rparr>)))"

section \<open>Making a purchase\<close>

record purchase_answer =
  pa_purchaseId :: string
  pa_checkoutUrl :: string
  pa_credits :: int
  pa_amountCents :: int

definition payment_page_unavailable :: billing_failure where
  "payment_page_unavailable = FromAccount (AccountError 503 None)"

text \<open>From the pending row on: the session, and the row that keeps it or is closed without one.\<close>

definition open_checkout ::
  "buying_services \<Rightarrow> int \<Rightarrow> string \<Rightarrow> purchase_ref \<Rightarrow> int \<Rightarrow> int \<Rightarrow> string \<Rightarrow> string \<Rightarrow> billing_state
     \<Rightarrow> (billing_failure + purchase_answer) \<times> billing_state" where
  "open_checkout sv now secretKey ref credits amountCents returnBase customerId b =
     (case checkout_session sv now secretKey ref credits amountCents returnBase customerId of
        None \<Rightarrow> (Inl payment_page_unavailable, b\<lparr>bl_funding :=
          left_by (fail_creditPurchase now (pf_tenantId ref) (pf_organizationId ref) (pf_purchaseId ref)) (bl_funding b)\<rparr>)
      | Some (sessionId, url) \<Rightarrow>
          (case transaction (attach_checkoutSession (pf_tenantId ref) (pf_organizationId ref) (pf_purchaseId ref) sessionId) (bl_funding b) of
             (Inl _, f) \<Rightarrow> (Inl payment_page_unavailable, b\<lparr>bl_funding := f\<rparr>)
           | (Inr _, f) \<Rightarrow> (Inr \<lparr>pa_purchaseId = pf_purchaseId ref, pa_checkoutUrl = url, pa_credits = credits,
                 pa_amountCents = amountCents\<rparr>, b\<lparr>bl_funding := f\<rparr>)))"

definition asked_cost ::
  "billing_settings \<Rightarrow> feature_grant list \<Rightarrow> credit_payer \<Rightarrow> jval \<Rightarrow> int \<Rightarrow> account_error + credit_rate \<times> int \<times> int" where
  "asked_cost settings grants p asked now =
     rbind (rate_for settings grants p now) (\<lambda>(rate, _).
     rbind (steps_asked asked rate) (\<lambda>steps.
     rmap (\<lambda>cost. (rate, cost)) (credit_stepsCost steps rate)))"

definition payer_ref :: "credit_payer \<Rightarrow> string \<Rightarrow> purchase_ref" where
  "payer_ref p newId = \<lparr>pf_tenantId = py_tenantId p, pf_organizationId = py_organizationId p, pf_purchaseId = newId\<rparr>"

definition payer_billing :: "credit_payer \<Rightarrow> environment \<Rightarrow> billing_ref" where
  "payer_billing p mode = \<lparr>br_tenantId = py_tenantId p, br_organizationId = py_organizationId p, br_environment = mode\<rparr>"

definition asked_terms :: "buyer \<Rightarrow> string \<Rightarrow> credit_rate \<Rightarrow> int \<Rightarrow> int \<Rightarrow> environment \<Rightarrow> purchase_terms" where
  "asked_terms who newId rate credits amountCents mode =
     \<lparr>pi_tenantId = py_tenantId (by_payer who), pi_organizationId = py_organizationId (by_payer who), pi_purchaseId = newId,
      pi_personId = by_personId who, pi_credits = credits, pi_amountCents = amountCents, pi_rateCents = rt_cents rate,
      pi_rateCredits = rt_credits rate, pi_environment = mode\<rparr>"

definition create_for ::
  "buying_services \<Rightarrow> feature_grant list \<Rightarrow> int \<Rightarrow> string \<Rightarrow> buyer \<Rightarrow> jval \<Rightarrow> string \<Rightarrow> billing_state
     \<Rightarrow> (billing_failure + purchase_answer) \<times> billing_state" where
  "create_for sv grants now newId who asked returnBase b =
     (let p = by_payer who; settings = sv_settings sv; ref = payer_ref p newId in
      case asked_cost settings grants p asked now of
        Inl e \<Rightarrow> (Inl (FromAccount e), b)
      | Inr (rate, credits, amountCents) \<Rightarrow>
     (case bs_stripeSecretKey settings of None \<Rightarrow> (Inl (FromAccount (AccountError 503 None)), b)
      | Some secretKey \<Rightarrow>
     (case ensure_customer (payer_billing p (bs_mode settings)) (create_customer sv secretKey ref) (bl_ledger b) of
        Inl CustomerNotMade \<Rightarrow> (Inl payment_page_unavailable, b)
      | Inl (CustomerRefused e) \<Rightarrow> (Inl (FromAccount e), b)
      | Inr (customerId, l) \<Rightarrow>
     (case transaction (start_creditPurchase now (asked_terms who newId rate credits amountCents (bs_mode settings))) (bl_funding b) of
        (Inl e, f) \<Rightarrow> (Inl (FromFunding e), b\<lparr>bl_ledger := l, bl_funding := f\<rparr>)
      | (Inr _, f) \<Rightarrow> open_checkout sv now secretKey ref credits amountCents returnBase customerId
             (b\<lparr>bl_ledger := l, bl_funding := f\<rparr>)))))"

section \<open>The service's methods\<close>

definition run_quote ::
  "buying_services \<Rightarrow> feature_grant list \<Rightarrow> int \<Rightarrow> account_error + membership_snapshot \<Rightarrow> jval \<Rightarrow> account_error + credit_quote" where
  "run_quote sv grants now membership asked =
     rbind (business_buyer membership) (\<lambda>who. quote_for (sv_settings sv) grants (by_payer who) asked now)"

definition personal_quote ::
  "buying_services \<Rightarrow> feature_grant list \<Rightarrow> int \<Rightarrow> string \<Rightarrow> account_error + person \<Rightarrow> jval \<Rightarrow> billing_state
     \<Rightarrow> (billing_failure + credit_quote) \<times> billing_state" where
  "personal_quote sv grants now uuid signIn asked b =
     (case personal_buyer now uuid signIn b of
        (Inl e, b) \<Rightarrow> (Inl e, b)
      | (Inr who, b) \<Rightarrow> ((case quote_for (sv_settings sv) grants (by_payer who) asked now of
            Inl e \<Rightarrow> Inl (FromAccount e) | Inr answer \<Rightarrow> Inr answer), b))"

definition create_purchase ::
  "buying_services \<Rightarrow> feature_grant list \<Rightarrow> int \<Rightarrow> string \<Rightarrow> account_error + membership_snapshot \<Rightarrow> jval \<Rightarrow> string \<Rightarrow> billing_state
     \<Rightarrow> (billing_failure + purchase_answer) \<times> billing_state" where
  "create_purchase sv grants now newId membership asked returnBase b =
     (case business_buyer membership of
        Inl e \<Rightarrow> (Inl (FromAccount e), b)
      | Inr who \<Rightarrow> create_for sv grants now newId who asked returnBase b)"

definition personal_create ::
  "buying_services \<Rightarrow> feature_grant list \<Rightarrow> int \<Rightarrow> string \<Rightarrow> string \<Rightarrow> account_error + person \<Rightarrow> jval \<Rightarrow> string \<Rightarrow> billing_state
     \<Rightarrow> (billing_failure + purchase_answer) \<times> billing_state" where
  "personal_create sv grants now newId uuid signIn asked returnBase b =
     (case personal_buyer now uuid signIn b of
        (Inl e, b) \<Rightarrow> (Inl e, b)
      | (Inr who, b) \<Rightarrow> create_for sv grants now newId who asked returnBase b)"

record purchase_status =
  ps_purchaseId :: string
  ps_credits :: int
  ps_amountCents :: int
  ps_state :: purchase_state

definition read_for :: "credit_payer \<Rightarrow> string \<Rightarrow> billing_state \<Rightarrow> billing_failure + purchase_status" where
  "read_for p purchaseId b =
     (case read_creditPurchase (py_tenantId p) (py_organizationId p) purchaseId (bl_funding b) of
        Inr (row, _) \<Rightarrow> Inr \<lparr>ps_purchaseId = pu_purchaseId row, ps_credits = pu_credits row,
          ps_amountCents = pu_amountCents row, ps_state = pu_state row\<rparr>
      | Inl (FundingError status code) \<Rightarrow>
          (if status = 404 then Inl (FromAccount (AccountError 404 (Some ''unknown_purchase'')))
           else Inl (FromFunding (FundingError status code)))
      | Inl e \<Rightarrow> Inl (FromFunding e))"

definition read_purchase :: "account_error + membership_snapshot \<Rightarrow> string \<Rightarrow> billing_state \<Rightarrow> billing_failure + purchase_status" where
  "read_purchase membership purchaseId b =
     (case business_buyer membership of Inl e \<Rightarrow> Inl (FromAccount e) | Inr who \<Rightarrow> read_for (by_payer who) purchaseId b)"

definition personal_read ::
  "int \<Rightarrow> string \<Rightarrow> account_error + person \<Rightarrow> string \<Rightarrow> billing_state \<Rightarrow> (billing_failure + purchase_status) \<times> billing_state" where
  "personal_read now uuid signIn purchaseId b =
     (case personal_buyer now uuid signIn b of
        (Inl e, b) \<Rightarrow> (Inl e, b)
      | (Inr who, b) \<Rightarrow> (read_for (by_payer who) purchaseId b, b))"

definition personal_balance ::
  "int \<Rightarrow> string \<Rightarrow> account_error + person \<Rightarrow> billing_state \<Rightarrow> (billing_failure + purchased_balance) \<times> billing_state" where
  "personal_balance now uuid signIn b =
     (case personal_buyer now uuid signIn b of
        (Inl e, b) \<Rightarrow> (Inl e, b)
      | (Inr who, b) \<Rightarrow>
          (case transaction (read_purchasedBalance now (py_tenantId (by_payer who)) (py_organizationId (by_payer who))) (bl_funding b) of
             (Inl e, f) \<Rightarrow> (Inl (FromFunding e), b\<lparr>bl_funding := f\<rparr>)
           | (Inr balance, f) \<Rightarrow> (Inr balance, b\<lparr>bl_funding := f\<rparr>)))"

end
