(* ===== verification/Webhook_Guarantees.thy ===== *)
theory Webhook_Guarantees
  imports Stripe_Webhook
begin

text \<open>
  What a delivery of an event does: what it changes, that a second delivery changes nothing, and that a top-up it
  records names an event the ledger stored for the purchase's own business.
\<close>

section \<open>Resolving by session\<close>

lemma purchase_by_session:
  assumes "keys_ok s" and "creditPurchase_by_session session s = Some found"
  shows "tx_creditPurchase (pu_tenantId found) (pu_purchaseId found) s = Some found" and "pu_checkoutSessionId found = Some session"
proof -
  from assms(2) have found: "found \<in> set (st_creditPurchases s)" "pu_checkoutSessionId found = Some session"
    by (auto simp: creditPurchase_by_session_def dest: find_Some_in_set)
  then show "pu_checkoutSessionId found = Some session" by simp
  from found(1) assms(1) show "tx_creditPurchase (pu_tenantId found) (pu_purchaseId found) s = Some found"
    unfolding tx_creditPurchase_def keys_ok_def by (intro find_key [of "\<lambda>r. (pu_tenantId r, pu_purchaseId r)"]) auto
qed

text \<open>The two reads of the purchase agree, so the checks made under the lock are those made before it.\<close>

lemma resolve_by_session:
  assumes "keys_ok s" and "creditPurchase_by_session (pe_sessionId input) s = Some found"
  shows "resolve_creditPurchase now input s = rbind (require_id (JStr (pe_eventId input))) (\<lambda>eventId.
     if pu_environment found \<noteq> pe_environment input
       then Inr (ResolveIgnored ''environment_mismatch'' (Some (pu_purchaseId found)), s)
     else if names_another_purchase found input
       then Inr (ResolveIgnored ''metadata_mismatch'' (Some (pu_purchaseId found)), s)
     else if pu_state found \<noteq> PurchasePending
       then Inr (ResolveIgnored (''already_'' @ purchase_state_text (pu_state found)) (Some (pu_purchaseId found)), s)
     else if pe_kind input \<noteq> EventPaid
       then Inr (Resolved (resolved_state (pe_kind input)) (pu_purchaseId found),
              save_creditPurchase (found\<lparr>pu_state := resolved_state (pe_kind input), pu_resolvedAt := Some now,
                pu_stripeEventId := Some eventId\<rparr>) s)
     else if pays_another_amount found input
       then Inr (ResolveIgnored ''amount_mismatch'' (Some (pu_purchaseId found)), s)
     else rbind (credit_amount (pu_credits found)) (\<lambda>amount.
       rbind (record_topUp_within now (pu_tenantId found) (pu_organizationId found) (pu_purchaseId found) amount eventId s) (\<lambda>(_, s).
       Inr (Resolved PurchasePaid (pu_purchaseId found),
         save_creditPurchase (found\<lparr>pu_state := PurchasePaid, pu_resolvedAt := Some now,
           pu_stripeEventId := Some eventId\<rparr>) s))))"
  by (simp add: resolve_creditPurchase_def assms(2) purchase_by_session [OF assms] cong: if_cong)

lemma resolve_unknown:
  assumes "creditPurchase_by_session (pe_sessionId input) s = None"
  shows "resolve_creditPurchase now input s =
    rbind (require_id (JStr (pe_eventId input))) (\<lambda>_. Inr (ResolveIgnored ''unknown_session'' None, s))"
  by (simp add: resolve_creditPurchase_def assms)

lemma find_upsert_in_place:
  assumes "find same xs = Some old" and "find Q xs = Some old" and "Q row"
  shows "find Q (upsert same row xs) = Some row"
  using assms by (induction xs) (auto split: if_splits dest: find_Some_in_set)

lemma by_session_saved:
  assumes "keys_ok s" and "creditPurchase_by_session session s = Some found"
    and "pu_tenantId row = pu_tenantId found" and "pu_purchaseId row = pu_purchaseId found"
    and "pu_checkoutSessionId row = Some session"
  shows "creditPurchase_by_session session (save_creditPurchase row s) = Some row"
  using purchase_by_session(1) [OF assms(1,2)] assms(2-5)
  by (simp add: creditPurchase_by_session_def save_creditPurchase_def tx_creditPurchase_def find_upsert_in_place)

lemma topUp_keeps_purchases:
  "record_topUp_within now t o' i amount ev s = Inr (row, s') \<Longrightarrow> st_creditPurchases s' = st_creditPurchases s"
  by (drule record_topUp_within_Inr(6)) (auto simp: save_topUp_def)

lemma by_session_same:
  "st_creditPurchases s' = st_creditPurchases s \<Longrightarrow> creditPurchase_by_session session s' = creditPurchase_by_session session s"
  by (simp add: creditPurchase_by_session_def)

text \<open>What an event closed stays closed to every event of its session.\<close>

lemma resolve_closes:
  assumes "keys_ok s" and "keys_ok s'" and "resolve_creditPurchase now input s = Inr (Resolved st i, s')"
  obtains row where "creditPurchase_by_session (pe_sessionId input) s' = Some row" "pu_environment row = pe_environment input"
    "\<not> names_another_purchase row input" "pu_state row \<noteq> PurchasePending"
proof -
  from assms(3) obtain found where found: "creditPurchase_by_session (pe_sessionId input) s = Some found"
    by (cases "creditPurchase_by_session (pe_sessionId input) s") (auto simp: resolve_unknown result_simps)
  note run = assms(3) [unfolded resolve_by_session [OF assms(1) found]]
  let ?row = "found\<lparr>pu_state := st, pu_resolvedAt := Some now, pu_stripeEventId := Some (pe_eventId input)\<rparr>"
  from run have checks: "pu_environment found = pe_environment input" "\<not> names_another_purchase found input"
    and st: "st = resolved_state (pe_kind input)"
    and s': "\<exists>s1. st_creditPurchases s1 = st_creditPurchases s \<and> s' = save_creditPurchase ?row s1"
    by (auto simp: result_simps split: prod.splits if_splits intro: topUp_keeps_purchases)
  from s' obtain s1 where s1: "st_creditPurchases s1 = st_creditPurchases s" "s' = save_creditPurchase ?row s1" by blast
  then have "creditPurchase_by_session (pe_sessionId input) s' = creditPurchase_by_session (pe_sessionId input) (save_creditPurchase ?row s)"
    by (simp add: creditPurchase_by_session_def save_creditPurchase_def)
  also have "\<dots> = Some ?row"
    by (rule by_session_saved [OF assms(1) found]) (simp_all add: purchase_by_session [OF assms(1) found])
  finally have "creditPurchase_by_session (pe_sessionId input) s' = Some ?row" .
  moreover have "st \<noteq> PurchasePending" by (cases "pe_kind input") (simp_all add: st)
  ultimately show thesis using checks by (intro that [of ?row]) (simp_all add: names_another_purchase_def)
qed

lemma closed_again:
  assumes "keys_ok s" and "creditPurchase_by_session (pe_sessionId input) s = Some row" and "pu_environment row = pe_environment input"
    and "\<not> names_another_purchase row input" and "pu_state row \<noteq> PurchasePending"
  shows "\<exists>reason i. preview_creditPurchase input s = Inr (PreviewIgnored reason i, s)"
    and "id_pattern (pe_eventId input) \<Longrightarrow> \<exists>reason i. resolve_creditPurchase later input s = Inr (ResolveIgnored reason i, s)"
  using assms by (simp_all add: preview_creditPurchase_def resolve_by_session require_id_def)

text \<open>A payable event is not ignored a moment later.\<close>

lemma payable_resolves:
  assumes "keys_ok s" and "preview_creditPurchase input s = Inr (Payable t o' i, f)" and "pe_kind input = EventPaid"
  obtains found where "creditPurchase_by_session (pe_sessionId input) s = Some found" "pu_tenantId found = t" "pu_organizationId found = o'"
    "pu_purchaseId found = i" "pu_state found = PurchasePending" "\<not> pays_another_amount found input"
    "\<And>now. resolve_creditPurchase now input s = rbind (require_id (JStr (pe_eventId input))) (\<lambda>eventId.
       rbind (credit_amount (pu_credits found)) (\<lambda>amount.
       rbind (record_topUp_within now t o' i amount eventId s) (\<lambda>(_, s).
       Inr (Resolved PurchasePaid i, save_creditPurchase (found\<lparr>pu_state := PurchasePaid, pu_resolvedAt := Some now,
           pu_stripeEventId := Some eventId\<rparr>) s))))"
proof -
  from assms(2) obtain found where found: "creditPurchase_by_session (pe_sessionId input) s = Some found"
    and checks: "pu_environment found = pe_environment input" "\<not> names_another_purchase found input"
      "pu_state found = PurchasePending" "\<not> pays_another_amount found input"
    and names: "pu_tenantId found = t" "pu_organizationId found = o'" "pu_purchaseId found = i"
    by (auto simp: preview_creditPurchase_def split: option.splits if_splits)
  show thesis
    by (rule that [OF found names checks(3,4)])
      (simp add: resolve_by_session [OF assms(1) found] checks names assms(3))
qed

lemma payable_resolved:
  assumes "keys_ok s" and "preview_creditPurchase input s = Inr (Payable t o' i, f)" and "pe_kind input = EventPaid"
    and "resolve_creditPurchase now input s = Inr (result, s')"
  obtains found amount row s1 where "result = Resolved PurchasePaid i"
    "record_topUp_within now t o' i amount (pe_eventId input) s = Inr (row, s1)" "s' = save_creditPurchase found s1"
proof (rule payable_resolves [OF assms(1-3)])
  fix found
  assume run: "\<And>now. resolve_creditPurchase now input s = rbind (require_id (JStr (pe_eventId input))) (\<lambda>eventId.
       rbind (credit_amount (pu_credits found)) (\<lambda>amount.
       rbind (record_topUp_within now t o' i amount eventId s) (\<lambda>(_, s).
       Inr (Resolved PurchasePaid i, save_creditPurchase (found\<lparr>pu_state := PurchasePaid, pu_resolvedAt := Some now,
           pu_stripeEventId := Some eventId\<rparr>) s))))"
  from assms(4) [unfolded run] show thesis by (auto simp: result_simps split: prod.splits intro: that)
qed

section \<open>Errors and ignored events do not depend on the time\<close>

lemma record_verifiedPayment_later: "record_verifiedPayment at input l = Inl e \<Longrightarrow> record_verifiedPayment later input l = Inl e"
  by (cases "find_event (vp_eventId input) l")
    (simp_all only: record_verifiedPayment_def Let_def option.case split: if_split_asm, simp_all)

lemma record_topUp_within_later:
  "record_topUp_within at t o' i amount ev s = Inl e \<Longrightarrow> record_topUp_within later t o' i amount ev s = Inl e"
  by (auto simp: record_topUp_within_def Let_def split: option.splits if_splits)

lemma rbind_Inl_cong: "(m = Inl e \<Longrightarrow> m' = Inl e) \<Longrightarrow> (\<And>x. m = Inr x \<Longrightarrow> m' = Inr x) \<Longrightarrow>
    (\<And>x. f x = Inl e \<Longrightarrow> g x = Inl e) \<Longrightarrow> rbind m f = Inl e \<Longrightarrow> rbind m' g = Inl e"
  by (cases m) auto

lemma resolve_later:
  assumes "keys_ok s" and "resolve_creditPurchase at input s = Inl e"
  shows "resolve_creditPurchase later input s = Inl e"
proof (cases "creditPurchase_by_session (pe_sessionId input) s")
  case None
  with assms(2) show ?thesis by (simp add: resolve_unknown)
next
  case (Some found)
  have paid: "rbind (credit_amount c) (\<lambda>amount. rbind (record_topUp_within later t o' i amount ev s) (\<lambda>(_, s). Inr (g s))) = Inl e"
    if "rbind (credit_amount c) (\<lambda>amount. rbind (record_topUp_within at t o' i amount ev s) (\<lambda>(_, s). Inr (f s))) = Inl e"
    for c t o' i ev and f g :: "fstate \<Rightarrow> purchase_resolution \<times> fstate"
  proof (cases "credit_amount c")
    case (Inr amount)
    with that record_topUp_within_later [of at t o' i amount ev s e later] show ?thesis
      by (cases "record_topUp_within at t o' i amount ev s") (simp_all add: case_prod_unfold)
  qed (use that in simp)
  from assms(2) show ?thesis
    unfolding resolve_by_session [OF assms(1) Some]
    by (cases "require_id (JStr (pe_eventId input))") (simp_all add: paid split: if_split_asm)
qed

lemma resolve_ignored_later:
  assumes "keys_ok s" and "resolve_creditPurchase at input s = Inr (ResolveIgnored reason i, s')"
  shows "resolve_creditPurchase later input s = Inr (ResolveIgnored reason i, s)"
proof (cases "creditPurchase_by_session (pe_sessionId input) s")
  case None
  with assms(2) show ?thesis by (auto simp: resolve_unknown result_simps)
next
  case (Some found)
  from assms(2) show ?thesis
    unfolding resolve_by_session [OF assms(1) Some]
    by (auto simp: result_simps split: if_splits prod.splits)
qed

section \<open>The ledger answers a second time\<close>

lemma filter_by_key: "distinct (map k xs) \<Longrightarrow> x \<in> set xs \<Longrightarrow> filter (\<lambda>y. k y = k x) xs = [x]"
proof (induction xs)
  case (Cons a xs)
  show ?case
  proof (cases "a = x")
    case True
    with Cons.prems(1) have "\<forall>y \<in> set xs. k y \<noteq> k x" by (simp, metis imageI)
    with True show ?thesis by (simp add: filter_empty_conv)
  next
    case False
    with Cons have "k a \<noteq> k x" by force
    with False Cons show ?thesis by simp
  qed
qed simp

lemma known_customer:
  assumes "ledger_rules l" and "payment_customer input \<in> set (lg_billingCustomers l)"
  shows "filter (\<lambda>row. bc_customerId row = vp_customerId input
      \<or> is_business (vp_tenantId input) (vp_organizationId input) (vp_environment input) row) (lg_billingCustomers l)
    = [payment_customer input]"
proof -
  have keys: "distinct (map bc_customerId (lg_billingCustomers l))" "distinct (map business_of (lg_billingCustomers l))"
    using assms(1) by (simp_all add: ledger_rules_def)
  have same: "bc_customerId row = vp_customerId input
      \<or> is_business (vp_tenantId input) (vp_organizationId input) (vp_environment input) row \<longleftrightarrow> bc_customerId row = vp_customerId input"
    if "row \<in> set (lg_billingCustomers l)" for row
    using that keys assms(2) by (auto simp: is_business_iff distinct_map inj_on_def)
  then have "filter (\<lambda>row. bc_customerId row = vp_customerId input
      \<or> is_business (vp_tenantId input) (vp_organizationId input) (vp_environment input) row) (lg_billingCustomers l)
    = filter (\<lambda>row. bc_customerId row = vp_customerId input) (lg_billingCustomers l)" by (rule filter_cong [OF refl])
  also have "\<dots> = [payment_customer input]" using filter_by_key [OF keys(1) assms(2)] by simp
  finally show ?thesis .
qed

text \<open>What is stored for a payment, after whatever the ledger did since.\<close>

lemma record_verifiedPayment_stored:
  assumes "record_verifiedPayment at input l = Inr (new, l')" and "ledger_rules l"
  shows "payment_customer input \<in> set (lg_billingCustomers l')
    \<and> (\<exists>e. find_event (vp_eventId input) l' = Some e \<and> ve_customerId e = Some (vp_customerId input)
        \<and> ve_organizationId e = Some (vp_organizationId input) \<and> ve_tenantId e = Some (vp_tenantId input)
        \<and> ve_payloadHash e = vp_payloadHash input \<and> ve_environment e = vp_environment input)"
  using assms(1)
proof (cases rule: record_verifiedPayment_Inr)
  case (again old)
  from assms(1) again(3) have customer: "ve_customerId old = Some (vp_customerId input)"
    by (auto simp: record_verifiedPayment_def Let_def split: if_splits)
  have "old \<in> set (lg_verifiedEvents l)" using again(3) by (auto simp: find_event_def dest: find_Some_in_set)
  with assms(2) have "event_attributed (lg_billingCustomers l) old" by (simp add: ledger_rules_def)
  with customer again(4-7) obtain row where row: "row \<in> set (lg_billingCustomers l)" "bc_customerId row = vp_customerId input"
      "bc_organizationId row = vp_organizationId input" "bc_tenantId row = vp_tenantId input" "bc_environment row = vp_environment input"
    by (auto simp: event_attributed_def)
  then have "row = payment_customer input" by (simp add: payment_customer_def)
  with row(1) customer again show ?thesis by simp
next
  case (known e)
  then show ?thesis by (simp add: find_event_def find_append split: option.split)
next
  case (first e)
  then show ?thesis by (simp add: find_event_def find_append split: option.split)
qed

lemma event_follows_fields:
  assumes "event_follows e f"
  shows "ve_customerId f = ve_customerId e \<and> ve_organizationId f = ve_organizationId e \<and> ve_tenantId f = ve_tenantId e
    \<and> ve_payloadHash f = ve_payloadHash e \<and> ve_environment f = ve_environment e"
proof -
  from assms have "f = e \<or> (\<exists>st at. f = e\<lparr>ve_state := st, ve_processedAt := at\<rparr>)"
    unfolding event_follows_def by blast
  then show ?thesis by (elim disjE exE) simp_all
qed

lemma record_verifiedPayment_again:
  assumes "record_verifiedPayment at input l = Inr (new, l')" and "ledger_rules l" and "ledger_follows l' m" and "ledger_rules m"
  shows "record_verifiedPayment later input m = Inr (False, m)"
proof -
  from record_verifiedPayment_stored [OF assms(1,2)] obtain e where "payment_customer input \<in> set (lg_billingCustomers l')"
    and e: "find_event (vp_eventId input) l' = Some e" "ve_customerId e = Some (vp_customerId input)"
      "ve_organizationId e = Some (vp_organizationId input)" "ve_tenantId e = Some (vp_tenantId input)"
      "ve_payloadHash e = vp_payloadHash input" "ve_environment e = vp_environment input" by blast
  then have customer: "payment_customer input \<in> set (lg_billingCustomers m)"
    using assms(3) by (auto simp: ledger_follows_def dest: set_mono_prefix)
  from assms(3) e(1) obtain f where f: "find_event (vp_eventId input) m = Some f" "event_follows e f"
    unfolding ledger_follows_def by (metis option_followsD)
  from event_follows_fields [OF f(2)] e have "ve_customerId f = Some (vp_customerId input)" "ve_organizationId f = Some (vp_organizationId input)"
    "ve_tenantId f = Some (vp_tenantId input)" "ve_payloadHash f = vp_payloadHash input" "ve_environment f = vp_environment input"
    by simp_all
  with f(1) known_customer [OF assms(4) customer] show ?thesis by (simp add: record_verifiedPayment_def)
qed

lemma record_ignoredEvent_again:
  assumes "record_ignoredEvent at input l = Inr (new, l')"
  shows "record_ignoredEvent later input l' = Inr (False, l')"
proof (cases "find_event (ie_eventId input) l")
  case (Some old)
  with assms show ?thesis by (auto simp: record_ignoredEvent_def split: if_splits)
next
  case None
  with assms show ?thesis
    by (auto simp: record_ignoredEvent_def Let_def find_event_def find_append)
qed

lemma record_ignoredEvent_later: "record_ignoredEvent at input l = Inl e \<Longrightarrow> record_ignoredEvent later input l = Inl e"
  by (auto simp: record_ignoredEvent_def Let_def split: option.splits if_splits)

text \<open>An event leaves pending once: a mark after a mark does nothing.\<close>

lemma mark_event_again:
  assumes "st \<noteq> EventPending" and "ledger_rules l"
  shows "mark_event later env i st' (snd (mark_event at env i st l)) = (False, snd (mark_event at env i st l))"
proof (cases rule: mark_event_cases [of at env i st l])
  case left
  then show ?thesis by (cases "find (\<lambda>row. ve_eventId row = i \<and> ve_environment row = env) (lg_verifiedEvents l)") (auto simp: mark_event_def split: if_splits)
next
  case (moved row)
  let ?mine = "\<lambda>row. ve_eventId row = i \<and> ve_environment row = env"
  let ?row = "row\<lparr>ve_state := st, ve_processedAt := (if st = EventProcessed then Some at else None)\<rparr>"
  have "?mine ?row" using moved(1) by (auto dest: find_Some_in_set)
  then have "find ?mine (upsert ?mine ?row (lg_verifiedEvents l)) = Some ?row" by (rule find_upsert_same)
  with assms(1) moved(3) show ?thesis by (simp add: mark_event_def)
qed

section \<open>A second delivery\<close>

definition billing_ok :: "billing_state \<Rightarrow> bool" where
  "billing_ok b \<longleftrightarrow> rows_ok (bl_funding b) \<and> ledger_rules (bl_ledger b)"

lemma billing_okD: "billing_ok b \<Longrightarrow> rows_ok (bl_funding b)" "billing_ok b \<Longrightarrow> keys_ok (bl_funding b)" "billing_ok b \<Longrightarrow> ledger_rules (bl_ledger b)"
  by (simp_all add: billing_ok_def rows_ok_def)

lemma resolve_keeps_rows: "resolve_creditPurchase now input s = Inr (x, s') \<Longrightarrow> rows_ok s \<Longrightarrow> rows_ok s'"
  by (rule rows_ok_moves [OF resolve_creditPurchase_refines])

lemma resolved_again:
  assumes "rows_ok s" and "resolve_creditPurchase now input s = Inr (Resolved st i, s')"
  shows "\<exists>reason i. preview_creditPurchase input s' = Inr (PreviewIgnored reason i, s')"
    and "\<exists>reason i. resolve_creditPurchase later input s' = Inr (ResolveIgnored reason i, s')"
proof -
  have keys: "keys_ok s" "keys_ok s'" using assms(1) resolve_keeps_rows [OF assms(2,1)] by (simp_all add: rows_ok_def)
  obtain row where row: "creditPurchase_by_session (pe_sessionId input) s' = Some row" "pu_environment row = pe_environment input"
      "\<not> names_another_purchase row input" "pu_state row \<noteq> PurchasePending"
    by (rule resolve_closes [OF keys assms(2)])
  have "id_pattern (pe_eventId input)" using assms(2) by (auto simp: resolve_creditPurchase_def result_simps)
  then show "\<exists>reason i. preview_creditPurchase input s' = Inr (PreviewIgnored reason i, s')"
    "\<exists>reason i. resolve_creditPurchase later input s' = Inr (ResolveIgnored reason i, s')"
    using closed_again [OF keys(2) row] by blast+
qed

lemma apply_unstored_again:
  assumes "apply_event now event object kind environment False b = (None, b')" and "rows_ok (bl_funding b)"
  shows "apply_event later event object kind environment False b' = (None, b')"
proof (cases "resolve_creditPurchase now (purchase_ask event object kind environment) (bl_funding b)")
  case (Inl e)
  from resolve_later [OF _ this] assms(2)
  have "resolve_creditPurchase later (purchase_ask event object kind environment) (bl_funding b) = Inl e" by (simp add: rows_ok_def)
  with assms(1) Inl show ?thesis by (cases e) (simp_all add: apply_event_def transaction_def)
next
  case (Inr answer)
  then obtain result f where run: "resolve_creditPurchase now (purchase_ask event object kind environment) (bl_funding b) = Inr (result, f)"
    by (cases answer) simp
  with assms(1) have b': "b' = b\<lparr>bl_funding := f\<rparr>" by (simp add: apply_event_def transaction_def)
  have "\<exists>reason i. resolve_creditPurchase later (purchase_ask event object kind environment) f = Inr (ResolveIgnored reason i, f)"
  proof (cases result)
    case (Resolved st i)
    with resolved_again(2) [OF assms(2)] run show ?thesis by simp
  next
    case (ResolveIgnored reason i)
    with resolve_ignored_later [of "bl_funding b" now] run assms(2) resolve_creditPurchase_ignored show ?thesis by (metis rows_ok_def)
  qed
  then show ?thesis by (auto simp: b' apply_event_def transaction_def)
qed

lemma store_payment_Inr:
  assumes "store_payment sha256 now event object raw environment b = Inr (True, b')"
  obtains t o' i customerId new l where
    "preview_creditPurchase (purchase_ask event object EventPaid environment) (bl_funding b) = Inr (Payable t o' i, bl_funding b)"
    "customer_of (cs_customer object) = Some customerId"
    "record_verifiedPayment now \<lparr>vp_environment = environment, vp_eventId = ev_id event, vp_customerId = customerId,
       vp_organizationId = o', vp_tenantId = t, vp_payloadHash = sha256 raw, vp_eventType = ev_type event\<rparr> (bl_ledger b) = Inr (new, l)"
    "b' = b\<lparr>bl_ledger := l\<rparr>"
proof (cases "preview_creditPurchase (purchase_ask event object EventPaid environment) (bl_funding b)")
  case (Inr answer)
  then obtain preview where preview: "preview_creditPurchase (purchase_ask event object EventPaid environment) (bl_funding b)
      = Inr (preview, bl_funding b)" by (auto simp: preview_creditPurchase_def)
  with assms that show thesis
    by (cases preview) (auto simp: store_payment_def split: option.splits sum.splits prod.splits)
qed (use assms in \<open>simp add: store_payment_def\<close>)

lemma store_payment_unchanged:
  assumes "store_payment sha256 now event object raw environment b = Inr (False, b')"
  shows "b' = b" and "store_payment sha256 later event object raw environment b = Inr (False, b)"
  using assms by (auto simp: store_payment_def split: option.splits sum.splits prod.splits purchase_preview.splits)

lemma store_payment_later:
  assumes "store_payment sha256 now event object raw environment b = Inl e"
  shows "store_payment sha256 later event object raw environment b = Inl e"
  using assms
  by (fastforce simp: store_payment_def split: option.split_asm sum.split_asm prod.split_asm purchase_preview.split_asm
      dest: record_verifiedPayment_later [where later = later])

text \<open>The event paid, but its purchase could not be credited: it stays stored, and is stored still when it comes again.\<close>

lemma refused_payment_again:
  assumes "store_payment sha256 now event object raw environment b = Inr (True, b1)" and "billing_ok b"
    and "resolve_creditPurchase now (purchase_ask event object EventPaid environment) (bl_funding b) = Inl e"
    and "b' = mark now (ev_id event) environment EventQuarantined b1"
  shows "store_payment sha256 later event object raw environment b' = Inr (True, b')"
    and "apply_event later event object EventPaid environment True b' = caught later (ev_id event) environment True (FromFunding e) b'"
    and "mark later (ev_id event) environment EventQuarantined b' = b'"
proof -
  obtain t o' i c new l where
    preview: "preview_creditPurchase (purchase_ask event object EventPaid environment) (bl_funding b) = Inr (Payable t o' i, bl_funding b)"
    and c: "customer_of (cs_customer object) = Some c"
    and stored: "record_verifiedPayment now \<lparr>vp_environment = environment, vp_eventId = ev_id event, vp_customerId = c,
       vp_organizationId = o', vp_tenantId = t, vp_payloadHash = sha256 raw, vp_eventType = ev_type event\<rparr> (bl_ledger b) = Inr (new, l)"
    and b1: "b1 = b\<lparr>bl_ledger := l\<rparr>" by (rule store_payment_Inr [OF assms(1)])
  let ?l = "snd (mark_event now environment (ev_id event) EventQuarantined l)"
  have rules: "ledger_rules l" using record_verifiedPayment_rules [OF stored billing_okD(3) [OF assms(2)]] .
  then have "ledger_follows l ?l" "ledger_rules ?l" by (simp_all add: mark_event_follows mark_event_rules)
  with record_verifiedPayment_again [OF stored billing_okD(3) [OF assms(2)]] have "record_verifiedPayment later \<lparr>vp_environment = environment,
     vp_eventId = ev_id event, vp_customerId = c, vp_organizationId = o', vp_tenantId = t, vp_payloadHash = sha256 raw,
     vp_eventType = ev_type event\<rparr> ?l = Inr (False, ?l)" by blast
  moreover have b': "b' = b\<lparr>bl_ledger := ?l\<rparr>" by (simp add: assms(4) b1 mark_def)
  ultimately show "store_payment sha256 later event object raw environment b' = Inr (True, b')"
    using preview c by (simp add: store_payment_def)
  have "resolve_creditPurchase later (purchase_ask event object EventPaid environment) (bl_funding b) = Inl e"
    by (rule resolve_later [OF billing_okD(2) [OF assms(2)] assms(3)])
  then show "apply_event later event object EventPaid environment True b' = caught later (ev_id event) environment True (FromFunding e) b'"
    by (simp add: b' apply_event_def transaction_def)
  show "mark later (ev_id event) environment EventQuarantined b' = b'"
    using mark_event_again [of EventQuarantined l later environment "ev_id event" EventQuarantined now] rules by (simp add: b' mark_def)
qed

lemma payment_not_ignored:
  assumes "store_payment sha256 now event object raw environment b = Inr (True, b1)" and "billing_ok b"
    and "resolve_creditPurchase now (purchase_ask event object EventPaid environment) (bl_funding b) = Inr (result, f)"
  obtains i where "result = Resolved PurchasePaid i"
proof -
  obtain t o' i where
    preview: "preview_creditPurchase (purchase_ask event object EventPaid environment) (bl_funding b) = Inr (Payable t o' i, bl_funding b)"
    by (rule store_payment_Inr [OF assms(1)])
  have paid: "pe_kind (purchase_ask event object EventPaid environment) = EventPaid" by (simp add: purchase_ask_def)
  show thesis by (rule payable_resolved [OF billing_okD(2) [OF assms(2)] preview paid assms(3)]) (rule that)
qed

lemma checkout_again:
  assumes "checkout sha256 now event raw environment b = (None, b')" and "billing_ok b"
  shows "checkout sha256 later event raw environment b' = (None, b')"
proof (cases "map_of kinds (ev_type event) = None \<or> session_of (ev_object event) = None
    \<or> map_of kinds (ev_type event) = Some EventPaid \<and> cs_paymentStatus (the (session_of (ev_object event))) \<noteq> Some ''paid''")
  case True
  with assms(1) show ?thesis by (auto simp: checkout_def split: option.splits)
next
  case False
  then obtain kind object where kind: "map_of kinds (ev_type event) = Some kind" and object: "session_of (ev_object event) = Some object"
    and paid: "kind = EventPaid \<longrightarrow> cs_paymentStatus object = Some ''paid''" by auto
  show ?thesis
  proof (cases "kind = EventPaid")
    case False
    with kind object assms(1) have "apply_event now event object kind environment False b = (None, b')" by (simp add: checkout_def)
    from apply_unstored_again [OF this billing_okD(1) [OF assms(2)]] kind object False show ?thesis by (simp add: checkout_def)
  next
    case True
    note unfold = checkout_def kind object True paid [rule_format, OF True]
    let ?ask = "purchase_ask event object EventPaid environment"
    show ?thesis
    proof (cases "store_payment sha256 now event object raw environment b")
      case (Inl e)
      with assms(1) have caught: "caught now (ev_id event) environment False e b = (None, b')" by (simp add: unfold)
      then have "b' = b" "caught later (ev_id event) environment False e b = (None, b)"
        by (cases "(now, ev_id event, environment, False, e, b)" rule: caught.cases; auto split: if_splits)+
      with store_payment_later [OF Inl] show ?thesis by (simp add: unfold)
    next
      case (Inr answer)
      obtain stored b1 where answer: "answer = (stored, b1)" by (cases answer)
      show ?thesis
      proof (cases stored)
        case False
        with Inr answer store_payment_unchanged [of sha256 now event object raw environment b b1] assms(1) show ?thesis
          by (simp add: unfold)
      next
        case True
        with Inr answer have run: "store_payment sha256 now event object raw environment b = Inr (True, b1)" by simp
        then have funding: "bl_funding b1 = bl_funding b" by (elim store_payment_Inr) simp
        then have same: "b1\<lparr>bl_funding := bl_funding b\<rparr> = b1" by (simp add: funding [symmetric])
        from assms(1) run have apply': "apply_event now event object EventPaid environment True b1 = (None, b')" by (simp add: unfold)
        show ?thesis
        proof (cases "resolve_creditPurchase now ?ask (bl_funding b)")
          case (Inl e)
          with apply' funding obtain status code where e: "e = FundingError status code"
            and b': "b' = mark now (ev_id event) environment EventQuarantined b1"
            by (cases e) (simp_all add: apply_event_def transaction_def same)
          from refused_payment_again [OF run assms(2) Inl b'] show ?thesis by (simp add: unfold e)
        next
          case (Inr answer)
          obtain result f where result: "answer = (result, f)" by (cases answer)
          with Inr payment_not_ignored [OF run assms(2)] obtain i where
            resolved: "resolve_creditPurchase now ?ask (bl_funding b) = Inr (Resolved PurchasePaid i, f)" by metis
          from apply' funding resolved have "bl_funding b' = f" by (simp add: apply_event_def transaction_def mark_def) auto
          with resolved_again(1) [OF billing_okD(1) [OF assms(2)] resolved] show ?thesis
            by (auto simp: unfold store_payment_def)
        qed
      qed
    qed
  qed
qed

section \<open>What a delivery changes\<close>

text \<open>A paid event that reached the purchase is stored for the purchase's business.\<close>

definition stored_for :: "string \<Rightarrow> string \<Rightarrow> string \<Rightarrow> environment \<Rightarrow> ledger_state \<Rightarrow> bool" where
  "stored_for eventId t o' environment l \<longleftrightarrow> (\<exists>e. find_event eventId l = Some e \<and> ve_tenantId e = Some t
     \<and> ve_organizationId e = Some o' \<and> ve_environment e = environment)"

definition delivery_changes :: "int \<Rightarrow> string \<Rightarrow> environment \<Rightarrow> billing_state \<Rightarrow> billing_state \<Rightarrow> bool" where
  "delivery_changes now eventId environment b b' \<longleftrightarrow>
     ledger_rules (bl_ledger b') \<and> ledger_follows (bl_ledger b) (bl_ledger b')
     \<and> (bl_funding b' = bl_funding b \<or> (\<exists>ask result. resolve_creditPurchase now ask (bl_funding b) = Inr (result, bl_funding b')
         \<and> pe_eventId ask = eventId \<and> pe_environment ask = environment
         \<and> (pe_kind ask = EventPaid \<longrightarrow> (\<exists>t o' i. preview_creditPurchase ask (bl_funding b) = Inr (Payable t o' i, bl_funding b)
              \<and> stored_for eventId t o' environment (bl_ledger b')))))"

lemma delivery_changes_nothing: "billing_ok b \<Longrightarrow> delivery_changes now eventId environment b b"
  by (simp add: delivery_changes_def billing_ok_def ledger_follows_refl)

lemma stored_for_follows: "stored_for i t o' env l \<Longrightarrow> ledger_follows l m \<Longrightarrow> stored_for i t o' env m"
  unfolding stored_for_def ledger_follows_def by (metis option_followsD event_follows_fields)

lemma mark_changes:
  assumes "ledger_rules (bl_ledger b)" and "st = EventProcessed \<or> st = EventQuarantined"
  shows "ledger_rules (bl_ledger (mark now i env st b)) \<and> ledger_follows (bl_ledger b) (bl_ledger (mark now i env st b))
    \<and> bl_funding (mark now i env st b) = bl_funding b"
  using assms mark_event_rules [OF assms(1), of st] mark_event_follows [OF assms(2,1)] by (auto simp: mark_def)

lemma caught_changes:
  assumes "ledger_rules (bl_ledger b)" and "caught now i env stored error b = (r, b')"
  shows "ledger_rules (bl_ledger b') \<and> ledger_follows (bl_ledger b) (bl_ledger b') \<and> bl_funding b' = bl_funding b"
  using assms(2) mark_changes [OF assms(1), of EventQuarantined now i env] ledger_follows_refl assms(1)
  by (cases "(now, i, env, stored, error, b)" rule: caught.cases) (auto split: if_splits)

lemma apply_changes:
  assumes "apply_event now event object kind env stored b = (r, b')" and "ledger_rules (bl_ledger b)"
  shows "ledger_rules (bl_ledger b') \<and> ledger_follows (bl_ledger b) (bl_ledger b')
    \<and> (bl_funding b' = bl_funding b
       \<or> (\<exists>result. resolve_creditPurchase now (purchase_ask event object kind env) (bl_funding b) = Inr (result, bl_funding b')))"
proof (cases "resolve_creditPurchase now (purchase_ask event object kind env) (bl_funding b)")
  case (Inl e)
  with assms(1) have "caught now (ev_id event) env stored (FromFunding e) (b\<lparr>bl_funding := bl_funding b\<rparr>) = (r, b')"
    by (simp add: apply_event_def transaction_def)
  from caught_changes [OF _ this] assms(2) show ?thesis by simp
next
  case (Inr answer)
  obtain result f where answer: "answer = (result, f)" by (cases answer)
  let ?b = "b\<lparr>bl_funding := f\<rparr>"
  let ?st = "if refused_for_good result then EventQuarantined else EventProcessed"
  have "b' = (if stored then mark now (ev_id event) env ?st ?b else ?b)"
    using assms(1) Inr answer by (simp add: apply_event_def transaction_def split: if_splits)
  with mark_changes [of ?b ?st now "ev_id event" env] assms(2) Inr answer ledger_follows_refl show ?thesis
    by (cases stored) simp_all
qed

lemma checkout_changes:
  assumes "checkout sha256 now event raw environment b = (r, b')" and "billing_ok b"
  shows "delivery_changes now (ev_id event) environment b b'"
proof (cases "b' = b")
  case True
  with delivery_changes_nothing [OF assms(2)] show ?thesis by simp
next
  case changed: False
  with assms(1) obtain kind object where kind: "map_of kinds (ev_type event) = Some kind" and object: "session_of (ev_object event) = Some object"
    and paid: "kind = EventPaid \<longrightarrow> cs_paymentStatus object = Some ''paid''"
    by (auto simp: checkout_def split: option.splits if_splits)
  show ?thesis
  proof (cases "kind = EventPaid")
    case False
    with kind object assms(1) have "apply_event now event object kind environment False b = (r, b')" by (simp add: checkout_def)
    from apply_changes [OF this billing_okD(3) [OF assms(2)]] False show ?thesis
      by (auto simp: delivery_changes_def intro!: exI [of _ "purchase_ask event object kind environment"]) (auto simp: purchase_ask_def)
  next
    case True
    note unfold = checkout_def kind object True paid [rule_format, OF True]
    show ?thesis
    proof (cases "store_payment sha256 now event object raw environment b")
      case (Inl e)
      with assms(1) have "caught now (ev_id event) environment False e b = (r, b')" by (simp add: unfold)
      from caught_changes [OF billing_okD(3) [OF assms(2)] this] show ?thesis by (simp add: delivery_changes_def)
    next
      case (Inr answer)
      obtain stored b1 where answer: "answer = (stored, b1)" by (cases answer)
      with changed assms(1) Inr store_payment_unchanged(1) [of sha256 now event object raw environment b b1] have stored
        by (cases stored) (simp_all add: unfold)
      with Inr answer have run: "store_payment sha256 now event object raw environment b = Inr (True, b1)" by simp
      obtain t o' i c new l where
        preview: "preview_creditPurchase (purchase_ask event object EventPaid environment) (bl_funding b) = Inr (Payable t o' i, bl_funding b)"
        and c: "customer_of (cs_customer object) = Some c"
        and recorded: "record_verifiedPayment now \<lparr>vp_environment = environment, vp_eventId = ev_id event, vp_customerId = c,
           vp_organizationId = o', vp_tenantId = t, vp_payloadHash = sha256 raw, vp_eventType = ev_type event\<rparr> (bl_ledger b) = Inr (new, l)"
        and b1: "b1 = b\<lparr>bl_ledger := l\<rparr>" by (rule store_payment_Inr [OF run])
      have l: "ledger_rules l" "ledger_follows (bl_ledger b) l" "stored_for (ev_id event) t o' environment l"
        using record_verifiedPayment_rules [OF recorded] record_verifiedPayment_follows [OF recorded]
          record_verifiedPayment_stored [OF recorded] billing_okD(3) [OF assms(2)] by (auto simp: stored_for_def)
      from assms(1) run have "apply_event now event object EventPaid environment True b1 = (r, b')" by (simp add: unfold)
      from apply_changes [OF this] l(1) have after: "ledger_rules (bl_ledger b')" "ledger_follows l (bl_ledger b')"
        "bl_funding b' = bl_funding b \<or> (\<exists>result. resolve_creditPurchase now (purchase_ask event object EventPaid environment) (bl_funding b)
           = Inr (result, bl_funding b'))" by (simp_all add: b1)
      moreover have "pe_eventId (purchase_ask event object EventPaid environment) = ev_id event"
        "pe_environment (purchase_ask event object EventPaid environment) = environment" by (simp_all add: purchase_ask_def)
      ultimately show ?thesis
        using preview ledger_follows_trans [OF l(2) after(2)] stored_for_follows [OF l(3) after(2)] unfolding delivery_changes_def by blast
    qed
  qed
qed

lemma ignore_changes:
  assumes "ignore sha256 now event raw environment b = (r, b')" and "billing_ok b"
  shows "delivery_changes now (ev_id event) environment b b'"
proof (cases "record_ignoredEvent now \<lparr>ie_environment = environment, ie_eventId = ev_id event,
    ie_customerId = object_customer (ev_object event), ie_payloadHash = sha256 raw, ie_eventType = ev_type event\<rparr> (bl_ledger b)")
  case (Inl e)
  with assms(1) have "b' = b" by (cases e) (auto simp: ignore_def split: if_splits)
  with delivery_changes_nothing [OF assms(2)] show ?thesis by simp
next
  case (Inr answer)
  obtain new l where answer: "answer = (new, l)" by (cases answer)
  with assms(1) Inr have "b' = b\<lparr>bl_ledger := l\<rparr>" by (simp add: ignore_def)
  with Inr answer record_ignoredEvent_rules record_ignoredEvent_follows billing_okD(3) [OF assms(2)] show ?thesis
    by (simp add: delivery_changes_def)
qed

lemma ignore_again:
  assumes "ignore sha256 now event raw environment b = (None, b')"
  shows "ignore sha256 later event raw environment b' = (None, b')"
proof (cases "record_ignoredEvent now \<lparr>ie_environment = environment, ie_eventId = ev_id event,
    ie_customerId = object_customer (ev_object event), ie_payloadHash = sha256 raw, ie_eventType = ev_type event\<rparr> (bl_ledger b)")
  case (Inl e)
  with assms record_ignoredEvent_later [OF Inl] show ?thesis by (cases e) (auto simp: ignore_def split: if_splits)
next
  case (Inr answer)
  obtain new l where "answer = (new, l)" by (cases answer)
  with Inr assms record_ignoredEvent_again show ?thesis by (fastforce simp: ignore_def)
qed

section \<open>The receiver\<close>

lemma dispatch_kinds:
  "dispatch (map (\<lambda>(type, _). (type, h)) kinds) unknown type = (if map_of kinds type = None then unknown else h)"
  by (simp add: dispatch_def kinds_def)

text \<open>A request the receiver acts on: its body read, signed and an event of the Worker's mode.\<close>

definition accepted :: "(string \<Rightarrow> string \<Rightarrow> string) \<Rightarrow> (string \<Rightarrow> jval option) \<Rightarrow> billing_settings \<Rightarrow> int \<Rightarrow> webhook_request
    \<Rightarrow> string \<Rightarrow> stripe_event \<Rightarrow> bool" where
  "accepted hmac parse settings now request raw event \<longleftrightarrow> rq_body request = Some raw \<and> length raw \<le> webhook_body_limit
     \<and> (\<exists>secret. bs_stripeWebhookSecret settings = Some secret \<and> signed_body hmac settings now raw (rq_signature request) secret)
     \<and> Option.bind (parse raw) event_of = Some event \<and> (ev_livemode event \<longleftrightarrow> bs_mode settings = LiveEnv)"

lemma handle_webhook_cases:
  assumes "handle_webhook hmac sha256 parse settings now request b = (status, b')"
  obtains (refused) "b' = b" "status \<in> {400, 413, 503}" "\<And>raw event. \<not> accepted hmac parse settings now request raw event"
  | (taken) raw event r where "accepted hmac parse settings now request raw event" "status = (if r = None then 200 else 503)"
      "(if map_of kinds (ev_type event) = None then ignore sha256 now event raw (bs_mode settings) b
        else checkout sha256 now event raw (bs_mode settings) b) = (r, b')"
proof (cases "\<exists>raw event. accepted hmac parse settings now request raw event")
  case True
  then obtain raw event secret where acc: "accepted hmac parse settings now request raw event"
    and facts: "rq_body request = Some raw" "\<not> webhook_body_limit < length raw" "bs_stripeWebhookSecret settings = Some secret"
      "signed_body hmac settings now raw (rq_signature request) secret" "Option.bind (parse raw) event_of = Some event"
      "ev_livemode event \<longleftrightarrow> bs_mode settings = LiveEnv" by (auto simp: accepted_def)
  obtain r b1 where run: "(if map_of kinds (ev_type event) = None then ignore sha256 now event raw (bs_mode settings) b
        else checkout sha256 now event raw (bs_mode settings) b) = (r, b1)"
    by (cases "if map_of kinds (ev_type event) = None then ignore sha256 now event raw (bs_mode settings) b
        else checkout sha256 now event raw (bs_mode settings) b")
  with assms facts have "b' = b1" "status = (if r = None then 200 else 503)"
    by (auto simp: handle_webhook_def dispatch_kinds split: option.splits if_splits)
  with taken [OF acc] run show thesis by simp
next
  case False
  have "b' = b \<and> status \<in> {400, 413, 503}"
    using assms False
    by (simp add: handle_webhook_def accepted_def not_less split: option.splits if_splits)
  with False refused show thesis by blast
qed

lemma handle_webhook_changes:
  assumes "handle_webhook hmac sha256 parse settings now request b = (status, b')" and "billing_ok b" and "b' \<noteq> b"
  obtains raw event where "accepted hmac parse settings now request raw event"
    "delivery_changes now (ev_id event) (bs_mode settings) b b'" "status \<in> {200, 503}"
  using assms(1)
proof (cases rule: handle_webhook_cases)
  case (taken raw event r)
  then have "delivery_changes now (ev_id event) (bs_mode settings) b b'"
    by (auto split: if_splits intro: ignore_changes checkout_changes assms(2))
  with taken that show thesis by simp
qed (use assms(3) in simp)

lemma delivery_keeps_ok: "delivery_changes now i env b b' \<Longrightarrow> billing_ok b \<Longrightarrow> billing_ok b'"
  by (auto simp: delivery_changes_def billing_ok_def intro: resolve_keeps_rows)

text \<open>The same body again: its signature header may be another, as Stripe signs each attempt anew.\<close>

lemma handle_webhook_again:
  assumes "handle_webhook hmac sha256 parse settings now request b = (200, b')" and "billing_ok b"
    and "rq_body again = rq_body request"
  shows "snd (handle_webhook hmac sha256 parse settings later again b') = b'"
proof -
  obtain status b'' where again: "handle_webhook hmac sha256 parse settings later again b' = (status, b'')"
    by (cases "handle_webhook hmac sha256 parse settings later again b'")
  from assms(1) obtain raw event where first: "accepted hmac parse settings now request raw event"
    and run: "(if map_of kinds (ev_type event) = None then ignore sha256 now event raw (bs_mode settings) b
        else checkout sha256 now event raw (bs_mode settings) b) = (None, b')"
    by (cases rule: handle_webhook_cases) (auto split: if_splits)
  from again show ?thesis
  proof (cases rule: handle_webhook_cases)
    case (taken raw' event' r)
    with first assms(3) have "raw' = raw" "event' = event" by (auto simp: accepted_def)
    with taken(3) run have "b'' = b'"
      by (auto split: if_splits dest: ignore_again [where later = later] checkout_again [OF _ assms(2), where later = later])
    with again show ?thesis by simp
  qed (use again in simp)
qed

section \<open>A purchase stays resolved\<close>

text \<open>A delivery that changes the funding tables resolved the purchase its event names.\<close>

lemma apply_resolved:
  assumes "apply_event now event object kind env stored b = (r, b')" and "bl_funding b' \<noteq> bl_funding b"
  obtains st i where "resolve_creditPurchase now (purchase_ask event object kind env) (bl_funding b) = Inr (Resolved st i, bl_funding b')"
proof (cases "resolve_creditPurchase now (purchase_ask event object kind env) (bl_funding b)")
  case (Inl e)
  with assms(1) have "caught now (ev_id event) env stored (FromFunding e) b = (r, b')"
    by (simp add: apply_event_def transaction_def)
  then have "bl_funding b' = bl_funding b"
    by (cases "(now, ev_id event, env, stored, FromFunding e, b)" rule: caught.cases) (auto simp: mark_def split: if_splits)
  with assms(2) show thesis by simp
next
  case (Inr answer)
  obtain result f where answer: "answer = (result, f)" by (cases answer)
  with assms(1) Inr have f: "bl_funding b' = f" by (auto simp: apply_event_def transaction_def mark_def split: if_splits)
  show thesis
  proof (cases result)
    case (Resolved st i)
    with Inr answer f that show thesis by simp
  next
    case (ResolveIgnored reason i)
    with Inr answer have "f = bl_funding b" by (auto dest: resolve_creditPurchase_ignored)
    with f assms(2) show thesis by simp
  qed
qed

lemma checkout_resolved:
  assumes "checkout sha256 now event raw environment b = (r, b')" and "bl_funding b' \<noteq> bl_funding b"
  obtains kind object st i where "map_of kinds (ev_type event) = Some kind" "session_of (ev_object event) = Some object"
    "resolve_creditPurchase now (purchase_ask event object kind environment) (bl_funding b) = Inr (Resolved st i, bl_funding b')"
proof -
  from assms obtain kind object where kind: "map_of kinds (ev_type event) = Some kind" and object: "session_of (ev_object event) = Some object"
    by (auto simp: checkout_def split: option.splits)
  have "\<exists>stored b1. apply_event now event object kind environment stored b1 = (r, b') \<and> bl_funding b1 = bl_funding b"
  proof (cases "kind = EventPaid")
    case False
    with kind object assms(1) have "apply_event now event object kind environment False b = (r, b')" by (simp add: checkout_def)
    then show ?thesis by blast
  next
    case True
    with assms kind object have paid: "cs_paymentStatus object = Some ''paid''" by (auto simp: checkout_def split: if_splits)
    note unfold = checkout_def kind object True paid
    show ?thesis
    proof (cases "store_payment sha256 now event object raw environment b")
      case (Inl e)
      with assms(1) have "caught now (ev_id event) environment False e b = (r, b')" by (simp add: unfold)
      then have "b' = b" by (cases "(now, ev_id event, environment, False, e, b)" rule: caught.cases) (auto split: if_splits)
      with assms(2) show ?thesis by simp
    next
      case (Inr answer)
      obtain stored b1 where answer: "answer = (stored, b1)" by (cases answer)
      have stored
        using assms Inr answer store_payment_unchanged(1) [of sha256 now event object raw environment b b1]
        by (cases stored) (auto simp: unfold)
      with Inr answer have run: "store_payment sha256 now event object raw environment b = Inr (True, b1)" by simp
      then have "bl_funding b1 = bl_funding b" by (elim store_payment_Inr) simp
      moreover have "apply_event now event object kind environment True b1 = (r, b')" using assms(1) run by (simp add: unfold)
      ultimately show ?thesis by blast
    qed
  qed
  then obtain stored b1 where run: "apply_event now event object kind environment stored b1 = (r, b')"
    and same: "bl_funding b1 = bl_funding b" by blast
  from assms(2) same have "bl_funding b' \<noteq> bl_funding b1" by simp
  from apply_resolved [OF run this] show thesis using that [OF kind object] by (metis same)
qed

text \<open>The purchase an event resolved: under the key its metadata names, closed.\<close>

lemma resolved_row:
  assumes "keys_ok s" and "keys_ok s'" and "resolve_creditPurchase now ask s = Inr (Resolved st i, s')"
  obtains row where "tx_creditPurchase (pu_tenantId row) (pu_purchaseId row) s' = Some row" "\<not> names_another_purchase row ask"
    "pu_state row \<noteq> PurchasePending" "id_pattern (pe_eventId ask)"
proof -
  obtain row where row: "creditPurchase_by_session (pe_sessionId ask) s' = Some row" "\<not> names_another_purchase row ask"
    "pu_state row \<noteq> PurchasePending" by (rule resolve_closes [OF assms])
  moreover have "id_pattern (pe_eventId ask)" using assms(3) by (auto simp: resolve_creditPurchase_def result_simps)
  ultimately show thesis using purchase_by_session(1) [OF assms(2) row(1)] that by blast
qed

lemma named_purchase:
  assumes "\<not> names_another_purchase row ask"
  shows "pe_tenantId ask = Some (pu_tenantId row)" and "pe_purchaseId ask = Some (pu_purchaseId row)"
  using assms by (auto simp: names_another_purchase_def)

text \<open>Every later ledger ignores the event: no purchase has its session, or another one has, or the closed one has it still.\<close>

lemma resolved_ignored:
  assumes "tx_creditPurchase (pu_tenantId row) (pu_purchaseId row) s = Some row" and "\<not> names_another_purchase row ask"
    and "pu_state row \<noteq> PurchasePending" and "id_pattern (pe_eventId ask)" and "history s s'" and "keys_ok s'"
  shows "\<exists>reason i. preview_creditPurchase ask s' = Inr (PreviewIgnored reason i, s')"
    and "\<exists>reason i. resolve_creditPurchase later ask s' = Inr (ResolveIgnored reason i, s')"
proof -
  have kept: "tx_creditPurchase (pu_tenantId row) (pu_purchaseId row) s' = Some row"
  proof -
    have "option_follows purchase_follows (tx_creditPurchase (pu_tenantId row) (pu_purchaseId row) s)
        (tx_creditPurchase (pu_tenantId row) (pu_purchaseId row) s')" using assms(5) by (simp add: history_def)
    from option_followsD [OF this [unfolded assms(1)]] assms(3) show ?thesis by (auto simp: purchase_follows_def)
  qed
  have closed: "pu_state found \<noteq> PurchasePending"
    if "creditPurchase_by_session (pe_sessionId ask) s' = Some found" "\<not> names_another_purchase found ask" for found
  proof -
    note mine = named_purchase [OF assms(2)] and theirs = named_purchase [OF that(2)]
    have "pu_tenantId found = pu_tenantId row" "pu_purchaseId found = pu_purchaseId row"
      using trans [OF theirs(1) [symmetric] mine(1)] trans [OF theirs(2) [symmetric] mine(2)] by simp_all
    then have "Some found = Some row" using purchase_by_session(1) [OF assms(6) that(1)] kept by (simp only:)
    then have "found = row" by (rule option.inject [THEN iffD1])
    with assms(3) show ?thesis by (simp only: not_False_eq_True)
  qed
  have known: "require_id (JStr (pe_eventId ask)) = Inr (pe_eventId ask)" using assms(4) by (simp add: require_id_def)
  have ignored: "(\<exists>reason i. preview_creditPurchase ask s' = Inr (PreviewIgnored reason i, s'))
      \<and> (\<exists>reason i. resolve_creditPurchase later ask s' = Inr (ResolveIgnored reason i, s'))"
  proof (cases "creditPurchase_by_session (pe_sessionId ask) s'")
    case None
    then show ?thesis by (simp add: preview_creditPurchase_def resolve_unknown known)
  next
    case (Some found)
    consider "pu_environment found \<noteq> pe_environment ask" | "pu_environment found = pe_environment ask" "names_another_purchase found ask"
      | "pu_environment found = pe_environment ask" "\<not> names_another_purchase found ask" "pu_state found \<noteq> PurchasePending"
      using closed [OF Some] by blast
    then show ?thesis by cases (simp_all add: preview_creditPurchase_def resolve_by_session [OF assms(6) Some] Some known)
  qed
  from ignored show "\<exists>reason i. preview_creditPurchase ask s' = Inr (PreviewIgnored reason i, s')" by (rule conjunct1)
  from ignored show "\<exists>reason i. resolve_creditPurchase later ask s' = Inr (ResolveIgnored reason i, s')" by (rule conjunct2)
qed

lemma checkout_ignored:
  assumes "map_of kinds (ev_type event) = Some kind" and "session_of (ev_object event) = Some object"
    and "\<exists>reason i. preview_creditPurchase (purchase_ask event object kind environment) (bl_funding b) = Inr (PreviewIgnored reason i, bl_funding b)"
    and "\<exists>reason i. resolve_creditPurchase later (purchase_ask event object kind environment) (bl_funding b) = Inr (ResolveIgnored reason i, bl_funding b)"
  shows "checkout sha256 later event raw environment b = (None, b)"
  using assms by (auto simp: checkout_def store_payment_def apply_event_def transaction_def)

text \<open>So once a delivery has resolved a purchase, the same body delivered to any later state of the ledger changes nothing.\<close>

lemma handle_webhook_resolved:
  assumes "handle_webhook hmac sha256 parse settings now request b = (status, b')" and "billing_ok b"
    and "bl_funding b' \<noteq> bl_funding b" and "rq_body again = rq_body request"
    and "history (bl_funding b') (bl_funding c)" and "keys_ok (bl_funding c)"
  shows "snd (handle_webhook hmac sha256 parse settings later again c) = c"
proof -
  from assms(3) have "b' \<noteq> b" by auto
  from handle_webhook_changes [OF assms(1,2) this] obtain i where "delivery_changes now i (bs_mode settings) b b'" by metis
  from billing_okD(2) [OF delivery_keeps_ok [OF this assms(2)]] have keys: "keys_ok (bl_funding b')" .
  from assms(1) obtain raw event r where first: "accepted hmac parse settings now request raw event"
    and run: "(if map_of kinds (ev_type event) = None then ignore sha256 now event raw (bs_mode settings) b
        else checkout sha256 now event raw (bs_mode settings) b) = (r, b')"
    by (cases rule: handle_webhook_cases) (use assms(3) in auto)
  have "map_of kinds (ev_type event) \<noteq> None"
    using run assms(3) by (auto simp: ignore_def split: sum.splits account_error.splits if_splits prod.splits)
  with run have "checkout sha256 now event raw (bs_mode settings) b = (r, b')" by auto
  from checkout_resolved [OF this assms(3)] obtain kind object st j where
    kind: "map_of kinds (ev_type event) = Some kind" "session_of (ev_object event) = Some object"
    and resolved: "resolve_creditPurchase now (purchase_ask event object kind (bs_mode settings)) (bl_funding b)
      = Inr (Resolved st j, bl_funding b')" by metis
  obtain row where row: "tx_creditPurchase (pu_tenantId row) (pu_purchaseId row) (bl_funding b') = Some row"
      "\<not> names_another_purchase row (purchase_ask event object kind (bs_mode settings))" "pu_state row \<noteq> PurchasePending"
      "id_pattern (pe_eventId (purchase_ask event object kind (bs_mode settings)))"
    by (rule resolved_row [OF billing_okD(2) [OF assms(2)] keys resolved])
  note ignored = checkout_ignored [OF kind resolved_ignored [OF row assms(5,6)]]
  obtain answer c' where second: "handle_webhook hmac sha256 parse settings later again c = (answer, c')"
    by (cases "handle_webhook hmac sha256 parse settings later again c")
  then show ?thesis
  proof (cases rule: handle_webhook_cases)
    case (taken raw' event' r')
    with first assms(4) have "event' = event" by (auto simp: accepted_def)
    with taken(3) ignored kind(1) have "c' = c" by simp
    with second show ?thesis by simp
  qed (use second in simp)
qed

end
