(* ===== verification/Funding_Topups.thy ===== *)
theory Funding_Topups
  imports Funding_Service
begin

text \<open>
  Which calls record a top-up: only \<open>record_topUp\<close>, and \<open>resolve_creditPurchase\<close> when an event pays a purchase. Every other
  call of the service leaves the table of top-ups as it found it.
\<close>

definition same_topUps :: "fstate \<Rightarrow> fstate \<Rightarrow> bool" where
  "same_topUps s s' \<longleftrightarrow> st_topUps s' = st_topUps s"

lemma same_topUps_refl [simp]: "same_topUps s s"
  by (simp add: same_topUps_def)

lemma same_topUps_trans: "same_topUps s t \<Longrightarrow> same_topUps t u \<Longrightarrow> same_topUps s u"
  by (simp add: same_topUps_def)

lemma saves_no_topUp [simp]:
  "st_topUps (push_period row1 s) = st_topUps s" "st_topUps (save_job row2 s) = st_topUps s"
  "st_topUps (save_attempt row3 s) = st_topUps s" "st_topUps (save_settlement row4 s) = st_topUps s"
  "st_topUps (save_topUpHold row5 s) = st_topUps s" "st_topUps (save_adjustment row6 s) = st_topUps s"
  "st_topUps (save_creditPurchase row7 s) = st_topUps s" "st_topUps (save_attemptPerson row8 s) = st_topUps s"
  "st_topUps (save_capRequest row9 s) = st_topUps s" "st_topUps (expire_topUpHolds t o' at s) = st_topUps s"
  by (simp_all add: frame_simps save_creditPurchase_def save_attemptPerson_def save_capRequest_def save_job_def push_period_def)

lemma other_topUps: "same_ledger s s' \<Longrightarrow> same_topUps s s'"
  by (simp add: same_ledger_def same_topUps_def)

lemma records_period_topUps: "records_period row s s' \<Longrightarrow> same_topUps s s'"
  by (auto simp: records_period_def same_topUps_def)

lemmas allocations_topUps =
  allocate_period_Inr(1) [THEN records_period_topUps]
  allocate_agreement_period_Inr(1) [THEN records_period_topUps]
  allocate_individual_period_Inr(1) [THEN records_period_topUps]

lemma open_job_topUps:
  assumes "open_job now input s = Inr ((job, inherited), s')"
  shows "same_topUps s s'"
proof -
  consider (child) parent where "attach_child input parent s = Inr ((job, inherited), s')"
    | (root) "open_root now input s = Inr ((job, inherited), s')"
    using assms by (auto simp: open_job_def rbind_Inr_iff case_option_Inr_iff)
  then show ?thesis
  proof cases
    case child
    from attach_child_Inr(5) [OF this] show ?thesis by (auto intro: other_topUps)
  next
    case root
    from open_root_Inr(5) [OF root] show ?thesis by (auto simp: same_topUps_def save_jobRef_def)
  qed
qed

lemma jobs_topUps:
  "keep_going t o' i atCap amounts s = Inr (answer, s') \<Longrightarrow> same_topUps s s'"
  "request_capIncrease now t o' job requestId cap by' s = Inr (asked, s') \<Longrightarrow> same_topUps s s'"
  "decide_capIncrease now m requestId ok s = Inr (decided, s') \<Longrightarrow> same_topUps s s'"
  "record_correction now input s = Inr (adjustment, s') \<Longrightarrow> same_topUps s s'"
  by (auto simp: same_topUps_def same_ledger_def dest!: keep_going_Inr request_capIncrease_Inr split: if_splits
      elim!: decide_capIncrease_Inr record_correction_Inr)

lemma purchase_topUps:
  "start_creditPurchase now terms s = Inr (started, s') \<Longrightarrow> same_topUps s s'"
  "attach_checkoutSession t o' i session s = Inr (attached, s') \<Longrightarrow> same_topUps s s'"
  "fail_creditPurchase now t o' i s = Inr (failed, s') \<Longrightarrow> same_topUps s s'"
  "read_purchasedBalance now t o' s = Inr (balance, s') \<Longrightarrow> same_topUps s s'"
  by (auto simp: same_topUps_def start_creditPurchase_def attach_checkoutSession_def fail_creditPurchase_def
      read_purchasedBalance_def result_simps Let_def split: if_splits)

lemma lease_topUps:
  "hold_purchased at t o' i person amount digest s = Inr ((hold, balance), s') \<Longrightarrow> same_topUps s s'"
  "release_purchased at t o' i person s = Inr ((hold, balance), s') \<Longrightarrow> same_topUps s s'"
  "renew_purchased at t o' i person s = Inr ((hold, balance), s') \<Longrightarrow> same_topUps s s'"
  by (auto simp: same_topUps_def dest: hold_purchased_Inr(9) elim!: release_purchased_Inr renew_purchased_Inr)

lemma settle_purchased_topUps:
  assumes "settle_purchased at t o' i person debit s = Inr ((hold, balance), s')"
  shows "same_topUps s s'"
proof -
  let ?s = "expire_topUpHolds t o' at s"
  from settle_purchased_Inr [OF assms] obtain held where held: "tx_topUpHold t i ?s = Some held" "th_organizationId held = o'"
    "is_money debit" and found: "settle_found at t o' debit held ?s = Inr ((hold, balance), s')"
    by metis
  from found held(3) conjunct1 [OF tx_topUpHold_key [OF held(1)]] held(2) show ?thesis
    by (cases rule: settle_found_Inr [of at t o' debit held ?s hold balance s']) (auto simp: same_topUps_def)
qed

lemma moves_attempt_topUps: "moves_attempt at t o' i row s s' \<Longrightarrow> same_topUps s s'"
  by (auto simp: moves_attempt_def same_topUps_def)

lemmas attempts_topUps =
  release_refused_moves [THEN conjunct1, THEN moves_attempt_topUps]
  release_attempt_moves [THEN conjunct1, THEN moves_attempt_topUps]
  cancel_attempt_moves [THEN conjunct1, THEN moves_attempt_topUps]
  mark_uncertain_moves [THEN conjunct1, THEN moves_attempt_topUps]
  write_off_moves [THEN conjunct1, THEN moves_attempt_topUps]

lemma reserve_topUps:
  assumes "reserve at input s = Inr (attempt, s')"
  shows "same_topUps s s'"
  using assms
proof (cases rule: reserve_Inr)
  case (fresh companyCeiling cycle boughtOnly member)
  from fresh(2) show ?thesis
  proof (cases rule: reserve_new_Inr)
    case (1 job period s1 month bought used monthlyAvailable topUpAvailable monthly topUp)
    from records_period_topUps [OF reserve_period_Inr(1) [OF 1(4)]] show ?thesis
      unfolding 1(14) by (cases member) (auto simp: same_topUps_def)
  qed
qed simp

lemma mark_dispatched_topUps:
  assumes "keys_ok s"
  shows "same_topUps s (snd (mark_dispatched at t o' i s))"
  using surjective_pairing [of "mark_dispatched at t o' i s"] assms
proof (cases rule: mark_dispatched_cases)
  case (sent old)
  then show ?thesis by (simp only: same_topUps_def saves_no_topUp)
next
  case (expired row)
  then show ?thesis by (intro moves_attempt_topUps)
next
  case (refused e)
  then show ?thesis by (simp only: same_topUps_refl)
qed

lemma settle_attempt_topUps:
  assumes "settle_attempt at t o' i receipt usage raw from s = Inr (result, s')"
  shows "same_topUps s s'"
  using assms
proof (cases rule: settle_attempt_Inr)
  case (held row reason)
  then show ?thesis by (intro moves_attempt_topUps)
next
  case (fresh old u providerCost cost se)
  then show ?thesis by (simp only: same_topUps_def saves_no_topUp)
qed simp

lemma recover_topUps:
  "rfold (recover_one at) rows (ids, s) = Inr (ids', s') \<Longrightarrow> same_topUps s s'"
proof (induction rows arbitrary: ids s)
  case (Cons a rows)
  from Cons.prems obtain ids1 s1 where one: "recover_one at a (ids, s) = Inr (ids1, s1)"
    and rest: "rfold (recover_one at) rows (ids1, s1) = Inr (ids', s')"
    by (auto simp: rbind_Inr_iff)
  from one have "same_topUps s s1"
    by (auto simp: recover_one_def rbind_Inr_iff move_attempt_Inr same_topUps_def split: prod.splits if_splits)
  with Cons.IH [OF rest] show ?case by (blast intro: same_topUps_trans)
qed simp

lemma recover_after_restart_topUps: "recover_after_restart at t o' s = Inr (ids, s') \<Longrightarrow> same_topUps s s'"
  by (auto simp: recover_after_restart_def rbind_Inr_iff dest: recover_topUps)

lemma left_by_topUps:
  "(\<And>x s'. action s = Inr (x, s') \<Longrightarrow> same_topUps s s') \<Longrightarrow> same_topUps s (left_by action s)"
  by (cases "action s") (auto simp: left_by_def transaction_def split: prod.splits)

lemmas calls_topUps = allocations_topUps open_job_topUps jobs_topUps purchase_topUps lease_topUps settle_purchased_topUps
  attempts_topUps reserve_topUps settle_attempt_topUps recover_after_restart_topUps
  set_limit_frame [THEN other_topUps] set_settings_frame [THEN other_topUps] ask_raise_frame [THEN other_topUps]
  decide_raise_frame [THEN other_topUps]

text \<open>Whether a call can record a top-up.\<close>

fun may_record_topUp :: "call \<Rightarrow> bool" where
  "may_record_topUp (RecordTopUp t o' i amount provider ev) = True"
| "may_record_topUp (ResolvePurchase event) = True"
| "may_record_topUp _ = False"

lemma serve_topUps:
  assumes "keys_ok s" and "\<not> may_record_topUp call"
  shows "st_topUps (serve at call s) = st_topUps s"
proof -
  from assms have "same_topUps s (serve at call s)"
    by (cases call)
      (auto simp only: serve.simps may_record_topUp.simps not_True_eq_False intro!: left_by_topUps mark_dispatched_topUps intro: calls_topUps)
  then show ?thesis by (simp add: same_topUps_def)
qed

end
