(* ===== verification/Billing_Service.thy ===== *)
theory Billing_Service
  imports Credit_Buying Webhook_Guarantees Funding_Topups
begin

text \<open>
  Buying and paying together: the calls that reach the billing state, the states they reach, and where every recorded
  top-up comes from.
\<close>

section \<open>Calls\<close>

datatype billing_call =
    Deliver webhook_request
  | Create string "account_error + membership_snapshot" jval string
  | PersonalCreate string string "account_error + person" jval string
  | PersonalQuote string "account_error + person" jval
  | PersonalRead string "account_error + person" string
  | PersonalBalance string "account_error + person"
  | Elsewhere call

fun bill ::
  "(string \<Rightarrow> string \<Rightarrow> string) \<Rightarrow> (string \<Rightarrow> jval option) \<Rightarrow> buying_services \<Rightarrow> feature_grant list \<Rightarrow> int \<Rightarrow> billing_call
     \<Rightarrow> billing_state \<Rightarrow> billing_state" where
  "bill hmac parse sv grants at (Deliver request) b = snd (handle_webhook hmac (sv_sha256 sv) parse (sv_settings sv) at request b)"
| "bill hmac parse sv grants at (Create i membership asked base) b = snd (create_purchase sv grants at i membership asked base b)"
| "bill hmac parse sv grants at (PersonalCreate i uuid signIn asked base) b = snd (personal_create sv grants at i uuid signIn asked base b)"
| "bill hmac parse sv grants at (PersonalQuote uuid signIn asked) b = snd (personal_quote sv grants at uuid signIn asked b)"
| "bill hmac parse sv grants at (PersonalRead uuid signIn i) b = snd (personal_read at uuid signIn i b)"
| "bill hmac parse sv grants at (PersonalBalance uuid signIn) b = snd (personal_balance at uuid signIn b)"
| "bill hmac parse sv grants at (Elsewhere call) b = b\<lparr>bl_funding := serve at call (bl_funding b)\<rparr>"

text \<open>
  A call of the funding service from another component. Of the calls that can record a top-up, the product makes
  \<open>resolveCreditPurchase\<close> only from the receiver and \<open>recordTopUp\<close> nowhere, so the states below leave the two out here. Every other
  call is allowed (\<open>serve_topUps\<close>: none of them records a top-up).
\<close>

fun allowed_call :: "billing_call \<Rightarrow> bool" where
  "allowed_call (Elsewhere call) = (\<not> may_record_topUp call)"
| "allowed_call _ = True"

inductive billed :: "(string \<Rightarrow> string \<Rightarrow> string) \<Rightarrow> (string \<Rightarrow> jval option) \<Rightarrow> buying_services \<Rightarrow> int \<Rightarrow> billing_state \<Rightarrow> bool"
  for hmac parse sv where
  start: "billed hmac parse sv clock empty_billing_state"
| call: "billed hmac parse sv clock b \<Longrightarrow> allowed_call call
    \<Longrightarrow> billed hmac parse sv (max clock at) (bill hmac parse sv grants at call b)"

section \<open>What is kept\<close>

text \<open>Every top-up names an event the ledger stored for its own business.\<close>

definition sourced :: "billing_state \<Rightarrow> bool" where
  "sourced b \<longleftrightarrow> (\<forall>topUp \<in> set (st_topUps (bl_funding b)). \<exists>environment.
     stored_for (tu_sourceEventId topUp) (tu_tenantId topUp) (tu_organizationId topUp) environment (bl_ledger b))"

definition bill_ok :: "int \<Rightarrow> billing_state \<Rightarrow> bool" where
  "bill_ok clock b \<longleftrightarrow> reachable clock (bl_funding b) \<and> ledger_rules (bl_ledger b) \<and> individuals_ok (bl_accounts b) \<and> sourced b"

lemma bill_ok_billing: "bill_ok clock b \<Longrightarrow> billing_ok b"
  by (auto simp: bill_ok_def billing_ok_def intro: reachable_rows)

lemma sourced_more:
  assumes "sourced b" and "st_topUps (bl_funding b') = st_topUps (bl_funding b)" and "ledger_follows (bl_ledger b) (bl_ledger b')"
  shows "sourced b'"
  using assms stored_for_follows unfolding sourced_def by metis

lemma reachable_mono: "reachable clock s \<Longrightarrow> clock \<le> clock' \<Longrightarrow> reachable clock' s"
proof (induction arbitrary: clock' rule: reachable.induct)
  case (served clock s at call)
  then have "reachable clock' s" "max clock' at = clock'" by simp_all
  with reachable.served [of clock' s at call] show ?case by simp
qed (rule reachable.start)

lemma reachable_serve: "reachable clock s \<Longrightarrow> at \<le> clock \<Longrightarrow> reachable clock (serve at call s)"
  using reachable.served [of clock s at call] by (simp add: max_absorb1)

section \<open>Deliveries\<close>

lemma resolve_topUps:
  assumes "keys_ok s" and "resolve_creditPurchase now ask s = Inr (result, s')" and "topUp \<in> set (st_topUps s')"
    and "pe_kind ask = EventPaid \<Longrightarrow> \<exists>i f. preview_creditPurchase ask s = Inr (Payable t o' i, f)"
  shows "topUp \<in> set (st_topUps s) \<or> pe_kind ask = EventPaid \<and> tu_sourceEventId topUp = pe_eventId ask \<and> tu_tenantId topUp = t
    \<and> tu_organizationId topUp = o'"
proof (cases "pe_kind ask = EventPaid")
  case True
  with assms(4) obtain i f where "preview_creditPurchase ask s = Inr (Payable t o' i, f)" by blast
  from payable_resolved [OF assms(1) this True assms(2)] obtain found amount row s1 where
    row: "record_topUp_within now t o' i amount (pe_eventId ask) s = Inr (row, s1)" and s': "s' = save_creditPurchase found s1" .
  note facts = record_topUp_within_Inr [OF row]
  from facts(6) assms(3) have "topUp \<in> set (st_topUps s) \<or> topUp = row" by (auto simp: s' save_topUp_def)
  with facts True show ?thesis by auto
next
  case False
  have "st_topUps s' = st_topUps s"
  proof (cases "creditPurchase_by_session (pe_sessionId ask) s")
    case None
    with assms(2) show ?thesis by (auto simp: resolve_unknown result_simps)
  next
    case (Some found)
    with assms(2) False show ?thesis by (auto simp: resolve_by_session [OF assms(1)] result_simps split: if_splits)
  qed
  with assms(3) show ?thesis by simp
qed

lemma delivery_ok:
  assumes "delivery_changes at i env b b'" and "bill_ok clock b" and "at \<le> clock" and "bl_accounts b' = bl_accounts b"
  shows "bill_ok clock b'"
proof -
  have ok: "reachable clock (bl_funding b)" "individuals_ok (bl_accounts b)" "sourced b" using assms(2) by (simp_all add: bill_ok_def)
  have keys: "keys_ok (bl_funding b)" using reachable_rows [OF ok(1)] by (simp add: rows_ok_def)
  from assms(1) have ledger: "ledger_rules (bl_ledger b')" "ledger_follows (bl_ledger b) (bl_ledger b')"
    by (simp_all add: delivery_changes_def)
  from assms(1) consider (same) "bl_funding b' = bl_funding b"
    | (resolved) ask result where "resolve_creditPurchase at ask (bl_funding b) = Inr (result, bl_funding b')"
      "pe_eventId ask = i" "pe_kind ask = EventPaid \<longrightarrow> (\<exists>t o' j. preview_creditPurchase ask (bl_funding b)
         = Inr (Payable t o' j, bl_funding b) \<and> stored_for i t o' env (bl_ledger b'))"
    by (auto simp: delivery_changes_def)
  then show ?thesis
  proof cases
    case same
    with ok ledger assms(4) sourced_more [OF ok(3) _ ledger(2)] show ?thesis by (simp add: bill_ok_def)
  next
    case resolved
    have "bl_funding b' = serve at (ResolvePurchase ask) (bl_funding b)"
      using resolved(1) by (simp add: left_by_def transaction_def)
    then have reached: "reachable clock (bl_funding b')" using reachable_serve [OF ok(1) assms(3)] by (simp only:)
    have "\<exists>environment. stored_for (tu_sourceEventId topUp) (tu_tenantId topUp) (tu_organizationId topUp) environment (bl_ledger b')"
      if topUp: "topUp \<in> set (st_topUps (bl_funding b'))" for topUp
    proof (cases "topUp \<in> set (st_topUps (bl_funding b))")
      case True
      with ok(3) show ?thesis unfolding sourced_def by (blast intro: stored_for_follows [OF _ ledger(2)])
    next
      case False
      then obtain t o' where "pe_kind ask = EventPaid" "tu_sourceEventId topUp = i" "tu_tenantId topUp = t" "tu_organizationId topUp = o'"
          "stored_for i t o' env (bl_ledger b')"
        using resolve_topUps [OF keys resolved(1) topUp] resolved(2,3) by blast
      then show ?thesis by auto
    qed
    with reached ledger(1) ok(2) assms(4) show ?thesis by (simp add: bill_ok_def sourced_def)
  qed
qed

lemma mark_accounts [simp]: "bl_accounts (mark at i env st b) = bl_accounts b"
  by (simp add: mark_def)

lemma caught_accounts [simp]: "bl_accounts (snd (caught at i env stored e b)) = bl_accounts b"
  by (cases "(at, i, env, stored, e, b)" rule: caught.cases) simp_all

lemma apply_accounts [simp]: "bl_accounts (snd (apply_event at event object kind env stored b)) = bl_accounts b"
  by (simp add: apply_event_def split: prod.split sum.split)

lemma store_accounts: "store_payment sha256 at event object raw env b = Inr (stored, b') \<Longrightarrow> bl_accounts b' = bl_accounts b"
  by (auto simp: store_payment_def split: option.splits sum.splits prod.splits purchase_preview.splits)

lemma checkout_accounts: "checkout sha256 at event raw env b = (r, b') \<Longrightarrow> bl_accounts b' = bl_accounts b"
  by (drule arg_cong [where f = "\<lambda>x. bl_accounts (snd x)"])
    (auto simp: checkout_def store_accounts split: option.splits sum.splits if_splits prod.splits)

lemma ignore_accounts: "ignore sha256 at event raw env b = (r, b') \<Longrightarrow> bl_accounts b' = bl_accounts b"
  by (auto simp: ignore_def split: sum.splits account_error.splits if_splits prod.splits)

lemma deliver_ok:
  assumes "bill_ok clock b" and "at \<le> clock"
  shows "bill_ok clock (snd (handle_webhook hmac sha256 parse settings at request b))"
proof -
  obtain status b' where run: "handle_webhook hmac sha256 parse settings at request b = (status, b')"
    by (cases "handle_webhook hmac sha256 parse settings at request b")
  then have accounts: "bl_accounts b' = bl_accounts b"
    by (cases rule: handle_webhook_cases) (auto split: if_splits dest: ignore_accounts checkout_accounts)
  show ?thesis
  proof (cases "b' = b")
    case False
    with handle_webhook_changes [OF run bill_ok_billing [OF assms(1)]] obtain i where
      "delivery_changes at i (bs_mode settings) b b'" by metis
    from delivery_ok [OF this assms accounts] run show ?thesis by simp
  qed (use run assms(1) in simp)
qed

section \<open>Purchases\<close>

text \<open>What the calls that buy leave of a good state: the funding moves by calls that record no top-up.\<close>

definition buys :: "int \<Rightarrow> billing_state \<Rightarrow> billing_state \<Rightarrow> bool" where
  "buys clock b b' \<longleftrightarrow> (\<exists>calls. (\<forall>(at, call) \<in> set calls. at \<le> clock \<and> \<not> may_record_topUp call)
        \<and> bl_funding b' = serve_all calls (bl_funding b))
     \<and> (ledger_rules (bl_ledger b) \<longrightarrow> ledger_rules (bl_ledger b')) \<and> ledger_follows (bl_ledger b) (bl_ledger b')
     \<and> (individuals_ok (bl_accounts b) \<longrightarrow> individuals_ok (bl_accounts b'))"

lemma serve_all_append: "serve_all (calls @ calls') s = serve_all calls' (serve_all calls s)"
  by (simp add: serve_all_def)

lemma serve_all_clock: "reachable clock s \<Longrightarrow> \<forall>(at, call) \<in> set calls. at \<le> clock \<Longrightarrow> reachable clock (serve_all calls s)"
  by (induction calls arbitrary: s) (auto simp: reachable_serve)

lemma serve_all_topUps:
  "rows_ok s \<Longrightarrow> \<forall>(at, call) \<in> set calls. \<not> may_record_topUp call \<Longrightarrow> st_topUps (serve_all calls s) = st_topUps s"
proof (induction calls arbitrary: s)
  case (Cons timed calls)
  obtain at call where timed: "timed = (at, call)" by (cases timed)
  have "rows_ok (serve at call s)" by (rule rows_ok_moves [OF serve_refines [OF Cons.prems(1)] Cons.prems(1)])
  with Cons.IH [of "serve at call s"] Cons.prems serve_topUps [of s call at] show ?case by (simp add: timed rows_ok_def)
qed simp

lemma buys_same:
  assumes "bl_funding b' = bl_funding b" and "ledger_rules (bl_ledger b) \<Longrightarrow> ledger_rules (bl_ledger b')"
    and "ledger_follows (bl_ledger b) (bl_ledger b')" and "individuals_ok (bl_accounts b) \<Longrightarrow> individuals_ok (bl_accounts b')"
  shows "buys clock b b'"
  using assms by (auto simp: buys_def intro!: exI [of _ "[]"])

lemma buys_refl: "buys clock b b"
  by (simp add: buys_same ledger_follows_refl)

lemma buys_trans:
  assumes "buys clock b c" and "buys clock c d"
  shows "buys clock b d"
proof -
  from assms obtain calls calls' where
    "\<forall>(at, call) \<in> set calls. at \<le> clock \<and> \<not> may_record_topUp call" "bl_funding c = serve_all calls (bl_funding b)"
    "\<forall>(at, call) \<in> set calls'. at \<le> clock \<and> \<not> may_record_topUp call" "bl_funding d = serve_all calls' (bl_funding c)"
    unfolding buys_def by blast
  then have "(\<forall>(at, call) \<in> set (calls @ calls'). at \<le> clock \<and> \<not> may_record_topUp call)
      \<and> bl_funding d = serve_all (calls @ calls') (bl_funding b)" by (auto simp: serve_all_append)
  with assms show ?thesis unfolding buys_def by (blast intro: ledger_follows_trans)
qed

lemma buys_ok:
  assumes "buys clock b b'" and "bill_ok clock b"
  shows "bill_ok clock b'"
proof -
  from assms(1) obtain calls where calls: "\<forall>(at, call) \<in> set calls. at \<le> clock \<and> \<not> may_record_topUp call"
    "bl_funding b' = serve_all calls (bl_funding b)" unfolding buys_def by blast
  have reached: "reachable clock (bl_funding b)" using assms(2) by (simp add: bill_ok_def)
  from calls serve_all_topUps [OF reachable_rows [OF reached], of calls] have "st_topUps (bl_funding b') = st_topUps (bl_funding b)" by auto
  moreover have "reachable clock (bl_funding b')" unfolding calls(2) using calls(1) by (intro serve_all_clock [OF reached]) auto
  ultimately show ?thesis using assms by (auto simp: buys_def bill_ok_def intro: sourced_more)
qed

lemma buys_history:
  assumes "buys clock b b'" and "billing_ok b"
  shows "billing_ok b' \<and> history (bl_funding b) (bl_funding b')"
  using assms serve_all_history by (fastforce simp: buys_def billing_ok_def)

lemma buys_funding:
  assumes "f = serve at call (bl_funding b)" and "at \<le> clock" and "\<not> may_record_topUp call"
  shows "buys clock b (b\<lparr>bl_funding := f\<rparr>)"
  using assms by (auto simp: buys_def ledger_follows_refl intro!: exI [of _ "[(at, call)]"])

lemma open_checkout_buys:
  assumes "open_checkout sv at key ref credits cents base customer b = (r, b')" and "at \<le> clock"
  shows "buys clock b b'"
proof (cases "checkout_session sv at key ref credits cents base customer")
  case None
  then have "b' = b\<lparr>bl_funding := left_by (fail_creditPurchase at (pf_tenantId ref) (pf_organizationId ref) (pf_purchaseId ref)) (bl_funding b)\<rparr>"
    using assms(1) by (simp add: open_checkout_def)
  with buys_funding [OF _ assms(2), where call = "FailPurchase (pf_tenantId ref) (pf_organizationId ref) (pf_purchaseId ref)"]
  show ?thesis by simp
next
  case (Some made)
  obtain session url where made: "made = (session, url)" by (cases made)
  let ?f = "left_by (attach_checkoutSession (pf_tenantId ref) (pf_organizationId ref) (pf_purchaseId ref) session) (bl_funding b)"
  have "b' = b\<lparr>bl_funding := ?f\<rparr>"
    using assms(1) Some made by (auto simp: open_checkout_def left_by_def split: sum.splits prod.splits)
  with buys_funding [OF _ assms(2), where call = "AttachSession (pf_tenantId ref) (pf_organizationId ref) (pf_purchaseId ref) session"]
  show ?thesis by simp
qed

text \<open>The steps of a purchase up to the checkout, when it gets there.\<close>

lemma create_for_cases:
  assumes "create_for sv grants at i who asked base b = (r, b')"
  obtains (refused) e where "r = Inl e" "b' = b"
  | (not_started) customer l e mk where
      "ensure_customer (payer_billing (by_payer who) (bs_mode (sv_settings sv))) mk (bl_ledger b) = Inr (customer, l)"
      "r = Inl e" "b' = b\<lparr>bl_ledger := l\<rparr>"
  | (started) key rate credits cents customer l row f where
      "asked_cost (sv_settings sv) grants (by_payer who) asked at = Inr (rate, credits, cents)"
      "bs_stripeSecretKey (sv_settings sv) = Some key"
      "ensure_customer (payer_billing (by_payer who) (bs_mode (sv_settings sv)))
         (create_customer sv key (payer_ref (by_payer who) i)) (bl_ledger b) = Inr (customer, l)"
      "start_creditPurchase at (asked_terms who i rate credits cents (bs_mode (sv_settings sv))) (bl_funding b) = Inr (row, f)"
      "open_checkout sv at key (payer_ref (by_payer who) i) credits cents base customer (b\<lparr>bl_ledger := l, bl_funding := f\<rparr>) = (r, b')"
proof (cases "\<exists>rate credits cents key customer l. asked_cost (sv_settings sv) grants (by_payer who) asked at = Inr (rate, credits, cents)
    \<and> bs_stripeSecretKey (sv_settings sv) = Some key \<and> ensure_customer (payer_billing (by_payer who) (bs_mode (sv_settings sv)))
         (create_customer sv key (payer_ref (by_payer who) i)) (bl_ledger b) = Inr (customer, l)")
  case False
  with assms show thesis
    by (auto simp: create_for_def Let_def intro!: refused split: sum.splits option.splits customer_error.splits prod.splits)
next
  case True
  then obtain rate credits cents key customer l where
    cost: "asked_cost (sv_settings sv) grants (by_payer who) asked at = Inr (rate, credits, cents)"
    and key: "bs_stripeSecretKey (sv_settings sv) = Some key"
    and customer: "ensure_customer (payer_billing (by_payer who) (bs_mode (sv_settings sv)))
         (create_customer sv key (payer_ref (by_payer who) i)) (bl_ledger b) = Inr (customer, l)" by blast
  note run = assms [unfolded create_for_def Let_def cost key customer sum.case option.case prod.case]
  show thesis
  proof (cases "start_creditPurchase at (asked_terms who i rate credits cents (bs_mode (sv_settings sv))) (bl_funding b)")
    case (Inl e)
    have "b\<lparr>bl_ledger := l, bl_funding := bl_funding b\<rparr> = b\<lparr>bl_ledger := l\<rparr>" by simp
    with run Inl show thesis by (intro not_started [OF customer, of "FromFunding e"]) (simp_all add: transaction_def)
  next
    case (Inr answer)
    obtain row f where answer: "answer = (row, f)" by (cases answer)
    with Inr run show thesis by (intro started [OF cost key customer, of row f]) (simp_all add: transaction_def)
  qed
qed

lemma ensure_buys:
  assumes "ensure_customer ref mk (bl_ledger b) = Inr (customer, l)"
  shows "buys clock b (b\<lparr>bl_ledger := l\<rparr>)"
  using ensure_customer_rules [OF assms] ensure_customer_follows [OF assms] by (intro buys_same) simp_all

lemma create_for_buys:
  assumes "create_for sv grants at i who asked base b = (r, b')" and "at \<le> clock"
  shows "buys clock b b'"
  using assms(1)
proof (cases rule: create_for_cases)
  case (refused e)
  then show ?thesis by (simp add: buys_refl)
next
  case (not_started customer l e mk)
  from ensure_buys [OF not_started(1)] show ?thesis by (simp add: not_started(3))
next
  case (started key rate credits cents customer l row f)
  have f: "f = left_by (start_creditPurchase at (asked_terms who i rate credits cents (bs_mode (sv_settings sv)))) (bl_funding b)"
    using started(4) by (simp add: left_by_def transaction_def)
  then have "buys clock (b\<lparr>bl_ledger := l\<rparr>) (b\<lparr>bl_ledger := l, bl_funding := f\<rparr>)"
    using buys_funding [OF _ assms(2), where b = "b\<lparr>bl_ledger := l\<rparr>"
        and call = "StartPurchase (asked_terms who i rate credits cents (bs_mode (sv_settings sv)))"] by simp
  with ensure_buys [OF started(3)] open_checkout_buys [OF started(5) assms(2)] show ?thesis by (blast intro: buys_trans)
qed

lemma personal_buyer_buys:
  assumes "personal_buyer at uuid signIn b = (r, b')"
  shows "buys clock b b'"
  using assms
  by (auto simp: personal_buyer_def ledger_follows_refl split: sum.splits prod.splits dest: ensure_individualAccount_Inr(1)
      intro!: buys_same)

text \<open>Every call but a delivery, when it is allowed, is one of those.\<close>

lemma bill_buys:
  assumes "allowed_call call" and "\<And>request. call \<noteq> Deliver request" and "at \<le> clock"
  shows "buys clock b (bill hmac parse sv grants at call b)"
proof (cases call)
  case (Deliver request)
  with assms(2) show ?thesis by blast
next
  case (Create i membership asked base)
  then show ?thesis
    by (cases "business_buyer membership") (simp_all add: create_purchase_def buys_refl create_for_buys [OF surjective_pairing assms(3)])
next
  case (PersonalCreate i uuid signIn asked base)
  obtain r b1 where who: "personal_buyer at uuid signIn b = (r, b1)" by (cases "personal_buyer at uuid signIn b")
  have "buys clock b b1" by (rule personal_buyer_buys [OF who])
  with PersonalCreate who show ?thesis
    by (cases r) (auto simp: personal_create_def intro: buys_trans [OF _ create_for_buys [OF surjective_pairing assms(3)]])
next
  case (PersonalQuote uuid signIn asked)
  obtain r b1 where who: "personal_buyer at uuid signIn b = (r, b1)" by (cases "personal_buyer at uuid signIn b")
  with PersonalQuote personal_buyer_buys [OF who] show ?thesis by (cases r) (simp_all add: personal_quote_def)
next
  case (PersonalRead uuid signIn i)
  obtain r b1 where who: "personal_buyer at uuid signIn b = (r, b1)" by (cases "personal_buyer at uuid signIn b")
  with PersonalRead personal_buyer_buys [OF who] show ?thesis by (cases r) (simp_all add: personal_read_def)
next
  case (PersonalBalance uuid signIn)
  obtain r b1 where who: "personal_buyer at uuid signIn b = (r, b1)" by (cases "personal_buyer at uuid signIn b")
  have first: "buys clock b b1" by (rule personal_buyer_buys [OF who])
  have "buys clock b (b1\<lparr>bl_funding := f\<rparr>)" if "transaction (read_purchasedBalance at t o') (bl_funding b1) = (x, f)" for t o' x f
  proof -
    from that have "f = serve at (ReadPurchased t o') (bl_funding b1)" by (simp add: left_by_def)
    from buys_trans [OF first buys_funding [OF this assms(3)]] show ?thesis by simp
  qed
  with PersonalBalance who first show ?thesis
    by (cases r) (auto simp: personal_balance_def split: sum.splits prod.splits)
next
  case (Elsewhere inner)
  with assms(1) buys_funding [OF refl assms(3)] show ?thesis by simp
qed

lemma bill_keeps:
  assumes "bill_ok clock b" and "allowed_call call" and "at \<le> clock"
  shows "bill_ok clock (bill hmac parse sv grants at call b)"
proof (cases "\<exists>request. call = Deliver request")
  case True
  then show ?thesis by (auto simp: deliver_ok assms(1,3))
next
  case False
  with bill_buys assms show ?thesis by (blast intro: buys_ok)
qed

text \<open>Every call, also one that records a top-up, keeps the rules of the rows and only adds to the ledger's history.\<close>

lemma bill_history:
  assumes "billing_ok b"
  shows "billing_ok (bill hmac parse sv grants at call b)
    \<and> history (bl_funding b) (bl_funding (bill hmac parse sv grants at call b))"
proof -
  consider (deliver) request where "call = Deliver request" | (inner) inner where "call = Elsewhere inner"
    | (other) "allowed_call call" "\<And>request. call \<noteq> Deliver request" by (cases call) simp_all
  then show ?thesis
  proof cases
    case deliver
    obtain status b' where run: "handle_webhook hmac (sv_sha256 sv) parse (sv_settings sv) at request b = (status, b')"
      by (cases "handle_webhook hmac (sv_sha256 sv) parse (sv_settings sv) at request b")
    show ?thesis
    proof (cases "b' = b")
      case False
      with handle_webhook_changes [OF run assms] obtain i where changes: "delivery_changes at i (bs_mode (sv_settings sv)) b b'" by metis
      then have "history (bl_funding b) (bl_funding b')"
        by (auto simp: delivery_changes_def history_refl intro: ledger_history.follows_run [OF resolve_creditPurchase_refines])
      with delivery_keeps_ok [OF changes assms] deliver run show ?thesis by simp
    qed (use deliver run assms history_refl in simp)
  next
    case inner
    with assms serve_all_history [of "bl_funding b" "[(at, inner)]"] show ?thesis by (simp add: billing_ok_def)
  next
    case other
    from bill_buys [OF other order_refl] assms show ?thesis by (rule buys_history)
  qed
qed

definition bill_all ::
  "(string \<Rightarrow> string \<Rightarrow> string) \<Rightarrow> (string \<Rightarrow> jval option) \<Rightarrow> buying_services \<Rightarrow> (feature_grant list \<times> int \<times> billing_call) list
     \<Rightarrow> billing_state \<Rightarrow> billing_state" where
  "bill_all hmac parse sv calls b = foldl (\<lambda>b (grants, at, call). bill hmac parse sv grants at call b) b calls"

lemma bill_all_history:
  "billing_ok b \<Longrightarrow> billing_ok (bill_all hmac parse sv calls b) \<and> history (bl_funding b) (bl_funding (bill_all hmac parse sv calls b))"
proof (induction calls arbitrary: b)
  case (Cons timed calls)
  obtain grants at call where timed: "timed = (grants, at, call)" by (cases timed)
  from bill_history [OF Cons.prems, of hmac parse sv grants at call] Cons.IH [of "bill hmac parse sv grants at call b"]
  show ?case by (auto simp: timed bill_all_def intro: history_trans)
qed (simp add: bill_all_def history_refl)

lemma bill_ok_mono: "bill_ok clock b \<Longrightarrow> clock \<le> clock' \<Longrightarrow> bill_ok clock' b"
  by (auto simp: bill_ok_def intro: reachable_mono)

lemma bill_ok_empty: "bill_ok clock empty_billing_state"
proof -
  have "st_topUps empty_funding_state = []" by (simp add: empty_funding_state_def)
  then show ?thesis
    by (simp add: bill_ok_def empty_billing_state_def reachable.start ledger_rules_empty individuals_ok_def sourced_def)
qed

lemma billed_ok: "billed hmac parse sv clock b \<Longrightarrow> bill_ok clock b"
proof (induction rule: billed.induct)
  case (start clock)
  show ?case by (rule bill_ok_empty)
next
  case (call clock b at call grants)
  then show ?case by (intro bill_keeps) (auto intro: bill_ok_mono)
qed

end
