(* ===== verification/Billing_Samples.thy ===== *)
theory Billing_Samples
  imports Billing_Service
begin

text \<open>
  One business buys 200 credits without a plan and Stripe's event pays for them, as concrete calls: a fixed Stripe, a fixed
  keyed digest and one event, signed under the secret before a rotation.
\<close>

section \<open>The services\<close>

definition shop_settings :: billing_settings where
  "shop_settings = \<lparr>bs_mode = TestEnv, bs_creditRatePlan = Some \<lparr>rt_cents = 1000, rt_credits = 110\<rparr>,
     bs_creditRateFree = Some \<lparr>rt_cents = 1300, rt_credits = 100\<rparr>, bs_planProblem = None, bs_freeProblem = None,
     bs_stripeSecretKey = Some ''sk_test_1'', bs_keyProblem = None, bs_stripeWebhookSecret = Some ''whsec_2'',
     bs_stripeWebhookSecretPrevious = Some ''whsec_1''\<rparr>"

definition shop_stripe :: "stripe_request \<Rightarrow> jval option" where
  "shop_stripe request = (if sr_url request = ''https://api.stripe.com/v1/customers'' then Some (JObj [(''id'', JStr ''cus_1'')])
     else Some (JObj [(''id'', JStr ''cs_test_1''), (''url'', JStr ''https://checkout.stripe.com/c/pay/1'')]))"

definition shop_digest :: "string \<Rightarrow> string" where
  "shop_digest body = ''abc''"

definition shop_url :: "string \<Rightarrow> parsed_url option" where
  "shop_url t = Some \<lparr>ur_username = '''', ur_password = '''', ur_protocol = ''https:'', ur_hostname = ''checkout.stripe.com'',
     ur_port = '''', ur_origin = ''https://checkout.stripe.com'', ur_pathname = ''/c/pay/1''\<rparr>"

definition shop :: buying_services where
  "shop = \<lparr>sv_settings = shop_settings, sv_stripe = shop_stripe, sv_sha256 = shop_digest, sv_url = shop_url, sv_localCheckout = False\<rparr>"

definition shop_hmac :: "string \<Rightarrow> string \<Rightarrow> string" where
  "shop_hmac key message = (if key = ''whsec_1'' then replicate 32 (CHR ''a'') else replicate 32 (CHR ''b''))"

definition paid_object :: jval where
  "paid_object = JObj [(''id'', JStr ''cs_test_1''), (''payment_status'', JStr ''paid''), (''amount_total'', JInt 2600),
     (''currency'', JStr ''usd''), (''metadata'', JObj [(''purchase_id'', JStr ''cpurch_1''), (''organization_id'', JStr ''org1''),
     (''tenant_id'', JStr ''t1'')]), (''customer'', JStr ''cus_1'')]"

definition paid_event :: stripe_event where
  "paid_event = \<lparr>ev_id = ''evt_1'', ev_type = ''checkout.session.completed'', ev_livemode = False, ev_object = paid_object\<rparr>"

definition shop_parse :: "string \<Rightarrow> jval option" where
  "shop_parse raw = (if raw = ''body'' then Some (JObj [(''id'', JStr ''evt_1''), (''type'', JStr ''checkout.session.completed''),
     (''livemode'', JBool False), (''data'', JObj [(''object'', paid_object)])]) else None)"

definition paid_request :: webhook_request where
  "paid_request = \<lparr>rq_body = Some ''body'', rq_signature = Some (''t=1773000000,v1='' @ concat (replicate 32 ''61''))\<rparr>"

definition shop_member :: membership_snapshot where
  "shop_member = \<lparr>ms_validUntil = 0, ms_organizationTenantId = ''t1'', ms_organizationId = ''org1'',
     ms_membershipOrganizationId = ''org1'', ms_membershipActive = True, ms_membershipRole = Owner, ms_personId = ''p1''\<rparr>"

definition shop_buyer :: buyer where
  "shop_buyer = \<lparr>by_payer = BusinessPayer ''t1'' ''org1'', by_personId = ''p1''\<rparr>"

definition shop_time :: int where "shop_time = 1773000005000"

text \<open>What the receiver asks of the event's session.\<close>

definition shop_ask :: purchase_event where
  "shop_ask = \<lparr>pe_kind = EventPaid, pe_sessionId = ''cs_test_1'', pe_purchaseId = Some ''cpurch_1'', pe_tenantId = Some ''t1'',
     pe_organizationId = Some ''org1'', pe_amountTotal = Some 2600, pe_currency = Some ''usd'', pe_eventId = ''evt_1'',
     pe_environment = TestEnv\<rparr>"

section \<open>The states\<close>

definition shop_purchase :: credit_purchase where
  "shop_purchase = \<lparr>pu_tenantId = ''t1'', pu_organizationId = ''org1'', pu_purchaseId = ''cpurch_1'', pu_personId = ''p1'',
     pu_credits = 200, pu_amountCents = 2600, pu_rateCents = 1300, pu_rateCredits = 100, pu_environment = TestEnv,
     pu_checkoutSessionId = None, pu_state = PurchasePending, pu_createdAt = 1773000005000, pu_resolvedAt = None,
     pu_stripeEventId = None\<rparr>"

definition shop_customer :: billing_customer where
  "shop_customer = \<lparr>bc_customerId = ''cus_1'', bc_tenantId = ''t1'', bc_organizationId = ''org1'', bc_environment = TestEnv\<rparr>"

definition shop_ordered :: billing_state where
  "shop_ordered = empty_billing_state\<lparr>bl_funding := empty_funding_state\<lparr>st_creditPurchases := [shop_purchase]\<rparr>,
     bl_ledger := \<lparr>lg_billingCustomers = [shop_customer], lg_verifiedEvents = []\<rparr>\<rparr>"

definition shop_open :: billing_state where
  "shop_open = shop_ordered\<lparr>bl_funding := empty_funding_state\<lparr>st_creditPurchases :=
     [shop_purchase\<lparr>pu_checkoutSessionId := Some ''cs_test_1''\<rparr>]\<rparr>\<rparr>"

definition shop_paid :: billing_state where
  "shop_paid = shop_open\<lparr>
     bl_funding := empty_funding_state\<lparr>
       st_topUps := [\<lparr>tu_tenantId = ''t1'', tu_organizationId = ''org1'', tu_topUpId = ''cpurch_1'', tu_amountMicroUsd = 20000000,
         tu_sourceEventId = ''evt_1'', tu_recordedAt = 1773000005000\<rparr>],
       st_creditPurchases := [shop_purchase\<lparr>pu_checkoutSessionId := Some ''cs_test_1'', pu_state := PurchasePaid,
         pu_resolvedAt := Some 1773000005000, pu_stripeEventId := Some ''evt_1''\<rparr>]\<rparr>,
     bl_ledger := \<lparr>lg_billingCustomers = [shop_customer], lg_verifiedEvents =
       [\<lparr>ve_environment = TestEnv, ve_eventId = ''evt_1'', ve_customerId = Some ''cus_1'', ve_organizationId = Some ''org1'',
         ve_tenantId = Some ''t1'', ve_payloadHash = ''abc'', ve_eventType = ''checkout.session.completed'',
         ve_state = EventProcessed, ve_receivedAt = 1773000005000, ve_processedAt = Some 1773000005000\<rparr>]\<rparr>\<rparr>"

section \<open>The runs\<close>

lemma shop_cost:
  "asked_cost shop_settings [] (BusinessPayer ''t1'' ''org1'') (JInt 200) shop_time = Inr (\<lparr>rt_cents = 1300, rt_credits = 100\<rparr>, 200, 2600)
   \<and> ensure_customer (payer_billing (BusinessPayer ''t1'' ''org1'') TestEnv) (Inr ''cus_1'') empty_ledger_state
       = Inr (''cus_1'', bl_ledger shop_ordered)
   \<and> start_creditPurchase shop_time (asked_terms shop_buyer ''cpurch_1'' \<lparr>rt_cents = 1300, rt_credits = 100\<rparr> 200 2600 TestEnv)
       empty_funding_state = Inr (shop_purchase, bl_funding shop_ordered)
   \<and> (\<exists>row. attach_checkoutSession ''t1'' ''org1'' ''cpurch_1'' ''cs_test_1'' (bl_funding shop_ordered) = Inr (row, bl_funding shop_open))
   \<and> customer_of (JStr ''cus_1'') = Some ''cus_1''"
  (is "?cost \<and> ?customer \<and> ?start \<and> (\<exists>row. ?attach row) \<and> ?id")
proof -
  have "?cost \<and> ?customer \<and> ?start \<and> ?attach (shop_purchase\<lparr>pu_checkoutSessionId := Some ''cs_test_1''\<rparr>) \<and> ?id" by code_simp
  then show ?thesis by blast
qed

lemma shop_session:
  "checkout_session shop now key ref credits cents base customer = Some (''cs_test_1'', ''https://checkout.stripe.com/c/pay/1'')"
  by (simp add: checkout_session_def shop_def shop_stripe_def shop_url_def checkout_request_def Let_def session_pattern_def
      is_allowedCheckoutUrl_def utf16_units_def is_alnum_def is_digit_def is_upper_def is_lower_def)

lemma shop_makes_customer: "create_customer shop key ref = Inr ''cus_1''"
  using shop_cost by (simp add: create_customer_def shop_def shop_stripe_def customer_request_def)

lemma shop_services [simp]: "sv_settings shop = shop_settings" "sv_sha256 shop = shop_digest"
  by (simp_all add: shop_def)

lemma shop_settings_simps [simp]:
  "bs_mode shop_settings = TestEnv" "bs_stripeSecretKey shop_settings = Some ''sk_test_1''"
  "bs_stripeWebhookSecret shop_settings = Some ''whsec_2''" "bs_stripeWebhookSecretPrevious shop_settings = Some ''whsec_1''"
  by (simp_all add: shop_settings_def)

lemma shop_creates:
  "create_for shop [] shop_time ''cpurch_1'' shop_buyer (JInt 200) ''https://shop'' empty_billing_state
     = (Inr \<lparr>pa_purchaseId = ''cpurch_1'', pa_checkoutUrl = ''https://checkout.stripe.com/c/pay/1'', pa_credits = 200,
          pa_amountCents = 2600\<rparr>, shop_open)"
proof -
  from shop_cost obtain row where pieces:
    "asked_cost shop_settings [] (BusinessPayer ''t1'' ''org1'') (JInt 200) shop_time = Inr (\<lparr>rt_cents = 1300, rt_credits = 100\<rparr>, 200, 2600)"
    "ensure_customer (payer_billing (BusinessPayer ''t1'' ''org1'') TestEnv) (Inr ''cus_1'') empty_ledger_state
       = Inr (''cus_1'', bl_ledger shop_ordered)"
    "start_creditPurchase shop_time (asked_terms shop_buyer ''cpurch_1'' \<lparr>rt_cents = 1300, rt_credits = 100\<rparr> 200 2600 TestEnv)
       empty_funding_state = Inr (shop_purchase, bl_funding shop_ordered)"
    "attach_checkoutSession ''t1'' ''org1'' ''cpurch_1'' ''cs_test_1'' (bl_funding shop_ordered) = Inr (row, bl_funding shop_open)" by blast
  have empty: "bl_funding empty_billing_state = empty_funding_state" "bl_ledger empty_billing_state = empty_ledger_state"
    by (simp_all add: empty_billing_state_def)
  have ordered: "empty_billing_state\<lparr>bl_ledger := bl_ledger shop_ordered, bl_funding := bl_funding shop_ordered\<rparr> = shop_ordered"
    by (simp add: shop_ordered_def)
  have opened: "shop_ordered\<lparr>bl_funding := bl_funding shop_open\<rparr> = shop_open" by (simp add: shop_open_def)
  have payer: "by_payer shop_buyer = BusinessPayer ''t1'' ''org1''" by (simp add: shop_buyer_def)
  show ?thesis
    by (simp add: create_for_def Let_def payer pieces shop_makes_customer empty transaction_def ordered open_checkout_def
        shop_session opened payer_ref_def)
qed

text \<open>The header names one time and one signature: 32 bytes, in hexadecimal.\<close>

lemma shop_header:
  "signature_parts (split_on (CHR '','') (''t=1773000000,v1='' @ concat (replicate 32 ''61''))) None []
     = Some (Some ''1773000000'', [concat (replicate 32 ''61'')])"
  "timestamp_text ''1773000000''" "signature_text (concat (replicate 32 ''61''))" "read_nat ''1773000000'' = 1773000000"
  by code_simp+

lemma shop_bytes: "hex_bytes (concat (replicate n ''61'')) = replicate n (CHR ''a'')"
proof -
  have "char_of (16 * hex_value (CHR ''6'') + hex_value (CHR ''1'')) = CHR ''a''" by code_simp
  then show ?thesis by (induction n) simp_all
qed

lemma shop_accepts:
  "\<not> verify_stripeSignature shop_hmac ''body'' (rq_signature paid_request) ''whsec_2'' shop_time
   \<and> verify_stripeSignature shop_hmac ''body'' (rq_signature paid_request) ''whsec_1'' shop_time
   \<and> Option.bind (shop_parse ''body'') event_of = Some paid_event"
proof -
  have "rq_signature paid_request = Some (''t=1773000000,v1='' @ concat (replicate 32 ''61''))" by (simp add: paid_request_def)
  moreover have "Option.bind (shop_parse ''body'') event_of = Some paid_event" by code_simp
  moreover have "replicate 32 (CHR ''b'') \<noteq> replicate 32 (CHR ''a'')" by (simp add: replicate_eq_replicate)
  ultimately show ?thesis
    using shop_header by (simp add: verify_stripeSignature_def same_bytes_iff shop_bytes shop_hmac_def shop_time_def
        stripe_signature_tolerance_seconds_def del: replicate.simps concat.simps)
qed

lemma shop_asks:
  "map_of kinds ''checkout.session.completed'' = Some EventPaid \<and> (\<exists>object. session_of (ev_object paid_event) = Some object
     \<and> cs_paymentStatus object = Some ''paid'' \<and> cs_customer object = JStr ''cus_1''
     \<and> purchase_ask paid_event object EventPaid TestEnv = shop_ask)"
  (is "?kind \<and> (\<exists>object. ?parsed object)")
proof -
  have "?kind \<and> ?parsed \<lparr>cs_id = ''cs_test_1'', cs_paymentStatus = Some ''paid'', cs_amountTotal = Some 2600,
      cs_currency = Some ''usd'', cs_metadata = jget paid_object ''metadata'', cs_customer = JStr ''cus_1''\<rparr>" by code_simp
  then show ?thesis by blast
qed

lemma shop_resolves:
  "preview_creditPurchase shop_ask (bl_funding shop_open) = Inr (Payable ''t1'' ''org1'' ''cpurch_1'', bl_funding shop_open)
   \<and> resolve_creditPurchase shop_time shop_ask (bl_funding shop_open) = Inr (Resolved PurchasePaid ''cpurch_1'', bl_funding shop_paid)"
  by code_simp

lemma shop_stores:
  "\<exists>l. record_verifiedPayment shop_time \<lparr>vp_environment = TestEnv, vp_eventId = ''evt_1'', vp_customerId = ''cus_1'',
      vp_organizationId = ''org1'', vp_tenantId = ''t1'', vp_payloadHash = ''abc'', vp_eventType = ''checkout.session.completed''\<rparr>
      (bl_ledger shop_open) = Inr (True, l)
    \<and> snd (mark_event shop_time TestEnv ''evt_1'' EventProcessed l) = bl_ledger shop_paid"
  by (simp add: record_verifiedPayment_def mark_event_def payment_customer_def find_event_def is_business_def shop_open_def shop_ordered_def
      shop_paid_def shop_customer_def shop_time_def)

lemma shop_applies: "checkout shop_digest shop_time paid_event ''body'' TestEnv shop_open = (None, shop_paid)"
proof -
  from shop_asks obtain object where object: "session_of (ev_object paid_event) = Some object" "cs_paymentStatus object = Some ''paid''"
    "cs_customer object = JStr ''cus_1''" "purchase_ask paid_event object EventPaid TestEnv = shop_ask"
    and kind: "map_of kinds ''checkout.session.completed'' = Some EventPaid" by (auto simp: paid_event_def)
  from shop_stores obtain l where l: "record_verifiedPayment shop_time \<lparr>vp_environment = TestEnv, vp_eventId = ''evt_1'', vp_customerId = ''cus_1'',
      vp_organizationId = ''org1'', vp_tenantId = ''t1'', vp_payloadHash = ''abc'', vp_eventType = ''checkout.session.completed''\<rparr>
      (bl_ledger shop_open) = Inr (True, l)" "snd (mark_event shop_time TestEnv ''evt_1'' EventProcessed l) = bl_ledger shop_paid" by blast
  have event: "ev_id paid_event = ''evt_1''" "ev_type paid_event = ''checkout.session.completed''" by (simp_all add: paid_event_def)
  have paid: "shop_open\<lparr>bl_funding := bl_funding shop_paid, bl_ledger := bl_ledger shop_paid\<rparr> = shop_paid"
    by (simp add: shop_paid_def)
  have customer: "customer_of (JStr ''cus_1'') = Some ''cus_1''" using shop_cost by blast
  show ?thesis
    using shop_resolves l customer paid
    by (simp add: checkout_def kind object store_payment_def event shop_digest_def apply_event_def transaction_def mark_def refused_for_good_def)
qed

lemma shop_accepted: "accepted shop_hmac shop_parse shop_settings shop_time paid_request ''body'' paid_event"
  using shop_accepts by (simp add: accepted_def signed_body_def paid_request_def webhook_body_limit_def paid_event_def)

lemma shop_delivers:
  "handle_webhook shop_hmac shop_digest shop_parse shop_settings shop_time paid_request shop_open = (200, shop_paid)"
proof -
  have "rq_body paid_request = Some ''body''" "\<not> webhook_body_limit < length ''body''" "map_of kinds (ev_type paid_event) = Some EventPaid"
    "\<not> ev_livemode paid_event"
    by (simp_all add: paid_request_def webhook_body_limit_def kinds_def paid_event_def)
  with shop_accepts shop_applies show ?thesis
    by (simp add: handle_webhook_def signed_body_def dispatch_kinds)
qed

lemma shop_billed:
  "billed shop_hmac shop_parse shop shop_time shop_open" "billed shop_hmac shop_parse shop shop_time shop_paid"
proof -
  have "billed shop_hmac shop_parse shop (max shop_time shop_time)
      (bill shop_hmac shop_parse shop [] shop_time (Create ''cpurch_1'' (Inr shop_member) (JInt 200) ''https://shop'') empty_billing_state)"
    by (rule billed.call [OF billed.start]) simp
  moreover have "business_buyer (Inr shop_member) = Inr shop_buyer"
    by (simp add: business_buyer_def shop_member_def can_seePurchasedUsage_def shop_buyer_def)
  ultimately show opened: "billed shop_hmac shop_parse shop shop_time shop_open" by (simp add: create_purchase_def shop_creates)
  have "billed shop_hmac shop_parse shop (max shop_time shop_time)
      (bill shop_hmac shop_parse shop [] shop_time (Deliver paid_request) shop_open)"
    by (rule billed.call [OF opened]) simp
  then show "billed shop_hmac shop_parse shop shop_time shop_paid" by (simp add: shop_delivers)
qed

end
