(* ===== verification/Billing_Properties.thy ===== *)
theory Billing_Properties
  imports Billing_Samples
begin

text \<open>
  What holds of buying credits and of Stripe's events: the properties C37 to C40, each followed by an example that applies
  it to the purchase of Billing_Samples.
\<close>

section \<open>Deliveries\<close>

text \<open>C15. A delivery changes nothing unless its raw body is signed, under the current or the previous secret and within the
  tolerance of the clock, and holds an event of the mode the Worker is in.\<close>

theorem unsigned_changes_nothing:
  assumes "handle_webhook hmac sha256 parse settings now request b = (status, b')" and "b' \<noteq> b" and "billing_ok b"
  shows "\<exists>raw event secret h t candidates signature. rq_body request = Some raw \<and> length raw \<le> 262144
    \<and> (bs_stripeWebhookSecret settings = Some secret \<or> bs_stripeWebhookSecretPrevious settings = Some secret)
    \<and> rq_signature request = Some h \<and> signature_parts (split_on (CHR '','') h) None [] = Some (Some t, candidates)
    \<and> signature \<in> set candidates \<and> hmac secret (t @ ''.'' @ raw) = hex_bytes signature
    \<and> \<bar>now div 1000 - read_nat t\<bar> \<le> 300
    \<and> Option.bind (parse raw) event_of = Some event \<and> (ev_livemode event \<longleftrightarrow> bs_mode settings = LiveEnv)
    \<and> (status = 200 \<or> status = 503)"
proof -
  obtain raw event where acc: "accepted hmac parse settings now request raw event" and status: "status \<in> {200, 503}"
    by (rule handle_webhook_changes [OF assms(1,3,2)])
  then obtain secret where secret: "bs_stripeWebhookSecret settings = Some secret \<or> bs_stripeWebhookSecretPrevious settings = Some secret"
    and "verify_stripeSignature hmac raw (rq_signature request) secret now"
    by (auto simp: accepted_def signed_body_def split: option.splits)
  then obtain h t candidates s where "rq_signature request = Some h"
    "signature_parts (split_on (CHR '','') h) None [] = Some (Some t, candidates)" "s \<in> set candidates"
    "hmac secret (t @ ''.'' @ raw) = hex_bytes s" "\<bar>now div 1000 - read_nat t\<bar> \<le> 300"
    by (auto simp: verify_stripeSignature_iff)
  with acc secret status show ?thesis
    by (auto simp: accepted_def webhook_body_limit_def)
qed

lemma shop_changed: "shop_paid \<noteq> shop_open"
proof
  assume "shop_paid = shop_open"
  then have "st_topUps (bl_funding shop_paid) = st_topUps (bl_funding shop_open)" by simp
  then show False by (simp add: shop_paid_def shop_open_def empty_funding_state_def)
qed

lemma shop_ok: "billing_ok shop_open"
  by (rule bill_ok_billing [OF billed_ok [OF shop_billed(1)]])

lemma unsigned_changes_nothing_example:
  "\<exists>raw event secret. rq_body paid_request = Some raw
    \<and> (bs_stripeWebhookSecret shop_settings = Some secret \<or> bs_stripeWebhookSecretPrevious shop_settings = Some secret)
    \<and> Option.bind (shop_parse raw) event_of = Some event \<and> \<not> ev_livemode event"
  using unsigned_changes_nothing [OF shop_delivers shop_changed shop_ok] by (auto simp: shop_settings_def)

text \<open>C16. The body of an event that was answered with 200, delivered again under any signature and at any later time, changes
  nothing of the state its delivery left: nothing is credited, stored or marked twice. And when that delivery resolved a
  purchase (it changed the funding tables), the same body changes nothing in any state that later calls lead to, whatever
  they are: other deliveries, purchases, or calls of other components. The first delivery starts in a state with the
  rules that every reached state keeps. (An event that found no purchase of its session is answered with 200 too, and may credit
  one when it comes again after the session was attached.)\<close>

theorem delivered_once:
  assumes "handle_webhook hmac (sv_sha256 sv) parse (sv_settings sv) now request b = (200, b')" and "billing_ok b"
    and "rq_body again = rq_body request"
  shows "snd (handle_webhook hmac (sv_sha256 sv) parse (sv_settings sv) later again b') = b'
    \<and> (bl_funding b' \<noteq> bl_funding b \<longrightarrow>
         snd (handle_webhook hmac (sv_sha256 sv) parse (sv_settings sv) later again (bill_all hmac parse sv calls b'))
           = bill_all hmac parse sv calls b')"
proof (intro conjI impI)
  show "snd (handle_webhook hmac (sv_sha256 sv) parse (sv_settings sv) later again b') = b'"
    by (rule handle_webhook_again [OF assms])
  assume changed: "bl_funding b' \<noteq> bl_funding b"
  then have "b' \<noteq> b" by auto
  from handle_webhook_changes [OF assms(1,2) this] have "billing_ok b'" using delivery_keeps_ok assms(2) by metis
  note kept = bill_all_history [OF this, of hmac parse sv calls]
  show "snd (handle_webhook hmac (sv_sha256 sv) parse (sv_settings sv) later again (bill_all hmac parse sv calls b'))
      = bill_all hmac parse sv calls b'"
    by (rule handle_webhook_resolved [OF assms(1,2) changed assms(3) conjunct2 [OF kept] billing_okD(2) [OF conjunct1 [OF kept]]])
qed

lemma delivered_once_example:
  "handle_webhook shop_hmac shop_digest shop_parse shop_settings shop_time paid_request shop_open = (200, shop_paid)
   \<and> snd (handle_webhook shop_hmac shop_digest shop_parse shop_settings (shop_time + 60000) paid_request shop_paid) = shop_paid
   \<and> (let later = bill_all shop_hmac shop_parse shop [([], shop_time + 1000, Elsewhere (FailPurchase ''t1'' ''org1'' ''cpurch_1''))] shop_paid
      in snd (handle_webhook shop_hmac shop_digest shop_parse shop_settings (shop_time + 60000) paid_request later) = later)"
proof -
  have ask: "sv_sha256 shop = shop_digest" "sv_settings shop = shop_settings" by (simp_all add: shop_def)
  have "length (st_topUps (bl_funding shop_paid)) = 1" "st_topUps (bl_funding shop_open) = []"
    by (simp_all add: shop_paid_def shop_open_def empty_funding_state_def)
  then have "bl_funding shop_paid \<noteq> bl_funding shop_open" by auto
  with shop_delivers delivered_once [of shop_hmac shop shop_parse shop_time paid_request shop_open shop_paid paid_request
      "shop_time + 60000" "[([], shop_time + 1000, Elsewhere (FailPurchase ''t1'' ''org1'' ''cpurch_1''))]", unfolded ask, OF shop_delivers shop_ok refl]
  show ?thesis unfolding Let_def by blast
qed

section \<open>Purchases\<close>

text \<open>C17. In every state that purchases, deliveries and the other components' calls reach, every top-up names a verified
  event that the ledger stored for the top-up's own business, under that business's one Stripe customer. The other
  components' calls are all the calls of the funding service but \<open>recordTopUp\<close>, which only tests make, and
  \<open>resolveCreditPurchase\<close> outside a delivery, which only the receiver calls.\<close>

theorem credits_come_from_stored_events:
  assumes "billed hmac parse sv clock b" and "topUp \<in> set (st_topUps (bl_funding b))"
  shows "\<exists>event customer. find_event (tu_sourceEventId topUp) (bl_ledger b) = Some event
    \<and> ve_tenantId event = Some (tu_tenantId topUp) \<and> ve_organizationId event = Some (tu_organizationId topUp)
    \<and> customer \<in> set (lg_billingCustomers (bl_ledger b)) \<and> ve_customerId event = Some (bc_customerId customer)
    \<and> business_of customer = (tu_tenantId topUp, tu_organizationId topUp, ve_environment event)"
proof -
  have ok: "bill_ok clock b" by (rule billed_ok [OF assms(1)])
  with assms(2) obtain event where event: "find_event (tu_sourceEventId topUp) (bl_ledger b) = Some event"
    "ve_tenantId event = Some (tu_tenantId topUp)" "ve_organizationId event = Some (tu_organizationId topUp)"
    by (auto simp: bill_ok_def sourced_def stored_for_def)
  then have "event \<in> set (lg_verifiedEvents (bl_ledger b))" by (auto simp: find_event_def dest: find_Some_in_set)
  with ok have "event_attributed (lg_billingCustomers (bl_ledger b)) event" by (simp add: bill_ok_def ledger_rules_def)
  with event show ?thesis by (auto simp: event_attributed_def business_of_def split: option.splits)
qed

lemma credits_come_from_stored_events_example:
  "\<exists>event. find_event ''evt_1'' (bl_ledger shop_paid) = Some event \<and> ve_organizationId event = Some ''org1''
    \<and> ve_customerId event = Some ''cus_1''"
proof -
  let ?topUp = "\<lparr>tu_tenantId = ''t1'', tu_organizationId = ''org1'', tu_topUpId = ''cpurch_1'', tu_amountMicroUsd = 20000000,
         tu_sourceEventId = ''evt_1'', tu_recordedAt = 1773000005000\<rparr>"
  have "?topUp \<in> set (st_topUps (bl_funding shop_paid))" by (simp add: shop_paid_def)
  moreover have "lg_billingCustomers (bl_ledger shop_paid) = [shop_customer]" by (simp add: shop_paid_def)
  ultimately show ?thesis
    using credits_come_from_stored_events [OF shop_billed(2), of ?topUp] by (auto simp: shop_customer_def)
qed

lemma start_fresh:
  assumes "start_creditPurchase now input s = Inr (row, s')" and "tx_creditPurchase (pi_tenantId input) (pi_purchaseId input) s = None"
  shows "row = \<lparr>pu_tenantId = pi_tenantId input, pu_organizationId = pi_organizationId input, pu_purchaseId = pi_purchaseId input,
     pu_personId = pi_personId input, pu_credits = pi_credits input, pu_amountCents = pi_amountCents input,
     pu_rateCents = pi_rateCents input, pu_rateCredits = pi_rateCredits input, pu_environment = pi_environment input,
     pu_checkoutSessionId = None, pu_state = PurchasePending, pu_createdAt = now, pu_resolvedAt = None, pu_stripeEventId = None\<rparr>
   \<and> s' = save_creditPurchase row s"
  using assms by (auto simp: start_creditPurchase_def result_simps Let_def)

lemma attach_fresh:
  assumes "attach_checkoutSession t o' i session s = Inr (row', s')" and "tx_creditPurchase t i s = Some row"
    and "pu_checkoutSessionId row = None"
  shows "tx_creditPurchase t i s' = Some (row\<lparr>pu_checkoutSessionId := Some session\<rparr>)"
  using assms tx_creditPurchase_key [OF assms(2)]
  by (auto simp: attach_checkoutSession_def result_simps Let_def tx_creditPurchase_save)

lemma ensure_stored: "ensure_customer r mk l = Inr (c, l') \<Longrightarrow> stored_customer r l' = Some c"
  by (erule ensure_customer_Inr) (auto simp: stored_customer_def find_append is_business_def)

text \<open>A purchase that answers with a payment page costs exactly what was quoted for it at that moment, in whole steps of
  the payer's rate; it is stored pending with those terms and that session, and Stripe was asked to charge that amount to the
  payer's one stored customer, on a page that may be opened.\<close>

theorem purchase_as_quoted:
  assumes "create_for sv grants now i who asked base b = (Inr answer, b')"
    and "tx_creditPurchase (py_tenantId (by_payer who)) i (bl_funding b) = None"
  shows "\<exists>quote row customer key stripe_answer session form.
    quote_for (sv_settings sv) grants (by_payer who) asked now = Inr quote
    \<and> pa_credits answer = cq_credits quote \<and> pa_amountCents answer = cq_amountCents quote
    \<and> cq_credits quote = cq_steps quote * cq_stepCredits quote \<and> cq_amountCents quote = cq_steps quote * cq_stepCents quote
    \<and> 1 \<le> cq_amountCents quote \<and> cq_amountCents quote \<le> 99999999
    \<and> tx_creditPurchase (py_tenantId (by_payer who)) i (bl_funding b') = Some row \<and> pu_state row = PurchasePending
    \<and> pu_organizationId row = py_organizationId (by_payer who) \<and> pu_checkoutSessionId row = Some session
    \<and> pu_credits row = cq_credits quote \<and> pu_amountCents row = cq_amountCents quote
    \<and> pu_rateCents row = cq_stepCents quote \<and> pu_rateCredits row = cq_stepCredits quote
    \<and> stored_customer (payer_billing (by_payer who) (bs_mode (sv_settings sv))) (bl_ledger b') = Some customer
    \<and> form = checkout_request now key (payer_ref (by_payer who) i) (cq_credits quote) (cq_amountCents quote) base customer
    \<and> map_of (sr_form form) ''line_items[0][price_data][unit_amount]'' = Some (show_int (cq_amountCents quote))
    \<and> map_of (sr_form form) ''customer'' = Some customer
    \<and> sv_stripe sv form = Some stripe_answer \<and> jget stripe_answer ''id'' = JStr session
    \<and> is_allowedCheckoutUrl (sv_url sv) (pa_checkoutUrl answer) (if sv_localCheckout sv then Some base else None)"
  using assms(1)
proof (cases rule: create_for_cases)
  case (started key rate credits cents customer l row f)
  let ?p = "by_payer who"
  let ?terms = "asked_terms who i rate credits cents (bs_mode (sv_settings sv))"
  let ?form = "checkout_request now key (payer_ref ?p i) credits cents base customer"
  from started(1) obtain onPlan steps where rate: "rate_for (sv_settings sv) grants ?p now = Inr (rate, onPlan)"
    "steps_asked asked rate = Inr steps" and cost: "credit_stepsCost steps rate = Inr (credits, cents)"
    by (auto simp: asked_cost_def result_simps)
  define quote where "quote = \<lparr>cq_credits = credits, cq_amountCents = cents, cq_steps = steps, cq_stepCredits = rt_credits rate,
      cq_stepCents = rt_cents rate, cq_onPlan = onPlan, cq_planStep = (if \<not> onPlan then bs_creditRatePlan (sv_settings sv) else None)\<rparr>"
  have quoted: "quote_for (sv_settings sv) grants ?p asked now = Inr quote" by (simp add: quote_for_def rate cost quote_def)
  have new: "tx_creditPurchase (pi_tenantId ?terms) (pi_purchaseId ?terms) (bl_funding b) = None"
    using assms(2) by (simp add: asked_terms_def)
  note row = start_fresh [OF started(4) new]
  then have found: "tx_creditPurchase (py_tenantId ?p) i f = Some row" by (simp add: tx_creditPurchase_save asked_terms_def)
  from started(5) obtain session row' where made: "checkout_session sv now key (payer_ref ?p i) credits cents base customer
        = Some (session, pa_checkoutUrl answer)"
    and attached: "attach_checkoutSession (py_tenantId ?p) (py_organizationId ?p) i session f = Inr (row', bl_funding b')"
    and answer: "pa_credits answer = credits" "pa_amountCents answer = cents" and b': "bl_ledger b' = l"
    by (auto simp: open_checkout_def transaction_def payer_ref_def split: option.splits sum.splits prod.splits)
  from made obtain stripe_answer where stripe: "sv_stripe sv ?form = Some stripe_answer" "jget stripe_answer ''id'' = JStr session"
      "is_allowedCheckoutUrl (sv_url sv) (pa_checkoutUrl answer) (if sv_localCheckout sv then Some base else None)"
    by (auto simp: checkout_session_def split: option.splits jval.splits if_splits)
  have form: "map_of (sr_form ?form) ''line_items[0][price_data][unit_amount]'' = Some (show_int cents)"
    "map_of (sr_form ?form) ''customer'' = Some customer" by (simp_all add: checkout_request_def Let_def)
  have kept: "tx_creditPurchase (py_tenantId ?p) i (bl_funding b') = Some (row\<lparr>pu_checkoutSessionId := Some session\<rparr>)"
    by (rule attach_fresh [OF attached found]) (simp add: row)
  from cost have whole: "credits = steps * rt_credits rate" "cents = steps * rt_cents rate" "1 \<le> cents" "cents \<le> 99999999"
    by (simp_all add: credit_stepsCost_Inr stripe_max_charge_cents_def)
  show ?thesis
    using quoted kept form stripe answer ensure_stored [OF started(3)] whole
    by (intro exI [of _ quote] exI [of _ "row\<lparr>pu_checkoutSessionId := Some session\<rparr>"] exI [of _ customer] exI [of _ key]
        exI [of _ stripe_answer] exI [of _ session] exI [of _ ?form])
      (simp add: quote_def row b' asked_terms_def)
qed simp_all

lemma purchase_as_quoted_example:
  "\<exists>quote row. quote_for shop_settings [] (BusinessPayer ''t1'' ''org1'') (JInt 200) shop_time = Inr quote \<and> cq_amountCents quote = 2600
    \<and> tx_creditPurchase ''t1'' ''cpurch_1'' (bl_funding shop_open) = Some row \<and> pu_amountCents row = 2600
    \<and> stored_customer (payer_billing (BusinessPayer ''t1'' ''org1'') TestEnv) (bl_ledger shop_open) = Some ''cus_1''"
proof -
  have "tx_creditPurchase (py_tenantId (by_payer shop_buyer)) ''cpurch_1'' (bl_funding empty_billing_state) = None"
    by (simp add: tx_creditPurchase_def empty_billing_state_def empty_funding_state_def)
  moreover have "stored_customer (payer_billing (BusinessPayer ''t1'' ''org1'') TestEnv) (bl_ledger shop_open) = Some ''cus_1''"
    by (simp add: stored_customer_def payer_billing_def shop_open_def shop_ordered_def shop_customer_def is_business_def)
  ultimately show ?thesis
    using purchase_as_quoted [OF shop_creates] by (auto simp: shop_buyer_def)
qed

end
