(* ===== verification/Board_State.thy ===== *)
theory Board_State
  imports Js_Value Calendar
begin

text \<open>
  One project's saved state, as far as tasks, their workflow and the Ready queue read and write it: the rows of
  \<open>shared/types.ts\<close>, what a refused call answers, and the operations of \<open>server/store.ts\<close> and
  \<open>server/command-admission.ts\<close> the components share. A time is the ISO text the code keeps. What the clock and the
  random identifiers give to one call is a \<open>stamp\<close>: one reading of the clock and one identifier.
\<close>

section \<open>Rows\<close>

datatype task_status = Todo | TaskWorking | TaskWaiting | TaskDone
datatype task_owner = OwnerYou | OwnerDiomedes | OwnerDiomedesWithOk
datatype task_phase = PlanPhase | BuildPhase | ReviewPhase
datatype continuation = FullApproval | StopOnPhaseChange

record handoff =
  ho_at :: string
  ho_by :: task_owner
  ho_from :: task_phase
  ho_to :: task_phase
  ho_reason :: string

record workflow =
  wf_revision :: int
  wf_phase :: task_phase
  wf_continuation :: continuation
  wf_inbox :: bool
  wf_parentTaskId :: "string option"
  wf_output :: "string option"
  wf_maxTurns :: int
  wf_skill :: "(string \<times> string) option"
  wf_pendingPhase :: "task_phase option"
  wf_pendingReason :: "string option"
  wf_handoffs :: "handoff list"
  wf_externalProposal :: bool
  wf_manual :: bool

record task_move =
  mv_at :: string
  mv_by :: task_owner
  mv_from :: task_status
  mv_to :: task_status
  mv_undone :: bool

record owned_assignment =
  oa_rootTaskId :: string
  oa_rootRunId :: string
  oa_admissionRef :: string

record task_origin =
  to_projectId :: string
  to_threadId :: string
  to_turnId :: string
  to_runId :: "string option"

record creation_receipt =
  cr_commandId :: string
  cr_payloadDigest :: string
  cr_projectId :: string
  cr_taskId :: string
  cr_eventId :: string
  cr_admittedAt :: string

record task =
  tk_id :: string
  tk_name :: string
  tk_description :: string
  tk_sourceDocument :: "string option"
  tk_owner :: task_owner
  tk_state :: task_status
  tk_creationReceipt :: "creation_receipt option"
  tk_workflow :: "workflow option"
  tk_ownedAssignment :: "owned_assignment option"
  tk_origin :: "task_origin option"
  tk_createdBy :: task_owner
  tk_createdAt :: string
  tk_assignedTo :: "string option"
  tk_deletedAt :: "string option"
  tk_moves :: "task_move list"

datatype session_status = SessionQueued | SessionWorking | SessionWaiting | SessionDone | SessionStopped | SessionFailed

record work_receipt =
  wr_commandId :: string
  wr_payloadDigest :: string
  wr_route :: string

record work_session =
  ss_id :: string
  ss_taskId :: string
  ss_state :: session_status
  ss_startedAt :: string
  ss_endedAt :: "string option"
  ss_receipt :: "work_receipt option"

datatype need_status = NeedOpen | NeedGoAhead | NeedDeclined | NeedExpired

record task_need =
  nd_id :: string
  nd_sessionId :: string
  nd_taskId :: string
  nd_state :: need_status
  nd_approvalReceipt :: "(string \<times> string) option"
  nd_harness :: "(string \<times> string) option"
  nd_appliedEvent :: "string option"

datatype change_status = ChangeWaiting | ChangeKept | ChangeUndone

record task_change =
  ch_taskId :: "string option"
  ch_state :: change_status

record history_entry =
  en_id :: string
  en_time :: string
  en_actor :: task_owner
  en_kind :: string
  en_sentence :: string
  en_sessionId :: "string option"
  en_taskId :: "string option"
  en_approvalId :: "string option"

record pack_activation =
  pa_packId :: string
  pa_active :: bool
  pa_at :: string

record turn =
  tn_role :: string
  tn_route :: "string option"

record conversation =
  cv_id :: string
  cv_engine :: "string option"
  cv_turns :: "turn list"
  cv_taskId :: "string option"

record board =
  bd_projectId :: string
  bd_home :: bool
  bd_packs :: "pack_activation list"
  bd_tasks :: "task list"
  bd_sessions :: "work_session list"
  bd_needs :: "task_need list"
  bd_changes :: "task_change list"
  bd_scopeGrants :: "(string \<times> string) list"
  bd_controlReceipts :: "(string \<times> string) list"
  bd_conversations :: "conversation list"
  bd_history :: "history_entry list"

record stamp =
  st_now :: string
  st_id :: string

text \<open>A text field that is there and not empty, as JavaScript reads it in a condition.\<close>

definition truthy :: "string option \<Rightarrow> bool" where
  "truthy v \<longleftrightarrow> v \<noteq> None \<and> v \<noteq> Some ''''"

section \<open>Refusals\<close>

text \<open>An \<open>ApiError\<close> with its status, its sentence and the code it may carry, the two errors of the workflow contract, and a plain \<open>Error\<close>.\<close>

datatype refusal = ApiError int string "string option" | ValidationError string | ConflictError string | OtherError string

section \<open>The store\<close>

definition add_entry_for ::
  "string option \<Rightarrow> stamp \<Rightarrow> string \<Rightarrow> string \<Rightarrow> task_owner \<Rightarrow> string option \<Rightarrow> string option \<Rightarrow> board \<Rightarrow> history_entry \<times> board" where
  "add_entry_for approvalId st kind sentence actor taskId sessionId b =
     (let entry = \<lparr>en_id = ''E'' @ st_id st, en_time = st_now st, en_actor = actor, en_kind = kind, en_sentence = sentence,
            en_sessionId = sessionId, en_taskId = taskId, en_approvalId = approvalId\<rparr>
      in (entry, b\<lparr>bd_history := bd_history b @ [entry]\<rparr>))"

abbreviation "add_entry \<equiv> add_entry_for None"

text \<open>\<open>Number(t.id.slice(1))\<close>: the number after the letter, for the ids this function makes.\<close>

definition task_number :: "string \<Rightarrow> int option" where
  "task_number i = (let t = drop 1 i in if list_all is_digit t then Some (read_nat t) else None)"

definition task_numbers :: "task list \<Rightarrow> int list" where
  "task_numbers ts = map the (filter (\<lambda>n. n \<noteq> None) (map (task_number \<circ> tk_id) ts))"

definition next_task_id :: "task list \<Rightarrow> string" where
  "next_task_id ts = ''T'' @ show_int (foldr max (task_numbers ts) 0 + 1)"

definition home_refuses_work :: string where
  "home_refuses_work = ''The Diomedes conversation is not a place work runs. Name the project this work belongs to.''"

definition create_task ::
  "stamp \<Rightarrow> string \<Rightarrow> string \<Rightarrow> string option \<Rightarrow> task_owner \<Rightarrow> board \<Rightarrow> refusal + task \<times> board" where
  "create_task st name description sourceDocument owner b =
     (if bd_home b then Inl (ApiError 409 home_refuses_work None)
      else if js_trim name = '''' then Inl (ApiError 400 ''Give this task a name.'' None)
      else let t = \<lparr>tk_id = next_task_id (bd_tasks b), tk_name = take 200 (js_trim name), tk_description = description,
             tk_sourceDocument = sourceDocument, tk_owner = owner, tk_state = Todo, tk_creationReceipt = None,
             tk_workflow = None, tk_ownedAssignment = None, tk_origin = None, tk_createdBy = OwnerYou,
             tk_createdAt = st_now st, tk_assignedTo = None, tk_deletedAt = None, tk_moves = []\<rparr>
           in Inr (t, b\<lparr>bd_tasks := bd_tasks b @ [t]\<rparr>))"

text \<open>The task the code holds a reference to is written back in its row.\<close>

definition put_task :: "task \<Rightarrow> board \<Rightarrow> board" where
  "put_task t b = b\<lparr>bd_tasks := map (\<lambda>r. if tk_id r = tk_id t then t else r) (bd_tasks b)\<rparr>"

fun status_label :: "task_status \<Rightarrow> string" where
  "status_label Todo = ''To do''"
| "status_label TaskWorking = ''Working''"
| "status_label TaskWaiting = ''Waiting for you''"
| "status_label TaskDone = ''Done''"

definition move_task :: "stamp \<Rightarrow> task \<Rightarrow> task_status \<Rightarrow> task_owner \<Rightarrow> bool \<Rightarrow> board \<Rightarrow> board" where
  "move_task st t target by unchanged b =
     (if tk_state t = target \<and> \<not> unchanged then b
      else let t' = t\<lparr>tk_state := target, tk_moves := tk_moves t @
                  [\<lparr>mv_at = st_now st, mv_by = by, mv_from = tk_state t, mv_to = target, mv_undone = False\<rparr>]\<rparr>
           in snd (add_entry st ''task-moved''
                ((if by = OwnerYou then ''You'' else ''Diomedes'') @ '' moved '' @ tk_name t @ '' to '' @ status_label target)
                by (Some (tk_id t)) None (put_task t' b)))"

section \<open>Commands\<close>

text \<open>One namespace of command ids in a project: the record a command id names, with the digest of its request.\<close>

datatype command_record = TaskCreate task string | WorkStart work_session string | ApprovalDecide task_need string
  | ScopeIssue string | Control string

definition find_command :: "board \<Rightarrow> string \<Rightarrow> command_record option" where
  "find_command b commandId =
     (case find (\<lambda>t. map_option cr_commandId (tk_creationReceipt t) = Some commandId) (bd_tasks b) of
        Some t \<Rightarrow> Some (TaskCreate t (cr_payloadDigest (the (tk_creationReceipt t))))
      | None \<Rightarrow>
     (case find (\<lambda>s. map_option wr_commandId (ss_receipt s) = Some commandId) (bd_sessions b) of
        Some s \<Rightarrow> Some (WorkStart s (wr_payloadDigest (the (ss_receipt s))))
      | None \<Rightarrow>
     (case find (\<lambda>n. map_option fst (nd_approvalReceipt n) = Some commandId) (bd_needs b) of
        Some n \<Rightarrow> Some (ApprovalDecide n (snd (the (nd_approvalReceipt n))))
      | None \<Rightarrow>
     (case find (\<lambda>g. fst g = commandId) (bd_scopeGrants b) of
        Some g \<Rightarrow> Some (ScopeIssue (snd g))
      | None \<Rightarrow> map_option (\<lambda>c. Control (snd c)) (find (\<lambda>c. fst c = commandId) (bd_controlReceipts b))))))"

text \<open>\<open>workCommand\<close>: the session a Work command already started; a command of another family is refused.\<close>

definition work_command :: "board \<Rightarrow> string \<Rightarrow> string option \<Rightarrow> refusal + work_session option" where
  "work_command b commandId payloadDigest =
     (let conflict = Inl (ApiError 409 ''This command already names a different request.'' (Some ''work_command_conflict'')) in
      case find_command b commandId of
        None \<Rightarrow> Inr None
      | Some (WorkStart s d) \<Rightarrow>
          (if payloadDigest \<noteq> None \<and> payloadDigest \<noteq> Some d then conflict else Inr (Some s))
      | Some _ \<Rightarrow> conflict)"

text \<open>\<open>/^[A-Za-z0-9][A-Za-z0-9._:-]{0,127}$/\<close>\<close>

definition is_command_char :: "char \<Rightarrow> bool" where
  "is_command_char c \<longleftrightarrow> is_digit c \<or> is_upper c \<or> is_lower c \<or> c \<in> set ''._:-''"

definition command_id_ok :: "jval \<Rightarrow> string option" where
  "command_id_ok v = (case v of
     JStr (c # t) \<Rightarrow> (if (is_digit c \<or> is_upper c \<or> is_lower c) \<and> length t \<le> 127 \<and> list_all is_command_char t then Some (c # t) else None)
   | _ \<Rightarrow> None)"

definition or_null :: "string option \<Rightarrow> jval" where
  "or_null v = (case v of None \<Rightarrow> JNull | Some t \<Rightarrow> JStr t)"

definition payload_digest :: "(string \<Rightarrow> string) \<Rightarrow> jval \<Rightarrow> string" where
  "payload_digest sha256 payload = ''sha256:'' @ sha256 (json_text payload)"

section \<open>Facts\<close>

lemma add_entry_keeps [simp]:
  "bd_tasks (snd (add_entry_for v st k s a t i b)) = bd_tasks b"
  "bd_sessions (snd (add_entry_for v st k s a t i b)) = bd_sessions b"
  "bd_needs (snd (add_entry_for v st k s a t i b)) = bd_needs b"
  "bd_home (snd (add_entry_for v st k s a t i b)) = bd_home b"
  "bd_projectId (snd (add_entry_for v st k s a t i b)) = bd_projectId b"
  by (simp_all add: add_entry_for_def Let_def)

lemma put_task_keeps [simp]:
  "bd_sessions (put_task t b) = bd_sessions b" "bd_history (put_task t b) = bd_history b"
  "bd_home (put_task t b) = bd_home b" "bd_projectId (put_task t b) = bd_projectId b"
  "map tk_id (bd_tasks (put_task t b)) = map tk_id (bd_tasks b)"
  by (auto simp: put_task_def)

lemma read_nat_nonneg: "list_all is_digit t \<Longrightarrow> 0 \<le> read_nat t"
proof (induction t rule: rev_induct)
  case Nil
  then show ?case by (simp add: read_nat_def)
next
  case (snoc c t)
  then have "48 \<le> (of_char c :: nat)" by (simp add: is_digit_def)
  then have "int 48 \<le> int (of_char c)" by (rule of_nat_mono)
  with snoc have "0 \<le> 10 * read_nat t + (int (of_char c) - 48)" by simp
  then show ?case by (simp only: read_nat_snoc)
qed

lemma task_number_T [simp]: "task_number (CHR ''T'' # show_nat n) = Some (int n)"
  by (auto simp: task_number_def list_all_iff read_show_nat show_nat_digits)

lemma foldr_max_ge: "(0 :: int) \<le> foldr max ns 0" "(n :: int) \<in> set ns \<Longrightarrow> n \<le> foldr max ns 0"
  by (induction ns) auto

text \<open>The next id is \<open>T\<close> and a number above every number in use, so it is new.\<close>

lemma next_task_id_above:
  "\<exists>n. next_task_id ts = CHR ''T'' # show_nat n \<and> 1 \<le> n
     \<and> (\<forall>t \<in> set ts. \<forall>m. task_number (tk_id t) = Some m \<longrightarrow> m < int n)"
proof (intro exI conjI ballI allI impI)
  let ?N = "foldr max (task_numbers ts) 0 + 1"
  have N: "1 \<le> ?N" using foldr_max_ge(1) [of "task_numbers ts"] by simp
  show "next_task_id ts = CHR ''T'' # show_nat (nat ?N)" using N by (simp add: next_task_id_def show_int_def)
  show "1 \<le> nat ?N" using N by simp
  fix t m assume "t \<in> set ts" "task_number (tk_id t) = Some m"
  then have "m \<in> set (task_numbers ts)" by (force simp: task_numbers_def image_iff)
  from foldr_max_ge(2) [OF this] N show "m < int (nat ?N)" by simp
qed

definition task_ids_ok :: "task list \<Rightarrow> bool" where
  "task_ids_ok ts \<longleftrightarrow> distinct (map tk_id ts)"

lemma next_task_id_fresh: "next_task_id ts \<notin> tk_id ` set ts"
proof
  assume "next_task_id ts \<in> tk_id ` set ts"
  then obtain t where t: "t \<in> set ts" "tk_id t = next_task_id ts" by auto
  from next_task_id_above [of ts] obtain n where "next_task_id ts = CHR ''T'' # show_nat n"
    "\<forall>t \<in> set ts. \<forall>m. task_number (tk_id t) = Some m \<longrightarrow> m < int n" by blast
  with t show False by (metis order_less_irrefl task_number_T)
qed

lemma task_ids_ok_snoc: "task_ids_ok ts \<Longrightarrow> tk_id t = next_task_id ts \<Longrightarrow> task_ids_ok (ts @ [t])"
  using next_task_id_fresh [of ts] by (simp add: task_ids_ok_def)

end
