(* ===== verification/Task_Workflow.thy ===== *)
theory Task_Workflow
  imports Board_State "HOL-Library.Extended_Nat"
begin

text \<open>
  The contract of a task's workflow, \<open>shared/task-workflow.ts\<close>: the defaults, manual Team cards, what keeps a task from
  starting, the order of the phases, how deep a task sits under its parents, and the checks of a request. A number of the
  request that is no integer JavaScript prints without an exponent is told apart only as far as the checks do.
\<close>

section \<open>Defaults\<close>

definition default_max_turns :: int where "default_max_turns = 8"
definition max_turns :: int where "max_turns = 16"
definition max_depth :: enat where "max_depth = 2"
definition max_children :: nat where "max_children = 4"
definition max_workflow_reason :: nat where "max_workflow_reason = 500"

definition empty_taskWorkflow :: workflow where
  "empty_taskWorkflow = \<lparr>wf_revision = 1, wf_phase = PlanPhase, wf_continuation = StopOnPhaseChange, wf_inbox = False,
     wf_parentTaskId = None, wf_output = None, wf_maxTurns = default_max_turns, wf_skill = None, wf_pendingPhase = None,
     wf_pendingReason = None, wf_handoffs = [], wf_externalProposal = False, wf_manual = False\<rparr>"

definition workflow_of :: "task \<Rightarrow> workflow" where
  "workflow_of t = (case tk_workflow t of None \<Rightarrow> empty_taskWorkflow | Some w \<Rightarrow> w)"

section \<open>Manual Team cards\<close>

definition manual_taskWorkflow :: workflow where
  "manual_taskWorkflow = empty_taskWorkflow\<lparr>wf_inbox := True, wf_externalProposal := True, wf_manual := True\<rparr>"

definition is_manualCard :: "task \<Rightarrow> bool" where
  "is_manualCard t \<longleftrightarrow> (case tk_workflow t of None \<Rightarrow> False | Some w \<Rightarrow> wf_manual w)"

definition manual_card_engines :: "string list" where
  "manual_card_engines = [''codex'', ''claude-code'']"

record team_member =
  tm_slotId :: string
  tm_name :: string
  tm_engine :: string
  tm_stopped :: bool

text \<open>The member a manual card would start on, or why it cannot start; \<open>routeName\<close> is the display name of a route.\<close>

definition manual_cardStart :: "task \<Rightarrow> team_member list \<Rightarrow> (string \<Rightarrow> string) \<Rightarrow> string + team_member" where
  "manual_cardStart t members routeName =
     (case (case tk_assignedTo t of None \<Rightarrow> None | Some slot \<Rightarrow>
              if slot = '''' then None else find (\<lambda>m. tm_slotId m = slot) members) of
        None \<Rightarrow> Inl ''Assign this card to a Team member before you start it. A manual card runs on its member's engine.''
      | Some m \<Rightarrow>
          if tm_stopped m then Inl (tm_name m @ '' was stopped and can't take work. Assign the card to a current member.'')
          else if tm_engine m \<notin> set manual_card_engines then
            Inl (tm_name m @ '' works through '' @ routeName (tm_engine m) @ ''. A manual card runs on '' @ routeName ''codex''
              @ '' or '' @ routeName ''claude-code'' @ '', so assign it to a member on one of those.'')
          else Inr m)"

definition board_startRoute :: "task \<Rightarrow> team_member list \<Rightarrow> string \<Rightarrow> string" where
  "board_startRoute t members fallback =
     (if \<not> is_manualCard t then fallback
      else case manual_cardStart t members (\<lambda>route. route) of Inl _ \<Rightarrow> fallback | Inr m \<Rightarrow> tm_engine m)"

section \<open>What keeps a task from starting\<close>

fun phase_text :: "task_phase \<Rightarrow> string" where
  "phase_text PlanPhase = ''plan''"
| "phase_text BuildPhase = ''build''"
| "phase_text ReviewPhase = ''review''"

definition task_workflowBlocker :: "task \<Rightarrow> string option" where
  "task_workflowBlocker t =
     (if tk_ownedAssignment t \<noteq> None
      then Some ''This assignment is owned by its root run. It cannot start as an independent job.''
      else case tk_workflow t of None \<Rightarrow> None
      | Some w \<Rightarrow>
          if wf_inbox w then Some ''This task is in the Inbox. Accept it before starting work.''
          else case wf_pendingPhase w of None \<Rightarrow> None
          | Some p \<Rightarrow> Some (''This task waits for phase approval: '' @ phase_text p @ '' was asked for and is not approved yet.''))"

fun next_phase :: "task_phase \<Rightarrow> task_phase option" where
  "next_phase PlanPhase = Some BuildPhase"
| "next_phase BuildPhase = Some ReviewPhase"
| "next_phase ReviewPhase = None"

section \<open>How deep a task sits\<close>

definition parent_of :: "task \<Rightarrow> string option" where
  "parent_of t = (case tk_workflow t of None \<Rightarrow> None | Some w \<Rightarrow> wf_parentTaskId w)"

text \<open>The loop up the parents; an empty parent id ends it, as no parent does.\<close>

partial_function (option) depth_loop :: "task list \<Rightarrow> string option \<Rightarrow> string list \<Rightarrow> enat \<Rightarrow> enat option" where
  "depth_loop ts current seen depth =
     (case current of None \<Rightarrow> Some depth
      | Some i \<Rightarrow>
        (if i = '''' then Some depth
         else if i \<in> set seen then Some \<infinity>
         else case find (\<lambda>r. tk_id r = i) ts of None \<Rightarrow> Some \<infinity>
              | Some parent \<Rightarrow> depth_loop ts (parent_of parent) (i # seen) (depth + 1)))"

definition task_depth :: "task list \<Rightarrow> task \<Rightarrow> enat option" where
  "task_depth ts t = depth_loop ts (parent_of t) [tk_id t] 0"

definition child_count :: "task list \<Rightarrow> string \<Rightarrow> nat" where
  "child_count ts parentId = length (filter (\<lambda>t. parent_of t = Some parentId) ts)"

text \<open>A task whose depth the loop never answered could take no child: there is no such task (\<open>depth_loop_returns\<close>).\<close>

definition child_blocker :: "task list \<Rightarrow> task \<Rightarrow> string option" where
  "child_blocker ts parent =
     (if (case task_depth ts parent of None \<Rightarrow> True | Some d \<Rightarrow> max_depth \<le> d)
      then Some ''This task is already 2 levels deep. A deeper task cannot be branched.''
      else if max_children \<le> child_count ts (tk_id parent)
      then Some ''This task has used its limit of 4 branched tasks, including deleted tasks.''
      else None)"

definition active_run_state :: "session_status \<Rightarrow> bool" where
  "active_run_state st \<longleftrightarrow> st \<in> {SessionQueued, SessionWorking, SessionWaiting}"

definition has_activeRun :: "work_session list \<Rightarrow> string \<Rightarrow> bool" where
  "has_activeRun sessions taskId \<longleftrightarrow> list_ex (\<lambda>s. ss_taskId s = taskId \<and> active_run_state (ss_state s)) sessions"

section \<open>Checks of a request\<close>

fun workflow_phase :: "jval \<Rightarrow> task_phase option" where
  "workflow_phase (JStr t) = (if t = ''plan'' then Some PlanPhase else if t = ''build'' then Some BuildPhase
     else if t = ''review'' then Some ReviewPhase else None)"
| "workflow_phase _ = None"

fun continuation_of :: "jval \<Rightarrow> continuation option" where
  "continuation_of (JStr t) = (if t = ''full-approval'' then Some FullApproval
     else if t = ''stop-on-phase-change'' then Some StopOnPhaseChange else None)"
| "continuation_of _ = None"

definition check_revision :: "workflow \<Rightarrow> jval \<Rightarrow> refusal + unit" where
  "check_revision w expected = (case expected of
     JInt n \<Rightarrow>
       if \<not> is_safe_integer n then Inl (ValidationError ''Name the workflow revision this change is based on.'')
       else if n \<noteq> wf_revision w then
         Inl (ConflictError (''This task changed since revision '' @ show_int n @ ''. Read it again before changing it.''))
       else Inr ()
   | _ \<Rightarrow> Inl (ValidationError ''Name the workflow revision this change is based on.''))"

definition check_reason :: "jval \<Rightarrow> refusal + string" where
  "check_reason reason = (case reason of
     JStr t \<Rightarrow>
       if js_trim t = '''' \<or> max_workflow_reason < utf16_units t
       then Inl (ValidationError ''Give a reason of up to 500 characters.'') else Inr (js_trim t)
   | _ \<Rightarrow> Inl (ValidationError ''Give a reason of up to 500 characters.''))"

text \<open>A number printed with a positive exponent is a whole number, past every bound.\<close>

definition huge_whole :: "string \<Rightarrow> bool" where
  "huge_whole t \<longleftrightarrow> CHR ''+'' \<in> set t \<and> CHR ''-'' \<notin> set t"

definition check_maxTurns :: "jval \<Rightarrow> refusal + int" where
  "check_maxTurns v =
     (let whole = Inl (ValidationError ''A turn budget is a whole number from 1 up.'');
          most = Inl (ValidationError ''A turn budget is at most 16 turns.'') in
      case v of
        JInt n \<Rightarrow> if n < 1 then whole else if max_turns < n then most else Inr n
      | JDec t \<Rightarrow> if huge_whole t then most else whole
      | _ \<Rightarrow> whole)"

definition handoff_record :: "string \<Rightarrow> task_owner \<Rightarrow> task_phase \<Rightarrow> task_phase \<Rightarrow> string \<Rightarrow> handoff" where
  "handoff_record time by from to reason = \<lparr>ho_at = time, ho_by = by, ho_from = from, ho_to = to, ho_reason = reason\<rparr>"

section \<open>The loop up the parents ends\<close>

text \<open>Each turn of the loop reads a task whose id it had not seen, so it makes at most as many turns as there are tasks.\<close>

lemma depth_loop_returns: "\<exists>d. depth_loop ts current seen depth = Some d"
proof (induction "card (tk_id ` set ts - set seen)" arbitrary: current seen depth rule: less_induct)
  case less
  show ?case
  proof (cases "\<exists>i parent. current = Some i \<and> i \<noteq> '''' \<and> i \<notin> set seen \<and> find (\<lambda>r. tk_id r = i) ts = Some parent")
    case True
    then obtain i parent where i: "current = Some i" "i \<noteq> ''''" "i \<notin> set seen"
      and parent: "find (\<lambda>r. tk_id r = i) ts = Some parent" by blast
    from find_Some_in_set [OF parent] have "i \<in> tk_id ` set ts - set seen" using i(3) by blast
    then have "card (tk_id ` set ts - set (i # seen)) < card (tk_id ` set ts - set seen)"
      by (intro psubset_card_mono) auto
    from less [OF this, of "parent_of parent" "depth + 1"] i parent show ?thesis
      by (subst depth_loop.simps) simp
  next
    case False
    then show ?thesis by (subst depth_loop.simps) (auto split: option.splits)
  qed
qed

text \<open>A task is \<open>n\<close> levels deep when \<open>n\<close> steps from child to parent lead to a task that has none.\<close>

inductive levels :: "task list \<Rightarrow> task \<Rightarrow> nat \<Rightarrow> bool" where
  root: "parent_of t \<in> {None, Some ''''} \<Longrightarrow> levels ts t 0"
| child: "parent_of t = Some i \<Longrightarrow> i \<noteq> '''' \<Longrightarrow> find (\<lambda>r. tk_id r = i) ts = Some p \<Longrightarrow> levels ts p n
    \<Longrightarrow> levels ts t (Suc n)"

inductive_cases levels_root: "levels ts t 0"
inductive_cases levels_child: "levels ts t (Suc n)"

lemma levels_unique: "levels ts t n \<Longrightarrow> levels ts t m \<Longrightarrow> n = m"
proof (induction arbitrary: m rule: levels.induct)
  case (root t ts)
  then show ?case by (auto elim: levels.cases)
next
  case (child t i ts p n)
  from child.prems child.hyps show ?case
    by (cases rule: levels.cases) (auto dest: child.IH)
qed

text \<open>
  The loop counts those levels, whatever it has seen, as long as what it has seen is deeper than where it stands.
\<close>

lemma depth_loop_levels:
  assumes "levels ts p n" and "\<And>i q m. i \<in> set seen \<Longrightarrow> find (\<lambda>r. tk_id r = i) ts = Some q \<Longrightarrow> levels ts q m \<Longrightarrow> n \<le> m"
  shows "depth_loop ts (parent_of p) seen depth = Some (depth + enat n)"
  using assms
proof (induction arbitrary: seen depth rule: levels.induct)
  case (root t ts)
  then show ?case by (subst depth_loop.simps) (auto simp flip: zero_enat_def)
next
  case (child t i ts p n)
  have fresh: "i \<notin> set seen"
    using child.prems [OF _ child.hyps(3,4)] by auto
  have "depth_loop ts (parent_of p) (i # seen) (depth + 1) = Some (depth + 1 + enat n)"
  proof (rule child.IH)
    fix j q m assume "j \<in> set (i # seen)" "find (\<lambda>r. tk_id r = j) ts = Some q" "levels ts q m"
    then consider "q = p" | "j \<in> set seen" using child.hyps(3) by auto
    then show "n \<le> m"
    proof cases
      case 1
      with levels_unique [OF child.hyps(4)] \<open>levels ts q m\<close> show ?thesis by simp
    next
      case 2
      from child.prems [OF this \<open>find _ ts = Some q\<close> \<open>levels ts q m\<close>] show ?thesis by simp
    qed
  qed
  moreover have "depth + 1 + enat n = depth + enat (Suc n)"
    by (simp add: add.assoc one_enat_def)
  ultimately show ?case
    using child.hyps fresh by (subst depth_loop.simps) simp
qed

text \<open>Every finite answer is such a count.\<close>

lemma depth_loop_counts:
  "depth_loop ts (parent_of p) seen (enat k) = Some (enat d) \<Longrightarrow> k \<le> d \<and> levels ts p (d - k)"
proof (induction "card (tk_id ` set ts - set seen)" arbitrary: p seen k rule: less_induct)
  case less
  show ?case
  proof (cases "parent_of p \<in> {None, Some ''''}")
    case True
    then have "d = k" using less.prems by (subst (asm) depth_loop.simps) auto
    with True show ?thesis by (auto intro: levels.root)
  next
    case False
    then obtain i where i: "parent_of p = Some i" "i \<noteq> ''''" by auto
    with less.prems obtain q where q: "i \<notin> set seen" "find (\<lambda>r. tk_id r = i) ts = Some q"
      and rest: "depth_loop ts (parent_of q) (i # seen) (enat (Suc k)) = Some (enat d)"
      by (subst (asm) depth_loop.simps) (auto split: if_splits option.splits simp: one_enat_def)
    from find_Some_in_set [OF q(2)] q(1) have "i \<in> tk_id ` set ts - set seen" by blast
    then have "card (tk_id ` set ts - set (i # seen)) < card (tk_id ` set ts - set seen)"
      by (intro psubset_card_mono) auto
    from less.hyps [OF this rest] have "Suc k \<le> d" "levels ts q (d - Suc k)" by auto
    then show ?thesis using levels.child [OF i q(2), of "d - Suc k"] by (simp add: Suc_diff_Suc Suc_le_eq)
  qed
qed

lemma task_depth_levels:
  assumes "find (\<lambda>r. tk_id r = tk_id t) ts = Some t"
  shows "task_depth ts t = Some (enat n) \<longleftrightarrow> levels ts t n"
proof
  show "levels ts t n" if "task_depth ts t = Some (enat n)"
    using depth_loop_counts [of ts t "[tk_id t]" 0 n] that by (simp add: task_depth_def zero_enat_def)
  show "task_depth ts t = Some (enat n)" if "levels ts t n"
    using depth_loop_levels [OF that, of "[tk_id t]" 0] assms levels_unique [OF that] by (simp add: task_depth_def)
qed

text \<open>A task may take a child exactly while it is less than two levels deep and has fewer than four.\<close>

lemma child_blocker_None:
  assumes "find (\<lambda>r. tk_id r = tk_id t) ts = Some t"
  shows "child_blocker ts t = None \<longleftrightarrow> (\<exists>n < 2. levels ts t n) \<and> child_count ts (tk_id t) < 4"
proof -
  have "(case task_depth ts t of None \<Rightarrow> True | Some d \<Rightarrow> max_depth \<le> d) \<longleftrightarrow> \<not> (\<exists>n < 2. levels ts t n)"
  proof (cases "task_depth ts t")
    case None
    with depth_loop_returns [of ts "parent_of t" "[tk_id t]" 0] show ?thesis by (simp add: task_depth_def)
  next
    case (Some d)
    show ?thesis
    proof (cases d)
      case (enat k)
      with Some task_depth_levels [OF assms] have "levels ts t k" by simp
      then have "(\<exists>n < 2. levels ts t n) \<longleftrightarrow> k < 2" by (auto dest: levels_unique)
      with Some enat show ?thesis by (auto simp: max_depth_def numeral_eq_enat)
    next
      case infinity
      with Some task_depth_levels [OF assms] show ?thesis by auto
    qed
  qed
  then show ?thesis by (simp add: child_blocker_def max_children_def)
qed

lemma next_phase_not_same [simp]: "next_phase p \<noteq> Some p"
  by (cases p) simp_all

end
