(* ===== verification/Workflow_Routes.thy ===== *)
theory Workflow_Routes
  imports Task_Workflow
begin

text \<open>
  The admitting half of the task workflow, \<open>server/task-workflow.ts\<close>, and the step of a run that moves a task's phase,
  \<open>server/task-phase.ts\<close>. A handler takes the project's state and the request's body and answers with the task and the new
  state, or with a refusal; \<open>Store.locked\<close> reads the saved state back after a refusal, so a refused call changes nothing
  (\<open>commit\<close>). The skill catalogue is the one of \<open>shared/capability-packs.ts\<close>.
\<close>

section \<open>Reading the request\<close>

fun workflow_apiError :: "refusal \<Rightarrow> refusal" where
  "workflow_apiError (ValidationError m) = ApiError 400 m None"
| "workflow_apiError (ConflictError m) = ApiError 409 m None"
| "workflow_apiError e = e"

definition find_task :: "board \<Rightarrow> string \<Rightarrow> refusal + task" where
  "find_task b taskId = (case find (\<lambda>r. tk_id r = taskId) (bd_tasks b) of
     None \<Rightarrow> Inl (ApiError 404 ''This task was not found.'' None) | Some t \<Rightarrow> Inr t)"

definition live_task :: "board \<Rightarrow> string \<Rightarrow> string \<Rightarrow> refusal + task" where
  "live_task b taskId role = rbind (find_task b taskId) (\<lambda>t.
     if truthy (tk_deletedAt t)
     then Inl (ApiError 409 (''This '' @ role @ '' task was deleted. It cannot take a workflow change.'') None) else Inr t)"

definition refuse_activeRun :: "board \<Rightarrow> task \<Rightarrow> refusal + unit" where
  "refuse_activeRun b t =
     (if has_activeRun (bd_sessions b) (tk_id t)
      then Inl (ApiError 409 ''Stop this work before changing the task workflow.'' None) else Inr ())"

definition checked_name :: "jval \<Rightarrow> refusal + string" where
  "checked_name v = (case v of
     JStr t \<Rightarrow> if js_trim t = '''' \<or> 200 < utf16_units (js_trim t)
       then Inl (ValidationError ''Give this task a name of up to 200 characters.'') else Inr (js_trim t)
   | _ \<Rightarrow> Inl (ValidationError ''Give this task a name of up to 200 characters.''))"

definition checked_description :: "jval \<Rightarrow> refusal + string" where
  "checked_description v = (case v of
     JUndef \<Rightarrow> Inr ''''
   | JStr t \<Rightarrow> if 10000 < utf16_units t
       then Inl (ValidationError ''Provide a description of up to 10,000 characters.'') else Inr t
   | _ \<Rightarrow> Inl (ValidationError ''Provide a description of up to 10,000 characters.''))"

definition capability_pack_ids :: "string list" where
  "capability_pack_ids = [''diomedes.software-engineering'', ''diomedes.small-business'']"

definition small_business_skills :: "string list" where
  "small_business_skills = [''business-pulse'', ''cash-flow-snapshot'', ''month-end-prep'', ''invoice-chase'', ''pay-the-bills'',
     ''payroll-prep'', ''tax-season-organizer'', ''restock-planner'', ''review-replies'', ''lead-follow-up'', ''marketing-week'',
     ''contract-review'']"

definition find_skill :: "string \<Rightarrow> string \<Rightarrow> bool" where
  "find_skill packId skillId \<longleftrightarrow> packId = ''diomedes.small-business'' \<and> skillId \<in> set small_business_skills"

text \<open>The latest activation of a pack: of two at the same time the later one in the list.\<close>

definition latest_activation :: "pack_activation list \<Rightarrow> string \<Rightarrow> pack_activation option" where
  "latest_activation activations packId =
     (case filter (\<lambda>p. pa_packId p = packId) activations of [] \<Rightarrow> None
      | p # ps \<Rightarrow> Some (foldl (\<lambda>a b. if text_less (pa_at b) (pa_at a) then a else b) p ps))"

definition is_packActive :: "pack_activation list \<Rightarrow> string \<Rightarrow> bool" where
  "is_packActive activations packId \<longleftrightarrow>
     (case latest_activation activations packId of None \<Rightarrow> False | Some p \<Rightarrow> pa_active p)"

definition checked_skill :: "board \<Rightarrow> jval \<Rightarrow> refusal + (string \<times> string) option" where
  "checked_skill b v =
     (let refused = Inl (ValidationError ''Choose a playbook from the list, or None.'') in
      case v of
        JNull \<Rightarrow> Inr None
      | JObj fs \<Rightarrow> (case (jfield fs ''packId'', jfield fs ''skillId'') of
          (JStr packId, JStr skillId) \<Rightarrow>
            if packId \<notin> set capability_pack_ids \<or> skillId = '''' then refused
            else if \<not> is_packActive (bd_packs b) packId
            then Inl (ValidationError ''That playbook comes from a pack that is not active for this project.'')
            else if \<not> find_skill packId skillId then refused
            else Inr (Some (packId, skillId))
        | _ \<Rightarrow> refused)
      | _ \<Rightarrow> refused)"

definition checked_output :: "jval \<Rightarrow> refusal + string option" where
  "checked_output v = (case v of
     JUndef \<Rightarrow> Inr None
   | JNull \<Rightarrow> Inr None
   | JStr t \<Rightarrow> if 1000 < utf16_units t then Inl (ValidationError ''Give a separate result of up to 1,000 characters.'')
       else Inr (if js_trim t = '''' then None else Some (js_trim t))
   | _ \<Rightarrow> Inl (ValidationError ''Give a separate result of up to 1,000 characters.''))"

section \<open>The trusted helpers\<close>

record handoff_result =
  hr_advanced :: bool
  hr_from :: task_phase
  hr_to :: task_phase
  hr_pending :: bool

definition not_next :: "workflow \<Rightarrow> refusal" where
  "not_next w = ConflictError (''This task is in '' @ phase_text (wf_phase w) @ ''. The next phase is ''
     @ (case next_phase (wf_phase w) of None \<Rightarrow> ''none'' | Some p \<Rightarrow> phase_text p) @ ''.'')"

definition full_approval_reason :: string where
  "full_approval_reason = ''Continued under Full approval, within the existing scope and limits.''"

definition owner_word :: "task_owner \<Rightarrow> string" where
  "owner_word by = (if by = OwnerYou then ''You'' else ''Diomedes'')"

text \<open>The task moved to its next phase, with the handoff on record and nothing pending.\<close>

definition advance :: "string \<Rightarrow> task_owner \<Rightarrow> task_phase \<Rightarrow> string \<Rightarrow> workflow \<Rightarrow> workflow" where
  "advance time by to reason w = w\<lparr>wf_phase := to, wf_pendingPhase := None, wf_pendingReason := None,
     wf_handoffs := wf_handoffs w @ [handoff_record time by (wf_phase w) to reason], wf_revision := wf_revision w + 1\<rparr>"

definition park :: "task_phase \<Rightarrow> string \<Rightarrow> workflow \<Rightarrow> workflow" where
  "park to reason w = w\<lparr>wf_pendingPhase := Some to, wf_pendingReason := Some reason, wf_revision := wf_revision w + 1\<rparr>"

definition request_taskHandoff ::
  "stamp \<Rightarrow> task_phase \<Rightarrow> task_owner \<Rightarrow> task \<Rightarrow> board \<Rightarrow> refusal + handoff_result \<times> board" where
  "request_taskHandoff st next by t b =
     (if by \<noteq> OwnerYou \<and> is_manualCard t
      then Inl (ConflictError ''A manual Team card's phase moves only when you move it.'')
      else let w = workflow_of t; from = wf_phase w in
      if next_phase from \<noteq> Some next then Inl (not_next w)
      else if wf_pendingPhase w = Some next
      then Inr (\<lparr>hr_advanced = False, hr_from = from, hr_to = next, hr_pending = True\<rparr>, b)
      else if wf_continuation w = FullApproval then
        Inr (\<lparr>hr_advanced = True, hr_from = from, hr_to = next, hr_pending = False\<rparr>,
          snd (add_entry st ''task-handoff'' (owner_word by @ '' continued '' @ tk_name t @ '' to '' @ phase_text next @ ''.'')
            by (Some (tk_id t)) None
            (put_task (t\<lparr>tk_workflow := Some (advance (st_now st) by next full_approval_reason w)\<rparr>) b)))
      else
        Inr (\<lparr>hr_advanced = False, hr_from = from, hr_to = next, hr_pending = True\<rparr>,
          snd (add_entry st ''task-handoff-asked''
            (''Diomedes asked to continue '' @ tk_name t @ '' to '' @ phase_text next @ ''. It waits for your approval.'')
            by (Some (tk_id t)) None
            (put_task (t\<lparr>tk_workflow := Some (park next ''Asked for during the run. It waits for your approval.'' w)\<rparr>) b))))"

record proposal =
  pr_name :: string
  pr_description :: "string option"
  pr_owner :: "task_owner option"
  pr_parentTaskId :: "string option"
  pr_output :: "string option"
  pr_sessionId :: "string option"
  pr_origin :: "task_origin option"
  pr_acceptedByPerson :: bool
  pr_maxTurns :: "int option"

definition opt_text :: "string option \<Rightarrow> jval" where
  "opt_text v = (case v of None \<Rightarrow> JUndef | Some t \<Rightarrow> JStr t)"

text \<open>The parent a proposal names: a task that is there and may take a child.\<close>

definition proposal_parent :: "proposal \<Rightarrow> board \<Rightarrow> refusal + task option" where
  "proposal_parent input b = (case pr_parentTaskId input of None \<Rightarrow> Inr None
     | Some i \<Rightarrow> (case find (\<lambda>r. tk_id r = i) (bd_tasks b) of
         None \<Rightarrow> Inl (ValidationError ''This proposal names a task this project does not hold.'')
       | Some p \<Rightarrow>
           if truthy (tk_deletedAt p) then Inl (ValidationError ''This proposal names a task this project does not hold.'')
           else (case child_blocker (bd_tasks b) p of Some m \<Rightarrow> Inl (ConflictError m) | None \<Rightarrow> Inr (Some p))))"

definition parent_turns :: "task option \<Rightarrow> int \<Rightarrow> int" where
  "parent_turns parent otherwise = (case parent of None \<Rightarrow> otherwise | Some p \<Rightarrow> wf_maxTurns (workflow_of p))"

definition proposal_turns :: "proposal \<Rightarrow> task option \<Rightarrow> refusal + int" where
  "proposal_turns input parent = (case pr_maxTurns input of
     None \<Rightarrow> Inr (min default_max_turns (parent_turns parent default_max_turns))
   | Some n \<Rightarrow> rbind (check_maxTurns (JInt n)) (\<lambda>turns.
       if parent \<noteq> None \<and> parent_turns parent turns < turns
       then Inl (ValidationError ''A child cannot exceed its parent turn limit.'')
       else Inr (min turns (parent_turns parent turns))))"

definition propose_task :: "stamp \<Rightarrow> proposal \<Rightarrow> board \<Rightarrow> refusal + task \<times> board" where
  "propose_task st input b =
     rbind (checked_name (JStr (pr_name input))) (\<lambda>name.
     rbind (checked_description (opt_text (pr_description input))) (\<lambda>description.
     rbind (proposal_parent input b) (\<lambda>parent.
     if pr_sessionId input \<noteq> None
       \<and> \<not> list_ex (\<lambda>s. Some (ss_id s) = pr_sessionId input \<and> (parent = None \<or> ss_taskId s = tk_id (the parent))) (bd_sessions b)
     then Inl (ValidationError ''This proposal names a run this project does not hold.'')
     else if pr_origin input \<noteq> None \<and> to_projectId (the (pr_origin input)) \<noteq> bd_projectId b
     then Inl (ValidationError ''This proposal names a project it did not come from.'')
     else
     rbind (checked_output (opt_text (pr_output input))) (\<lambda>output.
     if parent \<noteq> None \<and> output = None then Inl (ValidationError ''Name the separate result for this child task.'')
     else
     rbind (proposal_turns input parent) (\<lambda>turns.
     rbind (create_task st name description None (case pr_owner input of None \<Rightarrow> OwnerDiomedes | Some ow \<Rightarrow> ow) b) (\<lambda>(t, b).
     let w = empty_taskWorkflow\<lparr>wf_continuation := wf_continuation (case parent of None \<Rightarrow> empty_taskWorkflow | Some p \<Rightarrow> workflow_of p),
           wf_inbox := \<not> pr_acceptedByPerson input, wf_parentTaskId := map_option tk_id parent, wf_output := output,
           wf_maxTurns := turns\<rparr>;
         t = t\<lparr>tk_createdBy := OwnerDiomedes, tk_workflow := Some w, tk_origin := pr_origin input\<rparr>
     in Inr (t, snd (add_entry st ''tasks-made'' (''Diomedes proposed a task: '' @ tk_name t @ ''.'') OwnerDiomedes
          (Some (tk_id t)) (pr_sessionId input) (put_task t b)))))))))"

definition propose_ownedTaskAssignment ::
  "stamp \<Rightarrow> string \<Rightarrow> string \<Rightarrow> string \<Rightarrow> proposal \<Rightarrow> board \<Rightarrow> refusal + task \<times> board" where
  "propose_ownedTaskAssignment st parentTaskId rootRunId admissionRef input b =
     (if rootRunId = '''' \<or> 160 < utf16_units rootRunId \<or> admissionRef = '''' \<or> 160 < utf16_units admissionRef
      then Inl (ValidationError ''The owned assignment needs its recorded root admission.'')
      else
      rbind (live_task b parentTaskId ''parent'') (\<lambda>parent.
      if tk_state parent = TaskDone
        \<or> (case tk_workflow parent of None \<Rightarrow> False | Some w \<Rightarrow> wf_inbox w \<or> wf_pendingPhase w \<noteq> None)
      then Inl (ConflictError ''The root task is not admitted to continue this assignment.'')
      else
      rbind (propose_task st (input\<lparr>pr_parentTaskId := Some parentTaskId, pr_acceptedByPerson := False\<rparr>) b) (\<lambda>(t, b).
      let t = t\<lparr>tk_ownedAssignment := Some \<lparr>oa_rootTaskId = parentTaskId, oa_rootRunId = rootRunId, oa_admissionRef = admissionRef\<rparr>,
            tk_workflow := Some ((workflow_of t)\<lparr>wf_inbox := False, wf_phase := wf_phase (workflow_of parent)\<rparr>)\<rparr>
      in Inr (t, snd (add_entry st ''task-owned-assignment-admitted''
           (''Diomedes admitted '' @ tk_name t @ '' as a bounded assignment under '' @ tk_name parent @ ''.'')
           OwnerDiomedes (Some (tk_id t)) (pr_sessionId input) (put_task t b))))))"

section \<open>The person's routes\<close>

fun continuation_text :: "continuation \<Rightarrow> string" where
  "continuation_text FullApproval = ''full-approval''"
| "continuation_text StopOnPhaseChange = ''stop-on-phase-change''"

definition asked_continuation :: "jval \<Rightarrow> workflow \<Rightarrow> refusal + continuation" where
  "asked_continuation v w = (if v = JUndef then Inr (wf_continuation w)
     else case continuation_of v of None \<Rightarrow> Inl (ValidationError ''Choose Full approval or Stop on phase change.'') | Some c \<Rightarrow> Inr c)"

definition wider :: "continuation \<Rightarrow> continuation \<Rightarrow> bool" where
  "wider child parent \<longleftrightarrow> parent = StopOnPhaseChange \<and> child = FullApproval"

text \<open>New limits stay within the parent's and above every child's; a deleted child keeps its limits.\<close>

definition limits_refused :: "task \<Rightarrow> task option \<Rightarrow> int \<Rightarrow> continuation \<Rightarrow> board \<Rightarrow> refusal option" where
  "limits_refused t parent turns continuation b =
     (if parent_turns parent turns < turns then Some (ValidationError ''A child cannot exceed its parent turn limit.'')
      else if parent \<noteq> None \<and> wider continuation (wf_continuation (workflow_of (the parent)))
      then Some (ValidationError ''This parent requires approval at phase changes. Keep that limit for its child.'')
      else if list_ex (\<lambda>c. parent_of c = Some (tk_id t)
          \<and> (turns < wf_maxTurns (workflow_of c) \<or> wider (wf_continuation (workflow_of c)) continuation)) (bd_tasks b)
      then Some (ConflictError ''Update the child task limits before tightening their parent limits.'')
      else None)"

definition own_parent :: "board \<Rightarrow> workflow \<Rightarrow> refusal + task option" where
  "own_parent b w =
     (if truthy (wf_parentTaskId w) then rmap Some (live_task b (the (wf_parentTaskId w)) ''parent'') else Inr None)"

definition asked_turns :: "jval \<Rightarrow> workflow \<Rightarrow> refusal + int" where
  "asked_turns v w = (if v = JUndef then Inr (wf_maxTurns w) else check_maxTurns v)"

definition asked_skill :: "board \<Rightarrow> jval \<Rightarrow> workflow \<Rightarrow> refusal + (string \<times> string) option" where
  "asked_skill b v w = (if v = JUndef then Inr (wf_skill w) else checked_skill b v)"

definition set_workflow :: "stamp \<Rightarrow> jval \<Rightarrow> task \<Rightarrow> board \<Rightarrow> refusal + task \<times> board" where
  "set_workflow st body t b =
     (let w = workflow_of t in
      rbind (check_revision w (jget body ''expectedRevision'')) (\<lambda>_.
      rbind (refuse_activeRun b t) (\<lambda>_.
      rbind (asked_continuation (jget body ''continuation'') w) (\<lambda>continuation.
      rbind (asked_turns (jget body ''maxTurns'') w) (\<lambda>turns.
      rbind (own_parent b w) (\<lambda>parent.
      case limits_refused t parent turns continuation b of Some e \<Rightarrow> Inl e
      | None \<Rightarrow>
      rbind (asked_skill b (jget body ''skill'') w) (\<lambda>skill.
      let t' = t\<lparr>tk_workflow := Some (w\<lparr>wf_continuation := continuation, wf_maxTurns := turns, wf_skill := skill,
                 wf_revision := wf_revision w + 1\<rparr>)\<rparr>
      in Inr (t', snd (add_entry st ''task-workflow'' (''You set the workflow for '' @ tk_name t @ '': ''
           @ continuation_text continuation @ '', up to '' @ show_int turns @ '' turns.'') OwnerYou (Some (tk_id t)) None
           (put_task t' b))))))))))"

definition accept_task :: "stamp \<Rightarrow> jval \<Rightarrow> task \<Rightarrow> board \<Rightarrow> refusal + task \<times> board" where
  "accept_task st body t b =
     rbind (check_revision (workflow_of t) (jget body ''expectedRevision'')) (\<lambda>_.
     case tk_workflow t of
       Some w \<Rightarrow>
         if wf_inbox w then
           let t' = t\<lparr>tk_workflow := Some (w\<lparr>wf_inbox := False, wf_revision := wf_revision w + 1\<rparr>)\<rparr>
           in Inr (t', snd (add_entry st ''task-workflow'' (''You accepted '' @ tk_name t @ '' from the Inbox.'') OwnerYou
                (Some (tk_id t)) None (put_task t' b)))
         else Inl (ConflictError ''This task is not waiting in the Inbox.'')
     | None \<Rightarrow> Inl (ConflictError ''This task is not waiting in the Inbox.''))"

definition hand_off :: "stamp \<Rightarrow> jval \<Rightarrow> task \<Rightarrow> board \<Rightarrow> refusal + task \<times> board" where
  "hand_off st body t b =
     (let w = workflow_of t in
      rbind (check_revision w (jget body ''expectedRevision'')) (\<lambda>_.
      rbind (refuse_activeRun b t) (\<lambda>_.
      case workflow_phase (if is_nullish (jget body ''phase'') then jget body ''next'' else jget body ''phase'') of
        None \<Rightarrow> Inl (ValidationError ''Choose a valid next phase.'')
      | Some next \<Rightarrow>
      rbind (check_reason (jget body ''reason'')) (\<lambda>reason.
      if next_phase (wf_phase w) \<noteq> Some next then Inl (not_next w)
      else if wf_continuation w = FullApproval then
        let t' = t\<lparr>tk_workflow := Some (advance (st_now st) OwnerYou next reason w)\<rparr>
        in Inr (t', snd (add_entry st ''task-handoff'' (''You continued '' @ tk_name t @ '' to '' @ phase_text next @ ''.'') OwnerYou
             (Some (tk_id t)) None (put_task t' b)))
      else
        let t' = t\<lparr>tk_workflow := Some (park next reason w)\<rparr>
        in Inr (t', snd (add_entry st ''task-handoff-asked''
             (''You asked to continue '' @ tk_name t @ '' to '' @ phase_text next @ ''. It waits for approval.'') OwnerYou
             (Some (tk_id t)) None (put_task t' b)))))))"

definition approve_phase :: "stamp \<Rightarrow> jval \<Rightarrow> task \<Rightarrow> board \<Rightarrow> refusal + task \<times> board" where
  "approve_phase st body t b =
     rbind (check_revision (workflow_of t) (jget body ''expectedRevision'')) (\<lambda>_.
     rbind (refuse_activeRun b t) (\<lambda>_.
     case tk_workflow t of
       None \<Rightarrow> Inl (ConflictError ''There is no pending phase to approve.'')
     | Some w \<Rightarrow> (case wf_pendingPhase w of
         None \<Rightarrow> Inl (ConflictError ''There is no pending phase to approve.'')
       | Some to \<Rightarrow>
           let reason = (case wf_pendingReason w of None \<Rightarrow> ''Approved by you.'' | Some r \<Rightarrow> r);
               t' = t\<lparr>tk_workflow := Some (advance (st_now st) OwnerYou to reason w)\<rparr>
           in Inr (t', snd (add_entry st ''task-handoff''
                (''You approved continuing '' @ tk_name t @ '' to '' @ phase_text to @ ''.'') OwnerYou (Some (tk_id t)) None
                (put_task t' b))))))"

text \<open>The handlers above run on the live task the path names.\<close>

definition mutate ::
  "(task \<Rightarrow> board \<Rightarrow> refusal + task \<times> board) \<Rightarrow> string \<Rightarrow> board \<Rightarrow> refusal + task \<times> board" where
  "mutate handler taskId b = rbind (live_task b taskId ''target'') (\<lambda>t. handler t b)"

definition branch_payload :: "task \<Rightarrow> string \<Rightarrow> string \<Rightarrow> string \<Rightarrow> int option \<Rightarrow> jval" where
  "branch_payload parent name description output turns = JObj [(''type'', JStr ''task.child''), (''protocolVersion'', JInt 1),
     (''parent'', JStr (tk_id parent)), (''name'', JStr name), (''description'', JStr description), (''output'', JStr output),
     (''maxTurns'', case turns of None \<Rightarrow> JNull | Some n \<Rightarrow> JInt n)]"

text \<open>The child itself, made once: a repeated command answers with the task it made.\<close>

definition child_turns :: "int option \<Rightarrow> workflow \<Rightarrow> int" where
  "child_turns asked pw = (case asked of None \<Rightarrow> min default_max_turns (wf_maxTurns pw) | Some n \<Rightarrow> n)"

definition make_child ::
  "stamp \<Rightarrow> string \<Rightarrow> string \<Rightarrow> task \<Rightarrow> string \<Rightarrow> string \<Rightarrow> string \<Rightarrow> int option \<Rightarrow> board \<Rightarrow> refusal + task \<times> board" where
  "make_child st commandId digest parent name description result asked b =
     rbind (create_task st name description None OwnerYou b) (\<lambda>(t, b).
     let pw = workflow_of parent;
         w = empty_taskWorkflow\<lparr>wf_continuation := wf_continuation pw, wf_inbox := True, wf_parentTaskId := Some (tk_id parent),
           wf_output := Some result, wf_maxTurns := child_turns asked pw\<rparr>;
         (entry, b) = add_entry st ''tasks-made'' (''You branched a task from '' @ tk_name parent @ '': '' @ tk_name t @ ''.'') OwnerYou
           (Some (tk_id t)) None b;
         t = t\<lparr>tk_workflow := Some w, tk_creationReceipt := Some \<lparr>cr_commandId = commandId, cr_payloadDigest = digest,
           cr_projectId = bd_projectId b, cr_taskId = tk_id t, cr_eventId = en_id entry, cr_admittedAt = en_time entry\<rparr>\<rparr>
     in Inr (t, put_task t b))"

definition replayed_task :: "command_record \<Rightarrow> string \<Rightarrow> refusal + task" where
  "replayed_task r digest =
     (let conflict = Inl (ApiError 409 ''This command already names a different request.'' (Some ''task_command_conflict'')) in
      case r of TaskCreate t d \<Rightarrow> if d \<noteq> digest then conflict else Inr t
      | WorkStart _ _ \<Rightarrow> conflict | ApprovalDecide _ _ \<Rightarrow> conflict | ScopeIssue _ \<Rightarrow> conflict | Control _ \<Rightarrow> conflict)"

definition asked_childTurns :: "jval \<Rightarrow> workflow \<Rightarrow> refusal + int option" where
  "asked_childTurns v pw = (if v = JUndef then Inr None else rbind (check_maxTurns v) (\<lambda>n.
     if wf_maxTurns pw < n
     then Inl (ValidationError (''A branched task keeps within its parent's turn budget of '' @ show_int (wf_maxTurns pw) @ ''.''))
     else Inr (Some n)))"

definition branch_child ::
  "(string \<Rightarrow> string) \<Rightarrow> stamp \<Rightarrow> jval \<Rightarrow> string \<Rightarrow> board \<Rightarrow> refusal + task \<times> board" where
  "branch_child sha256 st body taskId b =
     rbind (live_task b taskId ''source'') (\<lambda>parent.
     case command_id_ok (jget body ''commandId'') of
       None \<Rightarrow> Inl (ValidationError ''Give this branching a unique command id.'')
     | Some commandId \<Rightarrow>
     rbind (checked_name (jget body ''name'')) (\<lambda>name.
     rbind (checked_description (jget body ''description'')) (\<lambda>description.
     rbind (checked_output (jget body ''output'')) (\<lambda>result.
     case result of
       None \<Rightarrow> Inl (ValidationError ''Name the separate result for this child task.'')
     | Some output \<Rightarrow>
     rbind (asked_childTurns (jget body ''maxTurns'') (workflow_of parent)) (\<lambda>asked.
     let digest = payload_digest sha256 (branch_payload parent name description output asked) in
     case find_command b commandId of
       Some r \<Rightarrow> rmap (\<lambda>t. (t, b)) (replayed_task r digest)
     | None \<Rightarrow>
       (case child_blocker (bd_tasks b) parent of
          Some m \<Rightarrow> Inl (ConflictError m)
        | None \<Rightarrow> make_child st commandId digest parent name description output asked b))))))"

section \<open>The step of a run that moves the phase\<close>

record run_binding =
  rb_projectId :: string
  rb_runId :: string
  rb_taskId :: "string option"
  rb_sessionId :: "string option"

definition live_row :: "board \<Rightarrow> string option \<Rightarrow> task option" where
  "live_row b taskId = find (\<lambda>r. Some (tk_id r) = taskId \<and> \<not> truthy (tk_deletedAt r)) (bd_tasks b)"

text \<open>Under Stop on phase change the wait is on record before the run suspends.\<close>

definition park_phase :: "stamp \<Rightarrow> run_binding \<Rightarrow> task_phase \<Rightarrow> board \<Rightarrow> refusal + board" where
  "park_phase st run phase b =
     (case live_row b (rb_taskId run) of None \<Rightarrow> Inr b
      | Some t \<Rightarrow> (case tk_workflow t of None \<Rightarrow> Inr b
        | Some w \<Rightarrow>
            if wf_phase w = phase \<or> wf_pendingPhase w = Some phase then Inr b
            else rmap snd (request_taskHandoff st phase OwnerDiomedes t b)))"

definition phase_stepId :: "task_phase \<Rightarrow> string" where
  "phase_stepId phase = ''task-phase:'' @ phase_text phase"

text \<open>The Need whose approval the step carries out, and its record that the step was applied.\<close>

definition phase_need :: "run_binding \<Rightarrow> task_phase \<Rightarrow> board \<Rightarrow> task_need option" where
  "phase_need run phase b = find (\<lambda>n. nd_harness n = Some (rb_runId run, phase_stepId phase) \<and> nd_state n = NeedGoAhead) (bd_needs b)"

definition apply_need :: "task_need option \<Rightarrow> history_entry \<Rightarrow> board \<Rightarrow> board" where
  "apply_need need entry b = (case need of None \<Rightarrow> b
     | Some n \<Rightarrow> b\<lparr>bd_needs := upsert (\<lambda>r. r = n) (n\<lparr>nd_appliedEvent := Some (en_id entry)\<rparr>) (bd_needs b)\<rparr>)"

definition phase_step :: "stamp \<Rightarrow> run_binding \<Rightarrow> run_binding \<Rightarrow> task_phase \<Rightarrow> board \<Rightarrow> refusal + bool \<times> board" where
  "phase_step st run fresh phase b =
     (case live_row b (rb_taskId run) of
        None \<Rightarrow> Inl (OtherError ''This task no longer holds a workflow, so its phase cannot advance.'')
      | Some t \<Rightarrow> (case tk_workflow t of
        None \<Rightarrow> Inl (OtherError ''This task no longer holds a workflow, so its phase cannot advance.'')
      | Some w \<Rightarrow>
        if rb_projectId fresh \<noteq> rb_projectId run \<or> rb_runId fresh \<noteq> rb_runId run \<or> rb_taskId fresh \<noteq> rb_taskId run
          \<or> rb_taskId fresh \<noteq> Some (tk_id t) \<or> rb_sessionId fresh \<noteq> rb_sessionId run
        then Inl (OtherError ''This phase approval names a different task, run or session.'')
        else if wf_phase w = phase then Inr (False, b)
        else if next_phase (wf_phase w) \<noteq> Some phase
        then Inl (OtherError (''This task is in '' @ phase_text (wf_phase w) @ ''. The next phase is ''
          @ (case next_phase (wf_phase w) of None \<Rightarrow> ''none'' | Some p \<Rightarrow> phase_text p) @ ''.''))
        else
          let full = wf_continuation w = FullApproval;
              by = (if full then OwnerDiomedes else OwnerYou);
              t' = t\<lparr>tk_workflow := Some (advance (st_now st) by phase (if full then full_approval_reason else ''Approved by you.'') w)\<rparr>;
              need = phase_need run phase b;
              (entry, b') = add_entry_for (map_option nd_id need) st ''task-handoff''
                ((if full then ''Diomedes continued '' else ''You approved continuing '') @ tk_name t @ '' to '' @ phase_text phase @ ''.'')
                by (Some (tk_id t)) (rb_sessionId run) (put_task t' b)
          in Inr (True, apply_need need entry b')))"

end
