(* ===== verification/Workflow_Life.thy ===== *)
theory Workflow_Life
  imports Workflow_Routes
begin

text \<open>
  The life of a project's tasks: every call that changes a workflow as one step, the states such steps reach from an empty
  board, and what holds in all of them. A refused call leaves the board as it was.
\<close>

section \<open>The calls\<close>

text \<open>A task a person's request makes, an automatic one, and a card of a Team member.\<close>

definition make_automatic :: "stamp \<Rightarrow> string \<Rightarrow> string \<Rightarrow> task_owner \<Rightarrow> board \<Rightarrow> refusal + task \<times> board" where
  "make_automatic st name description owner b =
     rbind (create_task st name description None owner b) (\<lambda>(t, b).
     let t = t\<lparr>tk_workflow := Some (empty_taskWorkflow\<lparr>wf_continuation := FullApproval, wf_maxTurns := 12\<rparr>)\<rparr>
     in Inr (t, put_task t b))"

definition make_card :: "stamp \<Rightarrow> string \<Rightarrow> string \<Rightarrow> string \<Rightarrow> bool \<Rightarrow> board \<Rightarrow> refusal + task \<times> board" where
  "make_card st name description slotId inAgentTeam b =
     rbind (create_task st name description None OwnerDiomedesWithOk b) (\<lambda>(t, b).
     let t = t\<lparr>tk_createdBy := OwnerDiomedes, tk_assignedTo := Some slotId,
           tk_workflow := Some (if inAgentTeam then empty_taskWorkflow\<lparr>wf_inbox := True\<rparr> else manual_taskWorkflow)\<rparr>
     in Inr (t, put_task t b))"

text \<open>
  \<open>Runs\<close> stands for everything outside these components: sessions that start and end, Needs that are decided. \<open>Delete\<close> and
  \<open>Restore\<close> set and clear \<open>deletedAt\<close>, as a Team member's update does.
\<close>

datatype board_call = MakeTask string string task_owner | MakeAutomatic string string task_owner
  | MakeCard string string string bool | Delete string | Restore string | Runs "work_session list" "task_need list"
  | SetWorkflow string jval | Accept string jval | HandOff string jval | ApprovePhase string jval | Branch string jval
  | Propose proposal | ProposeOwned string string string proposal | RequestHandoff string task_phase task_owner
  | ParkPhase run_binding task_phase | PhaseStep run_binding run_binding task_phase

fun board_step :: "(string \<Rightarrow> string) \<Rightarrow> stamp \<Rightarrow> board_call \<Rightarrow> board \<Rightarrow> refusal + board" where
  "board_step sha st (MakeTask name description owner) b = rmap snd (create_task st name description None owner b)"
| "board_step sha st (MakeAutomatic name description owner) b = rmap snd (make_automatic st name description owner b)"
| "board_step sha st (MakeCard name description slot team) b = rmap snd (make_card st name description slot team b)"
| "board_step sha st (Delete i) b = rmap (\<lambda>t. put_task (t\<lparr>tk_deletedAt := Some (st_now st)\<rparr>) b) (find_task b i)"
| "board_step sha st (Restore i) b = rmap (\<lambda>t. put_task (t\<lparr>tk_deletedAt := None\<rparr>) b) (find_task b i)"
| "board_step sha st (Runs sessions needs) b = Inr (b\<lparr>bd_sessions := sessions, bd_needs := needs\<rparr>)"
| "board_step sha st (SetWorkflow i body) b = rmap snd (mutate (set_workflow st body) i b)"
| "board_step sha st (Accept i body) b = rmap snd (mutate (accept_task st body) i b)"
| "board_step sha st (HandOff i body) b = rmap snd (mutate (hand_off st body) i b)"
| "board_step sha st (ApprovePhase i body) b = rmap snd (mutate (approve_phase st body) i b)"
| "board_step sha st (Branch i body) b = rmap snd (branch_child sha st body i b)"
| "board_step sha st (Propose input) b = rmap snd (propose_task st input b)"
| "board_step sha st (ProposeOwned i run admission input) b = rmap snd (propose_ownedTaskAssignment st i run admission input b)"
| "board_step sha st (RequestHandoff i next by) b = rbind (live_task b i ''target'') (\<lambda>t. rmap snd (request_taskHandoff st next by t b))"
| "board_step sha st (ParkPhase run phase) b = park_phase st run phase b"
| "board_step sha st (PhaseStep run fresh phase) b = rmap snd (phase_step st run fresh phase b)"

definition commit :: "'e + board \<Rightarrow> board \<Rightarrow> board" where
  "commit r b = (case r of Inl _ \<Rightarrow> b | Inr b' \<Rightarrow> b')"

inductive worked :: "(string \<Rightarrow> string) \<Rightarrow> board \<Rightarrow> bool" for sha where
  fresh: "bd_tasks b = [] \<Longrightarrow> worked sha b"
| step: "worked sha b \<Longrightarrow> worked sha (commit (board_step sha st call b) b)"

section \<open>What every board keeps\<close>

text \<open>The handoffs on record lead from one phase to another, each to the next one.\<close>

fun handoffs_lead :: "task_phase \<Rightarrow> handoff list \<Rightarrow> task_phase \<Rightarrow> bool" where
  "handoffs_lead p [] q \<longleftrightarrow> p = q"
| "handoffs_lead p (h # hs) q \<longleftrightarrow> ho_from h = p \<and> next_phase p = Some (ho_to h) \<and> handoffs_lead (ho_to h) hs q"

lemma handoffs_lead_snoc [simp]:
  "handoffs_lead p (hs @ [h]) q \<longleftrightarrow> handoffs_lead p hs (ho_from h) \<and> next_phase (ho_from h) = Some (ho_to h) \<and> ho_to h = q"
  by (induction p hs q rule: handoffs_lead.induct) auto

definition workflow_ok :: "bool \<Rightarrow> workflow \<Rightarrow> bool" where
  "workflow_ok owned w \<longleftrightarrow> 1 \<le> wf_maxTurns w \<and> wf_maxTurns w \<le> max_turns
     \<and> (\<exists>p. (owned \<or> p = PlanPhase) \<and> handoffs_lead p (wf_handoffs w) (wf_phase w))
     \<and> (wf_pendingPhase w = None \<or> wf_pendingPhase w = next_phase (wf_phase w))"

definition task_ok :: "task \<Rightarrow> bool" where
  "task_ok t \<longleftrightarrow> tk_id t \<noteq> '''' \<and> workflow_ok (tk_ownedAssignment t \<noteq> None) (workflow_of t)"

text \<open>A child's limits are within its parent's.\<close>

definition narrower :: "task \<Rightarrow> task \<Rightarrow> bool" where
  "narrower c p \<longleftrightarrow> wf_maxTurns (workflow_of c) \<le> wf_maxTurns (workflow_of p)
     \<and> \<not> wider (wf_continuation (workflow_of c)) (wf_continuation (workflow_of p))"

definition family_ok :: "task list \<Rightarrow> bool" where
  "family_ok ts \<longleftrightarrow> (\<forall>t \<in> set ts. \<exists>n \<le> 2. levels ts t n) \<and> (\<forall>t \<in> set ts. child_count ts (tk_id t) \<le> max_children)
     \<and> (\<forall>c \<in> set ts. \<forall>p \<in> set ts. parent_of c = Some (tk_id p) \<longrightarrow> narrower c p)"

definition board_ok :: "board \<Rightarrow> bool" where
  "board_ok b \<longleftrightarrow> distinct (map tk_id (bd_tasks b)) \<and> (\<forall>t \<in> set (bd_tasks b). task_ok t) \<and> family_ok (bd_tasks b)"

lemma workflow_ok_empty [simp]: "workflow_ok owned empty_taskWorkflow"
  by (auto simp: workflow_ok_def empty_taskWorkflow_def default_max_turns_def max_turns_def)

lemma workflow_ok_advance:
  "workflow_ok owned w \<Longrightarrow> next_phase (wf_phase w) = Some to \<Longrightarrow> workflow_ok owned (advance time by to reason w)"
  by (auto simp: workflow_ok_def advance_def handoff_record_def)

lemma workflow_ok_park: "workflow_ok owned w \<Longrightarrow> next_phase (wf_phase w) = Some to \<Longrightarrow> workflow_ok owned (park to reason w)"
  by (auto simp: workflow_ok_def park_def)

lemma check_maxTurns_Inr [result_simps]: "check_maxTurns v = Inr n \<longleftrightarrow> v = JInt n \<and> 1 \<le> n \<and> n \<le> max_turns"
  by (auto simp: check_maxTurns_def Let_def split: jval.splits if_splits)

section \<open>Levels\<close>

text \<open>How deep a task sits depends on the ids and the parents of the tasks alone.\<close>

definition kin :: "task list \<Rightarrow> (string \<times> string option) list" where
  "kin ts = map (\<lambda>t. (tk_id t, parent_of t)) ts"

lemma kin_find:
  "kin ts = kin ts' \<Longrightarrow> find (\<lambda>r. tk_id r = i) ts = Some p \<Longrightarrow> \<exists>p'. find (\<lambda>r. tk_id r = i) ts' = Some p' \<and> parent_of p' = parent_of p"
proof (induction ts arbitrary: ts')
  case Nil
  then show ?case by simp
next
  case (Cons t ts)
  then obtain t' us where "ts' = t' # us" "tk_id t' = tk_id t" "parent_of t' = parent_of t" "kin ts = kin us"
    by (auto simp: kin_def Cons_eq_map_conv)
  with Cons show ?case by (auto split: if_splits)
qed

lemma levels_kin: "levels ts t n \<Longrightarrow> kin ts = kin ts' \<Longrightarrow> parent_of t' = parent_of t \<Longrightarrow> levels ts' t' n"
proof (induction arbitrary: t' rule: levels.induct)
  case (root t ts)
  then show ?case by (simp add: levels.root)
next
  case (child t i ts p n)
  from kin_find [OF child.prems(1) child.hyps(3)] obtain p' where
    "find (\<lambda>r. tk_id r = i) ts' = Some p'" "parent_of p' = parent_of p" by blast
  with child show ?case by (auto intro!: levels.child)
qed

lemma child_count_kin: "kin ts = kin ts' \<Longrightarrow> child_count ts i = child_count ts' i"
proof -
  have "child_count us i = length (filter (\<lambda>k. snd k = Some i) (kin us))" for us
    by (induction us) (auto simp: child_count_def kin_def)
  then show "kin ts = kin ts' \<Longrightarrow> ?thesis" by simp
qed

lemma levels_append: "levels ts t n \<Longrightarrow> levels (ts @ us) t n"
  by (induction rule: levels.induct) (auto intro: levels.intros simp: find_append)

lemma find_unique_task: "distinct (map tk_id ts) \<Longrightarrow> t \<in> set ts \<Longrightarrow> find (\<lambda>r. tk_id r = tk_id t) ts = Some t"
  by (induction ts) (auto simp: image_iff)

lemma levels_parent:
  assumes "levels ts t n" "parent_of t = Some i" "i \<noteq> ''''"
  obtains p m where "find (\<lambda>r. tk_id r = i) ts = Some p" "levels ts p m" "n = Suc m"
  using assms by (cases rule: levels.cases) auto

lemma parent_there: "levels ts t n \<Longrightarrow> parent_of t = Some i \<Longrightarrow> i \<noteq> '''' \<Longrightarrow> i \<in> tk_id ` set ts"
  by (erule (2) levels_parent) (auto dest: find_Some_in_set)

lemma parent_not_self:
  assumes "levels ts t n" "find (\<lambda>r. tk_id r = tk_id t) ts = Some t" "tk_id t \<noteq> ''''"
  shows "parent_of t \<noteq> Some (tk_id t)"
proof
  assume "parent_of t = Some (tk_id t)"
  from levels_parent [OF assms(1) this assms(3)] assms(2) obtain m where "levels ts t m" "n = Suc m" by auto
  with levels_unique [OF assms(1), of m] show False by simp
qed

section \<open>Writing one task back\<close>

lemma kin_put: 
  assumes "t \<in> set (bd_tasks b)" "distinct (map tk_id (bd_tasks b))" "tk_id t' = tk_id t" "parent_of t' = parent_of t"
  shows "kin (bd_tasks (put_task t' b)) = kin (bd_tasks b)"
  using assms by (auto simp: kin_def put_task_def dest: eq_key_imp_eq_value distinct_map [THEN iffD1] inj_onD)

lemma put_task_set:
  assumes "r \<in> set (bd_tasks (put_task t' b))"
  shows "r = t' \<or> r \<in> set (bd_tasks b) \<and> tk_id r \<noteq> tk_id t'"
  using assms by (auto simp: put_task_def)

text \<open>
  A task may be replaced by one of the same id and the same parent that is well-formed, within its parent and not below
  its children.
\<close>

lemma board_ok_put:
  assumes ok: "board_ok b" and t: "t \<in> set (bd_tasks b)"
    and same: "tk_id t' = tk_id t" "parent_of t' = parent_of t" and t': "task_ok t'"
    and below: "\<And>p. p \<in> set (bd_tasks b) \<Longrightarrow> parent_of t = Some (tk_id p) \<Longrightarrow> tk_id p \<noteq> tk_id t \<Longrightarrow> narrower t' p"
    and above: "\<And>c. c \<in> set (bd_tasks b) \<Longrightarrow> parent_of c = Some (tk_id t) \<Longrightarrow> tk_id c \<noteq> tk_id t \<Longrightarrow> narrower c t'"
    and tasks: "bd_tasks b' = bd_tasks (put_task t' b)"
  shows "board_ok b'"
proof -
  let ?ts = "bd_tasks b" and ?us = "bd_tasks b'"
  have kin: "kin ?us = kin ?ts"
    unfolding tasks using ok t same by (intro kin_put) (auto simp: board_ok_def)
  have members: "r = t' \<or> r \<in> set ?ts \<and> tk_id r \<noteq> tk_id t" if "r \<in> set ?us" for r
    using put_task_set [of r t' b] that by (simp add: tasks same(1))
  have distinct: "distinct (map tk_id ?us)"
    using ok by (simp add: tasks board_ok_def)
  have levels: "\<exists>n \<le> 2. levels ?us r n" if "r \<in> set ?us" for r
  proof -
    from members [OF that] obtain q where "q \<in> set ?ts" "parent_of q = parent_of r" using t same(2) by metis
    with ok obtain n where "n \<le> 2" "levels ?ts q n" by (auto simp: board_ok_def family_ok_def)
    with levels_kin [of ?ts q n ?us r] kin \<open>parent_of q = parent_of r\<close> show ?thesis by auto
  qed
  have counts: "child_count ?us (tk_id r) \<le> max_children" if "r \<in> set ?us" for r
  proof -
    from members [OF that] obtain q where "q \<in> set ?ts" "tk_id q = tk_id r" using t same(1) by metis
    with ok child_count_kin [OF kin] show ?thesis by (auto simp: board_ok_def family_ok_def)
  qed
  have self: "parent_of t \<noteq> Some (tk_id t)"
  proof -
    from ok t obtain n where "levels ?ts t n" "tk_id t \<noteq> ''''" by (auto simp: board_ok_def family_ok_def task_ok_def)
    with parent_not_self find_unique_task [of ?ts t] ok t show ?thesis by (simp add: board_ok_def)
  qed
  have limits: "narrower c p" if "c \<in> set ?us" "p \<in> set ?us" "parent_of c = Some (tk_id p)" for c p
    using members [OF that(1)] members [OF that(2)] that(3) same below above self ok
    by (auto simp: board_ok_def family_ok_def)
  have "task_ok r" if "r \<in> set ?us" for r
    using members [OF that] t' ok by (auto simp: board_ok_def)
  with distinct levels counts limits show ?thesis by (simp add: board_ok_def family_ok_def)
qed

section \<open>Adding one task\<close>

lemma board_ok_append:
  assumes ok: "board_ok b" and t: "task_ok t" and new: "tk_id t \<notin> tk_id ` set (bd_tasks b)"
    and parent: "parent_of t = None \<or> (\<exists>p \<in> set (bd_tasks b). parent_of t = Some (tk_id p) \<and> narrower t p
       \<and> child_blocker (bd_tasks b) p = None)"
    and tasks: "bd_tasks b' = bd_tasks b @ [t]"
  shows "board_ok b'"
proof -
  let ?ts = "bd_tasks b"
  have old: "\<exists>n \<le> 2. levels (?ts @ [t]) r n" if "r \<in> set ?ts" for r
    using ok that levels_append by (fastforce simp: board_ok_def family_ok_def)
  have no_child: "parent_of c \<noteq> Some (tk_id t)" if "c \<in> set ?ts" for c
  proof
    assume c: "parent_of c = Some (tk_id t)"
    from ok that obtain n where "levels ?ts c n" by (auto simp: board_ok_def family_ok_def)
    from parent_there [OF this c] t new show False by (simp add: task_ok_def)
  qed
  have not_self: "parent_of t \<noteq> Some (tk_id t)" using parent new by (auto simp: image_iff)
  have blocked: "(\<exists>n < 2. levels ?ts p n) \<and> child_count ?ts (tk_id p) < 4"
    if "p \<in> set ?ts" "child_blocker ?ts p = None" for p
    using child_blocker_None [of p ?ts] find_unique_task [of ?ts p] ok that by (simp add: board_ok_def)
  have level: "\<exists>n \<le> 2. levels (?ts @ [t]) t n"
  proof (cases "parent_of t")
    case None
    then show ?thesis by (auto intro: levels.root)
  next
    case (Some i)
    with parent obtain p where p: "p \<in> set ?ts" "i = tk_id p" "child_blocker ?ts p = None" by auto
    from blocked [OF p(1,3)] obtain n where "n < 2" "levels ?ts p n" by blast
    moreover have "find (\<lambda>r. tk_id r = i) (?ts @ [t]) = Some p"
      using find_unique_task [of ?ts p] ok p by (simp add: board_ok_def find_append)
    moreover have "i \<noteq> ''''" using ok p by (auto simp: board_ok_def task_ok_def)
    ultimately have "levels (?ts @ [t]) t (Suc n)"
      using Some levels_append by (auto intro: levels.child)
    with \<open>n < 2\<close> show ?thesis by (intro exI [of _ "Suc n"]) simp
  qed
  have counts: "child_count (?ts @ [t]) (tk_id r) \<le> max_children" if "r \<in> set ?ts" for r
  proof (cases "parent_of t = Some (tk_id r)")
    case True
    with parent obtain p where p: "p \<in> set ?ts" "tk_id p = tk_id r" "child_blocker ?ts p = None" by auto
    from blocked [OF p(1,3)] p(2) True show ?thesis by (simp add: child_count_def max_children_def)
  next
    case False
    with ok that show ?thesis by (auto simp: board_ok_def family_ok_def child_count_def)
  qed
  have "child_count ?ts (tk_id t) = 0"
    using no_child by (auto simp: child_count_def filter_empty_conv)
  then have count: "child_count (?ts @ [t]) (tk_id t) \<le> max_children"
    using not_self by (simp add: child_count_def)
  have limits: "narrower c p" if "c \<in> set (?ts @ [t])" "p \<in> set (?ts @ [t])" "parent_of c = Some (tk_id p)" for c p
  proof (cases "c = t")
    case True
    with that parent new not_self obtain q where "q \<in> set ?ts" "tk_id q = tk_id p" "narrower t q" by auto
    moreover have "p \<in> set ?ts" using that True not_self by auto
    ultimately show ?thesis using ok True find_unique_task [of ?ts] by (metis board_ok_def option.inject)
  next
    case False
    with that no_child ok show ?thesis by (auto simp: board_ok_def family_ok_def)
  qed
  from ok t new old level counts count limits show ?thesis
    unfolding board_ok_def family_ok_def tasks by (simp add: image_iff)
qed

end
