(* ===== verification/Workflow_Guarantees.thy ===== *)
theory Workflow_Guarantees
  imports Workflow_Life
begin

text \<open>
  Every call keeps the board well-formed, and what a call may change of a task: who moves a phase, who empties the Inbox,
  and that a person's change names the revision it saw.
\<close>

named_theorems handler_defs \<open>the handlers of a person's request\<close>

declare set_workflow_def [handler_defs] accept_task_def [handler_defs] hand_off_def [handler_defs] approve_phase_def [handler_defs]

section \<open>Reading a handler's success\<close>

lemma parent_of_workflow: "parent_of t = wf_parentTaskId (workflow_of t)"
  by (simp add: parent_of_def workflow_of_def empty_taskWorkflow_def split: option.split)

lemma workflow_of_Some [simp]: "tk_workflow t = Some w \<Longrightarrow> workflow_of t = w"
  by (simp add: workflow_of_def)

lemma workflow_of_updates [simp]:
  "workflow_of (t\<lparr>tk_workflow := Some w\<rparr>) = w"
  "workflow_of (t\<lparr>tk_deletedAt := d\<rparr>) = workflow_of t"
  "workflow_of (t\<lparr>tk_creationReceipt := r\<rparr>) = workflow_of t"
  by (simp_all add: workflow_of_def)

lemma find_task_Inr [result_simps]: "find_task b i = Inr t \<longleftrightarrow> find (\<lambda>r. tk_id r = i) (bd_tasks b) = Some t"
  by (simp add: find_task_def split: option.split)

lemma live_task_Inr [result_simps]:
  "live_task b i role = Inr t \<longleftrightarrow> find (\<lambda>r. tk_id r = i) (bd_tasks b) = Some t \<and> \<not> truthy (tk_deletedAt t)"
  by (auto simp: live_task_def result_simps)

lemma refuse_activeRun_Inr [result_simps]: "refuse_activeRun b t = Inr u \<longleftrightarrow> \<not> has_activeRun (bd_sessions b) (tk_id t)"
  by (simp add: refuse_activeRun_def)

lemma check_revision_Inr [result_simps]:
  "check_revision w v = Inr u \<longleftrightarrow> v = JInt (wf_revision w) \<and> is_safe_integer (wf_revision w)"
  by (auto simp: check_revision_def split: jval.splits)

lemma create_task_Inr:
  assumes "create_task st name description doc owner b = Inr (t, b')"
  shows "tk_id t = next_task_id (bd_tasks b)" "tk_workflow t = None" "tk_ownedAssignment t = None"
    "b' = b\<lparr>bd_tasks := bd_tasks b @ [t]\<rparr>" "tk_id t \<notin> tk_id ` set (bd_tasks b)" "tk_id t \<noteq> ''''"
proof -
  from next_task_id_above [of "bd_tasks b"] have "next_task_id (bd_tasks b) \<noteq> ''''" by auto
  with assms next_task_id_fresh [of "bd_tasks b"] show
    "tk_id t = next_task_id (bd_tasks b)" "tk_workflow t = None" "tk_ownedAssignment t = None"
    "b' = b\<lparr>bd_tasks := bd_tasks b @ [t]\<rparr>" "tk_id t \<notin> tk_id ` set (bd_tasks b)" "tk_id t \<noteq> ''''"
    by (auto simp: create_task_def Let_def split: if_splits)
qed

lemma put_created:
  "bd_tasks b' = ts @ [t] \<Longrightarrow> tk_id t \<notin> tk_id ` set ts \<Longrightarrow> tk_id t' = tk_id t \<Longrightarrow> bd_tasks (put_task t' b') = ts @ [t']"
  by (auto simp: put_task_def intro!: map_idI split: if_splits)
    (metis image_eqI)

section \<open>One task is written back\<close>

text \<open>A change of the phase, the Inbox or the record of handoffs leaves the limits as they are.\<close>

lemma board_ok_gate:
  assumes ok: "board_ok b" and t: "t \<in> set (bd_tasks b)"
    and same: "tk_id t' = tk_id t" "tk_ownedAssignment t' = tk_ownedAssignment t"
      "wf_parentTaskId (workflow_of t') = wf_parentTaskId (workflow_of t)"
      "wf_maxTurns (workflow_of t') = wf_maxTurns (workflow_of t)"
      "wf_continuation (workflow_of t') = wf_continuation (workflow_of t)"
    and w: "workflow_ok (tk_ownedAssignment t \<noteq> None) (workflow_of t')"
    and tasks: "bd_tasks b' = bd_tasks (put_task t' b)"
  shows "board_ok b'"
proof (rule board_ok_put [OF ok t same(1) _ _ _ _ tasks])
  show "parent_of t' = parent_of t" using same(3) by (simp add: parent_of_workflow)
  show "task_ok t'" using ok t w same(1,2) by (simp add: board_ok_def task_ok_def)
  have limits: "narrower t' p = narrower t p" "narrower c t' = narrower c t" for p c
    using same(4,5) by (simp_all add: narrower_def)
  show "narrower t' p" if "p \<in> set (bd_tasks b)" "parent_of t = Some (tk_id p)" for p
    using that ok t by (simp add: limits board_ok_def family_ok_def)
  show "narrower c t'" if "c \<in> set (bd_tasks b)" "parent_of c = Some (tk_id t)" for c
    using that ok t by (simp add: limits board_ok_def family_ok_def)
qed

lemma board_ok_member:
  "board_ok b \<Longrightarrow> t \<in> set (bd_tasks b) \<Longrightarrow> workflow_ok (tk_ownedAssignment t \<noteq> None) (workflow_of t)"
  by (simp add: board_ok_def task_ok_def)

lemma limits_kept [simp]:
  "wf_parentTaskId (advance time by p reason w) = wf_parentTaskId w" "wf_parentTaskId (park p reason w) = wf_parentTaskId w"
  "wf_maxTurns (advance time by p reason w) = wf_maxTurns w" "wf_maxTurns (park p reason w) = wf_maxTurns w"
  "wf_continuation (advance time by p reason w) = wf_continuation w" "wf_continuation (park p reason w) = wf_continuation w"
  by (simp_all add: advance_def park_def)

lemma workflow_ok_gate [simp]:
  "workflow_ok owned (w\<lparr>wf_inbox := i, wf_revision := n\<rparr>) = workflow_ok owned w"
  by (simp add: workflow_ok_def)

text \<open>A handoff advances the task under Full approval and only parks the asked phase otherwise.\<close>

definition handed_off :: "workflow \<Rightarrow> task_phase \<Rightarrow> workflow \<Rightarrow> bool" where
  "handed_off w p w' \<longleftrightarrow> next_phase (wf_phase w) = Some p
     \<and> (case wf_continuation w of FullApproval \<Rightarrow> \<exists>time who reason. w' = advance time who p reason w
        | StopOnPhaseChange \<Rightarrow> \<exists>reason. w' = park p reason w)"

lemma handed_off_ok: "handed_off w p w' \<Longrightarrow> workflow_ok owned w \<Longrightarrow> workflow_ok owned w'"
  by (auto simp: handed_off_def workflow_ok_advance workflow_ok_park split: continuation.splits)

lemma handed_off_limits:
  "handed_off w p w' \<Longrightarrow> wf_parentTaskId w' = wf_parentTaskId w"
  "handed_off w p w' \<Longrightarrow> wf_maxTurns w' = wf_maxTurns w"
  "handed_off w p w' \<Longrightarrow> wf_continuation w' = wf_continuation w"
  by (auto simp: handed_off_def split: continuation.splits)

lemma hand_off_Inr:
  assumes "hand_off st body t b = Inr (t', b')"
  shows "\<exists>p w'. handed_off (workflow_of t) p w' \<and> t' = t\<lparr>tk_workflow := Some w'\<rparr> \<and> bd_tasks b' = bd_tasks (put_task t' b)"
proof -
  from assms obtain p reason w' where "next_phase (wf_phase (workflow_of t)) = Some p"
    and w': "w' = (if wf_continuation (workflow_of t) = FullApproval
       then advance (st_now st) OwnerYou p reason (workflow_of t) else park p reason (workflow_of t))"
    and t': "t' = t\<lparr>tk_workflow := Some w'\<rparr>" "bd_tasks b' = bd_tasks (put_task t' b)"
    by (auto simp: hand_off_def result_simps Let_def split: option.splits if_splits)
  then have "handed_off (workflow_of t) p w'" by (auto simp: handed_off_def split: continuation.split)
  with t' show ?thesis by blast
qed

lemma approve_phase_Inr:
  assumes "approve_phase st body t b = Inr (t', b')"
  obtains p w time reason where "tk_workflow t = Some w" "wf_pendingPhase w = Some p"
    "t' = t\<lparr>tk_workflow := Some (advance time OwnerYou p reason w)\<rparr>" "bd_tasks b' = bd_tasks (put_task t' b)"
  using assms by (auto simp: approve_phase_def result_simps Let_def split: option.splits)

lemma accept_task_Inr:
  assumes "accept_task st body t b = Inr (t', b')"
  obtains w where "tk_workflow t = Some w" "wf_inbox w"
    "t' = t\<lparr>tk_workflow := Some (w\<lparr>wf_inbox := False, wf_revision := wf_revision w + 1\<rparr>)\<rparr>"
    "bd_tasks b' = bd_tasks (put_task t' b)"
  using assms by (auto simp: accept_task_def result_simps Let_def split: option.splits if_splits)

lemma request_taskHandoff_Inr:
  assumes "request_taskHandoff st p who t b = Inr (r, b')" and "b' \<noteq> b"
  shows "\<exists>w'. handed_off (workflow_of t) p w' \<and> bd_tasks b' = bd_tasks (put_task (t\<lparr>tk_workflow := Some w'\<rparr>) b)"
proof (cases "wf_continuation (workflow_of t)")
  case FullApproval
  with assms show ?thesis
    by (intro exI [of _ "advance (st_now st) who p full_approval_reason (workflow_of t)"])
      (auto simp: request_taskHandoff_def handed_off_def Let_def split: if_splits)
next
  case StopOnPhaseChange
  with assms show ?thesis
    by (intro exI [of _ "park p ''Asked for during the run. It waits for your approval.'' (workflow_of t)"])
      (auto simp: request_taskHandoff_def handed_off_def Let_def split: if_splits)
qed

lemma phase_step_Inr:
  assumes "phase_step st run fresh p b = Inr (r, b')"
  obtains "b' = b" | t w time who reason where "live_row b (rb_taskId run) = Some t" "tk_workflow t = Some w"
    "next_phase (wf_phase w) = Some p"
    "bd_tasks b' = bd_tasks (put_task (t\<lparr>tk_workflow := Some (advance time who p reason w)\<rparr>) b)"
  using assms
  by (auto simp: phase_step_def Let_def apply_need_def add_entry_for_def split: option.splits if_splits)

lemma live_row_member: "live_row b i = Some t \<Longrightarrow> t \<in> set (bd_tasks b)"
  by (auto simp: live_row_def dest: find_Some_in_set)

lemma board_ok_handed_off:
  assumes "board_ok b" "t \<in> set (bd_tasks b)" "handed_off (workflow_of t) p w'"
    and "bd_tasks b' = bd_tasks (put_task (t\<lparr>tk_workflow := Some w'\<rparr>) b)"
  shows "board_ok b'"
  using handed_off_limits [OF assms(3)] handed_off_ok [OF assms(3) board_ok_member [OF assms(1,2)]]
  by (intro board_ok_gate [OF assms(1,2) _ _ _ _ _ _ assms(4)]) simp_all

lemma hand_off_ok:
  "hand_off st body t b = Inr (t', b') \<Longrightarrow> board_ok b \<Longrightarrow> t \<in> set (bd_tasks b) \<Longrightarrow> board_ok b'"
  using hand_off_Inr board_ok_handed_off by metis

lemma request_taskHandoff_ok:
  "request_taskHandoff st p who t b = Inr (r, b') \<Longrightarrow> board_ok b \<Longrightarrow> t \<in> set (bd_tasks b) \<Longrightarrow> board_ok b'"
  by (cases "b' = b") (auto dest: request_taskHandoff_Inr board_ok_handed_off)

lemma accept_task_ok:
  assumes "accept_task st body t b = Inr (t', b')" "board_ok b" "t \<in> set (bd_tasks b)"
  shows "board_ok b'"
proof -
  from assms(1) obtain w where w: "tk_workflow t = Some w"
    "t' = t\<lparr>tk_workflow := Some (w\<lparr>wf_inbox := False, wf_revision := wf_revision w + 1\<rparr>)\<rparr>"
    "bd_tasks b' = bd_tasks (put_task t' b)" by (rule accept_task_Inr)
  with board_ok_member [OF assms(2,3)] show ?thesis by (intro board_ok_gate [OF assms(2,3) _ _ _ _ _ _ w(3)]) auto
qed

lemma approve_phase_ok:
  assumes "approve_phase st body t b = Inr (t', b')" "board_ok b" "t \<in> set (bd_tasks b)"
  shows "board_ok b'"
proof -
  from assms(1) obtain p w time reason where w: "tk_workflow t = Some w" "wf_pendingPhase w = Some p"
    "t' = t\<lparr>tk_workflow := Some (advance time OwnerYou p reason w)\<rparr>" "bd_tasks b' = bd_tasks (put_task t' b)"
    by (rule approve_phase_Inr)
  moreover from w board_ok_member [OF assms(2,3)] have "next_phase (wf_phase w) = Some p" by (auto simp: workflow_ok_def)
  ultimately show ?thesis using board_ok_member [OF assms(2,3)]
    by (intro board_ok_gate [OF assms(2,3) _ _ _ _ _ _ w(4)]) (auto simp: workflow_ok_advance)
qed

lemma phase_step_ok:
  assumes "phase_step st run fresh p b = Inr (r, b')" "board_ok b"
  shows "board_ok b'"
  using assms(1)
proof (cases rule: phase_step_Inr)
  case 1
  with assms(2) show ?thesis by simp
next
  case (2 t w time who reason)
  have t: "t \<in> set (bd_tasks b)" using 2(1) by (rule live_row_member)
  show ?thesis using 2(2,3) board_ok_member [OF assms(2) t]
    by (intro board_ok_gate [OF assms(2) t _ _ _ _ _ _ 2(4)]) (auto simp: workflow_ok_advance)
qed

lemma park_phase_ok: "park_phase st run p b = Inr b' \<Longrightarrow> board_ok b \<Longrightarrow> board_ok b'"
  by (auto simp: park_phase_def result_simps split: option.splits if_splits
      dest!: live_row_member intro: request_taskHandoff_ok)

text \<open>The limits change in one handler, which compares them with the parent's and with every child's.\<close>

lemma set_workflow_Inr:
  assumes "set_workflow st body t b = Inr (t', b')"
  shows "\<exists>c n skill parent. own_parent b (workflow_of t) = Inr parent \<and> asked_turns (jget body ''maxTurns'') (workflow_of t) = Inr n
     \<and> limits_refused t parent n c b = None
     \<and> t' = t\<lparr>tk_workflow := Some ((workflow_of t)\<lparr>wf_continuation := c, wf_maxTurns := n, wf_skill := skill,
         wf_revision := wf_revision (workflow_of t) + 1\<rparr>)\<rparr>
     \<and> bd_tasks b' = bd_tasks (put_task t' b)"
proof -
  from assms obtain c n parent skill where "own_parent b (workflow_of t) = Inr parent"
    "asked_turns (jget body ''maxTurns'') (workflow_of t) = Inr n" "limits_refused t parent n c b = None"
    "t' = t\<lparr>tk_workflow := Some ((workflow_of t)\<lparr>wf_continuation := c, wf_maxTurns := n, wf_skill := skill,
       wf_revision := wf_revision (workflow_of t) + 1\<rparr>)\<rparr>" "bd_tasks b' = bd_tasks (put_task t' b)"
    by (auto simp: set_workflow_def Let_def result_simps)
  then show ?thesis by (intro exI [of _ c] exI [of _ n] exI [of _ skill] exI [of _ parent]) simp
qed

lemma limits_refused_None:
  "limits_refused t parent n c b = None \<longleftrightarrow> n \<le> parent_turns parent n
     \<and> (parent = None \<or> \<not> wider c (wf_continuation (workflow_of (the parent))))
     \<and> (\<forall>r \<in> set (bd_tasks b). parent_of r = Some (tk_id t) \<longrightarrow>
         wf_maxTurns (workflow_of r) \<le> n \<and> \<not> wider (wf_continuation (workflow_of r)) c)"
  by (auto simp: limits_refused_def list_ex_iff not_less)

lemma set_workflow_ok:
  assumes run: "set_workflow st body t b = Inr (t', b')" and ok: "board_ok b" and t: "t \<in> set (bd_tasks b)"
  shows "board_ok b'"
proof -
  from set_workflow_Inr [OF run] obtain c n skill parent where
    parent: "own_parent b (workflow_of t) = Inr parent" and n: "asked_turns (jget body ''maxTurns'') (workflow_of t) = Inr n"
    and limits: "limits_refused t parent n c b = None"
    and t': "t' = t\<lparr>tk_workflow := Some ((workflow_of t)\<lparr>wf_continuation := c, wf_maxTurns := n, wf_skill := skill,
         wf_revision := wf_revision (workflow_of t) + 1\<rparr>)\<rparr>"
    and tasks: "bd_tasks b' = bd_tasks (put_task t' b)" by blast
  have turns: "1 \<le> n" "n \<le> max_turns"
    using n board_ok_member [OF ok t] by (auto simp: asked_turns_def workflow_ok_def result_simps split: if_splits)
  show ?thesis
  proof (rule board_ok_put [OF ok t _ _ _ _ _ tasks])
    show "tk_id t' = tk_id t" "parent_of t' = parent_of t" by (simp_all add: t' parent_of_workflow)
    show "task_ok t'"
      using turns board_ok_member [OF ok t] ok t by (simp add: t' task_ok_def board_ok_def workflow_ok_def)
    show "narrower t' p" if "p \<in> set (bd_tasks b)" "parent_of t = Some (tk_id p)" for p
    proof -
      have "find (\<lambda>r. tk_id r = tk_id p) (bd_tasks b) = Some p" "tk_id p \<noteq> ''''"
        using that(1) ok find_unique_task [of "bd_tasks b" p] by (auto simp: board_ok_def task_ok_def)
      with parent that(2) have "parent = Some p"
        by (auto simp: own_parent_def truthy_def parent_of_workflow result_simps split: if_splits)
      with limits show ?thesis by (simp add: narrower_def limits_refused_None parent_turns_def t')
    qed
    show "narrower c t'" if "c \<in> set (bd_tasks b)" "parent_of c = Some (tk_id t)" for c
      using that limits by (simp add: narrower_def limits_refused_None t')
  qed
qed

section \<open>One task is added\<close>

lemma proposal_parent_Inr:
  assumes "proposal_parent input b = Inr parent"
  shows "parent = None \<or> (\<exists>p. parent = Some p \<and> p \<in> set (bd_tasks b) \<and> child_blocker (bd_tasks b) p = None)"
  using assms
  by (cases parent)
    (auto simp: proposal_parent_def split: option.splits if_splits dest: find_Some_in_set)

lemma proposal_turns_Inr:
  assumes "proposal_turns input parent = Inr n" "\<And>p. parent = Some p \<Longrightarrow> \<exists>owned. workflow_ok owned (workflow_of p)"
  shows "1 \<le> n \<and> n \<le> max_turns \<and> n \<le> parent_turns parent n"
  using assms
  by (auto simp: proposal_turns_def parent_turns_def result_simps default_max_turns_def max_turns_def workflow_ok_def
      split: option.splits if_splits)

lemma workflow_ok_new:
  "1 \<le> n \<Longrightarrow> n \<le> max_turns \<Longrightarrow> workflow_ok owned (empty_taskWorkflow\<lparr>wf_continuation := c, wf_inbox := i, wf_parentTaskId := p,
     wf_output := r, wf_maxTurns := n\<rparr>)"
  by (auto simp: workflow_ok_def empty_taskWorkflow_def)

lemma create_task_ok:
  "create_task st name description doc owner b = Inr (t, b') \<Longrightarrow> board_ok b \<Longrightarrow> board_ok b'"
  using create_task_Inr [of st name description doc owner b t b']
  by (intro board_ok_append [of b t b'])
    (auto simp: task_ok_def workflow_of_def parent_of_def)

text \<open>A created task may take a well-formed workflow; with a parent, one that is not blocked and not exceeded.\<close>

lemma created_ok:
  assumes created: "create_task st name description doc owner b = Inr (t0, b0)" and ok: "board_ok b"
    and t: "tk_id t = tk_id t0" "workflow_ok (tk_ownedAssignment t \<noteq> None) (workflow_of t)"
    and parent: "parent_of t = None \<or> (\<exists>p \<in> set (bd_tasks b). parent_of t = Some (tk_id p) \<and> narrower t p
       \<and> child_blocker (bd_tasks b) p = None)"
    and tasks: "bd_tasks b' = bd_tasks (put_task t b0)"
  shows "board_ok b'"
proof (rule board_ok_append [OF ok _ _ parent])
  note new = create_task_Inr [OF created]
  show "task_ok t" using t new(6) by (simp add: task_ok_def)
  show "tk_id t \<notin> tk_id ` set (bd_tasks b)" using t(1) new(5) by simp
  show "bd_tasks b' = bd_tasks b @ [t]"
    using put_created [of b0 "bd_tasks b" t0 t] new(4,5) t(1) tasks by simp
qed

lemma propose_task_Inr:
  assumes run: "propose_task st input b = Inr (t, b')" and ok: "board_ok b"
  shows "board_ok b' \<and> (\<exists>n parent result. bd_tasks b' = bd_tasks b @ [t] \<and> tk_ownedAssignment t = None \<and> tk_id t \<notin> tk_id ` set (bd_tasks b)
     \<and> tk_workflow t = Some (empty_taskWorkflow\<lparr>wf_continuation := wf_continuation (case parent of None \<Rightarrow> empty_taskWorkflow | Some p \<Rightarrow> workflow_of p),
         wf_inbox := \<not> pr_acceptedByPerson input, wf_parentTaskId := map_option tk_id parent, wf_output := result,
         wf_maxTurns := n\<rparr>))"
proof -
  from run obtain name description parent result n t0 b0 where parent: "proposal_parent input b = Inr parent"
    and n: "proposal_turns input parent = Inr n"
    and created: "create_task st name description None (case pr_owner input of None \<Rightarrow> OwnerDiomedes | Some ow \<Rightarrow> ow) b = Inr (t0, b0)"
    and t: "t = t0\<lparr>tk_createdBy := OwnerDiomedes, tk_workflow := Some (empty_taskWorkflow\<lparr>
        wf_continuation := wf_continuation (case parent of None \<Rightarrow> empty_taskWorkflow | Some p \<Rightarrow> workflow_of p),
        wf_inbox := \<not> pr_acceptedByPerson input, wf_parentTaskId := map_option tk_id parent, wf_output := result,
        wf_maxTurns := n\<rparr>), tk_origin := pr_origin input\<rparr>"
    and tasks: "bd_tasks b' = bd_tasks (put_task t b0)"
    by (auto simp: propose_task_def result_simps Let_def split: prod.splits)
  have member: "parent = Some p \<Longrightarrow> p \<in> set (bd_tasks b) \<and> child_blocker (bd_tasks b) p = None" for p
    using proposal_parent_Inr [OF parent] by auto
  have turns: "1 \<le> n \<and> n \<le> max_turns \<and> n \<le> parent_turns parent n"
    using n by (rule proposal_turns_Inr) (use member board_ok_member [OF ok] in blast)
  note new = create_task_Inr [OF created]
  have w: "workflow_of t = empty_taskWorkflow\<lparr>
        wf_continuation := wf_continuation (case parent of None \<Rightarrow> empty_taskWorkflow | Some p \<Rightarrow> workflow_of p),
        wf_inbox := \<not> pr_acceptedByPerson input, wf_parentTaskId := map_option tk_id parent, wf_output := result,
        wf_maxTurns := n\<rparr>"
    by (simp add: t workflow_of_def)
  have "board_ok b'"
  proof (rule created_ok [OF created ok, of t])
    show "tk_id t = tk_id t0" by (simp add: t)
    show "workflow_ok (tk_ownedAssignment t \<noteq> None) (workflow_of t)" using turns by (simp add: w workflow_ok_new)
    show "parent_of t = None \<or> (\<exists>p \<in> set (bd_tasks b). parent_of t = Some (tk_id p) \<and> narrower t p \<and> child_blocker (bd_tasks b) p = None)"
      using member turns by (cases parent) (auto simp: parent_of_workflow w narrower_def wider_def parent_turns_def)
  qed (rule tasks)
  moreover have "bd_tasks b' = bd_tasks b @ [t]"
    using put_created [of b0 "bd_tasks b" t0 t] new(4,5) tasks by (simp add: t)
  ultimately show ?thesis
    using new(3,5) by (intro conjI exI [of _ n] exI [of _ parent] exI [of _ result]) (auto simp: t)
qed

lemma propose_owned_ok:
  assumes run: "propose_ownedTaskAssignment st i runId admission input b = Inr (t, b')" and ok: "board_ok b"
  shows "board_ok b'"
proof -
  from run obtain parent t0 b0 where created: "propose_task st (input\<lparr>pr_parentTaskId := Some i, pr_acceptedByPerson := False\<rparr>) b = Inr (t0, b0)"
    and t: "t = t0\<lparr>tk_ownedAssignment := Some \<lparr>oa_rootTaskId = i, oa_rootRunId = runId, oa_admissionRef = admission\<rparr>,
            tk_workflow := Some ((workflow_of t0)\<lparr>wf_inbox := False, wf_phase := wf_phase (workflow_of parent)\<rparr>)\<rparr>"
    and tasks: "bd_tasks b' = bd_tasks (put_task t b0)"
    by (auto simp: propose_ownedTaskAssignment_def result_simps Let_def split: prod.splits if_splits)
  have ok0: "board_ok b0" using propose_task_Inr [OF created ok] by blast
  from propose_task_Inr [OF created ok] obtain n parent' result where tasks0: "bd_tasks b0 = bd_tasks b @ [t0]"
    and "tk_workflow t0 = Some (empty_taskWorkflow\<lparr>wf_continuation := wf_continuation (case parent' of None \<Rightarrow> empty_taskWorkflow | Some p \<Rightarrow> workflow_of p),
         wf_inbox := \<not> pr_acceptedByPerson (input\<lparr>pr_parentTaskId := Some i, pr_acceptedByPerson := False\<rparr>),
         wf_parentTaskId := map_option tk_id parent', wf_output := result, wf_maxTurns := n\<rparr>)" by blast
  then have t0: "t0 \<in> set (bd_tasks b0)"
    and w0: "wf_handoffs (workflow_of t0) = []" "wf_pendingPhase (workflow_of t0) = None"
    by (simp_all add: empty_taskWorkflow_def workflow_of_def)
  have w: "workflow_of t = (workflow_of t0)\<lparr>wf_inbox := False, wf_phase := wf_phase (workflow_of parent)\<rparr>"
    by (simp add: t workflow_of_def)
  show ?thesis
  proof (rule board_ok_put [OF ok0 t0 _ _ _ _ _ tasks])
    show "tk_id t = tk_id t0" "parent_of t = parent_of t0" by (simp_all add: t parent_of_workflow workflow_of_def)
    show "task_ok t"
      using board_ok_member [OF ok0 t0] ok0 t0 w0 by (auto simp: task_ok_def workflow_ok_def board_ok_def w) (auto simp: t)
    show "narrower t p" if "p \<in> set (bd_tasks b0)" "parent_of t0 = Some (tk_id p)" for p
      using ok0 t0 that by (simp add: narrower_def w board_ok_def family_ok_def)
    show "narrower c t" if "c \<in> set (bd_tasks b0)" "parent_of c = Some (tk_id t0)" for c
      using ok0 t0 that by (simp add: narrower_def w board_ok_def family_ok_def)
  qed
qed

lemma branch_child_Inr:
  assumes run: "branch_child sha st body i b = Inr (t, b')" and new: "b' \<noteq> b"
  shows "\<exists>parent commandId digest name description result asked. find (\<lambda>r. tk_id r = i) (bd_tasks b) = Some parent
     \<and> child_blocker (bd_tasks b) parent = None
     \<and> (asked = None \<or> (\<exists>n. asked = Some n \<and> 1 \<le> n \<and> n \<le> max_turns \<and> n \<le> wf_maxTurns (workflow_of parent)))
     \<and> make_child st commandId digest parent name description result asked b = Inr (t, b')"
proof -
  from run new obtain parent commandId name description result asked where
    "find (\<lambda>r. tk_id r = i) (bd_tasks b) = Some parent" "child_blocker (bd_tasks b) parent = None"
    "asked_childTurns (jget body ''maxTurns'') (workflow_of parent) = Inr asked"
    "make_child st commandId (payload_digest sha (branch_payload parent name description result asked))
       parent name description result asked b = Inr (t, b')"
    by (auto simp: branch_child_def result_simps Let_def split: option.splits)
  then show ?thesis
    by (intro exI [of _ parent] exI [of _ commandId] exI [of _ "payload_digest sha (branch_payload parent name description result asked)"]
        exI [of _ name] exI [of _ description] exI [of _ result] exI [of _ asked])
      (auto simp: asked_childTurns_def result_simps split: if_splits)
qed

lemma make_child_ok:
  assumes run: "make_child st commandId digest parent name description result asked b = Inr (t, b')" and ok: "board_ok b"
    and p: "parent \<in> set (bd_tasks b)" "child_blocker (bd_tasks b) parent = None"
    and asked: "asked = None \<or> (\<exists>n. asked = Some n \<and> 1 \<le> n \<and> n \<le> max_turns \<and> n \<le> wf_maxTurns (workflow_of parent))"
  shows "board_ok b'"
proof -
  define n where "n = child_turns asked (workflow_of parent)"
  from run obtain t0 b0 receipt where created: "create_task st name description None OwnerYou b = Inr (t0, b0)"
    and t: "t = t0\<lparr>tk_workflow := Some (empty_taskWorkflow\<lparr>wf_continuation := wf_continuation (workflow_of parent), wf_inbox := True,
       wf_parentTaskId := Some (tk_id parent), wf_output := Some result, wf_maxTurns := n\<rparr>), tk_creationReceipt := receipt\<rparr>"
    and tasks: "bd_tasks b' = bd_tasks (put_task t b0)"
    by (auto simp: make_child_def result_simps Let_def add_entry_for_def put_task_def n_def)
  have n': "1 \<le> n \<and> n \<le> max_turns \<and> n \<le> wf_maxTurns (workflow_of parent)"
    using asked board_ok_member [OF ok p(1)]
    by (auto simp: n_def child_turns_def workflow_ok_def default_max_turns_def max_turns_def)
  have w: "workflow_of t = empty_taskWorkflow\<lparr>wf_continuation := wf_continuation (workflow_of parent), wf_inbox := True,
       wf_parentTaskId := Some (tk_id parent), wf_output := Some result, wf_maxTurns := n\<rparr>"
    by (simp add: t workflow_of_def)
  show ?thesis
  proof (rule created_ok [OF created ok _ _ _ tasks])
    show "tk_id t = tk_id t0" by (simp add: t)
    show "workflow_ok (tk_ownedAssignment t \<noteq> None) (workflow_of t)" using n' by (simp add: w workflow_ok_new)
    show "parent_of t = None \<or> (\<exists>p \<in> set (bd_tasks b). parent_of t = Some (tk_id p) \<and> narrower t p \<and> child_blocker (bd_tasks b) p = None)"
      using p n' by (auto simp: parent_of_workflow w narrower_def wider_def)
  qed
qed

lemma branch_child_ok:
  assumes "branch_child sha st body i b = Inr (t, b')" "board_ok b"
  shows "board_ok b'"
proof (cases "b' = b")
  case False
  from branch_child_Inr [OF assms(1) this] assms(2) show ?thesis
    by (auto intro: make_child_ok dest: find_Some_in_set)
qed (use assms in simp)

section \<open>Every call\<close>

lemma created_root_ok:
  assumes "create_task st name description doc owner b = Inr (t0, b0)" "board_ok b" "tk_id t = tk_id t0"
    and "tk_workflow t = Some w" "workflow_ok (tk_ownedAssignment t \<noteq> None) w" "wf_parentTaskId w = None"
  shows "board_ok (put_task t b0)"
  using assms(3-6) by (intro created_ok [OF assms(1,2)]) (simp_all add: parent_of_workflow)

lemma make_automatic_ok:
  assumes run: "make_automatic st name description owner b = Inr (t, b')" and ok: "board_ok b"
  shows "board_ok b'"
proof -
  let ?w = "empty_taskWorkflow\<lparr>wf_continuation := FullApproval, wf_maxTurns := 12\<rparr>"
  from run obtain t0 b0 where created: "create_task st name description None owner b = Inr (t0, b0)"
    and b': "b' = put_task (t0\<lparr>tk_workflow := Some ?w\<rparr>) b0"
    by (auto simp: make_automatic_def result_simps Let_def)
  show ?thesis unfolding b'
    by (rule created_root_ok [OF created ok]) (auto simp: empty_taskWorkflow_def workflow_ok_def max_turns_def)
qed

lemma make_card_ok:
  assumes run: "make_card st name description slot team b = Inr (t, b')" and ok: "board_ok b"
  shows "board_ok b'"
proof -
  let ?w = "if team then empty_taskWorkflow\<lparr>wf_inbox := True\<rparr> else manual_taskWorkflow"
  from run obtain t0 b0 where created: "create_task st name description None OwnerDiomedesWithOk b = Inr (t0, b0)"
    and b': "b' = put_task (t0\<lparr>tk_createdBy := OwnerDiomedes, tk_assignedTo := Some slot, tk_workflow := Some ?w\<rparr>) b0"
    by (auto simp: make_card_def result_simps Let_def)
  show ?thesis unfolding b'
    by (rule created_root_ok [OF created ok])
      (auto simp: empty_taskWorkflow_def manual_taskWorkflow_def workflow_ok_def max_turns_def default_max_turns_def)
qed

lemma deleted_ok:
  assumes "find (\<lambda>r. tk_id r = i) (bd_tasks b) = Some t" "board_ok b"
  shows "board_ok (put_task (t\<lparr>tk_deletedAt := d\<rparr>) b)"
proof -
  have t: "t \<in> set (bd_tasks b)" using find_Some_in_set [OF assms(1)] by blast
  show ?thesis using board_ok_member [OF assms(2) t] by (intro board_ok_gate [OF assms(2) t]) simp_all
qed

text \<open>A handler that keeps the board well-formed does so on the task the path names.\<close>

lemma mutate_ok:
  assumes "rmap snd (mutate handler i b) = Inr b'" "board_ok b"
    and "\<And>t t' b'. handler t b = Inr (t', b') \<Longrightarrow> board_ok b \<Longrightarrow> t \<in> set (bd_tasks b) \<Longrightarrow> board_ok b'"
  shows "board_ok b'"
proof -
  from assms(1) obtain t t' where "find (\<lambda>r. tk_id r = i) (bd_tasks b) = Some t" "handler t b = Inr (t', b')"
    by (auto simp: mutate_def result_simps)
  with assms(2,3) find_Some_in_set show ?thesis by metis
qed

lemma propose_task_ok: "propose_task st input b = Inr (t, b') \<Longrightarrow> board_ok b \<Longrightarrow> board_ok b'"
  by (drule (1) propose_task_Inr) simp

lemma requested_ok: "rbind (live_task b i role) (\<lambda>t. rmap snd (request_taskHandoff st p who t b)) = Inr b' \<Longrightarrow> board_ok b \<Longrightarrow> board_ok b'"
  by (auto simp: result_simps dest: find_Some_in_set request_taskHandoff_ok)

lemma answered: "rmap snd m = Inr b' \<Longrightarrow> (\<And>t. m = Inr (t, b') \<Longrightarrow> P) \<Longrightarrow> P"
  by (auto simp: result_simps)

lemma board_step_ok:
  assumes "board_step sha st call b = Inr b'" "board_ok b"
  shows "board_ok b'"
proof (cases call)
  case (SetWorkflow i body)
  then show ?thesis using assms set_workflow_ok by (auto elim!: mutate_ok)
next
  case (Accept i body)
  then show ?thesis using assms accept_task_ok by (auto elim!: mutate_ok)
next
  case (HandOff i body)
  then show ?thesis using assms hand_off_ok by (auto elim!: mutate_ok)
next
  case (ApprovePhase i body)
  then show ?thesis using assms approve_phase_ok by (auto elim!: mutate_ok)
next
  case (Runs sessions needs)
  then show ?thesis using assms by (auto simp: board_ok_def)
next
  case (RequestHandoff i p who)
  then show ?thesis using assms by (auto intro: requested_ok)
next
  case (ParkPhase run p)
  then show ?thesis using assms by (auto intro: park_phase_ok)
qed (use assms in \<open>auto elim!: answered simp: rmap_Inr_iff find_task_Inr intro: create_task_ok make_automatic_ok make_card_ok
    branch_child_ok propose_task_ok propose_owned_ok phase_step_ok deleted_ok\<close>)

theorem worked_ok: "worked sha b \<Longrightarrow> board_ok b"
proof (induction rule: worked.induct)
  case (fresh b)
  then show ?case by (simp add: board_ok_def family_ok_def)
next
  case (step b st call)
  then show ?case by (cases "board_step sha st call b") (auto simp: commit_def dest: board_step_ok)
qed

section \<open>What a call changes of a task\<close>

text \<open>The change a call may make to the workflow of the task \<open>i\<close> that was there before.\<close>

fun workflow_edit :: "board_call \<Rightarrow> string \<Rightarrow> workflow \<Rightarrow> workflow \<Rightarrow> bool" where
  "workflow_edit (SetWorkflow j body) i w w' \<longleftrightarrow> i = j \<and> jget body ''expectedRevision'' = JInt (wf_revision w)
     \<and> (\<exists>c n skill. w' = w\<lparr>wf_continuation := c, wf_maxTurns := n, wf_skill := skill, wf_revision := wf_revision w + 1\<rparr>)"
| "workflow_edit (Accept j body) i w w' \<longleftrightarrow> i = j \<and> jget body ''expectedRevision'' = JInt (wf_revision w)
     \<and> wf_inbox w \<and> w' = w\<lparr>wf_inbox := False, wf_revision := wf_revision w + 1\<rparr>"
| "workflow_edit (HandOff j body) i w w' \<longleftrightarrow> i = j \<and> jget body ''expectedRevision'' = JInt (wf_revision w)
     \<and> (\<exists>p. handed_off w p w')"
| "workflow_edit (ApprovePhase j body) i w w' \<longleftrightarrow> i = j \<and> jget body ''expectedRevision'' = JInt (wf_revision w)
     \<and> (\<exists>p time reason. wf_pendingPhase w = Some p \<and> w' = advance time OwnerYou p reason w)"
| "workflow_edit (RequestHandoff j p who) i w w' \<longleftrightarrow> i = j \<and> handed_off w p w'"
| "workflow_edit (ParkPhase run p) i w w' \<longleftrightarrow> rb_taskId run = Some i \<and> handed_off w p w'"
| "workflow_edit (PhaseStep run fresh p) i w w' \<longleftrightarrow> rb_taskId run = Some i \<and> next_phase (wf_phase w) = Some p
     \<and> (\<exists>time who reason. w' = advance time who p reason w)"
| "workflow_edit _ i w w' \<longleftrightarrow> False"

definition edited_by :: "board_call \<Rightarrow> board \<Rightarrow> board \<Rightarrow> bool" where
  "edited_by call b b' \<longleftrightarrow> (\<forall>t \<in> set (bd_tasks b). \<exists>t' \<in> set (bd_tasks b'). tk_id t' = tk_id t
     \<and> (workflow_of t' = workflow_of t \<or> workflow_edit call (tk_id t) (workflow_of t) (workflow_of t')))"

lemma edited_by_put:
  assumes "t \<in> set (bd_tasks b)" "distinct (map tk_id (bd_tasks b))" "tk_id t' = tk_id t"
    and "workflow_of t' = workflow_of t \<or> workflow_edit call (tk_id t) (workflow_of t) (workflow_of t')"
    and "bd_tasks b' = bd_tasks (put_task t' b)"
  shows "edited_by call b b'"
proof -
  have "\<exists>r' \<in> set (bd_tasks b'). tk_id r' = tk_id r
      \<and> (workflow_of r' = workflow_of r \<or> workflow_edit call (tk_id r) (workflow_of r) (workflow_of r'))"
    if r: "r \<in> set (bd_tasks b)" for r
  proof (cases "tk_id r = tk_id t")
    case True
    with assms(1,2) r have "r = t" by (metis distinct_map inj_onD)
    with assms show ?thesis by (intro bexI [of _ t']) (auto simp: put_task_def)
  next
    case False
    with assms(3,5) r show ?thesis by (intro bexI [of _ r]) (auto simp: put_task_def)
  qed
  then show ?thesis by (simp add: edited_by_def)
qed

lemma edited_by_more: "set (bd_tasks b) \<subseteq> set (bd_tasks b') \<Longrightarrow> edited_by call b b'"
  unfolding edited_by_def by blast

lemma created_more:
  "create_task st name description doc owner b = Inr (t0, b0) \<Longrightarrow> tk_id t = tk_id t0 \<Longrightarrow> set (bd_tasks b) \<subseteq> set (bd_tasks (put_task t b0))"
  using put_created [of b0 "bd_tasks b" t0 t] create_task_Inr [of st name description doc owner b t0 b0] by auto

lemma named_revision:
  "set_workflow st body t b = Inr r \<Longrightarrow> jget body ''expectedRevision'' = JInt (wf_revision (workflow_of t))"
  "accept_task st body t b = Inr r \<Longrightarrow> jget body ''expectedRevision'' = JInt (wf_revision (workflow_of t))"
  "hand_off st body t b = Inr r \<Longrightarrow> jget body ''expectedRevision'' = JInt (wf_revision (workflow_of t))"
  "approve_phase st body t b = Inr r \<Longrightarrow> jget body ''expectedRevision'' = JInt (wf_revision (workflow_of t))"
  by (auto simp: handler_defs Let_def rbind_Inr_iff check_revision_Inr)

lemma mutate_edits:
  assumes "rmap snd (mutate handler i b) = Inr b'" "board_ok b"
    and "\<And>t t'. handler t b = Inr (t', b') \<Longrightarrow> tk_id t = i \<Longrightarrow>
      tk_id t' = tk_id t \<and> bd_tasks b' = bd_tasks (put_task t' b) \<and> workflow_edit call i (workflow_of t) (workflow_of t')"
  shows "edited_by call b b'"
proof -
  from assms(1) obtain t t' where t: "find (\<lambda>r. tk_id r = i) (bd_tasks b) = Some t" and run: "handler t b = Inr (t', b')"
    by (auto simp: mutate_def result_simps)
  from find_Some_in_set [OF t] assms(3) [OF run] assms(2) show ?thesis
    by (intro edited_by_put [of t b t']) (auto simp: board_ok_def)
qed

lemma set_workflow_edits:
  assumes "set_workflow st body t b = Inr (t', b')"
  shows "tk_id t' = tk_id t \<and> bd_tasks b' = bd_tasks (put_task t' b)
     \<and> workflow_edit (SetWorkflow (tk_id t) body) (tk_id t) (workflow_of t) (workflow_of t')"
proof -
  from set_workflow_Inr [OF assms] obtain c n skill where
    t': "t' = t\<lparr>tk_workflow := Some ((workflow_of t)\<lparr>wf_continuation := c, wf_maxTurns := n, wf_skill := skill,
         wf_revision := wf_revision (workflow_of t) + 1\<rparr>)\<rparr>" and "bd_tasks b' = bd_tasks (put_task t' b)" by blast
  then show ?thesis using named_revision(1) [OF assms] by auto
qed

lemma accept_task_edits:
  assumes "accept_task st body t b = Inr (t', b')"
  shows "tk_id t' = tk_id t \<and> bd_tasks b' = bd_tasks (put_task t' b)
     \<and> workflow_edit (Accept (tk_id t) body) (tk_id t) (workflow_of t) (workflow_of t')"
  by (rule accept_task_Inr [OF assms]) (use named_revision(2) [OF assms] in auto)

lemma hand_off_edits:
  assumes "hand_off st body t b = Inr (t', b')"
  shows "tk_id t' = tk_id t \<and> bd_tasks b' = bd_tasks (put_task t' b)
     \<and> workflow_edit (HandOff (tk_id t) body) (tk_id t) (workflow_of t) (workflow_of t')"
  using hand_off_Inr [OF assms] named_revision(3) [OF assms] by auto

lemma approve_phase_edits:
  assumes "approve_phase st body t b = Inr (t', b')"
  shows "tk_id t' = tk_id t \<and> bd_tasks b' = bd_tasks (put_task t' b)
     \<and> workflow_edit (ApprovePhase (tk_id t) body) (tk_id t) (workflow_of t) (workflow_of t')"
  by (rule approve_phase_Inr [OF assms]) (use named_revision(4) [OF assms] in auto)

lemma request_edits:
  assumes "request_taskHandoff st p who t b = Inr (r, b')" "t \<in> set (bd_tasks b)" "board_ok b"
    and "\<And>w'. handed_off (workflow_of t) p w' \<Longrightarrow> workflow_edit call (tk_id t) (workflow_of t) w'"
  shows "edited_by call b b'"
proof (cases "b' = b")
  case False
  from request_taskHandoff_Inr [OF assms(1) this] obtain w' where "handed_off (workflow_of t) p w'"
    "bd_tasks b' = bd_tasks (put_task (t\<lparr>tk_workflow := Some w'\<rparr>) b)" by blast
  with assms(2-4) show ?thesis
    by (intro edited_by_put [of t b "t\<lparr>tk_workflow := Some w'\<rparr>"]) (auto simp: board_ok_def)
qed (simp add: edited_by_more)

lemma phase_step_edits:
  assumes "phase_step st run fresh p b = Inr (r, b')" "board_ok b"
  shows "edited_by (PhaseStep run fresh p) b b'"
  using assms(1)
proof (cases rule: phase_step_Inr)
  case 1
  then show ?thesis by (simp add: edited_by_more)
next
  case (2 t w time who reason)
  from live_row_member [OF 2(1)] have "t \<in> set (bd_tasks b)" .
  moreover have "rb_taskId run = Some (tk_id t)" using 2(1) find_Some_in_set by (fastforce simp: live_row_def)
  ultimately show ?thesis using 2(2-4) assms(2)
    by (intro edited_by_put [of t b "t\<lparr>tk_workflow := Some (advance time who p reason w)\<rparr>"]) (auto simp: board_ok_def)
qed

lemma park_phase_edits:
  assumes "park_phase st run p b = Inr b'" "board_ok b"
  shows "edited_by (ParkPhase run p) b b'"
proof -
  have row: "rb_taskId run = Some (tk_id t)" if "live_row b (rb_taskId run) = Some t" for t
    using that find_Some_in_set by (fastforce simp: live_row_def)
  show ?thesis
  proof (cases "b' = b")
    case False
    with assms(1) obtain t r where t: "live_row b (rb_taskId run) = Some t"
      and run: "request_taskHandoff st p OwnerDiomedes t b = Inr (r, b')"
      by (auto simp: park_phase_def result_simps split: option.splits if_splits)
    show ?thesis by (rule request_edits [OF run live_row_member [OF t] assms(2)]) (simp add: row [OF t])
  qed (simp add: edited_by_more)
qed

lemma put_task_history [simp]: "bd_tasks (put_task t (b\<lparr>bd_history := h\<rparr>)) = bd_tasks (put_task t b)"
  by (simp add: put_task_def)

lemma making_edits:
  "make_automatic st name description owner b = Inr (t, b') \<Longrightarrow> set (bd_tasks b) \<subseteq> set (bd_tasks b')"
  "make_card st name description slot team b = Inr (t, b') \<Longrightarrow> set (bd_tasks b) \<subseteq> set (bd_tasks b')"
  by (auto simp: make_automatic_def make_card_def result_simps Let_def intro: created_more [THEN subsetD])

lemma make_child_more:
  assumes "make_child st commandId digest parent name description result asked b = Inr (t, b')"
  shows "set (bd_tasks b) \<subseteq> set (bd_tasks b')"
proof -
  from assms obtain t0 b0 where created: "create_task st name description None OwnerYou b = Inr (t0, b0)"
    and t: "tk_id t = tk_id t0" "bd_tasks b' = bd_tasks (put_task t b0)"
    by (auto simp: make_child_def result_simps Let_def add_entry_for_def)
  from created_more [OF created t(1)] t(2) show ?thesis by simp
qed

lemma propose_owned_more:
  assumes run: "propose_ownedTaskAssignment st i runId admission input b = Inr (t, b')" and ok: "board_ok b"
  shows "set (bd_tasks b) \<subseteq> set (bd_tasks b')"
proof -
  from run obtain t0 b0 where created: "propose_task st (input\<lparr>pr_parentTaskId := Some i, pr_acceptedByPerson := False\<rparr>) b = Inr (t0, b0)"
    and t: "tk_id t = tk_id t0" "bd_tasks b' = bd_tasks (put_task t b0)"
    by (auto simp: propose_ownedTaskAssignment_def result_simps Let_def split: prod.splits if_splits)
  from propose_task_Inr [OF created ok] have "bd_tasks b0 = bd_tasks b @ [t0]" "tk_id t0 \<notin> tk_id ` set (bd_tasks b)" by blast+
  from put_created [OF this t(1)] t(2) show ?thesis by auto
qed

lemma branch_child_more:
  assumes "branch_child sha st body i b = Inr (t, b')"
  shows "set (bd_tasks b) \<subseteq> set (bd_tasks b')"
proof (cases "b' = b")
  case False
  from branch_child_Inr [OF assms this] make_child_more show ?thesis by blast
qed simp

lemma deleted_edits:
  assumes "find (\<lambda>r. tk_id r = i) (bd_tasks b) = Some t" "board_ok b"
  shows "edited_by call b (put_task (t\<lparr>tk_deletedAt := d\<rparr>) b)"
  using find_Some_in_set [OF assms(1)] assms(2) by (intro edited_by_put [of t b "t\<lparr>tk_deletedAt := d\<rparr>"]) (auto simp: board_ok_def)

lemma create_task_more: "create_task st name description doc owner b = Inr (t, b') \<Longrightarrow> set (bd_tasks b) \<subseteq> set (bd_tasks b')"
  by (drule create_task_Inr(4)) auto

lemma propose_task_more: "propose_task st input b = Inr (t, b') \<Longrightarrow> board_ok b \<Longrightarrow> set (bd_tasks b) \<subseteq> set (bd_tasks b')"
  by (drule (1) propose_task_Inr) auto

lemma board_step_edits:
  assumes "board_step sha st call b = Inr b'" "board_ok b"
  shows "edited_by call b b'"
proof (cases call)
  case (SetWorkflow i body)
  then show ?thesis using assms set_workflow_edits by (auto elim!: mutate_edits)
next
  case (Accept i body)
  then show ?thesis using assms accept_task_edits by (auto elim!: mutate_edits)
next
  case (HandOff i body)
  then show ?thesis using assms hand_off_edits by (auto elim!: mutate_edits)
next
  case (ApprovePhase i body)
  then show ?thesis using assms approve_phase_edits by (auto elim!: mutate_edits)
next
  case (Runs sessions needs)
  then show ?thesis using assms by (auto intro!: edited_by_more)
next
  case (RequestHandoff i p who)
  with assms(1) obtain t r where t: "find (\<lambda>r. tk_id r = i) (bd_tasks b) = Some t"
    and run: "request_taskHandoff st p who t b = Inr (r, b')" by (auto simp: result_simps)
  from find_Some_in_set [OF t] RequestHandoff show ?thesis by (intro request_edits [OF run _ assms(2)]) auto
next
  case (ParkPhase run p)
  then show ?thesis using assms by (auto intro: park_phase_edits)
next
  case (PhaseStep run fresh p)
  then show ?thesis using assms by (auto elim!: answered intro: phase_step_edits)
next
  case (Delete i)
  then show ?thesis using assms by (auto simp: result_simps intro: deleted_edits)
next
  case (Restore i)
  then show ?thesis using assms by (auto simp: result_simps intro: deleted_edits)
qed (use assms in \<open>auto elim!: answered intro!: edited_by_more dest: create_task_more making_edits branch_child_more
    propose_task_more propose_owned_more\<close>)

end
