(* ===== verification/Ready_Queue.thy ===== *)
theory Ready_Queue
  imports Task_Workflow
begin

text \<open>
  The Ready queue, \<open>shared/ready-queue.ts\<close>: when a task is Ready, which Ready tasks a pass claims and in which order, and
  why the others wait. The order of two texts that \<open>localeCompare\<close> gives is a parameter of the definitions that sort: a
  negative number when the first comes before the second.
\<close>

type_synonym collation = "string \<Rightarrow> string \<Rightarrow> int"

section \<open>Ready\<close>

record queue_pause =
  qp_at :: string
  qp_reason :: string

datatype claim_status = Claimed | ClaimStarted | ClaimRefused

record ready_claim =
  rc_id :: string
  rc_commandId :: string
  rc_taskId :: string
  rc_route :: string
  rc_claimedAt :: string
  rc_readyAt :: string
  rc_state :: claim_status
  rc_sessionId :: "string option"
  rc_settledAt :: "string option"
  rc_reason :: "string option"

record ready_queue =
  rq_autoStart :: bool
  rq_autoStartChangedAt :: "string option"
  rq_paused :: "queue_pause option"
  rq_claims :: "ready_claim list"

definition empty_readyQueue :: ready_queue where
  "empty_readyQueue = \<lparr>rq_autoStart = False, rq_autoStartChangedAt = None, rq_paused = None, rq_claims = []\<rparr>"

definition is_activeSession :: "work_session \<Rightarrow> bool" where
  "is_activeSession s \<longleftrightarrow> ss_state s \<in> {SessionQueued, SessionWorking, SessionWaiting}"

text \<open>The time the person last put the task back into To do, when that is its last move.\<close>

definition reopened :: "task \<Rightarrow> string option" where
  "reopened t = (case rev (filter (\<lambda>m. \<not> mv_undone m) (tk_moves t)) of
     [] \<Rightarrow> None
   | m # _ \<Rightarrow> if mv_to m = Todo \<and> mv_by m = OwnerYou then Some (mv_at m) else None)"

definition session_end :: "work_session \<Rightarrow> string" where
  "session_end s = (case ss_endedAt s of None \<Rightarrow> ss_startedAt s | Some e \<Rightarrow> e)"

definition later_text :: "string \<Rightarrow> string \<Rightarrow> string" where
  "later_text a b = (if text_less b a then a else b)"

definition waits_at_gate :: "task \<Rightarrow> bool" where
  "waits_at_gate t \<longleftrightarrow> tk_ownedAssignment t \<noteq> None
     \<or> (case tk_workflow t of None \<Rightarrow> False | Some w \<Rightarrow> wf_inbox w \<or> wf_pendingPhase w \<noteq> None)"

definition ready_at :: "task \<Rightarrow> work_session list \<Rightarrow> task_need list \<Rightarrow> task_change list \<Rightarrow> string option" where
  "ready_at t sessions needs changes =
     (if truthy (tk_deletedAt t) \<or> tk_state t \<noteq> Todo then None
      else if waits_at_gate t then None
      else let own = filter (\<lambda>s. ss_taskId s = tk_id t) sessions in
      if list_ex is_activeSession own then None
      else if list_ex (\<lambda>n. nd_taskId n = tk_id t \<and> nd_state n = NeedOpen) needs then None
      else if list_ex (\<lambda>c. ch_taskId c = Some (tk_id t) \<and> ch_state c = ChangeWaiting) changes then None
      else case map session_end own of
        [] \<Rightarrow> (case reopened t of
            None \<Rightarrow> Some (tk_createdAt t)
          | Some r \<Rightarrow> if r \<noteq> '''' \<and> text_less (tk_createdAt t) r then Some r else Some (tk_createdAt t))
      | e # es \<Rightarrow>
          let last = foldl later_text e es in
          (case reopened t of None \<Rightarrow> None | Some r \<Rightarrow> if r \<noteq> '''' \<and> \<not> text_less r last then Some r else None))"

section \<open>One pass of the planner\<close>

record ready_task =
  rt_taskId :: string
  rt_readyAt :: string
  rt_createdAt :: string
  rt_hold :: "string option"

record ready_project =
  rp_id :: string
  rp_autoStart :: bool
  rp_paused :: "queue_pause option"
  rp_running :: int
  rp_awaitingDecision :: bool
  rp_lastClaimAt :: "string option"
  rp_ready :: "ready_task list"

record queue_limits =
  ql_global :: int
  ql_perProject :: int

definition ready_queue_limits :: queue_limits where
  "ready_queue_limits = \<lparr>ql_global = 2, ql_perProject = 1\<rparr>"

record planned_claim =
  pc_projectId :: string
  pc_taskId :: string
  pc_readyAt :: string

text \<open>Comparators joined by \<open>||\<close>: the second decides where the first says equal.\<close>

definition or_else :: "int \<Rightarrow> int \<Rightarrow> int" where
  "or_else a b = (if a \<noteq> 0 then a else b)"

definition task_order :: "collation \<Rightarrow> ready_task \<Rightarrow> ready_task \<Rightarrow> int" where
  "task_order cmp a b = or_else (cmp (rt_readyAt a) (rt_readyAt b))
     (or_else (cmp (rt_createdAt a) (rt_createdAt b)) (cmp (rt_taskId a) (rt_taskId b)))"

definition last_claim :: "ready_project \<Rightarrow> string" where
  "last_claim p = (case rp_lastClaimAt p of None \<Rightarrow> '''' | Some c \<Rightarrow> c)"

definition project_order :: "collation \<Rightarrow> ready_project \<Rightarrow> ready_project \<Rightarrow> int" where
  "project_order cmp a b = or_else (cmp (last_claim a) (last_claim b)) (cmp (rp_id a) (rp_id b))"

definition ready_line :: "collation \<Rightarrow> ready_project \<Rightarrow> ready_task list" where
  "ready_line cmp p = sort_by (\<lambda>a b. task_order cmp a b < 0) (filter (\<lambda>t. \<not> truthy (rt_hold t)) (rp_ready p))"

definition open_project :: "queue_pause option \<Rightarrow> ready_project \<Rightarrow> bool" where
  "open_project allPaused p \<longleftrightarrow> rp_autoStart p \<and> rp_paused p = None \<and> allPaused = None"

definition serving_order :: "collation \<Rightarrow> queue_pause option \<Rightarrow> ready_project list \<Rightarrow> ready_project list" where
  "serving_order cmp allPaused projects = sort_by (\<lambda>a b. project_order cmp a b < 0) (filter (open_project allPaused) projects)"

text \<open>The counters of the loop: how many runs there are, the runs and the claims of each project, and the claims so far.\<close>

record plan_state =
  ps_running :: int
  ps_used :: "string \<Rightarrow> int"
  ps_taken :: "string \<Rightarrow> nat"
  ps_claims :: "planned_claim list"

definition can_claim :: "collation \<Rightarrow> queue_limits \<Rightarrow> ready_project \<Rightarrow> plan_state \<Rightarrow> bool" where
  "can_claim cmp lims p s \<longleftrightarrow> ps_used s (rp_id p) < ql_perProject lims \<and> ps_taken s (rp_id p) < length (ready_line cmp p)"

definition claim_next :: "collation \<Rightarrow> ready_project \<Rightarrow> plan_state \<Rightarrow> plan_state" where
  "claim_next cmp p s =
     (let i = rp_id p; item = ready_line cmp p ! ps_taken s i in
      \<lparr>ps_running = ps_running s + 1, ps_used = (ps_used s)(i := ps_used s i + 1), ps_taken = (ps_taken s)(i := ps_taken s i + 1),
       ps_claims = ps_claims s @ [\<lparr>pc_projectId = i, pc_taskId = rt_taskId item, pc_readyAt = rt_readyAt item\<rparr>]\<rparr>)"

text \<open>One round offers each project one claim; it stops when the global limit is reached.\<close>

fun plan_round :: "collation \<Rightarrow> queue_limits \<Rightarrow> ready_project list \<Rightarrow> plan_state \<Rightarrow> plan_state" where
  "plan_round cmp lims [] s = s"
| "plan_round cmp lims (p # ps) s =
     (if ql_global lims \<le> ps_running s then s
      else plan_round cmp lims ps (if can_claim cmp lims p s then claim_next cmp p s else s))"

text \<open>The rounds go on while the last one claimed something and the limit is not reached.\<close>

partial_function (option) plan_rounds ::
  "collation \<Rightarrow> queue_limits \<Rightarrow> ready_project list \<Rightarrow> bool \<Rightarrow> plan_state \<Rightarrow> plan_state option" where
  "plan_rounds cmp lims order progress s =
     (if progress \<and> ps_running s < ql_global lims
      then (let s' = plan_round cmp lims order s in plan_rounds cmp lims order (length (ps_claims s) < length (ps_claims s')) s')
      else Some s)"

definition running_of :: "ready_project list \<Rightarrow> string \<Rightarrow> int" where
  "running_of projects i = (case find (\<lambda>p. rp_id p = i) (rev projects) of None \<Rightarrow> 0 | Some p \<Rightarrow> rp_running p)"

definition plan_start :: "ready_project list \<Rightarrow> plan_state" where
  "plan_start projects = \<lparr>ps_running = sum_list (map rp_running projects), ps_used = running_of projects,
     ps_taken = (\<lambda>_. 0), ps_claims = []\<rparr>"

definition plan_readyQueue ::
  "collation \<Rightarrow> queue_pause option \<Rightarrow> queue_limits \<Rightarrow> ready_project list \<Rightarrow> plan_state option" where
  "plan_readyQueue cmp allPaused lims projects =
     plan_rounds cmp lims (serving_order cmp allPaused projects) True (plan_start projects)"

section \<open>Why the others wait\<close>

datatype ready_why = WhyOff | WhyPaused | WhyAllPaused | WhyStarting | WhyNext | WhyInLine | WhyProjectBusy
  | WhyAwaitingDecision | WhyLimit | WhyHeld

record ready_item =
  ri_taskId :: string
  ri_readyAt :: string
  ri_position :: "nat option"
  ri_why :: ready_why

definition line_why :: "queue_pause option \<Rightarrow> queue_limits \<Rightarrow> plan_state \<Rightarrow> ready_project \<Rightarrow> nat \<Rightarrow> ready_why" where
  "line_why allPaused lims s p index =
     (let claimed = ps_taken s (rp_id p) in
      if \<not> rp_autoStart p then WhyOff
      else if allPaused \<noteq> None then WhyAllPaused
      else if rp_paused p \<noteq> None then WhyPaused
      else if index < claimed then WhyStarting
      else if claimed < index then WhyInLine
      else if ql_perProject lims \<le> ps_used s (rp_id p) then (if rp_awaitingDecision p then WhyAwaitingDecision else WhyProjectBusy)
      else if ql_global lims \<le> ps_running s then WhyLimit
      else WhyNext)"

definition ready_items :: "collation \<Rightarrow> queue_pause option \<Rightarrow> queue_limits \<Rightarrow> plan_state \<Rightarrow> ready_project \<Rightarrow> ready_item list" where
  "ready_items cmp allPaused lims s p =
     map (\<lambda>(index, t). \<lparr>ri_taskId = rt_taskId t, ri_readyAt = rt_readyAt t, ri_position = Some (index + 1),
            ri_why = line_why allPaused lims s p index\<rparr>) (List.enumerate 0 (ready_line cmp p))
     @ map (\<lambda>t. \<lparr>ri_taskId = rt_taskId t, ri_readyAt = rt_readyAt t, ri_position = None,
            ri_why = (if rp_autoStart p then WhyHeld else WhyOff)\<rparr>) (filter (\<lambda>t. truthy (rt_hold t)) (rp_ready p))"

section \<open>What holds a task for the person\<close>

definition hold_reason :: "string \<Rightarrow> string \<Rightarrow> bool \<Rightarrow> bool \<Rightarrow> string option \<Rightarrow> string option" where
  "hold_reason route routeName consented serviceOn refused =
     (if truthy refused then Some (''Not started automatically: '' @ the refused)
      else if route = ''sample'' then None
      else if \<not> serviceOn then Some (''Start it yourself: '' @ routeName @ '' is off in Settings'')
      else if \<not> consented then Some (''Start it yourself: sending to '' @ routeName @ '' needs your confirmation'')
      else None)"

end
