(* ===== verification/Sorting.thy ===== *)
theory Sorting
  imports Prelude "HOL-Library.Multiset"
begin

text \<open>Sorting by a comparison keeps the rows it sorts, each as often as it was there.\<close>

lemma mset_insert_by: "mset (insert_by before x ys) = add_mset x (mset ys)"
  by (induction ys) auto

lemma mset_sort_by [simp]: "mset (sort_by before xs) = mset xs"
  unfolding sort_by_def by (induction xs) (simp_all add: mset_insert_by)

lemma distinct_map_sort_by: "distinct (map k (sort_by before xs)) \<longleftrightarrow> distinct (map k xs)"
  by (rule mset_eq_imp_distinct_iff) simp

lemma length_sort_by [simp]: "length (sort_by before xs) = length xs"
  by (rule mset_eq_length) simp

end
