(* ===== verification/Ready_Fairness.thy ===== *)
theory Ready_Fairness
  imports Ready_Queue Sorting
begin

text \<open>
  What a pass of the Ready queue promises: it ends, it stays within the limits, it takes the oldest Ready tasks, it leaves
  no free slot that a project could use, and it serves the least recently served project first, so that none waits forever.
\<close>

section \<open>Comparators\<close>

text \<open>What \<open>Array.prototype.sort\<close> asks of a comparator: swapping turns the answer round, and it is transitive.\<close>

locale comparator =
  fixes ord :: "'a \<Rightarrow> 'a \<Rightarrow> int"
  assumes opposite: "ord a b < 0 \<longleftrightarrow> 0 < ord b a"
    and chain: "ord a b \<le> 0 \<Longrightarrow> ord b c \<le> 0 \<Longrightarrow> ord a c \<le> 0"
begin

lemma not_after: "\<not> ord b a < 0 \<longleftrightarrow> ord a b \<le> 0"
  using opposite [of b a] by auto

lemma same [simp]: "ord a a = 0"
  using opposite [of a a] by auto

lemma strict_chain: "ord a b \<le> 0 \<Longrightarrow> ord b c < 0 \<Longrightarrow> ord a c < 0"
  using chain [of c a b] opposite [of b c] opposite [of a c] by force

lemma strict_chain': "ord a b < 0 \<Longrightarrow> ord b c \<le> 0 \<Longrightarrow> ord a c < 0"
  using chain [of b c a] opposite [of a b] opposite [of a c] by force

lemma zero: "ord a b = 0 \<longleftrightarrow> ord b a = 0"
  using opposite [of a b] opposite [of b a] by auto

lemma sorted_insert_by:
  "sorted_wrt (\<lambda>a b. ord a b \<le> 0) ys \<Longrightarrow> sorted_wrt (\<lambda>a b. ord a b \<le> 0) (insert_by (\<lambda>a b. ord a b < 0) x ys)"
proof (induction ys)
  case (Cons y ys)
  then show ?case using not_after [of y x] chain by auto
qed simp

text \<open>Sorting puts the elements in order.\<close>

lemma sorted_sort_by: "sorted_wrt (\<lambda>a b. ord a b \<le> 0) (sort_by (\<lambda>a b. ord a b < 0) xs)"
  by (induction xs) (simp_all add: sort_by_def sorted_insert_by)

end

text \<open>A comparator on keys, refined by a second one, is a comparator.\<close>

lemma comparator_or_else:
  assumes f: "comparator f" and g: "comparator g"
  shows "comparator (\<lambda>a b. or_else (f (h a) (h b)) (g (k a) (k b)))"
proof -
  note f_laws = comparator.opposite [OF f] comparator.zero [OF f] and g_opposite = comparator.opposite [OF g]
  have less: "or_else u v < 0 \<longleftrightarrow> u < 0 \<or> u = 0 \<and> v < 0" and more: "0 < or_else u v \<longleftrightarrow> 0 < u \<or> u = 0 \<and> 0 < v"
    and le: "or_else u v \<le> 0 \<longleftrightarrow> u < 0 \<or> u = 0 \<and> v \<le> 0" for u v
    by (auto simp: or_else_def)
  show ?thesis
  proof
    fix a b c
    show "(or_else (f (h a) (h b)) (g (k a) (k b)) < 0) = (0 < or_else (f (h b) (h a)) (g (k b) (k a)))"
      by (simp add: less more f_laws g_opposite)
    assume "or_else (f (h a) (h b)) (g (k a) (k b)) \<le> 0" "or_else (f (h b) (h c)) (g (k b) (k c)) \<le> 0"
    then consider "f (h a) (h b) < 0" "f (h b) (h c) \<le> 0" | "f (h a) (h b) \<le> 0" "f (h b) (h c) < 0"
      | "f (h a) (h b) = 0" "f (h b) (h c) = 0" "g (k a) (k b) \<le> 0" "g (k b) (k c) \<le> 0"
      unfolding le by linarith
    then show "or_else (f (h a) (h c)) (g (k a) (k c)) \<le> 0"
    proof cases
      case 1
      then show ?thesis by (simp add: le comparator.strict_chain' [OF f])
    next
      case 2
      then show ?thesis by (simp add: le comparator.strict_chain [OF f])
    next
      case 3
      then have "f (h b) (h a) = 0" "f (h c) (h b) = 0" by (simp_all add: comparator.zero [OF f])
      with 3 have "f (h a) (h c) \<le> 0" "f (h c) (h a) \<le> 0"
        using comparator.chain [OF f, of "h a" "h b" "h c"] comparator.chain [OF f, of "h c" "h b" "h a"] by simp_all
      then have "f (h a) (h c) = 0" using comparator.not_after [OF f, of "h a" "h c"] by simp
      with comparator.chain [OF g 3(3,4)] show ?thesis by (simp add: le)
    qed
  qed
qed

lemma comparator_task_order: "comparator cmp \<Longrightarrow> comparator (task_order cmp)"
  unfolding task_order_def [abs_def]
  by (rule comparator_or_else [of cmp "\<lambda>a b. or_else (cmp (rt_createdAt a) (rt_createdAt b)) (cmp (rt_taskId a) (rt_taskId b))"
        rt_readyAt "\<lambda>a. a"])
    (simp_all add: comparator_or_else)

lemma comparator_project_order: "comparator cmp \<Longrightarrow> comparator (project_order cmp)"
  unfolding project_order_def [abs_def] by (rule comparator_or_else)

text \<open>The order of ISO texts and of ids by their bytes is such an order.\<close>

definition byte_order :: collation where
  "byte_order a b = (if text_less a b then - 1 else if text_less b a then 1 else 0)"

lemma text_less_irrefl: "\<not> text_less a a"
  by (induction a) auto

lemma text_less_asym: "text_less a b \<Longrightarrow> \<not> text_less b a"
proof (induction a b rule: text_less.induct)
  case (1 t)
  then show ?case by (cases t) auto
qed auto

lemma text_less_trans: "text_less a b \<Longrightarrow> text_less b c \<Longrightarrow> text_less a c"
proof (induction a b arbitrary: c rule: text_less.induct)
  case (1 t)
  then show ?case by (cases c; cases t) auto
next
  case (3 x s y t)
  then show ?case by (cases c) auto
qed simp

lemma text_less_linear: "a \<noteq> b \<Longrightarrow> text_less a b \<or> text_less b a"
proof (induction a b rule: text_less.induct)
  case (3 x s y t)
  then show ?case using of_char_eq_iff [of x y, where 'a = nat] by (auto simp: neq_iff simp del: of_char_eq_iff)
qed auto

interpretation bytes: comparator byte_order
proof
  show "(byte_order a b < 0) = (0 < byte_order b a)" for a b
    by (auto simp: byte_order_def dest: text_less_asym)
  show "byte_order a c \<le> 0" if "byte_order a b \<le> 0" "byte_order b c \<le> 0" for a b c
    using that text_less_trans [of a b c] text_less_trans [of c b a] text_less_linear [of a b] text_less_linear [of b c]
    by (auto simp: byte_order_def dest: text_less_asym split: if_splits)
qed

interpretation task_bytes: comparator "task_order byte_order"
  by (rule comparator_task_order) (rule bytes.comparator_axioms)

interpretation project_bytes: comparator "project_order byte_order"
  by (rule comparator_project_order) (rule bytes.comparator_axioms)

section \<open>The counters\<close>

definition claims_of :: "plan_state \<Rightarrow> string \<Rightarrow> planned_claim list" where
  "claims_of s i = filter (\<lambda>c. pc_projectId c = i) (ps_claims s)"

definition claim_of :: "string \<Rightarrow> ready_task \<Rightarrow> planned_claim" where
  "claim_of i t = \<lparr>pc_projectId = i, pc_taskId = rt_taskId t, pc_readyAt = rt_readyAt t\<rparr>"

text \<open>
  What holds at every point of the loop: the counters add up, the limits are kept where anything was claimed, and the
  claims of a project are the front of its line.
\<close>

definition plan_ok :: "collation \<Rightarrow> queue_limits \<Rightarrow> ready_project list \<Rightarrow> plan_state \<Rightarrow> plan_state \<Rightarrow> bool" where
  "plan_ok cmp lims order s0 s \<longleftrightarrow>
     ps_running s = ps_running s0 + int (length (ps_claims s))
     \<and> (ps_claims s \<noteq> [] \<longrightarrow> ps_running s \<le> ql_global lims)
     \<and> (\<forall>c \<in> set (ps_claims s). \<exists>p \<in> set order. rp_id p = pc_projectId c)
     \<and> (\<forall>p \<in> set order. ps_used s (rp_id p) = ps_used s0 (rp_id p) + int (ps_taken s (rp_id p))
          \<and> ps_taken s (rp_id p) \<le> length (ready_line cmp p)
          \<and> (0 < ps_taken s (rp_id p) \<longrightarrow> ps_used s (rp_id p) \<le> ql_perProject lims)
          \<and> claims_of s (rp_id p) = map (claim_of (rp_id p)) (take (ps_taken s (rp_id p)) (ready_line cmp p)))"

lemma same_id_same_project: "distinct (map rp_id ps) \<Longrightarrow> p \<in> set ps \<Longrightarrow> q \<in> set ps \<Longrightarrow> rp_id p = rp_id q \<Longrightarrow> p = q"
  by (metis distinct_map inj_onD)

lemma plan_ok_claim:
  assumes ok: "plan_ok cmp lims order s0 s" and ids: "distinct (map rp_id order)" and p: "p \<in> set order"
    and can: "can_claim cmp lims p s" and free: "ps_running s < ql_global lims"
  shows "plan_ok cmp lims order s0 (claim_next cmp p s)"
proof -
  let ?i = "rp_id p" and ?n = "ps_taken s (rp_id p)"
  have n: "?n < length (ready_line cmp p)" "ps_used s ?i < ql_perProject lims" using can by (simp_all add: can_claim_def)
  have after: "claim_next cmp p s = \<lparr>ps_running = ps_running s + 1, ps_used = (ps_used s)(?i := ps_used s ?i + 1),
      ps_taken = (ps_taken s)(?i := ?n + 1), ps_claims = ps_claims s @ [claim_of ?i (ready_line cmp p ! ?n)]\<rparr>"
    by (simp add: claim_next_def claim_of_def Let_def)
  have claims: "claims_of (claim_next cmp p s) j = claims_of s j @ (if j = ?i then [claim_of ?i (ready_line cmp p ! ?n)] else [])" for j
    by (simp add: after claims_of_def claim_of_def)
  have rows: "ps_used (claim_next cmp p s) (rp_id q) = ps_used s0 (rp_id q) + int (ps_taken (claim_next cmp p s) (rp_id q))
      \<and> ps_taken (claim_next cmp p s) (rp_id q) \<le> length (ready_line cmp q)
      \<and> (0 < ps_taken (claim_next cmp p s) (rp_id q) \<longrightarrow> ps_used (claim_next cmp p s) (rp_id q) \<le> ql_perProject lims)
      \<and> claims_of (claim_next cmp p s) (rp_id q)
          = map (claim_of (rp_id q)) (take (ps_taken (claim_next cmp p s) (rp_id q)) (ready_line cmp q))"
    if q: "q \<in> set order" for q
  proof (cases "rp_id q = ?i")
    case True
    then have "q = p" using same_id_same_project [OF ids q p] by simp
    with ok p n show ?thesis by (simp add: claims plan_ok_def) (simp add: after take_Suc_conv_app_nth)
  next
    case False
    with ok q show ?thesis by (simp add: claims plan_ok_def) (force simp: after)
  qed
  have counts: "ps_running (claim_next cmp p s) = ps_running s + 1"
    "ps_claims (claim_next cmp p s) = ps_claims s @ [claim_of ?i (ready_line cmp p ! ?n)]"
    by (simp_all add: after)
  have "ps_running (claim_next cmp p s) = ps_running s0 + int (length (ps_claims (claim_next cmp p s)))
      \<and> (ps_claims (claim_next cmp p s) \<noteq> [] \<longrightarrow> ps_running (claim_next cmp p s) \<le> ql_global lims)
      \<and> (\<forall>c \<in> set (ps_claims (claim_next cmp p s)). \<exists>p \<in> set order. rp_id p = pc_projectId c)"
    using ok p free by (auto simp: plan_ok_def counts claim_of_def)
  with rows show ?thesis unfolding plan_ok_def by blast
qed

lemma plan_ok_round:
  "plan_ok cmp lims order s0 s \<Longrightarrow> distinct (map rp_id order) \<Longrightarrow> set ps \<subseteq> set order \<Longrightarrow> plan_ok cmp lims order s0 (plan_round cmp lims ps s)"
  by (induction ps arbitrary: s) (auto simp: plan_ok_claim)

lemma plan_round_claims: "length (ps_claims s) \<le> length (ps_claims (plan_round cmp lims ps s))"
proof (induction ps arbitrary: s)
  case (Cons p ps)
  from Cons [of "claim_next cmp p s"] Cons [of s] show ?case by (auto simp: claim_next_def Let_def)
qed simp

lemma plan_round_running:
  "ps_running (plan_round cmp lims ps s) - ps_running s = int (length (ps_claims (plan_round cmp lims ps s))) - int (length (ps_claims s))"
proof (induction ps arbitrary: s)
  case (Cons p ps)
  from Cons [of "claim_next cmp p s"] Cons [of s] show ?case by (auto simp: claim_next_def Let_def)
qed simp

text \<open>A round that claims nothing below the limit leaves no project that could claim.\<close>

lemma plan_round_idle:
  assumes "length (ps_claims (plan_round cmp lims ps s)) = length (ps_claims s)" "ps_running s < ql_global lims"
  shows "plan_round cmp lims ps s = s \<and> (\<forall>p \<in> set ps. \<not> can_claim cmp lims p s)"
  using assms
proof (induction ps arbitrary: s)
  case (Cons p ps)
  have "\<not> can_claim cmp lims p s"
  proof
    assume "can_claim cmp lims p s"
    with Cons.prems have "length (ps_claims (plan_round cmp lims ps (claim_next cmp p s))) = length (ps_claims s)" by simp
    with plan_round_claims [of "claim_next cmp p s" cmp lims ps] show False by (simp add: claim_next_def Let_def)
  qed
  with Cons show ?case by simp
qed simp

section \<open>The rounds end\<close>

text \<open>A round that claims something takes a free slot, so there are at most as many rounds as free slots, and one more.\<close>

abbreviation "claimed_more cmp lims order s \<equiv> length (ps_claims s) < length (ps_claims (plan_round cmp lims order s))"

definition rounds_left :: "queue_limits \<Rightarrow> bool \<Rightarrow> plan_state \<Rightarrow> nat" where
  "rounds_left lims progress s = nat (ql_global lims - ps_running s) + (if progress then 1 else 0)"

lemma rounds_left_less:
  "progress \<Longrightarrow> ps_running s < ql_global lims
     \<Longrightarrow> rounds_left lims (claimed_more cmp lims order s) (plan_round cmp lims order s) < rounds_left lims progress s"
  using plan_round_running [of cmp lims order s] plan_round_claims [of s cmp lims order] by (auto simp: rounds_left_def)

lemma plan_rounds_step:
  "plan_rounds cmp lims order progress s =
     (if progress \<and> ps_running s < ql_global lims
      then plan_rounds cmp lims order (claimed_more cmp lims order s) (plan_round cmp lims order s) else Some s)"
  by (subst plan_rounds.simps) (simp add: Let_def)

lemma plan_rounds_end: "\<exists>s'. plan_rounds cmp lims order progress s = Some s'"
proof (induction "rounds_left lims progress s" arbitrary: progress s rule: less_induct)
  case less
  then show ?case
    using rounds_left_less [of progress s lims cmp order] by (subst plan_rounds_step) auto
qed

lemma plan_rounds_rule:
  assumes "plan_rounds cmp lims order progress s = Some s'" "P progress s"
    and "\<And>progress s. P progress s \<Longrightarrow> progress \<Longrightarrow> ps_running s < ql_global lims
      \<Longrightarrow> P (claimed_more cmp lims order s) (plan_round cmp lims order s)"
  shows "\<exists>progress'. P progress' s' \<and> \<not> (progress' \<and> ps_running s' < ql_global lims)"
  using assms(1,2)
proof (induction "rounds_left lims progress s" arbitrary: progress s rule: less_induct)
  case less
  show ?case
  proof (cases "progress \<and> ps_running s < ql_global lims")
    case True
    with less.prems(1) have "plan_rounds cmp lims order (claimed_more cmp lims order s) (plan_round cmp lims order s) = Some s'"
      by (subst (asm) plan_rounds_step) simp
    with less.hyps rounds_left_less assms(3) True less.prems(2) show ?thesis by blast
  next
    case False
    with less.prems show ?thesis by (subst (asm) plan_rounds_step) auto
  qed
qed

lemma plan_rounds_invariant:
  assumes "plan_rounds cmp lims order progress s = Some s'" "P s"
    and "\<And>s. P s \<Longrightarrow> ps_running s < ql_global lims \<Longrightarrow> P (plan_round cmp lims order s)"
  shows "P s'"
  using plan_rounds_rule [OF assms(1), of "\<lambda>_. P"] assms(2,3) by blast

lemma plan_rounds_full:
  assumes "plan_rounds cmp lims order True s = Some s'"
  shows "ql_global lims \<le> ps_running s' \<or> (\<forall>p \<in> set order. \<not> can_claim cmp lims p s')"
proof -
  have "\<exists>progress'. (progress' \<or> (\<forall>p \<in> set order. \<not> can_claim cmp lims p s')) \<and> \<not> (progress' \<and> ps_running s' < ql_global lims)"
    using assms
  proof (rule plan_rounds_rule)
    fix progress and s :: plan_state assume "progress" "ps_running s < ql_global lims"
    then show "claimed_more cmp lims order s \<or> (\<forall>p \<in> set order. \<not> can_claim cmp lims p (plan_round cmp lims order s))"
      using plan_round_idle [of cmp lims order s] plan_round_claims [of s cmp lims order] by fastforce
  qed simp
  then show ?thesis by auto
qed

section \<open>The least recently served project first\<close>

text \<open>A project with a free run and a Ready task when the pass begins.\<close>

definition eligible :: "collation \<Rightarrow> queue_limits \<Rightarrow> plan_state \<Rightarrow> ready_project \<Rightarrow> bool" where
  "eligible cmp lims s0 p \<longleftrightarrow> ps_used s0 (rp_id p) < ql_perProject lims \<and> ready_line cmp p \<noteq> []"

definition offered :: "collation \<Rightarrow> queue_limits \<Rightarrow> plan_state \<Rightarrow> plan_state \<Rightarrow> ready_project \<Rightarrow> bool" where
  "offered cmp lims s0 s p \<longleftrightarrow> \<not> eligible cmp lims s0 p \<or> 0 < ps_taken s (rp_id p)"

text \<open>Whoever comes before a project that was claimed for was offered a claim too.\<close>

definition in_turn :: "collation \<Rightarrow> queue_limits \<Rightarrow> ready_project list \<Rightarrow> plan_state \<Rightarrow> plan_state \<Rightarrow> bool" where
  "in_turn cmp lims order s0 s \<longleftrightarrow>
     (\<forall>i j. i < j \<longrightarrow> j < length order \<longrightarrow> 0 < ps_taken s (rp_id (order ! j)) \<longrightarrow> offered cmp lims s0 s (order ! i))"

lemma taken_claim_next: "ps_taken (claim_next cmp p s) i = (if i = rp_id p then ps_taken s i + 1 else ps_taken s i)"
  by (simp add: claim_next_def Let_def)

lemma offered_mono: "offered cmp lims s0 s q \<Longrightarrow> offered cmp lims s0 (claim_next cmp p s) q"
  by (auto simp: offered_def taken_claim_next)

lemma in_turn_round:
  assumes "distinct (map rp_id (pre @ ps))" "plan_ok cmp lims (pre @ ps) s0 s" "in_turn cmp lims (pre @ ps) s0 s"
    and "\<forall>p \<in> set pre. offered cmp lims s0 s p"
    and "\<And>p. p \<in> set (pre @ ps) \<Longrightarrow> ps_taken s0 (rp_id p) = 0"
  shows "in_turn cmp lims (pre @ ps) s0 (plan_round cmp lims ps s)"
  using assms
proof (induction ps arbitrary: pre s)
  case (Cons p ps)
  show ?case
  proof (cases "ql_global lims \<le> ps_running s")
    case True
    with Cons.prems(3) show ?thesis by simp
  next
    case False
    let ?s = "if can_claim cmp lims p s then claim_next cmp p s else s"
    have ok: "plan_ok cmp lims ((pre @ [p]) @ ps) s0 ?s"
      using Cons.prems(1,2) False by (simp add: plan_ok_claim)
    have here: "offered cmp lims s0 ?s p"
      using Cons.prems(2) by (auto simp: offered_def eligible_def can_claim_def taken_claim_next plan_ok_def)
    have before: "\<forall>q \<in> set (pre @ [p]). offered cmp lims s0 ?s q"
      using Cons.prems(4) here offered_mono by (auto split: if_splits)
    have "in_turn cmp lims (pre @ p # ps) s0 ?s"
      unfolding in_turn_def
    proof (intro allI impI)
      fix i j assume ij: "i < j" "j < length (pre @ p # ps)" "0 < ps_taken ?s (rp_id ((pre @ p # ps) ! j))"
      show "offered cmp lims s0 ?s ((pre @ p # ps) ! i)"
      proof (cases "i \<le> length pre")
        case True
        then have "(pre @ p # ps) ! i \<in> set (pre @ [p])" by (auto simp: nth_append)
        with before show ?thesis by blast
      next
        case late: False
        have "(pre @ p # ps) ! j \<noteq> p"
          using ij(1,2) late Cons.prems(1) by (auto simp: nth_append nth_Cons' distinct_map)
        moreover have "(pre @ p # ps) ! j \<in> set (pre @ p # ps)" using ij(2) by (rule nth_mem)
        ultimately have "rp_id ((pre @ p # ps) ! j) \<noteq> rp_id p"
          using same_id_same_project [OF Cons.prems(1), of "(pre @ p # ps) ! j" p] by auto
        with ij(3) have "0 < ps_taken s (rp_id ((pre @ p # ps) ! j))" by (auto simp: taken_claim_next split: if_splits)
        with Cons.prems(3) ij(1,2) have "offered cmp lims s0 s ((pre @ p # ps) ! i)" by (simp add: in_turn_def)
        then show ?thesis by (simp add: offered_mono)
      qed
    qed
    then show ?thesis using Cons.IH [of "pre @ [p]" ?s] Cons.prems(1,5) ok before False by simp
  qed
qed simp

section \<open>A whole pass\<close>

lemma set_serving_order: "set (serving_order cmp allPaused projects) = {p \<in> set projects. open_project allPaused p}"
  by (auto simp: serving_order_def)

lemma running_of_member: "distinct (map rp_id projects) \<Longrightarrow> p \<in> set projects \<Longrightarrow> running_of projects (rp_id p) = rp_running p"
proof -
  assume d: "distinct (map rp_id projects)" and p: "p \<in> set projects"
  have "find (\<lambda>q. rp_id q = rp_id p) (rev projects) = Some p"
    using d p by (induction projects rule: rev_induct) (auto simp: image_iff)
  then show ?thesis by (simp add: running_of_def)
qed

lemma plan_readyQueue_returns: "\<exists>s. plan_readyQueue cmp allPaused lims projects = Some s"
  by (simp add: plan_readyQueue_def plan_rounds_end)

lemma plan_readyQueue_ok:
  assumes run: "plan_readyQueue cmp allPaused lims projects = Some s" and ids: "distinct (map rp_id projects)"
  shows "plan_ok cmp lims (serving_order cmp allPaused projects) (plan_start projects) s"
    and "in_turn cmp lims (serving_order cmp allPaused projects) (plan_start projects) s"
proof -
  let ?order = "serving_order cmp allPaused projects" and ?s0 = "plan_start projects"
  have d: "distinct (map rp_id ?order)" using ids by (simp add: serving_order_def distinct_map_sort_by distinct_map_filter)
  have "plan_ok cmp lims ?order ?s0 s \<and> in_turn cmp lims ?order ?s0 s"
    using run unfolding plan_readyQueue_def
  proof (rule plan_rounds_invariant)
    show "plan_ok cmp lims ?order ?s0 ?s0 \<and> in_turn cmp lims ?order ?s0 ?s0"
      by (auto simp: plan_ok_def in_turn_def plan_start_def claims_of_def)
    fix s assume s: "plan_ok cmp lims ?order ?s0 s \<and> in_turn cmp lims ?order ?s0 s"
    have "plan_ok cmp lims ?order ?s0 (plan_round cmp lims ?order s)"
      using s d by (intro plan_ok_round) auto
    moreover have "in_turn cmp lims ([] @ ?order) ?s0 (plan_round cmp lims ?order s)"
      using s d by (intro in_turn_round) (auto simp: plan_start_def)
    ultimately show "plan_ok cmp lims ?order ?s0 (plan_round cmp lims ?order s) \<and> in_turn cmp lims ?order ?s0 (plan_round cmp lims ?order s)"
      by simp
  qed
  then show "plan_ok cmp lims ?order ?s0 s" "in_turn cmp lims ?order ?s0 s" by auto
qed

lemma claims_start: "0 < ps_taken s (rp_id p) \<longleftrightarrow> claims_of s (rp_id p) \<noteq> []"
  if "plan_ok cmp lims order s0 s" "p \<in> set order"
  using that by (auto simp: plan_ok_def)

text \<open>A project served less recently, with a free run and a Ready task, is claimed for before another is.\<close>

lemma served_in_turn:
  assumes cmp: "comparator cmp" and run: "plan_readyQueue cmp allPaused lims projects = Some s" and ids: "distinct (map rp_id projects)"
    and p: "p \<in> set projects" "claims_of s (rp_id p) \<noteq> []"
    and q: "q \<in> set projects" "open_project allPaused q" "rp_running q < ql_perProject lims" "ready_line cmp q \<noteq> []"
    and before: "project_order cmp q p < 0"
  shows "claims_of s (rp_id q) \<noteq> []"
proof -
  let ?order = "serving_order cmp allPaused projects" and ?s0 = "plan_start projects"
  note by_order = comparator_project_order [OF cmp]
  note ok = plan_readyQueue_ok [OF run ids]
  have "p \<in> set ?order"
  proof -
    obtain c where "c \<in> set (ps_claims s)" "pc_projectId c = rp_id p"
      using p(2) by (auto simp: claims_of_def filter_empty_conv)
    with ok(1) obtain r where "r \<in> set ?order" "rp_id r = rp_id p" by (fastforce simp: plan_ok_def)
    with same_id_same_project [OF ids _ p(1)] set_serving_order show ?thesis by fastforce
  qed
  then obtain j where j: "j < length ?order" "?order ! j = p" by (auto simp: in_set_conv_nth)
  have qo: "q \<in> set ?order" using q by (simp add: set_serving_order)
  then obtain i where i: "i < length ?order" "?order ! i = q" by (auto simp: in_set_conv_nth)
  have "i < j"
  proof (rule ccontr)
    assume "\<not> i < j"
    moreover have "i \<noteq> j" using i(2) j(2) before comparator.same [OF by_order] by auto
    ultimately have "project_order cmp p q \<le> 0"
      using comparator.sorted_sort_by [OF by_order, of "filter (open_project allPaused) projects"] i j
      by (auto simp: serving_order_def sorted_wrt_iff_nth_less)
    with before comparator.not_after [OF by_order, of q p] show False by simp
  qed
  with ok(2) i j claims_start [OF ok(1) \<open>p \<in> set ?order\<close>] p(2) have "offered cmp lims ?s0 s q" by (auto simp: in_turn_def)
  moreover have "eligible cmp lims ?s0 q"
    using q ids by (simp add: eligible_def plan_start_def running_of_member)
  ultimately show ?thesis using claims_start [OF ok(1) qo] by (simp add: offered_def)
qed

lemma pass_uses_free_slots:
  assumes run: "plan_readyQueue cmp allPaused lims projects = Some s" and ids: "distinct (map rp_id projects)"
    and free: "ps_running s < ql_global lims" and p: "p \<in> set projects" "open_project allPaused p"
  shows "ql_perProject lims \<le> rp_running p + int (length (claims_of s (rp_id p)))
     \<or> length (claims_of s (rp_id p)) = length (ready_line cmp p)"
proof -
  let ?order = "serving_order cmp allPaused projects"
  have po: "p \<in> set ?order" using p by (simp add: set_serving_order)
  with plan_rounds_full [OF run [unfolded plan_readyQueue_def]] free have "\<not> can_claim cmp lims p s" by auto
  with plan_readyQueue_ok(1) [OF run ids] po ids p(1) show ?thesis
    by (auto simp: can_claim_def plan_ok_def plan_start_def running_of_member)
qed

lemma pass_keeps_limits:
  assumes run: "plan_readyQueue cmp allPaused lims projects = Some s" and ids: "distinct (map rp_id projects)"
  shows "ps_running s = sum_list (map rp_running projects) + int (length (ps_claims s))"
    and "ps_claims s \<noteq> [] \<Longrightarrow> ps_running s \<le> ql_global lims"
    and "p \<in> set projects \<Longrightarrow> claims_of s (rp_id p) \<noteq> [] \<Longrightarrow> open_project allPaused p
      \<and> rp_running p + int (length (claims_of s (rp_id p))) \<le> ql_perProject lims
      \<and> claims_of s (rp_id p) = map (claim_of (rp_id p)) (take (length (claims_of s (rp_id p))) (ready_line cmp p))"
proof -
  note ok = plan_readyQueue_ok(1) [OF run ids]
  show "ps_running s = sum_list (map rp_running projects) + int (length (ps_claims s))"
    "ps_claims s \<noteq> [] \<Longrightarrow> ps_running s \<le> ql_global lims"
    using ok by (simp_all add: plan_ok_def plan_start_def)
  assume p: "p \<in> set projects" "claims_of s (rp_id p) \<noteq> []"
  then obtain c where "c \<in> set (ps_claims s)" "pc_projectId c = rp_id p" by (auto simp: claims_of_def filter_empty_conv)
  with ok obtain r where r: "r \<in> set (serving_order cmp allPaused projects)" "rp_id r = rp_id p" by (fastforce simp: plan_ok_def)
  with same_id_same_project [OF ids _ p(1), of r] have "r = p" by (simp add: set_serving_order)
  with r ok p ids show "open_project allPaused p
      \<and> rp_running p + int (length (claims_of s (rp_id p))) \<le> ql_perProject lims
      \<and> claims_of s (rp_id p) = map (claim_of (rp_id p)) (take (length (claims_of s (rp_id p))) (ready_line cmp p))"
    by (auto simp: plan_ok_def plan_start_def running_of_member set_serving_order min_def)
qed

section \<open>No project waits forever\<close>

text \<open>A project that waits: its queue is on, it has a free run and a Ready task, and a slot is free when the pass begins.\<close>

definition awaits :: "collation \<Rightarrow> queue_limits \<Rightarrow> string \<Rightarrow> ready_project list \<Rightarrow> bool" where
  "awaits cmp lims i projects \<longleftrightarrow> sum_list (map rp_running projects) < ql_global lims
     \<and> (\<exists>p \<in> set projects. rp_id p = i \<and> open_project None p \<and> rp_running p < ql_perProject lims \<and> ready_line cmp p \<noteq> [])"

text \<open>Between one pass and the next: the same projects, and a project's latest claim moves to the end when it was claimed for.\<close>

definition next_pass :: "collation \<Rightarrow> ready_project list \<Rightarrow> plan_state \<Rightarrow> ready_project list \<Rightarrow> bool" where
  "next_pass cmp projects s later \<longleftrightarrow> rp_id ` set later = rp_id ` set projects
     \<and> (\<forall>p \<in> set projects. \<forall>p' \<in> set later. rp_id p' = rp_id p \<longrightarrow>
          (if claims_of s (rp_id p) \<noteq> [] then \<forall>q \<in> set projects. cmp (last_claim q) (last_claim p') < 0
           else last_claim p' = last_claim p))"

lemma next_pass_rows:
  assumes "next_pass cmp projects s later" "p \<in> set projects" "p' \<in> set later" "rp_id p' = rp_id p"
  shows "claims_of s (rp_id p) \<noteq> [] \<Longrightarrow> q \<in> set projects \<Longrightarrow> cmp (last_claim q) (last_claim p') < 0"
    and "claims_of s (rp_id p) = [] \<Longrightarrow> last_claim p' = last_claim p"
proof -
  have "if claims_of s (rp_id p) \<noteq> [] then \<forall>q \<in> set projects. cmp (last_claim q) (last_claim p') < 0 else last_claim p' = last_claim p"
    using assms unfolding next_pass_def by blast
  then show "claims_of s (rp_id p) \<noteq> [] \<Longrightarrow> q \<in> set projects \<Longrightarrow> cmp (last_claim q) (last_claim p') < 0"
    "claims_of s (rp_id p) = [] \<Longrightarrow> last_claim p' = last_claim p" by simp_all
qed

definition ahead :: "collation \<Rightarrow> string \<Rightarrow> ready_project list \<Rightarrow> string set" where
  "ahead cmp i projects = {rp_id q | q p. q \<in> set projects \<and> p \<in> set projects \<and> rp_id p = i \<and> rp_id q \<noteq> i \<and> project_order cmp q p \<le> 0}"

lemma first_claim:
  assumes "awaits cmp lims i projects" "plan_readyQueue cmp None lims projects = Some s" "distinct (map rp_id projects)"
  shows "ps_claims s \<noteq> []"
proof
  assume none: "ps_claims s = []"
  from assms(1) obtain p where p: "p \<in> set projects" "open_project None p" "rp_running p < ql_perProject lims" "ready_line cmp p \<noteq> []"
    by (auto simp: awaits_def)
  have "ps_running s < ql_global lims"
    using pass_keeps_limits(1) [OF assms(2,3)] none assms(1) by (simp add: awaits_def)
  from pass_uses_free_slots [OF assms(2,3) this p(1,2)] p(3,4) none show False by (simp add: claims_of_def)
qed

text \<open>Each pass that does not claim for a waiting project claims for one ahead of it, which then is behind it.\<close>

lemma claimed_ahead:
  assumes cmp: "comparator cmp" and waits: "awaits cmp lims i projects" and run: "plan_readyQueue cmp None lims projects = Some s"
    and ids: "distinct (map rp_id projects)" and not: "claims_of s i = []"
  shows "\<exists>j \<in> ahead cmp i projects. claims_of s j \<noteq> []"
proof -
  note behind_iff = comparator.not_after [OF comparator_project_order [OF cmp]]
  from waits obtain p where p: "p \<in> set projects" "rp_id p = i" "open_project None p" "rp_running p < ql_perProject lims"
    "ready_line cmp p \<noteq> []" by (auto simp: awaits_def)
  from first_claim [OF waits run ids] obtain c where c: "c \<in> set (ps_claims s)" by (cases "ps_claims s") auto
  with plan_readyQueue_ok(1) [OF run ids] obtain q where q: "q \<in> set projects" "rp_id q = pc_projectId c"
    by (force simp: plan_ok_def set_serving_order)
  with c have claimed: "claims_of s (rp_id q) \<noteq> []" by (auto simp: claims_of_def filter_empty_conv)
  have "\<not> project_order cmp p q < 0"
    using served_in_turn [OF cmp run ids q(1) claimed p(1,3,4,5)] not p(2) by auto
  then have "project_order cmp q p \<le> 0" by (rule behind_iff [THEN iffD1])
  moreover have "rp_id q \<noteq> i" using claimed not by auto
  ultimately have "rp_id q \<in> ahead cmp i projects"
    unfolding ahead_def using q(1) p(1,2) by (intro CollectI exI [of _ q] exI [of _ p]) simp
  with claimed show ?thesis by blast
qed

lemma ahead_shrinks:
  assumes cmp: "comparator cmp" and waits: "awaits cmp lims i projects" and run: "plan_readyQueue cmp None lims projects = Some s"
    and ids: "distinct (map rp_id projects)" and later: "next_pass cmp projects s later" and not: "claims_of s i = []"
  shows "ahead cmp i later \<subset> ahead cmp i projects"
proof -
  note behind_iff = comparator.not_after [OF comparator_project_order [OF cmp]]
  from waits obtain p where p: "p \<in> set projects" "rp_id p = i" by (auto simp: awaits_def)
  have unmoved: "last_claim p' = last_claim p" if "p' \<in> set later" "rp_id p' = i" for p'
    using next_pass_rows(2) [OF later p(1) that(1)] that(2) p(2) not by simp
  have behind: "project_order cmp p' q' < 0"
    if "p' \<in> set later" "rp_id p' = i" "q \<in> set projects" "q' \<in> set later" "rp_id q' = rp_id q" "claims_of s (rp_id q) \<noteq> []" for p' q q'
  proof -
    have "cmp (last_claim p) (last_claim q') < 0" using next_pass_rows(1) [OF later that(3-6) p(1)] .
    then show ?thesis using unmoved [OF that(1,2)] by (simp add: project_order_def or_else_def)
  qed
  have sub: "j \<in> ahead cmp i projects \<and> claims_of s j = []" if j: "j \<in> ahead cmp i later" for j
  proof -
    from j obtain q' p' where q': "q' \<in> set later" "rp_id q' = j" "j \<noteq> i" and p': "p' \<in> set later" "rp_id p' = i"
      and le: "project_order cmp q' p' \<le> 0" by (auto simp: ahead_def)
    from q' later obtain q where q: "q \<in> set projects" "rp_id q = j" by (metis imageE imageI next_pass_def)
    have unclaimed: "claims_of s j = []"
    proof (rule ccontr)
      assume "claims_of s j \<noteq> []"
      with behind [OF p' q(1) q'(1)] q(2) q'(2) have "project_order cmp p' q' < 0" by simp
      with behind_iff [THEN iffD2, OF le] show False by blast
    qed
    then have "last_claim q' = last_claim q" using next_pass_rows(2) [OF later q(1) q'(1)] q(2) q'(2) by simp
    with le unmoved [OF p'] q(2) q'(2) p(2) p'(2) have "project_order cmp q p \<le> 0" by (simp add: project_order_def)
    then have "j \<in> ahead cmp i projects"
      unfolding ahead_def using q p q'(3) by (intro CollectI exI [of _ q] exI [of _ p]) simp
    with unclaimed show ?thesis by blast
  qed
  with claimed_ahead [OF cmp waits run ids not] show ?thesis by blast
qed

lemma finite_ahead: "finite (ahead cmp i projects)"
  by (rule finite_subset [of _ "rp_id ` set projects"]) (auto simp: ahead_def)

lemma card_ahead: "card (ahead cmp i projects) < card (rp_id ` set projects)" if "p \<in> set projects" "rp_id p = i"
proof (rule psubset_card_mono)
  have "i \<notin> ahead cmp i projects" "ahead cmp i projects \<subseteq> rp_id ` set projects" by (auto simp: ahead_def)
  with that show "ahead cmp i projects \<subset> rp_id ` set projects" by blast
qed simp

text \<open>So a project that keeps waiting is served within as many passes as there are projects.\<close>

lemma served_within:
  assumes cmp: "comparator cmp"
    and passes: "\<And>n. n < N \<Longrightarrow> distinct (map rp_id (projects n)) \<and> plan_readyQueue cmp None lims (projects n) = Some (s n)
      \<and> awaits cmp lims i (projects n)"
    and later: "\<And>n. Suc n < N \<Longrightarrow> next_pass cmp (projects n) (s n) (projects (Suc n))"
    and N: "N = card (rp_id ` set (projects 0))" "0 < N"
  shows "\<exists>n < N. claims_of (s n) i \<noteq> []"
proof (rule ccontr)
  assume "\<not> ?thesis"
  then have not: "n < N \<Longrightarrow> claims_of (s n) i = []" for n by auto
  have "n < N \<Longrightarrow> card (ahead cmp i (projects n)) + n < N" for n
  proof (induction n)
    case 0
    from passes [OF N(2)] obtain p where "p \<in> set (projects 0)" "rp_id p = i" by (auto simp: awaits_def)
    with card_ahead N(1) show ?case by simp
  next
    case (Suc n)
    then have n: "n < N" by simp
    have "ahead cmp i (projects (Suc n)) \<subset> ahead cmp i (projects n)"
      using passes [OF n] by (intro ahead_shrinks [OF cmp _ _ _ later [OF Suc.prems] not [OF n]]) auto
    then have "card (ahead cmp i (projects (Suc n))) < card (ahead cmp i (projects n))"
      by (rule psubset_card_mono [OF finite_ahead])
    with Suc.IH [OF n] show ?case by simp
  qed
  from this [of "N - 1"] N(2) have "card (ahead cmp i (projects (N - 1))) = 0" by simp
  moreover have "ahead cmp i (projects (N - 1)) \<noteq> {}"
    using claimed_ahead [OF cmp _ _ _ not [of "N - 1"]] passes [of "N - 1"] N(2) by fastforce
  ultimately show False using finite_ahead by simp
qed

end
