(* ===== verification/Board_Moves.thy ===== *)
theory Board_Moves
  imports Prelude
begin

text \<open>
  What a move of a card on the Board asks for, \<open>shared/board-moves.ts\<close>: a command, a refusal in words, or nothing. The
  labels and the sentences a person confirms are carried; the ellipses of the pending labels are three dots.
\<close>

datatype board_column = InboxColumn | ReadyColumn | QueuedColumn | WorkingColumn | ReviewColumn | BlockedColumn | DoneColumn

definition board_columns :: "board_column list" where
  "board_columns = [InboxColumn, ReadyColumn, QueuedColumn, WorkingColumn, ReviewColumn, BlockedColumn, DoneColumn]"

datatype board_command = StartCommand | StopCommand | ReopenCommand | DoneCommand | AcceptCommand

record board_move_facts =
  bf_from :: board_column
  bf_active :: bool
  bf_slotBusy :: bool
  bf_openNeed :: bool
  bf_changesWaiting :: bool
  bf_failed :: bool
  bf_autoStart :: bool

datatype board_move = NoMove | MoveCommand board_command string string "string option" | MoveRefused string

definition start_move :: "string \<Rightarrow> board_move" where
  "start_move label = MoveCommand StartCommand label ''Starting...'' None"

definition review_by_hand :: string where
  "review_by_hand = ''A run moves to Review when it has something for you to decide. Moving the card does not finish the run.''"

definition blocked_by_hand :: string where
  "blocked_by_hand = ''A card moves to Blocked when its run needs an answer or a route. It cannot be moved there by hand.''"

definition one_slot :: string where
  "one_slot = ''One run at a time in this version. Another task is running.''"

definition unsettled :: "board_move_facts \<Rightarrow> string option" where
  "unsettled facts =
     (if bf_openNeed facts then Some ''Answer the open decision first.''
      else if bf_changesWaiting facts then Some ''Keep or undo the waiting changes first.''
      else None)"

definition reopen_sentence :: "board_move_facts \<Rightarrow> string option" where
  "reopen_sentence facts = (if bf_autoStart facts then Some ''Put this task back in Ready? Automatic start is on here, so it may start again on its own. Its earlier runs and results stay in its record.'' else None)"

definition or_sentence :: "string option \<Rightarrow> string \<Rightarrow> string" where
  "or_sentence s fallback = (case s of None \<Rightarrow> fallback | Some t \<Rightarrow> t)"

text \<open>Queued and Working are one target: a card dropped on either asks for a start.\<close>

definition move_to_work :: "board_move_facts \<Rightarrow> board_move" where
  "move_to_work facts =
     (let from = bf_from facts in
      if from = QueuedColumn \<or> from = WorkingColumn
      then MoveRefused ''It is already admitted. It shows Working once its run has started.''
      else if bf_active facts then MoveRefused ''It has a run waiting on you. Open it to see what it needs.''
      else if from = ReadyColumn then (if bf_slotBusy facts then MoveRefused one_slot else start_move ''Start'')
      else if from = BlockedColumn \<and> bf_failed facts then (if bf_slotBusy facts then MoveRefused one_slot else start_move ''Start again'')
      else if from = ReviewColumn then MoveRefused (or_sentence (unsettled facts) ''Review what it made first.'')
      else if from = DoneColumn then MoveRefused ''Move it back to Ready first, then start it.''
      else MoveRefused ''Move it to Ready first, then start it.'')"

definition move_to_ready :: "board_move_facts \<Rightarrow> board_move" where
  "move_to_ready facts =
     (if bf_active facts then
        (if bf_from facts = ReviewColumn
         then MoveRefused (or_sentence (unsettled facts) ''Review what it made first.'' @ '' Stop is on the card if you want to end the run.'')
         else MoveCommand StopCommand ''Stop'' ''Stopping...''
           (Some ''Stop this run? The task goes back to Ready and waits for you. Nothing starts in its place.''))
      else case unsettled facts of Some held \<Rightarrow> MoveRefused held
      | None \<Rightarrow> MoveCommand ReopenCommand (if bf_from facts = DoneColumn then ''Reopen'' else ''Move to Ready'') ''Moving...''
          (reopen_sentence facts))"

definition move_to_done :: "board_move_facts \<Rightarrow> board_move" where
  "move_to_done facts =
     (if bf_active facts then MoveRefused ''Stop the run first, or let it finish.''
      else case unsettled facts of Some held \<Rightarrow> MoveRefused held
      | None \<Rightarrow> MoveCommand DoneCommand ''Mark done'' ''Marking done...''
          (Some ''Mark this task done? This records that you finished it; it does not run any check.''))"

definition board_move_for :: "board_column \<Rightarrow> board_move_facts \<Rightarrow> board_move" where
  "board_move_for to facts =
     (let from = bf_from facts in
      if to = from then NoMove
      else if to = InboxColumn then MoveRefused ''Inbox holds proposed tasks until you accept them.''
      else if from = InboxColumn then
        (if to = ReadyColumn
         then MoveCommand AcceptCommand ''Accept task'' ''Accepting...'' (if bf_autoStart facts
           then Some ''Accept this task? Automatic start is on, so it may start within its granted scope.'' else None)
         else MoveRefused ''Accept this task into Ready first.'')
      else if to = ReviewColumn then MoveRefused review_by_hand
      else if to = BlockedColumn then MoveRefused blocked_by_hand
      else if to = QueuedColumn \<or> to = WorkingColumn then move_to_work facts
      else if to = ReadyColumn then move_to_ready facts
      else move_to_done facts)"

definition board_move_menu :: "board_move_facts \<Rightarrow> (board_column \<times> board_move) list" where
  "board_move_menu facts = map (\<lambda>to. (to, board_move_for to facts))
     (filter (\<lambda>column. column \<noteq> bf_from facts \<and> column \<noteq> QueuedColumn) board_columns)"

section \<open>What a move may ask for\<close>

fun asks_for :: "board_move \<Rightarrow> board_command option" where
  "asks_for (MoveCommand c _ _ _) = Some c"
| "asks_for _ = None"

lemma board_columns_all [simp]: "set board_columns = UNIV"
  by (auto simp: board_columns_def intro: board_column.exhaust)

lemma move_commands:
  assumes "asks_for (board_move_for to facts) = Some c"
  shows "c = StartCommand \<Longrightarrow> (to = QueuedColumn \<or> to = WorkingColumn) \<and> \<not> bf_active facts \<and> \<not> bf_slotBusy facts
      \<and> (bf_from facts = ReadyColumn \<or> bf_from facts = BlockedColumn \<and> bf_failed facts)"
    and "c = StopCommand \<Longrightarrow> to = ReadyColumn \<and> bf_active facts \<and> bf_from facts \<notin> {InboxColumn, ReviewColumn}"
    and "c = ReopenCommand \<Longrightarrow> to = ReadyColumn \<and> \<not> bf_active facts \<and> unsettled facts = None \<and> bf_from facts \<noteq> InboxColumn"
    and "c = DoneCommand \<Longrightarrow> to = DoneColumn \<and> \<not> bf_active facts \<and> unsettled facts = None \<and> bf_from facts \<noteq> InboxColumn"
    and "c = AcceptCommand \<Longrightarrow> bf_from facts = InboxColumn \<and> to = ReadyColumn"
  using assms
  by (cases to; auto simp: board_move_for_def move_to_work_def move_to_ready_def move_to_done_def start_move_def Let_def
      split: if_splits option.splits)+

end
