(* ===== verification/Board_Samples.thy ===== *)
theory Board_Samples
  imports Workflow_Guarantees Ready_Fairness Board_Moves
begin

text \<open>
  One project's board as concrete calls: a task is made, asked to continue, approved and branched, and a second one waits in
  the Inbox; and two projects that share one run of the Ready queue. Evaluated, for the examples of the properties.
\<close>

section \<open>A board\<close>

definition same_digest :: "string \<Rightarrow> string" where
  "same_digest t = ''0''"

definition noon :: stamp where
  "noon = \<lparr>st_now = ''2026-03-01T12:00:00.000Z'', st_id = ''1''\<rparr>"

definition new_board :: board where
  "new_board = \<lparr>bd_projectId = ''p1'', bd_home = False, bd_packs = [], bd_tasks = [], bd_sessions = [], bd_needs = [],
     bd_changes = [], bd_scopeGrants = [], bd_controlReceipts = [], bd_conversations = [], bd_history = []\<rparr>"

definition revision_body :: "int \<Rightarrow> (string \<times> jval) list \<Rightarrow> jval" where
  "revision_body n fs = JObj ((''expectedRevision'', JInt n) # fs)"

definition branch_body :: jval where
  "branch_body = JObj [(''commandId'', JStr ''c1''), (''name'', JStr ''Totals''), (''output'', JStr ''A table''), (''maxTurns'', JInt 4)]"

definition sample_calls :: "board_call list" where
  "sample_calls =
     [MakeTask ''Report'' ''The March report'' OwnerDiomedes,
      HandOff ''T1'' (revision_body 1 [(''phase'', JStr ''build''), (''reason'', JStr ''Planned'')])]"

definition run_calls :: "board_call list \<Rightarrow> board" where
  "run_calls calls = foldl (\<lambda>b call. commit (board_step same_digest noon call b) b) new_board calls"

definition parked_board :: board where
  "parked_board = run_calls sample_calls"

definition approve_call :: board_call where
  "approve_call = ApprovePhase ''T1'' (revision_body 2 [])"

definition built_board :: board where
  "built_board = run_calls (sample_calls @ [approve_call])"

definition branched_board :: board where
  "branched_board = run_calls (sample_calls @ [approve_call, Branch ''T1'' branch_body])"

lemma run_calls_worked: "worked same_digest (run_calls calls)"
proof (induction calls rule: rev_induct)
  case Nil
  then show ?case by (simp add: run_calls_def new_board_def worked.fresh)
next
  case (snoc call calls)
  then show ?case using worked.step [OF snoc, of noon call] by (simp add: run_calls_def)
qed

lemma sample_worked [simp]:
  "worked same_digest parked_board" "worked same_digest built_board" "worked same_digest branched_board"
  by (simp_all add: parked_board_def built_board_def branched_board_def run_calls_worked)

declare depth_loop.simps [code] plan_rounds.simps [code]

definition report_task :: "workflow \<Rightarrow> task" where
  "report_task w = \<lparr>tk_id = ''T1'', tk_name = ''Report'', tk_description = ''The March report'', tk_sourceDocument = None,
     tk_owner = OwnerDiomedes, tk_state = Todo, tk_creationReceipt = None, tk_workflow = Some w, tk_ownedAssignment = None,
     tk_origin = None, tk_createdBy = OwnerYou, tk_createdAt = ''2026-03-01T12:00:00.000Z'', tk_assignedTo = None,
     tk_deletedAt = None, tk_moves = []\<rparr>"

definition parked_workflow :: workflow where
  "parked_workflow = park BuildPhase ''Planned'' empty_taskWorkflow"

definition built_workflow :: workflow where
  "built_workflow = advance ''2026-03-01T12:00:00.000Z'' OwnerYou BuildPhase ''Planned'' parked_workflow"

definition totals_workflow :: workflow where
  "totals_workflow = empty_taskWorkflow\<lparr>wf_inbox := True, wf_parentTaskId := Some ''T1'', wf_output := Some ''A table'', wf_maxTurns := 4\<rparr>"

definition totals_task :: task where
  "totals_task = \<lparr>tk_id = ''T2'', tk_name = ''Totals'', tk_description = '''', tk_sourceDocument = None, tk_owner = OwnerYou,
     tk_state = Todo, tk_creationReceipt = Some \<lparr>cr_commandId = ''c1'', cr_payloadDigest = ''sha256:0'', cr_projectId = ''p1'',
       cr_taskId = ''T2'', cr_eventId = ''E1'', cr_admittedAt = ''2026-03-01T12:00:00.000Z''\<rparr>,
     tk_workflow = Some totals_workflow, tk_ownedAssignment = None, tk_origin = None, tk_createdBy = OwnerYou,
     tk_createdAt = ''2026-03-01T12:00:00.000Z'', tk_assignedTo = None, tk_deletedAt = None, tk_moves = []\<rparr>"

lemma parked_tasks [simp]: "bd_tasks parked_board = [report_task parked_workflow]"
  by code_simp

lemma built_tasks [simp]: "bd_tasks built_board = [report_task built_workflow]"
  by code_simp

lemma branched_tasks [simp]: "bd_tasks branched_board = [report_task built_workflow, totals_task]"
  by code_simp

lemma sample_approval: "board_step same_digest noon approve_call parked_board = Inr built_board"
  by code_simp

lemma sample_branch: "branch_child same_digest noon branch_body ''T1'' built_board = Inr (totals_task, branched_board)"
  by code_simp

lemma sample_rows [simp]:
  "tk_id (report_task w) = ''T1''" "workflow_of (report_task w) = w" "tk_ownedAssignment (report_task w) = None"
  "parent_of (report_task w) = wf_parentTaskId w" "tk_id totals_task = ''T2''" "workflow_of totals_task = totals_workflow"
  "parent_of totals_task = Some ''T1''" "tk_ownedAssignment totals_task = None"
  by (simp_all add: report_task_def totals_task_def totals_workflow_def workflow_of_def parent_of_def)

lemma sample_depth: "task_depth (bd_tasks branched_board) totals_task = Some 1"
  by (simp add: task_depth_def depth_loop.simps [of _ "Some _"] depth_loop.simps [of _ None] built_workflow_def parked_workflow_def
      advance_def park_def empty_taskWorkflow_def)

section \<open>Two projects and one run\<close>

definition ready_row :: "string \<Rightarrow> string option \<Rightarrow> ready_project" where
  "ready_row i claimed = \<lparr>rp_id = i, rp_autoStart = True, rp_paused = None, rp_running = 0, rp_awaitingDecision = False,
     rp_lastClaimAt = claimed, rp_ready = [\<lparr>rt_taskId = ''T1'', rt_readyAt = ''2026-03-01T12:00:00.000Z'',
       rt_createdAt = ''2026-03-01T12:00:00.000Z'', rt_hold = None\<rparr>]\<rparr>"

definition one_run :: queue_limits where
  "one_run = \<lparr>ql_global = 1, ql_perProject = 1\<rparr>"

definition sample_passes :: "nat \<Rightarrow> ready_project list" where
  "sample_passes n = [ready_row ''p1'' (if n = 0 then None else Some ''2026-03-01T12:00:01.000Z''), ready_row ''p2'' None]"

definition sample_claims :: "nat \<Rightarrow> plan_state" where
  "sample_claims n = the (plan_readyQueue byte_order None one_run (sample_passes n))"

lemma sample_pass_claims:
  "ps_claims (sample_claims 0) = [\<lparr>pc_projectId = ''p1'', pc_taskId = ''T1'', pc_readyAt = ''2026-03-01T12:00:00.000Z''\<rparr>]"
  "ps_claims (sample_claims 1) = [\<lparr>pc_projectId = ''p2'', pc_taskId = ''T1'', pc_readyAt = ''2026-03-01T12:00:00.000Z''\<rparr>]"
  by code_simp+

lemma sample_pass: "plan_readyQueue byte_order None one_run (sample_passes n) = Some (sample_claims n)"
  using plan_readyQueue_returns [of byte_order None one_run "sample_passes n"] by (auto simp: sample_claims_def)

lemma sample_awaits: "awaits byte_order one_run ''p2'' (sample_passes n)"
  by (cases n) (auto simp: awaits_def sample_passes_def ready_row_def one_run_def open_project_def ready_line_def truthy_def sort_by_def)

lemma sample_next: "next_pass byte_order (sample_passes 0) (sample_claims 0) (sample_passes 1)"
  by (auto simp: next_pass_def claims_of_def sample_pass_claims sample_passes_def ready_row_def last_claim_def byte_order_def)

end
