(* ===== verification/Board_Properties.thy ===== *)
theory Board_Properties
  imports Board_Samples Sorting
begin

text \<open>
  What holds of a project's tasks, of the Ready queue and of a move on the Board. Each property is followed by an example
  that applies it to the runs of Board_Samples.
\<close>

section \<open>Levels and limits\<close>

text \<open>C20. The depth of a task is always answered, and a finite answer is exactly the number of steps up its parents; a
  cycle and a parent that is not there are deeper than every limit.\<close>

theorem depth_counts_parents:
  assumes "find (\<lambda>r. tk_id r = tk_id t) ts = Some t"
  shows "(\<exists>d. task_depth ts t = Some d) \<and> (task_depth ts t = Some (enat n) \<longleftrightarrow> levels ts t n)"
  using depth_loop_returns [of ts "parent_of t" "[tk_id t]" 0] task_depth_levels [OF assms]
  by (simp add: task_depth_def)

lemma depth_counts_parents_example:
  "task_depth (bd_tasks branched_board) totals_task = Some (enat 1) \<and> levels (bd_tasks branched_board) totals_task 1"
  using depth_counts_parents [of totals_task "bd_tasks branched_board" 1] sample_depth by (simp add: one_enat_def)

text \<open>C18. On every board that calls reach, a task is at most two levels deep, has at most four children, keeps a turn budget
  between 1 and 16, and a child's budget and approval rule are within its parent's.\<close>

theorem worked_board_keeps_limits:
  assumes "worked sha b" and "t \<in> set (bd_tasks b)"
  shows "(\<exists>n \<le> 2. task_depth (bd_tasks b) t = Some (enat n)) \<and> child_count (bd_tasks b) (tk_id t) \<le> 4
    \<and> 1 \<le> wf_maxTurns (workflow_of t) \<and> wf_maxTurns (workflow_of t) \<le> 16
    \<and> (\<forall>p. p \<in> set (bd_tasks b) \<and> parent_of t = Some (tk_id p) \<longrightarrow> narrower t p)"
proof -
  have ok: "board_ok b" using assms(1) by (rule worked_ok)
  then have "find (\<lambda>r. tk_id r = tk_id t) (bd_tasks b) = Some t" using assms(2) by (simp add: board_ok_def find_unique_task)
  from task_depth_levels [OF this] ok assms(2) have "\<exists>n \<le> 2. task_depth (bd_tasks b) t = Some (enat n)"
    by (auto simp: board_ok_def family_ok_def)
  with ok assms(2) board_ok_member [OF ok assms(2)] show ?thesis
    by (auto simp: board_ok_def family_ok_def workflow_ok_def max_turns_def max_children_def)
qed

lemma worked_board_keeps_limits_example:
  "narrower totals_task (report_task built_workflow) \<and> child_count (bd_tasks branched_board) ''T2'' \<le> 4"
  using worked_board_keeps_limits [OF sample_worked(3), of totals_task]
  by (auto simp: built_workflow_def advance_def parked_workflow_def park_def empty_taskWorkflow_def)

section \<open>Phases\<close>

text \<open>C19. On every board that calls reach, the handoffs on a task's record lead one after another to the phase it is in, from
  the plan on unless a root run owns it, and only the next phase ever waits for approval.\<close>

theorem phase_is_on_record:
  assumes "worked sha b" and "t \<in> set (bd_tasks b)"
  shows "(\<exists>p. (tk_ownedAssignment t \<noteq> None \<or> p = PlanPhase) \<and> handoffs_lead p (wf_handoffs (workflow_of t)) (wf_phase (workflow_of t)))
    \<and> wf_pendingPhase (workflow_of t) \<in> {None, next_phase (wf_phase (workflow_of t))}"
  using board_ok_member [OF worked_ok [OF assms(1)] assms(2)] by (auto simp: workflow_ok_def)

lemma phase_is_on_record_example:
  "\<exists>p. p = PlanPhase \<and> handoffs_lead p (wf_handoffs built_workflow) BuildPhase"
  using phase_is_on_record [OF sample_worked(2), of "report_task built_workflow"] by (simp add: built_workflow_def advance_def)

lemma handed_off_cases:
  assumes "handed_off w p w'"
  obtains (moved) time who reason where "next_phase (wf_phase w) = Some p" "wf_continuation w = FullApproval" "w' = advance time who p reason w"
  | (parked) reason where "w' = park p reason w"
  using assms by (cases "wf_continuation w") (auto simp: handed_off_def)

text \<open>The four ways a call changes a workflow: its limits, its Inbox, its phase, or the phase that waits.\<close>

lemma workflow_edit_cases:
  assumes "workflow_edit call i w w'"
  obtains (limits) c n skill where "w' = w\<lparr>wf_continuation := c, wf_maxTurns := n, wf_skill := skill, wf_revision := wf_revision w + 1\<rparr>"
  | (accepted) body where "call = Accept i body" "w' = w\<lparr>wf_inbox := False, wf_revision := wf_revision w + 1\<rparr>"
  | (moved) time who p reason where "w' = advance time who p reason w" "next_phase (wf_phase w) = Some p \<or> wf_pendingPhase w = Some p"
      "wf_continuation w = FullApproval \<or> (\<exists>body. call = ApprovePhase i body) \<or> (\<exists>run fresh p. call = PhaseStep run fresh p \<and> rb_taskId run = Some i)"
  | (parked) p reason where "w' = park p reason w"
  using assms by (cases call) (auto elim!: handed_off_cases)

lemma change_raises_revision:
  assumes "workflow_edit call i w w'"
  shows "wf_revision w' = wf_revision w + 1"
  using assms by (cases rule: workflow_edit_cases) (simp_all add: advance_def park_def)

lemma edit_moves_phase:
  assumes "workflow_edit call i w w'" "wf_phase w' \<noteq> wf_phase w" "wf_pendingPhase w = None \<or> wf_pendingPhase w = next_phase (wf_phase w)"
  shows "next_phase (wf_phase w) = Some (wf_phase w')
    \<and> (\<exists>h. wf_handoffs w' = wf_handoffs w @ [h] \<and> ho_to h = wf_phase w')
    \<and> (wf_continuation w = FullApproval \<or> (\<exists>body. call = ApprovePhase i body)
       \<or> (\<exists>run fresh p. call = PhaseStep run fresh p \<and> rb_taskId run = Some i))"
  using assms(1)
proof (cases rule: workflow_edit_cases)
  case (moved time who p reason)
  then have "wf_phase w' = p" "\<exists>h. wf_handoffs w' = wf_handoffs w @ [h] \<and> ho_to h = p"
    by (simp_all add: advance_def handoff_record_def)
  with moved(2,3) assms(3) show ?thesis by auto
qed (use assms(2) in \<open>simp_all add: park_def\<close>)

lemma changed_row:
  assumes "worked sha b" "board_step sha st call b = Inr b'" "t \<in> set (bd_tasks b)" "t' \<in> set (bd_tasks b')" "tk_id t' = tk_id t"
    and "workflow_of t' \<noteq> workflow_of t"
  shows "workflow_edit call (tk_id t) (workflow_of t) (workflow_of t')"
proof -
  have ok: "board_ok b" "board_ok b'" using worked_ok [OF assms(1)] board_step_ok [OF assms(2)] by blast+
  from board_step_edits [OF assms(2) ok(1)] assms(3) obtain r where r: "r \<in> set (bd_tasks b')" "tk_id r = tk_id t"
    "workflow_of r = workflow_of t \<or> workflow_edit call (tk_id t) (workflow_of t) (workflow_of r)"
    by (auto simp: edited_by_def)
  have "inj_on tk_id (set (bd_tasks b'))" using ok(2) by (simp add: board_ok_def distinct_map)
  then have "r = t'" using r(1,2) assms(4,5) by (simp add: inj_on_def)
  with r(3) assms(6) show ?thesis by simp
qed

text \<open>A task's phase moves only to the next one, with the move on its record, and without Full approval only when a person
  approves what waits or an approved step of the task's own run carries it out.\<close>

theorem phase_moves_when_approved:
  assumes "worked sha b" and "board_step sha st call b = Inr b'"
    and "t \<in> set (bd_tasks b)" and "t' \<in> set (bd_tasks b')" and "tk_id t' = tk_id t"
    and "wf_phase (workflow_of t') \<noteq> wf_phase (workflow_of t)"
  shows "next_phase (wf_phase (workflow_of t)) = Some (wf_phase (workflow_of t'))
    \<and> (\<exists>h. wf_handoffs (workflow_of t') = wf_handoffs (workflow_of t) @ [h] \<and> ho_to h = wf_phase (workflow_of t'))
    \<and> (wf_continuation (workflow_of t) = FullApproval \<or> (\<exists>body. call = ApprovePhase (tk_id t) body)
       \<or> (\<exists>run fresh p. call = PhaseStep run fresh p \<and> rb_taskId run = Some (tk_id t)))"
proof -
  have "workflow_edit call (tk_id t) (workflow_of t) (workflow_of t')"
    using assms(6) by (intro changed_row [OF assms(1-5)]) auto
  moreover have "wf_pendingPhase (workflow_of t) = None \<or> wf_pendingPhase (workflow_of t) = next_phase (wf_phase (workflow_of t))"
    using board_ok_member [OF worked_ok [OF assms(1)] assms(3)] by (simp add: workflow_ok_def)
  ultimately show ?thesis using assms(6) by (intro edit_moves_phase)
qed

lemma phase_moves_when_approved_example:
  "next_phase PlanPhase = Some BuildPhase \<and> (\<exists>h. wf_handoffs built_workflow = wf_handoffs parked_workflow @ [h] \<and> ho_to h = BuildPhase)"
  using phase_moves_when_approved [OF sample_worked(1) sample_approval, of "report_task parked_workflow" "report_task built_workflow"]
  by (simp add: built_workflow_def parked_workflow_def advance_def park_def empty_taskWorkflow_def)

text \<open>Whatever changes a task's workflow raises its revision by one; a person's change is made only when it names the
  revision the task then has, so of two changes based on one revision the second is refused; and only accepting a task
  takes it out of the Inbox.\<close>

theorem change_names_current_revision:
  assumes "worked sha b" and "board_step sha st call b = Inr b'"
    and "t \<in> set (bd_tasks b)" and "t' \<in> set (bd_tasks b')" and "tk_id t' = tk_id t" and "workflow_of t' \<noteq> workflow_of t"
  shows "wf_revision (workflow_of t') = wf_revision (workflow_of t) + 1
    \<and> (\<forall>i body. call \<in> {SetWorkflow i body, Accept i body, HandOff i body, ApprovePhase i body}
         \<longrightarrow> i = tk_id t \<and> jget body ''expectedRevision'' = JInt (wf_revision (workflow_of t)))
    \<and> (wf_inbox (workflow_of t) \<and> \<not> wf_inbox (workflow_of t') \<longrightarrow> (\<exists>body. call = Accept (tk_id t) body))"
proof -
  have edit: "workflow_edit call (tk_id t) (workflow_of t) (workflow_of t')" by (rule changed_row [OF assms])
  have "wf_inbox (workflow_of t) \<and> \<not> wf_inbox (workflow_of t') \<longrightarrow> (\<exists>body. call = Accept (tk_id t) body)"
    using edit by (cases rule: workflow_edit_cases) (auto simp: advance_def park_def)
  with edit change_raises_revision [OF edit] show ?thesis by (auto simp: insert_iff)
qed

lemma change_names_current_revision_example:
  "wf_revision built_workflow = wf_revision parked_workflow + 1
   \<and> jget (revision_body 2 []) ''expectedRevision'' = JInt (wf_revision parked_workflow)"
  using change_names_current_revision [OF sample_worked(1) sample_approval, of "report_task parked_workflow" "report_task built_workflow"]
  by (simp add: built_workflow_def parked_workflow_def advance_def park_def empty_taskWorkflow_def approve_call_def)

section \<open>A repeated command\<close>

lemma made_child_found:
  assumes "make_child st commandId digest parent name description result asked b = Inr (t, b')" "find_command b commandId = None"
  shows "find_command b' commandId = Some (TaskCreate t digest)" and "bd_tasks b' = bd_tasks b @ [t]"
proof -
  from assms(1) obtain t0 b0 receipt w where created: "create_task st name description None OwnerYou b = Inr (t0, b0)"
    and t: "tk_id t = tk_id t0" "tk_creationReceipt t = Some receipt" "cr_commandId receipt = commandId" "cr_payloadDigest receipt = digest"
    and tasks: "bd_tasks b' = bd_tasks (put_task t b0)"
    by (auto simp: make_child_def result_simps Let_def add_entry_for_def put_task_def)
  from put_created [of b0 "bd_tasks b" t0 t] create_task_Inr [OF created] t(1) tasks
  show tasks': "bd_tasks b' = bd_tasks b @ [t]" by auto
  have "find (\<lambda>r. map_option cr_commandId (tk_creationReceipt r) = Some commandId) (bd_tasks b) = None"
    using assms(2) by (auto simp: find_command_def split: option.splits)
  then have "find (\<lambda>r. map_option cr_commandId (tk_creationReceipt r) = Some commandId) (bd_tasks b @ [t]) = Some t"
    using t(2,3) by (auto simp: find_append)
  then show "find_command b' commandId = Some (TaskCreate t digest)"
    using t by (simp add: find_command_def tasks')
qed

text \<open>A branching that was answered is answered with the same task when its command is sent again, at any time before
  another change, and makes nothing more.\<close>

theorem branch_command_repeats:
  assumes "branch_child sha st body i b = Inr (t, b')"
  shows "branch_child sha st' body i b' = Inr (t, b')"
proof -
  from assms obtain parent commandId name description result asked where
    parent: "live_task b i ''source'' = Inr parent" and command: "command_id_ok (jget body ''commandId'') = Some commandId"
    and asks: "checked_name (jget body ''name'') = Inr name" "checked_description (jget body ''description'') = Inr description"
      "checked_output (jget body ''output'') = Inr (Some result)"
      "asked_childTurns (jget body ''maxTurns'') (workflow_of parent) = Inr asked"
    and outcome: "case find_command b commandId of
        Some r \<Rightarrow> b' = b \<and> replayed_task r (payload_digest sha (branch_payload parent name description result asked)) = Inr t
      | None \<Rightarrow> make_child st commandId (payload_digest sha (branch_payload parent name description result asked))
          parent name description result asked b = Inr (t, b')"
    by (auto simp: branch_child_def result_simps Let_def split: option.splits)
  show ?thesis
  proof (cases "find_command b commandId")
    case (Some r)
    with outcome assms show ?thesis
      by (auto simp: branch_child_def result_simps Let_def parent command asks)
  next
    case None
    with outcome have made: "find_command b' commandId = Some (TaskCreate t (payload_digest sha (branch_payload parent name description result asked)))"
      "bd_tasks b' = bd_tasks b @ [t]" by (auto dest: made_child_found)
    from parent made(2) have "live_task b' i ''source'' = Inr parent"
      by (auto simp: live_task_Inr find_append)
    with made(1) command asks show ?thesis by (simp add: branch_child_def replayed_task_def Let_def)
  qed
qed

lemma branch_command_repeats_example:
  "branch_child same_digest noon branch_body ''T1'' branched_board = Inr (totals_task, branched_board)"
  using branch_command_repeats [OF sample_branch, of noon] .

section \<open>The Ready queue\<close>

text \<open>C21. Every pass of the planner ends. It claims only for projects that are open, keeps both limits, takes the oldest Ready
  tasks of a project first and never a held one, and leaves a run free only when no open project could use it: the line of a
  project is exactly its Ready tasks that nothing holds, oldest first.\<close>

theorem ready_pass_within_limits:
  assumes "comparator cmp" and "distinct (map rp_id projects)"
  shows "\<exists>s. plan_readyQueue cmp allPaused lims projects = Some s
    \<and> ps_running s = sum_list (map rp_running projects) + int (length (ps_claims s))
    \<and> (ps_claims s \<noteq> [] \<longrightarrow> ps_running s \<le> ql_global lims)
    \<and> (\<forall>p \<in> set projects. claims_of s (rp_id p) \<noteq> [] \<longrightarrow> open_project allPaused p
         \<and> rp_running p + int (length (claims_of s (rp_id p))) \<le> ql_perProject lims
         \<and> claims_of s (rp_id p) = map (claim_of (rp_id p)) (take (length (claims_of s (rp_id p))) (ready_line cmp p)))
    \<and> (ps_running s < ql_global lims \<longrightarrow> (\<forall>p \<in> set projects. open_project allPaused p
         \<longrightarrow> ql_perProject lims \<le> rp_running p + int (length (claims_of s (rp_id p)))
           \<or> length (claims_of s (rp_id p)) = length (ready_line cmp p)))
    \<and> (\<forall>p. sorted_wrt (\<lambda>a b. task_order cmp a b \<le> 0) (ready_line cmp p)
         \<and> mset (ready_line cmp p) = filter_mset (\<lambda>t. \<not> truthy (rt_hold t)) (mset (rp_ready p)))"
proof -
  obtain s where run: "plan_readyQueue cmp allPaused lims projects = Some s" using plan_readyQueue_returns by blast
  have line: "sorted_wrt (\<lambda>a b. task_order cmp a b \<le> 0) (ready_line cmp p)
      \<and> mset (ready_line cmp p) = filter_mset (\<lambda>t. \<not> truthy (rt_hold t)) (mset (rp_ready p))" for p
    using comparator.sorted_sort_by [OF comparator_task_order [OF assms(1)]] by (auto simp: ready_line_def)
  show ?thesis
    using run line pass_keeps_limits [OF run assms(2)] pass_uses_free_slots [OF run assms(2)] by blast
qed

lemma ready_pass_within_limits_example:
  "\<exists>s. plan_readyQueue byte_order None one_run (sample_passes 0) = Some s \<and> ps_running s = int (length (ps_claims s)) \<and> ps_running s = 1"
  using ready_pass_within_limits [OF bytes.comparator_axioms, of "sample_passes 0" None one_run] sample_pass [of 0] sample_pass_claims(1)
  by (auto simp: sample_passes_def ready_row_def)

text \<open>C22. No project starves: one that waits with a Ready task while a run is free is claimed for within as many passes as
  there are projects, since whoever is served goes behind those that wait.\<close>

theorem no_project_starves:
  assumes "comparator cmp"
    and "\<And>n. n < N \<Longrightarrow> distinct (map rp_id (projects n)) \<and> plan_readyQueue cmp None lims (projects n) = Some (s n)
      \<and> awaits cmp lims i (projects n)"
    and "\<And>n. Suc n < N \<Longrightarrow> next_pass cmp (projects n) (s n) (projects (Suc n))"
    and "N = card (rp_id ` set (projects 0))" and "0 < N"
  shows "\<exists>n < N. claims_of (s n) i \<noteq> []"
  using assms by (rule served_within)

lemma no_project_starves_example: "\<exists>n < 2. claims_of (sample_claims n) ''p2'' \<noteq> []"
proof (rule no_project_starves [OF bytes.comparator_axioms, where projects = sample_passes and lims = one_run])
  fix n :: nat
  show "distinct (map rp_id (sample_passes n)) \<and> plan_readyQueue byte_order None one_run (sample_passes n) = Some (sample_claims n)
      \<and> awaits byte_order one_run ''p2'' (sample_passes n)"
    using sample_pass sample_awaits by (simp add: sample_passes_def ready_row_def)
  show "next_pass byte_order (sample_passes n) (sample_claims n) (sample_passes (Suc n))" if "Suc n < 2"
    using that sample_next by simp
qed (simp_all add: sample_passes_def ready_row_def)

section \<open>A move on the Board\<close>

text \<open>A move of a card asks for a command exactly when that command is allowed: a start only from Ready or a failed run while
  nothing runs, a stop only of a running task, reopening and finishing only when nothing is undecided, and nothing but
  acceptance for a task in the Inbox.\<close>

theorem board_move_asks_only_allowed:
  "(asks_for (board_move_for to facts) = Some StartCommand \<longleftrightarrow> to \<in> {QueuedColumn, WorkingColumn} \<and> \<not> bf_active facts
      \<and> \<not> bf_slotBusy facts \<and> (bf_from facts = ReadyColumn \<or> bf_from facts = BlockedColumn \<and> bf_failed facts))
   \<and> (asks_for (board_move_for to facts) = Some StopCommand \<longleftrightarrow> to = ReadyColumn \<and> bf_active facts
      \<and> bf_from facts \<notin> {InboxColumn, ReviewColumn, ReadyColumn})
   \<and> (asks_for (board_move_for to facts) = Some ReopenCommand \<longleftrightarrow> to = ReadyColumn \<and> \<not> bf_active facts
      \<and> unsettled facts = None \<and> bf_from facts \<notin> {InboxColumn, ReadyColumn})
   \<and> (asks_for (board_move_for to facts) = Some DoneCommand \<longleftrightarrow> to = DoneColumn \<and> \<not> bf_active facts
      \<and> unsettled facts = None \<and> bf_from facts \<notin> {InboxColumn, DoneColumn})
   \<and> (asks_for (board_move_for to facts) = Some AcceptCommand \<longleftrightarrow> to = ReadyColumn \<and> bf_from facts = InboxColumn)"
  by (cases to; cases "bf_from facts")
    (simp_all add: board_move_for_def move_to_work_def move_to_ready_def move_to_done_def start_move_def Let_def split: option.split)

end
