(* ===== verification/Text_Diff.thy ===== *)
theory Text_Diff
  imports Money
begin

text \<open>
  Readable differences between two texts, \<open>shared/text-diff.ts\<close>: the hunks a person reviews and keeps or undoes one by one,
  and the text that keeping some of them makes. The two comparisons of the package \<open>diff\<close> are parameters: \<open>diff_lines\<close> gives
  the parts of a line comparison, or nothing past its edit bound, and \<open>diff_words\<close> those of a word comparison. What
  \<open>diff_lines\<close> documents of its parts is \<open>compares\<close>.
\<close>

section \<open>Data\<close>

record diff_part =
  dp_value :: string
  dp_added :: bool
  dp_removed :: bool

datatype word_kind = SameWord | AddedWord | RemovedWord

record diff_word =
  dw_text :: string
  dw_kind :: word_kind

datatype line_kind = ContextLine | AddedLine | RemovedLine

record diff_line =
  dl_kind :: line_kind
  dl_text :: string
  dl_oldNo :: "nat option"
  dl_newNo :: "nat option"
  dl_words :: "diff_word list option"

record diff_hunk =
  dh_index :: nat
  dh_oldStart :: nat
  dh_oldLines :: nat
  dh_newStart :: nat
  dh_newLines :: nat
  dh_added :: nat
  dh_removed :: nat
  dh_lines :: "diff_line list"

datatype diff_segment = ContextSegment "diff_line list" | HunkSegment nat

datatype diff_state = DiffChanged | DiffIdentical | DiffBinary | DiffTooLarge | DiffUnavailable
datatype diff_op = FileCreated | FileModified | FileDeleted

record diff_limits =
  lim_maxBytes :: nat
  lim_maxEditLines :: nat
  lim_contextLines :: nat
  lim_maxRenderedLines :: nat
  lim_maxSelectableHunks :: nat
  lim_maxWordDiffChars :: nat

definition default_diff_limits :: diff_limits where
  "default_diff_limits = \<lparr>lim_maxBytes = 1024 * 1024, lim_maxEditLines = 5000, lim_contextLines = 3, lim_maxRenderedLines = 2000,
     lim_maxSelectableHunks = 100, lim_maxWordDiffChars = 400\<rparr>"

record text_diff =
  td_state :: diff_state
  td_path :: string
  td_op :: diff_op
  td_header :: string
  td_reason :: "string option"
  td_added :: nat
  td_removed :: nat
  td_hunks :: "diff_hunk list"
  td_segments :: "diff_segment list"
  td_truncated :: bool
  td_hiddenLines :: nat
  td_selectable :: bool

record diff_input =
  di_path :: string
  di_before :: "string option"
  di_after :: "string option"
  di_binary :: bool
  di_unavailable :: bool

section \<open>Words\<close>

definition text_bytes :: "string option \<Rightarrow> nat" where
  "text_bytes t = (case t of None \<Rightarrow> 0 | Some s \<Rightarrow> length s)"

definition plural :: "nat \<Rightarrow> string \<Rightarrow> string \<Rightarrow> string" where
  "plural n one many = show_nat n @ '' '' @ (if n = 1 then one else many)"

text \<open>The tenths of a megabyte are rounded half up and lose a final \<open>.0\<close>.\<close>

definition size_words :: "nat \<Rightarrow> string" where
  "size_words n =
     (if n < 1024 then plural n ''byte'' ''bytes''
      else if n < 1024 * 1024 then show_nat ((2 * n + 1024) div 2048) @ '' KB''
      else let tenths = (20 * n + 1048576) div 2097152 in
        show_nat (tenths div 10) @ (if tenths mod 10 = 0 then '''' else ''.'' @ show_nat (tenths mod 10)) @ '' MB'')"

definition newline :: char where
  "newline = char_of (10 :: nat)"

definition carriage_return :: char where
  "carriage_return = char_of (13 :: nat)"

definition drop_return :: "string \<Rightarrow> string" where
  "drop_return line = (if line \<noteq> '''' \<and> last line = carriage_return then butlast line else line)"

definition split_lines :: "string \<Rightarrow> string list" where
  "split_lines t = (if t = '''' then []
     else let lines = split_on newline t in map drop_return (if last lines = '''' then butlast lines else lines))"

definition looks_binary :: "string option \<Rightarrow> bool" where
  "looks_binary t \<longleftrightarrow> (case t of None \<Rightarrow> False | Some s \<Rightarrow> char_of (0 :: nat) \<in> set s)"

definition op_of :: "string option \<Rightarrow> string option \<Rightarrow> diff_op" where
  "op_of old new = (if old = None then FileCreated else if new = None then FileDeleted else FileModified)"

definition diff_header :: "string \<Rightarrow> diff_op \<Rightarrow> nat \<Rightarrow> nat \<Rightarrow> string" where
  "diff_header path op added removed =
     (if op = FileCreated then plural added ''line'' ''lines'' @ '' added in '' @ path @ '', a new file''
      else if op = FileDeleted then plural removed ''line'' ''lines'' @ '' removed from '' @ path @ '', which was deleted''
      else if added = 0 \<and> removed = 0 then ''No differences in '' @ path
      else if removed = 0 then plural added ''line'' ''lines'' @ '' added in '' @ path
      else if added = 0 then plural removed ''line'' ''lines'' @ '' removed in '' @ path
      else plural added ''line'' ''lines'' @ '' added, '' @ show_nat removed @ '' removed in '' @ path)"

text \<open>The words of two paired lines, unless they are too long or share less than three tenths of the shorter one.\<close>

definition words_for ::
  "(string \<Rightarrow> string \<Rightarrow> diff_part list) \<Rightarrow> string \<Rightarrow> string \<Rightarrow> nat \<Rightarrow> (diff_word list \<times> diff_word list) option" where
  "words_for diff_words removed added limit =
     (if limit < utf16_units removed \<or> limit < utf16_units added then None
      else let parts = diff_words removed added;
        same = sum_list (map (\<lambda>p. utf16_units (dp_value p)) (filter (\<lambda>p. \<not> dp_added p \<and> \<not> dp_removed p) parts)) in
      if 10 * same < 3 * min (utf16_units removed) (utf16_units added) then None
      else Some (map (\<lambda>p. \<lparr>dw_text = dp_value p, dw_kind = (if dp_removed p then RemovedWord else SameWord)\<rparr>)
                   (filter (\<lambda>p. \<not> dp_added p) parts),
                 map (\<lambda>p. \<lparr>dw_text = dp_value p, dw_kind = (if dp_added p then AddedWord else SameWord)\<rparr>)
                   (filter (\<lambda>p. dp_added p \<or> \<not> dp_removed p) parts)))"

section \<open>Building a diff\<close>

definition empty_diff :: "diff_input \<Rightarrow> diff_state \<Rightarrow> string \<Rightarrow> text_diff" where
  "empty_diff input state reason = \<lparr>td_state = state, td_path = di_path input, td_op = op_of (di_before input) (di_after input),
     td_header = reason, td_reason = Some reason, td_added = 0, td_removed = 0, td_hunks = [], td_segments = [],
     td_truncated = False, td_hiddenLines = 0, td_selectable = False\<rparr>"

record open_hunk =
  oh_oldStart :: nat
  oh_newStart :: nat
  oh_removed :: "diff_line list"
  oh_added :: "diff_line list"

record diff_build =
  db_segments :: "diff_segment list"
  db_hunks :: "diff_hunk list"
  db_oldNo :: nat
  db_newNo :: nat
  db_open :: "open_hunk option"

fun pair_words :: "(string \<Rightarrow> string \<Rightarrow> diff_part list) \<Rightarrow> nat \<Rightarrow> diff_line list \<Rightarrow> diff_line list \<Rightarrow> diff_line list \<times> diff_line list" where
  "pair_words diff_words limit (r # rs) (a # as) =
     (let (rs', as') = pair_words diff_words limit rs as in
      case words_for diff_words (dl_text r) (dl_text a) limit of
        None \<Rightarrow> (r # rs', a # as')
      | Some (old, new) \<Rightarrow> (r\<lparr>dl_words := Some old\<rparr> # rs', a\<lparr>dl_words := Some new\<rparr> # as'))"
| "pair_words diff_words limit rs as = (rs, as)"

definition close_hunk :: "(string \<Rightarrow> string \<Rightarrow> diff_part list) \<Rightarrow> nat \<Rightarrow> diff_build \<Rightarrow> diff_build" where
  "close_hunk diff_words limit s = (case db_open s of None \<Rightarrow> s
     | Some h \<Rightarrow>
         (let (removed, added) = pair_words diff_words limit (oh_removed h) (oh_added h);
              index = length (db_hunks s) in
          s\<lparr>db_hunks := db_hunks s @ [\<lparr>dh_index = index,
                dh_oldStart = (if removed \<noteq> [] then oh_oldStart h else oh_oldStart h - 1), dh_oldLines = length removed,
                dh_newStart = (if added \<noteq> [] then oh_newStart h else oh_newStart h - 1), dh_newLines = length added,
                dh_added = length added, dh_removed = length removed, dh_lines = removed @ added\<rparr>],
             db_segments := db_segments s @ [HunkSegment index], db_open := None\<rparr>))"

definition context_lines :: "nat \<Rightarrow> nat \<Rightarrow> string list \<Rightarrow> diff_line list" where
  "context_lines oldNo newNo lines = map (\<lambda>(i, t). \<lparr>dl_kind = ContextLine, dl_text = t, dl_oldNo = Some (oldNo + i),
     dl_newNo = Some (newNo + i), dl_words = None\<rparr>) (List.enumerate 0 lines)"

definition removed_lines :: "nat \<Rightarrow> string list \<Rightarrow> diff_line list" where
  "removed_lines oldNo lines = map (\<lambda>(i, t). \<lparr>dl_kind = RemovedLine, dl_text = t, dl_oldNo = Some (oldNo + i),
     dl_newNo = None, dl_words = None\<rparr>) (List.enumerate 0 lines)"

definition added_lines :: "nat \<Rightarrow> string list \<Rightarrow> diff_line list" where
  "added_lines newNo lines = map (\<lambda>(i, t). \<lparr>dl_kind = AddedLine, dl_text = t, dl_oldNo = None,
     dl_newNo = Some (newNo + i), dl_words = None\<rparr>) (List.enumerate 0 lines)"

text \<open>A run of unchanged lines joins the one before it.\<close>

definition add_context :: "diff_segment list \<Rightarrow> diff_line list \<Rightarrow> diff_segment list" where
  "add_context segs lines = (case rev segs of
     ContextSegment before # earlier \<Rightarrow> rev earlier @ [ContextSegment (before @ lines)]
   | _ \<Rightarrow> if lines = [] then segs else segs @ [ContextSegment lines])"

definition diff_step :: "(string \<Rightarrow> string \<Rightarrow> diff_part list) \<Rightarrow> nat \<Rightarrow> diff_part \<Rightarrow> diff_build \<Rightarrow> diff_build" where
  "diff_step diff_words limit part s =
     (let lines = split_lines (dp_value part) in
      if \<not> dp_added part \<and> \<not> dp_removed part then
        let s = close_hunk diff_words limit s in
        s\<lparr>db_oldNo := db_oldNo s + length lines, db_newNo := db_newNo s + length lines,
          db_segments := add_context (db_segments s) (context_lines (db_oldNo s) (db_newNo s) lines)\<rparr>
      else
        let h = (case db_open s of None \<Rightarrow> \<lparr>oh_oldStart = db_oldNo s, oh_newStart = db_newNo s, oh_removed = [], oh_added = []\<rparr>
                 | Some h \<Rightarrow> h) in
        if dp_removed part
        then s\<lparr>db_open := Some (h\<lparr>oh_removed := oh_removed h @ removed_lines (db_oldNo s) lines\<rparr>), db_oldNo := db_oldNo s + length lines\<rparr>
        else s\<lparr>db_open := Some (h\<lparr>oh_added := oh_added h @ added_lines (db_newNo s) lines\<rparr>), db_newNo := db_newNo s + length lines\<rparr>)"

definition built :: "(string \<Rightarrow> string \<Rightarrow> diff_part list) \<Rightarrow> nat \<Rightarrow> diff_part list \<Rightarrow> diff_build" where
  "built diff_words limit parts = close_hunk diff_words limit (fold (diff_step diff_words limit) parts
     \<lparr>db_segments = [], db_hunks = [], db_oldNo = 1, db_newNo = 1, db_open = None\<rparr>)"

definition shown_diff :: "diff_limits \<Rightarrow> diff_input \<Rightarrow> diff_build \<Rightarrow> text_diff" where
  "shown_diff limits input s =
     (let path = di_path input; op = op_of (di_before input) (di_after input); hunks = db_hunks s;
          added = sum_list (map dh_added hunks); removed = sum_list (map dh_removed hunks) in
      if hunks = [] then
        (empty_diff input (if op = FileModified then DiffIdentical else DiffChanged) (diff_header path op 0 0))\<lparr>td_reason := None\<rparr>
      else
        let changed = added + removed; truncated = lim_maxRenderedLines limits < changed in
        \<lparr>td_state = DiffChanged, td_path = path, td_op = op, td_header = diff_header path op added removed, td_reason = None,
         td_added = added, td_removed = removed, td_hunks = hunks, td_segments = db_segments s, td_truncated = truncated,
         td_hiddenLines = (if truncated then changed - lim_maxRenderedLines limits else 0),
         td_selectable = (op = FileModified \<and> 2 \<le> length hunks \<and> length hunks \<le> lim_maxSelectableHunks limits \<and> \<not> truncated)\<rparr>)"

definition build_diff ::
  "(string \<Rightarrow> string \<Rightarrow> nat \<Rightarrow> diff_part list option) \<Rightarrow> (string \<Rightarrow> string \<Rightarrow> diff_part list) \<Rightarrow> diff_limits \<Rightarrow> diff_input \<Rightarrow> text_diff" where
  "build_diff diff_lines diff_words limits input =
     (let path = di_path input; total = text_bytes (di_before input) + text_bytes (di_after input);
          old = (case di_before input of None \<Rightarrow> '''' | Some t \<Rightarrow> t); new = (case di_after input of None \<Rightarrow> '''' | Some t \<Rightarrow> t) in
      if di_binary input \<or> looks_binary (di_before input) \<or> looks_binary (di_after input)
      then empty_diff input DiffBinary (path @ '' is not text, so no line differences are shown.'')
      else if di_unavailable input \<or> (di_before input = None \<and> di_after input = None)
      then empty_diff input DiffUnavailable
        (''The contents of '' @ path @ '' were not kept for this version, so there is nothing to compare.'')
      else if lim_maxBytes limits < total
      then empty_diff input DiffTooLarge (path @ '' is too large to compare here: '' @ size_words total
        @ '' across both versions, over the '' @ size_words (lim_maxBytes limits) @ '' limit.'')
      else if old = new \<and> op_of (di_before input) (di_after input) = FileModified
      then (empty_diff input DiffIdentical (''No differences in '' @ path))\<lparr>td_reason := None\<rparr>
      else case diff_lines old new (lim_maxEditLines limits) of
        None \<Rightarrow> empty_diff input DiffTooLarge (''More than '' @ to_locale_string (int (lim_maxEditLines limits))
          @ '' lines differ in '' @ path @ '', too many to compare here.'')
      | Some parts \<Rightarrow> shown_diff limits input (built diff_words (lim_maxWordDiffChars limits) parts))"

section \<open>Keeping some hunks\<close>

text \<open>The loop of \<open>applyHunkSelection\<close>: \<open>n\<close> hunks have begun, and \<open>inHunk\<close> tells whether the last one is still open.\<close>

fun selected :: "int list \<Rightarrow> diff_part list \<Rightarrow> nat \<Rightarrow> bool \<Rightarrow> string list" where
  "selected keep [] n inHunk = []"
| "selected keep (p # ps) n inHunk =
     (if \<not> dp_added p \<and> \<not> dp_removed p then dp_value p # selected keep ps n False
      else let n = (if inHunk then n else n + 1); kept = int n - 1 \<in> set keep in
        (if dp_added p \<and> kept then [dp_value p] else []) @ (if dp_removed p \<and> \<not> kept then [dp_value p] else [])
        @ selected keep ps n True)"

definition apply_hunkSelection ::
  "(string \<Rightarrow> string \<Rightarrow> nat \<Rightarrow> diff_part list option) \<Rightarrow> nat \<Rightarrow> string \<Rightarrow> string \<Rightarrow> int list \<Rightarrow> string + string" where
  "apply_hunkSelection diff_lines maxEditLines old new keep = (case diff_lines old new maxEditLines of
     None \<Rightarrow> Inl ''This change is too large to keep piece by piece.''
   | Some parts \<Rightarrow> Inr (concat (selected keep parts 0 False)))"

section \<open>Views\<close>

definition nth_line :: "diff_line list \<Rightarrow> nat \<Rightarrow> diff_line option" where
  "nth_line ls i = (if i < length ls then Some (ls ! i) else None)"

definition side_by_side :: "diff_hunk \<Rightarrow> (diff_line option \<times> diff_line option) list" where
  "side_by_side hunk =
     (let removed = filter (\<lambda>l. dl_kind l = RemovedLine) (dh_lines hunk); added = filter (\<lambda>l. dl_kind l = AddedLine) (dh_lines hunk) in
      map (\<lambda>i. (nth_line removed i, nth_line added i)) [0..<max (length removed) (length added)])"

text \<open>The dash between two line numbers, as UTF-8.\<close>

definition en_dash :: string where
  "en_dash = map char_of [226 :: nat, 128, 147]"

definition hunk_place :: "diff_hunk \<Rightarrow> string" where
  "hunk_place hunk =
     (let (start, count) = (if dh_newLines hunk \<noteq> 0 then (dh_newStart hunk, dh_newLines hunk) else (dh_oldStart hunk, dh_oldLines hunk)) in
      if dh_newLines hunk = 0 \<and> dh_oldLines hunk = 0 then ''in this file''
      else if count = 1 then ''line '' @ show_nat start
      else ''lines '' @ show_nat start @ en_dash @ show_nat (start + count - 1))"

datatype context_position = FirstRun | MiddleRun | LastRun | OnlyRun

definition fold_context :: "'a list \<Rightarrow> context_position \<Rightarrow> nat \<Rightarrow> 'a list \<times> 'a list \<times> 'a list" where
  "fold_context lines position context =
     (if position = OnlyRun then ([], lines, [])
      else let h = (if position = FirstRun then 0 else context); t = (if position = LastRun then 0 else context) in
        if length lines \<le> h + t + 1 then (lines, [], [])
        else (take h lines, take (length lines - t - h) (drop h lines), drop (length lines - t) lines))"

end
