(* ===== verification/Diff_Guarantees.thy ===== *)
theory Diff_Guarantees
  imports Text_Diff
begin

text \<open>
  What a comparison shows and what keeping some of its hunks makes: the segments hold the lines of both texts, numbered in
  order, and the hunks the reader numbers are the hunks the server keeps or undoes.
\<close>

section \<open>Lines\<close>

definition ends_line :: "string \<Rightarrow> bool" where
  "ends_line t \<longleftrightarrow> t = '''' \<or> last t = newline"

lemma split_on_not_Nil [simp]: "split_on c t \<noteq> []"
  by (induction t) (auto split: list.splits)

lemma split_on_append_sep: "split_on c (s @ c # t) = split_on c s @ split_on c t"
proof (induction s)
  case (Cons x s)
  then show ?case by (cases "split_on c s") auto
qed simp

lemma split_lines_append:
  assumes "ends_line s"
  shows "split_lines (s @ t) = split_lines s @ split_lines t"
proof (cases "s = ''''")
  case False
  with assms obtain r where s: "s = r @ [newline]" by (metis append_butlast_last_id ends_line_def)
  have "split_on newline s = split_on newline r @ [[]]" using split_on_append_sep [of newline r "''''"] by (simp add: s)
  moreover have "split_on newline (s @ t) = split_on newline r @ split_on newline t"
    using split_on_append_sep [of newline r t] by (simp add: s)
  ultimately show ?thesis using False by (cases "t = ''''") (auto simp: split_lines_def Let_def butlast_append)
qed (simp add: split_lines_def)

text \<open>Every text of a list but the last ends its line.\<close>

fun whole_lines :: "string list \<Rightarrow> bool" where
  "whole_lines [] \<longleftrightarrow> True"
| "whole_lines (v # vs) \<longleftrightarrow> (vs = [] \<or> ends_line v) \<and> whole_lines vs"

lemma split_lines_concat: "whole_lines vs \<Longrightarrow> split_lines (concat vs) = concat (map split_lines vs)"
  by (induction vs) (auto simp: split_lines_append, simp add: split_lines_def)

section \<open>What a line comparison promises\<close>

definition old_values :: "diff_part list \<Rightarrow> string list" where
  "old_values parts = map dp_value (filter (\<lambda>p. \<not> dp_added p) parts)"

definition new_values :: "diff_part list \<Rightarrow> string list" where
  "new_values parts = map dp_value (filter (\<lambda>p. \<not> dp_removed p) parts)"

definition compares :: "string \<Rightarrow> string \<Rightarrow> diff_part list \<Rightarrow> bool" where
  "compares old new parts \<longleftrightarrow> (\<forall>p \<in> set parts. \<not> (dp_added p \<and> dp_removed p))
     \<and> concat (old_values parts) = old \<and> concat (new_values parts) = new
     \<and> whole_lines (old_values parts) \<and> whole_lines (new_values parts)"

lemma values_simps [simp]:
  "old_values [] = []" "new_values [] = []"
  "old_values (p # ps) = (if dp_added p then old_values ps else dp_value p # old_values ps)"
  "new_values (p # ps) = (if dp_removed p then new_values ps else dp_value p # new_values ps)"
  by (simp_all add: old_values_def new_values_def)

section \<open>A selection of hunks\<close>

text \<open>The values a selection takes: \<open>i\<close> hunks are closed, and \<open>inHunk\<close> tells whether the next one is open.\<close>

fun sel_values :: "(nat \<Rightarrow> bool) \<Rightarrow> diff_part list \<Rightarrow> nat \<Rightarrow> bool \<Rightarrow> string list" where
  "sel_values sel [] i inHunk = []"
| "sel_values sel (p # ps) i inHunk =
     (if \<not> dp_added p \<and> \<not> dp_removed p then dp_value p # sel_values sel ps (if inHunk then i + 1 else i) False
      else (if (if dp_removed p then \<not> sel i else sel i) then [dp_value p] else []) @ sel_values sel ps i True)"

definition one_sided :: "diff_part list \<Rightarrow> bool" where
  "one_sided ps \<longleftrightarrow> (\<forall>p \<in> set ps. \<not> (dp_added p \<and> dp_removed p))"

lemma one_sided_simps [simp]: "one_sided []" "one_sided (p # ps) \<longleftrightarrow> \<not> (dp_added p \<and> dp_removed p) \<and> one_sided ps"
  by (auto simp: one_sided_def)

lemma selected_sel_values:
  assumes "one_sided ps" "inHunk \<Longrightarrow> 0 < n"
  shows "selected keep ps n inHunk = sel_values (\<lambda>i. int i \<in> set keep) ps (if inHunk then n - 1 else n) inHunk"
  using assms
proof (induction ps arbitrary: n inHunk)
  case (Cons p ps)
  then show ?case by (cases n) (auto simp: Let_def)
qed simp

lemma sel_values_old: "one_sided ps \<Longrightarrow> sel_values (\<lambda>_. False) ps i b = old_values ps"
  by (induction ps arbitrary: i b) auto

lemma sel_values_new: "one_sided ps \<Longrightarrow> sel_values (\<lambda>_. True) ps i b = new_values ps"
  by (induction ps arbitrary: i b) auto

lemma sel_values_cong:
  "(\<And>j. i \<le> j \<Longrightarrow> j < i + length ps \<Longrightarrow> sel j = sel' j) \<Longrightarrow> sel_values sel ps i b = sel_values sel' ps i b"
proof (induction ps arbitrary: i b)
  case (Cons p ps)
  have "sel_values sel ps j b' = sel_values sel' ps j b'" if "j = i \<or> j = i + 1" for j b'
    using that by (intro Cons.IH Cons.prems) auto
  with Cons.prems [of i] show ?case by auto
qed simp

lemma values_empty: "old_values ps = [] \<Longrightarrow> new_values ps = [] \<Longrightarrow> one_sided ps \<Longrightarrow> ps = []"
  by (cases ps) (auto split: if_splits)

lemma sel_values_one_side:
  "new_values ps = [] \<Longrightarrow> one_sided ps \<Longrightarrow> sel i \<Longrightarrow> sel_values sel ps i True = []"
  "old_values ps = [] \<Longrightarrow> one_sided ps \<Longrightarrow> \<not> sel i \<Longrightarrow> sel_values sel ps i True = []"
  by (induction ps) (auto split: if_splits)

lemma sel_values_whole_lines:
  assumes "one_sided ps" "whole_lines (old_values ps)" "whole_lines (new_values ps)"
  shows "whole_lines (sel_values sel ps i b)"
  using assms
proof (induction ps arbitrary: i b)
  case (Cons p ps)
  have rest: "whole_lines (sel_values sel ps j b')" for j b' using Cons by (auto split: if_splits)
  consider "\<not> dp_added p" "\<not> dp_removed p" | "dp_added p" "\<not> dp_removed p" | "dp_removed p" "\<not> dp_added p"
    using Cons.prems(1) by auto
  then show ?case
  proof cases
    case 1
    then have "ends_line (dp_value p) \<or> ps = []" using Cons.prems values_empty [of ps] by auto
    with 1 rest show ?thesis by auto
  next
    case 2
    then have "ends_line (dp_value p) \<or> new_values ps = []" using Cons.prems(3) by auto
    with 2 rest Cons.prems(1) sel_values_one_side(1) [of ps sel i] show ?thesis by auto
  next
    case 3
    then have "ends_line (dp_value p) \<or> old_values ps = []" using Cons.prems(2) by auto
    with 3 rest Cons.prems(1) sel_values_one_side(2) [of ps sel i] show ?thesis by auto
  qed
qed simp

section \<open>The lines of a build\<close>

text \<open>The lines of a hunk on the side a selection takes, and of the segments in order.\<close>

definition hunk_side :: "(nat \<Rightarrow> bool) \<Rightarrow> diff_hunk \<Rightarrow> diff_line list" where
  "hunk_side sel h = filter (\<lambda>l. dl_kind l = (if sel (dh_index h) then AddedLine else RemovedLine)) (dh_lines h)"

fun segment_lines :: "(nat \<Rightarrow> bool) \<Rightarrow> diff_hunk list \<Rightarrow> diff_segment \<Rightarrow> diff_line list" where
  "segment_lines sel hunks (ContextSegment ls) = ls"
| "segment_lines sel hunks (HunkSegment i) = hunk_side sel (hunks ! i)"

definition shown_lines :: "(nat \<Rightarrow> bool) \<Rightarrow> diff_hunk list \<Rightarrow> diff_segment list \<Rightarrow> diff_line list" where
  "shown_lines sel hunks segs = concat (map (segment_lines sel hunks) segs)"

definition open_lines :: "(nat \<Rightarrow> bool) \<Rightarrow> diff_build \<Rightarrow> diff_line list" where
  "open_lines sel s = (case db_open s of None \<Rightarrow> []
     | Some h \<Rightarrow> if sel (length (db_hunks s)) then oh_added h else oh_removed h)"

definition build_lines :: "(nat \<Rightarrow> bool) \<Rightarrow> diff_build \<Rightarrow> diff_line list" where
  "build_lines sel s = shown_lines sel (db_hunks s) (db_segments s) @ open_lines sel s"

definition build_ok :: "diff_build \<Rightarrow> bool" where
  "build_ok s \<longleftrightarrow> (\<forall>i. HunkSegment i \<in> set (db_segments s) \<longrightarrow> i < length (db_hunks s))
     \<and> (\<forall>i < length (db_hunks s). dh_index (db_hunks s ! i) = i)
     \<and> (case db_open s of None \<Rightarrow> True | Some h \<Rightarrow> (\<forall>l \<in> set (oh_removed h). dl_kind l = RemovedLine)
          \<and> (\<forall>l \<in> set (oh_added h). dl_kind l = AddedLine))"

text \<open>Pairing words changes nothing else of a line.\<close>

definition bare :: "diff_line \<Rightarrow> diff_line" where
  "bare l = l\<lparr>dl_words := None\<rparr>"

lemma bare_fields [simp]: "dl_kind (bare l) = dl_kind l" "dl_text (bare l) = dl_text l" "dl_oldNo (bare l) = dl_oldNo l" "dl_newNo (bare l) = dl_newNo l"
  by (simp_all add: bare_def)

lemma bare_same:
  "map bare ls = map bare ls' \<Longrightarrow> map dl_kind ls = map dl_kind ls'"
  "map bare ls = map bare ls' \<Longrightarrow> map dl_text ls = map dl_text ls'"
  "map bare ls = map bare ls' \<Longrightarrow> map dl_oldNo ls = map dl_oldNo ls'"
  "map bare ls = map bare ls' \<Longrightarrow> map dl_newNo ls = map dl_newNo ls'"
  by (drule arg_cong [of _ _ "map dl_kind"], simp add: comp_def, drule arg_cong [of _ _ "map dl_text"], simp add: comp_def,
      drule arg_cong [of _ _ "map dl_oldNo"], simp add: comp_def, drule arg_cong [of _ _ "map dl_newNo"], simp add: comp_def)

lemma pair_words_bare:
  "map bare (fst (pair_words dw limit rs as)) = map bare rs \<and> map bare (snd (pair_words dw limit rs as)) = map bare as"
  by (induction dw limit rs as rule: pair_words.induct) (auto simp: Let_def bare_def split: option.split prod.split)

lemma pair_words_kinds:
  "(\<forall>l \<in> set (fst (pair_words dw limit rs as)). dl_kind l = k) \<longleftrightarrow> (\<forall>l \<in> set rs. dl_kind l = k)"
  "(\<forall>l \<in> set (snd (pair_words dw limit rs as)). dl_kind l = k) \<longleftrightarrow> (\<forall>l \<in> set as. dl_kind l = k)"
  using bare_same(1) [OF pair_words_bare [THEN conjunct1], of dw limit rs as] bare_same(1) [OF pair_words_bare [THEN conjunct2], of dw limit rs as]
  by (metis (no_types, lifting) in_set_conv_nth length_map nth_map)+

lemma shown_lines_more:
  "\<forall>i. HunkSegment i \<in> set segs \<longrightarrow> i < length hunks \<Longrightarrow> shown_lines sel (hunks @ hs) segs = shown_lines sel hunks segs"
proof (induction segs)
  case (Cons g segs)
  then show ?case by (cases g) (auto simp: shown_lines_def nth_append)
qed (simp add: shown_lines_def)

lemma shown_lines_append [simp]: "shown_lines sel hunks (a @ b) = shown_lines sel hunks a @ shown_lines sel hunks b"
  by (simp add: shown_lines_def)

lemma shown_lines_simps [simp]:
  "shown_lines sel hunks [] = []" "shown_lines sel hunks (g # segs) = segment_lines sel hunks g @ shown_lines sel hunks segs"
  by (simp_all add: shown_lines_def)

lemma close_hunk_ok: "build_ok s \<Longrightarrow> build_ok (close_hunk dw limit s)"
  by (cases "db_open s") (auto simp: build_ok_def close_hunk_def Let_def case_prod_unfold nth_append less_Suc_eq)

lemma close_hunk_lines:
  assumes "build_ok s"
  shows "map bare (build_lines sel (close_hunk dw limit s)) = map bare (build_lines sel s)"
proof (cases "db_open s")
  case (Some h)
  obtain rs as where pair: "pair_words dw limit (oh_removed h) (oh_added h) = (rs, as)" by fastforce
  have kinds: "\<forall>l \<in> set rs. dl_kind l = RemovedLine" "\<forall>l \<in> set as. dl_kind l = AddedLine"
    using assms Some pair_words_kinds [of dw limit "oh_removed h" "oh_added h"] pair by (auto simp: build_ok_def)
  then have sides: "filter (\<lambda>l. dl_kind l = AddedLine) rs = []" "filter (\<lambda>l. dl_kind l = AddedLine) as = as"
    "filter (\<lambda>l. dl_kind l = RemovedLine) as = []" "filter (\<lambda>l. dl_kind l = RemovedLine) rs = rs"
    by (auto simp: filter_empty_conv filter_id_conv)
  have "map bare rs = map bare (oh_removed h)" "map bare as = map bare (oh_added h)"
    using pair_words_bare [of dw limit "oh_removed h" "oh_added h"] pair by simp_all
  moreover have "\<forall>i. HunkSegment i \<in> set (db_segments s) \<longrightarrow> i < length (db_hunks s)" using assms by (simp add: build_ok_def)
  ultimately show ?thesis using Some sides
    by (simp add: close_hunk_def pair build_lines_def open_lines_def shown_lines_more hunk_side_def nth_append Let_def)
qed (simp add: close_hunk_def)

lemma close_hunk_counters [simp]:
  "db_oldNo (close_hunk dw limit s) = db_oldNo s" "db_newNo (close_hunk dw limit s) = db_newNo s"
  "db_open (close_hunk dw limit s) = None"
  "length (db_hunks (close_hunk dw limit s)) = length (db_hunks s) + (if db_open s = None then 0 else 1)"
  by (cases "db_open s"; simp add: close_hunk_def Let_def case_prod_unfold)+

lemma shown_add_context: "shown_lines sel hunks (add_context segs ls) = shown_lines sel hunks segs @ ls"
proof (cases "rev segs")
  case (Cons g rest)
  then have "segs = rev rest @ [g]" by (metis rev_rev_ident rev.simps(2))
  then show ?thesis by (cases g) (auto simp: add_context_def)
qed (auto simp: add_context_def)

lemma add_context_hunks: "HunkSegment i \<in> set (add_context segs ls) \<longleftrightarrow> HunkSegment i \<in> set segs"
proof (cases "rev segs")
  case (Cons g rest)
  then have "segs = rev rest @ [g]" by (metis rev_rev_ident rev.simps(2))
  then show ?thesis by (cases g) (auto simp: add_context_def)
qed (auto simp: add_context_def)

text \<open>The lines a part adds to those a selection shows.\<close>

definition part_lines :: "(nat \<Rightarrow> bool) \<Rightarrow> diff_build \<Rightarrow> diff_part \<Rightarrow> diff_line list" where
  "part_lines sel s p = (let lines = split_lines (dp_value p) in
     if dp_removed p then (if sel (length (db_hunks s)) then [] else removed_lines (db_oldNo s) lines)
     else if dp_added p then (if sel (length (db_hunks s)) then added_lines (db_newNo s) lines else [])
     else context_lines (db_oldNo s) (db_newNo s) lines)"

lemma new_lines_kinds [simp]:
  "l \<in> set (removed_lines n ts) \<Longrightarrow> dl_kind l = RemovedLine" "l \<in> set (added_lines n ts) \<Longrightarrow> dl_kind l = AddedLine"
  by (auto simp: removed_lines_def added_lines_def)

lemma diff_step_ok: "build_ok s \<Longrightarrow> build_ok (diff_step dw limit p s)"
  using close_hunk_ok [of s dw limit]
  by (auto simp: diff_step_def Let_def build_ok_def add_context_hunks split: option.splits)

lemma diff_step_lines:
  assumes "build_ok s"
  shows "map bare (build_lines sel (diff_step dw limit p s)) = map bare (build_lines sel s @ part_lines sel s p)"
proof (cases "\<not> dp_added p \<and> \<not> dp_removed p")
  case True
  have "map bare (build_lines sel (diff_step dw limit p s))
      = map bare (build_lines sel (close_hunk dw limit s) @ context_lines (db_oldNo s) (db_newNo s) (split_lines (dp_value p)))"
    using True by (simp add: diff_step_def Let_def build_lines_def open_lines_def shown_add_context)
  with close_hunk_lines [OF assms, of sel dw limit] True show ?thesis by (simp add: part_lines_def)
next
  case False
  then show ?thesis
    by (auto simp: diff_step_def Let_def build_lines_def open_lines_def part_lines_def split: option.split)
qed

lemma diff_step_counters:
  "db_oldNo (diff_step dw limit p s) = db_oldNo s + (if dp_removed p \<or> \<not> dp_added p then length (split_lines (dp_value p)) else 0)"
  "db_newNo (diff_step dw limit p s) = db_newNo s + (if dp_removed p then 0 else length (split_lines (dp_value p)))"
  "db_open (diff_step dw limit p s) = None \<longleftrightarrow> \<not> dp_added p \<and> \<not> dp_removed p"
  "length (db_hunks (diff_step dw limit p s)) = length (db_hunks s) + (if \<not> dp_added p \<and> \<not> dp_removed p \<and> db_open s \<noteq> None then 1 else 0)"
  by (auto simp: diff_step_def Let_def)

lemma part_lines_texts:
  "map dl_text (part_lines sel s p) = (if (if dp_removed p then \<not> sel (length (db_hunks s)) else dp_added p \<longrightarrow> sel (length (db_hunks s)))
     then split_lines (dp_value p) else [])"
  by (auto simp: part_lines_def Let_def removed_lines_def added_lines_def context_lines_def comp_def case_prod_unfold)

text \<open>So the texts a selection shows are the lines of the values it takes.\<close>

lemma fold_lines:
  assumes "build_ok s" "one_sided ps"
  shows "map dl_text (build_lines sel (fold (diff_step dw limit) ps s))
    = map dl_text (build_lines sel s) @ concat (map split_lines (sel_values sel ps (length (db_hunks s)) (db_open s \<noteq> None)))"
  using assms
proof (induction ps arbitrary: s)
  case (Cons p ps)
  let ?s = "diff_step dw limit p s"
  have step: "map dl_text (build_lines sel ?s) = map dl_text (build_lines sel s) @ map dl_text (part_lines sel s p)"
    using bare_same(2) [OF diff_step_lines [OF Cons.prems(1), of sel dw limit p]] by simp
  have "map dl_text (build_lines sel (fold (diff_step dw limit) ps ?s))
      = map dl_text (build_lines sel ?s) @ concat (map split_lines (sel_values sel ps (length (db_hunks ?s)) (db_open ?s \<noteq> None)))"
    using Cons.prems by (intro Cons.IH diff_step_ok) simp_all
  with step Cons.prems(2) show ?case by (auto simp: part_lines_texts diff_step_counters)
qed simp

lemma fold_ok: "build_ok s \<Longrightarrow> build_ok (fold (diff_step dw limit) ps s)"
  by (induction ps arbitrary: s) (simp_all add: diff_step_ok)

definition start_build :: diff_build where
  "start_build = \<lparr>db_segments = [], db_hunks = [], db_oldNo = 1, db_newNo = 1, db_open = None\<rparr>"

lemma built_start: "built dw limit parts = close_hunk dw limit (fold (diff_step dw limit) parts start_build)"
  by (simp add: built_def start_build_def)

lemma start_build_simps [simp]: "build_ok start_build" "build_lines sel start_build = []" "db_hunks start_build = []" "db_open start_build = None"
  "db_oldNo start_build = 1" "db_newNo start_build = 1"
  by (simp_all add: start_build_def build_ok_def build_lines_def shown_lines_def open_lines_def)

lemma built_texts:
  assumes "one_sided parts"
  shows "map dl_text (shown_lines sel (db_hunks (built dw limit parts)) (db_segments (built dw limit parts)))
    = concat (map split_lines (sel_values sel parts 0 False))"
proof -
  let ?s = "fold (diff_step dw limit) parts start_build"
  have "map dl_text (build_lines sel (built dw limit parts)) = map dl_text (build_lines sel ?s)"
    using bare_same(2) [OF close_hunk_lines [OF fold_ok [OF start_build_simps(1)]]] by (simp add: built_start)
  moreover have "build_lines sel (built dw limit parts)
      = shown_lines sel (db_hunks (built dw limit parts)) (db_segments (built dw limit parts))"
    by (simp add: build_lines_def open_lines_def built_start)
  ultimately show ?thesis using fold_lines [OF start_build_simps(1) assms, of sel dw limit] by simp
qed

section \<open>Line numbers\<close>

lemma upt_join: "i \<le> j \<Longrightarrow> j \<le> k \<Longrightarrow> [i..<j] @ [j..<k] = [i..<(k::nat)]"
  using upt_add_eq_append [of i j "k - j"] by simp

lemma fold_numbers:
  assumes "build_ok s" "one_sided ps"
  shows "map dl_oldNo (build_lines (\<lambda>_. False) (fold (diff_step dw limit) ps s))
      = map dl_oldNo (build_lines (\<lambda>_. False) s) @ map Some [db_oldNo s..<db_oldNo (fold (diff_step dw limit) ps s)]
    \<and> map dl_newNo (build_lines (\<lambda>_. True) (fold (diff_step dw limit) ps s))
      = map dl_newNo (build_lines (\<lambda>_. True) s) @ map Some [db_newNo s..<db_newNo (fold (diff_step dw limit) ps s)]
    \<and> db_oldNo s \<le> db_oldNo (fold (diff_step dw limit) ps s) \<and> db_newNo s \<le> db_newNo (fold (diff_step dw limit) ps s)"
  using assms
proof (induction ps arbitrary: s)
  case (Cons p ps)
  let ?s = "diff_step dw limit p s"
  have numbers: "map dl_oldNo (part_lines (\<lambda>_. False) s p) = map Some [db_oldNo s..<db_oldNo ?s]"
    "map dl_newNo (part_lines (\<lambda>_. True) s p) = map Some [db_newNo s..<db_newNo ?s]"
    using Cons.prems(2)
    by (auto simp: part_lines_def Let_def removed_lines_def added_lines_def context_lines_def comp_def case_prod_unfold
        diff_step_counters intro!: nth_equalityI simp: nth_enumerate_eq)
  have step: "map dl_oldNo (build_lines (\<lambda>_. False) ?s) = map dl_oldNo (build_lines (\<lambda>_. False) s) @ map Some [db_oldNo s..<db_oldNo ?s]"
    "map dl_newNo (build_lines (\<lambda>_. True) ?s) = map dl_newNo (build_lines (\<lambda>_. True) s) @ map Some [db_newNo s..<db_newNo ?s]"
    using bare_same(3) [OF diff_step_lines [OF Cons.prems(1), of "\<lambda>_. False" dw limit p]]
      bare_same(4) [OF diff_step_lines [OF Cons.prems(1), of "\<lambda>_. True" dw limit p]] numbers by simp_all
  have "db_oldNo s \<le> db_oldNo ?s" "db_newNo s \<le> db_newNo ?s" by (simp_all add: diff_step_counters)
  moreover note Cons.IH [OF diff_step_ok [OF Cons.prems(1), of dw limit p]]
  ultimately show ?case using step Cons.prems(2) by (simp add: upt_join flip: map_append)
qed simp


lemma built_numbers:
  assumes "one_sided parts" and b_def: "b = built dw limit parts"
  shows "map dl_oldNo (shown_lines (\<lambda>_. False) (db_hunks b) (db_segments b)) = map Some [1..<db_oldNo b]"
    and "map dl_newNo (shown_lines (\<lambda>_. True) (db_hunks b) (db_segments b)) = map Some [1..<db_newNo b]"
proof -
  let ?s = "fold (diff_step dw limit) parts start_build"
  have b: "build_lines sel b = shown_lines sel (db_hunks b) (db_segments b)" for sel
    by (simp add: b_def build_lines_def open_lines_def built_start)
  have same: "map bare (build_lines sel b) = map bare (build_lines sel ?s)" for sel
    unfolding b_def built_start by (rule close_hunk_lines) (simp add: fold_ok)
  show "map dl_oldNo (shown_lines (\<lambda>_. False) (db_hunks b) (db_segments b)) = map Some [1..<db_oldNo b]"
    using fold_numbers [OF start_build_simps(1) assms(1), of dw limit] bare_same(3) [OF same, of "\<lambda>_. False"]
    by (simp add: b, simp add: b_def built_start)
  show "map dl_newNo (shown_lines (\<lambda>_. True) (db_hunks b) (db_segments b)) = map Some [1..<db_newNo b]"
    using fold_numbers [OF start_build_simps(1) assms(1), of dw limit] bare_same(4) [OF same, of "\<lambda>_. True"]
    by (simp add: b, simp add: b_def built_start)
qed

section \<open>Which hunks there are\<close>

definition hunks_begun :: "diff_build \<Rightarrow> nat" where
  "hunks_begun s = length (db_hunks s) + (if db_open s = None then 0 else 1)"

lemma hunks_begun_step: "hunks_begun s \<le> hunks_begun (diff_step dw limit p s)"
  by (auto simp: hunks_begun_def diff_step_counters)

lemma hunks_begun_fold: "hunks_begun s \<le> hunks_begun (fold (diff_step dw limit) ps s)"
  by (induction ps arbitrary: s) (auto intro: le_trans hunks_begun_step)

lemma sel_values_of_hunks:
  assumes "\<And>j. j < hunks_begun (fold (diff_step dw limit) ps s) \<Longrightarrow> sel j = sel' j"
  shows "sel_values sel ps (length (db_hunks s)) (db_open s \<noteq> None) = sel_values sel' ps (length (db_hunks s)) (db_open s \<noteq> None)"
  using assms
proof (induction ps arbitrary: s)
  case (Cons p ps)
  let ?s = "diff_step dw limit p s"
  have rest: "sel_values sel ps (length (db_hunks ?s)) (db_open ?s \<noteq> None) = sel_values sel' ps (length (db_hunks ?s)) (db_open ?s \<noteq> None)"
    by (intro Cons.IH Cons.prems) simp
  show ?case
  proof (cases "\<not> dp_added p \<and> \<not> dp_removed p")
    case False
    have "length (db_hunks s) < hunks_begun ?s" using False by (simp add: hunks_begun_def diff_step_counters)
    also have "\<dots> \<le> hunks_begun (fold (diff_step dw limit) (p # ps) s)" using hunks_begun_fold [of ?s] by simp
    finally have "sel (length (db_hunks s)) = sel' (length (db_hunks s))" by (rule Cons.prems)
    with rest False show ?thesis by (auto simp: diff_step_counters)
  qed (use rest in \<open>auto simp: diff_step_counters\<close>)
qed simp

lemma sel_values_built:
  assumes "\<And>j. j < length (db_hunks (built dw limit parts)) \<Longrightarrow> sel j = sel' j"
  shows "sel_values sel parts 0 False = sel_values sel' parts 0 False"
  using sel_values_of_hunks [of dw limit parts start_build sel sel'] assms
  by (simp add: hunks_begun_def built_start split: if_splits)

section \<open>What is shown and what is kept\<close>

lemma changed_built:
  assumes "td_state (build_diff diff_lines diff_words limits input) = DiffChanged"
    and "di_before input = Some old" "di_after input = Some new"
  obtains parts where "diff_lines old new (lim_maxEditLines limits) = Some parts"
    "td_hunks (build_diff diff_lines diff_words limits input) = db_hunks (built diff_words (lim_maxWordDiffChars limits) parts)"
    "td_segments (build_diff diff_lines diff_words limits input) = db_segments (built diff_words (lim_maxWordDiffChars limits) parts)"
  using assms by (auto simp: build_diff_def Let_def shown_diff_def empty_diff_def op_of_def split: if_splits option.splits)

lemma selection_lines:
  assumes "compares old new parts"
  shows "split_lines (concat (sel_values sel parts 0 False))
    = map dl_text (shown_lines sel (db_hunks (built dw limit parts)) (db_segments (built dw limit parts)))"
proof -
  have "one_sided parts" using assms by (simp add: compares_def one_sided_def)
  moreover from this have "whole_lines (sel_values sel parts 0 False)"
    using assms by (intro sel_values_whole_lines) (simp_all add: compares_def)
  ultimately show ?thesis by (simp add: built_texts split_lines_concat)
qed

end
