(* ===== verification/Work_Admission.thy ===== *)
theory Work_Admission
  imports Board_State
begin

text \<open>
  The Work command of \<open>server/work-admission.ts\<close>, parsed strictly, with the digest of its canonical payload, and the engine a
  task runs on (\<open>shared/ai-selection.ts\<close>, \<open>shared/engines.ts\<close>). Two functions are parameters: SHA-256, and \<open>relative_name\<close>, which
  normalizes a document's path by the rules of the platform (\<open>server/paths.ts\<close>).
\<close>

section \<open>Routes\<close>

definition external_engines :: "string list" where
  "external_engines = [''claude-code'', ''opencode'', ''oh-my-pi'', ''cursor'', ''devin'']"

definition model_api_routes :: "string list" where
  "model_api_routes = [''aws-bedrock'', ''azure-openai'', ''openrouter'', ''google-vertex'', ''nectovia'', ''bonsai'']"

definition work_routes :: "string list" where
  "work_routes = [''sample'', ''codex''] @ external_engines @ model_api_routes"

definition is_route :: "jval \<Rightarrow> bool" where
  "is_route v \<longleftrightarrow> (case v of JStr r \<Rightarrow> r \<in> set work_routes | _ \<Rightarrow> False)"

definition route_names :: "(string \<times> string) list" where
  "route_names = [(''claude-code'', ''Claude Code''), (''opencode'', ''OpenCode''), (''oh-my-pi'', ''oh-my-pi''), (''cursor'', ''Cursor''),
     (''devin'', ''Devin''), (''codex'', ''Codex''), (''sample'', ''Sample''), (''aws-bedrock'', ''AWS Bedrock''),
     (''azure-openai'', ''Azure OpenAI''), (''openrouter'', ''OpenRouter''), (''google-vertex'', ''Google Vertex AI''),
     (''nectovia'', ''Nectovia''), (''bonsai'', ''Local model'')]"

definition route_displayName :: "string \<Rightarrow> string" where
  "route_displayName i = (if i = '''' then '''' else case map_of route_names i of None \<Rightarrow> i | Some name \<Rightarrow> name)"

text \<open>The thread's own engine, the route of its latest answer, the project's, the settings' default, or the sample.\<close>

definition selected_engine :: "(string \<times> jval) list \<Rightarrow> string option \<Rightarrow> conversation option \<Rightarrow> string" where
  "selected_engine services projectEngine thread =
     (let own = (case thread of None \<Rightarrow> None | Some c \<Rightarrow> cv_engine c);
          prior = (case thread of None \<Rightarrow> None | Some c \<Rightarrow>
            (case find (\<lambda>t. tn_role t \<noteq> ''you'') (rev (cv_turns c)) of None \<Rightarrow> None | Some t \<Rightarrow> tn_route t)) in
      if truthy own then the own
      else if truthy prior then the prior
      else case projectEngine of Some e \<Rightarrow> e
      | None \<Rightarrow> (let saved = jfield services ''defaultEngine'' in
          if is_route saved then (case saved of JStr r \<Rightarrow> r | _ \<Rightarrow> ''sample'') else ''sample''))"

section \<open>The command\<close>

record work_request =
  wq_commandId :: string
  wq_taskId :: string
  wq_route :: string
  wq_capability :: bool
  wq_model :: "string option"
  wq_effort :: "string option"
  wq_instruction :: "string option"
  wq_agentId :: "string option"
  wq_sources :: "string list option"
  wq_consent :: bool
  wq_threadId :: "string option"
  wq_demo :: bool

text \<open>A field that is there with no value is as one that is not; \<open>None\<close> is a field the schema refuses.\<close>

definition trimmed :: "nat \<Rightarrow> jval \<Rightarrow> string option" where
  "trimmed n v = (case v of JStr t \<Rightarrow> (if js_trim t \<noteq> '''' \<and> utf16_units (js_trim t) \<le> n then Some (js_trim t) else None) | _ \<Rightarrow> None)"

definition optional :: "(jval \<Rightarrow> 'a option) \<Rightarrow> jval \<Rightarrow> 'a option option" where
  "optional parse v = (if v = JUndef then Some None else map_option Some (parse v))"

definition source_name :: "jval \<Rightarrow> string option" where
  "source_name v = (case v of JStr t \<Rightarrow> (if t \<noteq> '''' \<and> utf16_units t \<le> 1000 then Some t else None) | _ \<Rightarrow> None)"

definition source_list :: "jval \<Rightarrow> string list option" where
  "source_list v = (case v of JArr vs \<Rightarrow>
       (let names = map source_name vs in if length vs \<le> 8 \<and> list_all (\<lambda>x. x \<noteq> None) names then Some (map the names) else None)
     | _ \<Rightarrow> None)"

definition work_fields :: "string list" where
  "work_fields = [''protocolVersion'', ''commandId'', ''taskId'', ''route'', ''capabilityId'', ''model'', ''effort'', ''instruction'',
     ''agentId'', ''sources'', ''consent'', ''threadId'', ''demo'']"

definition route_field :: "jval \<Rightarrow> string option" where
  "route_field v = (case v of JUndef \<Rightarrow> Some ''sample'' | JStr r \<Rightarrow> (if r \<in> set work_routes then Some r else None) | _ \<Rightarrow> None)"

definition flag_field :: "string \<Rightarrow> jval \<Rightarrow> bool option" where
  "flag_field literal v = (if v = JUndef then Some False else if v = JStr literal then Some True else None)"

definition consent_field :: "jval \<Rightarrow> bool option" where
  "consent_field v = (case v of JUndef \<Rightarrow> Some False | JBool b \<Rightarrow> Some b | _ \<Rightarrow> None)"

text \<open>\<open>id.nullable().optional()\<close>\<close>

definition thread_field :: "jval \<Rightarrow> string option option" where
  "thread_field v = (if v = JNull then Some None else optional (trimmed 100) v)"

definition work_schema :: "(string \<times> jval) list \<Rightarrow> work_request option" where
  "work_schema fs =
     (if \<not> list_all (\<lambda>(k, v). k \<in> set work_fields) fs \<or> jfield fs ''protocolVersion'' \<noteq> JInt 1 then None
      else case (command_id_ok (jfield fs ''commandId''), trimmed 100 (jfield fs ''taskId''), route_field (jfield fs ''route''),
          flag_field ''codex-report'' (jfield fs ''capabilityId''), optional (trimmed 120) (jfield fs ''model''),
          optional (trimmed 40) (jfield fs ''effort''), optional (trimmed 16000) (jfield fs ''instruction''),
          optional (trimmed 80) (jfield fs ''agentId''), optional source_list (jfield fs ''sources''),
          consent_field (jfield fs ''consent''), thread_field (jfield fs ''threadId''), flag_field ''fault'' (jfield fs ''demo'')) of
        (Some commandId, Some taskId, Some route, Some capability, Some model, Some effort, Some instruction, Some agentId,
         Some sources, Some consent, Some threadId, Some demo) \<Rightarrow>
          Some \<lparr>wq_commandId = commandId, wq_taskId = taskId, wq_route = route, wq_capability = capability, wq_model = model,
            wq_effort = effort, wq_instruction = instruction, wq_agentId = agentId, wq_sources = sources, wq_consent = consent,
            wq_threadId = threadId, wq_demo = demo\<rparr>
      | _ \<Rightarrow> None)"

definition work_payload :: "work_request \<Rightarrow> string list \<Rightarrow> jval" where
  "work_payload r sources = JObj (
     [(''type'', JStr ''work.start''), (''protocolVersion'', JInt 1), (''taskId'', JStr (wq_taskId r)), (''route'', JStr (wq_route r))]
     @ (if wq_capability r then [(''capabilityId'', JStr ''codex-report''), (''model'', or_null (wq_model r)), (''effort'', or_null (wq_effort r))]
        else [])
     @ [(''instruction'', or_null (wq_instruction r))]
     @ (case wq_agentId r of None \<Rightarrow> [] | Some a \<Rightarrow> [(''agentId'', JStr a)])
     @ [(''sources'', JArr (map JStr sources)), (''consent'', JBool (wq_consent r)), (''threadId'', or_null (wq_threadId r)),
        (''demo'', if wq_demo r then JStr ''fault'' else JNull)])"

definition invalid_work :: "string \<Rightarrow> refusal" where
  "invalid_work message = ApiError 400 message (Some ''invalid_work_command'')"

text \<open>A body with neither version field is not of this protocol; the answer then is \<open>None\<close>.\<close>

definition uses_commandProtocol :: "jval \<Rightarrow> string \<Rightarrow> refusal + bool" where
  "uses_commandProtocol body family = (case body of JObj fs \<Rightarrow>
       if ''protocolVersion'' \<notin> fst ` set fs \<and> ''commandId'' \<notin> fst ` set fs then Inr False
       else if jfield fs ''protocolVersion'' \<noteq> JInt 1
       then Inl (ApiError 409 (''This '' @ family @ '' command version is unsupported.'') (Some (''unsupported_'' @ family @ ''_protocol'')))
       else Inr True
     | _ \<Rightarrow> Inr False)"

definition parse_workCommand ::
  "(string \<Rightarrow> string) \<Rightarrow> (string \<Rightarrow> refusal + string) \<Rightarrow> jval \<Rightarrow> refusal + (work_request \<times> string list \<times> string) option" where
  "parse_workCommand sha256 relative_name body =
     rbind (uses_commandProtocol body ''work'') (\<lambda>uses.
     if \<not> uses then Inr None
     else case (case body of JObj fs \<Rightarrow> work_schema fs | _ \<Rightarrow> None) of
       None \<Rightarrow> Inl (invalid_work ''Provide a valid version 1 Work command.'')
     | Some r \<Rightarrow>
       if wq_capability r \<and> wq_route r \<noteq> ''codex''
       then Inl (invalid_work (''The codex-report capability runs only on '' @ route_displayName ''codex''
         @ ''. Choose that route for it, or start ordinary Work on this route.''))
       else if (wq_model r \<noteq> None \<or> wq_effort r \<noteq> None) \<and> \<not> wq_capability r
       then Inl (invalid_work ''Explicit capability selections require a capability command.'')
       else if wq_route r \<noteq> ''sample'' \<and> wq_sources r = None
       then Inl (invalid_work ''Provide the explicitly selected source documents, or an empty list.'')
       else
       rbind (rmapM relative_name (case wq_sources r of None \<Rightarrow> [] | Some names \<Rightarrow> names)) (\<lambda>sources.
       if \<not> distinct (map to_lower sources) then Inl (invalid_work ''Select each source document only once.'')
       else Inr (Some (r, sources, payload_digest sha256 (work_payload r sources)))))"

end
