(* ===== verification/Ready_Scheduler.thy ===== *)
theory Ready_Scheduler
  imports Ready_Queue Work_Admission
begin

text \<open>
  The Ready scheduler, \<open>server/ready-scheduler.ts\<close>: it writes a claim before it asks for admission, and settles the claim after
  it. Every change is saved at once, so a run is its list of saved states: a crash, or closing the host, leaves the host
  at one of them, and the next run starts there. Admission itself (\<open>deps.admit\<close>, the Work start path) and the runs the host
  holds in memory (\<open>deps.running\<close>) are arguments, as they are of the class.
\<close>

section \<open>What is saved\<close>

record project =
  pj_board :: board
  pj_engine :: "string option"
  pj_missing :: bool
  pj_queue :: "ready_queue option"

record workshop =
  wk_projects :: "project list"
  wk_services :: "(string \<times> jval) list"
  wk_allPaused :: "queue_pause option"

abbreviation "pj_id p \<equiv> bd_projectId (pj_board p)"

definition find_project :: "workshop \<Rightarrow> string \<Rightarrow> project option" where
  "find_project w i = find (\<lambda>p. pj_id p = i) (wk_projects w)"

definition put_project :: "project \<Rightarrow> workshop \<Rightarrow> workshop" where
  "put_project p w = w\<lparr>wk_projects := map (\<lambda>q. if pj_id q = pj_id p then p else q) (wk_projects w)\<rparr>"

text \<open>The projects a queue runs in: every one but the home.\<close>

definition project_ids :: "workshop \<Rightarrow> string list" where
  "project_ids w = map (\<lambda>p. pj_id p) (filter (\<lambda>p. \<not> bd_home (pj_board p)) (wk_projects w))"

definition queue_of :: "project \<Rightarrow> ready_queue" where
  "queue_of p = (case pj_queue p of None \<Rightarrow> empty_readyQueue | Some q \<Rightarrow> q)"

abbreviation "claims_in p \<equiv> rq_claims (queue_of p)"

text \<open>What the scheduler is given: SHA-256, the paths of the platform, admission, and the runs in memory.\<close>

datatype admit_answer = AdmitThrew string | AdmitAnswered "string option"

record scheduler =
  sc_sha256 :: "string \<Rightarrow> string"
  sc_relativeName :: "string \<Rightarrow> refusal + string"
  sc_admit :: "string \<Rightarrow> jval \<Rightarrow> workshop \<Rightarrow> admit_answer \<times> workshop \<times> workshop list"
  sc_running :: "string \<Rightarrow> bool"

section \<open>The request a claim sends\<close>

definition task_thread :: "project \<Rightarrow> task \<Rightarrow> conversation option" where
  "task_thread p t = find (\<lambda>c. cv_taskId c = Some (tk_id t)) (bd_conversations (pj_board p))"

definition route_for :: "workshop \<Rightarrow> project \<Rightarrow> task \<Rightarrow> string" where
  "route_for w p t = selected_engine (wk_services w) (pj_engine p) (task_thread p t)"

definition command_for :: "project \<Rightarrow> task \<Rightarrow> string \<Rightarrow> string \<Rightarrow> jval" where
  "command_for p t route commandId = JObj (
     [(''protocolVersion'', JInt 1), (''commandId'', JStr commandId), (''taskId'', JStr (tk_id t)), (''route'', JStr route),
      (''sources'', JArr (if route \<noteq> ''sample'' \<and> truthy (tk_sourceDocument t) then [JStr (the (tk_sourceDocument t))] else [])),
      (''consent'', JBool (route \<noteq> ''sample''))]
     @ (case task_thread p t of None \<Rightarrow> [] | Some c \<Rightarrow> [(''threadId'', JStr (cv_id c))]))"

text \<open>The person confirmed exactly this request: an admitted start of the task has its digest.\<close>

definition admitted_for :: "project \<Rightarrow> task \<Rightarrow> string \<Rightarrow> string \<Rightarrow> bool" where
  "admitted_for p t route digest \<longleftrightarrow> list_ex (\<lambda>s. ss_taskId s = tk_id t
     \<and> (case ss_receipt s of None \<Rightarrow> False | Some r \<Rightarrow> wr_route r = route \<and> wr_payloadDigest r = digest)) (bd_sessions (pj_board p))"

definition confirmed :: "scheduler \<Rightarrow> project \<Rightarrow> task \<Rightarrow> string \<Rightarrow> bool" where
  "confirmed sc p t route =
     (case parse_workCommand (sc_sha256 sc) (sc_relativeName sc) (command_for p t route ''ready-consent-check'') of
        Inr (Some (r, sources, digest)) \<Rightarrow> admitted_for p t route digest
      | _ \<Rightarrow> False)"

section \<open>The planner's input\<close>

definition manual_card_hold :: string where
  "manual_card_hold = ''Start it yourself: a manual Team card doesn't start on its own''"

definition refused_claim :: "project \<Rightarrow> task \<Rightarrow> string \<Rightarrow> ready_claim option" where
  "refused_claim p t moment = find (\<lambda>c. rc_taskId c = tk_id t \<and> rc_state c = ClaimRefused \<and> rc_readyAt c = moment) (claims_in p)"

definition task_hold :: "scheduler \<Rightarrow> workshop \<Rightarrow> project \<Rightarrow> task \<Rightarrow> string \<Rightarrow> string option" where
  "task_hold sc w p t moment =
     (if pj_missing p then Some ''The project folder is missing''
      else if is_manualCard t then Some manual_card_hold
      else let route = route_for w p t in
        hold_reason route (route_displayName route) (confirmed sc p t route) (jfield (wk_services w) route = JBool True)
          (case refused_claim p t moment of None \<Rightarrow> None | Some c \<Rightarrow> rc_reason c))"

definition is_pending :: "ready_claim \<Rightarrow> bool" where
  "is_pending c \<longleftrightarrow> rc_state c = Claimed"

definition ready_entry :: "scheduler \<Rightarrow> workshop \<Rightarrow> project \<Rightarrow> task \<Rightarrow> ready_task list" where
  "ready_entry sc w p t =
     (case ready_at t (bd_sessions (pj_board p)) (bd_needs (pj_board p)) (bd_changes (pj_board p)) of None \<Rightarrow> []
      | Some moment \<Rightarrow>
          if list_ex (\<lambda>c. is_pending c \<and> rc_taskId c = tk_id t) (claims_in p) then []
          else [\<lparr>rt_taskId = tk_id t, rt_readyAt = moment, rt_createdAt = tk_createdAt t, rt_hold = task_hold sc w p t moment\<rparr>])"

definition latest_claim :: "ready_claim list \<Rightarrow> string option" where
  "latest_claim claims = foldl (\<lambda>latest c. case latest of None \<Rightarrow> Some (rc_claimedAt c)
     | Some l \<Rightarrow> if text_less l (rc_claimedAt c) then Some (rc_claimedAt c) else Some l) None claims"

definition project_input :: "scheduler \<Rightarrow> workshop \<Rightarrow> string option \<Rightarrow> project \<Rightarrow> ready_project" where
  "project_input sc w viewed p =
     (let queue = queue_of p; active = filter is_activeSession (bd_sessions (pj_board p));
          pending = filter is_pending (claims_in p) in
      \<lparr>rp_id = pj_id p, rp_autoStart = rq_autoStart queue, rp_paused = rq_paused queue,
       rp_running = int (max (length active) (if sc_running sc (pj_id p) then 1 else 0) + length pending),
       rp_awaitingDecision = (list_ex (\<lambda>s. ss_state s = SessionWaiting) active
         \<or> list_ex (\<lambda>n. nd_state n = NeedOpen \<and> list_ex (\<lambda>s. ss_id s = nd_sessionId n) active) (bd_needs (pj_board p))),
       rp_lastClaimAt = latest_claim (claims_in p),
       rp_ready = concat (map (ready_entry sc w p) (if rq_autoStart queue \<or> viewed = Some (pj_id p) then bd_tasks (pj_board p) else []))\<rparr>)"

definition plan_inputs :: "scheduler \<Rightarrow> string option \<Rightarrow> workshop \<Rightarrow> ready_project list" where
  "plan_inputs sc viewed w = map (project_input sc w viewed) (filter (\<lambda>p. \<not> bd_home (pj_board p)) (wk_projects w))"

definition plan_pass :: "collation \<Rightarrow> scheduler \<Rightarrow> string option \<Rightarrow> workshop \<Rightarrow> plan_state option" where
  "plan_pass cmp sc viewed w = plan_readyQueue cmp (wk_allPaused w) ready_queue_limits (plan_inputs sc viewed w)"

text \<open>Whether a pass has anything to do.\<close>

definition pass_due :: "collation \<Rightarrow> scheduler \<Rightarrow> workshop \<Rightarrow> bool" where
  "pass_due cmp sc w \<longleftrightarrow>
     (let queues = map queue_of (filter (\<lambda>p. \<not> bd_home (pj_board p)) (wk_projects w)) in
      list_ex (\<lambda>q. list_ex is_pending (rq_claims q)) queues
      \<or> wk_allPaused w = None \<and> list_ex (\<lambda>q. rq_autoStart q \<and> rq_paused q = None) queues
        \<and> (case plan_pass cmp sc None w of None \<Rightarrow> False | Some s \<Rightarrow> ps_claims s \<noteq> []))"

section \<open>A run\<close>

text \<open>The state in memory, what was saved so far, and how many stamps were used.\<close>

record run_state =
  rn_now :: workshop
  rn_saved :: "workshop list"
  rn_tick :: nat

definition save :: "workshop \<Rightarrow> run_state \<Rightarrow> run_state" where
  "save w r = r\<lparr>rn_now := w, rn_saved := rn_saved r @ [w], rn_tick := rn_tick r + 1\<rparr>"

definition find_claim :: "workshop \<Rightarrow> string \<Rightarrow> string \<Rightarrow> (project \<times> ready_claim) option" where
  "find_claim w projectId claimId = (case find_project w projectId of None \<Rightarrow> None
     | Some p \<Rightarrow> map_option (\<lambda>c. (p, c)) (find (\<lambda>c. rc_id c = claimId) (claims_in p)))"

definition put_claim :: "ready_claim \<Rightarrow> project \<Rightarrow> project" where
  "put_claim c p = p\<lparr>pj_queue := Some ((queue_of p)\<lparr>rq_claims := map (\<lambda>r. if rc_id r = rc_id c then c else r) (claims_in p)\<rparr>)\<rparr>"

definition push_claim :: "ready_claim \<Rightarrow> project \<Rightarrow> project" where
  "push_claim c p = p\<lparr>pj_queue := Some ((queue_of p)\<lparr>rq_claims := claims_in p @ [c]\<rparr>)\<rparr>"

definition task_called :: "project \<Rightarrow> string \<Rightarrow> string" where
  "task_called p taskId = (case find (\<lambda>t. tk_id t = taskId) (bd_tasks (pj_board p)) of None \<Rightarrow> ''a task'' | Some t \<Rightarrow> tk_name t)"

text \<open>The end of a claim, with the History sentence a person reads: \<open>Inl\<close> the reason of a refusal, \<open>Inr\<close> the session.\<close>

definition settle_claim :: "stamp \<Rightarrow> string + string \<Rightarrow> ready_claim \<Rightarrow> project \<Rightarrow> project" where
  "settle_claim st outcome c p =
     (let name = task_called p (rc_taskId c);
          c' = c\<lparr>rc_settledAt := Some (st_now st)\<rparr> in
      case outcome of
        Inr sessionId \<Rightarrow>
          put_claim (c'\<lparr>rc_state := ClaimStarted, rc_sessionId := Some sessionId\<rparr>)
            (p\<lparr>pj_board := snd (add_entry st ''ready-start'' (''Diomedes started '' @ name @ '' from the Ready queue.'') OwnerDiomedes
                 (Some (rc_taskId c)) (Some sessionId) (pj_board p))\<rparr>)
      | Inl reason \<Rightarrow>
          put_claim (c'\<lparr>rc_state := ClaimRefused, rc_reason := Some reason\<rparr>)
            (p\<lparr>pj_board := snd (add_entry st ''ready-start'' (''Diomedes did not start '' @ name @ '' from the Ready queue: '' @ reason)
                 OwnerDiomedes (Some (rc_taskId c)) None (pj_board p))\<rparr>))"

definition settle :: "(nat \<Rightarrow> stamp) \<Rightarrow> string \<Rightarrow> string \<Rightarrow> string + string \<Rightarrow> run_state \<Rightarrow> run_state" where
  "settle clock projectId claimId outcome r = (case find_claim (rn_now r) projectId claimId of None \<Rightarrow> r
     | Some (p, c) \<Rightarrow> save (put_project (settle_claim (clock (rn_tick r)) outcome c p) (rn_now r)) r)"

text \<open>\<open>workCommand\<close>: the session the command started, if any; another family's command answers none here.\<close>

definition admitted_session :: "project \<Rightarrow> string \<Rightarrow> refusal + work_session option" where
  "admitted_session p commandId = work_command (pj_board p) commandId None"

definition live_in :: "project \<Rightarrow> string \<Rightarrow> task option" where
  "live_in p taskId = find (\<lambda>t. tk_id t = taskId \<and> \<not> truthy (tk_deletedAt t)) (bd_tasks (pj_board p))"

definition admit_answered :: "admit_answer \<Rightarrow> string + string" where
  "admit_answered a = (case a of AdmitThrew message \<Rightarrow> Inl message
     | AdmitAnswered (Some sessionId) \<Rightarrow> Inr sessionId
     | AdmitAnswered None \<Rightarrow> Inl ''The Work start path answered without a session.'')"

text \<open>A claim admitted: settled from the session its command already has, or refused, or sent through the Work start path.\<close>

definition admit_claim :: "scheduler \<Rightarrow> (nat \<Rightarrow> stamp) \<Rightarrow> string \<Rightarrow> string \<Rightarrow> run_state \<Rightarrow> refusal + run_state" where
  "admit_claim sc clock projectId claimId r = (case find_claim (rn_now r) projectId claimId of None \<Rightarrow> Inr r
     | Some (p, c) \<Rightarrow>
       rbind (admitted_session p (rc_commandId c)) (\<lambda>admitted.
       case admitted of Some s \<Rightarrow> Inr (settle clock projectId claimId (Inr (ss_id s)) r)
       | None \<Rightarrow> (case live_in p (rc_taskId c) of
           None \<Rightarrow> Inr (settle clock projectId claimId (Inl ''This task is no longer here.'') r)
         | Some t \<Rightarrow>
             if rc_route c \<noteq> ''sample'' \<and> \<not> confirmed sc p t (rc_route c)
             then Inr (settle clock projectId claimId
               (Inl (''Sending to '' @ route_displayName (rc_route c) @ '' needs your confirmation.'')) r)
             else let (answer, w, saves) = sc_admit sc projectId (command_for p t (rc_route c) (rc_commandId c)) (rn_now r) in
               Inr (settle clock projectId claimId (admit_answered answer)
                 (r\<lparr>rn_now := w, rn_saved := rn_saved r @ saves\<rparr>)))))"

text \<open>A run that throws ends there; what it saved stays.\<close>

fun admit_all :: "scheduler \<Rightarrow> (nat \<Rightarrow> stamp) \<Rightarrow> (string \<times> string) list \<Rightarrow> run_state \<Rightarrow> run_state \<times> bool" where
  "admit_all sc clock [] r = (r, True)"
| "admit_all sc clock ((projectId, claimId) # ps) r =
     (case find_claim (rn_now r) projectId claimId of
        Some (p, c) \<Rightarrow> (if is_pending c then (case admit_claim sc clock projectId claimId r of
            Inl e \<Rightarrow> (r, False) | Inr r' \<Rightarrow> admit_all sc clock ps r') else admit_all sc clock ps r)
      | None \<Rightarrow> admit_all sc clock ps r)"

definition claim_ids :: "workshop \<Rightarrow> (string \<times> string) list" where
  "claim_ids w = concat (map (\<lambda>p. map (\<lambda>c. (pj_id p, rc_id c)) (claims_in p)) (filter (\<lambda>p. \<not> bd_home (pj_board p)) (wk_projects w)))"

definition new_claim :: "stamp \<Rightarrow> string \<Rightarrow> string \<Rightarrow> string \<Rightarrow> ready_claim" where
  "new_claim st taskId route readyAt =
     \<lparr>rc_id = ''Q'' @ st_id st, rc_commandId = ''ready:Q'' @ st_id st, rc_taskId = taskId, rc_route = route, rc_claimedAt = st_now st,
      rc_readyAt = readyAt, rc_state = Claimed, rc_sessionId = None, rc_settledAt = None, rc_reason = None\<rparr>"

text \<open>The claim is saved before it is admitted.\<close>

fun start_claims :: "scheduler \<Rightarrow> (nat \<Rightarrow> stamp) \<Rightarrow> planned_claim list \<Rightarrow> run_state \<Rightarrow> run_state" where
  "start_claims sc clock [] r = r"
| "start_claims sc clock (next # claims) r =
     (case find_project (rn_now r) (pc_projectId next) of None \<Rightarrow> r
      | Some p \<Rightarrow> (case live_in p (pc_taskId next) of None \<Rightarrow> start_claims sc clock claims r
        | Some t \<Rightarrow>
            let c = new_claim (clock (rn_tick r)) (tk_id t) (route_for (rn_now r) p t) (pc_readyAt next);
                saved = save (put_project (push_claim c p) (rn_now r)) r in
            (case admit_claim sc clock (pc_projectId next) (rc_id c) saved of
               Inl e \<Rightarrow> saved | Inr r' \<Rightarrow> start_claims sc clock claims r')))"

definition run_pass :: "collation \<Rightarrow> scheduler \<Rightarrow> (nat \<Rightarrow> stamp) \<Rightarrow> workshop \<Rightarrow> run_state" where
  "run_pass cmp sc clock w =
     (let (r, going) = admit_all sc clock (claim_ids w) \<lparr>rn_now = w, rn_saved = [], rn_tick = 0\<rparr> in
      if \<not> going then r
      else case plan_pass cmp sc None (rn_now r) of None \<Rightarrow> r | Some s \<Rightarrow> start_claims sc clock (ps_claims s) r)"

section \<open>Settings\<close>

record queue_request =
  qq_autoStart :: "bool option"
  qq_paused :: "bool option"
  qq_reason :: "string option"

definition pause_of :: "string option \<Rightarrow> string \<Rightarrow> queue_pause" where
  "pause_of reason time = \<lparr>qp_at = time, qp_reason = (case reason of None \<Rightarrow> ''Paused by you''
     | Some t \<Rightarrow> if js_trim t = '''' then ''Paused by you'' else js_trim t)\<rparr>"

definition note_queue :: "stamp \<Rightarrow> string \<Rightarrow> project \<Rightarrow> project" where
  "note_queue st sentence p = p\<lparr>pj_board := snd (add_entry st ''ready-queue'' sentence OwnerYou None None (pj_board p))\<rparr>"

definition set_autoStart :: "stamp \<Rightarrow> bool option \<Rightarrow> project \<Rightarrow> project" where
  "set_autoStart st v p = (case v of None \<Rightarrow> p
     | Some b \<Rightarrow> if b = rq_autoStart (queue_of p) then p
         else note_queue st (if b then ''You turned on starting Ready work automatically.'' else ''You turned off starting Ready work automatically.'')
           (p\<lparr>pj_queue := Some ((queue_of p)\<lparr>rq_autoStart := b, rq_autoStartChangedAt := Some (st_now st)\<rparr>)\<rparr>))"

definition set_paused :: "stamp \<Rightarrow> bool option \<Rightarrow> string option \<Rightarrow> project \<Rightarrow> project" where
  "set_paused st v reason p =
     (let queue = queue_of p in
      if v = Some True \<and> rq_paused queue = None then
        note_queue st (''You paused the Ready queue: '' @ qp_reason (pause_of reason (st_now st)) @ ''.'')
          (p\<lparr>pj_queue := Some (queue\<lparr>rq_paused := Some (pause_of reason (st_now st))\<rparr>)\<rparr>)
      else if v = Some False \<and> rq_paused queue \<noteq> None then
        note_queue st ''You resumed the Ready queue.'' (p\<lparr>pj_queue := Some (queue\<lparr>rq_paused := None\<rparr>)\<rparr>)
      else p)"

text \<open>The request as its schema reads it: \<open>None\<close> is a body the schema refuses.\<close>

definition configure_queue :: "stamp \<Rightarrow> string \<Rightarrow> queue_request option \<Rightarrow> workshop \<Rightarrow> refusal + workshop" where
  "configure_queue st projectId request w =
     (let invalid = Inl (ApiError 400 ''Say whether to start Ready work automatically, or to pause the queue.'' (Some ''invalid_ready_queue'')) in
      case request of None \<Rightarrow> invalid
      | Some q \<Rightarrow>
          if qq_autoStart q = None \<and> qq_paused q = None then invalid
          else (case find_project w projectId of None \<Rightarrow> Inl (ApiError 404 ''This project was not found.'' None)
          | Some p \<Rightarrow>
              if bd_home (pj_board p) then Inl (ApiError 409 home_refuses_work None)
              else Inr (put_project (set_paused st (qq_paused q) (qq_reason q) (set_autoStart st (qq_autoStart q) p)) w)))"

definition configure_all :: "stamp \<Rightarrow> (bool \<times> string option) option \<Rightarrow> workshop \<Rightarrow> refusal + workshop" where
  "configure_all st request w = (case request of
     None \<Rightarrow> Inl (ApiError 400 ''Say whether to pause every Ready queue.'' (Some ''invalid_ready_queue''))
   | Some (paused, reason) \<Rightarrow>
       Inr (w\<lparr>wk_allPaused := (if paused then Some (case wk_allPaused w of None \<Rightarrow> pause_of reason (st_now st) | Some p \<Rightarrow> p) else None)\<rparr>))"

end
