(* ===== verification/Scheduler_Guarantees.thy ===== *)
theory Scheduler_Guarantees
  imports Ready_Scheduler Ready_Fairness
begin

text \<open>
  What a scheduler that may stop after any save keeps: at most one claim is in flight, a claim starts at most one session, and
  admission is asked only for requests the person confirmed. \<open>admission_ok\<close> is what the Work start path promises its caller.
\<close>

section \<open>Sessions of a command\<close>

definition command_sessions :: "project \<Rightarrow> string \<Rightarrow> string list" where
  "command_sessions p commandId =
     map ss_id (filter (\<lambda>s. map_option wr_commandId (ss_receipt s) = Some commandId) (bd_sessions (pj_board p)))"

lemma admitted_session_None: "admitted_session p commandId = Inr None \<Longrightarrow> command_sessions p commandId = []"
  by (auto simp: admitted_session_def Let_def work_command_def find_command_def command_sessions_def find_None_iff filter_empty_conv
      split: option.splits command_record.splits if_splits)

lemma admitted_session_Some: "admitted_session p commandId = Inr (Some s) \<Longrightarrow> ss_id s \<in> set (command_sessions p commandId)"
  by (auto simp: admitted_session_def Let_def work_command_def find_command_def command_sessions_def
      dest!: find_Some_in_set split: option.splits command_record.splits if_splits)

section \<open>What admission promises\<close>

definition same_claims :: "project \<Rightarrow> project \<Rightarrow> bool" where
  "same_claims p q \<longleftrightarrow> pj_id q = pj_id p \<and> bd_home (pj_board q) = bd_home (pj_board p) \<and> claims_in q = claims_in p"

text \<open>A state admission leaves or saves: the claims are as they were, and only the asked command gained a session, at most one.\<close>

definition admits :: "string \<Rightarrow> string \<Rightarrow> workshop \<Rightarrow> workshop \<Rightarrow> bool" where
  "admits i commandId w v \<longleftrightarrow> list_all2 (\<lambda>p q. same_claims p q
     \<and> (\<forall>other. other \<noteq> commandId \<or> pj_id p \<noteq> i \<longrightarrow> command_sessions q other = command_sessions p other)
     \<and> (command_sessions p commandId = [] \<longrightarrow> length (command_sessions q commandId) \<le> 1)) (wk_projects w) (wk_projects v)"

definition admission_ok :: "scheduler \<Rightarrow> bool" where
  "admission_ok sc \<longleftrightarrow> (\<forall>i fs commandId w answer w' saves. jfield fs ''commandId'' = JStr commandId
     \<longrightarrow> sc_admit sc i (JObj fs) w = (answer, w', saves)
     \<longrightarrow> (\<forall>v \<in> insert w' (set saves). admits i commandId w v)
       \<and> (\<forall>s p. answer = AdmitAnswered (Some s) \<and> p \<in> set (wk_projects w') \<and> pj_id p = i
            \<longrightarrow> s \<in> set (command_sessions p commandId)))"

section \<open>What is kept\<close>

definition project_ok :: "project \<Rightarrow> bool" where
  "project_ok p \<longleftrightarrow> (bd_home (pj_board p) \<longrightarrow> claims_in p = []) \<and> distinct (map rc_id (claims_in p))
     \<and> (\<forall>c \<in> set (claims_in p). rc_commandId c = ''ready:'' @ rc_id c \<and> length (command_sessions p (rc_commandId c)) \<le> 1
          \<and> (rc_state c = ClaimStarted \<longrightarrow> (\<exists>s. rc_sessionId c = Some s \<and> s \<in> set (command_sessions p (rc_commandId c)))))"

definition in_flight :: "workshop \<Rightarrow> (string \<times> string) set" where
  "in_flight w = {(pj_id p, rc_id c) | p c. p \<in> set (wk_projects w) \<and> c \<in> set (claims_in p) \<and> is_pending c}"

definition sched_ok :: "workshop \<Rightarrow> bool" where
  "sched_ok w \<longleftrightarrow> distinct (map (\<lambda>p. pj_id p) (wk_projects w)) \<and> (\<forall>p \<in> set (wk_projects w). project_ok p)
     \<and> (\<forall>x \<in> in_flight w. \<forall>y \<in> in_flight w. x = y)"

text \<open>The ids still to come are in nobody's use.\<close>

definition fresh_from :: "(nat \<Rightarrow> stamp) \<Rightarrow> nat \<Rightarrow> workshop \<Rightarrow> bool" where
  "fresh_from clock k w \<longleftrightarrow> inj (\<lambda>n. st_id (clock n))
     \<and> (\<forall>n \<ge> k. \<forall>p \<in> set (wk_projects w). ''Q'' @ st_id (clock n) \<notin> rc_id ` set (claims_in p)
          \<and> command_sessions p (''ready:Q'' @ st_id (clock n)) = [])"

section \<open>One project written back\<close>

lemma find_project_Some: "find_project w i = Some p \<Longrightarrow> p \<in> set (wk_projects w) \<and> pj_id p = i"
  unfolding find_project_def by (drule find_Some_in_set) auto

lemma find_claim_Some:
  "find_claim w i j = Some (p, c) \<Longrightarrow> p \<in> set (wk_projects w) \<and> pj_id p = i \<and> c \<in> set (claims_in p) \<and> rc_id c = j"
  unfolding find_claim_def by (auto dest!: find_project_Some find_Some_in_set split: option.splits)

lemma projects_put_project:
  assumes "distinct (map (\<lambda>p. pj_id p) (wk_projects w))" "p \<in> set (wk_projects w)" "pj_id p' = pj_id p"
  shows "set (wk_projects (put_project p' w)) = insert p' (set (wk_projects w) - {p})"
    and "map (\<lambda>p. pj_id p) (wk_projects (put_project p' w)) = map (\<lambda>p. pj_id p) (wk_projects w)"
proof -
  have only: "q = p" if "q \<in> set (wk_projects w)" "pj_id q = pj_id p" for q
    using assms(1,2) that by (auto simp: distinct_map dest: inj_onD)
  show "set (wk_projects (put_project p' w)) = insert p' (set (wk_projects w) - {p})"
    using assms(2,3) only by (auto simp: put_project_def image_iff)
  show "map (\<lambda>p. pj_id p) (wk_projects (put_project p' w)) = map (\<lambda>p. pj_id p) (wk_projects w)"
    using assms(3) by (auto simp: put_project_def)
qed

definition flight_of :: "project \<Rightarrow> string set" where
  "flight_of p = rc_id ` set (filter is_pending (claims_in p))"

lemma in_flight_iff: "(i, j) \<in> in_flight w \<longleftrightarrow> (\<exists>p \<in> set (wk_projects w). pj_id p = i \<and> j \<in> flight_of p)"
  by (auto simp: in_flight_def flight_of_def)

lemma in_flight_put:
  assumes "distinct (map (\<lambda>p. pj_id p) (wk_projects w))" "p \<in> set (wk_projects w)" "pj_id p' = pj_id p"
  shows "in_flight (put_project p' w) = {x \<in> in_flight w. fst x \<noteq> pj_id p} \<union> {pj_id p} \<times> flight_of p'"
proof -
  have "q = p" if "q \<in> set (wk_projects w)" "pj_id q = pj_id p" for q
    using assms(1,2) that by (auto simp: distinct_map dest: inj_onD)
  then show ?thesis using assms(2,3)
    by (auto simp: set_eq_iff in_flight_iff projects_put_project [OF assms])
qed

lemma in_flight_at:
  assumes "distinct (map (\<lambda>p. pj_id p) (wk_projects w))" "p \<in> set (wk_projects w)"
  shows "(pj_id p, j) \<in> in_flight w \<longleftrightarrow> j \<in> flight_of p"
proof -
  have "q = p" if "q \<in> set (wk_projects w)" "pj_id q = pj_id p" for q
    using assms that by (auto simp: distinct_map dest: inj_onD)
  with assms(2) show ?thesis unfolding in_flight_iff by metis
qed

section \<open>Settling and claiming\<close>

lemma claims_settled [simp]:
  "claims_in (settle_claim st outcome c p) = map (\<lambda>r. if rc_id r = rc_id c
     then (case outcome of Inr s \<Rightarrow> c\<lparr>rc_settledAt := Some (st_now st), rc_state := ClaimStarted, rc_sessionId := Some s\<rparr>
       | Inl reason \<Rightarrow> c\<lparr>rc_settledAt := Some (st_now st), rc_state := ClaimRefused, rc_reason := Some reason\<rparr>) else r) (claims_in p)"
  by (auto simp: settle_claim_def put_claim_def queue_of_def Let_def split: sum.splits)

lemma settled_keeps [simp]:
  "pj_id (settle_claim st outcome c p) = pj_id p" "bd_home (pj_board (settle_claim st outcome c p)) = bd_home (pj_board p)"
  "command_sessions (settle_claim st outcome c p) commandId = command_sessions p commandId"
  by (auto simp: settle_claim_def put_claim_def Let_def command_sessions_def split: sum.splits)

lemma settled_ids: "map rc_id (claims_in (settle_claim st outcome c p)) = map rc_id (claims_in p)"
  by (auto split: sum.split)

lemma settled_project_ok:
  assumes "project_ok p" "c \<in> set (claims_in p)" "\<And>s. outcome = Inr s \<Longrightarrow> s \<in> set (command_sessions p (rc_commandId c))"
  shows "project_ok (settle_claim st outcome c p)"
proof -
  let ?p = "settle_claim st outcome c p"
  have "distinct (map rc_id (claims_in p))" using assms(1) by (simp add: project_ok_def)
  then have "distinct (map rc_id (claims_in ?p))" by (simp only: settled_ids)
  moreover have "rc_commandId r = ''ready:'' @ rc_id r \<and> length (command_sessions ?p (rc_commandId r)) \<le> 1
      \<and> (rc_state r = ClaimStarted \<longrightarrow> (\<exists>s. rc_sessionId r = Some s \<and> s \<in> set (command_sessions ?p (rc_commandId r))))"
    if "r \<in> set (claims_in ?p)" for r
    using that assms by (cases outcome) (auto simp: project_ok_def split: if_splits)
  moreover have "bd_home (pj_board ?p) \<longrightarrow> claims_in ?p = []" using assms(1) by (simp add: project_ok_def)
  ultimately show ?thesis unfolding project_ok_def by blast
qed

lemma settled_flight:
  assumes "distinct (map rc_id (claims_in p))" "c \<in> set (claims_in p)"
  shows "flight_of (settle_claim st outcome c p) = flight_of p - {rc_id c}"
  by (auto simp: flight_of_def image_iff is_pending_def split: sum.splits if_splits)

lemma pushed_keeps [simp]:
  "pj_id (push_claim c p) = pj_id p" "bd_home (pj_board (push_claim c p)) = bd_home (pj_board p)"
  "command_sessions (push_claim c p) commandId = command_sessions p commandId" "claims_in (push_claim c p) = claims_in p @ [c]"
  by (auto simp: push_claim_def command_sessions_def queue_of_def)


lemma pushed_project_ok:
  assumes "project_ok p" "\<not> bd_home (pj_board p)" "rc_id c \<notin> rc_id ` set (claims_in p)" "rc_commandId c = ''ready:'' @ rc_id c"
    and "command_sessions p (rc_commandId c) = []" "rc_state c = Claimed"
  shows "project_ok (push_claim c p)"
  using assms by (auto simp: project_ok_def)

lemma pushed_flight: "rc_state c = Claimed \<Longrightarrow> flight_of (push_claim c p) = insert (rc_id c) (flight_of p)"
  by (simp add: flight_of_def is_pending_def)

lemma fresh_from_mono: "fresh_from clock k w \<Longrightarrow> k \<le> m \<Longrightarrow> fresh_from clock m w"
  by (auto simp: fresh_from_def)

lemma fresh_from_put:
  assumes "fresh_from clock k w" "distinct (map (\<lambda>p. pj_id p) (wk_projects w))" "p \<in> set (wk_projects w)" "pj_id p' = pj_id p"
    and "\<And>n. k \<le> n \<Longrightarrow> ''Q'' @ st_id (clock n) \<notin> rc_id ` set (claims_in p') \<and> command_sessions p' (''ready:Q'' @ st_id (clock n)) = []"
  shows "fresh_from clock k (put_project p' w)"
  using assms by (auto simp: fresh_from_def projects_put_project [OF assms(2-4)])

lemma sched_ok_put:
  assumes "sched_ok w" "p \<in> set (wk_projects w)" "pj_id p' = pj_id p" "project_ok p'"
    and "\<And>x y. x \<in> in_flight (put_project p' w) \<Longrightarrow> y \<in> in_flight (put_project p' w) \<Longrightarrow> x = y"
  shows "sched_ok (put_project p' w)"
proof -
  have d: "distinct (map (\<lambda>p. pj_id p) (wk_projects w))" using assms(1) by (simp add: sched_ok_def)
  show ?thesis using assms(1,4,5) projects_put_project [OF d assms(2,3)] by (simp add: sched_ok_def)
qed

definition homes :: "workshop \<Rightarrow> string set" where
  "homes w = {pj_id p | p. p \<in> set (wk_projects w) \<and> bd_home (pj_board p)}"

lemma homes_put:
  assumes "distinct (map (\<lambda>p. pj_id p) (wk_projects w))" "p \<in> set (wk_projects w)" "pj_id p' = pj_id p"
    and "bd_home (pj_board p') = bd_home (pj_board p)"
  shows "homes (put_project p' w) = homes w"
proof -
  note rows = projects_put_project(1) [OF assms(1-3)]
  show ?thesis
  proof (intro equalityI subsetI)
    fix i assume "i \<in> homes w"
    then obtain q where q: "q \<in> set (wk_projects w)" "bd_home (pj_board q)" "i = pj_id q" by (auto simp: homes_def)
    let ?q = "if q = p then p' else q"
    have "?q \<in> insert p' (set (wk_projects w) - {p})" "bd_home (pj_board ?q)" "i = pj_id ?q" using q assms(3,4) by auto
    then show "i \<in> homes (put_project p' w)" unfolding homes_def rows by blast
  qed (use assms(2-4) in \<open>auto simp: homes_def rows\<close>)
qed

section \<open>A run keeps it\<close>

definition run_ok :: "(nat \<Rightarrow> stamp) \<Rightarrow> run_state \<Rightarrow> bool" where
  "run_ok clock r \<longleftrightarrow> sched_ok (rn_now r) \<and> (\<forall>v \<in> set (rn_saved r). sched_ok v) \<and> fresh_from clock (rn_tick r) (rn_now r)"

lemma settle_ok:
  assumes ok: "run_ok clock r" and c: "find_claim (rn_now r) i j = Some (p, c)"
    and s: "\<And>s. outcome = Inr s \<Longrightarrow> s \<in> set (command_sessions p (rc_commandId c))"
  shows "run_ok clock (settle clock i j outcome r)"
    and "in_flight (rn_now (settle clock i j outcome r)) = in_flight (rn_now r) - {(i, j)}"
    and "homes (rn_now (settle clock i j outcome r)) = homes (rn_now r)"
proof -
  let ?p = "settle_claim (clock (rn_tick r)) outcome c p" and ?w = "rn_now r"
  note p = find_claim_Some [OF c]
  have d: "distinct (map (\<lambda>p. pj_id p) (wk_projects ?w))" and po: "project_ok p" "sched_ok ?w" "fresh_from clock (rn_tick r) ?w"
    using ok p by (auto simp: run_ok_def sched_ok_def)
  then have ids: "distinct (map rc_id (claims_in p))" by (simp add: project_ok_def)
  have flight: "in_flight (put_project ?p ?w) = in_flight ?w - {(i, j)}"
  proof (rule set_eqI)
    fix x
    show "x \<in> in_flight (put_project ?p ?w) \<longleftrightarrow> x \<in> in_flight ?w - {(i, j)}"
      using p in_flight_at [OF d, of p] settled_flight [OF ids, of c]
      by (cases x) (auto simp: in_flight_put [OF d])
  qed
  have "sched_ok (put_project ?p ?w)"
    using po p settled_project_ok [OF po(1) _ s] by (intro sched_ok_put) (auto simp: flight, auto simp: sched_ok_def)
  moreover have "rc_id ` set (claims_in ?p) = rc_id ` set (claims_in p)"
    using settled_ids by (metis list.set_map)
  then have "fresh_from clock (rn_tick r) (put_project ?p ?w)"
    using po(3) p by (intro fresh_from_put [OF po(3) d]) (auto simp: fresh_from_def)
  ultimately show "run_ok clock (settle clock i j outcome r)"
    using ok fresh_from_mono [of clock "rn_tick r" _ "rn_tick r + 1"] by (simp add: settle_def c save_def run_ok_def)
  show "in_flight (rn_now (settle clock i j outcome r)) = in_flight (rn_now r) - {(i, j)}"
    by (simp add: settle_def c save_def flight)
  show "homes (rn_now (settle clock i j outcome r)) = homes (rn_now r)"
    using homes_put [OF d p [THEN conjunct1], of ?p] by (simp add: settle_def c save_def)
qed


text \<open>Admission leaves the claims; only the asked command, which had no session yet, may have one now.\<close>

lemma list_all2_member: "list_all2 R xs ys \<Longrightarrow> y \<in> set ys \<Longrightarrow> \<exists>x \<in> set xs. R x y"
  by (metis in_set_conv_nth list_all2_conv_all_nth)

text \<open>What of a project the scheduler's account is made of, besides the sessions.\<close>

definition claim_sheet :: "project \<Rightarrow> string \<times> string set \<times> bool" where
  "claim_sheet p = (pj_id p, flight_of p, bd_home (pj_board p))"

lemma in_flight_sheets: "in_flight w = {(i, j). \<exists>f h. (i, f, h) \<in> set (map claim_sheet (wk_projects w)) \<and> j \<in> f}"
  unfolding set_eq_iff split_paired_All by (auto simp: in_flight_iff claim_sheet_def image_iff)

lemma homes_sheets: "homes w = {i. \<exists>f. (i, f, True) \<in> set (map claim_sheet (wk_projects w))}"
  by (auto simp: homes_def claim_sheet_def image_iff)

lemma same_claims_sheet: "same_claims p q \<Longrightarrow> claim_sheet q = claim_sheet p"
  by (simp add: same_claims_def claim_sheet_def flight_of_def)

definition keeps_claims :: "workshop \<Rightarrow> workshop \<Rightarrow> bool" where
  "keeps_claims w v \<longleftrightarrow> list_all2 same_claims (wk_projects w) (wk_projects v)"

lemma keeps_sheets:
  assumes "keeps_claims w v"
  shows "map claim_sheet (wk_projects v) = map claim_sheet (wk_projects w)"
  using assms unfolding keeps_claims_def by (induction rule: list_all2_induct) (simp_all add: same_claims_sheet)

lemma keeps_account:
  assumes "keeps_claims w v"
  shows "in_flight v = in_flight w" "homes v = homes w"
    and "map (\<lambda>p. pj_id p) (wk_projects v) = map (\<lambda>p. pj_id p) (wk_projects w)"
proof -
  note same = keeps_sheets [OF assms]
  show "in_flight v = in_flight w" "homes v = homes w" by (simp_all only: in_flight_sheets homes_sheets same)
  have "map (\<lambda>p. pj_id p) (wk_projects v) = map fst (map claim_sheet (wk_projects v))" by (simp add: claim_sheet_def)
  then show "map (\<lambda>p. pj_id p) (wk_projects v) = map (\<lambda>p. pj_id p) (wk_projects w)" by (simp add: same claim_sheet_def)
qed

lemma admits_keeps: "admits i commandId w v \<Longrightarrow> keeps_claims w v"
  unfolding admits_def keeps_claims_def by (erule list_all2_mono) (elim conjE)

lemma keeps_claim:
  assumes "keeps_claims w v" "find_claim w j k = Some (p, c)"
  shows "\<exists>q. find_claim v j k = Some (q, c)"
proof -
  have "rel_option same_claims (find_project w j) (find_project v j)"
    using assms(1) unfolding find_project_def keeps_claims_def
    by (induction rule: list_all2_induct) (auto simp: same_claims_def)
  with assms(2) show ?thesis
    by (cases "find_project v j") (auto simp: find_claim_def same_claims_def split: option.splits)
qed

lemma project_ok_sessions:
  assumes "project_ok p" "same_claims p q"
    and "\<And>c. c \<in> set (claims_in p) \<Longrightarrow> command_sessions q (rc_commandId c) = command_sessions p (rc_commandId c)
      \<or> command_sessions p (rc_commandId c) = [] \<and> length (command_sessions q (rc_commandId c)) \<le> 1"
  shows "project_ok q"
proof -
  have "rc_commandId c = ''ready:'' @ rc_id c \<and> length (command_sessions q (rc_commandId c)) \<le> 1
      \<and> (rc_state c = ClaimStarted \<longrightarrow> (\<exists>s. rc_sessionId c = Some s \<and> s \<in> set (command_sessions q (rc_commandId c))))"
    if c: "c \<in> set (claims_in p)" for c
  proof -
    from assms(1) c have old: "rc_commandId c = ''ready:'' @ rc_id c" "length (command_sessions p (rc_commandId c)) \<le> 1"
      "rc_state c = ClaimStarted \<longrightarrow> (\<exists>s. rc_sessionId c = Some s \<and> s \<in> set (command_sessions p (rc_commandId c)))"
      unfolding project_ok_def by blast+
    from assms(3) [OF c] show ?thesis
    proof (elim disjE conjE)
      assume "command_sessions q (rc_commandId c) = command_sessions p (rc_commandId c)"
      with old show ?thesis by (metis (no_types))
    next
      assume none: "command_sessions p (rc_commandId c) = []" and one: "length (command_sessions q (rc_commandId c)) \<le> 1"
      from old(3) have "rc_state c \<noteq> ClaimStarted" unfolding none by auto
      with old(1) one show ?thesis by blast
    qed
  qed
  moreover have eqs: "claims_in q = claims_in p" "bd_home (pj_board q) = bd_home (pj_board p)"
    using assms(2) by (simp_all add: same_claims_def)
  ultimately show ?thesis using assms(1) unfolding project_ok_def eqs by blast
qed

lemma admits_sched_ok:
  assumes ok: "sched_ok w" and rows: "admits i commandId w v"
    and none: "\<And>p. p \<in> set (wk_projects w) \<Longrightarrow> pj_id p = i \<Longrightarrow> command_sessions p commandId = []"
  shows "sched_ok v"
proof -
  note keeps = keeps_account [OF admits_keeps [OF rows]]
  have "project_ok q" if q: "q \<in> set (wk_projects v)" for q
  proof -
    from list_all2_member [OF rows [unfolded admits_def] q] obtain p where p: "p \<in> set (wk_projects w)" "same_claims p q"
      "\<forall>other. other \<noteq> commandId \<or> pj_id p \<noteq> i \<longrightarrow> command_sessions q other = command_sessions p other"
      "command_sessions p commandId = [] \<longrightarrow> length (command_sessions q commandId) \<le> 1" by blast
    have "project_ok p" using ok p(1) by (simp add: sched_ok_def)
    then show ?thesis using p(2)
    proof (rule project_ok_sessions)
      fix c
      show "command_sessions q (rc_commandId c) = command_sessions p (rc_commandId c)
        \<or> command_sessions p (rc_commandId c) = [] \<and> length (command_sessions q (rc_commandId c)) \<le> 1"
        using p(3,4) none [OF p(1)] by (cases "rc_commandId c = commandId \<and> pj_id p = i") auto
    qed
  qed
  then show ?thesis using ok unfolding sched_ok_def keeps by blast
qed

lemma admits_fresh:
  assumes fresh: "fresh_from clock k w" and rows: "admits i commandId w v" and old: "\<And>n. k \<le> n \<Longrightarrow> commandId \<noteq> ''ready:Q'' @ st_id (clock n)"
  shows "fresh_from clock k v"
proof -
  have "''Q'' @ st_id (clock n) \<notin> rc_id ` set (claims_in q) \<and> command_sessions q (''ready:Q'' @ st_id (clock n)) = []"
    if "k \<le> n" "q \<in> set (wk_projects v)" for n q
  proof -
    from list_all2_member [OF rows [unfolded admits_def] that(2)] obtain p where p: "p \<in> set (wk_projects w)" "same_claims p q"
      "\<forall>other. other \<noteq> commandId \<or> pj_id p \<noteq> i \<longrightarrow> command_sessions q other = command_sessions p other" by blast
    have "command_sessions q (''ready:Q'' @ st_id (clock n)) = command_sessions p (''ready:Q'' @ st_id (clock n))"
      using p(3) old [OF that(1)] by metis
    with fresh p(1,2) that(1) show ?thesis by (simp add: fresh_from_def same_claims_def)
  qed
  with fresh show ?thesis by (simp add: fresh_from_def)
qed

lemma command_for_id: "\<exists>fs. command_for p t route commandId = JObj fs \<and> jfield fs ''commandId'' = JStr commandId"
  by (simp add: command_for_def)

lemma admit_answered_Inr: "admit_answered answer = Inr s \<Longrightarrow> answer = AdmitAnswered (Some s)"
  by (auto simp: admit_answered_def split: admit_answer.splits option.splits)

lemma find_claim_own:
  assumes "distinct (map (\<lambda>p. pj_id p) (wk_projects w))" "find_claim w i j = Some (p, c)" "q \<in> set (wk_projects w)" "pj_id q = i"
  shows "q = p"
  using assms find_claim_Some [OF assms(2)] by (auto simp: distinct_map dest: inj_onD)

text \<open>A claim whose command has a session is settled from it; the others are refused, or sent to admission once.\<close>

lemma admit_claim_cases:
  assumes "admit_claim sc clock i j r = Inr r'" "find_claim (rn_now r) i j = Some (p, c)"
  obtains (started) s where "s \<in> set (command_sessions p (rc_commandId c))" "r' = settle clock i j (Inr s) r"
  | (refused) reason where "r' = settle clock i j (Inl reason) r"
  | (asked) t answer w saves where "command_sessions p (rc_commandId c) = []"
      "sc_admit sc i (command_for p t (rc_route c) (rc_commandId c)) (rn_now r) = (answer, w, saves)"
      "r' = settle clock i j (admit_answered answer) (r\<lparr>rn_now := w, rn_saved := rn_saved r @ saves\<rparr>)"
      "rc_route c = ''sample'' \<or> confirmed sc p t (rc_route c)"
proof -
  from assms obtain admitted where a: "admitted_session p (rc_commandId c) = Inr admitted"
    by (auto simp: admit_claim_def rbind_Inr_iff)
  show thesis
  proof (cases admitted)
    case (Some s)
    with assms a have "r' = settle clock i j (Inr (ss_id s)) r" by (simp add: admit_claim_def)
    with started [of "ss_id s"] admitted_session_Some a Some show thesis by simp
  next
    case None
    show thesis
    proof (cases "live_in p (rc_taskId c)")
      case None
      with assms a \<open>admitted = None\<close> have "r' = settle clock i j (Inl ''This task is no longer here.'') r"
        by (simp add: admit_claim_def)
      then show thesis by (rule refused)
    next
      case (Some t)
      obtain answer w saves where
        sent: "sc_admit sc i (command_for p t (rc_route c) (rc_commandId c)) (rn_now r) = (answer, w, saves)" by (metis prod_cases3)
      have "command_sessions p (rc_commandId c) = []" using admitted_session_None a None by simp
      with assms a None Some sent refused asked [OF _ sent] show thesis
        by (cases "rc_route c \<noteq> ''sample'' \<and> \<not> confirmed sc p t (rc_route c)") (auto simp: admit_claim_def)
    qed
  qed
qed

lemma admit_claim_ok:
  assumes adm: "admission_ok sc" and ok: "run_ok clock r" and c: "find_claim (rn_now r) i j = Some (p, c)"
    and run: "admit_claim sc clock i j r = Inr r'"
  shows "run_ok clock r' \<and> in_flight (rn_now r') = in_flight (rn_now r) - {(i, j)} \<and> homes (rn_now r') = homes (rn_now r)"
  using run c
proof (cases rule: admit_claim_cases)
  case (started s)
  with settle_ok [OF ok c, of "Inr s"] show ?thesis by simp
next
  case (refused reason)
  with settle_ok [OF ok c, of "Inl reason"] show ?thesis by simp
next
  case (asked t answer w saves)
  let ?r = "r\<lparr>rn_now := w, rn_saved := rn_saved r @ saves\<rparr>" and ?cmd = "rc_commandId c"
  have now: "sched_ok (rn_now r)" "fresh_from clock (rn_tick r) (rn_now r)" using ok by (simp_all add: run_ok_def)
  then have d: "distinct (map (\<lambda>p. pj_id p) (wk_projects (rn_now r)))" by (simp add: sched_ok_def)
  note p = find_claim_Some [OF c]
  from command_for_id [of p t "rc_route c" ?cmd] adm asked(2)
  have left: "\<forall>v \<in> insert w (set saves). admits i ?cmd (rn_now r) v"
    and has: "\<forall>s q. answer = AdmitAnswered (Some s) \<and> q \<in> set (wk_projects w) \<and> pj_id q = i \<longrightarrow> s \<in> set (command_sessions q ?cmd)"
    unfolding admission_ok_def by metis+
  have none: "command_sessions q ?cmd = []" if "q \<in> set (wk_projects (rn_now r))" "pj_id q = i" for q
    using find_claim_own [OF d c that] asked(1) by simp
  have old: "?cmd \<noteq> ''ready:Q'' @ st_id (clock n)" if "rn_tick r \<le> n" for n
  proof -
    have "rc_commandId c = ''ready:'' @ rc_id c" "rc_id c \<noteq> ''Q'' @ st_id (clock n)"
      using now p that unfolding sched_ok_def project_ok_def fresh_from_def by (metis, metis imageI)
    then show ?thesis by (simp only: append.simps list.inject append_same_eq) simp
  qed
  have "\<forall>v \<in> insert w (set saves). sched_ok v" using left admits_sched_ok [OF now(1) _ none] by blast
  moreover have "fresh_from clock (rn_tick r) w" using left admits_fresh [OF now(2) _ old] by blast
  ultimately have ok': "run_ok clock ?r" using ok by (auto simp: run_ok_def)
  have keeps: "keeps_claims (rn_now r) w" using left admits_keeps by blast
  from keeps_claim [OF this c] obtain q where q: "find_claim (rn_now ?r) i j = Some (q, c)" by auto
  have "s \<in> set (command_sessions q ?cmd)" if "admit_answered answer = Inr s" for s
    using has admit_answered_Inr [OF that] find_claim_Some [OF q] by simp
  from settle_ok [OF ok' q this] asked(3) keeps_account [OF keeps] show ?thesis by simp
qed

lemma in_flight_found:
  assumes "sched_ok w" "(i, j) \<in> in_flight w"
  shows "\<exists>p c. find_claim w i j = Some (p, c) \<and> is_pending c"
proof -
  from assms(2) obtain p c where p: "p \<in> set (wk_projects w)" "pj_id p = i" "c \<in> set (claims_in p)" "rc_id c = j" "is_pending c"
    by (auto simp: in_flight_def)
  have "distinct (map (\<lambda>p. pj_id p) (wk_projects w))" "distinct (map rc_id (claims_in p))"
    using assms(1) p(1) by (simp_all add: sched_ok_def project_ok_def)
  then have "find (\<lambda>q. pj_id q = i) (wk_projects w) = Some p" "find (\<lambda>r. rc_id r = j) (claims_in p) = Some c"
    using p find_by_key [of _ _ p] find_by_key [of _ _ c] by blast+
  with p(5) show ?thesis by (simp add: find_claim_def find_project_def)
qed

lemma in_flight_ids:
  assumes "sched_ok w"
  shows "in_flight w \<subseteq> set (claim_ids w)"
proof
  fix x assume "x \<in> in_flight w"
  then obtain p c where p: "x = (pj_id p, rc_id c)" "p \<in> set (wk_projects w)" "c \<in> set (claims_in p)" by (auto simp: in_flight_def)
  moreover have "\<not> bd_home (pj_board p)" using assms p(2,3) by (auto simp: sched_ok_def project_ok_def)
  ultimately show "x \<in> set (claim_ids w)" by (auto simp: claim_ids_def)
qed

lemma admit_all_ok:
  assumes "admission_ok sc" "admit_all sc clock ps r = (r', going)" "run_ok clock r"
  shows "run_ok clock r' \<and> homes (rn_now r') = homes (rn_now r) \<and> in_flight (rn_now r') \<subseteq> in_flight (rn_now r)
    \<and> (going \<longrightarrow> in_flight (rn_now r') \<inter> set ps = {})"
  using assms(2,3)
proof (induction ps arbitrary: r)
  case (Cons x ps)
  obtain i j where x: "x = (i, j)" by (cases x)
  show ?case
  proof (cases "\<exists>p c. find_claim (rn_now r) i j = Some (p, c) \<and> is_pending c")
    case True
    then obtain p c where c: "find_claim (rn_now r) i j = Some (p, c)" "is_pending c" by blast
    show ?thesis
    proof (cases "admit_claim sc clock i j r")
      case (Inr r1)
      note one = admit_claim_ok [OF assms(1) Cons.prems(2) c(1) Inr]
      from Cons.prems(1) Inr c x have "admit_all sc clock ps r1 = (r', going)" by simp
      from Cons.IH [OF this] one x show ?thesis by auto
    qed (use Cons.prems c x in auto)
  next
    case False
    then have "(i, j) \<notin> in_flight (rn_now r)" using in_flight_found [of "rn_now r" i j] Cons.prems(2) unfolding run_ok_def by blast
    moreover have "admit_all sc clock ps r = (r', going)"
      using False Cons.prems(1) x by (auto split: option.splits if_splits)
    ultimately show ?thesis using Cons.IH [of r] Cons.prems(2) x by auto
  qed
qed auto

lemma new_claim_sel [simp]:
  "rc_id (new_claim st t route m) = ''Q'' @ st_id st" "rc_commandId (new_claim st t route m) = ''ready:Q'' @ st_id st"
  "rc_state (new_claim st t route m) = Claimed"
  by (simp_all add: new_claim_def)

lemma push_ok:
  assumes ok: "run_ok clock r" and p: "find_project (rn_now r) i = Some p" "i \<notin> homes (rn_now r)" and idle: "in_flight (rn_now r) = {}"
    and c: "c = new_claim (clock (rn_tick r)) t route m" and r': "r' = save (put_project (push_claim c p) (rn_now r)) r"
  shows "run_ok clock r'" "in_flight (rn_now r') = {(i, rc_id c)}" "homes (rn_now r') = homes (rn_now r)"
    "\<exists>q. find_claim (rn_now r') i (rc_id c) = Some (q, c)"
proof -
  let ?w = "rn_now r" and ?q = "push_claim c p"
  note at = find_project_Some [OF p(1)]
  have d: "distinct (map (\<lambda>p. pj_id p) (wk_projects ?w))" and po: "project_ok p" "sched_ok ?w" "fresh_from clock (rn_tick r) ?w"
    using ok at by (auto simp: run_ok_def sched_ok_def)
  have home: "\<not> bd_home (pj_board p)" using p(2) at by (auto simp: homes_def)
  have new: "rc_id c \<notin> rc_id ` set (claims_in p)" "command_sessions p (rc_commandId c) = []"
    using po(3) at unfolding c by (auto simp: fresh_from_def)
  have pend: "rc_state c = Claimed" "rc_commandId c = ''ready:'' @ rc_id c" by (simp_all add: c)
  have "flight_of p = {}" using in_flight_at [OF d at [THEN conjunct1]] idle by blast
  with pushed_flight [OF pend(1)] have flight: "in_flight (put_project ?q ?w) = {(i, rc_id c)}"
    using at idle in_flight_put [OF d at [THEN conjunct1], of ?q] by simp
  have "project_ok ?q" using pushed_project_ok [OF po(1) home new(1) pend(2) new(2) pend(1)] .
  then have "sched_ok (put_project ?q ?w)"
    using po(2) at by (intro sched_ok_put) (auto simp: flight)
  moreover have "fresh_from clock (rn_tick r + 1) (put_project ?q ?w)"
  proof (rule fresh_from_put [OF fresh_from_mono [OF po(3)] d at [THEN conjunct1]])
    fix n assume n: "rn_tick r + 1 \<le> n"
    then have "st_id (clock n) \<noteq> st_id (clock (rn_tick r))" using po(3) by (auto simp: fresh_from_def dest: injD)
    with n po(3) at show "''Q'' @ st_id (clock n) \<notin> rc_id ` set (claims_in ?q) \<and> command_sessions ?q (''ready:Q'' @ st_id (clock n)) = []"
      by (simp add: fresh_from_def c)
  qed simp_all
  ultimately show "run_ok clock r'" using ok by (simp add: r' save_def run_ok_def)
  show "in_flight (rn_now r') = {(i, rc_id c)}" by (simp add: r' save_def flight)
  show "homes (rn_now r') = homes ?w" using at homes_put [OF d at [THEN conjunct1], of ?q] by (simp add: r' save_def)
  have "(i, rc_id c) \<in> in_flight (rn_now r')" by (simp add: r' save_def flight)
  with in_flight_found \<open>sched_ok (put_project ?q ?w)\<close> obtain q c' where
    q: "find_claim (rn_now r') i (rc_id c) = Some (q, c')" by (simp add: r' save_def) blast
  have "?q \<in> set (wk_projects (rn_now r'))" by (simp add: r' save_def projects_put_project [OF d at [THEN conjunct1]])
  moreover have "distinct (map (\<lambda>p. pj_id p) (wk_projects (rn_now r')))"
    using \<open>sched_ok (put_project ?q ?w)\<close> by (simp add: r' save_def sched_ok_def)
  ultimately have "q = ?q" using find_claim_own [OF _ q, of ?q] at by simp
  moreover have "distinct (map rc_id (claims_in ?q))" using \<open>project_ok ?q\<close> by (simp add: project_ok_def)
  ultimately have "c' = c" using find_claim_Some [OF q] new(1) by (auto simp: image_iff)
  with q show "\<exists>q. find_claim (rn_now r') i (rc_id c) = Some (q, c)" by blast
qed

lemma start_claims_ok:
  assumes "admission_ok sc" "run_ok clock r" "in_flight (rn_now r) = {}" "\<forall>c \<in> set claims. pc_projectId c \<notin> homes (rn_now r)"
  shows "run_ok clock (start_claims sc clock claims r)"
  using assms(2-4)
proof (induction claims arbitrary: r)
  case (Cons n claims)
  show ?case
  proof (cases "find_project (rn_now r) (pc_projectId n)")
    case (Some p)
    show ?thesis
    proof (cases "live_in p (pc_taskId n)")
      case None
      then show ?thesis using Cons Some by simp
    next
      case t: (Some t)
      define c where "c = new_claim (clock (rn_tick r)) (tk_id t) (route_for (rn_now r) p t) (pc_readyAt n)"
      define r1 where "r1 = save (put_project (push_claim c p) (rn_now r)) r"
      have "pc_projectId n \<notin> homes (rn_now r)" using Cons.prems(3) by simp
      note one = push_ok [OF Cons.prems(1) Some this Cons.prems(2) c_def r1_def]
      obtain q where q: "find_claim (rn_now r1) (pc_projectId n) (rc_id c) = Some (q, c)" using one(4) by blast
      show ?thesis
      proof (cases "admit_claim sc clock (pc_projectId n) (rc_id c) r1")
        case (Inl e)
        then show ?thesis using Some t one(1) by (simp add: c_def [symmetric] r1_def [symmetric] Let_def del: new_claim_sel)
      next
        case (Inr r2)
        have "start_claims sc clock (n # claims) r = start_claims sc clock claims r2"
          using Some t Inr by (simp add: c_def [symmetric] r1_def [symmetric] Let_def del: new_claim_sel)
        moreover have "run_ok clock r2" "in_flight (rn_now r2) = {}" "homes (rn_now r2) = homes (rn_now r)"
          using admit_claim_ok [OF assms(1) one(1) q Inr] one by auto
        ultimately show ?thesis using Cons.IH [of r2] Cons.prems(3) by simp
      qed
    qed
  qed (use Cons in auto)
qed simp

lemma planned_not_home:
  assumes "plan_pass cmp sc None w = Some s" "distinct (map (\<lambda>p. pj_id p) (wk_projects w))" "c \<in> set (ps_claims s)"
  shows "pc_projectId c \<notin> homes w"
proof -
  have ids: "map rp_id (plan_inputs sc None w) = map (\<lambda>p. pj_id p) (filter (\<lambda>p. \<not> bd_home (pj_board p)) (wk_projects w))"
    by (simp add: plan_inputs_def project_input_def Let_def)
  have "distinct (map rp_id (plan_inputs sc None w))" unfolding ids using assms(2) by (rule distinct_map_filter)
  from plan_readyQueue_ok(1) [OF assms(1) [unfolded plan_pass_def] this] assms(3)
  have "pc_projectId c \<in> set (map rp_id (plan_inputs sc None w))"
    unfolding plan_ok_def set_serving_order by (metis (no_types, lifting) imageI list.set_map mem_Collect_eq)
  then obtain p where p: "p \<in> set (wk_projects w)" "\<not> bd_home (pj_board p)" "pj_id p = pc_projectId c" unfolding ids by auto
  show ?thesis
  proof
    assume "pc_projectId c \<in> homes w"
    then obtain q where q: "q \<in> set (wk_projects w)" "bd_home (pj_board q)" "pj_id q = pc_projectId c" by (auto simp: homes_def)
    then have "q = p" using assms(2) p by (metis distinct_map inj_onD)
    with p(2) q(2) show False by simp
  qed
qed

theorem run_pass_ok:
  assumes adm: "admission_ok sc" and ok: "sched_ok w" and fresh: "fresh_from clock 0 w"
  shows "run_ok clock (run_pass cmp sc clock w)"
proof -
  let ?r0 = "\<lparr>rn_now = w, rn_saved = [], rn_tick = 0\<rparr>"
  obtain r going where all: "admit_all sc clock (claim_ids w) ?r0 = (r, going)" by (cases "admit_all sc clock (claim_ids w) ?r0")
  have "run_ok clock ?r0" using ok fresh by (simp add: run_ok_def)
  from admit_all_ok [OF adm all this] in_flight_ids [OF ok]
  have r: "run_ok clock r" "homes (rn_now r) = homes w" "going \<Longrightarrow> in_flight (rn_now r) = {}" by auto
  have run: "run_pass cmp sc clock w = (if \<not> going then r
     else case plan_pass cmp sc None (rn_now r) of None \<Rightarrow> r | Some s \<Rightarrow> start_claims sc clock (ps_claims s) r)"
    by (simp add: run_pass_def all)
  show ?thesis
  proof (cases "going \<and> plan_pass cmp sc None (rn_now r) \<noteq> None")
    case True
    then obtain s where s: "plan_pass cmp sc None (rn_now r) = Some s" by auto
    have "distinct (map (\<lambda>p. pj_id p) (wk_projects (rn_now r)))" using r(1) by (simp add: run_ok_def sched_ok_def)
    from start_claims_ok [OF adm r(1) r(3)] True planned_not_home [OF s this]
    show ?thesis by (simp add: run s)
  qed (use r(1) in \<open>auto simp: run split: option.splits\<close>)
qed

section \<open>Runs, stops and other work\<close>

text \<open>What happens between two runs: projects come, go and change, while the claims that stay keep what their commands started.\<close>

definition other_work :: "workshop \<Rightarrow> workshop \<Rightarrow> bool" where
  "other_work w v \<longleftrightarrow> distinct (map (\<lambda>p. pj_id p) (wk_projects v))
     \<and> (\<forall>q \<in> set (wk_projects v). claims_in q = [] \<or> (\<exists>p \<in> set (wk_projects w). same_claims p q
          \<and> (\<forall>c \<in> set (claims_in p). command_sessions q (rc_commandId c) = command_sessions p (rc_commandId c))))"

text \<open>A run may stop after any save; the next one starts from what was saved.\<close>

inductive scheduled :: "collation \<Rightarrow> scheduler \<Rightarrow> workshop \<Rightarrow> bool" for cmp sc where
  new: "distinct (map (\<lambda>p. pj_id p) (wk_projects w)) \<Longrightarrow> \<forall>p \<in> set (wk_projects w). claims_in p = [] \<Longrightarrow> scheduled cmp sc w"
| work: "scheduled cmp sc w \<Longrightarrow> other_work w v \<Longrightarrow> scheduled cmp sc v"
| pass: "scheduled cmp sc w \<Longrightarrow> fresh_from clock 0 w \<Longrightarrow> v \<in> set (rn_saved (run_pass cmp sc clock w)) \<Longrightarrow> scheduled cmp sc v"

lemma other_work_ok:
  assumes ok: "sched_ok w" and step: "other_work w v"
  shows "sched_ok v"
proof -
  have old: "\<exists>p \<in> set (wk_projects w). same_claims p q \<and> project_ok q" if "q \<in> set (wk_projects v)" "claims_in q \<noteq> []" for q
  proof -
    from step that obtain p where p: "p \<in> set (wk_projects w)" "same_claims p q"
      "\<forall>c \<in> set (claims_in p). command_sessions q (rc_commandId c) = command_sessions p (rc_commandId c)"
      unfolding other_work_def by blast
    have "project_ok p" using ok p(1) by (simp add: sched_ok_def)
    from project_ok_sessions [OF this p(2)] p show ?thesis by blast
  qed
  have "project_ok q" if "q \<in> set (wk_projects v)" for q
    using old [OF that] by (cases "claims_in q = []") (auto simp: project_ok_def)
  moreover have "in_flight v \<subseteq> in_flight w"
  proof
    fix x assume "x \<in> in_flight v"
    then obtain q c where q: "x = (pj_id q, rc_id c)" "q \<in> set (wk_projects v)" "c \<in> set (claims_in q)" "is_pending c"
      by (auto simp: in_flight_def)
    then have "claims_in q \<noteq> []" by auto
    with old [OF q(2)] obtain p where "p \<in> set (wk_projects w)" "same_claims p q" by blast
    with q show "x \<in> in_flight w" unfolding in_flight_def same_claims_def by force
  qed
  ultimately show ?thesis using ok step unfolding sched_ok_def other_work_def by blast
qed

theorem scheduled_ok:
  assumes "admission_ok sc" "scheduled cmp sc w"
  shows "sched_ok w"
  using assms(2)
proof induction
  case (new w)
  then show ?case by (auto simp: sched_ok_def project_ok_def in_flight_def)
next
  case (work w v)
  then show ?case using other_work_ok by blast
next
  case (pass w clock v)
  then show ?case using run_pass_ok [OF assms(1), of w clock cmp] by (simp add: run_ok_def)
qed

text \<open>The settings of a queue are such other work.\<close>

lemma same_claims_refl [simp]: "same_claims p p"
  by (simp add: same_claims_def)

lemma note_queue_keeps [simp]:
  "same_claims p (note_queue st sentence q) \<longleftrightarrow> same_claims p q" "command_sessions (note_queue st sentence q) i = command_sessions q i"
  by (auto simp: note_queue_def same_claims_def command_sessions_def queue_of_def)

lemma same_claims_queue [simp]: "same_claims p (p\<lparr>pj_queue := Some q\<rparr>) \<longleftrightarrow> rq_claims q = claims_in p"
  by (simp add: same_claims_def queue_of_def)

lemma command_sessions_queue [simp]: "command_sessions (p\<lparr>pj_queue := q\<rparr>) i = command_sessions p i"
  by (simp add: command_sessions_def)

lemma set_autoStart_keeps: "same_claims p (set_autoStart st v p)" "command_sessions (set_autoStart st v p) i = command_sessions p i"
  by (simp_all add: set_autoStart_def split: option.split)

lemma set_paused_keeps: "same_claims p (set_paused st v reason p)" "command_sessions (set_paused st v reason p) i = command_sessions p i"
  by (simp_all add: set_paused_def Let_def)

lemma configure_queue_work:
  assumes "configure_queue st i request w = Inr v" "distinct (map (\<lambda>p. pj_id p) (wk_projects w))"
  shows "other_work w v"
proof -
  from assms(1) obtain q where q: "request = Some q" by (cases request) (simp_all add: configure_queue_def)
  with assms(1) obtain p where p: "find_project w i = Some p"
    "v = put_project (set_paused st (qq_paused q) (qq_reason q) (set_autoStart st (qq_autoStart q) p)) w"
    by (simp add: configure_queue_def Let_def split: option.splits if_splits)
  let ?p = "set_paused st (qq_paused q) (qq_reason q) (set_autoStart st (qq_autoStart q) p)"
  have same: "same_claims p ?p" "command_sessions ?p c = command_sessions p c" for c
    using set_paused_keeps set_autoStart_keeps by (auto simp: same_claims_def)
  note at = find_project_Some [OF p(1)]
  have "pj_id ?p = pj_id p" using same(1) by (simp add: same_claims_def)
  from projects_put_project [OF assms(2) at [THEN conjunct1] this] p(2) at same assms(2)
  show ?thesis unfolding other_work_def by (metis Diff_iff insert_iff same_claims_refl)
qed

section \<open>What a run asks of admission\<close>

text \<open>A request that may reach admission in a state: a claim of a project in it, whose command started nothing yet, on a live task,
  by the sample's route or confirmed by a start that this project admitted.\<close>

definition may_be_asked :: "scheduler \<Rightarrow> workshop \<Rightarrow> string \<Rightarrow> jval \<Rightarrow> bool" where
  "may_be_asked sc w i body \<longleftrightarrow> (\<exists>p c t. find_project w i = Some p \<and> c \<in> set (claims_in p) \<and> admitted_session p (rc_commandId c) = Inr None
     \<and> live_in p (rc_taskId c) = Some t \<and> body = command_for p t (rc_route c) (rc_commandId c)
     \<and> (rc_route c = ''sample'' \<or> confirmed sc p t (rc_route c)))"

text \<open>Two schedulers that answer those requests alike run alike.\<close>

definition agree_confirmed :: "scheduler \<Rightarrow> (string \<Rightarrow> jval \<Rightarrow> workshop \<Rightarrow> admit_answer \<times> workshop \<times> workshop list) \<Rightarrow> bool" where
  "agree_confirmed sc f \<longleftrightarrow> (\<forall>i body w. may_be_asked sc w i body \<longrightarrow> f i body w = sc_admit sc i body w)"

lemma confirmed_admit [simp]: "confirmed (sc\<lparr>sc_admit := f\<rparr>) p t route = confirmed sc p t route"
  by (simp add: confirmed_def)

lemma admit_claim_agree:
  assumes "agree_confirmed sc f"
  shows "admit_claim (sc\<lparr>sc_admit := f\<rparr>) clock i j r = admit_claim sc clock i j r"
proof (cases "find_claim (rn_now r) i j")
  case (Some found)
  then obtain p c where found: "find_claim (rn_now r) i j = Some (p, c)" by (cases found) simp
  then have p: "find_project (rn_now r) i = Some p" "c \<in> set (claims_in p)"
    by (auto simp: find_claim_def find_Some_iff split: option.splits)
  have "f i (command_for p t (rc_route c) (rc_commandId c)) (rn_now r) = sc_admit sc i (command_for p t (rc_route c) (rc_commandId c)) (rn_now r)"
    if "admitted_session p (rc_commandId c) = Inr None" "live_in p (rc_taskId c) = Some t" "rc_route c = ''sample'' \<or> confirmed sc p t (rc_route c)" for t
    using assms p that unfolding agree_confirmed_def may_be_asked_def by blast
  then show ?thesis
    by (cases "admitted_session p (rc_commandId c)") (auto simp: admit_claim_def found split: option.splits)
qed (simp add: admit_claim_def)

lemma admit_all_agree:
  assumes "agree_confirmed sc f"
  shows "admit_all (sc\<lparr>sc_admit := f\<rparr>) clock ps r = admit_all sc clock ps r"
  by (induction ps arbitrary: r) (auto simp: admit_claim_agree [OF assms] split: option.splits sum.splits)

lemma start_claims_agree:
  assumes "agree_confirmed sc f"
  shows "start_claims (sc\<lparr>sc_admit := f\<rparr>) clock cs r = start_claims sc clock cs r"
  by (induction cs arbitrary: r) (auto simp: Let_def admit_claim_agree [OF assms] split: option.splits sum.splits)

lemma plan_pass_admit [simp]: "plan_pass cmp (sc\<lparr>sc_admit := f\<rparr>) viewed w = plan_pass cmp sc viewed w"
proof -
  have hold: "task_hold (sc\<lparr>sc_admit := f\<rparr>) = task_hold sc" by (intro ext) (simp add: task_hold_def Let_def)
  have entry: "ready_entry (sc\<lparr>sc_admit := f\<rparr>) = ready_entry sc" unfolding ready_entry_def hold ..
  have "project_input (sc\<lparr>sc_admit := f\<rparr>) = project_input sc" unfolding project_input_def entry by simp
  then show ?thesis by (simp add: plan_pass_def plan_inputs_def)
qed

lemma run_pass_agree:
  assumes "agree_confirmed sc f"
  shows "run_pass cmp (sc\<lparr>sc_admit := f\<rparr>) clock w = run_pass cmp sc clock w"
  unfolding run_pass_def admit_all_agree [OF assms] start_claims_agree [OF assms] plan_pass_admit ..

end
