(* ===== verification/Workspace_Properties.thy ===== *)
theory Workspace_Properties
  imports Diff_Guarantees Scheduler_Guarantees Board_Samples
begin

text \<open>The properties of the workspace beyond its board: comparing and keeping texts, and what the Ready scheduler starts.\<close>

section \<open>Comparing two texts\<close>

text \<open>A line comparison to try them with: it follows both texts line by line.\<close>

fun line_parts :: "string list \<Rightarrow> string list \<Rightarrow> diff_part list" where
  "line_parts [] ys = map (\<lambda>y. \<lparr>dp_value = y, dp_added = True, dp_removed = False\<rparr>) ys"
| "line_parts (x # xs) [] = \<lparr>dp_value = x, dp_added = False, dp_removed = True\<rparr> # line_parts xs []"
| "line_parts (x # xs) (y # ys) =
     (if x = y then \<lparr>dp_value = x, dp_added = False, dp_removed = False\<rparr> # line_parts xs ys
      else if x \<in> set ys then \<lparr>dp_value = y, dp_added = True, dp_removed = False\<rparr> # line_parts (x # xs) ys
      else \<lparr>dp_value = x, dp_added = False, dp_removed = True\<rparr> # line_parts xs (y # ys))"

definition sample_differ :: "string \<Rightarrow> string \<Rightarrow> nat \<Rightarrow> diff_part list option" where
  "sample_differ old new limit =
     Some (line_parts (map (\<lambda>l. l @ [newline]) (split_lines old)) (map (\<lambda>l. l @ [newline]) (split_lines new)))"

definition no_words :: "string \<Rightarrow> string \<Rightarrow> diff_part list" where
  "no_words old new = []"

definition sample_old :: string where
  "sample_old = ''title'' @ [newline] @ ''draft'' @ [newline] @ ''end'' @ [newline]"

definition sample_new :: string where
  "sample_new = ''title'' @ [newline] @ ''final'' @ [newline] @ ''end'' @ [newline] @ ''notes'' @ [newline]"

definition sample_texts :: diff_input where
  "sample_texts = \<lparr>di_path = ''a.md'', di_before = Some sample_old, di_after = Some sample_new, di_binary = False, di_unavailable = False\<rparr>"

lemma sample_compares:
  assumes "sample_differ sample_old sample_new limit = Some parts"
  shows "compares sample_old sample_new parts"
proof -
  have "compares sample_old sample_new (the (sample_differ sample_old sample_new 0))" by code_simp
  moreover have "sample_differ sample_old sample_new 0 = Some parts" using assms by (simp add: sample_differ_def)
  ultimately show ?thesis by simp
qed

lemma sample_changed: "td_state (build_diff sample_differ no_words default_diff_limits sample_texts) = DiffChanged"
proof -
  let ?parts = "line_parts (map (\<lambda>l. l @ [newline]) (split_lines sample_old)) (map (\<lambda>l. l @ [newline]) (split_lines sample_new))"
  have "length (db_hunks (built no_words 400 ?parts)) = 2" by code_simp
  then have hunks: "db_hunks (built no_words 400 ?parts) \<noteq> []" by auto
  have plain: "\<not> looks_binary (Some sample_old)" "\<not> looks_binary (Some sample_new)" "sample_old \<noteq> sample_new"
    "length sample_old = 16" "length sample_new = 22" by code_simp+
  from hunks plain show ?thesis
    by (simp add: build_diff_def Let_def sample_texts_def default_diff_limits_def text_bytes_def op_of_def shown_diff_def sample_differ_def)
qed

text \<open>C25. Keeping hunks of a shown change makes the text a person saw: its lines are the unchanged lines with, for each hunk,
  the new lines where it is kept and the old ones where it is not. All hunks kept give the new text and none the old one,
  exactly. The comparison's documented promise, that its parts make up both texts, is \<open>compares\<close>.\<close>

theorem kept_hunks_make_the_text_shown:
  assumes changed: "td_state (build_diff diff_lines diff_words limits input) = DiffChanged"
    and texts: "di_before input = Some old" "di_after input = Some new"
    and lib: "\<And>parts. diff_lines old new (lim_maxEditLines limits) = Some parts \<Longrightarrow> compares old new parts"
    and d: "d = build_diff diff_lines diff_words limits input"
  shows "\<exists>t. apply_hunkSelection diff_lines (lim_maxEditLines limits) old new keep = Inr t
    \<and> split_lines t = map dl_text (shown_lines (\<lambda>i. int i \<in> set keep) (td_hunks d) (td_segments d))
    \<and> ((\<forall>i < length (td_hunks d). int i \<in> set keep) \<longrightarrow> t = new)
    \<and> ((\<forall>i < length (td_hunks d). int i \<notin> set keep) \<longrightarrow> t = old)"
proof -
  obtain parts where parts: "diff_lines old new (lim_maxEditLines limits) = Some parts"
    "td_hunks d = db_hunks (built diff_words (lim_maxWordDiffChars limits) parts)"
    "td_segments d = db_segments (built diff_words (lim_maxWordDiffChars limits) parts)"
    using changed_built [OF changed texts] d by blast
  let ?sel = "\<lambda>i. int i \<in> set keep"
  have cmp: "compares old new parts" by (rule lib [OF parts(1)])
  then have sided: "one_sided parts" by (simp add: compares_def one_sided_def)
  have kept: "apply_hunkSelection diff_lines (lim_maxEditLines limits) old new keep = Inr (concat (sel_values ?sel parts 0 False))"
    using selected_sel_values [OF sided, of False 0 keep] by (simp add: apply_hunkSelection_def parts(1))
  have all: "concat (sel_values ?sel parts 0 False) = new" if "\<forall>i < length (td_hunks d). ?sel i"
    using sel_values_built [of diff_words "lim_maxWordDiffChars limits" parts ?sel "\<lambda>_. True"] that cmp
    by (simp add: parts(2) sel_values_new [OF sided] compares_def)
  have none: "concat (sel_values ?sel parts 0 False) = old" if "\<forall>i < length (td_hunks d). \<not> ?sel i"
    using sel_values_built [of diff_words "lim_maxWordDiffChars limits" parts ?sel "\<lambda>_. False"] that cmp
    by (simp add: parts(2) sel_values_old [OF sided] compares_def)
  show ?thesis using kept all none selection_lines [OF cmp, of ?sel] by (simp add: parts(2,3))
qed

lemma kept_hunks_make_the_text_shown_example:
  "\<exists>t. apply_hunkSelection sample_differ 5000 sample_old sample_new [0] = Inr t
    \<and> split_lines t = map dl_text (shown_lines (\<lambda>i. int i \<in> set [0])
        (td_hunks (build_diff sample_differ no_words default_diff_limits sample_texts))
        (td_segments (build_diff sample_differ no_words default_diff_limits sample_texts)))
    \<and> t = ''title'' @ [newline] @ ''final'' @ [newline] @ ''end'' @ [newline]"
proof -
  have limit: "lim_maxEditLines default_diff_limits = 5000" by (simp add: default_diff_limits_def)
  have "apply_hunkSelection sample_differ 5000 sample_old sample_new [0]
      = Inr (''title'' @ [newline] @ ''final'' @ [newline] @ ''end'' @ [newline])" by code_simp
  moreover have texts: "di_before sample_texts = Some sample_old" "di_after sample_texts = Some sample_new"
    by (simp_all add: sample_texts_def)
  ultimately show ?thesis
    using kept_hunks_make_the_text_shown [OF sample_changed texts sample_compares refl, where keep = "[0]"] unfolding limit by force
qed

lemma counted: "map f xs = map Some [1..<n] \<Longrightarrow> map f xs = map Some [1..<length xs + 1]"
  by (cases n) (auto dest: arg_cong [where f = length])

text \<open>C26. A change is shown in full: its old side is every line of the old text and its new side every line of the new one,
  in order, numbered from 1 without a gap.\<close>

theorem both_sides_shown_in_full:
  assumes changed: "td_state (build_diff diff_lines diff_words limits input) = DiffChanged"
    and texts: "di_before input = Some old" "di_after input = Some new"
    and lib: "\<And>parts. diff_lines old new (lim_maxEditLines limits) = Some parts \<Longrightarrow> compares old new parts"
    and d: "d = build_diff diff_lines diff_words limits input"
    and sides: "olds = shown_lines (\<lambda>_. False) (td_hunks d) (td_segments d)" "news = shown_lines (\<lambda>_. True) (td_hunks d) (td_segments d)"
  shows "map dl_text olds = split_lines old \<and> map dl_oldNo olds = map Some [1..<length olds + 1]
    \<and> map dl_text news = split_lines new \<and> map dl_newNo news = map Some [1..<length news + 1]"
proof -
  obtain parts where parts: "diff_lines old new (lim_maxEditLines limits) = Some parts"
    "td_hunks d = db_hunks (built diff_words (lim_maxWordDiffChars limits) parts)"
    "td_segments d = db_segments (built diff_words (lim_maxWordDiffChars limits) parts)"
    using changed_built [OF changed texts] d by blast
  have cmp: "compares old new parts" by (rule lib [OF parts(1)])
  then have sided: "one_sided parts" by (simp add: compares_def one_sided_def)
  have lines: "map dl_text olds = split_lines old" "map dl_text news = split_lines new"
    using cmp sel_values_old [OF sided, of 0 False] sel_values_new [OF sided, of 0 False]
      selection_lines [OF cmp, of "\<lambda>_. False" diff_words "lim_maxWordDiffChars limits"]
      selection_lines [OF cmp, of "\<lambda>_. True" diff_words "lim_maxWordDiffChars limits"]
    by (simp_all add: sides parts(2,3) compares_def)
  note numbers = built_numbers [OF sided refl, of diff_words "lim_maxWordDiffChars limits", folded parts(2,3) sides]
  show ?thesis using lines counted [OF numbers(1)] counted [OF numbers(2)] by simp
qed

lemma both_sides_shown_in_full_example:
  "\<exists>olds news d. d = build_diff sample_differ no_words default_diff_limits sample_texts
    \<and> olds = shown_lines (\<lambda>_. False) (td_hunks d) (td_segments d) \<and> news = shown_lines (\<lambda>_. True) (td_hunks d) (td_segments d)
    \<and> map dl_text olds = [''title'', ''draft'', ''end''] \<and> map dl_newNo news = map Some [1, 2, 3, 4]"
proof -
  let ?d = "build_diff sample_differ no_words default_diff_limits sample_texts"
  have texts: "di_before sample_texts = Some sample_old" "di_after sample_texts = Some sample_new"
    by (simp_all add: sample_texts_def)
  have "split_lines sample_old = [''title'', ''draft'', ''end'']" "length (split_lines sample_new) = 4" by code_simp+
  with both_sides_shown_in_full [OF sample_changed texts sample_compares refl refl refl]
  have "map dl_text (shown_lines (\<lambda>_. False) (td_hunks ?d) (td_segments ?d)) = [''title'', ''draft'', ''end'']"
    "map dl_newNo (shown_lines (\<lambda>_. True) (td_hunks ?d) (td_segments ?d)) = map Some [1..<4 + 1]"
    by (metis, metis length_map)
  then show ?thesis by (auto simp: upt_rec)
qed

section \<open>The Ready scheduler\<close>

text \<open>An admission to try it with: it starts a session for a command that has none, and refuses any other.\<close>

definition start_session :: "string \<Rightarrow> project \<Rightarrow> project" where
  "start_session commandId p = p\<lparr>pj_board := (pj_board p)\<lparr>bd_sessions := bd_sessions (pj_board p) @ [\<lparr>ss_id = ''S-'' @ commandId,
     ss_taskId = ''T1'', ss_state = SessionWorking, ss_startedAt = ''2026-03-01T12:00:02.000Z'', ss_endedAt = None,
     ss_receipt = Some \<lparr>wr_commandId = commandId, wr_payloadDigest = ''0'', wr_route = ''sample''\<rparr>\<rparr>]\<rparr>\<rparr>"

definition sample_admit :: "string \<Rightarrow> jval \<Rightarrow> workshop \<Rightarrow> admit_answer \<times> workshop \<times> workshop list" where
  "sample_admit i body w = (case jget body ''commandId'' of
     JStr commandId \<Rightarrow>
       (if list_ex (\<lambda>p. pj_id p = i \<and> command_sessions p commandId \<noteq> []) (wk_projects w) then (AdmitThrew ''Started before.'', w, [])
        else let w' = w\<lparr>wk_projects := map (\<lambda>p. if pj_id p = i then start_session commandId p else p) (wk_projects w)\<rparr> in
          (AdmitAnswered (Some (''S-'' @ commandId)), w', [w']))
   | _ \<Rightarrow> (AdmitThrew ''No command.'', w, []))"

definition sample_scheduler :: scheduler where
  "sample_scheduler = \<lparr>sc_sha256 = same_digest, sc_relativeName = Inr, sc_admit = sample_admit, sc_running = (\<lambda>_. False)\<rparr>"

lemma start_session_keeps:
  "same_claims p (start_session i p)" "command_sessions (start_session i p) j = command_sessions p j @ (if j = i then [''S-'' @ i] else [])"
  by (simp_all add: same_claims_def start_session_def command_sessions_def queue_of_def)

lemma sample_admission: "admission_ok sample_scheduler"
  by (auto simp: admission_ok_def sample_scheduler_def sample_admit_def Let_def admits_def list_all2_map2 list.rel_refl_strong
      list_ex_iff start_session_keeps split: if_splits intro!: list.rel_refl_strong)

definition sample_shop :: workshop where
  "sample_shop = \<lparr>wk_projects = [\<lparr>pj_board = new_board\<lparr>bd_tasks := [report_task empty_taskWorkflow]\<rparr>, pj_engine = Some ''sample'',
     pj_missing = False, pj_queue = Some (empty_readyQueue\<lparr>rq_autoStart := True\<rparr>)\<rparr>], wk_services = [], wk_allPaused = None\<rparr>"

text \<open>The ids a run draws, all different.\<close>

definition sample_clock :: "nat \<Rightarrow> stamp" where
  "sample_clock n = \<lparr>st_now = ''2026-03-01T12:00:01.000Z'', st_id = replicate n (CHR ''i'')\<rparr>"

definition started_shop :: workshop where
  "started_shop = last (rn_saved (run_pass byte_order sample_scheduler sample_clock sample_shop))"

lemma sample_fresh: "fresh_from sample_clock 0 sample_shop" "scheduled byte_order sample_scheduler sample_shop"
  by (auto simp: fresh_from_def sample_clock_def inj_def sample_shop_def queue_of_def empty_readyQueue_def command_sessions_def
      new_board_def intro!: scheduled.new dest: arg_cong [where f = length])

lemma sample_started:
  "length (rn_saved (run_pass byte_order sample_scheduler sample_clock sample_shop)) = 3"
  "map (\<lambda>p. map (\<lambda>c. (rc_state c, rc_commandId c, rc_sessionId c)) (claims_in p)) (wk_projects started_shop)
     = [[(ClaimStarted, ''ready:Q'', Some ''S-ready:Q'')]]"
  by code_simp+

lemma started_scheduled: "scheduled byte_order sample_scheduler started_shop"
proof -
  have "started_shop \<in> set (rn_saved (run_pass byte_order sample_scheduler sample_clock sample_shop))"
    using sample_started(1) by (auto simp: started_shop_def intro!: last_in_set)
  with sample_fresh show ?thesis by (blast intro: scheduled.pass)
qed

text \<open>C23. A run may stop after any save, and people may work in between: a claim still starts at most one session, a claim
  that says it started names exactly the session its command has, and one claim is in flight in the whole workshop at most.
  The Work start path keeps what \<open>admission_ok\<close> says of it, and a run draws ids nothing has.\<close>

theorem claims_start_once:
  assumes "admission_ok sc" and "scheduled cmp sc w" and "p \<in> set (wk_projects w)" and "c \<in> set (claims_in p)"
  shows "length (command_sessions p (rc_commandId c)) \<le> 1
    \<and> (rc_state c = ClaimStarted \<longrightarrow> (\<exists>s. rc_sessionId c = Some s \<and> command_sessions p (rc_commandId c) = [s]))
    \<and> (is_pending c \<longrightarrow> (\<forall>q \<in> set (wk_projects w). \<forall>d \<in> set (claims_in q). is_pending d \<longrightarrow> pj_id q = pj_id p \<and> rc_id d = rc_id c))"
proof (intro conjI impI ballI)
  note ok = scheduled_ok [OF assms(1,2)]
  then have c: "length (command_sessions p (rc_commandId c)) \<le> 1"
    "rc_state c = ClaimStarted \<longrightarrow> (\<exists>s. rc_sessionId c = Some s \<and> s \<in> set (command_sessions p (rc_commandId c)))"
    using assms(3,4) unfolding sched_ok_def project_ok_def by blast+
  show "length (command_sessions p (rc_commandId c)) \<le> 1" by (rule c)
  show "\<exists>s. rc_sessionId c = Some s \<and> command_sessions p (rc_commandId c) = [s]" if "rc_state c = ClaimStarted"
    using c that by (cases "command_sessions p (rc_commandId c)") auto
  fix q d assume "is_pending c" and d: "q \<in> set (wk_projects w)" "d \<in> set (claims_in q)" "is_pending d"
  with assms(3,4) have "(pj_id q, rc_id d) \<in> in_flight w" "(pj_id p, rc_id c) \<in> in_flight w" by (auto simp: in_flight_def)
  with ok have "(pj_id q, rc_id d) = (pj_id p, rc_id c)" unfolding sched_ok_def by blast
  then show "pj_id q = pj_id p" "rc_id d = rc_id c" by simp_all
qed

lemma claims_start_once_example:
  "\<exists>p c. p \<in> set (wk_projects started_shop) \<and> c \<in> set (claims_in p) \<and> rc_state c = ClaimStarted
    \<and> command_sessions p (rc_commandId c) = [''S-ready:Q'']"
proof -
  obtain p c where p: "p \<in> set (wk_projects started_shop)" "c \<in> set (claims_in p)" "rc_state c = ClaimStarted"
    "rc_sessionId c = Some ''S-ready:Q''"
    using sample_started(2) by (auto simp: Cons_eq_map_conv)
  with claims_start_once [OF sample_admission started_scheduled p(1,2)] show ?thesis by auto
qed

text \<open>C24. A run asks admission only for a claim of a project in the state it asks in, whose command started nothing yet and whose
  task is live, and only by the sample's route or for exactly a request that a start admitted in that same project has confirmed:
  an admission that answers anything else differently, an unconfirmed request of a real task included, changes nothing a run
  does or saves.\<close>

theorem admission_asked_only_for_confirmed:
  assumes "\<And>i body v. may_be_asked sc v i body \<Longrightarrow> f i body v = sc_admit sc i body v"
  shows "run_pass cmp (sc\<lparr>sc_admit := f\<rparr>) clock w = run_pass cmp sc clock w"
  using assms by (intro run_pass_agree) (simp add: agree_confirmed_def)

text \<open>An admission that loses every project when it is asked for a request that leaves this machine from a project without an
  admitted start.\<close>

definition careless_admit :: "string \<Rightarrow> jval \<Rightarrow> workshop \<Rightarrow> admit_answer \<times> workshop \<times> workshop list" where
  "careless_admit i body w =
     (if jget body ''consent'' = JBool True \<and> (case find_project w i of None \<Rightarrow> True
          | Some p \<Rightarrow> list_all (\<lambda>s. ss_receipt s = None) (bd_sessions (pj_board p)))
      then (AdmitAnswered (Some ''S''), w\<lparr>wk_projects := []\<rparr>, []) else sample_admit i body w)"

definition sample_request :: jval where
  "sample_request = command_for (hd (wk_projects sample_shop)) (report_task empty_taskWorkflow) ''codex'' ''ready:Q9''"

lemma careless_differs: "careless_admit (pj_id (hd (wk_projects sample_shop))) sample_request sample_shop
    \<noteq> sample_admit (pj_id (hd (wk_projects sample_shop))) sample_request sample_shop"
  by (simp add: careless_admit_def sample_request_def sample_admit_def command_for_def find_project_def sample_shop_def new_board_def
    task_thread_def command_sessions_def Let_def)

lemma asked_consent: "jget (command_for p t route commandId) ''consent'' = JBool (route \<noteq> ''sample'')"
  by (simp add: command_for_def)

lemma confirmed_session: "confirmed sc p t route \<Longrightarrow> \<not> list_all (\<lambda>s. ss_receipt s = None) (bd_sessions (pj_board p))"
  unfolding confirmed_def admitted_for_def list_ex_iff list_all_iff by (fastforce split: sum.splits option.splits)

lemma careless_agrees:
  assumes "may_be_asked sample_scheduler v i body"
  shows "careless_admit i body v = sample_admit i body v"
proof -
  from assms obtain p t route commandId where "find_project v i = Some p" "body = command_for p t route commandId"
    "route = ''sample'' \<or> confirmed sample_scheduler p t route" unfolding may_be_asked_def by blast
  then have "\<not> (jget body ''consent'' = JBool True \<and> (case find_project v i of None \<Rightarrow> True
      | Some p \<Rightarrow> list_all (\<lambda>s. ss_receipt s = None) (bd_sessions (pj_board p))))"
    using asked_consent [of p t route commandId] confirmed_session [of sample_scheduler p t route] by auto
  then show ?thesis unfolding careless_admit_def by (rule if_not_P)
qed

lemma admission_asked_only_for_confirmed_example:
  "run_pass byte_order (sample_scheduler\<lparr>sc_admit := careless_admit\<rparr>) sample_clock sample_shop
     = run_pass byte_order sample_scheduler sample_clock sample_shop
   \<and> careless_admit (pj_id (hd (wk_projects sample_shop))) sample_request sample_shop
     \<noteq> sample_admit (pj_id (hd (wk_projects sample_shop))) sample_request sample_shop"
proof (rule conjI [OF admission_asked_only_for_confirmed careless_differs])
  show "careless_admit i body v = sc_admit sample_scheduler i body v" if "may_be_asked sample_scheduler v i body" for i body v
    using careless_agrees [OF that] by (simp add: sample_scheduler_def)
qed

end
