(* ===== verification/Semver.thy ===== *)
theory Semver
  imports Calendar
begin

text \<open>
  The part of semantic versioning that pack manifests and updates use, \<open>shared/semver.ts\<close>: versions, their order, ranges, and
  the newest version a range takes. A regular expression of the code is a test on the parts of the text.
\<close>

section \<open>Versions\<close>

record semver =
  sv_major :: int
  sv_minor :: int
  sv_patch :: int
  sv_prerelease :: "string option"

text \<open>\<open>0|[1-9]\d{0,8}\<close>\<close>

definition number_part :: "string \<Rightarrow> bool" where
  "number_part t \<longleftrightarrow> t = ''0'' \<or> t \<noteq> '''' \<and> list_all is_digit t \<and> hd t \<noteq> CHR ''0'' \<and> length t \<le> 9"

definition is_tag_char :: "char \<Rightarrow> bool" where
  "is_tag_char c \<longleftrightarrow> is_digit c \<or> is_upper c \<or> is_lower c \<or> c = CHR ''.'' \<or> c = CHR ''-''"

definition tag_part :: "string \<Rightarrow> string option option" where
  "tag_part t = (case t of [] \<Rightarrow> Some None
     | c # tag \<Rightarrow> if tag \<noteq> '''' \<and> length tag \<le> 64 \<and> list_all is_tag_char tag then Some (Some tag) else None)"

text \<open>The numbers end at the first dash: the rest is the prerelease tag.\<close>

definition parse_version :: "string \<Rightarrow> semver option" where
  "parse_version t =
     (case (split_on (CHR ''.'') (takeWhile (\<lambda>c. c \<noteq> CHR ''-'') t), tag_part (dropWhile (\<lambda>c. c \<noteq> CHR ''-'') t)) of
        ([a, b, c], Some tag) \<Rightarrow>
          if number_part a \<and> number_part b \<and> number_part c
          then Some \<lparr>sv_major = read_nat a, sv_minor = read_nat b, sv_patch = read_nat c, sv_prerelease = tag\<rparr> else None
      | _ \<Rightarrow> None)"

definition is_version :: "string \<Rightarrow> bool" where
  "is_version t \<longleftrightarrow> parse_version t \<noteq> None"

section \<open>Their order\<close>

definition numeric :: "string \<Rightarrow> bool" where
  "numeric t \<longleftrightarrow> t \<noteq> '''' \<and> list_all is_digit t"

text \<open>The zeros that a digit follows, dropped.\<close>

fun drop_zeros :: "string \<Rightarrow> string" where
  "drop_zeros (c # d # t) = (if c = CHR ''0'' \<and> is_digit d then drop_zeros (d # t) else c # d # t)"
| "drop_zeros t = t"

definition text_order :: "string \<Rightarrow> string \<Rightarrow> int" where
  "text_order x y = (if text_less x y then - 1 else 1)"

definition identifier_order :: "string \<Rightarrow> string \<Rightarrow> int" where
  "identifier_order x y =
     (if numeric x \<and> numeric y then
        (let m = drop_zeros x; n = drop_zeros y in
         if length m \<noteq> length n then int (length m) - int (length n)
         else if m \<noteq> n then text_order m n else text_order x y)
      else if numeric x then - 1
      else if numeric y then 1
      else text_order x y)"

fun compare_identifiers :: "string list \<Rightarrow> string list \<Rightarrow> int" where
  "compare_identifiers (x # xs) (y # ys) = (if x = y then compare_identifiers xs ys else identifier_order x y)"
| "compare_identifiers xs ys = int (length xs) - int (length ys)"

definition compare_prerelease :: "string \<Rightarrow> string \<Rightarrow> int" where
  "compare_prerelease a b = compare_identifiers (split_on (CHR ''.'') a) (split_on (CHR ''.'') b)"

definition compare_parsed :: "semver \<Rightarrow> semver \<Rightarrow> int" where
  "compare_parsed a b =
     (if sv_major a \<noteq> sv_major b then sv_major a - sv_major b
      else if sv_minor a \<noteq> sv_minor b then sv_minor a - sv_minor b
      else if sv_patch a \<noteq> sv_patch b then sv_patch a - sv_patch b
      else case (sv_prerelease a, sv_prerelease b) of
        (None, None) \<Rightarrow> 0 | (None, Some _) \<Rightarrow> 1 | (Some _, None) \<Rightarrow> - 1
      | (Some s, Some t) \<Rightarrow> if s = t then 0 else compare_prerelease s t)"

definition compare_versions :: "string \<Rightarrow> string \<Rightarrow> string + int" where
  "compare_versions a b = (case (parse_version a, parse_version b) of
     (Some v, Some w) \<Rightarrow> Inr (compare_parsed v w)
   | (Some _, None) \<Rightarrow> Inl (''Not a version: '' @ b)
   | _ \<Rightarrow> Inl (''Not a version: '' @ a))"

section \<open>Ranges\<close>

datatype version_op = AtLeast | Above | AtMost | Below | Exactly

record version_bound =
  vb_op :: version_op
  vb_version :: semver

abbreviation "bound_of op v \<equiv> \<lparr>vb_op = op, vb_version = v\<rparr>"

definition release :: "int \<Rightarrow> int \<Rightarrow> int \<Rightarrow> semver" where
  "release a b c = \<lparr>sv_major = a, sv_minor = b, sv_patch = c, sv_prerelease = None\<rparr>"

definition bump_major :: "semver \<Rightarrow> semver" where "bump_major v = release (sv_major v + 1) 0 0"
definition bump_minor :: "semver \<Rightarrow> semver" where "bump_minor v = release (sv_major v) (sv_minor v + 1) 0"
definition bump_patch :: "semver \<Rightarrow> semver" where "bump_patch v = release (sv_major v) (sv_minor v) (sv_patch v + 1)"

datatype range_prefix = NoPrefix | Caret | Tilde | Op version_op

text \<open>The longest operator the text starts with, and the rest.\<close>

fun range_prefix_of :: "string \<Rightarrow> range_prefix \<times> string" where
  "range_prefix_of t =
     (case t of [] \<Rightarrow> (NoPrefix, [])
      | c # r \<Rightarrow>
          if c = CHR ''^'' then (Caret, r)
          else if c = CHR ''~'' then (Tilde, r)
          else if c = CHR ''>'' then (case r of d # r' \<Rightarrow> if d = CHR ''='' then (Op AtLeast, r') else (Op Above, r) | [] \<Rightarrow> (Op Above, r))
          else if c = CHR ''<'' then (case r of d # r' \<Rightarrow> if d = CHR ''='' then (Op AtMost, r') else (Op Below, r) | [] \<Rightarrow> (Op Below, r))
          else if c = CHR ''='' then (Op Exactly, r)
          else (NoPrefix, t))"

definition wild :: "string \<Rightarrow> bool" where
  "wild t \<longleftrightarrow> t = ''x'' \<or> t = ''X'' \<or> t = ''*''"

text \<open>One to three parts, each a number or a wildcard; \<open>None\<close> is a wildcard or a part that is not there.\<close>

definition partial_parts :: "string \<Rightarrow> (int option \<times> int option) option" where
  "partial_parts t =
     (let parts = split_on (CHR ''.'') t; read = (\<lambda>p. if wild p then None else Some (read_nat p)) in
      if length parts \<le> 3 \<and> list_all (\<lambda>p. number_part p \<or> wild p) parts
      then Some (read (parts ! 0), if 1 < length parts then read (parts ! 1) else None) else None)"

definition exact_bounds :: "range_prefix \<Rightarrow> semver \<Rightarrow> version_bound list" where
  "exact_bounds prefix v = (case prefix of
     Caret \<Rightarrow> [bound_of AtLeast v, bound_of Below
       (if 0 < sv_major v then bump_major v else if 0 < sv_minor v then bump_minor v else bump_patch v)]
   | Tilde \<Rightarrow> [bound_of AtLeast v, bound_of Below (bump_minor v)]
   | NoPrefix \<Rightarrow> [bound_of Exactly v]
   | Op op \<Rightarrow> [bound_of op v])"

definition partial_bounds :: "range_prefix \<Rightarrow> int option \<Rightarrow> int option \<Rightarrow> version_bound list" where
  "partial_bounds prefix major minor = (case major of None \<Rightarrow> []
     | Some a \<Rightarrow> (case minor of
         None \<Rightarrow> [bound_of AtLeast (release a 0 0), bound_of Below (bump_major (release a 0 0))]
       | Some b \<Rightarrow> [bound_of AtLeast (release a b 0), bound_of Below
           (if prefix = Caret \<and> 0 < a then bump_major (release a b 0) else bump_minor (release a b 0))]))"

definition range_token :: "string \<Rightarrow> version_bound list option" where
  "range_token t =
     (let (prefix, rest) = range_prefix_of t in
      case parse_version rest of Some v \<Rightarrow> Some (exact_bounds prefix v)
      | None \<Rightarrow> (case partial_parts rest of None \<Rightarrow> None
          | Some (major, minor) \<Rightarrow>
              if prefix \<in> {NoPrefix, Op Exactly, Caret, Tilde} then Some (partial_bounds prefix major minor) else None))"

text \<open>\<open>range.split('||')\<close>\<close>

fun split_bars :: "string \<Rightarrow> string list" where
  "split_bars [] = [[]]"
| "split_bars [c] = [[c]]"
| "split_bars (c # d # t) =
     (if c = CHR ''|'' \<and> d = CHR ''|'' then [] # split_bars t
      else case split_bars (d # t) of [] \<Rightarrow> [[c]] | part # parts \<Rightarrow> (c # part) # parts)"

text \<open>\<open>split(/\s+/)\<close> of a text without white space at its ends.\<close>

fun words_of :: "string \<Rightarrow> string list" where
  "words_of [] = []"
| "words_of (c # t) =
     (if is_space c then words_of t
      else case t of [] \<Rightarrow> [[c]]
        | d # r \<Rightarrow> if is_space d then [c] # words_of r else (case words_of t of [] \<Rightarrow> [[c]] | w # ws \<Rightarrow> (c # w) # ws))"

fun range_tokens :: "string list \<Rightarrow> version_bound list option" where
  "range_tokens [] = Some []"
| "range_tokens (t # ts) = (case (range_token t, range_tokens ts) of (Some a, Some b) \<Rightarrow> Some (a @ b) | _ \<Rightarrow> None)"

fun range_sets :: "string list \<Rightarrow> version_bound list list option" where
  "range_sets [] = Some []"
| "range_sets (a # as) =
     (if js_trim a = '''' then None
      else case (range_tokens (words_of (js_trim a)), range_sets as) of (Some s, Some ss) \<Rightarrow> Some (s # ss) | _ \<Rightarrow> None)"

definition parse_range :: "string \<Rightarrow> version_bound list list option" where
  "parse_range t = (if 200 < utf16_units t then None else range_sets (split_bars t))"

definition is_range :: "string \<Rightarrow> bool" where
  "is_range t \<longleftrightarrow> parse_range t \<noteq> None"

definition within_bound :: "semver \<Rightarrow> version_bound \<Rightarrow> bool" where
  "within_bound v b \<longleftrightarrow> (let order = compare_parsed v (vb_version b) in
     case vb_op b of Exactly \<Rightarrow> order = 0 | AtLeast \<Rightarrow> 0 \<le> order | Above \<Rightarrow> 0 < order | AtMost \<Rightarrow> order \<le> 0 | Below \<Rightarrow> order < 0)"

definition names_prerelease :: "semver \<Rightarrow> version_bound \<Rightarrow> bool" where
  "names_prerelease v b \<longleftrightarrow> sv_prerelease (vb_version b) \<noteq> None \<and> sv_major (vb_version b) = sv_major v
     \<and> sv_minor (vb_version b) = sv_minor v \<and> sv_patch (vb_version b) = sv_patch v"

definition meets :: "semver \<Rightarrow> version_bound list \<Rightarrow> bool" where
  "meets v bounds \<longleftrightarrow> list_all (within_bound v) bounds \<and> (sv_prerelease v = None \<or> list_ex (names_prerelease v) bounds)"

definition satisfies :: "string \<Rightarrow> string \<Rightarrow> bool" where
  "satisfies version wanted = (case (parse_version version, parse_range wanted) of
     (Some v, Some sets) \<Rightarrow> list_ex (meets v) sets | _ \<Rightarrow> False)"

text \<open>The versions that satisfy a range parse, so their comparison does not throw.\<close>

definition version_before :: "string \<Rightarrow> string \<Rightarrow> bool" where
  "version_before a b = (case compare_versions a b of Inr n \<Rightarrow> n < 0 | Inl _ \<Rightarrow> False)"

definition max_satisfying :: "string list \<Rightarrow> string \<Rightarrow> string option" where
  "max_satisfying versions wanted =
     (let sorted = sort_by version_before (filter (\<lambda>v. satisfies v wanted) versions) in
      if sorted = [] then None else Some (last sorted))"

end
