(* ===== verification/Version_Order.thy ===== *)
theory Version_Order
  imports Semver Ready_Fairness
begin

text \<open>
  The comparison of versions is a total order in which only equal versions are equal, so the newest of a list does not depend
  on how the list is arranged, and a version's text is the only one that reads as it.
\<close>

section \<open>Texts and their parts\<close>

fun join_on :: "char \<Rightarrow> string list \<Rightarrow> string" where
  "join_on c [] = []"
| "join_on c [p] = p"
| "join_on c (p # q # ps) = p @ c # join_on c (q # ps)"

lemma join_on_Cons: "ps \<noteq> [] \<Longrightarrow> join_on c (p # ps) = p @ c # join_on c ps"
  by (cases ps) simp_all

lemma split_on_Nil [simp]: "split_on c t \<noteq> []"
  by (induction t) (auto split: list.splits)

lemma join_split: "join_on c (split_on c t) = t"
proof (induction t)
  case (Cons x t)
  show ?case
  proof (cases "split_on c t")
    case (Cons p ps)
    then show ?thesis using Cons.IH by (cases ps) (auto simp: join_on_Cons)
  qed simp
qed simp

lemma split_on_inject: "split_on c s = split_on c t \<longleftrightarrow> s = t"
  by (metis join_split)

section \<open>The order of identifiers\<close>

lemma byte_order_zero: "byte_order a b = 0 \<longleftrightarrow> a = b"
  using text_less_linear [of a b] text_less_irrefl by (auto simp: byte_order_def)

lemma text_order_bytes: "a \<noteq> b \<Longrightarrow> text_order a b = byte_order a b"
  using text_less_linear [of a b] by (auto simp: text_order_def byte_order_def)

lemma comparator_minus: "comparator (\<lambda>a b :: int. a - b)"
  by unfold_locales auto

text \<open>The same order through keys: the numbers by their length first.\<close>

definition number_digits :: "string \<Rightarrow> string" where
  "number_digits t = (if numeric t then drop_zeros t else '''')"

definition number_length :: "string \<Rightarrow> int" where
  "number_length t = int (length (number_digits t))"

definition key_order :: "string \<Rightarrow> string \<Rightarrow> int" where
  "key_order x y = or_else ((if numeric x then 0 else 1) - (if numeric y then 0 else 1))
     (or_else (number_length x - number_length y) (or_else (byte_order (number_digits x) (number_digits y)) (byte_order x y)))"

lemma identifier_order_key: "x \<noteq> y \<Longrightarrow> identifier_order x y = key_order x y"
  by (auto simp: identifier_order_def key_order_def or_else_def number_length_def number_digits_def Let_def text_order_bytes byte_order_zero)

interpretation keys: comparator key_order
  unfolding key_order_def
  by (intro comparator_or_else [where h = "\<lambda>x. if numeric x then 0 else 1 :: int" and k = "\<lambda>x. x"]
      comparator_or_else [where h = number_length and k = "\<lambda>x. x"] comparator_or_else [where h = number_digits and k = "\<lambda>x. x"]
      comparator_minus bytes.comparator_axioms)

lemma key_order_zero: "key_order x y = 0 \<longleftrightarrow> x = y"
  by (auto simp: key_order_def or_else_def byte_order_zero number_length_def)

text \<open>Lists of identifiers, one by one.\<close>

lemma compare_identifiers_simps:
  "compare_identifiers [] ys = - int (length ys)" "compare_identifiers xs [] = int (length xs)"
  "compare_identifiers (x # xs) (y # ys) = or_else (key_order x y) (compare_identifiers xs ys)"
proof -
  show "compare_identifiers [] ys = - int (length ys)" by (cases ys) simp_all
  show "compare_identifiers xs [] = int (length xs)" by (cases xs) simp_all
qed (simp add: or_else_def identifier_order_key key_order_zero)

lemma or_else_sign: "or_else u v < 0 \<longleftrightarrow> u < 0 \<or> u = 0 \<and> v < 0" "0 < or_else u v \<longleftrightarrow> 0 < u \<or> u = 0 \<and> 0 < v"
  "or_else u v \<le> 0 \<longleftrightarrow> u < 0 \<or> u = 0 \<and> v \<le> 0" "or_else u v = 0 \<longleftrightarrow> u = 0 \<and> v = 0"
  by (auto simp: or_else_def)

lemma compare_identifiers_zero: "compare_identifiers xs ys = 0 \<longleftrightarrow> xs = ys"
proof (induction xs arbitrary: ys)
  case (Cons x xs)
  then show ?case by (cases ys) (simp_all add: compare_identifiers_simps or_else_sign key_order_zero del: compare_identifiers.simps)
qed (auto simp: compare_identifiers_simps simp del: compare_identifiers.simps)

interpretation identifiers: comparator compare_identifiers
proof
  show "compare_identifiers xs ys < 0 \<longleftrightarrow> 0 < compare_identifiers ys xs" for xs ys
  proof (induction xs arbitrary: ys)
    case (Cons x xs)
    then show ?case
      by (cases ys) (auto simp: compare_identifiers_simps or_else_sign keys.opposite keys.zero [of x] simp del: compare_identifiers.simps)
  qed (auto simp: compare_identifiers_simps simp del: compare_identifiers.simps)
  show "compare_identifiers xs zs \<le> 0" if "compare_identifiers xs ys \<le> 0" "compare_identifiers ys zs \<le> 0" for xs ys zs
    using that
  proof (induction xs arbitrary: ys zs)
    case Nil
    then show ?case by (simp add: compare_identifiers_simps del: compare_identifiers.simps)
  next
    case (Cons x xs)
    obtain y ys' where ys: "ys = y # ys'" using Cons.prems(1) by (cases ys) (auto simp: compare_identifiers_simps)
    obtain z zs' where zs: "zs = z # zs'" using Cons.prems(2) ys by (cases zs) (auto simp: compare_identifiers_simps)
    show ?case using Cons keys.strict_chain' [of x y z] keys.strict_chain [of x y z]
      by (auto simp: ys zs compare_identifiers_simps or_else_sign key_order_zero simp del: compare_identifiers.simps)
  qed
qed

section \<open>The order of versions\<close>

definition tag_order :: "string option \<Rightarrow> string option \<Rightarrow> int" where
  "tag_order s t = (case (s, t) of (None, None) \<Rightarrow> 0 | (None, Some _) \<Rightarrow> 1 | (Some _, None) \<Rightarrow> - 1
     | (Some a, Some b) \<Rightarrow> compare_prerelease a b)"

lemma compare_prerelease_zero: "compare_prerelease a b = 0 \<longleftrightarrow> a = b"
  by (simp add: compare_prerelease_def compare_identifiers_zero split_on_inject)

lemma tag_order_zero: "tag_order s t = 0 \<longleftrightarrow> s = t"
  by (auto simp: tag_order_def compare_prerelease_zero split: option.splits)

interpretation tags: comparator tag_order
proof
  show "tag_order s t < 0 \<longleftrightarrow> 0 < tag_order t s" for s t
    by (auto simp: tag_order_def compare_prerelease_def identifiers.opposite split: option.splits)
  show "tag_order s u \<le> 0" if "tag_order s t \<le> 0" "tag_order t u \<le> 0" for s t u
    using that identifiers.chain by (auto simp: tag_order_def compare_prerelease_def split: option.splits)
qed

lemma compare_parsed_parts:
  "compare_parsed a b = or_else (sv_major a - sv_major b) (or_else (sv_minor a - sv_minor b)
     (or_else (sv_patch a - sv_patch b) (tag_order (sv_prerelease a) (sv_prerelease b))))"
  by (auto simp: compare_parsed_def or_else_def tag_order_def compare_prerelease_zero split: option.splits)

interpretation versions: comparator compare_parsed
  unfolding compare_parsed_parts
  by (intro comparator_or_else [where h = sv_major and k = "\<lambda>x. x"] comparator_or_else [where h = sv_minor and k = "\<lambda>x. x"]
      comparator_or_else [where h = sv_patch and k = sv_prerelease] comparator_minus tags.comparator_axioms)

lemma compare_parsed_zero: "compare_parsed a b = 0 \<longleftrightarrow> a = b"
  by (cases a; cases b) (auto simp: compare_parsed_parts or_else_sign tag_order_zero)

section \<open>A version's text\<close>

definition show_version :: "semver \<Rightarrow> string" where
  "show_version v = show_int (sv_major v) @ ''.'' @ show_int (sv_minor v) @ ''.'' @ show_int (sv_patch v)
     @ (case sv_prerelease v of None \<Rightarrow> '''' | Some t \<Rightarrow> CHR ''-'' # t)"

lemma digit_char_cases:
  assumes "is_digit c"
  obtains k where "k < 10" "c = digit_char k" "\<forall>t. read_nat (t @ [c]) = 10 * read_nat t + int k"
proof
  let ?k = "of_char c - 48 :: nat"
  have c: "48 \<le> (of_char c :: nat)" "(of_char c :: nat) \<le> 57" using assms by (simp_all add: is_digit_def)
  then show "?k < 10" by linarith
  show "c = digit_char ?k" using c by (simp add: digit_char_def)
  show "\<forall>t. read_nat (t @ [c]) = 10 * read_nat t + int ?k"
    unfolding read_nat_snoc using c(1) by (simp only: of_nat_diff of_nat_numeral simp_thms)
qed

lemma read_nat_digits:
  assumes "list_all is_digit t" "t \<noteq> ''''" "t = ''0'' \<or> hd t \<noteq> CHR ''0''"
  shows "show_nat (nat (read_nat t)) = t \<and> 0 \<le> read_nat t \<and> (t \<noteq> ''0'' \<longrightarrow> 0 < read_nat t)"
  using assms
proof (induction t rule: rev_induct)
  case (snoc c t)
  from snoc.prems(1) have "is_digit c" by simp
  then obtain k where k: "k < 10" "c = digit_char k" "\<forall>t. read_nat (t @ [c]) = 10 * read_nat t + int k"
    by (rule digit_char_cases)
  show ?case
  proof (cases "t = ''''")
    case True
    have read: "read_nat [c] = int k" using spec [OF k(3), of "''''"] by (simp add: read_nat_def)
    have "digit_char 0 = CHR ''0''" by code_simp
    then have "k = 0 \<longleftrightarrow> c = CHR ''0''" using digit_char_inject [of k 0] k(1,2) by auto
    with True k(1,2) read show ?thesis by (cases "k = 0") (simp_all add: show_nat.simps [of k] show_nat.simps [of 0])
  next
    case False
    then have "hd t \<noteq> CHR ''0''" using snoc.prems(3) by (cases t) auto
    moreover from this have "t \<noteq> ''0''" by auto
    ultimately have IH: "show_nat (nat (read_nat t)) = t" "0 < read_nat t" using snoc.IH snoc.prems(1) False by simp_all
    define n where "n = nat (read_nat t)"
    have n: "read_nat t = int n" "0 < n" "show_nat n = t" using IH by (simp_all add: n_def)
    have "nat (read_nat (t @ [c])) = 10 * n + k" "0 < read_nat (t @ [c])" using n(2) by (simp_all add: k(3) n(1) nat_add_distrib)
    moreover have "show_nat (10 * n + k) = show_nat n @ [c]"
      using n(2) k(1,2) by (subst show_nat.simps) simp
    ultimately show ?thesis using n(3) by simp
  qed
qed simp

lemma number_part_shown: "number_part t \<Longrightarrow> show_int (read_nat t) = t \<and> 0 \<le> read_nat t"
  using read_nat_digits [of t] by (auto simp: number_part_def show_int_def)

lemma parse_version_cases:
  assumes "parse_version t = Some v"
  obtains a b c tag where "t = a @ ''.'' @ b @ ''.'' @ c @ (case tag of None \<Rightarrow> '''' | Some s \<Rightarrow> CHR ''-'' # s)"
    "number_part a" "number_part b" "number_part c" "case tag of None \<Rightarrow> True | Some s \<Rightarrow> list_all is_tag_char s"
    "v = \<lparr>sv_major = read_nat a, sv_minor = read_nat b, sv_patch = read_nat c, sv_prerelease = tag\<rparr>"
proof -
  let ?core = "takeWhile (\<lambda>c. c \<noteq> CHR ''-'') t" and ?rest = "dropWhile (\<lambda>c. c \<noteq> CHR ''-'') t"
  from assms obtain a b c tag where parts: "split_on (CHR ''.'') ?core = [a, b, c]" "tag_part ?rest = Some tag"
    "number_part a" "number_part b" "number_part c"
    and v: "v = \<lparr>sv_major = read_nat a, sv_minor = read_nat b, sv_patch = read_nat c, sv_prerelease = tag\<rparr>"
    by (auto simp: parse_version_def split: list.splits option.splits if_splits)
  have core: "?core = a @ ''.'' @ b @ ''.'' @ c" using join_split [of "CHR ''.''" ?core] by (simp add: parts(1))
  have rest: "?rest = (case tag of None \<Rightarrow> '''' | Some s \<Rightarrow> CHR ''-'' # s)" "case tag of None \<Rightarrow> True | Some s \<Rightarrow> list_all is_tag_char s"
    using parts(2) by (auto simp: tag_part_def dropWhile_eq_Cons_conv split: list.splits if_splits)
  have "t = ?core @ ?rest" by simp
  then show thesis using that parts(3-5) v rest unfolding core by simp
qed

lemma parse_version_shown: "parse_version t = Some v \<Longrightarrow> show_version v = t"
  by (erule parse_version_cases) (simp add: show_version_def number_part_shown)

lemma parse_version_inject: "parse_version s = Some v \<Longrightarrow> parse_version t = Some v \<Longrightarrow> s = t"
  using parse_version_shown by metis

lemma parse_version_bounds:
  assumes "parse_version t = Some v"
  shows "0 \<le> sv_major v" "0 \<le> sv_minor v" "0 \<le> sv_patch v"
  using assms by (auto elim!: parse_version_cases simp: number_part_shown)

section \<open>The newest version\<close>

lemma insert_by_cong: "(\<And>y. y \<in> set ys \<Longrightarrow> b y x = b' y x) \<Longrightarrow> insert_by b x ys = insert_by b' x ys"
  by (induction ys) auto

lemma sort_by_cong: "(\<And>x y. x \<in> set xs \<Longrightarrow> y \<in> set xs \<Longrightarrow> b x y = b' x y) \<Longrightarrow> sort_by b xs = sort_by b' xs"
proof (induction xs)
  case (Cons x xs)
  then have "sort_by b xs = sort_by b' xs" by simp
  moreover have "insert_by b x (sort_by b' xs) = insert_by b' x (sort_by b' xs)" using Cons.prems by (intro insert_by_cong) auto
  ultimately show ?case by (simp add: sort_by_def)
qed simp

definition version_of :: "string \<Rightarrow> semver" where
  "version_of t = the (parse_version t)"

interpretation version_texts: comparator "\<lambda>a b. compare_parsed (version_of a) (version_of b)"
  by unfold_locales (use versions.opposite versions.chain in blast)+

lemma satisfies_version: "satisfies t wanted \<Longrightarrow> parse_version t = Some (version_of t)"
  by (auto simp: satisfies_def version_of_def split: option.splits)

lemma compare_versions_of:
  "satisfies a wanted \<Longrightarrow> satisfies b wanted' \<Longrightarrow> compare_versions a b = Inr (compare_parsed (version_of a) (version_of b))"
  by (simp add: compare_versions_def satisfies_version)

lemma max_satisfying_cases:
  obtains (none) "max_satisfying vs wanted = None" "\<forall>v \<in> set vs. \<not> satisfies v wanted"
  | (newest) v where "max_satisfying vs wanted = Some v" "v \<in> set vs" "satisfies v wanted"
      "\<forall>w \<in> set vs. satisfies w wanted \<longrightarrow> compare_parsed (version_of w) (version_of v) \<le> 0"
proof -
  let ?vs = "filter (\<lambda>v. satisfies v wanted) vs" and ?ord = "\<lambda>a b. compare_parsed (version_of a) (version_of b)"
  define sorted where "sorted = sort_by (\<lambda>a b. ?ord a b < 0) ?vs"
  have same: "sort_by version_before ?vs = sorted"
    unfolding sorted_def by (rule sort_by_cong) (auto simp: version_before_def compare_versions_of)
  have members: "set sorted = set ?vs" by (simp add: sorted_def)
  show thesis
  proof (cases "sorted = []")
    case True
    then have "?vs = []" using members by simp
    then have "\<forall>v \<in> set vs. \<not> satisfies v wanted" by (simp add: filter_empty_conv)
    with True show thesis using none by (simp add: max_satisfying_def same Let_def)
  next
    case False
    then have last: "max_satisfying vs wanted = Some (last sorted)" "last sorted \<in> set ?vs"
      using members last_in_set [of sorted] by (auto simp: max_satisfying_def same Let_def)
    have "sorted_wrt (\<lambda>a b. ?ord a b \<le> 0) sorted" unfolding sorted_def by (rule version_texts.sorted_sort_by)
    then have "sorted_wrt (\<lambda>a b. ?ord a b \<le> 0) (butlast sorted @ [last sorted])" using False by simp
    moreover have "set sorted = insert (last sorted) (set (butlast sorted))"
      using arg_cong [where f = set, OF append_butlast_last_id [OF False]] by auto
    ultimately have "?ord w (last sorted) \<le> 0" if "w \<in> set sorted" for w
      using that versions.same by (auto simp: sorted_wrt_append)
    with last show thesis using newest [of "last sorted"] members by auto
  qed
qed

section \<open>Caret ranges\<close>

lemma tag_char_plain:
  assumes "is_tag_char c"
  shows "\<not> is_space c" "c \<noteq> CHR ''|''"
  using assms by (auto simp: is_tag_char_def is_space_def is_digit_def is_upper_def is_lower_def)

lemma version_chars:
  assumes "parse_version t = Some v"
  shows "list_all is_tag_char t" "t \<noteq> ''''"
  using assms
  by (auto elim!: parse_version_cases simp: number_part_def is_tag_char_def list_all_iff is_digit_zero split: option.splits)

lemma split_bars_plain: "CHR ''|'' \<notin> set t \<Longrightarrow> split_bars t = [t]"
  by (induction t rule: split_bars.induct) auto

lemma words_of_plain: "list_all (\<lambda>c. \<not> is_space c) t \<Longrightarrow> t \<noteq> '''' \<Longrightarrow> words_of t = [t]"
proof (induction t)
  case (Cons c t)
  show ?case
  proof (cases t)
    case (Cons d r)
    then have "words_of t = [t]" "\<not> is_space c" "\<not> is_space d" using Cons.IH Cons.prems by auto
    with Cons show ?thesis by (subst words_of.simps) (simp del: words_of.simps)
  qed (use Cons.prems in simp)
qed simp

lemma js_trim_plain:
  assumes "list_all (\<lambda>c. \<not> is_space c) t"
  shows "js_trim t = t"
proof -
  have "dropWhile is_space t = t" "dropWhile is_space (rev t) = rev t"
    using assms by (simp_all add: dropWhile_eq_self_iff list_all_iff hd_rev) (metis last_in_set list.set_sel(1) set_rev)+
  then show ?thesis by (simp add: js_trim_def)
qed

lemma caret_range:
  assumes v: "parse_version t = Some v" and some: "parse_range (CHR ''^'' # t) = Some sets"
  shows "sets = [exact_bounds Caret v]"
proof -
  let ?t = "CHR ''^'' # t"
  note chars = version_chars [OF v]
  have plain: "list_all (\<lambda>c. \<not> is_space c) ?t" "CHR ''|'' \<notin> set ?t"
    using chars(1) tag_char_plain by (auto simp: list_all_iff is_space_def)
  have "range_token ?t = Some (exact_bounds Caret v)" by (simp add: range_token_def v)
  then have "range_sets [?t] = Some [exact_bounds Caret v]"
    by (simp add: js_trim_plain [OF plain(1)] words_of_plain [OF plain(1)] del: words_of.simps)
  with some show ?thesis by (simp add: parse_range_def split_bars_plain [OF plain(2)] del: range_sets.simps split_bars.simps split: if_splits)
qed

text \<open>Below a release means below its numbers.\<close>

lemma below_release:
  assumes "compare_parsed w (release a b c) < 0"
  shows "sv_major w < a \<or> sv_major w = a \<and> (sv_minor w < b \<or> sv_minor w = b \<and> (sv_patch w < c \<or> sv_patch w = c \<and> sv_prerelease w \<noteq> None))"
  using assms by (auto simp: compare_parsed_parts or_else_sign release_def tag_order_def split: option.splits)

lemma caret_meets:
  assumes m: "meets w (exact_bounds Caret v)" and nonneg: "0 \<le> sv_major v" "0 \<le> sv_minor v" "0 \<le> sv_patch v"
    and here: "0 \<le> sv_minor w" "0 \<le> sv_patch w"
  shows "0 \<le> compare_parsed w v" "sv_major w = sv_major v"
    "sv_major v = 0 \<Longrightarrow> sv_minor w = sv_minor v" "sv_major v = 0 \<Longrightarrow> sv_minor v = 0 \<Longrightarrow> sv_patch w = sv_patch v"
    "sv_prerelease w \<noteq> None \<Longrightarrow> sv_minor w = sv_minor v \<and> sv_patch w = sv_patch v"
proof -
  let ?upper = "if 0 < sv_major v then bump_major v else if 0 < sv_minor v then bump_minor v else bump_patch v"
  from m have order: "0 \<le> compare_parsed w v" "compare_parsed w ?upper < 0"
    and tag: "sv_prerelease w \<noteq> None \<Longrightarrow> names_prerelease w (bound_of AtLeast v)"
    by (auto simp: meets_def exact_bounds_def within_bound_def Let_def names_prerelease_def bump_major_def bump_minor_def bump_patch_def
        release_def split: if_splits)
  show "0 \<le> compare_parsed w v" by (rule order)
  have named: "sv_major w = sv_major v \<and> sv_minor w = sv_minor v \<and> sv_patch w = sv_patch v" if "sv_prerelease w \<noteq> None"
    using tag [OF that] by (simp add: names_prerelease_def)
  then show "sv_prerelease w \<noteq> None \<Longrightarrow> sv_minor w = sv_minor v \<and> sv_patch w = sv_patch v" by blast
  have ge: "sv_major v < sv_major w \<or> sv_major w = sv_major v \<and> (sv_minor v < sv_minor w \<or> sv_minor w = sv_minor v \<and> sv_patch v \<le> sv_patch w)"
    using order(1) unfolding compare_parsed_parts by (auto simp: or_else_def split: if_splits)
  have lt: "sv_major w < sv_major ?upper \<or> sv_major w = sv_major ?upper \<and> (sv_minor w < sv_minor ?upper
      \<or> sv_minor w = sv_minor ?upper \<and> sv_patch w < sv_patch ?upper)" if "sv_prerelease w = None"
    using below_release [of w "sv_major ?upper" "sv_minor ?upper" "sv_patch ?upper"] order(2) that
    by (auto simp: bump_major_def bump_minor_def bump_patch_def release_def split: if_splits)
  show "sv_major w = sv_major v"
  proof (cases "sv_prerelease w")
    case None
    then show ?thesis using ge lt nonneg here by (auto simp: bump_major_def bump_minor_def bump_patch_def release_def split: if_splits)
  qed (use named in simp)
  show "sv_minor w = sv_minor v" if "sv_major v = 0"
  proof (cases "sv_prerelease w")
    case None
    then show ?thesis using ge lt nonneg here that by (auto simp: bump_major_def bump_minor_def bump_patch_def release_def split: if_splits)
  qed (use named in simp)
  show "sv_patch w = sv_patch v" if "sv_major v = 0" "sv_minor v = 0"
  proof (cases "sv_prerelease w")
    case None
    then show ?thesis using ge lt nonneg here that by (auto simp: bump_major_def bump_minor_def bump_patch_def release_def split: if_splits)
  qed (use named in simp)
qed

end
