(* ===== verification/Version_Properties.thy ===== *)
theory Version_Properties
  imports Version_Order
begin

text \<open>The properties of versions and their ranges.\<close>

text \<open>C40. The comparison totally orders version texts: of two, exactly one is newer unless they are the same text, and the order is
  transitive, through prerelease tags of any kind.\<close>

theorem version_order_is_total:
  assumes "is_version a" and "is_version b" and "is_version c"
  shows "\<exists>m n k. compare_versions a b = Inr m \<and> compare_versions b a = Inr n \<and> compare_versions b c = Inr k
    \<and> (m = 0 \<longleftrightarrow> a = b) \<and> (m < 0 \<longleftrightarrow> 0 < n) \<and> (m \<le> 0 \<and> k \<le> 0 \<longrightarrow> (\<exists>l \<le> 0. compare_versions a c = Inr l))"
proof -
  from assms obtain u v w where parsed: "parse_version a = Some u" "parse_version b = Some v" "parse_version c = Some w"
    by (auto simp: is_version_def)
  have "u = v \<longleftrightarrow> a = b" using parsed(1,2) parse_version_inject by auto
  then show ?thesis
    using versions.opposite [of u v] versions.chain [of u v w] compare_parsed_zero [of u v] parsed by (simp add: compare_versions_def)
qed

lemma version_order_is_total_example:
  "\<exists>m n. compare_versions ''1.0.0-beta.2'' ''1.0.0-beta.11'' = Inr m \<and> m < 0 \<and> compare_versions ''1.0.0-beta.11'' ''1.0.0-beta.2'' = Inr n \<and> 0 < n"
proof -
  have versions: "is_version ''1.0.0-beta.2''" "is_version ''1.0.0-beta.11''" "is_version ''1.0.0''" by code_simp+
  have "compare_versions ''1.0.0-beta.2'' ''1.0.0-beta.11'' = Inr (- 1)" by code_simp
  with version_order_is_total [OF versions] show ?thesis by auto
qed

text \<open>The newest version that satisfies a range is one of the list that does, none that does is newer, and it depends only on
  which versions the list has, not on their order; there is none exactly when no version satisfies the range.\<close>

theorem max_satisfying_is_newest:
  shows "(max_satisfying vs wanted = None \<longleftrightarrow> (\<forall>v \<in> set vs. \<not> satisfies v wanted))
    \<and> (\<forall>v. max_satisfying vs wanted = Some v \<longrightarrow> v \<in> set vs \<and> satisfies v wanted
         \<and> (\<forall>w \<in> set vs. satisfies w wanted \<longrightarrow> (\<exists>n \<le> 0. compare_versions w v = Inr n)))
    \<and> (set ws = set vs \<longrightarrow> max_satisfying ws wanted = max_satisfying vs wanted)"
proof -
  have newest: "v \<in> set us \<and> satisfies v wanted \<and> (\<forall>w \<in> set us. satisfies w wanted \<longrightarrow> compare_parsed (version_of w) (version_of v) \<le> 0)"
    if "max_satisfying us wanted = Some v" for us v
    using that by (cases rule: max_satisfying_cases [of us wanted]) auto
  have none: "max_satisfying us wanted = None \<longleftrightarrow> (\<forall>v \<in> set us. \<not> satisfies v wanted)" for us
    by (cases rule: max_satisfying_cases [of us wanted]) auto
  have "max_satisfying ws wanted = max_satisfying vs wanted" if same: "set ws = set vs"
  proof (cases "max_satisfying vs wanted")
    case None
    then have "max_satisfying ws wanted = None" using none [of vs] none [of ws] same by blast
    with None show ?thesis by simp
  next
    case (Some v)
    have "max_satisfying ws wanted \<noteq> None" using none [of vs] none [of ws] same Some by simp
    then obtain w where w: "max_satisfying ws wanted = Some w" by blast
    have both: "satisfies v wanted" "satisfies w wanted" using newest [OF Some] newest [OF w] by simp_all
    have "compare_parsed (version_of w) (version_of v) \<le> 0" "compare_parsed (version_of v) (version_of w) \<le> 0"
      using newest [OF Some] newest [OF w] same by simp_all
    then have "version_of w = version_of v" using versions.not_after [of "version_of w" "version_of v"] compare_parsed_zero by force
    then show ?thesis using Some w both satisfies_version parse_version_inject by metis
  qed
  moreover have "\<exists>n \<le> 0. compare_versions w v = Inr n"
    if "max_satisfying vs wanted = Some v" "w \<in> set vs" "satisfies w wanted" for v w
    using newest [OF that(1)] that(2,3) compare_versions_of [of w wanted v wanted] by blast
  ultimately show ?thesis using none [of vs] newest [of vs] by blast
qed

lemma max_satisfying_is_newest_example:
  "max_satisfying [''1.10.0'', ''2.0.0-beta'', ''1.9.0''] ''^1.2.0'' = max_satisfying [''1.9.0'', ''2.0.0-beta'', ''1.10.0''] ''^1.2.0''
   \<and> max_satisfying [''1.9.0'', ''2.0.0-beta'', ''1.10.0''] ''^1.2.0'' = Some ''1.10.0''"
proof -
  have "max_satisfying [''1.9.0'', ''2.0.0-beta'', ''1.10.0''] ''^1.2.0'' = Some ''1.10.0''" by code_simp
  moreover have "set [''1.10.0'', ''2.0.0-beta'', ''1.9.0''] = set [''1.9.0'', ''2.0.0-beta'', ''1.10.0'']" by auto
  ultimately show ?thesis using max_satisfying_is_newest by blast
qed

text \<open>A caret range takes only compatible versions: not older than its base and with the base's leftmost number that is not
  zero, and a prerelease only of the base's own release, so a dependency on 1.x never takes 2.0.0-beta.\<close>

theorem caret_takes_only_compatible:
  assumes "parse_version base = Some b" and "satisfies version (CHR ''^'' # base)"
  shows "\<exists>v. parse_version version = Some v \<and> 0 \<le> compare_parsed v b \<and> sv_major v = sv_major b
    \<and> (sv_major b = 0 \<longrightarrow> sv_minor v = sv_minor b) \<and> (sv_major b = 0 \<and> sv_minor b = 0 \<longrightarrow> sv_patch v = sv_patch b)
    \<and> (sv_prerelease v \<noteq> None \<longrightarrow> sv_minor v = sv_minor b \<and> sv_patch v = sv_patch b)"
proof -
  from assms(2) obtain v sets where v: "parse_version version = Some v" "parse_range (CHR ''^'' # base) = Some sets" "list_ex (meets v) sets"
    by (auto simp: satisfies_def split: option.splits)
  then have "meets v (exact_bounds Caret b)" using caret_range [OF assms(1) v(2)] by simp
  from caret_meets [OF this parse_version_bounds [OF assms(1)] parse_version_bounds(2,3) [OF v(1)]] v(1) show ?thesis by auto
qed

lemma caret_takes_only_compatible_example:
  "\<exists>v. parse_version ''0.3.9'' = Some v \<and> sv_major v = 0 \<and> sv_minor v = 3"
proof -
  have base: "parse_version ''0.3.1'' = Some \<lparr>sv_major = 0, sv_minor = 3, sv_patch = 1, sv_prerelease = None\<rparr>"
    and taken: "satisfies ''0.3.9'' (CHR ''^'' # ''0.3.1'')" by code_simp+
  from caret_takes_only_compatible [OF base taken] show ?thesis by auto
qed

end
