(* ===== verification/Automation_Schedule.thy ===== *)
theory Automation_Schedule
  imports Calendar Js_Value
begin

text \<open>
  Calendar-time schedules, \<open>shared/automation-schedule.ts\<close>. What the platform knows of a timezone (\<open>Intl.DateTimeFormat\<close>) is
  the parameter \<open>zones\<close>: the wall clock of a named zone as a function of an instant, or nothing for a name it does not know.
  Instants are milliseconds within the range of JavaScript's dates; a time is the text \<open>HH:MM\<close> that \<open>check_schedule\<close> accepts.
\<close>

section \<open>Schedules\<close>

datatype cadence = Daily | Weekly

record schedule =
  sd_cadence :: cadence
  sd_weekday :: "int option"
  sd_time :: string
  sd_timezone :: string

record wall_clock =
  wc_year :: int
  wc_month :: int
  wc_day :: int
  wc_hour :: int
  wc_minute :: int
  wc_second :: int

type_synonym zone = "int \<Rightarrow> wall_clock"

definition on_time_ms :: int where "on_time_ms = 2 * 60000"
definition max_backlog_ms :: int where "max_backlog_ms = 400 * 24 * 60 * 60000"

definition is_time_text :: "string \<Rightarrow> bool" where
  "is_time_text t \<longleftrightarrow> (case t of [a, b, c, d, e] \<Rightarrow>
       ((a = CHR ''0'' \<or> a = CHR ''1'') \<and> is_digit b \<or> a = CHR ''2'' \<and> b \<in> set ''0123'')
       \<and> c = CHR '':'' \<and> d \<in> set ''012345'' \<and> is_digit e
     | _ \<Rightarrow> False)"

definition is_letter :: "char \<Rightarrow> bool" where
  "is_letter c \<longleftrightarrow> is_upper c \<or> is_lower c"

definition is_zone_char :: "char \<Rightarrow> bool" where
  "is_zone_char c \<longleftrightarrow> is_letter c \<or> is_digit c \<or> c = CHR ''_'' \<or> c = CHR ''+'' \<or> c = CHR ''-''"

text \<open>Names joined by slashes; the first starts with a letter.\<close>

definition is_zone_name :: "string \<Rightarrow> bool" where
  "is_zone_name t \<longleftrightarrow> list_all (\<lambda>part. part \<noteq> '''' \<and> list_all is_zone_char part) (split_on (CHR ''/'') t)
     \<and> is_letter (hd t)"

definition zone_of :: "(string \<Rightarrow> zone option) \<Rightarrow> string \<Rightarrow> zone option" where
  "zone_of zones timezone = (if is_zone_name timezone then zones timezone else None)"

definition is_timeZone :: "(string \<Rightarrow> zone option) \<Rightarrow> jval \<Rightarrow> bool" where
  "is_timeZone zones v = (case v of JStr t \<Rightarrow> utf16_units t \<le> 64 \<and> zone_of zones t \<noteq> None | _ \<Rightarrow> False)"

text \<open>A checked field is read as it is; \<open>Inl\<close> is the sentence of the refusal.\<close>

definition read_text :: "jval \<Rightarrow> string" where
  "read_text v = (case v of JStr t \<Rightarrow> t | _ \<Rightarrow> '''')"

definition weekday_field :: "cadence \<Rightarrow> jval \<Rightarrow> string + int option" where
  "weekday_field c v = (case c of
     Weekly \<Rightarrow> (case v of JInt n \<Rightarrow> (if 0 \<le> n \<and> n \<le> 6 then Inr (Some n) else Inl ''Choose the day of the week.'')
       | _ \<Rightarrow> Inl ''Choose the day of the week.'')
   | Daily \<Rightarrow> if is_nullish v then Inr None else Inl ''A daily schedule has no day of the week.'')"

definition check_schedule :: "(string \<Rightarrow> zone option) \<Rightarrow> jval \<Rightarrow> string + schedule" where
  "check_schedule zones input = (case input of JObj fs \<Rightarrow>
     (case filter (\<lambda>k. k \<notin> set [''cadence'', ''weekday'', ''time'', ''timezone'']) (map fst fs) of
        extra # _ \<Rightarrow> Inl (''A schedule has no '' @ extra @ ''.'')
      | [] \<Rightarrow>
        if jfield fs ''cadence'' \<noteq> JStr ''daily'' \<and> jfield fs ''cadence'' \<noteq> JStr ''weekly'' then Inl ''Choose every day or every week.''
        else let c = (if jfield fs ''cadence'' = JStr ''weekly'' then Weekly else Daily); time = jfield fs ''time'' in
        case weekday_field c (jfield fs ''weekday'') of Inl e \<Rightarrow> Inl e
        | Inr weekday \<Rightarrow>
            if (case time of JStr t \<Rightarrow> \<not> is_time_text t | _ \<Rightarrow> True) then Inl ''Give the time as hours and minutes, such as 08:00.''
            else if \<not> is_timeZone zones (jfield fs ''timezone'') then Inl ''Choose a named timezone, such as America/New_York.''
            else Inr \<lparr>sd_cadence = c, sd_weekday = weekday, sd_time = read_text time, sd_timezone = read_text (jfield fs ''timezone'')\<rparr>)
   | _ \<Rightarrow> Inl ''Send a schedule.'')"

definition same_schedule :: "schedule option \<Rightarrow> schedule option \<Rightarrow> bool" where
  "same_schedule a b \<longleftrightarrow> (case (a, b) of (None, None) \<Rightarrow> True
     | (Some x, Some y) \<Rightarrow> sd_cadence x = sd_cadence y \<and> sd_weekday x = sd_weekday y \<and> sd_time x = sd_time y
         \<and> sd_timezone x = sd_timezone y
     | _ \<Rightarrow> False)"

section \<open>Wall clock\<close>

text \<open>The wall clock's reading written as if it were UTC, and the zone's offset.\<close>

definition naive_of :: "wall_clock \<Rightarrow> int" where
  "naive_of w = date_utc (wc_year w) (wc_month w - 1) (wc_day w) (make_time (wc_hour w) (wc_minute w) (wc_second w) 0)"

definition offset_at :: "zone \<Rightarrow> int \<Rightarrow> int" where
  "offset_at wall t = naive_of (wall t) - t div 1000 * 1000"

text \<open>The search for the jump, by halves.\<close>

function bisect :: "zone \<Rightarrow> int \<Rightarrow> int \<Rightarrow> int \<Rightarrow> int" where
  "bisect wall naive low high =
     (if high - low \<le> 1000 then high
      else let middle = (low + high) div 2000 * 1000 in
        if middle \<le> low \<or> high \<le> middle then high
        else if naive < naive_of (wall middle) then bisect wall naive low middle
        else bisect wall naive middle high)"
  by pat_completeness auto
termination
  by (relation "measure (\<lambda>(wall, naive, low, high). nat (high - low))") (auto simp: not_le)

declare bisect.simps [simp del]

definition set_order :: "'a list \<Rightarrow> 'a list" where
  "set_order xs = rev (remdups (rev xs))"

definition resolve_offsets :: "zone \<Rightarrow> int \<Rightarrow> int list" where
  "resolve_offsets wall naive = set_order (map (\<lambda>delta. offset_at wall (naive + delta)) [- ms_per_day, 0, ms_per_day])"

definition resolve_naive :: "zone \<Rightarrow> int \<Rightarrow> int \<times> bool" where
  "resolve_naive wall naive =
     (let candidates = map (\<lambda>offset. naive - offset) (resolve_offsets wall naive);
          valid = sort_by (\<lambda>a b. a < b) (filter (\<lambda>ms. naive_of (wall ms) = naive) candidates) in
      case valid of ms # _ \<Rightarrow> (ms, False)
      | [] \<Rightarrow> (bisect wall naive (Min (set candidates)) (Max (set candidates)), True))"

text \<open>The second part of the answer tells a time that does not exist (\<open>gap\<close>).\<close>

definition resolve_local :: "zone \<Rightarrow> int \<Rightarrow> int \<Rightarrow> int \<Rightarrow> int \<Rightarrow> int \<Rightarrow> int \<times> bool" where
  "resolve_local wall year month day hour minute = resolve_naive wall (date_utc year (month - 1) day (make_time hour minute 0 0))"

section \<open>Slots\<close>

record slot =
  sl_at :: string
  sl_ms :: int
  sl_local :: string
  sl_gap :: bool

definition pad2 :: "int \<Rightarrow> string" where
  "pad2 n = pad_zero 2 (show_int n)"

definition time_parts :: "string \<Rightarrow> int \<times> int" where
  "time_parts t = (case split_on (CHR '':'') t of h # m # _ \<Rightarrow> (read_nat h, read_nat m) | _ \<Rightarrow> (0, 0))"

definition utc_weekday :: "int \<Rightarrow> int" where
  "utc_weekday t = (utc_day t + 4) mod 7"

definition slot_on :: "zone \<Rightarrow> schedule \<Rightarrow> int \<Rightarrow> slot option" where
  "slot_on wall sd date =
     (if sd_cadence sd = Weekly \<and> sd_weekday sd \<noteq> Some (utc_weekday date) then None
      else let (hour, minute) = time_parts (sd_time sd);
          year = utc_full_year date; month = utc_month date + 1; day = utc_date date;
          (ms, gap) = resolve_local wall year month day hour minute in
        Some \<lparr>sl_at = to_iso ms, sl_ms = ms,
          sl_local = show_int year @ ''-'' @ pad2 month @ ''-'' @ pad2 day @ '' '' @ sd_time sd, sl_gap = gap\<rparr>)"

definition local_date :: "zone \<Rightarrow> int \<Rightarrow> int" where
  "local_date wall t = date_utc (wc_year (wall t)) (wc_month (wall t) - 1) (wc_day (wall t)) 0"

text \<open>One slot per instant: a later one at the same instant takes the place of the earlier.\<close>

definition push_slot :: "slot list \<Rightarrow> slot \<Rightarrow> slot list" where
  "push_slot out s = (if out \<noteq> [] \<and> sl_ms (last out) = sl_ms s then butlast out @ [s] else out @ [s])"

definition push_within :: "zone \<Rightarrow> schedule \<Rightarrow> (int \<Rightarrow> bool) \<Rightarrow> int \<Rightarrow> slot list \<Rightarrow> slot list" where
  "push_within wall sd wanted date out = (case slot_on wall sd date of None \<Rightarrow> out
     | Some s \<Rightarrow> if wanted (sl_ms s) then push_slot out s else out)"

function slots_loop :: "zone \<Rightarrow> schedule \<Rightarrow> (int \<Rightarrow> bool) \<Rightarrow> nat \<Rightarrow> int \<Rightarrow> int \<Rightarrow> slot list \<Rightarrow> slot list" where
  "slots_loop wall sd wanted limit final date out =
     (if final < date then out
      else let out = push_within wall sd wanted date out in
        if limit \<le> length out then out else slots_loop wall sd wanted limit final (date + ms_per_day) out)"
  by pat_completeness auto
termination
  by (relation "measure (\<lambda>(wall, sd, wanted, limit, final, date, out). nat (final + ms_per_day - date))") (auto simp: ms_per_day_def)

declare slots_loop.simps [simp del]

text \<open>The timezone of a schedule that was checked is known; an unknown one throws.\<close>

definition unknown_zone :: "string \<Rightarrow> string" where
  "unknown_zone timezone = ''Unknown timezone '' @ timezone"

definition slots_in :: "zone \<Rightarrow> schedule \<Rightarrow> int \<Rightarrow> int \<Rightarrow> nat \<Rightarrow> slot list" where
  "slots_in wall sd after until limit =
     slots_loop wall sd (\<lambda>ms. after < ms \<and> ms \<le> until) limit (local_date wall until + ms_per_day)
       (local_date wall after - ms_per_day) []"

definition slots_between :: "(string \<Rightarrow> zone option) \<Rightarrow> schedule \<Rightarrow> int \<Rightarrow> int \<Rightarrow> nat \<Rightarrow> string + slot list" where
  "slots_between zones sd after until limit =
     (if until \<le> after then Inr []
      else case zone_of zones (sd_timezone sd) of None \<Rightarrow> Inl (unknown_zone (sd_timezone sd))
      | Some wall \<Rightarrow> Inr (slots_in wall sd after until limit))"

fun next_loop :: "zone \<Rightarrow> schedule \<Rightarrow> int \<Rightarrow> nat \<Rightarrow> nat \<Rightarrow> int \<Rightarrow> slot list \<Rightarrow> slot list" where
  "next_loop wall sd after count 0 date out = out"
| "next_loop wall sd after count (Suc guard) date out =
     (if length out < count then next_loop wall sd after count guard (date + ms_per_day) (push_within wall sd (\<lambda>ms. after < ms) date out)
      else out)"

definition next_slots :: "(string \<Rightarrow> zone option) \<Rightarrow> schedule \<Rightarrow> int \<Rightarrow> nat \<Rightarrow> string + slot list" where
  "next_slots zones sd after count = (case zone_of zones (sd_timezone sd) of None \<Rightarrow> Inl (unknown_zone (sd_timezone sd))
     | Some wall \<Rightarrow> Inr (next_loop wall sd after count 800 (local_date wall after - ms_per_day) []))"

section \<open>What a pass does\<close>

record due_plan =
  dp_due :: "slot option"
  dp_late :: bool
  dp_missed :: "slot list"

definition plan_open :: "slot list \<Rightarrow> int \<Rightarrow> int \<Rightarrow> due_plan" where
  "plan_open opened now catchUpMinutes =
     (if opened = [] then \<lparr>dp_due = None, dp_late = False, dp_missed = []\<rparr>
      else let lateBy = now - sl_ms (last opened); runs = (lateBy \<le> on_time_ms \<or> lateBy \<le> catchUpMinutes * 60000) in
        \<lparr>dp_due = (if runs then Some (last opened) else None), dp_late = (runs \<and> on_time_ms < lateBy),
         dp_missed = (if runs then butlast opened else opened)\<rparr>)"

definition plan_due :: "(string \<Rightarrow> zone option) \<Rightarrow> schedule \<Rightarrow> int \<Rightarrow> int \<Rightarrow> string set \<Rightarrow> int \<Rightarrow> string + due_plan" where
  "plan_due zones sd after now covered catchUpMinutes =
     (case slots_between zones sd (max after (now - max_backlog_ms)) now 1000 of Inl e \<Rightarrow> Inl e
      | Inr slots \<Rightarrow> Inr (plan_open (filter (\<lambda>s. sl_at s \<notin> covered) slots) now catchUpMinutes))"

section \<open>Words\<close>

definition weekday_names :: "string list" where
  "weekday_names = [''Sunday'', ''Monday'', ''Tuesday'', ''Wednesday'', ''Thursday'', ''Friday'', ''Saturday'']"

definition month_names :: "string list" where
  "month_names = [''Jan'', ''Feb'', ''Mar'', ''Apr'', ''May'', ''Jun'', ''Jul'', ''Aug'', ''Sep'', ''Oct'', ''Nov'', ''Dec'']"

definition clock_text :: "string \<Rightarrow> string" where
  "clock_text time = (let (hour, minute) = time_parts time; twelve = (if hour mod 12 = 0 then 12 else hour mod 12) in
     show_int twelve @ '':'' @ pad2 minute @ '' '' @ (if hour < 12 then ''a.m.'' else ''p.m.''))"

definition describe_schedule :: "schedule \<Rightarrow> string" where
  "describe_schedule sd = ''Every '' @ (case sd_cadence sd of Daily \<Rightarrow> ''day''
       | Weekly \<Rightarrow> weekday_names ! nat (case sd_weekday sd of None \<Rightarrow> 0 | Some d \<Rightarrow> d))
     @ '' at '' @ clock_text (sd_time sd) @ '' '' @ sd_timezone sd"

definition local_text :: "zone \<Rightarrow> int \<Rightarrow> string" where
  "local_text wall t = (let w = wall t; weekday = utc_weekday (local_date wall t) in
     take 3 (weekday_names ! nat weekday) @ '' '' @ show_int (wc_day w) @ '' '' @ month_names ! nat (wc_month w - 1) @ '' ''
     @ show_int (wc_year w) @ '', '' @ clock_text (pad2 (wc_hour w) @ '':'' @ pad2 (wc_minute w)))"

definition slot_text :: "zone \<Rightarrow> slot \<Rightarrow> string" where
  "slot_text wall s = (let moment = local_text wall (sl_ms s) in
     if sl_gap s then moment @ '' ('' @ clock_text (drop 11 (sl_local s)) @ '' does not exist that day: the clocks go forward)''
     else moment)"

end
