(* ===== verification/Schedule_Guarantees.thy ===== *)
theory Schedule_Guarantees
  imports Automation_Schedule
begin

text \<open>
  A local time is the first instant at which the clock shows it or a later time; the slots of a schedule come in order, one per
  instant, and none is lost.
\<close>

section \<open>A zone that jumps once\<close>

text \<open>Zones are described from 1900 on; \<open>Date.UTC\<close> itself reads the years 0 to 99 as others.\<close>

definition modern :: "int \<Rightarrow> bool" where
  "modern t \<longleftrightarrow> - (25567 * ms_per_day) \<le> t"

lemma modern_le: "modern t \<Longrightarrow> t \<le> u \<Longrightarrow> modern u"
  by (simp add: modern_def)

text \<open>The zone's offset is \<open>before\<close> until \<open>jump\<close> and \<open>later\<close> from then on, as around one change of the clocks.\<close>

definition whole_seconds :: "int \<Rightarrow> bool" where
  "whole_seconds n \<longleftrightarrow> n mod 1000 = 0"

definition reading :: "zone \<Rightarrow> int \<Rightarrow> int" where
  "reading wall t = naive_of (wall t)"

definition jumps_once :: "zone \<Rightarrow> int \<Rightarrow> int \<Rightarrow> int \<Rightarrow> bool" where
  "jumps_once wall jump before later \<longleftrightarrow> whole_seconds jump \<and> whole_seconds before \<and> whole_seconds later
     \<and> \<bar>before\<bar> < ms_per_day \<and> \<bar>later\<bar> < ms_per_day
     \<and> (\<forall>t. modern t \<longrightarrow> reading wall t = t div 1000 * 1000 + (if t < jump then before else later))"

lemma set_set_order [simp]: "set (set_order xs) = set xs"
  by (simp add: set_order_def)

lemma reading_offset: "naive_of (wall t) = t div 1000 * 1000 + offset_at wall t"
  by (simp add: offset_at_def)

lemma jumps_once_offset: "jumps_once wall jump before later \<Longrightarrow> modern t \<Longrightarrow> offset_at wall t = (if t < jump then before else later)"
  using reading_offset [of wall t] by (simp add: jumps_once_def reading_def)

text \<open>The search ends at the jump.\<close>

lemma bisect_jump:
  assumes "\<And>t. whole_seconds t \<Longrightarrow> low \<le> t \<Longrightarrow> t \<le> high \<Longrightarrow> naive < naive_of (wall t) \<longleftrightarrow> jump \<le> t"
    and "low < jump" "jump \<le> high" "whole_seconds low" "whole_seconds high" "whole_seconds jump"
  shows "bisect wall naive low high = jump"
  using assms
proof (induction wall naive low high rule: bisect.induct)
  case (1 wall naive low high)
  let ?m = "(low + high) div 2000 * 1000"
  have mult: "\<exists>k. n = 1000 * k" if "whole_seconds n" for n using that by (auto simp: whole_seconds_def)
  from "1.prems"(4-6) obtain a b j where k: "low = 1000 * a" "high = 1000 * b" "jump = 1000 * j"
    using mult by (metis (no_types))
  then have m: "?m = 1000 * ((a + b) div 2)" by simp
  have whole: "whole_seconds ?m" by (simp add: whole_seconds_def)
  show ?case
  proof (cases "high - low \<le> 1000")
    case True
    then have "jump = high" using "1.prems"(2,3) k by simp
    with True show ?thesis by (subst bisect.simps) simp
  next
    case wide: False
    then have inside: "low < ?m" "?m < high" unfolding m using k by simp_all
    show ?thesis
    proof (cases "naive < naive_of (wall ?m)")
      case True
      then have "jump \<le> ?m" using "1.prems"(1) [OF whole] inside by simp
      then have "bisect wall naive low ?m = jump"
        using "1.IH"(1) [OF wide refl _ True] "1.prems" inside whole by simp
      with wide inside True show ?thesis by (subst bisect.simps) (simp add: Let_def)
    next
      case False
      then have "?m < jump" using "1.prems"(1) [OF whole] inside by simp
      then have "bisect wall naive ?m high = jump"
        using "1.IH"(2) [OF wide refl _ False] "1.prems" inside whole by simp
      with wide inside False show ?thesis by (subst bisect.simps) (simp add: Let_def)
    qed
  qed
qed

lemma resolve_offsets_set: "set (resolve_offsets wall naive) = (\<lambda>delta. offset_at wall (naive + delta)) ` {- ms_per_day, 0, ms_per_day}"
  by (simp add: resolve_offsets_def)

lemma resolve_valid:
  assumes "\<exists>ms \<in> (\<lambda>offset. naive - offset) ` set (resolve_offsets wall naive). reading wall ms = naive"
  shows "\<exists>ms. resolve_naive wall naive = (ms, False) \<and> reading wall ms = naive
    \<and> (\<exists>offset \<in> set (resolve_offsets wall naive). ms = naive - offset)
    \<and> (\<forall>offset \<in> set (resolve_offsets wall naive). reading wall (naive - offset) = naive \<longrightarrow> ms \<le> naive - offset)"
proof -
  let ?valid = "sort_by (\<lambda>a b. a < b) (filter (\<lambda>ms. naive_of (wall ms) = naive) (map (\<lambda>offset. naive - offset) (resolve_offsets wall naive)))"
  have set: "set ?valid = {ms \<in> (\<lambda>offset. naive - offset) ` set (resolve_offsets wall naive). reading wall ms = naive}"
    by (auto simp: reading_def)
  with assms obtain ms rest where v: "?valid = ms # rest" by (cases ?valid) auto
  have sorted: "sorted_wrt (\<le>) (sort_by (\<lambda>a b. a < b) xs)" for xs :: "int list"
  proof (induction xs)
    case (Cons x xs)
    have "sorted_wrt (\<le>) ys \<Longrightarrow> sorted_wrt (\<le>) (insert_by (\<lambda>a b. a < b) x ys)" for ys :: "int list"
      by (induction ys) auto
    with Cons show ?case by (simp add: sort_by_def)
  qed (simp add: sort_by_def)
  have "sorted_wrt (\<le>) (ms # rest)" using sorted v by metis
  then have "ms \<in> set ?valid" "\<forall>m \<in> set ?valid. ms \<le> m" unfolding v by auto
  moreover have "resolve_naive wall naive = (ms, False)" by (simp add: resolve_naive_def Let_def v)
  ultimately show ?thesis unfolding set by auto
qed

lemma resolve_gap:
  assumes "\<forall>ms \<in> (\<lambda>offset. naive - offset) ` set (resolve_offsets wall naive). reading wall ms \<noteq> naive"
  shows "resolve_naive wall naive = (bisect wall naive (Min ((\<lambda>offset. naive - offset) ` set (resolve_offsets wall naive)))
    (Max ((\<lambda>offset. naive - offset) ` set (resolve_offsets wall naive))), True)"
proof -
  have "filter (\<lambda>ms. naive_of (wall ms) = naive) (map (\<lambda>offset. naive - offset) (resolve_offsets wall naive)) = []"
    using assms by (auto simp: filter_empty_conv reading_def)
  then show ?thesis unfolding resolve_naive_def Let_def by simp
qed

text \<open>So a local time is the first instant whose reading is not before it.\<close>

lemma resolve_first_instant:
  assumes zone: "jumps_once wall jump before later" and naive: "whole_seconds naive"
    and since: "modern (naive - ms_per_day)" and r: "resolve_naive wall naive = (ms, gap)"
  shows "modern ms" "naive \<le> reading wall ms" and "\<And>t. modern t \<Longrightarrow> t < ms \<Longrightarrow> reading wall t < naive"
    and "gap \<longleftrightarrow> (\<forall>t. modern t \<longrightarrow> reading wall t \<noteq> naive)"
proof -
  have near: "modern t" if "naive - ms_per_day \<le> t" for t using since that by (rule modern_le)
  have off: "offset_at wall t = (if t < jump then before else later)" if "naive - ms_per_day \<le> t" for t
    using jumps_once_offset [OF zone near [OF that]] .
  have read: "reading wall t = t div 1000 * 1000 + (if t < jump then before else later)" if "modern t" for t
    using zone that by (simp add: jumps_once_def)
  have small: "\<bar>before\<bar> < ms_per_day" "\<bar>later\<bar> < ms_per_day" using zone by (simp_all add: jumps_once_def)
  have round: "t div 1000 * 1000 \<le> t" for t :: int by simp
  have early: "reading wall t < jump + before" if "modern t" "t < jump" for t
    using that round [of t] by (simp add: read)
  have late: "jump + later \<le> reading wall t" if "modern t" "jump \<le> t" for t
  proof -
    have "jump div 1000 * 1000 = jump" using zone by (auto simp: jumps_once_def whole_seconds_def)
    moreover have "jump div 1000 \<le> t div 1000" using that(2) by (simp add: zdiv_mono1)
    ultimately show ?thesis using that by (simp add: read)
  qed
  have exact: "(naive - offset) div 1000 * 1000 = naive - offset" if "offset \<in> {before, later}" for offset
    using that naive zone by (auto simp: jumps_once_def whole_seconds_def)
  let ?offsets = "set (resolve_offsets wall naive)"
  have offsets: "?offsets \<subseteq> {before, later}" by (auto simp: resolve_offsets_set off ms_per_day_def)
  have candidate: "modern (naive - offset)" if "offset \<in> ?offsets" for offset
    using that offsets small by (intro near) (auto simp: abs_less_iff)
  have before: "before \<in> ?offsets" if "naive < jump + ms_per_day" using that by (auto simp: resolve_offsets_set off ms_per_day_def)
  have later: "later \<in> ?offsets" if "jump - ms_per_day \<le> naive" using that by (auto simp: resolve_offsets_set off ms_per_day_def)
  have "modern ms \<and> naive \<le> reading wall ms \<and> (\<forall>t < ms. modern t \<longrightarrow> reading wall t < naive) \<and> (gap \<longleftrightarrow> (\<forall>t. modern t \<longrightarrow> reading wall t \<noteq> naive))"
  proof (cases "jump + before \<le> naive \<and> naive < jump + later")
    case True
    then have none: "reading wall t \<noteq> naive" if "modern t" for t using early [OF that] late [OF that] by (cases "t < jump") auto
    have both: "?offsets = {before, later}" using True small before later offsets by (auto simp: abs_less_iff)
    have "bisect wall naive (naive - later) (naive - before) = jump"
    proof (rule bisect_jump)
      fix t assume "naive - later \<le> t"
      then have "modern t" using small by (intro near) (auto simp: abs_less_iff)
      then show "naive < naive_of (wall t) \<longleftrightarrow> jump \<le> t"
        using True early [of t] late [of t] by (cases "t < jump") (auto simp: reading_def)
    qed (use True naive zone in \<open>auto simp: jumps_once_def whole_seconds_def\<close>)
    moreover have "Min ((\<lambda>offset. naive - offset) ` ?offsets) = naive - later" "Max ((\<lambda>offset. naive - offset) ` ?offsets) = naive - before"
      using True unfolding both by (auto simp: min_def max_def)
    ultimately have "ms = jump" "gap" using resolve_gap [of naive wall] none candidate r by auto
    moreover have "modern jump" using True small by (intro near) (auto simp: abs_less_iff)
    ultimately show ?thesis using none True late [of jump] early by force
  next
    case False
    define first where "first = (if naive < jump + before then naive - before else naive - later)"
    have at: "\<exists>offset \<in> ?offsets. first = naive - offset"
      using False small before later by (auto simp: first_def abs_less_iff)
    then have "modern first" using candidate by blast
    with at have first: "reading wall first = naive" "\<exists>offset \<in> ?offsets. first = naive - offset"
      using False small exact [of before] exact [of later] by (auto simp: first_def read abs_less_iff)
    have least: "reading wall t < naive" if "modern t" "t < first" for t
      using False that round [of t] early [of t] by (auto simp: first_def read split: if_splits)
    have "\<exists>ms \<in> (\<lambda>offset. naive - offset) ` ?offsets. reading wall ms = naive" using first by blast
    from resolve_valid [OF this] r candidate have "\<not> gap" "reading wall ms = naive" "ms \<le> first" "modern ms" using first by auto
    moreover from this have "ms = first" using least [of ms] by force
    ultimately show ?thesis using least by auto
  qed
  then show "modern ms" "naive \<le> reading wall ms" "\<And>t. modern t \<Longrightarrow> t < ms \<Longrightarrow> reading wall t < naive"
    "gap \<longleftrightarrow> (\<forall>t. modern t \<longrightarrow> reading wall t \<noteq> naive)" by blast+
qed

section \<open>A checked schedule\<close>

lemma checked_parts:
  assumes "check_schedule zones input = Inr sd"
  shows "\<exists>t z. sd_time sd = t \<and> is_time_text t \<and> sd_timezone sd = z \<and> is_timeZone zones (JStr z)
    \<and> (case sd_cadence sd of Daily \<Rightarrow> sd_weekday sd = None | Weekly \<Rightarrow> \<exists>n. sd_weekday sd = Some n \<and> 0 \<le> n \<and> n \<le> 6)"
proof -
  from assms obtain fs where "input = JObj fs" by (auto simp: check_schedule_def split: jval.splits)
  moreover have zone: "\<exists>z. v = JStr z" if "is_timeZone zones v" for v using that by (auto simp: is_timeZone_def split: jval.splits)
  moreover have weekday: "(c = Daily \<and> w = None) \<or> (c = Weekly \<and> (\<exists>n. w = Some n \<and> 0 \<le> n \<and> n \<le> 6))" if "weekday_field c v = Inr w" for c v w
    using that by (auto simp: weekday_field_def split: cadence.splits jval.splits if_splits)
  ultimately show ?thesis
    using assms by (fastforce simp: check_schedule_def Let_def read_text_def split: list.splits if_splits sum.splits jval.splits)
qed

section \<open>Any zone\<close>

text \<open>
  What every zone does: its clock shows hours, minutes and seconds, its offset is at most a day, and within a week it moves by
  at most a day, as when a place changes its side of the date line.
\<close>

definition zone_ok :: "zone \<Rightarrow> bool" where
  "zone_ok wall \<longleftrightarrow> (\<forall>t. modern t \<longrightarrow> 0 \<le> wc_hour (wall t) \<and> wc_hour (wall t) < 24 \<and> 0 \<le> wc_minute (wall t) \<and> wc_minute (wall t) < 60
       \<and> 0 \<le> wc_second (wall t) \<and> wc_second (wall t) < 60)
     \<and> (\<forall>t. modern t \<longrightarrow> \<bar>offset_at wall t\<bar> \<le> ms_per_day)
     \<and> (\<forall>t u. modern t \<longrightarrow> modern u \<longrightarrow> \<bar>t - u\<bar> \<le> 7 * ms_per_day \<longrightarrow> \<bar>offset_at wall t - offset_at wall u\<bar> \<le> ms_per_day)"

lemma bisect_bounds: "low \<le> high \<Longrightarrow> low \<le> bisect wall naive low high \<and> bisect wall naive low high \<le> high"
proof (induction wall naive low high rule: bisect.induct)
  case (1 wall naive low high)
  show ?case using 1 by (subst (1 2) bisect.simps) (auto simp: Let_def)
qed

lemma resolve_between:
  assumes "resolve_naive wall naive = (ms, gap)"
  obtains u v where "\<bar>u - naive\<bar> \<le> ms_per_day" "\<bar>v - naive\<bar> \<le> ms_per_day" "naive - offset_at wall u \<le> ms" "ms \<le> naive - offset_at wall v"
proof -
  let ?candidates = "(\<lambda>offset. naive - offset) ` set (resolve_offsets wall naive)"
  have some: "finite ?candidates" "?candidates \<noteq> {}" by (auto simp: resolve_offsets_set)
  have at: "\<exists>u. \<bar>u - naive\<bar> \<le> ms_per_day \<and> c = naive - offset_at wall u" if "c \<in> ?candidates" for c
    using that by (force simp: resolve_offsets_set ms_per_day_def)
  have "Min ?candidates \<le> ms \<and> ms \<le> Max ?candidates"
  proof (cases "\<exists>ms \<in> ?candidates. reading wall ms = naive")
    case True
    from resolve_valid [OF this] assms have "ms \<in> ?candidates" by auto
    then show ?thesis using some by simp
  next
    case False
    then have "ms = bisect wall naive (Min ?candidates) (Max ?candidates)" using resolve_gap [of naive wall] assms by auto
    moreover have "Min ?candidates \<le> Max ?candidates" using some by (meson Max_in Min_le)
    ultimately show ?thesis using bisect_bounds by simp
  qed
  moreover obtain u v where "\<bar>u - naive\<bar> \<le> ms_per_day" "Min ?candidates = naive - offset_at wall u"
    "\<bar>v - naive\<bar> \<le> ms_per_day" "Max ?candidates = naive - offset_at wall v"
    using at [OF Min_in [OF some]] at [OF Max_in [OF some]] by blast
  ultimately show thesis using that by simp
qed

definition instant_of :: "zone \<Rightarrow> int \<Rightarrow> int" where
  "instant_of wall naive = fst (resolve_naive wall naive)"

lemma zone_near:
  assumes "zone_ok wall" "modern t" "modern u" "\<bar>t - u\<bar> \<le> 7 * ms_per_day"
  shows "\<bar>offset_at wall t - offset_at wall u\<bar> \<le> ms_per_day"
  using assms by (simp add: zone_ok_def)

text \<open>A later day's slot is not earlier.\<close>

lemma instant_next_day:
  assumes "zone_ok wall" "modern (naive - ms_per_day)"
  shows "instant_of wall naive \<le> instant_of wall (naive + ms_per_day)"
proof -
  obtain ms gap ms' gap' where r: "resolve_naive wall naive = (ms, gap)" "resolve_naive wall (naive + ms_per_day) = (ms', gap')"
    by (metis surj_pair)
  from resolve_between [OF r(1)] obtain v where v: "\<bar>v - naive\<bar> \<le> ms_per_day" "ms \<le> naive - offset_at wall v" by blast
  from resolve_between [OF r(2)] obtain u where u: "\<bar>u - (naive + ms_per_day)\<bar> \<le> ms_per_day"
    "naive + ms_per_day - offset_at wall u \<le> ms'" by blast
  have "\<bar>offset_at wall u - offset_at wall v\<bar> \<le> ms_per_day"
    by (rule zone_near [OF assms(1)]) (use u(1) v(1) assms(2) in \<open>simp_all add: modern_def ms_per_day_def abs_le_iff\<close>)
  with u(2) v(2) show ?thesis by (simp add: instant_of_def r)
qed

lemma instant_later_day: "zone_ok wall \<Longrightarrow> modern (naive - ms_per_day) \<Longrightarrow> instant_of wall naive \<le> instant_of wall (naive + int k * ms_per_day)"
proof (induction k)
  case (Suc k)
  have "modern (naive + int k * ms_per_day - ms_per_day)" using Suc.prems(2) by (rule modern_le) (simp add: ms_per_day_def)
  with Suc instant_next_day [of wall "naive + int k * ms_per_day"] show ?case by (simp add: algebra_simps)
qed simp

section \<open>Slots of a schedule\<close>

text \<open>A day of the calendar, as its first instant were it UTC; the days before 1970 but the last five are left out.\<close>

definition civil :: "int \<Rightarrow> bool" where
  "civil date \<longleftrightarrow> date mod ms_per_day = 0 \<and> - (5 * ms_per_day) \<le> date"

definition time_of :: "schedule \<Rightarrow> int" where
  "time_of sd = (let (h, m) = time_parts (sd_time sd) in make_time h m 0 0)"

lemma civil_year:
  assumes "civil date"
  shows "99 < utc_full_year date"
proof (rule ccontr)
  assume "\<not> 99 < utc_full_year date"
  then have "day_from_year (utc_full_year date + 1) \<le> day_from_year 1969" by (intro day_from_year_mono) simp
  moreover have "utc_day date < day_from_year (utc_full_year date + 1)"
    using year_from_day_bounds [of "utc_day date"] by (simp add: utc_full_year_def)
  moreover have "day_from_year 1969 = - 365" by (simp add: day_from_year_def)
  moreover have "- 5 \<le> utc_day date" using assms zdiv_mono1 [of "- (5 * ms_per_day)" date ms_per_day]
    by (simp add: civil_def utc_day_def ms_per_day_def)
  ultimately show False by simp
qed

lemma date_utc_parts:
  assumes "civil date"
  shows "date_utc (utc_full_year date) (utc_month date) (utc_date date) time = date + time"
proof -
  have "make_time (utc_hours date) (utc_minutes date) (utc_seconds date) (utc_milliseconds date) = 0"
    using assms by (simp add: time_of_day civil_def)
  then show ?thesis using instant_of_parts [of date] civil_year [OF assms] by (simp add: date_utc_def)
qed

lemma slot_on_Some:
  assumes "civil date" "slot_on wall sd date = Some s"
  shows "sl_ms s = instant_of wall (date + time_of sd)" "sl_at s = to_iso (sl_ms s)"
  using assms by (auto simp: slot_on_def resolve_local_def instant_of_def time_of_def date_utc_parts Let_def split: prod.splits if_splits)

definition in_order :: "slot list \<Rightarrow> bool" where
  "in_order slots \<longleftrightarrow> sorted_wrt (\<lambda>s t. sl_ms s < sl_ms t) slots"

lemma push_slot_in_order:
  assumes "in_order out" "\<forall>s \<in> set out. sl_ms s \<le> sl_ms new"
  shows "in_order (push_slot out new)" "sl_ms ` set (push_slot out new) = insert (sl_ms new) (sl_ms ` set out)"
    "set (push_slot out new) \<subseteq> insert new (set out)" "length out \<le> length (push_slot out new)"
    "length (push_slot out new) \<le> Suc (length out)"
proof -
  have "in_order (push_slot out new) \<and> sl_ms ` set (push_slot out new) = insert (sl_ms new) (sl_ms ` set out)
    \<and> set (push_slot out new) \<subseteq> insert new (set out) \<and> length out \<le> length (push_slot out new)
    \<and> length (push_slot out new) \<le> Suc (length out)"
  proof (cases out rule: rev_cases)
    case (snoc before last)
    have "sl_ms s < sl_ms new" if "s \<in> set before" for s
      using assms that unfolding snoc in_order_def by (fastforce simp: sorted_wrt_append)
    then show ?thesis using assms unfolding snoc in_order_def
      by (auto simp: push_slot_def sorted_wrt_append le_less)
  qed (simp add: push_slot_def in_order_def)
  then show "in_order (push_slot out new)" "sl_ms ` set (push_slot out new) = insert (sl_ms new) (sl_ms ` set out)"
    "set (push_slot out new) \<subseteq> insert new (set out)" "length out \<le> length (push_slot out new)"
    "length (push_slot out new) \<le> Suc (length out)" by blast+
qed

lemma push_within_ok:
  assumes "civil date" "in_order out" "\<forall>s \<in> set out. sl_ms s \<le> instant_of wall (date + time_of sd)"
    and out': "out' = push_within wall sd wanted date out"
  shows "in_order out'" "\<forall>s \<in> set out'. sl_ms s \<le> instant_of wall (date + time_of sd)"
    "\<forall>s \<in> set out'. s \<in> set out \<or> wanted (sl_ms s) \<and> slot_on wall sd date = Some s"
    "sl_ms ` set out \<subseteq> sl_ms ` set out'" "length out' \<le> Suc (length out)"
    "\<forall>s. slot_on wall sd date = Some s \<and> wanted (sl_ms s) \<longrightarrow> sl_ms s \<in> sl_ms ` set out'"
proof -
  have "in_order out' \<and> (\<forall>s \<in> set out'. sl_ms s \<le> instant_of wall (date + time_of sd))
    \<and> (\<forall>s \<in> set out'. s \<in> set out \<or> wanted (sl_ms s) \<and> slot_on wall sd date = Some s)
    \<and> sl_ms ` set out \<subseteq> sl_ms ` set out' \<and> length out' \<le> Suc (length out)
    \<and> (\<forall>s. slot_on wall sd date = Some s \<and> wanted (sl_ms s) \<longrightarrow> sl_ms s \<in> sl_ms ` set out')"
  proof (cases "\<exists>s. slot_on wall sd date = Some s \<and> wanted (sl_ms s)")
    case True
    then obtain s where s: "slot_on wall sd date = Some s" "wanted (sl_ms s)" by blast
    have o: "out' = push_slot out s" by (simp add: out' push_within_def s)
    have "\<forall>r \<in> set out. sl_ms r \<le> sl_ms s" using assms(3) slot_on_Some(1) [OF assms(1) s(1)] by simp
    from push_slot_in_order [OF assms(2) this] s show ?thesis
      using assms(3) slot_on_Some(1) [OF assms(1) s(1)] unfolding o by auto
  next
    case False
    then have "out' = out" unfolding out' push_within_def by (auto split: option.split)
    with False assms show ?thesis by auto
  qed
  then show "in_order out'" "\<forall>s \<in> set out'. sl_ms s \<le> instant_of wall (date + time_of sd)"
    "\<forall>s \<in> set out'. s \<in> set out \<or> wanted (sl_ms s) \<and> slot_on wall sd date = Some s"
    "sl_ms ` set out \<subseteq> sl_ms ` set out'" "length out' \<le> Suc (length out)"
    "\<forall>s. slot_on wall sd date = Some s \<and> wanted (sl_ms s) \<longrightarrow> sl_ms s \<in> sl_ms ` set out'" by blast+
qed

lemma civil_next: "civil date \<Longrightarrow> civil (date + int k * ms_per_day)"
  by (auto simp: civil_def ms_per_day_def)

lemma civil_modern: "civil date \<Longrightarrow> 0 \<le> tod \<Longrightarrow> modern (date + tod - ms_per_day)"
  by (simp add: civil_def modern_def ms_per_day_def)

definition slot_days :: "zone \<Rightarrow> schedule \<Rightarrow> int \<Rightarrow> int \<Rightarrow> slot \<Rightarrow> bool" where
  "slot_days wall sd first final s \<longleftrightarrow> (\<exists>k. first + int k * ms_per_day \<le> final \<and> slot_on wall sd (first + int k * ms_per_day) = Some s)"

lemma slot_days_step:
  "slot_days wall sd date final s \<longleftrightarrow> date \<le> final \<and> (slot_on wall sd date = Some s \<or> slot_days wall sd (date + ms_per_day) final s)"
proof
  assume "slot_days wall sd date final s"
  then obtain k where k: "date + int k * ms_per_day \<le> final" "slot_on wall sd (date + int k * ms_per_day) = Some s"
    by (auto simp: slot_days_def)
  then have "date \<le> final" by (simp add: ms_per_day_def)
  with k show "date \<le> final \<and> (slot_on wall sd date = Some s \<or> slot_days wall sd (date + ms_per_day) final s)"
    by (cases k) (auto simp: slot_days_def algebra_simps)
next
  assume "date \<le> final \<and> (slot_on wall sd date = Some s \<or> slot_days wall sd (date + ms_per_day) final s)"
  then show "slot_days wall sd date final s"
  proof (elim conjE disjE)
    assume "slot_on wall sd date = Some s" "date \<le> final"
    then show ?thesis unfolding slot_days_def by (intro exI [of _ 0]) simp
  next
    assume "slot_days wall sd (date + ms_per_day) final s"
    then obtain k where "date + ms_per_day + int k * ms_per_day \<le> final" "slot_on wall sd (date + ms_per_day + int k * ms_per_day) = Some s"
      by (auto simp: slot_days_def)
    then show ?thesis unfolding slot_days_def by (intro exI [of _ "Suc k"]) (simp add: algebra_simps)
  qed
qed

lemma days_left: "date \<le> final \<Longrightarrow> nat ((final - date) div ms_per_day + 1) = Suc (nat ((final - (date + ms_per_day)) div ms_per_day + 1))"
proof -
  assume "date \<le> final"
  then have "0 \<le> (final - date) div ms_per_day" by (simp add: ms_per_day_def pos_imp_zdiv_nonneg_iff)
  moreover have "(final - (date + ms_per_day)) div ms_per_day = (final - date) div ms_per_day - 1"
    using div_add_self2 [of ms_per_day "final - (date + ms_per_day)"] by (simp add: ms_per_day_def)
  ultimately show ?thesis by simp
qed

lemma slots_loop_ok:
  assumes zone: "zone_ok wall" and "civil date" "in_order out" "\<forall>s \<in> set out. sl_ms s \<le> instant_of wall (date + time_of sd)"
    and "0 \<le> time_of sd"
  shows "in_order (slots_loop wall sd wanted limit final date out)
    \<and> (\<forall>s \<in> set (slots_loop wall sd wanted limit final date out). s \<in> set out \<or> wanted (sl_ms s) \<and> slot_days wall sd date final s)
    \<and> length (slots_loop wall sd wanted limit final date out) \<le> length out + nat ((final - date) div ms_per_day + 1)
    \<and> (length (slots_loop wall sd wanted limit final date out) < limit
        \<longrightarrow> sl_ms ` set out \<subseteq> sl_ms ` set (slots_loop wall sd wanted limit final date out)
          \<and> (\<forall>s. wanted (sl_ms s) \<and> slot_days wall sd date final s
               \<longrightarrow> sl_ms s \<in> sl_ms ` set (slots_loop wall sd wanted limit final date out)))"
  using assms
proof (induction wall sd wanted limit final date out rule: slots_loop.induct)
  case (1 wall sd wanted limit final date out)
  let ?out = "push_within wall sd wanted date out" and ?next = "date + ms_per_day"
  show ?case
  proof (cases "final < date")
    case True
    then show ?thesis using "1.prems" by (subst (1 2 3 4 5 6) slots_loop.simps) (auto simp: slot_days_step [of _ _ date])
  next
    case run: False
    note pushed = push_within_ok [OF "1.prems"(2-4) refl, of wanted]
    have "instant_of wall (date + time_of sd) \<le> instant_of wall (?next + time_of sd)"
      using instant_next_day [OF "1.prems"(1) civil_modern [OF "1.prems"(2,5)]] by (simp add: algebra_simps)
    then have later: "\<forall>s \<in> set ?out. sl_ms s \<le> instant_of wall (?next + time_of sd)"
      using pushed(2) by force
    show ?thesis
    proof (cases "limit \<le> length ?out")
      case True
      then have "slots_loop wall sd wanted limit final date out = ?out" using run by (subst slots_loop.simps) (simp add: Let_def)
      then show ?thesis using pushed True run by (auto simp: slot_days_step [of _ _ date] days_left)
    next
      case False
      have r: "slots_loop wall sd wanted limit final date out = slots_loop wall sd wanted limit final ?next ?out"
        using run False by (subst slots_loop.simps) (simp add: Let_def)
      have "civil ?next" using civil_next [OF "1.prems"(2), of 1] by simp
      note IH = "1.IH" [OF run refl False "1.prems"(1) this pushed(1) later "1.prems"(5)]
      let ?r = "slots_loop wall sd wanted limit final ?next ?out"
      have members: "s \<in> set out \<or> wanted (sl_ms s) \<and> slot_days wall sd date final s" if "s \<in> set ?r" for s
      proof -
        from IH that have "s \<in> set ?out \<or> wanted (sl_ms s) \<and> slot_days wall sd ?next final s" by blast
        moreover have "date \<le> final" using run by simp
        ultimately show ?thesis using pushed(3) unfolding slot_days_step [of wall sd date] by blast
      qed
      have few: "length ?r \<le> length out + nat ((final - date) div ms_per_day + 1)"
        using IH pushed(5) run by (simp add: days_left)
      have all: "length ?r < limit \<longrightarrow> sl_ms ` set out \<subseteq> sl_ms ` set ?r
          \<and> (\<forall>s. wanted (sl_ms s) \<and> slot_days wall sd date final s \<longrightarrow> sl_ms s \<in> sl_ms ` set ?r)"
      proof
        assume "length ?r < limit"
        with IH have all: "sl_ms ` set ?out \<subseteq> sl_ms ` set ?r"
          "\<forall>s. wanted (sl_ms s) \<and> slot_days wall sd ?next final s \<longrightarrow> sl_ms s \<in> sl_ms ` set ?r" by blast+
        from all(1) pushed(6) have "\<forall>s. slot_on wall sd date = Some s \<and> wanted (sl_ms s) \<longrightarrow> sl_ms s \<in> sl_ms ` set ?r" by blast
        with all(2) have "\<forall>s. wanted (sl_ms s) \<and> slot_days wall sd date final s \<longrightarrow> sl_ms s \<in> sl_ms ` set ?r"
          unfolding slot_days_step [of wall sd date] by metis
        with subset_trans [OF pushed(4) all(1)] show "sl_ms ` set out \<subseteq> sl_ms ` set ?r
          \<and> (\<forall>s. wanted (sl_ms s) \<and> slot_days wall sd date final s \<longrightarrow> sl_ms s \<in> sl_ms ` set ?r)" by (rule conjI)
      qed
      from IH have "in_order ?r" by (rule conjunct1)
      then show ?thesis unfolding r by (intro conjI ballI members few all)
    qed
  qed
qed

section \<open>Which days can have a slot\<close>

lemma reading_of_day:
  assumes "zone_ok wall" "modern t"
  shows "local_date wall t \<le> naive_of (wall t)" "naive_of (wall t) + 1000 \<le> local_date wall t + ms_per_day"
proof -
  have "0 \<le> wc_hour (wall t)" "wc_hour (wall t) < 24" "0 \<le> wc_minute (wall t)" "wc_minute (wall t) < 60"
    "0 \<le> wc_second (wall t)" "wc_second (wall t) < 60" using assms by (simp_all add: zone_ok_def)
  then show "local_date wall t \<le> naive_of (wall t)" "naive_of (wall t) + 1000 \<le> local_date wall t + ms_per_day"
    by (simp_all add: local_date_def naive_of_def date_utc_def make_time_def ms_per_day_def)
qed

lemma instant_bounds:
  assumes "zone_ok wall" and "\<bar>naive - t\<bar> \<le> 6 * ms_per_day" and "modern t" "modern (naive - ms_per_day)"
  shows "naive - offset_at wall t - ms_per_day \<le> instant_of wall naive" "instant_of wall naive \<le> naive - offset_at wall t + ms_per_day"
proof -
  obtain ms gap where r: "resolve_naive wall naive = (ms, gap)" by fastforce
  obtain u v where uv: "\<bar>u - naive\<bar> \<le> ms_per_day" "\<bar>v - naive\<bar> \<le> ms_per_day" "naive - offset_at wall u \<le> ms" "ms \<le> naive - offset_at wall v"
    using resolve_between [OF r] by blast
  have "\<bar>offset_at wall w - offset_at wall t\<bar> \<le> ms_per_day" if "\<bar>w - naive\<bar> \<le> ms_per_day" for w
    by (rule zone_near [OF assms(1)]) (use that assms(2-4) in \<open>simp_all add: modern_def ms_per_day_def abs_le_iff\<close>)
  from this [OF uv(1)] this [OF uv(2)]
  uv(3,4) show "naive - offset_at wall t - ms_per_day \<le> instant_of wall naive" "instant_of wall naive \<le> naive - offset_at wall t + ms_per_day"
    by (simp_all add: instant_of_def r)
qed

lemma near_local_date:
  assumes "zone_ok wall" "modern t"
  shows "local_date wall t \<le> t + ms_per_day" "t < local_date wall t + 2 * ms_per_day"
    "local_date wall t - offset_at wall t \<le> t" "t < local_date wall t - offset_at wall t + ms_per_day"
proof -
  have "t div 1000 * 1000 \<le> t" "t < t div 1000 * 1000 + 1000" by simp_all
  moreover have "\<bar>offset_at wall t\<bar> \<le> ms_per_day" using assms unfolding zone_ok_def by blast
  ultimately show "local_date wall t \<le> t + ms_per_day" "t < local_date wall t + 2 * ms_per_day"
    "local_date wall t - offset_at wall t \<le> t" "t < local_date wall t - offset_at wall t + ms_per_day"
    using reading_of_day [OF assms] reading_offset [of wall t] by linarith+
qed

lemma earlier_days:
  assumes zone: "zone_ok wall" and tod: "0 \<le> tod" "tod < ms_per_day" and t: "0 \<le> t" and civil: "civil date"
    and days: "date + int k * ms_per_day = local_date wall t - 2 * ms_per_day"
  shows "instant_of wall (date + tod) \<le> t"
proof -
  let ?d = "local_date wall t - 2 * ms_per_day"
  have modern: "modern t" using t by (simp add: modern_def ms_per_day_def)
  note near = near_local_date [OF zone modern]
  have "instant_of wall (date + tod) \<le> instant_of wall (date + tod + int k * ms_per_day)"
    by (rule instant_later_day [OF zone civil_modern [OF civil tod(1)]])
  also have "date + tod + int k * ms_per_day = ?d + tod" using days by simp
  also have "instant_of wall (?d + tod) \<le> ?d + tod - offset_at wall t + ms_per_day"
    by (rule instant_bounds(2) [OF zone _ modern]) (use near(1,2) t tod in \<open>simp_all add: modern_def ms_per_day_def abs_le_iff\<close>)
  also have "\<dots> \<le> t" using near(3) tod(2) by linarith
  finally show ?thesis .
qed

lemma later_days:
  assumes zone: "zone_ok wall" and tod: "0 \<le> tod" "tod < ms_per_day" and t: "0 \<le> t"
    and days: "date = local_date wall t + 2 * ms_per_day + int k * ms_per_day"
  shows "t < instant_of wall (date + tod)"
proof -
  let ?d = "local_date wall t + 2 * ms_per_day"
  have modern: "modern t" using t by (simp add: modern_def ms_per_day_def)
  note near = near_local_date [OF zone modern]
  have since: "modern (?d + tod - ms_per_day)" using near(2) t tod by (simp add: modern_def ms_per_day_def)
  have "t < local_date wall t - offset_at wall t + ms_per_day" by (rule near(4))
  also have "\<dots> \<le> ?d + tod - offset_at wall t - ms_per_day" using tod(1) by simp
  also have "\<dots> \<le> instant_of wall (?d + tod)"
    by (rule instant_bounds(1) [OF zone _ modern since]) (use near(1,2) tod in \<open>simp add: ms_per_day_def abs_le_iff\<close>)
  also have "\<dots> \<le> instant_of wall (?d + tod + int k * ms_per_day)" by (rule instant_later_day [OF zone since])
  finally show ?thesis by (simp add: days algebra_simps)
qed

lemma local_date_day: "local_date wall t mod ms_per_day = 0"
  by (simp add: local_date_def date_utc_def)

text \<open>Every slot of the calendar within the bounds falls on a day the loop looks at.\<close>

lemma civil_slot_days:
  assumes zone: "zone_ok wall" and tod: "0 \<le> time_of sd" "time_of sd < ms_per_day"
    and s: "civil date" "slot_on wall sd date = Some s" and within: "after < sl_ms s" "sl_ms s \<le> until" "0 \<le> after"
  shows "slot_days wall sd (local_date wall after - ms_per_day) (local_date wall until + ms_per_day) s"
proof -
  have days: "\<exists>a. d = a * ms_per_day" if "d mod ms_per_day = 0" for d using that by (metis add_0_right div_mult_mod_eq)
  from s(1) have "date mod ms_per_day = 0" by (simp add: civil_def)
  then obtain a first final where d: "date = a * ms_per_day" "local_date wall after = first * ms_per_day"
    "local_date wall until = final * ms_per_day" using days local_date_day by metis
  note ms = slot_on_Some(1) [OF s]
  have early: "\<not> a \<le> first - 2"
  proof
    assume "a \<le> first - 2"
    then have "date + int (nat (first - 2 - a)) * ms_per_day = local_date wall after - 2 * ms_per_day"
      by (simp add: d left_diff_distrib)
    from earlier_days [OF zone tod within(3) s(1) this] ms within(1) show False by simp
  qed
  have "\<not> final + 2 \<le> a"
  proof
    assume "final + 2 \<le> a"
    then have "date = local_date wall until + 2 * ms_per_day + int (nat (a - final - 2)) * ms_per_day"
      by (simp add: d left_diff_distrib)
    from later_days [OF zone tod _ this] ms within show False by simp
  qed
  with early have k: "local_date wall after - ms_per_day + int (nat (a - (first - 1))) * ms_per_day = date" "a \<le> final + 1"
    by (simp_all add: d left_diff_distrib)
  have "date \<le> local_date wall until + ms_per_day" using k(2) by (simp add: d ms_per_day_def)
  with k(1) s(2) show ?thesis unfolding slot_days_def by (intro exI [of _ "nat (a - (first - 1))"]) simp
qed

section \<open>Slots between two instants\<close>

lemma slots_in_ok:
  assumes zone: "zone_ok wall" and tod: "0 \<le> time_of sd" "time_of sd < ms_per_day" and after: "0 \<le> after"
    and slots: "slots = slots_in wall sd after until limit"
  shows "in_order slots"
    and "\<forall>s \<in> set slots. after < sl_ms s \<and> sl_ms s \<le> until \<and> (\<exists>date. civil date \<and> slot_on wall sd date = Some s)"
    and "int (length slots) \<le> max 0 ((local_date wall until - local_date wall after) div ms_per_day + 3)"
    and "length slots < limit \<Longrightarrow> civil date \<Longrightarrow> slot_on wall sd date = Some s \<Longrightarrow> after < sl_ms s \<Longrightarrow> sl_ms s \<le> until
      \<Longrightarrow> \<exists>s' \<in> set slots. sl_ms s' = sl_ms s"
proof -
  let ?first = "local_date wall after - ms_per_day" and ?final = "local_date wall until + ms_per_day"
  have since: "modern after" using after by (simp add: modern_def ms_per_day_def)
  have "- (2 * ms_per_day) < local_date wall after" using near_local_date(2) [OF zone since] after by linarith
  moreover have "?first mod ms_per_day = 0" using local_date_day [of wall after] by (metis mod_diff_right_eq mod_self diff_0_right mod_diff_eq)
  ultimately have first: "civil ?first" by (simp add: civil_def ms_per_day_def)
  have "in_order []" by (simp add: in_order_def)
  note loop = slots_loop_ok [OF zone first this _ tod(1), of "\<lambda>ms. after < ms \<and> ms \<le> until" limit ?final, folded slots_in_def, folded slots]
  show "in_order slots" using loop by simp
  have "\<exists>date. civil date \<and> slot_on wall sd date = Some s" if "slot_days wall sd ?first ?final s" for s
    using that civil_next [OF first] by (auto simp: slot_days_def)
  then show "\<forall>s \<in> set slots. after < sl_ms s \<and> sl_ms s \<le> until \<and> (\<exists>date. civil date \<and> slot_on wall sd date = Some s)"
    using loop by fastforce
  have "(?final - ?first) div ms_per_day + 1 = (local_date wall until - local_date wall after) div ms_per_day + 3"
    by (simp add: ms_per_day_def)
  moreover have "length slots \<le> nat ((?final - ?first) div ms_per_day + 1)" using loop by simp
  ultimately show "int (length slots) \<le> max 0 ((local_date wall until - local_date wall after) div ms_per_day + 3)"
    by linarith
  assume "length slots < limit" "civil date" "slot_on wall sd date = Some s" "after < sl_ms s" "sl_ms s \<le> until"
  with loop after civil_slot_days [OF zone tod, of date s after until] have "sl_ms s \<in> sl_ms ` set slots" by simp
  then show "\<exists>s' \<in> set slots. sl_ms s' = sl_ms s" by force
qed

lemma backlog_days:
  assumes zone: "zone_ok wall" and "until - max_backlog_ms \<le> after" and since: "0 \<le> after" "0 \<le> until"
  shows "(local_date wall until - local_date wall after) div ms_per_day + 3 \<le> 406"
proof -
  have "local_date wall until - local_date wall after < 403 * ms_per_day"
    using near_local_date(1) [OF zone, of until] near_local_date(2) [OF zone, of after] assms(2-4)
    by (simp add: modern_def max_backlog_ms_def ms_per_day_def)
  then have "(local_date wall until - local_date wall after) div ms_per_day \<le> (403 * ms_per_day - 1) div ms_per_day"
    by (intro zdiv_mono1) (simp_all add: ms_per_day_def)
  then show ?thesis by (simp add: ms_per_day_def)
qed

lemma time_of_bounds:
  assumes "is_time_text (sd_time sd)"
  shows "0 \<le> time_of sd" "time_of sd < ms_per_day"
proof -
  from assms obtain a b d e where t: "sd_time sd = [a, b, CHR '':'', d, e]" and d: "d \<in> set ''012345''" "is_digit e"
    and ab: "(a = CHR ''0'' \<or> a = CHR ''1'') \<and> is_digit b \<or> a = CHR ''2'' \<and> b \<in> set ''0123''"
    by (auto simp: is_time_text_def split: list.splits)
  have digits: "is_digit a" "is_digit b" "is_digit d" using ab d by (auto simp: is_digit_def)
  have parts: "time_parts (sd_time sd) = (read_nat [a, b], read_nat [d, e])"
    using digits d(2) by (auto simp: t time_parts_def is_digit_def)
  have "0 \<le> read_nat [a, b] \<and> read_nat [a, b] < 24" using ab digits(2) [unfolded is_digit_def] by (auto simp: read_nat_def)
  moreover have "0 \<le> read_nat [d, e] \<and> read_nat [d, e] < 60" using d(1) d(2) [unfolded is_digit_def] by (auto simp: read_nat_def)
  ultimately show "0 \<le> time_of sd" "time_of sd < ms_per_day"
    by (simp_all add: time_of_def parts make_time_def ms_per_day_def)
qed

section \<open>A pass\<close>

lemma pass_slots:
  assumes slots: "slots_between zones sd after now 1000 = Inr slots" and wall: "zone_of zones (sd_timezone sd) = Some wall"
    and zone: "zone_ok wall" and time: "is_time_text (sd_time sd)" and since: "0 \<le> after"
  shows "in_order slots" and "\<forall>s \<in> set slots. after < sl_ms s \<and> sl_ms s \<le> now"
    and "now - max_backlog_ms \<le> after \<Longrightarrow> civil date \<Longrightarrow> slot_on wall sd date = Some s \<Longrightarrow> after < sl_ms s \<Longrightarrow> sl_ms s \<le> now
      \<Longrightarrow> \<exists>s' \<in> set slots. sl_ms s' = sl_ms s \<and> sl_at s' = sl_at s"
proof -
  have *: "in_order slots \<and> (\<forall>s \<in> set slots. after < sl_ms s \<and> sl_ms s \<le> now)
    \<and> (now - max_backlog_ms \<le> after \<longrightarrow> civil date \<longrightarrow> slot_on wall sd date = Some s \<longrightarrow> after < sl_ms s \<longrightarrow> sl_ms s \<le> now
      \<longrightarrow> (\<exists>s' \<in> set slots. sl_ms s' = sl_ms s \<and> sl_at s' = sl_at s))"
  proof (cases "now \<le> after")
    case True
    then show ?thesis using slots by (auto simp: slots_between_def in_order_def)
  next
    case False
    then have eq: "slots = slots_in wall sd after now 1000" using slots wall by (simp add: slots_between_def)
    note ok = slots_in_ok [OF zone time_of_bounds [OF time] since eq]
    have at: "sl_at s = to_iso (sl_ms s)" if "slot_on wall sd date = Some s" for date s
      using that by (auto simp: slot_on_def Let_def split: if_splits prod.splits)
    have "\<exists>s' \<in> set slots. sl_ms s' = sl_ms s \<and> sl_at s' = sl_at s"
      if "now - max_backlog_ms \<le> after" "civil date" "slot_on wall sd date = Some s" "after < sl_ms s" "sl_ms s \<le> now"
    proof -
      have "length slots < 1000" using ok(3) backlog_days [OF zone that(1) since] False since by linarith
      from ok(4) [OF this that(2-5)] obtain s' where s': "s' \<in> set slots" "sl_ms s' = sl_ms s" by blast
      with ok(2) obtain date' where "slot_on wall sd date' = Some s'" by blast
      then have "sl_at s' = sl_at s" using at that(3) s'(2) by simp
      with s' show ?thesis by blast
    qed
    with ok(1,2) show ?thesis by blast
  qed
  from * show "in_order slots" "\<forall>s \<in> set slots. after < sl_ms s \<and> sl_ms s \<le> now" by blast+
  from * show "\<exists>s' \<in> set slots. sl_ms s' = sl_ms s \<and> sl_at s' = sl_at s"
    if "now - max_backlog_ms \<le> after" "civil date" "slot_on wall sd date = Some s" "after < sl_ms s" "sl_ms s \<le> now" using that by blast
qed

lemma plan_open_cases:
  obtains (nothing) "plan_open opened now catchUp = \<lparr>dp_due = None, dp_late = False, dp_missed = opened\<rparr>"
      "opened = [] \<or> on_time_ms < now - sl_ms (last opened) \<and> catchUp * 60000 < now - sl_ms (last opened)"
  | (runs) before s where "opened = before @ [s]"
      "plan_open opened now catchUp = \<lparr>dp_due = Some s, dp_late = (on_time_ms < now - sl_ms s), dp_missed = before\<rparr>"
      "now - sl_ms s \<le> on_time_ms \<or> now - sl_ms s \<le> catchUp * 60000"
proof (cases opened rule: rev_cases)
  case Nil
  show thesis by (rule nothing) (simp_all add: Nil plan_open_def)
next
  case (snoc before s)
  show thesis
  proof (cases "now - sl_ms s \<le> on_time_ms \<or> now - sl_ms s \<le> catchUp * 60000")
    case True
    show thesis by (rule runs [OF snoc]) (use True snoc in \<open>simp_all add: plan_open_def Let_def\<close>)
  next
    case False
    show thesis by (rule nothing) (use False snoc in \<open>simp_all add: plan_open_def Let_def\<close>)
  qed
qed

lemma plan_open_all: "set (dp_missed (plan_open opened now catchUp)) \<union> set_option (dp_due (plan_open opened now catchUp)) = set opened"
  by (cases rule: plan_open_cases [of opened now catchUp]) auto

lemma plan_open_Nil [simp]: "plan_open [] now catchUp = \<lparr>dp_due = None, dp_late = False, dp_missed = []\<rparr>"
  by (simp add: plan_open_def)

lemma slots_between_at:
  assumes "slots_between zones sd after until limit = Inr slots" "s \<in> set slots" "zone_of zones (sd_timezone sd) = Some wall"
  shows "until > after" "slots = slots_in wall sd after until limit"
  using assms by (auto simp: slots_between_def split: if_splits)

end
