(* ===== verification/Schedule_Properties.thy ===== *)
theory Schedule_Properties
  imports Schedule_Guarantees
begin

text \<open>The properties of automation schedules, tried on a zone whose clocks go forward once, as New York's did in March 2026.\<close>

section \<open>A zone\<close>

definition clock_at :: "int \<Rightarrow> wall_clock" where
  "clock_at t = \<lparr>wc_year = utc_full_year t, wc_month = utc_month t + 1, wc_day = utc_date t, wc_hour = utc_hours t,
     wc_minute = utc_minutes t, wc_second = utc_seconds t\<rparr>"

text \<open>2026-03-08T07:00:00Z.\<close>

definition spring :: int where "spring = 1772953200000"

definition new_york :: zone where
  "new_york t = clock_at (t div 1000 * 1000 + (if t < spring then - 18000000 else - 14400000))"

definition sample_zones :: "string \<Rightarrow> zone option" where
  "sample_zones name = (if name = ''America/New_York'' then Some new_york else None)"

definition sample_schedule :: schedule where
  "sample_schedule = \<lparr>sd_cadence = Daily, sd_weekday = None, sd_time = ''02:30'', sd_timezone = ''America/New_York''\<rparr>"

lemma clock_at_reads:
  assumes "- (25570 * ms_per_day) \<le> t" "whole_seconds t"
  shows "naive_of (clock_at t) = t"
proof -
  have "99 < utc_full_year t"
  proof (rule ccontr)
    assume "\<not> 99 < utc_full_year t"
    then have "day_from_year (utc_full_year t + 1) \<le> day_from_year 1800" by (intro day_from_year_mono) simp
    moreover have "utc_day t < day_from_year (utc_full_year t + 1)"
      using year_from_day_bounds [of "utc_day t"] by (simp add: utc_full_year_def)
    moreover have "day_from_year 1800 = - 62091" by (simp add: day_from_year_def)
    moreover have "- 25570 \<le> utc_day t" using assms(1) zdiv_mono1 [of "- (25570 * ms_per_day)" t ms_per_day]
      by (simp add: utc_day_def ms_per_day_def)
    ultimately show False by simp
  qed
  moreover have "utc_milliseconds t = 0" using assms(2) by (simp add: utc_milliseconds_def whole_seconds_def)
  ultimately show ?thesis using instant_of_parts [of t] by (simp add: naive_of_def clock_at_def date_utc_def)
qed

lemma new_york_reads: "modern t \<Longrightarrow> naive_of (new_york t) = t div 1000 * 1000 + (if t < spring then - 18000000 else - 14400000)"
proof -
  assume "modern t"
  moreover have "t < t div 1000 * 1000 + 1000" by simp
  ultimately have "- (25570 * ms_per_day) \<le> t div 1000 * 1000 + (if t < spring then - 18000000 else - 14400000)"
    by (simp add: modern_def ms_per_day_def)
  moreover have "(t div 1000 * 1000 + o') mod 1000 = 0" if "o' mod 1000 = 0" for o' :: int
    using that by (simp add: mod_add_eq)
  ultimately show ?thesis unfolding new_york_def by (intro clock_at_reads) (simp_all add: whole_seconds_def)
qed

lemma new_york_zone: "jumps_once new_york spring (- 18000000) (- 14400000)" "zone_ok new_york"
proof -
  show "jumps_once new_york spring (- 18000000) (- 14400000)"
    using new_york_reads by (simp add: jumps_once_def reading_def whole_seconds_def spring_def ms_per_day_def)
  have "offset_at new_york t = (if t < spring then - 18000000 else - 14400000)" if "modern t" for t
    using new_york_reads [OF that] by (simp add: offset_at_def)
  moreover have "0 \<le> utc_hours x \<and> utc_hours x < 24 \<and> 0 \<le> utc_minutes x \<and> utc_minutes x < 60 \<and> 0 \<le> utc_seconds x \<and> utc_seconds x < 60" for x
    by (simp add: utc_hours_def utc_minutes_def utc_seconds_def)
  ultimately show "zone_ok new_york" by (simp add: zone_ok_def new_york_def clock_at_def ms_per_day_def)
qed

lemma sample_time [simp]: "is_time_text (sd_time sample_schedule)" "zone_of sample_zones (sd_timezone sample_schedule) = Some new_york"
  by code_simp (simp add: sample_schedule_def zone_of_def sample_zones_def is_zone_name_def is_zone_char_def is_letter_def is_upper_def is_lower_def)

text \<open>Half past two of 2026-03-08, which the clocks skip.\<close>

lemma spring_asked: "1772937000000 = date_utc 2026 (3 - 1) 8 (make_time 2 30 0 0)" "modern (1772937000000 - ms_per_day)"
  by code_simp (simp add: modern_def ms_per_day_def)

lemma spring_first:
  assumes "modern ms \<and> 1772937000000 \<le> naive_of (new_york ms) \<and> (\<forall>t < ms. modern t \<longrightarrow> naive_of (new_york t) < 1772937000000)
    \<and> (gap \<longleftrightarrow> (\<forall>t. modern t \<longrightarrow> naive_of (new_york t) \<noteq> 1772937000000))"
  shows "ms = spring \<and> gap"
proof -
  have early: "naive_of (new_york t) < 1772937000000" if "modern t" "t < spring" for t
    using that zdiv_mono1 [of t spring 1000] by (simp add: new_york_reads spring_def)
  have late: "1772937000000 < naive_of (new_york t)" if "modern t" "spring \<le> t" for t
    using that zdiv_mono1 [of spring t 1000] by (simp add: new_york_reads spring_def)
  have jump: "modern spring" by (simp add: modern_def spring_def ms_per_day_def)
  have "\<not> ms < spring" using assms early [of ms] by (meson not_le)
  moreover have "\<not> spring < ms" using assms late [OF jump] jump by (meson less_asym order_refl)
  moreover have "naive_of (new_york t) \<noteq> 1772937000000" if "modern t" for t
    using early [OF that] late [OF that] by (cases "t < spring") auto
  then have gap using assms by blast
  ultimately show ?thesis by simp
qed

lemma spring_gap: "resolve_local new_york 2026 3 8 2 30 = (spring, True)"
proof -
  obtain ms gap where r: "resolve_local new_york 2026 3 8 2 30 = (ms, gap)" by force
  then have run: "resolve_naive new_york 1772937000000 = (ms, gap)" by (simp only: resolve_local_def spring_asked(1))
  have "whole_seconds 1772937000000" by (simp add: whole_seconds_def)
  note first = resolve_first_instant [OF new_york_zone(1) this spring_asked(2) run, unfolded reading_def]
  have "ms = spring \<and> gap" by (rule spring_first) (intro conjI allI impI first; assumption)
  with r show ?thesis by simp
qed

section \<open>Properties\<close>

text \<open>A schedule as the JSON value that a form sends.\<close>

definition schedule_value :: "schedule \<Rightarrow> jval" where
  "schedule_value sd = JObj
     [(''cadence'', JStr (case sd_cadence sd of Daily \<Rightarrow> ''daily'' | Weekly \<Rightarrow> ''weekly'')),
      (''weekday'', case sd_weekday sd of None \<Rightarrow> JNull | Some n \<Rightarrow> JInt n),
      (''time'', JStr (sd_time sd)), (''timezone'', JStr (sd_timezone sd))]"

text \<open>C36. A schedule that passes the check is well formed: a day of the week exactly when it is weekly, a time of the day, a known
  zone. So its slots and its passes never throw, and checking it again returns it.\<close>

theorem checked_schedule_is_well_formed:
  assumes "check_schedule zones input = Inr sd"
  shows "(case sd_cadence sd of Daily \<Rightarrow> sd_weekday sd = None | Weekly \<Rightarrow> \<exists>n. sd_weekday sd = Some n \<and> 0 \<le> n \<and> n \<le> 6)
    \<and> is_time_text (sd_time sd) \<and> zone_of zones (sd_timezone sd) \<noteq> None
    \<and> (\<exists>slots. slots_between zones sd after until limit = Inr slots) \<and> (\<exists>slots. next_slots zones sd after count = Inr slots)
    \<and> (\<exists>plan. plan_due zones sd after now covered catchUp = Inr plan)
    \<and> check_schedule zones (schedule_value sd) = Inr sd"
proof -
  obtain t z w where sd: "sd_time sd = t" "is_time_text t" "sd_timezone sd = z" "is_timeZone zones (JStr z)"
      "case sd_cadence sd of Daily \<Rightarrow> sd_weekday sd = None | Weekly \<Rightarrow> \<exists>n. sd_weekday sd = Some n \<and> 0 \<le> n \<and> n \<le> 6"
    using checked_parts [OF assms] by blast
  obtain wall where wall: "zone_of zones z = Some wall" using sd(4) by (auto simp: is_timeZone_def)
  then have throws: "\<exists>slots. slots_between zones sd after until limit = Inr slots" for after until limit
    by (simp add: slots_between_def sd(3))
  moreover have "\<exists>plan. plan_due zones sd after now covered catchUp = Inr plan"
    using throws [of "max after (now - max_backlog_ms)" now 1000] by (auto simp: plan_due_def)
  moreover have "\<exists>slots. next_slots zones sd after count = Inr slots" using wall by (simp add: next_slots_def sd(3))
  moreover have "check_schedule zones (schedule_value sd) = Inr sd"
    using sd by (cases "sd_cadence sd")
      (auto simp: check_schedule_def schedule_value_def weekday_field_def is_nullish_def read_text_def)
  ultimately show ?thesis using sd wall by auto
qed

lemma checked_schedule_is_well_formed_example:
  "check_schedule sample_zones (schedule_value sample_schedule) = Inr sample_schedule
    \<and> (\<exists>slots. slots_between sample_zones sample_schedule 0 spring 5 = Inr slots)"
proof -
  have "check_schedule sample_zones (schedule_value sample_schedule) = Inr sample_schedule"
    using sample_time by (simp add: check_schedule_def schedule_value_def weekday_field_def is_nullish_def read_text_def
      sample_schedule_def is_timeZone_def utf16_units_def)
  with checked_schedule_is_well_formed [OF this, of 0 spring 5] show ?thesis by blast
qed

text \<open>C37. Around a change of the clocks a local date and time is the first instant at which the clock shows it or a later time: a
  repeated time is its first occurrence, and a time that does not exist is the instant the clocks jump, marked as a gap.\<close>

theorem local_time_is_first_instant:
  assumes zone: "jumps_once wall jump before later" and r: "resolve_local wall year month day hour minute = (ms, gap)"
    and asked: "asked = date_utc year (month - 1) day (make_time hour minute 0 0)" "modern (asked - ms_per_day)"
  shows "modern ms \<and> asked \<le> naive_of (wall ms) \<and> (\<forall>t < ms. modern t \<longrightarrow> naive_of (wall t) < asked)
    \<and> (gap \<longleftrightarrow> (\<forall>t. modern t \<longrightarrow> naive_of (wall t) \<noteq> asked))"
proof -
  have "\<exists>n. asked = n * 1000"
    unfolding asked(1) date_utc_def make_time_def ms_per_day_def
    by (rule exI [of _ "make_day (if 0 \<le> year \<and> year \<le> 99 then 1900 + year else year) (month - 1) day * 86400 + hour * 3600 + minute * 60"]) simp
  then have whole: "whole_seconds asked" by (auto simp: whole_seconds_def)
  have run: "resolve_naive wall asked = (ms, gap)" using r by (simp add: resolve_local_def asked(1))
  note first = resolve_first_instant [OF zone whole asked(2) run, unfolded reading_def]
  show ?thesis by (intro conjI allI impI first) assumption+
qed

lemma local_time_is_first_instant_example:
  "resolve_local new_york 2026 3 8 2 30 = (spring, True)"
proof -
  obtain ms gap where r: "resolve_local new_york 2026 3 8 2 30 = (ms, gap)" by force
  show ?thesis using spring_first [OF local_time_is_first_instant [OF new_york_zone(1) r spring_asked]] r by simp
qed

text \<open>C38. The slots between two instants are in order, one per instant, each within them, and no slot of a day of the calendar is
  lost, whatever the zone does: unless the list was cut at its limit, every one of them is there.\<close>

theorem slots_in_order_and_complete:
  assumes "slots_between zones sd after until limit = Inr slots" and "zone_of zones (sd_timezone sd) = Some wall"
    and "zone_ok wall" and "is_time_text (sd_time sd)" and "0 \<le> after"
  shows "sorted_wrt (\<lambda>s t. sl_ms s < sl_ms t) slots
    \<and> (\<forall>s \<in> set slots. after < sl_ms s \<and> sl_ms s \<le> until \<and> (\<exists>date. slot_on wall sd date = Some s))
    \<and> (length slots < limit \<longrightarrow> (\<forall>date s. civil date \<and> slot_on wall sd date = Some s \<and> after < sl_ms s \<and> sl_ms s \<le> until
         \<longrightarrow> (\<exists>s' \<in> set slots. sl_ms s' = sl_ms s)))"
proof (cases "until \<le> after")
  case True
  then show ?thesis using assms(1) by (auto simp: slots_between_def)
next
  case False
  then have slots: "slots = slots_in wall sd after until limit" using assms(1,2) by (simp add: slots_between_def)
  from slots_in_ok [OF assms(3) time_of_bounds [OF assms(4)] assms(5) slots] show ?thesis unfolding in_order_def by blast
qed

text \<open>2026-03-08 as a day of the calendar, and the schedule's slot there.\<close>

definition spring_day :: int where "spring_day = 1772928000000"

lemma spring_slot: "\<exists>s. slot_on new_york sample_schedule spring_day = Some s \<and> sl_ms s = spring \<and> sl_gap s"
proof -
  have "time_parts ''02:30'' = (2, 30)" by code_simp
  moreover have "utc_full_year spring_day = 2026" "utc_month spring_day = 2" "utc_date spring_day = 8" by code_simp+
  moreover have "resolve_local new_york 2026 3 8 2 30 = (spring, True)"
    using spring_gap by simp
  ultimately show ?thesis by (simp add: slot_on_def sample_schedule_def)
qed

lemma slots_in_order_and_complete_example:
  "\<exists>slots. slots_between sample_zones sample_schedule 1772863200000 1773036000000 9 = Inr slots \<and> slots \<noteq> []
    \<and> sorted_wrt (\<lambda>s t. sl_ms s < sl_ms t) slots"
proof -
  have slots: "slots_between sample_zones sample_schedule 1772863200000 1773036000000 9
      = Inr (slots_in new_york sample_schedule 1772863200000 1773036000000 9)"
    by (simp add: slots_between_def)
  note order = slots_in_order_and_complete [OF slots sample_time(2) new_york_zone(2) sample_time(1)]
  obtain s where s: "slot_on new_york sample_schedule spring_day = Some s" "sl_ms s = spring" using spring_slot by blast
  have day: "civil spring_day" by (simp add: civil_def spring_day_def ms_per_day_def)
  have "slots_in new_york sample_schedule 1772863200000 1773036000000 9 \<noteq> []"
  proof
    assume "slots_in new_york sample_schedule 1772863200000 1773036000000 9 = []"
    moreover have "1772863200000 < sl_ms s \<and> sl_ms s \<le> 1773036000000" using s(2) by (simp add: spring_def)
    ultimately show False
      using order [THEN conjunct2, THEN conjunct2, THEN mp, THEN spec, of spring_day, THEN spec, of s] s(1) day by simp
  qed
  with slots order show ?thesis by simp
qed

text \<open>C39. A pass admits at most one slot, the latest that nothing covers and that is on time or within the catch-up window; every
  other slot of the backlog that nothing covers is recorded as missed and is earlier than it, none of a day of the calendar is lost,
  and a second pass over what the first recorded does nothing.\<close>

theorem pass_runs_at_most_the_latest_slot:
  assumes run: "plan_due zones sd after now covered catchUp = Inr plan" and wall: "zone_of zones (sd_timezone sd) = Some wall"
    and zone: "zone_ok wall" and time: "is_time_text (sd_time sd)" and after: "0 \<le> after"
    and seen: "seen = set (dp_missed plan) \<union> set_option (dp_due plan)"
  shows "(\<forall>s. dp_due plan = Some s \<longrightarrow> (now - sl_ms s \<le> on_time_ms \<or> now - sl_ms s \<le> catchUp * 60000)
      \<and> dp_late plan = (on_time_ms < now - sl_ms s) \<and> (\<forall>m \<in> set (dp_missed plan). sl_ms m < sl_ms s))
    \<and> (\<forall>s \<in> seen. sl_at s \<notin> covered \<and> after < sl_ms s \<and> sl_ms s \<le> now)
    \<and> (\<forall>date s. civil date \<and> slot_on wall sd date = Some s \<and> max after (now - max_backlog_ms) < sl_ms s \<and> sl_ms s \<le> now
        \<and> sl_at s \<notin> covered \<longrightarrow> (\<exists>s' \<in> seen. sl_ms s' = sl_ms s))
    \<and> plan_due zones sd after now (covered \<union> sl_at ` seen) catchUp = Inr \<lparr>dp_due = None, dp_late = False, dp_missed = []\<rparr>"
proof -
  define start where "start = max after (now - max_backlog_ms)"
  obtain slots where slots: "slots_between zones sd start now 1000 = Inr slots"
    and plan: "plan = plan_open (filter (\<lambda>s. sl_at s \<notin> covered) slots) now catchUp"
    using run by (auto simp: plan_due_def start_def split: sum.splits)
  have "0 \<le> start" using after by (simp add: start_def)
  note pass = pass_slots [OF slots wall zone time this]
  have backlog: "now - max_backlog_ms \<le> start" by (simp add: start_def)
  have all: "seen = {s \<in> set slots. sl_at s \<notin> covered}" unfolding seen plan plan_open_all by auto
  have "\<forall>s. dp_due plan = Some s \<longrightarrow> (now - sl_ms s \<le> on_time_ms \<or> now - sl_ms s \<le> catchUp * 60000)
      \<and> dp_late plan = (on_time_ms < now - sl_ms s) \<and> (\<forall>m \<in> set (dp_missed plan). sl_ms m < sl_ms s)"
  proof (cases rule: plan_open_cases [of "filter (\<lambda>s. sl_at s \<notin> covered) slots" now catchUp])
    case nothing
    then show ?thesis by (simp add: plan)
  next
    case (runs before s)
    have "sorted_wrt (\<lambda>s t. sl_ms s < sl_ms t) (before @ [s])"
      using pass(1) unfolding runs(1) [symmetric] in_order_def by (rule sorted_wrt_filter)
    then show ?thesis using runs(2,3) by (simp add: plan sorted_wrt_append)
  qed
  moreover have "\<forall>s \<in> seen. sl_at s \<notin> covered \<and> after < sl_ms s \<and> sl_ms s \<le> now"
    using pass(2) unfolding all by (auto simp: start_def)
  moreover have "\<exists>s' \<in> seen. sl_ms s' = sl_ms s"
    if "civil date" "slot_on wall sd date = Some s" "max after (now - max_backlog_ms) < sl_ms s" "sl_ms s \<le> now" "sl_at s \<notin> covered" for date s
    using pass(3) [OF backlog that(1,2) _ that(4)] that(3,5) unfolding all start_def by auto
  moreover have "plan_due zones sd after now (covered \<union> sl_at ` seen) catchUp = Inr \<lparr>dp_due = None, dp_late = False, dp_missed = []\<rparr>"
  proof -
    have "filter (\<lambda>s. sl_at s \<notin> covered \<union> sl_at ` seen) slots = []" by (auto simp: all filter_empty_conv)
    then show ?thesis using slots by (simp add: plan_due_def start_def)
  qed
  ultimately show ?thesis by blast
qed

lemma pass_runs_at_most_the_latest_slot_example:
  "\<exists>plan. plan_due sample_zones sample_schedule 1772863200000 1772953300000 {} 0 = Inr plan
    \<and> (\<exists>s \<in> set (dp_missed plan) \<union> set_option (dp_due plan). sl_ms s = spring)"
proof -
  define plan where "plan = plan_open (filter (\<lambda>s. sl_at s \<notin> {})
    (slots_in new_york sample_schedule (max 1772863200000 (1772953300000 - max_backlog_ms)) 1772953300000 1000)) 1772953300000 0"
  have run: "plan_due sample_zones sample_schedule 1772863200000 1772953300000 {} 0 = Inr plan"
    by (simp add: plan_due_def slots_between_def plan_def max_backlog_ms_def)
  note pass = pass_runs_at_most_the_latest_slot [OF run sample_time(2) new_york_zone(2) sample_time(1) _ refl]
  obtain s where s: "slot_on new_york sample_schedule spring_day = Some s" "sl_ms s = spring" using spring_slot by blast
  have "civil spring_day" by (simp add: civil_def spring_day_def ms_per_day_def)
  moreover have "max 1772863200000 (1772953300000 - max_backlog_ms) < sl_ms s" "sl_ms s \<le> 1772953300000"
    by (simp_all add: s(2) spring_def max_backlog_ms_def)
  ultimately have "\<exists>s' \<in> set (dp_missed plan) \<union> set_option (dp_due plan). sl_ms s' = sl_ms s" using pass s(1) by simp
  with run s(2) show ?thesis by auto
qed

end
