(* ===== verification/Approval_Patterns.thy ===== *)
theory Approval_Patterns
  imports Js_Value
begin

text \<open>
  What a remembered approval may cover, \<open>shared/remembered-approvals.ts\<close> and \<open>exact-review.ts\<close>: the words that always ask, the
  reading of a step's destinations, and the pattern an approval is remembered as. Letters are the ASCII ones, as in the code's
  regular expressions; a text is its UTF-8 bytes.
\<close>

section \<open>Patterns\<close>

datatype destination_kind = LocalPlace | ExternalPlace
datatype step_effect = PureEffect | ReadEffect | Idempotent | NonIdempotent
datatype step_kind = ModelStep | ToolStep | TransformStep | ApprovalStep | WaitStep

record step_intent =
  si_kind :: step_kind
  si_effect :: step_effect
  si_name :: "string option"
  si_input :: jval
  si_permission :: "string option"
  si_destination :: destination_kind

datatype pattern_kind = HarnessStep | CodexProposal

record pattern_action =
  pa_kind :: step_kind
  pa_permission :: string
  pa_effect :: step_effect

record pattern_destination =
  pd_kind :: destination_kind
  pd_targets :: "string list"

record pattern_connection =
  pc_engine :: string
  pc_accountRoute :: "string option"

record approval_pattern =
  ap_kind :: pattern_kind
  ap_projectId :: string
  ap_procedure :: string
  ap_tool :: string
  ap_action :: pattern_action
  ap_destination :: pattern_destination
  ap_connection :: pattern_connection

datatype remember_route = ApproveAndRemember | LearnedOffer

definition remember_offer_threshold :: int where
  "remember_offer_threshold = 3"

section \<open>Words that always ask\<close>

datatype always_ask = MovesMoney | DestroysData | ChangesAccess | Unrecognised

definition agent_name :: string where
  "agent_name = ''Nectovia''"

fun always_ask_reason :: "always_ask \<Rightarrow> string" where
  "always_ask_reason MovesMoney = ''Payments and moving money always ask.''"
| "always_ask_reason DestroysData = ''Deleting or destroying data always asks.''"
| "always_ask_reason ChangesAccess = ''Changing credentials, members or permissions always asks.''"
| "always_ask_reason Unrecognised = agent_name @ '' cannot tell this action is safe to remember, so it always asks.''"

datatype classification = Rememberable | AlwaysAsks always_ask string

definition always :: "always_ask \<Rightarrow> classification" where
  "always category = AlwaysAsks category (always_ask_reason category)"

definition money_words :: "string list" where
  "money_words = [
    ''pay'', ''payment'', ''payments'', ''payout'', ''payouts'', ''charge'', ''charges'', ''refund'', ''refunds'',
    ''transfer'', ''transfers'', ''wire'', ''purchase'', ''purchases'', ''buy'', ''checkout'', ''billing'', ''bill'',
    ''bills'', ''invoice'', ''invoices'', ''money'', ''funds'', ''spend'', ''spending'', ''order'', ''orders'',
    ''subscribe'', ''subscription'', ''price'', ''pricing'', ''card'', ''bank'', ''withdraw'', ''deposit'', ''paid'',
    ''pays'', ''paying'', ''charged'', ''charging'', ''billed'', ''invoiced'', ''purchased'', ''bought'', ''ordered'',
    ''spent'', ''donate'', ''donation'', ''donations'']"

definition destroy_words :: "string list" where
  "destroy_words = [
    ''delete'', ''deletes'', ''deleting'', ''remove'', ''removes'', ''destroy'', ''erase'', ''purge'', ''drop'',
    ''truncate'', ''wipe'', ''trash'', ''unlink'', ''rm'', ''rmdir'', ''reset'', ''overwrite'', ''shred'', ''clear'',
    ''revoke'', ''cancel'', ''uninstall'', ''wiped'', ''wipes'', ''dropped'', ''drops'', ''cleared'', ''clears'',
    ''clearing'', ''resets'', ''kill'']"

definition access_words :: "string list" where
  "access_words = [
    ''credential'', ''credentials'', ''secret'', ''secrets'', ''token'', ''tokens'', ''password'', ''passwords'',
    ''key'', ''keys'', ''apikey'', ''member'', ''members'', ''membership'', ''invite'', ''invites'', ''role'',
    ''roles'', ''permission'', ''permissions'', ''grant'', ''grants'', ''access'', ''auth'', ''oauth'', ''login'',
    ''signin'', ''share'', ''sharing'', ''admin'', ''owner'', ''owners'', ''user'', ''users'', ''account'',
    ''accounts'', ''seat'', ''seats'', ''policy'', ''policies'', ''passwd'', ''pwd'', ''ssh'', ''gpg'', ''pgp'',
    ''mfa'', ''otp'', ''totp'', ''2fa'', ''sso'', ''saml'', ''iam'', ''acl'', ''acls'', ''sudo'', ''chmod'',
    ''chown'', ''cert'', ''certs'']"

text \<open>Matched anywhere inside a word and inside the name run together.\<close>

definition money_stems :: "string list" where
  "money_stems = [
    ''payment'', ''payout'', ''payroll'', ''refund'', ''invoice'', ''billing'', ''purchas'', ''checkout'',
    ''withdraw'', ''deposit'', ''transfer'', ''salary'', ''salaries'', ''reimburs'', ''remittanc'']"

definition destroy_stems :: "string list" where
  "destroy_stems = [
    ''delet'', ''remov'', ''destroy'', ''destruct'', ''erase'', ''erasing'', ''erasure'', ''purg'', ''truncat'',
    ''wipe'', ''wiping'', ''trash'', ''unlink'', ''overwrit'', ''shred'', ''revok'', ''cancel'', ''uninstal'',
    ''prune'', ''pruning'', ''discard'', ''obliterat'']"

definition access_stems :: "string list" where
  "access_stems = [
    ''credential'', ''password'', ''passwd'', ''passphrase'', ''passcode'', ''secret'', ''token'', ''apikey'',
    ''privatekey'', ''sshkey'', ''gpgkey'', ''oauth'', ''permission'', ''privilege'', ''membership'', ''invit'',
    ''login'', ''logon'', ''signin'', ''signon'', ''magiclink'', ''authoriz'', ''authenticat'', ''impersonat'',
    ''certificat'', ''keychain'']"

definition file_access_words :: "string list" where
  "file_access_words = [
    ''credential'', ''credentials'', ''secret'', ''secrets'', ''password'', ''passwords'', ''passwd'', ''htpasswd'',
    ''shadow'', ''sudoers'', ''token'', ''tokens'', ''key'', ''keys'', ''apikey'', ''member'', ''members'',
    ''membership'', ''permission'', ''permissions'', ''roles'', ''users'', ''acl'', ''acls'']"

section \<open>Names\<close>

definition is_lower_alnum :: "char \<Rightarrow> bool" where
  "is_lower_alnum c \<longleftrightarrow> is_lower c \<or> is_digit c"

text \<open>A space where a capital follows a small letter or a digit: \<open>replace(/([a-z0-9])([A-Z])/g, '$1 $2')\<close>.\<close>

fun split_camel :: "string \<Rightarrow> string" where
  "split_camel (c # d # t) =
     (if is_lower_alnum c \<and> is_upper d then c # CHR '' '' # split_camel (d # t) else c # split_camel (d # t))"
| "split_camel t = t"

text \<open>The longest runs of characters that satisfy a test: \<open>split\<close> at the others, without the empty parts.\<close>

fun runs :: "(char \<Rightarrow> bool) \<Rightarrow> string \<Rightarrow> string list" where
  "runs P [] = []"
| "runs P (c # t) =
     (if \<not> P c then runs P t
      else case t of [] \<Rightarrow> [c] # []
        | d # _ \<Rightarrow> (if P d then (case runs P t of [] \<Rightarrow> [c] # [] | w # ws \<Rightarrow> (c # w) # ws) else [c] # runs P t))"

text \<open>
  \<open>toLowerCase\<close> as it bears on letters a to z: beside the ASCII capitals, the Kelvin sign (U+212A) becomes a k, and the dotted
  capital I (U+0130) an i and a combining dot. No other letter outside ASCII becomes one inside it.
\<close>

definition kelvin_sign :: string where
  "kelvin_sign = [CHR 0xE2, CHR 0x84, CHR 0xAA]"

definition dotted_i :: string where
  "dotted_i = [CHR 0xC4, CHR 0xB0]"

definition small_letter :: "char \<Rightarrow> char" where
  "small_letter c = (if is_upper c then char_of ((of_char c :: nat) + 32) else c)"

fun lower_name :: "string \<Rightarrow> string" where
  "lower_name (a # b # c # t) =
     (if a = CHR 0xE2 \<and> [a, b, c] = kelvin_sign then CHR ''k'' # lower_name t
      else if a = CHR 0xC4 \<and> [a, b] = dotted_i then CHR ''i'' # CHR 0xCC # CHR 0x87 # lower_name (c # t)
      else small_letter a # lower_name (b # c # t))"
| "lower_name [a, b] = (if [a, b] = dotted_i then [CHR ''i'', CHR 0xCC, CHR 0x87] else [small_letter a, small_letter b])"
| "lower_name [a] = [small_letter a]"
| "lower_name [] = []"

definition name_words :: "string \<Rightarrow> string list" where
  "name_words t = runs is_lower_alnum (lower_name (split_camel t))"

definition joined_name :: "string \<Rightarrow> string" where
  "joined_name t = concat (name_words t)"

definition text_of :: "string option \<Rightarrow> string" where
  "text_of v = (case v of None \<Rightarrow> [] | Some t \<Rightarrow> t)"

fun starts_with :: "string \<Rightarrow> string \<Rightarrow> bool" where
  "starts_with [] t \<longleftrightarrow> True"
| "starts_with (c # s) [] \<longleftrightarrow> False"
| "starts_with (c # s) (d # t) \<longleftrightarrow> c = d \<and> starts_with s t"

definition ends_with :: "string \<Rightarrow> string \<Rightarrow> bool" where
  "ends_with s t \<longleftrightarrow> starts_with (rev s) (rev t)"

fun contains :: "string \<Rightarrow> string \<Rightarrow> bool" where
  "contains s [] \<longleftrightarrow> s = []"
| "contains s (c # t) \<longleftrightarrow> starts_with s (c # t) \<or> contains s t"

section \<open>Files that are access\<close>

text \<open>Whole names of a path's parts, compared without case, and any \<open>.env.\<close> file: \<open>SENSITIVE_SEGMENT\<close>.\<close>

definition sensitive_names :: "string list" where
  "sensitive_names = [''.env'', ''.ssh'', ''.git'', ''.aws'', ''.azure'', ''.gnupg'', ''.kube'', ''.docker'', ''.npmrc'', ''.yarnrc'',
    ''.yarnrc.yml'', ''.netrc'', ''.pypirc'', ''.pgpass'', ''id_rsa'', ''id_dsa'', ''id_ecdsa'', ''id_ed25519'', ''id_rsa.pub'',
    ''id_dsa.pub'', ''id_ecdsa.pub'', ''id_ed25519.pub'', ''authorized_keys'', ''known_hosts'']"

definition breaks_line :: "char \<Rightarrow> bool" where
  "breaks_line c \<longleftrightarrow> (of_char c :: nat) \<in> {10, 13}"

definition sensitive_segment :: "string \<Rightarrow> bool" where
  "sensitive_segment t \<longleftrightarrow> (let s = to_lower t in
     s \<in> set sensitive_names \<or> starts_with ''.env.'' s \<and> \<not> list_ex breaks_line s)"

definition sensitive_extensions :: "string list" where
  "sensitive_extensions = [''.pem'', ''.key'', ''.p12'', ''.pfx'', ''.jks'', ''.keystore'', ''.kdbx'', ''.ppk'', ''.crt'', ''.cer'',
    ''.der'', ''.asc'', ''.gpg'']"

definition is_slash :: "char \<Rightarrow> bool" where
  "is_slash c \<longleftrightarrow> c = CHR ''/'' \<or> (of_char c :: nat) = 92"

definition file_touches_access :: "string \<Rightarrow> bool" where
  "file_touches_access target \<longleftrightarrow> starts_with ''file:'' target \<and>
     (let file = drop 5 target; named = name_words file in
      list_ex sensitive_segment (runs (\<lambda>c. \<not> is_slash c) file)
      \<or> list_ex (\<lambda>e. ends_with e (to_lower file)) sensitive_extensions
      \<or> list_ex (\<lambda>w. w \<in> set file_access_words) named
      \<or> list_ex (\<lambda>stem. list_ex (contains stem) named \<or> contains stem (concat named)) access_stems)"

section \<open>The classifier\<close>

text \<open>The permissions an action may be remembered under, with their destination and effects.\<close>

definition rememberable_under :: "string \<Rightarrow> (destination_kind \<times> step_effect list) option" where
  "rememberable_under permission = map_of
     [(''write-project-file'', (LocalPlace, [Idempotent])),
      (''send-email'', (ExternalPlace, [Idempotent, NonIdempotent])),
      (''send-message'', (ExternalPlace, [Idempotent, NonIdempotent])),
      (''send-report'', (ExternalPlace, [Idempotent, NonIdempotent])),
      (''deliver-report'', (ExternalPlace, [Idempotent, NonIdempotent]))] permission"

definition names_any :: "string list \<Rightarrow> string list \<Rightarrow> string list \<Rightarrow> bool" where
  "names_any names words stems \<longleftrightarrow>
     list_ex (\<lambda>w. w \<in> set words \<or> list_ex (\<lambda>stem. contains stem w) stems) (concat (map name_words names))
     \<or> list_ex (\<lambda>name. list_ex (\<lambda>stem. contains stem name) stems) (map joined_name names)"

definition is_missing :: "string option \<Rightarrow> bool" where
  "is_missing v \<longleftrightarrow> v = None \<or> v = Some []"

definition classify_approval ::
  "string \<Rightarrow> string option \<Rightarrow> string option \<Rightarrow> step_effect \<Rightarrow> destination_kind \<Rightarrow> string list \<Rightarrow> bool \<Rightarrow> classification" where
  "classify_approval procedure tool permission effect destination targets deletes =
     (let names = [procedure, text_of tool, text_of permission] in
      if names_any names money_words money_stems then always MovesMoney
      else if deletes \<or> names_any names destroy_words destroy_stems then always DestroysData
      else if names_any names access_words access_stems then always ChangesAccess
      else if list_ex file_touches_access targets then always ChangesAccess
      else if is_missing tool \<or> is_missing permission then always Unrecognised
      else case rememberable_under (text_of permission) of None \<Rightarrow> always Unrecognised
        | Some (place, effects) \<Rightarrow>
            if place \<noteq> destination \<or> effect \<notin> set effects \<or> targets = [] then always Unrecognised else Rememberable)"

section \<open>What a step names\<close>

definition recipient_fields :: "string list" where
  "recipient_fields = [''to'', ''cc'', ''bcc'', ''recipients'', ''url'', ''channel'']"

definition unbound_destinations :: "string list" where
  "unbound_destinations = [
    ''recipient'', ''email'', ''emails'', ''address'', ''addresses'', ''webhook'', ''webhooks'', ''endpoint'',
    ''endpoints'', ''uri'', ''urls'', ''link'', ''host'', ''hostname'', ''server'', ''bucket'', ''phone'', ''phones'',
    ''number'', ''numbers'', ''channels'', ''path'', ''paths'', ''file'', ''target'', ''targets'', ''destination'',
    ''destinations'', ''forward'', ''forwardto'', ''redirect'', ''redirectto'']"

definition strings_of :: "jval \<Rightarrow> string list option" where
  "strings_of v = (case v of JStr t \<Rightarrow> Some [t]
     | JArr vs \<Rightarrow> (if list_all (\<lambda>v. case v of JStr _ \<Rightarrow> True | _ \<Rightarrow> False) vs
         then Some (map (\<lambda>v. case v of JStr t \<Rightarrow> t | _ \<Rightarrow> []) vs) else None)
     | _ \<Rightarrow> None)"

definition unbound_key :: "string \<Rightarrow> bool" where
  "unbound_key k \<longleftrightarrow> filter is_lower_alnum (lower_name k) \<in> set unbound_destinations"

definition recipient_label :: "string \<Rightarrow> string" where
  "recipient_label field = (if field = ''recipients'' then ''to'' else field)"

definition is_mailbox :: "string \<Rightarrow> bool" where
  "is_mailbox field \<longleftrightarrow> field \<in> set [''to'', ''cc'', ''bcc'', ''recipients'']"

text \<open>A mailbox is compared without case: \<open>lower\<close> is the platform's \<open>toLowerCase\<close>, on all of Unicode.\<close>

definition field_targets :: "(string \<Rightarrow> string) \<Rightarrow> (string \<times> jval) list \<Rightarrow> string \<Rightarrow> string list option" where
  "field_targets lower fs field = (if jfield fs field = JUndef then Some []
     else map_option (map (\<lambda>v. recipient_label field @ '':'' @ (if is_mailbox field then lower (js_trim v) else js_trim v)))
       (strings_of (jfield fs field)))"

fun all_targets :: "(string \<Rightarrow> string) \<Rightarrow> (string \<times> jval) list \<Rightarrow> string list \<Rightarrow> string list option" where
  "all_targets lower fs [] = Some []"
| "all_targets lower fs (field # rest) = (case (field_targets lower fs field, all_targets lower fs rest) of
     (Some a, Some b) \<Rightarrow> Some (a @ b) | _ \<Rightarrow> None)"

definition file_targets :: "(string \<times> jval) list \<Rightarrow> string list option" where
  "file_targets fs = (if jfield fs ''files'' = JUndef then Some []
     else map_option (map (\<lambda>file. ''file:'' @ file)) (strings_of (jfield fs ''files'')))"

text \<open>\<open>[...new Set(targets)].sort()\<close>\<close>

definition sorted_set :: "string list \<Rightarrow> string list" where
  "sorted_set ts = sort_by text_less (remdups ts)"

definition intent_deletes :: "(string \<times> jval) list \<Rightarrow> bool" where
  "intent_deletes fs \<longleftrightarrow> jfield fs ''delete'' = JBool True \<or> jfield fs ''deletes'' = JBool True \<or> jfield fs ''text'' = JNull"

definition intent_targets :: "(string \<Rightarrow> string) \<Rightarrow> jval \<Rightarrow> (string list \<times> bool) option" where
  "intent_targets lower input = (case input of JObj fs \<Rightarrow>
       (case file_targets fs of None \<Rightarrow> None | Some files \<Rightarrow>
          if list_ex (\<lambda>kv. unbound_key (fst kv)) fs then None
          else map_option (\<lambda>recipients. (sorted_set (files @ recipients), intent_deletes fs)) (all_targets lower fs recipient_fields))
     | _ \<Rightarrow> None)"

definition classify_intent :: "(string \<Rightarrow> string) \<Rightarrow> string \<Rightarrow> step_intent \<Rightarrow> classification" where
  "classify_intent lower procedure intent = (case intent_targets lower (si_input intent) of None \<Rightarrow> always Unrecognised
     | Some (targets, deletes) \<Rightarrow> classify_approval procedure (si_name intent) (si_permission intent) (si_effect intent)
         (si_destination intent) targets deletes)"

section \<open>In words\<close>

definition drop_label :: "string list \<Rightarrow> string \<Rightarrow> string" where
  "drop_label labels t = (case find (\<lambda>l. starts_with (l @ '':'') t) labels of None \<Rightarrow> t | Some l \<Rightarrow> drop (length l + 1) t)"

definition target_words :: "string \<Rightarrow> string" where
  "target_words target = (let t = drop_label [''file'', ''to'', ''url'', ''channel''] target in
     case find (\<lambda>l. starts_with (l @ '':'') t) [''cc'', ''bcc''] of None \<Rightarrow> t | Some l \<Rightarrow> l @ '' '' @ drop (length l + 1) t)"

fun comma_words :: "string list \<Rightarrow> string" where
  "comma_words [] = []"
| "comma_words [t] = t"
| "comma_words (t # ts) = t @ '', '' @ comma_words ts"

definition target_text :: "string list \<Rightarrow> string" where
  "target_text targets = comma_words (map target_words targets)"

definition describe_pattern :: "approval_pattern \<Rightarrow> string option \<Rightarrow> string" where
  "describe_pattern p procedureLabel =
     (if pd_kind (ap_destination p) = ExternalPlace then ''Send to '' else ''Write '') @ target_text (pd_targets (ap_destination p))
     @ '' ('' @ (case procedureLabel of None \<Rightarrow> ap_procedure p | Some l \<Rightarrow> l) @ '')''"

section \<open>Codex proposals\<close>

record proposed_change =
  pg_path :: string
  pg_after :: "string option"

definition proposal_targets :: "proposed_change list \<Rightarrow> string list \<times> bool" where
  "proposal_targets changes =
     (sorted_set (map (\<lambda>c. ''file:'' @ pg_path c) changes), list_ex (\<lambda>c. pg_after c = None) changes)"

text \<open>\<open>/^openai:chatgpt:[a-f0-9]{64}$/\<close>\<close>

definition is_chatgpt_route :: "string \<Rightarrow> bool" where
  "is_chatgpt_route t \<longleftrightarrow> (let rest = drop 15 t in starts_with ''openai:chatgpt:'' t \<and> length rest = 64
     \<and> list_all (\<lambda>c. is_digit c \<or> c \<in> set ''abcdef'') rest)"

definition exact_review_only :: "string \<Rightarrow> bool" where
  "exact_review_only name \<longleftrightarrow> list_ex (\<lambda>e. ends_with e (to_lower name)) [''.svg'', ''.htm'', ''.html'', ''.xhtml'', ''.xml'']"

definition codex_procedure :: string where "codex_procedure = ''codex-proposal''"
definition codex_tool :: string where "codex_tool = ''text.apply''"
definition codex_permission :: string where "codex_permission = ''write-project-file''"
definition codex_label :: string where "codex_label = ''Codex text proposal''"

definition runs_code_reason :: "string \<Rightarrow> string" where
  "runs_code_reason path = path @ '' always needs your exact review: an SVG, HTML or XML file can run code when it is opened.''"

definition classify_proposal :: "(string \<times> string) option \<Rightarrow> proposed_change list option \<Rightarrow> classification" where
  "classify_proposal connection preview =
     (case (connection, preview) of
        (Some (engine, accountRoute), Some changes) \<Rightarrow>
          if engine \<noteq> ''codex'' \<or> \<not> is_chatgpt_route accountRoute \<or> changes = [] then always Unrecognised
          else (case find (\<lambda>c. exact_review_only (pg_path c)) changes of
              Some c \<Rightarrow> AlwaysAsks Unrecognised (runs_code_reason (pg_path c))
            | None \<Rightarrow> (case proposal_targets changes of (targets, deletes) \<Rightarrow>
                classify_approval codex_procedure (Some codex_tool) (Some codex_permission) Idempotent LocalPlace targets deletes))
      | _ \<Rightarrow> always Unrecognised)"

end
