(* ===== verification/Approval_Names.thy ===== *)
theory Approval_Names
  imports Approval_Patterns
begin

text \<open>How the classifier reads a name: whatever its capitals and separators, it is judged as the letters and digits in it.\<close>

lemma starts_with_iff: "starts_with s t \<longleftrightarrow> (\<exists>r. t = s @ r)"
  by (induction s t rule: starts_with.induct) auto

lemma contains_iff: "contains s t \<longleftrightarrow> (\<exists>a b. t = a @ s @ b)"
proof (induction t)
  case (Cons c t)
  show ?case
  proof
    assume "contains s (c # t)"
    then consider r where "c # t = s @ r" | a b where "t = a @ s @ b" using Cons by (auto simp: starts_with_iff)
    then show "\<exists>a b. c # t = a @ s @ b" by cases (metis append_Nil, metis append_Cons)
  next
    assume "\<exists>a b. c # t = a @ s @ b"
    then obtain a b where ab: "c # t = a @ s @ b" by blast
    show "contains s (c # t)"
    proof (cases a)
      case Nil
      with ab have "starts_with s (c # t)" unfolding starts_with_iff by simp
      then show ?thesis by simp
    next
      case a: (Cons d a')
      with ab Cons.IH show ?thesis by auto
    qed
  qed
qed simp

lemma runs_not_Nil: "P d \<Longrightarrow> runs P (d # r) \<noteq> []"
  by (cases r) (auto split: list.splits)

lemma concat_runs: "concat (runs P t) = filter P t"
proof (induction t)
  case (Cons c t)
  show ?case
  proof (cases t)
    case d: (Cons d r)
    show ?thesis
    proof (cases "P d")
      case True
      then obtain w ws where "runs P t = w # ws" using runs_not_Nil [of P d r] d by (cases "runs P t") auto
      with Cons d True show ?thesis by simp
    next
      case False
      with Cons d show ?thesis by simp
    qed
  qed simp
qed simp

lemma small_space [simp]: "small_letter (CHR '' '') = CHR '' ''" "\<not> is_lower_alnum (CHR '' '')"
  by code_simp+

lemma sign_bytes [simp]: "\<not> is_lower_alnum (CHR 0xE2)" "\<not> is_lower_alnum (CHR 0xC4)" "\<not> is_lower_alnum (CHR 0x84)"
  "\<not> is_lower_alnum (CHR 0xAA)" "\<not> is_lower_alnum (CHR 0xB0)" "CHR '' '' \<noteq> CHR 0x84" "CHR '' '' \<noteq> CHR 0xAA"
  "CHR '' '' \<noteq> CHR 0xB0"
  by code_simp+

text \<open>One letter at a time, but for the two signs.\<close>

lemma lower_name_Cons:
  assumes "take 3 (a # t) \<noteq> kelvin_sign" and "take 2 (a # t) \<noteq> dotted_i"
  shows "lower_name (a # t) = small_letter a # lower_name t"
proof (cases t)
  case (Cons b u)
  with assms show ?thesis by (cases u) (auto simp: kelvin_sign_def dotted_i_def)
qed simp

lemma split_camel_other: "\<not> is_lower_alnum c \<Longrightarrow> split_camel (c # t) = c # split_camel t"
  by (cases t) simp_all

lemma split_camel_Cons: "\<exists>u. split_camel (c # t) = c # u"
  by (cases t) simp_all

text \<open>A space before a capital joins no sign and parts none: the bytes of a sign are no letters.\<close>

lemma sign_split:
  assumes "take 3 (a # t) \<noteq> kelvin_sign" "take 2 (a # t) \<noteq> dotted_i"
  shows "take 3 (a # split_camel t) \<noteq> kelvin_sign" "take 2 (a # split_camel t) \<noteq> dotted_i"
proof -
  show "take 2 (a # split_camel t) \<noteq> dotted_i"
  proof (cases t)
    case (Cons b u)
    obtain v where "split_camel (b # u) = b # v" using split_camel_Cons by blast
    with assms(2) Cons show ?thesis by simp
  qed (use assms(2) in simp)
  show "take 3 (a # split_camel t) \<noteq> kelvin_sign"
  proof
    assume sign: "take 3 (a # split_camel t) = kelvin_sign"
    then obtain b u where t: "t = b # u" by (cases t) (simp_all add: kelvin_sign_def)
    obtain v where v: "split_camel (b # u) = b # v" using split_camel_Cons by blast
    with sign t have b: "a = CHR 0xE2" "b = CHR 0x84" by (simp_all add: kelvin_sign_def numeral_3_eq_3 split: list.splits)
    then have "v = split_camel u" using v split_camel_other [of b u] by simp
    with sign t v b have u: "take 1 (split_camel u) = [CHR 0xAA]" by (simp add: kelvin_sign_def numeral_3_eq_3)
    then obtain c w where "u = c # w" by (cases u) simp_all
    moreover obtain x where "split_camel (c # w) = c # x" using split_camel_Cons by blast
    ultimately show False using assms(1) t b u by (simp add: kelvin_sign_def numeral_3_eq_3)
  qed
qed

lemma lower_name_split: "filter is_lower_alnum (lower_name (split_camel t)) = filter is_lower_alnum (lower_name t)"
proof (induction t rule: lower_name.induct)
  case (1 a b c t)
  consider (kelvin) "[a, b, c] = kelvin_sign" | (dotted) "[a, b] = dotted_i"
    | (other) "take 3 (a # b # c # t) \<noteq> kelvin_sign" "take 2 (a # b # c # t) \<noteq> dotted_i" by fastforce
  then show ?case
  proof cases
    case kelvin
    with 1(1) show ?thesis by (simp add: kelvin_sign_def split_camel_other)
  next
    case dotted
    obtain u where "split_camel (c # t) = c # u" using split_camel_Cons by blast
    with dotted 1(2) show ?thesis by (simp add: kelvin_sign_def dotted_i_def split_camel_other)
  next
    case other
    have IH: "filter is_lower_alnum (lower_name (split_camel (b # c # t))) = filter is_lower_alnum (lower_name (b # c # t))"
      using other by (intro 1(3)) auto
    show ?thesis
    proof (cases "is_lower_alnum a \<and> is_upper b")
      case True
      have "take 3 (a # CHR '' '' # split_camel (b # c # t)) \<noteq> kelvin_sign" "take 2 (a # CHR '' '' # split_camel (b # c # t)) \<noteq> dotted_i"
        "take 3 (CHR '' '' # split_camel (b # c # t)) \<noteq> kelvin_sign" "take 2 (CHR '' '' # split_camel (b # c # t)) \<noteq> dotted_i"
        by (simp_all add: kelvin_sign_def dotted_i_def numeral_3_eq_3)
      with True IH other show ?thesis by (simp add: lower_name_Cons del: lower_name.simps)
    next
      case False
      then have "split_camel (a # b # c # t) = a # split_camel (b # c # t)" by simp
      with IH lower_name_Cons [OF sign_split [OF other]] lower_name_Cons [OF other] show ?thesis by (simp del: lower_name.simps)
    qed
  qed
next
  case (2 a b)
  show ?case
    by (cases "is_lower_alnum a \<and> is_upper b"; cases "a = CHR 0xC4") (auto simp: dotted_i_def kelvin_sign_def)
qed simp_all

lemma joined_name_letters: "joined_name t = filter is_lower_alnum (lower_name t)"
  by (simp add: joined_name_def name_words_def concat_runs lower_name_split)

lemma names_any_stem:
  assumes "\<not> names_any names words stems" "name \<in> set names" "stem \<in> set stems"
  shows "\<not> (\<exists>a b. filter is_lower_alnum (lower_name name) = a @ stem @ b)"
  using assms by (auto simp: names_any_def list_ex_iff joined_name_letters contains_iff)

lemma names_any_word:
  assumes "\<not> names_any names words stems" "name \<in> set names" "w \<in> set (name_words name)"
  shows "w \<notin> set words"
  using assms by (auto simp: names_any_def list_ex_iff)

lemma classify_approval_Rememberable:
  assumes "classify_approval procedure tool permission effect destination targets deletes = Rememberable"
  shows "\<not> names_any [procedure, text_of tool, text_of permission] money_words money_stems"
    "\<not> names_any [procedure, text_of tool, text_of permission] destroy_words destroy_stems"
    "\<not> names_any [procedure, text_of tool, text_of permission] access_words access_stems"
    "\<not> deletes" "\<forall>t \<in> set targets. \<not> file_touches_access t" "targets \<noteq> []"
    "\<exists>effects. rememberable_under (text_of permission) = Some (destination, effects) \<and> effect \<in> set effects"
  using assms by (auto simp: classify_approval_def always_def Let_def list_ex_iff split: if_splits option.splits prod.splits)

end
