(* ===== verification/Approval_Ledger.thy ===== *)
theory Approval_Ledger
  imports Approval_Patterns Board_State
begin

text \<open>
  Remembered approvals as a project keeps them, \<open>server/trust/remembered-approvals.ts\<close> and their rows in \<open>shared/permissions.ts\<close>:
  grants made by a person's click, counts of identical approvals, and offers. A time is its epoch millisecond; a field the code
  sets to one constant is left out of a row and written in its JSON value. What the clock and the random identifiers give to one
  call is a \<open>remember_stamp\<close>.
\<close>

section \<open>Rows\<close>

record grant_authority =
  ga_principalId :: string
  ga_identityGeneration :: int
  ga_permission :: string

record grant_basis =
  gb_needId :: "string option"
  gb_offerId :: "string option"
  gb_approvals :: int

record pattern_grant =
  gt_id :: string
  gt_projectId :: string
  gt_route :: remember_route
  gt_pattern :: approval_pattern
  gt_patternDigest :: string
  gt_what :: string
  gt_authority :: grant_authority
  gt_basis :: grant_basis
  gt_createdAt :: int
  gt_eventId :: string

record grant_record =
  gr_grant :: pattern_grant
  gr_generation :: int
  gr_revokedAt :: "int option"
  gr_revokedEventId :: "string option"

record approval_tally =
  ta_patternDigest :: string
  ta_approvals :: int
  ta_lastApprovedAt :: int

datatype offer_state = OfferOpen | OfferAccepted | OfferDeclined

record remember_offer =
  ro_id :: string
  ro_patternDigest :: string
  ro_pattern :: approval_pattern
  ro_what :: string
  ro_authority :: grant_authority
  ro_approvals :: int
  ro_needId :: string
  ro_sessionId :: string
  ro_taskId :: string
  ro_offeredAt :: int
  ro_state :: offer_state
  ro_decidedAt :: "int option"
  ro_eventId :: "string option"
  ro_grantId :: "string option"

record approval_ledger =
  al_grants :: "grant_record list"
  al_tallies :: "approval_tally list"
  al_offers :: "remember_offer list"

text \<open>The evidence on a request that a remembered approval covered it.\<close>

record remembered_authorization =
  rz_id :: string
  rz_grantId :: string
  rz_grantDigest :: string
  rz_grantGeneration :: int
  rz_patternDigest :: string
  rz_projectId :: string
  rz_taskId :: string
  rz_sessionId :: string
  rz_approvalId :: string
  rz_proposalDigest :: string
  rz_actionDigest :: string
  rz_baseDigest :: string
  rz_engine :: string
  rz_accountRoute :: "string option"
  rz_acceptedAt :: int
  rz_route :: remember_route
  rz_authorizedAt :: int
  rz_eventId :: string

text \<open>A request (\<open>Need\<close>), as far as this file reads it; the other kind of authorization is a task scope, here its id.\<close>

datatype need_authorization = ScopeAuthorization string | Remembered remembered_authorization

record approval_identity =
  ai_proposalDigest :: string
  ai_actionDigest :: string
  ai_baseDigest :: string

datatype approval_decision = GoAhead | Declined

record approval_receipt =
  rc_decision :: approval_decision
  rc_actor :: string
  rc_decidedAt :: int

datatype execution_state = ExecPending | ExecApplied | ExecConflicted | ExecNotApplied | ExecDeclined

record approval_execution =
  ex_state :: execution_state
  ex_eventId :: "string option"
  ex_completedAt :: "int option"
  ex_reason :: "string option"
  ex_conflicts :: "string list"

record approval_need =
  an_id :: string
  an_sessionId :: string
  an_taskId :: string
  an_state :: need_status
  an_decidedAt :: "int option"
  an_decidedFrom :: string
  an_allowForTask :: bool
  an_approval :: "approval_identity option"
  an_receipt :: "approval_receipt option"
  an_authorization :: "need_authorization option"
  an_boundary :: "string option"
  an_harness :: bool
  an_connection :: "(string \<times> string) option"
  an_preview :: "proposed_change list option"
  an_reviewed :: bool
  an_execution :: "approval_execution option"

record history_file =
  hf_path :: string
  hf_before :: "string option"
  hf_after :: "string option"

record approval_entry =
  ae_id :: string
  ae_time :: int
  ae_kind :: string
  ae_sentence :: string
  ae_sessionId :: "string option"
  ae_taskId :: "string option"
  ae_approvalId :: "string option"
  ae_authorization :: "remembered_authorization option"
  ae_files :: "history_file list"

record approval_session =
  av_id :: string
  av_taskId :: string
  av_route :: "string option"
  av_slotted :: bool
  av_sample :: bool

record approval_state =
  pj_projectId :: string
  pj_ledger :: "approval_ledger option"
  pj_history :: "approval_entry list"
  pj_needs :: "approval_need list"
  pj_sessions :: "approval_session list"

record remember_stamp =
  rs_now :: int
  rs_entry :: string
  rs_new :: string

definition max_pattern_grants :: nat where "max_pattern_grants = 256"
definition max_remember_offers :: nat where "max_remember_offers = 256"
definition max_approval_tallies :: nat where "max_approval_tallies = 512"
definition remember_window_ms :: int where "remember_window_ms = 15 * 60 * 1000"

section \<open>Digests\<close>

fun kind_text :: "pattern_kind \<Rightarrow> string" where
  "kind_text HarnessStep = ''harness-step''"
| "kind_text CodexProposal = ''codex-proposal''"

fun step_kind_text :: "step_kind \<Rightarrow> string" where
  "step_kind_text ModelStep = ''model''"
| "step_kind_text ToolStep = ''tool''"
| "step_kind_text TransformStep = ''transform''"
| "step_kind_text ApprovalStep = ''approval''"
| "step_kind_text WaitStep = ''wait''"

fun effect_text :: "step_effect \<Rightarrow> string" where
  "effect_text PureEffect = ''pure''"
| "effect_text ReadEffect = ''read''"
| "effect_text Idempotent = ''idempotent''"
| "effect_text NonIdempotent = ''non-idempotent''"

fun place_text :: "destination_kind \<Rightarrow> string" where
  "place_text LocalPlace = ''local''"
| "place_text ExternalPlace = ''external''"

fun route_text :: "remember_route \<Rightarrow> string" where
  "route_text ApproveAndRemember = ''approve-and-remember''"
| "route_text LearnedOffer = ''learned-offer''"

text \<open>The pattern with its fields in the fixed order of \<open>canonicalPattern\<close>.\<close>

definition pattern_value :: "approval_pattern \<Rightarrow> jval" where
  "pattern_value p = JObj
     [(''kind'', JStr (kind_text (ap_kind p))), (''projectId'', JStr (ap_projectId p)), (''procedure'', JStr (ap_procedure p)),
      (''tool'', JStr (ap_tool p)),
      (''action'', JObj [(''kind'', JStr (step_kind_text (pa_kind (ap_action p)))), (''permission'', JStr (pa_permission (ap_action p))),
         (''effect'', JStr (effect_text (pa_effect (ap_action p))))]),
      (''destination'', JObj [(''kind'', JStr (place_text (pd_kind (ap_destination p)))),
         (''targets'', JArr (map JStr (pd_targets (ap_destination p))))]),
      (''connection'', JObj [(''engine'', JStr (pc_engine (ap_connection p))),
         (''accountRoute'', or_null (pc_accountRoute (ap_connection p)))])]"

definition pattern_payload :: "approval_pattern \<Rightarrow> jval" where
  "pattern_payload p = JObj [(''type'', JStr ''remembered-approval.pattern''), (''protocolVersion'', JInt 3), (''pattern'', pattern_value p)]"

definition pattern_digest :: "(string \<Rightarrow> string) \<Rightarrow> approval_pattern \<Rightarrow> string" where
  "pattern_digest sha p = payload_digest sha (pattern_payload p)"

definition grant_value :: "pattern_grant \<Rightarrow> jval" where
  "grant_value g = JObj
     [(''protocolVersion'', JInt 3), (''kind'', JStr ''remembered-approval''), (''id'', JStr (gt_id g)),
      (''projectId'', JStr (gt_projectId g)), (''tenantId'', JNull),
      (''issuer'', JObj [(''actor'', JStr ''local-client''), (''assurance'', JStr ''loopback''), (''authenticated'', JBool False),
         (''deviceId'', JNull), (''sessionId'', JNull)]),
      (''acceptedBy'', JStr ''you''), (''route'', JStr (route_text (gt_route g))), (''pattern'', pattern_value (gt_pattern g)),
      (''patternDigest'', JStr (gt_patternDigest g)), (''what'', JStr (gt_what g)),
      (''authority'', JObj [(''principalId'', JStr (ga_principalId (gt_authority g))),
         (''identityGeneration'', JInt (ga_identityGeneration (gt_authority g))), (''permission'', JStr (ga_permission (gt_authority g)))]),
      (''basis'', JObj [(''needId'', or_null (gb_needId (gt_basis g))), (''offerId'', or_null (gb_offerId (gt_basis g))),
         (''approvals'', JInt (gb_approvals (gt_basis g)))]),
      (''createdAt'', JStr (to_iso (gt_createdAt g))), (''eventId'', JStr (gt_eventId g))]"

definition grant_digest :: "(string \<Rightarrow> string) \<Rightarrow> grant_record \<Rightarrow> string" where
  "grant_digest sha r = payload_digest sha (grant_value (gr_grant r))"

section \<open>Candidates\<close>

record principal =
  pr_id :: string
  pr_identityGeneration :: int
  pr_capabilities :: "string list"

record approval_candidate =
  cn_pattern :: approval_pattern
  cn_deletes :: bool
  cn_what :: string
  cn_authority :: "principal option"

text \<open>A candidate before its authority is known: its pattern, whether it deletes, and what it is in words.\<close>

definition pattern_for_step ::
  "(string \<Rightarrow> string) \<Rightarrow> string \<Rightarrow> string \<Rightarrow> step_intent \<Rightarrow> string \<Rightarrow> string option \<Rightarrow> string option \<Rightarrow> (approval_pattern \<times> bool \<times> string) option" where
  "pattern_for_step lower projectId procedure intent engine accountRoute procedureLabel =
     (case intent_targets lower (si_input intent) of None \<Rightarrow> None
      | Some (targets, deletes) \<Rightarrow>
          if is_missing (si_permission intent) \<or> is_missing (si_name intent) then None
          else let p = \<lparr>ap_kind = HarnessStep, ap_projectId = projectId, ap_procedure = procedure, ap_tool = text_of (si_name intent),
                 ap_action = \<lparr>pa_kind = si_kind intent, pa_permission = text_of (si_permission intent), pa_effect = si_effect intent\<rparr>,
                 ap_destination = \<lparr>pd_kind = si_destination intent, pd_targets = targets\<rparr>,
                 ap_connection = \<lparr>pc_engine = engine, pc_accountRoute = accountRoute\<rparr>\<rparr>
               in Some (p, deletes, describe_pattern p procedureLabel))"

definition proposal_pattern :: "string \<Rightarrow> string list \<Rightarrow> string \<Rightarrow> approval_pattern" where
  "proposal_pattern projectId targets accountRoute =
     \<lparr>ap_kind = CodexProposal, ap_projectId = projectId, ap_procedure = codex_procedure, ap_tool = codex_tool,
      ap_action = \<lparr>pa_kind = ToolStep, pa_permission = codex_permission, pa_effect = Idempotent\<rparr>,
      ap_destination = \<lparr>pd_kind = LocalPlace, pd_targets = targets\<rparr>,
      ap_connection = \<lparr>pc_engine = ''codex'', pc_accountRoute = Some accountRoute\<rparr>\<rparr>"

definition pattern_for_proposal :: "string \<Rightarrow> approval_need \<Rightarrow> (approval_pattern \<times> bool \<times> string) option" where
  "pattern_for_proposal projectId need =
     (case (an_connection need, an_preview need) of
        (Some (engine, accountRoute), Some changes) \<Rightarrow>
          if engine \<noteq> ''codex'' \<or> \<not> is_chatgpt_route accountRoute \<or> changes = [] then None
          else (case proposal_targets changes of (targets, deletes) \<Rightarrow>
            let p = proposal_pattern projectId targets accountRoute in Some (p, deletes, describe_pattern p (Some codex_label)))
      | _ \<Rightarrow> None)"

definition codex_proposal_shape :: "approval_pattern \<Rightarrow> bool" where
  "codex_proposal_shape p \<longleftrightarrow> ap_procedure p = codex_procedure \<and> ap_tool p = codex_tool \<and> pa_kind (ap_action p) = ToolStep
     \<and> pa_permission (ap_action p) = codex_permission \<and> pa_effect (ap_action p) = Idempotent
     \<and> pd_kind (ap_destination p) = LocalPlace
     \<and> list_all (\<lambda>t. starts_with ''file:'' t \<and> \<not> exact_review_only t) (pd_targets (ap_destination p))
     \<and> pc_engine (ap_connection p) = ''codex'' \<and> is_chatgpt_route (text_of (pc_accountRoute (ap_connection p)))"

definition classify_candidate :: "approval_pattern \<Rightarrow> bool \<Rightarrow> classification" where
  "classify_candidate p deletes =
     (if ap_kind p = CodexProposal \<and> \<not> codex_proposal_shape p then always Unrecognised
      else classify_approval (ap_procedure p) (Some (ap_tool p)) (Some (pa_permission (ap_action p))) (pa_effect (ap_action p))
        (pd_kind (ap_destination p)) (pd_targets (ap_destination p)) deletes)"

definition remember_refused :: "string \<Rightarrow> refusal" where
  "remember_refused reason = ApiError 409 reason (Some ''remember_refused'')"

definition always_asks :: "string \<Rightarrow> refusal" where
  "always_asks reason = ApiError 409 reason (Some ''always_asks'')"

definition not_covered :: "string \<Rightarrow> refusal" where
  "not_covered reason = ApiError 403 reason (Some ''scope_not_authorized'')"

text \<open>A text in curly quotation marks.\<close>

definition quoted :: "string \<Rightarrow> string" where
  "quoted t = [CHR 0xE2, CHR 0x80, CHR 0x9C] @ t @ [CHR 0xE2, CHR 0x80, CHR 0x9D]"

definition difference :: "approval_pattern \<Rightarrow> approval_pattern \<Rightarrow> string option" where
  "difference granted asked =
     (let proposal = (ap_kind asked = CodexProposal) in
      if ap_destination granted \<noteq> ap_destination asked
      then Some (if proposal then ''this writes files it does not cover'' else ''this goes to a destination or recipient it does not cover'')
      else if ap_action granted \<noteq> ap_action asked then Some ''this is a different or wider action''
      else if ap_connection granted \<noteq> ap_connection asked
      then Some (if proposal then ''this was prepared under a different ChatGPT account'' else ''the connection it acts through changed'')
      else None)"

section \<open>The ledger\<close>

definition empty_ledger :: approval_ledger where
  "empty_ledger = \<lparr>al_grants = [], al_tallies = [], al_offers = []\<rparr>"

definition ledger_of :: "approval_state \<Rightarrow> approval_ledger" where
  "ledger_of st = (case pj_ledger st of None \<Rightarrow> empty_ledger | Some l \<Rightarrow> l)"

abbreviation "grants_of st \<equiv> al_grants (ledger_of st)"
abbreviation "offers_of st \<equiv> al_offers (ledger_of st)"
abbreviation "tallies_of st \<equiv> al_tallies (ledger_of st)"

definition set_ledger :: "(approval_ledger \<Rightarrow> approval_ledger) \<Rightarrow> approval_state \<Rightarrow> approval_state" where
  "set_ledger f st = st\<lparr>pj_ledger := Some (f (ledger_of st))\<rparr>"

definition is_active :: "grant_record \<Rightarrow> bool" where
  "is_active r \<longleftrightarrow> gr_revokedAt r = None \<and> gr_generation r = 0"

definition active_grant :: "approval_state \<Rightarrow> string \<Rightarrow> grant_record option" where
  "active_grant st digest = find (\<lambda>r. gt_patternDigest (gr_grant r) = digest \<and> is_active r) (grants_of st)"

definition inactive_reason :: "grant_record \<Rightarrow> string option" where
  "inactive_reason r = (if is_active r then None else Some (''You revoked this remembered approval. '' @ agent_name @ '' asks each time.''))"

text \<open>What the Console shows: each grant with whether it is active and why not, the open offers and the threshold.\<close>

definition remembered_view :: "int \<Rightarrow> approval_state \<Rightarrow> (grant_record \<times> bool \<times> string) list \<times> remember_offer list \<times> int" where
  "remembered_view threshold st =
     (map (\<lambda>r. (r, inactive_reason r = None, case inactive_reason r of
          None \<Rightarrow> ''Covers exactly this in this project until you revoke it.'' | Some why \<Rightarrow> why)) (grants_of st),
      filter (\<lambda>f. ro_state f = OfferOpen) (offers_of st), threshold)"

fun update_first :: "('a \<Rightarrow> bool) \<Rightarrow> ('a \<Rightarrow> 'a) \<Rightarrow> 'a list \<Rightarrow> 'a list" where
  "update_first P f [] = []"
| "update_first P f (x # xs) = (if P x then f x # xs else x # update_first P f xs)"

definition put_need :: "approval_need \<Rightarrow> approval_state \<Rightarrow> approval_state" where
  "put_need need st = st\<lparr>pj_needs := map (\<lambda>n. if an_id n = an_id need then need else n) (pj_needs st)\<rparr>"

definition note_entry ::
  "remember_stamp \<Rightarrow> string \<Rightarrow> string \<Rightarrow> string option \<Rightarrow> string option \<Rightarrow> string option \<Rightarrow> approval_entry" where
  "note_entry stamp kind sentence taskId sessionId approvalId =
     \<lparr>ae_id = CHR ''E'' # rs_entry stamp, ae_time = rs_now stamp, ae_kind = kind, ae_sentence = sentence, ae_sessionId = sessionId,
      ae_taskId = taskId, ae_approvalId = approvalId, ae_authorization = None, ae_files = []\<rparr>"

definition push_entry :: "approval_entry \<Rightarrow> approval_state \<Rightarrow> approval_state" where
  "push_entry e st = st\<lparr>pj_history := pj_history st @ [e]\<rparr>"

section \<open>Covering\<close>

datatype coverage_result = Covered grant_record | NotCovered "string option"

definition authority_holds :: "grant_authority \<Rightarrow> principal \<Rightarrow> bool" where
  "authority_holds a p \<longleftrightarrow> pr_id p = ga_principalId a \<and> pr_identityGeneration p = ga_identityGeneration a
     \<and> ga_permission a \<in> set (pr_capabilities p)"

definition near_reason :: "approval_state \<Rightarrow> approval_candidate \<Rightarrow> string option" where
  "near_reason st c =
     (case find (\<lambda>r. inactive_reason r = None \<and> ap_procedure (gt_pattern (gr_grant r)) = ap_procedure (cn_pattern c)
           \<and> ap_tool (gt_pattern (gr_grant r)) = ap_tool (cn_pattern c)) (grants_of st) of
        None \<Rightarrow> None
      | Some r \<Rightarrow> map_option (\<lambda>why. ''Your remembered approval covers '' @ quoted (gt_what (gr_grant r)) @ '', but '' @ why
          @ '', so it needs your OK.'') (difference (gt_pattern (gr_grant r)) (cn_pattern c)))"

definition coverage :: "(string \<Rightarrow> string) \<Rightarrow> approval_candidate \<Rightarrow> approval_state \<Rightarrow> coverage_result" where
  "coverage sha c st =
     (let digest = pattern_digest sha (cn_pattern c) in
      if grants_of st = [] then NotCovered None
      else if classify_candidate (cn_pattern c) (cn_deletes c) \<noteq> Rememberable then NotCovered None
      else if ap_projectId (cn_pattern c) \<noteq> pj_projectId st then NotCovered None
      else case active_grant st digest of
        None \<Rightarrow>
          if list_ex (\<lambda>r. gt_patternDigest (gr_grant r) = digest) (grants_of st)
          then NotCovered (Some ''You revoked the remembered approval for this, so it needs your OK.'')
          else NotCovered (near_reason st c)
      | Some r \<Rightarrow> (case cn_authority c of
            None \<Rightarrow> NotCovered (Some ''The authority your remembered approval rested on is not available now, so this needs your OK.'')
          | Some p \<Rightarrow> if authority_holds (gt_authority (gr_grant r)) p then Covered r
              else NotCovered (Some ''The authority your remembered approval rested on changed, so this needs your OK.'')))"

definition evidence_of ::
  "(string \<Rightarrow> string) \<Rightarrow> remember_stamp \<Rightarrow> string \<Rightarrow> approval_need \<Rightarrow> approval_identity \<Rightarrow> grant_record \<Rightarrow> remembered_authorization" where
  "evidence_of sha stamp projectId need identity r = (let g = gr_grant r in
     \<lparr>rz_id = CHR ''A'' # rs_new stamp, rz_grantId = gt_id g, rz_grantDigest = grant_digest sha r, rz_grantGeneration = gr_generation r,
      rz_patternDigest = gt_patternDigest g, rz_projectId = projectId, rz_taskId = an_taskId need, rz_sessionId = an_sessionId need,
      rz_approvalId = an_id need, rz_proposalDigest = ai_proposalDigest identity, rz_actionDigest = ai_actionDigest identity,
      rz_baseDigest = ai_baseDigest identity, rz_engine = pc_engine (ap_connection (gt_pattern g)),
      rz_accountRoute = pc_accountRoute (ap_connection (gt_pattern g)), rz_acceptedAt = gt_createdAt g, rz_route = gt_route g,
      rz_authorizedAt = rs_now stamp, rz_eventId = CHR ''E'' # rs_entry stamp\<rparr>)"

text \<open>The day of an instant in a person's words is the platform's: \<open>day_text\<close>.\<close>

definition remembered_attribution :: "(int \<Rightarrow> string) \<Rightarrow> int \<Rightarrow> string" where
  "remembered_attribution day_text acceptedAt = ''Ran under a remembered approval: you, since '' @ day_text acceptedAt @ ''.''"

definition cover ::
  "(string \<Rightarrow> string) \<Rightarrow> (int \<Rightarrow> string) \<Rightarrow> remember_stamp \<Rightarrow> approval_need \<Rightarrow> approval_candidate \<Rightarrow> approval_state
    \<Rightarrow> grant_record option \<times> approval_need \<times> approval_state" where
  "cover sha day_text stamp need c st =
     (case an_approval need of None \<Rightarrow> (None, need, st)
      | Some identity \<Rightarrow>
        if an_state need \<noteq> NeedOpen \<or> an_receipt need \<noteq> None \<or> an_authorization need \<noteq> None then (None, need, st)
        else case coverage sha c st of
          NotCovered None \<Rightarrow> (None, need, st)
        | NotCovered (Some why) \<Rightarrow> (let need = need\<lparr>an_boundary := Some why\<rparr> in (None, need, put_need need st))
        | Covered r \<Rightarrow>
            (let evidence = evidence_of sha stamp (pj_projectId st) need identity r;
                 entry = (note_entry stamp ''remembered-authorized''
                   (remembered_attribution day_text (gt_createdAt (gr_grant r)) @ '' '' @ gt_what (gr_grant r) @ ''.'')
                   (Some (an_taskId need)) (Some (an_sessionId need)) (Some (an_id need)))\<lparr>ae_authorization := Some evidence\<rparr>;
                 need = need\<lparr>an_authorization := Some (Remembered evidence), an_state := NeedGoAhead, an_decidedAt := Some (rs_now stamp),
                   an_decidedFrom := ''remembered-approval'', an_allowForTask := False, an_boundary := None,
                   an_execution := Some \<lparr>ex_state = ExecPending, ex_eventId = None, ex_completedAt = None, ex_reason = None, ex_conflicts = []\<rparr>\<rparr>
             in (Some r, need, put_need need (push_entry entry st))))"

section \<open>Counting\<close>

definition authority_of :: "approval_candidate \<Rightarrow> refusal + grant_authority" where
  "authority_of c = (case cn_authority c of
     None \<Rightarrow> Inl (remember_refused ''The authority this approval was given under is not available now.'')
   | Some p \<Rightarrow> if pa_permission (ap_action (cn_pattern c)) \<notin> set (pr_capabilities p)
       then Inl (remember_refused ''The authority this approval was given under does not hold its permission.'')
       else Inr \<lparr>ga_principalId = pr_id p, ga_identityGeneration = pr_identityGeneration p,
         ga_permission = pa_permission (ap_action (cn_pattern c))\<rparr>)"

text \<open>The tallies with one for the digest: the oldest one makes room.\<close>

definition with_tally :: "int \<Rightarrow> string \<Rightarrow> approval_tally list \<Rightarrow> approval_tally list" where
  "with_tally now digest ts =
     (if list_ex (\<lambda>t. ta_patternDigest t = digest) ts then ts
      else (if max_approval_tallies \<le> length ts then tl (sort_by (\<lambda>a b. ta_lastApprovedAt a < ta_lastApprovedAt b) ts) else ts)
        @ [\<lparr>ta_patternDigest = digest, ta_approvals = 0, ta_lastApprovedAt = now\<rparr>])"

definition tally_of :: "string \<Rightarrow> approval_tally list \<Rightarrow> int" where
  "tally_of digest ts = (case find (\<lambda>t. ta_patternDigest t = digest) ts of None \<Rightarrow> 0 | Some t \<Rightarrow> ta_approvals t)"

definition set_tallies :: "(approval_tally list \<Rightarrow> approval_tally list) \<Rightarrow> approval_state \<Rightarrow> approval_state" where
  "set_tallies f = set_ledger (\<lambda>l. l\<lparr>al_tallies := f (al_tallies l)\<rparr>)"

definition count_decision :: "int \<Rightarrow> string \<Rightarrow> approval_decision \<Rightarrow> approval_state \<Rightarrow> approval_state" where
  "count_decision now digest decision =
     set_tallies (\<lambda>ts. update_first (\<lambda>t. ta_patternDigest t = digest)
       (\<lambda>t. case decision of Declined \<Rightarrow> t\<lparr>ta_approvals := 0\<rparr>
          | GoAhead \<Rightarrow> t\<lparr>ta_approvals := ta_approvals t + 1, ta_lastApprovedAt := now\<rparr>) (with_tally now digest ts))"

definition new_offer :: "remember_stamp \<Rightarrow> string \<Rightarrow> approval_candidate \<Rightarrow> grant_authority \<Rightarrow> int \<Rightarrow> approval_need \<Rightarrow> remember_offer" where
  "new_offer stamp digest c authority approvals need =
     \<lparr>ro_id = CHR ''O'' # rs_new stamp, ro_patternDigest = digest, ro_pattern = cn_pattern c, ro_what = cn_what c, ro_authority = authority,
      ro_approvals = approvals, ro_needId = an_id need, ro_sessionId = an_sessionId need, ro_taskId = an_taskId need,
      ro_offeredAt = rs_now stamp, ro_state = OfferOpen, ro_decidedAt = None, ro_eventId = None, ro_grantId = None\<rparr>"

definition note_decision ::
  "(string \<Rightarrow> string) \<Rightarrow> int \<Rightarrow> remember_stamp \<Rightarrow> approval_candidate \<Rightarrow> approval_decision \<Rightarrow> approval_need \<Rightarrow> approval_state
    \<Rightarrow> refusal + remember_offer option \<times> approval_state" where
  "note_decision sha threshold stamp c decision need st =
     (if classify_candidate (cn_pattern c) (cn_deletes c) \<noteq> Rememberable then Inr (None, st)
      else let digest = pattern_digest sha (cn_pattern c);
             counted = count_decision (rs_now stamp) digest decision st;
             approvals = tally_of digest (tallies_of counted) in
        if decision = Declined then Inr (None, counted)
        else if approvals < threshold \<or> cn_authority c = None \<or> active_grant counted digest \<noteq> None
          \<or> list_ex (\<lambda>f. ro_patternDigest f = digest) (offers_of counted) \<or> max_remember_offers \<le> length (offers_of counted)
        then Inr (None, counted)
        else case authority_of c of Inl e \<Rightarrow> Inl e
          | Inr authority \<Rightarrow> (let offer = new_offer stamp digest c authority approvals need in
              Inr (Some offer, set_ledger (\<lambda>l. l\<lparr>al_offers := al_offers l @ [offer]\<rparr>) counted)))"

section \<open>Remembering, and answering an offer\<close>

definition granted_sentence :: "remember_route \<Rightarrow> string \<Rightarrow> string" where
  "granted_sentence route what = (case route of
     ApproveAndRemember \<Rightarrow> ''You approved and remembered '' @ quoted what @ '' in this project. '' @ agent_name
       @ '' will not ask again for exactly this until you revoke it.''
   | LearnedOffer \<Rightarrow> ''You accepted the offer to stop asking: '' @ quoted what @ '' is remembered in this project until you revoke it.'')"

definition new_grant ::
  "(string \<Rightarrow> string) \<Rightarrow> remember_stamp \<Rightarrow> string \<Rightarrow> remember_route \<Rightarrow> approval_pattern \<Rightarrow> string \<Rightarrow> grant_authority \<Rightarrow> grant_basis
    \<Rightarrow> grant_record" where
  "new_grant sha stamp projectId route p what authority basis =
     \<lparr>gr_grant = \<lparr>gt_id = CHR ''G'' # rs_new stamp, gt_projectId = projectId, gt_route = route, gt_pattern = p,
        gt_patternDigest = pattern_digest sha p, gt_what = what, gt_authority = authority, gt_basis = basis,
        gt_createdAt = rs_now stamp, gt_eventId = CHR ''E'' # rs_entry stamp\<rparr>,
      gr_generation = 0, gr_revokedAt = None, gr_revokedEventId = None\<rparr>"

definition add_grant ::
  "(string \<Rightarrow> string) \<Rightarrow> remember_stamp \<Rightarrow> remember_route \<Rightarrow> approval_pattern \<Rightarrow> string \<Rightarrow> grant_authority \<Rightarrow> grant_basis
    \<Rightarrow> string option \<Rightarrow> string option \<Rightarrow> approval_state \<Rightarrow> refusal + grant_record \<times> approval_state" where
  "add_grant sha stamp route p what authority basis taskId sessionId st =
     (if max_pattern_grants \<le> length (grants_of st)
      then Inl (ApiError 409 ''This project has reached its remembered approval limit.'' (Some ''remember_capacity''))
      else let r = new_grant sha stamp (pj_projectId st) route p what authority basis in
        Inr (r, set_ledger (\<lambda>l. l\<lparr>al_grants := al_grants l @ [r]\<rparr>)
          (push_entry (note_entry stamp ''remembered-approval-granted'' (granted_sentence route what) taskId sessionId None) st)))"

definition answer_offer :: "grant_record \<Rightarrow> remember_offer \<Rightarrow> remember_offer" where
  "answer_offer r f = f\<lparr>ro_state := OfferAccepted, ro_decidedAt := Some (gt_createdAt (gr_grant r)),
     ro_eventId := Some (gt_eventId (gr_grant r)), ro_grantId := Some (gt_id (gr_grant r))\<rparr>"

definition set_offers :: "(remember_offer list \<Rightarrow> remember_offer list) \<Rightarrow> approval_state \<Rightarrow> approval_state" where
  "set_offers f = set_ledger (\<lambda>l. l\<lparr>al_offers := f (al_offers l)\<rparr>)"

text \<open>An approval just given: a receipt of a person's go-ahead, on a step or on a proposal as the pattern says.\<close>

definition just_given :: "approval_need \<Rightarrow> approval_candidate \<Rightarrow> approval_receipt option" where
  "just_given need c = (case an_receipt need of None \<Rightarrow> None
     | Some r \<Rightarrow> if (ap_kind (cn_pattern c) = CodexProposal) = an_harness need \<or> rc_decision r \<noteq> GoAhead \<or> rc_actor r \<noteq> ''local-client''
         \<or> an_state need \<noteq> NeedGoAhead then None else Some r)"

definition remember_from_need ::
  "(string \<Rightarrow> string) \<Rightarrow> remember_stamp \<Rightarrow> approval_need \<Rightarrow> approval_candidate \<Rightarrow> approval_state \<Rightarrow> refusal + grant_record \<times> approval_state" where
  "remember_from_need sha stamp need c st =
     (case just_given need c of None \<Rightarrow> Inl (remember_refused ''Only an approval you just gave can be remembered.'')
      | Some receipt \<Rightarrow>
        (case classify_candidate (cn_pattern c) (cn_deletes c) of AlwaysAsks _ reason \<Rightarrow> Inl (always_asks reason)
         | Rememberable \<Rightarrow>
           let digest = pattern_digest sha (cn_pattern c) in
           case find (\<lambda>r. gb_needId (gt_basis (gr_grant r)) = Some (an_id need) \<and> gt_route (gr_grant r) = ApproveAndRemember) (grants_of st) of
             Some existing \<Rightarrow> Inr (existing, st)
           | None \<Rightarrow>
           (case active_grant st digest of Some live \<Rightarrow> Inr (live, st)
            | None \<Rightarrow>
              if remember_window_ms < rs_now stamp - rc_decidedAt receipt
              then Inl (remember_refused ''Remember an approval when you give it; this one was given too long ago.'')
              else case authority_of c of Inl e \<Rightarrow> Inl e
              | Inr authority \<Rightarrow>
                (let approvals = (case find (\<lambda>t. ta_patternDigest t = digest) (tallies_of st) of None \<Rightarrow> 1 | Some t \<Rightarrow> ta_approvals t) in
                 case add_grant sha stamp ApproveAndRemember (cn_pattern c) (cn_what c) authority
                     \<lparr>gb_needId = Some (an_id need), gb_offerId = None, gb_approvals = max 1 approvals\<rparr>
                     (Some (an_taskId need)) (Some (an_sessionId need)) st of
                   Inl e \<Rightarrow> Inl e
                 | Inr (r, st') \<Rightarrow> Inr (r, set_offers (map (\<lambda>f. if ro_patternDigest f = digest \<and> ro_state f = OfferOpen
                     then answer_offer r f else f)) st')))))"

definition offer_not_found :: refusal where
  "offer_not_found = ApiError 404 ''This offer was not found.'' None"

definition already_answered :: refusal where
  "already_answered = remember_refused ''This offer was already answered.''"

definition find_offer :: "string \<Rightarrow> approval_state \<Rightarrow> remember_offer option" where
  "find_offer offerId st = find (\<lambda>f. ro_id f = offerId) (offers_of st)"

definition find_grant :: "string \<Rightarrow> approval_state \<Rightarrow> grant_record option" where
  "find_grant grantId st = find (\<lambda>r. gt_id (gr_grant r) = grantId) (grants_of st)"

definition accepted_grant :: "remember_offer \<Rightarrow> approval_state \<Rightarrow> grant_record option" where
  "accepted_grant offer st = (case (ro_state offer, ro_grantId offer) of
     (OfferAccepted, Some grantId) \<Rightarrow> find_grant grantId st | _ \<Rightarrow> None)"

definition accept_offer :: "(string \<Rightarrow> string) \<Rightarrow> remember_stamp \<Rightarrow> string \<Rightarrow> approval_state \<Rightarrow> refusal + grant_record \<times> approval_state" where
  "accept_offer sha stamp offerId st =
     (case find_offer offerId st of None \<Rightarrow> Inl offer_not_found
      | Some offer \<Rightarrow>
        (case accepted_grant offer st of Some granted \<Rightarrow> Inr (granted, st)
         | None \<Rightarrow>
           if ro_state offer \<noteq> OfferOpen then Inl already_answered
           else case classify_candidate (ro_pattern offer) False of AlwaysAsks _ reason \<Rightarrow> Inl (always_asks reason)
           | Rememberable \<Rightarrow>
             (case (case active_grant st (ro_patternDigest offer) of Some live \<Rightarrow> Inr (live, st)
                 | None \<Rightarrow> add_grant sha stamp LearnedOffer (ro_pattern offer) (ro_what offer) (ro_authority offer)
                     \<lparr>gb_needId = Some (ro_needId offer), gb_offerId = Some (ro_id offer), gb_approvals = ro_approvals offer\<rparr>
                     (Some (ro_taskId offer)) (Some (ro_sessionId offer)) st) of
                Inl e \<Rightarrow> Inl e
              | Inr (r, st') \<Rightarrow> Inr (r, set_offers (update_first (\<lambda>f. ro_id f = offerId) (answer_offer r)) st'))))"

definition decline_sentence :: "string \<Rightarrow> string" where
  "decline_sentence what = ''You chose to keep being asked: '' @ quoted what @ ''. This offer will not come back.''"

definition decline_offer :: "remember_stamp \<Rightarrow> string \<Rightarrow> approval_state \<Rightarrow> refusal + remember_offer \<times> approval_state" where
  "decline_offer stamp offerId st =
     (case find_offer offerId st of None \<Rightarrow> Inl offer_not_found
      | Some offer \<Rightarrow>
          if ro_state offer = OfferDeclined then Inr (offer, st)
          else if ro_state offer \<noteq> OfferOpen then Inl already_answered
          else let entry = note_entry stamp ''remembered-approval-declined'' (decline_sentence (ro_what offer))
                 (Some (ro_taskId offer)) (Some (ro_sessionId offer)) None;
               answer = (\<lambda>f. f\<lparr>ro_state := OfferDeclined, ro_decidedAt := Some (rs_now stamp), ro_eventId := Some (ae_id entry)\<rparr>) in
            Inr (answer offer, set_offers (update_first (\<lambda>f. ro_id f = offerId) answer) (push_entry entry st)))"

definition revoke_sentence :: "string \<Rightarrow> string" where
  "revoke_sentence what = ''You revoked the remembered approval for '' @ quoted what @ ''. '' @ agent_name @ '' asks each time from now on.''"

definition revoke_grant :: "remember_stamp \<Rightarrow> string \<Rightarrow> approval_state \<Rightarrow> refusal + grant_record \<times> approval_state" where
  "revoke_grant stamp grantId st =
     (case find_grant grantId st of None \<Rightarrow> Inl (ApiError 404 ''This remembered approval was not found.'' None)
      | Some r \<Rightarrow>
          if gr_revokedAt r \<noteq> None then Inr (r, st)
          else let entry = note_entry stamp ''remembered-approval-revoked'' (revoke_sentence (gt_what (gr_grant r))) None None None;
               revoke = (\<lambda>r. r\<lparr>gr_revokedAt := Some (rs_now stamp), gr_generation := gr_generation r + 1,
                 gr_revokedEventId := Some (ae_id entry)\<rparr>) in
            Inr (revoke r, set_ledger (\<lambda>l. l\<lparr>al_grants := update_first (\<lambda>r. gt_id (gr_grant r) = grantId) revoke (al_grants l)\<rparr>)
              (push_entry entry st)))"

end
