(* ===== verification/Approval_Checks.thy ===== *)
theory Approval_Checks
  imports Approval_Ledger
begin

text \<open>
  The checks of remembered approvals: file names inside a project (\<open>server/paths.ts\<close>), the saved ledger at load, the evidence on a
  request before a write, and what recovery carries over. \<open>on_f\<close> tells whether the server's working directory is on drive F of a
  Windows machine, the only fact about the machine the name check reads.
\<close>

section \<open>File names\<close>

definition blocked_folders :: "string list" where
  "blocked_folders = [''.git'', ''node_modules'', ''.codex'', ''.claude'', ''.ssh'', ''.aws'', ''.azure'', ''.docker'', ''.gnupg'',
    ''.kube'', ''.config'', ''.omp'', ''connection-secrets'', ''memories'']"

definition private_names :: "string list" where
  "private_names = [''auth.json'', ''.credentials.json'', ''credentials.json'', ''.env'', ''.netrc'', ''.npmrc'', ''.pypirc'',
    ''.git-credentials'', ''service-account.json'', ''team-secrets.json'', ''diomedes-native-auth.json'', ''soul.md'', ''id_rsa'',
    ''id_ed25519'', ''id_ecdsa'']"

definition private_suffixes :: "string list" where
  "private_suffixes = [''.pem'', ''.key'', ''.p12'', ''.pfx'', ''.jks'', ''.keystore'']"

text \<open>One to eight characters before the first dot, without white space, that end in a tilde and one to four digits.\<close>

definition plausible_dosShortName :: "string \<Rightarrow> bool" where
  "plausible_dosShortName part = (let name = takeWhile (\<lambda>c. c \<noteq> CHR ''.'') part;
     digits = takeWhile is_digit (rev name); before = dropWhile is_digit (rev name) in
     name \<noteq> [] \<and> utf16_units name \<le> 8 \<and> 1 \<le> length digits \<and> length digits \<le> 4
     \<and> (case before of [] \<Rightarrow> False | c # rest \<Rightarrow> c = CHR ''~'' \<and> \<not> list_ex is_space rest))"

definition forbidden_part :: "string \<Rightarrow> bool" where
  "forbidden_part part \<longleftrightarrow> (let p = lower_name part in
     p \<in> set blocked_folders \<or> p \<in> set private_names \<or> starts_with ''.env.'' p \<or> starts_with ''team-secrets.json.'' p
     \<or> starts_with ''diomedes-native-auth.json.'' p \<or> list_ex (\<lambda>s. ends_with s p) private_suffixes \<or> plausible_dosShortName p)"

definition reserved_name :: "string \<Rightarrow> bool" where
  "reserved_name part \<longleftrightarrow> (let p = takeWhile (\<lambda>c. c \<noteq> CHR ''.'') (to_lower part) in
     p \<in> set [''con'', ''prn'', ''aux'', ''nul''] \<or> (length p = 4 \<and> (take 3 p = ''com'' \<or> take 3 p = ''lpt'') \<and> is_digit (last p)))"

definition unusable_part :: "string \<Rightarrow> bool" where
  "unusable_part part \<longleftrightarrow> part = [] \<or> part = ''.'' \<or> part = ''..''
     \<or> list_ex (\<lambda>c. c \<in> {CHR '':'', CHR ''<'', CHR ''>'', CHR 0x22, CHR ''|'', CHR ''?'', CHR ''*''}) part
     \<or> last part = CHR ''.'' \<or> last part = CHR '' '' \<or> reserved_name part"

fun slash_join :: "string list \<Rightarrow> string" where
  "slash_join [] = []"
| "slash_join [p] = p"
| "slash_join (p # ps) = p @ CHR ''/'' # slash_join ps"

text \<open>An absolute path has an empty first part or a drive letter, so it is refused with the others.\<close>

definition relative_name :: "bool \<Rightarrow> string \<Rightarrow> string option" where
  "relative_name on_f v =
     (let pieces = split_on (CHR ''/'') (map (\<lambda>c. if (of_char c :: nat) = 92 then CHR ''/'' else c) v) in
      if js_trim v = [] \<or> list_ex (\<lambda>c. (of_char c :: nat) = 0) v then None
      else if list_ex unusable_part pieces then None
      else if list_ex forbidden_part pieces \<or> (on_f \<and> to_lower (hd pieces) = ''localai'') then None
      else Some (slash_join pieces))"

section \<open>Saved rows\<close>

definition text_fits :: "nat \<Rightarrow> string \<Rightarrow> bool" where
  "text_fits n t \<longleftrightarrow> 1 \<le> utf16_units t \<and> utf16_units t \<le> n"

definition opt_fits :: "nat \<Rightarrow> string option \<Rightarrow> bool" where
  "opt_fits n v \<longleftrightarrow> (case v of None \<Rightarrow> True | Some t \<Rightarrow> text_fits n t)"

definition is_hex_digit :: "char \<Rightarrow> bool" where
  "is_hex_digit c \<longleftrightarrow> is_digit c \<or> c \<in> set ''abcdef''"

definition is_sha :: "string \<Rightarrow> bool" where
  "is_sha t \<longleftrightarrow> length t = 64 \<and> list_all is_hex_digit t"

definition is_digest :: "string \<Rightarrow> bool" where
  "is_digest t \<longleftrightarrow> starts_with ''sha256:'' t \<and> is_sha (drop 7 t)"

definition count_fits :: "int \<Rightarrow> int \<Rightarrow> bool" where
  "count_fits low n \<longleftrightarrow> low \<le> n \<and> n \<le> 1000000"

definition pattern_fits :: "approval_pattern \<Rightarrow> bool" where
  "pattern_fits p \<longleftrightarrow> text_fits 100 (ap_projectId p) \<and> text_fits 120 (ap_procedure p) \<and> text_fits 120 (ap_tool p)
     \<and> text_fits 120 (pa_permission (ap_action p)) \<and> list_all (text_fits 1000) (pd_targets (ap_destination p))
     \<and> 1 \<le> length (pd_targets (ap_destination p)) \<and> length (pd_targets (ap_destination p)) \<le> 32
     \<and> text_fits 120 (pc_engine (ap_connection p)) \<and> opt_fits 120 (pc_accountRoute (ap_connection p))"

definition authority_fits :: "grant_authority \<Rightarrow> bool" where
  "authority_fits a \<longleftrightarrow> text_fits 200 (ga_principalId a) \<and> 0 \<le> ga_identityGeneration a \<and> text_fits 120 (ga_permission a)"

definition grant_fits :: "pattern_grant \<Rightarrow> bool" where
  "grant_fits g \<longleftrightarrow> text_fits 100 (gt_id g) \<and> text_fits 100 (gt_projectId g) \<and> pattern_fits (gt_pattern g)
     \<and> is_digest (gt_patternDigest g) \<and> text_fits 2000 (gt_what g) \<and> authority_fits (gt_authority g)
     \<and> opt_fits 100 (gb_needId (gt_basis g)) \<and> opt_fits 100 (gb_offerId (gt_basis g)) \<and> count_fits 1 (gb_approvals (gt_basis g))
     \<and> text_fits 100 (gt_eventId g)"

definition record_fits :: "grant_record \<Rightarrow> bool" where
  "record_fits r \<longleftrightarrow> grant_fits (gr_grant r) \<and> count_fits 0 (gr_generation r) \<and> opt_fits 100 (gr_revokedEventId r)"

definition tally_fits :: "approval_tally \<Rightarrow> bool" where
  "tally_fits t \<longleftrightarrow> is_digest (ta_patternDigest t) \<and> count_fits 0 (ta_approvals t)"

definition offer_fits :: "remember_offer \<Rightarrow> bool" where
  "offer_fits f \<longleftrightarrow> text_fits 100 (ro_id f) \<and> is_digest (ro_patternDigest f) \<and> pattern_fits (ro_pattern f) \<and> text_fits 2000 (ro_what f)
     \<and> authority_fits (ro_authority f) \<and> count_fits 1 (ro_approvals f) \<and> text_fits 100 (ro_needId f) \<and> text_fits 100 (ro_sessionId f)
     \<and> text_fits 100 (ro_taskId f) \<and> opt_fits 100 (ro_eventId f) \<and> opt_fits 100 (ro_grantId f)"

definition ledger_fits :: "approval_ledger \<Rightarrow> bool" where
  "ledger_fits l \<longleftrightarrow> list_all record_fits (al_grants l) \<and> length (al_grants l) \<le> max_pattern_grants
     \<and> list_all tally_fits (al_tallies l) \<and> length (al_tallies l) \<le> max_approval_tallies
     \<and> list_all offer_fits (al_offers l) \<and> length (al_offers l) \<le> max_remember_offers"

section \<open>The saved ledger\<close>

text \<open>\<open>new Map(history)\<close> keeps the last entry of an id.\<close>

definition entry_of :: "string \<Rightarrow> approval_entry list \<Rightarrow> approval_entry option" where
  "entry_of i h = find (\<lambda>e. ae_id e = i) (rev h)"

definition grant_consistent :: "(string \<Rightarrow> string) \<Rightarrow> approval_state \<Rightarrow> grant_record \<Rightarrow> bool" where
  "grant_consistent sha st r \<longleftrightarrow> (let g = gr_grant r; revoked = (gr_revokedAt r \<noteq> None) in
     gt_projectId g = pj_projectId st \<and> ap_projectId (gt_pattern g) = pj_projectId st
     \<and> pattern_digest sha (gt_pattern g) = gt_patternDigest g
     \<and> classify_candidate (gt_pattern g) False = Rememberable
     \<and> ga_permission (gt_authority g) = pa_permission (ap_action (gt_pattern g))
     \<and> (gt_route g = LearnedOffer \<longleftrightarrow> gb_offerId (gt_basis g) \<noteq> None)
     \<and> (gt_route g = ApproveAndRemember \<longrightarrow> gb_needId (gt_basis g) \<noteq> None)
     \<and> (gr_generation r = 0 \<longleftrightarrow> \<not> revoked) \<and> (revoked \<longleftrightarrow> gr_revokedEventId r \<noteq> None)
     \<and> (case gr_revokedAt r of None \<Rightarrow> True | Some t \<Rightarrow> gt_createdAt g \<le> t)
     \<and> (case entry_of (gt_eventId g) (pj_history st) of None \<Rightarrow> False
        | Some e \<Rightarrow> ae_kind e = ''remembered-approval-granted'' \<and> ae_time e = gt_createdAt g)
     \<and> (case gr_revokedEventId r of None \<Rightarrow> True
        | Some i \<Rightarrow> (case entry_of i (pj_history st) of None \<Rightarrow> False | Some e \<Rightarrow> ae_kind e = ''remembered-approval-revoked'')))"

definition offer_consistent :: "(string \<Rightarrow> string) \<Rightarrow> approval_state \<Rightarrow> remember_offer \<Rightarrow> bool" where
  "offer_consistent sha st f \<longleftrightarrow> ap_projectId (ro_pattern f) = pj_projectId st \<and> pattern_digest sha (ro_pattern f) = ro_patternDigest f
     \<and> (ro_state f = OfferOpen \<longleftrightarrow> ro_decidedAt f = None) \<and> (ro_state f = OfferOpen \<longleftrightarrow> ro_eventId f = None)
     \<and> (ro_state f = OfferAccepted \<longleftrightarrow> ro_grantId f \<noteq> None)
     \<and> (case ro_grantId f of None \<Rightarrow> True | Some i \<Rightarrow> i \<in> set (map (\<lambda>r. gt_id (gr_grant r)) (grants_of st)))"

definition ledger_consistent :: "(string \<Rightarrow> string) \<Rightarrow> approval_state \<Rightarrow> bool" where
  "ledger_consistent sha st \<longleftrightarrow> distinct (map (\<lambda>r. gt_id (gr_grant r)) (grants_of st))
     \<and> list_all (grant_consistent sha st) (grants_of st)
     \<and> distinct (map (\<lambda>r. gt_patternDigest (gr_grant r)) (filter (\<lambda>r. gr_revokedAt r = None) (grants_of st)))
     \<and> distinct (map ro_id (offers_of st))
     \<and> set (map ro_id (offers_of st)) \<inter> set (map (\<lambda>r. gt_id (gr_grant r)) (grants_of st)) = {}
     \<and> list_all (offer_consistent sha st) (offers_of st)
     \<and> distinct (map ro_patternDigest (offers_of st))
     \<and> distinct (map ta_patternDigest (tallies_of st))"

text \<open>\<open>validateRememberedApprovals\<close>: a project that does not pass is not loaded.\<close>

definition valid_ledger :: "(string \<Rightarrow> string) \<Rightarrow> approval_state \<Rightarrow> bool" where
  "valid_ledger sha st \<longleftrightarrow> pj_ledger st = None \<or> ledger_fits (ledger_of st) \<and> ledger_consistent sha st"

section \<open>The evidence on a request\<close>

definition evidence_fits :: "remembered_authorization \<Rightarrow> bool" where
  "evidence_fits z \<longleftrightarrow> text_fits 100 (rz_id z) \<and> text_fits 100 (rz_grantId z) \<and> is_digest (rz_grantDigest z) \<and> rz_grantGeneration z = 0
     \<and> is_digest (rz_patternDigest z) \<and> text_fits 100 (rz_projectId z) \<and> text_fits 100 (rz_taskId z) \<and> text_fits 100 (rz_sessionId z)
     \<and> text_fits 100 (rz_approvalId z) \<and> is_digest (rz_proposalDigest z) \<and> (is_digest (rz_actionDigest z) \<or> is_sha (rz_actionDigest z))
     \<and> is_digest (rz_baseDigest z) \<and> text_fits 120 (rz_engine z) \<and> opt_fits 120 (rz_accountRoute z) \<and> text_fits 100 (rz_eventId z)"

definition execution_fits :: "approval_execution \<Rightarrow> bool" where
  "execution_fits x \<longleftrightarrow> ex_state x \<noteq> ExecDeclined \<and> opt_fits 100 (ex_eventId x) \<and> list_all (text_fits 1000) (ex_conflicts x)
     \<and> length (ex_conflicts x) \<le> 8"

definition writes_value :: "history_file list \<Rightarrow> jval" where
  "writes_value files = JObj [(''type'', JStr ''text.apply''), (''writes'', JArr (map (\<lambda>f. JObj
     [(''path'', JStr (hf_path f)), (''before'', or_null (hf_before f)), (''after'', or_null (hf_after f))]) files))]"

definition proposal_still :: "(string \<Rightarrow> string) \<Rightarrow> approval_state \<Rightarrow> approval_need \<Rightarrow> approval_session option \<Rightarrow> remembered_authorization
    \<Rightarrow> grant_record \<Rightarrow> bool" where
  "proposal_still sha st need session z r \<longleftrightarrow>
     (case an_connection need of None \<Rightarrow> False | Some (engine, accountRoute) \<Rightarrow> engine = rz_engine z \<and> Some accountRoute = rz_accountRoute z)
     \<and> (case session of None \<Rightarrow> False | Some s \<Rightarrow> av_route s = Some ''codex'' \<and> \<not> av_slotted s)
     \<and> map_option (\<lambda>(p, deletes, what). pattern_digest sha p) (pattern_for_proposal (pj_projectId st) need)
         = Some (gt_patternDigest (gr_grant r))"

definition evidence_matches ::
  "(string \<Rightarrow> string) \<Rightarrow> approval_state \<Rightarrow> approval_need \<Rightarrow> remembered_authorization \<Rightarrow> grant_record \<Rightarrow> bool" where
  "evidence_matches sha st need z r \<longleftrightarrow> (let g = gr_grant r;
      session = find (\<lambda>s. av_id s = an_sessionId need) (pj_sessions st);
      proposal = (ap_kind (gt_pattern g) = CodexProposal) in
     (proposal \<noteq> an_harness need) \<and> (proposal \<longrightarrow> proposal_still sha st need session z r)
     \<and> an_receipt need = None \<and> \<not> an_allowForTask need \<and> \<not> an_reviewed need
     \<and> (case an_execution need of None \<Rightarrow> False | Some x \<Rightarrow> execution_fits x)
     \<and> rz_grantDigest z = grant_digest sha r \<and> rz_patternDigest z = gt_patternDigest g \<and> rz_projectId z = pj_projectId st
     \<and> rz_taskId z = an_taskId need \<and> rz_sessionId z = an_sessionId need \<and> rz_approvalId z = an_id need
     \<and> rz_engine z = pc_engine (ap_connection (gt_pattern g)) \<and> rz_accountRoute z = pc_accountRoute (ap_connection (gt_pattern g))
     \<and> rz_acceptedAt z = gt_createdAt g \<and> rz_route z = gt_route g
     \<and> (case session of None \<Rightarrow> False | Some s \<Rightarrow> av_taskId s = an_taskId need \<and> \<not> av_sample s)
     \<and> an_state need = NeedGoAhead \<and> an_decidedAt need = Some (rz_authorizedAt z)
     \<and> gt_createdAt g \<le> rz_authorizedAt z
     \<and> (case gr_revokedAt r of None \<Rightarrow> True | Some t \<Rightarrow> rz_authorizedAt z \<le> t)
     \<and> (case find (\<lambda>e. ae_id e = rz_eventId z) (pj_history st) of None \<Rightarrow> False
        | Some e \<Rightarrow> ae_kind e = ''remembered-authorized'' \<and> ae_approvalId e = Some (an_id need) \<and> ae_time e = rz_authorizedAt z
            \<and> ae_authorization e = Some z)
     \<and> (case an_approval need of None \<Rightarrow> False
        | Some i \<Rightarrow> rz_proposalDigest z = ai_proposalDigest i \<and> rz_actionDigest z = ai_actionDigest i \<and> rz_baseDigest z = ai_baseDigest i))"

definition execution_matches ::
  "(string \<Rightarrow> string) \<Rightarrow> approval_state \<Rightarrow> approval_need \<Rightarrow> remembered_authorization \<Rightarrow> bool \<Rightarrow> approval_execution \<Rightarrow> bool" where
  "execution_matches sha st need z proposal x \<longleftrightarrow> (ex_state x = ExecPending \<longleftrightarrow> ex_completedAt x = None)
     \<and> ((ex_state x = ExecApplied \<or> ex_state x = ExecConflicted) \<longleftrightarrow> ex_eventId x \<noteq> None)
     \<and> (case ex_eventId x of None \<Rightarrow> True
        | Some i \<Rightarrow> (case find (\<lambda>e. ae_id e = i) (pj_history st) of None \<Rightarrow> False
          | Some e \<Rightarrow> ae_approvalId e = Some (an_id need) \<and> ae_authorization e = Some z
              \<and> (proposal \<longrightarrow> payload_digest sha (writes_value (ae_files e)) = rz_actionDigest z)))"

definition valid_authorization :: "(string \<Rightarrow> string) \<Rightarrow> approval_state \<Rightarrow> approval_need \<Rightarrow> bool" where
  "valid_authorization sha st need \<longleftrightarrow>
     (case an_authorization need of Some (Remembered z) \<Rightarrow>
        evidence_fits z \<and> (case find_grant (rz_grantId z) st of None \<Rightarrow> False
          | Some r \<Rightarrow> record_fits r \<and> evidence_matches sha st need z r
              \<and> (case an_execution need of None \<Rightarrow> False
                 | Some x \<Rightarrow> execution_matches sha st need z (ap_kind (gt_pattern (gr_grant r)) = CodexProposal) x))
      | _ \<Rightarrow> False)"

section \<open>Before a write\<close>

record write_input =
  wi_path :: string
  wi_text :: "string option"

definition inconsistent :: refusal where
  "inconsistent = OtherError ''A saved remembered authorization is inconsistent. No write was dispatched.''"

text \<open>The files a grant names, each by its checked name; a name the check refuses is \<open>None\<close>, as in the code's \<open>named\<close>.\<close>

definition granted_files :: "bool \<Rightarrow> approval_pattern \<Rightarrow> string option list" where
  "granted_files on_f p = map (\<lambda>t. relative_name on_f (drop 5 t)) (filter (starts_with ''file:'') (pd_targets (ap_destination p)))"

definition write_covered :: "bool \<Rightarrow> approval_pattern \<Rightarrow> write_input \<Rightarrow> bool" where
  "write_covered on_f p w \<longleftrightarrow> wi_text w \<noteq> None \<and> relative_name on_f (wi_path w) \<in> set (granted_files on_f p)"

definition assert_current ::
  "(string \<Rightarrow> string) \<Rightarrow> bool \<Rightarrow> approval_need \<Rightarrow> write_input list option \<Rightarrow> approval_state \<Rightarrow> refusal + unit" where
  "assert_current sha on_f need writes st =
     (if \<not> valid_authorization sha st need then Inl inconsistent
      else case an_authorization need of Some (Remembered z) \<Rightarrow>
        (case find_grant (rz_grantId z) st of
           None \<Rightarrow> Inl (not_covered ''This remembered approval was revoked before the write.'')
         | Some r \<Rightarrow>
             if gr_generation r \<noteq> rz_grantGeneration z \<or> gr_revokedAt r \<noteq> None
             then Inl (not_covered ''This remembered approval was revoked before the write.'')
             else case writes of None \<Rightarrow> Inr ()
               | Some ws \<Rightarrow>
                 if pd_kind (ap_destination (gt_pattern (gr_grant r))) \<noteq> LocalPlace
                   \<or> \<not> list_all (write_covered on_f (gt_pattern (gr_grant r))) ws
                 then Inl (not_covered ''This write is outside what the remembered approval covers.'') else Inr ())
      | _ \<Rightarrow> Inl inconsistent)"

section \<open>Recovery\<close>

definition carry_event :: "approval_entry list \<Rightarrow> string option \<Rightarrow> approval_entry list \<Rightarrow> approval_entry list" where
  "carry_event current eventId prepared =
     (case eventId of None \<Rightarrow> prepared
      | Some i \<Rightarrow> if i = [] \<or> list_ex (\<lambda>e. ae_id e = i) prepared then prepared
          else (case find (\<lambda>e. ae_id e = i) current of None \<Rightarrow> prepared | Some e \<Rightarrow> prepared @ [e]))"

definition carry_grant :: "grant_record list \<Rightarrow> grant_record \<Rightarrow> grant_record \<times> string option" where
  "carry_grant latest r = (case find (\<lambda>x. gt_id (gr_grant x) = gt_id (gr_grant r)) latest of
     Some x \<Rightarrow> if gr_generation r < gr_generation x
       then (r\<lparr>gr_generation := gr_generation x, gr_revokedAt := gr_revokedAt x, gr_revokedEventId := gr_revokedEventId x\<rparr>, gr_revokedEventId x)
       else (r, None)
   | None \<Rightarrow> (r, None))"

definition carry_offer :: "remember_offer list \<Rightarrow> remember_offer \<Rightarrow> remember_offer \<times> string option" where
  "carry_offer latest f = (case find (\<lambda>x. ro_id x = ro_id f) latest of
     Some x \<Rightarrow> if ro_state f = OfferOpen \<and> ro_state x = OfferDeclined
       then (f\<lparr>ro_state := ro_state x, ro_decidedAt := ro_decidedAt x, ro_eventId := ro_eventId x\<rparr>, ro_eventId x) else (f, None)
   | None \<Rightarrow> (f, None))"

definition carry_remembered :: "approval_state \<Rightarrow> approval_state \<Rightarrow> approval_state" where
  "carry_remembered prepared current =
     (case (pj_ledger current, pj_ledger prepared) of
        (Some now, Some saved) \<Rightarrow>
          (let grants = map (carry_grant (al_grants now)) (al_grants saved); offers = map (carry_offer (al_offers now)) (al_offers saved) in
           prepared\<lparr>pj_ledger := Some (saved\<lparr>al_grants := map fst grants, al_offers := map fst offers\<rparr>),
             pj_history := fold (carry_event (pj_history current)) (map snd grants @ map snd offers) (pj_history prepared)\<rparr>)
      | _ \<Rightarrow> prepared)"

end
