(* ===== verification/Approval_Guarantees.thy ===== *)
theory Approval_Guarantees
  imports Approval_Checks Sorting
begin

text \<open>
  What holds of remembered approvals in every state their calls lead to: the rules the saved ledger is checked by at load, and
  what each call leaves alone. The calls are a datatype and \<open>remembering\<close> the states they reach, with other work on the project
  between them.
\<close>

section \<open>Lists\<close>

lemma update_first_map:
  "distinct (map k xs) \<Longrightarrow> update_first (\<lambda>x. k x = i) f xs = map (\<lambda>x. if k x = i then f x else x) xs"
proof (induction xs)
  case (Cons x xs)
  have "map (\<lambda>x. if k x = k y then f x else x) xs = xs" if "k y \<notin> k ` set xs" for y
    using that by (intro map_idI) (metis image_eqI)
  with Cons show ?case by auto
qed simp

lemma distinct_map_filter_subset:
  assumes "distinct (map k (filter P xs))" and "\<And>x. x \<in> set xs \<Longrightarrow> Q x \<Longrightarrow> P x"
  shows "distinct (map k (filter Q xs))"
proof -
  have "filter Q xs = filter Q (filter P xs)" using assms(2) by (induction xs) auto
  with assms(1) show ?thesis by (metis distinct_map_filter)
qed

lemma distinct_map_filter_map:
  assumes "distinct (map k (filter P xs))" and "\<And>x. x \<in> set xs \<Longrightarrow> P (f x) \<Longrightarrow> P x" and "\<And>x. k (f x) = k x"
  shows "distinct (map k (filter P (map f xs)))"
proof -
  have "map k (filter P (map f xs)) = map k (filter (P \<circ> f) xs)" using assms(3) by (simp add: filter_map comp_def)
  moreover have "distinct (map k (filter (P \<circ> f) xs))" using assms(2) by (intro distinct_map_filter_subset [OF assms(1)]) simp
  ultimately show ?thesis by simp
qed

section \<open>Reading the state\<close>

lemma ledger_of_set [simp]: "ledger_of (set_ledger f st) = f (ledger_of st)"
  by (simp add: ledger_of_def set_ledger_def)

lemma set_ledger_keeps [simp]:
  "pj_projectId (set_ledger f st) = pj_projectId st" "pj_history (set_ledger f st) = pj_history st"
  "pj_needs (set_ledger f st) = pj_needs st" "pj_sessions (set_ledger f st) = pj_sessions st"
  by (simp_all add: set_ledger_def)

lemma push_entry_keeps [simp]:
  "pj_projectId (push_entry e st) = pj_projectId st" "pj_history (push_entry e st) = pj_history st @ [e]"
  "ledger_of (push_entry e st) = ledger_of st" "pj_ledger (push_entry e st) = pj_ledger st"
  "pj_needs (push_entry e st) = pj_needs st" "pj_sessions (push_entry e st) = pj_sessions st"
  by (simp_all add: push_entry_def ledger_of_def)

lemma put_need_keeps [simp]:
  "pj_projectId (put_need n st) = pj_projectId st" "pj_history (put_need n st) = pj_history st"
  "ledger_of (put_need n st) = ledger_of st" "pj_ledger (put_need n st) = pj_ledger st" "pj_sessions (put_need n st) = pj_sessions st"
  by (simp_all add: put_need_def ledger_of_def)

lemma entry_of_snoc [simp]: "entry_of i (h @ [e]) = (if ae_id e = i then Some e else entry_of i h)"
  by (simp add: entry_of_def)

lemma entry_of_Some: "entry_of i h = Some e \<Longrightarrow> e \<in> set h \<and> ae_id e = i"
  by (auto simp: entry_of_def dest: find_Some_in_set)

lemma note_entry_sel [simp]:
  "ae_id (note_entry s k t a b c) = CHR ''E'' # rs_entry s" "ae_time (note_entry s k t a b c) = rs_now s"
  "ae_kind (note_entry s k t a b c) = k" "ae_approvalId (note_entry s k t a b c) = c"
  by (simp_all add: note_entry_def)

section \<open>Calls\<close>

datatype remember_call =
    CallNote approval_need approval_candidate approval_decision
  | CallRemember approval_need approval_candidate
  | CallAccept string
  | CallDecline string
  | CallRevoke string
  | CallCover approval_need approval_candidate

text \<open>The state a call leaves: \<open>Store.locked\<close> reads the saved one back after a refusal.\<close>

definition state_after :: "approval_state \<Rightarrow> refusal + 'a \<times> approval_state \<Rightarrow> approval_state" where
  "state_after st answer = (case answer of Inl _ \<Rightarrow> st | Inr (_, st') \<Rightarrow> st')"

lemma state_after_simps [simp]: "state_after st (Inl e) = st" "state_after st (Inr (a, st')) = st'"
  by (simp_all add: state_after_def)

fun remember_step ::
  "(string \<Rightarrow> string) \<Rightarrow> int \<Rightarrow> (int \<Rightarrow> string) \<Rightarrow> remember_stamp \<Rightarrow> remember_call \<Rightarrow> approval_state \<Rightarrow> approval_state" where
  "remember_step sha threshold day_text stamp (CallNote need c decision) st = state_after st (note_decision sha threshold stamp c decision need st)"
| "remember_step sha threshold day_text stamp (CallRemember need c) st = state_after st (remember_from_need sha stamp need c st)"
| "remember_step sha threshold day_text stamp (CallAccept i) st = state_after st (accept_offer sha stamp i st)"
| "remember_step sha threshold day_text stamp (CallDecline i) st = state_after st (decline_offer stamp i st)"
| "remember_step sha threshold day_text stamp (CallRevoke i) st = state_after st (revoke_grant stamp i st)"
| "remember_step sha threshold day_text stamp (CallCover need c) st = snd (snd (cover sha day_text stamp need c st))"

text \<open>Identifiers are new: no entry, grant or offer has the one a call is given.\<close>

definition fresh_stamp :: "remember_stamp \<Rightarrow> approval_state \<Rightarrow> bool" where
  "fresh_stamp stamp st \<longleftrightarrow> CHR ''E'' # rs_entry stamp \<notin> ae_id ` set (pj_history st)
     \<and> CHR ''G'' # rs_new stamp \<notin> (\<lambda>r. gt_id (gr_grant r)) ` set (grants_of st) \<and> CHR ''O'' # rs_new stamp \<notin> ro_id ` set (offers_of st)"

text \<open>The callers build a candidate from the project it is decided in.\<close>

fun call_project :: "string \<Rightarrow> remember_call \<Rightarrow> bool" where
  "call_project project (CallNote need c decision) \<longleftrightarrow> ap_projectId (cn_pattern c) = project"
| "call_project project (CallRemember need c) \<longleftrightarrow> ap_projectId (cn_pattern c) = project"
| "call_project project (CallCover need c) \<longleftrightarrow> ap_projectId (cn_pattern c) = project"
| "call_project project _ \<longleftrightarrow> True"

text \<open>Other work on the project leaves the ledger alone and adds entries of its own to the history.\<close>

definition other_entries :: "approval_state \<Rightarrow> approval_state \<Rightarrow> bool" where
  "other_entries st st' \<longleftrightarrow> pj_projectId st' = pj_projectId st \<and> pj_ledger st' = pj_ledger st
     \<and> (\<exists>es. pj_history st' = pj_history st @ es \<and> ae_id ` set es \<inter> ae_id ` set (pj_history st) = {} \<and> distinct (map ae_id es))"

text \<open>
  The states reached by calls that \<open>allowed\<close> lets through, with the latest reading of the clock. Each call's reading is no earlier
  than the one before and its new ids are fresh: the code takes them from its clock and from random bytes, and a clock that is set
  back leaves these states (\<open>early_revocation_does_not_load\<close> shows one that no longer loads).
\<close>

inductive remembering ::
  "(remember_stamp \<Rightarrow> remember_call \<Rightarrow> approval_state \<Rightarrow> bool) \<Rightarrow> (string \<Rightarrow> string) \<Rightarrow> int \<Rightarrow> (int \<Rightarrow> string) \<Rightarrow> int \<Rightarrow> approval_state \<Rightarrow> bool"
  for allowed sha threshold day_text where
  unused: "pj_ledger st = None \<Longrightarrow> distinct (map ae_id (pj_history st)) \<Longrightarrow> remembering allowed sha threshold day_text clock st"
| called: "remembering allowed sha threshold day_text clock st \<Longrightarrow> clock \<le> rs_now stamp \<Longrightarrow> fresh_stamp stamp st
    \<Longrightarrow> call_project (pj_projectId st) call \<Longrightarrow> allowed stamp call st
    \<Longrightarrow> remembering allowed sha threshold day_text (rs_now stamp) (remember_step sha threshold day_text stamp call st)"
| worked: "remembering allowed sha threshold day_text clock st \<Longrightarrow> other_entries st st' \<Longrightarrow> remembering allowed sha threshold day_text clock st'"

section \<open>The rules\<close>

abbreviation "grant_ids st \<equiv> map (\<lambda>r. gt_id (gr_grant r)) (grants_of st)"

definition offers_ok :: "approval_state \<Rightarrow> bool" where
  "offers_ok st \<longleftrightarrow> (\<forall>f \<in> set (offers_of st). ga_permission (ro_authority f) = pa_permission (ap_action (ro_pattern f))
     \<and> hd (ro_id f) = CHR ''O'')"

definition grants_dated :: "int \<Rightarrow> approval_state \<Rightarrow> bool" where
  "grants_dated clock st \<longleftrightarrow> (\<forall>r \<in> set (grants_of st). gt_createdAt (gr_grant r) \<le> clock \<and> hd (gt_id (gr_grant r)) = CHR ''G'')"

definition sizes_ok :: "approval_state \<Rightarrow> bool" where
  "sizes_ok st \<longleftrightarrow> length (grants_of st) \<le> max_pattern_grants \<and> length (offers_of st) \<le> max_remember_offers
     \<and> length (tallies_of st) \<le> max_approval_tallies"

definition approvals_ok :: "(string \<Rightarrow> string) \<Rightarrow> int \<Rightarrow> approval_state \<Rightarrow> bool" where
  "approvals_ok sha clock st \<longleftrightarrow> ledger_consistent sha st \<and> distinct (map ae_id (pj_history st)) \<and> offers_ok st \<and> grants_dated clock st
     \<and> sizes_ok st"

lemma approvals_okD:
  assumes "approvals_ok sha clock st"
  shows "distinct (grant_ids st)" "\<And>r. r \<in> set (grants_of st) \<Longrightarrow> grant_consistent sha st r"
    "distinct (map (\<lambda>r. gt_patternDigest (gr_grant r)) (filter (\<lambda>r. gr_revokedAt r = None) (grants_of st)))"
    "distinct (map ro_id (offers_of st))" "\<And>f. f \<in> set (offers_of st) \<Longrightarrow> offer_consistent sha st f"
    "distinct (map ro_patternDigest (offers_of st))" "distinct (map ta_patternDigest (tallies_of st))"
    "distinct (map ae_id (pj_history st))" "offers_ok st" "grants_dated clock st" "sizes_ok st"
  using assms by (simp_all add: approvals_ok_def ledger_consistent_def list_all_iff)

text \<open>A state whose ledger and project are the same and whose history has more entries keeps the rules.\<close>

definition keeps_entries :: "approval_state \<Rightarrow> approval_state \<Rightarrow> bool" where
  "keeps_entries st st' \<longleftrightarrow> pj_projectId st' = pj_projectId st
     \<and> (\<forall>i e. entry_of i (pj_history st) = Some e \<longrightarrow> entry_of i (pj_history st') = Some e)"

lemma keeps_entries_refl: "pj_projectId st' = pj_projectId st \<Longrightarrow> pj_history st' = pj_history st \<Longrightarrow> keeps_entries st st'"
  by (simp add: keeps_entries_def)

lemma keeps_entries_append:
  assumes "pj_projectId st' = pj_projectId st" "pj_history st' = pj_history st @ es" "ae_id ` set es \<inter> ae_id ` set (pj_history st) = {}"
  shows "keeps_entries st st'"
proof -
  have "entry_of i (pj_history st @ es) = Some e" if found: "entry_of i (pj_history st) = Some e" for i e
  proof -
    have "i \<notin> ae_id ` set es" using entry_of_Some [OF found] assms(3) by auto
    then have "find (\<lambda>e. ae_id e = i) (rev es) = None" by (auto simp: find_None_iff)
    then show ?thesis using found by (simp add: entry_of_def find_append)
  qed
  with assms show ?thesis by (simp add: keeps_entries_def)
qed

lemma grant_consistent_keeps: "keeps_entries st st' \<Longrightarrow> grant_consistent sha st r \<Longrightarrow> grant_consistent sha st' r"
  unfolding grant_consistent_def keeps_entries_def Let_def
  by (auto split: option.splits)

lemma offer_consistent_keeps:
  "pj_projectId st' = pj_projectId st \<Longrightarrow> set (grant_ids st) \<subseteq> set (grant_ids st') \<Longrightarrow> offer_consistent sha st f \<Longrightarrow> offer_consistent sha st' f"
  unfolding offer_consistent_def by (auto split: option.splits)

lemma grant_consistent_unrevoked: "grant_consistent sha st r \<Longrightarrow> is_active r \<longleftrightarrow> gr_revokedAt r = None"
  by (auto simp: grant_consistent_def is_active_def Let_def)

lemma approvals_okI:
  assumes "distinct (grant_ids st)" "\<And>r. r \<in> set (grants_of st) \<Longrightarrow> grant_consistent sha st r"
    "distinct (map (\<lambda>r. gt_patternDigest (gr_grant r)) (filter (\<lambda>r. gr_revokedAt r = None) (grants_of st)))"
    "distinct (map ro_id (offers_of st))" "\<And>f. f \<in> set (offers_of st) \<Longrightarrow> offer_consistent sha st f"
    "distinct (map ro_patternDigest (offers_of st))" "distinct (map ta_patternDigest (tallies_of st))"
    "distinct (map ae_id (pj_history st))" "offers_ok st" "grants_dated clock st" "sizes_ok st"
  shows "approvals_ok sha clock st"
proof -
  have "set (map ro_id (offers_of st)) \<inter> set (grant_ids st) = {}"
    using assms(9,10) by (force simp: offers_ok_def grants_dated_def)
  with assms show ?thesis by (simp add: approvals_ok_def ledger_consistent_def list_all_iff)
qed

lemma approvals_ok_later: "approvals_ok sha clock st \<Longrightarrow> clock \<le> now \<Longrightarrow> approvals_ok sha now st"
  by (auto simp: approvals_ok_def grants_dated_def)

lemma approvals_ok_same_ledger:
  assumes "approvals_ok sha clock st" "keeps_entries st st'" "ledger_of st' = ledger_of st" "distinct (map ae_id (pj_history st'))"
  shows "approvals_ok sha clock st'"
proof -
  note ok = approvals_okD [OF assms(1)]
  have project: "pj_projectId st' = pj_projectId st" using assms(2) by (simp add: keeps_entries_def)
  show ?thesis
    using ok assms(3,4) grant_consistent_keeps [OF assms(2)] offer_consistent_keeps [OF project]
    by (intro approvals_okI) (simp_all add: offers_ok_def grants_dated_def sizes_ok_def)
qed

section \<open>Each call keeps them\<close>

lemma with_tally_ok:
  assumes "distinct (map ta_patternDigest ts)" "length ts \<le> max_approval_tallies"
  shows "distinct (map ta_patternDigest (with_tally now d ts))" "length (with_tally now d ts) \<le> max_approval_tallies"
proof -
  let ?old = "if max_approval_tallies \<le> length ts then tl (sort_by (\<lambda>a b. ta_lastApprovedAt a < ta_lastApprovedAt b) ts) else ts"
  have "set (tl xs) \<subseteq> set xs" for xs :: "approval_tally list" by (cases xs) auto
  from this [of "sort_by (\<lambda>a b. ta_lastApprovedAt a < ta_lastApprovedAt b) ts"]
  have old: "set ?old \<subseteq> set ts" "distinct (map ta_patternDigest ?old)"
    using assms(1) by (simp_all add: distinct_map_sort_by map_tl distinct_tl)
  show "distinct (map ta_patternDigest (with_tally now d ts))"
    using assms(1) old unfolding with_tally_def by (auto simp: list_ex_iff image_iff)
  show "length (with_tally now d ts) \<le> max_approval_tallies"
    using assms(2) by (auto simp: with_tally_def max_approval_tallies_def)
qed

lemma count_decision_keeps [simp]:
  "grants_of (count_decision now d decision st) = grants_of st" "offers_of (count_decision now d decision st) = offers_of st"
  "pj_projectId (count_decision now d decision st) = pj_projectId st" "pj_history (count_decision now d decision st) = pj_history st"
  "pj_sessions (count_decision now d decision st) = pj_sessions st" "pj_needs (count_decision now d decision st) = pj_needs st"
  by (simp_all add: count_decision_def set_tallies_def)

lemma update_first_keeps_map: "(\<And>x. k (f x) = k x) \<Longrightarrow> map k (update_first P f xs) = map k xs"
  by (induction xs) auto

lemma map_length_eq: "map k xs = map k ys \<Longrightarrow> length xs = length ys"
  by (metis length_map)

lemma count_decision_ok:
  assumes "approvals_ok sha clock st"
  shows "approvals_ok sha clock (count_decision now d decision st)"
proof -
  note ok = approvals_okD [OF assms]
  let ?st = "count_decision now d decision st"
  have sizes: "length (tallies_of st) \<le> max_approval_tallies" using ok(11) by (simp add: sizes_ok_def)
  have "map ta_patternDigest (tallies_of ?st) = map ta_patternDigest (with_tally now d (tallies_of st))"
    by (simp add: count_decision_def set_tallies_def update_first_keeps_map split: approval_decision.split)
  then have tallies: "distinct (map ta_patternDigest (tallies_of ?st))" "length (tallies_of ?st) \<le> max_approval_tallies"
    using with_tally_ok [OF ok(7) sizes, of now d] map_length_eq by metis+
  have keeps: "keeps_entries st ?st" by (rule keeps_entries_refl) simp_all
  show ?thesis
    using ok tallies grant_consistent_keeps [OF keeps] offer_consistent_keeps [of ?st st]
    by (intro approvals_okI) (simp_all add: offers_ok_def grants_dated_def sizes_ok_def)
qed

lemma authority_of_Inr: "authority_of c = Inr a \<Longrightarrow> ga_permission a = pa_permission (ap_action (cn_pattern c))"
  by (auto simp: authority_of_def split: option.splits if_splits)

lemma note_decision_Inr:
  assumes "note_decision sha threshold stamp c decision need st = Inr (offered, st')"
  obtains (ignored) "classify_candidate (cn_pattern c) (cn_deletes c) \<noteq> Rememberable" "offered = None" "st' = st"
  | (counted) "offered = None" "st' = count_decision (rs_now stamp) (pattern_digest sha (cn_pattern c)) decision st"
      "classify_candidate (cn_pattern c) (cn_deletes c) = Rememberable"
  | (offer) authority counted where "decision = GoAhead"
      "counted = count_decision (rs_now stamp) (pattern_digest sha (cn_pattern c)) GoAhead st"
      "authority_of c = Inr authority" "threshold \<le> tally_of (pattern_digest sha (cn_pattern c)) (tallies_of counted)"
      "active_grant counted (pattern_digest sha (cn_pattern c)) = None"
      "\<not> list_ex (\<lambda>f. ro_patternDigest f = pattern_digest sha (cn_pattern c)) (offers_of counted)"
      "length (offers_of counted) < max_remember_offers" "classify_candidate (cn_pattern c) (cn_deletes c) = Rememberable"
      "offered = Some (new_offer stamp (pattern_digest sha (cn_pattern c)) c authority
         (tally_of (pattern_digest sha (cn_pattern c)) (tallies_of counted)) need)"
      "st' = set_ledger (\<lambda>l. l\<lparr>al_offers := al_offers l @ [the offered]\<rparr>) counted"
proof (cases "classify_candidate (cn_pattern c) (cn_deletes c) = Rememberable")
  case False
  with assms show thesis by (intro ignored) (simp_all add: note_decision_def)
next
  case True
  let ?d = "pattern_digest sha (cn_pattern c)"
  let ?counted = "count_decision (rs_now stamp) ?d decision st"
  show thesis
  proof (cases "decision = Declined \<or> tally_of ?d (tallies_of ?counted) < threshold \<or> cn_authority c = None
      \<or> active_grant ?counted ?d \<noteq> None \<or> list_ex (\<lambda>f. ro_patternDigest f = ?d) (offers_of ?counted)
      \<or> max_remember_offers \<le> length (offers_of ?counted)")
    case stop: True
    have "note_decision sha threshold stamp c decision need st = Inr (None, ?counted)"
      using True stop by (auto simp: note_decision_def Let_def)
    with assms True show thesis by (intro counted) simp_all
  next
    case False
    then have "decision = GoAhead" by (cases decision) simp_all
    with False True have "note_decision sha threshold stamp c decision need st = (case authority_of c of Inl e \<Rightarrow> Inl e
        | Inr authority \<Rightarrow> (let f = new_offer stamp ?d c authority (tally_of ?d (tallies_of ?counted)) need in
            Inr (Some f, set_ledger (\<lambda>l. l\<lparr>al_offers := al_offers l @ [f]\<rparr>) ?counted)))"
      by (auto simp: note_decision_def Let_def)
    with assms obtain authority where "authority_of c = Inr authority"
      "offered = Some (new_offer stamp ?d c authority (tally_of ?d (tallies_of ?counted)) need)"
      "st' = set_ledger (\<lambda>l. l\<lparr>al_offers := al_offers l @ [the offered]\<rparr>) ?counted"
      by (auto simp: Let_def split: sum.splits)
    with \<open>decision = GoAhead\<close> False True show thesis by (intro offer [of ?counted authority]) simp_all
  qed
qed

lemma add_offer_ok:
  assumes ok: "approvals_ok sha clock st" and new: "ro_id f \<notin> set (map ro_id (offers_of st))" "hd (ro_id f) = CHR ''O''"
    "ro_patternDigest f \<notin> set (map ro_patternDigest (offers_of st))" "offer_consistent sha st f"
    "ga_permission (ro_authority f) = pa_permission (ap_action (ro_pattern f))" "length (offers_of st) < max_remember_offers"
  shows "approvals_ok sha clock (set_ledger (\<lambda>l. l\<lparr>al_offers := al_offers l @ [f]\<rparr>) st)"
proof -
  let ?st = "set_ledger (\<lambda>l. l\<lparr>al_offers := al_offers l @ [f]\<rparr>) st"
  have keeps: "keeps_entries st ?st" by (rule keeps_entries_refl) simp_all
  have keep: "offer_consistent sha st g \<Longrightarrow> offer_consistent sha ?st g" for g by (rule offer_consistent_keeps) simp_all
  show ?thesis
    using approvals_okD [OF ok] new grant_consistent_keeps [OF keeps] keep
    by (intro approvals_okI) (auto simp: offers_ok_def grants_dated_def sizes_ok_def)
qed

lemma note_decision_ok:
  assumes ok: "approvals_ok sha clock st" and run: "note_decision sha threshold stamp c decision need st = Inr (offered, st')"
    and fresh: "fresh_stamp stamp st" and project: "ap_projectId (cn_pattern c) = pj_projectId st"
  shows "approvals_ok sha clock st'"
  using run
proof (cases rule: note_decision_Inr)
  case ignored
  with ok show ?thesis by simp
next
  case counted
  with count_decision_ok [OF ok] show ?thesis by simp
next
  case (offer authority counted)
  let ?f = "new_offer stamp (pattern_digest sha (cn_pattern c)) c authority (tally_of (pattern_digest sha (cn_pattern c)) (tallies_of counted)) need"
  have "approvals_ok sha clock counted" using count_decision_ok [OF ok] offer(2) by simp
  moreover have "offer_consistent sha counted ?f"
    using project offer(2) by (simp add: offer_consistent_def new_offer_def)
  ultimately have "approvals_ok sha clock (set_ledger (\<lambda>l. l\<lparr>al_offers := al_offers l @ [?f]\<rparr>) counted)"
    using offer(6,7) fresh authority_of_Inr [OF offer(3)] offer(2)
    by (intro add_offer_ok) (auto simp: new_offer_def fresh_stamp_def list_ex_iff)
  with offer(9,10) show ?thesis by simp
qed

lemma classify_deletes: "classify_candidate p deletes = Rememberable \<Longrightarrow> classify_candidate p False = Rememberable"
  by (auto simp: classify_candidate_def classify_approval_def Let_def always_def split: if_splits)

lemma classify_not_rememberable: "classify_candidate p d \<noteq> Rememberable \<longleftrightarrow> (\<exists>a why. classify_candidate p d = AlwaysAsks a why)"
  by (cases "classify_candidate p d") auto

lemma active_grant_Some: "active_grant st d = Some r \<Longrightarrow> r \<in> set (grants_of st) \<and> gt_patternDigest (gr_grant r) = d \<and> is_active r"
  by (auto simp: active_grant_def dest: find_Some_in_set)

lemma active_grant_None: "active_grant st d = None \<Longrightarrow> r \<in> set (grants_of st) \<Longrightarrow> is_active r \<Longrightarrow> gt_patternDigest (gr_grant r) \<noteq> d"
  by (auto simp: active_grant_def find_None_iff)

definition granted_entry ::
  "remember_stamp \<Rightarrow> remember_route \<Rightarrow> string \<Rightarrow> string option \<Rightarrow> string option \<Rightarrow> approval_entry" where
  "granted_entry stamp route what taskId sessionId =
     note_entry stamp ''remembered-approval-granted'' (granted_sentence route what) taskId sessionId None"

lemma add_grant_Inr:
  assumes "add_grant sha stamp route p what authority basis taskId sessionId st = Inr (r, st')"
  shows "length (grants_of st) < max_pattern_grants" "r = new_grant sha stamp (pj_projectId st) route p what authority basis"
    "st' = set_ledger (\<lambda>l. l\<lparr>al_grants := al_grants l @ [r]\<rparr>) (push_entry (granted_entry stamp route what taskId sessionId) st)"
  using assms by (auto simp: add_grant_def granted_entry_def Let_def split: if_splits)

text \<open>One entry more, with a new id.\<close>

lemma push_entry_ok:
  assumes "approvals_ok sha clock st" "ae_id e \<notin> ae_id ` set (pj_history st)"
  shows "approvals_ok sha clock (push_entry e st)" "keeps_entries st (push_entry e st)"
proof -
  show keeps: "keeps_entries st (push_entry e st)" using assms(2) by (intro keeps_entries_append [of _ _ "[e]"]) auto
  show "approvals_ok sha clock (push_entry e st)"
    using approvals_okD(8) [OF assms(1)] assms(2) by (intro approvals_ok_same_ledger [OF assms(1) keeps]) auto
qed

lemma add_grant_ok:
  assumes ok: "approvals_ok sha clock st" and later: "clock \<le> rs_now stamp" and fresh: "fresh_stamp stamp st"
    and run: "add_grant sha stamp route p what authority basis taskId sessionId st = Inr (r, st')"
    and none: "active_grant st (pattern_digest sha p) = None" and project: "ap_projectId p = pj_projectId st"
    and free: "classify_candidate p False = Rememberable" "ga_permission authority = pa_permission (ap_action p)"
    and basis: "route = LearnedOffer \<longleftrightarrow> gb_offerId basis \<noteq> None" "gb_needId basis \<noteq> None"
  shows "approvals_ok sha (rs_now stamp) st'"
proof -
  note r = add_grant_Inr [OF run]
  let ?e = "granted_entry stamp route what taskId sessionId"
  let ?mid = "push_entry ?e st"
  have "approvals_ok sha (rs_now stamp) st" using approvals_ok_later [OF ok later] .
  then have mid: "approvals_ok sha (rs_now stamp) ?mid" "keeps_entries st ?mid"
    using fresh by (auto simp: granted_entry_def fresh_stamp_def intro!: push_entry_ok)
  note ok' = approvals_okD [OF mid(1)]
  have keeps: "keeps_entries ?mid st'" unfolding r(3) by (rule keeps_entries_refl) simp_all
  have history: "pj_history st' = pj_history st @ [?e]" "pj_projectId st' = pj_projectId st" by (simp_all add: r(3))
  have new: "grant_consistent sha st' r"
    using project free basis unfolding grant_consistent_def Let_def r(2)
    by (cases route) (simp_all add: new_grant_def history granted_entry_def)
  have grants: "grants_of st' = grants_of st @ [r]" "offers_of st' = offers_of st" "tallies_of st' = tallies_of st" by (simp_all add: r(3))
  have "gt_patternDigest (gr_grant r) \<noteq> gt_patternDigest (gr_grant r')" if "r' \<in> set (grants_of st)" "gr_revokedAt r' = None" for r'
    using active_grant_None [OF none that(1)] grant_consistent_unrevoked [OF approvals_okD(2) [OF ok that(1)]] that(2)
    by (simp add: r(2) new_grant_def)
  then have live: "distinct (map (\<lambda>r. gt_patternDigest (gr_grant r)) (filter (\<lambda>r. gr_revokedAt r = None) (grants_of st')))"
    using approvals_okD(3) [OF ok] by (auto simp: grants)
  have ids: "gt_id (gr_grant r) = CHR ''G'' # rs_new stamp" "gt_createdAt (gr_grant r) = rs_now stamp" by (simp_all add: r(2) new_grant_def)
  have old: "grant_consistent sha st' r'" if "r' \<in> set (grants_of st)" for r'
    using grant_consistent_keeps [OF keeps] ok'(2) that by simp
  have offers: "offer_consistent sha st' f" if "f \<in> set (offers_of st)" for f
    using approvals_okD(5) [OF ok that] by (rule offer_consistent_keeps [rotated 2]) (auto simp: history grants)
  show ?thesis
    using ok'(1,4,6-11) new live r(1) fresh old offers
    by (intro approvals_okI) (auto simp: grants history ids fresh_stamp_def offers_ok_def grants_dated_def sizes_ok_def granted_entry_def)
qed

text \<open>Offers answered in place.\<close>

lemma answer_ok:
  assumes ok: "approvals_ok sha clock st" and offers: "\<And>f. f \<in> set (offers_of st) \<Longrightarrow> offer_consistent sha st (h f)"
    and same: "\<And>f. ro_id (h f) = ro_id f" "\<And>f. ro_patternDigest (h f) = ro_patternDigest f" "\<And>f. ro_pattern (h f) = ro_pattern f"
      "\<And>f. ro_authority (h f) = ro_authority f"
  shows "approvals_ok sha clock (set_offers (map h) st)"
proof -
  let ?st = "set_offers (map h) st"
  have reads: "grants_of ?st = grants_of st" "tallies_of ?st = tallies_of st" "offers_of ?st = map h (offers_of st)"
    "pj_history ?st = pj_history st" "pj_projectId ?st = pj_projectId st" by (simp_all add: set_offers_def)
  have keeps: "keeps_entries st ?st" by (rule keeps_entries_refl) (simp_all add: reads)
  have keep: "offer_consistent sha st f \<Longrightarrow> offer_consistent sha ?st f" for f by (rule offer_consistent_keeps) (simp_all add: reads)
  show ?thesis
    using approvals_okD [OF ok] offers same grant_consistent_keeps [OF keeps] keep
    by (intro approvals_okI) (auto simp: reads offers_ok_def grants_dated_def sizes_ok_def comp_def)
qed

lemma answer_offer_consistent:
  assumes "offer_consistent sha st f" "r \<in> set (grants_of st)"
  shows "offer_consistent sha st (answer_offer r f)"
  using assms by (auto simp: offer_consistent_def answer_offer_def)

lemma answer_offer_sel [simp]:
  "ro_id (answer_offer r f) = ro_id f" "ro_patternDigest (answer_offer r f) = ro_patternDigest f" "ro_pattern (answer_offer r f) = ro_pattern f"
  "ro_authority (answer_offer r f) = ro_authority f"
  by (simp_all add: answer_offer_def)

lemma remember_from_need_Inr:
  assumes "remember_from_need sha stamp need c st = Inr (r, st')"
  obtains (existing) "st' = st" "r \<in> set (grants_of st)"
  | (granted) receipt authority approvals st'' where "just_given need c = Some receipt"
      "classify_candidate (cn_pattern c) (cn_deletes c) = Rememberable"
      "rs_now stamp - rc_decidedAt receipt \<le> remember_window_ms" "authority_of c = Inr authority"
      "active_grant st (pattern_digest sha (cn_pattern c)) = None"
      "add_grant sha stamp ApproveAndRemember (cn_pattern c) (cn_what c) authority
         \<lparr>gb_needId = Some (an_id need), gb_offerId = None, gb_approvals = max 1 approvals\<rparr> (Some (an_taskId need)) (Some (an_sessionId need)) st
         = Inr (r, st'')"
      "approvals = 1 \<or> (\<exists>t \<in> set (tallies_of st). approvals = ta_approvals t)"
      "st' = set_offers (map (\<lambda>f. if ro_patternDigest f = pattern_digest sha (cn_pattern c) \<and> ro_state f = OfferOpen
         then answer_offer r f else f)) st''"
proof (cases "just_given need c")
  case None
  with assms show thesis by (simp add: remember_from_need_def)
next
  case (Some receipt)
  let ?d = "pattern_digest sha (cn_pattern c)"
  let ?found = "find (\<lambda>r. gb_needId (gt_basis (gr_grant r)) = Some (an_id need) \<and> gt_route (gr_grant r) = ApproveAndRemember) (grants_of st)"
  let ?approvals = "case find (\<lambda>t. ta_patternDigest t = ?d) (tallies_of st) of None \<Rightarrow> 1 | Some t \<Rightarrow> ta_approvals t"
  have free: "classify_candidate (cn_pattern c) (cn_deletes c) = Rememberable"
    using assms Some by (auto simp: remember_from_need_def split: classification.splits)
  show thesis
  proof (cases "?found \<noteq> None \<or> active_grant st ?d \<noteq> None")
    case True
    with assms Some free show thesis
      by (intro existing) (auto simp: remember_from_need_def Let_def split: option.splits dest: find_Some_in_set active_grant_Some)
  next
    case False
    with assms Some free have window: "rs_now stamp - rc_decidedAt receipt \<le> remember_window_ms"
      by (simp add: remember_from_need_def Let_def split: if_splits)
    with assms Some free False obtain authority where authority: "authority_of c = Inr authority"
      by (cases "authority_of c") (simp_all add: remember_from_need_def Let_def)
    have "\<exists>st''. add_grant sha stamp ApproveAndRemember (cn_pattern c) (cn_what c) authority
         \<lparr>gb_needId = Some (an_id need), gb_offerId = None, gb_approvals = max 1 ?approvals\<rparr> (Some (an_taskId need)) (Some (an_sessionId need)) st
         = Inr (r, st'') \<and> st' = set_offers (map (\<lambda>f. if ro_patternDigest f = ?d \<and> ro_state f = OfferOpen then answer_offer r f else f)) st''"
      using assms Some free False window authority by (simp add: remember_from_need_def Let_def split: sum.splits prod.splits)
    moreover have "?approvals = 1 \<or> (\<exists>t \<in> set (tallies_of st). ?approvals = ta_approvals t)"
      by (auto split: option.split dest: find_Some_in_set)
    ultimately show thesis using granted [OF Some free window authority] False by blast
  qed
qed

lemma remember_from_need_ok:
  assumes ok: "approvals_ok sha clock st" and later: "clock \<le> rs_now stamp" and fresh: "fresh_stamp stamp st"
    and run: "remember_from_need sha stamp need c st = Inr (r, st')" and project: "ap_projectId (cn_pattern c) = pj_projectId st"
  shows "approvals_ok sha (rs_now stamp) st'"
  using run
proof (cases rule: remember_from_need_Inr)
  case existing
  then show ?thesis using approvals_ok_later [OF ok later] by simp
next
  case (granted receipt authority approvals st'')
  have mid: "approvals_ok sha (rs_now stamp) st''"
    by (rule add_grant_ok [OF ok later fresh granted(6,5) project classify_deletes [OF granted(2)] authority_of_Inr [OF granted(4)]]) simp_all
  have "r \<in> set (grants_of st'')" using add_grant_Inr(3) [OF granted(6)] by simp
  with approvals_okD(5) [OF mid] show ?thesis
    unfolding granted(8) by (intro answer_ok [OF mid]) (simp_all add: answer_offer_consistent)
qed

lemma update_offers:
  assumes "distinct (map ro_id (offers_of st))"
  shows "set_offers (update_first (\<lambda>f. ro_id f = i) h) st = set_offers (map (\<lambda>f. if ro_id f = i then h f else f)) st"
  using update_first_map [OF assms, of i h] by (simp add: set_offers_def set_ledger_def)

lemma accept_offer_Inr:
  assumes "accept_offer sha stamp i st = Inr (r, st')"
  obtains (accepted) "st' = st" "r \<in> set (grants_of st)"
  | (live) offer where "find_offer i st = Some offer" "ro_state offer = OfferOpen" "classify_candidate (ro_pattern offer) False = Rememberable"
      "active_grant st (ro_patternDigest offer) = Some r" "st' = set_offers (update_first (\<lambda>f. ro_id f = i) (answer_offer r)) st"
  | (granted) offer st'' where "find_offer i st = Some offer" "ro_state offer = OfferOpen"
      "classify_candidate (ro_pattern offer) False = Rememberable" "active_grant st (ro_patternDigest offer) = None"
      "add_grant sha stamp LearnedOffer (ro_pattern offer) (ro_what offer) (ro_authority offer)
         \<lparr>gb_needId = Some (ro_needId offer), gb_offerId = Some (ro_id offer), gb_approvals = ro_approvals offer\<rparr>
         (Some (ro_taskId offer)) (Some (ro_sessionId offer)) st = Inr (r, st'')"
      "st' = set_offers (update_first (\<lambda>f. ro_id f = i) (answer_offer r)) st''"
proof -
  from assms obtain offer where offer: "find_offer i st = Some offer" by (auto simp: accept_offer_def split: option.splits)
  show thesis
  proof (cases "accepted_grant offer st")
    case (Some granted)
    moreover from this have "granted \<in> set (grants_of st)"
      by (auto simp: accepted_grant_def find_grant_def split: offer_state.splits option.splits dest: find_Some_in_set)
    ultimately show thesis using assms offer by (intro accepted) (simp_all add: accept_offer_def)
  next
    case None
    with assms offer have "open": "ro_state offer = OfferOpen" by (simp add: accept_offer_def split: if_splits)
    with assms offer None have free: "classify_candidate (ro_pattern offer) False = Rememberable"
      by (simp add: accept_offer_def split: classification.splits)
    show thesis
    proof (cases "active_grant st (ro_patternDigest offer)")
      case (Some r')
      with assms offer None "open" free show thesis by (intro live [OF offer "open" free]) (auto simp: accept_offer_def)
    next
      case none: None
      from assms offer None "open" free none obtain st'' where
        "add_grant sha stamp LearnedOffer (ro_pattern offer) (ro_what offer) (ro_authority offer)
         \<lparr>gb_needId = Some (ro_needId offer), gb_offerId = Some (ro_id offer), gb_approvals = ro_approvals offer\<rparr>
         (Some (ro_taskId offer)) (Some (ro_sessionId offer)) st = Inr (r, st'')"
        "st' = set_offers (update_first (\<lambda>f. ro_id f = i) (answer_offer r)) st''"
        by (simp add: accept_offer_def split: sum.splits prod.splits)
      then show thesis using granted [OF offer "open" free none] by blast
    qed
  qed
qed

lemma find_offer_Some: "find_offer i st = Some f \<Longrightarrow> f \<in> set (offers_of st) \<and> ro_id f = i"
  by (auto simp: find_offer_def dest: find_Some_in_set)

lemma find_grant_Some: "find_grant i st = Some r \<Longrightarrow> r \<in> set (grants_of st) \<and> gt_id (gr_grant r) = i"
  by (auto simp: find_grant_def dest: find_Some_in_set)

lemma answer_one_ok:
  assumes ok: "approvals_ok sha clock st" and r: "r \<in> set (grants_of st)"
  shows "approvals_ok sha clock (set_offers (update_first (\<lambda>f. ro_id f = i) (answer_offer r)) st)"
  unfolding update_offers [OF approvals_okD(4) [OF ok]]
  using approvals_okD(5) [OF ok] r by (intro answer_ok [OF ok]) (simp_all add: answer_offer_consistent)

lemma accept_offer_ok:
  assumes ok: "approvals_ok sha clock st" and later: "clock \<le> rs_now stamp" and fresh: "fresh_stamp stamp st"
    and run: "accept_offer sha stamp i st = Inr (r, st')"
  shows "approvals_ok sha (rs_now stamp) st'"
  using run
proof (cases rule: accept_offer_Inr)
  case accepted
  then show ?thesis using approvals_ok_later [OF ok later] by simp
next
  case (live offer)
  then show ?thesis using answer_one_ok [OF approvals_ok_later [OF ok later]] active_grant_Some by simp
next
  case (granted offer st'')
  from find_offer_Some [OF granted(1)] have offer: "offer \<in> set (offers_of st)" by simp
  with approvals_okD(5) [OF ok] have c: "offer_consistent sha st offer" by simp
  then have digest: "ro_patternDigest offer = pattern_digest sha (ro_pattern offer)" and project: "ap_projectId (ro_pattern offer) = pj_projectId st"
    by (simp_all add: offer_consistent_def)
  have permission: "ga_permission (ro_authority offer) = pa_permission (ap_action (ro_pattern offer))"
    using approvals_okD(9) [OF ok] offer by (simp add: offers_ok_def)
  have mid: "approvals_ok sha (rs_now stamp) st''"
    by (rule add_grant_ok [OF ok later fresh granted(5) granted(4) [unfolded digest] project granted(3) permission]) simp_all
  have "r \<in> set (grants_of st'')" using add_grant_Inr(3) [OF granted(5)] by simp
  with mid show ?thesis unfolding granted(6) by (rule answer_one_ok)
qed

lemma decline_offer_Inr:
  assumes "decline_offer stamp i st = Inr (f, st')"
  obtains (again) "st' = st" "find_offer i st = Some f" "ro_state f = OfferDeclined"
  | (declined) offer where "find_offer i st = Some offer" "ro_state offer = OfferOpen"
      "st' = set_offers (update_first (\<lambda>f. ro_id f = i) (\<lambda>f. f\<lparr>ro_state := OfferDeclined, ro_decidedAt := Some (rs_now stamp),
          ro_eventId := Some (CHR ''E'' # rs_entry stamp)\<rparr>))
        (push_entry (note_entry stamp ''remembered-approval-declined'' (decline_sentence (ro_what offer))
                 (Some (ro_taskId offer)) (Some (ro_sessionId offer)) None) st)"
      "f = offer\<lparr>ro_state := OfferDeclined, ro_decidedAt := Some (rs_now stamp), ro_eventId := Some (CHR ''E'' # rs_entry stamp)\<rparr>"
  using assms by (auto simp: decline_offer_def Let_def split: option.splits if_splits)

lemma decline_offer_ok:
  assumes ok: "approvals_ok sha clock st" and later: "clock \<le> rs_now stamp" and fresh: "fresh_stamp stamp st"
    and run: "decline_offer stamp i st = Inr (f, st')"
  shows "approvals_ok sha (rs_now stamp) st'"
  using run
proof (cases rule: decline_offer_Inr)
  case again
  then show ?thesis using approvals_ok_later [OF ok later] by simp
next
  case (declined offer)
  let ?mid = "push_entry (note_entry stamp ''remembered-approval-declined'' (decline_sentence (ro_what offer))
    (Some (ro_taskId offer)) (Some (ro_sessionId offer)) None) st"
  let ?h = "\<lambda>f. f\<lparr>ro_state := OfferDeclined, ro_decidedAt := Some (rs_now stamp), ro_eventId := Some (CHR ''E'' # rs_entry stamp)\<rparr>"
  have mid: "approvals_ok sha (rs_now stamp) ?mid"
    using approvals_ok_later [OF ok later] fresh by (intro push_entry_ok) (auto simp: fresh_stamp_def)
  have h: "offer_consistent sha ?mid (if ro_id f = i then ?h f else f)" if f: "f \<in> set (offers_of ?mid)" for f
  proof (cases "ro_id f = i")
    case True
    with f find_offer_Some [OF declined(1)] approvals_okD(4) [OF ok] have "f = offer"
      by (auto simp: distinct_map dest: inj_onD)
    with approvals_okD(5) [OF mid f] declined(2) True show ?thesis by (simp add: offer_consistent_def)
  next
    case False
    with approvals_okD(5) [OF mid f] show ?thesis by simp
  qed
  show ?thesis
    unfolding declined(3) update_offers [OF approvals_okD(4) [OF mid]] by (rule answer_ok [OF mid h]) simp_all
qed

definition revoked_now :: "remember_stamp \<Rightarrow> grant_record \<Rightarrow> grant_record" where
  "revoked_now stamp r = r\<lparr>gr_revokedAt := Some (rs_now stamp), gr_generation := gr_generation r + 1,
     gr_revokedEventId := Some (CHR ''E'' # rs_entry stamp)\<rparr>"

lemma revoke_grant_Inr:
  assumes "revoke_grant stamp i st = Inr (r, st')"
  obtains (again) "st' = st" "find_grant i st = Some r" "gr_revokedAt r \<noteq> None"
  | (revoked) old where "find_grant i st = Some old" "gr_revokedAt old = None" "r = revoked_now stamp old"
      "st' = set_ledger (\<lambda>l. l\<lparr>al_grants := update_first (\<lambda>r. gt_id (gr_grant r) = i) (revoked_now stamp) (al_grants l)\<rparr>)
        (push_entry (note_entry stamp ''remembered-approval-revoked'' (revoke_sentence (gt_what (gr_grant old))) None None None) st)"
  using assms unfolding revoke_grant_def Let_def revoked_now_def by (auto split: option.splits if_splits)

lemma revoke_grant_ok:
  assumes ok: "approvals_ok sha clock st" and later: "clock \<le> rs_now stamp" and fresh: "fresh_stamp stamp st"
    and run: "revoke_grant stamp i st = Inr (r, st')"
  shows "approvals_ok sha (rs_now stamp) st'"
  using run
proof (cases rule: revoke_grant_Inr)
  case again
  then show ?thesis using approvals_ok_later [OF ok later] by simp
next
  case (revoked old)
  let ?e = "note_entry stamp ''remembered-approval-revoked'' (revoke_sentence (gt_what (gr_grant old))) None None None"
  let ?mid = "push_entry ?e st"
  define h where "h = (\<lambda>r. if gt_id (gr_grant r) = i then revoked_now stamp r else r)"
  have mid: "approvals_ok sha (rs_now stamp) ?mid"
    using approvals_ok_later [OF ok later] fresh by (intro push_entry_ok) (auto simp: fresh_stamp_def)
  have grants: "grants_of st' = map h (grants_of st)" "offers_of st' = offers_of st" "tallies_of st' = tallies_of st"
    "pj_history st' = pj_history st @ [?e]" "pj_projectId st' = pj_projectId st"
    using update_first_map [OF approvals_okD(1) [OF ok], of i "revoked_now stamp"] by (simp_all add: revoked(4) h_def)
  have keeps: "keeps_entries ?mid st'" by (rule keeps_entries_refl) (simp_all add: grants)
  have same: "gr_grant (h r) = gr_grant r" for r by (simp add: h_def revoked_now_def)
  have new: "grant_consistent sha st' (h r')" if r': "r' \<in> set (grants_of st)" for r'
  proof (cases "gt_id (gr_grant r') = i")
    case True
    with r' find_grant_Some [OF revoked(1)] approvals_okD(1) [OF ok] have "r' = old" by (auto simp: distinct_map dest: inj_onD)
    moreover have c: "grant_consistent sha st' r'" using grant_consistent_keeps [OF keeps] approvals_okD(2) [OF mid] r' by simp
    moreover have "gt_createdAt (gr_grant r') \<le> rs_now stamp" using approvals_okD(10) [OF mid] r' by (simp add: grants_dated_def)
    ultimately show ?thesis using True revoked(2)
      by (auto simp: grant_consistent_def h_def revoked_now_def Let_def grants(4))
  next
    case False
    with grant_consistent_keeps [OF keeps] approvals_okD(2) [OF mid] r' show ?thesis by (simp add: h_def)
  qed
  have live: "distinct (map (\<lambda>r. gt_patternDigest (gr_grant r)) (filter (\<lambda>r. gr_revokedAt r = None) (grants_of st')))"
    unfolding grants(1) by (rule distinct_map_filter_map [OF approvals_okD(3) [OF ok]]) (simp_all add: h_def revoked_now_def split: if_splits)
  have offers: "offer_consistent sha st' f" if "f \<in> set (offers_of st)" for f
    using approvals_okD(5) [OF ok that] by (rule offer_consistent_keeps [rotated 2]) (auto simp: grants same)
  have "map (\<lambda>r. gt_id (gr_grant r)) (grants_of st') = grant_ids st" by (simp add: grants(1) same comp_def)
  with approvals_okD [OF mid] live offers new show ?thesis
    by (intro approvals_okI) (auto simp: grants same offers_ok_def grants_dated_def sizes_ok_def comp_def)
qed

lemma cover_keeps:
  "ledger_of (snd (snd (cover sha day_text stamp need c st))) = ledger_of st"
  "pj_projectId (snd (snd (cover sha day_text stamp need c st))) = pj_projectId st"
  "pj_ledger (snd (snd (cover sha day_text stamp need c st))) = pj_ledger st"
  "pj_sessions (snd (snd (cover sha day_text stamp need c st))) = pj_sessions st"
  "\<exists>es. pj_history (snd (snd (cover sha day_text stamp need c st))) = pj_history st @ es \<and> (es = [] \<or> (\<exists>e. es = [e] \<and> ae_id e = CHR ''E'' # rs_entry stamp))"
  by (auto simp: cover_def Let_def split: option.split coverage_result.split)

lemma cover_ok:
  assumes ok: "approvals_ok sha clock st" and fresh: "fresh_stamp stamp st"
  shows "approvals_ok sha clock (snd (snd (cover sha day_text stamp need c st)))"
proof -
  let ?st = "snd (snd (cover sha day_text stamp need c st))"
  from cover_keeps(5) [of sha day_text stamp need c st] obtain es where
    es: "pj_history ?st = pj_history st @ es" "es = [] \<or> (\<exists>e. es = [e] \<and> ae_id e = CHR ''E'' # rs_entry stamp)" by blast
  have keeps: "keeps_entries st ?st"
    using es fresh by (intro keeps_entries_append [OF cover_keeps(2) es(1)]) (auto simp: fresh_stamp_def)
  have "distinct (map ae_id (pj_history ?st))" using es fresh approvals_okD(8) [OF ok] by (auto simp: fresh_stamp_def image_iff)
  with approvals_ok_same_ledger [OF ok keeps cover_keeps(1)] show ?thesis .
qed

text \<open>Every state the calls lead to keeps the rules.\<close>

lemma remember_step_ok:
  assumes "approvals_ok sha clock st" "clock \<le> rs_now stamp" "fresh_stamp stamp st" "call_project (pj_projectId st) call"
  shows "approvals_ok sha (rs_now stamp) (remember_step sha threshold day_text stamp call st)"
proof -
  note stay = approvals_ok_later [OF assms(1,2)]
  show ?thesis
  proof (cases call)
    case (CallNote need c decision)
    with stay assms note_decision_ok [OF stay, of threshold stamp c decision need] show ?thesis
      by (auto simp: state_after_def split: sum.splits)
  next
    case (CallRemember need c)
    with stay assms remember_from_need_ok [OF assms(1-3), of need c] show ?thesis by (auto simp: state_after_def split: sum.splits)
  next
    case (CallAccept i)
    with stay accept_offer_ok [OF assms(1-3), of i] show ?thesis by (auto simp: state_after_def split: sum.splits)
  next
    case (CallDecline i)
    with stay decline_offer_ok [OF assms(1-3), of i] show ?thesis by (auto simp: state_after_def split: sum.splits)
  next
    case (CallRevoke i)
    with stay revoke_grant_ok [OF assms(1-3), of i] show ?thesis by (auto simp: state_after_def split: sum.splits)
  next
    case (CallCover need c)
    with cover_ok [OF stay assms(3)] show ?thesis by simp
  qed
qed

lemma other_entries_ok:
  assumes "approvals_ok sha clock st" "other_entries st st'"
  shows "approvals_ok sha clock st'"
proof -
  from assms(2) obtain es where es: "pj_projectId st' = pj_projectId st" "pj_ledger st' = pj_ledger st" "pj_history st' = pj_history st @ es"
    "ae_id ` set es \<inter> ae_id ` set (pj_history st) = {}" "distinct (map ae_id es)" by (auto simp: other_entries_def)
  have "distinct (map ae_id (pj_history st'))" using approvals_okD(8) [OF assms(1)] es by auto
  with approvals_ok_same_ledger [OF assms(1) keeps_entries_append [OF es(1,3,4)]] es(2) show ?thesis by (simp add: ledger_of_def)
qed

lemma remembering_ok: "remembering allowed sha threshold day_text clock st \<Longrightarrow> approvals_ok sha clock st"
proof (induction rule: remembering.induct)
  case (unused st clock)
  then show ?case
    by (intro approvals_okI) (simp_all add: ledger_of_def empty_ledger_def offers_ok_def grants_dated_def sizes_ok_def)
next
  case (called clock st stamp call)
  then show ?case using remember_step_ok by blast
next
  case (worked clock st st')
  then show ?case using other_entries_ok by blast
qed

end
