(* ===== verification/Approval_Safety.thy ===== *)
theory Approval_Safety
  imports Approval_Guarantees
begin

text \<open>
  What later calls leave of a grant and of an answered offer, what a digest tells of a pattern, and what a covered request and a
  write-time check say together.
\<close>

section \<open>Later states\<close>

definition follows_step :: "(string \<Rightarrow> string) \<Rightarrow> int \<Rightarrow> (int \<Rightarrow> string) \<Rightarrow> approval_state \<Rightarrow> approval_state \<Rightarrow> bool" where
  "follows_step sha threshold day_text st st' \<longleftrightarrow> other_entries st st'
     \<or> (\<exists>stamp call. fresh_stamp stamp st \<and> st' = remember_step sha threshold day_text stamp call st)"

text \<open>What a new grant rests on: an approval just given, or an open offer.\<close>

definition grant_source ::
  "(string \<Rightarrow> string) \<Rightarrow> remember_stamp \<Rightarrow> remember_call \<Rightarrow> approval_state \<Rightarrow> grant_record \<Rightarrow> bool" where
  "grant_source sha stamp call st r \<longleftrightarrow>
     (\<exists>need c receipt. call = CallRemember need c \<and> just_given need c = Some receipt \<and> rs_now stamp - rc_decidedAt receipt \<le> remember_window_ms
        \<and> classify_candidate (cn_pattern c) (cn_deletes c) = Rememberable \<and> active_grant st (pattern_digest sha (cn_pattern c)) = None
        \<and> gt_route (gr_grant r) = ApproveAndRemember \<and> gt_pattern (gr_grant r) = cn_pattern c \<and> gb_needId (gt_basis (gr_grant r)) = Some (an_id need))
     \<or> (\<exists>i f. call = CallAccept i \<and> find_offer i st = Some f \<and> ro_state f = OfferOpen
        \<and> classify_candidate (ro_pattern f) False = Rememberable \<and> active_grant st (ro_patternDigest f) = None
        \<and> gt_route (gr_grant r) = LearnedOffer \<and> gt_pattern (gr_grant r) = ro_pattern f \<and> gb_offerId (gt_basis (gr_grant r)) = Some (ro_id f))"

lemma set_offers_grants [simp]: "grants_of (set_offers f st) = grants_of st" "tallies_of (set_offers f st) = tallies_of st"
  "offers_of (set_offers f st) = f (offers_of st)" "pj_history (set_offers f st) = pj_history st"
  by (simp_all add: set_offers_def)

lemma step_grants:
  obtains (same) "grants_of (remember_step sha threshold day_text stamp call st) = grants_of st"
  | (added) r where "grants_of (remember_step sha threshold day_text stamp call st) = grants_of st @ [r]" "grant_source sha stamp call st r"
      "gr_revokedAt r = None" "gr_generation r = 0" "gt_createdAt (gr_grant r) = rs_now stamp"
  | (gone) i old where "call = CallRevoke i" "find_grant i st = Some old" "gr_revokedAt old = None"
      "grants_of (remember_step sha threshold day_text stamp call st)
        = update_first (\<lambda>r. gt_id (gr_grant r) = i) (revoked_now stamp) (grants_of st)"
proof (cases call)
  case (CallNote need c decision)
  have "grants_of st' = grants_of st" if "note_decision sha threshold stamp c decision need st = Inr (a, st')" for a st'
    using that by (cases rule: note_decision_Inr) simp_all
  then have "grants_of (remember_step sha threshold day_text stamp call st) = grants_of st"
    by (auto simp: CallNote state_after_def split: sum.splits)
  then show thesis by (rule same)
next
  case (CallRemember need c)
  show thesis
  proof (cases "remember_from_need sha stamp need c st")
    case (Inl e)
    then show thesis by (intro same) (simp add: CallRemember)
  next
    case (Inr answer)
    obtain r st' where answer: "answer = (r, st')" by force
    with Inr have step: "remember_step sha threshold day_text stamp call st = st'" by (simp add: CallRemember)
    from Inr answer have "remember_from_need sha stamp need c st = Inr (r, st')" by simp
    then show thesis
    proof (cases rule: remember_from_need_Inr)
      case existing
      then show thesis by (intro same) (simp only: step)
    next
      case (granted receipt authority approvals st'')
      note r = add_grant_Inr [OF granted(6)]
      have "grant_source sha stamp call st r" using granted(1-3,5)
        by (auto simp: grant_source_def CallRemember r(2) new_grant_def)
      then show thesis by (intro added [of r]) (simp_all add: step granted(8) r(3), simp_all add: r(2) new_grant_def)
    qed
  qed
next
  case (CallAccept i)
  show thesis
  proof (cases "accept_offer sha stamp i st")
    case (Inl e)
    then show thesis by (intro same) (simp add: CallAccept)
  next
    case (Inr answer)
    obtain r st' where answer: "answer = (r, st')" by force
    with Inr have step: "remember_step sha threshold day_text stamp call st = st'" by (simp add: CallAccept)
    from Inr answer have "accept_offer sha stamp i st = Inr (r, st')" by simp
    then show thesis
    proof (cases rule: accept_offer_Inr)
      case accepted
      then show thesis by (intro same) (simp only: step)
    next
      case (live offer)
      then show thesis by (intro same) (simp add: step)
    next
      case (granted offer st'')
      note r = add_grant_Inr [OF granted(5)]
      have "grant_source sha stamp call st r" using granted(1-4)
        by (auto simp: grant_source_def CallAccept r(2) new_grant_def)
      then show thesis by (intro added [of r]) (simp_all add: step granted(6) r(3), simp_all add: r(2) new_grant_def)
    qed
  qed
next
  case (CallDecline i)
  have "grants_of st' = grants_of st" if "decline_offer stamp i st = Inr (a, st')" for a st'
    using that by (cases rule: decline_offer_Inr) simp_all
  then have "grants_of (remember_step sha threshold day_text stamp call st) = grants_of st"
    by (auto simp: CallDecline state_after_def split: sum.splits)
  then show thesis by (rule same)
next
  case (CallRevoke i)
  show thesis
  proof (cases "revoke_grant stamp i st")
    case (Inl e)
    then show thesis by (intro same) (simp add: CallRevoke)
  next
    case (Inr answer)
    obtain r st' where answer: "answer = (r, st')" by force
    with Inr have step: "remember_step sha threshold day_text stamp call st = st'" by (simp add: CallRevoke)
    from Inr answer have "revoke_grant stamp i st = Inr (r, st')" by simp
    then show thesis
    proof (cases rule: revoke_grant_Inr)
      case again
      then show thesis by (intro same) (simp only: step)
    next
      case (revoked old)
      then show thesis by (intro gone [OF CallRevoke]) (simp_all add: step)
    qed
  qed
next
  case (CallCover need c)
  then show thesis by (intro same) (simp add: cover_keeps)
qed

lemma find_update_first_other: "(\<And>x. k (f x) = k x) \<Longrightarrow> i \<noteq> j \<Longrightarrow> find (\<lambda>x. k x = i) (update_first (\<lambda>x. k x = j) f xs) = find (\<lambda>x. k x = i) xs"
  by (induction xs) auto

text \<open>A revoked grant is found unchanged in every later state.\<close>

lemma revoked_step:
  assumes "find_grant i st = Some r" "gr_revokedAt r \<noteq> None"
  shows "find_grant i (remember_step sha threshold day_text stamp call st) = Some r"
proof (cases rule: step_grants [of sha threshold day_text stamp call st])
  case same
  with assms show ?thesis by (simp add: find_grant_def)
next
  case (added r')
  with assms show ?thesis by (simp add: find_grant_def find_append)
next
  case (gone j old)
  with assms have "i \<noteq> j" by auto
  have "gt_id (gr_grant (revoked_now stamp x)) = gt_id (gr_grant x)" for x by (simp add: revoked_now_def)
  from find_update_first_other [of "\<lambda>r. gt_id (gr_grant r)", OF this \<open>i \<noteq> j\<close>] assms gone(4) show ?thesis by (simp add: find_grant_def)
qed

lemma other_entries_ledger: "other_entries st st' \<Longrightarrow> ledger_of st' = ledger_of st"
  by (auto simp: other_entries_def ledger_of_def)

lemma revoked_later:
  assumes "(follows_step sha threshold day_text)\<^sup>*\<^sup>* st st'" "find_grant i st = Some r" "gr_revokedAt r \<noteq> None"
  shows "find_grant i st' = Some r"
  using assms(1)
proof (induction rule: rtranclp_induct)
  case base
  show ?case using assms(2) .
next
  case (step st' st'')
  from step.hyps(2) show ?case
    unfolding follows_step_def using revoked_step [OF step.IH assms(3)] other_entries_ledger step.IH by (auto simp: find_grant_def)
qed

section \<open>Coverage\<close>

lemma coverage_Covered:
  assumes "coverage sha c st = Covered r"
  shows "r \<in> set (grants_of st)" "is_active r" "gt_patternDigest (gr_grant r) = pattern_digest sha (cn_pattern c)"
    "classify_candidate (cn_pattern c) (cn_deletes c) = Rememberable" "ap_projectId (cn_pattern c) = pj_projectId st"
    "\<exists>p. cn_authority c = Some p \<and> authority_holds (gt_authority (gr_grant r)) p"
  using assms active_grant_Some [of st "pattern_digest sha (cn_pattern c)"]
  by (auto simp: coverage_def Let_def split: if_splits option.splits)

section \<open>What a digest names\<close>

fun unescape :: "string \<Rightarrow> char \<times> string" where
  "unescape (c # d # t) =
     (if (of_char c :: nat) \<noteq> 92 then (c, d # t)
      else let b = (of_char d :: nat) in
        if b = 98 then (char_of (8 :: nat), t) else if b = 116 then (char_of (9 :: nat), t) else if b = 110 then (char_of (10 :: nat), t)
        else if b = 102 then (char_of (12 :: nat), t) else if b = 114 then (char_of (13 :: nat), t)
        else if b = 117 then (case t of _ # _ # h # l # r \<Rightarrow>
            (char_of ((if (of_char h :: nat) < 58 then of_char h - 48 else of_char h - 87 :: nat) * 16
               + (if (of_char l :: nat) < 58 then of_char l - 48 else of_char l - 87 :: nat)), r) | _ \<Rightarrow> (c, t))
        else (d, t))"
| "unescape [c] = (c, [])"
| "unescape [] = (CHR 0x00, [])"

lemma hex_char_code: "d < 16 \<Longrightarrow> (of_char (hex_char d) :: nat) = (if d < 10 then 48 + d else 87 + d)"
  by (simp add: hex_char_def of_char_of)

lemma char_eqI: "(of_char c :: nat) = of_char d \<Longrightarrow> c = d"
  by (metis char_of_char)

lemma unescape_escape: "x \<noteq> [] \<Longrightarrow> unescape (json_escape c @ x) = (c, x)"
proof -
  assume x: "x \<noteq> []"
  define b where "b = (of_char c :: nat)"
  have c: "c = char_of b" by (simp add: b_def)
  have low: "b div 16 < 16" "b mod 16 < 16" "b div 16 * 16 + b mod 16 = b" if "b < 32" using that by auto
  show ?thesis
  proof (cases "b \<in> {34, 92, 8, 9, 10, 12, 13}")
    case True
    then show ?thesis unfolding json_escape_def b_def [symmetric] by (auto simp: c of_char_of)
  next
    case False
    show ?thesis
    proof (cases "b < 32")
      case True
      with False low show ?thesis unfolding json_escape_def b_def [symmetric] by (auto simp: c of_char_of hex_char_code)
    next
      case False2: False
      with False x show ?thesis unfolding json_escape_def b_def [symmetric] by (cases x) (auto simp: b_def)
    qed
  qed
qed

lemma json_escape_not_quote: "\<exists>d t. json_escape c = d # t \<and> (of_char d :: nat) \<noteq> 34"
  by (auto simp: json_escape_def Let_def of_char_of)

lemma escaped_inject:
  assumes "concat (map json_escape a) @ char_of (34 :: nat) # s = concat (map json_escape b) @ char_of (34 :: nat) # t"
  shows "a = b \<and> s = t"
  using assms
proof (induction a arbitrary: b)
  case Nil
  then show ?case
  proof (cases b)
    case (Cons d b')
    obtain e r where "json_escape d = e # r" "(of_char e :: nat) \<noteq> 34" using json_escape_not_quote by blast
    with Nil Cons show ?thesis by (auto simp: of_char_of)
  qed simp
next
  case (Cons c a)
  show ?case
  proof (cases b)
    case Nil
    obtain e r where "json_escape c = e # r" "(of_char e :: nat) \<noteq> 34" using json_escape_not_quote by blast
    with Nil Cons.prems show ?thesis by (auto simp: of_char_of)
  next
    case b: (Cons d b')
    let ?x = "concat (map json_escape a) @ char_of (34 :: nat) # s" and ?y = "concat (map json_escape b') @ char_of (34 :: nat) # t"
    have "unescape (json_escape c @ ?x) = unescape (json_escape d @ ?y)" using Cons.prems b by simp
    then have "c = d" "?x = ?y" using unescape_escape [of ?x c] unescape_escape [of ?y d] by simp_all
    with Cons.IH b show ?thesis by simp
  qed
qed

lemma json_string_inject: "json_string a @ s = json_string b @ t \<longleftrightarrow> a = b \<and> s = t"
  using escaped_inject [of a s b t] by (auto simp: json_string_def)

lemma json_string_head: "\<exists>r. json_string a = CHR 0x22 # r"
proof -
  have "char_of (34 :: nat) = CHR 0x22" by code_simp
  then show ?thesis by (simp add: json_string_def)
qed

lemma comma_strings_head: "\<exists>r. comma_sep (map json_string (u # us)) = CHR 0x22 # r"
proof -
  obtain r where "json_string u = CHR 0x22 # r" using json_string_head by blast
  then show ?thesis by (cases us) simp_all
qed

lemma json_strings_inject:
  "comma_sep (map json_string ts) @ CHR '']'' # s = comma_sep (map json_string us) @ CHR '']'' # t \<longleftrightarrow> ts = us \<and> s = t"
proof (induction ts arbitrary: us)
  case Nil
  show ?case
  proof (cases us)
    case (Cons u us')
    then obtain r where "comma_sep (map json_string us) = CHR 0x22 # r" using comma_strings_head by blast
    with Cons show ?thesis by simp
  qed auto
next
  case (Cons x ts)
  have step: "comma_sep (map json_string (x # ts)) @ CHR '']'' # s
    = json_string x @ (if ts = [] then CHR '']'' # s else CHR '','' # comma_sep (map json_string ts) @ CHR '']'' # s)" for x ts s
    by (cases ts) simp_all
  show ?case
  proof (cases us)
    case Nil
    obtain r where "comma_sep (map json_string (x # ts)) = CHR 0x22 # r" using comma_strings_head by blast
    with Nil show ?thesis by simp
  next
    case u: (Cons u us')
    show ?thesis unfolding u step json_string_inject using Cons.IH [of us'] by (cases "ts = []"; cases "us' = []") auto
  qed
qed

lemma or_null_inject: "json_text (or_null a) = json_text (or_null b) \<longleftrightarrow> a = b"
proof -
  have "json_string t \<noteq> ''null''" for t using json_string_head [of t] by auto
  then show ?thesis using json_string_inject [of "the a" "[]" "the b" "[]"]
    by (cases a; cases b) (auto simp: or_null_def dest: sym)
qed

lemma kind_texts_inject [simp]:
  "kind_text a = kind_text b \<longleftrightarrow> a = b" "step_kind_text c = step_kind_text d \<longleftrightarrow> c = d" "effect_text e = effect_text f \<longleftrightarrow> e = f"
  "place_text g = place_text h \<longleftrightarrow> g = h"
proof -
  show "kind_text a = kind_text b \<longleftrightarrow> a = b" by (cases a; cases b) simp_all
  show "step_kind_text c = step_kind_text d \<longleftrightarrow> c = d" by (cases c; cases d) simp_all
  show "effect_text e = effect_text f \<longleftrightarrow> e = f" by (cases e; cases f) simp_all
  show "place_text g = place_text h \<longleftrightarrow> g = h" by (cases g; cases h) simp_all
qed

lemma pattern_text_inject: "json_text (pattern_payload p) = json_text (pattern_payload q) \<Longrightarrow> p = q"
proof -
  have strings: "map (json_text \<circ> JStr) ts = map json_string ts" for ts by simp
  have some: "has_json_text (or_null v)" for v by (simp add: or_null_def has_json_text_def split: option.split)
  have cut: "x @ y = x @ z \<longleftrightarrow> y = z" for x y z :: string by simp
  assume "json_text (pattern_payload p) = json_text (pattern_payload q)"
  then have "ap_kind p = ap_kind q \<and> ap_projectId p = ap_projectId q \<and> ap_procedure p = ap_procedure q \<and> ap_tool p = ap_tool q
    \<and> pa_kind (ap_action p) = pa_kind (ap_action q) \<and> pa_permission (ap_action p) = pa_permission (ap_action q)
    \<and> pa_effect (ap_action p) = pa_effect (ap_action q)
    \<and> pd_kind (ap_destination p) = pd_kind (ap_destination q) \<and> pd_targets (ap_destination p) = pd_targets (ap_destination q)
    \<and> pc_engine (ap_connection p) = pc_engine (ap_connection q) \<and> pc_accountRoute (ap_connection p) = pc_accountRoute (ap_connection q)"
    unfolding pattern_payload_def pattern_value_def
    by (simp add: has_json_text_def [of "JStr _"] has_json_text_def [of "JObj _"] has_json_text_def [of "JArr _"] has_json_text_def [of "JInt _"]
      some json_string_inject json_strings_inject or_null_inject strings)
  then show "p = q"
    by (cases p; cases q; cases "ap_action p"; cases "ap_action q"; cases "ap_destination p"; cases "ap_destination q";
      cases "ap_connection p"; cases "ap_connection q") simp
qed

end
