(* ===== verification/Approval_Evidence.thy ===== *)
theory Approval_Evidence
  imports Approval_Safety
begin

text \<open>
  Answered offers stay answered; what a digest says of a covered pattern; which ledgers the check at load accepts; that the
  evidence a covered request carries is accepted before its write; and what recovery carries over.
\<close>

section \<open>Answered offers\<close>

lemma find_map_same: "(\<And>x. k (h x) = k x) \<Longrightarrow> find (\<lambda>x. k x = i) (map h xs) = map_option h (find (\<lambda>x. k x = i) xs)"
  by (induction xs) auto

lemma find_offer_map: "(\<And>f. ro_id (h f) = ro_id f) \<Longrightarrow> find_offer i (set_offers (map h) st) = map_option h (find_offer i st)"
  by (simp add: find_offer_def find_map_same)

lemma find_offer_update: "(\<And>f. ro_id (h f) = ro_id f) \<Longrightarrow> i \<noteq> j \<Longrightarrow> find_offer i (set_offers (update_first (\<lambda>f. ro_id f = j) h) st) = find_offer i st"
  by (simp add: find_offer_def find_update_first_other)

lemma declined_step:
  assumes found: "find_offer i st = Some f" and declined: "ro_state f = OfferDeclined"
  shows "find_offer i (remember_step sha threshold day_text stamp call st) = Some f"
proof (cases call)
  case (CallNote need c decision)
  have "find_offer i st' = Some f" if "note_decision sha threshold stamp c decision need st = Inr (a, st')" for a st'
    using that found by (cases rule: note_decision_Inr) (simp_all add: find_offer_def find_append)
  with found show ?thesis by (auto simp: CallNote state_after_def split: sum.splits)
next
  case (CallRemember need c)
  have "find_offer i st' = Some f" if "remember_from_need sha stamp need c st = Inr (r, st')" for r st'
    using that
  proof (cases rule: remember_from_need_Inr)
    case (granted receipt authority approvals st'')
    have "find_offer i st'' = Some f" using found add_grant_Inr(3) [OF granted(6)] by (simp add: find_offer_def)
    then show ?thesis unfolding granted(8) using declined by (subst find_offer_map) auto
  qed (use found in simp)
  with found show ?thesis by (auto simp: CallRemember state_after_def split: sum.splits)
next
  case (CallAccept j)
  have "find_offer i st' = Some f" if "accept_offer sha stamp j st = Inr (r, st')" for r st'
    using that
  proof (cases rule: accept_offer_Inr)
    case (live offer)
    then have "i \<noteq> j" using found declined by auto
    then show ?thesis unfolding live(5) using found by (subst find_offer_update) simp_all
  next
    case (granted offer st'')
    then have "i \<noteq> j" using found declined by auto
    have "find_offer i st'' = Some f" using found add_grant_Inr(3) [OF granted(5)] by (simp add: find_offer_def)
    with \<open>i \<noteq> j\<close> show ?thesis unfolding granted(6) by (subst find_offer_update) simp_all
  qed (use found in simp)
  with found show ?thesis by (auto simp: CallAccept state_after_def split: sum.splits)
next
  case (CallDecline j)
  have "find_offer i st' = Some f" if "decline_offer stamp j st = Inr (g, st')" for g st'
    using that
  proof (cases rule: decline_offer_Inr)
    case declined': (declined offer)
    then have "i \<noteq> j" using found declined by auto
    then show ?thesis unfolding declined'(3) using found by (subst find_offer_update) (simp_all add: find_offer_def)
  qed (use found in simp)
  with found show ?thesis by (auto simp: CallDecline state_after_def split: sum.splits)
next
  case (CallRevoke j)
  have "find_offer i st' = Some f" if "revoke_grant stamp j st = Inr (r, st')" for r st'
    using that found by (cases rule: revoke_grant_Inr) (simp_all add: find_offer_def)
  with found show ?thesis by (auto simp: CallRevoke state_after_def split: sum.splits)
next
  case (CallCover need c)
  with found show ?thesis by (simp add: find_offer_def cover_keeps)
qed

lemma declined_later:
  assumes "(follows_step sha threshold day_text)\<^sup>*\<^sup>* st st'" "find_offer i st = Some f" "ro_state f = OfferDeclined"
  shows "find_offer i st' = Some f"
  using assms(1)
proof (induction rule: rtranclp_induct)
  case base
  show ?case using assms(2) .
next
  case (step st' st'')
  from step.hyps(2) show ?case
    unfolding follows_step_def using declined_step [OF step.IH assms(3)] other_entries_ledger step.IH by (auto simp: find_offer_def)
qed

section \<open>Digests\<close>

lemma same_digest_same_pattern:
  assumes "pattern_digest sha p = pattern_digest sha q"
    and "sha (json_text (pattern_payload p)) = sha (json_text (pattern_payload q)) \<Longrightarrow> json_text (pattern_payload p) = json_text (pattern_payload q)"
  shows "p = q"
  using assms by (intro pattern_text_inject) (simp add: pattern_digest_def payload_digest_def)

lemma payload_digest_is_digest: "is_sha (sha (json_text v)) \<Longrightarrow> is_digest (payload_digest sha v)"
  by (simp add: is_digest_def payload_digest_def)

section \<open>Ledgers that load\<close>

text \<open>What the bounds of the saved rows ask of a call: identifiers, texts and targets within them, and counts with room for one more.\<close>

definition stamp_fits :: "remember_stamp \<Rightarrow> bool" where
  "stamp_fits stamp \<longleftrightarrow> utf16_units (rs_entry stamp) \<le> 99 \<and> utf16_units (rs_new stamp) \<le> 99"

definition need_fits :: "approval_need \<Rightarrow> bool" where
  "need_fits need \<longleftrightarrow> text_fits 100 (an_id need) \<and> text_fits 100 (an_sessionId need) \<and> text_fits 100 (an_taskId need)"

definition candidate_fits :: "approval_candidate \<Rightarrow> bool" where
  "candidate_fits c \<longleftrightarrow> pattern_fits (cn_pattern c) \<and> text_fits 2000 (cn_what c)
     \<and> (case cn_authority c of None \<Rightarrow> True | Some p \<Rightarrow> text_fits 200 (pr_id p) \<and> 0 \<le> pr_identityGeneration p)"

fun call_fits :: "remember_stamp \<Rightarrow> remember_call \<Rightarrow> approval_state \<Rightarrow> bool" where
  "call_fits stamp (CallNote need c decision) st \<longleftrightarrow> stamp_fits stamp \<and> need_fits need \<and> candidate_fits c
     \<and> (\<forall>t \<in> set (tallies_of st). ta_approvals t < 1000000)"
| "call_fits stamp (CallRemember need c) st \<longleftrightarrow> stamp_fits stamp \<and> need_fits need \<and> candidate_fits c"
| "call_fits stamp _ st \<longleftrightarrow> stamp_fits stamp"

lemma text_fits_Cons: "(of_char c :: nat) < 128 \<Longrightarrow> utf16_units t \<le> n \<Longrightarrow> text_fits (Suc n) (c # t)"
  by (simp add: text_fits_def utf16_units_def Let_def)

lemma stamp_ids_fit:
  assumes "stamp_fits stamp"
  shows "text_fits 100 (CHR ''E'' # rs_entry stamp)" "text_fits 100 (CHR ''G'' # rs_new stamp)" "text_fits 100 (CHR ''O'' # rs_new stamp)"
    "text_fits 100 (CHR ''A'' # rs_new stamp)"
  using assms text_fits_Cons [of _ _ 99] by (simp_all add: stamp_fits_def)

definition rows_fit :: "approval_state \<Rightarrow> bool" where
  "rows_fit st \<longleftrightarrow> (\<forall>r \<in> set (grants_of st). grant_fits (gr_grant r) \<and> gr_generation r \<in> {0, 1} \<and> opt_fits 100 (gr_revokedEventId r))
     \<and> (\<forall>t \<in> set (tallies_of st). tally_fits t) \<and> (\<forall>f \<in> set (offers_of st). offer_fits f)"

lemma rows_fitD:
  assumes "rows_fit st"
  shows "\<And>r. r \<in> set (grants_of st) \<Longrightarrow> grant_fits (gr_grant r) \<and> gr_generation r \<in> {0, 1} \<and> opt_fits 100 (gr_revokedEventId r)"
    "\<And>t. t \<in> set (tallies_of st) \<Longrightarrow> tally_fits t" "\<And>f. f \<in> set (offers_of st) \<Longrightarrow> offer_fits f"
  using assms by (simp_all add: rows_fit_def)

lemma rows_fit_valid:
  assumes "approvals_ok sha clock st" "rows_fit st"
  shows "valid_ledger sha st"
proof -
  have "ledger_fits (ledger_of st)"
    using rows_fitD [OF assms(2)] approvals_okD(11) [OF assms(1)]
    by (force simp: ledger_fits_def list_all_iff record_fits_def count_fits_def sizes_ok_def)
  with assms(1) show ?thesis by (simp add: valid_ledger_def approvals_ok_def)
qed

lemma rows_fit_same: "ledger_of st' = ledger_of st \<Longrightarrow> rows_fit st \<Longrightarrow> rows_fit st'"
  by (simp add: rows_fit_def)

lemma set_update_first: "x \<in> set (update_first P h xs) \<Longrightarrow> x \<in> set xs \<or> (\<exists>y \<in> set xs. P y \<and> x = h y)"
  by (induction xs) (auto split: if_splits)

lemma tally_of_member: "t \<in> set ts \<Longrightarrow> ta_patternDigest t = d \<Longrightarrow> \<exists>u \<in> set ts. tally_of d ts = ta_approvals u"
  by (cases "find (\<lambda>t. ta_patternDigest t = d) ts") (auto simp: tally_of_def find_None_iff dest: find_Some_in_set)

lemma counted_fits:
  assumes fits: "rows_fit st" and digest: "is_digest d" and room: "\<forall>t \<in> set (tallies_of st). ta_approvals t < 1000000"
  shows "rows_fit (count_decision now d decision st)"
proof -
  have old: "tally_fits t \<and> ta_approvals t < 1000000" if "t \<in> set (with_tally now d (tallies_of st))" for t
  proof -
    from that have "t \<in> set (tallies_of st) \<or> t = \<lparr>ta_patternDigest = d, ta_approvals = 0, ta_lastApprovedAt = now\<rparr>"
      by (auto simp: with_tally_def split: if_splits dest: list.set_sel(2) [rotated])
        (metis (no_types, lifting) list.sel(2) list.set_sel(2) set_sort_by)
    with fits room digest show ?thesis by (auto simp: rows_fit_def tally_fits_def count_fits_def)
  qed
  have "tally_fits t" if "t \<in> set (tallies_of (count_decision now d decision st))" for t
  proof -
    from that have "t \<in> set (update_first (\<lambda>t. ta_patternDigest t = d) (\<lambda>t. case decision of Declined \<Rightarrow> t\<lparr>ta_approvals := 0\<rparr>
          | GoAhead \<Rightarrow> t\<lparr>ta_approvals := ta_approvals t + 1, ta_lastApprovedAt := now\<rparr>) (with_tally now d (tallies_of st)))"
      by (simp add: count_decision_def set_tallies_def)
    from set_update_first [OF this] show ?thesis
    proof
      assume "t \<in> set (with_tally now d (tallies_of st))"
      then show ?thesis using old by blast
    next
      assume "\<exists>y \<in> set (with_tally now d (tallies_of st)). ta_patternDigest y = d \<and> t = (case decision of Declined \<Rightarrow> y\<lparr>ta_approvals := 0\<rparr>
          | GoAhead \<Rightarrow> y\<lparr>ta_approvals := ta_approvals y + 1, ta_lastApprovedAt := now\<rparr>)"
      then obtain y where y: "y \<in> set (with_tally now d (tallies_of st))"
        "t = (case decision of Declined \<Rightarrow> y\<lparr>ta_approvals := 0\<rparr> | GoAhead \<Rightarrow> y\<lparr>ta_approvals := ta_approvals y + 1, ta_lastApprovedAt := now\<rparr>)" by blast
      with old [OF y(1)] show ?thesis by (cases decision) (simp_all add: tally_fits_def count_fits_def)
    qed
  qed
  with fits show ?thesis by (simp add: rows_fit_def)
qed

lemma authority_of_fits:
  assumes "authority_of c = Inr a" "candidate_fits c"
  shows "authority_fits a"
  using assms by (auto simp: authority_of_def candidate_fits_def authority_fits_def pattern_fits_def split: option.splits if_splits)

lemma pattern_digest_is_digest: "\<forall>t. is_sha (sha t) \<Longrightarrow> is_digest (pattern_digest sha p)"
  by (simp add: pattern_digest_def payload_digest_is_digest)

lemma note_decision_fits:
  assumes fits: "rows_fit st" and sha: "\<forall>t. is_sha (sha t)" and "1 \<le> threshold"
    and call: "call_fits stamp (CallNote need c decision) st" and run: "note_decision sha threshold stamp c decision need st = Inr (a, st')"
  shows "rows_fit st'"
  using run
proof (cases rule: note_decision_Inr)
  case ignored
  with fits show ?thesis by simp
next
  case counted
  with counted_fits [OF fits pattern_digest_is_digest [OF sha]] call show ?thesis by simp
next
  case (offer authority counted)
  let ?d = "pattern_digest sha (cn_pattern c)"
  have counted: "rows_fit counted" using counted_fits [OF fits pattern_digest_is_digest [OF sha]] call offer(2) by simp
  have "\<exists>t \<in> set (tallies_of counted). tally_of ?d (tallies_of counted) = ta_approvals t"
  proof (cases "find (\<lambda>t. ta_patternDigest t = ?d) (tallies_of counted)")
    case None
    with offer(4) \<open>1 \<le> threshold\<close> show ?thesis by (simp add: tally_of_def)
  next
    case (Some t)
    then show ?thesis by (auto simp: tally_of_def dest: find_Some_in_set)
  qed
  then have "count_fits 1 (tally_of ?d (tallies_of counted))"
    using rows_fitD(2) [OF counted] offer(4) \<open>1 \<le> threshold\<close> by (auto simp: tally_fits_def count_fits_def)
  then have "offer_fits (the a)"
    using call authority_of_fits [OF offer(3)] stamp_ids_fit(3) pattern_digest_is_digest [OF sha] offer(9)
    by (simp add: offer_fits_def new_offer_def candidate_fits_def need_fits_def opt_fits_def)
  with counted offer(10) show ?thesis by (auto simp: rows_fit_def)
qed

lemma add_grant_fits:
  assumes fits: "rows_fit st" and sha: "\<forall>t. is_sha (sha t)" and stamp: "stamp_fits stamp"
    and run: "add_grant sha stamp route p what authority basis taskId sessionId st = Inr (r, st')"
    and p: "pattern_fits p" "ap_projectId p = pj_projectId st" "text_fits 2000 what" "authority_fits authority"
    and basis: "opt_fits 100 (gb_needId basis)" "opt_fits 100 (gb_offerId basis)" "count_fits 1 (gb_approvals basis)"
  shows "rows_fit st'" "grant_fits (gr_grant r)"
proof -
  note r = add_grant_Inr [OF run]
  have "text_fits 100 (pj_projectId st)" using p(1) unfolding p(2) [symmetric] by (simp add: pattern_fits_def)
  then show grant: "grant_fits (gr_grant r)"
    using assms stamp_ids_fit [OF stamp] pattern_digest_is_digest [OF sha]
    by (simp add: r(2) new_grant_def grant_fits_def)
  have new: "gr_generation r = 0" "gr_revokedEventId r = None" by (simp_all add: r(2) new_grant_def)
  show "rows_fit st'" using fits grant new by (auto simp: r(3) rows_fit_def opt_fits_def)
qed

lemma answer_offer_fits: "offer_fits f \<Longrightarrow> grant_fits (gr_grant r) \<Longrightarrow> offer_fits (answer_offer r f)"
  by (simp add: offer_fits_def answer_offer_def grant_fits_def opt_fits_def)

lemma set_offers_fits:
  assumes "rows_fit st" "\<And>f. f \<in> set (h (offers_of st)) \<Longrightarrow> offer_fits f"
  shows "rows_fit (set_offers h st)"
  using assms by (simp add: rows_fit_def)

lemma remember_from_need_fits:
  assumes fits: "rows_fit st" and sha: "\<forall>t. is_sha (sha t)" and call: "call_fits stamp (CallRemember need c) st"
    and project: "ap_projectId (cn_pattern c) = pj_projectId st" and run: "remember_from_need sha stamp need c st = Inr (r, st')"
  shows "rows_fit st'"
  using run
proof (cases rule: remember_from_need_Inr)
  case existing
  with fits show ?thesis by simp
next
  case (granted receipt authority approvals st'')
  have "count_fits 1 (max 1 approvals)" using granted(7) rows_fitD(2) [OF fits] by (auto simp: tally_fits_def count_fits_def)
  with call have mid: "rows_fit st''" "grant_fits (gr_grant r)"
    using authority_of_fits [OF granted(4)]
    by (auto intro!: add_grant_fits [OF fits sha _ granted(6) _ project] simp: candidate_fits_def need_fits_def opt_fits_def)
  show ?thesis unfolding granted(8)
    using rows_fitD(3) [OF mid(1)] answer_offer_fits [OF _ mid(2)] by (intro set_offers_fits [OF mid(1)]) auto
qed

lemma answer_one_fits:
  assumes "rows_fit st" "grant_fits (gr_grant r)"
  shows "rows_fit (set_offers (update_first (\<lambda>f. ro_id f = i) (answer_offer r)) st)"
  using rows_fitD(3) [OF assms(1)] answer_offer_fits [OF _ assms(2)]
  by (intro set_offers_fits [OF assms(1)]) (auto dest: set_update_first)

lemma accept_offer_fits:
  assumes ok: "approvals_ok sha clock st" and fits: "rows_fit st" and sha: "\<forall>t. is_sha (sha t)" and stamp: "stamp_fits stamp"
    and run: "accept_offer sha stamp i st = Inr (r, st')"
  shows "rows_fit st'"
  using run
proof (cases rule: accept_offer_Inr)
  case accepted
  with fits show ?thesis by simp
next
  case (live offer)
  have "grant_fits (gr_grant r)" using rows_fitD(1) [OF fits] active_grant_Some [OF live(4)] by blast
  then show ?thesis unfolding live(5) by (rule answer_one_fits [OF fits])
next
  case (granted offer st'')
  have offer: "offer \<in> set (offers_of st)" using find_offer_Some [OF granted(1)] by simp
  have "offer_fits offer" "ap_projectId (ro_pattern offer) = pj_projectId st"
    using rows_fitD(3) [OF fits offer] approvals_okD(5) [OF ok offer] by (simp_all add: offer_consistent_def)
  then have mid: "rows_fit st''" "grant_fits (gr_grant r)"
    by (auto intro!: add_grant_fits [OF fits sha stamp granted(5)] simp: offer_fits_def opt_fits_def)
  show ?thesis unfolding granted(6) by (rule answer_one_fits [OF mid])
qed

lemma decline_offer_fits:
  assumes fits: "rows_fit st" and stamp: "stamp_fits stamp" and run: "decline_offer stamp i st = Inr (f, st')"
  shows "rows_fit st'"
  using run
proof (cases rule: decline_offer_Inr)
  case again
  with fits show ?thesis by simp
next
  case (declined offer)
  let ?h = "\<lambda>f. f\<lparr>ro_state := OfferDeclined, ro_decidedAt := Some (rs_now stamp), ro_eventId := Some (CHR ''E'' # rs_entry stamp)\<rparr>"
  have "offer_fits (?h f)" if "offer_fits f" for f using that stamp_ids_fit(1) [OF stamp] by (simp add: offer_fits_def opt_fits_def)
  with fits show ?thesis unfolding declined(3)
    by (intro set_offers_fits) (auto simp: rows_fit_def dest!: set_update_first)
qed

lemma revoke_grant_fits:
  assumes ok: "approvals_ok sha clock st" and fits: "rows_fit st" and stamp: "stamp_fits stamp" and run: "revoke_grant stamp i st = Inr (r, st')"
  shows "rows_fit st'"
  using run
proof (cases rule: revoke_grant_Inr)
  case again
  with fits show ?thesis by simp
next
  case (revoked old)
  have "grant_fits (gr_grant x) \<and> gr_generation x \<in> {0, 1} \<and> opt_fits 100 (gr_revokedEventId x)" if x: "x \<in> set (grants_of st')" for x
  proof -
    from x have "x \<in> set (update_first (\<lambda>r. gt_id (gr_grant r) = i) (revoked_now stamp) (grants_of st))" by (simp add: revoked(4))
    then have "x \<in> set (map (\<lambda>r. if gt_id (gr_grant r) = i then revoked_now stamp r else r) (grants_of st))"
      using update_first_map [OF approvals_okD(1) [OF ok]] by simp
    then obtain y where y: "y \<in> set (grants_of st)" "x = (if gt_id (gr_grant y) = i then revoked_now stamp y else y)" by auto
    show ?thesis
    proof (cases "gt_id (gr_grant y) = i")
      case True
      with y find_grant_Some [OF revoked(1)] approvals_okD(1) [OF ok] have "y = old" by (auto simp: distinct_map dest: inj_onD)
      with approvals_okD(2) [OF ok y(1)] revoked(2) have "gr_generation y = 0" by (simp add: grant_consistent_def Let_def)
      with True y rows_fitD(1) [OF fits y(1)] stamp_ids_fit(1) [OF stamp] show ?thesis by (simp add: revoked_now_def opt_fits_def)
    qed (use y rows_fitD(1) [OF fits y(1)] in simp)
  qed
  with fits show ?thesis by (auto simp: rows_fit_def revoked(4))
qed

lemma remember_step_fits:
  assumes ok: "approvals_ok sha clock st" and fits: "rows_fit st" and sha: "\<forall>t. is_sha (sha t)" and "1 \<le> threshold"
    and project: "call_project (pj_projectId st) call" and call: "call_fits stamp call st"
  shows "rows_fit (remember_step sha threshold day_text stamp call st)"
proof (cases call)
  case (CallNote need c decision)
  with fits note_decision_fits [OF fits sha \<open>1 \<le> threshold\<close>, of stamp need c decision] call show ?thesis
    by (auto simp: state_after_def split: sum.splits)
next
  case (CallRemember need c)
  with fits remember_from_need_fits [OF fits sha, of stamp need c] call project show ?thesis by (auto simp: state_after_def split: sum.splits)
next
  case (CallAccept i)
  with fits accept_offer_fits [OF ok fits sha, of stamp i] call show ?thesis by (auto simp: state_after_def split: sum.splits)
next
  case (CallDecline i)
  with fits decline_offer_fits [OF fits, of stamp i] call show ?thesis by (auto simp: state_after_def split: sum.splits)
next
  case (CallRevoke i)
  with fits revoke_grant_fits [OF ok fits, of stamp i] call show ?thesis by (auto simp: state_after_def split: sum.splits)
next
  case (CallCover need c)
  with rows_fit_same [OF cover_keeps(1) fits] show ?thesis by simp
qed

lemma remembering_fits:
  assumes "remembering call_fits sha threshold day_text clock st" "\<forall>t. is_sha (sha t)" "1 \<le> threshold"
  shows "rows_fit st"
  using assms(1)
proof (induction rule: remembering.induct)
  case (unused st clock)
  then show ?case by (simp add: rows_fit_def ledger_of_def empty_ledger_def)
next
  case (called clock st stamp call)
  then show ?case using remember_step_fits [OF remembering_ok [OF called.hyps(1)] called.IH assms(2,3)] by blast
next
  case (worked clock st st')
  then show ?case using rows_fit_same [OF other_entries_ledger] by blast
qed

text \<open>Without the bounds it does not load: counting saves an offer whose words or targets are longer than the saved rows may be.\<close>

lemma unfit_offer_does_not_load:
  assumes "note_decision sha threshold stamp c GoAhead need st = Inr (Some f, st')"
    and "2000 < utf16_units (cn_what c) \<or> (\<exists>t \<in> set (pd_targets (ap_destination (cn_pattern c))). 1000 < utf16_units t)"
  shows "\<not> valid_ledger sha st'"
  using assms(1)
proof (cases rule: note_decision_Inr)
  case (offer authority counted)
  then have "f \<in> set (offers_of st')" "ro_what f = cn_what c" "ro_pattern f = cn_pattern c" by (simp_all add: new_offer_def)
  moreover from this(1) have "pj_ledger st' \<noteq> None" by (cases "pj_ledger st'") (simp_all add: ledger_of_def empty_ledger_def)
  ultimately have "offer_fits f" if "valid_ledger sha st'" using that by (auto simp: valid_ledger_def ledger_fits_def list_all_iff)
  moreover have "\<not> offer_fits f"
    using assms(2) unfolding offer_fits_def pattern_fits_def \<open>ro_what f = _\<close> \<open>ro_pattern f = _\<close> list_all_iff text_fits_def by (meson not_le)
  ultimately show ?thesis by blast
qed simp_all

end
