(* ===== verification/Approval_Writes.thy ===== *)
theory Approval_Writes
  imports Approval_Evidence
begin

text \<open>A covered request, the check before its write, and what recovery carries over.\<close>

section \<open>Covered\<close>

lemma cover_Some:
  assumes "cover sha day_text stamp need c st = (Some r, need', st')"
  obtains identity z e where "an_approval need = Some identity" "an_state need = NeedOpen" "an_receipt need = None" "an_authorization need = None"
    "coverage sha c st = Covered r" "z = evidence_of sha stamp (pj_projectId st) need identity r"
    "need' = need\<lparr>an_authorization := Some (Remembered z), an_state := NeedGoAhead, an_decidedAt := Some (rs_now stamp),
       an_decidedFrom := ''remembered-approval'', an_allowForTask := False, an_boundary := None,
       an_execution := Some \<lparr>ex_state = ExecPending, ex_eventId = None, ex_completedAt = None, ex_reason = None, ex_conflicts = []\<rparr>\<rparr>"
    "ae_id e = CHR ''E'' # rs_entry stamp" "ae_kind e = ''remembered-authorized''" "ae_approvalId e = Some (an_id need)" "ae_time e = rs_now stamp"
    "ae_authorization e = Some z" "st' = put_need need' (push_entry e st)"
proof -
  from assms obtain identity where identity: "an_approval need = Some identity" by (auto simp: cover_def split: option.splits)
  with assms have "open": "an_state need = NeedOpen" "an_receipt need = None" "an_authorization need = None"
    by (auto simp: cover_def split: if_splits)
  have covered: "coverage sha c st = Covered r"
    using assms identity "open" by (auto simp: cover_def Let_def split: coverage_result.splits option.splits)
  show thesis
    by (rule that [OF identity "open" covered refl]) (use assms identity "open" covered in \<open>auto simp: cover_def Let_def note_entry_def\<close>)
qed

lemma find_grant_member: "approvals_ok sha clock st \<Longrightarrow> r \<in> set (grants_of st) \<Longrightarrow> find_grant (gt_id (gr_grant r)) st = Some r"
  unfolding find_grant_def by (rule find_by_key [OF approvals_okD(1)])

text \<open>What a candidate is, of a request: a step of the harness, or the proposal of the request itself on a session of Codex.\<close>

definition candidate_of :: "approval_need \<Rightarrow> approval_session \<Rightarrow> approval_candidate \<Rightarrow> approval_state \<Rightarrow> bool" where
  "candidate_of need s c st \<longleftrightarrow> find (\<lambda>s. av_id s = an_sessionId need) (pj_sessions st) = Some s \<and> av_taskId s = an_taskId need \<and> \<not> av_sample s
     \<and> (if ap_kind (cn_pattern c) = CodexProposal
        then \<not> an_harness need \<and> av_route s = Some ''codex'' \<and> \<not> av_slotted s
          \<and> (\<exists>what. pattern_for_proposal (pj_projectId st) need = Some (cn_pattern c, cn_deletes c, what))
        else an_harness need)"

definition identity_fits :: "approval_identity \<Rightarrow> bool" where
  "identity_fits i \<longleftrightarrow> is_digest (ai_proposalDigest i) \<and> (is_digest (ai_actionDigest i) \<or> is_sha (ai_actionDigest i)) \<and> is_digest (ai_baseDigest i)"

definition no_collision :: "(string \<Rightarrow> string) \<Rightarrow> approval_pattern \<Rightarrow> approval_pattern \<Rightarrow> bool" where
  "no_collision sha p q \<longleftrightarrow> (sha (json_text (pattern_payload p)) = sha (json_text (pattern_payload q))
     \<longrightarrow> json_text (pattern_payload p) = json_text (pattern_payload q))"

lemma covered_pattern:
  assumes "approvals_ok sha clock st" "coverage sha c st = Covered r" "no_collision sha (gt_pattern (gr_grant r)) (cn_pattern c)"
  shows "gt_pattern (gr_grant r) = cn_pattern c"
proof -
  note covered = coverage_Covered [OF assms(2)]
  have "pattern_digest sha (gt_pattern (gr_grant r)) = pattern_digest sha (cn_pattern c)"
    using approvals_okD(2) [OF assms(1) covered(1)] covered(3) by (simp add: grant_consistent_def Let_def)
  from same_digest_same_pattern [OF this] show ?thesis using assms(3) by (simp add: no_collision_def)
qed

lemma proposal_pattern_sel:
  assumes "pattern_for_proposal projectId need = Some (p, deletes, what)"
  obtains accountRoute changes where "an_connection need = Some (''codex'', accountRoute)" "an_preview need = Some changes"
    "pc_engine (ap_connection p) = ''codex''" "pc_accountRoute (ap_connection p) = Some accountRoute"
    "pd_targets (ap_destination p) = sorted_set (map (\<lambda>c. ''file:'' @ pg_path c) changes)" "deletes = list_ex (\<lambda>c. pg_after c = None) changes"
    "pd_kind (ap_destination p) = LocalPlace"
  using assms by (auto simp: pattern_for_proposal_def proposal_targets_def proposal_pattern_def Let_def split: option.splits prod.splits if_splits)

lemma covered_evidence:
  assumes ok: "approvals_ok sha clock st" and later: "clock \<le> rs_now stamp" and fresh: "fresh_stamp stamp st" and fits: "rows_fit st"
    and sha: "\<forall>t. is_sha (sha t)" and stamp: "stamp_fits stamp" and need: "need_fits need" "\<not> an_reviewed need"
    and run: "cover sha day_text stamp need c st = (Some r, need', st')" and identity: "\<forall>i. an_approval need = Some i \<longrightarrow> identity_fits i"
    and candidate: "candidate_of need s c st" and clash: "no_collision sha (gt_pattern (gr_grant r)) (cn_pattern c)"
  shows "valid_authorization sha st' need'" "\<exists>z. an_authorization need' = Some (Remembered z) \<and> rz_grantId z = gt_id (gr_grant r) \<and> rz_grantGeneration z = 0"
    "find_grant (gt_id (gr_grant r)) st' = Some r" "gr_revokedAt r = None" "gr_generation r = 0" "gt_pattern (gr_grant r) = cn_pattern c"
proof -
  from run obtain i z e where c: "an_approval need = Some i" "an_state need = NeedOpen" "an_receipt need = None" "an_authorization need = None"
    "coverage sha c st = Covered r" "z = evidence_of sha stamp (pj_projectId st) need i r"
    "need' = need\<lparr>an_authorization := Some (Remembered z), an_state := NeedGoAhead, an_decidedAt := Some (rs_now stamp),
       an_decidedFrom := ''remembered-approval'', an_allowForTask := False, an_boundary := None,
       an_execution := Some \<lparr>ex_state = ExecPending, ex_eventId = None, ex_completedAt = None, ex_reason = None, ex_conflicts = []\<rparr>\<rparr>"
    "ae_id e = CHR ''E'' # rs_entry stamp" "ae_kind e = ''remembered-authorized''" "ae_approvalId e = Some (an_id need)" "ae_time e = rs_now stamp"
    "ae_authorization e = Some z" "st' = put_need need' (push_entry e st)"
    by (rule cover_Some)
  note covered = coverage_Covered [OF c(5)]
  show pattern: "gt_pattern (gr_grant r) = cn_pattern c" by (rule covered_pattern [OF ok c(5) clash])
  have reads: "pj_projectId st' = pj_projectId st" "grants_of st' = grants_of st" "pj_sessions st' = pj_sessions st"
    "pj_history st' = pj_history st @ [e]" by (simp_all add: c(13))
  show found: "find_grant (gt_id (gr_grant r)) st' = Some r"
    using find_grant_member [OF ok covered(1)] by (simp add: find_grant_def reads)
  show active: "gr_revokedAt r = None" "gr_generation r = 0" using covered(2) by (simp_all add: is_active_def)
  have g: "grant_fits (gr_grant r)" "record_fits r"
    using rows_fitD(1) [OF fits covered(1)] by (auto simp: record_fits_def count_fits_def)
  have created: "gt_createdAt (gr_grant r) \<le> rs_now stamp" using approvals_okD(10) [OF ok] covered(1) later by (force simp: grants_dated_def)
  have z: "rz_grantId z = gt_id (gr_grant r)" "rz_grantGeneration z = 0" "rz_eventId z = CHR ''E'' # rs_entry stamp"
    "rz_authorizedAt z = rs_now stamp" "rz_accountRoute z = pc_accountRoute (ap_connection (cn_pattern c))"
    "rz_engine z = pc_engine (ap_connection (cn_pattern c))"
    using active(2) pattern by (simp_all add: c(6) evidence_of_def Let_def)
  then show "\<exists>z. an_authorization need' = Some (Remembered z) \<and> rz_grantId z = gt_id (gr_grant r) \<and> rz_grantGeneration z = 0" by (simp add: c(7))
  have "find (\<lambda>x. ae_id x = rz_eventId z) (pj_history st) = None" using fresh by (auto simp: z fresh_stamp_def find_None_iff image_iff)
  then have event: "find (\<lambda>x. ae_id x = rz_eventId z) (pj_history st') = Some e" using c(8) z(3) by (simp add: reads find_append)
  have "text_fits 100 (pj_projectId st)"
    using approvals_okD(2) [OF ok covered(1)] g(1) by (simp add: grant_fits_def grant_consistent_def Let_def)
  then have "evidence_fits z"
    using g(1) identity c(1) need(1) stamp_ids_fit [OF stamp] sha active(2) unfolding evidence_fits_def
    by (simp add: c(6) evidence_of_def Let_def grant_fits_def pattern_fits_def identity_fits_def need_fits_def grant_digest_def
      payload_digest_is_digest)
  moreover have "evidence_matches sha st' need' z r"
  proof -
    have session: "find (\<lambda>s. av_id s = an_sessionId need') (pj_sessions st') = Some s" "av_taskId s = an_taskId need" "\<not> av_sample s"
      using candidate by (simp_all add: candidate_of_def reads c(7))
    have same: "pattern_for_proposal (pj_projectId st') need' = pattern_for_proposal (pj_projectId st) need"
      by (simp add: pattern_for_proposal_def reads c(7))
    have connection: "an_connection need' = an_connection need" by (simp add: c(7))
    have kind: "(ap_kind (cn_pattern c) = CodexProposal) \<noteq> an_harness need" using candidate by (auto simp: candidate_of_def split: if_splits)
    have proposal: "proposal_still sha st' need' (Some s) z r" if "ap_kind (cn_pattern c) = CodexProposal"
    proof -
      from that candidate obtain what where what: "pattern_for_proposal (pj_projectId st) need = Some (cn_pattern c, cn_deletes c, what)"
        "av_route s = Some ''codex''" "\<not> av_slotted s" by (auto simp: candidate_of_def)
      from what(1) obtain accountRoute where "an_connection need = Some (''codex'', accountRoute)"
        "pc_engine (ap_connection (cn_pattern c)) = ''codex''" "pc_accountRoute (ap_connection (cn_pattern c)) = Some accountRoute"
        by (rule proposal_pattern_sel)
      with what covered(3) show ?thesis unfolding proposal_still_def same connection by (simp add: z)
    qed
    show ?thesis
      unfolding evidence_matches_def Let_def session(1) event pattern
      using kind proposal session c(1,3,8-12) need(2) active created
      by (simp add: c(6,7) evidence_of_def Let_def reads execution_fits_def opt_fits_def pattern)
  qed
  moreover have "execution_matches sha st' need' z p \<lparr>ex_state = ExecPending, ex_eventId = None, ex_completedAt = None, ex_reason = None, ex_conflicts = []\<rparr>" for p
    by (simp add: execution_matches_def)
  ultimately show "valid_authorization sha st' need'" using found g(2) z(1) by (simp add: valid_authorization_def c(7))
qed

lemma covered_write:
  assumes "valid_authorization sha st need" "an_authorization need = Some (Remembered z)" "find_grant (rz_grantId z) st = Some r"
    "gr_generation r = rz_grantGeneration z" "gr_revokedAt r = None"
  shows "assert_current sha on_f need None st = Inr ()"
    "pd_kind (ap_destination (gt_pattern (gr_grant r))) = LocalPlace \<Longrightarrow> list_all (write_covered on_f (gt_pattern (gr_grant r))) ws
       \<Longrightarrow> assert_current sha on_f need (Some ws) st = Inr ()"
  using assms by (simp_all add: assert_current_def)

text \<open>The writes of a proposal that deletes nothing are to the files its pattern names.\<close>

lemma starts_with_append [simp]: "starts_with s (s @ t)"
  by (induction s) auto

lemma proposal_writes_covered:
  assumes "pattern_for_proposal projectId need = Some (p, False, what)" "an_preview need = Some changes"
  shows "list_all (write_covered on_f p) (map (\<lambda>c. \<lparr>wi_path = pg_path c, wi_text = pg_after c\<rparr>) changes)" "pd_kind (ap_destination p) = LocalPlace"
proof -
  from assms(1) obtain changes' where c: "an_preview need = Some changes'"
    "pd_targets (ap_destination p) = sorted_set (map (\<lambda>c. ''file:'' @ pg_path c) changes')" "False = list_ex (\<lambda>c. pg_after c = None) changes'"
    "pd_kind (ap_destination p) = LocalPlace" by (rule proposal_pattern_sel)
  then have "changes' = changes" using assms(2) by simp
  moreover have "relative_name on_f (pg_path x) \<in> set (granted_files on_f p)" if "x \<in> set changes'" for x
  proof -
    have "''file:'' @ pg_path x \<in> set (filter (starts_with ''file:'') (pd_targets (ap_destination p)))"
      using that starts_with_append [of "''file:''"] by (simp add: c(2) sorted_set_def del: append_Cons)
    then have "relative_name on_f (drop 5 (''file:'' @ pg_path x)) \<in> set (granted_files on_f p)" unfolding granted_files_def by (simp only: set_map image_eqI)
    then show ?thesis by simp
  qed
  ultimately show "list_all (write_covered on_f p) (map (\<lambda>c. \<lparr>wi_path = pg_path c, wi_text = pg_after c\<rparr>) changes)"
    using c(3) by (auto simp: list_all_iff list_ex_iff write_covered_def)
  show "pd_kind (ap_destination p) = LocalPlace" by (rule c(4))
qed

section \<open>Before a write\<close>

lemma assert_current_Inr:
  assumes "assert_current sha on_f need (Some ws) st = Inr ()"
  obtains z r where "an_authorization need = Some (Remembered z)" "find_grant (rz_grantId z) st = Some r" "valid_authorization sha st need"
    "gr_revokedAt r = None" "gr_generation r = rz_grantGeneration z" "pd_kind (ap_destination (gt_pattern (gr_grant r))) = LocalPlace"
    "list_all (write_covered on_f (gt_pattern (gr_grant r))) ws"
  using assms by (auto simp: assert_current_def split: if_splits option.splits need_authorization.splits)

lemma find_update_first_same: "(\<And>x. k (f x) = k x) \<Longrightarrow> find (\<lambda>x. k x = i) (update_first (\<lambda>x. k x = i) f xs) = map_option f (find (\<lambda>x. k x = i) xs)"
  by (induction xs) auto

lemma revoke_grant_found:
  assumes "revoke_grant stamp i st = Inr (r, st')"
  shows "find_grant i st' = Some r \<and> gr_revokedAt r \<noteq> None"
  using assms
proof (cases rule: revoke_grant_Inr)
  case (revoked old)
  have "gt_id (gr_grant (revoked_now stamp x)) = gt_id (gr_grant x)" for x by (simp add: revoked_now_def)
  from find_update_first_same [of "\<lambda>r. gt_id (gr_grant r)", OF this] revoked have "find_grant i st' = Some r" by (simp add: find_grant_def)
  moreover have "gr_revokedAt r \<noteq> None" by (simp add: revoked(3) revoked_now_def)
  ultimately show ?thesis by simp
qed simp

text \<open>A clock that was set back: a grant revoked before the time it was made is saved, and the project does not load.\<close>

lemma early_revocation_does_not_load:
  assumes "revoke_grant stamp i st = Inr (r, st')" and "find_grant i st = Some old" and "gr_revokedAt old = None"
    and "rs_now stamp < gt_createdAt (gr_grant old)"
  shows "\<not> valid_ledger sha st'"
proof
  assume valid: "valid_ledger sha st'"
  have found: "find_grant i st' = Some r" using revoke_grant_found [OF assms(1)] by simp
  then have r: "r \<in> set (grants_of st')" by (auto simp: find_grant_def find_Some_iff)
  then have "pj_ledger st' \<noteq> None" by (cases "pj_ledger st'") (simp_all add: ledger_of_def empty_ledger_def)
  with valid r have consistent: "grant_consistent sha st' r" by (simp add: valid_ledger_def ledger_consistent_def list_all_iff)
  from assms(1) show False
  proof (cases rule: revoke_grant_Inr)
    case again
    with assms(2,3) show False by simp
  next
    case (revoked old')
    then have "gr_revokedAt r = Some (rs_now stamp)" "gr_grant r = gr_grant old" using assms(2) by (simp_all add: revoked_now_def)
    with consistent assms(4) show False by (simp add: grant_consistent_def Let_def)
  qed
qed

lemma revoked_write_refused:
  assumes "an_authorization need = Some (Remembered z)" "find_grant (rz_grantId z) st = Some r" "gr_revokedAt r \<noteq> None"
  shows "\<exists>e. assert_current sha on_f need writes st = Inl e"
  using assms by (simp add: assert_current_def)

section \<open>Recovery\<close>

lemma carry_event_has:
  "\<exists>e \<in> set h. ae_id e = i \<Longrightarrow> \<exists>e \<in> set (fold (carry_event current) evs h). ae_id e = i"
proof (induction evs arbitrary: h)
  case (Cons v evs)
  have "set h \<subseteq> set (carry_event current v h)" by (auto simp: carry_event_def split: option.split)
  with Cons show ?case by (metis fold_simps(2) subsetD)
qed simp

lemma carry_event_brings:
  assumes "Some i \<in> set evs" "find (\<lambda>e. ae_id e = i) current \<noteq> None" "i \<noteq> []"
  shows "\<exists>e \<in> set (fold (carry_event current) evs h). ae_id e = i"
  using assms(1)
proof (induction evs arbitrary: h)
  case (Cons v evs)
  show ?case
  proof (cases "v = Some i")
    case True
    have "\<exists>e \<in> set (carry_event current v h). ae_id e = i"
      using True assms(2,3) by (auto simp: carry_event_def list_ex_iff split: option.splits dest: find_Some_in_set)
    then show ?thesis by (simp add: carry_event_has)
  next
    case False
    with Cons show ?thesis by simp
  qed
qed simp

lemma carry_remembered_rows:
  assumes "pj_ledger prepared \<noteq> None" "pj_ledger current \<noteq> None"
  shows "grants_of (carry_remembered prepared current) = map (fst \<circ> carry_grant (grants_of current)) (grants_of prepared)"
    "offers_of (carry_remembered prepared current) = map (fst \<circ> carry_offer (offers_of current)) (offers_of prepared)"
    "pj_history (carry_remembered prepared current) = fold (carry_event (pj_history current))
       (map snd (map (carry_grant (grants_of current)) (grants_of prepared)) @ map snd (map (carry_offer (offers_of current)) (offers_of prepared)))
       (pj_history prepared)"
  using assms by (auto simp: carry_remembered_def ledger_of_def Let_def)

lemma carry_grant_same: "gr_grant (fst (carry_grant latest r)) = gr_grant r"
  by (simp add: carry_grant_def split: option.split)

lemma carry_offer_same: "ro_id (fst (carry_offer latest f)) = ro_id f"
  by (simp add: carry_offer_def split: option.split)

lemma find_grant_carried:
  assumes "pj_ledger prepared \<noteq> None" "pj_ledger current \<noteq> None"
  shows "find_grant i (carry_remembered prepared current) = map_option (fst \<circ> carry_grant (grants_of current)) (find_grant i prepared)"
    "find_offer i (carry_remembered prepared current) = map_option (fst \<circ> carry_offer (offers_of current)) (find_offer i prepared)"
  using find_map_same [of "\<lambda>r. gt_id (gr_grant r)" "fst \<circ> carry_grant (grants_of current)" i "grants_of prepared"]
    find_map_same [of ro_id "fst \<circ> carry_offer (offers_of current)" i "offers_of prepared"]
  by (simp_all add: find_grant_def find_offer_def carry_remembered_rows [OF assms] carry_grant_same carry_offer_same)

end
