(* ===== verification/Approval_Recovery.thy ===== *)
theory Approval_Recovery
  imports Approval_Writes
begin

text \<open>
  Recovery persists an image of the project prepared before a crash, with what the person decided after it was prepared carried
  onto it. The image and the project it replaces are of one project: rows of one id were made as one.
\<close>

definition one_project :: "approval_state \<Rightarrow> approval_state \<Rightarrow> bool" where
  "one_project prepared current \<longleftrightarrow> inj_on ae_id (set (pj_history prepared) \<union> set (pj_history current))
     \<and> (\<forall>r \<in> set (grants_of prepared). \<forall>x \<in> set (grants_of current). gt_id (gr_grant x) = gt_id (gr_grant r) \<longrightarrow> gr_grant x = gr_grant r)"

section \<open>The history\<close>

lemma carry_event_subset: "set h \<subseteq> set (carry_event current v h)" "set (carry_event current v h) \<subseteq> set h \<union> set current"
  by (auto simp: carry_event_def split: option.split dest: find_Some_in_set)

lemma carry_events_subset: "set h \<subseteq> set (fold (carry_event current) vs h)" "set (fold (carry_event current) vs h) \<subseteq> set h \<union> set current"
proof (induction vs arbitrary: h)
  case (Cons v vs)
  case 1
  show ?case using carry_event_subset(1) [of h current v] Cons(1) [of "carry_event current v h"] by auto
  case 2
  show ?case using carry_event_subset(2) [of current v h] Cons(2) [of "carry_event current v h"] by auto
qed simp_all

lemma entry_of_member: "inj_on ae_id (set h) \<Longrightarrow> e \<in> set h \<Longrightarrow> entry_of (ae_id e) h = Some e"
proof (induction h rule: rev_induct)
  case (snoc x h)
  then show ?case by (auto simp: inj_on_def)
qed simp

lemma carried_entry:
  assumes "one_project prepared current" "entry_of i (pj_history prepared) = Some e"
  shows "entry_of i (fold (carry_event (pj_history current)) vs (pj_history prepared)) = Some e"
proof -
  let ?h = "fold (carry_event (pj_history current)) vs (pj_history prepared)"
  from assms(2) have e: "e \<in> set (pj_history prepared)" "ae_id e = i" using entry_of_Some by blast+
  have "inj_on ae_id (set ?h)"
    using assms(1) carry_events_subset(2) unfolding one_project_def by (blast intro: inj_on_subset)
  from entry_of_member [OF this] show ?thesis using carry_events_subset(1) e by blast
qed

lemma brought_entry:
  assumes "one_project prepared current" "entry_of i (pj_history current) = Some e" "Some i \<in> set vs" "i \<noteq> []"
  shows "entry_of i (fold (carry_event (pj_history current)) vs (pj_history prepared)) = Some e"
proof -
  let ?h = "fold (carry_event (pj_history current)) vs (pj_history prepared)"
  from assms(2) have e: "e \<in> set (pj_history current)" "ae_id e = i" using entry_of_Some by blast+
  then have "find (\<lambda>e. ae_id e = i) (pj_history current) \<noteq> None" by (auto simp: find_None_iff)
  from carry_event_brings [OF assms(3) this assms(4)] obtain e' where e': "e' \<in> set ?h" "ae_id e' = i" by blast
  have inj: "inj_on ae_id (set (pj_history prepared) \<union> set (pj_history current))" using assms(1) by (simp add: one_project_def)
  have "inj_on ae_id (set ?h)" using carry_events_subset(2) by (blast intro: inj_on_subset [OF inj])
  moreover have "e' = e" using inj_onD [OF inj, of e' e] e e' carry_events_subset(2) by blast
  ultimately show ?thesis using entry_of_member e' by blast
qed

section \<open>The rows\<close>

lemma valid_ledgerD:
  assumes "valid_ledger sha st"
  shows "r \<in> set (grants_of st) \<Longrightarrow> record_fits r \<and> grant_consistent sha st r" "f \<in> set (offers_of st) \<Longrightarrow> offer_fits f \<and> offer_consistent sha st f"
proof -
  have none: "grants_of st = []" "offers_of st = []" if "pj_ledger st = None" using that by (simp_all add: ledger_of_def empty_ledger_def)
  show "r \<in> set (grants_of st) \<Longrightarrow> record_fits r \<and> grant_consistent sha st r" "f \<in> set (offers_of st) \<Longrightarrow> offer_fits f \<and> offer_consistent sha st f"
    using assms none unfolding valid_ledger_def by (auto simp: ledger_fits_def ledger_consistent_def list_all_iff)
qed

lemma carry_grant_cases:
  obtains "fst (carry_grant latest r) = r"
  | x where "x \<in> set latest" "gt_id (gr_grant x) = gt_id (gr_grant r)" "gr_generation r < gr_generation x"
      "carry_grant latest r = (r\<lparr>gr_generation := gr_generation x, gr_revokedAt := gr_revokedAt x, gr_revokedEventId := gr_revokedEventId x\<rparr>,
         gr_revokedEventId x)"
proof (cases "find (\<lambda>x. gt_id (gr_grant x) = gt_id (gr_grant r)) latest")
  case None
  then show thesis using that(1) by (simp add: carry_grant_def)
next
  case (Some x)
  then have "x \<in> set latest" "gt_id (gr_grant x) = gt_id (gr_grant r)" by (auto simp: find_Some_iff)
  with Some that show thesis by (cases "gr_generation r < gr_generation x") (simp_all add: carry_grant_def)
qed

lemma carry_offer_cases:
  obtains "fst (carry_offer latest f) = f"
  | x where "x \<in> set latest" "ro_state f = OfferOpen" "ro_state x = OfferDeclined"
      "carry_offer latest f = (f\<lparr>ro_state := OfferDeclined, ro_decidedAt := ro_decidedAt x, ro_eventId := ro_eventId x\<rparr>, ro_eventId x)"
proof (cases "find (\<lambda>x. ro_id x = ro_id f) latest")
  case None
  then show thesis using that(1) by (simp add: carry_offer_def)
next
  case (Some x)
  then have x: "x \<in> set latest" by (auto simp: find_Some_iff)
  show thesis
  proof (cases "ro_state f = OfferOpen \<and> ro_state x = OfferDeclined")
    case True
    with Some x show thesis by (intro that(2) [of x]) (simp_all add: carry_offer_def)
  next
    case False
    with Some have "fst (carry_offer latest f) = f" unfolding carry_offer_def by (simp only: option.case if_False fst_conv)
    then show thesis by (rule that(1))
  qed
qed

lemma carried_revoked:
  assumes "valid_ledger sha prepared" "valid_ledger sha current" "r \<in> set (grants_of prepared)"
  shows "gr_revokedAt r \<noteq> None \<Longrightarrow> gr_revokedAt (fst (carry_grant (grants_of current) r)) \<noteq> None"
    "find_grant (gt_id (gr_grant r)) current = Some x \<Longrightarrow> gr_revokedAt x \<noteq> None \<Longrightarrow> gr_revokedAt (fst (carry_grant (grants_of current) r)) \<noteq> None"
proof -
  have r: "0 \<le> gr_generation r" "gr_generation r = 0 \<longleftrightarrow> gr_revokedAt r = None"
    using valid_ledgerD(1) [OF assms(1,3)] by (simp_all add: record_fits_def count_fits_def grant_consistent_def Let_def)
  have x: "gr_generation x = 0 \<longleftrightarrow> gr_revokedAt x = None" "0 \<le> gr_generation x" if "x \<in> set (grants_of current)" for x
    using valid_ledgerD(1) [OF assms(2) that] by (simp_all add: record_fits_def count_fits_def grant_consistent_def Let_def)
  show "gr_revokedAt (fst (carry_grant (grants_of current) r)) \<noteq> None" if "gr_revokedAt r \<noteq> None"
  proof (cases rule: carry_grant_cases [of "grants_of current" r])
    case (2 x)
    then show ?thesis using x [of x] r(1) by simp
  qed (use that in simp)
  show "gr_revokedAt (fst (carry_grant (grants_of current) r)) \<noteq> None"
    if "find_grant (gt_id (gr_grant r)) current = Some x" "gr_revokedAt x \<noteq> None" for x
  proof -
    have "x \<in> set (grants_of current)" using that(1) by (auto simp: find_grant_def find_Some_iff)
    then have "0 < gr_generation x" using x [of x] that(2) by auto
    then show ?thesis using that r by (auto simp: carry_grant_def find_grant_def)
  qed
qed

lemma distinct_map_filter_members:
  assumes "distinct (map k (filter P xs))" and "\<And>x. x \<in> set xs \<Longrightarrow> P (f x) \<Longrightarrow> P x" and "\<And>x. k (f x) = k x"
  shows "distinct (map k (filter P (map f xs)))"
proof -
  have "map k (filter P (map f xs)) = map k (filter (P \<circ> f) xs)" using assms(3) by (simp add: filter_map comp_def)
  moreover have "distinct (map k (filter (P \<circ> f) xs))" using assms(2) by (intro distinct_map_filter_subset [OF assms(1)]) simp
  ultimately show ?thesis by simp
qed

section \<open>The image that is persisted\<close>

lemma carried_project [simp]: "pj_projectId (carry_remembered prepared current) = pj_projectId prepared"
  by (auto simp: carry_remembered_def Let_def split: option.split)

lemma grants_carried:
  assumes valid: "valid_ledger sha prepared" "valid_ledger sha current" and one: "one_project prepared current"
    and ledgers: "pj_ledger prepared \<noteq> None" "pj_ledger current \<noteq> None" and r: "r \<in> set (grants_of prepared)"
  defines "r' \<equiv> fst (carry_grant (grants_of current) r)"
  shows "record_fits r' \<and> grant_consistent sha (carry_remembered prepared current) r'"
proof -
  let ?h = "pj_history (carry_remembered prepared current)"
  have old: "entry_of i ?h = Some e" if "entry_of i (pj_history prepared) = Some e" for i e
    unfolding carry_remembered_rows(3) [OF ledgers] by (rule carried_entry [OF one that])
  have r_ok: "record_fits r" "grant_consistent sha prepared r" using valid_ledgerD(1) [OF valid(1) r] by simp_all
  show ?thesis
  proof (cases rule: carry_grant_cases [of "grants_of current" r])
    case 1
    with r_ok old show ?thesis
      by (auto simp: r'_def grant_consistent_def Let_def split: option.splits)
  next
    case (2 x)
    then have x_ok: "record_fits x" "grant_consistent sha current x" using valid_ledgerD(1) [OF valid(2)] by simp_all
    have same: "gr_grant x = gr_grant r" using one r 2 by (simp add: one_project_def)
    have "0 < gr_generation x" using 2(3) r_ok(1) by (simp add: record_fits_def count_fits_def)
    with x_ok obtain t i e where x: "gr_revokedAt x = Some t" "gr_revokedEventId x = Some i"
        "entry_of i (pj_history current) = Some e" "ae_kind e = ''remembered-approval-revoked''" "gt_createdAt (gr_grant x) \<le> t"
      by (auto simp: grant_consistent_def Let_def split: option.splits)
    have "i \<noteq> []" using x_ok(1) x(2) by (auto simp: record_fits_def opt_fits_def text_fits_def utf16_units_def)
    moreover have "Some i \<in> snd ` carry_grant (grants_of current) ` set (grants_of prepared)" using 2(4) x(2) r by (force simp: image_iff)
    ultimately have new: "entry_of i ?h = Some e"
      unfolding carry_remembered_rows(3) [OF ledgers] by (intro brought_entry [OF one x(3)]) (auto simp: image_comp)
    have r': "r' = r\<lparr>gr_generation := gr_generation x, gr_revokedAt := Some t, gr_revokedEventId := Some i\<rparr>" by (simp add: r'_def 2(4) x)
    have "record_fits r'" using r_ok(1) x_ok(1) by (simp add: r' record_fits_def x)
    moreover have "grant_consistent sha (carry_remembered prepared current) r'"
      using r_ok(2) old x(4,5) new \<open>0 < gr_generation x\<close> same
      by (auto simp: r' grant_consistent_def Let_def split: option.splits)
    ultimately show ?thesis by simp
  qed
qed

lemma offers_carried:
  assumes valid: "valid_ledger sha prepared" "valid_ledger sha current"
    and ledgers: "pj_ledger prepared \<noteq> None" "pj_ledger current \<noteq> None" and f: "f \<in> set (offers_of prepared)"
  defines "f' \<equiv> fst (carry_offer (offers_of current) f)"
  shows "offer_fits f' \<and> offer_consistent sha (carry_remembered prepared current) f'"
proof -
  have ids: "map (\<lambda>r. gt_id (gr_grant r)) (grants_of (carry_remembered prepared current)) = map (\<lambda>r. gt_id (gr_grant r)) (grants_of prepared)"
    by (simp add: carry_remembered_rows [OF ledgers] carry_grant_same)
  have f_ok: "offer_fits f" "offer_consistent sha prepared f" using valid_ledgerD(2) [OF valid(1) f] by simp_all
  then have kept: "offer_consistent sha (carry_remembered prepared current) f" unfolding offer_consistent_def ids carried_project by blast
  show ?thesis
  proof (cases rule: carry_offer_cases [of "offers_of current" f])
    case 1
    with f_ok kept show ?thesis by (simp add: f'_def)
  next
    case (2 x)
    from valid_ledgerD(2) [OF valid(2) this(1)] have x: "offer_fits x" "ro_decidedAt x \<noteq> None" "ro_eventId x \<noteq> None"
      using 2(3) by (auto simp: offer_consistent_def)
    have f': "f' = f\<lparr>ro_state := OfferDeclined, ro_decidedAt := ro_decidedAt x, ro_eventId := ro_eventId x\<rparr>" by (simp add: f'_def 2(4))
    have "offer_fits f'" using f_ok(1) x(1) by (simp add: f' offer_fits_def)
    moreover have "offer_consistent sha (carry_remembered prepared current) f'"
      using kept x(2,3) 2(2) by (simp add: f' offer_consistent_def)
    ultimately show ?thesis by simp
  qed
qed

lemma carried_valid:
  assumes valid: "valid_ledger sha prepared" "valid_ledger sha current" and one: "one_project prepared current"
  shows "valid_ledger sha (carry_remembered prepared current)"
proof (cases "pj_ledger prepared = None \<or> pj_ledger current = None")
  case True
  then have "carry_remembered prepared current = prepared" by (auto simp: carry_remembered_def split: option.split)
  then show ?thesis using valid(1) by simp
next
  case False
  then have ledgers: "pj_ledger prepared \<noteq> None" "pj_ledger current \<noteq> None" by simp_all
  let ?c = "carry_remembered prepared current"
  note rows = carry_remembered_rows [OF ledgers]
  have tallies: "tallies_of ?c = tallies_of prepared" using ledgers by (auto simp: carry_remembered_def ledger_of_def Let_def)
  have old: "ledger_fits (ledger_of prepared)" "ledger_consistent sha prepared" using valid(1) ledgers by (simp_all add: valid_ledger_def)
  have ids: "map (\<lambda>r. gt_id (gr_grant r)) (grants_of ?c) = map (\<lambda>r. gt_id (gr_grant r)) (grants_of prepared)"
    "map ro_id (offers_of ?c) = map ro_id (offers_of prepared)"
    by (simp_all add: rows carry_grant_same carry_offer_same)
  have digests: "map ro_patternDigest (offers_of ?c) = map ro_patternDigest (offers_of prepared)"
    by (simp add: rows carry_offer_def split: option.split)
  have live: "distinct (map (\<lambda>r. gt_patternDigest (gr_grant r)) (filter (\<lambda>r. gr_revokedAt r = None) (grants_of ?c)))"
    unfolding rows(1)
  proof (rule distinct_map_filter_members)
    show "distinct (map (\<lambda>r. gt_patternDigest (gr_grant r)) (filter (\<lambda>r. gr_revokedAt r = None) (grants_of prepared)))"
      using old(2) by (simp add: ledger_consistent_def)
    show "gr_revokedAt r = None" if "r \<in> set (grants_of prepared)" "gr_revokedAt ((fst \<circ> carry_grant (grants_of current)) r) = None" for r
      using carried_revoked(1) [OF valid that(1)] that(2) by (metis comp_apply)
  qed (simp add: carry_grant_same)
  have each: "list_all record_fits (grants_of ?c)" "list_all (grant_consistent sha ?c) (grants_of ?c)"
    "list_all offer_fits (offers_of ?c)" "list_all (offer_consistent sha ?c) (offers_of ?c)"
    using grants_carried [OF valid one ledgers] offers_carried [OF valid ledgers] by (simp_all add: rows list_all_iff)
  have "length (grants_of ?c) = length (grants_of prepared)" "length (offers_of ?c) = length (offers_of prepared)" by (simp_all add: rows)
  with each old(1) have "ledger_fits (ledger_of ?c)" by (simp add: ledger_fits_def tallies)
  moreover have "ledger_consistent sha ?c"
    using each old(2) live unfolding ledger_consistent_def by (simp add: ids digests tallies del: set_map flip: set_map)
  ultimately show ?thesis by (simp add: valid_ledger_def)
qed

section \<open>What the person answered\<close>

lemma carry_nothing: "pj_ledger prepared = None \<or> pj_ledger current = None \<Longrightarrow> carry_remembered prepared current = prepared"
  by (auto simp: carry_remembered_def split: option.split)

lemma no_rows: "pj_ledger st = None \<Longrightarrow> find_grant i st = None \<and> find_offer i st = None"
  by (simp add: find_grant_def find_offer_def ledger_of_def empty_ledger_def)

lemma carried_grants: "map gr_grant (grants_of (carry_remembered prepared current)) = map gr_grant (grants_of prepared)"
proof (cases "pj_ledger prepared = None \<or> pj_ledger current = None")
  case False
  then show ?thesis by (simp add: carry_remembered_rows carry_grant_same)
qed (simp add: carry_nothing)

lemma carried_stays_revoked:
  assumes "valid_ledger sha prepared" "valid_ledger sha current" "find_grant i (carry_remembered prepared current) = Some r"
    and x: "gr_revokedAt x \<noteq> None" "find_grant i prepared = Some x \<or> find_grant i current = Some x"
  shows "gr_revokedAt r \<noteq> None"
proof (cases "pj_ledger prepared = None \<or> pj_ledger current = None")
  case True
  then show ?thesis using assms(3) x no_rows [of prepared i] no_rows [of current i] by (auto simp: carry_nothing)
next
  case False
  then obtain p where p: "find_grant i prepared = Some p" "r = fst (carry_grant (grants_of current) p)"
    using assms(3) by (auto simp: find_grant_carried)
  then have "p \<in> set (grants_of prepared)" "gt_id (gr_grant p) = i" by (auto simp: find_grant_def find_Some_iff)
  with carried_revoked [OF assms(1,2) this(1)] p x show ?thesis by auto
qed

text \<open>The answer to an offer on the image: that of the image, but where it is open there and declined in the current project.\<close>

definition answered_offer :: "remember_offer option \<Rightarrow> remember_offer \<Rightarrow> remember_offer" where
  "answered_offer latest f = (case latest of None \<Rightarrow> f
     | Some x \<Rightarrow> if ro_state f = OfferOpen \<and> ro_state x = OfferDeclined
         then f\<lparr>ro_state := OfferDeclined, ro_decidedAt := ro_decidedAt x, ro_eventId := ro_eventId x\<rparr> else f)"

lemma carried_offer:
  assumes "find_offer i prepared = Some f"
  shows "find_offer i (carry_remembered prepared current) = Some (answered_offer (find_offer i current) f)"
proof (cases "pj_ledger prepared = None \<or> pj_ledger current = None")
  case True
  then show ?thesis using assms no_rows [of prepared i] no_rows [of current i] by (auto simp: carry_nothing answered_offer_def)
next
  case False
  then have ledgers: "pj_ledger prepared \<noteq> None" "pj_ledger current \<noteq> None" by simp_all
  have "ro_id f = i" using assms by (auto simp: find_offer_def find_Some_iff)
  then have "fst (carry_offer (offers_of current) f) = answered_offer (find_offer i current) f"
    by (simp add: carry_offer_def answered_offer_def find_offer_def split: option.split)
  with find_grant_carried(2) [OF ledgers, of i] assms show ?thesis by simp
qed

lemma carried_declined_entry:
  assumes one: "one_project prepared current" and valid: "valid_ledger sha current"
    and f: "find_offer i prepared = Some f" "ro_state f = OfferOpen"
    and x: "find_offer i current = Some x" "ro_state x = OfferDeclined" "ro_eventId x = Some v"
    and e: "e \<in> set (pj_history current)" "ae_id e = v"
  shows "e \<in> set (pj_history (carry_remembered prepared current))"
proof -
  have ledgers: "pj_ledger prepared \<noteq> None" "pj_ledger current \<noteq> None" using f(1) x(1) no_rows by force+
  have members: "f \<in> set (offers_of prepared)" "ro_id f = i" "x \<in> set (offers_of current)" "ro_id x = i"
    using f(1) x(1) by (auto simp: find_offer_def find_Some_iff)
  have "v \<noteq> []" using valid_ledgerD(2) [OF valid members(3)] x(3) by (auto simp: offer_fits_def opt_fits_def text_fits_def utf16_units_def)
  have "snd (carry_offer (offers_of current) f) = Some v"
    using f x members unfolding carry_offer_def find_offer_def by simp
  then have named: "Some v \<in> set (map snd (map (carry_grant (grants_of current)) (grants_of prepared)) @ map snd (map (carry_offer (offers_of current)) (offers_of prepared)))"
    using members(1) by (force simp: image_iff)
  have inj: "inj_on ae_id (set (pj_history prepared) \<union> set (pj_history current))" using one by (simp add: one_project_def)
  then have "inj_on ae_id (set (pj_history current))" by (rule inj_on_subset) simp
  from entry_of_member [OF this e(1)] e(2) have entry: "entry_of v (pj_history current) = Some e" by simp
  from brought_entry [OF one entry named \<open>v \<noteq> []\<close>] have "entry_of v (pj_history (carry_remembered prepared current)) = Some e"
    by (simp add: carry_remembered_rows [OF ledgers])
  then show ?thesis using entry_of_Some by blast
qed

end
