(* ===== verification/Approval_Properties.thy ===== *)
theory Approval_Properties
  imports Approval_Names Approval_Recovery
begin

text \<open>One approval remembered, used and revoked, and the properties of remembered approvals.\<close>

section \<open>A sample\<close>

definition sample_pattern :: approval_pattern where
  "sample_pattern = \<lparr>ap_kind = HarnessStep, ap_projectId = ''p1'', ap_procedure = ''weekly-report'', ap_tool = ''writeFile'',
     ap_action = \<lparr>pa_kind = ToolStep, pa_permission = ''write-project-file'', pa_effect = Idempotent\<rparr>,
     ap_destination = \<lparr>pd_kind = LocalPlace, pd_targets = [''file:report.md'']\<rparr>,
     ap_connection = \<lparr>pc_engine = ''sample'', pc_accountRoute = None\<rparr>\<rparr>"

definition sample_candidate :: approval_candidate where
  "sample_candidate = \<lparr>cn_pattern = sample_pattern, cn_deletes = False, cn_what = ''Write report.md (weekly-report)'',
     cn_authority = Some \<lparr>pr_id = ''local'', pr_identityGeneration = 1, pr_capabilities = [''write-project-file'']\<rparr>\<rparr>"

definition zero_sha :: "string \<Rightarrow> string" where
  "zero_sha t = replicate 64 (CHR ''0'')"

definition zero_digest :: string where
  "zero_digest = ''sha256:'' @ replicate 64 (CHR ''0'')"

definition no_day :: "int \<Rightarrow> string" where
  "no_day t = ''24 September 2026''"

definition sample_need :: "string \<Rightarrow> approval_need" where
  "sample_need i = \<lparr>an_id = i, an_sessionId = ''s1'', an_taskId = ''t1'', an_state = NeedOpen, an_decidedAt = None, an_decidedFrom = [],
     an_allowForTask = False, an_approval = Some \<lparr>ai_proposalDigest = zero_digest, ai_actionDigest = zero_digest, ai_baseDigest = zero_digest\<rparr>,
     an_receipt = None, an_authorization = None, an_boundary = None, an_harness = True, an_connection = None, an_preview = None,
     an_reviewed = False, an_execution = None\<rparr>"

definition sample_given :: approval_need where
  "sample_given = (sample_need ''n1'')\<lparr>an_state := NeedGoAhead,
     an_receipt := Some \<lparr>rc_decision = GoAhead, rc_actor = ''local-client'', rc_decidedAt = 900\<rparr>\<rparr>"

definition sample_session :: approval_session where
  "sample_session = \<lparr>av_id = ''s1'', av_taskId = ''t1'', av_route = None, av_slotted = False, av_sample = False\<rparr>"

definition sample_stamp :: "int \<Rightarrow> string \<Rightarrow> remember_stamp" where
  "sample_stamp t i = \<lparr>rs_now = t, rs_entry = i, rs_new = i\<rparr>"

definition unused_project :: approval_state where
  "unused_project = \<lparr>pj_projectId = ''p1'', pj_ledger = None, pj_history = [], pj_needs = [sample_given, sample_need ''n2''],
     pj_sessions = [sample_session]\<rparr>"

abbreviation "sample_run \<equiv> remember_step zero_sha 3 no_day"

definition remembered_project :: approval_state where
  "remembered_project = sample_run (sample_stamp 1000 ''1'') (CallRemember sample_given sample_candidate) unused_project"

definition revoked_project :: approval_state where
  "revoked_project = sample_run (sample_stamp 3000 ''3'') (CallRevoke ''G1'') remembered_project"

lemma zero_sha_ok: "\<forall>t. is_sha (zero_sha t)"
proof -
  have "is_sha (replicate 64 (CHR ''0''))" by code_simp
  then show ?thesis unfolding zero_sha_def by (intro allI)
qed

lemma zero_digest_ok: "is_digest zero_digest"
  by code_simp

lemma zero_digests [simp]: "pattern_digest zero_sha p = zero_digest"
  by (simp add: pattern_digest_def payload_digest_def zero_digest_def zero_sha_def)

lemma sample_free: "classify_candidate sample_pattern False = Rememberable"
  by code_simp

lemma sample_candidate_sel [simp]: "cn_pattern sample_candidate = sample_pattern" "cn_deletes sample_candidate = False"
  "ap_kind sample_pattern = HarnessStep" "ap_projectId sample_pattern = ''p1''" "pj_projectId unused_project = ''p1''"
  "pj_history unused_project = []" "pj_sessions unused_project = [sample_session]" "pj_ledger unused_project = None"
  by (simp_all add: sample_candidate_def sample_pattern_def unused_project_def)

definition sample_grant :: grant_record where
  "sample_grant = new_grant zero_sha (sample_stamp 1000 ''1'') ''p1'' ApproveAndRemember sample_pattern (cn_what sample_candidate)
     \<lparr>ga_principalId = ''local'', ga_identityGeneration = 1, ga_permission = ''write-project-file''\<rparr>
     \<lparr>gb_needId = Some ''n1'', gb_offerId = None, gb_approvals = 1\<rparr>"

lemma sample_authority: "authority_of sample_candidate
    = Inr \<lparr>ga_principalId = ''local'', ga_identityGeneration = 1, ga_permission = ''write-project-file''\<rparr>"
  by code_simp

lemma unused_ledger [simp]: "ledger_of unused_project = empty_ledger"
  by (simp add: unused_project_def ledger_of_def)

lemma sample_remembers:
  "remember_from_need zero_sha (sample_stamp 1000 ''1'') sample_given sample_candidate unused_project = Inr (sample_grant, remembered_project)"
proof -
  have "just_given sample_given sample_candidate = Some \<lparr>rc_decision = GoAhead, rc_actor = ''local-client'', rc_decidedAt = 900\<rparr>"
    by (simp add: just_given_def sample_given_def sample_need_def)
  then obtain r st where r: "remember_from_need zero_sha (sample_stamp 1000 ''1'') sample_given sample_candidate unused_project = Inr (r, st)"
    "r = sample_grant"
    using sample_free sample_authority
    by (simp add: remember_from_need_def active_grant_def empty_ledger_def add_grant_def max_pattern_grants_def Let_def
      sample_stamp_def remember_window_ms_def sample_grant_def sample_given_def sample_need_def)
  then show ?thesis by (simp add: remembered_project_def)
qed

lemma remembered_rows [simp]:
  "grants_of remembered_project = [sample_grant]" "offers_of remembered_project = []" "tallies_of remembered_project = []"
  "pj_projectId remembered_project = ''p1''" "pj_sessions remembered_project = [sample_session]"
  "map ae_id (pj_history remembered_project) = [''E1'']"
proof -
  from sample_remembers
  obtain e st where *: "add_grant zero_sha (sample_stamp 1000 ''1'') ApproveAndRemember sample_pattern (cn_what sample_candidate)
      \<lparr>ga_principalId = ''local'', ga_identityGeneration = 1, ga_permission = ''write-project-file''\<rparr>
      \<lparr>gb_needId = Some (an_id sample_given), gb_offerId = None, gb_approvals = e\<rparr> (Some (an_taskId sample_given)) (Some (an_sessionId sample_given))
      unused_project = Inr (sample_grant, st)"
    "remembered_project = set_offers (map (\<lambda>f. if ro_patternDigest f = zero_digest \<and> ro_state f = OfferOpen then answer_offer sample_grant f else f)) st"
  proof (cases rule: remember_from_need_Inr)
    case existing
    then show thesis by (simp add: empty_ledger_def)
  next
    case (granted receipt authority approvals st'')
    then show thesis using that sample_authority by simp
  qed
  note r = add_grant_Inr(3) [OF *(1)]
  show "grants_of remembered_project = [sample_grant]" "offers_of remembered_project = []" "tallies_of remembered_project = []"
    "pj_projectId remembered_project = ''p1''" "pj_sessions remembered_project = [sample_session]"
    "map ae_id (pj_history remembered_project) = [''E1'']"
    unfolding *(2) r by (simp_all add: empty_ledger_def set_offers_def granted_entry_def sample_stamp_def)
qed

lemma sample_fits: "stamp_fits (sample_stamp 1000 ''1'')" "stamp_fits (sample_stamp 2000 ''2'')" "need_fits sample_given" "need_fits (sample_need ''n2'')"
  "candidate_fits sample_candidate"
  by code_simp+

lemma sample_remembering: "remembering call_fits zero_sha 3 no_day 1000 remembered_project"
proof -
  have "remembering call_fits zero_sha 3 no_day 0 unused_project" by (rule remembering.unused) (simp_all add: unused_project_def)
  from remembering.called [OF this, of "sample_stamp 1000 ''1''" "CallRemember sample_given sample_candidate"]
  show ?thesis using sample_fits
    by (simp add: sample_stamp_def fresh_stamp_def empty_ledger_def remembered_project_def)
qed

lemma sample_covers:
  "\<exists>need st. cover zero_sha no_day (sample_stamp 2000 ''2'') (sample_need ''n2'') sample_candidate remembered_project = (Some sample_grant, need, st)"
proof -
  have "coverage zero_sha sample_candidate remembered_project = Covered sample_grant"
    using sample_free
    by (simp add: coverage_def active_grant_def sample_grant_def new_grant_def is_active_def Let_def)
      (simp add: sample_candidate_def authority_holds_def)
  then show ?thesis by (simp add: cover_def sample_need_def Let_def)
qed

definition offered_project :: approval_state where
  "offered_project = remember_step zero_sha 1 no_day (sample_stamp 1000 ''1'') (CallNote sample_given sample_candidate GoAhead) unused_project"

definition declined_project :: approval_state where
  "declined_project = remember_step zero_sha 1 no_day (sample_stamp 2000 ''2'') (CallDecline ''O1'') offered_project"

definition sample_offer :: remember_offer where
  "sample_offer = new_offer (sample_stamp 1000 ''1'') zero_digest sample_candidate
     \<lparr>ga_principalId = ''local'', ga_identityGeneration = 1, ga_permission = ''write-project-file''\<rparr> 1 sample_given"

lemma sample_offered: "note_decision zero_sha 1 (sample_stamp 1000 ''1'') sample_candidate GoAhead sample_given unused_project
    = Inr (Some sample_offer, offered_project)"
proof -
  have "\<exists>p. cn_authority sample_candidate = Some p" by (simp add: sample_candidate_def)
  then have "\<exists>st. note_decision zero_sha 1 (sample_stamp 1000 ''1'') sample_candidate GoAhead sample_given unused_project = Inr (Some sample_offer, st)"
    using sample_free sample_authority
    by (auto simp: note_decision_def Let_def count_decision_def set_tallies_def with_tally_def tally_of_def empty_ledger_def max_approval_tallies_def
      max_remember_offers_def active_grant_def sample_offer_def)
  then show ?thesis by (auto simp: offered_project_def)
qed

lemma offered_rows:
  "offers_of offered_project = [sample_offer] \<and> grants_of offered_project = [] \<and> pj_history offered_project = []"
  using sample_offered
proof (cases rule: note_decision_Inr)
  case (offer authority counted)
  show ?thesis by (simp add: offer(10,2) count_decision_def set_tallies_def empty_ledger_def)
qed simp_all

lemma declined_row: "map_option ro_state (find_offer ''O1'' declined_project) = Some OfferDeclined"
proof -
  have "find_offer ''O1'' offered_project = Some sample_offer" "ro_state sample_offer = OfferOpen"
    by (simp_all add: find_offer_def offered_rows sample_offer_def new_offer_def sample_stamp_def)
  then show ?thesis
    by (simp add: declined_project_def decline_offer_def Let_def)
      (simp add: set_offers_def find_offer_def offered_rows sample_offer_def new_offer_def sample_stamp_def)
qed

lemma offered_fresh: "fresh_stamp (sample_stamp 2000 ''2'') offered_project"
  by (simp add: fresh_stamp_def offered_rows sample_offer_def new_offer_def sample_stamp_def)

lemma remembered_fresh: "fresh_stamp (sample_stamp 2000 ''2'') remembered_project" "fresh_stamp (sample_stamp 3000 ''3'') remembered_project"
  by (simp_all add: fresh_stamp_def sample_stamp_def sample_grant_def new_grant_def del: set_map flip: set_map)

lemma revoked_rows:
  obtains r e where "find_grant ''G1'' revoked_project = Some r" "gr_revokedAt r \<noteq> None"
    "grants_of revoked_project = [revoked_now (sample_stamp 3000 ''3'') sample_grant]"
    "pj_history revoked_project = pj_history remembered_project @ [e]" "ae_id e = ''E3''"
proof -
  have found: "find_grant ''G1'' remembered_project = Some sample_grant" "gr_revokedAt sample_grant = None"
    by (simp_all add: find_grant_def sample_grant_def new_grant_def sample_stamp_def)
  then obtain r st where run: "revoke_grant (sample_stamp 3000 ''3'') ''G1'' remembered_project = Inr (r, st)" by (simp add: revoke_grant_def Let_def)
  then have st: "st = revoked_project" by (simp add: revoked_project_def)
  from run show thesis
  proof (cases rule: revoke_grant_Inr)
    case (revoked old)
    have "gt_id (gr_grant sample_grant) = ''G1''" by (simp add: sample_grant_def new_grant_def sample_stamp_def)
    with revoked(1) found have old: "old = sample_grant" by simp
    show thesis
    proof (rule that)
      show "find_grant ''G1'' revoked_project = Some r" "gr_revokedAt r \<noteq> None" using revoke_grant_found [OF run] st by simp_all
      show "grants_of revoked_project = [revoked_now (sample_stamp 3000 ''3'') sample_grant]"
        using \<open>gt_id (gr_grant sample_grant) = ''G1''\<close> by (simp add: st [symmetric] revoked(4))
      show "pj_history revoked_project = pj_history remembered_project
          @ [note_entry (sample_stamp 3000 ''3'') ''remembered-approval-revoked'' (revoke_sentence (gt_what (gr_grant old))) None None None]"
        by (simp add: st [symmetric] revoked(4))
    qed (simp add: note_entry_def sample_stamp_def)
  qed (use found in simp)
qed

lemma declined_remembering: "remembering call_fits zero_sha 1 no_day 2000 declined_project"
proof -
  have start: "remembering call_fits zero_sha 1 no_day 0 unused_project" by (rule remembering.unused) (simp_all add: unused_project_def)
  from remembering.called [OF this, of "sample_stamp 1000 ''1''" "CallNote sample_given sample_candidate GoAhead"]
  have "remembering call_fits zero_sha 1 no_day 1000 offered_project" using sample_fits
    by (simp add: sample_stamp_def fresh_stamp_def empty_ledger_def offered_project_def)
  from remembering.called [OF this, of "sample_stamp 2000 ''2''" "CallDecline ''O1''"] show ?thesis
    using offered_fresh sample_fits(2) by (simp add: sample_stamp_def declined_project_def)
qed

lemma revoked_remembering: "remembering call_fits zero_sha 3 no_day 3000 revoked_project"
  using remembering.called [OF sample_remembering, of "sample_stamp 3000 ''3''" "CallRevoke ''G1''"] remembered_fresh(2)
  by (simp add: sample_stamp_def revoked_project_def stamp_fits_def utf16_units_def)

lemma sample_candidate_of: "candidate_of (sample_need ''n2'') sample_session sample_candidate remembered_project"
  by (simp add: candidate_of_def sample_need_def sample_session_def)

lemma sample_identity:
  "an_approval (sample_need ''n2'') = Some \<lparr>ai_proposalDigest = zero_digest, ai_actionDigest = zero_digest, ai_baseDigest = zero_digest\<rparr>"
  "identity_fits \<lparr>ai_proposalDigest = zero_digest, ai_actionDigest = zero_digest, ai_baseDigest = zero_digest\<rparr>"
  "\<not> an_reviewed (sample_need ''n2'')"
  by (simp_all add: sample_need_def identity_fits_def zero_digest_ok)

lemma sample_clash: "no_collision zero_sha (gt_pattern (gr_grant sample_grant)) (cn_pattern sample_candidate)"
  by (simp add: no_collision_def sample_grant_def new_grant_def)

lemma sample_write:
  assumes run: "cover zero_sha no_day (sample_stamp 2000 ''2'') (sample_need ''n2'') sample_candidate remembered_project = (Some sample_grant, need, st)"
  shows "assert_current zero_sha False need (Some [\<lparr>wi_path = ''report.md'', wi_text = Some ''Totals''\<rparr>]) st = Inr ()"
proof -
  note evidence = covered_evidence [OF remembering_ok [OF sample_remembering] _ remembered_fresh(1) remembering_fits [OF sample_remembering zero_sha_ok]
    zero_sha_ok sample_fits(2,4) sample_identity(3) run _ sample_candidate_of sample_clash]
  have clock: "1000 \<le> rs_now (sample_stamp 2000 ''2'')" by (simp add: sample_stamp_def)
  have identity: "\<forall>i. an_approval (sample_need ''n2'') = Some i \<longrightarrow> identity_fits i" using sample_identity by simp
  from evidence(2) [OF clock _ identity] obtain z where z: "an_authorization need = Some (Remembered z)"
    "rz_grantId z = gt_id (gr_grant sample_grant)" "rz_grantGeneration z = 0" by auto
  have pattern: "gt_pattern (gr_grant sample_grant) = sample_pattern" by (simp add: sample_grant_def new_grant_def)
  have "list_all (write_covered False sample_pattern) [\<lparr>wi_path = ''report.md'', wi_text = Some ''Totals''\<rparr>]" by code_simp
  moreover have "pd_kind (ap_destination sample_pattern) = LocalPlace" by (simp add: sample_pattern_def)
  ultimately show ?thesis
    using covered_write(2) [of zero_sha st need z sample_grant] evidence(1,3-5) [OF clock _ identity] z by (simp add: pattern)
qed

lemma classify_candidate_keeps: "classify_candidate p deletes = Rememberable \<Longrightarrow> \<not> deletes"
  using classify_approval_Rememberable(4) [of "ap_procedure p" "Some (ap_tool p)"] unfolding classify_candidate_def always_def
  by (metis classification.distinct(1))

section \<open>Properties\<close>

text \<open>C35. What may be remembered is judged by the letters and digits of its names, whatever their capitals and separators: no name holds
  a stem of paying, destroying or access, no word of one is on those lists, nothing is deleted, no file named is itself access, and
  the permission is one of the few listed, with its kind of destination and effect.\<close>

theorem always_asking_names_are_refused:
  assumes "classify_approval procedure tool permission effect destination targets deletes = Rememberable"
    and "name \<in> {procedure, text_of tool, text_of permission}"
  shows "(\<forall>stem \<in> set (money_stems @ destroy_stems @ access_stems). \<not> (\<exists>a b. filter is_lower_alnum (lower_name name) = a @ stem @ b))
    \<and> (\<forall>w \<in> set (name_words name). w \<notin> set (money_words @ destroy_words @ access_words))
    \<and> \<not> deletes \<and> targets \<noteq> [] \<and> (\<forall>t \<in> set targets. \<not> file_touches_access t)
    \<and> (\<exists>effects. rememberable_under (text_of permission) = Some (destination, effects) \<and> effect \<in> set effects)"
proof -
  note free = classify_approval_Rememberable [OF assms(1)]
  have name: "name \<in> set [procedure, text_of tool, text_of permission]" using assms(2) by simp
  have "\<not> (\<exists>a b. filter is_lower_alnum (lower_name name) = a @ stem @ b)" if "stem \<in> set (money_stems @ destroy_stems @ access_stems)" for stem
  proof -
    from that consider "stem \<in> set money_stems" | "stem \<in> set destroy_stems" | "stem \<in> set access_stems" by auto
    then show ?thesis
      using names_any_stem [OF free(1) name, of stem] names_any_stem [OF free(2) name, of stem] names_any_stem [OF free(3) name, of stem]
      by cases blast+
  qed
  moreover have "w \<notin> set (money_words @ destroy_words @ access_words)" if "w \<in> set (name_words name)" for w
    using names_any_word [OF free(1) name that] names_any_word [OF free(2) name that] names_any_word [OF free(3) name that] by simp
  ultimately show ?thesis using free(4-7) by blast
qed

lemma always_asking_names_are_refused_example:
  "\<not> (\<exists>a b. filter is_lower_alnum (lower_name ''writeFile'') = a @ ''delet'' @ b)"
proof -
  have "classify_approval ''weekly-report'' (Some ''writeFile'') (Some ''write-project-file'') Idempotent LocalPlace [''file:report.md''] False
    = Rememberable"
    using sample_free by (simp add: classify_candidate_def sample_pattern_def)
  from always_asking_names_are_refused [OF this, of "''writeFile''"] show ?thesis by (simp add: text_of_def destroy_stems_def)
qed

text \<open>C28. Only a person's click makes a grant: a call adds one at most, and only when it remembers an approval just given at this
  computer, or answers an open offer, of an action that may be remembered and that nothing live covers. Counting, covering,
  declining and revoking make none, and no call rewrites one.\<close>

theorem grants_come_from_clicks:
  "map gr_grant (grants_of (remember_step sha threshold day_text stamp call st)) = map gr_grant (grants_of st)
   \<or> (\<exists>r. grants_of (remember_step sha threshold day_text stamp call st) = grants_of st @ [r] \<and> grant_source sha stamp call st r)"
proof (cases rule: step_grants [of sha threshold day_text stamp call st])
  case (gone i old)
  then show ?thesis by (simp add: update_first_keeps_map revoked_now_def)
qed auto

text \<open>C27. A remembered approval covers exactly what it was given for: the request was open and undecided, the grant is live, its pattern
  is the request's whole pattern, the action may be remembered, and whoever decides now is the principal it rests on, of the same
  generation and still holding its permission. The request names that grant.\<close>

theorem coverage_is_exact:
  assumes "remembering allowed sha threshold day_text clock st"
    and run: "cover sha day_text stamp need c st = (Some r, need', st')" and clash: "no_collision sha (gt_pattern (gr_grant r)) (cn_pattern c)"
  shows "r \<in> set (grants_of st) \<and> gr_revokedAt r = None \<and> gr_generation r = 0 \<and> gt_pattern (gr_grant r) = cn_pattern c
    \<and> classify_candidate (cn_pattern c) (cn_deletes c) = Rememberable
    \<and> (\<exists>p. cn_authority c = Some p \<and> authority_holds (gt_authority (gr_grant r)) p)
    \<and> an_state need = NeedOpen \<and> an_receipt need = None \<and> an_authorization need = None
    \<and> (\<exists>z. an_authorization need' = Some (Remembered z) \<and> rz_grantId z = gt_id (gr_grant r) \<and> rz_approvalId z = an_id need)
    \<and> pj_ledger st' = pj_ledger st"
proof -
  from run obtain i z where c: "an_state need = NeedOpen" "an_receipt need = None" "an_authorization need = None" "coverage sha c st = Covered r"
    "z = evidence_of sha stamp (pj_projectId st) need i r" "an_authorization need' = Some (Remembered z)"
    by (rule cover_Some) auto
  have "pj_ledger st' = pj_ledger st" using cover_keeps(3) [of sha day_text stamp need c st] run by simp
  moreover have "\<exists>z. an_authorization need' = Some (Remembered z) \<and> rz_grantId z = gt_id (gr_grant r) \<and> rz_approvalId z = an_id need"
    using c(5,6) by (simp add: evidence_of_def Let_def)
  ultimately show ?thesis
    using coverage_Covered [OF c(4)] covered_pattern [OF remembering_ok [OF assms(1)] c(4) clash] c(1-3) by (simp add: is_active_def)
qed

lemma coverage_is_exact_example:
  "gt_pattern (gr_grant sample_grant) = cn_pattern sample_candidate"
proof -
  obtain need st where run: "cover zero_sha no_day (sample_stamp 2000 ''2'') (sample_need ''n2'') sample_candidate remembered_project
      = (Some sample_grant, need, st)" using sample_covers by blast
  have "no_collision zero_sha (gt_pattern (gr_grant sample_grant)) (cn_pattern sample_candidate)"
    by (simp add: no_collision_def sample_grant_def new_grant_def)
  from coverage_is_exact [OF sample_remembering run this] show ?thesis by blast
qed

text \<open>C29. Revocation is final. In every later state, whatever calls and other work lead to it, a revoked grant is as it was: it covers
  nothing, and no write goes ahead on evidence that names it.\<close>

theorem revocation_is_final:
  assumes "find_grant i st = Some r" and "gr_revokedAt r \<noteq> None" and "(follows_step sha threshold day_text)\<^sup>*\<^sup>* st st'"
  shows "find_grant i st' = Some r \<and> (\<forall>c. coverage sha' c st' \<noteq> Covered r)
    \<and> (\<forall>need z. an_authorization need = Some (Remembered z) \<and> rz_grantId z = i
         \<longrightarrow> (\<exists>e. assert_current sha' on_f need writes st' = Inl e))"
proof -
  have found: "find_grant i st' = Some r" by (rule revoked_later [OF assms(3,1,2)])
  moreover have "coverage sha' c st' \<noteq> Covered r" for c using coverage_Covered(2) [of sha' c st' r] assms(2) by (auto simp: is_active_def)
  ultimately show ?thesis using revoked_write_refused [OF _ _ assms(2)] by blast
qed

lemma revocation_is_final_example:
  "\<exists>r. find_grant ''G1'' revoked_project = Some r \<and> (\<forall>c. coverage zero_sha c revoked_project \<noteq> Covered r)"
proof (rule revoked_rows)
  fix r
  assume r: "find_grant ''G1'' revoked_project = Some r" "gr_revokedAt r \<noteq> None"
  from revocation_is_final [OF r rtranclp.rtrancl_refl [of "follows_step zero_sha 3 no_day"], of zero_sha] r show ?thesis by blast
qed

text \<open>C33. A declined offer is never made again: in every later state it is as it was answered, and no other offer has its pattern.\<close>

theorem declined_offer_never_returns:
  assumes "find_offer i st = Some f" and "ro_state f = OfferDeclined" and "(follows_step sha threshold day_text)\<^sup>*\<^sup>* st st'"
    and "remembering allowed sha threshold day_text clock st'"
  shows "find_offer i st' = Some f \<and> (\<forall>f' \<in> set (offers_of st'). ro_pattern f' = ro_pattern f \<longrightarrow> f' = f)"
proof -
  have found: "find_offer i st' = Some f" by (rule declined_later [OF assms(3,1,2)])
  note ok = approvals_okD [OF remembering_ok [OF assms(4)]]
  have f: "f \<in> set (offers_of st')" using found by (auto simp: find_offer_def find_Some_iff)
  have digest: "ro_patternDigest g = pattern_digest sha (ro_pattern g)" if "g \<in> set (offers_of st')" for g
    using ok(5) [OF that] by (simp add: offer_consistent_def)
  have inj: "inj_on ro_patternDigest (set (offers_of st'))" using ok(6) by (simp add: distinct_map)
  have "f' = f" if "f' \<in> set (offers_of st')" "ro_pattern f' = ro_pattern f" for f'
    using inj_onD [OF inj _ that(1) f] digest [OF that(1)] digest [OF f] that(2) by simp
  with found show ?thesis by blast
qed

lemma declined_offer_never_returns_example:
  "\<exists>f. find_offer ''O1'' declined_project = Some f \<and> (\<forall>f' \<in> set (offers_of declined_project). ro_pattern f' = ro_pattern f \<longrightarrow> f' = f)"
proof -
  obtain f where f: "find_offer ''O1'' declined_project = Some f" "ro_state f = OfferDeclined" using declined_row by auto
  from declined_offer_never_returns [OF f rtranclp.rtrancl_refl [of "follows_step zero_sha 1 no_day"] declined_remembering] show ?thesis by blast
qed

text \<open>C32. What the calls save loads again: with identifiers and texts within the bounds of the saved rows, and as long as the clock does
  not go back between one call and the next, every state the calls lead to passes the whole check the project is loaded with. (Nothing
  in the code keeps the clock from being set back: \<open>early_revocation_does_not_load\<close>.)\<close>

theorem remembered_ledger_loads:
  assumes "remembering call_fits sha threshold day_text clock st" and "\<forall>t. is_sha (sha t)" and "1 \<le> threshold"
  shows "valid_ledger sha st"
  by (rule rows_fit_valid [OF remembering_ok [OF assms(1)] remembering_fits [OF assms]])

lemma remembered_ledger_loads_example:
  "valid_ledger zero_sha remembered_project \<and> grants_of remembered_project = [sample_grant]"
  using remembered_ledger_loads [OF sample_remembering zero_sha_ok] by simp

text \<open>C30. A request that a remembered approval covers passes the check made at load and the check made before its write, and a
  proposal passes it with all the files it was prepared with. This is for a request with no reviewer's decision, whose candidate was
  made from it and from its session, whose identifiers are digests, and with identifiers and texts within the bounds of the saved
  rows, in a state reached within those bounds by a clock that did not go back.\<close>

theorem covered_request_may_write:
  assumes "remembering call_fits sha threshold day_text clock st" and "\<forall>t. is_sha (sha t)" and "1 \<le> threshold"
    and "clock \<le> rs_now stamp" and "fresh_stamp stamp st" and "stamp_fits stamp" and "need_fits need" and "\<not> an_reviewed need"
    and "an_approval need = Some identity" and "identity_fits identity" and "candidate_of need session c st"
    and run: "cover sha day_text stamp need c st = (Some r, need', st')" and clash: "no_collision sha (gt_pattern (gr_grant r)) (cn_pattern c)"
  shows "valid_authorization sha st' need' \<and> assert_current sha on_f need' None st' = Inr ()
    \<and> (\<forall>changes. ap_kind (cn_pattern c) = CodexProposal \<and> an_preview need = Some changes
         \<longrightarrow> assert_current sha on_f need' (Some (map (\<lambda>x. \<lparr>wi_path = pg_path x, wi_text = pg_after x\<rparr>) changes)) st' = Inr ())"
proof -
  note evidence = covered_evidence [OF remembering_ok [OF assms(1)] assms(4,5) remembering_fits [OF assms(1-3)] assms(2,6,7,8) run _ assms(11) clash]
  have identity: "\<forall>i. an_approval need = Some i \<longrightarrow> identity_fits i" using assms(9,10) by simp
  note ok = evidence(1) [OF identity] and found = evidence(3-6) [OF identity]
  from evidence(2) [OF identity] obtain z where z: "an_authorization need' = Some (Remembered z)" "rz_grantId z = gt_id (gr_grant r)"
    "rz_grantGeneration z = 0" by blast
  have grant: "find_grant (rz_grantId z) st' = Some r" "gr_generation r = rz_grantGeneration z" "gr_revokedAt r = None"
    using found z by simp_all
  have "assert_current sha on_f need' (Some (map (\<lambda>x. \<lparr>wi_path = pg_path x, wi_text = pg_after x\<rparr>) changes)) st' = Inr ()"
    if "ap_kind (cn_pattern c) = CodexProposal" "an_preview need = Some changes" for changes
  proof -
    from run have "coverage sha c st = Covered r" by (rule cover_Some)
    from coverage_Covered(4) [OF this] have "\<not> cn_deletes c" by (rule classify_candidate_keeps)
    then have "\<exists>what. pattern_for_proposal (pj_projectId st) need = Some (cn_pattern c, False, what)"
      using assms(11) that(1) by (simp add: candidate_of_def)
    then obtain what where "pattern_for_proposal (pj_projectId st) need = Some (cn_pattern c, False, what)" by blast
    note proposal = proposal_writes_covered [OF this that(2)]
    show ?thesis by (rule covered_write(2) [OF ok z(1) grant]) (simp_all add: found(4) proposal)
  qed
  with ok covered_write(1) [OF ok z(1) grant] show ?thesis by blast
qed

lemma covered_request_may_write_example:
  "\<exists>need st. an_state need = NeedGoAhead \<and> assert_current zero_sha False need None st = Inr ()"
proof -
  obtain need st where run: "cover zero_sha no_day (sample_stamp 2000 ''2'') (sample_need ''n2'') sample_candidate remembered_project
      = (Some sample_grant, need, st)" using sample_covers by blast
  then have state: "an_state need = NeedGoAhead" by (rule cover_Some) simp
  have clock: "1000 \<le> rs_now (sample_stamp 2000 ''2'')" by (simp add: sample_stamp_def)
  have "assert_current zero_sha False need None st = Inr ()"
    using covered_request_may_write [OF sample_remembering zero_sha_ok _ clock remembered_fresh(1) sample_fits(2,4) sample_identity(3,1,2)
      sample_candidate_of run sample_clash] by simp
  with state show ?thesis by blast
qed

text \<open>C31. A write goes ahead only within a grant: the request's saved evidence names a grant of the project that is not revoked, and an
  entry of the history records that it was used for this request and no other. Every write is a change, not a deletion, and when
  the name check accepts the name of its file, the grant names a file whose checked name is the same. A write whose name the check
  refuses is let through here only when the grant names a file the check refuses too; it reaches no file, since before
  \<open>Store.applyWrite\<close> touches one it puts the name to the same check (\<open>projectFile\<close>).\<close>

theorem write_stays_within_grant:
  assumes "assert_current sha on_f need (Some writes) st = Inr ()"
  shows "\<exists>z r e. an_authorization need = Some (Remembered z) \<and> r \<in> set (grants_of st) \<and> gt_id (gr_grant r) = rz_grantId z
    \<and> gr_revokedAt r = None \<and> rz_grantDigest z = grant_digest sha r
    \<and> e \<in> set (pj_history st) \<and> ae_kind e = ''remembered-authorized'' \<and> ae_approvalId e = Some (an_id need) \<and> ae_authorization e = Some z
    \<and> (\<exists>i. an_approval need = Some i \<and> rz_proposalDigest z = ai_proposalDigest i \<and> rz_actionDigest z = ai_actionDigest i)
    \<and> pd_kind (ap_destination (gt_pattern (gr_grant r))) = LocalPlace
    \<and> (\<forall>w \<in> set writes. wi_text w \<noteq> None
         \<and> (\<forall>n. relative_name on_f (wi_path w) = Some n \<longrightarrow>
              (\<exists>t \<in> set (pd_targets (ap_destination (gt_pattern (gr_grant r)))). starts_with ''file:'' t \<and> relative_name on_f (drop 5 t) = Some n))
         \<and> (relative_name on_f (wi_path w) = None \<longrightarrow>
              (\<exists>t \<in> set (pd_targets (ap_destination (gt_pattern (gr_grant r)))). starts_with ''file:'' t \<and> relative_name on_f (drop 5 t) = None)))"
proof -
  from assms obtain z r where c: "an_authorization need = Some (Remembered z)" "find_grant (rz_grantId z) st = Some r" "valid_authorization sha st need"
    "gr_revokedAt r = None" "pd_kind (ap_destination (gt_pattern (gr_grant r))) = LocalPlace"
    "list_all (write_covered on_f (gt_pattern (gr_grant r))) writes" by (rule assert_current_Inr)
  from c(2) have r: "r \<in> set (grants_of st)" "gt_id (gr_grant r) = rz_grantId z" by (auto simp: find_grant_def find_Some_iff)
  have match: "evidence_matches sha st need z r" using c(1-3) by (simp add: valid_authorization_def)
  then obtain e where e: "find (\<lambda>e. ae_id e = rz_eventId z) (pj_history st) = Some e" "ae_kind e = ''remembered-authorized''"
    "ae_approvalId e = Some (an_id need)" "ae_authorization e = Some z"
    unfolding evidence_matches_def Let_def by (auto split: option.splits)
  have "e \<in> set (pj_history st)" using find_Some_in_set [OF e(1)] by simp
  moreover have "rz_grantDigest z = grant_digest sha r"
    "\<exists>i. an_approval need = Some i \<and> rz_proposalDigest z = ai_proposalDigest i \<and> rz_actionDigest z = ai_actionDigest i"
    using match unfolding evidence_matches_def Let_def by (auto split: option.splits)
  moreover have "wi_text w \<noteq> None
      \<and> (\<forall>n. relative_name on_f (wi_path w) = Some n \<longrightarrow>
           (\<exists>t \<in> set (pd_targets (ap_destination (gt_pattern (gr_grant r)))). starts_with ''file:'' t \<and> relative_name on_f (drop 5 t) = Some n))
      \<and> (relative_name on_f (wi_path w) = None \<longrightarrow>
           (\<exists>t \<in> set (pd_targets (ap_destination (gt_pattern (gr_grant r)))). starts_with ''file:'' t \<and> relative_name on_f (drop 5 t) = None))"
    if "w \<in> set writes" for w
  proof -
    have covered: "write_covered on_f (gt_pattern (gr_grant r)) w" using c(6) that by (simp add: list_all_iff)
    then obtain t where "t \<in> set (pd_targets (ap_destination (gt_pattern (gr_grant r))))" "starts_with ''file:'' t"
      "relative_name on_f (wi_path w) = relative_name on_f (drop 5 t)" by (auto simp: write_covered_def granted_files_def)
    with covered show ?thesis unfolding write_covered_def by (intro conjI allI impI bexI [of _ t]) simp_all
  qed
  ultimately show ?thesis using c(1,4,5) r e(2-4) by blast
qed

lemma write_stays_within_grant_example:
  "\<exists>(need :: approval_need) z st r. an_authorization need = Some (Remembered z) \<and> r \<in> set (grants_of st) \<and> gt_id (gr_grant r) = rz_grantId z \<and> gr_revokedAt r = None"
proof -
  obtain need st where run: "cover zero_sha no_day (sample_stamp 2000 ''2'') (sample_need ''n2'') sample_candidate remembered_project
      = (Some sample_grant, need, st)" using sample_covers by blast
  from write_stays_within_grant [OF sample_write [OF run]]
  obtain z r where "an_authorization need = Some (Remembered z)" "r \<in> set (grants_of st)" "gt_id (gr_grant r) = rz_grantId z" "gr_revokedAt r = None"
    by (elim exE conjE) (rule that)
  then show ?thesis by blast
qed

text \<open>C34. Recovery keeps what the person revoked or declined. Carried onto a prepared image of the same project, the decisions leave a
  ledger that loads, with the grants of the image as they were made. A grant revoked in either is revoked. An offer of the image that
  is open there and was declined since is declined as it was answered, at that time, and the entry of the history that records it comes
  along; every other offer stays as the image has it. (So an offer accepted since is open again in the image, and the grant it made is
  not carried.)\<close>

theorem recovery_keeps_refusals:
  assumes "valid_ledger sha prepared" and "valid_ledger sha current" and "one_project prepared current"
  shows "valid_ledger sha (carry_remembered prepared current)
    \<and> map gr_grant (grants_of (carry_remembered prepared current)) = map gr_grant (grants_of prepared)
    \<and> (\<forall>i r x. find_grant i (carry_remembered prepared current) = Some r \<and> gr_revokedAt x \<noteq> None
         \<and> (find_grant i prepared = Some x \<or> find_grant i current = Some x) \<longrightarrow> gr_revokedAt r \<noteq> None)
    \<and> (\<forall>i f. find_offer i prepared = Some f \<longrightarrow>
         find_offer i (carry_remembered prepared current) = Some (answered_offer (find_offer i current) f))
    \<and> (\<forall>i f x v e. find_offer i prepared = Some f \<and> ro_state f = OfferOpen \<and> find_offer i current = Some x \<and> ro_state x = OfferDeclined
         \<and> ro_eventId x = Some v \<and> e \<in> set (pj_history current) \<and> ae_id e = v
         \<longrightarrow> e \<in> set (pj_history (carry_remembered prepared current)))"
  using carried_valid [OF assms] carried_grants carried_stays_revoked [OF assms(1,2)] carried_offer carried_declined_entry [OF assms(3,2)]
  by blast

lemma recovery_keeps_refusals_example:
  "\<exists>r. find_grant ''G1'' (carry_remembered remembered_project revoked_project) = Some r \<and> gr_revokedAt r \<noteq> None"
proof -
  have valid: "valid_ledger zero_sha remembered_project" "valid_ledger zero_sha revoked_project"
    using rows_fit_valid [OF remembering_ok [OF sample_remembering] remembering_fits [OF sample_remembering zero_sha_ok]]
      rows_fit_valid [OF remembering_ok [OF revoked_remembering] remembering_fits [OF revoked_remembering zero_sha_ok]] by simp_all
  have "one_project remembered_project revoked_project \<and> (\<exists>x. find_grant ''G1'' revoked_project = Some x \<and> gr_revokedAt x \<noteq> None)"
  proof (rule revoked_rows)
    fix r e
    assume rows: "find_grant ''G1'' revoked_project = Some r" "gr_revokedAt r \<noteq> None"
      "grants_of revoked_project = [revoked_now (sample_stamp 3000 ''3'') sample_grant]"
      "pj_history revoked_project = pj_history remembered_project @ [e]" "ae_id e = ''E3''"
    have "distinct (map ae_id (pj_history revoked_project))" by (simp add: rows)
    then have "inj_on ae_id (set (pj_history revoked_project))" by (simp add: distinct_map)
    then have "inj_on ae_id (set (pj_history remembered_project) \<union> set (pj_history revoked_project))" by (simp add: rows Un_commute)
    then show ?thesis using rows(1,2) by (simp add: one_project_def rows(3) revoked_now_def)
  qed
  then obtain x where one: "one_project remembered_project revoked_project" and x: "find_grant ''G1'' revoked_project = Some x" "gr_revokedAt x \<noteq> None"
    by blast
  have "map gr_grant (grants_of (carry_remembered remembered_project revoked_project)) = [gr_grant sample_grant]"
    using recovery_keeps_refusals [OF valid one] by simp
  then obtain r where "grants_of (carry_remembered remembered_project revoked_project) = [r]" "gr_grant r = gr_grant sample_grant"
    by (auto simp: map_eq_Cons_conv)
  then have "find_grant ''G1'' (carry_remembered remembered_project revoked_project) = Some r"
    by (simp add: find_grant_def sample_grant_def new_grant_def sample_stamp_def)
  then show ?thesis using recovery_keeps_refusals [OF valid one] x by blast
qed

end
