(* ===== verification/Spec2Isabelle.thy ===== *)
theory Spec2Isabelle
  imports Sample_Answers Contract_Properties Billing_Properties Board_Properties Workspace_Properties
    Version_Properties Schedule_Properties Approval_Properties
begin

text \<open>
  Diomedes is a workspace for people and coding agents: a desktop server that keeps projects, tasks and runs in local files,
  and a control plane that sells and accounts for provider work. Six parts of it are modelled.

  The credit accounting decides what a business or a person may spend on provider work, and what is recorded when they do. The
  control plane keeps a ledger of micro-dollars. A month's grant and bought credits fund it; a reservation holds a ceiling
  against them before anything is sent to a provider; a settlement debits what the provider reported, and corrections, raises,
  purchases and leases move the rest. The code is \<open>shared/managed-usage.ts\<close>, \<open>usage-contract.ts\<close>, \<open>credit-prices.ts\<close>,
  \<open>individual-period.ts\<close>, \<open>credit-allotments.ts\<close>, and under \<open>services/control-plane/src\<close> the files \<open>funding.ts\<close>,
  \<open>member-limits.ts\<close>, \<open>credit-purchases.ts\<close>, \<open>stripe-events.ts\<close> and the stores \<open>faux/funding-state.ts\<close> and
  \<open>faux/payment-ledger.ts\<close>.

  The board of a project keeps its tasks: a bounded workflow with phases a person approves, child tasks within their parent's
  limits, a queue that starts Ready tasks in a fair order, and the table of what moving a card asks for. The code is
  \<open>shared/task-workflow.ts\<close>, \<open>ready-queue.ts\<close>, \<open>board-moves.ts\<close>, and under \<open>server\<close> the files \<open>task-workflow.ts\<close>,
  \<open>task-phase.ts\<close>, \<open>command-admission.ts\<close>, \<open>work-admission.ts\<close>, \<open>ready-scheduler.ts\<close> and the parts of \<open>store.ts\<close> they call.

  A person reviews what an agent changed as hunks and may keep some of them: \<open>shared/text-diff.ts\<close>.

  A person who approved an action may have the approval remembered, so that exactly the same action no longer asks: grants made
  by a click or by accepting an offer that identical approvals earned, used with evidence on each request, checked before each
  write, and revoked for good. The code is \<open>shared/remembered-approvals.ts\<close>, \<open>server/trust/remembered-approvals.ts\<close>, their rows
  in \<open>shared/permissions.ts\<close>, and the names of files in \<open>server/paths.ts\<close>.

  Automations run at times of the calendar in a named timezone: \<open>shared/automation-schedule.ts\<close>. Packs and updates are chosen by
  their versions: \<open>shared/semver.ts\<close>.

  Parts and theories.
  \<^item> Prelude: results with their errors (\<open>thrown + 'a\<close>), their bind, JavaScript's safe integers, rounding, decimal
    digits, ASCII text, the collection \<open>result_simps\<close>. Js_Value: JSON values, for inputs of unknown shape.
  \<^item> Money, Reservation, Managed_Usage (\<open>managed-usage.ts\<close>): amounts and their bounds, charge kinds, payers, the
    reservation automaton, usage cost, \<open>decideReserve\<close>, \<open>projectUsage\<close>. Usage_Contract (\<open>usage-contract.ts\<close>): provider
    reports. Pricing (\<open>credit-prices.ts\<close>): bands, charges, ceilings, holds. Calendar, Individual_Period
    (\<open>individual-period.ts\<close>): the UTC calendar and the subscription's terms. Allotments (\<open>credit-allotments.ts\<close>): the
    rule for a member's step.
  \<^item> Funding_Store, Funding_Totals (\<open>funding-state.ts\<close>): the record \<open>fstate\<close> of the store's tables, one \<open>tx_\<close> read and one
    \<open>save_\<close> write per method of \<open>StateFundingTransaction\<close>, and the totals read from the rows. Funding_Checks to
    Funding_Attempts and Funding_Reports (\<open>funding.ts\<close>): one definition per method of \<open>FundingService\<close>, in the order of
    the file: periods, purchases, leases on bought credits, jobs and caps, reserving, the life of an attempt, reads.
    Member_Limits (\<open>member-limits.ts\<close>): the \<open>MemberLimits\<close> class.
  \<^item> Funding_Sums: what the tables commit against a month and against the bought credits, as sums over rows, and how each
    write moves them. Funding_Ledger: the abstract specification, a relation \<open>ledger_move\<close> of the moves a ledger allows,
    each within the free balances, with its invariants. Funding_Refines, Funding_Calls: every operation is a sequence of
    those moves. Funding_History: what later moves leave alone, through the locale \<open>followed_order\<close>. Funding_Service: the
    calls as a datatype, the store each leaves (\<open>serve\<close>), the reachable states, and the locales \<open>clocked_invariant\<close> and
    \<open>timeless_invariant\<close>, interpreted for the money and for the rows. Funding_Guarantees: retries, limits and recovery of
    single operations. Funding_Topups: the two calls that can record a top-up, and that no other call does.
  \<^item> Credit_Rates, Credit_Grants, Credit_Buying (\<open>credit-purchases.ts\<close>, \<open>commercial.ts\<close>): the settings, what a step of
    credits costs, the plan that picks the rate, and \<open>CreditPurchaseService\<close>. Payment_Ledger (\<open>payment-ledger.ts\<close>): the
    customers and the inbox of verified events, with their invariant \<open>ledger_rules\<close>. Stripe_Signature, Stripe_Webhook
    (\<open>credit-purchases.ts\<close>, \<open>stripe-events.ts\<close>): the signature check, the handlers of an event and \<open>StripeWebhookService\<close>. The
    state of the three together is \<open>billing_state\<close>. Webhook_Guarantees: what a delivery changes, that a second one changes
    nothing, and that what an event resolved stays resolved. Billing_Service: the calls together, the states they reach
    (\<open>billed\<close>), what is kept of them, and what any sequence of calls keeps (\<open>bill_all\<close>).
    Billing_Samples, Billing_Properties: one purchase evaluated, and the properties of buying credits.
  \<^item> Board_State: the rows of a project's saved state (\<open>types.ts\<close>), the operations of \<open>store.ts\<close> the components share, and the
    lookup of a command. Task_Workflow (\<open>shared/task-workflow.ts\<close>): the contract of a task's workflow, with the loop up a
    task's parents. Workflow_Routes (\<open>server/task-workflow.ts\<close>, \<open>task-phase.ts\<close>): every handler. Workflow_Life: the calls as
    a datatype, the boards they reach (\<open>worked\<close>), and what every board keeps (\<open>board_ok\<close>). Workflow_Guarantees: each handler
    keeps it, and what a call may change of a task (\<open>workflow_edit\<close>). Ready_Queue (\<open>ready-queue.ts\<close>): readiness and the
    planner; Sorting: a sort permutes its list; Ready_Fairness: the locale \<open>comparator\<close> for the orders it sorts by, what holds at
    every point of its loops, and the passes of a queue. Board_Moves (\<open>board-moves.ts\<close>). Board_Samples, Board_Properties: a board and two passes evaluated,
    and the properties of the board.
  \<^item> Work_Admission (\<open>engines.ts\<close>, \<open>ai-selection.ts\<close>, \<open>work-admission.ts\<close>): routes, the engine a task runs on, and the command
    that starts work. Ready_Scheduler (\<open>ready-scheduler.ts\<close>): a run, as the list of the states it saves, and the settings.
    Scheduler_Guarantees: what admission promises (\<open>admission_ok\<close>) and may be asked (\<open>may_be_asked\<close>), the states that runs, stops after any save and other work
    lead to (\<open>scheduled\<close>), and what they keep (\<open>sched_ok\<close>). Text_Diff (\<open>text-diff.ts\<close>), Diff_Guarantees: the hunks and
    segments of a comparison, and what a selection of hunks shows and makes. Workspace_Properties: a sample of each, and their
    properties.
  \<^item> Automation_Schedule (\<open>automation-schedule.ts\<close>): the check of a schedule, the instant a local time names, the slots of a
    schedule, what a pass does with them, and their words. Schedule_Guarantees: zones (\<open>jumps_once\<close>, \<open>zone_ok\<close>), the search for
    a jump of the clocks, the loop over days and the plan of a pass. Schedule_Properties: a zone and its properties.
  \<^item> Semver (\<open>semver.ts\<close>): versions, ranges and the newest version of a range. Version_Order: the comparison is a
    \<open>comparator\<close>, and what the bounds of a range let through. Version_Properties: their properties.
  \<^item> Approval_Patterns (\<open>shared/remembered-approvals.ts\<close>, \<open>exact-review.ts\<close>): what always asks, the targets of a step or a
    proposal, and the pattern of an action. Approval_Ledger (\<open>permissions.ts\<close>, \<open>server/trust/remembered-approvals.ts\<close>): the rows,
    and every method of \<open>RememberedApprovals\<close> but the last. Approval_Checks: that one, \<open>assertCurrent\<close>, with the checks of file names
    (\<open>paths.ts\<close>), of the saved ledger and of a request's evidence, and what recovery carries over. Approval_Guarantees: the calls,
    the states they reach (\<open>remembering\<close>), and the rules the load checks kept by each. Approval_Names: what a name that may be
    remembered holds. Approval_Safety: what later calls leave alone, and that a pattern's JSON text determines it.
    Approval_Evidence: declined offers, and the bounds of the rows. Approval_Writes, Approval_Recovery: from a covered request to
    its write, and the image recovery persists. Approval_Properties: a sample and the properties.
  \<^item> Samples, Sample_Answers: one business's month as concrete calls, evaluated. This theory: the properties of the funding
    service. Contract_Properties: those of the stateless contracts. Each property is followed by an example that applies it
    to a concrete run.

  How the model reads the code.
  \<^item> An operation takes the store and returns an error or an answer with the new store. \<open>FundingError\<close> keeps its HTTP status
    and its code, not the sentence shown to a person; \<open>RangeError\<close> and \<open>PlainError\<close> are the other exceptions. An error leaves
    the store as the transaction found it: this is how \<open>transaction\<close> and \<open>left_by\<close> read \<open>faux/store.ts\<close>; \<open>mark_dispatched\<close>, which throws after its transaction
    has committed a release, returns its error beside the store.
  \<^item> Transactions are serialized: the code takes the organization's lock first, and the store \<open>faux/store.ts\<close> runs one
    action at a time. The PostgreSQL repository's row locks and isolation level are not modelled.
  \<^item> A time is its epoch millisecond, an \<open>int\<close>; the code keeps ISO strings, and \<open>to_iso\<close> writes one where the code builds an
    id from it. An operation reads the clock once (\<open>at\<close>, \<open>now\<close>); where the code reads it twice in one call the two
    readings are taken as equal. Calls need not be in time order; \<open>reachable\<close> keeps the latest time so far.
  \<^item> Amounts are integers checked by \<open>is_safe_integer\<close> where the code checks them; JavaScript's numbers are exact there.
    Strings are lists of bytes; \<open>utf16_units\<close> counts a string's JavaScript length, and slicing a reason is by characters.
  \<^item> A rate or charge snapshot is the record its schema parses; the comparison of two by their JSON text is equality of
    the records. The free-text column of an attempt is a datatype of the notes the code writes into it. Fields that the
    code sets to one constant (a payer, a provider, a currency) are left out of the records.
  \<^item> What the platform or another company computes is a parameter of the definitions that use it: the keyed digest, SHA-256,
    the JSON and URL parsers, and Stripe as a function from a request to its answer. The properties hold for every such
    function. One delivery or purchase runs its transactions with nothing between them. The package \<open>diff\<close> is two more; of its
    line comparison the properties assume what it documents (\<open>compares\<close>). The Work start path and the runs in memory are
    arguments of the scheduler, as they are of its class. A timezone is a function from instants to clock readings (the
    platform's \<open>Intl\<close>; for the day of an approval, its text); one property describes a zone around a change of the clocks (\<open>jumps_once\<close>), the others assume of it what
    every zone does (\<open>zone_ok\<close>).
  \<^item> Loops over rows are folds and recursions on lists. The two loops of the board that are not structural, up a task's parents
    and over the planner's rounds, are \<open>partial_function (option)\<close>, and each is proved to return by a measure: the ids not
    seen yet, the runs still free. The search for a jump of the clocks and the loop over days have termination proofs, and the loop of
    \<open>nextSlots\<close> counts its own guard. So every operation is total and no fuel is needed.
  \<^item> \<open>toLowerCase\<close> is modelled as it bears on the letters a to z (\<open>lower_name\<close>); where a mailbox is compared it is the parameter
    \<open>lower\<close>. The calls of remembered approvals read a clock that does not go back (\<open>remembering\<close>); nothing in
    the code ensures that.
  \<^item> A call of the board takes the project's state and returns a refusal or the answer with the new state; \<open>Store.locked\<close> reads
    the saved state back after a refusal, so a refused call leaves it as it was (\<open>commit\<close>, and \<open>state_after\<close> for approvals). One call reads the clock and makes
    an id once (a \<open>stamp\<close>). Cutting a name to 200 characters counts bytes in the model and UTF-16 units in the code.

  What the properties show. In this theory: the balances are never overdrawn, because every call refines the ledger; what a
  reservation may take; the life of an attempt, from an exclusive dispatch to one settlement within its hold; retries that
  answer the same and move nothing; purchases and leases; recovery, decisions and failures. Contract_Properties: prices,
  reports, periods, a member's limit. Billing_Properties: deliveries of Stripe's events (also an old one, after other calls), where credits come from, a purchase.
  Board_Properties: the limits of a family of tasks, the record of their phases, who may move one, the revision a change
  names, a repeated command; the limits, the order and the fairness of the Ready queue; what a move of a card asks for.
  Workspace_Properties: a claim of the Ready scheduler starts once, only confirmed requests reach admission, and keeping hunks
  makes the text that was shown. Schedule_Properties: a checked schedule, the instant of a local time, the slots, a pass.
  Version_Properties: the order of versions, the newest of a range, what a caret takes. Approval_Properties: what may be
  remembered and by whom, what a grant covers, that a revocation and a declined offer are final, also through recovery, and, within
  the bounds of the saved rows and while the clock does not go back, that what is saved loads again and a covered request's writes
  go ahead; they stay within its grant. A digest names one pattern there if the two texts compared do not collide (\<open>no_collision\<close>).
  Sample_Answers ends with two runs where the code and its comments part.

  Not modelled: the dollar figures and sentences shown to people (floating point and prose); the PostgreSQL repository (SQL
  text); the account service, whose memberships and sign-ins are arguments; the services that look up a membership before
  calling the funding service; issuing plans and entitlements (\<open>commercial.ts\<close>), of which only grants as they are read are
  modelled; provider routing and inference; the desktop's documents, engines and sessions, task scopes and model
  reviewers, the runs of an automation, the client, shell and relay.
\<close>

section \<open>Balances\<close>

text \<open>C1. In every state the service reaches, at every instant from its clock on, what is held or settled against
  the credits a billing scope bought never exceeds what it bought.\<close>

theorem bought_credits_never_overdrawn:
  assumes "reachable clock s" and "clock \<le> now"
  shows "bought_committed t o' now s \<le> bought t o' s"
  using reachable_ok [OF assms(1)] assms(2) by (simp add: ledger_ok_def bought_ok_def)

lemma bought_credits_never_overdrawn_example:
  "bought_committed ''t1'' ''org1'' march sample_state \<le> bought ''t1'' ''org1'' sample_state
   \<and> bought_committed ''t1'' ''org1'' march sample_state = 12000000 \<and> bought ''t1'' ''org1'' sample_state = 25000000"
  using bought_credits_never_overdrawn [OF sample_reachable(3), of march "''t1''" "''org1''"] sample_balances by simp

text \<open>C2. In every state the service reaches, a month's holds, settled debits and withdrawals never exceed its grant
  and its corrections.\<close>

theorem months_never_overspent:
  assumes "reachable clock s"
  shows "month_committed t o' p s \<le> month_funded t o' p s"
  using reachable_ok [OF assms] by (simp add: ledger_ok_def money_ok_def months_ok_def)

lemma months_never_overspent_example:
  "month_committed ''t1'' ''org1'' ''2026-03'' sample_state \<le> month_funded ''t1'' ''org1'' ''2026-03'' sample_state
   \<and> month_funded ''t1'' ''org1'' ''2026-03'' sample_state = 50000000"
  using months_never_overspent [OF sample_reachable(3), of "''t1''" "''org1''" "''2026-03''"] sample_balances by simp

text \<open>C3. Every call refines the abstract ledger: what it leaves is reached from what it found by moves that each keep
  within the free balances, so a call never does what the ledger does not allow.\<close>

theorem calls_refine_ledger:
  assumes "reachable clock s"
  shows "(ledger_move now)\<^sup>*\<^sup>* s (serve now call s)"
  by (rule serve_refines [OF reachable_rows [OF assms]])

lemma calls_refine_ledger_example:
  "(ledger_move march)\<^sup>*\<^sup>* sample_state (serve march (SettlePurchased ''t1'' ''org1'' ''h1'' ''p1'' 500000) sample_state)"
  by (rule calls_refine_ledger [OF sample_reachable(3)])

section \<open>Reserving\<close>

text \<open>C4. A new reservation holds exactly its ceiling, the month first: no more of the month than is free there and no
  more of the bought credits than is free, and bought credits only when the month is used up.\<close>

theorem reserve_within_balances:
  assumes "reserve now input s = Inr (a, s')" and "tx_attempt (ri_tenantId input) (ri_attemptId input) s = None"
  shows "\<exists>period s1. records_period period s s1 \<and> fa_periodId a = cp_periodId period
    \<and> fa_monthlyHoldMicroUsd a + fa_topUpHoldMicroUsd a = ri_maxMicroUsd input
    \<and> 0 \<le> fa_monthlyHoldMicroUsd a \<and> 0 \<le> fa_topUpHoldMicroUsd a
    \<and> fa_monthlyHoldMicroUsd a \<le> month_free (ri_tenantId input) (ri_organizationId input) (fa_periodId a) s1
    \<and> fa_topUpHoldMicroUsd a \<le> bought_free (ri_tenantId input) (ri_organizationId input) now s1
    \<and> (0 < fa_topUpHoldMicroUsd a \<longrightarrow>
         fa_monthlyHoldMicroUsd a = month_free (ri_tenantId input) (ri_organizationId input) (fa_periodId a) s1)"
  using assms
proof (rule reserve_keeps_limits)
  fix job period s1
  assume "records_period period s s1" "fa_periodId a = cp_periodId period" "fa_maxMicroUsd a = ri_maxMicroUsd input"
    "fa_monthlyHoldMicroUsd a + fa_topUpHoldMicroUsd a = fa_maxMicroUsd a"
    "0 \<le> fa_monthlyHoldMicroUsd a" "0 \<le> fa_topUpHoldMicroUsd a"
    "fa_monthlyHoldMicroUsd a \<le> month_free (ri_tenantId input) (ri_organizationId input) (cp_periodId period) s1"
    "fa_topUpHoldMicroUsd a \<le> bought_free (ri_tenantId input) (ri_organizationId input) now s1"
    "0 < fa_topUpHoldMicroUsd a \<Longrightarrow>
       fa_monthlyHoldMicroUsd a = month_free (ri_tenantId input) (ri_organizationId input) (cp_periodId period) s1"
  then show ?thesis by (intro exI [of _ period] exI [of _ s1]) simp
qed

lemma reserve_within_balances_example:
  "\<exists>a s' period s1. reserve march (sample_input ''a1'' 60000000) sample_before = Inr (a, s')
    \<and> records_period period sample_before s1 \<and> fa_topUpHoldMicroUsd a = 10000000
    \<and> fa_monthlyHoldMicroUsd a + fa_topUpHoldMicroUsd a = ri_maxMicroUsd (sample_input ''a1'' 60000000)
    \<and> fa_topUpHoldMicroUsd a \<le> bought_free ''t1'' ''org1'' march s1"
proof -
  from returnsD [OF conjunct1 [OF sample_reserve]] obtain a s' where
    run: "reserve march (sample_input ''a1'' 60000000) sample_before = Inr (a, s')" "fa_topUpHoldMicroUsd a = 10000000" by blast
  have ids: "ri_tenantId (sample_input ''a1'' 60000000) = ''t1''" "ri_organizationId (sample_input ''a1'' 60000000) = ''org1''"
    "ri_attemptId (sample_input ''a1'' 60000000) = ''a1''" by (simp_all add: sample_input_def)
  from reserve_within_balances [OF run(1), unfolded ids, OF conjunct2 [OF sample_reserve]] run show ?thesis by blast
qed

text \<open>C5. A new reservation keeps its root job within the job's cap, and every tenant together within the company's
  ceiling when the caller sets one.\<close>

theorem reserve_within_cap_and_ceiling:
  assumes "reserve now input s = Inr (a, s')" and "tx_attempt (ri_tenantId input) (ri_attemptId input) s = None"
  shows "(\<exists>job. tx_job (ri_tenantId input) (ri_rootJobId input) s = Some job \<and> fj_state job = JobOpen
      \<and> (\<forall>used. tx_jobUsed (ri_tenantId input) (ri_rootJobId input) s' = Inr used \<longrightarrow> used \<le> fj_capMicroUsd job))
    \<and> (\<forall>amount spend. ri_companyCeilingMicroUsd input = Some amount \<longrightarrow> company_spend s' = Inr spend \<longrightarrow> spend \<le> amount)"
  using assms
proof (rule reserve_keeps_limits)
  fix job period s1
  assume "tx_job (ri_tenantId input) (ri_rootJobId input) s = Some job" "fj_state job = JobOpen"
    "\<And>used. tx_jobUsed (ri_tenantId input) (ri_rootJobId input) s' = Inr used \<Longrightarrow> used \<le> fj_capMicroUsd job"
    "\<And>amount spend. ri_companyCeilingMicroUsd input = Some amount \<Longrightarrow> company_spend s' = Inr spend \<Longrightarrow> spend \<le> amount"
  then show ?thesis by blast
qed

lemma reserve_within_cap_and_ceiling_example:
  "\<exists>a s' job. reserve march (sample_input ''a1'' 60000000) sample_before = Inr (a, s')
    \<and> tx_job ''t1'' ''job1'' sample_before = Some job \<and> 60000000 \<le> fj_capMicroUsd job \<and> (60000000 :: int) \<le> 900000000"
proof -
  from returnsD [OF conjunct1 [OF sample_reserve]] obtain a s' where
    run: "reserve march (sample_input ''a1'' 60000000) sample_before = Inr (a, s')" "company_spend s' = Inr 60000000"
      "tx_jobUsed ''t1'' ''job1'' s' = Inr 60000000" by blast
  have ids: "ri_tenantId (sample_input ''a1'' 60000000) = ''t1''" "ri_rootJobId (sample_input ''a1'' 60000000) = ''job1''"
    "ri_attemptId (sample_input ''a1'' 60000000) = ''a1''"
    "ri_companyCeilingMicroUsd (sample_input ''a1'' 60000000) = Some 900000000" by (simp_all add: sample_input_def)
  from reserve_within_cap_and_ceiling [OF run(1), unfolded ids, OF conjunct2 [OF sample_reserve]] run show ?thesis by blast
qed

text \<open>C6. When \<open>reserve\<close> records a new hold for a member of an organization (on the month that is running, not on an
  individual cycle or bought credits alone), either the member has no limit there, or what they used and hold this month
  with the new ceiling is within the limit, or within the limit and what an owner or admin approved on top, in which case
  the hold draws on bought credits only if that was approved. The attempt is recorded under the person.\<close>

theorem reserve_within_member_limit:
  assumes "reserve now input s = Inr (a, s')" and "tx_attempt (ri_tenantId input) (ri_attemptId input) s = None"
    and "ri_member input = Some (person, role)" and "ri_individualCycle input = None"
    and "\<not> (ri_boughtOnly input \<and> is_individual_scope_id (ri_organizationId input))"
  shows "\<exists>period limit. tx_period (ri_tenantId input) (ri_organizationId input) (fa_periodId a) s = Some period
    \<and> effective_limit_for role person (map setting_of (member_limits (ri_tenantId input) (ri_organizationId input) s))
        (cp_planId period) (cp_grantedMicroUsd period) = Inr limit
    \<and> (\<forall>l. el_limitMicroUsd limit = Some l \<longrightarrow>
        (\<exists>rows used approved.
           tx_memberUsage (ri_tenantId input) (ri_organizationId input) period (Some person) now s = Inr rows
         \<and> used = (case rows of [] \<Rightarrow> 0 | row # _ \<Rightarrow> mu_includedMicroUsd row + mu_purchasedMicroUsd row)
         \<and> approved = approved_allowances (ri_tenantId input) (ri_organizationId input) person (cp_periodId period) (ri_rootJobId input) s
         \<and> (used + ri_maxMicroUsd input \<le> l
             \<or> used + ri_maxMicroUsd input \<le> l + sum_list (map (\<lambda>row. nullish (lr_extraMicroUsd row) 0) approved)
               \<and> (fa_topUpHoldMicroUsd a \<le> 0 \<or> list_ex lr_allowPurchased approved))))
    \<and> \<lparr>ap_tenantId = ri_tenantId input, ap_attemptId = ri_attemptId input,
         ap_organizationId = ri_organizationId input, ap_personId = person\<rparr> \<in> set (st_attemptPeople s')"
proof -
  from assms obtain companyCeiling where new: "reserve_new now input companyCeiling None False (Some (person, role)) s = Inr (a, s')"
    by (cases rule: reserve_Inr [OF assms(1)]) auto
  then show ?thesis
  proof (cases rule: reserve_new_Inr)
    case (1 job period s1 month bought used monthlyAvailable topUpAvailable monthly topUp)
    note period = reserve_period_Inr [OF 1(4)]
    have same: "s1 = s" by (rule period(4)) simp
    have found: "tx_period (ri_tenantId input) (ri_organizationId input) (fa_periodId a) s = Some period"
      using records_period_read [OF period(1)] period(2,3) by (simp add: same 1(13))
    have person: "\<lparr>ap_tenantId = ri_tenantId input, ap_attemptId = ri_attemptId input,
         ap_organizationId = ri_organizationId input, ap_personId = person\<rparr> \<in> set (st_attemptPeople s')"
      by (simp add: 1(14) save_attemptPerson_def)
    have "fa_topUpHoldMicroUsd a = topUp" by (simp add: 1(13))
    from 1(11) [OF refl] found person this show ?thesis unfolding same
      by (cases rule: enforce_memberLimit_Inr) (rule exI [of _ period], auto)+
  qed
qed

lemma reserve_within_member_limit_example:
  "\<exists>a s' limit rows. reserve march (member_input ''a1'' 3000000) sample_limited = Inr (a, s')
    \<and> tx_memberUsage ''t1'' ''org1'' sample_period (Some ''p1'') march sample_limited = Inr rows
    \<and> effective_limit_for Member ''p1'' (map setting_of (member_limits ''t1'' ''org1'' sample_limited))
        (cp_planId sample_period) (cp_grantedMicroUsd sample_period) = Inr limit
    \<and> \<lparr>ap_tenantId = ''t1'', ap_attemptId = ''a1'', ap_organizationId = ''org1'', ap_personId = ''p1''\<rparr> \<in> set (st_attemptPeople s')"
proof -
  from returnsD [OF conjunct1 [OF sample_limit]] obtain a s' where
    run: "reserve march (member_input ''a1'' 3000000) sample_limited = Inr (a, s')" "fa_periodId a = cp_periodId sample_period" by blast
  have limit: "effective_limit_for Member ''p1'' (map setting_of (member_limits ''t1'' ''org1'' sample_limited))
      (cp_planId sample_period) (cp_grantedMicroUsd sample_period) = Inr \<lparr>el_limitMicroUsd = Some 3000000, el_source = FromPerson\<rparr>"
    and found: "tx_period ''t1'' ''org1'' (cp_periodId sample_period) sample_limited = Some sample_period"
    and fresh: "tx_attempt ''t1'' ''a1'' sample_limited = None"
    using sample_limit by blast+
  have ids: "ri_tenantId (member_input ''a1'' 3000000) = ''t1''" "ri_organizationId (member_input ''a1'' 3000000) = ''org1''"
    "ri_attemptId (member_input ''a1'' 3000000) = ''a1''" "ri_member (member_input ''a1'' 3000000) = Some (''p1'', Member)"
    "ri_individualCycle (member_input ''a1'' 3000000) = None" "\<not> ri_boughtOnly (member_input ''a1'' 3000000)"
    by (simp_all add: member_input_def sample_input_def)
  from reserve_within_member_limit [OF run(1), unfolded ids(1-3), OF fresh ids(4,5)] ids(6) limit found run
  show ?thesis by auto
qed

section \<open>The life of an attempt\<close>

text \<open>C7. In every state the service reaches, an attempt is settled exactly when one settlement is recorded for it, and that
  settlement's two debits add up to its charge and stay within the two halves of the hold.\<close>

theorem settled_exactly_once:
  assumes "reachable clock s" and "tx_attempt t i s = Some a"
  shows "length (filter (\<lambda>se. se_tenantId se = t \<and> se_reservationId se = i) (st_settlements s))
      = (if fa_state a = Settled then 1 else 0)
    \<and> (\<forall>se \<in> set (st_settlements s). se_tenantId se = t \<and> se_reservationId se = i \<longrightarrow> settlement_matches a se)"
proof -
  note rows = rows_ok_parts [OF reachable_rows [OF assms(1)]]
  let ?mine = "\<lambda>se. se_tenantId se = t \<and> se_reservationId se = i"
  have found: "tx_settlement t i s = find ?mine (st_settlements s)" by (simp add: tx_settlement_def)
  have at_most: "length (filter ?mine (st_settlements s)) \<le> 1"
    by (rule distinct_key_filter [of "\<lambda>r. (se_tenantId r, se_reservationId r)" _ _ "(t, i)"])
      (use rows(1) in \<open>auto simp: keys_ok_def\<close>)
  have recorded: "fa_state a = Settled \<and> settlement_matches a se" if "se \<in> set (st_settlements s)" "?mine se" for se
    using rows(3) that assms(2) by (auto simp: settlements_ok_def split: option.splits)
  show ?thesis
  proof (cases "fa_state a = Settled")
    case True
    with attempts_okD(4) [OF rows(2) assms(2)] have "find ?mine (st_settlements s) \<noteq> None" by (simp add: found)
    then have "filter ?mine (st_settlements s) \<noteq> []" by (auto simp: find_None_iff filter_empty_conv)
    with at_most True recorded show ?thesis by (cases "filter ?mine (st_settlements s)") auto
  next
    case False
    with recorded show ?thesis by (auto simp: filter_empty_conv)
  qed
qed

lemma settled_exactly_once_example:
  "length (filter (\<lambda>se. se_tenantId se = ''t1'' \<and> se_reservationId se = ''a1'') (st_settlements sample_closed)) = 1"
proof -
  from sample_closed_rows obtain a where "tx_attempt ''t1'' ''a1'' sample_closed = Some a" "fa_state a = Settled" by auto
  with settled_exactly_once [OF sample_reachable(4)] show ?thesis by simp
qed

text \<open>C8. A settled, released or written-off attempt never changes again, and neither does its settlement, whatever
  calls follow.\<close>

theorem resolved_attempt_is_final:
  assumes "reachable clock s" and "tx_attempt t i s = Some a" and "is_terminal_reservation (fa_state a)"
  shows "tx_attempt t i (serve_all calls s) = Some a
    \<and> (tx_settlement t i s \<noteq> None \<longrightarrow> tx_settlement t i (serve_all calls s) = tx_settlement t i s)"
  using serve_all_history [OF reachable_rows [OF assms(1)], of calls] resolved_stays [OF assms(2,3)] settlement_stays
  by auto

lemma resolved_attempt_is_final_example:
  "tx_attempt ''t1'' ''a1'' (serve_all [(march, ReleaseAttempt ''t1'' ''org1'' ''a1''), (march, RecoverAfterRestart ''t1'' ''org1'')]
     sample_closed) = tx_attempt ''t1'' ''a1'' sample_closed"
proof -
  from sample_closed_rows obtain a where a: "tx_attempt ''t1'' ''a1'' sample_closed = Some a" "fa_state a = Settled" by auto
  have "is_terminal_reservation (fa_state a)" unfolding a(2) by code_simp
  from resolved_attempt_is_final [OF sample_reachable(4) a(1) this] a(1) show ?thesis by presburger
qed

text \<open>C9. In every state the service reaches, a hold that was sent is released only on a provider's refusal that bills
  nothing, and only a hold that was sent is uncertain, settled or written off.\<close>

theorem sent_hold_never_released_unused:
  assumes "reachable clock s" and "tx_attempt t i s = Some a"
  shows "(fa_state a = Released \<and> was_sent a \<longrightarrow> provider_refused a)
    \<and> (fa_state a = Uncertain \<or> fa_state a = Settled \<or> fa_state a = WrittenOff \<longrightarrow> was_sent a)"
  using attempts_okD(1) [OF rows_ok_parts(2) [OF reachable_rows [OF assms(1)]] assms(2)] by (simp add: attempt_ok_def)

lemma sent_hold_never_released_unused_example:
  "\<exists>a. tx_attempt ''t1'' ''a1'' sample_closed = Some a \<and> was_sent a"
proof -
  from sample_closed_rows obtain a where "tx_attempt ''t1'' ''a1'' sample_closed = Some a" "fa_state a = Settled" by auto
  with sent_hold_never_released_unused [OF sample_reachable(4)] show ?thesis by blast
qed

text \<open>C10. An attempt is claimed for dispatch at most once: after a claim, and whatever calls follow, every other claim of
  it is refused and changes nothing.\<close>

theorem dispatched_at_most_once:
  assumes "reachable clock s" and "mark_dispatched now t o' i s = (Inr a, s')"
  shows "\<exists>e. mark_dispatched later t org i (serve_all calls s') = (Inl e, serve_all calls s')"
proof -
  have rows: "rows_ok s" by (rule reachable_rows [OF assms(1)])
  have rows': "rows_ok s'" by (rule rows_ok_moves [OF mark_dispatched_refines [OF assms(2) rows] rows])
  from assms(2) rows_ok_parts(1) [OF rows] have sent: "\<exists>b. tx_attempt t i s' = Some b \<and> was_sent b"
  proof (cases rule: mark_dispatched_cases)
    case (sent old)
    with tx_attempt_key [OF sent(2)] show ?thesis by (auto simp: tx_attempt_save was_sent_def)
  qed simp_all
  then obtain b where b: "tx_attempt t i s' = Some b" "was_sent b" by blast
  note run = serve_all_history [OF rows', of calls]
  from history_attempt [OF conjunct1 [OF run] b(1)] obtain c where
    c: "tx_attempt t i (serve_all calls s') = Some c" "attempt_follows b c" by blast
  with b(2) have "was_sent c" by (auto simp: attempt_follows_def was_sent_def)
  with c(1) show ?thesis by (rule sent_twice_refused) (use run rows_ok_parts(1) in blast)
qed

lemma dispatched_at_most_once_example:
  "\<exists>a s' e. mark_dispatched march ''t1'' ''org1'' ''a1'' sample_unsent = (Inr a, s')
    \<and> mark_dispatched (march + 1) ''t1'' ''org1'' ''a1'' s' = (Inl e, s')"
proof -
  from sample_dispatch obtain a s' where run: "mark_dispatched march ''t1'' ''org1'' ''a1'' sample_unsent = (Inr a, s')"
    by (auto split: prod.splits sum.splits)
  from dispatched_at_most_once [OF sample_reachable(2) run, of "march + 1" "''org1''" "[]"] run show ?thesis
    by (auto simp: serve_all_def)
qed

text \<open>C11. History is only appended to: whatever calls follow, the recorded settlements, top-ups, corrections and periods
  stay as they are, in order, at the start of the later ones.\<close>

theorem history_only_grows:
  assumes "reachable clock s"
  shows "prefix (st_settlements s) (st_settlements (serve_all calls s)) \<and> prefix (st_topUps s) (st_topUps (serve_all calls s))
    \<and> prefix (st_adjustments s) (st_adjustments (serve_all calls s)) \<and> prefix (st_periods s) (st_periods (serve_all calls s))"
  using serve_all_history [OF reachable_rows [OF assms], of calls] by (simp add: history_def)

lemma history_only_grows_example:
  "prefix (st_topUps sample_state)
     (st_topUps (serve_all [(march, RecordTopUp ''t1'' ''org1'' ''top2'' 5000000 ''stripe'' ''evt2'')] sample_state))"
  using history_only_grows [OF sample_reachable(3)] by blast

text \<open>A settlement that is recorded debits the report's cost at the attempt's charge, or at its provider rate when it
  has none: the month's hold first and bought credits for the rest, never more than was held.\<close>

theorem settlement_debits_cost:
  assumes "settle_attempt now t o' i receipt usage raw from s = Inr (SettledAs se, s')" and "tx_settlement t i s = None"
  shows "\<exists>a u providerCost cost. tx_attempt t i s = Some a \<and> validate_provider_usage usage raw = ValidUsage u
    \<and> usage_cost (fa_rateSnapshot a) u = Inr providerCost
    \<and> (case fa_chargeSnapshot a of None \<Rightarrow> cost = providerCost | Some charge \<Rightarrow> usage_cost charge u = Inr cost)
    \<and> se_providerCostMicroUsd se = providerCost \<and> se_allowanceDebitMicroUsd se = cost \<and> cost \<le> fa_maxMicroUsd a
    \<and> se_monthlyDebitMicroUsd se = min cost (fa_monthlyHoldMicroUsd a)
    \<and> se_topUpDebitMicroUsd se = cost - min cost (fa_monthlyHoldMicroUsd a)
    \<and> tx_settlement t i s' = Some se"
  using assms(1)
proof (cases rule: settle_attempt_Inr)
  case (fresh a u providerCost cost se')
  from fresh(6) have costs: "usage_cost (fa_rateSnapshot a) u = Inr providerCost"
    "case fa_chargeSnapshot a of None \<Rightarrow> cost = providerCost | Some charge \<Rightarrow> usage_cost charge u = Inr cost"
    by (auto simp: attempt_costs_def rbind_Inr_iff split: option.splits)
  have "tx_settlement t i s' = Some se"
    using fresh(1,8,9,10) tx_attempt_key [OF fresh(2)] by (simp add: tx_settlement_save_fresh read_frames settlement_of_Inr)
  with fresh costs show ?thesis by (intro exI [of _ a] exI [of _ u]) (auto simp: settlement_of_Inr)
qed (use assms(2) in simp_all)

lemma settlement_debits_cost_example:
  "\<exists>se s' a. settle_attempt march ''t1'' ''org1'' ''a1'' ''receipt1'' sample_counts JUndef FromResponse sample_state = Inr (SettledAs se, s')
    \<and> tx_attempt ''t1'' ''a1'' sample_state = Some a \<and> 5400000 \<le> fa_maxMicroUsd a \<and> tx_settlement ''t1'' ''a1'' s' = Some se"
proof -
  from sample_settledE obtain se s' where
    run: "settle_attempt march ''t1'' ''org1'' ''a1'' ''receipt1'' sample_counts JUndef FromResponse sample_state = Inr (SettledAs se, s')"
      "se_allowanceDebitMicroUsd se = 5400000" by metis
  have "tx_settlement ''t1'' ''a1'' sample_state = None" using sample_attempt by (simp add: tx_settlement_def)
  from settlement_debits_cost [OF run(1) this] run show ?thesis by auto
qed

text \<open>When the provider's rate is within the charge's ceilings on every class and band, a settlement costs the provider
  no more than was held, so what the company may owe only falls.\<close>

theorem settlement_lowers_company_spend:
  assumes "reachable clock s" and "settle_attempt now t o' i receipt usage raw from s = Inr (SettledAs se, s')"
    and "tx_attempt t i s = Some a"
    and "case fa_chargeSnapshot a of None \<Rightarrow> True
      | Some charge \<Rightarrow> ceiling_failures (cs_tier charge) (fa_route a) (fa_rateSnapshot a) charge (cs_ceilingMicroUsdPerCredit charge) = []
          \<and> ceiling_schema_ok (cs_ceilingMicroUsdPerCredit charge)"
    and "company_spend s = Inr before" and "company_spend s' = Inr spend"
  shows "spend \<le> before"
  using assms(2)
proof (cases rule: settle_attempt_Inr)
  case (fresh old u providerCost cost se')
  note rows = reachable_rows [OF assms(1)] and key = tx_attempt_key [OF fresh(2)]
  have old: "old = a" "is_held a" using fresh(2,4) assms(3) by (auto simp: is_held_def)
  have wf: "usage_wf u" by (rule validate_provider_usage_wf [OF fresh(5)])
  have nonneg: "prices_nonneg (fa_rateSnapshot a)" "\<And>charge. fa_chargeSnapshot a = Some charge \<Longrightarrow> prices_nonneg charge"
    using attempts_okD(2) [OF rows_ok_parts(2) [OF rows] assms(3)] by (auto simp: attempt_terms_ok_def)
  have "providerCost \<le> cost"
  proof (cases "fa_chargeSnapshot a")
    case None
    with fresh(6) old show ?thesis by (auto simp: attempt_costs_def rbind_Inr_iff)
  next
    case (Some charge)
    with fresh(6) old have costs: "usage_cost (fa_rateSnapshot a) u = Inr providerCost" "usage_cost charge u = Inr cost"
      by (auto simp: attempt_costs_def rbind_Inr_iff)
    from Some assms(4) have amount: "ceiling_failures (cs_tier charge) (fa_route a) (fa_rateSnapshot a) charge (cs_ceilingMicroUsdPerCredit charge) = []"
      "ceiling_schema_ok (cs_ceilingMicroUsdPerCredit charge)" by simp_all
    from ceiling_bounds_cost [OF amount nonneg(1) nonneg(2) [OF Some] wf] costs show ?thesis
      by (simp add: usage_cost_wf [OF wf] Let_def micro_Inr_iff split: if_splits)
  qed
  moreover have "spend = before + providerCost - fa_maxMicroUsd a"
  proof -
    have "company_spend (save_settlement se (save_attempt (a\<lparr>fa_state := Settled, fa_resolvedAt := Some now\<rparr>) s)) = Inr spend"
      using assms(6) old(1) fresh(9,10) by simp
    from settle_company_spend [OF assms(3) old(2) _ _ assms(5) this] key old(1) fresh(8,9) show ?thesis
      by (simp add: settlement_of_Inr)
  qed
  ultimately show ?thesis using fresh(7) old by simp
qed (use assms(5,6) in simp_all)

lemma settlement_lowers_company_spend_example:
  "\<exists>se s' spend. settle_attempt march ''t1'' ''org1'' ''a1'' ''receipt1'' sample_counts JUndef FromResponse sample_state = Inr (SettledAs se, s')
    \<and> company_spend s' = Inr spend \<and> spend \<le> 60000000"
proof -
  from sample_settledE obtain se s' where
    run: "settle_attempt march ''t1'' ''org1'' ''a1'' ''receipt1'' sample_counts JUndef FromResponse sample_state = Inr (SettledAs se, s')"
      "company_spend s' = Inr 3600000" "company_spend sample_state = Inr 60000000" by metis
  from sample_terms_held obtain a where a: "tx_attempt ''t1'' ''a1'' sample_state = Some a"
    "fa_chargeSnapshot a = Some sample_charge" "fa_rateSnapshot a = sample_rate" "fa_route a = ''managed''" by auto
  have "case fa_chargeSnapshot a of None \<Rightarrow> True
      | Some charge \<Rightarrow> ceiling_failures (cs_tier charge) (fa_route a) (fa_rateSnapshot a) charge (cs_ceilingMicroUsdPerCredit charge) = []
          \<and> ceiling_schema_ok (cs_ceilingMicroUsdPerCredit charge)"
    using sample_charge_within_ceiling a(2-4) by (simp add: sample_charge_def)
  from settlement_lowers_company_spend [OF sample_reachable(3) run(1) a(1) this run(3,2)] run(1,2) show ?thesis by blast
qed

section \<open>Retries\<close>

text \<open>A retry of a reservation that answered returns the same attempt and changes nothing, at any later time.\<close>

theorem reserve_retry_same:
  assumes "reserve now input s = Inr (a, s')"
  shows "reserve later input s' = Inr (a, s')"
  by (rule reserve_retry [OF assms])

lemma reserve_retry_same_example:
  "\<exists>a s'. reserve march (sample_input ''a1'' 60000000) sample_before = Inr (a, s')
    \<and> reserve (march + 1) (sample_input ''a1'' 60000000) s' = Inr (a, s')"
  using returnsD [OF conjunct1 [OF sample_reserve]] reserve_retry_same by blast

text \<open>A retry of a settlement with the same receipt and report returns the same settlement and debits nothing more.\<close>

theorem settle_retry_same:
  assumes "settle_attempt now t o' i receipt usage raw from s = Inr (SettledAs se, s')"
  shows "settle_attempt later t o' i receipt usage raw from' s' = Inr (SettledAs se, s')"
  by (rule settle_attempt_retry [OF assms])

lemma settle_retry_same_example:
  "\<exists>se s'. settle_attempt march ''t1'' ''org1'' ''a1'' ''receipt1'' sample_counts JUndef FromResponse sample_state = Inr (SettledAs se, s')
    \<and> settle_attempt (march + 1) ''t1'' ''org1'' ''a1'' ''receipt1'' sample_counts JUndef FromResponse s' = Inr (SettledAs se, s')"
  by (rule sample_settledE) (use settle_retry_same in blast)

text \<open>Asking again for a live hold on bought credits answers with the hold already kept: at most the sweep of lapsed
  holds changes the store.\<close>

theorem hold_retry_holds_once:
  assumes "hold_purchased now t o' i person amount digest s = Inr ((hold, balance), s')"
    and "later < th_leaseUntil hold"
    and "hold_purchased later t o' i person' amount' digest' s' = Inr ((again, balance'), s'')"
  shows "again = hold \<and> person' = person \<and> amount' = amount \<and> s'' = expire_topUpHolds t o' later s'"
  by (rule hold_purchased_retry [OF assms])

lemma hold_retry_holds_once_example:
  "\<exists>hold balance s' balance'. hold_purchased march ''t1'' ''org1'' ''h1'' ''p1'' 2000000 ''d2'' sample_bought = Inr ((hold, balance), s')
    \<and> hold_purchased (march + 1000) ''t1'' ''org1'' ''h1'' ''p1'' 2000000 ''d2'' s'
        = Inr ((hold, balance'), expire_topUpHolds ''t1'' ''org1'' (march + 1000) s')"
proof -
  from returnsD [OF sample_hold] obtain answer s' again s'' where
    "hold_purchased march ''t1'' ''org1'' ''h1'' ''p1'' 2000000 ''d2'' sample_bought = Inr (answer, s')"
    "march + 1000 < th_leaseUntil (fst answer)"
    "hold_purchased (march + 1000) ''t1'' ''org1'' ''h1'' ''p1'' 2000000 ''d2'' s' = Inr (again, s'')"
    by (blast dest: returnsD)
  moreover obtain hold balance where "answer = (hold, balance)" by fastforce
  moreover obtain hold' balance' where "again = (hold', balance')" by fastforce
  ultimately have run: "hold_purchased march ''t1'' ''org1'' ''h1'' ''p1'' 2000000 ''d2'' sample_bought = Inr ((hold, balance), s')"
    "march + 1000 < th_leaseUntil hold"
    "hold_purchased (march + 1000) ''t1'' ''org1'' ''h1'' ''p1'' 2000000 ''d2'' s' = Inr ((hold', balance'), s'')" by simp_all
  from hold_retry_holds_once [OF run] run show ?thesis by blast
qed

text \<open>A retry of a recorded top-up, and of a recorded month's grant, answers with the recorded row and adds no credits.\<close>

theorem funding_retry_same:
  assumes "record_topUp now t o' i amount provider event s = Inr (topUp, s1)"
    and "allocate_period now t o' p plan src s1 = Inr (row, s2)"
  shows "record_topUp later t o' i amount provider event s1 = Inr (topUp, s1)
    \<and> allocate_period later t o' p plan src s2 = Inr (row, s2)"
  using record_topUp_again [OF assms(1)] allocate_period_again [OF assms(2)] by simp

lemma funding_retry_same_example:
  "\<exists>topUp s1. record_topUp march ''t1'' ''org1'' ''top1'' 25000000 ''stripe'' ''evt1'' empty_funding_state = Inr (topUp, s1)
    \<and> record_topUp (march + 1) ''t1'' ''org1'' ''top1'' 25000000 ''stripe'' ''evt1'' s1 = Inr (topUp, s1)"
proof -
  from returnsD [OF sample_funding] obtain topUp s1 row s2 where
    "record_topUp march ''t1'' ''org1'' ''top1'' 25000000 ''stripe'' ''evt1'' empty_funding_state = Inr (topUp, s1)"
    "allocate_period march ''t1'' ''org1'' ''2026-03'' ''workflow-starter'' ''grant1'' s1 = Inr (row, s2)"
    by (blast dest: returnsD)
  with funding_retry_same show ?thesis by blast
qed

text \<open>Keep going raises a job's cap by exactly its tier's amount, and a repeat of the same press adds nothing.\<close>

theorem keep_going_adds_once:
  assumes "reachable clock s" and "keep_going t o' i atCap amounts s = Inr (answer, s')" and "kg_raised answer"
  shows "(\<exists>job tier. tx_job t i s = Some job \<and> fj_tier job = Some tier \<and> fj_capMicroUsd job = atCap
      \<and> tx_job t i s' = Some (job\<lparr>fj_capMicroUsd := atCap + amounts tier, fj_capGeneration := fj_capGeneration job + 1\<rparr>))
    \<and> keep_going t o' i atCap amounts s' = Inr (answer\<lparr>kg_raised := False\<rparr>, s')"
proof -
  from keep_going_Inr [OF assms(2)] assms(3) obtain job tier where job: "tx_job t i s = Some job" "fj_tier job = Some tier"
    "fj_capMicroUsd job = atCap"
    "kg_job answer = job\<lparr>fj_capMicroUsd := atCap + amounts tier, fj_capGeneration := fj_capGeneration job + 1\<rparr>"
    "s' = save_job (kg_job answer) s"
    by auto
  have "tx_job t i s' = Some (kg_job answer)" using tx_job_key [OF job(1)] job(4,5) by (simp add: tx_job_save)
  moreover have "0 \<le> fj_capGeneration row" if "tx_job t i s = Some row" for row
    using reachable_jobs [OF assms(1)] that by (auto simp: jobs_ok_def tx_job_def dest: find_Some_in_set)
  from keep_going_again [OF assms(2,3) this] have "keep_going t o' i atCap amounts s' = Inr (answer\<lparr>kg_raised := False\<rparr>, s')" .
  ultimately show ?thesis using job by auto
qed

lemma keep_going_adds_once_example:
  "\<exists>answer s'. keep_going ''t1'' ''org1'' ''job1'' 75000000 (\<lambda>_. 75000000) sample_before = Inr (answer, s')
    \<and> keep_going ''t1'' ''org1'' ''job1'' 75000000 (\<lambda>_. 75000000) s' = Inr (answer\<lparr>kg_raised := False\<rparr>, s')"
  using returnsD [OF sample_keep_going] keep_going_adds_once [OF sample_reachable(1)] by blast

section \<open>Buying and spending credits\<close>

text \<open>C12. In every state the service reaches, a paid purchase has a recorded top-up of exactly its own credits, for its own
  business and from the event that paid it, and its price is its credits at its rate.\<close>

theorem paid_purchase_has_its_credits:
  assumes "reachable clock s" and "tx_creditPurchase t i s = Some row"
  shows "pu_amountCents row * pu_rateCredits row = pu_credits row * pu_rateCents row
    \<and> (pu_state row = PurchasePaid \<longrightarrow> (\<exists>topUp. tx_topUp t i s = Some topUp \<and> tu_amountMicroUsd topUp = pu_credits row * 100000
         \<and> tu_organizationId topUp = pu_organizationId row \<and> pu_stripeEventId row = Some (tu_sourceEventId topUp)))"
proof -
  have "purchase_ok row \<and> (pu_state row = PurchasePaid \<longrightarrow> paid_by_topUp s row)"
    using rows_ok_parts(6) [OF reachable_rows [OF assms(1)]] tx_creditPurchase_in [OF assms(2)] by (simp add: purchases_ok_def)
  with tx_creditPurchase_key [OF assms(2)] show ?thesis
    by (auto simp: purchase_ok_def paid_by_topUp_def split: option.splits)
qed

lemma paid_purchase_has_its_credits_example:
  "\<exists>topUp. tx_topUp ''t1'' ''buy1'' sample_paid = Some topUp \<and> tu_amountMicroUsd topUp = 20000000"
proof -
  from sample_paid_rows obtain row where "tx_creditPurchase ''t1'' ''buy1'' sample_paid = Some row" "pu_state row = PurchasePaid"
    "pu_credits row = 200" by auto
  with paid_purchase_has_its_credits [OF sample_reachable(6), of "''t1''" "''buy1''" row] show ?thesis by auto
qed

text \<open>An event resolves a purchase at most once: when one has, no later calls and no later event change the purchase,
  and a later event that names it is ignored and changes nothing.\<close>

theorem purchase_resolves_once:
  assumes "reachable clock s" and "resolve_creditPurchase now event s = Inr (Resolved st i, s')"
  shows "\<exists>row. tx_creditPurchase (pu_tenantId row) i s' = Some row \<and> pu_state row = st \<and> st \<noteq> PurchasePending
    \<and> tx_creditPurchase (pu_tenantId row) i (serve_all calls s') = Some row
    \<and> (\<forall>later event' st' s''. resolve_creditPurchase later event' (serve_all calls s') = Inr (Resolved st' i, s'')
         \<longrightarrow> pe_tenantId event' \<noteq> Some (pu_tenantId row))"
proof -
  have rows: "rows_ok s" by (rule reachable_rows [OF assms(1)])
  have rows': "rows_ok s'" by (rule rows_ok_moves [OF resolve_creditPurchase_refines [OF assms(2)] rows])
  from resolve_creditPurchase_Resolved [OF assms(2)] obtain old s1 where
    old: "tx_creditPurchase (pu_tenantId old) i s = Some old" "st = resolved_state (pe_kind event)"
    and s': "s' = save_creditPurchase (old\<lparr>pu_state := st, pu_resolvedAt := Some now, pu_stripeEventId := Some (pe_eventId event)\<rparr>) s1"
    by (auto simp: Let_def split: if_splits)
  define row where "row = old\<lparr>pu_state := st, pu_resolvedAt := Some now, pu_stripeEventId := Some (pe_eventId event)\<rparr>"
  have closed: "st \<noteq> PurchasePending" using old(2) by (cases "pe_kind event") simp_all
  have row: "pu_state row = st" "pu_tenantId row = pu_tenantId old" "pu_purchaseId row = pu_purchaseId old"
    by (simp_all add: row_def)
  have found: "tx_creditPurchase (pu_tenantId row) i s' = Some row"
    using tx_creditPurchase_key [OF old(1)] row s' [folded row_def] by (simp add: tx_creditPurchase_save)
  from conjunct1 [OF serve_all_history [OF rows', of calls]] found obtain final where
    "tx_creditPurchase (pu_tenantId row) i (serve_all calls s') = Some final" "purchase_follows row final"
    unfolding history_def by (metis option_followsD)
  with closed row(1) have stays: "tx_creditPurchase (pu_tenantId row) i (serve_all calls s') = Some row"
    by (auto simp: purchase_follows_def)
  have "pe_tenantId event' \<noteq> Some (pu_tenantId row)"
    if "resolve_creditPurchase later event' (serve_all calls s') = Inr (Resolved st' i, s'')" for later event' st' s''
  proof
    assume mine: "pe_tenantId event' = Some (pu_tenantId row)"
    from resolve_creditPurchase_Resolved [OF that] obtain purchase where
      again: "tx_creditPurchase (pu_tenantId purchase) i (serve_all calls s') = Some purchase"
      and pending: "pu_state purchase = PurchasePending" and named: "pe_tenantId event' = Some (pu_tenantId purchase)"
      by (elim exE conjE) (rule that)
    have "pu_tenantId purchase = pu_tenantId row" using mine named by (simp only: option.inject)
    from again [unfolded this] stays have "purchase = row" by (simp only: option.inject)
    from pending [unfolded this] row(1) closed show False by (simp only: not_True_eq_False)
  qed
  with found stays closed row(1) show ?thesis by blast
qed

lemma purchase_resolves_once_example:
  "\<exists>s' row. resolve_creditPurchase march sample_event sample_buying = Inr (Resolved PurchasePaid ''buy1'', s')
    \<and> tx_creditPurchase (pu_tenantId row) ''buy1'' (serve_all [(march, FailPurchase ''t1'' ''org1'' ''buy1'')] s') = Some row
    \<and> pu_state row = PurchasePaid"
proof -
  from returnsD [OF sample_resolved] obtain s' where
    run: "resolve_creditPurchase march sample_event sample_buying = Inr (Resolved PurchasePaid ''buy1'', s')" by blast
  from purchase_resolves_once [OF sample_reachable(5) run] run show ?thesis by blast
qed

text \<open>In every state the service reaches, what a hold on bought credits debits and what is absorbed for it stay within
  its amount, and once it is settled no later call changes it.\<close>

theorem hold_settles_within_amount:
  assumes "reachable clock s" and "tx_topUpHold t i s = Some h"
  shows "0 \<le> th_debitMicroUsd h \<and> 0 \<le> th_absorbedMicroUsd h
    \<and> th_debitMicroUsd h + th_absorbedMicroUsd h \<le> th_amountMicroUsd h
    \<and> (th_state h \<noteq> HoldSettled \<longrightarrow> th_debitMicroUsd h = 0 \<and> th_absorbedMicroUsd h = 0)
    \<and> (th_state h = HoldSettled \<longrightarrow> tx_topUpHold t i (serve_all calls s) = Some h)"
proof -
  have rows: "rows_ok s" by (rule reachable_rows [OF assms(1)])
  have "hold_ok h" using rows_ok_parts(4) [OF rows] tx_topUpHold_in [OF assms(2)] by (simp add: holds_ok_def)
  moreover have "\<exists>h'. tx_topUpHold t i (serve_all calls s) = Some h' \<and> hold_follows h h'"
    using conjunct1 [OF serve_all_history [OF rows, of calls]] assms(2) unfolding history_def by (metis option_followsD)
  ultimately show ?thesis by (auto simp: hold_ok_def hold_follows_def)
qed

lemma hold_settles_within_amount_example:
  "\<exists>h. tx_topUpHold ''t1'' ''h1'' sample_closed = Some h \<and> th_debitMicroUsd h + th_absorbedMicroUsd h \<le> 2000000
    \<and> tx_topUpHold ''t1'' ''h1'' (serve_all [(march, ReleasePurchased ''t1'' ''org1'' ''h1'' ''p1'')] sample_closed) = Some h"
proof -
  from sample_closed_rows obtain h where "tx_topUpHold ''t1'' ''h1'' sample_closed = Some h" "th_state h = HoldSettled"
    "th_amountMicroUsd h = 2000000" by auto
  with hold_settles_within_amount [OF sample_reachable(4)] show ?thesis by metis
qed

text \<open>A settle of a hold on bought credits records what was asked while its lease runs, and after the lease lapsed only
  what is still free at that moment; the rest of what was asked is absorbed, not debited.\<close>

theorem late_settle_records_what_is_free:
  assumes "settle_purchased now t o' i person debit s = Inr ((hold, balance), s')"
    and "tx_topUpHold t i s = Some old" and "th_state old \<noteq> HoldSettled"
  shows "th_debitMicroUsd hold = (if th_state old = HoldReleased \<or> th_leaseUntil old \<le> now
        then min debit (bought_free t o' now (expire_topUpHolds t o' now s)) else debit)
    \<and> th_debitMicroUsd hold + th_absorbedMicroUsd hold = debit \<and> debit \<le> th_amountMicroUsd old
    \<and> tx_topUpHold t i s' = Some hold \<and> th_state hold = HoldSettled"
proof -
  let ?s = "expire_topUpHolds t o' now s"
  from settle_purchased_Inr [OF assms(1)] obtain held where held: "tx_topUpHold t i ?s = Some held"
    "th_organizationId held = o'" "is_money debit" "settle_found now t o' debit held ?s = Inr ((hold, balance), s')"
    by metis
  note key = tx_topUpHold_key [OF held(1)]
  have was: "held = expire_hold t o' now old" using held(1) assms(2) by (simp add: tx_topUpHold_expire)
  have late: "late_settle now held \<longleftrightarrow> th_state old = HoldReleased \<or> th_leaseUntil old \<le> now"
    using was key held(2) assms(3) by (cases "th_state old") (auto simp: expire_hold_def late_settle_def)
  have open': "th_state held \<noteq> HoldSettled" "th_amountMicroUsd held = th_amountMicroUsd old"
    using was assms(3) by (auto simp: expire_hold_def)
  from held(4,3) conjunct1 [OF key] held(2) show ?thesis
  proof (cases rule: settle_found_Inr [of now t o' debit held ?s hold balance s'])
    case replay
    with open' show ?thesis by simp
  next
    case live
    then show ?thesis using late open' key by (auto simp: settles_hold_def tx_topUpHold_save)
  next
    case (late totals recorded)
    have "recorded = min debit (bought_free t o' now ?s)"
      using late(4) topUpTotals_Inr [OF late(3)] by (simp add: bought_free_def bought_committed_def)
    with late \<open>late_settle now held \<longleftrightarrow> _\<close> open' key show ?thesis by (auto simp: settles_hold_def tx_topUpHold_save)
  qed
qed

lemma late_settle_records_what_is_free_example:
  "\<exists>hold balance s'. settle_purchased (march + 3600000) ''t1'' ''org1'' ''h1'' ''p1'' 1500000 sample_state = Inr ((hold, balance), s')
    \<and> th_debitMicroUsd hold + th_absorbedMicroUsd hold = 1500000 \<and> th_state hold = HoldSettled"
proof -
  from returnsD [OF conjunct1 [OF sample_late_settle]] obtain hold balance s' where
    run: "settle_purchased (march + 3600000) ''t1'' ''org1'' ''h1'' ''p1'' 1500000 sample_state = Inr ((hold, balance), s')" by auto
  from sample_late_settle obtain old where "tx_topUpHold ''t1'' ''h1'' sample_state = Some old" "th_state old \<noteq> HoldSettled" by auto
  from late_settle_records_what_is_free [OF run this] run show ?thesis by blast
qed

section \<open>Recovery, decisions and failures\<close>

text \<open>C13. Recovery after a restart always completes, and after it no attempt of the organization is pending: the unsent holds
  are released and named so, and the sent ones are uncertain and named so.\<close>

theorem recovery_leaves_nothing_pending:
  assumes "reachable clock s" and "id_pattern t" and "id_pattern o'"
  shows "\<exists>released uncertain s'. recover_after_restart now t o' s = Inr ((released, uncertain), s')
    \<and> pending_attempts t o' s' = []
    \<and> released = map fa_id (filter (\<lambda>a. \<not> was_sent a) (pending_attempts t o' s))
    \<and> uncertain = map fa_id (filter was_sent (pending_attempts t o' s))
    \<and> (\<forall>a \<in> set (pending_attempts t o' s). \<exists>row. tx_attempt t (fa_id a) s' = Some row
         \<and> fa_state row = (if was_sent a then Uncertain else Released))"
proof -
  from recover_after_restart_total [OF assms(2,3)] obtain released uncertain s' where
    run: "recover_after_restart now t o' s = Inr ((released, uncertain), s')" by blast
  from recover_after_restart_leaves [OF run reachable_rows [OF assms(1)]] run show ?thesis by blast
qed

lemma recovery_leaves_nothing_pending_example:
  "\<exists>uncertain s'. recover_after_restart march ''t1'' ''org1'' sample_state = Inr (([], uncertain), s')
    \<and> pending_attempts ''t1'' ''org1'' s' = []"
proof -
  have "id_pattern ''t1''" "id_pattern ''org1''" by code_simp+
  from recovery_leaves_nothing_pending [OF sample_reachable(3) this, of march] returnsD [OF sample_recovery [THEN conjunct1]]
  show ?thesis by auto
qed

text \<open>A cap request is decided only by a current active owner of the organization it belongs to, and only once: an
  answered decision of a request that is no longer pending returns it unchanged and changes nothing.\<close>

theorem cap_decision_is_authorized:
  assumes "decide_capIncrease now m i ok s = Inr (row, s')"
  shows "now < ms_validUntil m \<and> ms_membershipActive m \<and> ms_membershipRole m = Owner
    \<and> ms_membershipOrganizationId m = ms_organizationId m
    \<and> (\<exists>request. tx_capRequest (ms_organizationTenantId m) i s = Some request \<and> cr_organizationId request = ms_organizationId m
         \<and> (cr_state request \<noteq> CapPending \<longrightarrow> row = request \<and> s' = s)
         \<and> (cr_state request = CapPending \<longrightarrow> cr_state row = (if ok then CapApproved else CapDeclined)
              \<and> cr_decidedBy row = Some (ms_personId m) \<and> (\<not> ok \<longrightarrow> st_jobs s' = st_jobs s)))"
  using assms
proof (cases rule: decide_capIncrease_Inr)
  case replay
  with decide_capIncrease_authorized [OF assms] show ?thesis by simp
next
  case (decline request)
  with decide_capIncrease_authorized [OF assms] show ?thesis by (simp add: save_capRequest_def)
next
  case (approve request job)
  with decide_capIncrease_authorized [OF assms] show ?thesis by simp
qed

lemma cap_decision_is_authorized_example:
  "march < ms_validUntil sample_membership \<and> ms_membershipRole sample_membership = Owner"
  using returnsD [OF sample_decisions [THEN conjunct1]] cap_decision_is_authorized by blast

text \<open>A member's ask for more is answered only by an owner or an admin; an admin answers only another person's ask
  made as a member, and an answered ask is never answered again.\<close>

theorem raise_decision_is_authorized:
  assumes "decide_raise now t o' i actor ok extra allow s = Inr (row, s')"
  shows "(ac_role actor = Owner \<or> ac_role actor = Admin)
    \<and> (\<exists>request. tx_limitRequest t i s = Some request \<and> lr_organizationId request = o'
         \<and> (ac_role actor = Admin \<longrightarrow> lr_requesterRole request = Member \<and> lr_personId request \<noteq> ac_personId actor)
         \<and> (lr_state request \<noteq> AskPending \<longrightarrow> row = request \<and> s' = s))
    \<and> same_ledger s s'"
  using decide_raise_authorized [OF assms] decide_raise_frame [OF assms] by blast

lemma raise_decision_is_authorized_example:
  "\<exists>row s'. decide_raise march ''t1'' ''org1'' ''raise1'' sample_owner False None None sample_asked = Inr (row, s')
    \<and> same_ledger sample_asked s'"
  using returnsD [OF sample_decisions [THEN conjunct2]] raise_decision_is_authorized by blast



text \<open>A correction that withdraws takes no more than the month has free, and every correction is recorded once.\<close>

theorem correction_within_month:
  assumes "record_correction now input s = Inr (row, s')" and "tx_adjustment (ci_tenantId input) (ci_adjustmentId input) s = None"
  shows "st_adjustments s' = st_adjustments s @ [row] \<and> ad_amountMicroUsd row = ci_amountMicroUsd input
    \<and> (ci_direction input = WithdrawCredits \<longrightarrow>
         ci_amountMicroUsd input \<le> month_free (ci_tenantId input) (ci_organizationId input) (ci_periodId input) s)"
  using assms(1)
proof (cases rule: record_correction_Inr)
  case (fresh period)
  have "ci_amountMicroUsd input \<le> month_free (ci_tenantId input) (ci_organizationId input) (ci_periodId input) s"
    if withdraw: "ci_direction input = WithdrawCredits"
  proof -
    from fresh(11) [OF withdraw] obtain totals available where
      "tx_periodTotals (ci_tenantId input) (ci_organizationId input) (ci_periodId input) s = Inr totals"
      "monthly_available period totals = Inr available" "ad_amountMicroUsd row \<le> available" by blast
    with monthly_available_balance [OF _ _ fresh(10)] fresh(8) show ?thesis by (simp add: month_free_def)
  qed
  with fresh show ?thesis by (simp add: save_adjustment_def)
qed (use assms(2) in simp)

lemma correction_within_month_example:
  "(20000000 :: int) \<le> month_free ''t1'' ''org1'' ''2026-03'' sample_before"
proof -
  from returnsD [OF conjunct1 [OF sample_correction]] obtain row s' where
    run: "record_correction march sample_withdrawal sample_before = Inr (row, s')" by blast
  have ids: "ci_tenantId sample_withdrawal = ''t1''" "ci_organizationId sample_withdrawal = ''org1''"
    "ci_adjustmentId sample_withdrawal = ''adj1''" "ci_periodId sample_withdrawal = ''2026-03''"
    "ci_direction sample_withdrawal = WithdrawCredits" "ci_amountMicroUsd sample_withdrawal = 20000000"
    by (simp_all add: sample_withdrawal_def)
  from correction_within_month [OF run, unfolded ids, OF conjunct2 [OF sample_correction]] show ?thesis by simp
qed

end
